(* ===== verification/Prelude.thy ===== *)
theory Prelude
  imports Complex_Main "HOL-Library.AList" "HOL-Library.Sublist"
begin

text \<open>
  What every component shares: the error values of \<^verbatim>\<open>packages/supreme-contracts/src/errors.ts\<close>,
  sequenced effects with errors (the awaited promises of the source), JavaScript \<^verbatim>\<open>Map\<close>s as
  association lists in insertion order, and the few string and number operations of the
  JavaScript standard library that the source uses.
\<close>

section \<open>Lemma collections\<close>

named_theorems js_map_simps \<open>lookups after an update or a deletion of a JavaScript Map\<close>
named_theorems eff_simps \<open>unfolding of sequenced effects\<close>

section \<open>Errors\<close>

datatype error_code =
    Unauthorized | Forbidden | Not_found | Validation_failed
  | Conflict | Rate_limited | Backend_unavailable | Internal

fun httpStatusFor :: "error_code \<Rightarrow> nat" where
  "httpStatusFor Unauthorized = 401"
| "httpStatusFor Forbidden = 403"
| "httpStatusFor Not_found = 404"
| "httpStatusFor Validation_failed = 422"
| "httpStatusFor Conflict = 409"
| "httpStatusFor Rate_limited = 429"
| "httpStatusFor Backend_unavailable = 503"
| "httpStatusFor Internal = 500"

text \<open>
  A thrown value: the typed \<^verbatim>\<open>SupremeError\<close> with its code and message, or a plain
  \<^verbatim>\<open>Error\<close> with its message.
\<close>

datatype error = SupremeError error_code string | PlainError string

fun error_message :: "error \<Rightarrow> string" where
  "error_message (SupremeError _ m) = m"
| "error_message (PlainError m) = m"

section \<open>Sequenced effects\<close>

text \<open>
  An awaited operation takes the state it may change and returns a result or a thrown error,
  with the state it leaves behind. A thrown error keeps the changes made before it.
\<close>

type_synonym ('s, 'a) eff = "'s \<Rightarrow> (error + 'a) \<times> 's"

definition eff_return :: "'a \<Rightarrow> ('s, 'a) eff" where
  "eff_return a = (\<lambda>s. (Inr a, s))"

definition eff_throw :: "error \<Rightarrow> ('s, 'a) eff" where
  "eff_throw e = (\<lambda>s. (Inl e, s))"

definition eff_bind :: "('s, 'a) eff \<Rightarrow> ('a \<Rightarrow> ('s, 'b) eff) \<Rightarrow> ('s, 'b) eff" where
  "eff_bind m f = (\<lambda>s. case m s of (Inl e, s') \<Rightarrow> (Inl e, s') | (Inr a, s') \<Rightarrow> f a s')"

definition eff_catch :: "('s, 'a) eff \<Rightarrow> (error \<Rightarrow> ('s, 'a) eff) \<Rightarrow> ('s, 'a) eff" where
  "eff_catch m h = (\<lambda>s. case m s of (Inl e, s') \<Rightarrow> h e s' | (Inr a, s') \<Rightarrow> (Inr a, s'))"

lemma eff_return_apply [simp, eff_simps]: "eff_return a s = (Inr a, s)"
  by (simp add: eff_return_def)

lemma eff_throw_apply [simp, eff_simps]: "eff_throw e s = (Inl e, s)"
  by (simp add: eff_throw_def)

lemma eff_bind_Inl [eff_simps]: "m s = (Inl e, s') \<Longrightarrow> eff_bind m f s = (Inl e, s')"
  by (simp add: eff_bind_def)

lemma eff_bind_Inr [eff_simps]: "m s = (Inr a, s') \<Longrightarrow> eff_bind m f s = f a s'"
  by (simp add: eff_bind_def)

lemma eff_bind_return [simp]: "eff_bind (eff_return a) f = f a"
  by (simp add: eff_bind_def eff_return_def)

lemma eff_bind_eq_Inr:
  "eff_bind m f s = (Inr b, t) \<longleftrightarrow> (\<exists>a s'. m s = (Inr a, s') \<and> f a s' = (Inr b, t))"
  by (auto simp: eff_bind_def split: prod.splits sum.splits)

lemma eff_bind_eq_Inl:
  "eff_bind m f s = (Inl e, t) \<longleftrightarrow>
     m s = (Inl e, t) \<or> (\<exists>a s'. m s = (Inr a, s') \<and> f a s' = (Inl e, t))"
  by (auto simp: eff_bind_def split: prod.splits sum.splits)

section \<open>JavaScript Maps\<close>

text \<open>
  A \<^verbatim>\<open>Map\<close> iterates in insertion order, and setting an existing key keeps its place:
  \<^const>\<open>AList.update\<close>, \<^const>\<open>AList.delete\<close> and \<^const>\<open>map_of\<close> of the library behave so.
\<close>

type_synonym ('k, 'v) jsmap = "('k \<times> 'v) list"

abbreviation jget :: "('k, 'v) jsmap \<Rightarrow> 'k \<Rightarrow> 'v option" where
  "jget m k \<equiv> map_of m k"

abbreviation jset :: "'k \<Rightarrow> 'v \<Rightarrow> ('k, 'v) jsmap \<Rightarrow> ('k, 'v) jsmap" where
  "jset k v m \<equiv> AList.update k v m"

abbreviation jdel :: "'k \<Rightarrow> ('k, 'v) jsmap \<Rightarrow> ('k, 'v) jsmap" where
  "jdel k m \<equiv> AList.delete k m"

abbreviation jvalues :: "('k, 'v) jsmap \<Rightarrow> 'v list" where
  "jvalues m \<equiv> map snd m"

definition jwf :: "('k, 'v) jsmap \<Rightarrow> bool" where
  "jwf m \<longleftrightarrow> distinct (map fst m)"

lemma jget_jset [simp, js_map_simps]:
  "jget (jset k v m) k' = (if k' = k then Some v else jget m k')"
  by (simp add: update_conv')

lemma jget_jdel [simp, js_map_simps]:
  "jget (jdel k m) k' = (if k' = k then None else jget m k')"
  by (simp add: delete_conv')

lemma jwf_Nil [simp, intro]: "jwf []"
  by (simp add: jwf_def)

lemma jwf_jset [simp, intro]: "jwf m \<Longrightarrow> jwf (jset k v m)"
  by (simp add: jwf_def distinct_update)

lemma jwf_jdel [simp, intro]: "jwf m \<Longrightarrow> jwf (jdel k m)"
  by (simp add: jwf_def distinct_delete)

lemma jvalues_iff: "jwf m \<Longrightarrow> v \<in> set (jvalues m) \<longleftrightarrow> (\<exists>k. jget m k = Some v)"
  by (force simp: jwf_def)

lemma jset_set_subset: "set (jset k v m) \<subseteq> insert (k, v) (set m)"
  by (induction m) auto

lemma jset_new: "jget m k = None \<Longrightarrow> jset k v m = m @ [(k, v)]"
  by (induction m) (auto split: if_splits)

section \<open>Strings and numbers of the standard library\<close>

text \<open>
  Strings are lists of 8-bit characters: identifiers, times of day and numerals are ASCII in the
  source, and the few non-ASCII characters of its messages are written as their UTF-8 bytes.
\<close>

text \<open>A nullable string in a condition: the empty string counts as absent.\<close>

definition truthy :: "string option \<Rightarrow> string option" where
  "truthy x = (if x = Some '''' then None else x)"

text \<open>The three punctuation marks of the messages.\<close>

text \<open>\<^verbatim>\<open>x ?? y\<close>\<close>

definition or_else :: "'a option \<Rightarrow> 'a \<Rightarrow> 'a" where
  "or_else x y = (case x of None \<Rightarrow> y | Some a \<Rightarrow> a)"

definition em_dash :: string where
  "em_dash = map char_of [226, 128, 148 :: nat]"

definition arrow :: string where
  "arrow = map char_of [226, 134, 146 :: nat]"

definition en_dash :: string where
  "en_dash = map char_of [226, 128, 147 :: nat]"

definition char_lower :: "char \<Rightarrow> char" where
  "char_lower c = (let n = (of_char c :: nat) in if 65 \<le> n \<and> n \<le> 90 then char_of (n + 32) else c)"

definition toLowerCase :: "string \<Rightarrow> string" where
  "toLowerCase s = map char_lower s"

definition is_space :: "char \<Rightarrow> bool" where
  "is_space c = (let n = (of_char c :: nat) in n = 32 \<or> 9 \<le> n \<and> n \<le> 13)"

definition trim :: "string \<Rightarrow> string" where
  "trim s = rev (dropWhile is_space (rev (dropWhile is_space s)))"

fun js_split :: "char \<Rightarrow> string \<Rightarrow> string list" where
  "js_split c [] = [[]]"
| "js_split c (x # xs) =
     (if x = c then [] # js_split c xs
      else (case js_split c xs of [] \<Rightarrow> [[x]] | p # ps \<Rightarrow> (x # p) # ps))"

fun show_nat :: "nat \<Rightarrow> string" where
  "show_nat n =
     (if n < 10 then [char_of (48 + n)] else show_nat (n div 10) @ [char_of (48 + n mod 10)])"

declare show_nat.simps [simp del]

definition digit_of :: "char \<Rightarrow> nat option" where
  "digit_of c = (let n = (of_char c :: nat) in if 48 \<le> n \<and> n \<le> 57 then Some (n - 48) else None)"

text \<open>The digits at the head of a string: their value, how many there are, and the rest.\<close>

fun parse_digits :: "nat \<Rightarrow> nat \<Rightarrow> string \<Rightarrow> nat \<times> nat \<times> string" where
  "parse_digits acc k [] = (acc, k, [])"
| "parse_digits acc k (c # cs) =
     (case digit_of c of None \<Rightarrow> (acc, k, c # cs)
      | Some d \<Rightarrow> parse_digits (10 * acc + d) (Suc k) cs)"

definition parse_exponent :: "rat \<Rightarrow> string \<Rightarrow> rat option" where
  "parse_exponent m s =
     (case s of [] \<Rightarrow> Some m
      | c # e \<Rightarrow>
         (if c = CHR ''e'' \<or> c = CHR ''E'' then
            (let (neg, ds) = (case e of [] \<Rightarrow> (False, [])
                | d # ds \<Rightarrow> if d = CHR ''-'' then (True, ds) else if d = CHR ''+'' then (False, ds)
                            else (False, e));
                 (n, k, r) = parse_digits 0 0 ds
             in if k = 0 \<or> r \<noteq> [] then None
                else Some (if neg then m / 10 ^ n else m * 10 ^ n))
          else None))"

definition parse_decimal :: "string \<Rightarrow> rat option" where
  "parse_decimal s =
     (let (i, k, r) = parse_digits 0 0 s;
          (f, kf, r') = (case r of c # cs \<Rightarrow> if c = CHR ''.'' then parse_digits 0 0 cs else (0, 0, r)
                         | [] \<Rightarrow> (0, 0, []))
      in if k + kf = 0 then None
         else parse_exponent (of_nat i + of_nat f / 10 ^ kf) r')"

text \<open>
  \<^verbatim>\<open>Number(s)\<close> on a string: white space is trimmed, the empty string is 0, a decimal numeral
  is its value and anything else is NaN (\<^const>\<open>None\<close>). The radix-prefixed forms (\<^verbatim>\<open>0x1F\<close>) and
  \<^verbatim>\<open>Infinity\<close>, which no value of the source takes, are read as NaN too.
\<close>

definition js_Number_of_string :: "string \<Rightarrow> rat option" where
  "js_Number_of_string s =
     (case trim s of [] \<Rightarrow> Some 0
      | c # cs \<Rightarrow> if c = CHR ''-'' then map_option uminus (parse_decimal cs)
                  else if c = CHR ''+'' then parse_decimal cs
                  else parse_decimal (c # cs))"

text \<open>\<^verbatim>\<open>n.toString().padStart(2, "0")\<close>.\<close>

definition pad :: "nat \<Rightarrow> string" where
  "pad n = (let s = show_nat n in replicate (2 - length s) (CHR ''0'') @ s)"

text \<open>\<^verbatim>\<open>Math.round\<close> rounds halves up; \<^verbatim>\<open>Math.max(lo, Math.min(hi, n))\<close> clamps.\<close>

definition js_round :: "rat \<Rightarrow> int" where
  "js_round x = \<lfloor>x + 1/2\<rfloor>"

definition clamp :: "rat \<Rightarrow> rat \<Rightarrow> rat \<Rightarrow> rat" where
  "clamp n lo hi = max lo (min hi n)"

text \<open>\<^verbatim>\<open>xs.slice(-n)\<close>: the last \<open>n\<close> elements, and all of them when \<open>n\<close> is 0 (\<^verbatim>\<open>-0\<close> is 0).\<close>

definition slice_last :: "nat \<Rightarrow> 'a list \<Rightarrow> 'a list" where
  "slice_last n xs = (if n = 0 then xs else drop (length xs - n) xs)"

lemma digit_of_char_of [simp]: "n < 10 \<Longrightarrow> digit_of (char_of (48 + n)) = Some n"
  by (simp add: digit_of_def Let_def)

lemma parse_digits_append:
  "parse_digits a k xs = (v, k', []) \<Longrightarrow> parse_digits a k (xs @ ys) = parse_digits v k' ys"
  by (induction a k xs rule: parse_digits.induct) (auto split: option.splits)

lemma parse_digits_show_nat: "\<exists>k. parse_digits 0 0 (show_nat n) = (n, Suc k, [])"
proof (induction n rule: show_nat.induct)
  case (1 n)
  show ?case
  proof (cases "n < 10")
    case True
    then show ?thesis by (simp add: show_nat.simps [of n])
  next
    case False
    with 1 obtain k where k: "parse_digits 0 0 (show_nat (n div 10)) = (n div 10, Suc k, [])"
      by blast
    have d: "digit_of (char_of (48 + n mod 10)) = Some (n mod 10)" by (rule digit_of_char_of) simp
    have "show_nat n = show_nat (n div 10) @ [char_of (48 + n mod 10)]"
      using False by (subst show_nat.simps) simp
    with parse_digits_append [OF k, of "[char_of (48 + n mod 10)]"] d show ?thesis
      by (simp del: digit_of_char_of)
  qed
qed

lemma show_nat_inject [simp]: "show_nat m = show_nat n \<longleftrightarrow> m = n"
  by (metis parse_digits_show_nat prod.inject)

lemma clamp_bounds: "lo \<le> hi \<Longrightarrow> lo \<le> clamp n lo hi \<and> clamp n lo hi \<le> hi"
  by (auto simp: clamp_def)

lemma clamp_id: "lo \<le> n \<Longrightarrow> n \<le> hi \<Longrightarrow> clamp n lo hi = n"
  by (auto simp: clamp_def)

lemma js_round_of_int [simp]: "js_round (of_int k) = k"
  unfolding js_round_def by (rule floor_unique) auto

lemma js_round_mono: "x \<le> y \<Longrightarrow> js_round x \<le> js_round y"
  by (simp add: js_round_def floor_mono)

lemma length_slice_last: "length (slice_last n xs) \<le> (if n = 0 then length xs else n)"
  by (simp add: slice_last_def) arith

lemma set_slice_last: "set (slice_last n xs) \<subseteq> set xs"
  by (auto simp: slice_last_def dest: in_set_dropD)

end
