(* ===== verification/Run_History.thy ===== *)
theory Run_History
  imports Prelude
begin

text \<open>
  The bounded history of execution traces that the automation engine and the keypad mapping engine
  both keep (\<^verbatim>\<open>this.runs.push(run); if (this.runs.length > this.historyLimit) this.runs.shift()\<close>),
  and the contract of a component that records into one, as the locale \<open>run_history\<close>.
\<close>

definition push_history :: "nat \<Rightarrow> 'r \<Rightarrow> 'r list \<Rightarrow> 'r list" where
  "push_history bnd r rs = (let rs' = rs @ [r] in if length rs' > bnd then tl rs' else rs')"

text \<open>\<^verbatim>\<open>recentRuns\<close>: the last \<open>n\<close> of the runs that satisfy \<open>p\<close>, newest first.\<close>

definition recent :: "('r \<Rightarrow> bool) \<Rightarrow> nat \<Rightarrow> 'r list \<Rightarrow> 'r list" where
  "recent p n rs = rev (slice_last n (filter p rs))"

lemma push_history_bound: "length rs \<le> bnd \<Longrightarrow> length (push_history bnd r rs) \<le> bnd"
  by (auto simp: push_history_def Let_def)

lemma push_history_last: "0 < bnd \<Longrightarrow> length rs \<le> bnd \<Longrightarrow> \<exists>rs'. push_history bnd r rs = rs' @ [r]"
  by (cases rs) (auto simp: push_history_def Let_def)

lemma push_history_drop:
  assumes "length rs \<le> bnd"
  shows "push_history bnd r rs = drop (Suc (length rs) - bnd) (rs @ [r])"
proof (cases "length rs < bnd")
  case False
  with assms have "length rs = bnd" by simp
  then show ?thesis by (simp add: push_history_def Let_def drop_Suc del: drop_append)
qed (simp add: push_history_def Let_def)

lemma drop_snoc_window:
  "drop (Suc (length (drop (length ys - n) ys)) - n) (drop (length ys - n) ys @ [r]) =
   drop (Suc (length ys) - n) (ys @ [r])"
proof (cases "length ys \<le> n")
  case False
  have "drop (length ys - n) ys @ [r] = drop (length ys - n) (ys @ [r])" by simp
  with False show ?thesis by (simp only: drop_drop) (simp add: Suc_diff_le)
qed simp

lemma push_history_set: "set (push_history bnd r rs) \<subseteq> insert r (set rs)"
  by (cases rs) (auto simp: push_history_def Let_def)

lemma recent_set: "r \<in> set (recent p n rs) \<Longrightarrow> p r \<and> r \<in> set rs"
  using set_slice_last [of n "filter p rs"] by (auto simp: recent_def)

lemma recent_length: "0 < n \<Longrightarrow> length (recent p n rs) \<le> n"
  using length_slice_last [of n "filter p rs"] by (simp add: recent_def)

lemma recent_snoc: "0 < n \<Longrightarrow> p r \<Longrightarrow> hd (recent p n (rs @ [r])) = r"
  by (auto simp: recent_def slice_last_def hd_rev last_drop)

lemma recent_snoc_Cons: "0 < n \<Longrightarrow> p r \<Longrightarrow> \<exists>rest. recent p n (rs @ [r]) = r # rest"
  by (auto simp: recent_def slice_last_def Suc_diff_le not_less_eq_eq)

lemma recent_suffix:
  assumes "0 < n" "n \<le> length zs" "list_all p zs"
  shows "recent p n (ys @ zs) = recent p n zs"
proof -
  from assms(3) have "filter p zs = zs" by (induction zs) auto
  with assms(1,2) show ?thesis by (simp add: recent_def slice_last_def)
qed

locale run_history =
  fixes hist :: "'s \<Rightarrow> 'r list" and bnd :: "'s \<Rightarrow> nat" and rec :: "'r \<Rightarrow> 's \<Rightarrow> 's"
  assumes hist_rec: "hist (rec r s) = push_history (bnd s) r (hist s)"
    and bnd_rec: "bnd (rec r s) = bnd s"
begin

lemma bnd_fold: "bnd (fold rec rs s) = bnd s"
  by (induction rs arbitrary: s) (simp_all add: bnd_rec)

lemma bounded_rec: "length (hist s) \<le> bnd s \<Longrightarrow> length (hist (rec r s)) \<le> bnd (rec r s)"
  by (simp add: hist_rec bnd_rec push_history_bound)

text \<open>After any number of recordings the history is exactly the newest \<open>bnd\<close> entries, in order.\<close>

lemma hist_fold:
  assumes "length (hist s) \<le> bnd s"
  shows "hist (fold rec rs s) =
    drop (length (hist s) + length rs - bnd s) (hist s @ rs)"
  using assms
proof (induction rs rule: rev_induct)
  case (snoc r rs)
  let ?ys = "hist s @ rs"
  have h: "hist (fold rec rs s) = drop (length ?ys - bnd s) ?ys" using snoc by simp
  then have len: "length (hist (fold rec rs s)) \<le> bnd s" by simp
  have "hist (fold rec (rs @ [r]) s) =
      drop (Suc (length (hist (fold rec rs s))) - bnd s) (hist (fold rec rs s) @ [r])"
    by (simp add: hist_rec bnd_fold push_history_drop [OF len])
  also have "\<dots> = drop (Suc (length ?ys) - bnd s) (?ys @ [r])"
    unfolding h by (rule drop_snoc_window)
  finally show ?case by simp
qed simp

lemma newest_rec:
  "0 < bnd s \<Longrightarrow> length (hist s) \<le> bnd s \<Longrightarrow> p r \<Longrightarrow> 0 < n \<Longrightarrow>
   hd (recent p n (hist (rec r s))) = r"
  using push_history_last [of "bnd s" "hist s" r] recent_snoc [of n p r]
  by (auto simp: hist_rec)

end

end
