(* ===== verification/Domain_Model.thy ===== *)
theory Domain_Model
  imports Prelude
begin

text \<open>
  The data model of \<^verbatim>\<open>packages/domain-model/src\<close>: capability kinds, states and commands
  (\<^verbatim>\<open>capabilities.ts\<close>), users, grants and schedule windows (\<^verbatim>\<open>users.ts\<close>), the automation DSL
  (\<^verbatim>\<open>automations-dsl.ts\<close>), intent targets (\<^verbatim>\<open>intents.ts\<close>), keypad events (\<^verbatim>\<open>keypad-events.ts\<close>)
  and keypad mappings with the validation of their schema (\<^verbatim>\<open>keypad-mapping.ts\<close>). Identifiers are
  opaque strings, ISO timestamps are the instant they denote in milliseconds, and numbers are
  exact rationals (rounding of floating-point arithmetic is not modelled).
\<close>

type_synonym device_id = string
type_synonym room_id = string
type_synonym scene_id = string
type_synonym automation_id = string
type_synonym user_id = string
type_synonym home_id = string
type_synonym grant_id = string
type_synonym keypad_mapping_id = string
type_synonym timestamp = int

section \<open>Untyped values\<close>

text \<open>
  A value of TypeScript type \<^verbatim>\<open>unknown\<close>: a missing property, \<^verbatim>\<open>null\<close>, a primitive, an object, or an
  array of objects, of which the comparators only see the length.
\<close>

datatype jsval = JUndef | JNull | JBool bool | JNum rat | JStr string | JObj | JArr nat

text \<open>A property that may be absent (\<^verbatim>\<open>optional\<close>) and may be \<^verbatim>\<open>null\<close> (\<^verbatim>\<open>nullable\<close>).\<close>

datatype 'a opt_null = Absent | Null | Val 'a

fun of_opt_null :: "('a \<Rightarrow> jsval) \<Rightarrow> 'a opt_null \<Rightarrow> jsval" where
  "of_opt_null f Absent = JUndef"
| "of_opt_null f Null = JNull"
| "of_opt_null f (Val a) = f a"

fun of_null :: "('a \<Rightarrow> jsval) \<Rightarrow> 'a option \<Rightarrow> jsval" where
  "of_null f None = JNull"
| "of_null f (Some a) = f a"

section \<open>Capabilities\<close>

datatype capability_kind =
    CkOnoff | CkBrightness | CkColor | CkTemperature | CkPosition | CkMedia
  | CkLock | CkFan | CkVacuum | CkSensor | CkRemote | CkDisplay

fun kind_name :: "capability_kind \<Rightarrow> string" where
  "kind_name CkOnoff = ''onoff''"
| "kind_name CkBrightness = ''brightness''"
| "kind_name CkColor = ''color''"
| "kind_name CkTemperature = ''temperature''"
| "kind_name CkPosition = ''position''"
| "kind_name CkMedia = ''media''"
| "kind_name CkLock = ''lock''"
| "kind_name CkFan = ''fan''"
| "kind_name CkVacuum = ''vacuum''"
| "kind_name CkSensor = ''sensor''"
| "kind_name CkRemote = ''remote''"
| "kind_name CkDisplay = ''display''"

lemma kind_name_inject [simp]: "kind_name k = kind_name k' \<longleftrightarrow> k = k'"
  by (cases k; cases k') simp_all

lemma kind_name_no_colon: "CHR '':'' \<notin> set (kind_name k)"
  by (cases k) simp_all

definition percent :: "rat \<Rightarrow> bool" where
  "percent x \<longleftrightarrow> 0 \<le> x \<and> x \<le> 100"

datatype hvac_mode = HvOff | HvHeat | HvCool | HvAuto | HvFan_only
datatype operating_mode = OmAuto | OmComfort | OmStandby | OmEconomy | OmBuilding_protection
datatype heat_cool = HcHeat | HcCool
datatype playback = Playing | Paused | Stopped | Idle
datatype repeat_mode = RepOff | RepAll | RepOne
datatype fan_preset = FpAuto | FpSleep | FpTurbo
datatype fan_direction = FdForward | FdReverse
datatype vacuum_status = VsIdle | VsCleaning | VsPaused | VsReturning | VsDocked
datatype vacuum_speed = SpQuiet | SpNormal | SpTurbo
datatype remote_button = RbUp | RbDown | RbLeft | RbRight | RbSelect | RbBack | RbMenu | RbHome
datatype display_power = DpOff | DpWarming | DpOn | DpCooling | DpUnknown

subsection \<open>Reported states\<close>

record color_state =
  c_on :: bool
  c_level :: rat
  c_hue :: "rat option"
  c_saturation :: "rat option"
  c_kelvin :: "int option"

text \<open>
  The structured \<^verbatim>\<open>status\<close> and \<^verbatim>\<open>setpoints\<close> objects of a thermostat and the device-declared
  \<^verbatim>\<open>advanced\<close> parameters are opaque here: no modelled operation reads inside them, except that
  \<^verbatim>\<open>advanced\<close> is a property bag that is merged.
\<close>

type_synonym bag = "(string, jsval) jsmap"

record temperature_state =
  t_ambientC :: rat
  t_targetC :: "rat option"
  t_targetLowC :: "rat opt_null"
  t_targetHighC :: "rat opt_null"
  t_mode :: hvac_mode
  t_controllingModeExtended :: "string opt_null"
  t_operatingMode :: "operating_mode opt_null"
  t_heatCool :: "heat_cool opt_null"
  t_status :: "bag opt_null"
  t_setpoints :: "bag opt_null"
  t_humidity :: "rat opt_null"
  t_advanced :: "bag opt_null"

record media_state =
  m_playback :: playback
  m_volume :: rat
  m_muted :: bool
  m_title :: "string option"
  m_artist :: "string option"
  m_album :: "string opt_null"
  m_source :: "string option"
  m_artworkUrl :: "string option"
  m_durationSec :: "rat opt_null"
  m_positionSec :: "rat opt_null"
  m_shuffle :: "bool opt_null"
  m_repeat :: "repeat_mode opt_null"
  m_advanced :: "bag opt_null"

record display_input = di_source :: nat  di_number :: nat

record display_state =
  d_power :: display_power
  d_input :: "display_input option"
  d_availableInputs :: "(display_input \<times> string) list"
  d_videoMuted :: "bool option"
  d_audioMuted :: "bool option"
  d_errorStatus :: "(nat \<times> nat \<times> nat \<times> nat \<times> nat \<times> nat) option"
  d_lampHours :: "(rat \<times> bool) list option"
  d_frozen :: "bool option"
  d_manufacturer :: "string option"
  d_product :: "string option"
  d_productName :: "string option"
  d_otherInfo :: "string option"
  d_pjlinkClass :: "string option"

datatype capability_state =
    OnOffState (st_on: bool)
  | BrightnessState bool rat
  | ColorState color_state
  | TemperatureState temperature_state
  | PositionState rat "bool option"
  | MediaState media_state
  | LockState bool bool
  | FanState bool fan_preset fan_direction
  | VacuumState vacuum_status vacuum_speed
  | SensorState rat string string
  | RemoteState "remote_button option"
  | DisplayState display_state

fun state_kind :: "capability_state \<Rightarrow> capability_kind" where
  "state_kind (OnOffState _) = CkOnoff"
| "state_kind (BrightnessState _ _) = CkBrightness"
| "state_kind (ColorState _) = CkColor"
| "state_kind (TemperatureState _) = CkTemperature"
| "state_kind (PositionState _ _) = CkPosition"
| "state_kind (MediaState _) = CkMedia"
| "state_kind (LockState _ _) = CkLock"
| "state_kind (FanState _ _ _) = CkFan"
| "state_kind (VacuumState _ _) = CkVacuum"
| "state_kind (SensorState _ _ _) = CkSensor"
| "state_kind (RemoteState _) = CkRemote"
| "state_kind (DisplayState _) = CkDisplay"

definition opt_ok :: "('a \<Rightarrow> bool) \<Rightarrow> 'a option \<Rightarrow> bool" where
  "opt_ok P x \<longleftrightarrow> (case x of None \<Rightarrow> True | Some a \<Rightarrow> P a)"

fun opt_null_ok :: "('a \<Rightarrow> bool) \<Rightarrow> 'a opt_null \<Rightarrow> bool" where
  "opt_null_ok P (Val a) = P a"
| "opt_null_ok P _ = True"

lemma opt_ok_simps [simp]: "opt_ok P None" "opt_ok P (Some a) = P a"
  by (simp_all add: opt_ok_def)

definition display_input_ok :: "display_input \<Rightarrow> bool" where
  "display_input_ok i \<longleftrightarrow> di_source i \<in> {1..5} \<and> di_number i \<in> {1..9}"

fun error_status_ok :: "nat \<times> nat \<times> nat \<times> nat \<times> nat \<times> nat \<Rightarrow> bool" where
  "error_status_ok (fan, lamp, temperature, coverOpen, filt, other) \<longleftrightarrow>
     fan \<le> 3 \<and> lamp \<le> 3 \<and> temperature \<le> 3 \<and> coverOpen \<le> 3 \<and> filt \<le> 3 \<and> other \<le> 3"

text \<open>The numeric bounds the state schema states.\<close>

fun state_ok :: "capability_state \<Rightarrow> bool" where
  "state_ok (BrightnessState _ l) = percent l"
| "state_ok (ColorState c) =
     (percent (c_level c) \<and> opt_ok (\<lambda>h. 0 \<le> h \<and> h \<le> 360) (c_hue c) \<and>
      opt_ok percent (c_saturation c) \<and> opt_ok (\<lambda>k. 1000 \<le> k \<and> k \<le> 10000) (c_kelvin c))"
| "state_ok (TemperatureState t) = opt_null_ok percent (t_humidity t)"
| "state_ok (PositionState p _) = percent p"
| "state_ok (MediaState m) =
     (percent (m_volume m) \<and> opt_null_ok (\<lambda>d. 0 \<le> d) (m_durationSec m) \<and>
      opt_null_ok (\<lambda>d. 0 \<le> d) (m_positionSec m))"
| "state_ok (DisplayState d) =
     (opt_ok display_input_ok (d_input d) \<and> list_all (display_input_ok \<circ> fst) (d_availableInputs d) \<and>
      opt_ok error_status_ok (d_errorStatus d) \<and> opt_ok (list_all (\<lambda>(hours, on). 0 \<le> hours)) (d_lampHours d))"
| "state_ok _ = True"

subsection \<open>Commands\<close>

datatype onoff_action = OoOn | OoOff | OoToggle
datatype brightness_action = BrSet | BrOn | BrOff
datatype position_action = PoOpen | PoClose | PoStop | PoSet
datatype media_action =
    MePlay | MePause | MeStop | MeNext | MePrevious | MeVolume | MeMute | MeUnmute | MeSource
  | MeSeek | MeShuffle | MeRepeat | MeAdvanced
datatype lock_action = LoLock | LoUnlock
datatype fan_action = FaOn | FaOff | FaPreset | FaDirection
datatype vacuum_action = VaStart | VaPause | VaStop | VaReturn | VaFan
datatype display_action =
    DaOn | DaOff | DaSetInput | DaMuteVideo | DaUnmuteVideo | DaMuteAudio | DaUnmuteAudio
  | DaMuteAv | DaUnmuteAv | DaFreeze | DaUnfreeze

record color_command =
  cc_hue :: "rat option"
  cc_saturation :: "rat option"
  cc_kelvin :: "int option"
  cc_level :: "rat option"
  cc_fadeMs :: "nat option"

record temperature_command =
  tc_targetC :: "rat option"
  tc_targetLowC :: "rat option"
  tc_targetHighC :: "rat option"
  tc_mode :: "hvac_mode option"
  tc_operatingMode :: "operating_mode option"
  tc_heatCool :: "heat_cool option"
  tc_advanced :: "bag option"

record media_command =
  mc_action :: media_action
  mc_volume :: "rat option"
  mc_source :: "string option"
  mc_positionSec :: "rat option"
  mc_shuffle :: "bool option"
  mc_repeat :: "repeat_mode option"
  mc_advanced :: "bag option"

datatype capability_command =
    CmdOnoff onoff_action
  | CmdBrightness brightness_action "rat option" "nat option"
  | CmdColor color_command
  | CmdTemperature temperature_command
  | CmdPosition position_action "rat option"
  | CmdMedia media_command
  | CmdLock lock_action
  | CmdFan fan_action "fan_preset option" "fan_direction option"
  | CmdVacuum vacuum_action "vacuum_speed option"
  | CmdRemote remote_button
  | CmdDisplay display_action "display_input option"

fun command_kind :: "capability_command \<Rightarrow> capability_kind" where
  "command_kind (CmdOnoff _) = CkOnoff"
| "command_kind (CmdBrightness _ _ _) = CkBrightness"
| "command_kind (CmdColor _) = CkColor"
| "command_kind (CmdTemperature _) = CkTemperature"
| "command_kind (CmdPosition _ _) = CkPosition"
| "command_kind (CmdMedia _) = CkMedia"
| "command_kind (CmdLock _) = CkLock"
| "command_kind (CmdFan _ _ _) = CkFan"
| "command_kind (CmdVacuum _ _) = CkVacuum"
| "command_kind (CmdRemote _) = CkRemote"
| "command_kind (CmdDisplay _ _) = CkDisplay"

definition fade_ok :: "nat option \<Rightarrow> bool" where
  "fade_ok = opt_ok (\<lambda>f. f \<le> 60000)"

text \<open>The numeric bounds the command schema states.\<close>

fun command_ok :: "capability_command \<Rightarrow> bool" where
  "command_ok (CmdBrightness _ l f) = (opt_ok percent l \<and> fade_ok f)"
| "command_ok (CmdColor c) =
     (opt_ok (\<lambda>h. 0 \<le> h \<and> h \<le> 360) (cc_hue c) \<and> opt_ok percent (cc_saturation c) \<and>
      opt_ok (\<lambda>k. 1000 \<le> k \<and> k \<le> 10000) (cc_kelvin c) \<and> opt_ok percent (cc_level c) \<and>
      fade_ok (cc_fadeMs c))"
| "command_ok (CmdPosition _ p) = opt_ok percent p"
| "command_ok (CmdMedia m) =
     (opt_ok percent (mc_volume m) \<and> opt_ok (\<lambda>x. 0 \<le> x) (mc_positionSec m))"
| "command_ok (CmdDisplay _ i) = opt_ok display_input_ok i"
| "command_ok _ = True"

definition READONLY_CAPABILITIES :: "capability_kind list" where
  "READONLY_CAPABILITIES = [CkSensor]"

lemma command_kind_commandable: "command_kind c \<notin> set READONLY_CAPABILITIES"
  by (cases c) (simp_all add: READONLY_CAPABILITIES_def)

end
