(* ===== verification/Condition_Eval.thy ===== *)
theory Condition_Eval
  imports Domain_Model
begin

text \<open>
  The condition primitives of \<^verbatim>\<open>packages/domain-model/src/condition-eval.ts\<close>, shared by the
  automation engine and the keypad mapping engine: reading a field of a capability state, the
  comparators on untyped values, and weekly schedule windows. A moment is given with its local
  calendar fields, which the time zone database of the hub determines.
\<close>

section \<open>Reading a field of a state\<close>

fun hvac_mode_name :: "hvac_mode \<Rightarrow> string" where
  "hvac_mode_name HvOff = ''off''"
| "hvac_mode_name HvHeat = ''heat''"
| "hvac_mode_name HvCool = ''cool''"
| "hvac_mode_name HvAuto = ''auto''"
| "hvac_mode_name HvFan_only = ''fan_only''"

fun operating_mode_name :: "operating_mode \<Rightarrow> string" where
  "operating_mode_name OmAuto = ''auto''"
| "operating_mode_name OmComfort = ''comfort''"
| "operating_mode_name OmStandby = ''standby''"
| "operating_mode_name OmEconomy = ''economy''"
| "operating_mode_name OmBuilding_protection = ''building_protection''"

fun heat_cool_name :: "heat_cool \<Rightarrow> string" where
  "heat_cool_name HcHeat = ''heat''"
| "heat_cool_name HcCool = ''cool''"

fun playback_name :: "playback \<Rightarrow> string" where
  "playback_name Playing = ''playing''"
| "playback_name Paused = ''paused''"
| "playback_name Stopped = ''stopped''"
| "playback_name Idle = ''idle''"

fun repeat_name :: "repeat_mode \<Rightarrow> string" where
  "repeat_name RepOff = ''off''"
| "repeat_name RepAll = ''all''"
| "repeat_name RepOne = ''one''"

fun preset_name :: "fan_preset \<Rightarrow> string" where
  "preset_name FpAuto = ''auto''"
| "preset_name FpSleep = ''sleep''"
| "preset_name FpTurbo = ''turbo''"

fun direction_name :: "fan_direction \<Rightarrow> string" where
  "direction_name FdForward = ''forward''"
| "direction_name FdReverse = ''reverse''"

fun vacuum_status_name :: "vacuum_status \<Rightarrow> string" where
  "vacuum_status_name VsIdle = ''idle''"
| "vacuum_status_name VsCleaning = ''cleaning''"
| "vacuum_status_name VsPaused = ''paused''"
| "vacuum_status_name VsReturning = ''returning''"
| "vacuum_status_name VsDocked = ''docked''"

fun vacuum_speed_name :: "vacuum_speed \<Rightarrow> string" where
  "vacuum_speed_name SpQuiet = ''quiet''"
| "vacuum_speed_name SpNormal = ''normal''"
| "vacuum_speed_name SpTurbo = ''turbo''"

fun remote_button_name :: "remote_button \<Rightarrow> string" where
  "remote_button_name RbUp = ''up''"
| "remote_button_name RbDown = ''down''"
| "remote_button_name RbLeft = ''left''"
| "remote_button_name RbRight = ''right''"
| "remote_button_name RbSelect = ''select''"
| "remote_button_name RbBack = ''back''"
| "remote_button_name RbMenu = ''menu''"
| "remote_button_name RbHome = ''home''"

fun power_name :: "display_power \<Rightarrow> string" where
  "power_name DpOff = ''off''"
| "power_name DpWarming = ''warming''"
| "power_name DpOn = ''on''"
| "power_name DpCooling = ''cooling''"
| "power_name DpUnknown = ''unknown''"

definition JInt :: "int \<Rightarrow> jsval" where
  "JInt k = JNum (of_int k)"

fun state_fields :: "capability_state \<Rightarrow> (string \<times> jsval) list" where
  "state_fields (OnOffState b) = [(''on'', JBool b)]"
| "state_fields (BrightnessState b l) = [(''on'', JBool b), (''level'', JNum l)]"
| "state_fields (ColorState c) =
     [(''on'', JBool (c_on c)), (''level'', JNum (c_level c)),
      (''hue'', of_null JNum (c_hue c)), (''saturation'', of_null JNum (c_saturation c)),
      (''kelvin'', of_null JInt (c_kelvin c))]"
| "state_fields (TemperatureState t) =
     [(''ambientC'', JNum (t_ambientC t)), (''targetC'', of_null JNum (t_targetC t)),
      (''targetLowC'', of_opt_null JNum (t_targetLowC t)),
      (''targetHighC'', of_opt_null JNum (t_targetHighC t)),
      (''mode'', JStr (hvac_mode_name (t_mode t))),
      (''controllingModeExtended'', of_opt_null JStr (t_controllingModeExtended t)),
      (''operatingMode'', of_opt_null (JStr \<circ> operating_mode_name) (t_operatingMode t)),
      (''heatCool'', of_opt_null (JStr \<circ> heat_cool_name) (t_heatCool t)),
      (''status'', of_opt_null (\<lambda>_. JObj) (t_status t)),
      (''setpoints'', of_opt_null (\<lambda>_. JObj) (t_setpoints t)),
      (''humidity'', of_opt_null JNum (t_humidity t)),
      (''advanced'', of_opt_null (\<lambda>_. JObj) (t_advanced t))]"
| "state_fields (PositionState p mv) = [(''position'', JNum p), (''moving'', of_null JBool mv)]"
| "state_fields (MediaState m) =
     [(''playback'', JStr (playback_name (m_playback m))), (''volume'', JNum (m_volume m)),
      (''muted'', JBool (m_muted m)), (''title'', of_null JStr (m_title m)),
      (''artist'', of_null JStr (m_artist m)), (''album'', of_opt_null JStr (m_album m)),
      (''source'', of_null JStr (m_source m)), (''artworkUrl'', of_null JStr (m_artworkUrl m)),
      (''durationSec'', of_opt_null JNum (m_durationSec m)),
      (''positionSec'', of_opt_null JNum (m_positionSec m)),
      (''shuffle'', of_opt_null JBool (m_shuffle m)),
      (''repeat'', of_opt_null (JStr \<circ> repeat_name) (m_repeat m)),
      (''advanced'', of_opt_null (\<lambda>_. JObj) (m_advanced m))]"
| "state_fields (LockState l j) = [(''locked'', JBool l), (''jammed'', JBool j)]"
| "state_fields (FanState b p d) =
     [(''on'', JBool b), (''preset'', JStr (preset_name p)), (''direction'', JStr (direction_name d))]"
| "state_fields (VacuumState s f) =
     [(''status'', JStr (vacuum_status_name s)), (''fanSpeed'', JStr (vacuum_speed_name f))]"
| "state_fields (SensorState v u m) =
     [(''value'', JNum v), (''unit'', JStr u), (''measure'', JStr m)]"
| "state_fields (RemoteState b) = [(''lastButton'', of_null (JStr \<circ> remote_button_name) b)]"
| "state_fields (DisplayState d) =
     [(''power'', JStr (power_name (d_power d))), (''input'', of_null (\<lambda>_. JObj) (d_input d)),
      (''availableInputs'', JArr (length (d_availableInputs d))),
      (''videoMuted'', of_null JBool (d_videoMuted d)), (''audioMuted'', of_null JBool (d_audioMuted d)),
      (''errorStatus'', of_null (\<lambda>_. JObj) (d_errorStatus d)),
      (''lampHours'', of_null (\<lambda>l. JArr (length l)) (d_lampHours d)),
      (''frozen'', of_null JBool (d_frozen d)), (''manufacturer'', of_null JStr (d_manufacturer d)),
      (''product'', of_null JStr (d_product d)), (''productName'', of_null JStr (d_productName d)),
      (''otherInfo'', of_null JStr (d_otherInfo d)),
      (''pjlinkClass'', of_null JStr (d_pjlinkClass d))]"

definition readCapabilityField :: "capability_state \<Rightarrow> string \<Rightarrow> jsval" where
  "readCapabilityField st f =
     (case map_of ((''kind'', JStr (kind_name (state_kind st))) # state_fields st) f of
        None \<Rightarrow> JUndef | Some v \<Rightarrow> v)"

section \<open>Comparators\<close>

datatype comparator = Eq | Ne | Gt | Lt | Gte | Lte | Changed

text \<open>\<^verbatim>\<open>===\<close>: an object is only identical to itself, and no two values compared here share one.\<close>

fun strict_equal :: "jsval \<Rightarrow> jsval \<Rightarrow> bool" where
  "strict_equal JUndef JUndef = True"
| "strict_equal JNull JNull = True"
| "strict_equal (JBool a) (JBool b) = (a = b)"
| "strict_equal (JNum a) (JNum b) = (a = b)"
| "strict_equal (JStr a) (JStr b) = (a = b)"
| "strict_equal _ _ = False"

text \<open>\<^verbatim>\<open>Number(v)\<close>, with \<^const>\<open>None\<close> for NaN.\<close>

fun js_Number :: "jsval \<Rightarrow> rat option" where
  "js_Number JUndef = None"
| "js_Number JNull = Some 0"
| "js_Number (JBool b) = Some (if b then 1 else 0)"
| "js_Number (JNum x) = Some x"
| "js_Number (JStr s) = js_Number_of_string s"
| "js_Number JObj = None"
| "js_Number (JArr n) = (if n = 0 then Some 0 else None)"

definition num_compare :: "(rat \<Rightarrow> rat \<Rightarrow> bool) \<Rightarrow> jsval \<Rightarrow> jsval \<Rightarrow> bool" where
  "num_compare R a b =
     (case js_Number a of None \<Rightarrow> False
      | Some x \<Rightarrow> (case js_Number b of None \<Rightarrow> False | Some y \<Rightarrow> R x y))"

fun evaluateComparator :: "jsval \<Rightarrow> comparator \<Rightarrow> jsval \<Rightarrow> bool" where
  "evaluateComparator actual Changed value = True"
| "evaluateComparator actual Eq value = strict_equal actual value"
| "evaluateComparator actual Ne value = (\<not> strict_equal actual value)"
| "evaluateComparator actual Gt value = num_compare (>) actual value"
| "evaluateComparator actual Lt value = num_compare (<) actual value"
| "evaluateComparator actual Gte value = num_compare (\<ge>) actual value"
| "evaluateComparator actual Lte value = num_compare (\<le>) actual value"

lemma num_compare_NaN:
  "js_Number a = None \<or> js_Number b = None \<Longrightarrow> \<not> num_compare R a b"
  by (auto simp: num_compare_def split: option.splits)

lemma num_compare_Some [simp]:
  "js_Number a = Some x \<Longrightarrow> js_Number b = Some y \<Longrightarrow> num_compare R a b = R x y"
  by (simp add: num_compare_def)

section \<open>Moments and schedule windows\<close>

text \<open>A \<^verbatim>\<open>Date\<close>: its instant, and the fields the local getters return.\<close>

record date =
  getTime :: int
  getDay :: nat
  getHours :: nat
  getMinutes :: nat

definition date_ok :: "date \<Rightarrow> bool" where
  "date_ok d \<longleftrightarrow> getDay d < 7 \<and> getHours d < 24 \<and> getMinutes d < 60"

record schedule_window =
  sw_days :: "nat list"
  sw_start :: string
  sw_end :: string

text \<open>\<^verbatim>\<open>const [h, m] = hhmm.split(":").map(Number)\<close>: a missing part is 0, NaN stays NaN.\<close>

definition toMinutes :: "string \<Rightarrow> rat option" where
  "toMinutes hhmm =
     (let parts = map js_Number_of_string (js_split CHR '':'' hhmm);
          h = (case parts of [] \<Rightarrow> Some 0 | h # _ \<Rightarrow> h);
          m = (case parts of _ # m # _ \<Rightarrow> m | _ \<Rightarrow> Some 0)
      in case h of None \<Rightarrow> None | Some h \<Rightarrow> (case m of None \<Rightarrow> None | Some m \<Rightarrow> Some (h * 60 + m)))"

definition minutes_of :: "date \<Rightarrow> rat" where
  "minutes_of now = of_nat (getHours now * 60 + getMinutes now)"

definition in_minutes :: "rat \<Rightarrow> rat option \<Rightarrow> rat option \<Rightarrow> bool" where
  "in_minutes x lo hi =
     (case lo of None \<Rightarrow> False
      | Some l \<Rightarrow> l \<le> x \<and> (case hi of None \<Rightarrow> False | Some h \<Rightarrow> x < h))"

definition isWithinScheduleWindow :: "schedule_window \<Rightarrow> date \<Rightarrow> bool" where
  "isWithinScheduleWindow w now =
     (getDay now \<in> set (sw_days w) \<and>
      in_minutes (minutes_of now) (toMinutes (sw_start w)) (toMinutes (sw_end w)))"

text \<open>The form the schema requires of a time of day, \<^verbatim>\<open>^\d{2}:\d{2}$\<close>.\<close>

fun hhmm_ok :: "string \<Rightarrow> bool" where
  "hhmm_ok [a, b, c, d, e] =
     (digit_of a \<noteq> None \<and> digit_of b \<noteq> None \<and> c = CHR '':'' \<and> digit_of d \<noteq> None \<and> digit_of e \<noteq> None)"
| "hhmm_ok _ = False"

lemma digit_not_space [simp]: "digit_of c = Some d \<Longrightarrow> \<not> is_space c"
  by (auto simp: digit_of_def is_space_def Let_def split: if_splits)

lemma digit_not_char:
  assumes "digit_of c = Some d"
  shows "c \<noteq> CHR '':''" "c \<noteq> CHR ''-''" "c \<noteq> CHR ''+''"
  using assms by (auto simp: digit_of_def Let_def split: if_splits)

lemma Number_two_digits:
  assumes "digit_of a = Some x" "digit_of b = Some y"
  shows "js_Number_of_string [a, b] = Some (of_nat (10 * x + y))"
  using assms digit_not_char [OF assms(1)]
  by (simp add: js_Number_of_string_def trim_def parse_decimal_def parse_exponent_def)

lemma toMinutes_hhmm:
  assumes "digit_of a = Some h1" "digit_of b = Some h0" "digit_of d = Some m1" "digit_of e = Some m0"
  shows "toMinutes [a, b, CHR '':'', d, e] =
    Some (of_nat ((10 * h1 + h0) * 60 + (10 * m1 + m0)))"
proof -
  have "js_split CHR '':'' [a, b, CHR '':'', d, e] = [[a, b], [d, e]]"
    using assms [THEN digit_not_char(1)] by simp
  then show ?thesis using assms by (simp add: toMinutes_def Number_two_digits)
qed

lemma toMinutes_ok: "hhmm_ok s \<Longrightarrow> \<exists>n. toMinutes s = Some (of_nat n)"
  by (induction s rule: hhmm_ok.induct) (auto dest: toMinutes_hhmm)

lemma in_minutes_order: "in_minutes x lo hi \<Longrightarrow> \<exists>l h. lo = Some l \<and> hi = Some h \<and> l < h"
  by (fastforce simp: in_minutes_def split: option.splits)

end
