(* ===== verification/Automation_Dsl.thy ===== *)
theory Automation_Dsl
  imports Condition_Eval
begin

text \<open>
  The automation DSL (\<^verbatim>\<open>automations-dsl.ts\<close>), intent targets (\<^verbatim>\<open>intents.ts\<close>), normalized keypad
  events (\<^verbatim>\<open>keypad-events.ts\<close>) and keypad mappings with the cross-field validation of their
  schema (\<^verbatim>\<open>keypad-mapping.ts\<close>), all under \<^verbatim>\<open>packages/domain-model/src\<close>.
\<close>

section \<open>Keypad input events\<close>

datatype swipe_direction = SwUp | SwDown | SwLeft | SwRight

datatype keypad_event_type =
    Button_pressed | Button_released | Short_press | Long_press nat | Double_press | Triple_press
  | Hold_start | Holding nat | Hold_end nat | Rotate_clockwise nat "rat option"
  | Rotate_counterclockwise nat "rat option" | Swipe swipe_direction | Gesture string

text \<open>The \<^verbatim>\<open>type\<close> discriminants alone, which triggers and mappings refer to.\<close>

datatype keypad_event_kind =
    EkButton_pressed | EkButton_released | EkShort_press | EkLong_press | EkDouble_press
  | EkTriple_press | EkHold_start | EkHolding | EkHold_end | EkRotate_clockwise
  | EkRotate_counterclockwise | EkSwipe | EkGesture

fun event_kind :: "keypad_event_type \<Rightarrow> keypad_event_kind" where
  "event_kind Button_pressed = EkButton_pressed"
| "event_kind Button_released = EkButton_released"
| "event_kind Short_press = EkShort_press"
| "event_kind (Long_press _) = EkLong_press"
| "event_kind Double_press = EkDouble_press"
| "event_kind Triple_press = EkTriple_press"
| "event_kind Hold_start = EkHold_start"
| "event_kind (Holding _) = EkHolding"
| "event_kind (Hold_end _) = EkHold_end"
| "event_kind (Rotate_clockwise _ _) = EkRotate_clockwise"
| "event_kind (Rotate_counterclockwise _ _) = EkRotate_counterclockwise"
| "event_kind (Swipe _) = EkSwipe"
| "event_kind (Gesture _) = EkGesture"

record keypad_input_event =
  ke_type :: keypad_event_type
  ke_keypadId :: device_id
  ke_control :: string
  ke_ts :: timestamp

section \<open>Triggers, conditions and actions\<close>

datatype intent_target =
    TargetDevice device_id | TargetRoom room_id | TargetScene scene_id
  | TargetAutomation automation_id | TargetHome

datatype notification_level = NlInfo | NlWarning | NlCritical

datatype automation_trigger =
    TrDevice_state device_id capability_kind string comparator jsval
  | TrTime string "nat list"
  | TrInterval nat
  | TrKeypad_input device_id string keypad_event_kind

datatype automation_condition =
    CoDevice_state device_id capability_kind string comparator jsval
  | CoTime_window schedule_window

datatype automation_action =
    AcDevice_command device_id capability_command
  | AcScene_activate scene_id
  | AcNotify notification_level string string "user_id option"
  | AcDelay nat
  | AcIntent string intent_target bag

fun trigger_type :: "automation_trigger \<Rightarrow> string" where
  "trigger_type (TrDevice_state _ _ _ _ _) = ''device_state''"
| "trigger_type (TrTime _ _) = ''time''"
| "trigger_type (TrInterval _) = ''interval''"
| "trigger_type (TrKeypad_input _ _ _) = ''keypad_input''"

fun action_type :: "automation_action \<Rightarrow> string" where
  "action_type (AcDevice_command _ _) = ''device_command''"
| "action_type (AcScene_activate _) = ''scene_activate''"
| "action_type (AcNotify _ _ _ _) = ''notify''"
| "action_type (AcDelay _) = ''delay''"
| "action_type (AcIntent _ _ _) = ''intent''"

text \<open>Only \<^verbatim>\<open>supreme\<close> is an engine of the schema; a row stored by an older release may still hold
  \<^verbatim>\<open>ha\<close>, so the field is kept as the string it is compared as.\<close>

record automation =
  a_id :: automation_id
  a_homeId :: home_id
  a_name :: string
  a_enabled :: bool
  a_triggers :: "automation_trigger list"
  a_conditions :: "automation_condition list"
  a_actions :: "automation_action list"
  a_engine :: string
  a_externalRef :: "string option"
  a_aiGenerated :: bool
  a_tags :: "string list"

fun trigger_ok :: "automation_trigger \<Rightarrow> bool" where
  "trigger_ok (TrTime hhmm days) = (hhmm_ok hhmm \<and> list_all (\<lambda>d. d \<le> 6) days)"
| "trigger_ok (TrInterval n) = (0 < n)"
| "trigger_ok (TrKeypad_input _ c _) = (c \<noteq> '''')"
| "trigger_ok _ = True"

fun action_ok :: "automation_action \<Rightarrow> bool" where
  "action_ok (AcDevice_command _ c) = command_ok c"
| "action_ok (AcDelay ms) = (ms \<le> 3600000)"
| "action_ok (AcIntent i _ _) = (i \<noteq> '''')"
| "action_ok _ = True"

section \<open>Keypad mappings\<close>

datatype keypad_behavior = Direct | Toggle | Alternate | Cycle | Increment | Decrement

datatype step_direction = DirUp | DirDown

record keypad_mapping_input =
  ki_keypadId :: device_id
  ki_control :: string
  ki_event :: keypad_event_kind

record keypad_mapping_target =
  kt_deviceId :: device_id
  kt_capability :: capability_kind
  kt_step :: rat
  kt_fadeMs :: "nat option"

record keypad_behavior_state =
  lastDirection :: "step_direction option"
  cycleIndex :: nat

record keypad_mapping =
  km_id :: keypad_mapping_id
  km_homeId :: home_id
  km_name :: string
  km_enabled :: bool
  km_input :: keypad_mapping_input
  km_conditions :: "automation_condition list"
  km_actions :: "automation_action list"
  km_behavior :: keypad_behavior
  km_target :: "keypad_mapping_target option"
  km_behaviorState :: keypad_behavior_state
  km_variables :: bag

definition TOGGLE_CAPABLE_CAPABILITIES :: "capability_kind list" where
  "TOGGLE_CAPABLE_CAPABILITIES = [CkOnoff, CkBrightness, CkFan, CkLock, CkVacuum]"

definition LEVEL_STEP_CAPABLE_CAPABILITIES :: "capability_kind list" where
  "LEVEL_STEP_CAPABLE_CAPABILITIES = [CkBrightness, CkPosition, CkColor]"

text \<open>The bounds of the target schema, and the issues \<^verbatim>\<open>superRefine\<close> adds to the mapping.\<close>

definition target_ok :: "keypad_mapping_target \<Rightarrow> bool" where
  "target_ok t \<longleftrightarrow> 1 \<le> kt_step t \<and> kt_step t \<le> 100 \<and> fade_ok (kt_fadeMs t)"

datatype mapping_issue =
    DirectNeedsAction | RequiresTarget keypad_behavior | CycleNeedsAction
  | ToggleNotSupported capability_kind | StepNotSupported keypad_behavior capability_kind

definition mapping_issues :: "keypad_mapping \<Rightarrow> mapping_issue list" where
  "mapping_issues m =
     (if km_behavior m = Direct then
        (if km_actions m = [] then [DirectNeedsAction] else [])
      else
        (if km_target m = None then [RequiresTarget (km_behavior m)] else []) @
        (if km_behavior m = Cycle \<and> km_actions m = [] then [CycleNeedsAction] else []) @
        (case km_target m of None \<Rightarrow> []
         | Some t \<Rightarrow>
             (if km_behavior m = Toggle \<and> kt_capability t \<notin> set TOGGLE_CAPABLE_CAPABILITIES
              then [ToggleNotSupported (kt_capability t)] else []) @
             (if km_behavior m \<in> {Alternate, Increment, Decrement} \<and>
                 kt_capability t \<notin> set LEVEL_STEP_CAPABLE_CAPABILITIES
              then [StepNotSupported (km_behavior m) (kt_capability t)] else [])))"

definition mapping_ok :: "keypad_mapping \<Rightarrow> bool" where
  "mapping_ok m \<longleftrightarrow>
     mapping_issues m = [] \<and> opt_ok target_ok (km_target m) \<and> list_all action_ok (km_actions m)"

lemma mapping_ok_target: "mapping_ok m \<Longrightarrow> km_behavior m \<noteq> Direct \<Longrightarrow> \<exists>t. km_target m = Some t \<and> target_ok t"
  by (auto simp: mapping_ok_def mapping_issues_def opt_ok_def split: option.splits if_splits)

lemma mapping_ok_toggle:
  "mapping_ok m \<Longrightarrow> km_behavior m = Toggle \<Longrightarrow> km_target m = Some t \<Longrightarrow>
   kt_capability t \<in> set TOGGLE_CAPABLE_CAPABILITIES"
  by (auto simp: mapping_ok_def mapping_issues_def split: if_splits)

lemma mapping_ok_step:
  "mapping_ok m \<Longrightarrow> km_behavior m \<in> {Alternate, Increment, Decrement} \<Longrightarrow> km_target m = Some t \<Longrightarrow>
   kt_capability t \<in> set LEVEL_STEP_CAPABLE_CAPABILITIES"
  by (auto simp: mapping_ok_def mapping_issues_def split: if_splits)

lemma mapping_ok_cycle: "mapping_ok m \<Longrightarrow> km_behavior m = Cycle \<Longrightarrow> km_actions m \<noteq> []"
  by (auto simp: mapping_ok_def mapping_issues_def split: if_splits)

end
