(* ===== verification/Automation_Engine.thy ===== *)
theory Automation_Engine
  imports Run_History Automation_Dsl
begin

text \<open>
  The native automation engine, \<^verbatim>\<open>services/automations/src/engine.ts\<close>. The executors the gateway
  wires in (\<^verbatim>\<open>AutomationExecutors\<close>, the sleep, the clocks and the last-run hook) are parameters, a
  record of effects on a world \<open>'w\<close>; the engine's own fields are the record \<open>engine\<close>. A handler
  runs to completion on the pair of both.
\<close>

section \<open>Executors\<close>

record 'w executors =
  ex_command :: "device_id \<Rightarrow> capability_command \<Rightarrow> ('w, unit) eff"
  ex_activateScene :: "scene_id \<Rightarrow> ('w, unit) eff"
  ex_notify :: "notification_level \<Rightarrow> string \<Rightarrow> string \<Rightarrow> user_id option \<Rightarrow> ('w, unit) eff"
  ex_getState :: "device_id \<Rightarrow> capability_kind \<Rightarrow> ('w, capability_state option) eff"
  ex_runIntent :: "(string \<Rightarrow> intent_target \<Rightarrow> bag \<Rightarrow> ('w, unit) eff) option"
  ex_sleep :: "nat \<Rightarrow> ('w, unit) eff"
  ex_onRun :: "(string \<Rightarrow> bool \<Rightarrow> 'w \<Rightarrow> 'w) option"
  ex_now :: "'w \<Rightarrow> int \<times> 'w"
  ex_date :: "'w \<Rightarrow> date \<times> 'w"

section \<open>Actions\<close>

fun runAutomationAction :: "'w executors \<Rightarrow> automation_action \<Rightarrow> ('w, unit) eff" where
  "runAutomationAction ex (AcDevice_command d c) = ex_command ex d c"
| "runAutomationAction ex (AcScene_activate s) = ex_activateScene ex s"
| "runAutomationAction ex (AcNotify l t b u) = ex_notify ex l t b u"
| "runAutomationAction ex (AcDelay ms) = ex_sleep ex ms"
| "runAutomationAction ex (AcIntent i tgt ps) =
     (case ex_runIntent ex of
        None \<Rightarrow> eff_throw (PlainError (''intent action \"'' @ i @ ''\" requires a wired Intent Engine '' @ em_dash @
                  '' this executor set does not support runIntent''))
      | Some run \<Rightarrow> run i tgt ps)"

fun describeIntentTarget :: "intent_target \<Rightarrow> string" where
  "describeIntentTarget (TargetDevice d) = d"
| "describeIntentTarget (TargetRoom r) = ''room '' @ r"
| "describeIntentTarget (TargetScene s) = ''scene '' @ s"
| "describeIntentTarget (TargetAutomation a) = ''automation '' @ a"
| "describeIntentTarget TargetHome = ''home''"

fun describeAutomationAction :: "automation_action \<Rightarrow> string" where
  "describeAutomationAction (AcDevice_command d c) =
     ''Command '' @ kind_name (command_kind c) @ '' '' @ arrow @ '' '' @ d"
| "describeAutomationAction (AcScene_activate s) = ''Activate scene '' @ s"
| "describeAutomationAction (AcNotify _ t _ _) = ''Notify \"'' @ t @ ''\"''"
| "describeAutomationAction (AcDelay ms) = ''Delay '' @ show_nat ms @ ''ms''"
| "describeAutomationAction (AcIntent i tgt _) =
     ''Intent '' @ i @ '' '' @ arrow @ '' '' @ describeIntentTarget tgt"

section \<open>Execution traces\<close>

record automation_run_action =
  ra_type :: string
  ra_ok :: bool
  ra_error :: "string option"
  ra_durationMs :: int
  ra_summary :: string

text \<open>The message of a failed condition, with the parts the source interpolates into it.\<close>

datatype failed_condition =
    FailedState capability_kind string comparator jsval device_id
  | OutsideWindow schedule_window

text \<open>A run's id is \<^verbatim>\<open>run-<ms>-<seq>\<close> or \<^verbatim>\<open>dryrun-<ms>-<seq>\<close>.\<close>

datatype run_id = RunId int nat | DryRunId int nat

record automation_run =
  r_id :: run_id
  r_automationId :: automation_id
  r_startedAt :: timestamp
  r_trigger :: string
  r_conditionsPassed :: bool
  r_failedCondition :: "failed_condition option"
  r_actions :: "automation_run_action list"
  r_durationMs :: int
  r_ok :: bool
  r_error :: "string option"

record engine =
  en_automations :: "automation list"
  en_lastFired :: "(string, int) jsmap"
  en_runs :: "automation_run list"
  en_historyLimit :: nat
  en_runSeq :: nat

definition new_engine :: "nat option \<Rightarrow> engine" where
  "new_engine limit = \<lparr>en_automations = [], en_lastFired = [], en_runs = [],
     en_historyLimit = (case limit of None \<Rightarrow> 100 | Some n \<Rightarrow> n), en_runSeq = 0\<rparr>"

definition setAutomations :: "automation list \<Rightarrow> engine \<Rightarrow> engine" where
  "setAutomations list en =
     en\<lparr>en_automations := filter (\<lambda>a. a_enabled a \<and> a_engine a = ''supreme'') list\<rparr>"

text \<open>An absent or empty automation id selects every run.\<close>

definition recentRuns :: "automation_id option \<Rightarrow> nat \<Rightarrow> engine \<Rightarrow> automation_run list" where
  "recentRuns aid limit en =
     recent (\<lambda>r. case aid of None \<Rightarrow> True | Some i \<Rightarrow> i = '''' \<or> r_automationId r = i) limit (en_runs en)"

definition push_run :: "automation_run \<Rightarrow> engine \<Rightarrow> engine" where
  "push_run run en = en\<lparr>en_runs := push_history (en_historyLimit en) run (en_runs en)\<rparr>"

definition record_run :: "'w executors \<Rightarrow> automation_run \<Rightarrow> engine \<times> 'w \<Rightarrow> engine \<times> 'w" where
  "record_run ex run = (\<lambda>(en, w).
     (push_run run en,
      if r_conditionsPassed run
      then (case ex_onRun ex of None \<Rightarrow> w | Some f \<Rightarrow> f (r_automationId run) (r_ok run) w)
      else w))"

section \<open>Conditions\<close>

text \<open>The result is the first failed condition, \<^const>\<open>None\<close> when all passed.\<close>

fun evaluateConditions ::
  "'w executors \<Rightarrow> automation_condition list \<Rightarrow> date \<Rightarrow> ('w, failed_condition option) eff" where
  "evaluateConditions ex [] now = eff_return None"
| "evaluateConditions ex (CoDevice_state d cap f op v # cs) now =
     eff_bind (ex_getState ex d cap) (\<lambda>st.
       if (case st of None \<Rightarrow> True | Some s \<Rightarrow> \<not> evaluateComparator (readCapabilityField s f) op v)
       then eff_return (Some (FailedState cap f op v d))
       else evaluateConditions ex cs now)"
| "evaluateConditions ex (CoTime_window w # cs) now =
     (if \<not> isWithinScheduleWindow w now then eff_return (Some (OutsideWindow w))
      else evaluateConditions ex cs now)"

section \<open>Running\<close>

text \<open>One action with its outcome and duration.\<close>

definition traced_action ::
  "'w executors \<Rightarrow> automation_action \<Rightarrow> 'w \<Rightarrow> automation_run_action \<times> 'w" where
  "traced_action ex act w =
     (let (a0, w1) = ex_now ex w;
          (res, w2) = runAutomationAction ex act w1;
          (a1, w3) = ex_now ex w2
      in (\<lparr>ra_type = action_type act,
           ra_ok = (case res of Inl _ \<Rightarrow> False | Inr _ \<Rightarrow> True),
           ra_error = (case res of Inl e \<Rightarrow> Some (error_message e) | Inr _ \<Rightarrow> None),
           ra_durationMs = a1 - a0, ra_summary = describeAutomationAction act\<rparr>, w3))"

text \<open>The loop of \<^verbatim>\<open>execute\<close>, which stops after the first failing action.\<close>

fun run_actions ::
  "'w executors \<Rightarrow> automation_action list \<Rightarrow> 'w \<Rightarrow> automation_run_action list \<times> 'w" where
  "run_actions ex [] w = ([], w)"
| "run_actions ex (act # acts) w =
     (let (r, w1) = traced_action ex act w
      in if ra_ok r then (let (rs, w2) = run_actions ex acts w1 in (r # rs, w2)) else ([r], w1))"

text \<open>\<^verbatim>\<open>...(error ? { error } : {})\<close>: an empty message leaves the field out.\<close>

definition actions_error :: "automation_run_action list \<Rightarrow> string option" where
  "actions_error rs = (case filter (\<lambda>r. \<not> ra_ok r) rs of [] \<Rightarrow> None | r # _ \<Rightarrow> ra_error r)"

definition execute ::
  "'w executors \<Rightarrow> automation \<Rightarrow> string \<Rightarrow> bool \<Rightarrow> (engine \<times> 'w, unit) eff" where
  "execute ex a trigger skipConditions = (\<lambda>(en, w0).
     let (started, w1) = ex_date ex w0;
         (t0, w2) = ex_now ex w1
     in case (if skipConditions then (Inr None, w2)
              else evaluateConditions ex (a_conditions a) started w2) of
          (Inl e, w3) \<Rightarrow> (Inl e, (en, w3))
        | (Inr failed, w3) \<Rightarrow>
            (let passed = (failed = None);
                 (acts, w4) = (if passed then run_actions ex (a_actions a) w3 else ([], w3));
                 (t1, w5) = ex_now ex w4;
                 run = \<lparr>r_id = RunId (getTime started) (en_runSeq en), r_automationId = a_id a,
                        r_startedAt = getTime started, r_trigger = trigger,
                        r_conditionsPassed = passed, r_failedCondition = failed,
                        r_actions = acts, r_durationMs = t1 - t0,
                        r_ok = (passed \<and> list_all ra_ok acts),
                        r_error = truthy (actions_error acts)\<rparr>
             in (Inr (), record_run ex run (en\<lparr>en_runSeq := Suc (en_runSeq en)\<rparr>, w5))))"

definition run :: "'w executors \<Rightarrow> automation \<Rightarrow> (engine \<times> 'w, unit) eff" where
  "run ex a = execute ex a ''manual'' True"

section \<open>Triggers\<close>

record device_state_event =
  de_deviceId :: device_id
  de_capability :: capability_kind
  de_state :: capability_state

fun device_trigger_fires :: "device_state_event \<Rightarrow> automation_trigger \<Rightarrow> bool" where
  "device_trigger_fires ev (TrDevice_state d cap f op v) =
     (d = de_deviceId ev \<and> cap = de_capability ev \<and>
      evaluateComparator (readCapabilityField (de_state ev) f) op v)"
| "device_trigger_fires ev _ = False"

fun keypad_trigger_fires :: "keypad_input_event \<Rightarrow> automation_trigger \<Rightarrow> bool" where
  "keypad_trigger_fires ev (TrKeypad_input k c e) =
     (k = ke_keypadId ev \<and> c = ke_control ev \<and> e = event_kind (ke_type ev))"
| "keypad_trigger_fires ev _ = False"

text \<open>The loop over the automations: those that fire are executed one after the other.\<close>

fun execute_firing ::
  "'w executors \<Rightarrow> (automation \<Rightarrow> bool) \<Rightarrow> string \<Rightarrow> automation list \<Rightarrow> (engine \<times> 'w, unit) eff" where
  "execute_firing ex fires trigger [] = eff_return ()"
| "execute_firing ex fires trigger (a # as) =
     (if fires a
      then eff_bind (execute ex a trigger False) (\<lambda>_. execute_firing ex fires trigger as)
      else execute_firing ex fires trigger as)"

definition onDeviceState :: "'w executors \<Rightarrow> device_state_event \<Rightarrow> (engine \<times> 'w, unit) eff" where
  "onDeviceState ex ev = (\<lambda>s.
     execute_firing ex (\<lambda>a. list_ex (device_trigger_fires ev) (a_triggers a)) ''device_state''
       (en_automations (fst s)) s)"

definition onKeypadInput :: "'w executors \<Rightarrow> keypad_input_event \<Rightarrow> (engine \<times> 'w, unit) eff" where
  "onKeypadInput ex ev = (\<lambda>s.
     execute_firing ex (\<lambda>a. list_ex (keypad_trigger_fires ev) (a_triggers a)) ''keypad_input''
       (en_automations (fst s)) s)"

definition trigger_key :: "automation_id \<Rightarrow> nat \<Rightarrow> string" where
  "trigger_key aid i = aid @ ''#'' @ show_nat i"

definition hhmm_of :: "date \<Rightarrow> string" where
  "hhmm_of now = pad (getHours now) @ '':'' @ pad (getMinutes now)"

fun timeTriggerFires ::
  "automation_id \<Rightarrow> nat \<Rightarrow> automation_trigger \<Rightarrow> date \<Rightarrow> int \<Rightarrow> engine \<Rightarrow> bool \<times> engine" where
  "timeTriggerFires aid i (TrTime hhmm days) now minute en =
     (if hhmm_of now = hhmm \<and> (days = [] \<or> getDay now \<in> set days) \<and>
         jget (en_lastFired en) (trigger_key aid i) \<noteq> Some minute
      then (True, en\<lparr>en_lastFired := jset (trigger_key aid i) minute (en_lastFired en)\<rparr>)
      else (False, en))"
| "timeTriggerFires aid i (TrInterval n) now minute en =
     (if (case jget (en_lastFired en) (trigger_key aid i) of None \<Rightarrow> True
          | Some prev \<Rightarrow> minute - prev \<ge> int n)
      then (True, en\<lparr>en_lastFired := jset (trigger_key aid i) minute (en_lastFired en)\<rparr>)
      else (False, en))"
| "timeTriggerFires aid i _ now minute en = (False, en)"

text \<open>The inner loop of \<^verbatim>\<open>tick\<close>: the first trigger that fires with its index; the loop stops at it.\<close>

fun first_firing ::
  "automation_id \<Rightarrow> nat \<Rightarrow> automation_trigger list \<Rightarrow> date \<Rightarrow> int \<Rightarrow> engine \<Rightarrow>
   (nat \<times> automation_trigger) option \<times> engine" where
  "first_firing aid i [] now minute en = (None, en)"
| "first_firing aid i (t # ts) now minute en =
     (case timeTriggerFires aid i t now minute en of
        (True, en') \<Rightarrow> (Some (i, t), en')
      | (False, en') \<Rightarrow> first_firing aid (Suc i) ts now minute en')"

definition minute_of :: "date \<Rightarrow> int" where
  "minute_of now = getTime now div 60000"

fun tick_automations ::
  "'w executors \<Rightarrow> date \<Rightarrow> int \<Rightarrow> automation list \<Rightarrow> (engine \<times> 'w, unit) eff" where
  "tick_automations ex now minute [] = eff_return ()"
| "tick_automations ex now minute (a # as) = (\<lambda>(en, w).
     case first_firing (a_id a) 0 (a_triggers a) now minute en of
       (None, en') \<Rightarrow> tick_automations ex now minute as (en', w)
     | (Some (i, t), en') \<Rightarrow>
         eff_bind (execute ex a (trigger_type t) False)
           (\<lambda>_. tick_automations ex now minute as) (en', w))"

definition tick :: "'w executors \<Rightarrow> date \<Rightarrow> (engine \<times> 'w, unit) eff" where
  "tick ex now = (\<lambda>s. tick_automations ex now (minute_of now) (en_automations (fst s)) s)"

section \<open>Concurrent runs\<close>

text \<open>
  \<^verbatim>\<open>Promise.all\<close> starts every action and waits for all of them. \<open>sched\<close> is the order in which the
  actions take effect (an interleaving of whole actions); each result goes to its action's place.
\<close>

fun run_scheduled ::
  "'w executors \<Rightarrow> automation_action list \<Rightarrow> nat list \<Rightarrow> (nat \<rightharpoonup> automation_run_action) \<Rightarrow> 'w \<Rightarrow>
   (nat \<rightharpoonup> automation_run_action) \<times> 'w" where
  "run_scheduled ex acts [] res w = (res, w)"
| "run_scheduled ex acts (i # is) res w =
     (let (r, w1) = traced_action ex (acts ! i) w
      in run_scheduled ex acts is (res(i \<mapsto> r)) w1)"

definition schedule_ok :: "'a list \<Rightarrow> nat list \<Rightarrow> bool" where
  "schedule_ok acts sched \<longleftrightarrow> distinct sched \<and> set sched = {..<length acts}"

definition runConcurrent ::
  "'w executors \<Rightarrow> automation \<Rightarrow> string \<Rightarrow> nat list \<Rightarrow> engine \<times> 'w \<Rightarrow> automation_run \<times> (engine \<times> 'w)" where
  "runConcurrent ex a trigger sched = (\<lambda>(en, w0).
     let (started, w1) = ex_date ex w0;
         (t0, w2) = ex_now ex w1;
         (res, w3) = run_scheduled ex (a_actions a) sched Map.empty w2;
         acts = map (\<lambda>i. the (res i)) [0..<length (a_actions a)];
         (t1, w4) = ex_now ex w3;
         r = \<lparr>r_id = RunId (getTime started) (en_runSeq en), r_automationId = a_id a,
              r_startedAt = getTime started, r_trigger = trigger,
              r_conditionsPassed = True, r_failedCondition = None,
              r_actions = acts, r_durationMs = t1 - t0,
              r_ok = list_all ra_ok acts, r_error = None\<rparr>
     in (r, record_run ex r (en\<lparr>en_runSeq := Suc (en_runSeq en)\<rparr>, w4)))"

section \<open>Dry runs\<close>

definition dry_action :: "automation_action \<Rightarrow> automation_run_action" where
  "dry_action act = \<lparr>ra_type = action_type act, ra_ok = True, ra_error = None, ra_durationMs = 0,
     ra_summary = ''Would run: '' @ describeAutomationAction act\<rparr>"

definition dryRun :: "'w executors \<Rightarrow> automation \<Rightarrow> (engine \<times> 'w, automation_run) eff" where
  "dryRun ex a = (\<lambda>(en, w0).
     let (started, w1) = ex_date ex w0;
         (t0, w2) = ex_now ex w1
     in case evaluateConditions ex (a_conditions a) started w2 of
          (Inl e, w3) \<Rightarrow> (Inl e, (en, w3))
        | (Inr failed, w3) \<Rightarrow>
            (let passed = (failed = None);
                 (t1, w4) = ex_now ex w3;
                 r = \<lparr>r_id = DryRunId (getTime started) (en_runSeq en), r_automationId = a_id a,
                      r_startedAt = getTime started, r_trigger = ''dry_run'',
                      r_conditionsPassed = passed, r_failedCondition = failed,
                      r_actions = (if passed then map dry_action (a_actions a) else []),
                      r_durationMs = t1 - t0, r_ok = passed, r_error = None\<rparr>
             in (Inr r, (push_run r (en\<lparr>en_runSeq := Suc (en_runSeq en)\<rparr>), w4))))"

section \<open>Health\<close>

datatype health_status = HsDisabled | HsWaiting | HsHealthy | HsWarning | HsBroken

definition real_runs :: "automation \<Rightarrow> engine \<Rightarrow> automation_run list" where
  "real_runs a en =
     take 5 (filter (\<lambda>r. r_trigger r \<noteq> ''dry_run'') (recentRuns (Some (a_id a)) 20 en))"

definition error_text :: "automation_run \<Rightarrow> string" where
  "error_text r = (case r_error r of None \<Rightarrow> ''an action failed'' | Some e \<Rightarrow> e)"

definition health :: "automation \<Rightarrow> engine \<Rightarrow> health_status \<times> string" where
  "health a en =
     (if \<not> a_enabled a then (HsDisabled, ''Automation is turned off.'')
      else if a_engine a = ''ha'' then
        (HsBroken, ''This automation targets Home Assistant execution, which is not supported on this hub '' @
           em_dash @ '' it will never run. Recreate it using the native engine.'')
      else (case real_runs a en of
          [] \<Rightarrow> (HsWaiting, ''Enabled '' @ em_dash @ '' hasn'' @ [CHR 0x27] @ ''t triggered yet.'')
        | newest # rest \<Rightarrow>
            if \<not> r_ok newest \<and> r_conditionsPassed newest then
              (let recentFailures = length (filter (\<lambda>r. r_conditionsPassed r \<and> \<not> r_ok r) (newest # rest))
               in if recentFailures \<ge> length (newest # rest)
                  then (HsBroken, ''Last '' @ show_nat recentFailures @ '' run(s) failed: '' @ error_text newest @ ''.'')
                  else (HsWarning, ''Last run failed: '' @ error_text newest @ ''.''))
            else (HsHealthy,
                  if r_conditionsPassed newest then ''Last run completed successfully.''
                  else ''Waiting '' @ em_dash @ '' conditions weren'' @ [CHR 0x27] @ ''t met last time.'')))"

section \<open>The history\<close>

text \<open>Recording a run as the handlers do it: its sequence number is consumed, its trace is pushed.\<close>

abbreviation log_run :: "automation_run \<Rightarrow> engine \<Rightarrow> engine" where
  "log_run r en \<equiv> push_run r (en\<lparr>en_runSeq := Suc (en_runSeq en)\<rparr>)"

interpretation eng: run_history en_runs en_historyLimit log_run
  by unfold_locales (simp_all add: push_run_def)

lemma push_run_frame [simp]:
  "en_automations (push_run r en) = en_automations en"
  "en_lastFired (push_run r en) = en_lastFired en"
  "en_runSeq (push_run r en) = en_runSeq en"
  "en_historyLimit (push_run r en) = en_historyLimit en"
  by (simp_all add: push_run_def)

lemma record_run_fst [simp]: "fst (record_run ex r s) = push_run r (fst s)"
  by (simp add: record_run_def split: prod.splits)

fun run_seq :: "run_id \<Rightarrow> nat" where
  "run_seq (RunId _ n) = n"
| "run_seq (DryRunId _ n) = n"

text \<open>What every recorded trace satisfies, and the invariant of the engine's own fields.\<close>

definition run_wf :: "automation_run \<Rightarrow> bool" where
  "run_wf r \<longleftrightarrow>
     (r_conditionsPassed r = (r_failedCondition r = None)) \<and>
     (r_ok r = (r_conditionsPassed r \<and> list_all ra_ok (r_actions r))) \<and>
     (r_conditionsPassed r \<or> r_actions r = [])"

definition engine_inv :: "engine \<Rightarrow> bool" where
  "engine_inv en \<longleftrightarrow>
     length (en_runs en) \<le> en_historyLimit en \<and>
     list_all run_wf (en_runs en) \<and>
     sorted_wrt (<) (map (run_seq \<circ> r_id) (en_runs en)) \<and>
     list_all (\<lambda>r. run_seq (r_id r) < en_runSeq en) (en_runs en) \<and>
     list_all (\<lambda>a. a_enabled a \<and> a_engine a = ''supreme'') (en_automations en) \<and>
     jwf (en_lastFired en)"

lemma sorted_wrt_tl: "sorted_wrt R xs \<Longrightarrow> sorted_wrt R (tl xs)"
  by (cases xs) auto

lemma engine_inv_push:
  assumes "engine_inv en" "run_wf r" "run_seq (r_id r) = en_runSeq en"
  shows "engine_inv (push_run r (en\<lparr>en_runSeq := Suc (en_runSeq en)\<rparr>))"
proof -
  have sorted: "sorted_wrt (<) (map (run_seq \<circ> r_id) (en_runs en @ [r]))"
    using assms by (auto simp: engine_inv_def sorted_wrt_append list_all_iff)
  have less: "list_all (\<lambda>r. run_seq (r_id r) < Suc (en_runSeq en)) (en_runs en @ [r])"
    using assms by (auto simp: engine_inv_def list_all_iff)
  have "sorted_wrt (<) (map (run_seq \<circ> r_id) (push_history n r (en_runs en)))" for n
    using sorted sorted_wrt_tl [OF sorted] by (simp add: push_history_def Let_def map_tl)
  moreover have "list_all (\<lambda>r. run_seq (r_id r) < Suc (en_runSeq en)) (push_history n r (en_runs en))" for n
    using less push_history_set by (fastforce simp: list_all_iff)
  moreover have "list_all run_wf (push_history n r (en_runs en))" for n
    using assms push_history_set by (fastforce simp: engine_inv_def list_all_iff)
  moreover have "length (push_history (en_historyLimit en) r (en_runs en)) \<le> en_historyLimit en"
    by (rule push_history_bound) (use assms in \<open>simp add: engine_inv_def\<close>)
  ultimately show ?thesis
    using assms by (simp add: engine_inv_def push_run_def)
qed

section \<open>Runs of actions\<close>

lemma traced_action_type [simp]:
  "traced_action ex act w = (r, w') \<Longrightarrow> ra_type r = action_type act"
  by (auto simp: traced_action_def Let_def split: prod.splits)

lemma run_actions_trace:
  assumes "run_actions ex acts w = (rs, w')"
  shows "map ra_type rs = map action_type (take (length rs) acts)" (is ?types)
    and "list_all ra_ok (butlast rs)" (is ?oks)
    and "length rs \<le> length acts"
    and "list_all ra_ok rs \<Longrightarrow> length rs = length acts"
proof -
  have "?types \<and> ?oks \<and> length rs \<le> length acts \<and> (list_all ra_ok rs \<longrightarrow> length rs = length acts)"
    using assms
  proof (induction acts arbitrary: w rs w')
    case (Cons act acts)
    obtain r w1 where t: "traced_action ex act w = (r, w1)" by fastforce
    obtain rs1 w2 where r1: "run_actions ex acts w1 = (rs1, w2)" by fastforce
    show ?case
    proof (cases "ra_ok r")
      case True
      with Cons.prems t r1 have "rs = r # rs1" by simp
      with Cons.IH [OF r1] t True show ?thesis by auto
    next
      case False
      with Cons.prems t have "rs = [r]" by simp
      with False t show ?thesis by auto
    qed
  qed simp
  then show ?types ?oks "length rs \<le> length acts" "list_all ra_ok rs \<Longrightarrow> length rs = length acts"
    by blast+
qed

text \<open>An execution either rethrows an error of a condition read, recording nothing, or records one run.\<close>

lemma execute_cases:
  assumes "execute ex a trigger skip (en, w) = (res, (en', w'))"
  obtains
    (error) e where "res = Inl e" "en' = en" "\<not> skip"
  | (recorded) r where "res = Inr ()" "en' = push_run r (en\<lparr>en_runSeq := Suc (en_runSeq en)\<rparr>)"
      "run_wf r" "run_seq (r_id r) = en_runSeq en" "r_automationId r = a_id a" "r_trigger r = trigger"
      "r_conditionsPassed r \<Longrightarrow> \<exists>w1 w2. run_actions ex (a_actions a) w1 = (r_actions r, w2)"
      "skip \<Longrightarrow> r_conditionsPassed r"
proof -
  obtain started w1 where d: "ex_date ex w = (started, w1)" by fastforce
  obtain t0 w2 where n: "ex_now ex w1 = (t0, w2)" by fastforce
  obtain c w3 where c: "(if skip then (Inr None, w2) else evaluateConditions ex (a_conditions a) started w2) = (c, w3)"
    by fastforce
  show thesis
  proof (cases c)
    case (Inl e)
    with assms d n c have "res = Inl e \<and> en' = en" by (simp add: execute_def)
    moreover from Inl c have "\<not> skip" by auto
    ultimately show thesis using error by blast
  next
    case (Inr failed)
    obtain acts w4 where acts: "(if failed = None then run_actions ex (a_actions a) w3 else ([], w3)) = (acts, w4)"
      by fastforce
    obtain t1 w5 where n1: "ex_now ex w4 = (t1, w5)" by fastforce
    define r where "r = \<lparr>r_id = RunId (getTime started) (en_runSeq en), r_automationId = a_id a,
                        r_startedAt = getTime started, r_trigger = trigger,
                        r_conditionsPassed = (failed = None), r_failedCondition = failed,
                        r_actions = acts, r_durationMs = t1 - t0,
                        r_ok = (failed = None \<and> list_all ra_ok acts),
                        r_error = truthy (actions_error acts)\<rparr>"
    have "execute ex a trigger skip (en, w) = (Inr (), record_run ex r (en\<lparr>en_runSeq := Suc (en_runSeq en)\<rparr>, w5))"
      using d n c Inr acts n1 by (simp add: execute_def r_def Let_def)
    with assms have "res = Inr ()" "en' = push_run r (en\<lparr>en_runSeq := Suc (en_runSeq en)\<rparr>)"
      using record_run_fst by (metis prod.inject, metis fst_conv prod.inject)
    moreover have "run_wf r" using acts by (auto simp: run_wf_def r_def split: if_splits)
    moreover from acts have "failed = None \<Longrightarrow> run_actions ex (a_actions a) w3 = (acts, w4)"
      and "failed \<noteq> None \<Longrightarrow> acts = []" by (auto split: if_splits)
    moreover from c Inr have "skip \<Longrightarrow> failed = None" by simp
    ultimately show thesis using recorded [of r] by (simp add: r_def) blast
  qed
qed


lemma engine_inv_en: "engine_inv en \<Longrightarrow> jwf lf \<Longrightarrow> engine_inv (en\<lparr>en_lastFired := lf\<rparr>)"
  by (simp add: engine_inv_def)

section \<open>The invariant over every operation\<close>

text \<open>What no handler but \<^verbatim>\<open>setAutomations\<close> changes, and the timer table aside.\<close>

definition same_config :: "engine \<Rightarrow> engine \<Rightarrow> bool" where
  "same_config en en' \<longleftrightarrow>
     en_automations en' = en_automations en \<and> en_historyLimit en' = en_historyLimit en"

lemma same_config_refl [simp]: "same_config en en"
  by (simp add: same_config_def)

lemma same_config_trans: "same_config a b \<Longrightarrow> same_config b c \<Longrightarrow> same_config a c"
  by (simp add: same_config_def)

lemma execute_inv:
  assumes "execute ex a trigger skip (en, w) = (res, (en', w'))"
  shows "same_config en en' \<and> en_lastFired en' = en_lastFired en \<and> (engine_inv en \<longrightarrow> engine_inv en')"
  using assms by (cases rule: execute_cases) (auto simp: same_config_def intro: engine_inv_push)

lemma execute_firing_inv:
  "execute_firing ex fires trigger as (en, w) = (res, (en', w')) \<Longrightarrow>
   same_config en en' \<and> en_lastFired en' = en_lastFired en \<and> (engine_inv en \<longrightarrow> engine_inv en')"
proof (induction as arbitrary: en w)
  case (Cons a as)
  show ?case
  proof (cases "fires a")
    case True
    obtain r en1 w1 where x: "execute ex a trigger False (en, w) = (r, (en1, w1))"
      using prod.exhaust by metis
    note i = execute_inv [OF x]
    show ?thesis
    proof (cases r)
      case (Inl e)
      with Cons.prems True x i show ?thesis by (simp add: eff_bind_def)
    next
      case (Inr u)
      with Cons.prems True x have "execute_firing ex fires trigger as (en1, w1) = (res, (en', w'))"
        by (simp add: eff_bind_def)
      from Cons.IH [OF this] i show ?thesis by (auto intro: same_config_trans)
    qed
  next
    case False
    with Cons show ?thesis by simp
  qed
qed simp

lemma timeTriggerFires_lf:
  "timeTriggerFires aid i t now m en = (b, en') \<Longrightarrow>
   \<exists>lf. en' = en\<lparr>en_lastFired := lf\<rparr> \<and> (jwf (en_lastFired en) \<longrightarrow> jwf lf)"
  by (cases t) (auto split: if_splits intro: exI [of _ "en_lastFired en"])

lemma first_firing_lf:
  "first_firing aid i ts now m en = (r, en') \<Longrightarrow>
   \<exists>lf. en' = en\<lparr>en_lastFired := lf\<rparr> \<and> (jwf (en_lastFired en) \<longrightarrow> jwf lf)"
proof (induction ts arbitrary: i en)
  case Nil
  then show ?case by (auto intro: exI [of _ "en_lastFired en"])
next
  case (Cons t ts)
  obtain b en1 where t: "timeTriggerFires aid i t now m en = (b, en1)" by fastforce
  from timeTriggerFires_lf [OF t] obtain lf where
    lf: "en1 = en\<lparr>en_lastFired := lf\<rparr>" "jwf (en_lastFired en) \<longrightarrow> jwf lf" by blast
  show ?case
  proof (cases b)
    case True
    with Cons.prems t lf show ?thesis by auto
  next
    case False
    with Cons.prems t have "first_firing aid (Suc i) ts now m en1 = (r, en')" by simp
    from Cons.IH [OF this] lf show ?thesis by auto
  qed
qed

lemma tick_automations_inv:
  "tick_automations ex now m as (en, w) = (res, (en', w')) \<Longrightarrow>
   same_config en en' \<and> (engine_inv en \<longrightarrow> engine_inv en')"
proof (induction as arbitrary: en w)
  case (Cons a as)
  obtain o1 en1 where f: "first_firing (a_id a) 0 (a_triggers a) now m en = (o1, en1)" by fastforce
  from first_firing_lf [OF f] have one: "same_config en en1 \<and> (engine_inv en \<longrightarrow> engine_inv en1)"
    by (auto simp: same_config_def engine_inv_def)
  show ?case
  proof (cases o1)
    case None
    with Cons.prems f have "tick_automations ex now m as (en1, w) = (res, (en', w'))" by simp
    from Cons.IH [OF this] one show ?thesis by (auto intro: same_config_trans)
  next
    case (Some it)
    obtain i t where it: "it = (i, t)" by fastforce
    obtain r en2 w2 where x: "execute ex a (trigger_type t) False (en1, w) = (r, (en2, w2))"
      using prod.exhaust by metis
    note xi = execute_inv [OF x]
    show ?thesis
    proof (cases r)
      case (Inl e)
      with Cons.prems f Some it x have "en' = en2" by (simp add: eff_bind_def)
      with xi one show ?thesis by (auto intro: same_config_trans)
    next
      case (Inr u)
      with Cons.prems f Some it x have "tick_automations ex now m as (en2, w2) = (res, (en', w'))"
        by (simp add: eff_bind_def)
      from Cons.IH [OF this] xi one show ?thesis by (auto intro: same_config_trans)
    qed
  qed
qed simp

lemma runConcurrent_run:
  assumes "runConcurrent ex a trigger sched (en, w) = (r, (en', w'))"
  shows "en' = push_run r (en\<lparr>en_runSeq := Suc (en_runSeq en)\<rparr>)" "run_wf r"
    "run_seq (r_id r) = en_runSeq en"
  using assms
  by (auto simp: runConcurrent_def run_wf_def record_run_def Let_def split: prod.splits)

lemma dry_action_ok [simp]: "list_all ra_ok (map dry_action acts)"
  by (induction acts) (simp_all add: dry_action_def)

lemma dryRun_cases:
  assumes "dryRun ex a (en, w) = (res, (en', w'))"
  obtains (error) e where "res = Inl e" "en' = en"
  | (recorded) r where "res = Inr r" "en' = push_run r (en\<lparr>en_runSeq := Suc (en_runSeq en)\<rparr>)"
      "run_wf r" "run_seq (r_id r) = en_runSeq en" "r_trigger r = ''dry_run''" "r_automationId r = a_id a"
      "r_ok r = r_conditionsPassed r"
  using assms
proof -
  obtain started w1 where d: "ex_date ex w = (started, w1)" by fastforce
  obtain t0 w2 where n: "ex_now ex w1 = (t0, w2)" by fastforce
  obtain c w3 where c: "evaluateConditions ex (a_conditions a) started w2 = (c, w3)" by fastforce
  obtain t1 w4 where n1: "ex_now ex w3 = (t1, w4)" by fastforce
  show thesis
  proof (cases c)
    case (Inl e)
    show thesis by (rule error [of e]) (use assms d n c Inl in \<open>auto simp: dryRun_def\<close>)
  next
    case (Inr failed)
    define r where "r = \<lparr>r_id = DryRunId (getTime started) (en_runSeq en), r_automationId = a_id a,
                      r_startedAt = getTime started, r_trigger = ''dry_run'',
                      r_conditionsPassed = (failed = None), r_failedCondition = failed,
                      r_actions = (if failed = None then map dry_action (a_actions a) else []),
                      r_durationMs = t1 - t0, r_ok = (failed = None), r_error = None\<rparr>"
    have "dryRun ex a (en, w) = (Inr r, (push_run r (en\<lparr>en_runSeq := Suc (en_runSeq en)\<rparr>), w4))"
      using d n c n1 Inr by (simp add: dryRun_def Let_def r_def)
    with assms show thesis by (intro recorded [of r]) (auto simp: r_def run_wf_def)
  qed
qed

text \<open>The calls the service makes on the engine. Each handler is one step.\<close>

inductive engine_step :: "'w executors \<Rightarrow> engine \<times> 'w \<Rightarrow> engine \<times> 'w \<Rightarrow> bool" for ex where
  step_set: "engine_step ex (en, w) (setAutomations list en, w)"
| step_device: "onDeviceState ex ev s = (res, s') \<Longrightarrow> engine_step ex s s'"
| step_keypad: "onKeypadInput ex kev s = (res, s') \<Longrightarrow> engine_step ex s s'"
| step_tick: "tick ex now s = (res, s') \<Longrightarrow> engine_step ex s s'"
| step_run: "run ex a s = (res, s') \<Longrightarrow> engine_step ex s s'"
| step_concurrent: "schedule_ok (a_actions a) sched \<Longrightarrow> runConcurrent ex a trigger sched s = (r, s') \<Longrightarrow>
    engine_step ex s s'"
| step_dry: "dryRun ex a s = (dres, s') \<Longrightarrow> engine_step ex s s'"

inductive engine_reachable :: "'w executors \<Rightarrow> nat option \<Rightarrow> engine \<times> 'w \<Rightarrow> bool" for ex limit where
  reach_init: "engine_reachable ex limit (new_engine limit, w)"
| reach_step: "engine_reachable ex limit s \<Longrightarrow> engine_step ex s s' \<Longrightarrow> engine_reachable ex limit s'"

inductive_cases engine_stepE: "engine_step ex s s'"

lemma engine_step_inv:
  assumes "engine_step ex s s'"
  shows "en_historyLimit (fst s') = en_historyLimit (fst s) \<and> (engine_inv (fst s) \<longrightarrow> engine_inv (fst s'))"
  using assms
proof cases
  case (step_set en w list)
  then show ?thesis by (auto simp: setAutomations_def engine_inv_def list_all_iff)
next
  case (step_device ev res)
  then show ?thesis
    by (cases s; cases s') (auto simp: onDeviceState_def same_config_def dest: execute_firing_inv)
next
  case (step_keypad kev res)
  then show ?thesis
    by (cases s; cases s') (auto simp: onKeypadInput_def same_config_def dest: execute_firing_inv)
next
  case (step_tick now res)
  then show ?thesis
    by (cases s; cases s') (auto simp: tick_def same_config_def dest: tick_automations_inv)
next
  case (step_run a res)
  then show ?thesis by (cases s; cases s') (auto simp: run_def same_config_def dest: execute_inv)
next
  case (step_concurrent a sched trigger r)
  then show ?thesis
    by (cases s; cases s') (auto dest: runConcurrent_run intro: engine_inv_push)
next
  case (step_dry a dres)
  obtain en w en' w' where s: "s = (en, w)" "s' = (en', w')" by fastforce
  from step_dry [unfolded s] show ?thesis
    by (cases rule: dryRun_cases) (auto simp: s intro: engine_inv_push)
qed

text \<open>C1: In every state the engine can reach by any sequence of its operations, the run history
  holds at most \<^verbatim>\<open>historyLimit\<close> traces, their sequence numbers are strictly increasing and all
  below the next one (run ids never repeat), every trace says it passed its conditions exactly when it names no
  failed one, is ok exactly when the conditions passed and each recorded action succeeded, and only enabled native
  automations are loaded.\<close>

theorem engine_history_invariant:
  assumes "engine_reachable ex limit s"
  shows "engine_inv (fst s) \<and> en_historyLimit (fst s) = (case limit of None \<Rightarrow> 100 | Some n \<Rightarrow> n)"
  using assms
proof induction
  case (reach_init w)
  show ?case by (simp add: new_engine_def engine_inv_def)
next
  case (reach_step s s')
  with engine_step_inv [OF reach_step(2)] show ?case by simp
qed


section \<open>Timers\<close>

text \<open>
  The timer pass without the executions: which automations fire at a tick, through which trigger,
  and the timer table it leaves.
\<close>

fun firings ::
  "date \<Rightarrow> int \<Rightarrow> automation list \<Rightarrow> engine \<Rightarrow>
   (automation \<times> nat \<times> automation_trigger) list \<times> engine" where
  "firings now m [] en = ([], en)"
| "firings now m (a # as) en =
     (case first_firing (a_id a) 0 (a_triggers a) now m en of
        (None, en') \<Rightarrow> firings now m as en'
      | (Some (i, t), en') \<Rightarrow>
          (let (fs, en'') = firings now m as en' in ((a, i, t) # fs, en'')))"

text \<open>All firings over a sequence of ticks, each with its minute.\<close>

fun firing_log :: "date list \<Rightarrow> automation list \<Rightarrow> engine \<Rightarrow> (automation_id \<times> nat \<times> int) list" where
  "firing_log [] as en = []"
| "firing_log (now # ds) as en =
     (let (fs, en') = firings now (minute_of now) as en
      in map (\<lambda>(a, i, t). (a_id a, i, minute_of now)) fs @ firing_log ds as en')"

text \<open>The spacing a trigger demands between two of its firings.\<close>

fun spaced :: "automation_trigger \<Rightarrow> int \<Rightarrow> int \<Rightarrow> bool" where
  "spaced (TrTime _ _) x y = (x \<noteq> y)"
| "spaced (TrInterval n) x y = (y - x \<ge> int n)"
| "spaced _ x y = False"

lemma show_nat_no_hash: "CHR ''#'' \<notin> set (show_nat n)"
proof (induction n rule: show_nat.induct)
  case (1 n)
  have "digit_of (CHR ''#'') = None" by (simp add: digit_of_def)
  then have "d < 10 \<Longrightarrow> CHR ''#'' \<noteq> char_of (48 + d)" for d :: nat
    by (metis digit_of_char_of option.distinct(1))
  from this [of n] this [of "n mod 10"] 1 show ?case by (subst show_nat.simps) auto
qed

lemma split_last_unique:
  "xs @ c # ys = xs' @ c # ys' \<Longrightarrow> c \<notin> set ys \<Longrightarrow> c \<notin> set ys' \<Longrightarrow> xs = xs' \<and> ys = ys'"
  by (auto simp: append_eq_append_conv2 Cons_eq_append_conv append_eq_Cons_conv)

lemma trigger_key_inject [simp]: "trigger_key a i = trigger_key b j \<longleftrightarrow> a = b \<and> i = j"
  using split_last_unique [of a "CHR ''#''" "show_nat i" b "show_nat j"]
  by (auto simp: trigger_key_def show_nat_no_hash)

lemma timeTriggerFires_False: "timeTriggerFires aid i t now m en = (False, en') \<Longrightarrow> en' = en"
  by (cases t) (auto split: if_splits)

lemma timeTriggerFires_True:
  "timeTriggerFires aid i t now m en = (True, en') \<Longrightarrow>
   en' = en\<lparr>en_lastFired := jset (trigger_key aid i) m (en_lastFired en)\<rparr> \<and>
   (\<forall>p. jget (en_lastFired en) (trigger_key aid i) = Some p \<longrightarrow> spaced t p m)"
  by (cases t) (auto split: if_splits)

lemma first_firing_None: "first_firing aid i ts now m en = (None, en') \<Longrightarrow> en' = en"
  by (induction ts arbitrary: i en) (auto split: prod.splits bool.splits dest: timeTriggerFires_False)

lemma first_firing_Some:
  "first_firing aid i ts now m en = (Some (j, t), en') \<Longrightarrow>
   i \<le> j \<and> j < i + length ts \<and> t = ts ! (j - i) \<and>
   en' = en\<lparr>en_lastFired := jset (trigger_key aid j) m (en_lastFired en)\<rparr> \<and>
   (\<forall>p. jget (en_lastFired en) (trigger_key aid j) = Some p \<longrightarrow> spaced t p m)"
proof (induction ts arbitrary: i)
  case (Cons u us)
  obtain b en1 where u: "timeTriggerFires aid i u now m en = (b, en1)" by fastforce
  show ?case
  proof (cases b)
    case True
    with Cons.prems u have "j = i" "t = u" "en1 = en'" by auto
    with timeTriggerFires_True u True show ?thesis by auto
  next
    case False
    with u have "en1 = en" by (simp add: timeTriggerFires_False)
    with Cons.prems u False have "first_firing aid (Suc i) us now m en = (Some (j, t), en')" by simp
    note rest = Cons.IH [OF this]
    then have "j - i = Suc (j - Suc i)" by auto
    with rest show ?thesis by auto
  qed
qed simp

lemma firings_other:
  "firings now m as en = (fs, en') \<Longrightarrow> aid \<notin> a_id ` set as \<Longrightarrow>
   jget (en_lastFired en') (trigger_key aid i) = jget (en_lastFired en) (trigger_key aid i) \<and>
   (\<forall>f\<in>set fs. a_id (fst f) \<noteq> aid)"
proof (induction as arbitrary: en fs en')
  case (Cons a as)
  obtain o1 en1 where f: "first_firing (a_id a) 0 (a_triggers a) now m en = (o1, en1)" by fastforce
  obtain fs1 en2 where r: "firings now m as en1 = (fs1, en2)" by fastforce
  from Cons.IH [OF r] Cons.prems Cons.prems(1) f r show ?case
    by (cases o1) (auto dest!: first_firing_None first_firing_Some)
qed simp

lemma firings_pass:
  fixes i :: nat
  assumes "firings now m as en = (fs, en')" "distinct (map a_id as)" "a \<in> set as"
  defines "k \<equiv> trigger_key (a_id a) i"
  shows "(filter (\<lambda>(b, j, t). a_id b = a_id a \<and> j = i) fs = [] \<and>
            jget (en_lastFired en') k = jget (en_lastFired en) k) \<or>
         (filter (\<lambda>(b, j, t). a_id b = a_id a \<and> j = i) fs = [(a, i, a_triggers a ! i)] \<and>
            jget (en_lastFired en') k = Some m \<and>
            (\<forall>p. jget (en_lastFired en) k = Some p \<longrightarrow> spaced (a_triggers a ! i) p m))"
  using assms(1-3)
proof (induction as arbitrary: en fs en')
  case (Cons b as)
  obtain o1 en1 where f: "first_firing (a_id b) 0 (a_triggers b) now m en = (o1, en1)" by fastforce
  obtain fs1 en2 where r: "firings now m as en1 = (fs1, en2)" by fastforce
  have fs: "fs = (case o1 of None \<Rightarrow> fs1 | Some (j, t) \<Rightarrow> (b, j, t) # fs1)" "en' = en2"
    using Cons.prems(1) f r by (auto split: option.splits)
  show ?case
  proof (cases "a_id b = a_id a")
    case True
    with Cons.prems have ab: "b = a" and out: "a_id a \<notin> a_id ` set as" by auto
    from firings_other [OF r out] have tail: "jget (en_lastFired en2) k = jget (en_lastFired en1) k"
      "filter (\<lambda>(b, j, t). a_id b = a_id a \<and> j = i) fs1 = []"
      by (auto simp: k_def filter_empty_conv) (metis fst_conv)
    show ?thesis
    proof (cases o1)
      case None
      with f have "en1 = en" by (simp add: first_firing_None)
      with None fs tail show ?thesis by simp
    next
      case (Some jt)
      with f ab obtain j t where "o1 = Some (j, t)" "t = a_triggers a ! j"
        "en1 = en\<lparr>en_lastFired := jset (trigger_key (a_id a) j) m (en_lastFired en)\<rparr>"
        "\<forall>p. jget (en_lastFired en) (trigger_key (a_id a) j) = Some p \<longrightarrow> spaced t p m"
        by (cases jt) (auto dest!: first_firing_Some)
      with fs tail ab show ?thesis by (auto simp: k_def)
    qed
  next
    case False
    with Cons.prems have a: "a \<in> set as" "distinct (map a_id as)" by auto
    from False f have "jget (en_lastFired en1) k = jget (en_lastFired en) k"
      by (cases o1) (auto simp: k_def dest!: first_firing_None first_firing_Some)
    with Cons.IH [OF r a(2) a(1)] fs False show ?thesis by (auto split: option.splits)
  qed
qed simp

text \<open>Over any sequence of ticks, the minutes at which one trigger of an automation fires keep
  the spacing of the trigger, starting from the minute the timer table already holds: a time of day never fires twice in a row in one
  minute, an interval trigger waits its number of minutes, and other triggers never fire on the clock
  (automation ids are distinct).\<close>

theorem timer_spacing:
  assumes "distinct (map a_id as)" "a \<in> set as"
  shows "successively (spaced (a_triggers a ! i))
    ((case jget (en_lastFired en) (trigger_key (a_id a) i) of None \<Rightarrow> [] | Some m \<Rightarrow> [m]) @
     map (\<lambda>(_, _, m). m)
       (filter (\<lambda>(b, j, _). b = a_id a \<and> j = i) (firing_log dates as en)))"
proof (induction dates arbitrary: en)
  case Nil
  show ?case by (simp split: option.split)
next
  case (Cons now dates)
  let ?p = "\<lambda>(b, j, t). a_id b = a_id a \<and> j = i"
  obtain fs en' where f: "firings now (minute_of now) as en = (fs, en')" by fastforce
  have "filter (\<lambda>(b, j, _). b = a_id a \<and> j = i) (map (\<lambda>(a, i, t). (a_id a, i, minute_of now)) fs) =
    map (\<lambda>(a, i, t). (a_id a, i, minute_of now)) (filter ?p fs)"
    by (induction fs) auto
  then show ?case
    using firings_pass [OF f assms, of i] Cons.IH [of en'] f
    by (auto simp: split: option.splits)
qed


section \<open>What a pass records\<close>

definition reads_total :: "'w executors \<Rightarrow> bool" where
  "reads_total ex \<longleftrightarrow> (\<forall>d k w. \<exists>st w'. ex_getState ex d k w = (Inr st, w'))"

lemma evaluateConditions_total:
  "reads_total ex \<Longrightarrow> \<exists>f w'. evaluateConditions ex cs now w = (Inr f, w')"
proof (induction ex cs now arbitrary: w rule: evaluateConditions.induct)
  case (2 ex d cap f op v cs now)
  then obtain st w1 where "ex_getState ex d cap w = (Inr st, w1)" unfolding reads_total_def by blast
  with 2 show ?case by (auto simp: eff_bind_def)
qed auto

lemma execute_total:
  assumes "reads_total ex"
  obtains r w' where "execute ex a trigger skip (en, w) = (Inr (), (log_run r en, w'))"
    "r_automationId r = a_id a" "r_trigger r = trigger"
proof -
  obtain res en' w' where x: "execute ex a trigger skip (en, w) = (res, (en', w'))"
    using prod.exhaust by metis
  have "res = Inr ()"
    using x evaluateConditions_total [OF assms]
    by (auto simp: execute_def Let_def split: prod.splits sum.splits if_splits) (metis prod.inject sum.distinct(1))+
  from x show thesis
  proof (cases rule: execute_cases)
    case (error e)
    with \<open>res = Inr ()\<close> show thesis by simp
  next
    case (recorded r)
    with x show thesis by (intro that [of r w']) simp_all
  qed
qed

definition log_runs :: "automation_run list \<Rightarrow> engine \<Rightarrow> engine" where
  "log_runs rs en = fold log_run rs en"

lemma log_runs_frame [simp]:
  "en_automations (log_runs rs en) = en_automations en"
  "en_lastFired (log_runs rs en) = en_lastFired en"
  "en_historyLimit (log_runs rs en) = en_historyLimit en"
  by (induction rs arbitrary: en) (simp_all add: log_runs_def)

lemma log_runs_Cons: "log_runs (r # rs) en = log_runs rs (log_run r en)"
  by (simp add: log_runs_def)

lemma execute_firing_total:
  assumes "reads_total ex"
  shows "\<exists>rs w'. execute_firing ex fires trigger as (en, w) = (Inr (), (log_runs rs en, w')) \<and>
    map r_automationId rs = map a_id (filter fires as) \<and> (\<forall>r\<in>set rs. r_trigger r = trigger)"
proof (induction as arbitrary: en w)
  case Nil
  show ?case by (intro exI [of _ "[]"]) (simp add: log_runs_def)
next
  case (Cons a as)
  obtain r w1 where x: "execute ex a trigger False (en, w) = (Inr (), (log_run r en, w1))"
    "r_automationId r = a_id a" "r_trigger r = trigger"
    by (rule execute_total [OF assms])
  obtain rs w' where "execute_firing ex fires trigger as (log_run r en, w1) =
      (Inr (), (log_runs rs (log_run r en), w'))"
    "map r_automationId rs = map a_id (filter fires as)" "\<forall>r\<in>set rs. r_trigger r = trigger"
    using Cons.IH by blast
  with x Cons.IH [of en w] show ?case
    by (cases "fires a") (auto simp: eff_bind_def log_runs_Cons intro!: exI [of _ "r # rs"])
qed

lemma timeTriggerFires_cong:
  "en_lastFired en = en_lastFired en0 \<Longrightarrow>
   timeTriggerFires aid i t now m en =
     map_prod id (\<lambda>e. en\<lparr>en_lastFired := en_lastFired e\<rparr>) (timeTriggerFires aid i t now m en0)"
  by (cases t) (auto split: option.splits)

lemma first_firing_cong:
  "en_lastFired en = en_lastFired en0 \<Longrightarrow>
   first_firing aid i ts now m en =
     map_prod id (\<lambda>e. en\<lparr>en_lastFired := en_lastFired e\<rparr>) (first_firing aid i ts now m en0)"
proof (induction ts arbitrary: i)
  case (Cons t ts)
  obtain b en1 where t: "timeTriggerFires aid i t now m en0 = (b, en1)" by fastforce
  then have u: "timeTriggerFires aid i t now m en = (b, en\<lparr>en_lastFired := en_lastFired en1\<rparr>)"
    by (simp add: timeTriggerFires_cong [OF Cons.prems])
  show ?case
  proof (cases b)
    case False
    with t have "en1 = en0" by (simp add: timeTriggerFires_False)
    moreover from Cons.prems have "en\<lparr>en_lastFired := en_lastFired en0\<rparr> = en" by simp
    ultimately show ?thesis using t u False Cons.IH [OF Cons.prems, of "Suc i"] by simp
  qed (simp add: t u)
qed simp

lemma tick_automations_total:
  assumes "reads_total ex"
  shows "firings now m as en0 = (fs, en1) \<Longrightarrow> en_lastFired en = en_lastFired en0 \<Longrightarrow>
    \<exists>rs w'. tick_automations ex now m as (en, w) =
        (Inr (), (log_runs rs (en\<lparr>en_lastFired := en_lastFired en1\<rparr>), w')) \<and>
      map (\<lambda>r. (r_automationId r, r_trigger r)) rs = map (\<lambda>(a, i, t). (a_id a, trigger_type t)) fs"
proof (induction as arbitrary: en en0 fs en1 w)
  case Nil
  then show ?case by (intro exI [of _ "[]"]) (simp add: log_runs_def)
next
  case (Cons a as)
  obtain o1 e1 where f: "first_firing (a_id a) 0 (a_triggers a) now m en0 = (o1, e1)" by fastforce
  then have g: "first_firing (a_id a) 0 (a_triggers a) now m en = (o1, en\<lparr>en_lastFired := en_lastFired e1\<rparr>)"
    by (simp add: first_firing_cong [OF Cons.prems(2)])
  obtain fs1 e2 where r: "firings now m as e1 = (fs1, e2)" by fastforce
  let ?en = "en\<lparr>en_lastFired := en_lastFired e1\<rparr>"
  show ?case
  proof (cases o1)
    case None
    with Cons.prems f r have "fs = fs1" "en1 = e2" by auto
    with Cons.IH [OF r, of ?en w] g None show ?thesis by simp
  next
    case (Some it)
    obtain i t where it: "it = (i, t)" by fastforce
    with Cons.prems f r Some have fs: "fs = (a, i, t) # fs1" "en1 = e2" by auto
    obtain run w1 where x: "execute ex a (trigger_type t) False (?en, w) = (Inr (), (log_run run ?en, w1))"
      "r_automationId run = a_id a" "r_trigger run = trigger_type t"
      by (rule execute_total [OF assms])
    obtain rs w' where t: "tick_automations ex now m as (log_run run ?en, w1) =
        (Inr (), (log_runs rs ((log_run run ?en)\<lparr>en_lastFired := en_lastFired e2\<rparr>), w'))"
      "map (\<lambda>r. (r_automationId r, r_trigger r)) rs = map (\<lambda>(a, i, t). (a_id a, trigger_type t)) fs1"
      using Cons.IH [OF r, of "log_run run ?en" w1] by auto
    have "(log_run run ?en)\<lparr>en_lastFired := en_lastFired e2\<rparr> = log_run run (en\<lparr>en_lastFired := en_lastFired e2\<rparr>)"
      by (simp add: push_run_def)
    with t x g Some it fs show ?thesis
      by (intro exI [of _ "run # rs"] exI [of _ w']) (simp add: eff_bind_def log_runs_Cons)
  qed
qed

lemma log_runs_history:
  "length (en_runs en) \<le> en_historyLimit en \<Longrightarrow>
   en_runs (log_runs rs en) = drop (length (en_runs en) + length rs - en_historyLimit en) (en_runs en @ rs)"
  unfolding log_runs_def by (rule eng.hist_fold)

text \<open>When the state reads do not throw, a tick executes exactly the automations whose timers fire,
  once each and in the order of the list, whether or not their conditions hold or their actions fail: the history gains
  one trace for each of them with its trigger's type, the oldest traces leaving beyond the limit, and the
  timer table is the one of the timer pass.\<close>

theorem tick_runs_exactly_firings:
  assumes "reads_total ex" "length (en_runs en) \<le> en_historyLimit en"
    and "firings now (minute_of now) (en_automations en) en = (fs, en1)"
  shows "\<exists>rs en' w'. tick ex now (en, w) = (Inr (), (en', w')) \<and>
    map (\<lambda>r. (r_automationId r, r_trigger r)) rs = map (\<lambda>(a, i, t). (a_id a, trigger_type t)) fs \<and>
    en_runs en' = drop (length (en_runs en) + length rs - en_historyLimit en) (en_runs en @ rs) \<and>
    en_lastFired en' = en_lastFired en1"
proof -
  let ?en = "en\<lparr>en_lastFired := en_lastFired en1\<rparr>"
  obtain rs w' where rs: "tick_automations ex now (minute_of now) (en_automations en) (en, w) =
      (Inr (), (log_runs rs ?en, w'))"
    "map (\<lambda>r. (r_automationId r, r_trigger r)) rs = map (\<lambda>(a, i, t). (a_id a, trigger_type t)) fs"
    using tick_automations_total [OF assms(1) assms(3) refl] by blast
  with log_runs_history [of ?en rs] assms(2) show ?thesis
    by (intro exI [of _ rs] exI [of _ "log_runs rs ?en"] exI [of _ w']) (simp add: tick_def)
qed

text \<open>When the state reads do not throw, a device state event executes exactly the automations
  with a matching trigger, once each and in order, whatever becomes of their actions.\<close>

theorem device_event_runs_exactly_matching:
  assumes "reads_total ex" "length (en_runs en) \<le> en_historyLimit en"
  shows "\<exists>rs en' w'. onDeviceState ex ev (en, w) = (Inr (), (en', w')) \<and>
    map r_automationId rs =
      map a_id (filter (\<lambda>a. list_ex (device_trigger_fires ev) (a_triggers a)) (en_automations en)) \<and>
    list_all (\<lambda>r. r_trigger r = ''device_state'') rs \<and>
    en_runs en' = drop (length (en_runs en) + length rs - en_historyLimit en) (en_runs en @ rs)"
proof -
  obtain rs w' where "onDeviceState ex ev (en, w) = (Inr (), (log_runs rs en, w'))"
    "map r_automationId rs =
      map a_id (filter (\<lambda>a. list_ex (device_trigger_fires ev) (a_triggers a)) (en_automations en))"
    "\<forall>r\<in>set rs. r_trigger r = ''device_state''"
    using execute_firing_total [OF assms(1)] unfolding onDeviceState_def fst_conv by blast
  with log_runs_history [OF assms(2), of rs] show ?thesis
    by (intro exI [of _ rs] exI [of _ "log_runs rs en"] exI [of _ w']) (simp add: list_all_iff)
qed


section \<open>Traces, dry runs and health\<close>

lemma run_actions_failed:
  "run_actions ex acts w = (rs, w') \<Longrightarrow> \<not> list_all ra_ok rs \<Longrightarrow> rs \<noteq> [] \<and> \<not> ra_ok (last rs)"
proof (induction acts arbitrary: w rs w')
  case (Cons act acts)
  obtain r w1 where t: "traced_action ex act w = (r, w1)" by fastforce
  obtain rs1 w2 where r1: "run_actions ex acts w1 = (rs1, w2)" by fastforce
  from Cons.prems t r1 Cons.IH [OF r1] show ?case by (cases "ra_ok r") auto
qed simp

text \<open>A recorded execution ran no action when a condition failed. Otherwise its trace is a prefix of the
  automation's actions in their order, every entry but the final one succeeded, and the run is ok exactly when all the
  automation's actions are in it and succeeded; a run that is not ok ends with the failing action.\<close>

theorem execute_stops_at_first_failure:
  assumes "execute ex a trigger skip (en, w) = (Inr (), (en', w'))"
  shows "\<exists>r. en' = log_run r en \<and>
    (if r_conditionsPassed r
     then map ra_type (r_actions r) = map action_type (take (length (r_actions r)) (a_actions a)) \<and>
          list_all ra_ok (butlast (r_actions r)) \<and>
          (r_ok r \<longleftrightarrow> length (r_actions r) = length (a_actions a) \<and> list_all ra_ok (r_actions r)) \<and>
          (r_ok r \<or> r_actions r \<noteq> [] \<and> \<not> ra_ok (last (r_actions r)))
     else \<not> skip \<and> r_actions r = [] \<and> \<not> r_ok r)"
  using assms
proof (cases rule: execute_cases)
  case (recorded r)
  show ?thesis
  proof (cases "r_conditionsPassed r")
    case True
    with recorded obtain w1 w2 where "run_actions ex (a_actions a) w1 = (r_actions r, w2)" by blast
    from run_actions_trace [OF this] run_actions_failed [OF this] True recorded show ?thesis
      by (intro exI [of _ r]) (auto simp: run_wf_def)
  next
    case False
    with recorded show ?thesis by (intro exI [of _ r]) (auto simp: run_wf_def)
  qed
qed simp

text \<open>A dry run depends on the state reads and the clocks only: executors that differ in commands, scenes,
  notifications, intents, sleeping or the last-run hook give the same trace and leave the same world.\<close>

theorem dry_run_no_side_effects:
  "dryRun (ex\<lparr>ex_command := c, ex_activateScene := sc, ex_notify := nt, ex_runIntent := ri,
             ex_sleep := sl, ex_onRun := onr\<rparr>) a s = dryRun ex a s"
proof -
  let ?ex = "ex\<lparr>ex_command := c, ex_activateScene := sc, ex_notify := nt, ex_runIntent := ri,
             ex_sleep := sl, ex_onRun := onr\<rparr>"
  have conditions: "evaluateConditions ?ex cs now = evaluateConditions ex cs now" for cs now
  proof (induction cs)
    case (Cons x cs)
    then show ?case by (cases x) (simp_all cong: if_cong add: eff_return_def)
  qed simp
  have clocks: "ex_now ?ex = ex_now ex" "ex_date ?ex = ex_date ex" by simp_all
  show ?thesis unfolding dryRun_def conditions clocks ..
qed

text \<open>The world after attempting actions one after the other, whichever fail, with the clock read around each.\<close>

fun attempts :: "'w executors \<Rightarrow> automation_action list \<Rightarrow> 'w \<Rightarrow> 'w" where
  "attempts ex [] w = w"
| "attempts ex (act # acts) w =
     attempts ex acts (snd (ex_now ex (snd (runAutomationAction ex act (snd (ex_now ex w))))))"

lemma traced_action_world: "snd (traced_action ex act w) = snd (ex_now ex (snd (runAutomationAction ex act (snd (ex_now ex w)))))"
  by (simp add: traced_action_def Let_def split: prod.split)

lemma traced_action_summary: "traced_action ex act w = (r, w') \<Longrightarrow> ra_summary r = describeAutomationAction act"
  by (auto simp: traced_action_def Let_def split: prod.splits)

lemma run_actions_attempts:
  assumes "run_actions ex acts w = (rs, w')"
  shows "w' = attempts ex (take (length rs) acts) w" "map ra_summary rs = map describeAutomationAction (take (length rs) acts)"
    and "length rs < length acts \<Longrightarrow> rs \<noteq> [] \<and> \<not> ra_ok (last rs)"
proof -
  have "w' = attempts ex (take (length rs) acts) w \<and> map ra_summary rs = map describeAutomationAction (take (length rs) acts) \<and>
    (length rs < length acts \<longrightarrow> rs \<noteq> [] \<and> \<not> ra_ok (last rs))"
    using assms
  proof (induction acts arbitrary: w rs w')
    case (Cons act acts)
    obtain r w1 where t: "traced_action ex act w = (r, w1)" by fastforce
    with traced_action_world [of ex act w] have w1: "w1 = snd (ex_now ex (snd (runAutomationAction ex act (snd (ex_now ex w)))))" by simp
    obtain rs1 w2 where r1: "run_actions ex acts w1 = (rs1, w2)" by fastforce
    show ?case
    proof (cases "ra_ok r")
      case True
      with Cons.prems t r1 have "rs = r # rs1" "w' = w2" by simp_all
      with Cons.IH [OF r1] traced_action_summary [OF t] w1 show ?thesis by auto
    next
      case False
      with Cons.prems t have "rs = [r]" "w' = w1" by simp_all
      with False traced_action_summary [OF t] w1 show ?thesis by simp
    qed
  qed simp
  then show "w' = attempts ex (take (length rs) acts) w" "map ra_summary rs = map describeAutomationAction (take (length rs) acts)"
    "length rs < length acts \<Longrightarrow> rs \<noteq> [] \<and> \<not> ra_ok (last rs)" by blast+
qed

text \<open>C34: From one state, a dry run and a real triggered run agree. If a condition read throws, both throw that error and leave
  the same state. Otherwise both record the same start and the same outcome of the conditions, the dry run announces the automation's
  actions, and the real run attempts exactly the first of these, in order, all unless one fails, after which it stops: its trace
  describes each as announced, and the world is the one in which the dry run read the conditions after exactly these actions (and
  the readings of the clock and the run hook).\<close>

theorem dry_run_predicts_run:
  assumes "dryRun ex a (en, w) = (d, s0)" "execute ex a trigger False (en, w) = (res, (en', w'))"
  shows "case d of
      Inl e \<Rightarrow> res = Inl e \<and> (en', w') = s0
    | Inr r0 \<Rightarrow> \<exists>r k w3. res = Inr () \<and> en' = log_run r en \<and>
        r_conditionsPassed r = r_conditionsPassed r0 \<and> r_failedCondition r = r_failedCondition r0 \<and> r_startedAt r = r_startedAt r0 \<and>
        map ra_summary (r_actions r0) =
          (if r_conditionsPassed r0 then map (\<lambda>act. ''Would run: '' @ describeAutomationAction act) (a_actions a) else []) \<and>
        length (r_actions r) = k \<and> k \<le> length (r_actions r0) \<and>
        (k < length (r_actions r0) \<longrightarrow> r_actions r \<noteq> [] \<and> \<not> ra_ok (last (r_actions r))) \<and>
        map ra_type (r_actions r) = take k (map ra_type (r_actions r0)) \<and>
        map (\<lambda>x. ''Would run: '' @ ra_summary x) (r_actions r) = take k (map ra_summary (r_actions r0)) \<and>
        snd s0 = snd (ex_now ex w3) \<and>
        w' = snd (record_run ex r (en, snd (ex_now ex (attempts ex (take k (a_actions a)) w3))))"
proof -
  obtain started w1 where dt: "ex_date ex w = (started, w1)" by fastforce
  obtain t0 w2 where n: "ex_now ex w1 = (t0, w2)" by fastforce
  obtain c w3 where c: "evaluateConditions ex (a_conditions a) started w2 = (c, w3)" by fastforce
  show ?thesis
  proof (cases c)
    case (Inl e)
    with assms dt n c show ?thesis by (auto simp: dryRun_def execute_def)
  next
    case (Inr failed)
    have dry: "map ra_type (map dry_action acts) = map action_type acts"
      "map ra_summary (map dry_action acts) = map (\<lambda>act. ''Would run: '' @ describeAutomationAction act) acts" for acts
      by (induction acts) (auto simp: dry_action_def)
    obtain acts w4 where acts: "(if failed = None then run_actions ex (a_actions a) w3 else ([], w3)) = (acts, w4)"
      by fastforce
    obtain r0 where r0: "d = Inr r0" "r_conditionsPassed r0 = (failed = None)" "r_failedCondition r0 = failed"
      "r_startedAt r0 = getTime started" "r_actions r0 = (if failed = None then map dry_action (a_actions a) else [])"
      "snd s0 = snd (ex_now ex w3)"
      using assms(1) dt n c Inr by (auto simp: dryRun_def Let_def split: prod.splits)
    obtain t1 w5 where n4: "ex_now ex w4 = (t1, w5)" by fastforce
    define r where "r = \<lparr>r_id = RunId (getTime started) (en_runSeq en), r_automationId = a_id a,
      r_startedAt = getTime started, r_trigger = trigger, r_conditionsPassed = (failed = None), r_failedCondition = failed,
      r_actions = acts, r_durationMs = t1 - t0, r_ok = ((failed = None) \<and> list_all ra_ok acts), r_error = truthy (actions_error acts)\<rparr>"
    have "execute ex a trigger False (en, w) = (Inr (), record_run ex r (en\<lparr>en_runSeq := Suc (en_runSeq en)\<rparr>, w5))"
      unfolding r_def using dt n c Inr acts n4 by (simp add: execute_def Let_def)
    with assms(2) n4 have r: "res = Inr ()" "en' = log_run r en" "w' = snd (record_run ex r (en, snd (ex_now ex w4)))"
      by (auto simp: record_run_def)
    have fields: "r_conditionsPassed r = (failed = None)" "r_failedCondition r = failed" "r_startedAt r = getTime started" "r_actions r = acts"
      by (simp_all add: r_def)
    let ?k = "length acts"
    have run: "map ra_type acts = take ?k (map ra_type (r_actions r0)) \<and>
        map (\<lambda>x. ''Would run: '' @ ra_summary x) acts = take ?k (map ra_summary (r_actions r0)) \<and>
        ?k \<le> length (r_actions r0) \<and> (?k < length (r_actions r0) \<longrightarrow> acts \<noteq> [] \<and> \<not> ra_ok (last acts)) \<and>
        w4 = attempts ex (take ?k (a_actions a)) w3"
    proof (cases failed)
      case None
        with acts have rr: "run_actions ex (a_actions a) w3 = (acts, w4)" by simp
        note t = run_actions_trace [OF rr] and at = run_actions_attempts [OF rr]
        have "map (\<lambda>x. ''Would run: '' @ ra_summary x) acts = map (\<lambda>d. ''Would run: '' @ d) (map ra_summary acts)" by simp
        also have "\<dots> = take ?k (map (\<lambda>act. ''Would run: '' @ describeAutomationAction act) (a_actions a))"
          unfolding at(2) by (simp add: take_map)
        finally show ?thesis
          using None t(1,3) at(1,3) by (simp add: r0(5) dry take_map del: map_map)
    qed (use acts r0(5) in auto)
    have ann: "map ra_summary (r_actions r0) =
        (if r_conditionsPassed r0 then map (\<lambda>act. ''Would run: '' @ describeAutomationAction act) (a_actions a) else [])"
      unfolding r0(2,5) by (simp add: dry del: map_map)
    show ?thesis
      unfolding r0(1) sum.case
      by (intro exI [of _ r] exI [of _ "length acts"] exI [of _ w3] conjI)
        (use run ann r0 r fields in simp_all)
  qed
qed

lemma run_scheduled_places:
  "run_scheduled ex acts is res w = (res', w') \<Longrightarrow> distinct is \<Longrightarrow>
   (\<forall>i. i \<notin> set is \<longrightarrow> res' i = res i) \<and>
   (\<forall>i\<in>set is. \<exists>w1 w2 r. traced_action ex (acts ! i) w1 = (r, w2) \<and> res' i = Some r)"
proof (induction "is" arbitrary: res w)
  case (Cons i js)
  obtain r w1 where t: "traced_action ex (acts ! i) w = (r, w1)" by fastforce
  with Cons.prems have s: "run_scheduled ex acts js (res(i \<mapsto> r)) w1 = (res', w')" by simp
  from Cons.IH [OF s] Cons.prems have "\<forall>j. j \<notin> set js \<longrightarrow> res' j = (res(i \<mapsto> r)) j"
    "\<forall>j\<in>set js. \<exists>w1 w2 r. traced_action ex (acts ! j) w1 = (r, w2) \<and> res' j = Some r" by auto
  with t Cons.prems show ?case by (auto simp: fun_upd_def split: if_splits)
qed simp

text \<open>A concurrent run attempts every action, whichever fail and in whatever order they take effect:
  its trace has one entry for each action, in the automation's order, each the outcome of an actual attempt of that
  action, and it is ok exactly when all succeeded.\<close>

theorem runConcurrent_attempts_all:
  assumes "schedule_ok (a_actions a) sched"
    and "runConcurrent ex a trigger sched (en, w) = (r, (en', w'))"
  shows "length (r_actions r) = length (a_actions a) \<and> en' = log_run r en \<and>
    (\<forall>i<length (a_actions a). \<exists>w1 w2. traced_action ex (a_actions a ! i) w1 = (r_actions r ! i, w2)) \<and>
    r_ok r = list_all ra_ok (r_actions r)"
proof -
  obtain started w1 where d: "ex_date ex w = (started, w1)" by fastforce
  obtain t0 w2 where n: "ex_now ex w1 = (t0, w2)" by fastforce
  obtain res w3 where s: "run_scheduled ex (a_actions a) sched Map.empty w2 = (res, w3)" by fastforce
  from assms d n s have r: "r_actions r = map (\<lambda>i. the (res i)) [0..<length (a_actions a)]"
    "r_ok r = list_all ra_ok (r_actions r)"
    by (auto simp: runConcurrent_def Let_def split: prod.splits)
  from assms(1) run_scheduled_places [OF s]
  have "\<forall>i<length (a_actions a). \<exists>w1 w2 r. traced_action ex (a_actions a ! i) w1 = (r, w2) \<and> res i = Some r"
    by (auto simp: schedule_ok_def)
  then have "\<forall>i<length (a_actions a). \<exists>w1 w2. traced_action ex (a_actions a ! i) w1 = (r_actions r ! i, w2)"
    by (auto simp: r) (metis option.sel)
  with r runConcurrent_run(1) [OF assms(2)] show ?thesis by simp
qed


lemma real_runs_log:
  assumes "0 < en_historyLimit en" "length (en_runs en) \<le> en_historyLimit en"
    and "r_automationId r = a_id a" "r_trigger r \<noteq> ''dry_run''"
  shows "\<exists>rest. real_runs a (log_run r en) = r # rest"
proof -
  obtain h where h: "en_runs (log_run r en) = h @ [r]"
    using push_history_last [OF assms(1,2), of r] by (auto simp: push_run_def)
  have "\<exists>rest. recentRuns (Some (a_id a)) 20 (log_run r en) = r # rest"
    unfolding recentRuns_def h by (rule recent_snoc_Cons) (simp_all add: assms)
  with assms(4) show ?thesis by (auto simp: real_runs_def)
qed

text \<open>Right after a real run of an enabled native automation, its health reports that run: healthy when it
  succeeded or its conditions did not hold, warning or broken when one of its actions failed.\<close>

theorem health_reports_newest_run:
  assumes "a_enabled a" "a_engine a = ''supreme''"
    and "0 < en_historyLimit en" "length (en_runs en) \<le> en_historyLimit en"
    and "r_automationId r = a_id a" "r_trigger r \<noteq> ''dry_run''"
  shows "if r_conditionsPassed r \<and> \<not> r_ok r
    then fst (health a (log_run r en)) \<in> {HsWarning, HsBroken}
    else fst (health a (log_run r en)) = HsHealthy"
proof -
  obtain rest where "real_runs a (log_run r en) = r # rest"
    using real_runs_log [OF assms(3-6)] by blast
  then show ?thesis using assms(1,2) by (simp add: health_def Let_def)
qed

text \<open>Twenty dry runs of an automation hide its real runs from its health: it reports waiting, not
  yet triggered, whatever the real runs before them were, because the dry runs are filtered out only after
  the newest twenty traces have been taken.\<close>

theorem dry_runs_mask_health:
  assumes "a_enabled a" "a_engine a = ''supreme''"
    and "20 \<le> en_historyLimit en" "length (en_runs en) \<le> en_historyLimit en"
    and "20 \<le> length rs"
    and "list_all (\<lambda>r. r_automationId r = a_id a \<and> r_trigger r = ''dry_run'') rs"
  shows "fst (health a (log_runs rs en)) = HsWaiting"
proof -
  let ?p = "\<lambda>r. case Some (a_id a) of None \<Rightarrow> True | Some i \<Rightarrow> i = '''' \<or> r_automationId r = i"
  let ?k = "length (en_runs en) + length rs - en_historyLimit en"
  define zs where "zs = drop (?k - length (en_runs en)) rs"
  have all: "list_all (\<lambda>r. r_automationId r = a_id a \<and> r_trigger r = ''dry_run'') zs"
    using assms(6) by (auto simp: zs_def list_all_iff dest: in_set_dropD)
  have "20 \<le> length zs" using assms(3,5) by (auto simp: zs_def)
  moreover have "list_all ?p zs" using all by (auto simp: list_all_iff)
  ultimately have "recent ?p 20 (drop ?k (en_runs en) @ zs) = recent ?p 20 zs"
    by (intro recent_suffix) simp_all
  then have "recentRuns (Some (a_id a)) 20 (log_runs rs en) = recent ?p 20 zs"
    by (simp add: recentRuns_def log_runs_history [OF assms(4)] zs_def)
  then have "filter (\<lambda>r. r_trigger r \<noteq> ''dry_run'') (recentRuns (Some (a_id a)) 20 (log_runs rs en)) = []"
    using all by (auto simp: filter_empty_conv list_all_iff dest!: recent_set)
  then have "real_runs a (log_runs rs en) = []" by (simp add: real_runs_def)
  then show ?thesis using assms(1,2) by (simp add: health_def)
qed

section \<open>A concrete engine\<close>

text \<open>
  Executors over a world that counts the commands sent: the lamp is on, commands to any other
  device are refused, and the clock stands still.
\<close>

definition demo_date :: date where
  "demo_date = \<lparr>getTime = 1800000, getDay = 4, getHours = 0, getMinutes = 30\<rparr>"

definition demo_executors :: "nat executors" where
  "demo_executors =
     \<lparr>ex_command = (\<lambda>d c n. if d = ''lamp'' then (Inr (), Suc n)
                          else (Inl (SupremeError Backend_unavailable ''no provider''), n)),
      ex_activateScene = (\<lambda>s n. (Inr (), n)),
      ex_notify = (\<lambda>l t b u n. (Inr (), n)),
      ex_getState = (\<lambda>d k n. (Inr (if d = ''lamp'' then Some (OnOffState True) else None), n)),
      ex_runIntent = None,
      ex_sleep = (\<lambda>ms n. (Inr (), n)),
      ex_onRun = None,
      ex_now = (\<lambda>n. (1800000, n)),
      ex_date = (\<lambda>n. (demo_date, n))\<rparr>"

definition demo_automation :: automation where
  "demo_automation =
     \<lparr>a_id = ''a1'', a_homeId = ''h1'', a_name = ''Night'', a_enabled = True,
      a_triggers = [TrTime ''00:30'' [], TrInterval 5],
      a_conditions = [CoDevice_state ''lamp'' CkOnoff ''on'' Eq (JBool True)],
      a_actions = [AcDevice_command ''lamp'' (CmdOnoff OoOff), AcDevice_command ''gone'' (CmdOnoff OoOff),
                   AcDelay 5],
      a_engine = ''supreme'', a_externalRef = None, a_aiGenerated = False, a_tags = []\<rparr>"


lemma demo_reads_total [simp]: "reads_total demo_executors"
  by (simp add: reads_total_def demo_executors_def)

lemma engine_history_invariant_witness:
  "engine_inv (fst (snd (tick demo_executors demo_date
     (snd (run demo_executors demo_automation (new_engine (Some 1), 0))))))"
  by (rule engine_history_invariant [THEN conjunct1, OF reach_step [OF reach_step
        [OF reach_init step_run [OF prod.collapse [symmetric]]] step_tick [OF prod.collapse [symmetric]]]])

lemma timer_spacing_witness:
  "firing_log [demo_date, demo_date, demo_date] [demo_automation] (new_engine None) =
     [(''a1'', 0, 30), (''a1'', 1, 30)] \<and>
   successively (spaced (a_triggers demo_automation ! 1))
     ((case jget (en_lastFired (new_engine None)) (trigger_key (a_id demo_automation) 1) of
         None \<Rightarrow> [] | Some m \<Rightarrow> [m]) @
      map (\<lambda>(_, _, m). m) (filter (\<lambda>(b, j, _). b = a_id demo_automation \<and> j = 1)
        (firing_log [demo_date, demo_date, demo_date] [demo_automation] (new_engine None))))"
  (is "?log \<and> ?spaced")
proof
  show ?log by code_simp
  show ?spaced by (rule timer_spacing) simp_all
qed

abbreviation demo_engine :: engine where
  "demo_engine \<equiv> setAutomations [demo_automation] (new_engine (Some 3))"

lemma tick_runs_exactly_firings_witness:
  "map (\<lambda>(a, i, t). (a_id a, trigger_type t)) (fst (firings demo_date 30 [demo_automation] demo_engine)) =
     [(''a1'', ''time'')] \<and>
   (\<exists>rs en' w'. tick demo_executors demo_date (demo_engine, 0) = (Inr (), (en', w')) \<and>
      map (\<lambda>r. (r_automationId r, r_trigger r)) rs =
        map (\<lambda>(a, i, t). (a_id a, trigger_type t))
          (fst (firings demo_date (minute_of demo_date) (en_automations demo_engine) demo_engine)) \<and>
      en_runs en' = drop (length (en_runs demo_engine) + length rs - en_historyLimit demo_engine)
        (en_runs demo_engine @ rs) \<and>
      en_lastFired en' =
        en_lastFired (snd (firings demo_date (minute_of demo_date) (en_automations demo_engine) demo_engine)))"
  (is "?log \<and> ?runs")
proof
  show ?log by code_simp
  show ?runs
    by (rule tick_runs_exactly_firings [OF demo_reads_total _ prod.collapse [symmetric]])
      (simp add: setAutomations_def new_engine_def)
qed

lemma device_event_runs_exactly_matching_witness:
  "\<exists>rs en' w'. onDeviceState demo_executors
      \<lparr>de_deviceId = ''lamp'', de_capability = CkOnoff, de_state = OnOffState True\<rparr> (demo_engine, 0) =
        (Inr (), (en', w')) \<and>
     map r_automationId rs = map a_id (filter (\<lambda>a. list_ex (device_trigger_fires
      \<lparr>de_deviceId = ''lamp'', de_capability = CkOnoff, de_state = OnOffState True\<rparr>) (a_triggers a))
        (en_automations demo_engine)) \<and>
     list_all (\<lambda>r. r_trigger r = ''device_state'') rs \<and>
     en_runs en' = drop (length (en_runs demo_engine) + length rs - en_historyLimit demo_engine)
       (en_runs demo_engine @ rs)"
  by (rule device_event_runs_exactly_matching) (simp_all add: setAutomations_def new_engine_def)

lemma execute_stops_at_first_failure_witness:
  "\<exists>r. fst (snd (execute demo_executors demo_automation ''time'' False (demo_engine, 0))) =
        log_run r demo_engine \<and>
    (if r_conditionsPassed r
     then map ra_type (r_actions r) =
            map action_type (take (length (r_actions r)) (a_actions demo_automation)) \<and>
          list_all ra_ok (butlast (r_actions r)) \<and>
          (r_ok r \<longleftrightarrow> length (r_actions r) = length (a_actions demo_automation) \<and>
             list_all ra_ok (r_actions r)) \<and>
          (r_ok r \<or> r_actions r \<noteq> [] \<and> \<not> ra_ok (last (r_actions r)))
     else \<not> False \<and> r_actions r = [] \<and> \<not> r_ok r)"
proof (rule execute_stops_at_first_failure)
  have "fst (execute demo_executors demo_automation ''time'' False (demo_engine, 0)) = Inr ()" by code_simp
  then show "execute demo_executors demo_automation ''time'' False (demo_engine, 0) =
    (Inr (), (fst (snd (execute demo_executors demo_automation ''time'' False (demo_engine, 0))),
              snd (snd (execute demo_executors demo_automation ''time'' False (demo_engine, 0)))))"
    by (metis prod.collapse)
qed

definition demo_dry :: automation_run where
  "demo_dry = (case fst (dryRun demo_executors demo_automation (demo_engine, 0)) of
     Inr r \<Rightarrow> r | Inl _ \<Rightarrow> undefined)"

lemma dry_run_predicts_run_witness:
  "\<exists>r. fst (execute demo_executors demo_automation ''time'' False (demo_engine, 0)) = Inr () \<and>
    fst (snd (execute demo_executors demo_automation ''time'' False (demo_engine, 0))) = log_run r demo_engine \<and>
    r_conditionsPassed r = r_conditionsPassed demo_dry \<and> r_failedCondition r = r_failedCondition demo_dry \<and>
    map (\<lambda>x. ''Would run: '' @ ra_summary x) (r_actions r) = take (length (r_actions r)) (map ra_summary (r_actions demo_dry))"
proof -
  let ?dry = "dryRun demo_executors demo_automation (demo_engine, 0)"
    and ?real = "execute demo_executors demo_automation ''time'' False (demo_engine, 0)"
  have d: "fst ?dry = Inr demo_dry" by code_simp
  have "?dry = (fst ?dry, snd ?dry)" "?real = (fst ?real, (fst (snd ?real), snd (snd ?real)))" by simp_all
  from dry_run_predicts_run [OF this] show ?thesis unfolding d sum.case by blast
qed

lemma runConcurrent_attempts_all_witness:
  "length (r_actions (fst (runConcurrent demo_executors demo_automation ''scene'' [2, 0, 1] (demo_engine, 0)))) = 3"
proof -
  let ?r = "runConcurrent demo_executors demo_automation ''scene'' [2, 0, 1] (demo_engine, 0)"
  have len: "length (a_actions demo_automation) = 3" by (simp add: demo_automation_def)
  have ok: "schedule_ok (a_actions demo_automation) [2, 0, 1]"
    unfolding schedule_ok_def len by (auto simp: lessThan_nat_numeral lessThan_Suc)
  have "?r = (fst ?r, (fst (snd ?r), snd (snd ?r)))" by simp
  from runConcurrent_attempts_all [OF ok this] len show ?thesis by simp
qed

definition demo_run :: "run_id \<Rightarrow> string \<Rightarrow> bool \<Rightarrow> automation_run" where
  "demo_run i trigger ok =
     \<lparr>r_id = i, r_automationId = ''a1'', r_startedAt = 0, r_trigger = trigger, r_conditionsPassed = True,
      r_failedCondition = None, r_actions = [], r_durationMs = 0, r_ok = ok, r_error = None\<rparr>"

lemma health_reports_newest_run_witness:
  "fst (health demo_automation (log_run (demo_run (RunId 0 0) ''time'' False) demo_engine)) \<in> {HsWarning, HsBroken}"
  using health_reports_newest_run [of demo_automation demo_engine "demo_run (RunId 0 0) ''time'' False"]
  by (simp add: demo_automation_def demo_run_def new_engine_def setAutomations_def)

lemma dry_runs_mask_health_witness:
  "fst (health demo_automation (log_run (demo_run (RunId 0 0) ''time'' False) (new_engine None))) = HsBroken \<and>
   fst (health demo_automation
     (log_runs (replicate 20 (demo_run (DryRunId 0 1) ''dry_run'' True))
       (log_run (demo_run (RunId 0 0) ''time'' False) (new_engine None)))) = HsWaiting"
  (is "?broken \<and> ?waiting")
proof
  show ?broken by code_simp
  show ?waiting
    by (rule dry_runs_mask_health)
      (simp_all add: demo_automation_def demo_run_def new_engine_def push_run_def push_history_def list_all_iff)
qed

end
