(* ===== verification/Keypad_Input.thy ===== *)
theory Keypad_Input
  imports Automation_Dsl
begin

text \<open>
  The universal input engine, \<^verbatim>\<open>services/keypad-framework/src/input-engine.ts\<close>: the press-timing
  state machine of one control, with its three timers, and the derived events it publishes. A timer
  is the instant it is due with the control its closure holds; it may fire at any time from then
  on. The machine of the source is related to an abstract one with four phases.
\<close>

section \<open>State\<close>

type_synonym control_ref = "device_id \<times> string"

record control_state =
  cs_pressedAt :: "nat option"
  cs_clickCount :: nat
  cs_holding :: bool
  cs_longPressTimer :: "(nat \<times> control_ref) option"
  cs_holdTicker :: "(nat \<times> nat \<times> control_ref) option"
  cs_decisionTimer :: "(nat \<times> control_ref) option"

definition freshState :: control_state where
  "freshState = \<lparr>cs_pressedAt = None, cs_clickCount = 0, cs_holding = False,
     cs_longPressTimer = None, cs_holdTicker = None, cs_decisionTimer = None\<rparr>"

text \<open>The log of published events marks those the engine derived itself.\<close>

record input_engine =
  ie_longPressMs :: nat
  ie_doublePressWindowMs :: nat
  ie_holdTickMs :: nat
  ie_now :: nat
  ie_controls :: "(string, control_state) jsmap"
  ie_log :: "(bool \<times> keypad_input_event) list"

definition new_input_engine :: "nat option \<Rightarrow> nat option \<Rightarrow> nat option \<Rightarrow> nat \<Rightarrow> input_engine" where
  "new_input_engine lp dp ht t =
     \<lparr>ie_longPressMs = (case lp of None \<Rightarrow> 550 | Some n \<Rightarrow> n),
      ie_doublePressWindowMs = (case dp of None \<Rightarrow> 300 | Some n \<Rightarrow> n),
      ie_holdTickMs = (case ht of None \<Rightarrow> 250 | Some n \<Rightarrow> n),
      ie_now = t, ie_controls = [], ie_log = []\<rparr>"

definition controlKey :: "control_ref \<Rightarrow> string" where
  "controlKey r = fst r @ ''#'' @ snd r"

definition event_ref :: "keypad_input_event \<Rightarrow> control_ref" where
  "event_ref e = (ke_keypadId e, ke_control e)"

section \<open>Operations\<close>

definition publish :: "keypad_input_event \<Rightarrow> input_engine \<Rightarrow> input_engine" where
  "publish e ie = ie\<lparr>ie_log := ie_log ie @ [(False, e)]\<rparr>"

definition derive :: "control_ref \<Rightarrow> keypad_event_type \<Rightarrow> input_engine \<Rightarrow> input_engine" where
  "derive r ty ie = ie\<lparr>ie_log := ie_log ie @
     [(True, \<lparr>ke_type = ty, ke_keypadId = fst r, ke_control = snd r, ke_ts = int (ie_now ie)\<rparr>)]\<rparr>"

definition control_at :: "string \<Rightarrow> input_engine \<Rightarrow> control_state" where
  "control_at k ie = (case jget (ie_controls ie) k of None \<Rightarrow> freshState | Some st \<Rightarrow> st)"

definition put_control :: "string \<Rightarrow> control_state \<Rightarrow> input_engine \<Rightarrow> input_engine" where
  "put_control k st ie = ie\<lparr>ie_controls := jset k st (ie_controls ie)\<rparr>"

definition click_type :: "nat \<Rightarrow> keypad_event_type" where
  "click_type n = (if n = 1 then Short_press else if n = 2 then Double_press else Triple_press)"

definition flushClickDecision :: "control_ref \<Rightarrow> input_engine \<Rightarrow> input_engine" where
  "flushClickDecision r ie =
     (let k = controlKey r; st = (control_at k ie)\<lparr>cs_decisionTimer := None\<rparr>
      in if cs_clickCount st = 0 then put_control k st ie
         else put_control k (st\<lparr>cs_clickCount := 0\<rparr>) (derive r (click_type (cs_clickCount st)) ie))"

definition onPress :: "keypad_input_event \<Rightarrow> input_engine \<Rightarrow> input_engine" where
  "onPress e ie =
     (let ie1 = publish e ie; r = event_ref e; k = controlKey r; st = control_at k ie1
      in if cs_pressedAt st \<noteq> None then put_control k st ie1
         else put_control k (st\<lparr>cs_decisionTimer := None, cs_pressedAt := Some (ie_now ie1),
                cs_longPressTimer := Some (ie_now ie1 + ie_longPressMs ie1, r)\<rparr>) ie1)"

definition beginHold :: "control_ref \<Rightarrow> input_engine \<Rightarrow> input_engine" where
  "beginHold r ie =
     (let k = controlKey r;
          ie1 = flushClickDecision r (put_control k ((control_at k ie)\<lparr>cs_longPressTimer := None\<rparr>) ie);
          st = (control_at k ie1)\<lparr>cs_holding := True\<rparr>;
          startedAt = (case cs_pressedAt st of None \<Rightarrow> ie_now ie1 | Some p \<Rightarrow> p);
          ie2 = derive r Hold_start ie1
      in put_control k (st\<lparr>cs_holdTicker := Some (ie_now ie2 + ie_holdTickMs ie2, startedAt, r)\<rparr>) ie2)"

definition holdTick :: "control_ref \<Rightarrow> nat \<Rightarrow> input_engine \<Rightarrow> input_engine" where
  "holdTick r startedAt ie =
     (let k = controlKey r; ie1 = derive r (Holding (ie_now ie - startedAt)) ie
      in put_control k ((control_at k ie1)\<lparr>cs_holdTicker := Some (ie_now ie1 + ie_holdTickMs ie1, startedAt, r)\<rparr>) ie1)"

definition onRelease :: "keypad_input_event \<Rightarrow> input_engine \<Rightarrow> input_engine" where
  "onRelease e ie =
     (let ie1 = publish e ie; r = event_ref e; k = controlKey r
      in case jget (ie_controls ie1) k of
           None \<Rightarrow> ie1
         | Some st0 \<Rightarrow>
             (case cs_pressedAt st0 of
                None \<Rightarrow> ie1
              | Some p \<Rightarrow>
                  (let heldMs = ie_now ie1 - p;
                       st = st0\<lparr>cs_longPressTimer := None, cs_pressedAt := None\<rparr>
                   in if cs_holding st
                      then derive r (Long_press heldMs) (derive r (Hold_end heldMs)
                             (put_control k (st\<lparr>cs_holdTicker := None, cs_holding := False\<rparr>) ie1))
                      else put_control k (st\<lparr>cs_clickCount := min (cs_clickCount st + 1) 3,
                             cs_decisionTimer := Some (ie_now ie1 + ie_doublePressWindowMs ie1, r)\<rparr>) ie1)))"

definition ingest :: "keypad_input_event \<Rightarrow> input_engine \<Rightarrow> input_engine" where
  "ingest e ie =
     (case ke_type e of
        Button_pressed \<Rightarrow> onPress e ie
      | Button_released \<Rightarrow> onRelease e ie
      | _ \<Rightarrow> publish e ie)"

text \<open>At shutdown every timer is cleared and the controls are dropped.\<close>

definition dispose :: "input_engine \<Rightarrow> input_engine" where
  "dispose ie = ie\<lparr>ie_controls := []\<rparr>"

section \<open>Steps\<close>

datatype input_action =
    Ingest keypad_input_event | FireLongPress string | FireHoldTick string | FireDecision string
  | Elapse nat

inductive input_step :: "input_engine \<Rightarrow> input_action \<Rightarrow> input_engine \<Rightarrow> bool" where
  do_ingest: "input_step ie (Ingest e) (ingest e ie)"
| fire_long: "jget (ie_controls ie) k = Some st \<Longrightarrow> cs_longPressTimer st = Some (d, r) \<Longrightarrow> d \<le> ie_now ie \<Longrightarrow>
    input_step ie (FireLongPress k) (beginHold r ie)"
| fire_tick: "jget (ie_controls ie) k = Some st \<Longrightarrow> cs_holdTicker st = Some (d, s, r) \<Longrightarrow> d \<le> ie_now ie \<Longrightarrow>
    input_step ie (FireHoldTick k) (holdTick r s ie)"
| fire_decision: "jget (ie_controls ie) k = Some st \<Longrightarrow> cs_decisionTimer st = Some (d, r) \<Longrightarrow> d \<le> ie_now ie \<Longrightarrow>
    input_step ie (FireDecision k) (flushClickDecision r ie)"
| elapse: "input_step ie (Elapse n) (ie\<lparr>ie_now := ie_now ie + n\<rparr>)"

inductive_cases input_stepE: "input_step ie a ie'"

inductive input_reachable :: "input_engine \<Rightarrow> bool" where
  input_init: "input_reachable (new_input_engine lp dp ht t)"
| input_next: "input_reachable ie \<Longrightarrow> input_step ie a ie' \<Longrightarrow> input_reachable ie'"

section \<open>The phases of a control\<close>

datatype phase = Resting | Down nat nat | Held nat | Deciding nat

definition phase_of :: "control_state \<Rightarrow> phase" where
  "phase_of st =
     (case cs_pressedAt st of
        Some p \<Rightarrow> if cs_holding st then Held p else Down p (cs_clickCount st)
      | None \<Rightarrow> if cs_clickCount st = 0 then Resting else Deciding (cs_clickCount st))"

datatype phase_input = Press | Release | HoldDue | TickDue | DecisionDue | Nothing

fun clicks_out :: "nat \<Rightarrow> keypad_event_type list" where
  "clicks_out n = (if n = 0 then [] else [click_type n])"

text \<open>The abstract machine: what an input at instant \<open>t\<close> makes of the phase, and the events it derives.\<close>

fun phase_step :: "nat \<Rightarrow> phase_input \<Rightarrow> phase \<Rightarrow> phase \<times> keypad_event_type list" where
  "phase_step t Press Resting = (Down t 0, [])"
| "phase_step t Press (Deciding n) = (Down t n, [])"
| "phase_step t Release (Down p n) = (Deciding (min (n + 1) 3), [])"
| "phase_step t Release (Held p) = (Resting, [Hold_end (t - p), Long_press (t - p)])"
| "phase_step t HoldDue (Down p n) = (Held p, clicks_out n @ [Hold_start])"
| "phase_step t TickDue (Held p) = (Held p, [Holding (t - p)])"
| "phase_step t DecisionDue (Deciding n) = (Resting, [click_type n])"
| "phase_step t _ ph = (ph, [])"

definition input_of :: "string \<Rightarrow> input_action \<Rightarrow> phase_input" where
  "input_of k a =
     (case a of
        Ingest e \<Rightarrow> if controlKey (event_ref e) = k
                    then (case ke_type e of Button_pressed \<Rightarrow> Press | Button_released \<Rightarrow> Release | _ \<Rightarrow> Nothing)
                    else Nothing
      | FireLongPress k' \<Rightarrow> if k' = k then HoldDue else Nothing
      | FireHoldTick k' \<Rightarrow> if k' = k then TickDue else Nothing
      | FireDecision k' \<Rightarrow> if k' = k then DecisionDue else Nothing
      | Elapse n \<Rightarrow> Nothing)"

definition phase_at :: "string \<Rightarrow> input_engine \<Rightarrow> phase" where
  "phase_at k ie = phase_of (control_at k ie)"

text \<open>The events derived for the controls with key \<open>k\<close>, in order.\<close>

definition derived :: "string \<Rightarrow> input_engine \<Rightarrow> keypad_event_type list" where
  "derived k ie = map (ke_type \<circ> snd) (filter (\<lambda>(d, e). d \<and> controlKey (event_ref e) = k) (ie_log ie))"

section \<open>The invariant of a control\<close>

definition control_ok :: "nat \<Rightarrow> nat \<Rightarrow> string \<Rightarrow> control_state \<Rightarrow> bool" where
  "control_ok lp now k st \<longleftrightarrow>
     cs_clickCount st \<le> 3 \<and>
     (case cs_pressedAt st of
        None \<Rightarrow> \<not> cs_holding st \<and> cs_longPressTimer st = None \<and> cs_holdTicker st = None \<and>
                (case cs_decisionTimer st of None \<Rightarrow> cs_clickCount st = 0
                 | Some (d, r) \<Rightarrow> 0 < cs_clickCount st \<and> controlKey r = k)
      | Some p \<Rightarrow> p \<le> now \<and> cs_decisionTimer st = None \<and>
                (if cs_holding st
                 then cs_longPressTimer st = None \<and> cs_clickCount st = 0 \<and> p + lp \<le> now \<and>
                      (\<exists>d r. cs_holdTicker st = Some (d, p, r) \<and> controlKey r = k)
                 else cs_holdTicker st = None \<and>
                      (\<exists>r. cs_longPressTimer st = Some (p + lp, r) \<and> controlKey r = k)))"

definition engine_ok :: "input_engine \<Rightarrow> bool" where
  "engine_ok ie \<longleftrightarrow> (\<forall>k. control_ok (ie_longPressMs ie) (ie_now ie) k (control_at k ie))"

lemma control_ok_fresh [simp]: "control_ok lp now k freshState"
  by (simp add: control_ok_def freshState_def)

lemma control_ok_later: "control_ok lp now k st \<Longrightarrow> control_ok lp (now + n) k st"
  by (auto simp: control_ok_def split: option.splits if_splits)

lemma control_at_put [simp]:
  "control_at k (put_control k' st ie) = (if k = k' then st else control_at k ie)"
  by (simp add: control_at_def put_control_def)

lemma publish_frame [simp]:
  "control_at k (publish e ie) = control_at k ie" "ie_now (publish e ie) = ie_now ie"
  "ie_longPressMs (publish e ie) = ie_longPressMs ie" "ie_controls (publish e ie) = ie_controls ie"
  "derived k (publish e ie) = derived k ie"
  by (simp_all add: publish_def control_at_def derived_def)

lemma derive_frame [simp]:
  "control_at k (derive r ty ie) = control_at k ie" "ie_now (derive r ty ie) = ie_now ie"
  "ie_longPressMs (derive r ty ie) = ie_longPressMs ie" "ie_controls (derive r ty ie) = ie_controls ie"
  "derived k (derive r ty ie) = derived k ie @ (if controlKey r = k then [ty] else [])"
  by (simp_all add: derive_def control_at_def derived_def event_ref_def)

lemma put_frame [simp]:
  "ie_now (put_control k st ie) = ie_now ie" "ie_longPressMs (put_control k st ie) = ie_longPressMs ie"
  "derived k' (put_control k st ie) = derived k' ie"
  by (simp_all add: put_control_def derived_def)

lemma input_engine_update_frame [simp]:
  "control_at k (ie\<lparr>ie_now := t\<rparr>) = control_at k ie" "derived k (ie\<lparr>ie_now := t\<rparr>) = derived k ie"
  "control_at k (dispose ie) = freshState" "derived k (dispose ie) = derived k ie"
  "ie_longPressMs (dispose ie) = ie_longPressMs ie" "ie_now (dispose ie) = ie_now ie"
  by (simp_all add: control_at_def derived_def dispose_def)


text \<open>What one step must do: keep the invariant, and move every control as the abstract machine does.\<close>

definition simulates :: "input_engine \<Rightarrow> input_action \<Rightarrow> input_engine \<Rightarrow> bool" where
  "simulates ie a ie' \<longleftrightarrow>
     engine_ok ie' \<and> ie_longPressMs ie' = ie_longPressMs ie \<and> ie_now ie \<le> ie_now ie' \<and>
     (\<forall>k. phase_at k ie' = fst (phase_step (ie_now ie) (input_of k a) (phase_at k ie)) \<and>
          derived k ie' = derived k ie @ snd (phase_step (ie_now ie) (input_of k a) (phase_at k ie)))"

lemma control_at_Some: "jget (ie_controls ie) k = Some st \<Longrightarrow> control_at k ie = st"
  by (simp add: control_at_def)

lemma engine_okD: "engine_ok ie \<Longrightarrow> control_ok (ie_longPressMs ie) (ie_now ie) k (control_at k ie)"
  by (simp add: engine_ok_def)

lemma phase_step_Nothing [simp]: "phase_step t Nothing ph = (ph, [])"
  by (cases ph) simp_all

lemma simulates_publish: "engine_ok ie \<Longrightarrow> (\<And>k. input_of k a = Nothing) \<Longrightarrow> simulates ie a (publish e ie)"
  by (simp add: simulates_def engine_ok_def phase_at_def)

text \<open>A step that touches the control at \<open>k\<close> alone.\<close>

lemma simulates_control:
  assumes "engine_ok ie" "ie_longPressMs ie' = ie_longPressMs ie" "ie_now ie' = ie_now ie"
    and "\<And>k'. k' \<noteq> k \<Longrightarrow> control_at k' ie' = control_at k' ie \<and> derived k' ie' = derived k' ie \<and> input_of k' a = Nothing"
    and "control_ok (ie_longPressMs ie) (ie_now ie) k (control_at k ie')"
    and "(phase_at k ie', derived k ie') =
      map_prod id ((@) (derived k ie)) (phase_step (ie_now ie) (input_of k a) (phase_at k ie))"
  shows "simulates ie a ie'"
proof -
  have "control_ok (ie_longPressMs ie') (ie_now ie') k' (control_at k' ie') \<and>
      phase_at k' ie' = fst (phase_step (ie_now ie) (input_of k' a) (phase_at k' ie)) \<and>
      derived k' ie' = derived k' ie @ snd (phase_step (ie_now ie) (input_of k' a) (phase_at k' ie))" for k'
  proof (cases "k' = k")
    case True
    with assms(2,3,5,6) show ?thesis
      by (cases "phase_step (ie_now ie) (input_of k a) (phase_at k ie)") simp
  next
    case False
    with assms(1-4) engine_okD [OF assms(1), of k'] show ?thesis by (simp add: phase_at_def)
  qed
  with assms(2,3) show ?thesis by (auto simp: simulates_def engine_ok_def)
qed

lemma simulates_onPress:
  assumes "engine_ok ie" "ke_type e = Button_pressed"
  shows "simulates ie (Ingest e) (onPress e ie)"
proof (rule simulates_control [where k = "controlKey (event_ref e)"])
  let ?k = "controlKey (event_ref e)"
  note ok = engine_okD [OF assms(1), of ?k]
  show "control_ok (ie_longPressMs ie) (ie_now ie) ?k (control_at ?k (onPress e ie))"
    using ok by (auto simp: onPress_def Let_def control_ok_def split: option.splits if_splits)
  show "(phase_at ?k (onPress e ie), derived ?k (onPress e ie)) =
      map_prod id ((@) (derived ?k ie)) (phase_step (ie_now ie) (input_of ?k (Ingest e)) (phase_at ?k ie))"
    using ok assms(2)
    by (auto simp: onPress_def Let_def control_ok_def phase_at_def phase_of_def input_of_def
        split: option.splits if_splits)
qed (use assms in \<open>auto simp: onPress_def Let_def input_of_def\<close>)

lemma onRelease_eq:
  "onRelease e ie =
     (let k = controlKey (event_ref e); st0 = control_at k ie; ie1 = publish e ie
      in case cs_pressedAt st0 of
           None \<Rightarrow> ie1
         | Some p \<Rightarrow>
             (let heldMs = ie_now ie - p;
                  st = st0\<lparr>cs_longPressTimer := None, cs_pressedAt := None\<rparr>
              in if cs_holding st
                 then derive (event_ref e) (Long_press heldMs) (derive (event_ref e) (Hold_end heldMs)
                        (put_control k (st\<lparr>cs_holdTicker := None, cs_holding := False\<rparr>) ie1))
                 else put_control k (st\<lparr>cs_clickCount := min (cs_clickCount st + 1) 3,
                        cs_decisionTimer := Some (ie_now ie1 + ie_doublePressWindowMs ie1, event_ref e)\<rparr>) ie1))"
  by (simp add: onRelease_def Let_def control_at_def freshState_def split: option.split)

lemma simulates_onRelease:
  assumes "engine_ok ie" "ke_type e = Button_released"
  shows "simulates ie (Ingest e) (onRelease e ie)"
proof (rule simulates_control [where k = "controlKey (event_ref e)"])
  let ?k = "controlKey (event_ref e)"
  note ok = engine_okD [OF assms(1), of ?k]
  show "control_ok (ie_longPressMs ie) (ie_now ie) ?k (control_at ?k (onRelease e ie))"
    using ok by (auto simp: onRelease_eq Let_def control_ok_def split: option.splits if_splits)
  show "(phase_at ?k (onRelease e ie), derived ?k (onRelease e ie)) =
      map_prod id ((@) (derived ?k ie)) (phase_step (ie_now ie) (input_of ?k (Ingest e)) (phase_at ?k ie))"
    using ok assms(2)
    by (auto simp: onRelease_eq Let_def control_ok_def phase_at_def phase_of_def input_of_def
        split: option.splits if_splits)
qed (use assms in \<open>auto simp: onRelease_eq Let_def input_of_def split: option.splits\<close>)

lemma flush_effect:
  "control_at k' (flushClickDecision r ie) =
     (if k' = controlKey r then (control_at k' ie)\<lparr>cs_decisionTimer := None, cs_clickCount := 0\<rparr>
      else control_at k' ie)"
  "derived k' (flushClickDecision r ie) =
     derived k' ie @ (if k' = controlKey r then clicks_out (cs_clickCount (control_at k' ie)) else [])"
  "ie_now (flushClickDecision r ie) = ie_now ie"
  "ie_longPressMs (flushClickDecision r ie) = ie_longPressMs ie"
  by (auto simp: flushClickDecision_def Let_def)

declare flush_effect [simp]

lemma simulates_beginHold:
  assumes "engine_ok ie" "jget (ie_controls ie) k = Some st" "cs_longPressTimer st = Some (d, r)" "d \<le> ie_now ie"
  shows "simulates ie (FireLongPress k) (beginHold r ie)"
proof -
  have st: "control_at k ie = st" using assms(2) by (rule control_at_Some)
  note ok = engine_okD [OF assms(1), of k, unfolded st]
  from ok assms(3) obtain p where p: "cs_pressedAt st = Some p" "\<not> cs_holding st" "d = p + ie_longPressMs ie"
    "controlKey r = k" "cs_decisionTimer st = None" "cs_holdTicker st = None" "p \<le> ie_now ie"
    by (auto simp: control_ok_def split: option.splits if_splits)
  show ?thesis
  proof (rule simulates_control [where k = k])
    show "control_ok (ie_longPressMs ie) (ie_now ie) k (control_at k (beginHold r ie))"
      using p st assms(4) by (simp add: beginHold_def Let_def control_ok_def)
    show "(phase_at k (beginHold r ie), derived k (beginHold r ie)) =
        map_prod id ((@) (derived k ie)) (phase_step (ie_now ie) (input_of k (FireLongPress k)) (phase_at k ie))"
      using p st by (simp add: beginHold_def Let_def phase_at_def phase_of_def input_of_def)
  qed (use assms p in \<open>auto simp: beginHold_def Let_def input_of_def\<close>)
qed

lemma simulates_holdTick:
  assumes "engine_ok ie" "jget (ie_controls ie) k = Some st" "cs_holdTicker st = Some (d, s, r)"
  shows "simulates ie (FireHoldTick k) (holdTick r s ie)"
proof -
  have st: "control_at k ie = st" using assms(2) by (rule control_at_Some)
  note ok = engine_okD [OF assms(1), of k, unfolded st]
  from ok assms(3) have p: "cs_pressedAt st = Some s" "cs_holding st" "controlKey r = k"
    by (auto simp: control_ok_def split: option.splits if_splits)
  show ?thesis
  proof (rule simulates_control [where k = k])
    show "control_ok (ie_longPressMs ie) (ie_now ie) k (control_at k (holdTick r s ie))"
      using p st ok by (simp add: holdTick_def Let_def control_ok_def)
    show "(phase_at k (holdTick r s ie), derived k (holdTick r s ie)) =
        map_prod id ((@) (derived k ie)) (phase_step (ie_now ie) (input_of k (FireHoldTick k)) (phase_at k ie))"
      using p st by (simp add: holdTick_def Let_def phase_at_def phase_of_def input_of_def)
  qed (use assms p in \<open>auto simp: holdTick_def Let_def input_of_def\<close>)
qed

lemma simulates_decision:
  assumes "engine_ok ie" "jget (ie_controls ie) k = Some st" "cs_decisionTimer st = Some (d, r)"
  shows "simulates ie (FireDecision k) (flushClickDecision r ie)"
proof -
  have st: "control_at k ie = st" using assms(2) by (rule control_at_Some)
  note ok = engine_okD [OF assms(1), of k, unfolded st]
  from ok assms(3) have p: "cs_pressedAt st = None" "\<not> cs_holding st" "controlKey r = k" "0 < cs_clickCount st"
    "cs_longPressTimer st = None" "cs_holdTicker st = None"
    by (auto simp: control_ok_def split: option.splits if_splits)
  show ?thesis
  proof (rule simulates_control [where k = k])
    show "control_ok (ie_longPressMs ie) (ie_now ie) k (control_at k (flushClickDecision r ie))"
      using p st by (simp add: control_ok_def)
    show "(phase_at k (flushClickDecision r ie), derived k (flushClickDecision r ie)) =
        map_prod id ((@) (derived k ie)) (phase_step (ie_now ie) (input_of k (FireDecision k)) (phase_at k ie))"
      using p st by (simp add: phase_at_def phase_of_def input_of_def)
  qed (use assms p in \<open>auto simp: input_of_def\<close>)
qed

lemma simulates_step:
  assumes "input_step ie a ie'" "engine_ok ie"
  shows "simulates ie a ie'"
  using assms
proof cases
  case (do_ingest e)
  show ?thesis
  proof (cases "ke_type e = Button_pressed \<or> ke_type e = Button_released")
    case True
    with do_ingest assms(2) show ?thesis
      by (auto simp: ingest_def simulates_onPress simulates_onRelease)
  next
    case False
    then have "ingest e ie = publish e ie" "input_of k (Ingest e) = Nothing" for k
      by (auto simp: ingest_def input_of_def split: keypad_event_type.splits)
    with do_ingest assms(2) show ?thesis by (simp add: simulates_publish)
  qed
next
  case (elapse n)
  with assms(2) show ?thesis
    by (auto simp: simulates_def engine_ok_def control_ok_later phase_at_def input_of_def)
qed (use assms(2) in \<open>auto intro: simulates_beginHold simulates_holdTick simulates_decision\<close>)

lemma reachable_ok: "input_reachable ie \<Longrightarrow> engine_ok ie"
proof (induction rule: input_reachable.induct)
  case (input_init lp dp ht t)
  show ?case by (simp add: engine_ok_def new_input_engine_def control_at_def)
next
  case (input_next ie a ie')
  then show ?case using simulates_step by (simp add: simulates_def)
qed

lemma dispose_ok: "engine_ok (dispose ie) \<and> phase_at k (dispose ie) = Resting"
proof
  show "engine_ok (dispose ie)" by (simp add: engine_ok_def)
  show "phase_at k (dispose ie) = Resting" by (simp add: phase_at_def phase_of_def) (simp add: freshState_def)
qed


section \<open>Properties\<close>

text \<open>C27: The input engine implements the four-phase machine: in every reachable state, whatever event arrives or
  timer fires, each control moves exactly as the abstract machine says and derives exactly its events, in order,
  and the other controls are not affected.\<close>

theorem input_engine_refines_phases:
  assumes "input_reachable ie" "input_step ie a ie'"
  shows "phase_at k ie' = fst (phase_step (ie_now ie) (input_of k a) (phase_at k ie)) \<and>
    derived k ie' = derived k ie @ snd (phase_step (ie_now ie) (input_of k a) (phase_at k ie))"
  using simulates_step [OF assms(2) reachable_ok [OF assms(1)]] by (simp add: simulates_def)

text \<open>The protocol of the hold events of one control.\<close>

datatype hold_phase = HClosed | HOpen | HEnding nat

fun hold_next :: "hold_phase \<Rightarrow> keypad_event_type \<Rightarrow> hold_phase option" where
  "hold_next HClosed Hold_start = Some HOpen"
| "hold_next HClosed Short_press = Some HClosed"
| "hold_next HClosed Double_press = Some HClosed"
| "hold_next HClosed Triple_press = Some HClosed"
| "hold_next HOpen (Holding _) = Some HOpen"
| "hold_next HOpen (Hold_end h) = Some (HEnding h)"
| "hold_next (HEnding h) (Long_press h') = (if h' = h then Some HClosed else None)"
| "hold_next _ _ = None"

fun hold_run :: "hold_phase \<Rightarrow> keypad_event_type list \<Rightarrow> hold_phase option" where
  "hold_run p [] = Some p"
| "hold_run p (e # es) = (case hold_next p e of None \<Rightarrow> None | Some p' \<Rightarrow> hold_run p' es)"

lemma hold_run_append:
  "hold_run p (xs @ ys) = (case hold_run p xs of None \<Rightarrow> None | Some p' \<Rightarrow> hold_run p' ys)"
  by (induction p xs rule: hold_run.induct) (auto split: option.splits)

lemma hold_next_click [simp]: "hold_next HClosed (click_type n) = Some HClosed"
  by (simp add: click_type_def)

fun hold_of :: "phase \<Rightarrow> hold_phase" where
  "hold_of (Held _) = HOpen"
| "hold_of _ = HClosed"

lemma phase_step_hold:
  "hold_run (hold_of ph) (snd (phase_step t i ph)) = Some (hold_of (fst (phase_step t i ph)))"
  by (cases "(t, i, ph)" rule: phase_step.cases) auto

text \<open>In every reachable state the events derived for a control follow the hold protocol: a hold start, any number
  of holding events, then a hold end immediately followed by the long press with the same duration, with clicks only
  outside of it; a hold is open exactly while the control is held.\<close>

theorem hold_events_bracketed:
  assumes "input_reachable ie"
  shows "hold_run HClosed (derived k ie) = Some (hold_of (phase_at k ie))"
  using assms
proof (induction rule: input_reachable.induct)
  case (input_init lp dp ht t)
  show ?case
    by (simp add: derived_def new_input_engine_def phase_at_def control_at_def phase_of_def freshState_def)
next
  case (input_next ie a ie')
  from simulates_step [OF input_next(2) reachable_ok [OF input_next(1)]] input_next(3)
  show ?case by (simp add: simulates_def hold_run_append phase_step_hold)
qed

fun held_ms :: "keypad_event_type \<Rightarrow> nat option" where
  "held_ms (Hold_end h) = Some h"
| "held_ms (Long_press h) = Some h"
| "held_ms (Holding h) = Some h"
| "held_ms _ = None"

lemma phase_step_held_ms:
  "(\<And>p. ph = Held p \<Longrightarrow> p + lp \<le> t) \<Longrightarrow>
   list_all (\<lambda>e. opt_ok (\<lambda>h. lp \<le> h) (held_ms e)) (snd (phase_step t i ph))"
  by (cases "(t, i, ph)" rule: phase_step.cases) (auto simp: click_type_def)

text \<open>Every duration the engine reports, in a holding, a hold end or a long press, is at least
  the configured long-press time: no press shorter than it is ever reported as held.\<close>

theorem reported_holds_are_long:
  assumes "input_reachable ie"
  shows "list_all (\<lambda>e. opt_ok (\<lambda>h. ie_longPressMs ie \<le> h) (held_ms e)) (derived k ie)"
  using assms
proof (induction rule: input_reachable.induct)
  case (input_init lp dp ht t)
  show ?case by (simp add: derived_def new_input_engine_def)
next
  case (input_next ie a ie')
  note ok = reachable_ok [OF input_next(1)]
  have held: "p + ie_longPressMs ie \<le> ie_now ie" if "phase_at k ie = Held p" for p
    using that engine_okD [OF ok, of k]
    by (auto simp: phase_at_def phase_of_def control_ok_def split: option.splits if_splits)
  from simulates_step [OF input_next(2) ok] input_next(3) phase_step_held_ms [OF held]
  show ?case by (simp add: simulates_def)
qed

lemma flush_resting:
  "cs_pressedAt (control_at (controlKey r) ie) = None \<Longrightarrow>
   phase_at (controlKey r) (flushClickDecision r ie) = Resting"
  by (simp add: phase_at_def phase_of_def)

text \<open>No control is left undecided: from any reachable state in which clicks are pending, letting time pass enables
  the decision timer of that control, whose firing publishes the click event and puts the control to rest; and a control that is
  down has its long-press timer armed likewise, whose firing starts the hold.\<close>

theorem pending_control_decides:
  assumes "input_reachable ie"
  shows "(case phase_at k ie of
      Deciding n \<Rightarrow> \<exists>d ie'. input_step (ie\<lparr>ie_now := ie_now ie + d\<rparr>) (FireDecision k) ie' \<and>
        phase_at k ie' = Resting \<and> derived k ie' = derived k ie @ [click_type n]
    | Down p n \<Rightarrow> \<exists>d ie'. input_step (ie\<lparr>ie_now := ie_now ie + d\<rparr>) (FireLongPress k) ie' \<and>
        phase_at k ie' = Held p \<and> derived k ie' = derived k ie @ clicks_out n @ [Hold_start]
    | _ \<Rightarrow> True)"
proof -
  note ok = engine_okD [OF reachable_ok [OF assms], of k]
  have sim: "simulates (ie\<lparr>ie_now := ie_now ie + d\<rparr>) a ie'"
    if "input_step (ie\<lparr>ie_now := ie_now ie + d\<rparr>) a ie'" for a ie' d
    using simulates_step [OF that reachable_ok [OF input_next [OF assms elapse]]] .
  have get: "jget (ie_controls (ie\<lparr>ie_now := t\<rparr>)) k = Some (control_at k ie)" if "control_at k ie \<noteq> freshState" for t
    using that by (auto simp: control_at_def split: option.splits)
  show ?thesis
  proof (cases "phase_at k ie")
    case (Deciding n)
    with ok obtain d r where t: "cs_decisionTimer (control_at k ie) = Some (d, r)"
      by (auto simp: phase_at_def phase_of_def control_ok_def split: option.splits if_splits)
    then have "control_at k ie \<noteq> freshState" by (auto simp: freshState_def)
    from fire_decision [OF get [OF this, of "ie_now ie + d"] t] obtain ie' where
      s: "input_step (ie\<lparr>ie_now := ie_now ie + d\<rparr>) (FireDecision k) ie'" by auto
    from sim [OF s] Deciding s show ?thesis
      by (auto simp: simulates_def phase_at_def input_of_def intro!: exI [of _ d] exI [of _ ie'])
  next
    case (Down p n)
    with ok obtain d r where t: "cs_longPressTimer (control_at k ie) = Some (d, r)"
      by (auto simp: phase_at_def phase_of_def control_ok_def split: option.splits if_splits)
    then have "control_at k ie \<noteq> freshState" by (auto simp: freshState_def)
    from fire_long [OF get [OF this, of "ie_now ie + d"] t] obtain ie' where
      s: "input_step (ie\<lparr>ie_now := ie_now ie + d\<rparr>) (FireLongPress k) ie'" by auto
    from sim [OF s] Down s show ?thesis
      by (auto simp: simulates_def phase_at_def input_of_def intro!: exI [of _ d] exI [of _ ie'])
  qed simp_all
qed

section \<open>A press and a hold\<close>

definition demo_event :: "keypad_event_type \<Rightarrow> keypad_input_event" where
  "demo_event ty = \<lparr>ke_type = ty, ke_keypadId = ''kp1'', ke_control = ''1'', ke_ts = 0\<rparr>"

definition demo_held :: input_engine where
  "demo_held = ingest (demo_event Button_released)
     ((beginHold (''kp1'', ''1'')
       ((ingest (demo_event Button_pressed) (new_input_engine None None None 0))\<lparr>ie_now := 550\<rparr>))\<lparr>ie_now := 900\<rparr>)"

lemma demo_held_reachable: "input_reachable demo_held"
proof -
  let ?a = "ingest (demo_event Button_pressed) (new_input_engine None None None 0)"
  let ?b = "?a\<lparr>ie_now := 550\<rparr>"
  let ?c = "beginHold (''kp1'', ''1'') ?b"
  have a: "input_reachable ?a" by (rule input_next [OF input_init do_ingest])
  have "ie_now ?a = 0" by code_simp
  with elapse [of ?a 550] have "input_step ?a (Elapse 550) ?b" by simp
  with a have b: "input_reachable ?b" by (rule input_next)
  have "jget (ie_controls ?b) ''kp1#1'' = Some \<lparr>cs_pressedAt = Some 0, cs_clickCount = 0, cs_holding = False,
      cs_longPressTimer = Some (550, (''kp1'', ''1'')), cs_holdTicker = None, cs_decisionTimer = None\<rparr>"
    by code_simp
  then have "input_step ?b (FireLongPress ''kp1#1'') ?c" by (rule fire_long [where d = 550]) simp_all
  with b have c: "input_reachable ?c" by (rule input_next)
  have "ie_now ?c = 550" by (simp add: beginHold_def Let_def)
  with elapse [of ?c 350] have "input_step ?c (Elapse 350) (?c\<lparr>ie_now := 900\<rparr>)" by simp
  with c have "input_reachable (?c\<lparr>ie_now := 900\<rparr>)" by (rule input_next)
  then show ?thesis unfolding demo_held_def by (rule input_next [OF _ do_ingest])
qed

lemma demo_held_derived: "derived ''kp1#1'' demo_held = [Hold_start, Hold_end 900, Long_press 900]"
  by code_simp

lemma input_engine_refines_phases_witness:
  "phase_at ''kp1#1'' (ingest (demo_event Button_pressed) demo_held) = Down 900 0"
proof -
  have "phase_at ''kp1#1'' demo_held = Resting" "ie_now demo_held = 900" by code_simp+
  then show ?thesis
    using input_engine_refines_phases [OF demo_held_reachable do_ingest [of _ "demo_event Button_pressed"], of "''kp1#1''"]
    by (simp add: input_of_def demo_event_def controlKey_def event_ref_def)
qed

lemma hold_events_bracketed_witness:
  "hold_run HClosed (derived ''kp1#1'' demo_held) = Some (hold_of (phase_at ''kp1#1'' demo_held))"
  by (rule hold_events_bracketed [OF demo_held_reachable])

lemma reported_holds_are_long_witness:
  "derived ''kp1#1'' demo_held = [Hold_start, Hold_end 900, Long_press 900] \<and>
   list_all (\<lambda>e. opt_ok (\<lambda>h. ie_longPressMs demo_held \<le> h) (held_ms e)) (derived ''kp1#1'' demo_held)"
  using reported_holds_are_long [OF demo_held_reachable, of "''kp1#1''"] demo_held_derived by blast

lemma pending_control_decides_witness:
  "\<exists>d ie'. input_step ((ingest (demo_event Button_pressed) demo_held)\<lparr>ie_now :=
      ie_now (ingest (demo_event Button_pressed) demo_held) + d\<rparr>) (FireLongPress ''kp1#1'') ie' \<and>
     phase_at ''kp1#1'' ie' = Held 900"
proof -
  have r: "input_reachable (ingest (demo_event Button_pressed) demo_held)"
    by (rule input_next [OF demo_held_reachable do_ingest])
  have "phase_at ''kp1#1'' (ingest (demo_event Button_pressed) demo_held) = Down 900 0" by code_simp
  with pending_control_decides [OF r, of "''kp1#1''"] show ?thesis by auto
qed

end
