(* ===== verification/Device_Backend.thy ===== *)
theory Device_Backend
  imports Automation_Dsl
begin

text \<open>
  The device side of the integration layer (\<^verbatim>\<open>services/integration-layer/src\<close>): the pure
  response of a device to a command (\<^verbatim>\<open>apply.ts\<close>), the in-memory adapter built on it
  (\<^verbatim>\<open>mock-adapter.ts\<close>), and the definition of \<^emph>\<open>done\<close> that decides from a state whether a command took
  effect (\<^verbatim>\<open>packages/domain-model/src/state-expectation.ts\<close>). The contract of a backend that
  answers commands so is the locale \<open>device_backend\<close>, which the adapter interprets.
\<close>

section \<open>applyCommand\<close>

text \<open>\<^verbatim>\<open>a ?? b\<close>\<close>

definition nullish :: "'a option \<Rightarrow> 'a \<Rightarrow> 'a" where
  "nullish a b = (case a of None \<Rightarrow> b | Some x \<Rightarrow> x)"

definition orelse :: "'a option \<Rightarrow> 'a option \<Rightarrow> 'a option" where
  "orelse a b = (case a of None \<Rightarrow> b | Some x \<Rightarrow> Some x)"

fun opt_of :: "'a opt_null \<Rightarrow> 'a option" where
  "opt_of (Val a) = Some a"
| "opt_of _ = None"

fun null_of :: "'a option \<Rightarrow> 'a opt_null" where
  "null_of None = Null"
| "null_of (Some a) = Val a"

lemma nullish_simps [simp]: "nullish None b = b" "nullish (Some a) b = a"
  by (simp_all add: nullish_def)

lemma orelse_simps [simp]: "orelse None b = b" "orelse (Some a) b = Some a"
  by (simp_all add: orelse_def)

lemma opt_ok_orelse: "opt_ok P a \<Longrightarrow> opt_ok P b \<Longrightarrow> opt_ok P (orelse a b)"
  by (cases a) auto

lemma opt_null_ok_null_of [simp]: "opt_null_ok P (null_of a) = opt_ok P a"
  by (cases a) auto

lemma opt_ok_opt_of [simp]: "opt_ok P (opt_of a) = opt_null_ok P a"
  by (cases a) auto

text \<open>\<^verbatim>\<open>(prev as { on?: boolean })?.on\<close>, as a truth value: a state without the field has none.\<close>

fun prev_on :: "capability_state option \<Rightarrow> bool" where
  "prev_on (Some (OnOffState b)) = b"
| "prev_on (Some (BrightnessState b _)) = b"
| "prev_on (Some (ColorState c)) = c_on c"
| "prev_on (Some (FanState b _ _)) = b"
| "prev_on _ = False"

definition bag_merge :: "bag \<Rightarrow> bag \<Rightarrow> bag" where
  "bag_merge a b = fold (\<lambda>(k, v). jset k v) b a"

fun apply_onoff :: "capability_state option \<Rightarrow> onoff_action \<Rightarrow> capability_state" where
  "apply_onoff prev act =
     OnOffState (if act = OoOn then True else if act = OoOff then False else \<not> prev_on prev)"

fun apply_brightness ::
  "capability_state option \<Rightarrow> brightness_action \<Rightarrow> rat option \<Rightarrow> capability_state" where
  "apply_brightness prev act lvl =
     BrightnessState (act \<noteq> BrOff)
       (nullish lvl (case prev of Some (BrightnessState _ l) \<Rightarrow> l | _ \<Rightarrow> 100))"

definition apply_color :: "capability_state option \<Rightarrow> color_command \<Rightarrow> capability_state" where
  "apply_color prev c =
     (let base = (case prev of Some (ColorState b) \<Rightarrow> Some b | _ \<Rightarrow> None) in
      ColorState \<lparr>c_on = True,
        c_level = nullish (cc_level c) (nullish (map_option c_level base) 100),
        c_hue = orelse (cc_hue c) (Option.bind base c_hue),
        c_saturation = orelse (cc_saturation c) (Option.bind base c_saturation),
        c_kelvin = orelse (cc_kelvin c) (Option.bind base c_kelvin)\<rparr>)"

definition apply_position ::
  "capability_state option \<Rightarrow> position_action \<Rightarrow> rat option \<Rightarrow> capability_state" where
  "apply_position prev act pos =
     PositionState
       (nullish pos
         (if act = PoOpen then 100 else if act = PoClose then 0
          else (case prev of Some (PositionState p _) \<Rightarrow> p | _ \<Rightarrow> 0)))
       (Some False)"

definition apply_temperature ::
  "capability_state option \<Rightarrow> temperature_command \<Rightarrow> capability_state" where
  "apply_temperature prev c =
     (let base = (case prev of Some (TemperatureState t) \<Rightarrow> Some t | _ \<Rightarrow> None) in
      TemperatureState \<lparr>t_ambientC = nullish (map_option t_ambientC base) 21,
        t_targetC = Some (nullish (tc_targetC c) (nullish (Option.bind base t_targetC) 21)),
        t_targetLowC = Absent, t_targetHighC = Absent,
        t_mode = nullish (tc_mode c) (nullish (map_option t_mode base) HvAuto),
        t_controllingModeExtended = Absent, t_operatingMode = Absent, t_heatCool = Absent,
        t_status = Absent, t_setpoints = Absent, t_humidity = Absent, t_advanced = Absent\<rparr>)"

definition apply_media :: "capability_state option \<Rightarrow> media_command \<Rightarrow> capability_state" where
  "apply_media prev c =
     (let base = (case prev of Some (MediaState m) \<Rightarrow> Some m | _ \<Rightarrow> None);
          act = mc_action c;
          opt = (\<lambda>f. Option.bind base f);
          optn = (\<lambda>f. Option.bind base (opt_of \<circ> f)) in
      MediaState \<lparr>
        m_playback = (if act = MePlay then Playing else if act = MePause then Paused
                      else if act = MeStop then Stopped else nullish (map_option m_playback base) Idle),
        m_volume = nullish (mc_volume c) (nullish (map_option m_volume base) 30),
        m_muted = (if act = MeMute then True else if act = MeUnmute then False
                   else nullish (map_option m_muted base) False),
        m_title = opt m_title,
        m_artist = opt m_artist,
        m_album = null_of (Option.bind base (opt_of \<circ> m_album)),
        m_source = (if act = MeSource then orelse (mc_source c) (opt m_source) else opt m_source),
        m_artworkUrl = opt m_artworkUrl,
        m_durationSec = null_of (optn m_durationSec),
        m_positionSec =
          null_of (if act = MeSeek then orelse (mc_positionSec c) (optn m_positionSec) else optn m_positionSec),
        m_shuffle = null_of (if act = MeShuffle then orelse (mc_shuffle c) (Option.bind base (opt_of \<circ> m_shuffle))
                             else Option.bind base (opt_of \<circ> m_shuffle)),
        m_repeat = null_of (if act = MeRepeat then orelse (mc_repeat c) (Option.bind base (opt_of \<circ> m_repeat))
                            else Option.bind base (opt_of \<circ> m_repeat)),
        m_advanced =
          (if act = MeAdvanced
           then Val (bag_merge (nullish (Option.bind base (opt_of \<circ> m_advanced)) []) (nullish (mc_advanced c) []))
           else null_of (Option.bind base (opt_of \<circ> m_advanced)))\<rparr>)"

definition apply_fan ::
  "capability_state option \<Rightarrow> fan_action \<Rightarrow> fan_preset option \<Rightarrow> fan_direction option \<Rightarrow> capability_state" where
  "apply_fan prev act p d =
     (let (on0, p0, d0) = (case prev of Some (FanState b p d) \<Rightarrow> (b, p, d) | _ \<Rightarrow> (True, FpAuto, FdForward)) in
      FanState (if act = FaOn then True else if act = FaOff then False else on0) (nullish p p0) (nullish d d0))"

definition apply_vacuum ::
  "capability_state option \<Rightarrow> vacuum_action \<Rightarrow> vacuum_speed option \<Rightarrow> capability_state" where
  "apply_vacuum prev act f =
     (let (s0, f0) = (case prev of Some (VacuumState s f) \<Rightarrow> (s, f) | _ \<Rightarrow> (VsIdle, SpNormal)) in
      VacuumState
        (case act of VaStart \<Rightarrow> VsCleaning | VaPause \<Rightarrow> VsPaused | VaStop \<Rightarrow> VsIdle
         | VaReturn \<Rightarrow> VsReturning | VaFan \<Rightarrow> s0)
        (nullish f f0))"

definition emptyDisplay :: display_state where
  "emptyDisplay = \<lparr>d_power = DpUnknown, d_input = None, d_availableInputs = [],
     d_videoMuted = None, d_audioMuted = None, d_errorStatus = None, d_lampHours = None,
     d_frozen = None, d_manufacturer = None, d_product = None, d_productName = None,
     d_otherInfo = None, d_pjlinkClass = None\<rparr>"

definition apply_display ::
  "capability_state option \<Rightarrow> display_action \<Rightarrow> display_input option \<Rightarrow> capability_state" where
  "apply_display prev act inp =
     (let next0 = (case prev of Some (DisplayState d) \<Rightarrow> d | _ \<Rightarrow> emptyDisplay) in
      DisplayState
        (case act of
           DaOn \<Rightarrow> next0\<lparr>d_power := DpWarming\<rparr>
         | DaOff \<Rightarrow> next0\<lparr>d_power := DpCooling\<rparr>
         | DaSetInput \<Rightarrow> (case inp of None \<Rightarrow> next0 | Some i \<Rightarrow> next0\<lparr>d_input := Some i\<rparr>)
         | DaMuteVideo \<Rightarrow> next0\<lparr>d_videoMuted := Some True\<rparr>
         | DaUnmuteVideo \<Rightarrow> next0\<lparr>d_videoMuted := Some False\<rparr>
         | DaMuteAudio \<Rightarrow> next0\<lparr>d_audioMuted := Some True\<rparr>
         | DaUnmuteAudio \<Rightarrow> next0\<lparr>d_audioMuted := Some False\<rparr>
         | DaMuteAv \<Rightarrow> next0\<lparr>d_videoMuted := Some True, d_audioMuted := Some True\<rparr>
         | DaUnmuteAv \<Rightarrow> next0\<lparr>d_videoMuted := Some False, d_audioMuted := Some False\<rparr>
         | DaFreeze \<Rightarrow> next0\<lparr>d_frozen := Some True\<rparr>
         | DaUnfreeze \<Rightarrow> next0\<lparr>d_frozen := Some False\<rparr>))"

text \<open>Every command of the union has a case, so the \<^verbatim>\<open>null\<close> of the source's type is never returned.\<close>

fun applyCommand :: "capability_state option \<Rightarrow> capability_command \<Rightarrow> capability_state" where
  "applyCommand prev (CmdOnoff a) = apply_onoff prev a"
| "applyCommand prev (CmdBrightness a l _) = apply_brightness prev a l"
| "applyCommand prev (CmdColor c) = apply_color prev c"
| "applyCommand prev (CmdPosition a p) = apply_position prev a p"
| "applyCommand prev (CmdLock a) = LockState (a = LoLock) False"
| "applyCommand prev (CmdTemperature c) = apply_temperature prev c"
| "applyCommand prev (CmdMedia c) = apply_media prev c"
| "applyCommand prev (CmdFan a p d) = apply_fan prev a p d"
| "applyCommand prev (CmdVacuum a f) = apply_vacuum prev a f"
| "applyCommand prev (CmdRemote b) = RemoteState (Some b)"
| "applyCommand prev (CmdDisplay a i) = apply_display prev a i"

lemmas apply_defs = apply_color_def apply_position_def apply_temperature_def apply_media_def
  apply_fan_def apply_vacuum_def apply_display_def

lemma applyCommand_kind [simp]: "state_kind (applyCommand prev c) = command_kind c"
  by (cases c) (simp_all add: apply_defs Let_def split: prod.splits)

lemma percent_literals [simp]: "percent 0" "percent 30" "percent 100"
  by (simp_all add: percent_def)

lemma nullish_percent:
  "opt_ok percent a \<Longrightarrow> percent b \<Longrightarrow> percent (nullish a b)"
  by (cases a) auto

lemma opt_ok_bind: "opt_ok (\<lambda>x. opt_ok P (f x)) a \<Longrightarrow> opt_ok P (Option.bind a f)"
  by (cases a) auto

definition prev_ok :: "capability_state option \<Rightarrow> bool" where
  "prev_ok = opt_ok state_ok"

lemma applyCommand_state_ok:
  assumes "command_ok c" "prev_ok prev"
  shows "state_ok (applyCommand prev c)"
proof (cases c)
  case (CmdBrightness a l f)
  with assms show ?thesis
    by (auto simp: prev_ok_def intro!: nullish_percent split: option.splits capability_state.splits)
next
  case (CmdColor c')
  with assms show ?thesis
    by (auto simp: apply_color_def Let_def prev_ok_def
        intro!: nullish_percent opt_ok_orelse split: option.splits capability_state.splits)
next
  case (CmdPosition a p)
  with assms show ?thesis
    by (auto simp: apply_position_def prev_ok_def intro!: nullish_percent
        split: option.splits capability_state.splits)
next
  case (CmdMedia m)
  with assms show ?thesis
    by (auto simp: apply_media_def Let_def prev_ok_def intro!: nullish_percent opt_ok_orelse
        split: option.splits capability_state.splits)
next
  case (CmdDisplay a i)
  with assms show ?thesis
    by (cases a) (auto simp: apply_display_def Let_def prev_ok_def emptyDisplay_def
        split: option.splits capability_state.splits)
qed (simp_all add: apply_defs Let_def split: prod.splits)

section \<open>State expectations\<close>

text \<open>
  \<^verbatim>\<open>expectationOf\<close> works on untyped records: a command and a state are the functions that give
  their fields. An expectation is the check it returns.
\<close>

type_synonym fields = "string \<Rightarrow> jsval"

fun num :: "jsval \<Rightarrow> rat option" where
  "num (JNum x) = Some x"
| "num _ = None"

fun str :: "jsval \<Rightarrow> string option" where
  "str (JStr s) = Some s"
| "str _ = None"

record state_expectation =
  se_capability :: string
  se_matches :: "fields \<Rightarrow> bool"

definition expect :: "string \<Rightarrow> (fields \<Rightarrow> bool) \<Rightarrow> state_expectation option" where
  "expect cap check = Some \<lparr>se_capability = cap, se_matches = check\<rparr>"

definition is_field :: "string \<Rightarrow> jsval \<Rightarrow> fields \<Rightarrow> bool" where
  "is_field f v s = strict_equal (s f) v"

definition close_to :: "rat \<Rightarrow> rat \<Rightarrow> rat option \<Rightarrow> bool" where
  "close_to eps target v = (\<bar>nullish v (-100) - target\<bar> \<le> eps)"

definition expect_brightness :: "fields \<Rightarrow> state_expectation option" where
  "expect_brightness cmd =
     (let action = str (cmd ''action'') in
      if action = Some ''on'' then expect ''brightness'' (is_field ''on'' (JBool True))
      else if action = Some ''off'' then expect ''brightness'' (is_field ''on'' (JBool False))
      else (case num (cmd ''level'') of None \<Rightarrow> None
            | Some level \<Rightarrow>
                if action = Some ''set''
                then expect ''brightness'' (\<lambda>s.
                  if level \<le> 0 then is_field ''on'' (JBool False) s \<or> nullish (num (s ''level'')) 100 \<le> 0
                  else is_field ''on'' (JBool True) s \<and> close_to 2 level (num (s ''level'')))
                else None))"

definition expect_position :: "fields \<Rightarrow> state_expectation option" where
  "expect_position cmd =
     (let action = str (cmd ''action'');
          target = (if action = Some ''open'' then Some 100
                    else if action = Some ''close'' then Some 0
                    else if action = Some ''set'' then num (cmd ''position'') else None) in
      case target of None \<Rightarrow> None
      | Some t \<Rightarrow> expect ''position'' (\<lambda>s. \<not> is_field ''moving'' (JBool True) s \<and>
                                               close_to 2 t (num (s ''position''))))"

definition expect_temperature :: "fields \<Rightarrow> state_expectation option" where
  "expect_temperature cmd =
     (let t = num (cmd ''targetC''); mode = str (cmd ''mode'') in
      if t = None \<and> mode = None then None
      else expect ''temperature'' (\<lambda>s.
        (case t of None \<Rightarrow> True
         | Some t \<Rightarrow> (case num (s ''targetC'') of None \<Rightarrow> False | Some v \<Rightarrow> \<bar>v - t\<bar> < 26 / 100)) \<and>
        (case mode of None \<Rightarrow> True | Some m \<Rightarrow> is_field ''mode'' (JStr m) s)))"

definition expect_media :: "fields \<Rightarrow> state_expectation option" where
  "expect_media cmd =
     (let action = str (cmd ''action'') in
      if action = Some ''play'' then expect ''media'' (is_field ''playback'' (JStr ''playing''))
      else if action = Some ''pause'' then expect ''media'' (is_field ''playback'' (JStr ''paused''))
      else if action = Some ''stop''
      then expect ''media'' (\<lambda>s. is_field ''playback'' (JStr ''stopped'') s \<or>
                                   is_field ''playback'' (JStr ''idle'') s)
      else if action = Some ''volume''
      then (case num (cmd ''volume'') of None \<Rightarrow> None
            | Some v \<Rightarrow> expect ''media'' (\<lambda>s.
                case num (s ''volume'') of None \<Rightarrow> False | Some x \<Rightarrow> \<bar>x - v\<bar> \<le> 1))
      else if action = Some ''mute'' then expect ''media'' (is_field ''muted'' (JBool True))
      else if action = Some ''unmute'' then expect ''media'' (is_field ''muted'' (JBool False))
      else None)"

definition expectationOf :: "string \<Rightarrow> fields \<Rightarrow> state_expectation option" where
  "expectationOf capability cmd =
     (if capability = ''onoff'' then
        (let action = str (cmd ''action'') in
         if action = Some ''on'' then expect capability (is_field ''on'' (JBool True))
         else if action = Some ''off'' then expect capability (is_field ''on'' (JBool False))
         else None)
      else if capability = ''brightness'' then expect_brightness cmd
      else if capability = ''position'' then expect_position cmd
      else if capability = ''temperature'' then expect_temperature cmd
      else if capability = ''media'' then expect_media cmd
      else None)"

text \<open>The fields of a typed command that \<^verbatim>\<open>expectationOf\<close> reads.\<close>

fun onoff_name :: "onoff_action \<Rightarrow> string" where
  "onoff_name OoOn = ''on''"
| "onoff_name OoOff = ''off''"
| "onoff_name OoToggle = ''toggle''"

fun brightness_name :: "brightness_action \<Rightarrow> string" where
  "brightness_name BrSet = ''set''"
| "brightness_name BrOn = ''on''"
| "brightness_name BrOff = ''off''"

fun position_name :: "position_action \<Rightarrow> string" where
  "position_name PoOpen = ''open''"
| "position_name PoClose = ''close''"
| "position_name PoStop = ''stop''"
| "position_name PoSet = ''set''"

fun media_name :: "media_action \<Rightarrow> string" where
  "media_name MePlay = ''play''"
| "media_name MePause = ''pause''"
| "media_name MeStop = ''stop''"
| "media_name MeNext = ''next''"
| "media_name MePrevious = ''previous''"
| "media_name MeVolume = ''volume''"
| "media_name MeMute = ''mute''"
| "media_name MeUnmute = ''unmute''"
| "media_name MeSource = ''source''"
| "media_name MeSeek = ''seek''"
| "media_name MeShuffle = ''shuffle''"
| "media_name MeRepeat = ''repeat''"
| "media_name MeAdvanced = ''advanced''"

definition of_opt :: "('a \<Rightarrow> jsval) \<Rightarrow> 'a option \<Rightarrow> jsval" where
  "of_opt f x = (case x of None \<Rightarrow> JUndef | Some a \<Rightarrow> f a)"

lemma of_opt_simps [simp]: "of_opt f None = JUndef" "of_opt f (Some a) = f a"
  by (simp_all add: of_opt_def)

fun command_fields :: "capability_command \<Rightarrow> (string \<times> jsval) list" where
  "command_fields (CmdOnoff a) = [(''action'', JStr (onoff_name a))]"
| "command_fields (CmdBrightness a l _) = [(''action'', JStr (brightness_name a)), (''level'', of_opt JNum l)]"
| "command_fields (CmdPosition a p) = [(''action'', JStr (position_name a)), (''position'', of_opt JNum p)]"
| "command_fields (CmdTemperature c) =
     [(''targetC'', of_opt JNum (tc_targetC c)), (''mode'', of_opt (JStr \<circ> hvac_mode_name) (tc_mode c))]"
| "command_fields (CmdMedia m) =
     [(''action'', JStr (media_name (mc_action m))), (''volume'', of_opt JNum (mc_volume m))]"
| "command_fields _ = []"

definition command_field :: "capability_command \<Rightarrow> fields" where
  "command_field c f = (case map_of (command_fields c) f of None \<Rightarrow> JUndef | Some v \<Rightarrow> v)"

definition confirms :: "capability_command \<Rightarrow> capability_state \<Rightarrow> bool" where
  "confirms c st =
     (case expectationOf (kind_name (command_kind c)) (command_field c) of None \<Rightarrow> False
      | Some e \<Rightarrow> se_matches e (readCapabilityField st))"

definition verifiable :: "capability_command \<Rightarrow> bool" where
  "verifiable c \<longleftrightarrow> expectationOf (kind_name (command_kind c)) (command_field c) \<noteq> None"

text \<open>An open or close command that also names a position asks for two different things.\<close>

fun contradictory :: "capability_command \<Rightarrow> bool" where
  "contradictory (CmdPosition PoOpen (Some p)) = (p \<noteq> 100)"
| "contradictory (CmdPosition PoClose (Some p)) = (p \<noteq> 0)"
| "contradictory _ = False"

lemmas expectation_defs = expectationOf_def expect_brightness_def expect_position_def
  expect_temperature_def expect_media_def expect_def is_field_def close_to_def

lemma applyCommand_confirms:
  assumes "verifiable c" "\<not> contradictory c"
  shows "confirms c (applyCommand prev c)"
proof (cases c)
  case (CmdOnoff a)
  with assms show ?thesis
    by (cases a) (auto simp: confirms_def verifiable_def expectation_defs command_field_def
        readCapabilityField_def)
next
  case (CmdBrightness a l f)
  with assms show ?thesis
    by (cases a; cases l) (auto simp: confirms_def verifiable_def expectation_defs command_field_def
        readCapabilityField_def Let_def)
next
  case (CmdPosition a p)
  with assms show ?thesis
    by (cases a; cases p) (auto simp: confirms_def verifiable_def expectation_defs command_field_def
        readCapabilityField_def apply_position_def Let_def)
next
  case (CmdTemperature t)
  with assms show ?thesis
    by (cases "tc_targetC t"; cases "tc_mode t")
      (auto simp: confirms_def verifiable_def expectation_defs command_field_def
        readCapabilityField_def apply_temperature_def Let_def)
next
  case (CmdMedia m)
  with assms show ?thesis
    by (cases "mc_action m"; cases "mc_volume m")
      (auto simp: confirms_def verifiable_def expectation_defs command_field_def
        readCapabilityField_def apply_media_def Let_def)
qed (use assms in \<open>simp_all add: verifiable_def expectationOf_def\<close>)

end
