(* ===== verification/Mock_Adapter.thy ===== *)
theory Mock_Adapter
  imports Device_Backend
begin

text \<open>
  The contract of a backend whose devices answer commands as \<^verbatim>\<open>applyCommand\<close> says (the locale
  \<open>device_backend\<close>, the slice of \<^verbatim>\<open>IBackendAdapter\<close> in \<^verbatim>\<open>adapter.ts\<close> that commands and reads), and
  the in-memory adapter \<^verbatim>\<open>services/integration-layer/src/mock-adapter.ts\<close>, which provides it.
\<close>

section \<open>The contract\<close>

locale device_backend =
  fixes cmd :: "device_id \<Rightarrow> capability_command \<Rightarrow> ('b, unit) eff"
    and get :: "device_id \<Rightarrow> capability_kind \<Rightarrow> 'b \<Rightarrow> capability_state option"
    and up :: "'b \<Rightarrow> bool"
  assumes cmd_up: "up b \<Longrightarrow> \<exists>b'. cmd d c b = (Inr (), b') \<and> up b'"
    and cmd_down: "\<not> up b \<Longrightarrow> \<exists>e. cmd d c b = (Inl e, b)"
    and get_cmd: "cmd d c b = (Inr (), b') \<Longrightarrow>
      get d (command_kind c) b' = Some (applyCommand (get d (command_kind c) b) c)"
    and get_frame: "cmd d c b = (Inr (), b') \<Longrightarrow> (d', k) \<noteq> (d, command_kind c) \<Longrightarrow>
      get d' k b' = get d' k b"
begin

lemma cmd_ok_up: "cmd d c b = (Inr (), b') \<Longrightarrow> up b \<and> up b'"
  by (metis Inl_Inr_False cmd_down cmd_up prod.inject)

lemma cmd_confirmed:
  "cmd d c b = (Inr (), b') \<Longrightarrow> verifiable c \<Longrightarrow> \<not> contradictory c \<Longrightarrow>
   \<exists>st. get d (command_kind c) b' = Some st \<and> state_kind st = command_kind c \<and> confirms c st"
  by (simp add: get_cmd applyCommand_confirms)

lemma cmd_keeps_ok:
  assumes "cmd d c b = (Inr (), b')" "command_ok c" "\<forall>d k. opt_ok state_ok (get d k b)"
  shows "\<forall>d k. opt_ok state_ok (get d k b')"
proof (intro allI)
  fix d' k
  show "opt_ok state_ok (get d' k b')"
  proof (cases "(d', k) = (d, command_kind c)")
    case True
    then show ?thesis using assms
      by (auto simp: get_cmd prev_ok_def intro!: applyCommand_state_ok)
  next
    case False
    then show ?thesis using assms get_frame by metis
  qed
qed

text \<open>Commands sent one after the other, each awaited; the first error ends the sequence.\<close>

fun cmds :: "(device_id \<times> capability_command) list \<Rightarrow> ('b, unit) eff" where
  "cmds [] = eff_return ()"
| "cmds ((d, c) # cs) = eff_bind (cmd d c) (\<lambda>_. cmds cs)"

lemma cmds_up: "up b \<Longrightarrow> \<exists>b'. cmds cs b = (Inr (), b') \<and> up b'"
proof (induction cs arbitrary: b)
  case (Cons p cs)
  obtain d c where p: "p = (d, c)" by fastforce
  from cmd_up [OF Cons.prems] obtain b1 where "cmd d c b = (Inr (), b1)" "up b1" by blast
  with Cons.IH [of b1] show ?case by (auto simp: p eff_bind_def)
qed simp

lemma cmds_frame:
  "cmds cs b = (Inr (), b') \<Longrightarrow> (d, k) \<notin> (\<lambda>(d, c). (d, command_kind c)) ` set cs \<Longrightarrow>
   get d k b' = get d k b"
proof (induction cs arbitrary: b)
  case (Cons p cs)
  obtain d1 c1 where p: "p = (d1, c1)" by fastforce
  from Cons.prems(1) obtain b1 where "cmd d1 c1 b = (Inr (), b1)" "cmds cs b1 = (Inr (), b')"
    by (auto simp: p eff_bind_eq_Inr)
  with Cons p show ?case using get_frame by fastforce
qed simp

end

section \<open>The in-memory adapter\<close>

record backend_state_event =
  be_deviceId :: device_id
  be_capability :: capability_kind
  be_state :: capability_state
  be_ts :: timestamp

text \<open>
  A listener is known by a number; \<open>delivered\<close> is the sequence of its calls. Reading the clock
  takes the next value of \<open>clock\<close>'s stream of instants.
\<close>

record mock_adapter =
  ma_connected :: bool
  ma_listeners :: "nat list"
  ma_states :: "(string, capability_state) jsmap"
  ma_clock :: "timestamp list"
  ma_delivered :: "(nat \<times> backend_state_event) list"

definition device_key :: "device_id \<Rightarrow> capability_kind \<Rightarrow> string" where
  "device_key d k = d @ '':'' @ kind_name k"

definition ma_connect :: "mock_adapter \<Rightarrow> mock_adapter" where
  "ma_connect a = a\<lparr>ma_connected := True\<rparr>"

definition ma_disconnect :: "mock_adapter \<Rightarrow> mock_adapter" where
  "ma_disconnect a = a\<lparr>ma_connected := False\<rparr>"

definition ma_getState :: "device_id \<Rightarrow> capability_kind \<Rightarrow> mock_adapter \<Rightarrow> capability_state option" where
  "ma_getState d k a = jget (ma_states a) (device_key d k)"

definition ma_now :: "mock_adapter \<Rightarrow> timestamp \<times> mock_adapter" where
  "ma_now a = (case ma_clock a of [] \<Rightarrow> (0, a) | t # ts \<Rightarrow> (t, a\<lparr>ma_clock := ts\<rparr>))"

definition ma_command :: "device_id \<Rightarrow> capability_command \<Rightarrow> (mock_adapter, unit) eff" where
  "ma_command d c a =
     (if \<not> ma_connected a then (Inl (PlainError ''mock adapter not connected''), a)
      else
        (let k = command_kind c;
             st = applyCommand (jget (ma_states a) (device_key d k)) c;
             a1 = a\<lparr>ma_states := jset (device_key d k) st (ma_states a)\<rparr>;
             (ts, a2) = ma_now a1;
             ev = \<lparr>be_deviceId = d, be_capability = k, be_state = st, be_ts = ts\<rparr>
         in (Inr (), a2\<lparr>ma_delivered := ma_delivered a2 @ map (\<lambda>l. (l, ev)) (ma_listeners a2)\<rparr>)))"

definition ma_onState :: "nat \<Rightarrow> mock_adapter \<Rightarrow> mock_adapter" where
  "ma_onState l a = a\<lparr>ma_listeners := (if l \<in> set (ma_listeners a) then ma_listeners a else ma_listeners a @ [l])\<rparr>"

definition ma_unsubscribe :: "nat \<Rightarrow> mock_adapter \<Rightarrow> mock_adapter" where
  "ma_unsubscribe l a = a\<lparr>ma_listeners := filter (\<lambda>x. x \<noteq> l) (ma_listeners a)\<rparr>"

definition ma_seedState :: "device_id \<Rightarrow> capability_state \<Rightarrow> mock_adapter \<Rightarrow> mock_adapter" where
  "ma_seedState d st a = a\<lparr>ma_states := jset (device_key d (state_kind st)) st (ma_states a)\<rparr>"

lemma device_key_inject [simp]: "device_key d k = device_key d' k' \<longleftrightarrow> d = d' \<and> k = k'"
proof
  assume eq: "device_key d k = device_key d' k'"
  have colon: "\<forall>x\<in>set (kind_name k). x \<noteq> CHR '':''" for k
    by (metis kind_name_no_colon)
  have rest: "takeWhile (\<lambda>c. c \<noteq> CHR '':'') (rev (device_key d k)) = rev (kind_name k)" for d k
    using colon [of k] by (simp add: device_key_def takeWhile_tail)
  have "kind_name k = kind_name k'" using rest [of d k] rest [of d' k'] eq by (metis rev_rev_ident)
  then show "d = d' \<and> k = k'" using eq by (simp add: device_key_def)
qed simp

lemma ma_now_states [simp]:
  "ma_states (snd (ma_now a)) = ma_states a" "ma_connected (snd (ma_now a)) = ma_connected a"
  "ma_listeners (snd (ma_now a)) = ma_listeners a" "ma_delivered (snd (ma_now a)) = ma_delivered a"
  by (simp_all add: ma_now_def split: list.splits)

lemma ma_command_disconnected:
  "\<not> ma_connected a \<Longrightarrow> ma_command d c a = (Inl (PlainError ''mock adapter not connected''), a)"
  by (simp add: ma_command_def)

lemma ma_command_ok:
  assumes "ma_command d c a = (r, a')" "ma_connected a"
  shows "r = Inr ()" "ma_connected a'" "ma_listeners a' = ma_listeners a"
    "ma_states a' = jset (device_key d (command_kind c))
       (applyCommand (jget (ma_states a) (device_key d (command_kind c))) c) (ma_states a)"
    "\<exists>ts. ma_delivered a' = ma_delivered a @ map (\<lambda>l. (l, \<lparr>be_deviceId = d, be_capability = command_kind c,
       be_state = applyCommand (jget (ma_states a) (device_key d (command_kind c))) c, be_ts = ts\<rparr>))
       (ma_listeners a)"
  using assms by (auto simp: ma_command_def ma_now_def Let_def split: list.splits)

interpretation mock: device_backend ma_command ma_getState ma_connected
proof
  fix b :: mock_adapter and d c
  assume "ma_connected b"
  then show "\<exists>b'. ma_command d c b = (Inr (), b') \<and> ma_connected b'"
    using ma_command_ok by (metis surj_pair)
next
  fix b :: mock_adapter and d c
  assume "\<not> ma_connected b"
  then show "\<exists>e. ma_command d c b = (Inl e, b)"
    by (simp add: ma_command_disconnected)
next
  fix b b' :: mock_adapter and d c
  assume h: "ma_command d c b = (Inr (), b')"
  then have "ma_connected b" by (auto simp: ma_command_def split: if_splits)
  with h show "ma_getState d (command_kind c) b' =
      Some (applyCommand (ma_getState d (command_kind c) b) c)"
    by (simp add: ma_getState_def ma_command_ok)
next
  fix b b' :: mock_adapter and d c d' k
  assume h: "ma_command d c b = (Inr (), b')" and ne: "(d', k) \<noteq> (d, command_kind c)"
  then have "ma_connected b" by (auto simp: ma_command_def split: if_splits)
  with h ne show "ma_getState d' k b' = ma_getState d' k b"
    by (auto simp: ma_getState_def ma_command_ok)
qed

section \<open>Properties\<close>

text \<open>the pure device model is well-typed and total: applied to any earlier state and any command
  within the bounds of the schema, it gives a state of the command's own kind within the bounds of
  the state schema.\<close>

theorem applyCommand_wellformed:
  assumes "command_ok c" "prev_ok prev"
  shows "state_kind (applyCommand prev c) = command_kind c \<and> state_ok (applyCommand prev c)"
  using assms by (simp add: applyCommand_state_ok)

theorem applyCommand_wellformed_witness:
  "state_kind (applyCommand (Some (BrightnessState False 40)) (CmdBrightness BrSet (Some 75) None)) = CkBrightness \<and>
   state_ok (applyCommand (Some (BrightnessState False 40)) (CmdBrightness BrSet (Some 75) None))"
  using applyCommand_wellformed [of "CmdBrightness BrSet (Some 75) None" "Some (BrightnessState False 40)"]
  by (simp add: percent_def prev_ok_def fade_ok_def)

text \<open>after a command succeeds on the in-memory adapter, the state read back for that device and
  capability satisfies the state expectation of the command, whenever the command has one and does
  not itself contradict it, and every other device and capability reads as before.\<close>

theorem mock_command_confirmed:
  assumes "ma_command d c a = (Inr (), a')" "verifiable c" "\<not> contradictory c"
  shows "(\<exists>st. ma_getState d (command_kind c) a' = Some st \<and> confirms c st) \<and>
    (\<forall>d' k. (d', k) = (d, command_kind c) \<or> ma_getState d' k a' = ma_getState d' k a)"
  using mock.cmd_confirmed [OF assms] mock.get_frame [OF assms(1)] by blast

definition demo_adapter :: mock_adapter where
  "demo_adapter = \<lparr>ma_connected = True, ma_listeners = [7], ma_states = [], ma_clock = [5],
     ma_delivered = []\<rparr>"

theorem mock_command_confirmed_witness:
  "\<exists>a' st. ma_command ''dev_1'' (CmdPosition PoOpen None) demo_adapter = (Inr (), a') \<and>
     ma_getState ''dev_1'' CkPosition a' = Some st \<and> confirms (CmdPosition PoOpen None) st"
proof -
  have "ma_connected demo_adapter" by (simp add: demo_adapter_def)
  then obtain a' where a': "ma_command ''dev_1'' (CmdPosition PoOpen None) demo_adapter = (Inr (), a')"
    using mock.cmd_up by blast
  have "verifiable (CmdPosition PoOpen None)" by code_simp
  from mock_command_confirmed [OF a' this] a' show ?thesis by simp
qed

text \<open>an open command that also names a position is schema-valid and has an expectation, and the
  state it leads to does not meet it: the device goes to the named position while the check waits
  for the fully open one.\<close>

theorem contradictory_open_never_confirmed:
  assumes "p \<le> 97"
  shows "verifiable (CmdPosition PoOpen (Some p)) \<and>
    \<not> confirms (CmdPosition PoOpen (Some p)) (applyCommand prev (CmdPosition PoOpen (Some p)))"
  using assms
  by (auto simp: confirms_def verifiable_def expectation_defs command_field_def
      readCapabilityField_def apply_position_def Let_def)

theorem contradictory_open_never_confirmed_witness:
  "command_ok (CmdPosition PoOpen (Some 30)) \<and>
   \<not> confirms (CmdPosition PoOpen (Some 30)) (applyCommand None (CmdPosition PoOpen (Some 30)))"
  using contradictory_open_never_confirmed [of 30] by (simp add: percent_def)

end
