(* ===== verification/Keypad_Behavior.thy ===== *)
theory Keypad_Behavior
  imports Mock_Adapter Automation_Engine
begin

text \<open>
  Behaviour resolution of the keypad framework, \<^verbatim>\<open>services/keypad-framework/src/behavior.ts\<close>: how a
  mapping that is not \<^verbatim>\<open>direct\<close> turns one firing into a command, from the live state of its target. The
  locale \<open>wired_executors\<close> joins the contract of a backend with the executors that read and
  command it, as the gateway wires them.
\<close>

section \<open>Resolution\<close>

fun behavior_name :: "keypad_behavior \<Rightarrow> string" where
  "behavior_name Direct = ''direct''"
| "behavior_name Toggle = ''toggle''"
| "behavior_name Alternate = ''alternate''"
| "behavior_name Cycle = ''cycle''"
| "behavior_name Increment = ''increment''"
| "behavior_name Decrement = ''decrement''"

definition KELVIN_MIN :: rat where "KELVIN_MIN = 2700"

definition KELVIN_MAX :: rat where "KELVIN_MAX = 6500"

definition kelvinToPct :: "rat \<Rightarrow> rat" where
  "kelvinToPct k = clamp (((k - KELVIN_MIN) / (KELVIN_MAX - KELVIN_MIN)) * 100) 0 100"

definition pctToKelvin :: "rat \<Rightarrow> int" where
  "pctToKelvin pct = js_round (KELVIN_MIN + (clamp pct 0 100 / 100) * (KELVIN_MAX - KELVIN_MIN))"

text \<open>The on/off reading of a state for a capability: \<^const>\<open>None\<close> where the source throws.\<close>

fun on_reading :: "capability_kind \<Rightarrow> capability_state option \<Rightarrow> bool option" where
  "on_reading CkOnoff st = Some (case st of Some (OnOffState b) \<Rightarrow> b | _ \<Rightarrow> False)"
| "on_reading CkBrightness st = Some (case st of Some (BrightnessState b _) \<Rightarrow> b | _ \<Rightarrow> False)"
| "on_reading CkFan st = Some (case st of Some (FanState b _ _) \<Rightarrow> b | _ \<Rightarrow> False)"
| "on_reading CkLock st = Some (case st of Some (LockState l _) \<Rightarrow> \<not> l | _ \<Rightarrow> False)"
| "on_reading CkVacuum st = Some (case st of Some (VacuumState s _) \<Rightarrow> s = VsCleaning | _ \<Rightarrow> False)"
| "on_reading _ st = None"

definition toggle_unsupported :: "capability_kind \<Rightarrow> error" where
  "toggle_unsupported k = PlainError
     (''keypad-framework: \"toggle\" behavior is not supported for capability \"'' @ kind_name k @ ''\"'')"

definition step_unsupported :: "capability_kind \<Rightarrow> error" where
  "step_unsupported k = PlainError
     (''keypad-framework: level-stepping behaviors are not supported for capability \"'' @ kind_name k @ ''\"'')"

definition readOnOff :: "'w executors \<Rightarrow> keypad_mapping_target \<Rightarrow> ('w, bool) eff" where
  "readOnOff ex t = eff_bind (ex_getState ex (kt_deviceId t) (kt_capability t)) (\<lambda>st.
     case on_reading (kt_capability t) st of
       None \<Rightarrow> eff_throw (toggle_unsupported (kt_capability t))
     | Some b \<Rightarrow> eff_return b)"

fun onOffCommand :: "capability_kind \<Rightarrow> bool \<Rightarrow> error + capability_command" where
  "onOffCommand CkOnoff b = Inr (CmdOnoff (if b then OoOn else OoOff))"
| "onOffCommand CkBrightness b = Inr (CmdBrightness (if b then BrOn else BrOff) None None)"
| "onOffCommand CkFan b = Inr (CmdFan (if b then FaOn else FaOff) None None)"
| "onOffCommand CkLock b = Inr (CmdLock (if b then LoUnlock else LoLock))"
| "onOffCommand CkVacuum b = Inr (CmdVacuum (if b then VaStart else VaStop) None)"
| "onOffCommand k b = Inl (toggle_unsupported k)"

fun level_reading :: "capability_kind \<Rightarrow> capability_state option \<Rightarrow> rat option" where
  "level_reading CkBrightness st = Some (case st of Some (BrightnessState _ l) \<Rightarrow> l | _ \<Rightarrow> 0)"
| "level_reading CkPosition st = Some (case st of Some (PositionState p _) \<Rightarrow> p | _ \<Rightarrow> 0)"
| "level_reading CkColor st = Some (case st of
     Some (ColorState c) \<Rightarrow> (case c_kelvin c of Some k \<Rightarrow> kelvinToPct (of_int k) | None \<Rightarrow> 0) | _ \<Rightarrow> 0)"
| "level_reading _ st = None"

definition readLevel :: "'w executors \<Rightarrow> keypad_mapping_target \<Rightarrow> ('w, rat) eff" where
  "readLevel ex t = eff_bind (ex_getState ex (kt_deviceId t) (kt_capability t)) (\<lambda>st.
     case level_reading (kt_capability t) st of
       None \<Rightarrow> eff_throw (step_unsupported (kt_capability t))
     | Some l \<Rightarrow> eff_return l)"

fun levelCommand :: "capability_kind \<Rightarrow> rat \<Rightarrow> nat option \<Rightarrow> error + capability_command" where
  "levelCommand CkBrightness l fade = Inr (CmdBrightness BrSet (Some l) fade)"
| "levelCommand CkPosition l fade = Inr (CmdPosition PoSet (Some l))"
| "levelCommand CkColor l fade = Inr (CmdColor \<lparr>cc_hue = None, cc_saturation = None,
     cc_kelvin = Some (pctToKelvin l), cc_level = None, cc_fadeMs = fade\<rparr>)"
| "levelCommand k l fade = Inl (step_unsupported k)"

definition eff_lift :: "error + 'a \<Rightarrow> ('s, 'a) eff" where
  "eff_lift x = (\<lambda>s. (x, s))"

record resolved_behavior =
  rb_command :: capability_command
  rb_next :: "keypad_behavior_state option"

fun flip_direction :: "step_direction option \<Rightarrow> step_direction" where
  "flip_direction (Some DirUp) = DirDown"
| "flip_direction _ = DirUp"

definition stepped :: "step_direction \<Rightarrow> rat \<Rightarrow> rat \<Rightarrow> rat" where
  "stepped dir step l = clamp (if dir = DirUp then l + step else l - step) 0 100"

definition resolveBehaviorCommand ::
  "'w executors \<Rightarrow> keypad_mapping \<Rightarrow> ('w, resolved_behavior) eff" where
  "resolveBehaviorCommand ex m =
     (case km_target m of
        None \<Rightarrow> eff_throw (PlainError
          (''keypad-framework: behavior \"'' @ behavior_name (km_behavior m) @ ''\" has no target''))
      | Some t \<Rightarrow>
          (case km_behavior m of
             Toggle \<Rightarrow> eff_bind (readOnOff ex t) (\<lambda>on.
               eff_bind (eff_lift (onOffCommand (kt_capability t) (\<not> on))) (\<lambda>c.
                 eff_return \<lparr>rb_command = c, rb_next = None\<rparr>))
           | Alternate \<Rightarrow>
               (let dir = flip_direction (lastDirection (km_behaviorState m)) in
                eff_bind (readLevel ex t) (\<lambda>l.
                  eff_bind (eff_lift (levelCommand (kt_capability t) (stepped dir (kt_step t) l) (kt_fadeMs t))) (\<lambda>c.
                    eff_return \<lparr>rb_command = c,
                      rb_next = Some ((km_behaviorState m)\<lparr>lastDirection := Some dir\<rparr>)\<rparr>)))
           | Increment \<Rightarrow> eff_bind (readLevel ex t) (\<lambda>l.
               eff_bind (eff_lift (levelCommand (kt_capability t) (stepped DirUp (kt_step t) l) (kt_fadeMs t))) (\<lambda>c.
                 eff_return \<lparr>rb_command = c, rb_next = None\<rparr>))
           | Decrement \<Rightarrow> eff_bind (readLevel ex t) (\<lambda>l.
               eff_bind (eff_lift (levelCommand (kt_capability t) (stepped DirDown (kt_step t) l) (kt_fadeMs t))) (\<lambda>c.
                 eff_return \<lparr>rb_command = c, rb_next = None\<rparr>))
           | _ \<Rightarrow> eff_throw (PlainError
               (''keypad-framework: resolveBehaviorCommand does not handle \"'' @
                behavior_name (km_behavior m) @ ''\"''))))"

section \<open>Lemmas\<close>

lemma eff_lift_apply [simp]: "eff_lift x s = (x, s)"
  by (simp add: eff_lift_def)

lemma eff_bind_lift [simp]:
  "eff_bind (eff_lift (Inr a)) f = f a" "eff_bind (eff_lift (Inl e)) f = eff_throw e"
  by (simp_all add: eff_bind_def eff_lift_def eff_throw_def)

lemma stepped_percent [simp]: "percent (stepped dir step l)"
  using clamp_bounds [of 0 100] by (simp add: stepped_def percent_def)

lemma pctToKelvin_bounds: "2700 \<le> pctToKelvin p \<and> pctToKelvin p \<le> 6500"
proof -
  have "(0::rat) \<le> clamp p 0 100" "clamp p 0 100 \<le> 100" using clamp_bounds [of 0 100 p] by simp_all
  then have "of_int 2700 \<le> KELVIN_MIN + (clamp p 0 100 / 100) * (KELVIN_MAX - KELVIN_MIN)"
    "KELVIN_MIN + (clamp p 0 100 / 100) * (KELVIN_MAX - KELVIN_MIN) \<le> of_int 6500"
    by (simp_all add: KELVIN_MIN_def KELVIN_MAX_def)
  from js_round_mono [OF this(1)] js_round_mono [OF this(2)] show ?thesis
    by (simp only: js_round_of_int pctToKelvin_def)
qed

lemma kelvin_roundtrip:
  assumes "2700 \<le> k" "k \<le> 6500"
  shows "pctToKelvin (kelvinToPct (of_int k)) = k"
proof -
  have "(2700::rat) \<le> of_int k" "of_int k \<le> (6500::rat)"
    using assms by (metis of_int_le_iff of_int_numeral)+
  then have "0 \<le> (of_int k - 2700) / (3800::rat) * 100" "(of_int k - 2700) / (3800::rat) * 100 \<le> 100"
    by simp_all
  then have c: "clamp ((of_int k - 2700) / (3800::rat) * 100) 0 100 = (of_int k - 2700) / 3800 * 100"
    by (rule clamp_id)
  then have p: "kelvinToPct (of_int k) = (of_int k - 2700) / 3800 * 100"
    by (simp only: kelvinToPct_def KELVIN_MIN_def KELVIN_MAX_def) simp
  have "KELVIN_MIN + ((of_int k - 2700) / (3800::rat) * 100) / 100 * (KELVIN_MAX - KELVIN_MIN) = of_int k"
    by (simp add: KELVIN_MIN_def KELVIN_MAX_def field_simps)
  then show ?thesis unfolding pctToKelvin_def p c by simp
qed

lemma onOffCommand_ok:
  "k \<in> set TOGGLE_CAPABLE_CAPABILITIES \<Longrightarrow>
   \<exists>c. onOffCommand k b = Inr c \<and> command_ok c \<and> command_kind c = k \<and>
     on_reading k (Some (applyCommand prev c)) = Some b"
  by (auto simp: TOGGLE_CAPABLE_CAPABILITIES_def fade_ok_def apply_defs Let_def split: prod.splits)

lemma on_reading_toggle: "k \<in> set TOGGLE_CAPABLE_CAPABILITIES \<Longrightarrow> \<exists>b. on_reading k st = Some b"
  by (auto simp: TOGGLE_CAPABLE_CAPABILITIES_def)

lemma level_reading_step: "k \<in> set LEVEL_STEP_CAPABLE_CAPABILITIES \<Longrightarrow> \<exists>l. level_reading k st = Some l"
  by (auto simp: LEVEL_STEP_CAPABLE_CAPABILITIES_def)

lemma levelCommand_ok:
  assumes "k \<in> set LEVEL_STEP_CAPABLE_CAPABILITIES" "percent l" "fade_ok fade"
  shows "\<exists>c. levelCommand k l fade = Inr c \<and> command_ok c \<and> command_kind c = k"
proof -
  have "1000 \<le> pctToKelvin l" "pctToKelvin l \<le> 10000" using pctToKelvin_bounds [of l] by auto
  with assms show ?thesis by (auto simp: LEVEL_STEP_CAPABLE_CAPABILITIES_def)
qed

lemma levelCommand_applied:
  "k \<in> {CkBrightness, CkPosition} \<Longrightarrow> levelCommand k l fade = Inr c \<Longrightarrow>
   level_reading k (Some (applyCommand prev c)) = Some l"
  by (auto simp: apply_position_def)


section \<open>Executors wired to a backend\<close>

locale wired_executors = device_backend cmd get up
  for cmd :: "device_id \<Rightarrow> capability_command \<Rightarrow> ('b, unit) eff"
    and get :: "device_id \<Rightarrow> capability_kind \<Rightarrow> 'b \<Rightarrow> capability_state option"
    and up :: "'b \<Rightarrow> bool" +
  fixes ex :: "'b executors"
  assumes ex_cmd: "ex_command ex = cmd"
    and ex_get: "ex_getState ex d k b = (Inr (get d k b), b)"
begin

lemma readOnOff_get:
  "on_reading (kt_capability t) (get (kt_deviceId t) (kt_capability t) b) = Some on \<Longrightarrow>
   readOnOff ex t b = (Inr on, b)"
  by (simp add: readOnOff_def eff_bind_def ex_get)

lemma readLevel_get:
  "level_reading (kt_capability t) (get (kt_deviceId t) (kt_capability t) b) = Some l \<Longrightarrow>
   readLevel ex t b = (Inr l, b)"
  by (simp add: readLevel_def eff_bind_def ex_get)

lemma toggle_inverts:
  assumes "km_behavior m = Toggle" "km_target m = Some t"
    and "kt_capability t \<in> set TOGGLE_CAPABLE_CAPABILITIES" "up b"
  shows "\<exists>rb b'. resolveBehaviorCommand ex m b = (Inr rb, b) \<and>
    ex_command ex (kt_deviceId t) (rb_command rb) b = (Inr (), b') \<and> up b' \<and>
    on_reading (kt_capability t) (get (kt_deviceId t) (kt_capability t) b') =
      map_option Not (on_reading (kt_capability t) (get (kt_deviceId t) (kt_capability t) b))"
proof -
  let ?d = "kt_deviceId t" and ?k = "kt_capability t"
  obtain on where on: "on_reading ?k (get ?d ?k b) = Some on" using on_reading_toggle [OF assms(3)] by blast
  obtain c where c: "onOffCommand ?k (\<not> on) = Inr c" "command_kind c = ?k"
    "on_reading ?k (Some (applyCommand (get ?d ?k b) c)) = Some (\<not> on)"
    using onOffCommand_ok [OF assms(3)] by blast
  obtain b' where b': "cmd ?d c b = (Inr (), b')" "up b'" using cmd_up [OF assms(4)] by blast
  have "resolveBehaviorCommand ex m b = (Inr \<lparr>rb_command = c, rb_next = None\<rparr>, b)"
    using assms(1,2) c(1) readOnOff_get [OF on] by (simp add: resolveBehaviorCommand_def eff_bind_def)
  moreover have "get ?d ?k b' = Some (applyCommand (get ?d ?k b) c)"
    using get_cmd [OF b'(1)] c(2) by simp
  ultimately show ?thesis using b' c on ex_cmd by (intro exI [of _ "\<lparr>rb_command = c, rb_next = None\<rparr>"]) auto
qed

lemma alternate_step:
  assumes "km_behavior m = Alternate" "km_target m = Some t"
    and "kt_capability t \<in> {CkBrightness, CkPosition}" "up b"
    and "level_reading (kt_capability t) (get (kt_deviceId t) (kt_capability t) b) = Some l"
  defines "dir \<equiv> flip_direction (lastDirection (km_behaviorState m))"
  shows "\<exists>c b'. resolveBehaviorCommand ex m b = (Inr \<lparr>rb_command = c,
        rb_next = Some ((km_behaviorState m)\<lparr>lastDirection := Some dir\<rparr>)\<rparr>, b) \<and>
    ex_command ex (kt_deviceId t) c b = (Inr (), b') \<and> up b' \<and>
    level_reading (kt_capability t) (get (kt_deviceId t) (kt_capability t) b') =
      Some (stepped dir (kt_step t) l)"
proof -
  let ?d = "kt_deviceId t" and ?k = "kt_capability t" and ?l = "stepped dir (kt_step t) l"
  obtain c where c: "levelCommand ?k ?l (kt_fadeMs t) = Inr c" "command_kind c = ?k"
    using assms(3) by auto
  obtain b' where b': "cmd ?d c b = (Inr (), b')" "up b'" using cmd_up [OF assms(4)] by blast
  have "resolveBehaviorCommand ex m b =
      (Inr \<lparr>rb_command = c, rb_next = Some ((km_behaviorState m)\<lparr>lastDirection := Some dir\<rparr>)\<rparr>, b)"
    using assms(1,2) c(1) readLevel_get [OF assms(5)]
    by (simp add: resolveBehaviorCommand_def eff_bind_def Let_def dir_def)
  moreover have "get ?d ?k b' = Some (applyCommand (get ?d ?k b) c)"
    using get_cmd [OF b'(1)] c(2) by simp
  then have "level_reading ?k (get ?d ?k b') = Some ?l"
    using levelCommand_applied [OF assms(3) c(1)] by simp
  ultimately show ?thesis using b' ex_cmd by blast
qed

end

text \<open>The gateway's executors over the in-memory adapter: commands and reads go to it, the rest as given.\<close>

definition mock_executors :: "mock_adapter executors \<Rightarrow> mock_adapter executors" where
  "mock_executors base =
     base\<lparr>ex_command := ma_command, ex_getState := (\<lambda>d k a. (Inr (ma_getState d k a), a))\<rparr>"

interpretation mock_wired: wired_executors ma_command ma_getState ma_connected "mock_executors base" for base
  by unfold_locales (simp_all add: mock_executors_def)

section \<open>Properties\<close>

text \<open>For a mapping the schema accepts whose behaviour is toggle, alternate, increment or decrement, and
  whenever the state reads do not throw, resolution succeeds with a command within the schema's bounds, of the
  target's capability, and only alternate changes the mapping's own memory, flipping its direction (up the first time).\<close>

theorem resolve_wellformed:
  assumes "mapping_ok m" "km_behavior m \<in> {Toggle, Alternate, Increment, Decrement}"
    and "km_target m = Some t" "reads_total ex"
  shows "\<exists>rb w'. resolveBehaviorCommand ex m w = (Inr rb, w') \<and> command_ok (rb_command rb) \<and>
    command_kind (rb_command rb) = kt_capability t \<and>
    rb_next rb = (if km_behavior m = Alternate
      then Some ((km_behaviorState m)\<lparr>lastDirection := Some (flip_direction (lastDirection (km_behaviorState m)))\<rparr>)
      else None)"
proof -
  let ?d = "kt_deviceId t" and ?k = "kt_capability t"
  obtain st w' where get: "ex_getState ex ?d ?k w = (Inr st, w')"
    using assms(4) unfolding reads_total_def by blast
  show ?thesis
  proof (cases "km_behavior m = Toggle")
    case True
    then have k: "?k \<in> set TOGGLE_CAPABLE_CAPABILITIES" using mapping_ok_toggle assms by blast
    obtain on where "on_reading ?k st = Some on" using on_reading_toggle [OF k] by blast
    moreover obtain c where "onOffCommand ?k (\<not> on) = Inr c" "command_ok c" "command_kind c = ?k"
      using onOffCommand_ok [OF k] by blast
    ultimately show ?thesis using True assms(3) get
      by (simp add: resolveBehaviorCommand_def readOnOff_def eff_bind_def)
  next
    case False
    with assms(2) have beh: "km_behavior m \<in> {Alternate, Increment, Decrement}" by auto
    then have k: "?k \<in> set LEVEL_STEP_CAPABLE_CAPABILITIES" using mapping_ok_step assms by blast
    obtain l where l: "level_reading ?k st = Some l" using level_reading_step [OF k] by blast
    have fade: "fade_ok (kt_fadeMs t)"
      using mapping_ok_target [OF assms(1)] assms(3) beh by (auto simp: target_ok_def)
    have "\<exists>c. levelCommand ?k (stepped dir (kt_step t) l) (kt_fadeMs t) = Inr c \<and> command_ok c \<and>
        command_kind c = ?k" for dir
      using levelCommand_ok [OF k stepped_percent fade] .
    then obtain cmd where cmd: "levelCommand ?k (stepped dir (kt_step t) l) (kt_fadeMs t) = Inr (cmd dir)"
      "command_ok (cmd dir)" "command_kind (cmd dir) = ?k" for dir
      by metis
    from beh assms(3) get l cmd show ?thesis
      by (auto simp: resolveBehaviorCommand_def readLevel_def eff_bind_def Let_def)
  qed
qed

text \<open>A toggle always inverts the device as it is: over the in-memory adapter, whatever state the target was in
  (or none), the command a toggle mapping resolves to succeeds and leaves the target with the opposite on/off reading.\<close>

theorem toggle_inverts_device:
  assumes "km_behavior m = Toggle" "km_target m = Some t"
    and "kt_capability t \<in> set TOGGLE_CAPABLE_CAPABILITIES" "ma_connected a"
  shows "\<exists>rb a'. resolveBehaviorCommand (mock_executors base) m a = (Inr rb, a) \<and>
    ma_command (kt_deviceId t) (rb_command rb) a = (Inr (), a') \<and>
    on_reading (kt_capability t) (ma_getState (kt_deviceId t) (kt_capability t) a') =
      map_option Not (on_reading (kt_capability t) (ma_getState (kt_deviceId t) (kt_capability t) a))"
  using mock_wired.toggle_inverts [OF assms, of base] by (auto simp: mock_executors_def)

text \<open>Two firings of an alternate mapping on a dimmer or a shade, the second with the memory the first left,
  bring the level back where it was, if the first step stayed within 0 to 100.\<close>

theorem alternate_returns:
  assumes "km_behavior m = Alternate" "km_target m = Some t"
    and "kt_capability t \<in> {CkBrightness, CkPosition}" "ma_connected a"
    and "level_reading (kt_capability t) (ma_getState (kt_deviceId t) (kt_capability t) a) = Some l"
    and "lastDirection (km_behaviorState m) \<noteq> Some DirUp" "0 \<le> l" "0 \<le> kt_step t" "l + kt_step t \<le> 100"
  shows "\<exists>rb a1 rb' a2. resolveBehaviorCommand (mock_executors base) m a = (Inr rb, a) \<and>
    ma_command (kt_deviceId t) (rb_command rb) a = (Inr (), a1) \<and>
    resolveBehaviorCommand (mock_executors base) (m\<lparr>km_behaviorState := the (rb_next rb)\<rparr>) a1 = (Inr rb', a1) \<and>
    ma_command (kt_deviceId t) (rb_command rb') a1 = (Inr (), a2) \<and>
    level_reading (kt_capability t) (ma_getState (kt_deviceId t) (kt_capability t) a1) = Some (l + kt_step t) \<and>
    level_reading (kt_capability t) (ma_getState (kt_deviceId t) (kt_capability t) a2) = Some l"
proof -
  let ?next = "(km_behaviorState m)\<lparr>lastDirection := Some DirUp\<rparr>"
  let ?m = "m\<lparr>km_behaviorState := ?next\<rparr>"
  have up: "flip_direction (lastDirection (km_behaviorState m)) = DirUp"
    using assms(6) by (cases "lastDirection (km_behaviorState m)" rule: flip_direction.cases) auto
  have lv: "stepped DirUp (kt_step t) l = l + kt_step t" "stepped DirDown (kt_step t) (l + kt_step t) = l"
    using assms(7-9) by (simp_all add: stepped_def clamp_id)
  obtain c a1 where one: "resolveBehaviorCommand (mock_executors base) m a =
      (Inr \<lparr>rb_command = c, rb_next = Some ?next\<rparr>, a)" "ma_command (kt_deviceId t) c a = (Inr (), a1)"
    "ma_connected a1"
    "level_reading (kt_capability t) (ma_getState (kt_deviceId t) (kt_capability t) a1) = Some (l + kt_step t)"
    using mock_wired.alternate_step [OF assms(1-5), of base] by (auto simp: up lv mock_executors_def)
  have "km_behavior ?m = Alternate" "km_target ?m = Some t" using assms(1,2) by simp_all
  from mock_wired.alternate_step [OF this assms(3) one(3,4), of base] obtain c' a2 where
    "resolveBehaviorCommand (mock_executors base) ?m a1 =
      (Inr \<lparr>rb_command = c', rb_next = Some (?next\<lparr>lastDirection := Some DirDown\<rparr>)\<rparr>, a1)"
    "ma_command (kt_deviceId t) c' a1 = (Inr (), a2)"
    "level_reading (kt_capability t) (ma_getState (kt_deviceId t) (kt_capability t) a2) = Some l"
    by (auto simp: lv mock_executors_def)
  with one show ?thesis
    by (intro exI [of _ "\<lparr>rb_command = c, rb_next = Some ?next\<rparr>"] exI [of _ a1]
        exI [of _ "\<lparr>rb_command = c', rb_next = Some (?next\<lparr>lastDirection := Some DirDown\<rparr>)\<rparr>"]
        exI [of _ a2]) simp
qed


section \<open>A concrete mapping\<close>

definition demo_target :: keypad_mapping_target where
  "demo_target = \<lparr>kt_deviceId = ''lamp'', kt_capability = CkBrightness, kt_step = 25, kt_fadeMs = Some 400\<rparr>"

definition demo_mapping :: "keypad_behavior \<Rightarrow> keypad_mapping" where
  "demo_mapping beh =
     \<lparr>km_id = ''m1'', km_homeId = ''h1'', km_name = ''Dim'', km_enabled = True,
      km_input = \<lparr>ki_keypadId = ''kp1'', ki_control = ''1'', ki_event = EkShort_press\<rparr>,
      km_conditions = [],
      km_actions = [AcScene_activate ''s1'', AcScene_activate ''s2'', AcScene_activate ''s3''],
      km_behavior = beh, km_target = Some demo_target,
      km_behaviorState = \<lparr>lastDirection = None, cycleIndex = 0\<rparr>,
      km_variables = []\<rparr>"

definition lit_adapter :: mock_adapter where
  "lit_adapter = ma_seedState ''lamp'' (BrightnessState True 40) (ma_connect demo_adapter)"

lemma resolve_wellformed_witness:
  "mapping_ok (demo_mapping Alternate) \<and>
   (\<exists>rb w'. resolveBehaviorCommand demo_executors (demo_mapping Alternate) 0 = (Inr rb, w') \<and>
      command_ok (rb_command rb) \<and> command_kind (rb_command rb) = CkBrightness)"
proof -
  have ok: "mapping_ok (demo_mapping Alternate)"
    by (simp add: mapping_ok_def mapping_issues_def demo_mapping_def demo_target_def target_ok_def fade_ok_def
        LEVEL_STEP_CAPABLE_CAPABILITIES_def)
  have "km_behavior (demo_mapping Alternate) \<in> {Toggle, Alternate, Increment, Decrement}"
    "km_target (demo_mapping Alternate) = Some demo_target" by (simp_all add: demo_mapping_def)
  from resolve_wellformed [OF ok this demo_reads_total, of 0] ok show ?thesis
    by (auto simp: demo_target_def)
qed

lemma toggle_inverts_device_witness:
  "\<forall>base. \<exists>rb a'.
     resolveBehaviorCommand (mock_executors base) (demo_mapping Toggle) lit_adapter = (Inr rb, lit_adapter) \<and>
     ma_command ''lamp'' (rb_command rb) lit_adapter = (Inr (), a') \<and>
     on_reading CkBrightness (ma_getState ''lamp'' CkBrightness a') = Some False"
proof
  fix base
  show "\<exists>rb a'.
     resolveBehaviorCommand (mock_executors base) (demo_mapping Toggle) lit_adapter = (Inr rb, lit_adapter) \<and>
     ma_command ''lamp'' (rb_command rb) lit_adapter = (Inr (), a') \<and>
     on_reading CkBrightness (ma_getState ''lamp'' CkBrightness a') = Some False"
    using toggle_inverts_device [of "demo_mapping Toggle" demo_target lit_adapter base]
    by (simp add: demo_mapping_def demo_target_def TOGGLE_CAPABLE_CAPABILITIES_def lit_adapter_def
        ma_seedState_def ma_connect_def ma_getState_def)
qed

lemma alternate_returns_witness:
  "\<forall>base. \<exists>rb a1 (rb' :: resolved_behavior) a2.
     resolveBehaviorCommand (mock_executors base) (demo_mapping Alternate) lit_adapter = (Inr rb, lit_adapter) \<and>
     ma_command ''lamp'' (rb_command rb) lit_adapter = (Inr (), a1) \<and>
     ma_command ''lamp'' (rb_command rb') a1 = (Inr (), a2) \<and>
     level_reading CkBrightness (ma_getState ''lamp'' CkBrightness a1) = Some 65 \<and>
     level_reading CkBrightness (ma_getState ''lamp'' CkBrightness a2) = Some 40"
proof
  fix base
  have "km_behavior (demo_mapping Alternate) = Alternate" "km_target (demo_mapping Alternate) = Some demo_target"
    "kt_capability demo_target \<in> {CkBrightness, CkPosition}" "ma_connected lit_adapter"
    "level_reading (kt_capability demo_target) (ma_getState (kt_deviceId demo_target)
       (kt_capability demo_target) lit_adapter) = Some 40"
    "lastDirection (km_behaviorState (demo_mapping Alternate)) \<noteq> Some DirUp"
    "(0::rat) \<le> 40" "0 \<le> kt_step demo_target" "40 + kt_step demo_target \<le> 100"
    by (simp_all add: demo_mapping_def demo_target_def lit_adapter_def
        ma_seedState_def ma_connect_def ma_getState_def)
  note two = alternate_returns [OF this, of base]
  have k: "kt_deviceId demo_target = ''lamp''" "kt_capability demo_target = CkBrightness"
    "40 + kt_step demo_target = 65" by (simp_all add: demo_target_def)
  from two [unfolded k] show "\<exists>rb a1 (rb' :: resolved_behavior) a2.
     resolveBehaviorCommand (mock_executors base) (demo_mapping Alternate) lit_adapter = (Inr rb, lit_adapter) \<and>
     ma_command ''lamp'' (rb_command rb) lit_adapter = (Inr (), a1) \<and>
     ma_command ''lamp'' (rb_command rb') a1 = (Inr (), a2) \<and>
     level_reading CkBrightness (ma_getState ''lamp'' CkBrightness a1) = Some 65 \<and>
     level_reading CkBrightness (ma_getState ''lamp'' CkBrightness a2) = Some 40"
    by blast
qed

end
