(* ===== verification/Keypad_Mapping.thy ===== *)
theory Keypad_Mapping
  imports Keypad_Behavior
begin

text \<open>
  The keypad mapping engine, \<^verbatim>\<open>services/keypad-framework/src/mapping-engine.ts\<close>. It shares the
  executors, the conditions, the action loop and the bounded history with the automation engine. A
  handler runs to completion here; \<open>inFlight\<close> then only holds the promises that were rejected, because
  a fulfilled one is removed by its own handler. The chaining of overlapping firings is a model
  of its own, the step relation of \<^verbatim>\<open>Firing_Chain\<close>.
\<close>

section \<open>State\<close>

record mapping_run =
  mr_id :: "int \<times> nat"
  mr_mappingId :: keypad_mapping_id
  mr_startedAt :: timestamp
  mr_conditionsPassed :: bool
  mr_failedCondition :: "failed_condition option"
  mr_actions :: "automation_run_action list"
  mr_durationMs :: int
  mr_ok :: bool
  mr_error :: "string option"

record 'w mapping_options =
  mo_ex :: "'w executors"
  mo_persist :: "(keypad_mapping_id \<Rightarrow> keypad_behavior_state \<Rightarrow> ('w, unit) eff) option"
  mo_onFire :: "(keypad_input_event \<Rightarrow> keypad_mapping \<Rightarrow> mapping_run \<Rightarrow> 'w \<Rightarrow> 'w) option"

record mapping_engine =
  me_mappings :: "keypad_mapping list"
  me_runs :: "mapping_run list"
  me_inFlight :: "(keypad_mapping_id, error) jsmap"
  me_historyLimit :: nat
  me_runSeq :: nat

definition new_mapping_engine :: "nat option \<Rightarrow> mapping_engine" where
  "new_mapping_engine limit = \<lparr>me_mappings = [], me_runs = [], me_inFlight = [],
     me_historyLimit = (case limit of None \<Rightarrow> 100 | Some n \<Rightarrow> n), me_runSeq = 0\<rparr>"

definition setMappings :: "keypad_mapping list \<Rightarrow> mapping_engine \<Rightarrow> mapping_engine" where
  "setMappings list en = en\<lparr>me_mappings := filter km_enabled list\<rparr>"

definition me_recentRuns :: "keypad_mapping_id option \<Rightarrow> nat \<Rightarrow> mapping_engine \<Rightarrow> mapping_run list" where
  "me_recentRuns mid limit en =
     recent (\<lambda>r. case mid of None \<Rightarrow> True | Some i \<Rightarrow> i = '''' \<or> mr_mappingId r = i) limit (me_runs en)"

section \<open>Firing\<close>

fun replace_first :: "('a \<Rightarrow> bool) \<Rightarrow> 'a \<Rightarrow> 'a list \<Rightarrow> 'a list" where
  "replace_first p y [] = []"
| "replace_first p y (x # xs) = (if p x then y # xs else x # replace_first p y xs)"

definition applyBehaviorState ::
  "'w mapping_options \<Rightarrow> keypad_mapping \<Rightarrow> keypad_behavior_state \<Rightarrow> (mapping_engine \<times> 'w, unit) eff" where
  "applyBehaviorState opts m nxt = (\<lambda>(en, w).
     let m' = m\<lparr>km_behaviorState := nxt\<rparr>;
         en' = en\<lparr>me_mappings := replace_first (\<lambda>x. km_id x = km_id m) m' (me_mappings en)\<rparr>
     in case mo_persist opts of
          None \<Rightarrow> (Inr (), (en', w))
        | Some persist \<Rightarrow> (let (r, w') = persist (km_id m) nxt w in (r, (en', w'))))"

definition on_world :: "('w, 'a) eff \<Rightarrow> ('s \<times> 'w, 'a) eff" where
  "on_world f = (\<lambda>(s, w). let (r, w') = f w in (r, (s, w')))"

definition resolveActionsToRun ::
  "'w mapping_options \<Rightarrow> keypad_mapping \<Rightarrow> (mapping_engine \<times> 'w, automation_action list) eff" where
  "resolveActionsToRun opts m =
     (if km_behavior m = Direct then eff_return (km_actions m)
      else if km_behavior m = Cycle then
        (if km_actions m = [] then eff_return []
         else
           (let index = cycleIndex (km_behaviorState m) mod length (km_actions m) in
            eff_bind (applyBehaviorState opts m
                ((km_behaviorState m)\<lparr>cycleIndex := (index + 1) mod length (km_actions m)\<rparr>))
              (\<lambda>_. eff_return [km_actions m ! index])))
      else
        eff_bind (on_world (resolveBehaviorCommand (mo_ex opts) m)) (\<lambda>resolved.
          eff_bind (case rb_next resolved of None \<Rightarrow> eff_return () | Some nxt \<Rightarrow> applyBehaviorState opts m nxt)
            (\<lambda>_. eff_return [AcDevice_command (kt_deviceId (the (km_target m))) (rb_command resolved)])))"

definition push_mapping_run :: "mapping_run \<Rightarrow> mapping_engine \<Rightarrow> mapping_engine" where
  "push_mapping_run r en =
     en\<lparr>me_runs := push_history (me_historyLimit en) r (me_runs en), me_runSeq := Suc (me_runSeq en)\<rparr>"

definition record_mapping_run ::
  "'w mapping_options \<Rightarrow> mapping_run \<Rightarrow> mapping_engine \<times> 'w \<Rightarrow> mapping_engine \<times> 'w" where
  "record_mapping_run opts r = (\<lambda>(en, w).
     (push_mapping_run r en,
      if mr_conditionsPassed r
      then (case ex_onRun (mo_ex opts) of None \<Rightarrow> w | Some f \<Rightarrow> f (mr_mappingId r) (mr_ok r) w)
      else w))"

text \<open>The actions of a firing whose conditions passed: what was attempted, and the error of a failed
  resolution.\<close>

definition attempt_actions ::
  "'w mapping_options \<Rightarrow> keypad_mapping \<Rightarrow> mapping_engine \<times> 'w \<Rightarrow>
   (automation_run_action list \<times> string option) \<times> (mapping_engine \<times> 'w)" where
  "attempt_actions opts m s =
     (case resolveActionsToRun opts m s of
        (Inl e, s') \<Rightarrow> (([], Some (error_message e)), s')
      | (Inr acts, (en, w)) \<Rightarrow>
          (let (rs, w') = run_actions (mo_ex opts) acts w in ((rs, actions_error rs), (en, w'))))"

definition execute_mapping ::
  "'w mapping_options \<Rightarrow> keypad_mapping \<Rightarrow> bool \<Rightarrow> (mapping_engine \<times> 'w, mapping_run) eff" where
  "execute_mapping opts m skipConditions = (\<lambda>(en, w0).
     let (started, w1) = ex_date (mo_ex opts) w0;
         (t0, w2) = ex_now (mo_ex opts) w1
     in case (if skipConditions then (Inr None, w2)
              else evaluateConditions (mo_ex opts) (km_conditions m) started w2) of
          (Inl e, w3) \<Rightarrow> (Inl e, (en, w3))
        | (Inr failed, w3) \<Rightarrow>
            (let passed = (failed = None);
                 ((acts, err), (en1, w4)) = (if passed then attempt_actions opts m (en, w3) else (([], None), (en, w3)));
                 (t1, w5) = ex_now (mo_ex opts) w4;
                 r = \<lparr>mr_id = (getTime started, me_runSeq en1), mr_mappingId = km_id m,
                      mr_startedAt = getTime started, mr_conditionsPassed = passed, mr_failedCondition = failed,
                      mr_actions = acts, mr_durationMs = t1 - t0, mr_ok = (passed \<and> err = None),
                      mr_error = truthy err\<rparr>
             in (Inr r, record_mapping_run opts r (en1, w5))))"

definition mapping_matches :: "keypad_input_event \<Rightarrow> keypad_mapping \<Rightarrow> bool" where
  "mapping_matches ev m \<longleftrightarrow>
     ki_keypadId (km_input m) = ke_keypadId ev \<and> ki_control (km_input m) = ke_control ev \<and>
     ki_event (km_input m) = event_kind (ke_type ev)"

text \<open>
  One matching mapping: the firing is chained onto the promise in flight. A rejected one rejects the
  new promise with the same error, without an execution; a rejection leaves the handler before the
  entry is deleted.
\<close>

definition fire_mapping ::
  "'w mapping_options \<Rightarrow> keypad_input_event \<Rightarrow> keypad_mapping \<Rightarrow> (mapping_engine \<times> 'w, unit) eff" where
  "fire_mapping opts ev m = (\<lambda>(en, w).
     case jget (me_inFlight en) (km_id m) of
       Some e \<Rightarrow> (Inl e, (en\<lparr>me_inFlight := jset (km_id m) e (me_inFlight en)\<rparr>, w))
     | None \<Rightarrow>
         (case execute_mapping opts m False (en, w) of
            (Inl e, (en', w')) \<Rightarrow> (Inl e, (en'\<lparr>me_inFlight := jset (km_id m) e (me_inFlight en')\<rparr>, w'))
          | (Inr r, (en', w')) \<Rightarrow>
              (Inr (), (en', case mo_onFire opts of None \<Rightarrow> w' | Some f \<Rightarrow> f ev m r w'))))"

fun fire_matching ::
  "'w mapping_options \<Rightarrow> keypad_input_event \<Rightarrow> keypad_mapping list \<Rightarrow> (mapping_engine \<times> 'w, unit) eff" where
  "fire_matching opts ev [] = eff_return ()"
| "fire_matching opts ev (m # ms) =
     (if mapping_matches ev m
      then eff_bind (fire_mapping opts ev m) (\<lambda>_. fire_matching opts ev ms)
      else fire_matching opts ev ms)"

definition onInputEvent :: "'w mapping_options \<Rightarrow> keypad_input_event \<Rightarrow> (mapping_engine \<times> 'w, unit) eff" where
  "onInputEvent opts ev = (\<lambda>s. fire_matching opts ev (me_mappings (fst s)) s)"

definition run_mapping :: "'w mapping_options \<Rightarrow> keypad_mapping \<Rightarrow> (mapping_engine \<times> 'w, unit) eff" where
  "run_mapping opts m = eff_bind (execute_mapping opts m True) (\<lambda>_. eff_return ())"

section \<open>The history\<close>

interpretation kme: run_history me_runs me_historyLimit push_mapping_run
  by unfold_locales (simp_all add: push_mapping_run_def)

lemma record_mapping_run_fst [simp]: "fst (record_mapping_run opts r s) = push_mapping_run r (fst s)"
  by (simp add: record_mapping_run_def split: prod.splits)

lemma replace_first_id:
  "find p xs = Some x \<Longrightarrow> p y \<Longrightarrow> find p (replace_first p y xs) = Some y"
  by (induction xs) auto

lemma length_replace_first [simp]: "length (replace_first p y xs) = length xs"
  by (induction xs) auto

text \<open>What resolving may change: the mapping's own entry, nothing else of the engine.\<close>

definition same_history :: "mapping_engine \<Rightarrow> mapping_engine \<Rightarrow> bool" where
  "same_history en en' \<longleftrightarrow>
     me_runs en' = me_runs en \<and> me_inFlight en' = me_inFlight en \<and>
     me_historyLimit en' = me_historyLimit en \<and> me_runSeq en' = me_runSeq en"

lemma same_history_refl [simp]: "same_history en en"
  by (simp add: same_history_def)

lemma applyBehaviorState_frame:
  "applyBehaviorState opts m nxt (en, w) = (r, (en', w')) \<Longrightarrow>
   same_history en en' \<and>
   me_mappings en' = replace_first (\<lambda>x. km_id x = km_id m) (m\<lparr>km_behaviorState := nxt\<rparr>) (me_mappings en)"
  by (auto simp: applyBehaviorState_def same_history_def Let_def split: option.splits prod.splits)

lemma on_world_frame: "on_world f (s, w) = (r, (s', w')) \<longleftrightarrow> f w = (r, w') \<and> s' = s"
  by (auto simp: on_world_def Let_def split: prod.splits)

lemma resolveActionsToRun_frame:
  assumes "resolveActionsToRun opts m (en, w) = (r, (en', w'))"
  shows "same_history en en'"
  using assms
  by (auto simp: resolveActionsToRun_def eff_bind_def Let_def on_world_frame
      dest!: applyBehaviorState_frame split: if_splits prod.splits sum.splits option.splits)


section \<open>One execution\<close>

lemma actions_error_None: "(\<And>r. r \<in> set rs \<Longrightarrow> \<not> ra_ok r \<Longrightarrow> ra_error r \<noteq> None) \<Longrightarrow>
   actions_error rs = None \<longleftrightarrow> list_all ra_ok rs"
proof (cases "filter (\<lambda>r. \<not> ra_ok r) rs")
  case (Cons r xs)
  assume e: "\<And>r. r \<in> set rs \<Longrightarrow> \<not> ra_ok r \<Longrightarrow> ra_error r \<noteq> None"
  have "r \<in> set (filter (\<lambda>r. \<not> ra_ok r) rs)" by (simp add: Cons)
  then have "r \<in> set rs" "\<not> ra_ok r" by simp_all
  with e [of r] Cons show ?thesis by (auto simp: actions_error_def list_all_iff)
qed (auto simp: actions_error_def filter_empty_conv list_all_iff)

lemma traced_action_error:
  "ra_error (fst (traced_action ex act w)) = None \<longleftrightarrow> ra_ok (fst (traced_action ex act w))"
  by (simp add: traced_action_def Let_def split: prod.split sum.split)

lemma run_actions_errors:
  "run_actions ex acts w = (rs, w') \<Longrightarrow> \<forall>r\<in>set rs. \<not> ra_ok r \<longrightarrow> ra_error r \<noteq> None"
proof (induction acts arbitrary: w rs w')
  case (Cons act acts)
  obtain r w1 where t: "traced_action ex act w = (r, w1)" by fastforce
  then have "\<not> ra_ok r \<longrightarrow> ra_error r \<noteq> None"
    using traced_action_error [of ex act w] by simp
  moreover obtain rs1 w2 where r1: "run_actions ex acts w1 = (rs1, w2)" by fastforce
  ultimately show ?case using Cons.prems t r1 Cons.IH [OF r1] by (cases "ra_ok r") auto
qed simp

text \<open>The outcome of an attempt: its entries are a prefix of the resolved actions.\<close>

lemma attempt_actions_cases:
  assumes "attempt_actions opts m (en, w) = ((rs, err), (en', w'))"
  obtains
    (unresolved) e w1 where "resolveActionsToRun opts m (en, w) = (Inl e, (en', w1))" "rs = []"
      "err = Some (error_message e)"
  | (attempted) acts w1 where "resolveActionsToRun opts m (en, w) = (Inr acts, (en', w1))"
      "run_actions (mo_ex opts) acts w1 = (rs, w')" "err = None \<longleftrightarrow> list_all ra_ok rs"
proof -
  obtain res en1 w1 where r: "resolveActionsToRun opts m (en, w) = (res, (en1, w1))"
    using prod.exhaust by metis
  show thesis
  proof (cases res)
    case (Inl e)
    with assms r unresolved show thesis by (auto simp: attempt_actions_def)
  next
    case (Inr acts)
    obtain rs1 w2 where a: "run_actions (mo_ex opts) acts w1 = (rs1, w2)" by fastforce
    with assms r Inr have eq: "rs = rs1" "err = actions_error rs1" "en' = en1" "w' = w2"
      by (auto simp: attempt_actions_def Let_def)
    from run_actions_errors [OF a] have "err = None \<longleftrightarrow> list_all ra_ok rs"
      unfolding eq by (intro actions_error_None) blast
    with a r Inr eq attempted show thesis by blast
  qed
qed

lemma resolved_single:
  assumes "resolveActionsToRun opts m s = (Inr acts, s')" "km_behavior m \<noteq> Direct"
  shows "length acts \<le> 1"
  using assms
  by (auto simp: resolveActionsToRun_def eff_bind_eq_Inr Let_def split: if_splits prod.splits)

lemma run_actions_length: "run_actions ex acts w = (rs, w') \<Longrightarrow> length rs \<le> length acts"
  by (rule run_actions_trace(3))

text \<open>An execution of a keypad mapping either rethrows the error of a condition read and records nothing, or
  records exactly one trace and returns it. The trace is ok exactly when the conditions passed and every resolved action
  succeeded; a mapping that is not direct attempts at most one action, and a behaviour that cannot be
  resolved is recorded as a failed run without any.\<close>

theorem execute_mapping_records:
  assumes "execute_mapping opts m skip (en, w) = (res, (en', w'))"
  shows "(\<exists>e. res = Inl e \<and> en' = en \<and> \<not> skip) \<or>
    (\<exists>r en1. res = Inr r \<and> en' = push_mapping_run r en1 \<and> same_history en en1 \<and> mr_mappingId r = km_id m \<and>
       mr_conditionsPassed r = (mr_failedCondition r = None) \<and>
       (mr_ok r \<or> mr_failedCondition r \<noteq> None \<or> mr_actions r = [] \<or> \<not> ra_ok (last (mr_actions r))) \<and>
       list_all ra_ok (butlast (mr_actions r)) \<and>
       (\<not> mr_ok r \<or> list_all ra_ok (mr_actions r)) \<and>
       (km_behavior m = Direct \<or> length (mr_actions r) \<le> 1))"
proof -
  obtain started w1 where d: "ex_date (mo_ex opts) w = (started, w1)" by fastforce
  obtain t0 w2 where n: "ex_now (mo_ex opts) w1 = (t0, w2)" by fastforce
  obtain c w3 where c: "(if skip then (Inr None, w2)
      else evaluateConditions (mo_ex opts) (km_conditions m) started w2) = (c, w3)" by fastforce
  show ?thesis
  proof (cases c)
    case (Inl e)
    with assms d n c have "res = Inl e \<and> en' = en" by (simp add: execute_mapping_def)
    moreover from Inl c have "\<not> skip" by auto
    ultimately show ?thesis by blast
  next
    case (Inr failed)
    obtain acts err en1 w4 where a: "(if failed = None then attempt_actions opts m (en, w3)
        else (([], None), (en, w3))) = ((acts, err), (en1, w4))" by (metis surj_pair)
    obtain t1 w5 where n1: "ex_now (mo_ex opts) w4 = (t1, w5)" by fastforce
    have trace: "same_history en en1 \<and> list_all ra_ok (butlast acts) \<and>
        (err \<noteq> None \<or> list_all ra_ok acts) \<and> (err = None \<or> acts = [] \<or> \<not> ra_ok (last acts)) \<and>
        (km_behavior m = Direct \<or> length acts \<le> 1)"
    proof (cases failed)
      case None
      with a have "attempt_actions opts m (en, w3) = ((acts, err), (en1, w4))" by simp
      then show ?thesis
      proof (cases rule: attempt_actions_cases)
        case (unresolved e w1)
        then show ?thesis using resolveActionsToRun_frame [OF unresolved(1)] by simp
      next
        case (attempted as w1)
        show ?thesis
          using resolveActionsToRun_frame [OF attempted(1)] attempted(3) resolved_single [OF attempted(1)]
            run_actions_trace(2) [OF attempted(2)] run_actions_failed [OF attempted(2)]
            run_actions_length [OF attempted(2)] by fastforce
      qed
    qed (use a in auto)
    have "\<exists>r. res = Inr r \<and> en' = push_mapping_run r en1 \<and> mr_mappingId r = km_id m \<and>
        mr_conditionsPassed r = (failed = None) \<and> mr_failedCondition r = failed \<and> mr_actions r = acts \<and>
        mr_ok r = (failed = None \<and> err = None)"
      using assms d n c Inr a n1
      by (auto simp: execute_mapping_def record_mapping_run_def Let_def split: prod.splits)
    with trace show ?thesis by auto
  qed
qed

section \<open>Cycling\<close>

text \<open>The actions that firings of the loaded mapping \<open>mid\<close> resolve to, one after the other.\<close>

fun resolve_times ::
  "'w mapping_options \<Rightarrow> nat \<Rightarrow> keypad_mapping_id \<Rightarrow> mapping_engine \<times> 'w \<Rightarrow> automation_action list" where
  "resolve_times opts 0 mid s = []"
| "resolve_times opts (Suc n) mid s =
     (case find (\<lambda>m. km_id m = mid) (me_mappings (fst s)) of
        None \<Rightarrow> []
      | Some m \<Rightarrow>
          (case resolveActionsToRun opts m s of
             (Inl e, s') \<Rightarrow> resolve_times opts n mid s'
           | (Inr acts, s') \<Rightarrow> acts @ resolve_times opts n mid s'))"

definition persist_total :: "'w mapping_options \<Rightarrow> bool" where
  "persist_total opts \<longleftrightarrow>
     (\<forall>f. mo_persist opts = Some f \<longrightarrow> (\<forall>i st w. \<exists>w'. f i st w = (Inr (), w')))"

lemma applyBehaviorState_total:
  assumes "persist_total opts"
  shows "\<exists>w'. applyBehaviorState opts m nxt (en, w) =
    (Inr (), (en\<lparr>me_mappings := replace_first (\<lambda>x. km_id x = km_id m) (m\<lparr>km_behaviorState := nxt\<rparr>)
                (me_mappings en)\<rparr>, w'))"
proof (cases "mo_persist opts")
  case (Some f)
  with assms obtain w' where "f (km_id m) nxt w = (Inr (), w')" unfolding persist_total_def by blast
  with Some show ?thesis by (simp add: applyBehaviorState_def)
qed (simp add: applyBehaviorState_def)

text \<open>A cycle mapping walks its actions round robin, one per firing and starting from its stored index,
  as long as the memory it leaves can be persisted.\<close>

theorem cycle_round_robin:
  assumes "persist_total opts" "km_behavior m = Cycle" "km_actions m \<noteq> []"
    and "find (\<lambda>x. km_id x = km_id m) (me_mappings en) = Some m"
  shows "resolve_times opts n (km_id m) (en, w) =
    map (\<lambda>i. km_actions m ! ((cycleIndex (km_behaviorState m) + i) mod length (km_actions m))) [0..<n]"
  using assms(2-4)
proof (induction n arbitrary: m en w)
  case (Suc n)
  let ?len = "length (km_actions m)"
  let ?i = "cycleIndex (km_behaviorState m) mod ?len"
  let ?m = "m\<lparr>km_behaviorState := (km_behaviorState m)\<lparr>cycleIndex := (?i + 1) mod ?len\<rparr>\<rparr>"
  let ?en = "en\<lparr>me_mappings := replace_first (\<lambda>x. km_id x = km_id m) ?m (me_mappings en)\<rparr>"
  obtain w' where w': "applyBehaviorState opts m ((km_behaviorState m)\<lparr>cycleIndex := (?i + 1) mod ?len\<rparr>) (en, w) =
      (Inr (), (?en, w'))"
    using applyBehaviorState_total [OF assms(1)] by blast
  have one: "resolveActionsToRun opts m (en, w) = (Inr [km_actions m ! ?i], (?en, w'))"
    using Suc.prems w' by (simp add: resolveActionsToRun_def eff_bind_def Let_def)
  have "find (\<lambda>x. km_id x = km_id ?m) (me_mappings ?en) = Some ?m"
    using replace_first_id [OF Suc.prems(3), of ?m] by simp
  from Suc.IH [of ?m ?en w', OF _ _ this] Suc.prems
  have "resolve_times opts n (km_id m) (?en, w') =
      map (\<lambda>i. km_actions m ! (((?i + 1) mod ?len + i) mod ?len)) [0..<n]" by simp
  also have "\<dots> = map (\<lambda>i. km_actions m ! ((cycleIndex (km_behaviorState m) + Suc i) mod ?len)) [0..<n]"
    by (simp add: mod_simps)
  finally show ?case
    using Suc.prems one by (simp add: upt_conv_Cons map_Suc_upt [symmetric] del: upt_Suc)
qed simp

section \<open>Rejected firings\<close>

lemma fire_matching_first:
  "filter (mapping_matches ev) ms = m # rest \<Longrightarrow>
   fire_matching opts ev ms s = eff_bind (fire_mapping opts ev m) (\<lambda>_. fire_matching opts ev rest) s \<or>
   (\<exists>ms'. fire_matching opts ev ms s = eff_bind (fire_mapping opts ev m) (\<lambda>_. fire_matching opts ev ms') s)"
  by (induction ms) auto

lemma fire_mapping_rejected:
  "jget (me_inFlight en) (km_id m) = Some e \<Longrightarrow>
   fire_mapping opts ev m (en, w) = (Inl e, (en\<lparr>me_inFlight := jset (km_id m) e (me_inFlight en)\<rparr>, w))"
  by (simp add: fire_mapping_def)

text \<open>Whatever happens to an engine: any event, an edit of the mappings, a manual test run, and anything in the world around it.\<close>

inductive mapping_step :: "mapping_engine \<times> 'w \<Rightarrow> mapping_engine \<times> 'w \<Rightarrow> bool" where
  event: "mapping_step s (snd (onInputEvent opts ev s))"
| edit: "mapping_step (en, w) (setMappings ms en, w)"
| test_run: "mapping_step s (snd (run_mapping opts m s))"
| world: "mapping_step (en, w) (en, w')"

lemma execute_mapping_inFlight: "me_inFlight (fst (snd (execute_mapping opts m skip s))) = me_inFlight (fst s)"
proof -
  obtain en w where s: "s = (en, w)" by fastforce
  obtain res en' w' where x: "execute_mapping opts m skip (en, w) = (res, (en', w'))" by (metis prod_cases3)
  from execute_mapping_records [OF x] show ?thesis
    by (auto simp: s x push_mapping_run_def same_history_def)
qed

lemma fire_mapping_inFlight:
  assumes "jget (me_inFlight (fst s)) i = Some e"
  shows "jget (me_inFlight (fst (snd (fire_mapping opts ev m s)))) i = Some e"
proof -
  obtain en w where s: "s = (en, w)" by fastforce
  obtain res en' w' where x: "execute_mapping opts m False (en, w) = (res, (en', w'))" by (metis prod_cases3)
  have "me_inFlight en' = me_inFlight en" using execute_mapping_inFlight [of opts m False "(en, w)"] x by simp
  with assms show ?thesis
    by (cases "jget (me_inFlight en) (km_id m)"; cases res) (auto simp: s fire_mapping_def x)
qed

lemma fire_matching_inFlight:
  "jget (me_inFlight (fst s)) i = Some e \<Longrightarrow> jget (me_inFlight (fst (snd (fire_matching opts ev ms s)))) i = Some e"
proof (induction ms arbitrary: s)
  case (Cons m ms)
  obtain res s1 where f: "fire_mapping opts ev m s = (res, s1)" by (metis prod.exhaust)
  with fire_mapping_inFlight [OF Cons.prems, of opts ev m] have "jget (me_inFlight (fst s1)) i = Some e" by simp
  from this Cons.IH [OF this] Cons.IH [OF Cons.prems] f show ?case by (cases res) (simp_all add: eff_bind_def)
qed (simp add: eff_return_def)

lemma mapping_step_inFlight:
  assumes "mapping_step s s'" "jget (me_inFlight (fst s)) i = Some e"
  shows "jget (me_inFlight (fst s')) i = Some e"
  using assms
proof cases
  case (test_run opts m)
  have "fst (snd (run_mapping opts m s)) = fst (snd (execute_mapping opts m True s))"
    by (simp add: run_mapping_def eff_bind_def eff_return_def split: prod.split sum.split)
  with test_run assms(2) execute_mapping_inFlight [of opts m True s] show ?thesis by simp
qed (use assms(2) in \<open>auto simp: onInputEvent_def setMappings_def intro: fire_matching_inFlight\<close>)

text \<open>C35: When a condition read of a mapping throws, the event handler rejects and leaves the rejected promise in flight, and
  the mapping is dead: after whatever follows (any events, edits of the mappings, manual test runs, changes in the world), every event
  whose first matching mapping has this one's id, at any time and edited or not, is rejected with that same error, executes nothing,
  records nothing and leaves the world alone, whatever the reads would now say.\<close>

theorem rejected_mapping_never_fires_again:
  fixes w :: 'w
  assumes "filter (mapping_matches ev) (me_mappings en) = m # rest"
    and "jget (me_inFlight en) (km_id m) = None"
    and "execute_mapping opts m False (en, w) = (Inl e, (en1, w1))"
  shows "\<exists>en2. onInputEvent opts ev (en, w) = (Inl e, (en2, w1)) \<and> me_runs en2 = me_runs en \<and>
    (\<forall>en3 w3 opts' ev' m' rest'. mapping_step\<^sup>*\<^sup>* (en2, w1) (en3, w3) \<and>
        filter (mapping_matches ev') (me_mappings en3) = m' # rest' \<and> km_id m' = km_id m \<longrightarrow>
      (\<exists>en4. onInputEvent opts' ev' (en3, w3) = (Inl e, (en4, w3)) \<and> me_runs en4 = me_runs en3 \<and> me_mappings en4 = me_mappings en3))"
proof -
  have en1: "en1 = en" using execute_mapping_records [OF assms(3)] by blast
  let ?en2 = "en\<lparr>me_inFlight := jset (km_id m) e (me_inFlight en)\<rparr>"
  have "fire_mapping opts ev m (en, w) = (Inl e, (?en2, w1))"
    using assms(2,3) en1 by (simp add: fire_mapping_def)
  then have one: "onInputEvent opts ev (en, w) = (Inl e, (?en2, w1))"
    using fire_matching_first [OF assms(1), of opts "(en, w)"] by (auto simp: onInputEvent_def eff_bind_def)
  have "\<exists>en4. onInputEvent opts' ev' (en3, w3) = (Inl e, (en4, w3)) \<and> me_runs en4 = me_runs en3 \<and> me_mappings en4 = me_mappings en3"
    if steps: "mapping_step\<^sup>*\<^sup>* (?en2, w1) (en3, w3)"
      and m': "filter (mapping_matches ev') (me_mappings en3) = m' # rest'" "km_id m' = km_id m" for en3 w3 opts' ev' m' rest'
  proof -
    have "jget (me_inFlight (fst (en3, w3))) (km_id m) = Some e"
      using steps by (induction rule: rtranclp_induct) (auto intro: mapping_step_inFlight)
    then have "fire_mapping opts' ev' m' (en3, w3) =
        (Inl e, (en3\<lparr>me_inFlight := jset (km_id m') e (me_inFlight en3)\<rparr>, w3))"
      using m'(2) by (intro fire_mapping_rejected) simp
    with fire_matching_first [OF m'(1), of opts' "(en3, w3)"] show ?thesis by (auto simp: onInputEvent_def eff_bind_def)
  qed
  with one show ?thesis by (intro exI [of _ ?en2] conjI) auto
qed


section \<open>A concrete engine\<close>

definition demo_options :: "nat mapping_options" where
  "demo_options = \<lparr>mo_ex = demo_executors, mo_persist = None, mo_onFire = None\<rparr>"

text \<open>Executors whose state reads are refused.\<close>

definition failing_options :: "nat mapping_options" where
  "failing_options = demo_options\<lparr>mo_ex := demo_executors\<lparr>ex_getState :=
     (\<lambda>d k n. (Inl (SupremeError Backend_unavailable ''gone''), n))\<rparr>\<rparr>"

definition guarded_mapping :: keypad_mapping where
  "guarded_mapping = (demo_mapping Direct)\<lparr>km_conditions :=
     [CoDevice_state ''lamp'' CkOnoff ''on'' Eq (JBool True)]\<rparr>"

definition demo_press :: keypad_input_event where
  "demo_press = \<lparr>ke_type = Short_press, ke_keypadId = ''kp1'', ke_control = ''1'', ke_ts = 0\<rparr>"

abbreviation mapping_engine_of :: "keypad_mapping \<Rightarrow> mapping_engine" where
  "mapping_engine_of m \<equiv> setMappings [m] (new_mapping_engine None)"

lemma execute_mapping_records_witness:
  "\<exists>r en1. fst (execute_mapping demo_options (demo_mapping Cycle) True (mapping_engine_of (demo_mapping Cycle), 0)) = Inr r \<and>
     fst (snd (execute_mapping demo_options (demo_mapping Cycle) True (mapping_engine_of (demo_mapping Cycle), 0))) =
       push_mapping_run r en1 \<and> length (mr_actions r) \<le> 1"
proof -
  let ?x = "execute_mapping demo_options (demo_mapping Cycle) True (mapping_engine_of (demo_mapping Cycle), 0)"
  have "?x = (fst ?x, (fst (snd ?x), snd (snd ?x)))" by simp
  from execute_mapping_records [OF this] show ?thesis by (auto simp: demo_mapping_def)
qed

lemma cycle_round_robin_witness:
  "resolve_times demo_options 5 ''m1'' (mapping_engine_of (demo_mapping Cycle), 0) =
     map AcScene_activate [''s1'', ''s2'', ''s3'', ''s1'', ''s2'']"
proof -
  have "find (\<lambda>x. km_id x = km_id (demo_mapping Cycle)) (me_mappings (mapping_engine_of (demo_mapping Cycle))) =
      Some (demo_mapping Cycle)" "persist_total demo_options"
    by (simp_all add: setMappings_def demo_mapping_def persist_total_def demo_options_def)
  note walk = cycle_round_robin [OF this(2) _ _ this(1), of 5 0]
  have five: "[0..<5] = [0, 1, 2, 3, 4 :: nat]" by code_simp
  have fields: "km_behavior (demo_mapping Cycle) = Cycle" "km_id (demo_mapping Cycle) = ''m1''"
    "km_actions (demo_mapping Cycle) = map AcScene_activate [''s1'', ''s2'', ''s3'']"
    "cycleIndex (km_behaviorState (demo_mapping Cycle)) = 0" by (simp_all add: demo_mapping_def)
  show ?thesis using walk [unfolded fields five] by simp
qed

lemma rejected_mapping_never_fires_again_witness:
  "\<exists>en2. onInputEvent failing_options demo_press (mapping_engine_of guarded_mapping, 0) =
      (Inl (SupremeError Backend_unavailable ''gone''), (en2, 0)) \<and>
    (\<exists>en3. onInputEvent demo_options (demo_press\<lparr>ke_ts := 9\<rparr>) (setMappings [guarded_mapping\<lparr>km_name := ''edited''\<rparr>] en2, 0) =
      (Inl (SupremeError Backend_unavailable ''gone''), (en3, 0)) \<and> me_runs en3 = [])"
proof -
  let ?en = "mapping_engine_of guarded_mapping"
  have one: "filter (mapping_matches demo_press) (me_mappings ?en) = [guarded_mapping]"
    by (simp add: setMappings_def mapping_matches_def guarded_mapping_def demo_mapping_def demo_press_def)
  have two: "jget (me_inFlight ?en) (km_id guarded_mapping) = None"
    by (simp add: setMappings_def new_mapping_engine_def)
  have three: "execute_mapping failing_options guarded_mapping False (?en, 0) =
      (Inl (SupremeError Backend_unavailable ''gone''), (?en, 0))"
    by (simp add: execute_mapping_def failing_options_def guarded_mapping_def demo_executors_def eff_bind_def)
  from rejected_mapping_never_fires_again [OF one two three] obtain en2 where en2: "onInputEvent failing_options demo_press (?en, 0) =
      (Inl (SupremeError Backend_unavailable ''gone''), (en2, 0))" "me_runs en2 = me_runs ?en"
    and later: "\<forall>en3 w3 opts' ev' m' rest'. mapping_step\<^sup>*\<^sup>* (en2, 0 :: nat) (en3, w3) \<and>
        filter (mapping_matches ev') (me_mappings en3) = m' # rest' \<and> km_id m' = km_id guarded_mapping \<longrightarrow>
      (\<exists>en4. onInputEvent opts' ev' (en3, w3) = (Inl (SupremeError Backend_unavailable ''gone''), (en4, w3)) \<and>
        me_runs en4 = me_runs en3 \<and> me_mappings en4 = me_mappings en3)"
    by blast
  let ?m' = "guarded_mapping\<lparr>km_name := ''edited''\<rparr>"
  have "mapping_step\<^sup>*\<^sup>* (en2, 0) (setMappings [?m'] en2, 0 :: nat)"
    by (rule r_into_rtranclp) (rule mapping_step.edit)
  moreover have "filter (mapping_matches (demo_press\<lparr>ke_ts := 9\<rparr>)) (me_mappings (setMappings [?m'] en2)) = [?m']"
    by (simp add: setMappings_def mapping_matches_def guarded_mapping_def demo_mapping_def demo_press_def)
  moreover have "km_id ?m' = km_id guarded_mapping" by simp
  ultimately obtain en3 where "onInputEvent demo_options (demo_press\<lparr>ke_ts := 9\<rparr>) (setMappings [?m'] en2, 0) =
      (Inl (SupremeError Backend_unavailable ''gone''), (en3, 0))" "me_runs en3 = me_runs (setMappings [?m'] en2)"
    using later by blast
  moreover have "me_runs (setMappings [?m'] en2) = []" using en2(2) by (simp add: setMappings_def new_mapping_engine_def)
  ultimately show ?thesis using en2(1) by auto
qed

end
