(* ===== verification/Firing_Chain.thy ===== *)
theory Firing_Chain
  imports Keypad_Mapping
begin

text \<open>
  Overlapping firings of the keypad mapping engine (\<^verbatim>\<open>onInputEvent\<close> of
  \<^verbatim>\<open>services/keypad-framework/src/mapping-engine.ts\<close>). Every firing is a promise chained onto the one
  \<^verbatim>\<open>inFlight\<close> holds for its mapping; the handlers interleave at every \<^verbatim>\<open>await\<close>, so arriving,
  starting, settling and the clean-up after the await are separate steps.
\<close>

datatype firing_status = Queued | Running | Fulfilled | Rejected

text \<open>Firings are numbered by their arrival. \<open>fi_prior\<close> is the promise a firing is chained onto.\<close>

record firing =
  fi_mapping :: keypad_mapping_id
  fi_prior :: "nat option"
  fi_status :: firing_status

record chain =
  ch_firings :: "firing list"
  ch_inFlight :: "(keypad_mapping_id, nat) jsmap"

definition new_chain :: chain where
  "new_chain = \<lparr>ch_firings = [], ch_inFlight = []\<rparr>"

definition chain_arrive :: "keypad_mapping_id \<Rightarrow> chain \<Rightarrow> chain" where
  "chain_arrive m c =
     c\<lparr>ch_firings := ch_firings c @ [\<lparr>fi_mapping = m, fi_prior = jget (ch_inFlight c) m, fi_status = Queued\<rparr>],
       ch_inFlight := jset m (length (ch_firings c)) (ch_inFlight c)\<rparr>"

definition set_status :: "nat \<Rightarrow> firing_status \<Rightarrow> chain \<Rightarrow> chain" where
  "set_status i st c = c\<lparr>ch_firings := (ch_firings c)[i := (ch_firings c ! i)\<lparr>fi_status := st\<rparr>]\<rparr>"

definition chain_cleanup :: "nat \<Rightarrow> chain \<Rightarrow> chain" where
  "chain_cleanup i c =
     (let m = fi_mapping (ch_firings c ! i)
      in if jget (ch_inFlight c) m = Some i then c\<lparr>ch_inFlight := jdel m (ch_inFlight c)\<rparr> else c)"

definition status_of :: "chain \<Rightarrow> nat \<Rightarrow> firing_status" where
  "status_of c i = fi_status (ch_firings c ! i)"

text \<open>A firing starts when the promise it is chained onto is fulfilled (there may be none), is rejected
  without running when that one is rejected, and settles either way once it runs. Only a fulfilled one
  reaches the clean-up.\<close>

inductive chain_step :: "chain \<Rightarrow> chain \<Rightarrow> bool" where
  arrive: "chain_step c (chain_arrive m c)"
| start: "i < length (ch_firings c) \<Longrightarrow> status_of c i = Queued \<Longrightarrow>
    (case fi_prior (ch_firings c ! i) of None \<Rightarrow> True | Some p \<Rightarrow> status_of c p = Fulfilled) \<Longrightarrow>
    chain_step c (set_status i Running c)"
| reject: "i < length (ch_firings c) \<Longrightarrow> status_of c i = Queued \<Longrightarrow>
    fi_prior (ch_firings c ! i) = Some p \<Longrightarrow> status_of c p = Rejected \<Longrightarrow>
    chain_step c (set_status i Rejected c)"
| settle: "i < length (ch_firings c) \<Longrightarrow> status_of c i = Running \<Longrightarrow> st = Fulfilled \<or> st = Rejected \<Longrightarrow>
    chain_step c (set_status i st c)"
| cleanup: "i < length (ch_firings c) \<Longrightarrow> status_of c i = Fulfilled \<Longrightarrow> chain_step c (chain_cleanup i c)"

inductive_cases chain_stepE: "chain_step c c'"

inductive chain_reachable :: "chain \<Rightarrow> bool" where
  chain_init: "chain_reachable new_chain"
| chain_next: "chain_reachable c \<Longrightarrow> chain_step c c' \<Longrightarrow> chain_reachable c'"

section \<open>The invariant\<close>

definition of_mapping :: "chain \<Rightarrow> keypad_mapping_id \<Rightarrow> nat \<Rightarrow> bool" where
  "of_mapping c m i \<longleftrightarrow> i < length (ch_firings c) \<and> fi_mapping (ch_firings c ! i) = m"

text \<open>
  A firing that runs or is fulfilled has only fulfilled firings of its mapping before it; one without
  a predecessor came after fulfilled firings only, one with a predecessor comes directly after it;
  the firing in flight is the newest of its mapping, and with none in flight all are fulfilled.
\<close>

definition chain_inv :: "chain \<Rightarrow> bool" where
  "chain_inv c \<longleftrightarrow>
     (\<forall>m i j. of_mapping c m i \<longrightarrow> of_mapping c m j \<longrightarrow> j < i \<longrightarrow>
        (status_of c i = Running \<or> status_of c i = Fulfilled \<or> fi_prior (ch_firings c ! i) = None) \<longrightarrow>
        status_of c j = Fulfilled) \<and>
     (\<forall>m i p. of_mapping c m i \<longrightarrow> fi_prior (ch_firings c ! i) = Some p \<longrightarrow>
        of_mapping c m p \<and> p < i \<and> (\<forall>j. of_mapping c m j \<longrightarrow> j < i \<longrightarrow> j \<le> p)) \<and>
     (\<forall>m i. jget (ch_inFlight c) m = Some i \<longrightarrow> of_mapping c m i \<and> (\<forall>j. of_mapping c m j \<longrightarrow> j \<le> i)) \<and>
     (\<forall>m. jget (ch_inFlight c) m = None \<longrightarrow> (\<forall>j. of_mapping c m j \<longrightarrow> status_of c j = Fulfilled))"

lemma chain_invD:
  assumes "chain_inv c"
  shows "of_mapping c m i \<Longrightarrow> of_mapping c m j \<Longrightarrow> j < i \<Longrightarrow>
      status_of c i = Running \<or> status_of c i = Fulfilled \<or> fi_prior (ch_firings c ! i) = None \<Longrightarrow>
      status_of c j = Fulfilled"
    and "of_mapping c m i \<Longrightarrow> fi_prior (ch_firings c ! i) = Some p \<Longrightarrow>
      of_mapping c m p \<and> p < i \<and> (\<forall>j. of_mapping c m j \<longrightarrow> j < i \<longrightarrow> j \<le> p)"
    and "jget (ch_inFlight c) m = Some i \<Longrightarrow> of_mapping c m i \<and> (\<forall>j. of_mapping c m j \<longrightarrow> j \<le> i)"
    and "jget (ch_inFlight c) m = None \<Longrightarrow> of_mapping c m j \<Longrightarrow> status_of c j = Fulfilled"
  using assms unfolding chain_inv_def by blast+

lemma chain_invI:
  assumes "\<And>m i j. of_mapping c m i \<Longrightarrow> of_mapping c m j \<Longrightarrow> j < i \<Longrightarrow>
      status_of c i = Running \<or> status_of c i = Fulfilled \<or> fi_prior (ch_firings c ! i) = None \<Longrightarrow>
      status_of c j = Fulfilled"
    and "\<And>m i p. of_mapping c m i \<Longrightarrow> fi_prior (ch_firings c ! i) = Some p \<Longrightarrow>
      of_mapping c m p \<and> p < i \<and> (\<forall>j. of_mapping c m j \<longrightarrow> j < i \<longrightarrow> j \<le> p)"
    and "\<And>m i. jget (ch_inFlight c) m = Some i \<Longrightarrow> of_mapping c m i \<and> (\<forall>j. of_mapping c m j \<longrightarrow> j \<le> i)"
    and "\<And>m j. jget (ch_inFlight c) m = None \<Longrightarrow> of_mapping c m j \<Longrightarrow> status_of c j = Fulfilled"
  shows "chain_inv c"
  unfolding chain_inv_def
proof (intro conjI, goal_cases)
  case 1
  show ?case using assms(1) by blast
next
  case 2
  show ?case using assms(2) by blast
next
  case 3
  show ?case using assms(3) by blast
next
  case 4
  show ?case using assms(4) by blast
qed

lemma of_mapping_set [simp]: "of_mapping (set_status i st c) m j = of_mapping c m j"
  by (cases "i < length (ch_firings c)"; cases "i = j")
    (auto simp: of_mapping_def set_status_def list_update_beyond)

lemma prior_set [simp]: "fi_prior (ch_firings (set_status i st c) ! j) = fi_prior (ch_firings c ! j)"
  by (cases "i < length (ch_firings c)"; cases "i = j") (auto simp: set_status_def list_update_beyond)

lemma inFlight_set [simp]: "ch_inFlight (set_status i st c) = ch_inFlight c"
  by (simp add: set_status_def)

lemma status_set: "i < length (ch_firings c) \<Longrightarrow>
    status_of (set_status i st c) j = (if j = i then st else status_of c j)"
  by (cases "i = j") (auto simp: status_of_def set_status_def)

lemma of_mapping_arrive:
  "of_mapping (chain_arrive m c) m' j \<longleftrightarrow> of_mapping c m' j \<or> (m' = m \<and> j = length (ch_firings c))"
  by (auto simp: of_mapping_def chain_arrive_def nth_append less_Suc_eq)

lemma arrive_frame:
  "j < length (ch_firings c) \<Longrightarrow> status_of (chain_arrive m c) j = status_of c j"
  "j < length (ch_firings c) \<Longrightarrow> fi_prior (ch_firings (chain_arrive m c) ! j) = fi_prior (ch_firings c ! j)"
  "status_of (chain_arrive m c) (length (ch_firings c)) = Queued"
  "fi_prior (ch_firings (chain_arrive m c) ! length (ch_firings c)) = jget (ch_inFlight c) m"
  "jget (ch_inFlight (chain_arrive m c)) m' = (if m' = m then Some (length (ch_firings c)) else jget (ch_inFlight c) m')"
  by (auto simp: status_of_def chain_arrive_def nth_append)

lemma of_mapping_less: "of_mapping c m j \<Longrightarrow> j < length (ch_firings c)"
  by (simp add: of_mapping_def)

lemma chain_inv_arrive:
  assumes "chain_inv c"
  shows "chain_inv (chain_arrive m c)"
proof -
  note inv = chain_invD [OF assms]
  let ?n = "length (ch_firings c)"
  have less: "of_mapping c m' j \<Longrightarrow> j < ?n" for m' j by (rule of_mapping_less)
  show ?thesis
  proof (rule chain_invI)
    fix m' i j
    assume h: "of_mapping (chain_arrive m c) m' i" "of_mapping (chain_arrive m c) m' j" "j < i"
      "status_of (chain_arrive m c) i = Running \<or> status_of (chain_arrive m c) i = Fulfilled \<or>
       fi_prior (ch_firings (chain_arrive m c) ! i) = None"
    then have "j < ?n" using less [of m' i] by (auto simp: of_mapping_arrive)
    with h have j: "of_mapping c m' j" by (auto simp: of_mapping_arrive)
    show "status_of (chain_arrive m c) j = Fulfilled"
    proof (cases "i = ?n")
      case True
      with h have "m' = m" "jget (ch_inFlight c) m = None" using less by (auto simp: of_mapping_arrive arrive_frame)
      with j inv(4) less show ?thesis by (auto simp: arrive_frame)
    next
      case False
      with h have "of_mapping c m' i" by (auto simp: of_mapping_arrive)
      with h j inv(1) [of m' i j] less [OF this] less [OF j] show ?thesis by (auto simp: arrive_frame)
    qed
  next
    fix m' i p
    assume h: "of_mapping (chain_arrive m c) m' i" "fi_prior (ch_firings (chain_arrive m c) ! i) = Some p"
    show "of_mapping (chain_arrive m c) m' p \<and> p < i \<and>
      (\<forall>j. of_mapping (chain_arrive m c) m' j \<longrightarrow> j < i \<longrightarrow> j \<le> p)"
    proof (cases "i = ?n")
      case True
      with h have "m' = m" "jget (ch_inFlight c) m = Some p" using less by (auto simp: of_mapping_arrive arrive_frame)
      with inv(3) [of m p] less [of m p] True show ?thesis by (auto simp: of_mapping_arrive)
    next
      case False
      with h have i: "of_mapping c m' i" by (auto simp: of_mapping_arrive)
      with h inv(2) [of m' i p] less [OF i] show ?thesis by (auto simp: of_mapping_arrive arrive_frame)
    qed
  next
    fix m' i
    assume "jget (ch_inFlight (chain_arrive m c)) m' = Some i"
    then show "of_mapping (chain_arrive m c) m' i \<and> (\<forall>j. of_mapping (chain_arrive m c) m' j \<longrightarrow> j \<le> i)"
      using inv(3) less by (auto simp: of_mapping_arrive arrive_frame less_imp_le split: if_splits)
  next
    fix m' j
    assume "jget (ch_inFlight (chain_arrive m c)) m' = None" "of_mapping (chain_arrive m c) m' j"
    then show "status_of (chain_arrive m c) j = Fulfilled"
      using inv(4) less by (auto simp: of_mapping_arrive arrive_frame split: if_splits)
  qed
qed

text \<open>Changing a status keeps the invariant when the firing was not fulfilled and, if it now runs or
  is fulfilled, everything of its mapping before it is fulfilled.\<close>

lemma chain_inv_set:
  assumes "chain_inv c" "i < length (ch_firings c)" "status_of c i \<noteq> Fulfilled"
    and "st = Rejected \<or> (\<forall>m j. of_mapping c m i \<longrightarrow> of_mapping c m j \<longrightarrow> j < i \<longrightarrow> status_of c j = Fulfilled)"
  shows "chain_inv (set_status i st c)"
proof -
  note inv = chain_invD [OF assms(1)]
  note st = status_set [OF assms(2)]
  show ?thesis
  proof (rule chain_invI, goal_cases)
    case (1 m i' j)
    then show ?case using inv(1) [of m i' j] assms(3,4) by (auto simp: st split: if_splits)
  next
    case (2 m i' p)
    then show ?case using inv(2) by simp
  next
    case (3 m i')
    then show ?case using inv(3) by simp
  next
    case (4 m j)
    then show ?case using inv(4) assms(3) by (auto simp: st)
  qed
qed

lemma chain_inv_cleanup:
  assumes "chain_inv c" "i < length (ch_firings c)" "status_of c i = Fulfilled"
  shows "chain_inv (chain_cleanup i c)"
proof (cases "jget (ch_inFlight c) (fi_mapping (ch_firings c ! i)) = Some i")
  case True
  note inv = chain_invD [OF assms(1)]
  let ?m = "fi_mapping (ch_firings c ! i)"
  have c: "chain_cleanup i c = c\<lparr>ch_inFlight := jdel ?m (ch_inFlight c)\<rparr>"
    using True by (simp add: chain_cleanup_def)
  have frame: "of_mapping (c\<lparr>ch_inFlight := f\<rparr>) = of_mapping c" "status_of (c\<lparr>ch_inFlight := f\<rparr>) = status_of c" for f
    by (auto simp: of_mapping_def status_of_def fun_eq_iff)
  show ?thesis
    unfolding c
  proof (rule chain_invI, goal_cases)
    case (1 m i' j)
    then show ?case using inv(1) by (auto simp: frame)
  next
    case (2 m i' p)
    then show ?case using inv(2) by (simp add: frame)
  next
    case (3 m i')
    then show ?case using inv(3) by (auto simp: frame split: if_splits)
  next
    case (4 m j)
    show ?case
    proof (cases "m = ?m")
      case m: True
      then have i: "of_mapping c m i" using assms(2) by (simp add: of_mapping_def)
      with 4 inv(3) True m have "j \<le> i" by (auto simp: frame)
      with inv(1) [OF i, of j] 4 assms(3) show ?thesis by (cases "j = i") (auto simp: frame)
    next
      case False
      with 4 inv(4) show ?thesis by (auto simp: frame)
    qed
  qed
next
  case False
  then have "chain_cleanup i c = c" by (simp add: chain_cleanup_def)
  with assms(1) show ?thesis by simp
qed

lemma chain_inv_start:
  assumes "chain_inv c" "of_mapping c m i" "of_mapping c m j" "j < i"
    and "case fi_prior (ch_firings c ! i) of None \<Rightarrow> True | Some p \<Rightarrow> status_of c p = Fulfilled"
  shows "status_of c j = Fulfilled"
proof (cases "fi_prior (ch_firings c ! i)")
  case None
  then show ?thesis using chain_invD(1) [OF assms(1-4)] by simp
next
  case (Some p)
  from chain_invD(2) [OF assms(1,2) Some] have p: "of_mapping c m p" "j \<le> p" using assms(3,4) by blast+
  from chain_invD(1) [OF assms(1) p(1) assms(3)] p(2) assms(5) Some show ?thesis
    by (cases "j = p") auto
qed

lemma chain_step_inv:
  assumes "chain_step c c'" "chain_inv c"
  shows "chain_inv c'"
  using assms(1)
proof cases
  case (start i)
  have "status_of c j = Fulfilled" if "of_mapping c m i" "of_mapping c m j" "j < i" for m j
    by (rule chain_inv_start [OF assms(2) that start(4)])
  then show ?thesis using chain_inv_set [OF assms(2), of i Running] start by auto
next
  case (settle i st)
  have "status_of c j = Fulfilled" if "of_mapping c m i" "of_mapping c m j" "j < i" for m j
    using chain_invD(1) [OF assms(2) that] settle(3) by simp
  then show ?thesis using chain_inv_set [OF assms(2), of i st] settle by auto
next
  case (reject i p)
  then show ?thesis using chain_inv_set [OF assms(2), of i Rejected] by simp
qed (use assms(2) in \<open>simp_all add: chain_inv_arrive chain_inv_cleanup\<close>)

lemma chain_reachable_inv: "chain_reachable c \<Longrightarrow> chain_inv c"
proof (induction rule: chain_reachable.induct)
  case chain_init
  show ?case by (simp add: chain_inv_def new_chain_def of_mapping_def)
next
  case (chain_next c c')
  then show ?case using chain_step_inv by blast
qed

section \<open>Properties\<close>

text \<open>C30: Two firings of one mapping never run at the same time, and they run in the order in which their events arrived:
  when one runs, every earlier firing of its mapping has been fulfilled, however the handlers interleave.\<close>

theorem firings_serialized:
  assumes "chain_reachable c" "i < length (ch_firings c)" "status_of c i = Running" "j < i"
    and "fi_mapping (ch_firings c ! j) = fi_mapping (ch_firings c ! i)"
  shows "status_of c j = Fulfilled"
  using chain_invD(1) [OF chain_reachable_inv [OF assms(1)], of "fi_mapping (ch_firings c ! i)" i j] assms(2-5)
  by (auto simp: of_mapping_def)

lemma firings_serialized_witness:
  "status_of (set_status 1 Running (set_status 0 Fulfilled (set_status 0 Running
     (chain_arrive ''m1'' (chain_arrive ''m1'' new_chain))))) 0 = Fulfilled"
proof (rule firings_serialized [where i = 1])
  let ?a = "chain_arrive ''m1'' (chain_arrive ''m1'' new_chain)"
  let ?b = "set_status 0 Running ?a"
  let ?c = "set_status 0 Fulfilled ?b"
  have a: "chain_reachable ?a" by (intro chain_next [OF _ arrive] chain_init)
  have "chain_step ?a ?b" by (rule start) (code_simp+)
  with a have b: "chain_reachable ?b" by (rule chain_next)
  have "chain_step ?b ?c" by (rule settle) (code_simp, code_simp, simp)
  with b have c: "chain_reachable ?c" by (rule chain_next)
  have "chain_step ?c (set_status 1 Running ?c)" by (rule start) (code_simp+)
  with c show "chain_reachable (set_status 1 Running ?c)" by (rule chain_next)
qed (code_simp+)

end
