(* ===== verification/Ids.thy ===== *)
theory Ids
  imports Prelude
begin

text \<open>
  Supreme identifiers, \<^verbatim>\<open>packages/domain-model/src/ids.ts\<close>: the prefixed ULID generator \<^verbatim>\<open>newId\<close> with its
  per-process memory. The sixteen digits that \<^verbatim>\<open>Math.random\<close> draws are an argument, used only when
  the instant is a new one.
\<close>

datatype id_kind =
    IdHome | IdRoom | IdDevice | IdScene | IdAutomation | IdUser | IdSession | IdGrant | IdDriver
  | IdNotification | IdLicense | IdBackup | IdSample | IdAudit | IdSie | IdKeypadMapping
  | IdKeypadSubscription

fun PREFIXES :: "id_kind \<Rightarrow> string" where
  "PREFIXES IdHome = ''home''"
| "PREFIXES IdRoom = ''room''"
| "PREFIXES IdDevice = ''dev''"
| "PREFIXES IdScene = ''scn''"
| "PREFIXES IdAutomation = ''aut''"
| "PREFIXES IdUser = ''usr''"
| "PREFIXES IdSession = ''ses''"
| "PREFIXES IdGrant = ''grt''"
| "PREFIXES IdDriver = ''drv''"
| "PREFIXES IdNotification = ''ntf''"
| "PREFIXES IdLicense = ''lic''"
| "PREFIXES IdBackup = ''bak''"
| "PREFIXES IdSample = ''smp''"
| "PREFIXES IdAudit = ''aud''"
| "PREFIXES IdSie = ''sie''"
| "PREFIXES IdKeypadMapping = ''kpm''"
| "PREFIXES IdKeypadSubscription = ''kps''"

definition ULID_ALPHABET :: string where
  "ULID_ALPHABET = ''0123456789ABCDEFGHJKMNPQRSTVWXYZ''"

text \<open>\<^verbatim>\<open>idPattern\<close>: the prefix, an underscore and 26 characters of the class \<^verbatim>\<open>[0-9A-HJKMNP-TV-Z]\<close>.\<close>

definition id_char :: "char \<Rightarrow> bool" where
  "id_char c = (let n = (of_char c :: nat) in
     48 \<le> n \<and> n \<le> 57 \<or> 65 \<le> n \<and> n \<le> 72 \<or> n = 74 \<or> n = 75 \<or> n = 77 \<or> n = 78 \<or>
     80 \<le> n \<and> n \<le> 84 \<or> 86 \<le> n \<and> n \<le> 90)"

definition id_matches :: "string \<Rightarrow> string \<Rightarrow> bool" where
  "id_matches pre s \<longleftrightarrow>
     take (length pre + 1) s = pre @ ''_'' \<and> length s = length pre + 27 \<and>
     list_all id_char (drop (length pre + 1) s)"

record id_state =
  lastTs :: int
  lastRand :: "nat list option"

definition fresh_ids :: id_state where
  "fresh_ids = \<lparr>lastTs = -1, lastRand = None\<rparr>"

text \<open>The \<open>k\<close> low digits of \<open>ts\<close> in base 32, most significant first.\<close>

fun time_digits :: "nat \<Rightarrow> nat \<Rightarrow> nat list \<Rightarrow> nat list" where
  "time_digits 0 ts acc = acc"
| "time_digits (Suc k) ts acc = time_digits k (ts div 32) (ts mod 32 # acc)"

text \<open>The carry loop, on the digits from the least significant one.\<close>

fun carry_digits :: "nat list \<Rightarrow> nat list" where
  "carry_digits [] = []"
| "carry_digits (d # ds) = (let d' = (d + 1) mod 32 in if d' \<noteq> 0 then d' # ds else d' # carry_digits ds)"

definition newId :: "id_kind \<Rightarrow> nat \<Rightarrow> nat list \<Rightarrow> id_state \<Rightarrow> string \<times> id_state" where
  "newId kind now rnd st =
     (let timeChars = time_digits 10 now [];
          randDigits = (case lastRand st of
              Some r \<Rightarrow> if int now = lastTs st then rev (carry_digits (rev r)) else rnd
            | None \<Rightarrow> rnd)
      in (PREFIXES kind @ ''_'' @ map (\<lambda>d. ULID_ALPHABET ! d) (timeChars @ randDigits),
          \<lparr>lastTs = int now, lastRand = Some randDigits\<rparr>))"

text \<open>Identifiers of any kinds, one after the other: the clock and the memory are the process's, not the kind's.\<close>

fun mint :: "(id_kind \<times> nat \<times> nat list) list \<Rightarrow> id_state \<Rightarrow> string list" where
  "mint [] st = []"
| "mint ((kind, now, rnd) # reqs) st =
     (let (i, st') = newId kind now rnd st in i # mint reqs st')"

section \<open>Digits\<close>

definition digits_ok :: "nat list \<Rightarrow> bool" where
  "digits_ok ds \<longleftrightarrow> list_all (\<lambda>d. d < 32) ds"

definition val32 :: "nat list \<Rightarrow> nat" where
  "val32 ds = foldl (\<lambda>a d. 32 * a + d) 0 ds"

lemma val32_snoc [simp]: "val32 [] = 0" "val32 (ds @ [d]) = 32 * val32 ds + d"
  by (simp_all add: val32_def)

lemma foldl_val32: "foldl (\<lambda>a d. 32 * a + d) a ds = a * 32 ^ length ds + val32 ds"
proof (induction ds arbitrary: a)
  case (Cons d ds)
  show ?case using Cons.IH [of "32 * a + d"] Cons.IH [of d]
    by (simp add: val32_def algebra_simps)
qed simp

lemma val32_Cons: "val32 (d # ds) = d * 32 ^ length ds + val32 ds"
  using foldl_val32 [of d ds] by (simp add: val32_def)

lemma val32_append: "val32 (xs @ ys) = val32 xs * 32 ^ length ys + val32 ys"
  using foldl_val32 [of "val32 xs" ys] by (simp add: val32_def)

lemma val32_less: "digits_ok ds \<Longrightarrow> val32 ds < 32 ^ length ds"
proof (induction ds)
  case (Cons d ds)
  then have "d * 32 ^ length ds + val32 ds < Suc d * 32 ^ length ds" "Suc d \<le> 32"
    by (simp_all add: digits_ok_def)
  then have "d * 32 ^ length ds + val32 ds < 32 * 32 ^ length ds"
    by (meson less_le_trans mult_le_mono1)
  then show ?case by (simp add: val32_Cons)
qed simp

lemma time_digits_acc: "time_digits k ts acc = time_digits k ts [] @ acc"
proof (induction k arbitrary: ts acc)
  case (Suc k)
  show ?case using Suc.IH [of "ts div 32" "ts mod 32 # acc"] Suc.IH [of "ts div 32" "[ts mod 32]"] by simp
qed simp

lemma time_digits_spec:
  "length (time_digits k ts []) = k \<and> digits_ok (time_digits k ts []) \<and>
   val32 (time_digits k ts []) = ts mod 32 ^ k"
proof (induction k arbitrary: ts)
  case (Suc k)
  have "val32 (time_digits k (ts div 32) [] @ [ts mod 32]) = 32 * (ts div 32 mod 32 ^ k) + ts mod 32"
    using Suc by simp
  also have "\<dots> = ts mod (32 * 32 ^ k)" by (simp add: mod_mult2_eq)
  finally show ?case
    using Suc [of "ts div 32"] time_digits_acc [of k "ts div 32" "[ts mod 32]"] by (simp add: digits_ok_def)
qed (simp add: digits_ok_def)

lemma carry_length [simp]: "length (carry_digits ds) = length ds"
  by (induction ds) (auto simp: Let_def)

lemma carry_ok: "digits_ok ds \<Longrightarrow> digits_ok (carry_digits ds)"
  by (induction ds) (auto simp: digits_ok_def Let_def)

text \<open>The carry loop adds one, modulo the whole range.\<close>

lemma carry_val: "digits_ok ds \<Longrightarrow> val32 (rev (carry_digits ds)) = (val32 (rev ds) + 1) mod 32 ^ length ds"
proof (induction ds)
  case (Cons d ds)
  then have d: "d < 32" and ds: "digits_ok ds" by (simp_all add: digits_ok_def)
  have lt: "val32 (rev ds) < 32 ^ length ds"
    using val32_less [of "rev ds"] ds by (simp add: digits_ok_def)
  show ?case
  proof (cases "d = 31")
    case True
    have "(32 * val32 (rev ds) + d + 1) mod (32 * 32 ^ length ds) = 32 * ((val32 (rev ds) + 1) mod 32 ^ length ds)"
      using True by (simp add: mult_mod_right)
    with True Cons.IH [OF ds] show ?thesis by (simp add: Let_def)
  next
    case False
    then have "32 * val32 (rev ds) + d + 1 < 32 * (val32 (rev ds) + 1)" using d by simp
    also have "\<dots> \<le> 32 * 32 ^ length ds" using lt by simp
    finally show ?thesis using d False by (simp add: Let_def)
  qed
qed simp

section \<open>Order\<close>

definition str_less :: "string \<Rightarrow> string \<Rightarrow> bool" where
  "str_less s t \<longleftrightarrow> ord_class.lexordp (map (of_char :: char \<Rightarrow> nat) s) (map of_char t)"

lemma alphabet_increasing:
  "d < e \<Longrightarrow> e < 32 \<Longrightarrow> (of_char (ULID_ALPHABET ! d) :: nat) < of_char (ULID_ALPHABET ! e)"
proof -
  have "sorted_wrt (<) (map (of_char :: char \<Rightarrow> nat) ULID_ALPHABET)" by code_simp
  moreover have "length ULID_ALPHABET = 32" by (simp add: ULID_ALPHABET_def)
  ultimately show "d < e \<Longrightarrow> e < 32 \<Longrightarrow> ?thesis"
    using sorted_wrt_nth_less [of "(<)" "map (of_char :: char \<Rightarrow> nat) ULID_ALPHABET" d e] by simp
qed

lemma alphabet_id_char: "d < 32 \<Longrightarrow> id_char (ULID_ALPHABET ! d)"
proof -
  have "list_all id_char ULID_ALPHABET" by code_simp
  moreover have "length ULID_ALPHABET = 32" by (simp add: ULID_ALPHABET_def)
  ultimately show "d < 32 \<Longrightarrow> ?thesis" by (simp add: list_all_length)
qed

text \<open>Digit strings of one length compare as the numbers they denote.\<close>

lemma digits_str_less:
  assumes "length ds = length es" "digits_ok ds" "digits_ok es" "val32 ds < val32 es"
  shows "str_less (p @ map (\<lambda>d. ULID_ALPHABET ! d) ds) (p @ map (\<lambda>d. ULID_ALPHABET ! d) es)"
proof -
  have "ord_class.lexordp (map (of_char :: char \<Rightarrow> nat) (map (\<lambda>d. ULID_ALPHABET ! d) ds))
      (map of_char (map (\<lambda>d. ULID_ALPHABET ! d) es))"
    using assms
  proof (induction ds es rule: list_induct2)
    case (Cons d ds e es)
    then have ok: "d < 32" "e < 32" "digits_ok ds" "digits_ok es" by (simp_all add: digits_ok_def)
    consider "d < e" | "d = e" | "e < d" by linarith
    then show ?case
    proof cases
      case 1
      then show ?thesis using alphabet_increasing ok by simp
    next
      case 2
      then show ?thesis using Cons ok by (simp add: val32_Cons)
    next
      case 3
      then have "Suc e * 32 ^ length es \<le> d * 32 ^ length es" by (intro mult_le_mono1) simp
      with val32_less [OF ok(4)] Cons.hyps Cons.prems(3) show ?thesis by (simp add: val32_Cons)
    qed
  qed simp
  moreover have "ord_class.lexordp (map f p @ xs) (map f p @ ys)" if "ord_class.lexordp xs ys" for f :: "char \<Rightarrow> nat" and xs ys
    using that by (induction p) simp_all
  ultimately show ?thesis by (simp add: str_less_def)
qed


section \<open>Minting\<close>

definition rand_ok :: "nat list \<Rightarrow> bool" where
  "rand_ok r \<longleftrightarrow> length r = 16 \<and> digits_ok r"

definition id_state_ok :: "id_state \<Rightarrow> bool" where
  "id_state_ok st \<longleftrightarrow> (case lastRand st of None \<Rightarrow> True | Some r \<Rightarrow> rand_ok r)"

definition render :: "id_kind \<Rightarrow> nat list \<Rightarrow> string" where
  "render kind ds = (PREFIXES kind @ ''_'') @ map (\<lambda>d. ULID_ALPHABET ! d) ds"

lemma rand_ok_carry: "rand_ok r \<Longrightarrow> rand_ok (rev (carry_digits (rev r)))"
  using carry_ok [of "rev r"] by (simp add: rand_ok_def digits_ok_def)

lemma newId_cases:
  assumes "newId kind now rnd st = (i, st')" "id_state_ok st" "rand_ok rnd"
  obtains r where "i = render kind (time_digits 10 now [] @ r)" "st' = \<lparr>lastTs = int now, lastRand = Some r\<rparr>"
    "rand_ok r"
    "\<And>r0. lastRand st = Some r0 \<Longrightarrow> int now = lastTs st \<Longrightarrow> val32 r = (val32 r0 + 1) mod 32 ^ 16"
    "lastRand st = None \<or> int now \<noteq> lastTs st \<Longrightarrow> r = rnd"
proof -
  define r where "r = (case lastRand st of
              Some r \<Rightarrow> if int now = lastTs st then rev (carry_digits (rev r)) else rnd
            | None \<Rightarrow> rnd)"
  have "i = render kind (time_digits 10 now [] @ r)" "st' = \<lparr>lastTs = int now, lastRand = Some r\<rparr>"
    using assms(1) by (auto simp: newId_def Let_def render_def r_def)
  moreover have "rand_ok r"
    using assms(2,3) rand_ok_carry by (auto simp: r_def id_state_ok_def split: option.splits)
  moreover have "val32 r = (val32 r0 + 1) mod 32 ^ 16" if "lastRand st = Some r0" "int now = lastTs st" for r0
  proof -
    have "digits_ok (rev r0)" "length (rev r0) = 16" using assms(2) that by (auto simp: id_state_ok_def rand_ok_def digits_ok_def)
    with carry_val [of "rev r0"] that show ?thesis by (simp add: r_def)
  qed
  ultimately show thesis using that by (simp add: r_def split: option.splits)
qed

definition id_digits_ok :: "nat list \<Rightarrow> bool" where
  "id_digits_ok ds \<longleftrightarrow> length ds = 26 \<and> digits_ok ds"

lemma id_digits:
  assumes "rand_ok r"
  shows "id_digits_ok (time_digits 10 now [] @ r)"
    and "val32 (time_digits 10 now [] @ r) = (now mod 32 ^ 10) * 32 ^ 16 + val32 r"
  using assms time_digits_spec [of 10 now]
  by (simp_all add: id_digits_ok_def rand_ok_def digits_ok_def val32_append)

text \<open>The value a following identifier must exceed.\<close>

definition last_value :: "id_state \<Rightarrow> int" where
  "last_value st = (case lastRand st of None \<Rightarrow> -1 | Some r \<Rightarrow> lastTs st * 32 ^ 16 + int (val32 r))"

text \<open>Requests in clock order whose draws leave room for as many increments as there are requests.\<close>

definition room :: "nat \<Rightarrow> id_state \<Rightarrow> bool" where
  "room n st \<longleftrightarrow> (case lastRand st of None \<Rightarrow> True | Some r \<Rightarrow> val32 r + n < 32 ^ 16)"

lemma mint_increasing:
  assumes "sorted (map (fst \<circ> snd) reqs)" "\<forall>(kind, now, rnd)\<in>set reqs. now < 32 ^ 10 \<and> rand_ok rnd \<and> val32 rnd + length reqs < 32 ^ 16"
    and "id_state_ok st" "room (length reqs) st" "\<forall>now\<in>(fst \<circ> snd) ` set reqs. lastTs st \<le> int now"
  shows "\<exists>dss. length dss = length reqs \<and> mint reqs st = map (\<lambda>(q, ds). render (fst q) ds) (zip reqs dss) \<and> list_all id_digits_ok dss \<and>
    sorted_wrt (<) (map val32 dss) \<and> (\<forall>ds\<in>set dss. last_value st < int (val32 ds))"
  using assms
proof (induction reqs arbitrary: st)
  case (Cons req reqs)
  obtain kind now rnd where req: "req = (kind, now, rnd)" by (metis prod_cases3)
  obtain i st' where new: "newId kind now rnd st = (i, st')" by fastforce
  have rnd: "rand_ok rnd" "now < 32 ^ 10" "val32 rnd + length reqs + 1 < 32 ^ 16"
    using Cons.prems(2) by (simp_all add: req)
  have le: "lastTs st \<le> int now" using Cons.prems(5) by (simp add: req)
  obtain r where r: "i = render kind (time_digits 10 now [] @ r)" "st' = \<lparr>lastTs = int now, lastRand = Some r\<rparr>"
    "rand_ok r" "\<And>r0. lastRand st = Some r0 \<Longrightarrow> int now = lastTs st \<Longrightarrow> val32 r = (val32 r0 + 1) mod 32 ^ 16"
    "lastRand st = None \<or> int now \<noteq> lastTs st \<Longrightarrow> r = rnd"
    using newId_cases [OF new Cons.prems(3) rnd(1)] by metis
  let ?ds = "time_digits 10 now [] @ r"
  have val: "val32 ?ds = now * 32 ^ 16 + val32 r" using id_digits(2) [OF r(3)] rnd(2) by simp
  have step: "val32 r + length reqs < 32 ^ 16 \<and> last_value st < int (val32 ?ds)"
  proof (cases "lastRand st")
    case None
    with r(5) rnd(3) show ?thesis by (simp add: last_value_def)
  next
    case (Some r0)
    then have r0: "val32 r0 + length reqs + 1 < 32 ^ 16" using Cons.prems(4) by (simp add: room_def)
    show ?thesis
    proof (cases "int now = lastTs st")
      case True
      with r(4) [OF Some] r0 have "val32 r = val32 r0 + 1" by simp
      with r0 Some val True [symmetric] show ?thesis by (simp add: last_value_def)
    next
      case False
      with le have lt: "lastTs st + 1 \<le> int now" by simp
      have "val32 r0 < 32 ^ 16" using r0 by simp
      then have "lastTs st * 32 ^ 16 + int (val32 r0) < (lastTs st + 1) * 32 ^ 16" by simp
      also have "\<dots> \<le> int now * 32 ^ 16" using lt by (intro mult_right_mono) simp_all
      finally show ?thesis using False r(5) rnd(3) val Some by (simp add: last_value_def)
    qed
  qed
  have "\<exists>dss. length dss = length reqs \<and> mint reqs st' = map (\<lambda>(q, ds). render (fst q) ds) (zip reqs dss) \<and> list_all id_digits_ok dss \<and>
      sorted_wrt (<) (map val32 dss) \<and> (\<forall>ds\<in>set dss. last_value st' < int (val32 ds))"
  proof (rule Cons.IH)
    show "sorted (map (fst \<circ> snd) reqs)" using Cons.prems(1) by (simp add: comp_def)
    show "\<forall>(kind, now, rnd)\<in>set reqs. now < 32 ^ 10 \<and> rand_ok rnd \<and> val32 rnd + length reqs < 32 ^ 16"
      using Cons.prems(2) by auto
    show "id_state_ok st'" using r(2,3) by (simp add: id_state_ok_def)
    show "room (length reqs) st'" using step r(2) by (simp add: room_def)
    show "\<forall>now\<in>(fst \<circ> snd) ` set reqs. lastTs st' \<le> int now" using Cons.prems(1) r(2) by (auto simp: req)
  qed
  then obtain dss where dss: "length dss = length reqs" "mint reqs st' = map (\<lambda>(q, ds). render (fst q) ds) (zip reqs dss)" "list_all id_digits_ok dss"
    "sorted_wrt (<) (map val32 dss)" "\<forall>ds\<in>set dss. last_value st' < int (val32 ds)" by blast
  have "last_value st' = int (val32 ?ds)" using r(2) val by (simp add: last_value_def)
  with dss step new r(1) id_digits(1) [OF r(3)] show ?case
    by (intro exI [of _ "?ds # dss"]) (auto simp: req)
qed simp

lemma render_less:
  "id_digits_ok ds \<Longrightarrow> id_digits_ok es \<Longrightarrow> val32 ds < val32 es \<Longrightarrow> str_less (render kind ds) (render kind es)"
  unfolding render_def by (rule digits_str_less) (simp_all add: id_digits_ok_def)

section \<open>Properties\<close>

lemma newId_matches:
  assumes "id_state_ok st" "rand_ok rnd"
  shows "id_matches (PREFIXES kind) (fst (newId kind now rnd st)) \<and> id_state_ok (snd (newId kind now rnd st))"
proof -
  obtain i st' where new: "newId kind now rnd st = (i, st')" by fastforce
  obtain r where "i = render kind (time_digits 10 now [] @ r)" "st' = \<lparr>lastTs = int now, lastRand = Some r\<rparr>" "rand_ok r"
    using newId_cases [OF new assms] by metis
  with new id_digits(1) [of r now] show ?thesis
    by (auto simp: id_matches_def render_def id_digits_ok_def id_state_ok_def digits_ok_def list_all_iff
        intro: alphabet_id_char)
qed

text \<open>Every identifier the generator returns matches the pattern of its kind, and leaves the generator's memory
  well formed: the prefix, an underscore and 26 characters of the ULID alphabet, whatever the clock says.\<close>

theorem newId_wellformed:
  assumes "id_state_ok st" "rand_ok rnd"
  shows "id_matches (PREFIXES kind) (fst (newId kind now rnd st)) \<and> id_state_ok (snd (newId kind now rnd st))"
  using assms by (rule newId_matches)

lemma newId_wellformed_witness:
  "id_matches ''dev'' (fst (newId IdDevice 1700000000000 (replicate 16 31) fresh_ids))"
  using newId_wellformed [of fresh_ids "replicate 16 31" IdDevice 1700000000000]
  by (simp add: id_state_ok_def fresh_ids_def rand_ok_def digits_ok_def list_all_iff)

lemma str_less_irrefl: "\<not> str_less s s"
  by (simp add: str_less_def lexordp_irreflexive')

lemma same_ulid:
  assumes "length u = 26" "length v = 26" "p @ ''_'' @ u = q @ ''_'' @ v"
  shows "u = v"
proof -
  from assms have "rev (take 26 (rev (p @ ''_'' @ u))) = u" "rev (take 26 (rev (q @ ''_'' @ v))) = v" by simp_all
  with assms(3) show ?thesis by metis
qed

text \<open>C32: Identifiers of whatever kinds, minted one after the other with a clock that does not go back, also within one
  millisecond: each is its kind's prefix, an underscore and a ULID of 26 characters, the ULIDs are strictly increasing as strings
  over all kinds, so that the identifiers of one kind are strictly increasing and no two identifiers at all are equal. The clock is
  taken below 32 to the 10th milliseconds (the ten time digits), and no random draw so close to the top that counting the requests
  overflows its sixteen digits.\<close>

theorem newId_monotonic:
  assumes "sorted (map (fst \<circ> snd) reqs)"
    and "\<forall>(kind, now, rnd)\<in>set reqs. now < 32 ^ 10 \<and> rand_ok rnd \<and> val32 rnd + length reqs < 32 ^ 16"
  shows "distinct (mint reqs fresh_ids) \<and> length (mint reqs fresh_ids) = length reqs \<and>
    (\<forall>i j. i < j \<and> j < length reqs \<and> fst (reqs ! i) = fst (reqs ! j) \<longrightarrow> str_less (mint reqs fresh_ids ! i) (mint reqs fresh_ids ! j)) \<and>
    (\<exists>us. length us = length reqs \<and> sorted_wrt str_less us \<and>
      (\<forall>i < length reqs. length (us ! i) = 26 \<and> mint reqs fresh_ids ! i = PREFIXES (fst (reqs ! i)) @ ''_'' @ us ! i))"
proof -
  obtain dss where dss: "length dss = length reqs" "mint reqs fresh_ids = map (\<lambda>(q, ds). render (fst q) ds) (zip reqs dss)"
    "list_all id_digits_ok dss" "sorted_wrt (<) (map val32 dss)"
    using mint_increasing [OF assms, of fresh_ids] by (auto simp: id_state_ok_def room_def fresh_ids_def)
  let ?ids = "mint reqs fresh_ids" and ?u = "\<lambda>ds. map (\<lambda>d. ULID_ALPHABET ! d) ds"
  have len: "length ?ids = length reqs" using dss(1,2) by simp
  have nth: "?ids ! i = PREFIXES (fst (reqs ! i)) @ ''_'' @ ?u (dss ! i)" "length (?u (dss ! i)) = 26" if "i < length reqs" for i
    using that dss(1-3) by (auto simp: render_def list_all_length id_digits_ok_def)
  have up: "id_digits_ok (dss ! i)" "id_digits_ok (dss ! j)" "val32 (dss ! i) < val32 (dss ! j)" if "i < j" "j < length reqs" for i j
    using that dss(1,3,4) sorted_wrt_nth_less [OF dss(4), of i j] by (auto simp: list_all_length)
  have less: "str_less (?u (dss ! i)) (?u (dss ! j))" if "i < j" "j < length reqs" for i j
    using digits_str_less [of "dss ! i" "dss ! j" "[]"] up [OF that] by (simp add: id_digits_ok_def)
  have "?ids ! i \<noteq> ?ids ! j" if "i < j" "j < length reqs" for i j
  proof
    assume "?ids ! i = ?ids ! j"
    with nth [of i] nth [of j] that same_ulid [of "?u (dss ! i)" "?u (dss ! j)"] have "?u (dss ! i) = ?u (dss ! j)" by force
    with less [OF that] str_less_irrefl show False by metis
  qed
  then have "distinct ?ids" unfolding distinct_conv_nth len by (metis nat_neq_iff)
  moreover have "str_less (?ids ! i) (?ids ! j)" if "i < j" "j < length reqs" "fst (reqs ! i) = fst (reqs ! j)" for i j
    using render_less [OF up [OF that(1,2)], of "fst (reqs ! j)"] nth [of i] nth [of j] that by (simp add: render_def)
  moreover have "sorted_wrt str_less (map ?u dss)"
    using less dss(1) by (simp add: sorted_wrt_iff_nth_less)
  ultimately show ?thesis
    using len nth dss(1) by (intro conjI exI [of _ "map ?u dss"]) auto
qed

lemma newId_monotonic_witness:
  "distinct (mint [(IdUser, 5, replicate 15 0 @ [31]), (IdDevice, 5, replicate 16 0), (IdUser, 6, replicate 16 0)] fresh_ids)"
proof -
  let ?reqs = "[(IdUser, 5 :: nat, replicate 15 0 @ [31]), (IdDevice, 5, replicate 16 0), (IdUser, 6, replicate 16 0)]"
  have zeros: "val32 (replicate k 0) = 0" for k
    by (induction k) (simp_all add: replicate_append_same [symmetric])
  have "\<forall>(kind, now :: nat, rnd)\<in>set ?reqs. now < 32 ^ 10 \<and> rand_ok rnd \<and> val32 rnd + length ?reqs < 32 ^ 16"
    by (simp add: rand_ok_def digits_ok_def list_all_iff zeros)
  moreover have "sorted (map (fst \<circ> snd) ?reqs)" by simp
  ultimately show ?thesis using newId_monotonic [of ?reqs] by blast
qed

text \<open>At the top of the range the increment wraps to zero, and the second identifier of that
  millisecond is then the smaller one.\<close>

theorem newId_wraps:
  assumes "lastRand st = Some (replicate 16 31)" "lastTs st = int now"
  shows "lastRand (snd (newId kind now rnd st)) = Some (replicate 16 0)"
proof -
  have "rev (carry_digits (rev (replicate 16 31))) = replicate 16 (0::nat)" by code_simp
  with assms show ?thesis by (simp add: newId_def)
qed

lemma newId_wraps_witness:
  "lastRand (snd (newId IdUser 7 [] \<lparr>lastTs = 7, lastRand = Some (replicate 16 31)\<rparr>)) = Some (replicate 16 0)"
  by (rule newId_wraps) simp_all

end
