(* ===== verification/Device_Lifecycle.thy ===== *)
theory Device_Lifecycle
  imports Domain_Model
begin

text \<open>
  The device lifecycle (\<^verbatim>\<open>services/integration-layer/src/device-lifecycle.ts\<close>) and the registry of device
  providers that enforces it (\<^verbatim>\<open>provider-registry.ts\<close>), with its optional in-memory store.
\<close>

section \<open>Lifecycle states\<close>

datatype lifecycle_state =
    Discovered | Registered | Unbound | Binding | Bound | Online | Offline | Error_state | Removed

fun lifecycle_name :: "lifecycle_state \<Rightarrow> string" where
  "lifecycle_name Discovered = ''DISCOVERED''"
| "lifecycle_name Registered = ''REGISTERED''"
| "lifecycle_name Unbound = ''UNBOUND''"
| "lifecycle_name Binding = ''BINDING''"
| "lifecycle_name Bound = ''BOUND''"
| "lifecycle_name Online = ''ONLINE''"
| "lifecycle_name Offline = ''OFFLINE''"
| "lifecycle_name Error_state = ''ERROR''"
| "lifecycle_name Removed = ''REMOVED''"

fun DEVICE_LIFECYCLE_TRANSITIONS :: "lifecycle_state \<Rightarrow> lifecycle_state list" where
  "DEVICE_LIFECYCLE_TRANSITIONS Discovered = [Registered, Removed]"
| "DEVICE_LIFECYCLE_TRANSITIONS Registered = [Unbound, Removed]"
| "DEVICE_LIFECYCLE_TRANSITIONS Unbound = [Binding, Removed]"
| "DEVICE_LIFECYCLE_TRANSITIONS Binding = [Bound, Error_state, Unbound]"
| "DEVICE_LIFECYCLE_TRANSITIONS Bound = [Online, Offline, Error_state, Unbound, Binding]"
| "DEVICE_LIFECYCLE_TRANSITIONS Online = [Offline, Error_state, Unbound, Removed, Binding]"
| "DEVICE_LIFECYCLE_TRANSITIONS Offline = [Online, Error_state, Unbound, Removed, Binding]"
| "DEVICE_LIFECYCLE_TRANSITIONS Error_state = [Binding, Unbound, Removed]"
| "DEVICE_LIFECYCLE_TRANSITIONS Removed = []"

definition canTransition :: "lifecycle_state \<Rightarrow> lifecycle_state \<Rightarrow> bool" where
  "canTransition a b \<longleftrightarrow> b \<in> set (DEVICE_LIFECYCLE_TRANSITIONS a)"

section \<open>The provider registry\<close>

record provider_record =
  pr_deviceId :: device_id
  pr_provider :: string
  pr_state :: lifecycle_state
  pr_updatedAt :: timestamp

text \<open>The index, and the persisted rows when a store is configured.\<close>

record provider_registry =
  reg_byDevice :: "(device_id, provider_record) jsmap"
  reg_store :: "(device_id, provider_record) jsmap option"

definition new_registry :: "(device_id, provider_record) jsmap option \<Rightarrow> provider_registry" where
  "new_registry store = \<lparr>reg_byDevice = [], reg_store = store\<rparr>"

definition hydrate :: "provider_registry \<Rightarrow> provider_registry" where
  "hydrate reg = (case reg_store reg of None \<Rightarrow> reg
     | Some rows \<Rightarrow> reg\<lparr>reg_byDevice := fold (\<lambda>r. jset (pr_deviceId r) r) (jvalues rows) (reg_byDevice reg)\<rparr>)"

definition reg_get :: "device_id \<Rightarrow> provider_registry \<Rightarrow> provider_record option" where
  "reg_get d reg = jget (reg_byDevice reg) d"

definition reg_put :: "provider_record \<Rightarrow> provider_registry \<Rightarrow> provider_registry" where
  "reg_put r reg = reg\<lparr>reg_store := map_option (jset (pr_deviceId r) r) (reg_store reg),
     reg_byDevice := jset (pr_deviceId r) r (reg_byDevice reg)\<rparr>"

definition reg_assign :: "device_id \<Rightarrow> string \<Rightarrow> timestamp \<Rightarrow> provider_registry \<Rightarrow> provider_registry" where
  "reg_assign d provider now reg =
     reg_put \<lparr>pr_deviceId = d, pr_provider = provider, pr_state = Unbound, pr_updatedAt = now\<rparr> reg"

definition reg_transition ::
  "device_id \<Rightarrow> lifecycle_state \<Rightarrow> timestamp \<Rightarrow> (provider_registry, unit) eff" where
  "reg_transition d to now = (\<lambda>reg.
     case reg_get d reg of
       None \<Rightarrow> (Inl (PlainError (''device '' @ d @ '' has no provider record '' @ em_dash @ '' call assign() first'')), reg)
     | Some cur \<Rightarrow>
         (if \<not> canTransition (pr_state cur) to
          then (Inl (PlainError (''device '' @ d @ '' cannot transition '' @ lifecycle_name (pr_state cur) @
                  '' -> '' @ lifecycle_name to)), reg)
          else (Inr (), reg_put (cur\<lparr>pr_state := to, pr_updatedAt := now\<rparr>) reg)))"

definition reg_remove :: "device_id \<Rightarrow> provider_registry \<Rightarrow> provider_registry" where
  "reg_remove d reg = reg\<lparr>reg_store := map_option (jdel d) (reg_store reg),
     reg_byDevice := jdel d (reg_byDevice reg)\<rparr>"

definition devicesByProvider :: "string \<Rightarrow> provider_registry \<Rightarrow> device_id list" where
  "devicesByProvider provider reg =
     map pr_deviceId (filter (\<lambda>r. pr_provider r = provider) (jvalues (reg_byDevice reg)))"

definition countsByState :: "provider_registry \<Rightarrow> lifecycle_state \<Rightarrow> nat" where
  "countsByState reg st = length (filter (\<lambda>r. pr_state r = st) (jvalues (reg_byDevice reg)))"

section \<open>Lemmas\<close>

definition state_at :: "device_id \<Rightarrow> provider_registry \<Rightarrow> lifecycle_state option" where
  "state_at d reg = map_option pr_state (reg_get d reg)"

definition provider_at :: "device_id \<Rightarrow> provider_registry \<Rightarrow> string option" where
  "provider_at d reg = map_option pr_provider (reg_get d reg)"

lemma reg_get_put [simp]: "reg_get d (reg_put r reg) = (if d = pr_deviceId r then Some r else reg_get d reg)"
  by (simp add: reg_get_def reg_put_def)

lemma reg_get_remove [simp]: "reg_get d (reg_remove d' reg) = (if d = d' then None else reg_get d reg)"
  by (simp add: reg_get_def reg_remove_def)

lemma state_at_assign [simp]:
  "state_at d' (reg_assign d p now reg) = (if d' = d then Some Unbound else state_at d' reg)"
  "provider_at d' (reg_assign d p now reg) = (if d' = d then Some p else provider_at d' reg)"
  by (simp_all add: reg_assign_def state_at_def provider_at_def)

text \<open>Every record is filed under its own device; the persisted rows are those of the index.\<close>

definition reg_ok :: "provider_registry \<Rightarrow> bool" where
  "reg_ok reg \<longleftrightarrow> jwf (reg_byDevice reg) \<and> (\<forall>d r. reg_get d reg = Some r \<longrightarrow> pr_deviceId r = d) \<and>
     (\<forall>rows. reg_store reg = Some rows \<longrightarrow> jwf rows \<and> (\<forall>d. jget rows d = reg_get d reg))"

lemma reg_ok_get: "reg_ok reg \<Longrightarrow> reg_get d reg = Some r \<Longrightarrow> pr_deviceId r = d"
  by (simp add: reg_ok_def)

lemma reg_ok_put: "reg_ok reg \<Longrightarrow> reg_ok (reg_put r reg)"
  by (auto simp: reg_ok_def reg_put_def reg_get_def)

lemma reg_ok_assign: "reg_ok reg \<Longrightarrow> reg_ok (reg_assign d p now reg)"
  by (simp add: reg_assign_def reg_ok_put)

lemma reg_ok_remove: "reg_ok reg \<Longrightarrow> reg_ok (reg_remove d reg)"
  by (auto simp: reg_ok_def reg_remove_def reg_get_def)

lemma reg_transition_ok: "reg_ok reg \<Longrightarrow> reg_ok (snd (reg_transition d to now reg))"
  by (simp add: reg_transition_def reg_ok_put split: option.split)

lemma reg_transition_None: "state_at d reg = None \<Longrightarrow> \<exists>e. reg_transition d to now reg = (Inl e, reg)"
  by (simp add: reg_transition_def state_at_def)

lemma reg_transition_illegal:
  "state_at d reg = Some st \<Longrightarrow> \<not> canTransition st to \<Longrightarrow> \<exists>e. reg_transition d to now reg = (Inl e, reg)"
  by (auto simp: reg_transition_def state_at_def)

lemma reg_transition_legal:
  assumes "reg_ok reg" "state_at d reg = Some st" "canTransition st to"
  shows "\<exists>reg'. reg_transition d to now reg = (Inr (), reg') \<and> reg_ok reg' \<and>
    (\<forall>d'. state_at d' reg' = (if d' = d then Some to else state_at d' reg)) \<and>
    (\<forall>d'. provider_at d' reg' = provider_at d' reg)"
proof -
  obtain cur where cur: "reg_get d reg = Some cur" "pr_state cur = st" "pr_deviceId cur = d"
    using assms(1,2) reg_ok_get by (auto simp: state_at_def)
  have "reg_transition d to now reg = (Inr (), reg_put (cur\<lparr>pr_state := to, pr_updatedAt := now\<rparr>) reg)"
    using cur assms(3) by (simp add: reg_transition_def)
  then show ?thesis using cur reg_ok_put [OF assms(1)] by (auto simp: state_at_def provider_at_def)
qed

text \<open>A transition of the registry succeeds exactly for a device with a record and a step of the
  lifecycle; then only that device's state changes, to the requested one, with its provider kept and the persisted rows equal to
  the index; a refused transition changes nothing.\<close>

theorem registry_enforces_lifecycle:
  assumes "reg_ok reg"
  shows "if (case state_at d reg of None \<Rightarrow> False | Some st \<Rightarrow> canTransition st to)
    then \<exists>reg'. reg_transition d to now reg = (Inr (), reg') \<and> reg_ok reg' \<and>
      (\<forall>d'. state_at d' reg' = (if d' = d then Some to else state_at d' reg)) \<and>
      (\<forall>d'. provider_at d' reg' = provider_at d' reg)
    else \<exists>e. reg_transition d to now reg = (Inl e, reg)"
proof (cases "state_at d reg")
  case None
  then show ?thesis using reg_transition_None [OF None] by simp
next
  case (Some st)
  then show ?thesis
    using reg_transition_illegal [OF Some] reg_transition_legal [OF assms Some]
    by (cases "canTransition st to") (simp_all add: canTransition_def)
qed

lemma registry_enforces_lifecycle_witness:
  "\<exists>e. reg_transition ''d1'' Online 7 (reg_assign ''d1'' ''knx'' 5 (new_registry (Some []))) =
     (Inl e, reg_assign ''d1'' ''knx'' 5 (new_registry (Some [])))"
proof -
  have ok: "reg_ok (reg_assign ''d1'' ''knx'' 5 (new_registry (Some [])))"
    by (intro reg_ok_assign) (simp add: reg_ok_def new_registry_def reg_get_def)
  show ?thesis
    using registry_enforces_lifecycle [OF ok, where d = "''d1''" and to = Online and now = 7] by (simp add: canTransition_def)
qed

text \<open>A sequence of states in which each step is a legal transition.\<close>

fun legal_path :: "lifecycle_state list \<Rightarrow> bool" where
  "legal_path (a # b # p) = (canTransition a b \<and> legal_path (b # p))"
| "legal_path _ = True"

definition never_bound :: "lifecycle_state set" where
  "never_bound = {Discovered, Registered, Unbound, Removed}"

lemma canTransition_never_bound:
  "canTransition a b \<Longrightarrow> a \<in> never_bound \<Longrightarrow> b \<noteq> Binding \<Longrightarrow> b \<in> never_bound"
  by (cases a) (auto simp: canTransition_def never_bound_def)

lemma legal_path_stays:
  "legal_path p \<Longrightarrow> p \<noteq> [] \<Longrightarrow> hd p \<in> never_bound \<Longrightarrow> Binding \<notin> set p \<Longrightarrow> last p \<in> never_bound"
  by (induction p rule: legal_path.induct) (auto dest: canTransition_never_bound)

text \<open>A device never becomes bound, online, offline or failed except through binding: every path of legal
  transitions from an unbound device to one of these states passes through it.\<close>

theorem online_requires_binding:
  assumes "legal_path (Unbound # p)" "last (Unbound # p) \<in> {Bound, Online, Offline, Error_state}"
  shows "Binding \<in> set p"
proof (rule ccontr)
  assume "Binding \<notin> set p"
  then have "last (Unbound # p) \<in> never_bound"
    by (intro legal_path_stays [OF assms(1)]) (simp_all add: never_bound_def)
  with assms(2) show False by (auto simp: never_bound_def)
qed

lemma online_requires_binding_witness: "Binding \<in> set [Binding, Bound, Online]"
  by (rule online_requires_binding) (simp_all add: canTransition_def)

end
