(* ===== verification/Native_Adapter.thy ===== *)
theory Native_Adapter
  imports Device_Backend
begin

text \<open>
  The native device engine, \<^verbatim>\<open>services/integration-layer/src/native-adapter.ts\<close>: which protocol driver owns
  which device, how commands and reads are routed to it, and how drivers come and go. A driver is a
  number with its protocol; what a driver does on its bus is the argument \<open>driver_ops\<close>, effects on a
  world \<open>'h\<close>. The locale \<open>driver_host\<close> is the slice of the engine the binding engine relies on
  (\<^verbatim>\<open>DriverHost\<close> in \<^verbatim>\<open>driver-binding-engine.ts\<close>), interpreted on it.
\<close>

section \<open>Drivers\<close>

record protocol_binding =
  pb_deviceId :: device_id
  pb_capability :: capability_kind
  pb_address :: string
  pb_config :: "bag option"

record native_driver =
  nd_id :: nat
  nd_protocol :: string

record 'h driver_ops =
  dr_connect :: "nat \<Rightarrow> ('h, unit) eff"
  dr_disconnect :: "nat \<Rightarrow> ('h, unit) eff"
  dr_isConnected :: "nat \<Rightarrow> 'h \<Rightarrow> bool"
  dr_bind :: "nat \<Rightarrow> protocol_binding \<Rightarrow> ('h, unit) eff"
  dr_unbind :: "nat \<Rightarrow> (device_id \<Rightarrow> ('h, unit) eff) option"
  dr_command :: "nat \<Rightarrow> device_id \<Rightarrow> capability_command \<Rightarrow> ('h, unit) eff"
  dr_getState :: "nat \<Rightarrow> device_id \<Rightarrow> capability_kind \<Rightarrow> 'h \<Rightarrow> capability_state option"

section \<open>The adapter\<close>

text \<open>The drivers whose streams are subscribed are \<open>na_wired\<close>; \<open>na_delivered\<close> is what listeners were called with.\<close>

record native_adapter =
  na_connected :: bool
  na_listeners :: "nat list"
  na_states :: "(device_id \<times> capability_kind, capability_state) jsmap"
  na_managed :: "device_id list"
  na_drivers :: "native_driver list"
  na_ownerByDevice :: "(device_id, native_driver) jsmap"
  na_wired :: "(string, nat) jsmap"
  na_connectErrors :: "(string \<times> error) list"
  na_simulate :: bool
  na_delivered :: "(nat \<times> device_id \<times> capability_kind \<times> capability_state) list"

definition new_native :: "native_driver list \<Rightarrow> bool \<Rightarrow> native_adapter" where
  "new_native ds simulate = \<lparr>na_connected = False, na_listeners = [], na_states = [], na_managed = [],
     na_drivers = ds, na_ownerByDevice = [], na_wired = [], na_connectErrors = [],
     na_simulate = simulate, na_delivered = []\<rparr>"

definition add_once :: "'a \<Rightarrow> 'a list \<Rightarrow> 'a list" where
  "add_once x xs = (if x \<in> set xs then xs else xs @ [x])"

definition driverFor :: "string \<Rightarrow> native_adapter \<Rightarrow> native_driver option" where
  "driverFor protocol na = find (\<lambda>d. nd_protocol d = protocol) (na_drivers na)"

definition wireDriver :: "'h driver_ops \<Rightarrow> native_driver \<Rightarrow> native_adapter \<times> 'h \<Rightarrow> native_adapter \<times> 'h" where
  "wireDriver ops d = (\<lambda>(na, h).
     case dr_connect ops (nd_id d) h of
       (Inl e, h') \<Rightarrow> (na\<lparr>na_connectErrors := na_connectErrors na @ [(nd_protocol d, e)]\<rparr>, h')
     | (Inr _, h') \<Rightarrow> (na\<lparr>na_wired := jset (nd_protocol d) (nd_id d) (na_wired na)\<rparr>, h'))"

text \<open>\<^verbatim>\<open>connect\<close> brings the drivers up concurrently and waits for them up to a budget; here they all
  answer, in the order of \<open>sched\<close>.\<close>

definition na_connect :: "'h driver_ops \<Rightarrow> native_driver list \<Rightarrow> native_adapter \<times> 'h \<Rightarrow> native_adapter \<times> 'h" where
  "na_connect ops sched = (\<lambda>(na, h).
     if na_connected na then (na, h)
     else (let (na', h') = fold (wireDriver ops) sched (na, h) in (na'\<lparr>na_connected := True\<rparr>, h')))"

text \<open>A state event of a wired driver: only a device's own report is cached.\<close>

definition driver_event ::
  "device_id \<Rightarrow> capability_kind \<Rightarrow> capability_state \<Rightarrow> bool \<Rightarrow> native_adapter \<Rightarrow> native_adapter" where
  "driver_event d k st observed na =
     na\<lparr>na_states := (if observed then jset (d, k) st (na_states na) else na_states na),
        na_delivered := na_delivered na @ map (\<lambda>l. (l, d, k, st)) (na_listeners na)\<rparr>"

definition unregisterProtocol ::
  "'h driver_ops \<Rightarrow> string \<Rightarrow> native_adapter \<times> 'h \<Rightarrow> native_adapter \<times> 'h" where
  "unregisterProtocol ops protocol = (\<lambda>(na, h).
     case driverFor protocol na of
       None \<Rightarrow> (na, h)
     | Some d \<Rightarrow>
         (na\<lparr>na_drivers := remove1 d (na_drivers na),
             na_wired := jdel protocol (na_wired na),
             na_ownerByDevice := filter (\<lambda>(_, owner). owner \<noteq> d) (na_ownerByDevice na),
             na_connectErrors := filter (\<lambda>(p, _). p \<noteq> protocol) (na_connectErrors na)\<rparr>,
          snd (dr_disconnect ops (nd_id d) h)))"

definition registerDriver ::
  "'h driver_ops \<Rightarrow> native_driver \<Rightarrow> native_adapter \<times> 'h \<Rightarrow> native_adapter \<times> 'h" where
  "registerDriver ops d s =
     (let (na, h) = unregisterProtocol ops (nd_protocol d) s
      in wireDriver ops d (na\<lparr>na_drivers := na_drivers na @ [d]\<rparr>, h))"

definition provision ::
  "device_id \<Rightarrow> capability_kind \<Rightarrow> capability_state option \<Rightarrow> native_adapter \<Rightarrow> native_adapter" where
  "provision d k st na = na\<lparr>na_managed := add_once d (na_managed na),
     na_states := (case st of None \<Rightarrow> na_states na | Some s \<Rightarrow> jset (d, k) s (na_states na))\<rparr>"

definition na_bind :: "'h driver_ops \<Rightarrow> protocol_binding \<Rightarrow> string \<Rightarrow> (native_adapter \<times> 'h, unit) eff" where
  "na_bind ops b protocol = (\<lambda>(na, h).
     case driverFor protocol na of
       None \<Rightarrow> (Inl (SupremeError Backend_unavailable
           (''\"'' @ protocol @ ''\" isn'' @ [CHR 0x27] @ ''t configured on this hub yet '' @ em_dash @
            '' check its connection settings (e.g. broker URL, host) before adding devices.'')), (na, h))
     | Some d \<Rightarrow>
         (case dr_bind ops (nd_id d) b h of
            (Inl e, h') \<Rightarrow> (Inl e, (na, h'))
          | (Inr _, h') \<Rightarrow>
              (Inr (), (na\<lparr>na_managed := add_once (pb_deviceId b) (na_managed na),
                           na_ownerByDevice := jset (pb_deviceId b) d (na_ownerByDevice na)\<rparr>, h'))))"

definition na_command ::
  "'h driver_ops \<Rightarrow> device_id \<Rightarrow> capability_command \<Rightarrow> (native_adapter \<times> 'h, unit) eff" where
  "na_command ops d c = (\<lambda>(na, h).
     if \<not> na_connected na
     then (Inl (SupremeError Backend_unavailable ''supreme-native engine not connected''), (na, h))
     else (case jget (na_ownerByDevice na) d of
         Some owner \<Rightarrow> (let (r, h') = dr_command ops (nd_id owner) d c h in (r, (na, h')))
       | None \<Rightarrow>
           (if \<not> na_simulate na
            then (Inl (SupremeError Backend_unavailable (''device '' @ d @ '' has no bound driver'')), (na, h))
            else (let k = command_kind c;
                      st = applyCommand (jget (na_states na) (d, k)) c
                  in (Inr (), (na\<lparr>na_managed := add_once d (na_managed na),
                                 na_states := jset (d, k) st (na_states na),
                                 na_delivered := na_delivered na @ map (\<lambda>l. (l, d, k, st)) (na_listeners na)\<rparr>, h))))))"

definition na_getState ::
  "'h driver_ops \<Rightarrow> device_id \<Rightarrow> capability_kind \<Rightarrow> native_adapter \<times> 'h \<Rightarrow> capability_state option" where
  "na_getState ops d k = (\<lambda>(na, h).
     case jget (na_ownerByDevice na) d of
       Some owner \<Rightarrow> dr_getState ops (nd_id owner) d k h
     | None \<Rightarrow> jget (na_states na) (d, k))"

definition na_unbindDevice :: "'h driver_ops \<Rightarrow> device_id \<Rightarrow> (native_adapter \<times> 'h, unit) eff" where
  "na_unbindDevice ops d = (\<lambda>(na, h).
     let owner = jget (na_ownerByDevice na) d;
         na' = na\<lparr>na_ownerByDevice := jdel d (na_ownerByDevice na),
                  na_managed := filter (\<lambda>x. x \<noteq> d) (na_managed na),
                  na_states := filter (\<lambda>((d', _), _). d' \<noteq> d) (na_states na)\<rparr>
     in case owner of
          None \<Rightarrow> (Inr (), (na', h))
        | Some ow \<Rightarrow>
            (case dr_unbind ops (nd_id ow) of
               None \<Rightarrow> (Inr (), (na', h))
             | Some f \<Rightarrow> (let (r, h') = f d h in (r, (na', h')))))"

section \<open>The contract of a driver host\<close>

locale driver_host =
  fixes hbind :: "protocol_binding \<Rightarrow> string \<Rightarrow> ('s, unit) eff"
    and hunbind :: "device_id \<Rightarrow> ('s, unit) eff"
    and hdriver :: "string \<Rightarrow> 's \<Rightarrow> native_driver option"
    and howner :: "device_id \<Rightarrow> 's \<Rightarrow> native_driver option"
  assumes bind_ok: "hbind b p s = (Inr (), s') \<Longrightarrow>
      hdriver p s \<noteq> None \<and> howner (pb_deviceId b) s' = hdriver p s \<and>
      (\<forall>d. d \<noteq> pb_deviceId b \<longrightarrow> howner d s' = howner d s)"
    and bind_fail: "hbind b p s = (Inl e, s') \<Longrightarrow> howner d s' = howner d s"
    and bind_drivers: "hbind b p s = (r, s') \<Longrightarrow> hdriver q s' = hdriver q s"
    and unbind_owner: "hunbind d s = (r, s') \<Longrightarrow>
      howner d s' = None \<and> (\<forall>d'. d' \<noteq> d \<longrightarrow> howner d' s' = howner d' s)"
    and unbind_drivers: "hunbind d s = (r, s') \<Longrightarrow> hdriver q s' = hdriver q s"

definition owner_of :: "device_id \<Rightarrow> native_adapter \<times> 'h \<Rightarrow> native_driver option" where
  "owner_of d = (\<lambda>(na, h). jget (na_ownerByDevice na) d)"

definition driver_of :: "string \<Rightarrow> native_adapter \<times> 'h \<Rightarrow> native_driver option" where
  "driver_of p = (\<lambda>(na, h). driverFor p na)"

interpretation native: driver_host "na_bind ops" "na_unbindDevice ops" driver_of owner_of for ops
proof
  fix b p s s'
  assume "na_bind ops b p s = (Inr (), s')"
  then show "driver_of p s \<noteq> None \<and> owner_of (pb_deviceId b) s' = driver_of p s \<and>
      (\<forall>d. d \<noteq> pb_deviceId b \<longrightarrow> owner_of d s' = owner_of d s)"
    by (auto simp: na_bind_def driver_of_def owner_of_def split: option.splits prod.splits sum.splits)
next
  fix b p s e s' d
  assume "na_bind ops b p s = (Inl e, s')"
  then show "owner_of d s' = owner_of d s"
    by (auto simp: na_bind_def owner_of_def split: option.splits prod.splits sum.splits)
next
  fix b p s r s' q
  assume "na_bind ops b p s = (r, s')"
  then show "driver_of q s' = driver_of q s"
    by (auto simp: na_bind_def driver_of_def driverFor_def split: option.splits prod.splits sum.splits)
next
  fix d s r s'
  assume "na_unbindDevice ops d s = (r, s')"
  then show "owner_of d s' = None \<and> (\<forall>d'. d' \<noteq> d \<longrightarrow> owner_of d' s' = owner_of d' s)"
    by (auto simp: na_unbindDevice_def owner_of_def Let_def split: option.splits prod.splits)
next
  fix d s r s' q
  assume "na_unbindDevice ops d s = (r, s')"
  then show "driver_of q s' = driver_of q s"
    by (auto simp: na_unbindDevice_def driver_of_def driverFor_def Let_def split: option.splits prod.splits)
qed

end
