(* ===== verification/Driver_Binding.thy ===== *)
theory Driver_Binding
  imports Device_Lifecycle Native_Adapter
begin

text \<open>
  The driver binding engine (\<^verbatim>\<open>services/integration-layer/src/driver-binding-engine.ts\<close>) and the provider router
  above it (\<^verbatim>\<open>provider-router.ts\<close>). The engine works on the registry and on a driver host; the host's
  operations are arguments, and its properties are proved once against the contract
  \<open>driver_host\<close>, which the native adapter provides. The clock is read several times in one operation:
  \<open>now i\<close> is its \<open>i\<close>-th reading.
\<close>

section \<open>The binding engine\<close>

definition on_reg :: "('r, 'a) eff \<Rightarrow> ('r \<times> 's, 'a) eff" where
  "on_reg f = (\<lambda>(reg, s). let (r, reg') = f reg in (r, (reg', s)))"

definition on_host :: "('s, 'a) eff \<Rightarrow> ('r \<times> 's, 'a) eff" where
  "on_host f = (\<lambda>(reg, s). let (r, s') = f s in (r, (reg, s')))"

definition engine_bind ::
  "(protocol_binding \<Rightarrow> string \<Rightarrow> ('s, unit) eff) \<Rightarrow> protocol_binding \<Rightarrow> string \<Rightarrow> (nat \<Rightarrow> timestamp) \<Rightarrow>
   (provider_registry \<times> 's, unit) eff" where
  "engine_bind hbind b provider now = (\<lambda>(reg, s).
     let d = pb_deviceId b;
         reg1 = (if reg_get d reg = None then reg_assign d provider (now 0) reg else reg)
     in eff_bind (on_reg (reg_transition d Binding (now 1))) (\<lambda>_.
          eff_bind
            (eff_catch (on_host (hbind b provider))
              (\<lambda>e. eff_bind (on_reg (reg_transition d Error_state (now 2))) (\<lambda>_. eff_throw e)))
            (\<lambda>_. eff_bind (on_reg (reg_transition d Bound (now 2)))
                   (\<lambda>_. on_reg (reg_transition d Online (now 3))))) (reg1, s))"

definition engine_unbind ::
  "(device_id \<Rightarrow> ('s, unit) eff) option \<Rightarrow> device_id \<Rightarrow> timestamp \<Rightarrow> (provider_registry \<times> 's, unit) eff" where
  "engine_unbind hunbind d now = (\<lambda>(reg, s).
     case reg_get d reg of
       None \<Rightarrow> (Inr (), (reg, s))
     | Some r \<Rightarrow>
         (if pr_state r = Unbound then (Inr (), (reg, s))
          else eff_bind (case hunbind of None \<Rightarrow> eff_return () | Some f \<Rightarrow> on_host (f d))
                 (\<lambda>_. on_reg (reg_transition d Unbound now)) (reg, s)))"

definition engine_rebind ::
  "(protocol_binding \<Rightarrow> string \<Rightarrow> ('s, unit) eff) \<Rightarrow> (device_id \<Rightarrow> ('s, unit) eff) option \<Rightarrow>
   protocol_binding \<Rightarrow> string \<Rightarrow> (nat \<Rightarrow> timestamp) \<Rightarrow> (provider_registry \<times> 's, unit) eff" where
  "engine_rebind hbind hunbind b provider now =
     eff_bind (engine_unbind hunbind (pb_deviceId b) (now 0)) (\<lambda>_. engine_bind hbind b provider (\<lambda>i. now (Suc i)))"

definition engine_validate ::
  "(string \<Rightarrow> 's \<Rightarrow> native_driver option) \<Rightarrow> device_id \<Rightarrow> provider_registry \<times> 's \<Rightarrow> bool \<times> string option" where
  "engine_validate hdriver d = (\<lambda>(reg, s).
     case reg_get d reg of
       None \<Rightarrow> (False, Some ''no provider assigned'')
     | Some r \<Rightarrow>
         (case hdriver (pr_provider r) s of
            None \<Rightarrow> (False, Some (''\"'' @ pr_provider r @ ''\" has no driver configured on this hub''))
          | Some _ \<Rightarrow> (True, None)))"

record binding_health =
  bh_bound :: bool
  bh_connected :: bool
  bh_error :: "string option"

definition engine_health ::
  "(string \<Rightarrow> 's \<Rightarrow> native_driver option) \<Rightarrow> (native_driver \<Rightarrow> 's \<Rightarrow> bool) \<Rightarrow> device_id \<Rightarrow>
   provider_registry \<times> 's \<Rightarrow> binding_health" where
  "engine_health hdriver isConn d = (\<lambda>(reg, s).
     case reg_get d reg of
       None \<Rightarrow> \<lparr>bh_bound = False, bh_connected = False, bh_error = None\<rparr>
     | Some r \<Rightarrow>
         (if pr_state r = Unbound then \<lparr>bh_bound = False, bh_connected = False, bh_error = None\<rparr>
          else (case hdriver (pr_provider r) s of
              None \<Rightarrow> \<lparr>bh_bound = False, bh_connected = False,
                        bh_error = Some (''\"'' @ pr_provider r @ ''\" has no driver configured'')\<rparr>
            | Some dr \<Rightarrow> \<lparr>bh_bound = True, bh_connected = isConn dr s, bh_error = None\<rparr>)))"

definition engine_recover ::
  "(protocol_binding \<Rightarrow> string \<Rightarrow> ('s, unit) eff) \<Rightarrow> (device_id \<Rightarrow> ('s, unit) eff) option \<Rightarrow>
   protocol_binding \<Rightarrow> (nat \<Rightarrow> timestamp) \<Rightarrow> (provider_registry \<times> 's, unit) eff" where
  "engine_recover hbind hunbind b now = (\<lambda>(reg, s).
     case reg_get (pb_deviceId b) reg of
       None \<Rightarrow> (Inl (PlainError (''device '' @ pb_deviceId b @ '' has no provider record to recover'')), (reg, s))
     | Some r \<Rightarrow> engine_rebind hbind hunbind b (pr_provider r) now (reg, s))"

section \<open>The provider router\<close>

definition COMMANDABLE_STATES :: "lifecycle_state list" where
  "COMMANDABLE_STATES = [Bound, Online, Offline]"

definition assertCommandable :: "device_id \<Rightarrow> provider_registry \<Rightarrow> error option" where
  "assertCommandable d reg =
     (case reg_get d reg of
        None \<Rightarrow> Some (SupremeError Backend_unavailable (''device '' @ d @ '' has no provider assigned''))
      | Some r \<Rightarrow>
          (if pr_state r \<notin> set COMMANDABLE_STATES
           then Some (SupremeError Backend_unavailable
             (''device '' @ d @ '' is '' @ lifecycle_name (pr_state r) @ '' '' @ em_dash @
              '' not currently commandable (provider \"'' @ pr_provider r @ ''\")''))
           else None))"

definition router_command ::
  "'h driver_ops \<Rightarrow> device_id \<Rightarrow> capability_command \<Rightarrow>
   (provider_registry \<times> native_adapter \<times> 'h, unit) eff" where
  "router_command ops d c = (\<lambda>(reg, s).
     case assertCommandable d reg of
       Some e \<Rightarrow> (Inl e, (reg, s))
     | None \<Rightarrow> on_host (na_command ops d c) (reg, s))"

definition router_getState ::
  "'h driver_ops \<Rightarrow> device_id \<Rightarrow> capability_kind \<Rightarrow> provider_registry \<times> native_adapter \<times> 'h \<Rightarrow>
   capability_state option" where
  "router_getState ops d k = (\<lambda>(reg, s).
     case reg_get d reg of
       None \<Rightarrow> None
     | Some r \<Rightarrow> if pr_state r \<notin> set COMMANDABLE_STATES then None else na_getState ops d k s)"

definition router_unbindDevice ::
  "(device_id \<Rightarrow> ('s, unit) eff) option \<Rightarrow> device_id \<Rightarrow> timestamp \<Rightarrow> (provider_registry \<times> 's, unit) eff" where
  "router_unbindDevice hunbind d now =
     eff_bind (engine_unbind hunbind d now) (\<lambda>_. \<lambda>(reg, s). (Inr (), (reg_remove d reg, s)))"

definition deviceDiagnostics ::
  "(string \<Rightarrow> 's \<Rightarrow> native_driver option) \<Rightarrow> (native_driver \<Rightarrow> 's \<Rightarrow> bool) \<Rightarrow> device_id \<Rightarrow>
   provider_registry \<times> 's \<Rightarrow> string option \<times> string \<times> binding_health" where
  "deviceDiagnostics hdriver isConn d = (\<lambda>(reg, s).
     (map_option pr_provider (reg_get d reg),
      (case reg_get d reg of None \<Rightarrow> ''UNBOUND'' | Some r \<Rightarrow> lifecycle_name (pr_state r)),
      engine_health hdriver isConn d (reg, s)))"

section \<open>Lemmas\<close>

lemma on_reg_apply: "f reg = (r, reg') \<Longrightarrow> on_reg f (reg, s) = (r, (reg', s))"
  by (simp add: on_reg_def)

lemma on_host_apply: "f s = (r, s') \<Longrightarrow> on_host f (reg, s) = (r, (reg, s'))"
  by (simp add: on_host_def)

text \<open>A legal transition inside a sequence.\<close>

lemma transition_then:
  assumes "reg_ok reg" "state_at d reg = Some st" "canTransition st to"
  obtains reg' where "\<And>k s. eff_bind (on_reg (reg_transition d to now)) k (reg, s) = k () (reg', s)"
    "reg_transition d to now reg = (Inr (), reg')" "reg_ok reg'"
    "\<And>d'. state_at d' reg' = (if d' = d then Some to else state_at d' reg)"
    "\<And>d'. provider_at d' reg' = provider_at d' reg"
proof -
  obtain reg' where reg': "reg_transition d to now reg = (Inr (), reg')" "reg_ok reg'"
    "\<forall>d'. state_at d' reg' = (if d' = d then Some to else state_at d' reg)"
    "\<forall>d'. provider_at d' reg' = provider_at d' reg"
    using reg_transition_legal [OF assms] by blast
  then have "eff_bind (on_reg (reg_transition d to now)) k (reg, s) = k () (reg', s)" for k s
    by (simp add: eff_bind_def on_reg_def)
  with reg' that show thesis by blast
qed

definition entry_state :: "device_id \<Rightarrow> provider_registry \<Rightarrow> lifecycle_state" where
  "entry_state d reg = (case state_at d reg of None \<Rightarrow> Unbound | Some st \<Rightarrow> st)"

definition entry_provider :: "device_id \<Rightarrow> string \<Rightarrow> provider_registry \<Rightarrow> string" where
  "entry_provider d p reg = (case provider_at d reg of None \<Rightarrow> p | Some q \<Rightarrow> q)"

lemma reg_get_None_iff: "reg_get d reg = None \<longleftrightarrow> state_at d reg = None" "reg_get d reg = None \<longleftrightarrow> provider_at d reg = None"
  by (auto simp: state_at_def provider_at_def)

lemma can_transitions [simp]:
  "canTransition Unbound Binding" "canTransition Binding Error_state" "canTransition Binding Bound"
  "canTransition Bound Online" "canTransition Bound Unbound" "canTransition Online Unbound"
  "canTransition Offline Unbound" "canTransition Error_state Unbound" "canTransition Binding Unbound"
  "\<not> canTransition Removed st" "\<not> canTransition Binding Binding"
  by (simp_all add: canTransition_def)

text \<open>
  What one bind does to the registry, in terms of the host's answer: refused, failed or
  done. The provider is only recorded for a device without a record.
\<close>

lemma engine_bind_spec:
  fixes b provider
  defines "d \<equiv> pb_deviceId b"
  assumes "reg_ok reg"
  shows "(\<not> canTransition (entry_state d reg) Binding \<longrightarrow>
      (\<exists>e. engine_bind hbind b provider now (reg, s) = (Inl e, (reg, s)))) \<and>
    (canTransition (entry_state d reg) Binding \<longrightarrow>
      (\<exists>reg'. reg_ok reg' \<and>
        engine_bind hbind b provider now (reg, s) = (fst (hbind b provider s), (reg', snd (hbind b provider s))) \<and>
        (\<forall>d'. state_at d' reg' = (if d' = d
           then Some (case fst (hbind b provider s) of Inl _ \<Rightarrow> Error_state | Inr _ \<Rightarrow> Online)
           else state_at d' reg)) \<and>
        (\<forall>d'. provider_at d' reg' =
          (if d' = d then Some (entry_provider d provider reg) else provider_at d' reg))))"
proof -
  define reg1 where "reg1 = (if reg_get d reg = None then reg_assign d provider (now 0) reg else reg)"
  have reg1: "reg_ok reg1" "state_at d reg1 = Some (entry_state d reg)"
    "provider_at d reg1 = Some (entry_provider d provider reg)"
    "\<And>d'. d' \<noteq> d \<Longrightarrow> state_at d' reg1 = state_at d' reg \<and> provider_at d' reg1 = provider_at d' reg"
    using assms(2) by (auto simp: reg1_def entry_state_def entry_provider_def reg_ok_assign reg_get_None_iff
        split: option.splits) (auto simp: state_at_def provider_at_def)
  show ?thesis
  proof (cases "canTransition (entry_state d reg) Binding")
    case False
    then have "state_at d reg \<noteq> None" by (cases "state_at d reg") (simp_all add: entry_state_def)
    then have "reg1 = reg" by (auto simp: reg1_def reg_get_None_iff(1))
    moreover obtain e where "reg_transition d Binding (now 1) reg1 = (Inl e, reg1)"
      using reg_transition_illegal [OF reg1(2) False] by blast
    ultimately show ?thesis using False
      by (simp add: engine_bind_def d_def [symmetric] reg1_def [symmetric] Let_def eff_bind_def on_reg_def)
  next
    case True
    obtain reg2 where reg2: "reg_transition d Binding (now 1) reg1 = (Inr (), reg2)"
      "reg_ok reg2" "\<And>d'. state_at d' reg2 = (if d' = d then Some Binding else state_at d' reg1)"
      "\<And>d'. provider_at d' reg2 = provider_at d' reg1"
      using transition_then [OF reg1(1,2) True] by metis
    have st2: "state_at d reg2 = Some Binding" using reg2(3) by simp
    obtain res s1 where h: "hbind b provider s = (res, s1)" by fastforce
    show ?thesis
    proof (cases res)
      case (Inl e)
      obtain reg3 where reg3: "reg_transition d Error_state (now 2) reg2 = (Inr (), reg3)" "reg_ok reg3"
        "\<And>d'. state_at d' reg3 = (if d' = d then Some Error_state else state_at d' reg2)"
        "\<And>d'. provider_at d' reg3 = provider_at d' reg2"
        using transition_then [OF reg2(2) st2, of Error_state] by (metis can_transitions(2))
      have "engine_bind hbind b provider now (reg, s) = (Inl e, (reg3, s1))"
        using reg2(1) h Inl reg3(1)
        by (simp add: engine_bind_def d_def [symmetric] reg1_def [symmetric] Let_def)
          (simp add: eff_bind_def eff_catch_def on_reg_def on_host_def)
      with True h Inl reg3 reg2 reg1 show ?thesis by (intro conjI impI exI [of _ reg3]) auto
    next
      case (Inr u)
      obtain reg3 where reg3: "reg_transition d Bound (now 2) reg2 = (Inr (), reg3)" "reg_ok reg3"
        "\<And>d'. state_at d' reg3 = (if d' = d then Some Bound else state_at d' reg2)"
        "\<And>d'. provider_at d' reg3 = provider_at d' reg2"
        using transition_then [OF reg2(2) st2, of Bound] by (metis can_transitions(3))
      have st3: "state_at d reg3 = Some Bound" using reg3(3) by simp
      obtain reg4 where reg4: "reg_transition d Online (now 3) reg3 = (Inr (), reg4)" "reg_ok reg4"
        "\<And>d'. state_at d' reg4 = (if d' = d then Some Online else state_at d' reg3)"
        "\<And>d'. provider_at d' reg4 = provider_at d' reg3"
        using transition_then [OF reg3(2) st3, of Online] by (metis can_transitions(4))
      have "engine_bind hbind b provider now (reg, s) = (Inr (), (reg4, s1))"
        using reg2(1) h Inr reg3(1) reg4(1)
        by (simp add: engine_bind_def d_def [symmetric] reg1_def [symmetric] Let_def)
          (simp add: eff_bind_def eff_catch_def on_reg_def on_host_def)
      with True h Inr reg4 reg3 reg2 reg1 show ?thesis by (intro conjI impI exI [of _ reg4]) auto
    qed
  qed
qed


lemma engine_unbind_spec:
  assumes "reg_ok reg" "\<And>s. \<exists>s'. hunbind d s = (Inr (), s')"
  shows "(state_at d reg \<in> {None, Some Unbound} \<longrightarrow>
      engine_unbind (Some hunbind) d now (reg, s) = (Inr (), (reg, s))) \<and>
    (state_at d reg \<notin> {None, Some Unbound, Some Discovered, Some Registered, Some Removed} \<longrightarrow>
      (\<exists>reg'. reg_ok reg' \<and> engine_unbind (Some hunbind) d now (reg, s) = (Inr (), (reg', snd (hunbind d s))) \<and>
        (\<forall>d'. state_at d' reg' = (if d' = d then Some Unbound else state_at d' reg)) \<and>
        (\<forall>d'. provider_at d' reg' = provider_at d' reg)))"
proof (cases "reg_get d reg")
  case None
  then show ?thesis by (simp add: engine_unbind_def state_at_def)
next
  case (Some r)
  then have st: "state_at d reg = Some (pr_state r)" by (simp add: state_at_def)
  obtain s1 where h: "hunbind d s = (Inr (), s1)" using assms(2) by blast
  show ?thesis
  proof (cases "canTransition (pr_state r) Unbound")
    case True
    then have ne: "pr_state r \<noteq> Unbound" by (auto simp: canTransition_def)
    obtain reg' where reg': "reg_transition d Unbound now reg = (Inr (), reg')" "reg_ok reg'"
      "\<And>d'. state_at d' reg' = (if d' = d then Some Unbound else state_at d' reg)"
      "\<And>d'. provider_at d' reg' = provider_at d' reg"
      using transition_then [OF assms(1) st True] by metis
    have "engine_unbind (Some hunbind) d now (reg, s) = (Inr (), (reg', s1))"
      using Some ne h reg'(1) by (simp add: engine_unbind_def eff_bind_def on_reg_def on_host_def)
    with reg' st ne h show ?thesis by auto
  next
    case False
    then have "pr_state r \<in> {Unbound, Discovered, Registered, Removed}"
      by (cases "pr_state r") (auto simp: canTransition_def)
    with st Some show ?thesis by (auto simp: engine_unbind_def)
  qed
qed

section \<open>Commandable devices have a driver\<close>

text \<open>The states a device of the engine is in between operations.\<close>

definition settled :: "lifecycle_state \<Rightarrow> bool" where
  "settled st \<longleftrightarrow> st \<in> {Unbound, Online, Offline, Bound, Error_state}"

definition binding_inv :: "(device_id \<Rightarrow> 's \<Rightarrow> native_driver option) \<Rightarrow> provider_registry \<times> 's \<Rightarrow> bool" where
  "binding_inv howner = (\<lambda>(reg, s).
     reg_ok reg \<and>
     (\<forall>d st. state_at d reg = Some st \<longrightarrow> settled st) \<and>
     (\<forall>d st. state_at d reg = Some st \<longrightarrow> st \<in> set COMMANDABLE_STATES \<longrightarrow> howner d s \<noteq> None))"

lemma settled_can_bind: "settled st \<Longrightarrow> canTransition st Binding"
  by (auto simp: settled_def canTransition_def)

context driver_host
begin

lemma bind_inv:
  assumes "binding_inv howner (reg, s)" "engine_bind hbind b provider now (reg, s) = (r, t)"
  shows "binding_inv howner t \<and> (r = Inr () \<longrightarrow> howner (pb_deviceId b) (snd t) = hdriver provider s)"
proof -
  let ?d = "pb_deviceId b"
  have ok: "reg_ok reg" and settled: "\<And>d st. state_at d reg = Some st \<Longrightarrow> settled st"
    and own: "\<And>d st. state_at d reg = Some st \<Longrightarrow> st \<in> set COMMANDABLE_STATES \<Longrightarrow> howner d s \<noteq> None"
    using assms(1) by (auto simp: binding_inv_def)
  have "settled (entry_state ?d reg)"
    by (cases "state_at ?d reg") (auto simp: entry_state_def settled_def dest: settled)
  then have can: "canTransition (entry_state ?d reg) Binding" by (rule settled_can_bind)
  obtain res s1 where h: "hbind b provider s = (res, s1)" by fastforce
  obtain reg' where reg': "reg_ok reg'" "r = res" "t = (reg', s1)"
    "\<And>d'. state_at d' reg' = (if d' = ?d then Some (case res of Inl _ \<Rightarrow> Error_state | Inr _ \<Rightarrow> Online)
       else state_at d' reg)"
    using engine_bind_spec [OF ok, of b hbind provider now s] can h assms(2) by auto
  show ?thesis
  proof (cases res)
    case (Inl e)
    then have "howner d s1 = howner d s" for d using bind_fail h by blast
    with reg' Inl settled own show ?thesis
      by (auto simp: binding_inv_def settled_def COMMANDABLE_STATES_def split: if_splits)
  next
    case (Inr u)
    then have "hdriver provider s \<noteq> None" "howner ?d s1 = hdriver provider s"
      "\<And>d. d \<noteq> ?d \<Longrightarrow> howner d s1 = howner d s"
      using bind_ok h by auto
    with reg' Inr settled own show ?thesis
      by (auto simp: binding_inv_def settled_def split: if_splits)
  qed
qed

lemma unbind_inv:
  assumes "binding_inv howner (reg, s)" "engine_unbind (Some hunbind) d now (reg, s) = (r, t)"
    and "\<And>s. \<exists>s'. hunbind d s = (Inr (), s')"
  shows "binding_inv howner t \<and> r = Inr () \<and> state_at d (fst t) \<in> {None, Some Unbound} \<and>
    (\<forall>d'. provider_at d' (fst t) = provider_at d' reg) \<and> (\<forall>p. hdriver p (snd t) = hdriver p s)"
proof -
  have ok: "reg_ok reg" and settled: "\<And>d st. state_at d reg = Some st \<Longrightarrow> settled st"
    and own: "\<And>d st. state_at d reg = Some st \<Longrightarrow> st \<in> set COMMANDABLE_STATES \<Longrightarrow> howner d s \<noteq> None"
    using assms(1) by (auto simp: binding_inv_def)
  note spec = engine_unbind_spec [where hunbind = hunbind and d = d, OF ok assms(3), of now s]
  show ?thesis
  proof (cases "state_at d reg \<in> {None, Some Unbound}")
    case True
    with spec assms(1,2) show ?thesis by auto
  next
    case False
    with settled have "state_at d reg \<notin> {None, Some Unbound, Some Discovered, Some Registered, Some Removed}"
      by (auto simp: settled_def)
    with spec obtain reg' where reg': "reg_ok reg'"
      "engine_unbind (Some hunbind) d now (reg, s) = (Inr (), (reg', snd (hunbind d s)))"
      "\<And>d'. state_at d' reg' = (if d' = d then Some Unbound else state_at d' reg)"
      "\<And>d'. provider_at d' reg' = provider_at d' reg" by blast
    obtain u s1 where h: "hunbind d s = (u, s1)" by fastforce
    from unbind_owner [OF h] unbind_drivers [OF h] h reg' assms(2) settled own show ?thesis
      by (auto simp: binding_inv_def settled_def COMMANDABLE_STATES_def split: if_splits)
  qed
qed

lemma rebind_inv:
  assumes "binding_inv howner (reg, s)" "engine_rebind hbind (Some hunbind) b provider now (reg, s) = (r, t)"
    and "\<And>s. \<exists>s'. hunbind (pb_deviceId b) s = (Inr (), s')"
  shows "binding_inv howner t \<and> (r = Inr () \<longrightarrow> howner (pb_deviceId b) (snd t) = hdriver provider s)"
proof -
  obtain u reg1 s1 where un: "engine_unbind (Some hunbind) (pb_deviceId b) (now 0) (reg, s) = (u, (reg1, s1))"
    using prod.exhaust by metis
  from unbind_inv [OF assms(1) un assms(3)] have inv: "binding_inv howner (reg1, s1)" "u = Inr ()"
    "hdriver provider s1 = hdriver provider s" by simp_all
  with assms(2) un have "engine_bind hbind b provider (\<lambda>i. now (Suc i)) (reg1, s1) = (r, t)"
    by (simp add: engine_rebind_def eff_bind_def)
  from bind_inv [OF inv(1) this] inv(3) show ?thesis by simp
qed

end


section \<open>Properties\<close>

text \<open>Binding over the native engine has exactly three outcomes: from a state that may not begin binding it is refused and
  nothing changes; when the host refuses, the device ends in the error state, no ownership changes and the error is rethrown; otherwise
  the device ends online, owned by the driver of the requested protocol. No other device is touched.\<close>

theorem bind_outcome:
  assumes "reg_ok reg" "engine_bind (na_bind ops) b provider now (reg, s) = (r, (reg', s'))"
  shows "if canTransition (entry_state (pb_deviceId b) reg) Binding
    then (\<forall>d. d = pb_deviceId b \<or> state_at d reg' = state_at d reg \<and> owner_of d s' = owner_of d s) \<and>
      (case r of
         Inl _ \<Rightarrow> state_at (pb_deviceId b) reg' = Some Error_state \<and>
                  owner_of (pb_deviceId b) s' = owner_of (pb_deviceId b) s
       | Inr _ \<Rightarrow> state_at (pb_deviceId b) reg' = Some Online \<and> driver_of provider s \<noteq> None \<and>
                  owner_of (pb_deviceId b) s' = driver_of provider s)
    else (\<exists>e. r = Inl e) \<and> reg' = reg \<and> s' = s"
proof (cases "canTransition (entry_state (pb_deviceId b) reg) Binding")
  case True
  obtain res s1 where h: "na_bind ops b provider s = (res, s1)" by (metis surj_pair)
  obtain reg1 where spec: "engine_bind (na_bind ops) b provider now (reg, s) = (res, (reg1, s1))"
    "\<forall>d'. state_at d' reg1 = (if d' = pb_deviceId b
       then Some (case res of Inl _ \<Rightarrow> Error_state | Inr _ \<Rightarrow> Online) else state_at d' reg)"
    using engine_bind_spec [OF assms(1), of b "na_bind ops" provider now s] True h by auto
  show ?thesis
  proof (cases res)
    case (Inl e)
    with native.bind_fail [of ops b provider s e s1] h spec assms(2) True show ?thesis by auto
  next
    case (Inr u)
    with native.bind_ok [of ops b provider s s1] h spec assms(2) True show ?thesis by auto
  qed
next
  case False
  with engine_bind_spec [OF assms(1), of b "na_bind ops" provider now s] assms(2) show ?thesis by auto
qed

text \<open>
  The states of the registry and the native engine, from an empty registry, under the binding operations, the boot of the engine, its
  drivers' events, and drivers added for protocols that have none. Left out, because each leaves commandable devices without
  a driver (below): a registry loaded from its store, and a driver replaced or removed while it owns devices.
\<close>

inductive binding_reachable :: "'h driver_ops \<Rightarrow> provider_registry \<times> native_adapter \<times> 'h \<Rightarrow> bool" for ops where
  b_start: "binding_reachable ops (new_registry None, na, h)"
| b_bind: "binding_reachable ops t \<Longrightarrow> engine_bind (na_bind ops) b p now t = (r, t') \<Longrightarrow> binding_reachable ops t'"
| b_unbind: "binding_reachable ops t \<Longrightarrow> engine_unbind (Some (na_unbindDevice ops)) d now1 t = (r, t') \<Longrightarrow>
    binding_reachable ops t'"
| b_rebind: "binding_reachable ops t \<Longrightarrow>
    engine_rebind (na_bind ops) (Some (na_unbindDevice ops)) b p now t = (r, t') \<Longrightarrow> binding_reachable ops t'"
| b_recover: "binding_reachable ops t \<Longrightarrow>
    engine_recover (na_bind ops) (Some (na_unbindDevice ops)) b now t = (r, t') \<Longrightarrow> binding_reachable ops t'"
| b_delete: "binding_reachable ops t \<Longrightarrow>
    router_unbindDevice (Some (na_unbindDevice ops)) d now1 t = (r, t') \<Longrightarrow> binding_reachable ops t'"
| b_connect: "binding_reachable ops (reg, s) \<Longrightarrow> binding_reachable ops (reg, na_connect ops sched s)"
| b_event: "binding_reachable ops (reg, na, h) \<Longrightarrow> binding_reachable ops (reg, driver_event d k st observed na, h')"
| b_register: "binding_reachable ops (reg, na, h) \<Longrightarrow> driverFor (nd_protocol dr) na = None \<Longrightarrow>
    binding_reachable ops (reg, registerDriver ops dr (na, h))"

text \<open>A driver's \<^verbatim>\<open>unbind\<close> never throws; its documentation asks that only for devices the driver does not manage.\<close>

definition unbind_total :: "'h driver_ops \<Rightarrow> bool" where
  "unbind_total ops \<longleftrightarrow> (\<forall>i f d h. dr_unbind ops i = Some f \<longrightarrow> (\<exists>h'. f d h = (Inr (), h')))"

lemma na_unbind_total:
  assumes "unbind_total ops"
  shows "\<exists>s'. na_unbindDevice ops d s = (Inr (), s')"
proof -
  obtain na h where s: "s = (na, h)" by fastforce
  show ?thesis
  proof (cases "jget (na_ownerByDevice na) d")
    case (Some ow)
    show ?thesis
    proof (cases "dr_unbind ops (nd_id ow)")
      case (Some f)
      with assms obtain h' where "f d h = (Inr (), h')" unfolding unbind_total_def by blast
      with \<open>jget (na_ownerByDevice na) d = Some ow\<close> Some show ?thesis
        by (simp add: na_unbindDevice_def s Let_def)
    qed (simp add: na_unbindDevice_def s Let_def Some)
  qed (simp add: na_unbindDevice_def s Let_def)
qed

lemma binding_inv_remove: "binding_inv howner (reg, s) \<Longrightarrow> binding_inv howner (reg_remove d reg, s)"
  by (auto simp: binding_inv_def reg_ok_remove state_at_def split: if_splits)

lemma binding_inv_same_owners:
  assumes "binding_inv owner_of (reg, s)" "na_ownerByDevice (fst s') = na_ownerByDevice (fst s)"
  shows "binding_inv owner_of (reg, s')"
  using assms by (cases s; cases s') (simp add: binding_inv_def owner_of_def)

lemma wireDriver_owners [simp]: "na_ownerByDevice (fst (wireDriver ops d s)) = na_ownerByDevice (fst s)"
  by (cases s) (simp add: wireDriver_def split: prod.split sum.split)

lemma wire_all_owners: "na_ownerByDevice (fst (fold (wireDriver ops) ds s)) = na_ownerByDevice (fst s)"
  by (induction ds arbitrary: s) simp_all

lemma connect_owners: "na_ownerByDevice (fst (na_connect ops sched s)) = na_ownerByDevice (fst s)"
  using wire_all_owners [of ops sched s] by (cases s) (simp add: na_connect_def case_prod_unfold Let_def)

lemma binding_reachable_inv:
  assumes "binding_reachable ops t" "unbind_total ops"
  shows "binding_inv owner_of t"
  using assms(1)
proof induction
  case (b_start na h)
  show ?case by (simp add: binding_inv_def reg_ok_def new_registry_def reg_get_def state_at_def)
next
  case (b_bind t b p now r t')
  then show ?case using native.bind_inv by (metis surj_pair)
next
  case (b_unbind t d now1 r t')
  then show ?case using native.unbind_inv na_unbind_total [OF assms(2)] by (metis surj_pair)
next
  case (b_rebind t b p now r t')
  then show ?case using native.rebind_inv na_unbind_total [OF assms(2)] by (metis surj_pair)
next
  case (b_recover t b now r t')
  obtain reg s where t: "t = (reg, s)" by (metis surj_pair)
  show ?case
  proof (cases "reg_get (pb_deviceId b) reg")
    case None
    with b_recover t show ?thesis by (auto simp: engine_recover_def)
  next
    case (Some rec)
    with b_recover t have "engine_rebind (na_bind ops) (Some (na_unbindDevice ops)) b (pr_provider rec) now (reg, s) = (r, t')"
      by (simp add: engine_recover_def)
    with b_recover(3) t show ?thesis using native.rebind_inv na_unbind_total [OF assms(2)] by blast
  qed
next
  case (b_delete t d now1 r t')
  obtain reg s where t: "t = (reg, s)" by (metis surj_pair)
  obtain u reg1 s1 where un: "engine_unbind (Some (na_unbindDevice ops)) d now1 (reg, s) = (u, (reg1, s1))"
    using prod.exhaust by metis
  from native.unbind_inv [OF b_delete(3) [unfolded t] un na_unbind_total [OF assms(2)]]
  have inv: "binding_inv owner_of (reg1, s1)" "u = Inr ()" by simp_all
  with b_delete(2) t un have "t' = (reg_remove d reg1, s1)" by (simp add: router_unbindDevice_def eff_bind_def)
  with inv(1) show ?case by (simp add: binding_inv_remove)
next
  case (b_connect reg s sched)
  from b_connect(2) show ?case by (rule binding_inv_same_owners) (simp add: connect_owners)
next
  case (b_event reg na h d k st observed h')
  from b_event(2) show ?case by (rule binding_inv_same_owners) (simp add: driver_event_def)
next
  case (b_register reg na h dr)
  have "na_ownerByDevice (fst (registerDriver ops dr (na, h))) = na_ownerByDevice na"
    using b_register(2) by (simp add: registerDriver_def unregisterProtocol_def)
  then show ?case by (intro binding_inv_same_owners [OF b_register(3)]) simp
qed

lemma commandable_owned:
  assumes "binding_reachable ops (reg, na, h)" "unbind_total ops" "assertCommandable d reg = None"
  shows "\<exists>ow. jget (na_ownerByDevice na) d = Some ow"
proof -
  from assms(3) obtain r where "reg_get d reg = Some r" "pr_state r \<in> set COMMANDABLE_STATES"
    by (auto simp: assertCommandable_def split: option.splits if_splits)
  moreover from this have "state_at d reg = Some (pr_state r)" by (simp add: state_at_def)
  moreover have "\<forall>d st. state_at d reg = Some st \<longrightarrow> st \<in> set COMMANDABLE_STATES \<longrightarrow> owner_of d (na, h) \<noteq> None"
    using binding_reachable_inv [OF assms(1,2)] by (simp add: binding_inv_def)
  ultimately show ?thesis by (auto simp: owner_of_def)
qed

text \<open>C29: A command is for the device's own driver or for none. In any state of a connected engine: when the device is not
  commandable, the command fails with its lifecycle state and touches nothing; when a driver owns the device, that driver alone is
  called, its answer is passed on and the hub's state stays; when none owns it, no driver is called, and the command fails, or is answered
  locally where the engine simulates. A commandable device has an owner as long as the registry started empty, drivers were only
  added for protocols without one and their unbind does not throw, whatever binding operations came before; a registry loaded at
  start, a replaced driver or a throwing unbind leaves a commandable device without one (findings).\<close>

theorem commandable_device_reaches_driver:
  assumes "na_connected na"
  shows "(case assertCommandable d reg of
      Some e \<Rightarrow> router_command ops d c (reg, na, h) = (Inl e, (reg, na, h))
    | None \<Rightarrow>
        (case jget (na_ownerByDevice na) d of
          Some ow \<Rightarrow> router_command ops d c (reg, na, h) =
            (fst (dr_command ops (nd_id ow) d c h), (reg, na, snd (dr_command ops (nd_id ow) d c h)))
        | None \<Rightarrow>
          (if na_simulate na
           then \<exists>na'. router_command ops d c (reg, na, h) = (Inr (), (reg, na', h)) \<and> na_ownerByDevice na' = na_ownerByDevice na
           else router_command ops d c (reg, na, h) =
             (Inl (SupremeError Backend_unavailable (''device '' @ d @ '' has no bound driver'')), (reg, na, h))))) \<and>
    (binding_reachable ops (reg, na, h) \<and> unbind_total ops \<and> assertCommandable d reg = None \<longrightarrow>
      (\<exists>ow. jget (na_ownerByDevice na) d = Some ow))"
proof
  show "case assertCommandable d reg of
      Some e \<Rightarrow> router_command ops d c (reg, na, h) = (Inl e, (reg, na, h))
    | None \<Rightarrow>
        (case jget (na_ownerByDevice na) d of
          Some ow \<Rightarrow> router_command ops d c (reg, na, h) =
            (fst (dr_command ops (nd_id ow) d c h), (reg, na, snd (dr_command ops (nd_id ow) d c h)))
        | None \<Rightarrow>
          (if na_simulate na
           then \<exists>na'. router_command ops d c (reg, na, h) = (Inr (), (reg, na', h)) \<and> na_ownerByDevice na' = na_ownerByDevice na
           else router_command ops d c (reg, na, h) =
             (Inl (SupremeError Backend_unavailable (''device '' @ d @ '' has no bound driver'')), (reg, na, h))))"
    using assms by (auto simp: router_command_def na_command_def on_host_def Let_def split: option.split prod.split)
  show "binding_reachable ops (reg, na, h) \<and> unbind_total ops \<and> assertCommandable d reg = None \<longrightarrow>
      (\<exists>ow. jget (na_ownerByDevice na) d = Some ow)"
    by (intro impI, elim conjE) (rule commandable_owned)
qed

lemma engine_bind_provider:
  assumes "reg_ok reg" "engine_bind hbind b provider now (reg, s) = (r, (reg', s'))"
    and "provider_at (pb_deviceId b) reg = Some p"
  shows "provider_at (pb_deviceId b) reg' = Some p"
  using engine_bind_spec [OF assms(1), of b hbind provider now s] assms(2,3)
  by (cases "canTransition (entry_state (pb_deviceId b) reg) Binding") (auto simp: entry_provider_def)

text \<open>Rebinding a device onto another provider leaves the registry's provider at the old one: the device is online and
  owned by the new protocol's driver, yet with the old driver gone its health reports it unbound and validation fails.\<close>

theorem rebind_keeps_stale_provider:
  assumes "binding_reachable ops (reg, s)" "unbind_total ops"
    and "provider_at (pb_deviceId b) reg = Some old" "driver_of old s = None"
    and "engine_rebind (na_bind ops) (Some (na_unbindDevice ops)) b provider now (reg, s) = (Inr (), (reg', s'))"
  shows "owner_of (pb_deviceId b) s' = driver_of provider s \<and> owner_of (pb_deviceId b) s' \<noteq> None \<and>
    state_at (pb_deviceId b) reg' = Some Online \<and>
    \<not> bh_bound (engine_health driver_of isConn (pb_deviceId b) (reg', s')) \<and>
    \<not> fst (engine_validate driver_of (pb_deviceId b) (reg', s'))"
proof -
  let ?d = "pb_deviceId b"
  note inv = binding_reachable_inv [OF assms(1,2)]
  obtain u reg1 s1 where un: "engine_unbind (Some (na_unbindDevice ops)) ?d (now 0) (reg, s) = (u, (reg1, s1))"
    using prod.exhaust by metis
  from native.unbind_inv [OF inv un na_unbind_total [OF assms(2)]]
  have one: "binding_inv owner_of (reg1, s1)" "u = Inr ()" "provider_at ?d reg1 = Some old" "\<And>p. driver_of p s1 = driver_of p s"
    using assms(3) by simp_all
  with assms(5) un have bind: "engine_bind (na_bind ops) b provider (\<lambda>i. now (Suc i)) (reg1, s1) = (Inr (), (reg', s'))"
    by (simp add: engine_rebind_def eff_bind_def)
  have ok: "reg_ok reg1" using one(1) by (simp add: binding_inv_def)
  have two: "provider_at ?d reg' = Some old" using engine_bind_provider [OF ok bind one(3)] .
  obtain res s2 where h: "na_bind ops b provider s1 = (res, s2)" by (metis surj_pair)
  have settled: "canTransition (entry_state ?d reg1) Binding"
    using one(1) by (cases "state_at ?d reg1") (auto simp: entry_state_def binding_inv_def dest: settled_can_bind)
  from engine_bind_spec [OF ok, of b "na_bind ops" provider "\<lambda>i. now (Suc i)" s1] settled h bind
  have res: "res = Inr ()" "s2 = s'" "state_at ?d reg' = Some Online" by auto
  from native.bind_ok [of ops b provider s1 s'] h res
  have own: "owner_of ?d s' = driver_of provider s" "driver_of provider s \<noteq> None" using one(4) by simp_all
  have "driver_of old s' = None" using native.bind_drivers [OF h, of old] res one(4) assms(4) by simp
  moreover obtain r where "reg_get ?d reg' = Some r" "pr_provider r = old" "pr_state r = Online"
    using two res(3) by (auto simp: provider_at_def state_at_def)
  ultimately show ?thesis using own res(3) by (auto simp: engine_health_def engine_validate_def)
qed

text \<open>A device whose bind has just failed reports itself bound, with no error, whenever its protocol has a driver,
  although it is in the error state and no driver took it.\<close>

theorem failed_bind_reports_bound:
  assumes "reg_ok reg" "state_at (pb_deviceId b) reg = None" "driver_of provider s = Some dr"
    and "engine_bind (na_bind ops) b provider now (reg, s) = (Inl e, (reg', s'))"
  shows "state_at (pb_deviceId b) reg' = Some Error_state \<and>
    owner_of (pb_deviceId b) s' = owner_of (pb_deviceId b) s \<and>
    engine_health driver_of isConn (pb_deviceId b) (reg', s') =
      \<lparr>bh_bound = True, bh_connected = isConn dr s', bh_error = None\<rparr>"
proof -
  let ?d = "pb_deviceId b"
  obtain res s1 where h: "na_bind ops b provider s = (res, s1)" by (metis surj_pair)
  have entry: "entry_state ?d reg = Unbound" "entry_provider ?d provider reg = provider"
    using assms(2) by (simp_all add: entry_state_def entry_provider_def provider_at_def state_at_def)
  from engine_bind_spec [OF assms(1), of b "na_bind ops" provider now s] entry h assms(4)
  have res: "res = Inl e" "s1 = s'" "state_at ?d reg' = Some Error_state" "provider_at ?d reg' = Some provider"
    by auto
  then obtain r where "reg_get ?d reg' = Some r" "pr_provider r = provider" "pr_state r = Error_state"
    by (auto simp: provider_at_def state_at_def)
  moreover have "driver_of provider s' = Some dr" using native.bind_drivers [OF h, of provider] res assms(3) by simp
  moreover have "owner_of ?d s' = owner_of ?d s" using native.bind_fail [of ops b provider s e s' ?d] h res by simp
  ultimately show ?thesis using res(3) by (simp add: engine_health_def)
qed

section \<open>A concrete host\<close>

text \<open>Two drivers on a bus that counts its writes; the second refuses to bind.\<close>

definition demo_ops :: "nat driver_ops" where
  "demo_ops = \<lparr>dr_connect = (\<lambda>i h. (Inr (), h)), dr_disconnect = (\<lambda>i h. (Inr (), h)),
     dr_isConnected = (\<lambda>i h. True),
     dr_bind = (\<lambda>i b h. if i = 1 then (Inr (), h) else (Inl (PlainError ''no answer''), h)),
     dr_unbind = (\<lambda>i. None), dr_command = (\<lambda>i d c h. (Inr (), Suc h)),
     dr_getState = (\<lambda>i d k h. None)\<rparr>"

definition demo_native :: native_adapter where
  "demo_native = (new_native [\<lparr>nd_id = 1, nd_protocol = ''knx''\<rparr>, \<lparr>nd_id = 2, nd_protocol = ''mqtt''\<rparr>] False)
     \<lparr>na_connected := True\<rparr>"

definition demo_binding :: protocol_binding where
  "demo_binding = \<lparr>pb_deviceId = ''d1'', pb_capability = CkOnoff, pb_address = ''1/2/3'', pb_config = None\<rparr>"

lemma demo_unbind_total: "unbind_total demo_ops"
  by (simp add: unbind_total_def demo_ops_def)

definition demo_bound :: "provider_registry \<times> native_adapter \<times> nat" where
  "demo_bound = snd (engine_bind (na_bind demo_ops) demo_binding ''knx'' (\<lambda>_. 0) (new_registry None, demo_native, 0))"

lemma demo_bound_reachable: "binding_reachable demo_ops demo_bound"
  unfolding demo_bound_def by (rule b_bind [OF b_start prod.collapse [symmetric]])

lemma new_registry_ok: "reg_ok (new_registry None)"
  by (simp add: reg_ok_def new_registry_def reg_get_def)

lemma bind_outcome_witness:
  "state_at ''d1'' (fst demo_bound) = Some Online \<and>
   owner_of ''d1'' (snd demo_bound) = Some \<lparr>nd_id = 1, nd_protocol = ''knx''\<rparr>"
proof -
  let ?x = "engine_bind (na_bind demo_ops) demo_binding ''knx'' (\<lambda>_. 0) (new_registry None, demo_native, 0)"
  have "?x = (fst ?x, (fst demo_bound, snd demo_bound))" by (simp add: demo_bound_def)
  note out = bind_outcome [OF new_registry_ok this]
  have "fst ?x = Inr ()" "driver_of ''knx'' (demo_native, 0 :: nat) = Some \<lparr>nd_id = 1, nd_protocol = ''knx''\<rparr>"
    "entry_state (pb_deviceId demo_binding) (new_registry None) = Unbound" "pb_deviceId demo_binding = ''d1''"
    by code_simp+
  with out show ?thesis by simp
qed

lemma commandable_device_reaches_driver_witness:
  "router_command demo_ops ''d1'' (CmdOnoff OoOn) demo_bound =
     (Inr (), (fst demo_bound, fst (snd demo_bound), 1)) \<and> jget (na_ownerByDevice (fst (snd demo_bound))) ''d1'' \<noteq> None"
proof -
  have "demo_bound = (fst demo_bound, fst (snd demo_bound), 0)" "na_connected (fst (snd demo_bound))"
    "assertCommandable ''d1'' (fst demo_bound) = None" by code_simp+
  with commandable_device_reaches_driver [where na = "fst (snd demo_bound)" and d = "''d1''" and reg = "fst demo_bound"
    and ops = demo_ops and c = "CmdOnoff OoOn" and h = 0]
    demo_bound_reachable demo_unbind_total
  show ?thesis by (auto simp: demo_ops_def)
qed

lemma failed_bind_reports_bound_witness:
  "bh_bound (engine_health driver_of (\<lambda>_ _. False) ''d1''
     (snd (engine_bind (na_bind demo_ops) demo_binding ''mqtt'' (\<lambda>_. 0) (new_registry None, demo_native, 0))))"
proof -
  let ?x = "engine_bind (na_bind demo_ops) demo_binding ''mqtt'' (\<lambda>_. 0) (new_registry None, demo_native, 0)"
  have "fst ?x = Inl (PlainError ''no answer'')" by code_simp
  then have x: "?x = (Inl (PlainError ''no answer''), (fst (snd ?x), snd (snd ?x)))" by (metis prod.collapse)
  have "state_at (pb_deviceId demo_binding) (new_registry None) = None"
    "driver_of ''mqtt'' (demo_native, 0 :: nat) = Some \<lparr>nd_id = 2, nd_protocol = ''mqtt''\<rparr>" by code_simp+
  from failed_bind_reports_bound [OF new_registry_ok this x, of "\<lambda>_ _. False"] show ?thesis
    by (simp add: demo_binding_def)
qed


definition demo_failed :: "provider_registry \<times> native_adapter \<times> nat" where
  "demo_failed = snd (engine_bind (na_bind demo_ops) demo_binding ''zwave'' (\<lambda>_. 0) (new_registry None, demo_native, 0))"

definition demo_rebound :: "provider_registry \<times> native_adapter \<times> nat" where
  "demo_rebound = snd (engine_rebind (na_bind demo_ops) (Some (na_unbindDevice demo_ops)) demo_binding ''knx''
     (\<lambda>_. 0) demo_failed)"

lemma rebind_keeps_stale_provider_witness:
  "owner_of ''d1'' (snd demo_rebound) = Some \<lparr>nd_id = 1, nd_protocol = ''knx''\<rparr> \<and>
   state_at ''d1'' (fst demo_rebound) = Some Online \<and>
   \<not> bh_bound (engine_health driver_of (\<lambda>_ _. True) ''d1'' demo_rebound)"
proof -
  let ?x = "engine_rebind (na_bind demo_ops) (Some (na_unbindDevice demo_ops)) demo_binding ''knx'' (\<lambda>_. 0)
    (fst demo_failed, snd demo_failed)"
  have "fst ?x = Inr ()" by code_simp
  then have x: "?x = (Inr (), (fst demo_rebound, snd demo_rebound))" by (simp add: demo_rebound_def prod_eq_iff)
  have r: "binding_reachable demo_ops (fst demo_failed, snd demo_failed)"
    unfolding demo_failed_def prod.collapse by (rule b_bind [OF b_start prod.collapse [symmetric]])
  have "provider_at (pb_deviceId demo_binding) (fst demo_failed) = Some ''zwave''"
    "driver_of ''zwave'' (snd demo_failed) = None"
    "driver_of ''knx'' (snd demo_failed) = Some \<lparr>nd_id = 1, nd_protocol = ''knx''\<rparr>" by code_simp+
  with rebind_keeps_stale_provider [OF r demo_unbind_total this(1,2) x, of "\<lambda>_ _. True"]
  show ?thesis by (simp add: demo_binding_def)
qed

text \<open>
  Three ways to a commandable device without a driver. A registry loaded from its store brings back devices that are online, before
  any of them is bound. A driver registered again for its protocol drops the owners and leaves the devices online. A driver whose
  unbind throws loses the device while its lifecycle stays online.
\<close>

theorem hydrated_device_unowned:
  assumes "reg_get d (hydrate reg) = Some r" "pr_state r = Online"
  shows "assertCommandable d (hydrate reg) = None \<and>
    jget (na_ownerByDevice (fst (na_connect ops ds (new_native ds False, h)))) d = None"
  using assms connect_owners [of ops ds "(new_native ds False, h)"]
  by (simp add: assertCommandable_def COMMANDABLE_STATES_def new_native_def)

lemma replaced_driver_drops_owner:
  "assertCommandable ''d1'' (fst demo_bound) = None \<and>
   jget (na_ownerByDevice (fst (registerDriver demo_ops \<lparr>nd_id = 3, nd_protocol = ''knx''\<rparr> (snd demo_bound)))) ''d1'' = None"
  by code_simp

definition throwing_ops :: "nat driver_ops" where
  "throwing_ops = demo_ops\<lparr>dr_unbind := (\<lambda>i. Some (\<lambda>d h. (Inl (PlainError ''bus gone''), h)))\<rparr>"

lemma throwing_unbind_orphans:
  "assertCommandable ''d1'' (fst (snd (engine_unbind (Some (na_unbindDevice throwing_ops)) ''d1'' 0 demo_bound))) = None \<and>
   jget (na_ownerByDevice (fst (snd (snd (engine_unbind (Some (na_unbindDevice throwing_ops)) ''d1'' 0 demo_bound))))) ''d1'' = None"
  by code_simp

lemma hydrated_device_unowned_witness:
  "jget (na_ownerByDevice (fst (na_connect demo_ops [] (new_native [] False, 0)))) ''d1'' = None"
proof -
  let ?reg = "new_registry (Some [(''d1'', \<lparr>pr_deviceId = ''d1'', pr_provider = ''knx'', pr_state = Online, pr_updatedAt = 0\<rparr>)])"
  have "reg_get ''d1'' (hydrate ?reg) = Some \<lparr>pr_deviceId = ''d1'', pr_provider = ''knx'', pr_state = Online, pr_updatedAt = 0\<rparr>" by code_simp
  from hydrated_device_unowned [OF this, of demo_ops "[]" 0] show ?thesis by simp
qed

end
