(* ===== verification/Permissions.thy ===== *)
theory Permissions
  imports Condition_Eval
begin

text \<open>
  The authorization of the hub (\<^verbatim>\<open>services/permissions/src\<close>): the RBAC baseline of the user
  types (\<^verbatim>\<open>roles.ts\<close>), the policy engine that layers time-bound grants over it (\<^verbatim>\<open>policy.ts\<close>) and
  the grant store (\<^verbatim>\<open>grant-store.ts\<close>), on the user model of \<^verbatim>\<open>packages/domain-model/src/users.ts\<close>.
\<close>

section \<open>Users and grants\<close>

datatype user_type =
    Master | Admin | Homeowner | Family | Child | Guest | Staff | Installer | Service_engineer
  | Developer

datatype user_status = Active | Suspended | Expired

datatype resource_type =
    RtRoom | RtDevice | RtScene | RtAutomation | RtCamera | RtIntegration | RtUser | RtHome
  | RtKeypad_mapping | RtIntent

datatype action = View | Control | Create | Update | Delete | AdminAction

datatype effect = Allow | Deny

record user =
  u_id :: user_id
  u_homeId :: home_id
  u_email :: string
  u_username :: "string option"
  u_phone :: "string option"
  u_displayName :: string
  u_userType :: user_type
  u_status :: user_status
  u_emailVerified :: bool
  u_createdAt :: timestamp
  u_expiresAt :: "timestamp option"

record grant =
  g_id :: grant_id
  g_userId :: user_id
  g_resourceType :: resource_type
  g_resourceId :: "string option"
  g_action :: action
  g_effect :: effect
  g_validFrom :: "timestamp option"
  g_validUntil :: "timestamp option"
  g_schedule :: "schedule_window list option"

section \<open>The RBAC baseline\<close>

definition ALL_ACTIONS :: "action list" where
  "ALL_ACTIONS = [View, Control, Create, Update, Delete, AdminAction]"

definition VIEW_CONTROL :: "action list" where
  "VIEW_CONTROL = [View, Control]"

fun BASELINE_ROLES :: "user_type \<Rightarrow> resource_type \<Rightarrow> action list option" where
  "BASELINE_ROLES Master _ = Some ALL_ACTIONS"
| "BASELINE_ROLES Admin r = (case r of
     RtHome \<Rightarrow> Some [View, Update, AdminAction] | RtUser \<Rightarrow> Some [View, Create, Update] | _ \<Rightarrow> Some ALL_ACTIONS)"
| "BASELINE_ROLES Homeowner r = (case r of
     RtHome \<Rightarrow> Some [View, Update] | RtRoom \<Rightarrow> Some ALL_ACTIONS | RtDevice \<Rightarrow> Some VIEW_CONTROL
   | RtScene \<Rightarrow> Some [View, Control, Create, Update, Delete]
   | RtAutomation \<Rightarrow> Some [View, Control, Create, Update] | RtCamera \<Rightarrow> Some VIEW_CONTROL
   | RtIntegration \<Rightarrow> Some [View, Control, Create, Update, Delete] | RtUser \<Rightarrow> Some [View]
   | RtKeypad_mapping \<Rightarrow> Some [View, Control, Create, Update] | RtIntent \<Rightarrow> Some [View, Control])"
| "BASELINE_ROLES Family r = (case r of
     RtHome \<Rightarrow> Some [View] | RtRoom \<Rightarrow> Some VIEW_CONTROL | RtDevice \<Rightarrow> Some VIEW_CONTROL
   | RtScene \<Rightarrow> Some [View, Control, Create, Update] | RtAutomation \<Rightarrow> Some [View, Control]
   | RtCamera \<Rightarrow> Some [View] | RtKeypad_mapping \<Rightarrow> Some [View] | RtIntent \<Rightarrow> Some [View] | _ \<Rightarrow> None)"
| "BASELINE_ROLES Child r = (case r of
     RtHome \<Rightarrow> Some [View] | RtRoom \<Rightarrow> Some VIEW_CONTROL | RtDevice \<Rightarrow> Some VIEW_CONTROL
   | RtScene \<Rightarrow> Some [View, Control] | _ \<Rightarrow> None)"
| "BASELINE_ROLES Guest r = (case r of
     RtRoom \<Rightarrow> Some VIEW_CONTROL | RtDevice \<Rightarrow> Some VIEW_CONTROL | RtScene \<Rightarrow> Some [View, Control]
   | _ \<Rightarrow> None)"
| "BASELINE_ROLES Staff r = (case r of
     RtRoom \<Rightarrow> Some VIEW_CONTROL | RtDevice \<Rightarrow> Some VIEW_CONTROL | RtScene \<Rightarrow> Some [View, Control]
   | _ \<Rightarrow> None)"
| "BASELINE_ROLES Installer r = (case r of RtUser \<Rightarrow> None | RtHome \<Rightarrow> None | _ \<Rightarrow> Some ALL_ACTIONS)"
| "BASELINE_ROLES Service_engineer r = (case r of
     RtRoom \<Rightarrow> Some VIEW_CONTROL | RtDevice \<Rightarrow> Some VIEW_CONTROL | RtScene \<Rightarrow> Some [View, Control]
   | RtAutomation \<Rightarrow> Some [View] | RtIntegration \<Rightarrow> Some [View] | RtCamera \<Rightarrow> Some [View]
   | RtKeypad_mapping \<Rightarrow> Some [View] | RtIntent \<Rightarrow> Some [View] | _ \<Rightarrow> None)"
| "BASELINE_ROLES Developer r = (case r of RtUser \<Rightarrow> None | RtHome \<Rightarrow> None | _ \<Rightarrow> Some ALL_ACTIONS)"

definition baselineAllows :: "user_type \<Rightarrow> resource_type \<Rightarrow> action \<Rightarrow> bool" where
  "baselineAllows ut r a = (case BASELINE_ROLES ut r of None \<Rightarrow> False | Some as \<Rightarrow> a \<in> set as)"

definition ASSIGNABLE_ROLES :: "user_type list" where
  "ASSIGNABLE_ROLES =
     [Master, Admin, Homeowner, Family, Guest, Installer, Developer, Service_engineer]"

section \<open>The policy engine\<close>

record access_request =
  rq_user :: user
  rq_resourceType :: resource_type
  rq_resourceId :: "string option"
  rq_action :: action
  rq_now :: date

datatype decision_reason =
    UserIs user_status | AccessExpired | ExplicitDeny | MatchedAllow | Baseline user_type | NoMatch

record decision =
  allowed :: bool
  reason :: decision_reason

text \<open>\<^verbatim>\<open>toMinutes\<close> of \<^verbatim>\<open>policy.ts\<close> is a copy of the one of \<^verbatim>\<open>condition-eval.ts\<close>.\<close>

definition inSchedule :: "schedule_window list \<Rightarrow> date \<Rightarrow> bool" where
  "inSchedule windows now =
     (if windows = [] then True
      else
        (let day = getDay now; minutes = minutes_of now
         in list_ex (\<lambda>w. if day \<notin> set (sw_days w) then False
                         else in_minutes minutes (toMinutes (sw_start w)) (toMinutes (sw_end w)))
              windows))"

definition matches :: "grant \<Rightarrow> access_request \<Rightarrow> date \<Rightarrow> bool" where
  "matches g req now =
     (if g_userId g \<noteq> u_id (rq_user req) then False
      else if g_resourceType g \<noteq> rq_resourceType req then False
      else if g_action g \<noteq> rq_action req then False
      else if g_resourceId g \<noteq> None \<and> g_resourceId g \<noteq> rq_resourceId req then False
      else if (case g_validFrom g of None \<Rightarrow> False | Some t \<Rightarrow> t > getTime now) then False
      else if (case g_validUntil g of None \<Rightarrow> False | Some t \<Rightarrow> t \<le> getTime now) then False
      else if (case g_schedule g of None \<Rightarrow> False | Some ws \<Rightarrow> \<not> inSchedule ws now) then False
      else True)"

definition decide :: "access_request \<Rightarrow> grant list \<Rightarrow> decision" where
  "decide req grants =
     (let now = rq_now req; u = rq_user req in
      if u_status u \<noteq> Active then \<lparr>allowed = False, reason = UserIs (u_status u)\<rparr>
      else if (case u_expiresAt u of None \<Rightarrow> False | Some t \<Rightarrow> t \<le> getTime now)
      then \<lparr>allowed = False, reason = AccessExpired\<rparr>
      else
        (let applicable = filter (\<lambda>g. matches g req now) grants in
         if list_ex (\<lambda>g. g_effect g = Deny) applicable then \<lparr>allowed = False, reason = ExplicitDeny\<rparr>
         else if list_ex (\<lambda>g. g_effect g = Allow) applicable
         then \<lparr>allowed = True, reason = MatchedAllow\<rparr>
         else if baselineAllows (u_userType u) (rq_resourceType req) (rq_action req)
         then \<lparr>allowed = True, reason = Baseline (u_userType u)\<rparr>
         else \<lparr>allowed = False, reason = NoMatch\<rparr>))"

fun status_name :: "user_status \<Rightarrow> string" where
  "status_name Active = ''active''"
| "status_name Suspended = ''suspended''"
| "status_name Expired = ''expired''"

fun user_type_name :: "user_type \<Rightarrow> string" where
  "user_type_name Master = ''master''"
| "user_type_name Admin = ''admin''"
| "user_type_name Homeowner = ''homeowner''"
| "user_type_name Family = ''family''"
| "user_type_name Child = ''child''"
| "user_type_name Guest = ''guest''"
| "user_type_name Staff = ''staff''"
| "user_type_name Installer = ''installer''"
| "user_type_name Service_engineer = ''service_engineer''"
| "user_type_name Developer = ''developer''"

fun reason_text :: "decision_reason \<Rightarrow> string" where
  "reason_text (UserIs s) = ''user is '' @ status_name s"
| "reason_text AccessExpired = ''user access has expired''"
| "reason_text ExplicitDeny = ''explicit deny grant''"
| "reason_text MatchedAllow = ''matched allow grant''"
| "reason_text (Baseline t) = user_type_name t @ '' baseline''"
| "reason_text NoMatch = ''no matching grant or baseline''"

definition enforce :: "access_request \<Rightarrow> grant list \<Rightarrow> error + unit" where
  "enforce req grants =
     (let d = decide req grants
      in if \<not> allowed d
         then Inl (SupremeError Forbidden (''not permitted: '' @ reason_text (reason d)))
         else Inr ())"

section \<open>The grant store\<close>

type_synonym grant_store = "(user_id, grant list) jsmap"

definition listForUser :: "grant_store \<Rightarrow> user_id \<Rightarrow> grant list" where
  "listForUser st u = (case jget st u of None \<Rightarrow> [] | Some gs \<Rightarrow> gs)"

definition add_grant :: "grant \<Rightarrow> grant_store \<Rightarrow> grant_store" where
  "add_grant g st = jset (g_userId g) (listForUser st (g_userId g) @ [g]) st"

definition remove_grant :: "grant_id \<Rightarrow> grant_store \<Rightarrow> grant_store" where
  "remove_grant i st = map (\<lambda>(u, gs). (u, filter (\<lambda>g. g_id g \<noteq> i) gs)) st"

record create_grant_input =
  gi_userId :: user_id
  gi_resourceType :: resource_type
  gi_resourceId :: "string option"
  gi_action :: action
  gi_effect :: "effect option"
  gi_validFrom :: "timestamp option"
  gi_validUntil :: "timestamp option"
  gi_schedule :: "schedule_window list option"

definition buildGrant :: "grant_id \<Rightarrow> create_grant_input \<Rightarrow> grant" where
  "buildGrant newId i =
     \<lparr>g_id = newId, g_userId = gi_userId i, g_resourceType = gi_resourceType i,
      g_resourceId = gi_resourceId i, g_action = gi_action i,
      g_effect = (case gi_effect i of None \<Rightarrow> Allow | Some e \<Rightarrow> e),
      g_validFrom = gi_validFrom i, g_validUntil = gi_validUntil i, g_schedule = gi_schedule i\<rparr>"

section \<open>Lemmas\<close>

definition live :: "access_request \<Rightarrow> bool" where
  "live req \<longleftrightarrow> u_status (rq_user req) = Active \<and>
     (case u_expiresAt (rq_user req) of None \<Rightarrow> True | Some t \<Rightarrow> getTime (rq_now req) < t)"

definition applicable :: "effect \<Rightarrow> access_request \<Rightarrow> grant list \<Rightarrow> bool" where
  "applicable e req grants \<longleftrightarrow> (\<exists>g\<in>set grants. matches g req (rq_now req) \<and> g_effect g = e)"

lemma decide_applicable:
  "decide req grants =
     (if u_status (rq_user req) \<noteq> Active then \<lparr>allowed = False, reason = UserIs (u_status (rq_user req))\<rparr>
      else if \<not> live req then \<lparr>allowed = False, reason = AccessExpired\<rparr>
      else if applicable Deny req grants then \<lparr>allowed = False, reason = ExplicitDeny\<rparr>
      else if applicable Allow req grants then \<lparr>allowed = True, reason = MatchedAllow\<rparr>
      else if baselineAllows (u_userType (rq_user req)) (rq_resourceType req) (rq_action req)
      then \<lparr>allowed = True, reason = Baseline (u_userType (rq_user req))\<rparr>
      else \<lparr>allowed = False, reason = NoMatch\<rparr>)"
  by (auto simp: decide_def live_def applicable_def Let_def list_ex_iff split: option.splits)

lemma allowed_iff:
  "allowed (decide req grants) \<longleftrightarrow>
     live req \<and> \<not> applicable Deny req grants \<and>
     (applicable Allow req grants \<or>
      baselineAllows (u_userType (rq_user req)) (rq_resourceType req) (rq_action req))"
  by (auto simp: decide_applicable live_def)

lemma inSchedule_iff:
  "inSchedule ws now \<longleftrightarrow> ws = [] \<or> (\<exists>w\<in>set ws. isWithinScheduleWindow w now)"
  by (auto simp: inSchedule_def isWithinScheduleWindow_def list_ex_iff Let_def)

lemma isWithin_needs_order:
  "isWithinScheduleWindow w now \<Longrightarrow>
   \<exists>s e. toMinutes (sw_start w) = Some s \<and> toMinutes (sw_end w) = Some e \<and> s < e"
  by (auto simp: isWithinScheduleWindow_def dest!: in_minutes_order)

lemma listForUser_add:
  "listForUser (add_grant g st) u =
     listForUser st u @ (if g_userId g = u then [g] else [])"
  by (simp add: listForUser_def add_grant_def)

lemma map_of_map_pair: "map_of (map (\<lambda>(u, x). (u, f x)) m) k = map_option f (map_of m k)"
  by (induction m) auto

lemma listForUser_remove:
  "listForUser (remove_grant i st) u = filter (\<lambda>g. g_id g \<noteq> i) (listForUser st u)"
  by (simp add: listForUser_def remove_grant_def map_of_map_pair split: option.splits)

lemma applicable_set_cong: "set gs = set gs' \<Longrightarrow> applicable e req gs = applicable e req gs'"
  by (simp add: applicable_def)

section \<open>Properties\<close>

text \<open>
  What a grant reaches, spelled out apart from the engine's own test: whom, what kind of thing, which one, which action, and when: from its
  first moment until just before its end, and, when it has a schedule, on a listed day between the two times of a window, read off the
  clock face as the schema writes them.
\<close>

definition face :: "char \<Rightarrow> nat" where
  "face c = of_char c - 48"

fun clock_minutes :: "string \<Rightarrow> nat" where
  "clock_minutes [a, b, c, d, e] = 60 * (10 * face a + face b) + (10 * face d + face e)"
| "clock_minutes _ = 0"

definition window_covers :: "date \<Rightarrow> schedule_window \<Rightarrow> bool" where
  "window_covers now w \<longleftrightarrow> getDay now \<in> set (sw_days w) \<and> clock_minutes (sw_start w) \<le> 60 * getHours now + getMinutes now \<and>
     60 * getHours now + getMinutes now < clock_minutes (sw_end w)"

definition in_reach :: "grant \<Rightarrow> access_request \<Rightarrow> bool" where
  "in_reach g req \<longleftrightarrow>
     g_userId g = u_id (rq_user req) \<and> g_resourceType g = rq_resourceType req \<and> g_action g = rq_action req \<and>
     (case g_resourceId g of None \<Rightarrow> True | Some r \<Rightarrow> rq_resourceId req = Some r) \<and>
     (case g_validFrom g of None \<Rightarrow> True | Some t \<Rightarrow> t \<le> getTime (rq_now req)) \<and>
     (case g_validUntil g of None \<Rightarrow> True | Some t \<Rightarrow> getTime (rq_now req) < t) \<and>
     (case g_schedule g of None \<Rightarrow> True | Some ws \<Rightarrow> ws = [] \<or> list_ex (window_covers (rq_now req)) ws)"

text \<open>The schema's form for the times of a schedule.\<close>

definition well_timed :: "grant \<Rightarrow> bool" where
  "well_timed g \<longleftrightarrow> (case g_schedule g of None \<Rightarrow> True
     | Some ws \<Rightarrow> list_all (\<lambda>w. hhmm_ok (sw_start w) \<and> hhmm_ok (sw_end w)) ws)"

lemma face_digit: "digit_of c = Some n \<Longrightarrow> face c = n"
  by (auto simp: digit_of_def face_def Let_def split: if_splits)

lemma toMinutes_clock: "hhmm_ok s \<Longrightarrow> toMinutes s = Some (of_nat (clock_minutes s))"
  by (induction s rule: hhmm_ok.induct) (auto simp: toMinutes_hhmm face_digit algebra_simps)

lemma window_covers_iff:
  assumes "hhmm_ok (sw_start w)" "hhmm_ok (sw_end w)"
  shows "isWithinScheduleWindow w now \<longleftrightarrow> window_covers now w"
  unfolding isWithinScheduleWindow_def window_covers_def in_minutes_def minutes_of_def toMinutes_clock [OF assms(1)]
    toMinutes_clock [OF assms(2)] option.case of_nat_le_iff of_nat_less_iff by (simp add: mult.commute)

lemma matches_in_reach:
  assumes "well_timed g"
  shows "matches g req (rq_now req) \<longleftrightarrow> in_reach g req"
proof -
  have "inSchedule ws (rq_now req) \<longleftrightarrow> ws = [] \<or> list_ex (window_covers (rq_now req)) ws" if "g_schedule g = Some ws" for ws
    using assms that window_covers_iff by (auto simp: inSchedule_iff well_timed_def list_all_iff list_ex_iff)
  then show ?thesis
    by (auto simp: matches_def in_reach_def split: option.splits)
qed

text \<open>What a role may do without a grant, as far as it matters for escalation.\<close>

definition within_role :: "access_request \<Rightarrow> bool" where
  "within_role req \<longleftrightarrow> (let t = u_userType (rq_user req); r = rq_resourceType req; a = rq_action req in
     (r = RtUser \<and> a \<in> {Delete, AdminAction} \<or> r = RtHome \<and> a \<in> {Create, Delete} \<longrightarrow> t = Master) \<and>
     (r = RtUser \<and> a \<in> {Create, Update} \<or> r = RtHome \<and> a = AdminAction \<longrightarrow> t \<in> {Master, Admin}) \<and>
     (r = RtHome \<longrightarrow> t \<in> {Master, Admin, Homeowner, Family, Child}) \<and>
     (t \<in> {Child, Guest, Staff, Service_engineer} \<longrightarrow> a \<in> {View, Control}))"

lemma baseline_within_role:
  "baselineAllows (u_userType (rq_user req)) (rq_resourceType req) (rq_action req) \<Longrightarrow> within_role req"
  unfolding within_role_def Let_def
  by (cases "u_userType (rq_user req)"; cases "rq_resourceType req")
    (auto simp: baselineAllows_def ALL_ACTIONS_def VIEW_CONTROL_def)

lemma enforce_allowed: "enforce req gs = Inr () \<longleftrightarrow> allowed (decide req gs)"
  by (simp add: enforce_def Let_def)

text \<open>C24: a grant decides within its reach and nowhere else. For the grants of the store, with schedules in the schema's form: adding a
  grant changes no decision out of its reach (another user, resource type, resource, action, or moment of its validity or weekly
  schedule); within its reach a deny refuses whatever other grants and the role say, and an allow admits an active, unexpired user
  whom no stored deny reaches; removing it by its fresh id takes all of that back. Who is admitted is active and unexpired, and either
  reached by a stored allow or within the role: without a grant only the master deletes or administers users or deletes the home, only the
  master and admins create or change users, and children, guests, staff and service engineers only view and control.\<close>

theorem grants_decide_in_reach:
  assumes "well_timed g" "list_all well_timed (listForUser st (u_id (rq_user req)))"
  shows "(\<not> in_reach g req \<longrightarrow>
       decide req (listForUser (add_grant g st) (u_id (rq_user req))) = decide req (listForUser st (u_id (rq_user req)))) \<and>
     (in_reach g req \<and> g_effect g = Deny \<longrightarrow>
       (\<exists>m. enforce req (listForUser (add_grant g st) (u_id (rq_user req))) = Inl (SupremeError Forbidden m)) \<and>
       (live req \<longrightarrow> reason (decide req (listForUser (add_grant g st) (u_id (rq_user req)))) = ExplicitDeny)) \<and>
     (in_reach g req \<and> g_effect g = Allow \<and> live req \<and>
         (\<forall>d \<in> set (listForUser st (u_id (rq_user req))). in_reach d req \<longrightarrow> g_effect d \<noteq> Deny) \<longrightarrow>
       enforce req (listForUser (add_grant g st) (u_id (rq_user req))) = Inr ()) \<and>
     ((\<forall>h \<in> set (listForUser st (u_id (rq_user req))). g_id h \<noteq> g_id g) \<longrightarrow>
       decide req (listForUser (remove_grant (g_id g) (add_grant g st)) (u_id (rq_user req))) =
       decide req (listForUser st (u_id (rq_user req)))) \<and>
     (enforce req (listForUser st (u_id (rq_user req))) = Inr () \<longrightarrow> live req \<and>
       ((\<exists>a \<in> set (listForUser st (u_id (rq_user req))). in_reach a req \<and> g_effect a = Allow) \<or> within_role req))"
proof -
  let ?gs = "listForUser st (u_id (rq_user req))" and ?add = "listForUser (add_grant g st) (u_id (rq_user req))"
  have add: "?add = ?gs @ (if g_userId g = u_id (rq_user req) then [g] else [])" by (rule listForUser_add)
  have m: "matches h req (rq_now req) \<longleftrightarrow> in_reach h req" if "h = g \<or> h \<in> set ?gs" for h
    using that assms matches_in_reach by (auto simp: list_all_iff)
  have mine: "in_reach g req \<Longrightarrow> g_userId g = u_id (rq_user req)" by (simp add: in_reach_def)
  have gs: "applicable e req ?gs \<longleftrightarrow> (\<exists>h \<in> set ?gs. in_reach h req \<and> g_effect h = e)" for e
    using m by (auto simp: applicable_def)
  have ap: "applicable e req ?add \<longleftrightarrow> applicable e req ?gs \<or> in_reach g req \<and> g_effect g = e" for e
    using m mine by (auto simp: add applicable_def)
  have "decide req ?add = decide req ?gs" if "\<not> in_reach g req" using that ap by (simp add: decide_applicable)
  moreover have "\<exists>m. enforce req ?add = Inl (SupremeError Forbidden m)" "live req \<longrightarrow> reason (decide req ?add) = ExplicitDeny"
    if "in_reach g req \<and> g_effect g = Deny"
  proof -
    from that ap [of Deny] have "applicable Deny req ?add" by simp
    then show "\<exists>m. enforce req ?add = Inl (SupremeError Forbidden m)" "live req \<longrightarrow> reason (decide req ?add) = ExplicitDeny"
      by (auto simp: enforce_def decide_applicable live_def Let_def)
  qed
  moreover have "enforce req ?add = Inr ()"
    if "in_reach g req \<and> g_effect g = Allow \<and> live req \<and> (\<forall>d \<in> set ?gs. in_reach d req \<longrightarrow> g_effect d \<noteq> Deny)"
    using that ap [of Deny] ap [of Allow] gs [of Deny] by (auto simp: enforce_allowed allowed_iff)
  moreover have "decide req (listForUser (remove_grant (g_id g) (add_grant g st)) (u_id (rq_user req))) = decide req ?gs"
    if "\<forall>h \<in> set ?gs. g_id h \<noteq> g_id g"
  proof -
    from that have "filter (\<lambda>h. g_id h \<noteq> g_id g) ?gs = ?gs" by (simp add: filter_id_conv)
    then show ?thesis by (simp add: listForUser_remove add)
  qed
  moreover have "live req \<and> ((\<exists>a \<in> set ?gs. in_reach a req \<and> g_effect a = Allow) \<or> within_role req)" if "enforce req ?gs = Inr ()"
    using that gs [of Allow] baseline_within_role [of req] by (auto simp: enforce_allowed allowed_iff)
  ultimately show ?thesis by blast
qed

text \<open>a decision depends only on which grants there are: neither their order nor repetitions
  of a grant nor grants that do not match the request change it.\<close>

theorem decide_set_of_grants:
  assumes "{g \<in> set gs. matches g req (rq_now req)} = {g \<in> set gs'. matches g req (rq_now req)}"
  shows "decide req gs = decide req gs'"
proof -
  have "applicable e req gs = applicable e req gs'" for e
    unfolding applicable_def using assms by blast
  then show ?thesis by (simp add: decide_applicable)
qed

text \<open>no user type escalates through the baseline: administering users is the master's alone,
  creating users the master's and the administrators', and the household types form a chain, each
  allowed at most what the next one is.\<close>

theorem baseline_no_escalation:
  "(baselineAllows ut RtUser AdminAction = (ut = Master)) \<and>
   (baselineAllows ut RtUser Delete = (ut = Master)) \<and>
   (baselineAllows ut RtUser Create = (ut \<in> {Master, Admin})) \<and>
   (baselineAllows ut RtHome Delete = (ut = Master)) \<and>
   {a. baselineAllows Guest r a} = {a. baselineAllows Staff r a} \<and>
   {a. baselineAllows Guest r a} \<subseteq> {a. baselineAllows Child r a} \<and>
   {a. baselineAllows Child r a} \<subseteq> {a. baselineAllows Family r a} \<and>
   {a. baselineAllows Family r a} \<subseteq> {a. baselineAllows Homeowner r a} \<and>
   {a. baselineAllows Homeowner r a} \<subseteq> {a. baselineAllows Admin r a} \<and>
   {a. baselineAllows Admin r a} \<subseteq> {a. baselineAllows Master r a} \<and>
   {a. baselineAllows Service_engineer r a} \<subseteq> {a. baselineAllows Installer r a}"
  by (cases ut; cases r) (auto simp: baselineAllows_def ALL_ACTIONS_def VIEW_CONTROL_def)

text \<open>a grant whose weekly schedule has only windows that do not start before they end (such as
  22:00 to 06:00) never applies, so a deny grant restricted to such windows denies nothing.\<close>

theorem overnight_grant_never_applies:
  assumes "g_schedule g = Some ws" "ws \<noteq> []"
    and "\<And>w s e. w \<in> set ws \<Longrightarrow> toMinutes (sw_start w) = Some s \<Longrightarrow> toMinutes (sw_end w) = Some e \<Longrightarrow> e \<le> s"
  shows "\<not> matches g req now \<and> decide req (g # gs) = decide req gs"
proof -
  have "\<not> isWithinScheduleWindow w d" if "w \<in> set ws" for w d
    using isWithin_needs_order [of w d] assms(3) [OF that] by (meson leD)
  then have "\<not> matches g r d" for r d
    using assms(1,2) by (auto simp: matches_def inSchedule_iff)
  then show ?thesis
    by (simp add: decide_def Let_def)
qed

definition demo_night :: schedule_window where
  "demo_night = \<lparr>sw_days = [0, 1, 2, 3, 4, 5, 6], sw_start = ''22:00'', sw_end = ''06:00''\<rparr>"

definition demo_deny :: grant where
  "demo_deny = \<lparr>g_id = ''grt_1'', g_userId = ''usr_1'', g_resourceType = RtDevice,
     g_resourceId = None, g_action = Control, g_effect = Deny, g_validFrom = None,
     g_validUntil = None, g_schedule = Some [demo_night]\<rparr>"

lemma demo_night_minutes:
  "toMinutes (sw_start demo_night) = Some 1320" "toMinutes (sw_end demo_night) = Some 360"
  by code_simp+

theorem overnight_grant_never_applies_witness:
  "\<forall>req now. \<not> matches demo_deny req now \<and> decide req [demo_deny] = decide req []"
proof (intro allI)
  fix req now
  show "\<not> matches demo_deny req now \<and> decide req [demo_deny] = decide req []"
    by (rule overnight_grant_never_applies [where ws = "[demo_night]"])
      (auto simp: demo_deny_def demo_night_minutes)
qed

definition demo_user :: user where
  "demo_user = \<lparr>u_id = ''usr_1'', u_homeId = ''home_1'', u_email = ''a@b.c'', u_username = None,
     u_phone = None, u_displayName = ''A'', u_userType = Family, u_status = Active,
     u_emailVerified = True, u_createdAt = 0, u_expiresAt = Some 5000\<rparr>"

definition demo_now :: date where
  "demo_now = \<lparr>getTime = 1000, getDay = 1, getHours = 12, getMinutes = 30\<rparr>"

definition demo_req :: access_request where
  "demo_req = \<lparr>rq_user = demo_user, rq_resourceType = RtDevice, rq_resourceId = Some ''dev_1'',
     rq_action = Control, rq_now = demo_now\<rparr>"

definition demo_deny_now :: grant where
  "demo_deny_now = demo_deny\<lparr>g_schedule := None, g_resourceId := Some ''dev_1''\<rparr>"

lemmas demo_policy_defs = demo_user_def demo_now_def demo_req_def demo_deny_def demo_deny_now_def

text \<open>A family member may control devices; a deny for weekday afternoons takes one device away, at half past twelve on a Monday.\<close>

definition demo_afternoon :: grant where
  "demo_afternoon = demo_deny\<lparr>g_resourceId := Some ''dev_1'',
     g_schedule := Some [\<lparr>sw_days = [1, 2, 3, 4, 5], sw_start = ''12:00'', sw_end = ''18:00''\<rparr>]\<rparr>"

theorem grants_decide_in_reach_witness:
  "enforce demo_req [] = Inr () \<and> (\<exists>m. enforce demo_req (listForUser (add_grant demo_afternoon []) ''usr_1'') = Inl (SupremeError Forbidden m)) \<and>
   decide (demo_req\<lparr>rq_resourceId := Some ''dev_2''\<rparr>) (listForUser (add_grant demo_afternoon []) ''usr_1'') =
     decide (demo_req\<lparr>rq_resourceId := Some ''dev_2''\<rparr>) []"
proof (intro conjI)
  have wt: "well_timed demo_afternoon" by code_simp
  have r: "in_reach demo_afternoon demo_req" "\<not> in_reach demo_afternoon (demo_req\<lparr>rq_resourceId := Some ''dev_2''\<rparr>)"
    "g_effect demo_afternoon = Deny"
    by code_simp+
  have u: "u_id (rq_user demo_req) = ''usr_1''" by (simp add: demo_req_def demo_user_def)
  show "enforce demo_req [] = Inr ()" by code_simp
  have l: "listForUser [] uid = []" for uid by (simp add: listForUser_def)
  from grants_decide_in_reach [OF wt, of "[]" demo_req] r u
  show "\<exists>m. enforce demo_req (listForUser (add_grant demo_afternoon []) ''usr_1'') = Inl (SupremeError Forbidden m)" by (simp add: l)
  from grants_decide_in_reach [OF wt, of "[]" "demo_req\<lparr>rq_resourceId := Some ''dev_2''\<rparr>"] r u
  show "decide (demo_req\<lparr>rq_resourceId := Some ''dev_2''\<rparr>) (listForUser (add_grant demo_afternoon []) ''usr_1'') =
     decide (demo_req\<lparr>rq_resourceId := Some ''dev_2''\<rparr>) []" by (simp add: l)
qed

theorem decide_set_of_grants_witness:
  "decide demo_req [demo_deny, demo_deny_now] = decide demo_req [demo_deny_now, demo_deny_now] \<and>
   \<not> allowed (decide demo_req [demo_deny_now, demo_deny_now])"
proof
  have "\<not> matches demo_deny demo_req (rq_now demo_req)" by code_simp
  then show "decide demo_req [demo_deny, demo_deny_now] = decide demo_req [demo_deny_now, demo_deny_now]"
    by (intro decide_set_of_grants) auto
  show "\<not> allowed (decide demo_req [demo_deny_now, demo_deny_now])" by code_simp
qed

text \<open>the grant store is faithful: adding a grant appends it to its user's list and to no other,
  and removing an id removes every grant with that id, so it no longer applies to any request of
  any user, while the other grants stay in order.\<close>

theorem grant_store_spec:
  "listForUser (add_grant g st) u = listForUser st u @ (if g_userId g = u then [g] else []) \<and>
   listForUser (remove_grant i st) u = filter (\<lambda>h. g_id h \<noteq> i) (listForUser st u) \<and>
   decide req (listForUser (remove_grant i (add_grant (g\<lparr>g_id := i\<rparr>) st)) u) =
     decide req (filter (\<lambda>h. g_id h \<noteq> i) (listForUser st u))"
  by (simp add: listForUser_add listForUser_remove)

end
