(* ===== verification/Identity_Store.thy ===== *)
theory Identity_Store
  imports Permissions
begin

text \<open>
  The persistence of the identity service, \<^verbatim>\<open>services/identity/src/store.ts\<close>: users with their
  credentials, revocable login sessions and personal API tokens, in the in-memory stores. The
  contract the service relies on for sessions is the locale \<open>session_store\<close>.
\<close>

section \<open>Homes, users and credentials\<close>

datatype home_tier = Essential | Signature | Estate

record home_location =
  hl_lat :: rat
  hl_lon :: rat
  hl_timeZone :: "string option"
  hl_label :: "string option"
  hl_utcOffsetMinutes :: "int option"

record home =
  h_id :: home_id
  h_name :: string
  h_address :: "string option"
  h_tier :: home_tier
  h_masterUserId :: user_id
  h_createdAt :: timestamp
  h_heroImageUrl :: "string option"
  h_location :: "home_location option"

record stored_credential =
  sc_userId :: user_id
  sc_passwordHash :: string
  sc_mfaSecret :: "string option"
  sc_recoveryCodes :: "string list option"

record identity_store =
  st_home :: "home option"
  st_users :: "(user_id, user) jsmap"
  st_credentials :: "(user_id, stored_credential) jsmap"

definition new_identity_store :: identity_store where
  "new_identity_store = \<lparr>st_home = None, st_users = [], st_credentials = []\<rparr>"

definition putHome :: "home \<Rightarrow> identity_store \<Rightarrow> identity_store" where
  "putHome h st = st\<lparr>st_home := Some h\<rparr>"

definition deleteHome :: "identity_store \<Rightarrow> identity_store" where
  "deleteHome st = st\<lparr>st_home := None\<rparr>"

definition findUserByEmail :: "string \<Rightarrow> identity_store \<Rightarrow> user option" where
  "findUserByEmail email st =
     find (\<lambda>u. toLowerCase (u_email u) = toLowerCase email) (jvalues (st_users st))"

definition findUserByUsername :: "string \<Rightarrow> identity_store \<Rightarrow> user option" where
  "findUserByUsername username st =
     find (\<lambda>u. map_option toLowerCase (u_username u) = Some (toLowerCase username)) (jvalues (st_users st))"

definition st_getUser :: "user_id \<Rightarrow> identity_store \<Rightarrow> user option" where
  "st_getUser i st = jget (st_users st) i"

definition st_listUsers :: "identity_store \<Rightarrow> user list" where
  "st_listUsers st = jvalues (st_users st)"

definition putUser :: "user \<Rightarrow> identity_store \<Rightarrow> identity_store" where
  "putUser u st = st\<lparr>st_users := jset (u_id u) u (st_users st)\<rparr>"

definition st_deleteUser :: "user_id \<Rightarrow> identity_store \<Rightarrow> identity_store" where
  "st_deleteUser i st =
     st\<lparr>st_users := jdel i (st_users st), st_credentials := jdel i (st_credentials st)\<rparr>"

definition getCredential :: "user_id \<Rightarrow> identity_store \<Rightarrow> stored_credential option" where
  "getCredential i st = jget (st_credentials st) i"

definition putCredential :: "stored_credential \<Rightarrow> identity_store \<Rightarrow> identity_store" where
  "putCredential c st = st\<lparr>st_credentials := jset (sc_userId c) c (st_credentials st)\<rparr>"

section \<open>Sessions\<close>

record session =
  ss_id :: string
  ss_userId :: user_id
  ss_currentJti :: string
  ss_revoked :: bool
  ss_createdAt :: timestamp
  ss_ip :: "string option"
  ss_userAgent :: "string option"
  ss_lastSeenAt :: "timestamp option"

type_synonym sessions = "(string, session) jsmap"

definition ses_create :: "session \<Rightarrow> sessions \<Rightarrow> sessions" where
  "ses_create s m = jset (ss_id s) s m"

definition ses_get :: "string \<Rightarrow> sessions \<Rightarrow> session option" where
  "ses_get i m = jget m i"

definition setCurrentJti :: "string \<Rightarrow> string \<Rightarrow> string \<Rightarrow> sessions \<Rightarrow> bool \<times> sessions" where
  "setCurrentJti i expectedJti nextJti m =
     (case jget m i of
        None \<Rightarrow> (False, m)
      | Some s \<Rightarrow> (if ss_currentJti s \<noteq> expectedJti then (False, m)
                   else (True, jset i (s\<lparr>ss_currentJti := nextJti\<rparr>) m)))"

definition ses_revoke :: "string \<Rightarrow> sessions \<Rightarrow> sessions" where
  "ses_revoke i m = (case jget m i of None \<Rightarrow> m | Some s \<Rightarrow> jset i (s\<lparr>ss_revoked := True\<rparr>) m)"

definition ses_listByUser :: "user_id \<Rightarrow> sessions \<Rightarrow> session list" where
  "ses_listByUser uid m =
     sort_key (\<lambda>s. - ss_createdAt s) (filter (\<lambda>s. ss_userId s = uid) (jvalues m))"

definition ses_touch :: "string \<Rightarrow> timestamp \<Rightarrow> sessions \<Rightarrow> sessions" where
  "ses_touch i t m = (case jget m i of None \<Rightarrow> m | Some s \<Rightarrow> jset i (s\<lparr>ss_lastSeenAt := Some t\<rparr>) m)"

section \<open>The contract of a session store\<close>

text \<open>
  \<^verbatim>\<open>ISessionStore\<close> as \<^verbatim>\<open>IdentityService\<close> uses it: rotation is a compare-and-swap on the current
  position of the refresh chain, and no operation clears a revocation or moves a session to another
  user.
\<close>

locale session_store =
  fixes get :: "string \<Rightarrow> 's \<Rightarrow> session option"
    and cas :: "string \<Rightarrow> string \<Rightarrow> string \<Rightarrow> 's \<Rightarrow> bool \<times> 's"
    and revoke :: "string \<Rightarrow> 's \<Rightarrow> 's"
    and touch :: "string \<Rightarrow> timestamp \<Rightarrow> 's \<Rightarrow> 's"
  assumes cas_iff: "fst (cas i e n m) \<longleftrightarrow> (\<exists>s. get i m = Some s \<and> ss_currentJti s = e)"
    and get_cas: "get j (snd (cas i e n m)) =
      (if fst (cas i e n m) \<and> j = i then map_option (\<lambda>s. s\<lparr>ss_currentJti := n\<rparr>) (get j m) else get j m)"
    and get_revoke: "get j (revoke i m) =
      (if j = i then map_option (\<lambda>s. s\<lparr>ss_revoked := True\<rparr>) (get j m) else get j m)"
    and get_touch: "get j (touch i t m) =
      (if j = i then map_option (\<lambda>s. s\<lparr>ss_lastSeenAt := Some t\<rparr>) (get j m) else get j m)"
begin

text \<open>Of two rotations from the same position, the second one loses.\<close>

lemma cas_single_winner:
  assumes "fst (cas i e n m)" "n \<noteq> e"
  shows "\<not> fst (cas i e n' (snd (cas i e n m)))"
  using assms by (auto simp: cas_iff get_cas)

lemma cas_loser_keeps: "\<not> fst (cas i e n m) \<Longrightarrow> get j (snd (cas i e n m)) = get j m"
  by (simp add: get_cas)

text \<open>What a later state of the store keeps of a session.\<close>

definition keeps :: "'s \<Rightarrow> 's \<Rightarrow> bool" where
  "keeps m m' \<longleftrightarrow> (\<forall>i s. get i m = Some s \<longrightarrow> (\<exists>s'. get i m' = Some s' \<and>
     ss_id s' = ss_id s \<and> ss_userId s' = ss_userId s \<and> ss_createdAt s' = ss_createdAt s \<and>
     (ss_revoked s \<longrightarrow> ss_revoked s')))"

lemma keeps_refl: "keeps m m"
  by (simp add: keeps_def)

lemma keeps_trans: "keeps m m' \<Longrightarrow> keeps m' m'' \<Longrightarrow> keeps m m''"
  unfolding keeps_def by metis

lemma keeps_ops: "keeps m (snd (cas i e n m))" "keeps m (revoke i m)" "keeps m (touch i t m)"
  by (auto simp: keeps_def get_cas get_revoke get_touch)

lemma revoke_revokes: "get i m = Some s \<Longrightarrow> \<exists>s'. get i (revoke i m) = Some s' \<and> ss_revoked s'"
  by (simp add: get_revoke)

end

lemma ses_get_simps [simp]:
  "ses_get j (ses_create s m) = (if j = ss_id s then Some s else ses_get j m)"
  "ses_get j (ses_revoke i m) =
     (if j = i then map_option (\<lambda>s. s\<lparr>ss_revoked := True\<rparr>) (ses_get j m) else ses_get j m)"
  "ses_get j (ses_touch i t m) =
     (if j = i then map_option (\<lambda>s. s\<lparr>ss_lastSeenAt := Some t\<rparr>) (ses_get j m) else ses_get j m)"
  by (auto simp: ses_get_def ses_create_def ses_revoke_def ses_touch_def split: option.splits)

interpretation ses: session_store ses_get setCurrentJti ses_revoke ses_touch
proof unfold_locales
  show "fst (setCurrentJti i e n m) \<longleftrightarrow> (\<exists>s. ses_get i m = Some s \<and> ss_currentJti s = e)" for i e n m
    by (auto simp: setCurrentJti_def ses_get_def split: option.splits)
  show "ses_get j (snd (setCurrentJti i e n m)) =
      (if fst (setCurrentJti i e n m) \<and> j = i
       then map_option (\<lambda>s. s\<lparr>ss_currentJti := n\<rparr>) (ses_get j m) else ses_get j m)" for i e n m j
    by (auto simp: setCurrentJti_def ses_get_def split: option.splits)
qed simp_all

section \<open>API tokens\<close>

record api_token =
  at_id :: string
  at_homeId :: home_id
  at_userId :: user_id
  at_name :: string
  at_tokenHash :: string
  at_prefix :: string
  at_createdAt :: timestamp
  at_lastUsedAt :: "timestamp option"
  at_revoked :: bool

text \<open>\<^verbatim>\<open>ApiTokenRecordMeta\<close> leaves out the hash.\<close>

record api_token_meta =
  am_id :: string
  am_homeId :: home_id
  am_userId :: user_id
  am_name :: string
  am_prefix :: string
  am_createdAt :: timestamp
  am_lastUsedAt :: "timestamp option"
  am_revoked :: bool

definition meta_of :: "api_token \<Rightarrow> api_token_meta" where
  "meta_of t = \<lparr>am_id = at_id t, am_homeId = at_homeId t, am_userId = at_userId t, am_name = at_name t,
     am_prefix = at_prefix t, am_createdAt = at_createdAt t, am_lastUsedAt = at_lastUsedAt t,
     am_revoked = at_revoked t\<rparr>"

type_synonym api_tokens = "(string, api_token) jsmap"

definition tok_create :: "api_token \<Rightarrow> api_tokens \<Rightarrow> api_tokens" where
  "tok_create t m = jset (at_id t) t m"

definition findByHash :: "string \<Rightarrow> api_tokens \<Rightarrow> api_token option" where
  "findByHash h m = find (\<lambda>t. at_tokenHash t = h) (jvalues m)"

definition tok_listByUser :: "user_id \<Rightarrow> api_tokens \<Rightarrow> api_token_meta list" where
  "tok_listByUser uid m =
     map meta_of (sort_key (\<lambda>t. - at_createdAt t)
       (filter (\<lambda>t. at_userId t = uid \<and> \<not> at_revoked t) (jvalues m)))"

definition tok_get :: "user_id \<Rightarrow> string \<Rightarrow> api_tokens \<Rightarrow> api_token option" where
  "tok_get uid i m =
     (case jget m i of None \<Rightarrow> None | Some t \<Rightarrow> if at_userId t = uid then Some t else None)"

definition tok_revoke :: "user_id \<Rightarrow> string \<Rightarrow> api_tokens \<Rightarrow> api_tokens" where
  "tok_revoke uid i m =
     (case jget m i of None \<Rightarrow> m
      | Some t \<Rightarrow> if at_userId t = uid then jset i (t\<lparr>at_revoked := True\<rparr>) m else m)"

definition tok_touch :: "string \<Rightarrow> timestamp \<Rightarrow> api_tokens \<Rightarrow> api_tokens" where
  "tok_touch i t m = (case jget m i of None \<Rightarrow> m | Some r \<Rightarrow> jset i (r\<lparr>at_lastUsedAt := Some t\<rparr>) m)"

end
