(* ===== verification/Tokens.thy ===== *)
theory Tokens
  imports Permissions
begin

text \<open>
  The token model of the hub, \<^verbatim>\<open>services/identity/src/tokens.ts\<close>: access, refresh and MFA tokens
  signed with the hub's key. The JWT library \<^verbatim>\<open>jose\<close> is a pair of arguments: \<open>sign\<close> with the key, the
  issuer, the claims, the instant and the lifetime in seconds, and \<open>verify\<close>, which returns the
  claims of a token it accepts at an instant.
\<close>

datatype token_kind = TkAccess | TkRefresh | TkMfa

fun token_kind_name :: "token_kind \<Rightarrow> string" where
  "token_kind_name TkAccess = ''access''"
| "token_kind_name TkRefresh = ''refresh''"
| "token_kind_name TkMfa = ''mfa''"

record supreme_claims =
  cl_sub :: user_id
  cl_homeId :: home_id
  cl_userType :: user_type
  cl_kind :: token_kind
  cl_sid :: "string option"
  cl_jti :: "string option"

record jose =
  jo_sign :: "string \<Rightarrow> string \<Rightarrow> supreme_claims \<Rightarrow> nat \<Rightarrow> nat \<Rightarrow> string"
  jo_verify :: "string \<Rightarrow> string \<Rightarrow> string \<Rightarrow> nat \<Rightarrow> supreme_claims option"

record token_service =
  ts_key :: string
  ts_issuer :: string
  ts_accessTtl :: nat
  ts_refreshTtl :: nat

definition MFA_TTL :: nat where
  "MFA_TTL = 300"

definition new_token_service ::
    "string \<Rightarrow> string option \<Rightarrow> nat option \<Rightarrow> nat option \<Rightarrow> error + token_service" where
  "new_token_service secret issuer accessTtl refreshTtl =
     (if length secret < 32
      then Inl (PlainError ''TokenService requires a secret of at least 32 chars'')
      else Inr \<lparr>ts_key = secret,
                ts_issuer = (case issuer of None \<Rightarrow> ''supreme-hub'' | Some i \<Rightarrow> i),
                ts_accessTtl = (case accessTtl of None \<Rightarrow> 900 | Some t \<Rightarrow> t),
                ts_refreshTtl = (case refreshTtl of None \<Rightarrow> 60 * 60 * 24 * 30 | Some t \<Rightarrow> t)\<rparr>)"

definition sign :: "jose \<Rightarrow> token_service \<Rightarrow> nat \<Rightarrow> supreme_claims \<Rightarrow> nat \<Rightarrow> string" where
  "sign jo ts now claims ttl = jo_sign jo (ts_key ts) (ts_issuer ts) claims now ttl"

definition issueAccess :: "jose \<Rightarrow> token_service \<Rightarrow> nat \<Rightarrow> supreme_claims \<Rightarrow> string" where
  "issueAccess jo ts now claims = sign jo ts now (claims\<lparr>cl_kind := TkAccess\<rparr>) (ts_accessTtl ts)"

definition issueRefresh :: "jose \<Rightarrow> token_service \<Rightarrow> nat \<Rightarrow> supreme_claims \<Rightarrow> string" where
  "issueRefresh jo ts now claims = sign jo ts now (claims\<lparr>cl_kind := TkRefresh\<rparr>) (ts_refreshTtl ts)"

definition issueMfa :: "jose \<Rightarrow> token_service \<Rightarrow> nat \<Rightarrow> supreme_claims \<Rightarrow> string" where
  "issueMfa jo ts now claims = sign jo ts now (claims\<lparr>cl_kind := TkMfa\<rparr>) MFA_TTL"

definition verify_token ::
    "jose \<Rightarrow> token_service \<Rightarrow> nat \<Rightarrow> string \<Rightarrow> token_kind \<Rightarrow> error + supreme_claims" where
  "verify_token jo ts now token expected =
     (case jo_verify jo (ts_key ts) (ts_issuer ts) token now of
        None \<Rightarrow> Inl (SupremeError Unauthorized ''invalid or expired token'')
      | Some payload \<Rightarrow>
          (if cl_kind payload \<noteq> expected
           then Inl (SupremeError Unauthorized (''expected a '' @ token_kind_name expected @ '' token''))
           else Inr payload))"

text \<open>
  What the code relies on of the library (RFC 7519): a signed token verifies under the same key and
  issuer, with the claims it was signed for, while its lifetime lasts; and nothing verifies that was
  not signed so.
\<close>

definition jose_ok :: "jose \<Rightarrow> bool" where
  "jose_ok jo \<longleftrightarrow>
     (\<forall>k i c t ttl now. jo_verify jo k i (jo_sign jo k i c t ttl) now
        = (if now < t + 1000 * ttl then Some c else None)) \<and>
     (\<forall>k i tok now c. jo_verify jo k i tok now = Some c \<longrightarrow>
        (\<exists>t ttl. tok = jo_sign jo k i c t ttl))"

lemma verify_signed:
  "jose_ok jo \<Longrightarrow> jo_verify jo k i (jo_sign jo k i c t ttl) now
     = (if now < t + 1000 * ttl then Some c else None)"
  by (simp add: jose_ok_def)

lemma verify_issued:
  assumes "jose_ok jo"
  shows "verify_token jo ts now (issueAccess jo ts t c) TkAccess
           = (if now < t + 1000 * ts_accessTtl ts then Inr (c\<lparr>cl_kind := TkAccess\<rparr>)
              else Inl (SupremeError Unauthorized ''invalid or expired token''))"
    and "verify_token jo ts now (issueRefresh jo ts t c) TkRefresh
           = (if now < t + 1000 * ts_refreshTtl ts then Inr (c\<lparr>cl_kind := TkRefresh\<rparr>)
              else Inl (SupremeError Unauthorized ''invalid or expired token''))"
  by (simp_all add: verify_token_def issueAccess_def issueRefresh_def sign_def verify_signed [OF assms])

lemma verify_kind: "verify_token jo ts now tok k = Inr c \<Longrightarrow> cl_kind c = k"
  by (auto simp: verify_token_def split: option.splits if_splits)

section \<open>An instance of the library\<close>

text \<open>
  A pair of functions that behaves as \<open>jose_ok\<close> says: the token spells out the key, the issuer, the
  claims, the instant and the lifetime, and is accepted when it is spelt for the same key and issuer.
\<close>

definition put_nat :: "nat \<Rightarrow> string" where
  "put_nat n = replicate n (CHR ''1'') @ ''0''"

definition take_nat :: "string \<Rightarrow> nat \<times> string" where
  "take_nat s = (let n = length (takeWhile (\<lambda>c. c = CHR ''1'') s) in (n, drop (Suc n) s))"

definition put_str :: "string \<Rightarrow> string" where
  "put_str x = put_nat (length x) @ x"

definition take_str :: "string \<Rightarrow> string \<times> string" where
  "take_str s = (let (n, r) = take_nat s in (take n r, drop n r))"

definition put_opt :: "string option \<Rightarrow> string" where
  "put_opt x = (case x of None \<Rightarrow> put_nat 0 | Some y \<Rightarrow> put_nat 1 @ put_str y)"

definition take_opt :: "string \<Rightarrow> string option \<times> string" where
  "take_opt s = (let (n, r) = take_nat s
                 in if n = 0 then (None, r) else (let (y, r') = take_str r in (Some y, r')))"

definition index_in :: "'a list \<Rightarrow> 'a \<Rightarrow> nat" where
  "index_in xs x = length (takeWhile (\<lambda>y. y \<noteq> x) xs)"

definition USER_TYPES :: "user_type list" where
  "USER_TYPES = [Master, Admin, Homeowner, Family, Child, Guest, Staff, Installer, Service_engineer, Developer]"

definition TOKEN_KINDS :: "token_kind list" where
  "TOKEN_KINDS = [TkAccess, TkRefresh, TkMfa]"

definition demo_sign :: "string \<Rightarrow> string \<Rightarrow> supreme_claims \<Rightarrow> nat \<Rightarrow> nat \<Rightarrow> string" where
  "demo_sign k i c t ttl =
     put_str k @ put_str i @ put_str (cl_sub c) @ put_str (cl_homeId c) @
     put_nat (index_in USER_TYPES (cl_userType c)) @ put_nat (index_in TOKEN_KINDS (cl_kind c)) @
     put_opt (cl_sid c) @ put_opt (cl_jti c) @ put_nat t @ put_nat ttl"

definition demo_read :: "string \<Rightarrow> supreme_claims \<times> nat \<times> nat" where
  "demo_read s =
     (let (k, s1) = take_str s; (i, s2) = take_str s1; (sub, s3) = take_str s2; (h, s4) = take_str s3;
          (ut, s5) = take_nat s4; (kd, s6) = take_nat s5; (sid, s7) = take_opt s6; (jti, s8) = take_opt s7;
          (t, s9) = take_nat s8; (ttl, s10) = take_nat s9
      in (\<lparr>cl_sub = sub, cl_homeId = h, cl_userType = USER_TYPES ! ut, cl_kind = TOKEN_KINDS ! kd,
           cl_sid = sid, cl_jti = jti\<rparr>, t, ttl))"

definition demo_verify :: "string \<Rightarrow> string \<Rightarrow> string \<Rightarrow> nat \<Rightarrow> supreme_claims option" where
  "demo_verify k i tok now =
     (let (c, t, ttl) = demo_read tok
      in if tok = demo_sign k i c t ttl \<and> now < t + 1000 * ttl then Some c else None)"

definition demo_jose :: jose where
  "demo_jose = \<lparr>jo_sign = demo_sign, jo_verify = demo_verify\<rparr>"

lemma take_put [simp]:
  "take_nat (put_nat n @ r) = (n, r)"
  "take_nat (put_nat n) = (n, [])"
  "take_str (put_str x @ r) = (x, r)"
  "take_opt (put_opt y @ r) = (y, r)"
proof -
  have w: "takeWhile (\<lambda>c. c = CHR ''1'') (replicate n (CHR ''1'') @ CHR ''0'' # r) = replicate n (CHR ''1'')" for n r
    by (induction n) simp_all
  show n: "take_nat (put_nat n @ r) = (n, r)" for n r
    by (simp add: take_nat_def put_nat_def w)
  from n [of n "[]"] show "take_nat (put_nat n) = (n, [])" by simp
  show x: "take_str (put_str x @ r) = (x, r)" for x r
    by (simp add: take_str_def put_str_def n)
  show "take_opt (put_opt y @ r) = (y, r)"
    by (cases y) (simp_all add: take_opt_def put_opt_def n x)
qed

lemma nth_index_in [simp]: "USER_TYPES ! index_in USER_TYPES ut = ut" "TOKEN_KINDS ! index_in TOKEN_KINDS k = k"
  by (cases ut; simp add: USER_TYPES_def index_in_def) (cases k; simp add: TOKEN_KINDS_def index_in_def)

lemma demo_read_sign [simp]: "demo_read (demo_sign k i c t ttl) = (c, t, ttl)"
  by (simp add: demo_read_def demo_sign_def)

lemma demo_jose_ok: "jose_ok demo_jose"
  by (auto simp: jose_ok_def demo_jose_def demo_verify_def Let_def case_prod_unfold split: if_splits)

end
