(* ===== verification/Totp.thy ===== *)
theory Totp
  imports Prelude "HOL-Library.Word"
begin

text \<open>
  The second factor of the hub's login, \<^verbatim>\<open>services/identity/src/totp.ts\<close>: the base32 codec of the
  shared secrets, and RFC 6238 codes with their tolerance window. HMAC-SHA1 belongs to
  \<^verbatim>\<open>node:crypto\<close> and is an argument.
\<close>

unbundle bit_operations_syntax

type_synonym byte = "8 word"

definition BASE32 :: string where
  "BASE32 = ''ABCDEFGHIJKLMNOPQRSTUVWXYZ234567''"

definition STEP :: int where
  "STEP = 30"

definition DIGITS :: nat where
  "DIGITS = 6"

section \<open>base32\<close>

text \<open>
  A JavaScript bit operation works on 32 bits, so \<open>value\<close> is a \<^typ>\<open>32 word\<close>: its old bits run
  out at the top. \<open>drain5\<close> is the inner loop of \<^verbatim>\<open>base32Encode\<close>, with the digits it appends.
\<close>

function drain5 :: "32 word \<Rightarrow> nat \<Rightarrow> string \<times> nat" where
  "drain5 value bits =
     (if 5 \<le> bits
      then (let (s, bits') = drain5 value (bits - 5)
            in ((BASE32 ! unat ((drop_bit (bits - 5) value) AND 31)) # s, bits'))
      else ([], bits))"
  by pat_completeness auto
termination by (relation "measure snd") auto

declare drain5.simps [simp del]

fun encode_loop :: "byte list \<Rightarrow> 32 word \<Rightarrow> nat \<Rightarrow> string" where
  "encode_loop [] value bits =
     (if 0 < bits then [BASE32 ! unat (push_bit (5 - bits) value AND 31)] else [])"
| "encode_loop (b # bs) value bits =
     (let value' = push_bit 8 value OR ucast b;
          (s, bits') = drain5 value' (bits + 8)
      in s @ encode_loop bs value' bits')"

definition base32Encode :: "byte list \<Rightarrow> string" where
  "base32Encode buf = encode_loop buf 0 0"

definition char_upper :: "char \<Rightarrow> char" where
  "char_upper c = (let n = (of_char c :: nat) in if 97 \<le> n \<and> n \<le> 122 then char_of (n - 32) else c)"

definition index_of :: "char \<Rightarrow> string \<Rightarrow> nat option" where
  "index_of c s = (let i = length (takeWhile (\<lambda>x. x \<noteq> c) s) in if i < length s then Some i else None)"

fun decode_loop :: "string \<Rightarrow> 32 word \<Rightarrow> nat \<Rightarrow> byte list" where
  "decode_loop [] value bits = []"
| "decode_loop (c # cs) value bits =
     (case index_of c BASE32 of
        None \<Rightarrow> decode_loop cs value bits
      | Some idx \<Rightarrow>
          (let value' = push_bit 5 value OR of_nat idx; bits' = bits + 5
           in if 8 \<le> bits'
              then ucast (drop_bit (bits' - 8) value' AND 255) # decode_loop cs value' (bits' - 8)
              else decode_loop cs value' bits'))"

definition strip_padding :: "string \<Rightarrow> string" where
  "strip_padding s = rev (dropWhile (\<lambda>c. c = CHR ''='') (rev s))"

definition base32Decode :: "string \<Rightarrow> byte list" where
  "base32Decode s = decode_loop (filter (\<lambda>c. \<not> is_space c) (strip_padding (map char_upper s))) 0 0"

section \<open>Codes\<close>

text \<open>An index past the end reads \<^verbatim>\<open>undefined\<close>, which a bit operation takes for 0.\<close>

definition byte_at :: "byte list \<Rightarrow> nat \<Rightarrow> 32 word" where
  "byte_at xs i = (if i < length xs then ucast (xs ! i) else 0)"

definition writeBigUInt64BE :: "int \<Rightarrow> byte list" where
  "writeBigUInt64BE n = map (\<lambda>i. word_of_int (n div 256 ^ (7 - i))) [0..<8]"

definition padStart :: "nat \<Rightarrow> char \<Rightarrow> string \<Rightarrow> string" where
  "padStart n c s = replicate (n - length s) c @ s"

definition totp_code :: "byte list \<Rightarrow> 32 word" where
  "totp_code hmac =
     (let offset = unat (byte_at hmac (length hmac - 1) AND 15)
      in push_bit 24 (byte_at hmac offset AND 127) OR push_bit 16 (byte_at hmac (offset + 1) AND 255) OR
         push_bit 8 (byte_at hmac (offset + 2) AND 255) OR (byte_at hmac (offset + 3) AND 255))"

definition totpAt :: "(byte list \<Rightarrow> byte list \<Rightarrow> byte list) \<Rightarrow> string \<Rightarrow> rat \<Rightarrow> string" where
  "totpAt hmac_sha1 secret timeSeconds =
     (let counter = \<lfloor>timeSeconds / of_int STEP\<rfloor>;
          key = base32Decode secret;
          buf = writeBigUInt64BE counter
      in padStart DIGITS (CHR ''0'') (show_nat (unat (totp_code (hmac_sha1 key buf)) mod 10 ^ DIGITS)))"

definition code_ok :: "string \<Rightarrow> bool" where
  "code_ok code \<longleftrightarrow> length code = 6 \<and> list_all (\<lambda>c. digit_of c \<noteq> None) code"

definition verifyTotp ::
    "(byte list \<Rightarrow> byte list \<Rightarrow> byte list) \<Rightarrow> string \<Rightarrow> string \<Rightarrow> nat \<Rightarrow> nat \<Rightarrow> bool" where
  "verifyTotp hmac_sha1 secret code window nowMs \<longleftrightarrow>
     code_ok code \<and>
     list_ex (\<lambda>w. totpAt hmac_sha1 secret (of_nat nowMs / 1000 + of_int (w * STEP)) = code)
             [- int window..int window]"

section \<open>Enrolment\<close>

text \<open>\<^verbatim>\<open>generateTotpSecret\<close> encodes twenty random bytes, which are its argument here.\<close>

definition generateTotpSecret :: "byte list \<Rightarrow> string" where
  "generateTotpSecret bytes = base32Encode bytes"

definition hex_digit :: "nat \<Rightarrow> char" where
  "hex_digit n = ''0123456789ABCDEF'' ! n"

definition alnum :: "char \<Rightarrow> bool" where
  "alnum c = (let n = (of_char c :: nat) in
     48 \<le> n \<and> n \<le> 57 \<or> 65 \<le> n \<and> n \<le> 90 \<or> 97 \<le> n \<and> n \<le> 122)"

definition percent_encode :: "char \<Rightarrow> string" where
  "percent_encode c = (let n = (of_char c :: nat) in [CHR ''%'', hex_digit (n div 16), hex_digit (n mod 16)])"

definition encodeURIComponent :: "string \<Rightarrow> string" where
  "encodeURIComponent s =
     concat (map (\<lambda>c. if alnum c \<or> c \<in> set ''-_.!~*()'' \<or> of_char c = (39 :: nat) then [c] else percent_encode c) s)"

text \<open>\<^verbatim>\<open>URLSearchParams\<close> writes a space as a plus sign and keeps fewer characters.\<close>

definition form_encode :: "string \<Rightarrow> string" where
  "form_encode s =
     concat (map (\<lambda>c. if alnum c \<or> c \<in> set ''*-._'' then [c]
                      else if c = CHR '' '' then ''+'' else percent_encode c) s)"

fun form_params :: "(string \<times> string) list \<Rightarrow> string" where
  "form_params [] = []"
| "form_params [(k, v)] = form_encode k @ ''='' @ form_encode v"
| "form_params ((k, v) # ps) = form_encode k @ ''='' @ form_encode v @ ''&'' @ form_params ps"

definition otpauthUrl :: "string \<Rightarrow> string \<Rightarrow> string \<Rightarrow> string" where
  "otpauthUrl secret account issuer =
     ''otpauth://totp/'' @ encodeURIComponent (issuer @ '':'' @ account) @ ''?'' @
     form_params [(''secret'', secret), (''issuer'', issuer), (''algorithm'', ''SHA1''),
                  (''digits'', show_nat DIGITS), (''period'', show_nat (nat STEP))]"

section \<open>The codec as a stream of bits\<close>

text \<open>The low \<open>n\<close> bits of a word, the most significant first.\<close>

definition low_bits :: "nat \<Rightarrow> 'a::len word \<Rightarrow> bool list" where
  "low_bits n v = map (\<lambda>i. bit v (n - 1 - i)) [0..<n]"

lemma length_low_bits [simp]: "length (low_bits n v) = n"
  by (simp add: low_bits_def)

lemma nth_low_bits: "i < n \<Longrightarrow> low_bits n v ! i = bit v (n - 1 - i)"
  by (simp add: low_bits_def)

lemma low_bits_0 [simp]: "low_bits 0 v = []"
  by (simp add: low_bits_def)

lemma low_bits_push:
  fixes v :: "32 word" and b :: "'a::len word"
  assumes "n + k \<le> 32" and "\<And>j. bit b j \<Longrightarrow> j < k"
  shows "low_bits (n + k) (push_bit k v OR ucast b) = low_bits n v @ low_bits k b"
proof (rule nth_equalityI)
  fix i assume "i < length (low_bits (n + k) (push_bit k v OR ucast b :: 32 word))"
  then have i: "i < n + k" by simp
  show "low_bits (n + k) (push_bit k v OR ucast b) ! i = (low_bits n v @ low_bits k b) ! i"
  proof (cases "i < n")
    case True
    then have "\<not> n + k - 1 - i < k" by arith
    with assms True i show ?thesis
      by (auto simp: nth_low_bits nth_append bit_simps)
  next
    case False
    then have j: "n + k - 1 - i = k - 1 - (i - n)" "k - 1 - (i - n) < k" "k - 1 - (i - n) < 32"
      using assms(1) i by arith+
    moreover have "bit (push_bit k v OR ucast b) (k - 1 - (i - n)) = bit b (k - 1 - (i - n))"
      using j(2,3) by (simp only: bit_or_iff bit_push_bit_iff bit_unsigned_iff) auto
    ultimately have "low_bits (n + k) (push_bit k v OR ucast b) ! i = bit b (k - 1 - (i - n))"
      using i by (simp only: nth_low_bits)
    with False i j show ?thesis by (simp add: nth_low_bits nth_append)
  qed
qed simp

lemma low_bits_split:
  fixes v :: "'a::len word"
  assumes "k \<le> n"
  shows "low_bits n v = low_bits k (drop_bit (n - k) v) @ low_bits (n - k) v"
proof (rule nth_equalityI)
  fix i assume "i < length (low_bits n v)"
  then show "low_bits n v ! i = (low_bits k (drop_bit (n - k) v) @ low_bits (n - k) v) ! i"
    using assms by (auto simp: nth_low_bits nth_append bit_simps intro!: arg_cong [of _ _ "bit v"])
qed (use assms in simp)

lemma low_bits_mask:
  fixes v :: "'a::len word"
  assumes "\<And>i. i < n \<Longrightarrow> bit w i = bit v i"
  shows "low_bits n w = low_bits n v"
  using assms by (auto simp: low_bits_def)

lemma bit_31: "bit (31 :: 32 word) i \<longleftrightarrow> i < 5"
proof -
  have "(31 :: 32 word) = mask 5" by (simp add: mask_eq_exp_minus_1)
  then show ?thesis by (simp only: bit_mask_iff) auto
qed

lemma bit_255: "bit (255 :: 32 word) i \<longleftrightarrow> i < 8"
proof -
  have "(255 :: 32 word) = mask 8" by (simp add: mask_eq_exp_minus_1)
  then show ?thesis by (simp only: bit_mask_iff) auto
qed

lemma low_bits_inject: "low_bits 8 a = low_bits 8 b \<Longrightarrow> a = (b :: byte)"
proof (rule bit_word_eqI)
  fix n assume eq: "low_bits 8 a = low_bits 8 b" and "n < LENGTH(8)"
  then have n: "7 - n < 8" "8 - 1 - (7 - n) = n" by simp_all
  from eq have "low_bits 8 a ! (7 - n) = low_bits 8 b ! (7 - n)" by simp
  with n show "bit a n = bit b n" by (simp add: nth_low_bits)
qed

definition bits_of_char :: "char \<Rightarrow> bool list" where
  "bits_of_char c = (case index_of c BASE32 of None \<Rightarrow> [] | Some i \<Rightarrow> low_bits 5 (of_nat i :: 32 word))"

lemma index_of_nth:
  assumes "distinct s" "i < length s" shows "index_of (s ! i) s = Some i"
proof -
  have "takeWhile (\<lambda>x. x \<noteq> s ! i) s = take i s"
    by (rule takeWhile_eq_take_P_nth) (use assms in \<open>auto simp: nth_eq_iff_index_eq\<close>)
  with assms show ?thesis by (simp add: index_of_def)
qed

lemma BASE32_distinct: "distinct BASE32" and length_BASE32: "length BASE32 = 32"
  by (simp_all add: BASE32_def)

lemma unat_and_31: "unat ((w :: 32 word) AND 31) < 32"
proof -
  have "w AND 31 \<le> 31" by (rule word_and_le1)
  then have "unat (w AND 31) \<le> unat (31 :: 32 word)" by (simp only: word_le_nat_alt)
  then show ?thesis by simp
qed

lemma bits_of_digit [simp]: "bits_of_char (BASE32 ! unat ((w :: 32 word) AND 31)) = low_bits 5 w"
proof -
  have "bits_of_char (BASE32 ! unat (w AND 31)) = low_bits 5 (w AND 31)"
    unfolding bits_of_char_def index_of_nth [OF BASE32_distinct unat_and_31 [of w, folded length_BASE32]]
    by simp
  also have "\<dots> = low_bits 5 w" by (rule low_bits_mask) (simp only: bit_and_iff bit_31 simp_thms)
  finally show ?thesis .
qed

lemma digit_in_alphabet [simp]: "BASE32 ! unat ((w :: 32 word) AND 31) \<in> set BASE32"
  using unat_and_31 [of w] by (simp add: length_BASE32)

abbreviation bits_of_string :: "string \<Rightarrow> bool list" where
  "bits_of_string s \<equiv> concat (map bits_of_char s)"

abbreviation bits_of_bytes :: "byte list \<Rightarrow> bool list" where
  "bits_of_bytes bs \<equiv> concat (map (low_bits 8) bs)"

lemma drain5_bits:
  "drain5 v n = (s, r) \<Longrightarrow>
     bits_of_string s @ low_bits r v = low_bits n v \<and> r < 5 \<and> set s \<subseteq> set BASE32"
proof (induction v n arbitrary: s r rule: drain5.induct)
  case (1 v n)
  show ?case
  proof (cases "5 \<le> n")
    case True
    obtain s' r' where d: "drain5 v (n - 5) = (s', r')" by (meson surj_pair)
    have "s = BASE32 ! unat (drop_bit (n - 5) v AND 31) # s'" "r = r'"
      using 1(2) True d by (simp_all add: drain5.simps [of v n])
    with 1(1) [OF True d] True show ?thesis by (simp add: low_bits_split [of 5 n v])
  next
    case False
    with 1(2) show ?thesis by (simp add: drain5.simps [of v n])
  qed
qed

lemma low_bits_byte: "n < 5 \<Longrightarrow>
   low_bits (n + 8) (push_bit 8 v OR ucast (b :: byte) :: 32 word) = low_bits n v @ low_bits 8 b"
  by (rule low_bits_push) (auto dest: bit_imp_le_length)

lemma low_bits_pad: "n < 5 \<Longrightarrow>
   low_bits 5 (push_bit (5 - n) (v :: 32 word)) = low_bits n v @ low_bits (5 - n) (0 :: 32 word)"
  using low_bits_push [of n "5 - n" "0 :: 32 word" v] by simp

lemma encode_bits:
  "n < 5 \<Longrightarrow> \<exists>z. length z < 5 \<and> set (encode_loop bs v n) \<subseteq> set BASE32 \<and>
     bits_of_string (encode_loop bs v n) = low_bits n v @ bits_of_bytes bs @ z"
proof (induction bs arbitrary: v n)
  case Nil
  then show ?case by (cases "n = 0") (auto simp: low_bits_pad)
next
  case (Cons b bs)
  obtain s r where d: "drain5 (push_bit 8 v OR ucast b) (n + 8) = (s, r)" by (meson surj_pair)
  note D = drain5_bits [OF d]
  from Cons.IH [of r "push_bit 8 v OR ucast b"] D obtain z where
    "length z < 5" "set (encode_loop bs (push_bit 8 v OR ucast b) r) \<subseteq> set BASE32"
    "bits_of_string (encode_loop bs (push_bit 8 v OR ucast b) r)
       = low_bits r (push_bit 8 v OR ucast b :: 32 word) @ bits_of_bytes bs @ z" by auto
  with D low_bits_byte [OF Cons.prems, of v b] d show ?case
    by (intro exI [of _ z]) (auto simp: Let_def simp flip: append_assoc)
qed

lemma index_of_Some: "c \<in> set s \<Longrightarrow> \<exists>i < length s. index_of c s = Some i"
proof -
  assume "c \<in> set s"
  then have "length (takeWhile (\<lambda>x. x \<noteq> c) s) < length s" by (induction s) auto
  then show ?thesis by (simp add: index_of_def Let_def)
qed

lemma low_bits_digit:
  assumes "n < 8" "i < 32"
  shows "low_bits (n + 5) (push_bit 5 v OR of_nat i :: 32 word) = low_bits n v @ low_bits 5 (of_nat i :: 32 word)"
proof -
  have "\<And>j. bit (of_nat i :: 32 word) j \<Longrightarrow> j < 5"
  proof -
    fix j assume "bit (of_nat i :: 32 word) j"
    moreover have "take_bit 5 (of_nat i :: 32 word) = of_nat i"
      using assms(2) by (simp add: take_bit_of_nat take_bit_nat_eq_self)
    ultimately have "bit (take_bit 5 (of_nat i :: 32 word)) j" by simp
    then show "j < 5" by (simp add: bit_take_bit_iff)
  qed
  then show ?thesis using low_bits_push [of n 5 "of_nat i :: 32 word" v] assms(1) by simp
qed

lemma low_bits_out:
  "8 \<le> n \<Longrightarrow> low_bits n (v :: 32 word)
     = low_bits 8 (ucast (drop_bit (n - 8) v AND 255) :: byte) @ low_bits (n - 8) v"
proof -
  assume n: "8 \<le> n"
  have "bit (ucast (drop_bit (n - 8) v AND 255) :: byte) (8 - 1 - i) = bit (drop_bit (n - 8) v) (8 - 1 - i)"
    for i
    by (simp only: bit_unsigned_iff bit_and_iff bit_255) auto
  then have "low_bits 8 (ucast (drop_bit (n - 8) v AND 255) :: byte) = low_bits 8 (drop_bit (n - 8) v)"
    by (simp only: low_bits_def)
  with low_bits_split [OF n, of v] show ?thesis by simp
qed

lemma decode_bits:
  "n < 8 \<Longrightarrow> set cs \<subseteq> set BASE32 \<Longrightarrow> \<exists>z. length z < 8 \<and>
     low_bits n v @ bits_of_string cs = bits_of_bytes (decode_loop cs v n) @ z"
proof (induction cs arbitrary: v n)
  case Nil
  then show ?case by auto
next
  case (Cons c cs)
  from Cons.prems index_of_Some [of c BASE32] obtain i where i: "i < 32" "index_of c BASE32 = Some i"
    by (auto simp: length_BASE32)
  let ?v = "push_bit 5 v OR of_nat i :: 32 word"
  have V: "low_bits n v @ bits_of_char c = low_bits (n + 5) ?v"
    using i Cons.prems(1) by (simp add: low_bits_digit bits_of_char_def)
  show ?case
  proof (cases "8 \<le> n + 5")
    case True
    let ?X = "ucast (drop_bit (n + 5 - 8) ?v AND 255) :: byte"
    from Cons.IH [of "n + 5 - 8" ?v] Cons.prems obtain z where
      z: "length z < 8" "low_bits (n + 5 - 8) ?v @ bits_of_string cs
         = bits_of_bytes (decode_loop cs ?v (n + 5 - 8)) @ z" by fastforce
    have D: "decode_loop (c # cs) v n = ?X # decode_loop cs ?v (n + 5 - 8)"
      using i(2) True by (simp add: Let_def)
    have "low_bits n v @ bits_of_string (c # cs) = (low_bits n v @ bits_of_char c) @ bits_of_string cs"
      by simp
    also have "\<dots> = low_bits 8 ?X @ low_bits (n + 5 - 8) ?v @ bits_of_string cs"
      by (simp only: V low_bits_out [OF True, of ?v] append_assoc)
    also have "\<dots> = bits_of_bytes (decode_loop (c # cs) v n) @ z"
      by (simp only: z(2) D list.map concat.simps append_assoc)
    finally show ?thesis using z(1) by blast
  next
    case False
    with Cons.IH [of "n + 5" ?v] Cons.prems obtain z where
      "length z < 8" "low_bits (n + 5) ?v @ bits_of_string cs
         = bits_of_bytes (decode_loop cs ?v (n + 5)) @ z" by auto
    with V i False show ?thesis
      by (intro exI [of _ z]) (simp add: Let_def flip: append_assoc)
  qed
qed

lemma length_bits_of_bytes: "length (bits_of_bytes bs) = 8 * length bs"
  by (induction bs) auto

lemma bits_of_bytes_inject:
  "bits_of_bytes as @ y = bits_of_bytes bs @ z \<Longrightarrow> length as = length bs \<Longrightarrow> as = bs"
  by (induction "as" bs rule: list_induct2') (auto dest: low_bits_inject)

lemma alphabet_clean:
  "set s \<subseteq> set BASE32 \<Longrightarrow> filter (\<lambda>c. \<not> is_space c) (strip_padding (map char_upper s)) = s"
proof -
  assume s: "set s \<subseteq> set BASE32"
  have A: "list_all (\<lambda>c. char_upper c = c \<and> \<not> is_space c \<and> c \<noteq> CHR ''='') BASE32"
    by (simp add: BASE32_def char_upper_def is_space_def)
  with s have *: "\<forall>c \<in> set s. char_upper c = c \<and> \<not> is_space c \<and> c \<noteq> CHR ''=''"
    by (auto simp: list_all_iff)
  then have "map char_upper s = s" by (simp add: map_idI)
  moreover have "dropWhile (\<lambda>c. c = CHR ''='') (rev s) = rev s"
    using * by (cases s rule: rev_cases) simp_all
  ultimately show ?thesis using * by (simp add: strip_padding_def)
qed

text \<open>
  C31: \<^verbatim>\<open>base32Decode\<close> recovers every byte sequence that \<^verbatim>\<open>base32Encode\<close> wrote, of any length: the
  digits run past the 32 bits of a JavaScript bit operation without losing a bit, the padding bits
  of the last digit are dropped, and every character written is a digit of the alphabet.
\<close>

theorem base32_roundtrip:
  "base32Decode (base32Encode buf) = buf \<and> list_all (\<lambda>c. c \<in> set BASE32) (base32Encode buf)"
proof
  let ?e = "encode_loop buf 0 0"
  obtain y where y: "length y < 5" "set ?e \<subseteq> set BASE32" "bits_of_string ?e = bits_of_bytes buf @ y"
    using encode_bits [of 0 buf 0] by auto
  obtain z where z: "length z < 8" "bits_of_string ?e = bits_of_bytes (decode_loop ?e 0 0) @ z"
    using decode_bits [of 0 ?e 0] y(2) by auto
  from y z have eq: "bits_of_bytes (decode_loop ?e 0 0) @ z = bits_of_bytes buf @ y" by simp
  then have "length (bits_of_bytes (decode_loop ?e 0 0) @ z) = length (bits_of_bytes buf @ y)" by simp
  with y(1) z(1) have "length (decode_loop ?e 0 0) = length buf"
    by (simp only: length_append length_bits_of_bytes)
  with bits_of_bytes_inject [OF eq] y(2) show "base32Decode (base32Encode buf) = buf"
    unfolding base32Decode_def base32Encode_def by (simp add: alphabet_clean)
  from y(2) show "list_all (\<lambda>c. c \<in> set BASE32) (base32Encode buf)"
    by (auto simp: base32Encode_def list_all_iff)
qed

section \<open>The tolerance window\<close>

lemma show_nat_digits: "list_all (\<lambda>c. digit_of c \<noteq> None) (show_nat n)"
proof (induction n rule: show_nat.induct)
  case (1 n)
  have "digit_of (char_of (48 + n mod 10)) = Some (n mod 10)" by (rule digit_of_char_of) simp
  with 1 show ?case by (subst show_nat.simps) (auto simp del: digit_of_char_of simp: digit_of_char_of [of n])
qed

lemma length_show_nat: "n < 10 ^ Suc k \<Longrightarrow> length (show_nat n) \<le> Suc k"
proof (induction k arbitrary: n)
  case 0
  then show ?case by (simp add: show_nat.simps [of n])
next
  case (Suc k)
  then have "n div 10 < 10 ^ Suc k" by (simp add: less_mult_imp_div_less)
  from Suc.IH [OF this] show ?case by (subst show_nat.simps) simp
qed

lemma totpAt_code_ok: "code_ok (totpAt h secret t)"
proof -
  define n where "n = unat (totp_code (h (base32Decode secret) (writeBigUInt64BE \<lfloor>t / of_int STEP\<rfloor>))) mod 10 ^ DIGITS"
  have "n < 10 ^ Suc 5" by (simp add: n_def DIGITS_def)
  from length_show_nat [OF this] have "length (show_nat n) \<le> 6" by simp
  moreover have "digit_of (CHR ''0'') = Some 0" by (simp add: digit_of_def)
  ultimately have "code_ok (padStart DIGITS (CHR ''0'') (show_nat n))"
    using show_nat_digits [of n] by (auto simp: code_ok_def padStart_def DIGITS_def list_all_iff)
  then show ?thesis by (simp add: totpAt_def Let_def n_def)
qed

lemma totpAt_step: "totpAt h secret (of_nat nowMs / 1000 + of_int (w * STEP))
   = totpAt h secret (of_int ((int (nowMs div 30000) + w) * STEP))"
proof -
  have "\<lfloor>(of_nat nowMs / 1000 + of_int (w * STEP) :: rat) / of_int STEP\<rfloor> = int (nowMs div 30000) + w"
  proof -
    have "(of_nat nowMs / 1000 + of_int (w * STEP) :: rat) / of_int STEP = of_nat nowMs / of_nat 30000 + of_int w"
      by (simp add: STEP_def field_simps)
    then have "\<lfloor>(of_nat nowMs / 1000 + of_int (w * STEP) :: rat) / of_int STEP\<rfloor> = \<lfloor>of_nat nowMs / of_nat 30000 :: rat\<rfloor> + w"
      by (simp only: floor_add_int [symmetric])
    then show ?thesis by (simp only: floor_divide_of_nat_eq)
  qed
  moreover have "\<lfloor>(of_int ((int (nowMs div 30000) + w) * STEP) :: rat) / of_int STEP\<rfloor> = int (nowMs div 30000) + w"
    unfolding of_int_mult by (subst nonzero_mult_div_cancel_right) (simp_all add: STEP_def)
  ultimately show ?thesis by (simp add: totpAt_def)
qed

text \<open>
  \<^verbatim>\<open>verifyTotp\<close> accepts exactly the codes of the thirty-second steps at most \<open>window\<close> away from
  the current one, and every code \<^verbatim>\<open>totpAt\<close> produces is six decimal digits, so the constant-time
  comparison never meets two buffers of different lengths.
\<close>

theorem verifyTotp_window:
  "(verifyTotp h secret code window nowMs \<longleftrightarrow>
      (\<exists>step. \<bar>step - int (nowMs div 30000)\<bar> \<le> int window \<and>
              code = totpAt h secret (of_int (step * STEP)))) \<and>
   code_ok (totpAt h secret t)"
proof
  have "verifyTotp h secret code window nowMs \<longleftrightarrow>
      (\<exists>w. \<bar>w\<bar> \<le> int window \<and> code = totpAt h secret (of_int ((int (nowMs div 30000) + w) * STEP)))"
    unfolding verifyTotp_def totpAt_step
    by (auto simp: list_ex_iff totpAt_code_ok abs_le_iff)
  also have "\<dots> \<longleftrightarrow> (\<exists>step. \<bar>step - int (nowMs div 30000)\<bar> \<le> int window \<and>
              code = totpAt h secret (of_int (step * STEP)))"
    by (metis add.commute add_diff_cancel_left' diff_add_cancel)
  finally show "verifyTotp h secret code window nowMs \<longleftrightarrow>
      (\<exists>step. \<bar>step - int (nowMs div 30000)\<bar> \<le> int window \<and>
              code = totpAt h secret (of_int (step * STEP)))" .
qed (rule totpAt_code_ok)

end
