(* ===== verification/Password_Policy.thy ===== *)
theory Password_Policy
  imports Prelude
begin

text \<open>
  The password policy of the hub, \<^verbatim>\<open>services/identity/src/password-policy.ts\<close>: the strength score,
  the blocklist and the check that every new password passes.
\<close>

record password_policy =
  pp_minLength :: nat
  pp_requireLetter :: bool
  pp_requireNumber :: bool
  pp_blockCommon :: bool

definition DEFAULT_PASSWORD_POLICY :: password_policy where
  "DEFAULT_PASSWORD_POLICY =
     \<lparr>pp_minLength = 8, pp_requireLetter = False, pp_requireNumber = False, pp_blockCommon = True\<rparr>"

definition COMMON :: "string list" where
  "COMMON =
     [''password'', ''12345678'', ''123456789'', ''1234567890'', ''qwerty123'', ''qwertyuiop'',
      ''password1'', ''password123'', ''letmein1'', ''iloveyou1'', ''admin1234'', ''welcome1'',
      ''1q2w3e4r'', ''1qaz2wsx'', ''12341234'', ''changeme1'', ''supreme123'', ''abc12345'',
      ''11111111'', ''00000000'', ''trustno1'', ''sunshine1'', ''football1'', ''baseball1'']"

record password_check =
  pc_ok :: bool
  pc_score :: nat
  pc_reason :: "string option"

definition is_lower :: "char \<Rightarrow> bool" where
  "is_lower c = (let n = (of_char c :: nat) in 97 \<le> n \<and> n \<le> 122)"

definition is_upper :: "char \<Rightarrow> bool" where
  "is_upper c = (let n = (of_char c :: nat) in 65 \<le> n \<and> n \<le> 90)"

definition is_digit :: "char \<Rightarrow> bool" where
  "is_digit c \<longleftrightarrow> digit_of c \<noteq> None"

definition passwordStrength :: "string \<Rightarrow> nat" where
  "passwordStrength pw =
     min 4
       ((if 8 \<le> length pw then 1 else 0) + (if 12 \<le> length pw then 1 else 0) +
        (if list_ex is_lower pw \<and> list_ex is_upper pw then 1 else 0) +
        (if list_ex is_digit pw then 1 else 0) +
        (if list_ex (\<lambda>c. \<not> is_lower c \<and> \<not> is_upper c \<and> \<not> is_digit c) pw then 1 else 0))"

definition checkPassword :: "string \<Rightarrow> password_policy \<Rightarrow> password_check" where
  "checkPassword pw policy =
     (if length pw < pp_minLength policy then
        \<lparr>pc_ok = False, pc_score = passwordStrength pw,
         pc_reason = Some (''Password must be at least '' @ show_nat (pp_minLength policy) @ '' characters'')\<rparr>
      else if pp_requireLetter policy \<and> \<not> list_ex (\<lambda>c. is_lower c \<or> is_upper c) pw then
        \<lparr>pc_ok = False, pc_score = passwordStrength pw,
         pc_reason = Some ''Password must include a letter''\<rparr>
      else if pp_requireNumber policy \<and> \<not> list_ex is_digit pw then
        \<lparr>pc_ok = False, pc_score = passwordStrength pw,
         pc_reason = Some ''Password must include a number''\<rparr>
      else if pp_blockCommon policy \<and> toLowerCase pw \<in> set COMMON then
        \<lparr>pc_ok = False, pc_score = 0,
         pc_reason = Some (''This password is too common '' @ em_dash @ '' choose a less predictable one'')\<rparr>
      else \<lparr>pc_ok = True, pc_score = passwordStrength pw, pc_reason = None\<rparr>)"

end
