(* ===== verification/Identity_Service.thy ===== *)
theory Identity_Service
  imports Identity_Store Tokens Totp Password_Policy Ids
begin

text \<open>
  \<^verbatim>\<open>IdentityService\<close> of \<^verbatim>\<open>services/identity/src/identity-service.ts\<close>: commissioning, accounts, logins with
  lockout and a second factor, the rotation of refresh tokens, password resets, email verification
  and API tokens, on the in-memory stores. Argon2 and SHA-256, the JWT library and the
  source of randomness are arguments, gathered in \<open>identity_env\<close>. Each operation reads the clock once;
  its reading is the argument \<open>now\<close>, in milliseconds. The passkey operations are in the theory \<open>Passkeys\<close>.
\<close>

section \<open>The service and its environment\<close>

record 'r identity_env =
  en_hash :: "string \<Rightarrow> 'r \<Rightarrow> string \<times> 'r"
  en_verify :: "string \<Rightarrow> string \<Rightarrow> bool"
  en_sha256 :: "string \<Rightarrow> string"
  en_hmac_sha1 :: "byte list \<Rightarrow> byte list \<Rightarrow> byte list"
  en_randomBytes :: "nat \<Rightarrow> 'r \<Rightarrow> byte list \<times> 'r"
  en_ulid_digits :: "'r \<Rightarrow> nat list \<times> 'r"
  en_jose :: jose
  en_tokens :: token_service
  en_passwordPolicy :: password_policy
  en_maxLoginAttempts :: nat
  en_lockoutMs :: nat

record login_failure =
  lf_count :: nat
  lf_lockedUntil :: nat

record reset_token =
  rt_userId :: user_id
  rt_expiresAt :: nat

record email_token =
  et_userId :: user_id
  et_email :: string
  et_expiresAt :: nat

record 'r identity =
  is_store :: identity_store
  is_sessions :: sessions
  is_apiTokens :: api_tokens
  is_pendingMfa :: "(user_id, string) jsmap"
  is_loginFailures :: "(string, login_failure) jsmap"
  is_resetTokens :: "(string, reset_token) jsmap"
  is_verifyTokens :: "(string, email_token) jsmap"
  is_random :: 'r
  is_ids :: id_state

definition new_identity :: "'r \<Rightarrow> 'r identity" where
  "new_identity r =
     \<lparr>is_store = new_identity_store, is_sessions = [], is_apiTokens = [], is_pendingMfa = [],
      is_loginFailures = [], is_resetTokens = [], is_verifyTokens = [], is_random = r,
      is_ids = fresh_ids\<rparr>"

definition DEFAULT_MAX_LOGIN_ATTEMPTS :: nat where
  "DEFAULT_MAX_LOGIN_ATTEMPTS = 5"

definition DEFAULT_LOCKOUT_MS :: nat where
  "DEFAULT_LOCKOUT_MS = 15 * 60000"

definition RESET_TTL_MS :: nat where
  "RESET_TTL_MS = 30 * 60 * 1000"

definition VERIFY_TTL_MS :: nat where
  "VERIFY_TTL_MS = 24 * 60 * 60 * 1000"

definition API_TOKEN_PREFIX :: string where
  "API_TOKEN_PREFIX = ''sup_pat_''"

record login_context =
  lc_ip :: "string option"
  lc_userAgent :: "string option"

record token_pair =
  tp_accessToken :: string
  tp_refreshToken :: string
  tp_expiresIn :: nat

datatype login_response = LoginOk token_pair | MfaRequired string

section \<open>Randomness\<close>

definition draw_id :: "'r identity_env \<Rightarrow> id_kind \<Rightarrow> nat \<Rightarrow> 'r identity \<Rightarrow> string \<times> 'r identity" where
  "draw_id env kind now s =
     (let (ds, r) = en_ulid_digits env (is_random s);
          (i, ids) = newId kind now ds (is_ids s)
      in (i, s\<lparr>is_random := r, is_ids := ids\<rparr>))"

definition draw_bytes :: "'r identity_env \<Rightarrow> nat \<Rightarrow> 'r identity \<Rightarrow> byte list \<times> 'r identity" where
  "draw_bytes env n s = (let (bs, r) = en_randomBytes env n (is_random s) in (bs, s\<lparr>is_random := r\<rparr>))"

definition draw_hash :: "'r identity_env \<Rightarrow> string \<Rightarrow> 'r identity \<Rightarrow> string \<times> 'r identity" where
  "draw_hash env pw s = (let (h, r) = en_hash env pw (is_random s) in (h, s\<lparr>is_random := r\<rparr>))"

definition BASE64URL :: string where
  "BASE64URL = ''ABCDEFGHIJKLMNOPQRSTUVWXYZabcdefghijklmnopqrstuvwxyz0123456789-_''"

fun base64url :: "byte list \<Rightarrow> string" where
  "base64url [] = []"
| "base64url [a] = [BASE64URL ! (unat a div 4), BASE64URL ! (unat a mod 4 * 16)]"
| "base64url [a, b] =
     [BASE64URL ! (unat a div 4), BASE64URL ! (unat a mod 4 * 16 + unat b div 16),
      BASE64URL ! (unat b mod 16 * 4)]"
| "base64url (a # b # c # bs) =
     BASE64URL ! (unat a div 4) # BASE64URL ! (unat a mod 4 * 16 + unat b div 16) #
     BASE64URL ! (unat b mod 16 * 4 + unat c div 64) # BASE64URL ! (unat c mod 64) # base64url bs"

definition formatRecoveryCode :: "byte list \<Rightarrow> string" where
  "formatRecoveryCode bytes =
     (let alphabet = ''0123456789abcdefghjkmnpqrstvwxyz'';
          out = concat (map (\<lambda>b. [alphabet ! (unat b mod 32), alphabet ! (unat b div 8 mod 32)]) bytes)
      in take 4 out @ ''-'' @ take 4 (drop 4 out))"

section \<open>Shared steps\<close>

definition throw_error :: "error_code \<Rightarrow> string \<Rightarrow> 's \<Rightarrow> (error + 'a) \<times> 's" where
  "throw_error c m s = (Inl (SupremeError c m), s)"

definition policy_error :: "'r identity_env \<Rightarrow> string \<Rightarrow> error option" where
  "policy_error env password =
     (let res = checkPassword password (en_passwordPolicy env)
      in if pc_ok res then None
         else Some (SupremeError Validation_failed
                (case pc_reason res of None \<Rightarrow> ''password does not meet the policy'' | Some r \<Rightarrow> r)))"

definition recordLoginFailure :: "'r identity_env \<Rightarrow> string \<Rightarrow> nat \<Rightarrow> 'r identity \<Rightarrow> 'r identity" where
  "recordLoginFailure env key now s =
     (let rec = (case jget (is_loginFailures s) key of None \<Rightarrow> \<lparr>lf_count = 0, lf_lockedUntil = 0\<rparr> | Some r \<Rightarrow> r);
          rec1 = rec\<lparr>lf_count := lf_count rec + 1\<rparr>;
          rec2 = (if en_maxLoginAttempts env \<le> lf_count rec1
                  then rec1\<lparr>lf_lockedUntil := now + en_lockoutMs env\<rparr> else rec1)
      in s\<lparr>is_loginFailures := jset key rec2 (is_loginFailures s)\<rparr>)"

definition upd_store :: "(identity_store \<Rightarrow> identity_store) \<Rightarrow> 'r identity \<Rightarrow> 'r identity" where
  "upd_store f s = s\<lparr>is_store := f (is_store s)\<rparr>"

definition upd_sessions :: "(sessions \<Rightarrow> sessions) \<Rightarrow> 'r identity \<Rightarrow> 'r identity" where
  "upd_sessions f s = s\<lparr>is_sessions := f (is_sessions s)\<rparr>"

definition upd_tokens :: "(api_tokens \<Rightarrow> api_tokens) \<Rightarrow> 'r identity \<Rightarrow> 'r identity" where
  "upd_tokens f s = s\<lparr>is_apiTokens := f (is_apiTokens s)\<rparr>"

definition getUser :: "user_id \<Rightarrow> 'r identity \<Rightarrow> error + user" where
  "getUser i s =
     (case st_getUser i (is_store s) of
        None \<Rightarrow> Inl (SupremeError Not_found ''user not found'') | Some u \<Rightarrow> Inr u)"

definition requireHome :: "'r identity \<Rightarrow> error + home" where
  "requireHome s =
     (case st_home (is_store s) of
        None \<Rightarrow> Inl (SupremeError Conflict ''home is not commissioned yet'') | Some h \<Rightarrow> Inr h)"

definition base_claims :: "user \<Rightarrow> supreme_claims" where
  "base_claims u = \<lparr>cl_sub = u_id u, cl_homeId = u_homeId u, cl_userType = u_userType u,
     cl_kind = TkAccess, cl_sid = None, cl_jti = None\<rparr>"

definition issueTokens :: "'r identity_env \<Rightarrow> nat \<Rightarrow> user \<Rightarrow> string \<Rightarrow> string \<Rightarrow> token_pair" where
  "issueTokens env now u sid jti =
     \<lparr>tp_accessToken = issueAccess (en_jose env) (en_tokens env) now ((base_claims u)\<lparr>cl_sid := Some sid\<rparr>),
      tp_refreshToken = issueRefresh (en_jose env) (en_tokens env) now
         ((base_claims u)\<lparr>cl_sid := Some sid, cl_jti := Some jti\<rparr>),
      tp_expiresIn = ts_accessTtl (en_tokens env)\<rparr>"

definition openSession ::
    "'r identity_env \<Rightarrow> nat \<Rightarrow> user_id \<Rightarrow> login_context \<Rightarrow> 'r identity \<Rightarrow> (string \<times> string) \<times> 'r identity" where
  "openSession env now uid ctx s =
     (let (sid, s1) = draw_id env IdSession now s;
          (jti, s2) = draw_id env IdSession now s1
      in ((sid, jti), upd_sessions (ses_create
            \<lparr>ss_id = sid, ss_userId = uid, ss_currentJti = jti, ss_revoked = False,
             ss_createdAt = int now, ss_ip = lc_ip ctx, ss_userAgent = lc_userAgent ctx,
             ss_lastSeenAt = Some (int now)\<rparr>) s2))"

text \<open>\<^verbatim>\<open>cred ? await verify(cred.passwordHash, pw).catch(() => false) : false\<close>.\<close>

definition password_ok :: "'r identity_env \<Rightarrow> user_id \<Rightarrow> string \<Rightarrow> 'r identity \<Rightarrow> bool" where
  "password_ok env uid password s =
     (case getCredential uid (is_store s) of None \<Rightarrow> False
      | Some cred \<Rightarrow> en_verify env (sc_passwordHash cred) password)"

section \<open>Commissioning and accounts\<close>

record commission_input =
  ci_homeName :: string
  ci_email :: string
  ci_password :: string
  ci_displayName :: string
  ci_username :: "string option"

definition commission ::
    "'r identity_env \<Rightarrow> nat \<Rightarrow> commission_input \<Rightarrow> ('r identity, home \<times> user) eff" where
  "commission env now input = (\<lambda>s.
     case st_home (is_store s) of
       Some _ \<Rightarrow> throw_error Conflict ''home is already commissioned'' s
     | None \<Rightarrow>
       (case policy_error env (ci_password input) of
          Some e \<Rightarrow> (Inl e, s)
        | None \<Rightarrow>
          (let (homeId, s1) = draw_id env IdHome now s;
               (userId, s2) = draw_id env IdUser now s1;
               master = \<lparr>u_id = userId, u_homeId = homeId, u_email = ci_email input,
                  u_username = ci_username input, u_phone = None, u_displayName = ci_displayName input,
                  u_userType = Master, u_status = Active, u_emailVerified = True,
                  u_createdAt = int now, u_expiresAt = None\<rparr>;
               home = \<lparr>h_id = homeId, h_name = ci_homeName input, h_address = None, h_tier = Signature,
                  h_masterUserId = userId, h_createdAt = int now, h_heroImageUrl = None,
                  h_location = None\<rparr>;
               s3 = upd_store (putUser master) (upd_store (putHome home) s2);
               (h, s4) = draw_hash env (ci_password input) s3;
               s5 = upd_store (putCredential \<lparr>sc_userId = userId, sc_passwordHash = h,
                  sc_mfaSecret = None, sc_recoveryCodes = None\<rparr>) s4
           in (Inr (home, master), s5))))"

record create_user_input =
  cu_email :: string
  cu_password :: string
  cu_displayName :: string
  cu_userType :: user_type
  cu_expiresAt :: "timestamp option"
  cu_username :: "string option"

definition username_taken :: "string option \<Rightarrow> 'r identity \<Rightarrow> bool" where
  "username_taken un s =
     (case truthy un of None \<Rightarrow> False | Some n \<Rightarrow> findUserByUsername n (is_store s) \<noteq> None)"

definition createUser :: "'r identity_env \<Rightarrow> nat \<Rightarrow> create_user_input \<Rightarrow> ('r identity, user) eff" where
  "createUser env now input = (\<lambda>s.
     case requireHome s of
       Inl e \<Rightarrow> (Inl e, s)
     | Inr home \<Rightarrow>
       (case policy_error env (cu_password input) of
          Some e \<Rightarrow> (Inl e, s)
        | None \<Rightarrow>
          (if findUserByEmail (cu_email input) (is_store s) \<noteq> None then
             throw_error Conflict ''a user with that email already exists'' s
           else if username_taken (cu_username input) s then
             throw_error Conflict ''a user with that username already exists'' s
           else
             (let (uid, s1) = draw_id env IdUser now s;
                  user = \<lparr>u_id = uid, u_homeId = h_id home, u_email = cu_email input,
                     u_username = cu_username input, u_phone = None,
                     u_displayName = cu_displayName input, u_userType = cu_userType input,
                     u_status = Active, u_emailVerified = False, u_createdAt = int now,
                     u_expiresAt = cu_expiresAt input\<rparr>;
                  s2 = upd_store (putUser user) s1;
                  (h, s3) = draw_hash env (cu_password input) s2;
                  s4 = upd_store (putCredential \<lparr>sc_userId = uid, sc_passwordHash = h,
                     sc_mfaSecret = None, sc_recoveryCodes = None\<rparr>) s3
              in (Inr user, s4)))))"

definition changeEmail ::
    "'r identity_env \<Rightarrow> user_id \<Rightarrow> string \<Rightarrow> string \<Rightarrow> ('r identity, user) eff" where
  "changeEmail env uid newEmail currentPassword = (\<lambda>s.
     case getUser uid s of
       Inl e \<Rightarrow> (Inl e, s)
     | Inr user \<Rightarrow>
       (if \<not> password_ok env uid currentPassword s then
          throw_error Unauthorized ''current password is incorrect'' s
        else
          (let normalized = trim newEmail
           in if (case findUserByEmail normalized (is_store s) of
                    None \<Rightarrow> False | Some other \<Rightarrow> u_id other \<noteq> uid)
              then throw_error Conflict ''a user with that email already exists'' s
              else
                (let verified = (if toLowerCase normalized = toLowerCase (u_email user)
                                 then u_emailVerified user else False);
                     next = user\<lparr>u_email := normalized, u_emailVerified := verified\<rparr>
                 in (Inr next, upd_store (putUser next) s)))))"

definition deleteUser :: "user_id \<Rightarrow> ('r identity, unit) eff" where
  "deleteUser uid = (\<lambda>s.
     case getUser uid s of
       Inl e \<Rightarrow> (Inl e, s)
     | Inr user \<Rightarrow>
       (if u_userType user = Master
        then throw_error Conflict ''the master (owner) account cannot be deleted'' s
        else (Inr (), upd_store (st_deleteUser uid) s)))"

definition resetAllUsers :: "('r identity, nat) eff" where
  "resetAllUsers = (\<lambda>s.
     let users = st_listUsers (is_store s);
         s1 = fold (\<lambda>u. upd_store (st_deleteUser (u_id u))) users s
     in (Inr (length users), upd_store deleteHome s1))"

definition deleteOwnAccount :: "'r identity_env \<Rightarrow> user_id \<Rightarrow> string \<Rightarrow> ('r identity, unit) eff" where
  "deleteOwnAccount env uid currentPassword = (\<lambda>s.
     if \<not> password_ok env uid currentPassword s
     then throw_error Unauthorized ''current password is incorrect'' s
     else deleteUser uid s)"

definition setUserStatus :: "user_id \<Rightarrow> user_status \<Rightarrow> ('r identity, user) eff" where
  "setUserStatus uid status = (\<lambda>s.
     case getUser uid s of
       Inl e \<Rightarrow> (Inl e, s)
     | Inr user \<Rightarrow>
       (if u_userType user = Master \<and> status \<noteq> Active
        then throw_error Conflict ''the master user cannot be suspended or expired'' s
        else (let next = user\<lparr>u_status := status\<rparr> in (Inr next, upd_store (putUser next) s))))"

definition updateUserRole :: "user_id \<Rightarrow> user_type \<Rightarrow> ('r identity, user) eff" where
  "updateUserRole uid userType = (\<lambda>s.
     case getUser uid s of
       Inl e \<Rightarrow> (Inl e, s)
     | Inr user \<Rightarrow>
       (if u_userType user = Master
        then throw_error Conflict ''the master account's role cannot be changed'' s
        else if userType = Master
        then throw_error Validation_failed
               (''a user cannot be promoted to master '' @ em_dash @ '' there can only be one'') s
        else (let next = user\<lparr>u_userType := userType\<rparr> in (Inr next, upd_store (putUser next) s))))"

definition access_over :: "nat \<Rightarrow> user \<Rightarrow> bool" where
  "access_over now u \<longleftrightarrow> u_status u = Active \<and> u_userType u \<noteq> Master \<and>
     (case u_expiresAt u of None \<Rightarrow> False | Some t \<Rightarrow> t \<le> int now)"

fun sweep_users :: "nat \<Rightarrow> user list \<Rightarrow> 'r identity \<Rightarrow> user_id list \<times> 'r identity" where
  "sweep_users now [] s = ([], s)"
| "sweep_users now (u # us) s =
     (if access_over now u
      then (let (ids, s') = sweep_users now us (upd_store (putUser (u\<lparr>u_status := Expired\<rparr>)) s)
            in (u_id u # ids, s'))
      else sweep_users now us s)"

definition sweepExpired :: "nat \<Rightarrow> ('r identity, user_id list) eff" where
  "sweepExpired now = (\<lambda>s.
     let (ids, s') = sweep_users now (st_listUsers (is_store s)) s in (Inr ids, s'))"

section \<open>Logins and sessions\<close>

definition lockout_message :: "nat \<Rightarrow> nat \<Rightarrow> string" where
  "lockout_message lockedUntil now =
     (let mins = (lockedUntil - now + 59999) div 60000
      in ''too many failed attempts '' @ em_dash @ '' try again in '' @ show_nat mins @ '' minute'' @
         (if mins = 1 then [] else ''s''))"

definition login_key :: "string \<Rightarrow> string" where
  "login_key identifier = toLowerCase (trim identifier)"

definition locked_until :: "string \<Rightarrow> 'r identity \<Rightarrow> nat" where
  "locked_until key s = (case jget (is_loginFailures s) key of None \<Rightarrow> 0 | Some r \<Rightarrow> lf_lockedUntil r)"

definition find_login :: "string \<Rightarrow> 'r identity \<Rightarrow> user option" where
  "find_login identifier s =
     (case findUserByEmail identifier (is_store s) of
        Some u \<Rightarrow> Some u | None \<Rightarrow> findUserByUsername identifier (is_store s))"

definition login ::
    "'r identity_env \<Rightarrow> nat \<Rightarrow> string \<Rightarrow> string \<Rightarrow> login_context \<Rightarrow> ('r identity, login_response) eff" where
  "login env now identifier password ctx = (\<lambda>s.
     let key = login_key identifier
     in if now < locked_until key s
        then throw_error Forbidden (lockout_message (locked_until key s) now) s
        else
          (case find_login identifier s of
             None \<Rightarrow> throw_error Unauthorized ''invalid email or password'' (recordLoginFailure env key now s)
           | Some user \<Rightarrow>
             (case getCredential (u_id user) (is_store s) of
                None \<Rightarrow> throw_error Unauthorized ''invalid email or password''
                          (recordLoginFailure env key now s)
              | Some cred \<Rightarrow>
                (if \<not> en_verify env (sc_passwordHash cred) password then
                   throw_error Unauthorized ''invalid email or password'' (recordLoginFailure env key now s)
                 else if u_status user \<noteq> Active then
                   throw_error Forbidden (''account is '' @ status_name (u_status user)) s
                 else
                   (let s1 = s\<lparr>is_loginFailures := jdel key (is_loginFailures s)\<rparr>
                    in if truthy (sc_mfaSecret cred) \<noteq> None then
                         (Inr (MfaRequired (issueMfa (en_jose env) (en_tokens env) now (base_claims user))), s1)
                       else
                         (let ((sid, jti), s2) = openSession env now (u_id user) ctx s1
                          in (Inr (LoginOk (issueTokens env now user sid jti)), s2)))))))"

definition verifyMfaLogin ::
    "'r identity_env \<Rightarrow> nat \<Rightarrow> string \<Rightarrow> string \<Rightarrow> login_context \<Rightarrow> ('r identity, token_pair) eff" where
  "verifyMfaLogin env now mfaToken code ctx = (\<lambda>s.
     case verify_token (en_jose env) (en_tokens env) now mfaToken TkMfa of
       Inl e \<Rightarrow> (Inl e, s)
     | Inr claims \<Rightarrow>
       (case st_getUser (cl_sub claims) (is_store s) of
          None \<Rightarrow> throw_error Unauthorized ''session is no longer valid'' s
        | Some user \<Rightarrow>
          (if u_status user \<noteq> Active then throw_error Unauthorized ''session is no longer valid'' s
           else
             (case getCredential (u_id user) (is_store s) of
                None \<Rightarrow> throw_error Unauthorized ''invalid authentication code'' s
              | Some cred \<Rightarrow>
                (case truthy (sc_mfaSecret cred) of
                   None \<Rightarrow> throw_error Unauthorized ''invalid authentication code'' s
                 | Some secret \<Rightarrow>
                   (let normalized = filter (\<lambda>c. \<not> is_space c) code;
                        codeHash = en_sha256 env (toLowerCase normalized);
                        remaining = (case sc_recoveryCodes cred of None \<Rightarrow> [] | Some cs \<Rightarrow> cs);
                        open_up = (\<lambda>s1. let ((sid, jti), s2) = openSession env now (u_id user) ctx s1
                                        in (Inr (issueTokens env now user sid jti), s2))
                    in if verifyTotp (en_hmac_sha1 env) secret normalized 1 now then open_up s
                       else if codeHash \<notin> set remaining then
                         throw_error Unauthorized ''invalid authentication code'' s
                       else open_up (upd_store (putCredential
                              (cred\<lparr>sc_recoveryCodes := Some (filter (\<lambda>h. h \<noteq> codeHash) remaining)\<rparr>)) s)))))))"

definition listSessions :: "user_id \<Rightarrow> 'r identity \<Rightarrow> session list" where
  "listSessions uid s = ses_listByUser uid (is_sessions s)"

definition revokeSession :: "user_id \<Rightarrow> string \<Rightarrow> ('r identity, unit) eff" where
  "revokeSession uid sid = (\<lambda>s.
     case ses_get sid (is_sessions s) of
       None \<Rightarrow> throw_error Not_found ''session not found'' s
     | Some ss \<Rightarrow>
       (if ss_userId ss \<noteq> uid then throw_error Not_found ''session not found'' s
        else (Inr (), upd_sessions (ses_revoke sid) s)))"

text \<open>The loop reads each session when it reaches it; revoking one leaves the others as they were.\<close>

definition revokeOtherSessions :: "user_id \<Rightarrow> string \<Rightarrow> ('r identity, nat) eff" where
  "revokeOtherSessions uid keep = (\<lambda>s.
     let others = filter (\<lambda>ss. ss_id ss \<noteq> keep \<and> \<not> ss_revoked ss) (listSessions uid s)
     in (Inr (length others), fold (\<lambda>ss. upd_sessions (ses_revoke (ss_id ss))) others s))"

text \<open>
  \<^verbatim>\<open>refresh\<close> in the three parts that its awaited store calls separate: the check of the presented
  token, the compare-and-swap of the session's position, and the answer. Calls that run at the same
  time interleave at these points.
\<close>

definition refresh_check ::
    "'r identity_env \<Rightarrow> nat \<Rightarrow> string \<Rightarrow> ('r identity, user \<times> string \<times> string) eff" where
  "refresh_check env now refreshToken = (\<lambda>s.
     case verify_token (en_jose env) (en_tokens env) now refreshToken TkRefresh of
       Inl e \<Rightarrow> (Inl e, s)
     | Inr claims \<Rightarrow>
       (case st_getUser (cl_sub claims) (is_store s) of
          None \<Rightarrow> throw_error Unauthorized ''session is no longer valid'' s
        | Some user \<Rightarrow>
          (if u_status user \<noteq> Active then throw_error Unauthorized ''session is no longer valid'' s
           else
             (case (truthy (cl_sid claims), truthy (cl_jti claims)) of
                (Some sid, Some jti) \<Rightarrow>
                  (case ses_get sid (is_sessions s) of
                     None \<Rightarrow> throw_error Unauthorized ''session has been revoked'' s
                   | Some ss \<Rightarrow>
                     (if ss_revoked ss then throw_error Unauthorized ''session has been revoked'' s
                      else if ss_currentJti ss \<noteq> jti then
                        throw_error Unauthorized ''refresh token reuse detected; session revoked''
                          (upd_sessions (ses_revoke sid) s)
                      else (Inr (user, sid, jti), s)))
              | _ \<Rightarrow> throw_error Unauthorized ''refresh token is not session-bound'' s))))"

definition refresh_rotate ::
    "'r identity_env \<Rightarrow> nat \<Rightarrow> string \<Rightarrow> string \<Rightarrow> 'r identity \<Rightarrow> string option \<times> 'r identity" where
  "refresh_rotate env now sid jti s =
     (let (nextJti, s1) = draw_id env IdSession now s;
          (rotated, ss) = setCurrentJti sid jti nextJti (is_sessions s1)
      in (if rotated then Some nextJti else None, s1\<lparr>is_sessions := ss\<rparr>))"

definition refresh_answer ::
    "'r identity_env \<Rightarrow> nat \<Rightarrow> user \<Rightarrow> string \<Rightarrow> string option \<Rightarrow> ('r identity, token_pair) eff" where
  "refresh_answer env now user sid won = (\<lambda>s.
     case won of
       Some nextJti \<Rightarrow>
         (Inr (issueTokens env now user sid nextJti), upd_sessions (ses_touch sid (int now)) s)
     | None \<Rightarrow>
         (case ses_get sid (is_sessions s) of
            None \<Rightarrow> throw_error Unauthorized ''session has been revoked'' s
          | Some latest \<Rightarrow>
            (if ss_revoked latest then throw_error Unauthorized ''session has been revoked'' s
             else (Inr (issueTokens env now user sid (ss_currentJti latest)),
                   upd_sessions (ses_touch sid (int now)) s))))"

definition refresh :: "'r identity_env \<Rightarrow> nat \<Rightarrow> string \<Rightarrow> ('r identity, token_pair) eff" where
  "refresh env now refreshToken = (\<lambda>s.
     case refresh_check env now refreshToken s of
       (Inl e, s1) \<Rightarrow> (Inl e, s1)
     | (Inr (user, sid, jti), s1) \<Rightarrow>
         (let (won, s2) = refresh_rotate env now sid jti s1 in refresh_answer env now user sid won s2))"

definition logout :: "'r identity_env \<Rightarrow> nat \<Rightarrow> string \<Rightarrow> ('r identity, unit) eff" where
  "logout env now token = (\<lambda>s.
     let sid = (case verify_token (en_jose env) (en_tokens env) now token TkAccess of
                  Inr c \<Rightarrow> cl_sid c
                | Inl _ \<Rightarrow> (case verify_token (en_jose env) (en_tokens env) now token TkRefresh of
                              Inr c \<Rightarrow> cl_sid c | Inl _ \<Rightarrow> None))
     in (case truthy sid of None \<Rightarrow> (Inr (), s) | Some i \<Rightarrow> (Inr (), upd_sessions (ses_revoke i) s)))"

section \<open>API tokens and authentication\<close>

definition createApiToken ::
    "'r identity_env \<Rightarrow> nat \<Rightarrow> user_id \<Rightarrow> string \<Rightarrow> ('r identity, string \<times> api_token_meta) eff" where
  "createApiToken env now uid name = (\<lambda>s.
     case getUser uid s of
       Inl e \<Rightarrow> (Inl e, s)
     | Inr user \<Rightarrow>
       (let label = (if trim name = [] then ''API token'' else trim name);
            (bs, s1) = draw_bytes env 24 s;
            token = API_TOKEN_PREFIX @ base64url bs;
            (i, s2) = draw_id env IdSession now s1;
            rec = \<lparr>at_id = i, at_homeId = u_homeId user, at_userId = uid, at_name = label,
                   at_tokenHash = en_sha256 env token, at_prefix = take 16 token,
                   at_createdAt = int now, at_lastUsedAt = None, at_revoked = False\<rparr>
        in (Inr (token, meta_of rec), upd_tokens (tok_create rec) s2)))"

definition listApiTokens :: "user_id \<Rightarrow> 'r identity \<Rightarrow> api_token_meta list" where
  "listApiTokens uid s = tok_listByUser uid (is_apiTokens s)"

definition revokeApiToken :: "user_id \<Rightarrow> string \<Rightarrow> ('r identity, unit) eff" where
  "revokeApiToken uid i = (\<lambda>s.
     case tok_get uid i (is_apiTokens s) of
       None \<Rightarrow> throw_error Not_found ''API token not found'' s
     | Some _ \<Rightarrow> (Inr (), upd_tokens (tok_revoke uid i) s))"

definition authenticateApiToken ::
    "'r identity_env \<Rightarrow> nat \<Rightarrow> string \<Rightarrow> 'r identity \<Rightarrow> user option \<times> 'r identity" where
  "authenticateApiToken env now token s =
     (case findByHash (en_sha256 env token) (is_apiTokens s) of
        None \<Rightarrow> (None, s)
      | Some rec \<Rightarrow>
        (if at_revoked rec then (None, s)
         else
           (case st_getUser (at_userId rec) (is_store s) of
              None \<Rightarrow> (None, s)
            | Some user \<Rightarrow>
              (if u_status user \<noteq> Active then (None, s)
               else (Some user, upd_tokens (tok_touch (at_id rec) (int now)) s)))))"

definition authenticate :: "'r identity_env \<Rightarrow> nat \<Rightarrow> string \<Rightarrow> ('r identity, user) eff" where
  "authenticate env now accessToken = (\<lambda>s.
     if take (length API_TOKEN_PREFIX) accessToken = API_TOKEN_PREFIX then
       (case authenticateApiToken env now accessToken s of
          (None, s1) \<Rightarrow> throw_error Unauthorized ''invalid API token'' s1
        | (Some user, s1) \<Rightarrow> (Inr user, s1))
     else
       (case verify_token (en_jose env) (en_tokens env) now accessToken TkAccess of
          Inl e \<Rightarrow> (Inl e, s)
        | Inr claims \<Rightarrow>
          (case st_getUser (cl_sub claims) (is_store s) of
             None \<Rightarrow> throw_error Unauthorized ''session is no longer valid'' s
           | Some user \<Rightarrow>
             (if u_status user \<noteq> Active then throw_error Unauthorized ''session is no longer valid'' s
              else
                (case truthy (cl_sid claims) of
                   None \<Rightarrow> (Inr user, s)
                 | Some sid \<Rightarrow>
                   (case ses_get sid (is_sessions s) of
                      None \<Rightarrow> throw_error Unauthorized ''session has been revoked'' s
                    | Some ss \<Rightarrow>
                      (if ss_revoked ss then throw_error Unauthorized ''session has been revoked'' s
                       else (Inr user, s))))))))"

definition authenticateSession ::
    "'r identity_env \<Rightarrow> nat \<Rightarrow> string \<Rightarrow> ('r identity, user \<times> string option) eff" where
  "authenticateSession env now accessToken = (\<lambda>s.
     case verify_token (en_jose env) (en_tokens env) now accessToken TkAccess of
       Inl e \<Rightarrow> (Inl e, s)
     | Inr claims \<Rightarrow>
       eff_bind (authenticate env now accessToken) (\<lambda>user. eff_return (user, cl_sid claims)) s)"

section \<open>The second factor\<close>

fun draw_codes :: "'r identity_env \<Rightarrow> nat \<Rightarrow> 'r identity \<Rightarrow> string list \<times> 'r identity" where
  "draw_codes env 0 s = ([], s)"
| "draw_codes env (Suc n) s =
     (let (bs, s1) = draw_bytes env 5 s; (cs, s2) = draw_codes env n s1
      in (formatRecoveryCode bs # cs, s2))"

definition regenerateRecoveryCodes ::
    "'r identity_env \<Rightarrow> user_id \<Rightarrow> nat \<Rightarrow> ('r identity, string list) eff" where
  "regenerateRecoveryCodes env uid count = (\<lambda>s.
     case getCredential uid (is_store s) of
       None \<Rightarrow> throw_error Not_found ''credential not found'' s
     | Some cred \<Rightarrow>
       (if truthy (sc_mfaSecret cred) = None
        then throw_error Conflict ''enable two-factor authentication first'' s
        else
          (let (codes, s1) = draw_codes env count s
           in (Inr codes, upd_store (putCredential
                 (cred\<lparr>sc_recoveryCodes := Some (map (\<lambda>c. en_sha256 env (toLowerCase c)) codes)\<rparr>)) s1))))"

definition recoveryCodeStatus :: "user_id \<Rightarrow> 'r identity \<Rightarrow> bool \<times> nat" where
  "recoveryCodeStatus uid s =
     (case getCredential uid (is_store s) of None \<Rightarrow> (False, 0)
      | Some cred \<Rightarrow> (truthy (sc_mfaSecret cred) \<noteq> None,
                      (case sc_recoveryCodes cred of None \<Rightarrow> 0 | Some cs \<Rightarrow> length cs)))"

definition startMfaEnrollment ::
    "'r identity_env \<Rightarrow> user_id \<Rightarrow> ('r identity, string \<times> string) eff" where
  "startMfaEnrollment env uid = (\<lambda>s.
     case getUser uid s of
       Inl e \<Rightarrow> (Inl e, s)
     | Inr user \<Rightarrow>
       (let (bs, s1) = draw_bytes env 20 s;
            secret = generateTotpSecret bs
        in (Inr (secret, otpauthUrl secret (u_email user) ''Supreme''),
            s1\<lparr>is_pendingMfa := jset uid secret (is_pendingMfa s1)\<rparr>)))"

definition confirmMfaEnrollment ::
    "'r identity_env \<Rightarrow> nat \<Rightarrow> user_id \<Rightarrow> string \<Rightarrow> ('r identity, unit) eff" where
  "confirmMfaEnrollment env now uid code = (\<lambda>s.
     case truthy (jget (is_pendingMfa s) uid) of
       None \<Rightarrow> throw_error Conflict ''no pending MFA enrollment'' s
     | Some secret \<Rightarrow>
       (if \<not> verifyTotp (en_hmac_sha1 env) secret code 1 now
        then throw_error Unauthorized ''invalid authentication code'' s
        else
          (case getCredential uid (is_store s) of
             None \<Rightarrow> throw_error Not_found ''credential not found'' s
           | Some cred \<Rightarrow>
             (let s1 = upd_store (putCredential (cred\<lparr>sc_mfaSecret := Some secret\<rparr>)) s
              in (Inr (), s1\<lparr>is_pendingMfa := jdel uid (is_pendingMfa s1)\<rparr>)))))"

definition disableMfa :: "'r identity_env \<Rightarrow> nat \<Rightarrow> user_id \<Rightarrow> string \<Rightarrow> ('r identity, unit) eff" where
  "disableMfa env now uid code = (\<lambda>s.
     case getCredential uid (is_store s) of
       None \<Rightarrow> (Inr (), s)
     | Some cred \<Rightarrow>
       (case truthy (sc_mfaSecret cred) of
          None \<Rightarrow> (Inr (), s)
        | Some secret \<Rightarrow>
          (if \<not> verifyTotp (en_hmac_sha1 env) secret code 1 now
           then throw_error Unauthorized ''invalid authentication code'' s
           else (Inr (), upd_store (putCredential
                   (cred\<lparr>sc_mfaSecret := None, sc_recoveryCodes := Some []\<rparr>)) s))))"

definition hasMfa :: "user_id \<Rightarrow> 'r identity \<Rightarrow> bool" where
  "hasMfa uid s = fst (recoveryCodeStatus uid s)"

section \<open>Email verification and passwords\<close>

definition requestEmailVerification ::
    "'r identity_env \<Rightarrow> nat \<Rightarrow> user_id \<Rightarrow> ('r identity, string option) eff" where
  "requestEmailVerification env now uid = (\<lambda>s.
     case getUser uid s of
       Inl e \<Rightarrow> (Inl e, s)
     | Inr user \<Rightarrow>
       (if u_emailVerified user then (Inr None, s)
        else
          (let (bs, s1) = draw_bytes env 24 s;
               token = base64url bs
           in (Inr (Some token), s1\<lparr>is_verifyTokens := jset (en_sha256 env token)
                 \<lparr>et_userId = u_id user, et_email = toLowerCase (u_email user),
                  et_expiresAt = now + VERIFY_TTL_MS\<rparr> (is_verifyTokens s1)\<rparr>))))"

definition verifyEmail :: "'r identity_env \<Rightarrow> nat \<Rightarrow> string \<Rightarrow> ('r identity, user) eff" where
  "verifyEmail env now token = (\<lambda>s.
     let key = en_sha256 env token;
         s1 = s\<lparr>is_verifyTokens := jdel key (is_verifyTokens s)\<rparr>
     in case jget (is_verifyTokens s) key of
          None \<Rightarrow> throw_error Unauthorized ''invalid or expired verification token'' s1
        | Some rec \<Rightarrow>
          (if et_expiresAt rec < now
           then throw_error Unauthorized ''invalid or expired verification token'' s1
           else
             (case getUser (et_userId rec) s1 of
                Inl e \<Rightarrow> (Inl e, s1)
              | Inr user \<Rightarrow>
                (if toLowerCase (u_email user) \<noteq> et_email rec
                 then throw_error Conflict ''email has changed since this link was sent'' s1
                 else if u_emailVerified user then (Inr user, s1)
                 else (let next = user\<lparr>u_emailVerified := True\<rparr>
                       in (Inr next, upd_store (putUser next) s1))))))"

definition requestPasswordReset ::
    "'r identity_env \<Rightarrow> nat \<Rightarrow> string \<Rightarrow> ('r identity, (string \<times> user_id) option) eff" where
  "requestPasswordReset env now email = (\<lambda>s.
     case findUserByEmail email (is_store s) of
       None \<Rightarrow> (Inr None, s)
     | Some user \<Rightarrow>
       (let (bs, s1) = draw_bytes env 24 s;
            token = base64url bs
        in (Inr (Some (token, u_id user)), s1\<lparr>is_resetTokens := jset (en_sha256 env token)
              \<lparr>rt_userId = u_id user, rt_expiresAt = now + RESET_TTL_MS\<rparr> (is_resetTokens s1)\<rparr>)))"

text \<open>The new credential keeps the second factor that the old one had.\<close>

definition set_password ::
    "'r identity_env \<Rightarrow> user_id \<Rightarrow> string \<Rightarrow> stored_credential option \<Rightarrow> 'r identity \<Rightarrow> 'r identity" where
  "set_password env uid newPassword cred s =
     (let (h, s1) = draw_hash env newPassword s
      in upd_store (putCredential
           \<lparr>sc_userId = uid, sc_passwordHash = h,
            sc_mfaSecret = (case cred of None \<Rightarrow> None | Some c \<Rightarrow> sc_mfaSecret c),
            sc_recoveryCodes = (case cred of None \<Rightarrow> Some []
               | Some c \<Rightarrow> (case sc_recoveryCodes c of None \<Rightarrow> Some [] | Some cs \<Rightarrow> Some cs))\<rparr>) s1)"

definition resetPassword :: "'r identity_env \<Rightarrow> nat \<Rightarrow> string \<Rightarrow> string \<Rightarrow> ('r identity, unit) eff" where
  "resetPassword env now token newPassword = (\<lambda>s.
     case policy_error env newPassword of
       Some e \<Rightarrow> (Inl e, s)
     | None \<Rightarrow>
       (let key = en_sha256 env token;
            s1 = s\<lparr>is_resetTokens := jdel key (is_resetTokens s)\<rparr>
        in case jget (is_resetTokens s) key of
             None \<Rightarrow> throw_error Unauthorized ''invalid or expired reset token'' s1
           | Some rec \<Rightarrow>
             (if rt_expiresAt rec < now
              then throw_error Unauthorized ''invalid or expired reset token'' s1
              else (Inr (), set_password env (rt_userId rec) newPassword
                      (getCredential (rt_userId rec) (is_store s1)) s1))))"

definition changePassword ::
    "'r identity_env \<Rightarrow> user_id \<Rightarrow> string \<Rightarrow> string \<Rightarrow> ('r identity, unit) eff" where
  "changePassword env uid currentPassword newPassword = (\<lambda>s.
     case policy_error env newPassword of
       Some e \<Rightarrow> (Inl e, s)
     | None \<Rightarrow>
       (if \<not> password_ok env uid currentPassword s
        then throw_error Unauthorized ''current password is incorrect'' s
        else (Inr (), set_password env uid newPassword (getCredential uid (is_store s)) s)))"

section \<open>A small environment\<close>

text \<open>Functions to run the operations on: a reversible hash, a counter for a source of randomness.\<close>

definition demo_env :: "nat identity_env" where
  "demo_env =
     \<lparr>en_hash = (\<lambda>pw r. (''h'' @ pw, r)), en_verify = (\<lambda>h pw. h = ''h'' @ pw),
      en_sha256 = (\<lambda>x. CHR ''s'' # x), en_hmac_sha1 = (\<lambda>k b. replicate 20 0),
      en_randomBytes = (\<lambda>n r. (replicate n (of_nat r), Suc r)),
      en_ulid_digits = (\<lambda>r. (replicate 15 0 @ [r mod 32], Suc r)),
      en_jose = demo_jose,
      en_tokens = \<lparr>ts_key = ''k'', ts_issuer = ''i'', ts_accessTtl = 9, ts_refreshTtl = 30\<rparr>,
      en_passwordPolicy = DEFAULT_PASSWORD_POLICY, en_maxLoginAttempts = 2, en_lockoutMs = 60\<rparr>"

end
