(* ===== verification/Identity_Accounts.thy ===== *)
theory Identity_Accounts
  imports Identity_Service
begin

text \<open>
  The steps of the identity service, with the states they reach, and its accounts: the owner of a
  commissioned home is never lost, emails stay unambiguous, and repeated failed logins lock.
\<close>

section \<open>Steps\<close>

text \<open>
  One step is one operation on the service. \<^verbatim>\<open>newId\<close> draws identifiers at random, so the steps that
  create a user, a session or an API token take for granted that the drawn identifier is not already
  in use. The label tells a login on a key and a rotation of a session from the other steps.
\<close>

datatype identity_op = OpLogin string | OpRotate string | OpOther

definition fresh_user :: "'r identity_env \<Rightarrow> nat \<Rightarrow> 'r identity \<Rightarrow> bool" where
  "fresh_user env now s \<longleftrightarrow> st_getUser (fst (draw_id env IdUser now s)) (is_store s) = None"

definition fresh_session :: "'r identity_env \<Rightarrow> nat \<Rightarrow> 'r identity \<Rightarrow> bool" where
  "fresh_session env now s \<longleftrightarrow> ses_get (fst (draw_id env IdSession now s)) (is_sessions s) = None"

inductive identity_step :: "'r identity_env \<Rightarrow> identity_op \<Rightarrow> 'r identity \<Rightarrow> 'r identity \<Rightarrow> bool"
  for env where
  commission: "commission env now ci s = (r, s') \<Longrightarrow> identity_step env OpOther s s'"
| create_user: "fresh_user env now s \<Longrightarrow> createUser env now cu s = (r, s') \<Longrightarrow> identity_step env OpOther s s'"
| change_email: "changeEmail env uid e pw s = (r, s') \<Longrightarrow> identity_step env OpOther s s'"
| delete_user: "deleteUser uid s = (r, s') \<Longrightarrow> identity_step env OpOther s s'"
| reset_all: "resetAllUsers s = (r, s') \<Longrightarrow> identity_step env OpOther s s'"
| delete_own: "deleteOwnAccount env uid pw s = (r, s') \<Longrightarrow> identity_step env OpOther s s'"
| set_status: "setUserStatus uid st s = (r, s') \<Longrightarrow> identity_step env OpOther s s'"
| update_role: "updateUserRole uid ut s = (r, s') \<Longrightarrow> identity_step env OpOther s s'"
| sweep: "sweepExpired now s = (r, s') \<Longrightarrow> identity_step env OpOther s s'"
| log_in: "fresh_session env now s \<Longrightarrow> login env now i pw ctx s = (r, s') \<Longrightarrow>
    identity_step env (OpLogin (login_key i)) s s'"
| mfa_login: "fresh_session env now s \<Longrightarrow> verifyMfaLogin env now tok code ctx s = (r, s') \<Longrightarrow>
    identity_step env OpOther s s'"
| revoke_session: "revokeSession uid sid s = (r, s') \<Longrightarrow> identity_step env OpOther s s'"
| revoke_others: "revokeOtherSessions uid sid s = (r, s') \<Longrightarrow> identity_step env OpOther s s'"
| check: "refresh_check env now tok s = (r, s') \<Longrightarrow> identity_step env OpOther s s'"
| rotate: "refresh_rotate env now sid jti s = (r', s') \<Longrightarrow> identity_step env (OpRotate sid) s s'"
| answer: "refresh_answer env now u sid won s = (r, s') \<Longrightarrow> identity_step env OpOther s s'"
| log_out: "logout env now tok s = (r, s') \<Longrightarrow> identity_step env OpOther s s'"
| create_token: "createApiToken env now uid name s = (r, s') \<Longrightarrow> identity_step env OpOther s s'"
| revoke_token: "revokeApiToken uid i s = (r, s') \<Longrightarrow> identity_step env OpOther s s'"
| authenticate: "authenticate env now tok s = (r, s') \<Longrightarrow> identity_step env OpOther s s'"
| recovery: "regenerateRecoveryCodes env uid n s = (r, s') \<Longrightarrow> identity_step env OpOther s s'"
| start_mfa: "startMfaEnrollment env uid s = (r, s') \<Longrightarrow> identity_step env OpOther s s'"
| confirm_mfa: "confirmMfaEnrollment env now uid code s = (r, s') \<Longrightarrow> identity_step env OpOther s s'"
| disable_mfa: "disableMfa env now uid code s = (r, s') \<Longrightarrow> identity_step env OpOther s s'"
| request_email: "requestEmailVerification env now uid s = (r, s') \<Longrightarrow> identity_step env OpOther s s'"
| verify_email: "verifyEmail env now tok s = (r, s') \<Longrightarrow> identity_step env OpOther s s'"
| request_reset: "requestPasswordReset env now e s = (r, s') \<Longrightarrow> identity_step env OpOther s s'"
| reset_password: "resetPassword env now tok pw s = (r, s') \<Longrightarrow> identity_step env OpOther s s'"
| change_password: "changePassword env uid pw pw' s = (r, s') \<Longrightarrow> identity_step env OpOther s s'"

inductive identity_reachable :: "'r identity_env \<Rightarrow> 'r \<Rightarrow> 'r identity \<Rightarrow> bool" for env r where
  start: "identity_reachable env r (new_identity r)"
| step: "identity_reachable env r s \<Longrightarrow> identity_step env l s s' \<Longrightarrow> identity_reachable env r s'"

section \<open>What the operations leave alone\<close>

named_theorems identity_frames \<open>the components an operation of the identity service leaves alone\<close>

lemma draw_frames [simp]:
  "is_store (snd (draw_id env k now s)) = is_store s"
  "is_sessions (snd (draw_id env k now s)) = is_sessions s"
  "is_loginFailures (snd (draw_id env k now s)) = is_loginFailures s"
  "is_resetTokens (snd (draw_id env k now s)) = is_resetTokens s"
  "is_store (snd (draw_bytes env n s)) = is_store s"
  "is_sessions (snd (draw_bytes env n s)) = is_sessions s"
  "is_loginFailures (snd (draw_bytes env n s)) = is_loginFailures s"
  "is_resetTokens (snd (draw_bytes env n s)) = is_resetTokens s"
  "is_store (snd (draw_hash env pw s)) = is_store s"
  "is_sessions (snd (draw_hash env pw s)) = is_sessions s"
  "is_loginFailures (snd (draw_hash env pw s)) = is_loginFailures s"
  "is_resetTokens (snd (draw_hash env pw s)) = is_resetTokens s"
  by (simp_all add: draw_id_def draw_bytes_def draw_hash_def case_prod_unfold Let_def)

lemma upd_frames [simp]:
  "is_store (upd_store f s) = f (is_store s)"
  "is_sessions (upd_store f s) = is_sessions s"
  "is_loginFailures (upd_store f s) = is_loginFailures s"
  "is_store (upd_sessions g s) = is_store s"
  "is_sessions (upd_sessions g s) = g (is_sessions s)"
  "is_loginFailures (upd_sessions g s) = is_loginFailures s"
  "is_store (upd_tokens h s) = is_store s"
  "is_sessions (upd_tokens h s) = is_sessions s"
  "is_loginFailures (upd_tokens h s) = is_loginFailures s"
  by (simp_all add: upd_store_def upd_sessions_def upd_tokens_def)

lemma recordLoginFailure_frames [simp]:
  "is_store (recordLoginFailure env k now s) = is_store s"
  "is_sessions (recordLoginFailure env k now s) = is_sessions s"
  by (simp_all add: recordLoginFailure_def Let_def)

lemma draw_codes_frames [simp]:
  "is_store (snd (draw_codes env n s)) = is_store s"
  "is_sessions (snd (draw_codes env n s)) = is_sessions s"
  "is_loginFailures (snd (draw_codes env n s)) = is_loginFailures s"
  by (induction n arbitrary: s) (auto simp: case_prod_unfold Let_def)

lemma openSession_frames [simp]:
  "is_store (snd (openSession env now uid ctx s)) = is_store s"
  "is_loginFailures (snd (openSession env now uid ctx s)) = is_loginFailures s"
  by (simp_all add: openSession_def case_prod_unfold Let_def)

lemma sweep_users_frames [simp]:
  "is_sessions (snd (sweep_users now us s)) = is_sessions s"
  "is_loginFailures (snd (sweep_users now us s)) = is_loginFailures s"
  by (induction us arbitrary: s) (auto simp: case_prod_unfold Let_def)

lemma fold_upd_store:
  "is_store (fold (\<lambda>u. upd_store (f u)) us s) = fold f us (is_store s)"
  "is_sessions (fold (\<lambda>u. upd_store (f u)) us s) = is_sessions s"
  "is_loginFailures (fold (\<lambda>u. upd_store (f u)) us s) = is_loginFailures s"
  by (induction us arbitrary: s) auto

lemma fold_upd_sessions:
  "is_store (fold (\<lambda>u. upd_sessions (f u)) us s) = is_store s"
  "is_sessions (fold (\<lambda>u. upd_sessions (f u)) us s) = fold f us (is_sessions s)"
  "is_loginFailures (fold (\<lambda>u. upd_sessions (f u)) us s) = is_loginFailures s"
  by (induction us arbitrary: s) auto

lemma authenticateApiToken_frames [simp]:
  "is_store (snd (authenticateApiToken env now tok s)) = is_store s"
  "is_sessions (snd (authenticateApiToken env now tok s)) = is_sessions s"
  "is_loginFailures (snd (authenticateApiToken env now tok s)) = is_loginFailures s"
  by (auto simp: authenticateApiToken_def split: option.splits)

lemmas identity_op_defs =
  commission_def createUser_def changeEmail_def deleteUser_def resetAllUsers_def deleteOwnAccount_def
  setUserStatus_def updateUserRole_def sweepExpired_def login_def verifyMfaLogin_def revokeSession_def
  revokeOtherSessions_def refresh_check_def refresh_rotate_def refresh_answer_def logout_def
  createApiToken_def revokeApiToken_def authenticate_def regenerateRecoveryCodes_def
  startMfaEnrollment_def confirmMfaEnrollment_def disableMfa_def requestEmailVerification_def
  verifyEmail_def requestPasswordReset_def resetPassword_def changePassword_def

lemmas unfold_op = throw_error_def Let_def case_prod_unfold

text \<open>Operations that do not touch the accounts, and operations that do not touch the sessions.\<close>

lemma store_frames:
  "is_store (snd (login env now i pw ctx s)) = is_store s"
  "is_store (snd (revokeSession uid sid s)) = is_store s"
  "is_store (snd (revokeOtherSessions uid sid s)) = is_store s"
  "is_store (snd (refresh_check env now tok s)) = is_store s"
  "is_store (snd (refresh_rotate env now sid jti s)) = is_store s"
  "is_store (snd (refresh_answer env now u sid won s)) = is_store s"
  "is_store (snd (logout env now tok s)) = is_store s"
  "is_store (snd (createApiToken env now uid name s)) = is_store s"
  "is_store (snd (revokeApiToken uid i s)) = is_store s"
  "is_store (snd (authenticate env now tok s)) = is_store s"
  "is_store (snd (startMfaEnrollment env uid s)) = is_store s"
  "is_store (snd (requestEmailVerification env now uid s)) = is_store s"
  "is_store (snd (requestPasswordReset env now e s)) = is_store s"
  by (auto simp: identity_op_defs unfold_op fold_upd_sessions
      split: option.splits sum.splits)

lemma set_password_frames [simp]:
  "is_sessions (set_password env uid pw c s) = is_sessions s"
  "is_loginFailures (set_password env uid pw c s) = is_loginFailures s"
  by (simp_all add: set_password_def unfold_op)

lemma session_frames:
  "is_sessions (snd (commission env now ci s)) = is_sessions s"
  "is_sessions (snd (createUser env now cu s)) = is_sessions s"
  "is_sessions (snd (changeEmail env uid e pw s)) = is_sessions s"
  "is_sessions (snd (deleteUser uid s)) = is_sessions s"
  "is_sessions (snd (resetAllUsers s)) = is_sessions s"
  "is_sessions (snd (deleteOwnAccount env uid pw s)) = is_sessions s"
  "is_sessions (snd (setUserStatus uid st s)) = is_sessions s"
  "is_sessions (snd (updateUserRole uid ut s)) = is_sessions s"
  "is_sessions (snd (sweepExpired now s)) = is_sessions s"
  "is_sessions (snd (createApiToken env now uid name s)) = is_sessions s"
  "is_sessions (snd (revokeApiToken uid i s)) = is_sessions s"
  "is_sessions (snd (authenticate env now tok s)) = is_sessions s"
  "is_sessions (snd (regenerateRecoveryCodes env uid n s)) = is_sessions s"
  "is_sessions (snd (startMfaEnrollment env uid s)) = is_sessions s"
  "is_sessions (snd (confirmMfaEnrollment env now uid code s)) = is_sessions s"
  "is_sessions (snd (disableMfa env now uid code s)) = is_sessions s"
  "is_sessions (snd (requestEmailVerification env now uid s)) = is_sessions s"
  "is_sessions (snd (verifyEmail env now tok s)) = is_sessions s"
  "is_sessions (snd (requestPasswordReset env now e s)) = is_sessions s"
  "is_sessions (snd (resetPassword env now tok pw s)) = is_sessions s"
  "is_sessions (snd (changePassword env uid pw pw' s)) = is_sessions s"
  by (auto simp: identity_op_defs unfold_op fold_upd_store split: option.splits sum.splits)

lemma failure_frames:
  "is_loginFailures (snd (commission env now ci s)) = is_loginFailures s"
  "is_loginFailures (snd (createUser env now cu s)) = is_loginFailures s"
  "is_loginFailures (snd (changeEmail env uid e pw s)) = is_loginFailures s"
  "is_loginFailures (snd (deleteUser uid s)) = is_loginFailures s"
  "is_loginFailures (snd (resetAllUsers s)) = is_loginFailures s"
  "is_loginFailures (snd (deleteOwnAccount env uid pw s)) = is_loginFailures s"
  "is_loginFailures (snd (setUserStatus uid st s)) = is_loginFailures s"
  "is_loginFailures (snd (updateUserRole uid ut s)) = is_loginFailures s"
  "is_loginFailures (snd (sweepExpired now s)) = is_loginFailures s"
  "is_loginFailures (snd (verifyMfaLogin env now tok code ctx s)) = is_loginFailures s"
  "is_loginFailures (snd (revokeSession uid sid s)) = is_loginFailures s"
  "is_loginFailures (snd (revokeOtherSessions uid sid s)) = is_loginFailures s"
  "is_loginFailures (snd (refresh_check env now tok s)) = is_loginFailures s"
  "is_loginFailures (snd (refresh_rotate env now sid jti s)) = is_loginFailures s"
  "is_loginFailures (snd (refresh_answer env now u sid won s)) = is_loginFailures s"
  "is_loginFailures (snd (logout env now tok s)) = is_loginFailures s"
  "is_loginFailures (snd (createApiToken env now uid name s)) = is_loginFailures s"
  "is_loginFailures (snd (revokeApiToken uid i s)) = is_loginFailures s"
  "is_loginFailures (snd (authenticate env now tok s)) = is_loginFailures s"
  "is_loginFailures (snd (regenerateRecoveryCodes env uid n s)) = is_loginFailures s"
  "is_loginFailures (snd (startMfaEnrollment env uid s)) = is_loginFailures s"
  "is_loginFailures (snd (confirmMfaEnrollment env now uid code s)) = is_loginFailures s"
  "is_loginFailures (snd (disableMfa env now uid code s)) = is_loginFailures s"
  "is_loginFailures (snd (requestEmailVerification env now uid s)) = is_loginFailures s"
  "is_loginFailures (snd (verifyEmail env now tok s)) = is_loginFailures s"
  "is_loginFailures (snd (requestPasswordReset env now e s)) = is_loginFailures s"
  "is_loginFailures (snd (resetPassword env now tok pw s)) = is_loginFailures s"
  "is_loginFailures (snd (changePassword env uid pw pw' s)) = is_loginFailures s"
  by (auto simp: identity_op_defs unfold_op fold_upd_store fold_upd_sessions
      split: option.splits sum.splits)

lemma login_other_key:
  "login_key i \<noteq> k \<Longrightarrow> jget (is_loginFailures (snd (login env now i pw ctx s))) k = jget (is_loginFailures s) k"
  by (auto simp: login_def unfold_op recordLoginFailure_def split: option.splits)

text \<open>Only a login on a key changes its failures.\<close>

lemma step_failures:
  assumes "identity_step env l s s'" "l \<noteq> OpLogin k"
  shows "jget (is_loginFailures s') k = jget (is_loginFailures s) k"
  using assms
proof (cases rule: identity_step.cases)
  case (log_in now i pw ctx r)
  with assms(2) login_other_key [of i k env now pw ctx s] show ?thesis by simp
qed (metis failure_frames snd_conv)+

section \<open>The owner and the emails\<close>

text \<open>
  The accounts of a home: users and credentials are filed under their ids, no two users share an
  email up to case, every user can be asked for a credential, and a commissioned home has its
  owner: an active master account that does not expire.
\<close>

definition emails_unique :: "(user_id, user) jsmap \<Rightarrow> bool" where
  "emails_unique m \<longleftrightarrow> (\<forall>i u j v. jget m i = Some u \<longrightarrow> jget m j = Some v \<longrightarrow>
     toLowerCase (u_email u) = toLowerCase (u_email v) \<longrightarrow> i = j)"

definition owner_ok :: "home option \<Rightarrow> (user_id, user) jsmap \<Rightarrow> bool" where
  "owner_ok ho m \<longleftrightarrow>
     (case ho of
        None \<Rightarrow> \<forall>i. jget m i = None
      | Some h \<Rightarrow> \<exists>u. jget m (h_masterUserId h) = Some u \<and> u_userType u = Master \<and>
                      u_status u = Active \<and> u_expiresAt u = None)"

definition accounts_ok :: "identity_store \<Rightarrow> bool" where
  "accounts_ok st \<longleftrightarrow> jwf (st_users st) \<and>
     (\<forall>i u. jget (st_users st) i = Some u \<longrightarrow> u_id u = i) \<and>
     (\<forall>i c. jget (st_credentials st) i = Some c \<longrightarrow> sc_userId c = i) \<and>
     (\<forall>i u. jget (st_users st) i = Some u \<longrightarrow> jget (st_credentials st) i \<noteq> None) \<and>
     emails_unique (st_users st) \<and> owner_ok (st_home st) (st_users st)"

lemma find_email_None:
  "jwf (st_users st) \<Longrightarrow> findUserByEmail e st = None \<Longrightarrow> jget (st_users st) i = Some u \<Longrightarrow>
     toLowerCase (u_email u) \<noteq> toLowerCase e"
  by (force simp: findUserByEmail_def find_None_iff dest: map_of_SomeD)

lemma find_email_Some:
  "jwf (st_users st) \<Longrightarrow> findUserByEmail e st = Some u \<Longrightarrow>
     (\<exists>i. jget (st_users st) i = Some u) \<and> toLowerCase (u_email u) = toLowerCase e"
  unfolding findUserByEmail_def find_Some_iff
  by (metis jvalues_iff nth_mem)

lemma store_simps [simp]:
  "st_users (putUser u st) = jset (u_id u) u (st_users st)"
  "st_home (putUser u st) = st_home st"
  "st_credentials (putUser u st) = st_credentials st"
  "st_users (putCredential c st) = st_users st"
  "st_home (putCredential c st) = st_home st"
  "st_credentials (putCredential c st) = jset (sc_userId c) c (st_credentials st)"
  "st_users (st_deleteUser i st) = jdel i (st_users st)"
  "st_credentials (st_deleteUser i st) = jdel i (st_credentials st)"
  "st_home (st_deleteUser i st) = st_home st"
  "st_users (putHome h st) = st_users st" "st_credentials (putHome h st) = st_credentials st"
  "st_home (putHome h st) = Some h"
  "st_users (deleteHome st) = st_users st" "st_credentials (deleteHome st) = st_credentials st"
  "st_home (deleteHome st) = None"
  by (simp_all add: putUser_def putCredential_def st_deleteUser_def putHome_def deleteHome_def)

lemma emails_unique_put:
  assumes "emails_unique m"
    and "\<And>v i. jget m i = Some v \<Longrightarrow> i \<noteq> k \<Longrightarrow> toLowerCase (u_email v) \<noteq> toLowerCase (u_email u')"
  shows "emails_unique (jset k u' m)"
proof -
  have "i = j"
    if v: "jget (jset k u' m) i = Some v" and w: "jget (jset k u' m) j = Some w"
      and eq: "toLowerCase (u_email v) = toLowerCase (u_email w)" for i v j w
  proof (rule ccontr)
    assume ne: "i \<noteq> j"
    consider "i = k" | "j = k" | "i \<noteq> k" "j \<noteq> k" by blast
    then show False
    proof cases
      case 1
      with ne v w have "v = u'" "jget m j = Some w" "j \<noteq> k" by auto
      from assms(2) [OF this(2,3)] this(1) eq show False by simp
    next
      case 2
      with ne v w have "w = u'" "jget m i = Some v" "i \<noteq> k" by auto
      from assms(2) [OF this(2,3)] this(1) eq show False by simp
    next
      case 3
      with v w have "jget m i = Some v" "jget m j = Some w" by simp_all
      with assms(1) eq ne show False unfolding emails_unique_def by blast
    qed
  qed
  then show ?thesis unfolding emails_unique_def by blast
qed

lemma emails_unique_del: "emails_unique m \<Longrightarrow> emails_unique (jdel k m)"
  by (auto simp: emails_unique_def)

lemma owner_ok_put:
  assumes "owner_ok ho m" "jget m k = Some u"
    and "u_userType u = Master \<Longrightarrow> u_userType u' = Master \<and>
           (u_status u = Active \<longrightarrow> u_status u' = Active) \<and> u_expiresAt u' = u_expiresAt u"
  shows "owner_ok ho (jset k u' m)"
  using assms by (auto simp: owner_ok_def split: option.splits)

lemma owner_ok_new: "owner_ok (Some h) m \<Longrightarrow> jget m k = None \<Longrightarrow> owner_ok (Some h) (jset k u m)"
  by (auto simp: owner_ok_def)

lemma owner_ok_del:
  "owner_ok ho m \<Longrightarrow> jget m k = Some u \<Longrightarrow> u_userType u \<noteq> Master \<Longrightarrow> owner_ok ho (jdel k m)"
  by (auto simp: owner_ok_def split: option.splits)

text \<open>Writing a changed user back keeps the accounts, if the change is none the owner minds.\<close>

lemma put_user_ok:
  assumes ok: "accounts_ok st" and u: "st_getUser (u_id u') st = Some u"
    and email: "\<And>v i. jget (st_users st) i = Some v \<Longrightarrow> i \<noteq> u_id u' \<Longrightarrow>
                  toLowerCase (u_email v) \<noteq> toLowerCase (u_email u')"
    and master: "u_userType u = Master \<Longrightarrow>
                  u_userType u' = Master \<and> (u_status u = Active \<longrightarrow> u_status u' = Active) \<and>
                  u_expiresAt u' = u_expiresAt u"
  shows "accounts_ok (putUser u' st)"
proof -
  from u have g: "jget (st_users st) (u_id u') = Some u" by (simp add: st_getUser_def)
  with ok owner_ok_put [OF _ g master] emails_unique_put [OF _ email] show ?thesis
    by (auto simp: accounts_ok_def)
qed

text \<open>A change that keeps the email needs no look at the other users.\<close>

lemma put_user_same_email:
  assumes ok: "accounts_ok st" and u: "st_getUser (u_id u') st = Some u"
    and email: "u_email u' = u_email u"
    and master: "u_userType u = Master \<Longrightarrow>
                  u_userType u' = Master \<and> (u_status u = Active \<longrightarrow> u_status u' = Active) \<and>
                  u_expiresAt u' = u_expiresAt u"
  shows "accounts_ok (putUser u' st)"
proof (rule put_user_ok [OF ok u _ master])
  fix v i assume "jget (st_users st) i = Some v" "i \<noteq> u_id u'"
  with ok u email show "toLowerCase (u_email v) \<noteq> toLowerCase (u_email u')"
    by (auto simp: accounts_ok_def emails_unique_def st_getUser_def)
qed simp_all

lemma put_credential_ok: "accounts_ok st \<Longrightarrow> accounts_ok (putCredential c st)"
  by (simp add: accounts_ok_def)

lemma delete_user_ok:
  assumes "accounts_ok st" "st_getUser i st = Some u" "u_userType u \<noteq> Master"
  shows "accounts_ok (st_deleteUser i st)"
  using assms owner_ok_del [of "st_home st" "st_users st" i u] emails_unique_del [of "st_users st" i]
  by (auto simp: accounts_ok_def st_getUser_def)

lemma new_user_ok:
  assumes "accounts_ok st" "st_home st = Some h" "st_getUser (u_id u) st = None"
    and "findUserByEmail (u_email u) st = None" "sc_userId c = u_id u"
  shows "accounts_ok (putCredential c (putUser u st))"
proof -
  have wf: "jwf (st_users st)" using assms(1) by (simp add: accounts_ok_def)
  have "emails_unique (jset (u_id u) u (st_users st))"
    using assms(1) find_email_None [OF wf assms(4)] by (auto simp: accounts_ok_def intro!: emails_unique_put)
  with assms owner_ok_new [of h "st_users st" "u_id u" u] show ?thesis
    by (auto simp: accounts_ok_def st_getUser_def)
qed

lemma getUser_Inr: "getUser i s = Inr u \<longleftrightarrow> st_getUser i (is_store s) = Some u"
  by (auto simp: getUser_def split: option.splits)

lemma stored_id: "accounts_ok st \<Longrightarrow> st_getUser i st = Some u \<Longrightarrow> u_id u = i"
  by (simp add: accounts_ok_def st_getUser_def)

section \<open>Every operation keeps the accounts\<close>

lemma commission_ok:
  assumes ok: "accounts_ok (is_store s)"
  shows "accounts_ok (is_store (snd (commission env now ci s)))"
proof (cases "st_home (is_store s)")
  case None
  then have empty: "jget (st_users (is_store s)) i = None" for i
    using ok by (simp add: accounts_ok_def owner_ok_def)
  from ok have c: "\<forall>i c. jget (st_credentials (is_store s)) i = Some c \<longrightarrow> sc_userId c = i"
    by (simp add: accounts_ok_def)
  from ok have "jwf (st_users (is_store s))" by (simp add: accounts_ok_def)
  with None ok c show ?thesis
    by (auto simp: commission_def unfold_op accounts_ok_def empty owner_ok_def emails_unique_def
        split: option.splits)
next
  case (Some h)
  with ok show ?thesis by (simp add: commission_def throw_error_def)
qed

lemma createUser_ok:
  assumes ok: "accounts_ok (is_store s)" and fresh: "fresh_user env now s"
  shows "accounts_ok (is_store (snd (createUser env now cu s)))"
proof (cases "st_home (is_store s) = None \<or> policy_error env (cu_password cu) \<noteq> None \<or>
    findUserByEmail (cu_email cu) (is_store s) \<noteq> None \<or> username_taken (cu_username cu) s")
  case True
  with ok show ?thesis
    by (auto simp: createUser_def requireHome_def throw_error_def split: option.splits)
next
  case False
  then obtain h where h: "st_home (is_store s) = Some h" by auto
  with False show ?thesis
    using fresh by (auto simp: createUser_def requireHome_def unfold_op fresh_user_def
        intro!: new_user_ok [OF ok h])
qed

lemma changeEmail_ok:
  assumes ok: "accounts_ok (is_store s)"
  shows "accounts_ok (is_store (snd (changeEmail env uid e pw s)))"
proof -
  have put: "accounts_ok (putUser u' (is_store s))"
    if u: "getUser uid s = Inr u"
      and free: "case findUserByEmail (trim e) (is_store s) of None \<Rightarrow> True | Some v \<Rightarrow> u_id v = uid"
      and u': "u_id u' = u_id u" "u_email u' = trim e" "u_userType u' = u_userType u"
              "u_status u' = u_status u" "u_expiresAt u' = u_expiresAt u"
    for u u'
  proof (rule put_user_ok [OF ok])
    from u have g: "st_getUser uid (is_store s) = Some u" by (simp add: getUser_Inr)
    then have i: "u_id u = uid" by (rule stored_id [OF ok])
    with g u' show "st_getUser (u_id u') (is_store s) = Some u" by simp
    have wf: "jwf (st_users (is_store s))" using ok by (simp add: accounts_ok_def)
    fix v j
    assume v: "jget (st_users (is_store s)) j = Some v" and "j \<noteq> u_id u'"
    with i u' have j: "j \<noteq> uid" by simp
    show "toLowerCase (u_email v) \<noteq> toLowerCase (u_email u')"
    proof (cases "findUserByEmail (trim e) (is_store s)")
      case None
      from find_email_None [OF wf None v] u' show ?thesis by simp
    next
      case (Some w)
      from find_email_Some [OF wf Some] obtain k where
        k: "jget (st_users (is_store s)) k = Some w" "toLowerCase (u_email w) = toLowerCase (trim e)" by blast
      with free Some ok have "k = uid" by (auto simp: accounts_ok_def)
      with k v j ok u' show ?thesis by (auto simp: accounts_ok_def emails_unique_def)
    qed
  qed (use u' in simp)
  with ok show ?thesis
    by (auto simp: changeEmail_def unfold_op intro!: put split: sum.splits option.splits)
qed

lemma deleteUser_ok: "accounts_ok (is_store s) \<Longrightarrow> accounts_ok (is_store (snd (deleteUser uid s)))"
  by (auto simp: deleteUser_def throw_error_def getUser_Inr delete_user_ok split: sum.splits)

lemma deleteOwnAccount_ok:
  "accounts_ok (is_store s) \<Longrightarrow> accounts_ok (is_store (snd (deleteOwnAccount env uid pw s)))"
  by (simp add: deleteOwnAccount_def throw_error_def deleteUser_ok)

lemma setUserStatus_ok:
  "accounts_ok (is_store s) \<Longrightarrow> accounts_ok (is_store (snd (setUserStatus uid st s)))"
  by (auto simp: setUserStatus_def unfold_op getUser_Inr dest: stored_id
      intro!: put_user_same_email split: sum.splits)

lemma updateUserRole_ok:
  "accounts_ok (is_store s) \<Longrightarrow> accounts_ok (is_store (snd (updateUserRole uid ut s)))"
  by (auto simp: updateUserRole_def unfold_op getUser_Inr dest: stored_id
      intro!: put_user_same_email split: sum.splits)

lemma verifyEmail_ok:
  "accounts_ok (is_store s) \<Longrightarrow> accounts_ok (is_store (snd (verifyEmail env now tok s)))"
  by (auto simp: verifyEmail_def unfold_op getUser_Inr dest: stored_id
      intro!: put_user_same_email split: sum.splits option.splits)

lemma sweep_users_ok:
  "accounts_ok (is_store s) \<Longrightarrow> distinct (map u_id us) \<Longrightarrow>
     \<forall>u \<in> set us. st_getUser (u_id u) (is_store s) = Some u \<Longrightarrow>
     accounts_ok (is_store (snd (sweep_users now us s)))"
proof (induction us arbitrary: s)
  case Nil
  then show ?case by simp
next
  case (Cons u us)
  show ?case
  proof (cases "access_over now u")
    case True
    let ?s = "upd_store (putUser (u\<lparr>u_status := Expired\<rparr>)) s"
    from True Cons.prems have "accounts_ok (is_store ?s)"
      by (auto simp: access_over_def intro!: put_user_same_email)
    moreover have "\<forall>v \<in> set us. st_getUser (u_id v) (is_store ?s) = Some v"
    proof
      fix v assume v: "v \<in> set us"
      with Cons.prems(2) have "u_id v \<noteq> u_id u" by (metis distinct.simps(2) list.simps(9) imageI list.set_map)
      moreover from v Cons.prems(3) have "st_getUser (u_id v) (is_store s) = Some v" by simp
      ultimately show "st_getUser (u_id v) (is_store ?s) = Some v" by (simp add: st_getUser_def)
    qed
    ultimately have "accounts_ok (is_store (snd (sweep_users now us ?s)))"
      using Cons.prems by (intro Cons.IH) simp_all
    with True show ?thesis by (simp add: unfold_op)
  next
    case False
    with Cons show ?thesis by simp
  qed
qed

lemma sweepExpired_ok:
  assumes ok: "accounts_ok (is_store s)"
  shows "accounts_ok (is_store (snd (sweepExpired now s)))"
proof -
  let ?m = "st_users (is_store s)"
  from ok have wf: "jwf ?m" and keyed: "\<And>i u. jget ?m i = Some u \<Longrightarrow> u_id u = i"
    by (simp_all add: accounts_ok_def)
  have ids: "u_id u = i" if "(i, u) \<in> set ?m" for i u
    using that wf keyed by (simp add: jwf_def)
  then have "map u_id (jvalues ?m) = map fst ?m" by auto
  with wf have "distinct (map u_id (jvalues ?m))" by (simp only: jwf_def)
  moreover have "\<forall>u \<in> set (jvalues ?m). st_getUser (u_id u) (is_store s) = Some u"
    using ids wf by (auto simp: st_getUser_def jwf_def)
  ultimately show ?thesis
    using sweep_users_ok [OF ok] by (simp add: sweepExpired_def unfold_op st_listUsers_def)
qed

lemma fold_delete:
  "jget (st_users (fold (\<lambda>u. st_deleteUser (u_id u)) us st)) i =
     (if i \<in> u_id ` set us then None else jget (st_users st) i)"
  "jget (st_credentials (fold (\<lambda>u. st_deleteUser (u_id u)) us st)) i =
     (if i \<in> u_id ` set us then None else jget (st_credentials st) i)"
  "jwf (st_users st) \<Longrightarrow> jwf (st_users (fold (\<lambda>u. st_deleteUser (u_id u)) us st))"
  by (induction us arbitrary: st) auto

lemma resetAllUsers_ok:
  assumes ok: "accounts_ok (is_store s)"
  shows "accounts_ok (is_store (snd (resetAllUsers s)))"
proof -
  let ?m = "st_users (is_store s)"
  let ?st = "fold (\<lambda>u. st_deleteUser (u_id u)) (jvalues ?m) (is_store s)"
  have none: "jget (st_users ?st) i = None" for i
  proof (cases "jget ?m i")
    case None
    then show ?thesis by (simp add: fold_delete)
  next
    case (Some u)
    moreover from ok Some have "u_id u = i" by (simp add: accounts_ok_def)
    moreover from Some have "u \<in> set (jvalues ?m)" by (force dest: map_of_SomeD)
    ultimately show ?thesis by (force simp: fold_delete)
  qed
  have "\<forall>i c. jget (st_credentials ?st) i = Some c \<longrightarrow> sc_userId c = i"
    using ok by (simp add: accounts_ok_def fold_delete)
  moreover have "jwf (st_users ?st)" using ok by (simp add: accounts_ok_def fold_delete)
  ultimately show ?thesis
    using none
    by (simp add: resetAllUsers_def unfold_op st_listUsers_def fold_upd_store accounts_ok_def
        owner_ok_def emails_unique_def)
qed

lemma credential_ops_ok:
  assumes "accounts_ok (is_store s)"
  shows "accounts_ok (is_store (snd (verifyMfaLogin env now tok code ctx s)))"
    and "accounts_ok (is_store (snd (regenerateRecoveryCodes env uid n s)))"
    and "accounts_ok (is_store (snd (confirmMfaEnrollment env now uid code s)))"
    and "accounts_ok (is_store (snd (disableMfa env now uid code s)))"
    and "accounts_ok (is_store (snd (resetPassword env now tok pw s)))"
    and "accounts_ok (is_store (snd (changePassword env uid pw pw' s)))"
  using assms
  by (auto simp: identity_op_defs unfold_op set_password_def put_credential_ok
      split: option.splits sum.splits)

lemmas accounts_preserved =
  commission_ok createUser_ok changeEmail_ok deleteUser_ok deleteOwnAccount_ok setUserStatus_ok
  updateUserRole_ok verifyEmail_ok sweepExpired_ok resetAllUsers_ok credential_ops_ok

lemma step_accounts:
  assumes "identity_step env l s s'" "accounts_ok (is_store s)"
  shows "accounts_ok (is_store s')"
  using assms by cases (metis accounts_preserved store_frames snd_conv)+

lemma reachable_accounts: "identity_reachable env r s \<Longrightarrow> accounts_ok (is_store s)"
proof (induction rule: identity_reachable.induct)
  case start
  show ?case
    by (simp add: new_identity_def new_identity_store_def accounts_ok_def emails_unique_def owner_ok_def)
next
  case (step s l s')
  then show ?case by (blast intro: step_accounts)
qed

text \<open>
  C2: Whatever operations the identity service has run, in whatever order, the commissioned home
  still has its owner, an active master account without expiry: it cannot be deleted, suspended,
  expired, demoted or overwritten, except by the reset that also clears the home. No two users
  share an email up to case, and every user has the credential filed under its id.
\<close>

theorem accounts_invariant:
  assumes "identity_reachable env r s"
  shows "(case st_home (is_store s) of
            None \<Rightarrow> st_listUsers (is_store s) = []
          | Some h \<Rightarrow> \<exists>owner. st_getUser (h_masterUserId h) (is_store s) = Some owner \<and>
              u_userType owner = Master \<and> u_status owner = Active \<and> u_expiresAt owner = None) \<and>
         distinct (map (\<lambda>u. toLowerCase (u_email u)) (st_listUsers (is_store s))) \<and>
         list_all (\<lambda>u. \<exists>c. getCredential (u_id u) (is_store s) = Some c \<and> sc_userId c = u_id u)
           (st_listUsers (is_store s))"
proof -
  let ?st = "is_store s" and ?m = "st_users (is_store s)"
  from assms have ok: "accounts_ok ?st" by (rule reachable_accounts)
  then have wf: "jwf ?m" by (simp add: accounts_ok_def)
  from ok have "owner_ok (st_home ?st) ?m" by (simp add: accounts_ok_def)
  moreover have "?m = []" if "\<forall>i. jget ?m i = None"
    using that by (cases ?m) (auto split: if_splits)
  ultimately have owner: "case st_home ?st of None \<Rightarrow> st_listUsers ?st = []
      | Some h \<Rightarrow> \<exists>owner. st_getUser (h_masterUserId h) ?st = Some owner \<and>
          u_userType owner = Master \<and> u_status owner = Active \<and> u_expiresAt owner = None"
    by (auto simp: owner_ok_def st_listUsers_def st_getUser_def split: option.splits)
  have "inj_on (\<lambda>(i, u). toLowerCase (u_email u)) (set ?m)"
  proof (rule inj_onI, clarify)
    fix i u j v
    assume "(i, u) \<in> set ?m" "(j, v) \<in> set ?m" and eq: "toLowerCase (u_email u) = toLowerCase (u_email v)"
    with wf have u: "jget ?m i = Some u" and v: "jget ?m j = Some v" by (simp_all add: jwf_def)
    with ok eq have "i = j" by (auto simp: accounts_ok_def emails_unique_def)
    with u v show "i = j \<and> u = v" by simp
  qed
  moreover have "distinct ?m" using wf by (simp add: jwf_def distinct_map)
  ultimately have "distinct (map (\<lambda>(i, u). toLowerCase (u_email u)) ?m)" by (simp add: distinct_map)
  then have "distinct (map (\<lambda>u. toLowerCase (u_email u)) (st_listUsers ?st))"
    by (simp add: st_listUsers_def comp_def case_prod_unfold)
  moreover have "list_all (\<lambda>u. \<exists>c. getCredential (u_id u) ?st = Some c \<and> sc_userId c = u_id u) (st_listUsers ?st)"
    unfolding list_all_iff
  proof
    fix u assume "u \<in> set (st_listUsers ?st)"
    with wf obtain i where i: "jget ?m i = Some u"
      by (metis st_listUsers_def jvalues_iff)
    with ok have "u_id u = i" by (simp add: accounts_ok_def)
    with ok i show "\<exists>c. getCredential (u_id u) ?st = Some c \<and> sc_userId c = u_id u"
      by (auto simp: accounts_ok_def getCredential_def)
  qed
  ultimately show ?thesis using owner by blast
qed

definition demo_commission :: commission_input where
  "demo_commission = \<lparr>ci_homeName = ''villa'', ci_email = ''a@b'', ci_password = ''longenough'',
     ci_displayName = ''Ada'', ci_username = None\<rparr>"

definition demo_home :: "nat identity" where
  "demo_home = snd (commission demo_env 5 demo_commission (new_identity 0))"

lemma demo_policy: "policy_error demo_env ''longenough'' = None"
  by (simp add: policy_error_def demo_env_def checkPassword_def DEFAULT_PASSWORD_POLICY_def
      COMMON_def toLowerCase_def char_lower_def)

lemma demo_home_reachable: "identity_reachable demo_env 0 demo_home"
proof -
  obtain r where "commission demo_env 5 demo_commission (new_identity 0) = (r, demo_home)"
    by (metis demo_home_def prod.collapse)
  then show ?thesis by (rule identity_reachable.step [OF identity_reachable.start identity_step.commission])
qed

theorem accounts_invariant_witness:
  "identity_reachable demo_env 0 demo_home \<and> st_home (is_store demo_home) \<noteq> None \<and>
   distinct (map (\<lambda>u. toLowerCase (u_email u)) (st_listUsers (is_store demo_home)))"
  using accounts_invariant [OF demo_home_reachable] demo_home_reachable demo_policy
  by (simp add: demo_home_def commission_def unfold_op new_identity_def new_identity_store_def
      demo_commission_def)

section \<open>A second master\<close>

text \<open>
  \<^verbatim>\<open>createUser\<close> gives the role that is asked for, the master's too: in a commissioned home a
  request with a policy-conforming password and a free email yields a second master, beside the
  owner set at commissioning, and this account can afterwards be neither deleted, suspended,
  expired nor given another role. \<^verbatim>\<open>updateUserRole\<close> refuses to make a master and says that there
  can only be one.
\<close>

theorem second_master_admitted:
  assumes home: "st_home (is_store s) = Some h"
    and owner: "st_getUser (h_masterUserId h) (is_store s) = Some owner"
    and pw: "policy_error env (cu_password input) = None"
    and email: "findUserByEmail (cu_email input) (is_store s) = None"
    and un: "\<not> username_taken (cu_username input) s"
    and fresh: "fresh_user env now s"
    and master: "cu_userType input = Master"
  shows "\<exists>u s'. createUser env now input s = (Inr u, s') \<and> u_userType u = Master \<and>
     u_id u \<noteq> h_masterUserId h \<and> st_getUser (h_masterUserId h) (is_store s') = Some owner \<and>
     fst (deleteUser (u_id u) s')
       = Inl (SupremeError Conflict ''the master (owner) account cannot be deleted'') \<and>
     fst (setUserStatus (u_id u) Suspended s')
       = Inl (SupremeError Conflict ''the master user cannot be suspended or expired'') \<and>
     fst (setUserStatus (u_id u) Expired s')
       = Inl (SupremeError Conflict ''the master user cannot be suspended or expired'') \<and>
     (\<forall>ut. fst (updateUserRole (u_id u) ut s')
       = Inl (SupremeError Conflict ''the master account's role cannot be changed''))"
proof -
  obtain u s' where c: "createUser env now input s = (Inr u, s')"
    and u: "u_userType u = Master" "u_id u = fst (draw_id env IdUser now s)"
    and st: "st_users (is_store s') = jset (u_id u) u (st_users (is_store s))"
    using home pw email un master by (auto simp: createUser_def requireHome_def unfold_op)
  from fresh owner u(2) have ne: "u_id u \<noteq> h_masterUserId h"
    by (auto simp: fresh_user_def)
  with st owner have "st_getUser (h_masterUserId h) (is_store s') = Some owner"
    by (simp add: st_getUser_def)
  moreover from st have g: "getUser (u_id u) s' = Inr u" by (simp add: getUser_Inr st_getUser_def)
  ultimately show ?thesis using c u(1) ne
    by (auto simp: deleteUser_def setUserStatus_def updateUserRole_def throw_error_def)
qed

definition demo_second :: create_user_input where
  "demo_second = \<lparr>cu_email = ''c@d'', cu_password = ''longenough'', cu_displayName = ''Bob'',
     cu_userType = Master, cu_expiresAt = None, cu_username = None\<rparr>"

lemma time_digits_ends: "\<exists>xs. length xs = k \<and> time_digits k ts acc = xs @ acc"
proof (induction k arbitrary: ts acc)
  case (Suc k)
  then obtain xs where "length xs = k" "time_digits k (ts div 32) (ts mod 32 # acc) = xs @ ts mod 32 # acc"
    by blast
  then show ?case by (intro exI [of _ "xs @ [ts mod 32]"]) simp
qed simp

lemma user_id_time: "fst (draw_id env IdUser now s) ! 13 = ULID_ALPHABET ! (now mod 32)"
proof -
  have "time_digits 10 now [] = time_digits 9 (now div 32) [now mod 32]"
    using time_digits.simps(2) [of 9 now "[]"] by simp
  then obtain xs where "length xs = 9" "time_digits 10 now [] = xs @ [now mod 32]"
    using time_digits_ends [of 9 "now div 32" "[now mod 32]"] by metis
  then show ?thesis
    by (simp add: draw_id_def newId_def case_prod_unfold Let_def nth_append)
qed

lemma demo_fresh: "fresh_user demo_env 6 demo_home"
proof -
  let ?uid = "fst (draw_id demo_env IdUser 5 (snd (draw_id demo_env IdHome 5 (new_identity 0))))"
  obtain u where "st_users (is_store demo_home) = [(?uid, u)]"
    using demo_policy by (simp add: demo_home_def commission_def unfold_op
        new_identity_def new_identity_store_def demo_commission_def)
  moreover have "?uid ! 13 \<noteq> fst (draw_id demo_env IdUser 6 demo_home) ! 13"
    by (simp add: user_id_time ULID_ALPHABET_def)
  then have "?uid \<noteq> fst (draw_id demo_env IdUser 6 demo_home)" by metis
  ultimately show ?thesis by (simp add: fresh_user_def st_getUser_def)
qed

theorem second_master_admitted_witness:
  "\<exists>u s'. createUser demo_env 6 demo_second demo_home = (Inr u, s') \<and> u_userType u = Master \<and>
     fst (deleteUser (u_id u) s')
       = Inl (SupremeError Conflict ''the master (owner) account cannot be deleted'')"
proof -
  obtain h where home: "st_home (is_store demo_home) = Some h"
    using demo_policy by (simp add: demo_home_def commission_def unfold_op new_identity_def
        new_identity_store_def demo_commission_def)
  have "\<exists>owner. st_getUser (h_masterUserId h) (is_store demo_home) = Some owner"
    using reachable_accounts [OF demo_home_reachable] home
    by (auto simp: accounts_ok_def owner_ok_def st_getUser_def)
  then obtain owner where owner: "st_getUser (h_masterUserId h) (is_store demo_home) = Some owner" ..
  have "findUserByEmail (cu_email demo_second) (is_store demo_home) = None"
    using demo_policy by (simp add: findUserByEmail_def demo_home_def commission_def unfold_op
        new_identity_def new_identity_store_def demo_commission_def demo_second_def toLowerCase_def
        char_lower_def)
  moreover have "\<not> username_taken (cu_username demo_second) demo_home"
    by (simp add: username_taken_def truthy_def demo_second_def)
  moreover note demo_fresh
  moreover have "policy_error demo_env (cu_password demo_second) = None"
    using demo_policy by (simp add: demo_second_def)
  moreover have "cu_userType demo_second = Master" by (simp add: demo_second_def)
  ultimately show ?thesis using second_master_admitted [OF home owner] by blast
qed

section \<open>The lockout\<close>

text \<open>
  A run of failed logins on one key: \<open>n\<close> attempts, the last of them at the instant \<open>t\<close>, with any
  other steps of the service in between, other logins included.
\<close>

inductive failed_run ::
    "'r identity_env \<Rightarrow> string \<Rightarrow> nat \<Rightarrow> nat \<Rightarrow> 'r identity \<Rightarrow> 'r identity \<Rightarrow> bool" for env k where
  none: "failed_run env k 0 t s s"
| fail: "failed_run env k n t s0 s \<Longrightarrow> login_key i = k \<Longrightarrow>
    login env now i pw ctx s = (Inl (SupremeError Unauthorized m), s') \<Longrightarrow>
    failed_run env k (Suc n) now s0 s'"
| other: "failed_run env k n t s0 s \<Longrightarrow> identity_step env l s s' \<Longrightarrow> l \<noteq> OpLogin k \<Longrightarrow>
    failed_run env k n t s0 s'"

lemma login_unauthorized:
  "login env now i pw ctx s = (Inl (SupremeError Unauthorized m), s') \<Longrightarrow>
     s' = recordLoginFailure env (login_key i) now s"
  by (auto simp: login_def unfold_op split: option.splits if_splits)

lemma failed_run_count:
  "failed_run env k n t s0 s \<Longrightarrow> 0 < n \<Longrightarrow>
     \<exists>r. jget (is_loginFailures s) k = Some r \<and> n \<le> lf_count r \<and>
         (en_maxLoginAttempts env \<le> lf_count r \<longrightarrow> lf_lockedUntil r = t + en_lockoutMs env)"
proof (induction rule: failed_run.induct)
  case (none t s)
  then show ?case by simp
next
  case (fail n t s0 s i now pw ctx m s')
  from login_unauthorized [OF fail(3)] fail(2)
  have s': "s' = recordLoginFailure env k now s" by simp
  show ?case
  proof (cases n)
    case 0
    with s' show ?thesis by (auto simp: recordLoginFailure_def Let_def split: option.splits)
  next
    case (Suc n')
    with fail.IH obtain r where "jget (is_loginFailures s) k = Some r" "n \<le> lf_count r" by auto
    with s' show ?thesis by (simp add: recordLoginFailure_def Let_def)
  qed
next
  case (other n t s0 s l s')
  with step_failures [OF other(2,3)] show ?case by simp
qed

text \<open>
  C33: After as many failed logins on an identifier as the service allows, every login on it is refused until
  the lockout window after the last failure is over, with the right password too, and changes nothing.
  In between the failures any other operations may have happened, logins on other identifiers included,
  but no other login on this same identifier: a successful one starts the count again.
\<close>

theorem lockout_blocks:
  assumes "failed_run env k n t s0 s" "en_maxLoginAttempts env \<le> n" "0 < n"
    and "login_key i = k" "now < t + en_lockoutMs env"
  shows "login env now i pw ctx s
           = (Inl (SupremeError Forbidden (lockout_message (t + en_lockoutMs env) now)), s)"
proof -
  from failed_run_count [OF assms(1,3)] assms(2) have "locked_until k s = t + en_lockoutMs env"
    by (auto simp: locked_until_def)
  with assms(4,5) show ?thesis by (simp add: login_def throw_error_def)
qed

abbreviation demo_fail :: "nat \<Rightarrow> nat identity \<Rightarrow> nat identity" where
  "demo_fail now s \<equiv> snd (login demo_env now ''a@b'' ''wrong'' \<lparr>lc_ip = None, lc_userAgent = None\<rparr> s)"

theorem lockout_blocks_witness:
  "fst (login demo_env 50 ''a@b'' ''longenough'' \<lparr>lc_ip = None, lc_userAgent = None\<rparr>
          (demo_fail 20 (demo_fail 10 demo_home)))
     = Inl (SupremeError Forbidden (lockout_message 80 50))"
proof -
  have fails: "login demo_env now ''a@b'' ''wrong'' \<lparr>lc_ip = None, lc_userAgent = None\<rparr> s
      = (Inl (SupremeError Unauthorized ''invalid email or password''), demo_fail now s)"
    if "is_store s = is_store demo_home" "locked_until (login_key ''a@b'') s \<le> now" for now s
    using that demo_policy
    by (simp add: login_def find_login_def findUserByEmail_def getCredential_def demo_home_def
        commission_def unfold_op new_identity_def new_identity_store_def demo_commission_def
        draw_hash_def demo_env_def findUserByUsername_def split: option.splits)
  have "failed_run demo_env (login_key ''a@b'') (Suc (Suc 0)) 20 demo_home (demo_fail 20 (demo_fail 10 demo_home))"
  proof (rule failed_run.fail [OF failed_run.fail [OF failed_run.none refl fails] refl fails])
    show "locked_until (login_key ''a@b'') demo_home \<le> 10"
      using demo_policy by (simp add: locked_until_def demo_home_def commission_def unfold_op
          new_identity_def new_identity_store_def demo_commission_def)
    then have "demo_fail 10 demo_home = recordLoginFailure demo_env (login_key ''a@b'') 10 demo_home"
      using fails [of demo_home 10] login_unauthorized by blast
    moreover have "jget (is_loginFailures demo_home) (login_key ''a@b'') = None"
      using demo_policy by (simp add: demo_home_def commission_def unfold_op
          new_identity_def new_identity_store_def demo_commission_def)
    ultimately show "locked_until (login_key ''a@b'') (demo_fail 10 demo_home) \<le> 20"
      by (simp add: locked_until_def recordLoginFailure_def demo_env_def)
  qed (simp_all add: store_frames)
  from lockout_blocks [OF this] show ?thesis by (simp add: demo_env_def)
qed

end
