(* ===== verification/Identity_Sessions.thy ===== *)
theory Identity_Sessions
  imports Identity_Accounts
begin

text \<open>
  The sessions of the identity service: a revoked session stays dead, the refresh tokens of a
  session form one chain whatever calls run at the same time, and the second factor gates the login.
\<close>

section \<open>What every step keeps of a session\<close>

lemma keeps_create: "ses_get (ss_id x) m = None \<Longrightarrow> ses.keeps m (ses_create x m)"
  by (auto simp: ses.keeps_def)

lemma openSession_sessions:
  "is_sessions (snd (openSession env now uid ctx s)) = ses_create
     \<lparr>ss_id = fst (draw_id env IdSession now s), ss_userId = uid,
      ss_currentJti = snd (fst (openSession env now uid ctx s)), ss_revoked = False,
      ss_createdAt = int now, ss_ip = lc_ip ctx, ss_userAgent = lc_userAgent ctx,
      ss_lastSeenAt = Some (int now)\<rparr> (is_sessions s)"
  by (simp add: openSession_def case_prod_unfold Let_def)

lemma draw_id_cong: "is_random s = is_random s' \<Longrightarrow> is_ids s = is_ids s' \<Longrightarrow>
    fst (draw_id env k now s) = fst (draw_id env k now s')"
  by (simp add: draw_id_def case_prod_unfold Let_def)

text \<open>Both logins open at most one session, with the identifier drawn first.\<close>

definition opened :: "'r identity_env \<Rightarrow> nat \<Rightarrow> 'r identity \<Rightarrow> 'r identity \<Rightarrow> bool" where
  "opened env now s s' \<longleftrightarrow> is_sessions s' = is_sessions s \<or>
     (\<exists>x. ss_id x = fst (draw_id env IdSession now s) \<and> is_sessions s' = ses_create x (is_sessions s))"

lemma opened_openSession:
  "is_random t = is_random s \<Longrightarrow> is_ids t = is_ids s \<Longrightarrow> is_sessions t = is_sessions s \<Longrightarrow>
     opened env now s (snd (openSession env now uid ctx t))"
  unfolding opened_def openSession_sessions using draw_id_cong [of t s env IdSession now]
  by (auto intro!: exI)

lemma upd_store_random [simp]:
  "is_random (upd_store f s) = is_random s" "is_ids (upd_store f s) = is_ids s"
  by (simp_all add: upd_store_def)

lemma opened_refl: "is_sessions s' = is_sessions s \<Longrightarrow> opened env now s s'"
  by (simp add: opened_def)

lemma login_opened: "opened env now s (snd (login env now i pw ctx s))"
  by (simp add: login_def throw_error_def Let_def case_prod_unfold opened_refl opened_openSession
      split: option.split)

lemma mfa_opened: "opened env now s (snd (verifyMfaLogin env now tok code ctx s))"
  by (simp add: verifyMfaLogin_def throw_error_def Let_def case_prod_unfold opened_refl
      opened_openSession split: option.split sum.split)

lemma opened_keeps: "opened env now s s' \<Longrightarrow> fresh_session env now s \<Longrightarrow>
    ses.keeps (is_sessions s) (is_sessions s')"
  by (auto simp: opened_def fresh_session_def intro!: ses.keeps_refl keeps_create)

lemma opened_jti:
  "opened env now s s' \<Longrightarrow> fresh_session env now s \<Longrightarrow> ses_get sid (is_sessions s) = Some ss \<Longrightarrow>
     ses_get sid (is_sessions s') = Some ss"
  by (auto simp: opened_def fresh_session_def)

lemma fold_revoke_keeps: "ses.keeps m (fold (\<lambda>ss. ses_revoke (ss_id ss)) xs m)"
  by (induction xs arbitrary: m) (auto intro: ses.keeps_refl ses.keeps_trans ses.keeps_ops)

lemma fold_revoke_jti:
  "ses_get sid m = Some ss \<Longrightarrow> \<exists>ss'. ses_get sid (fold (\<lambda>ss. ses_revoke (ss_id ss)) xs m) = Some ss' \<and>
     ss_currentJti ss' = ss_currentJti ss"
proof (induction xs arbitrary: m ss)
  case (Cons x xs)
  let ?ss = "if sid = ss_id x then ss\<lparr>ss_revoked := True\<rparr> else ss"
  from Cons have "ses_get sid (ses_revoke (ss_id x) m) = Some ?ss" by auto
  with Cons.IH [of "ses_revoke (ss_id x) m" ?ss] show ?case by (auto split: if_splits)
qed simp

text \<open>The session changes of the other operations.\<close>

lemma session_changes:
  "is_sessions (snd (revokeSession uid sid s)) \<in> {is_sessions s, ses_revoke sid (is_sessions s)}"
  "\<exists>sid. is_sessions (snd (refresh_check env now tok s)) \<in> {is_sessions s, ses_revoke sid (is_sessions s)}"
  "is_sessions (snd (refresh_answer env now u sid won s))
     \<in> {is_sessions s, ses_touch sid (int now) (is_sessions s)}"
  "\<exists>sid. is_sessions (snd (logout env now tok s)) \<in> {is_sessions s, ses_revoke sid (is_sessions s)}"
  "is_sessions (snd (revokeOtherSessions uid sid s))
     = fold (\<lambda>ss. ses_revoke (ss_id ss))
         (filter (\<lambda>ss. ss_id ss \<noteq> sid \<and> \<not> ss_revoked ss) (listSessions uid s)) (is_sessions s)"
  "is_sessions (snd (refresh_rotate env now sid jti s))
     = snd (setCurrentJti sid jti (fst (draw_id env IdSession now s)) (is_sessions s))"
  by (auto simp: identity_op_defs unfold_op fold_upd_sessions split: option.splits sum.splits)

text \<open>The sessions a step leaves behind, by cases on the step.\<close>

lemma step_sessions:
  assumes "identity_step env l s s'"
  obtains (same) "is_sessions s' = is_sessions s"
  | (open_up) now where "opened env now s s'" "fresh_session env now s"
  | (revoke) sid where "is_sessions s' = ses_revoke sid (is_sessions s)"
  | (touch) sid t where "is_sessions s' = ses_touch sid t (is_sessions s)"
  | (revoke_all) xs :: "session list" where "is_sessions s' = fold (\<lambda>ss. ses_revoke (ss_id ss)) xs (is_sessions s)"
  | (cas) sid jti n where "l = OpRotate sid" "is_sessions s' = snd (setCurrentJti sid jti n (is_sessions s))"
  using assms
proof cases
  case (log_in now i pw ctx r)
  then show ?thesis using login_opened [of env now s i pw ctx] open_up by simp
next
  case (mfa_login now tok code ctx r)
  then show ?thesis using mfa_opened [of env now s tok code ctx] open_up by simp
next
  case (revoke_session uid sid r)
  then show ?thesis using session_changes(1) [of uid sid s] same revoke by auto
next
  case (check now tok r)
  then show ?thesis using session_changes(2) [of env now tok s] same revoke by auto
next
  case (answer now u sid won r)
  then show ?thesis using session_changes(3) [of env now u sid won s] same touch by auto
next
  case (log_out now tok r)
  then show ?thesis using session_changes(4) [of env now tok s] same revoke by auto
next
  case (revoke_others uid sid r)
  then show ?thesis using session_changes(5) [of uid sid s] revoke_all by auto
next
  case (rotate now sid jti r)
  then show ?thesis using session_changes(6) [of env now sid jti s] cas by auto
qed (metis session_frames same snd_conv)+

lemma step_keeps:
  assumes "identity_step env l s s'"
  shows "ses.keeps (is_sessions s) (is_sessions s')"
  using assms
proof (cases rule: step_sessions)
  case same
  then show ?thesis by (simp add: ses.keeps_refl)
next
  case (open_up now)
  then show ?thesis by (rule opened_keeps)
qed (auto simp: fold_revoke_keeps intro: ses.keeps_ops)

lemma step_jti:
  assumes "identity_step env l s s'" "l \<noteq> OpRotate sid" "ses_get sid (is_sessions s) = Some ss"
  shows "\<exists>ss'. ses_get sid (is_sessions s') = Some ss' \<and> ss_currentJti ss' = ss_currentJti ss"
  using assms(1)
proof (cases rule: step_sessions)
  case (open_up now)
  with assms(3) show ?thesis using opened_jti by blast
next
  case (revoke_all xs)
  with assms(3) show ?thesis using fold_revoke_jti by simp
next
  case (cas sid' jti n)
  with assms(2,3) show ?thesis by (auto simp: ses.get_cas)
qed (use assms(3) in auto)

section \<open>Revocation is final\<close>

inductive identity_steps :: "'r identity_env \<Rightarrow> 'r identity \<Rightarrow> 'r identity \<Rightarrow> bool" for env where
  refl: "identity_steps env s s"
| step: "identity_steps env s s' \<Longrightarrow> identity_step env l s' s'' \<Longrightarrow> identity_steps env s s''"

lemma steps_keep: "identity_steps env s s' \<Longrightarrow> ses.keeps (is_sessions s) (is_sessions s')"
  by (induction rule: identity_steps.induct) (auto intro: ses.keeps_refl ses.keeps_trans step_keeps)

lemma revoked_refused:
  assumes "ses_get sid (is_sessions s) = Some ss" "ss_revoked ss"
  shows "verify_token (en_jose env) (en_tokens env) now tok TkAccess = Inr c \<Longrightarrow>
      truthy (cl_sid c) = Some sid \<Longrightarrow> take (length API_TOKEN_PREFIX) tok \<noteq> API_TOKEN_PREFIX \<Longrightarrow>
      \<exists>m. authenticate env now tok s = (Inl (SupremeError Unauthorized m), s)"
    and "verify_token (en_jose env) (en_tokens env) now tok TkRefresh = Inr c \<Longrightarrow>
      truthy (cl_sid c) = Some sid \<Longrightarrow>
      \<exists>m. refresh env now tok s = (Inl (SupremeError Unauthorized m), s)"
  using assms
  by (auto simp: authenticate_def refresh_def refresh_check_def throw_error_def split: option.splits)

text \<open>
  Once a session is revoked, by a logout, a remote sign-out or a replayed refresh token, it
  stays dead whatever the service does afterwards: every access token bound to it is refused, and so is every
  refresh token bound to it, however long the tokens themselves are still valid.
\<close>

theorem revoked_session_is_dead:
  assumes "ses_get sid (is_sessions s) = Some ss" "ss_revoked ss" "identity_steps env s s'"
    and "verify_token (en_jose env) (en_tokens env) now tok TkAccess = Inr c"
    and "truthy (cl_sid c) = Some sid" "take (length API_TOKEN_PREFIX) tok \<noteq> API_TOKEN_PREFIX"
    and "verify_token (en_jose env) (en_tokens env) now' tok' TkRefresh = Inr c'"
    and "truthy (cl_sid c') = Some sid"
  shows "(\<exists>m. authenticate env now tok s' = (Inl (SupremeError Unauthorized m), s')) \<and>
         (\<exists>m. refresh env now' tok' s' = (Inl (SupremeError Unauthorized m), s'))"
proof -
  from steps_keep [OF assms(3)] assms(1,2) obtain ss' where
    "ses_get sid (is_sessions s') = Some ss'" "ss_revoked ss'"
    unfolding ses.keeps_def by blast
  from revoked_refused [OF this] assms show ?thesis by blast
qed

definition demo_session :: session where
  "demo_session = \<lparr>ss_id = ''x'', ss_userId = ''u'', ss_currentJti = ''j'', ss_revoked = True,
     ss_createdAt = 0, ss_ip = None, ss_userAgent = None, ss_lastSeenAt = None\<rparr>"

definition demo_claims :: "string \<Rightarrow> supreme_claims" where
  "demo_claims jti = \<lparr>cl_sub = ''u'', cl_homeId = ''h'', cl_userType = Family, cl_kind = TkAccess,
     cl_sid = Some ''x'', cl_jti = Some jti\<rparr>"

lemma demo_env_jose [simp]: "jose_ok (en_jose demo_env)"
  by (simp add: demo_env_def demo_jose_ok)

lemma demo_not_api: "take (length API_TOKEN_PREFIX) (jo_sign (en_jose demo_env) k i c t ttl) \<noteq> API_TOKEN_PREFIX"
  by (cases k) (simp_all add: demo_env_def demo_jose_def demo_sign_def put_str_def put_nat_def API_TOKEN_PREFIX_def)

theorem revoked_session_is_dead_witness:
  "\<exists>m. authenticate demo_env 2 (issueAccess demo_jose (en_tokens demo_env) 1 (demo_claims ''j''))
         (new_identity 0\<lparr>is_sessions := [(''x'', demo_session)]\<rparr>)
       = (Inl (SupremeError Unauthorized m), new_identity 0\<lparr>is_sessions := [(''x'', demo_session)]\<rparr>)"
proof -
  let ?s = "new_identity 0\<lparr>is_sessions := [(''x'', demo_session)]\<rparr> :: nat identity"
  have "verify_token (en_jose demo_env) (en_tokens demo_env) 2
      (issueAccess demo_jose (en_tokens demo_env) 1 (demo_claims ''j'')) TkAccess
      = Inr ((demo_claims ''j'')\<lparr>cl_kind := TkAccess\<rparr>)"
    using verify_issued(1) [OF demo_jose_ok, of "en_tokens demo_env" 2 1] by (simp add: demo_env_def)
  moreover have "verify_token (en_jose demo_env) (en_tokens demo_env) 2
      (issueRefresh demo_jose (en_tokens demo_env) 1 (demo_claims ''j'')) TkRefresh
      = Inr ((demo_claims ''j'')\<lparr>cl_kind := TkRefresh\<rparr>)"
    using verify_issued(2) [OF demo_jose_ok, of "en_tokens demo_env" 2 1] by (simp add: demo_env_def)
  moreover have "take (length API_TOKEN_PREFIX)
      (issueAccess demo_jose (en_tokens demo_env) 1 (demo_claims ''j'')) \<noteq> API_TOKEN_PREFIX"
    using demo_not_api by (simp add: issueAccess_def sign_def demo_env_def)
  ultimately show ?thesis
    using revoked_session_is_dead [of "''x''" ?s demo_session demo_env ?s 2 _ _ 2, OF _ _ identity_steps.refl]
    by (simp add: ses_get_def demo_session_def demo_claims_def truthy_def)
qed

section \<open>The chain of refresh tokens\<close>

text \<open>
  Any number of refresh calls at the same time, on one session \<open>sid\<close> and on others, with every other
  operation of the service in between. A call has passed its check, has tried its compare-and-swap, or has
  answered. \<open>ch\<close> lists the positions the session has been at. Rotating draws a position that is
  not among them: \<^verbatim>\<open>newId\<close> draws it at random.
\<close>

datatype call =
    Checked user string string
  | Rotated user string string "string option"
  | Answered user string string "string option" "error + token_pair"

type_synonym 'r rotation = "'r identity \<times> (nat, call) jsmap \<times> string list"

inductive rot_step :: "'r identity_env \<Rightarrow> string \<Rightarrow> 'r rotation \<Rightarrow> 'r rotation \<Rightarrow> bool" for env sid where
  begin_call: "jget cs c = None \<Longrightarrow> refresh_check env now tok s = (Inr (u, d, j), s') \<Longrightarrow>
    rot_step env sid (s, cs, ch) (s', jset c (Checked u d j) cs, ch)"
| rotate_call: "jget cs c = Some (Checked u d j) \<Longrightarrow> refresh_rotate env now d j s = (won, s') \<Longrightarrow>
    fst (draw_id env IdSession now s) \<notin> set ch \<Longrightarrow>
    rot_step env sid (s, cs, ch) (s', jset c (Rotated u d j won) cs,
      (case won of None \<Rightarrow> ch | Some n \<Rightarrow> if d = sid then ch @ [n] else ch))"
| answer_call: "jget cs c = Some (Rotated u d j won) \<Longrightarrow> refresh_answer env now u d won s = (r, s') \<Longrightarrow>
    rot_step env sid (s, cs, ch) (s', jset c (Answered u d j won r) cs, ch)"
| other: "identity_step env l s s' \<Longrightarrow> l \<noteq> OpRotate sid \<Longrightarrow> rot_step env sid (s, cs, ch) (s', cs, ch)"

inductive rot_reachable :: "'r identity_env \<Rightarrow> string \<Rightarrow> 'r rotation \<Rightarrow> bool" for env sid where
  start: "ses_get sid (is_sessions s) = Some ss \<Longrightarrow> rot_reachable env sid (s, [], [ss_currentJti ss])"
| step: "rot_reachable env sid x \<Longrightarrow> rot_step env sid x y \<Longrightarrow> rot_reachable env sid y"

fun seen_of :: "call \<Rightarrow> string \<times> string" where
  "seen_of (Checked u d j) = (d, j)"
| "seen_of (Rotated u d j won) = (d, j)"
| "seen_of (Answered u d j won r) = (d, j)"

fun won_of :: "call \<Rightarrow> string option" where
  "won_of (Checked u d j) = None"
| "won_of (Rotated u d j won) = won"
| "won_of (Answered u d j won r) = won"

fun answer_of :: "call \<Rightarrow> (user \<times> token_pair) option" where
  "answer_of (Answered u d j won (Inr tp)) = Some (u, tp)"
| "answer_of _ = None"

definition call_ok :: "'r identity_env \<Rightarrow> string \<Rightarrow> string list \<Rightarrow> call \<Rightarrow> bool" where
  "call_ok env sid ch x \<longleftrightarrow> (fst (seen_of x) = sid \<longrightarrow>
     snd (seen_of x) \<in> set ch \<and>
     (\<forall>n. won_of x = Some n \<longrightarrow> (\<exists>k. Suc k < length ch \<and> ch ! k = snd (seen_of x) \<and> ch ! Suc k = n)) \<and>
     (\<forall>u tp. answer_of x = Some (u, tp) \<longrightarrow> (\<exists>now. \<exists>n \<in> set ch. tp = issueTokens env now u sid n)))"

definition winners_ok :: "string \<Rightarrow> (nat, call) jsmap \<Rightarrow> bool" where
  "winners_ok sid cs \<longleftrightarrow> (\<forall>c x c' x' n. jget cs c = Some x \<longrightarrow> jget cs c' = Some x' \<longrightarrow>
     fst (seen_of x) = sid \<longrightarrow> fst (seen_of x') = sid \<longrightarrow> won_of x = Some n \<longrightarrow> won_of x' = Some n \<longrightarrow> c = c')"

definition rot_inv :: "'r identity_env \<Rightarrow> string \<Rightarrow> 'r rotation \<Rightarrow> bool" where
  "rot_inv env sid = (\<lambda>(s, cs, ch). distinct ch \<and> ch \<noteq> [] \<and>
     (\<exists>ss. ses_get sid (is_sessions s) = Some ss \<and> ss_currentJti ss = last ch) \<and>
     (\<forall>c x. jget cs c = Some x \<longrightarrow> call_ok env sid ch x) \<and> winners_ok sid cs)"

lemma call_ok_append: "call_ok env sid ch x \<Longrightarrow> call_ok env sid (ch @ ys) x"
  by (fastforce simp: call_ok_def nth_append)

text \<open>A call that moves on keeps its position; only a new winner has to be new.\<close>

lemma winners_put:
  assumes "winners_ok sid cs"
    and "\<And>n c' x'. won_of x = Some n \<Longrightarrow> fst (seen_of x) = sid \<Longrightarrow> jget cs c' = Some x' \<Longrightarrow> c' \<noteq> c \<Longrightarrow>
           fst (seen_of x') = sid \<Longrightarrow> won_of x' \<noteq> Some n"
  shows "winners_ok sid (jset c x cs)"
  unfolding winners_ok_def
proof (intro allI impI)
  fix c1 x1 c2 x2 n
  assume g: "jget (jset c x cs) c1 = Some x1" "jget (jset c x cs) c2 = Some x2"
    and sd: "fst (seen_of x1) = sid" "fst (seen_of x2) = sid" and w: "won_of x1 = Some n" "won_of x2 = Some n"
  show "c1 = c2"
  proof (rule ccontr)
    assume ne: "c1 \<noteq> c2"
    consider "c1 = c" | "c2 = c" | "c1 \<noteq> c" "c2 \<noteq> c" by blast
    then show False
    proof cases
      case 1
      with g ne have "x1 = x" "jget cs c2 = Some x2" "c2 \<noteq> c" by auto
      with assms(2) [of n c2 x2] sd w show False by simp
    next
      case 2
      with g ne have "x2 = x" "jget cs c1 = Some x1" "c1 \<noteq> c" by auto
      with assms(2) [of n c1 x1] sd w show False by simp
    next
      case 3
      with g have "jget cs c1 = Some x1" "jget cs c2 = Some x2" by simp_all
      with assms(1) sd w ne show False unfolding winners_ok_def by blast
    qed
  qed
qed

lemma winners_move:
  assumes "winners_ok sid cs" "jget cs c = Some y" "seen_of x = seen_of y" "won_of x = won_of y"
  shows "winners_ok sid (jset c x cs)"
proof (rule winners_put [OF assms(1)])
  fix n c' x'
  assume "won_of x = Some n" "fst (seen_of x) = sid" "jget cs c' = Some x'" "c' \<noteq> c" "fst (seen_of x') = sid"
  with assms show "won_of x' \<noteq> Some n" unfolding winners_ok_def by metis
qed

lemma check_Inr:
  "refresh_check env now tok s = (Inr (u, d, j), s') \<Longrightarrow>
     s' = s \<and> (\<exists>ss. ses_get d (is_sessions s) = Some ss \<and> \<not> ss_revoked ss \<and> ss_currentJti ss = j)"
  by (auto simp: refresh_check_def throw_error_def split: sum.splits option.splits if_splits)

lemma rotate_cases:
  assumes "refresh_rotate env now d j s = (won, s')"
  obtains (lost) "won = None" "is_sessions s' = is_sessions s"
  | (won) n ss where "won = Some n" "n = fst (draw_id env IdSession now s)"
      "ses_get d (is_sessions s) = Some ss" "ss_currentJti ss = j"
      "is_sessions s' = jset d (ss\<lparr>ss_currentJti := n\<rparr>) (is_sessions s)"
  using assms
  by (auto simp: refresh_rotate_def setCurrentJti_def ses_get_def unfold_op split: option.splits if_splits)

lemma answer_cases:
  assumes "refresh_answer env now u d won s = (r, s')"
  shows "ses_get sid (is_sessions s) = Some ss \<Longrightarrow> \<exists>ss'. ses_get sid (is_sessions s') = Some ss' \<and>
      ss_currentJti ss' = ss_currentJti ss"
    and "r = Inr tp \<Longrightarrow> (case won of Some n \<Rightarrow> tp = issueTokens env now u d n
      | None \<Rightarrow> \<exists>ss. ses_get d (is_sessions s) = Some ss \<and> tp = issueTokens env now u d (ss_currentJti ss))"
  using assms
  by (auto simp: refresh_answer_def throw_error_def split: option.splits if_splits)

lemma rot_step_inv:
  assumes "rot_step env sid x y" "rot_inv env sid x"
  shows "rot_inv env sid y"
  using assms
proof cases
  case (begin_call cs c now tok s u d j s' ch)
  from check_Inr [OF begin_call(4)] assms(2) begin_call(1)
  have "call_ok env sid ch (Checked u d j)" by (auto simp: rot_inv_def call_ok_def)
  moreover from assms(2) begin_call(1) have "winners_ok sid (jset c (Checked u d j) cs)"
    by (intro winners_put) (auto simp: rot_inv_def)
  ultimately show ?thesis using begin_call check_Inr [OF begin_call(4)] assms(2) by (auto simp: rot_inv_def)
next
  case (rotate_call cs c u d j now s won s' ch)
  from assms(2) rotate_call(1,3) have old: "call_ok env sid ch (Checked u d j)" by (auto simp: rot_inv_def)
  from rotate_call(4) show ?thesis
  proof (cases rule: rotate_cases)
    case lost
    then have "winners_ok sid (jset c (Rotated u d j won) cs)"
      using assms(2) rotate_call(1) by (intro winners_put) (auto simp: rot_inv_def)
    with lost old rotate_call assms(2) show ?thesis by (auto simp: rot_inv_def call_ok_def)
  next
    case (won n ss)
    show ?thesis
    proof (cases "d = sid")
      case False
      have "winners_ok sid (jset c (Rotated u d j (Some n)) cs)"
        using assms(2) rotate_call(1) False by (intro winners_put) (auto simp: rot_inv_def)
      moreover have "call_ok env sid ch (Rotated u d j (Some n))" using False by (simp add: call_ok_def)
      ultimately show ?thesis using won False rotate_call assms(2)
        by (auto simp: rot_inv_def ses_get_def)
    next
      case True
      with won assms(2) rotate_call(1) have last: "last ch = j" "ch \<noteq> []" "n \<notin> set ch"
        using rotate_call(5) by (auto simp: rot_inv_def)
      have "call_ok env sid (ch @ [n]) (Rotated u d j (Some n))"
        unfolding call_ok_def using True last
        by (auto simp: nth_append last_conv_nth intro!: exI [of _ "length ch - 1"])
      moreover have "winners_ok sid (jset c (Rotated u d j (Some n)) cs)"
      proof (rule winners_put)
        show "winners_ok sid cs" using assms(2) rotate_call(1) by (simp add: rot_inv_def)
        fix m c' x'
        assume m: "won_of (Rotated u d j (Some n)) = Some m" and x': "jget cs c' = Some x'"
          and d': "fst (seen_of x') = sid"
        from assms(2) rotate_call(1) x' have "call_ok env sid ch x'" by (auto simp: rot_inv_def)
        with d' have "won_of x' = Some m \<Longrightarrow> m \<in> set ch" unfolding call_ok_def by (metis nth_mem)
        with m last show "won_of x' \<noteq> Some m" by auto
      qed
      ultimately show ?thesis using won True last rotate_call assms(2)
        by (auto simp: rot_inv_def ses_get_def call_ok_append)
    qed
  qed
next
  case (answer_call cs c u d j won now s r s' ch)
  from assms(2) answer_call(1,3) have old: "call_ok env sid ch (Rotated u d j won)" by (auto simp: rot_inv_def)
  have "call_ok env sid ch (Answered u d j won r)"
  proof (cases "d = sid")
    case True
    show ?thesis
    proof (cases r)
      case (Inl e)
      with old show ?thesis by (simp add: call_ok_def)
    next
      case (Inr tp)
      from answer_cases(2) [OF answer_call(4) Inr] old True assms(2) answer_call(1)
      have "\<exists>n \<in> set ch. tp = issueTokens env now u sid n"
        by (cases won) (auto simp: rot_inv_def call_ok_def)
      with old Inr True show ?thesis by (auto simp: call_ok_def)
    qed
  qed (simp add: call_ok_def)
  moreover have "winners_ok sid (jset c (Answered u d j won r) cs)"
    using assms(2) answer_call(1,3) by (intro winners_move [of _ _ c "Rotated u d j won"]) (auto simp: rot_inv_def)
  ultimately show ?thesis using answer_call assms(2) answer_cases(1) [OF answer_call(4)]
    by (fastforce simp: rot_inv_def)
next
  case (other l s s' cs ch)
  with assms(2) step_jti [OF other(3,4)] show ?thesis by (fastforce simp: rot_inv_def)
qed

lemma rot_reachable_inv: "rot_reachable env sid x \<Longrightarrow> rot_inv env sid x"
proof (induction rule: rot_reachable.induct)
  case (start s ss)
  then show ?case by (simp add: rot_inv_def winners_ok_def)
next
  case (step x y)
  then show ?case by (blast intro: rot_step_inv)
qed

text \<open>
  C28: However many refresh calls of a session run at the same time, with logins, logouts and anything
  else in between, the session's refresh tokens form one chain that never forks: no position
  comes back, the session is always at the last one, two different calls never rotate from
  the same position, and every answered call, also one that lost the race, hands out tokens of
  the chain.
\<close>

theorem refresh_chain_linear:
  assumes "rot_reachable env sid (s, cs, ch)"
  shows "distinct ch \<and> (\<exists>ss. ses_get sid (is_sessions s) = Some ss \<and> ss_currentJti ss = last ch) \<and>
    (\<forall>c c' x x' j n n'. jget cs c = Some x \<and> jget cs c' = Some x' \<and> seen_of x = (sid, j) \<and>
       seen_of x' = (sid, j) \<and> won_of x = Some n \<and> won_of x' = Some n' \<longrightarrow> c = c') \<and>
    (\<forall>c u j won tp. jget cs c = Some (Answered u sid j won (Inr tp)) \<longrightarrow>
       (\<exists>now. \<exists>n \<in> set ch. tp = issueTokens env now u sid n))"
proof -
  from rot_reachable_inv [OF assms] have inv: "distinct ch" "\<And>c x. jget cs c = Some x \<Longrightarrow> call_ok env sid ch x"
    "winners_ok sid cs" "\<exists>ss. ses_get sid (is_sessions s) = Some ss \<and> ss_currentJti ss = last ch"
    by (auto simp: rot_inv_def)
  have "c = c'" if g: "jget cs c = Some x" "jget cs c' = Some x'" and sd: "seen_of x = (sid, j)" "seen_of x' = (sid, j)"
    and w: "won_of x = Some n" "won_of x' = Some n'" for c c' x x' j n n'
  proof -
    from inv(2) [OF g(1)] sd w obtain k where k: "Suc k < length ch" "ch ! k = j" "ch ! Suc k = n"
      by (auto simp: call_ok_def)
    from inv(2) [OF g(2)] sd w obtain k' where k': "Suc k' < length ch" "ch ! k' = j" "ch ! Suc k' = n'"
      by (auto simp: call_ok_def)
    from k k' inv(1) have "k = k'" by (metis Suc_lessD nth_eq_iff_index_eq)
    with k k' w have "won_of x' = Some n" by simp
    with inv(3) g sd w(1) show ?thesis unfolding winners_ok_def by (metis fst_conv)
  qed
  moreover have "\<exists>now. \<exists>n \<in> set ch. tp = issueTokens env now u sid n"
    if "jget cs c = Some (Answered u sid j won (Inr tp))" for c u j won tp
    using inv(2) [OF that] by (simp add: call_ok_def)
  ultimately show ?thesis using inv(1,4) by blast
qed

text \<open>
  A refresh token of any earlier position of the chain, whoever presents it and whenever, is not
  accepted, and presenting it leaves the session revoked.
\<close>

theorem replayed_refresh_revokes:
  assumes "rot_reachable env sid (s, cs, ch)" "j \<in> set (butlast ch)"
    and "verify_token (en_jose env) (en_tokens env) now tok TkRefresh = Inr c"
    and "truthy (cl_sid c) = Some sid" "truthy (cl_jti c) = Some j"
    and "st_getUser (cl_sub c) (is_store s) = Some u" "u_status u = Active"
  shows "\<exists>m s' ss. refresh env now tok s = (Inl (SupremeError Unauthorized m), s') \<and>
     ses_get sid (is_sessions s') = Some ss \<and> ss_revoked ss"
proof -
  from rot_reachable_inv [OF assms(1)] obtain ss where ch: "distinct ch" "ch \<noteq> []"
    and ss: "ses_get sid (is_sessions s) = Some ss" "ss_currentJti ss = last ch"
    by (auto simp: rot_inv_def)
  from ch assms(2) have "last ch \<noteq> j"
    by (metis append_butlast_last_id distinct_butlast not_distinct_conv_prefix)
  with ss assms(3-7) show ?thesis
    by (auto simp: refresh_def refresh_check_def throw_error_def)
qed

definition demo_member :: user where
  "demo_member = \<lparr>u_id = ''u'', u_homeId = ''h'', u_email = ''e'', u_username = None, u_phone = None,
     u_displayName = ''Bob'', u_userType = Family, u_status = Active, u_emailVerified = True,
     u_createdAt = 0, u_expiresAt = None\<rparr>"

definition demo_alive :: "nat identity" where
  "demo_alive = new_identity 0\<lparr>is_sessions := [(''x'', demo_session\<lparr>ss_revoked := False\<rparr>)],
     is_store := \<lparr>st_home = None, st_users = [(''u'', demo_member)], st_credentials = []\<rparr>\<rparr>"

abbreviation demo_refresh :: string where
  "demo_refresh \<equiv> issueRefresh demo_jose (en_tokens demo_env) 1 (demo_claims ''j'')"

lemma demo_refresh_verified:
  "verify_token (en_jose demo_env) (en_tokens demo_env) 2 demo_refresh TkRefresh
     = Inr ((demo_claims ''j'')\<lparr>cl_kind := TkRefresh\<rparr>)"
  using verify_issued(2) [OF demo_jose_ok, of "en_tokens demo_env" 2 1] by (simp add: demo_env_def)

lemma demo_check: "refresh_check demo_env 2 demo_refresh demo_alive = (Inr (demo_member, ''x'', ''j''), demo_alive)"
  using demo_refresh_verified
  by (simp add: refresh_check_def demo_alive_def st_getUser_def demo_claims_def truthy_def ses_get_def
      demo_member_def demo_session_def)

lemma session_id_hd: "hd (fst (draw_id env IdSession now s)) = CHR ''s''"
  by (simp add: draw_id_def newId_def case_prod_unfold Let_def)

abbreviation demo_won :: "string option \<times> nat identity" where
  "demo_won \<equiv> refresh_rotate demo_env 2 ''x'' ''j'' demo_alive"

lemma demo_rotated:
  "rot_reachable demo_env ''x'' (snd demo_won, [(0, Rotated demo_member ''x'' ''j'' (fst demo_won))],
     [''j'', fst (draw_id demo_env IdSession 2 demo_alive)])"
proof -
  have "ses_get ''x'' (is_sessions demo_alive) = Some (demo_session\<lparr>ss_revoked := False\<rparr>)"
    by (simp add: demo_alive_def ses_get_def)
  from rot_reachable.start [OF this, of demo_env]
  have "rot_reachable demo_env ''x'' (demo_alive, [], [''j''])" by (simp add: demo_session_def)
  from rot_reachable.step [OF this rot_step.begin_call [OF _ demo_check, of _ 0]]
  have "rot_reachable demo_env ''x'' (demo_alive, [(0, Checked demo_member ''x'' ''j'')], [''j''])" by simp
  moreover have "rot_step demo_env ''x'' (demo_alive, [(0, Checked demo_member ''x'' ''j'')], [''j''])
      (snd demo_won, jset 0 (Rotated demo_member ''x'' ''j'' (fst demo_won)) [(0, Checked demo_member ''x'' ''j'')],
       (case fst demo_won of None \<Rightarrow> [''j''] | Some n \<Rightarrow> if ''x'' = ''x'' then [''j''] @ [n] else [''j'']))"
  proof (rule rot_step.rotate_call)
    show "jget [(0, Checked demo_member ''x'' ''j'')] 0 = Some (Checked demo_member ''x'' ''j'')" by simp
    show "refresh_rotate demo_env 2 ''x'' ''j'' demo_alive = (fst demo_won, snd demo_won)" by simp
    show "fst (draw_id demo_env IdSession 2 demo_alive) \<notin> set [''j'']"
      using session_id_hd [of demo_env 2 demo_alive] by auto
  qed
  moreover have "fst demo_won = Some (fst (draw_id demo_env IdSession 2 demo_alive))"
    by (simp add: refresh_rotate_def unfold_op setCurrentJti_def) (simp add: demo_alive_def demo_session_def)
  ultimately show ?thesis using rot_reachable.step by fastforce
qed

theorem refresh_chain_linear_witness:
  "\<exists>ss. ses_get ''x'' (is_sessions (snd demo_won)) = Some ss \<and>
     ss_currentJti ss = fst (draw_id demo_env IdSession 2 demo_alive)"
  using refresh_chain_linear [OF demo_rotated] by simp

theorem replayed_refresh_revokes_witness:
  "\<exists>m s' ss. refresh demo_env 2 demo_refresh (snd demo_won) = (Inl (SupremeError Unauthorized m), s') \<and>
     ses_get ''x'' (is_sessions s') = Some ss \<and> ss_revoked ss"
proof (rule replayed_refresh_revokes [OF demo_rotated _ demo_refresh_verified])
  show "''j'' \<in> set (butlast [''j'', fst (draw_id demo_env IdSession 2 demo_alive)])" by simp
  show "st_getUser (cl_sub ((demo_claims ''j'')\<lparr>cl_kind := TkRefresh\<rparr>)) (is_store (snd demo_won)) = Some demo_member"
    by (simp add: store_frames) (simp add: demo_alive_def st_getUser_def demo_claims_def)
qed (simp_all add: demo_claims_def truthy_def demo_member_def)

section \<open>The second factor\<close>

lemma mfa_token_wrong_kind:
  assumes "jose_ok jo" "k \<noteq> TkMfa"
  shows "\<exists>m. verify_token jo ts t (issueMfa jo ts now c) k = Inl (SupremeError Unauthorized m)"
  using assms(2) by (simp add: verify_token_def issueMfa_def sign_def verify_signed [OF assms(1)])

text \<open>
  A login succeeds only with the right password of an active account. Without a second
  factor it opens a session. With one it opens none: what it returns is a token that is good for
  the second step only, never accepted as an access token or as a refresh token.
\<close>

theorem login_mfa_gate:
  assumes "jose_ok (en_jose env)"
    and "\<And>k i c t ttl. take (length API_TOKEN_PREFIX) (jo_sign (en_jose env) k i c t ttl) \<noteq> API_TOKEN_PREFIX"
    and "login env now i pw ctx s = (Inr resp, s')"
  shows "\<exists>u cred. find_login i s = Some u \<and> getCredential (u_id u) (is_store s) = Some cred \<and>
     en_verify env (sc_passwordHash cred) pw \<and> u_status u = Active \<and>
     (case resp of
        LoginOk tp \<Rightarrow> truthy (sc_mfaSecret cred) = None \<and>
          (\<exists>sid jti ss. tp = issueTokens env now u sid jti \<and> ses_get sid (is_sessions s') = Some ss \<and>
             ss_userId ss = u_id u \<and> ss_currentJti ss = jti \<and> \<not> ss_revoked ss)
      | MfaRequired tok \<Rightarrow> truthy (sc_mfaSecret cred) \<noteq> None \<and> is_sessions s' = is_sessions s \<and>
          (\<forall>t. \<exists>m. authenticate env t tok s' = (Inl (SupremeError Unauthorized m), s')) \<and>
          (\<forall>t. \<exists>m. refresh env t tok s' = (Inl (SupremeError Unauthorized m), s')))"
proof -
  from assms(3) obtain u cred where u: "find_login i s = Some u" "getCredential (u_id u) (is_store s) = Some cred"
      "en_verify env (sc_passwordHash cred) pw" "u_status u = Active"
    by (auto simp: login_def throw_error_def Let_def split: if_splits option.splits)
  note L = assms(3) [unfolded login_def throw_error_def Let_def] and S = u(1,2,3,4)
  show ?thesis
  proof (cases "truthy (sc_mfaSecret cred)")
    case None
    with L S have "\<exists>sid jti ss. resp = LoginOk (issueTokens env now u sid jti) \<and>
        ses_get sid (is_sessions s') = Some ss \<and> ss_userId ss = u_id u \<and> ss_currentJti ss = jti \<and> \<not> ss_revoked ss"
      by (auto simp: openSession_def case_prod_unfold Let_def split: if_splits)
    then obtain sid jti ss where resp: "resp = LoginOk (issueTokens env now u sid jti)" and
      *: "ses_get sid (is_sessions s') = Some ss \<and> ss_userId ss = u_id u \<and> ss_currentJti ss = jti \<and> \<not> ss_revoked ss"
      by blast
    show ?thesis
      unfolding resp login_response.case using None u * by blast
  next
    case (Some secret)
    let ?tok = "issueMfa (en_jose env) (en_tokens env) now (base_claims u)"
    from Some L S have r: "resp = MfaRequired ?tok" "is_sessions s' = is_sessions s"
      by (auto split: if_splits)
    have "\<exists>m. authenticate env t ?tok s' = (Inl (SupremeError Unauthorized m), s')" for t
      using mfa_token_wrong_kind [OF assms(1), of TkAccess "en_tokens env" t now "base_claims u"] assms(2)
      by (auto simp: authenticate_def issueMfa_def sign_def)
    moreover have "\<exists>m. refresh env t ?tok s' = (Inl (SupremeError Unauthorized m), s')" for t
      using mfa_token_wrong_kind [OF assms(1), of TkRefresh "en_tokens env" t now "base_claims u"]
      by (auto simp: refresh_def refresh_check_def)
    ultimately show ?thesis using u r Some by auto
  qed
qed

abbreviation demo_mfa_credential :: stored_credential where
  "demo_mfa_credential \<equiv> \<lparr>sc_userId = ''u'', sc_passwordHash = ''hpw'', sc_mfaSecret = Some ''GE'', sc_recoveryCodes = Some [''sabcd-ef'']\<rparr>"

definition demo_mfa :: "nat identity" where
  "demo_mfa = new_identity 0\<lparr>is_store := \<lparr>st_home = None, st_users = [(''u'', demo_member)],
     st_credentials = [(''u'', demo_mfa_credential)]\<rparr>\<rparr>"

abbreviation demo_ctx :: login_context where
  "demo_ctx \<equiv> \<lparr>lc_ip = None, lc_userAgent = None\<rparr>"

lemma demo_mfa_login:
  "login demo_env 1 ''e'' ''pw'' demo_ctx demo_mfa
     = (Inr (MfaRequired (issueMfa demo_jose (en_tokens demo_env) 1 (base_claims demo_member))), demo_mfa)"
  by (simp add: login_def locked_until_def demo_mfa_def new_identity_def find_login_def findUserByEmail_def
      demo_member_def getCredential_def demo_env_def truthy_def)

theorem login_mfa_gate_witness:
  "\<exists>m. authenticate demo_env 2 (issueMfa demo_jose (en_tokens demo_env) 1 (base_claims demo_member)) demo_mfa
     = (Inl (SupremeError Unauthorized m), demo_mfa)"
  using login_mfa_gate [OF demo_env_jose demo_not_api demo_mfa_login] by auto

lemma recovery_code_accepted:
  assumes "verify_token (en_jose env) (en_tokens env) now tok TkMfa = Inr c"
    and "st_getUser (cl_sub c) (is_store s) = Some u" "u_id u = cl_sub c" "u_status u = Active"
    and "getCredential (cl_sub c) (is_store s) = Some cred"
    and "truthy (sc_mfaSecret cred) = Some secret" "sc_recoveryCodes cred = Some codes"
    and "\<not> verifyTotp (en_hmac_sha1 env) secret (filter (\<lambda>x. \<not> is_space x) code) 1 now"
    and "en_sha256 env (toLowerCase (filter (\<lambda>x. \<not> is_space x) code)) \<in> set codes"
  shows "\<exists>tp. verifyMfaLogin env now tok code ctx s = (Inr tp, snd (verifyMfaLogin env now tok code ctx s))"
  using assms by (simp add: verifyMfaLogin_def case_prod_unfold Let_def)

text \<open>
  A recovery code completes one login and no second one: when it stood in for the authenticator's
  code, the next attempt with it, in any spacing and case, fails and changes nothing.
\<close>

theorem recovery_code_single_use:
  assumes "verifyMfaLogin env now tok code ctx s = (Inr tp, s')"
    and "verify_token (en_jose env) (en_tokens env) now tok TkMfa = Inr c"
    and "st_getUser (cl_sub c) (is_store s) = Some u" "u_id u = cl_sub c"
    and "getCredential (cl_sub c) (is_store s) = Some cred" "sc_userId cred = cl_sub c"
    and "truthy (sc_mfaSecret cred) = Some secret"
    and "\<not> verifyTotp (en_hmac_sha1 env) secret (filter (\<lambda>x. \<not> is_space x) code) 1 now"
    and "verify_token (en_jose env) (en_tokens env) now' tok' TkMfa = Inr c'" "cl_sub c' = cl_sub c"
    and "toLowerCase (filter (\<lambda>x. \<not> is_space x) code') = toLowerCase (filter (\<lambda>x. \<not> is_space x) code)"
    and "\<not> verifyTotp (en_hmac_sha1 env) secret (filter (\<lambda>x. \<not> is_space x) code') 1 now'"
  shows "verifyMfaLogin env now' tok' code' ctx' s'
     = (Inl (SupremeError Unauthorized ''invalid authentication code''), s')"
proof -
  let ?h = "en_sha256 env (toLowerCase (filter (\<lambda>x. \<not> is_space x) code))"
  let ?rest = "filter (\<lambda>h. h \<noteq> ?h) (case sc_recoveryCodes cred of None \<Rightarrow> [] | Some cs \<Rightarrow> cs)"
  let ?cred = "cred\<lparr>sc_recoveryCodes := Some ?rest\<rparr>"
  have act: "u_status u = Active"
    using assms(1-3) by (auto simp: verifyMfaLogin_def throw_error_def split: if_splits)
  have "snd (verifyMfaLogin env now tok code ctx s)
      = snd (openSession env now (u_id u) ctx (upd_store (putCredential ?cred) s))"
    using assms(1-8) act by (auto simp: verifyMfaLogin_def unfold_op split: if_splits)
  with assms(1) have "is_store s' = putCredential ?cred (is_store s)" by simp
  then have "st_getUser (cl_sub c) (is_store s') = Some u" "getCredential (cl_sub c) (is_store s') = Some ?cred"
    using assms(3,5,6) by (simp_all add: st_getUser_def getCredential_def)
  with assms(4,7,9-12) act show ?thesis
    by (simp add: verifyMfaLogin_def throw_error_def Let_def)
qed

abbreviation demo_mfa_token :: string where
  "demo_mfa_token \<equiv> issueMfa demo_jose (en_tokens demo_env) 1 (base_claims demo_member)"

lemma demo_mfa_verified:
  "verify_token (en_jose demo_env) (en_tokens demo_env) 2 demo_mfa_token TkMfa
     = Inr ((base_claims demo_member)\<lparr>cl_kind := TkMfa\<rparr>)"
  using verify_signed [OF demo_jose_ok]
  by (simp add: verify_token_def issueMfa_def sign_def demo_env_def MFA_TTL_def)

lemma demo_codes:
  "filter (\<lambda>x. \<not> is_space x) ''ABCD-EF'' = ''ABCD-EF''" "filter (\<lambda>x. \<not> is_space x) ''abcd-ef'' = ''abcd-ef''"
  "toLowerCase ''ABCD-EF'' = ''abcd-ef''" "toLowerCase ''abcd-ef'' = ''abcd-ef''"
  by code_simp+

lemma demo_not_a_totp:
  "\<not> verifyTotp h k ''ABCD-EF'' 1 t" "\<not> verifyTotp h k ''abcd-ef'' 1 t"
  by (simp_all add: verifyTotp_def code_ok_def)

lemma demo_mfa_records:
  "st_getUser ''u'' (is_store demo_mfa) = Some demo_member"
  "getCredential ''u'' (is_store demo_mfa)
     = Some demo_mfa_credential"
  "cl_sub ((base_claims demo_member)\<lparr>cl_kind := TkMfa\<rparr>) = ''u''" "u_id demo_member = ''u''" "u_status demo_member = Active"
  by (simp_all add: demo_mfa_def st_getUser_def base_claims_def demo_member_def getCredential_def)

lemma demo_mfa_accepted:
  "\<exists>tp. verifyMfaLogin demo_env 2 demo_mfa_token ''ABCD-EF'' demo_ctx demo_mfa
     = (Inr tp, snd (verifyMfaLogin demo_env 2 demo_mfa_token ''ABCD-EF'' demo_ctx demo_mfa))"
proof (rule recovery_code_accepted [OF demo_mfa_verified, unfolded demo_mfa_records])
  show "st_getUser ''u'' (is_store demo_mfa) = Some demo_member" by (rule demo_mfa_records)
  show "getCredential ''u'' (is_store demo_mfa) = Some demo_mfa_credential" by (rule demo_mfa_records)
  show "truthy (sc_mfaSecret demo_mfa_credential) = Some ''GE''" by (simp add: truthy_def)
  show "en_sha256 demo_env (toLowerCase (filter (\<lambda>x. \<not> is_space x) ''ABCD-EF'')) \<in> set [''sabcd-ef'']"
    unfolding demo_codes by (simp add: demo_env_def)
  show "\<not> verifyTotp (en_hmac_sha1 demo_env) ''GE'' (filter (\<lambda>x. \<not> is_space x) ''ABCD-EF'') 1 2"
    unfolding demo_codes by (rule demo_not_a_totp)
qed (simp_all add: demo_mfa_records)

theorem recovery_code_single_use_witness:
  "fst (verifyMfaLogin demo_env 2 demo_mfa_token ''abcd-ef'' demo_ctx
     (snd (verifyMfaLogin demo_env 2 demo_mfa_token ''ABCD-EF'' demo_ctx demo_mfa)))
     = Inl (SupremeError Unauthorized ''invalid authentication code'')"
proof -
  from demo_mfa_accepted obtain tp where
    tp: "verifyMfaLogin demo_env 2 demo_mfa_token ''ABCD-EF'' demo_ctx demo_mfa
      = (Inr tp, snd (verifyMfaLogin demo_env 2 demo_mfa_token ''ABCD-EF'' demo_ctx demo_mfa))" ..
  have "verifyMfaLogin demo_env 2 demo_mfa_token ''abcd-ef'' demo_ctx
       (snd (verifyMfaLogin demo_env 2 demo_mfa_token ''ABCD-EF'' demo_ctx demo_mfa))
     = (Inl (SupremeError Unauthorized ''invalid authentication code''),
        snd (verifyMfaLogin demo_env 2 demo_mfa_token ''ABCD-EF'' demo_ctx demo_mfa))"
  proof (rule recovery_code_single_use [OF tp demo_mfa_verified _ _ _ _ _ _ demo_mfa_verified, unfolded demo_mfa_records(3) demo_codes])
    show "st_getUser ''u'' (is_store demo_mfa) = Some demo_member" by (rule demo_mfa_records)
    show "getCredential ''u'' (is_store demo_mfa) = Some demo_mfa_credential" by (rule demo_mfa_records)
    show "truthy (sc_mfaSecret demo_mfa_credential) = Some ''GE''" by (simp add: truthy_def)
    show "toLowerCase (filter (\<lambda>x. \<not> is_space x) ''abcd-ef'') = ''abcd-ef''" by (simp only: demo_codes)
    show "\<not> verifyTotp (en_hmac_sha1 demo_env) ''GE'' ''ABCD-EF'' 1 2" by (rule demo_not_a_totp)
    show "\<not> verifyTotp (en_hmac_sha1 demo_env) ''GE'' (filter (\<lambda>x. \<not> is_space x) ''abcd-ef'') 1 2"
      unfolding demo_codes by (rule demo_not_a_totp)
  qed (simp_all add: demo_mfa_records)
  then show ?thesis by simp
qed

end
