(* ===== verification/Canonical_Json.thy ===== *)
theory Canonical_Json
  imports Prelude "HOL-Library.List_Lexorder" "HOL-Library.Char_ord"
begin

text \<open>
  Canonical JSON, the text that the hub hashes and signs: \<^verbatim>\<open>canonicalJson\<close> and \<^verbatim>\<open>sortKeys\<close> of
  \<^verbatim>\<open>packages/crypto/src/index.ts\<close>, with the part of \<^verbatim>\<open>JSON.stringify\<close> they rest on. The last lemmas
  show that two values have the same canonical text exactly when they are the same value up to the
  order of object keys, so a digest or a signature over the text speaks of the value.
\<close>

section \<open>Values and their text\<close>

text \<open>
  An object is the list of its own properties, in the order in which JavaScript enumerates them, each key
  once (\<open>json_wf\<close>). Numbers are integers, printed in decimal; fractional and exponent forms are left out.
\<close>

datatype json =
    JsNull | JsBool bool | JsNumber int | JsString string
  | JsArray "json list" | JsObject "(string \<times> json) list"

lemma size_member [termination_simp]: "(k, v) \<in> set kvs \<Longrightarrow> size v < Suc (size_list (size_prod (\<lambda>_. 0) size) kvs)"
  by (induction kvs) auto

definition hex_digit :: "nat \<Rightarrow> char" where
  "hex_digit n = ''0123456789abcdef'' ! n"

definition esc :: "char \<Rightarrow> string" where
  "esc c =
     (let n = (of_char c :: nat) in
      if n = 34 then [CHR 0x5C, CHR 0x22]
      else if n = 92 then [CHR 0x5C, CHR 0x5C]
      else if n = 8 then [CHR 0x5C, CHR ''b'']
      else if n = 12 then [CHR 0x5C, CHR ''f'']
      else if n = 10 then [CHR 0x5C, CHR ''n'']
      else if n = 13 then [CHR 0x5C, CHR ''r'']
      else if n = 9 then [CHR 0x5C, CHR ''t'']
      else if n < 32 then [CHR 0x5C, CHR ''u'', CHR ''0'', CHR ''0'', hex_digit (n div 16), hex_digit (n mod 16)]
      else [c])"

definition js_quote :: "string \<Rightarrow> string" where
  "js_quote s = CHR 0x22 # concat (map esc s) @ [CHR 0x22]"

definition show_int :: "int \<Rightarrow> string" where
  "show_int i = (if i < 0 then CHR ''-'' # show_nat (nat (- i)) else show_nat (nat i))"

fun comma_join :: "string list \<Rightarrow> string" where
  "comma_join [] = []"
| "comma_join [x] = x"
| "comma_join (x # y # xs) = x @ CHR '','' # comma_join (y # xs)"

fun stringify :: "json \<Rightarrow> string" where
  "stringify JsNull = ''null''"
| "stringify (JsBool b) = (if b then ''true'' else ''false'')"
| "stringify (JsNumber i) = show_int i"
| "stringify (JsString s) = js_quote s"
| "stringify (JsArray vs) = CHR ''['' # comma_join (map stringify vs) @ '']''"
| "stringify (JsObject kvs) =
     CHR 0x7B # comma_join (map (\<lambda>(k, v). js_quote k @ CHR '':'' # stringify v) kvs) @ [CHR 0x7D]"

section \<open>Sorting the keys\<close>

text \<open>
  \<^verbatim>\<open>Object.fromEntries\<close> does not keep the order of its entries altogether: an object enumerates its
  array-index keys first, by number, then the others in the order they were set.
\<close>

definition index_key :: "string \<Rightarrow> nat option" where
  "index_key k =
     (case parse_digits 0 0 k of (n, _, _) \<Rightarrow> if k = show_nat n \<and> n < 2 ^ 32 - 1 then Some n else None)"

definition fromEntries :: "(string \<times> json) list \<Rightarrow> (string \<times> json) list" where
  "fromEntries kvs =
     sort_key (\<lambda>(k, v). the (index_key k)) (filter (\<lambda>(k, v). index_key k \<noteq> None) kvs)
     @ filter (\<lambda>(k, v). index_key k = None) kvs"

function sortKeys :: "json \<Rightarrow> json" where
  "sortKeys JsNull = JsNull"
| "sortKeys (JsBool b) = JsBool b"
| "sortKeys (JsNumber i) = JsNumber i"
| "sortKeys (JsString s) = JsString s"
| "sortKeys (JsArray vs) = JsArray (map sortKeys vs)"
| "sortKeys (JsObject kvs) = JsObject (fromEntries (map (\<lambda>(k, v). (k, sortKeys v)) (sort_key fst kvs)))"
  by pat_completeness auto

termination sortKeys
  by (relation "measure size") (auto simp: size_list_estimation' less_Suc_eq_le size_member)

definition canonicalJson :: "json \<Rightarrow> string" where
  "canonicalJson v = stringify (sortKeys v)"

section \<open>The text determines the value\<close>

definition delim :: "string \<Rightarrow> bool" where
  "delim xs \<longleftrightarrow> (xs = [] \<or> hd xs \<in> {CHR '','', CHR '']'', CHR 0x7D})"

lemma delim_simps [simp]:
  "delim []" "delim (CHR '','' # xs)" "delim (CHR '']'' # xs)" "delim (CHR 0x7D # xs)"
  by (simp_all add: delim_def)

text \<open>What an escape sequence stands for, and the rest of the text.\<close>

definition hex_val :: "char \<Rightarrow> nat" where
  "hex_val c = (let n = (of_char c :: nat) in if n < 58 then n - 48 else n - 87)"

fun unesc :: "string \<Rightarrow> char \<times> string" where
  "unesc (c # d # r) =
     (if c \<noteq> CHR 0x5C then (c, d # r)
      else if d = CHR 0x22 \<or> d = CHR 0x5C then (d, r)
      else if d = CHR ''b'' then (char_of (8 :: nat), r)
      else if d = CHR ''f'' then (char_of (12 :: nat), r)
      else if d = CHR ''n'' then (char_of (10 :: nat), r)
      else if d = CHR ''r'' then (char_of (13 :: nat), r)
      else if d = CHR ''t'' then (char_of (9 :: nat), r)
      else (char_of (16 * hex_val (r ! 2) + hex_val (r ! 3)), drop 4 r))"
| "unesc (c # []) = (c, [])"
| "unesc [] = (CHR ''0'', [])"

lemma char_is: "(of_char c :: nat) = n \<Longrightarrow> char_of n = c"
  by (metis char_of_char)

lemma char_eq: "(of_char c :: nat) = of_char d \<Longrightarrow> c = d"
  by (simp only: of_char_eq_iff)

lemma hex_val_digit: "k < 16 \<Longrightarrow> hex_val (hex_digit k) = k"
proof -
  have "list_all (\<lambda>k. hex_val (hex_digit k) = k) [0..<16]" by code_simp
  then show "k < 16 \<Longrightarrow> hex_val (hex_digit k) = k" by (simp add: list_all_iff)
qed

lemma esc_control:
  assumes "(of_char c :: nat) < 32"
  shows "unesc (esc c @ r) = (c, r) \<and> hd (esc c) = CHR 0x5C"
  using assms by (simp add: esc_def Let_def hex_val_digit char_is)

lemma unesc_plain: "c \<noteq> CHR 0x5C \<Longrightarrow> unesc (c # r) = (c, r)"
  by (cases r) simp_all

lemma esc_nonempty: "esc c \<noteq> []"
  by (simp add: esc_def Let_def)

lemma esc_cases: "(of_char c :: nat) < 32 \<or> c = CHR 0x22 \<or> c = CHR 0x5C \<or> c \<noteq> CHR 0x22 \<and> c \<noteq> CHR 0x5C \<and> esc c = [c]"
proof -
  have "c = CHR 0x22" if "(of_char c :: nat) = 34" using that by (intro char_eq) simp
  moreover have "c = CHR 0x5C" if "(of_char c :: nat) = 92" using that by (intro char_eq) simp
  ultimately show ?thesis by (simp add: esc_def Let_def) linarith
qed

lemma unesc_esc: "unesc (esc c @ r) = (c, r) \<and> hd (esc c) \<noteq> CHR 0x22"
  using esc_cases [of c]
proof (elim disjE conjE)
  assume "(of_char c :: nat) < 32"
  from esc_control [OF this, of r] show ?thesis by simp
next
  assume "c = CHR 0x22"
  then show ?thesis by (simp add: esc_def)
next
  assume "c = CHR 0x5C"
  then show ?thesis by (simp add: esc_def)
qed (simp add: unesc_plain)

lemma esc_inject:
  assumes "esc c @ r = esc d @ r'"
  shows "c = d \<and> r = r'"
  using unesc_esc [of c r] unesc_esc [of d r'] unfolding assms by simp

lemma quote_inject:
  "js_quote s @ xs = js_quote t @ ys \<Longrightarrow> s = t \<and> xs = ys"
proof (induction s arbitrary: t)
  case Nil
  show ?case
  proof (cases t)
    case (Cons d t')
    with Nil show ?thesis using unesc_esc [of d "[]"] esc_nonempty [of d] by (cases "esc d") (auto simp: js_quote_def)
  qed (use Nil in \<open>simp add: js_quote_def\<close>)
next
  case (Cons c s)
  show ?case
  proof (cases t)
    case Nil
    with Cons.prems show ?thesis using unesc_esc [of c "[]"] esc_nonempty [of c] by (cases "esc c") (auto simp: js_quote_def)
  next
    case (Cons d t')
    with Cons.prems have "esc c @ concat (map esc s) @ CHR 0x22 # xs = esc d @ concat (map esc t') @ CHR 0x22 # ys"
      by (simp add: js_quote_def)
    from esc_inject [OF this] Cons.IH [of t'] Cons show ?thesis by (simp add: js_quote_def)
  qed
qed

lemma parse_digits_delim: "delim xs \<Longrightarrow> parse_digits a k xs = (a, k, xs)"
  by (cases xs) (auto simp: delim_def digit_of_def Let_def)

lemma nat_text: "delim xs \<Longrightarrow> \<exists>k. parse_digits 0 0 (show_nat n @ xs) = (n, Suc k, xs)"
  using parse_digits_show_nat [of n] parse_digits_append [of 0 0 "show_nat n" n] parse_digits_delim by metis

lemma nat_text_inject: "delim xs \<Longrightarrow> delim ys \<Longrightarrow> show_nat m @ xs = show_nat n @ ys \<Longrightarrow> m = n \<and> xs = ys"
proof -
  assume "delim xs" "delim ys" and e: "show_nat m @ xs = show_nat n @ ys"
  then obtain k l where "parse_digits 0 0 (show_nat m @ xs) = (m, Suc k, xs)"
      "parse_digits 0 0 (show_nat n @ ys) = (n, Suc l, ys)"
    using nat_text by metis
  then show ?thesis unfolding e by simp
qed

lemma show_nat_digit: "\<exists>c cs. show_nat n = c # cs \<and> digit_of c \<noteq> None"
proof -
  obtain k where k: "parse_digits 0 0 (show_nat n) = (n, Suc k, [])" using parse_digits_show_nat by blast
  then show ?thesis by (cases "show_nat n") (auto split: option.splits)
qed

lemma int_text_inject:
  assumes "delim xs" "delim ys" "show_int i @ xs = show_int j @ ys"
  shows "i = j \<and> xs = ys"
proof -
  obtain c cs d ds where "show_nat (nat i) = c # cs" "digit_of c \<noteq> None" "show_nat (nat j) = d # ds" "digit_of d \<noteq> None"
    using show_nat_digit by blast
  moreover have "digit_of (CHR ''-'') = None" by (simp add: digit_of_def)
  ultimately have "(i < 0) = (j < 0)" using assms(3) by (auto simp: show_int_def split: if_splits)
  with assms show ?thesis
    using nat_text_inject [of xs ys "nat i" "nat j"] nat_text_inject [of xs ys "nat (- i)" "nat (- j)"]
    by (auto simp: show_int_def split: if_splits)
qed

lemma text_head: "\<exists>c cs. stringify v = c # cs \<and> c \<notin> {CHR '','', CHR '']'', CHR 0x7D}"
proof (cases v)
  case (JsNumber i)
  obtain c cs d ds where "show_nat (nat i) = c # cs" "digit_of c \<noteq> None" "show_nat (nat (- i)) = d # ds" "digit_of d \<noteq> None"
    using show_nat_digit by blast
  with JsNumber show ?thesis by (auto simp: show_int_def digit_of_def)
qed (auto simp: js_quote_def)

text \<open>Texts that can be told from whatever follows them, and lists of them.\<close>

definition unambiguous :: "('a \<Rightarrow> string) \<Rightarrow> 'a \<Rightarrow> bool" where
  "unambiguous f v \<longleftrightarrow> (\<forall>w xs ys. delim xs \<longrightarrow> delim ys \<longrightarrow> f v @ xs = f w @ ys \<longrightarrow> v = w \<and> xs = ys)"

lemma unambiguousD:
  "unambiguous f v \<Longrightarrow> f v @ xs = f w @ ys \<Longrightarrow> delim xs \<Longrightarrow> delim ys \<Longrightarrow> v = w \<and> xs = ys"
  by (auto simp: unambiguous_def)

definition comma_tail :: "string list \<Rightarrow> string" where
  "comma_tail ts = concat (map (\<lambda>t. CHR '','' # t) ts)"

lemma comma_join_Cons: "comma_join (t # ts) = t @ comma_tail ts"
  by (induction ts arbitrary: t) (auto simp: comma_tail_def)

lemma comma_tail_inject:
  assumes "\<And>v. v \<in> set vs \<Longrightarrow> unambiguous f v" "b \<in> {CHR '']'', CHR 0x7D}"
    and "comma_tail (map f vs) @ b # xs = comma_tail (map f ws) @ b # ys"
  shows "vs = ws \<and> xs = ys"
  using assms(1,3)
proof (induction vs arbitrary: ws)
  case Nil
  with assms(2) show ?case by (cases ws) (auto simp: comma_tail_def)
next
  case (Cons v vs)
  have d: "delim (comma_tail (map f us) @ b # zs)" for us zs
    using assms(2) by (cases us) (auto simp: comma_tail_def)
  show ?case
  proof (cases ws)
    case Nil
    with Cons.prems(2) assms(2) show ?thesis by (auto simp: comma_tail_def)
  next
    case (Cons w ws')
    with Cons.prems have "f v @ comma_tail (map f vs) @ b # xs = f w @ comma_tail (map f ws') @ b # ys"
      by (simp add: comma_tail_def)
    from unambiguousD [OF Cons.prems(1) this d d] have "v = w"
      "comma_tail (map f vs) @ b # xs = comma_tail (map f ws') @ b # ys" by auto
    with Cons.IH [OF Cons.prems(1)] Cons show ?thesis by auto
  qed
qed

lemma comma_join_inject:
  assumes u: "\<And>v. v \<in> set vs \<Longrightarrow> unambiguous f v" and b: "b \<in> {CHR '']'', CHR 0x7D}"
    and h: "\<And>w. \<exists>c cs. f w = c # cs \<and> c \<notin> {CHR '','', CHR '']'', CHR 0x7D}"
    and e: "comma_join (map f vs) @ b # xs = comma_join (map f ws) @ b # ys"
  shows "vs = ws \<and> xs = ys"
proof (cases vs)
  case Nil
  with e b show ?thesis using h [of "hd ws"] by (cases ws) (auto simp: comma_join_Cons)
next
  case (Cons v vs')
  have d: "delim (comma_tail (map f us) @ b # zs)" for us zs
    using b by (cases us) (auto simp: comma_tail_def)
  show ?thesis
  proof (cases ws)
    case Nil
    with e b Cons show ?thesis using h [of v] by (auto simp: comma_join_Cons)
  next
    case (Cons w ws')
    with e \<open>vs = v # vs'\<close> have eq: "f v @ comma_tail (map f vs') @ b # xs = f w @ comma_tail (map f ws') @ b # ys"
      by (simp add: comma_join_Cons)
    have "v = w" and t: "comma_tail (map f vs') @ b # xs = comma_tail (map f ws') @ b # ys"
      using unambiguousD [OF u eq d d] \<open>vs = v # vs'\<close> by auto
    with comma_tail_inject [OF u b t] \<open>vs = v # vs'\<close> Cons show ?thesis by auto
  qed
qed

definition member_text :: "string \<times> json \<Rightarrow> string" where
  "member_text = (\<lambda>(k, v). js_quote k @ CHR '':'' # stringify v)"

lemma member_text_unambiguous:
  assumes "unambiguous stringify (snd m)"
  shows "unambiguous member_text m"
  unfolding unambiguous_def
proof (intro allI impI)
  fix w xs ys assume d: "delim xs" "delim ys" and e: "member_text m @ xs = member_text w @ ys"
  obtain k v k' v' where m: "m = (k, v)" "w = (k', v')" by fastforce
  with e have "js_quote k @ CHR '':'' # stringify v @ xs = js_quote k' @ CHR '':'' # stringify v' @ ys"
    by (simp add: member_text_def)
  from quote_inject [OF this] have "k = k'" "stringify v @ xs = stringify v' @ ys" by simp_all
  with unambiguousD [OF assms, of xs v' ys] d m show "m = w \<and> xs = ys" by simp
qed

lemma member_head: "\<exists>c cs. member_text m = c # cs \<and> c \<notin> {CHR '','', CHR '']'', CHR 0x7D}"
  by (cases m) (auto simp: member_text_def js_quote_def)

text \<open>The first character tells the kind of a value.\<close>

definition lead_of :: "char \<Rightarrow> nat" where
  "lead_of c = (if c = CHR ''n'' then 0 else if c = CHR ''t'' then 1 else if c = CHR ''f'' then 2
     else if c = CHR 0x22 then 3 else if c = CHR ''['' then 4 else if c = CHR 0x7B then 5 else 6)"

fun lead :: "json \<Rightarrow> nat" where
  "lead JsNull = 0"
| "lead (JsBool b) = (if b then 1 else 2)"
| "lead (JsString s) = 3"
| "lead (JsArray vs) = 4"
| "lead (JsObject kvs) = 5"
| "lead (JsNumber i) = 6"

lemma digit_lead: "digit_of c \<noteq> None \<Longrightarrow> lead_of c = 6"
  by (auto simp: lead_of_def digit_of_def)

lemma text_lead: "lead_of (hd (stringify v @ xs)) = lead v"
proof (cases v)
  case (JsNumber i)
  obtain c cs where "show_nat (nat i) = c # cs" "digit_of c \<noteq> None"
    using show_nat_digit by blast
  with JsNumber show ?thesis by (simp add: show_int_def digit_lead) (simp add: lead_of_def)
qed (simp_all add: js_quote_def lead_of_def)

lemma same_lead: "stringify v @ xs = stringify w @ ys \<Longrightarrow> lead v = lead w"
  by (metis text_lead)

lemma object_text: "stringify (JsObject kvs) = CHR 0x7B # comma_join (map member_text kvs) @ [CHR 0x7D]"
  by (simp add: member_text_def)

lemma unambiguous_textI:
  assumes "\<And>w xs ys. lead w = lead v \<Longrightarrow> delim xs \<Longrightarrow> delim ys \<Longrightarrow> stringify v @ xs = stringify w @ ys \<Longrightarrow> v = w \<and> xs = ys"
  shows "unambiguous stringify v"
  using assms same_lead unfolding unambiguous_def by metis

lemma stringify_unambiguous: "unambiguous stringify v"
proof (induction v)
  case (JsArray vs)
  show ?case
  proof (rule unambiguous_textI)
    fix w xs ys assume l: "lead w = lead (JsArray vs)" and e: "stringify (JsArray vs) @ xs = stringify w @ ys"
    from l obtain ws where w: "w = JsArray ws" by (cases w) (auto split: if_splits)
    with e have "comma_join (map stringify vs) @ CHR '']'' # xs = comma_join (map stringify ws) @ CHR '']'' # ys"
      by simp
    from comma_join_inject [OF JsArray _ text_head this] w show "JsArray vs = w \<and> xs = ys" by simp
  qed
next
  case (JsObject kvs)
  show ?case
  proof (rule unambiguous_textI)
    fix w xs ys assume l: "lead w = lead (JsObject kvs)" and e: "stringify (JsObject kvs) @ xs = stringify w @ ys"
    from l obtain kws where w: "w = JsObject kws" by (cases w) (auto split: if_splits)
    have u: "unambiguous member_text m" if "m \<in> set kvs" for m
      using JsObject [OF that] by (cases m) (auto intro: member_text_unambiguous)
    from e have "comma_join (map member_text kvs) @ CHR 0x7D # xs = comma_join (map member_text kws) @ CHR 0x7D # ys"
      unfolding w object_text by simp
    from comma_join_inject [OF u _ member_head this] w show "JsObject kvs = w \<and> xs = ys" by simp
  qed
next
  case (JsString s)
  show ?case
  proof (rule unambiguous_textI)
    fix w xs ys assume "lead w = lead (JsString s)" "stringify (JsString s) @ xs = stringify w @ ys"
    then show "JsString s = w \<and> xs = ys" by (cases w) (auto dest: quote_inject split: if_splits)
  qed
next
  case (JsNumber i)
  show ?case
  proof (rule unambiguous_textI)
    fix w xs ys assume "lead w = lead (JsNumber i)" "delim xs" "delim ys" "stringify (JsNumber i) @ xs = stringify w @ ys"
    then show "JsNumber i = w \<and> xs = ys" by (cases w) (auto dest: int_text_inject split: if_splits)
  qed
next
  case (JsBool b)
  show ?case
  proof (rule unambiguous_textI)
    fix w xs ys assume "lead w = lead (JsBool b)" "stringify (JsBool b) @ xs = stringify w @ ys"
    then show "JsBool b = w \<and> xs = ys" by (cases w) (auto split: if_splits)
  qed
next
  case JsNull
  show ?case
  proof (rule unambiguous_textI)
    fix w xs ys assume "lead w = lead JsNull" "stringify JsNull @ xs = stringify w @ ys"
    then show "JsNull = w \<and> xs = ys" by (cases w) (auto split: if_splits)
  qed
qed

lemma stringify_inject: "stringify v = stringify w \<longleftrightarrow> v = w"
  using unambiguousD [OF stringify_unambiguous, of v "[]" w "[]"] by auto

section \<open>The same value, up to the order of keys\<close>

text \<open>Every key of an object once, all the way down.\<close>

fun json_wf :: "json \<Rightarrow> bool" where
  "json_wf (JsArray vs) = list_all json_wf vs"
| "json_wf (JsObject kvs) = (distinct (map fst kvs) \<and> list_all (\<lambda>(k, v). json_wf v) kvs)"
| "json_wf _ = True"

lemma size_zipped [termination_simp]: "(v, w) \<in> set (zip vs ws) \<Longrightarrow> size v < Suc (size_list size vs)"
  by (auto dest!: set_zip_leftD simp: less_Suc_eq_le intro: size_list_estimation')

text \<open>Objects are the same when they have the same keys with the same values, in any order.\<close>

fun same_value :: "json \<Rightarrow> json \<Rightarrow> bool" where
  "same_value (JsArray vs) w =
     (case w of JsArray ws \<Rightarrow> length vs = length ws \<and> list_all (\<lambda>(v, w). same_value v w) (zip vs ws) | _ \<Rightarrow> False)"
| "same_value (JsObject kvs) w =
     (case w of JsObject kws \<Rightarrow> length kvs = length kws \<and>
        list_all (\<lambda>(k, v). case map_of kws k of None \<Rightarrow> False | Some w' \<Rightarrow> same_value v w') kvs | _ \<Rightarrow> False)"
| "same_value v w = (v = w)"

lemma set_fromEntries [simp]: "set (fromEntries kvs) = set kvs"
  by (auto simp: fromEntries_def)

lemma length_fromEntries [simp]: "length (fromEntries kvs) = length kvs"
  using sum_length_filter_compl [of "\<lambda>(k, v). index_key k \<noteq> None" kvs]
  by (simp add: fromEntries_def case_prod_unfold)

lemma sort_by_key_eq:
  assumes "distinct (map fst xs)" "distinct (map fst ys)" "set xs = set ys"
  shows "sort_key fst xs = sort_key fst ys"
proof (rule map_sorted_distinct_set_unique [where f = fst])
  show "inj_on fst (set (sort_key fst xs) \<union> set (sort_key fst ys))"
    using assms by (simp add: distinct_map)
qed (use assms in \<open>simp_all add: distinct_map\<close>)

lemma sort_by_key_map:
  "sort_key fst (map (\<lambda>(k, v). (k, f v)) kvs) = map (\<lambda>(k, v). (k, f v)) (sort_key fst (kvs :: (string \<times> 'a) list))"
proof -
  have "insort_key fst (k, f v) (map (\<lambda>(k, v). (k, f v)) xs) = map (\<lambda>(k, v). (k, f v)) (insort_key fst (k, v) xs)"
    for k :: string and v and xs :: "(string \<times> 'a) list"
    by (induction xs) auto
  then show ?thesis by (induction kvs) auto
qed

lemma case_Some_iff: "(case x of None \<Rightarrow> False | Some y \<Rightarrow> P y) \<longleftrightarrow> (\<exists>y. x = Some y \<and> P y)"
  by (cases x) simp_all

definition sort_members :: "(string \<times> json) list \<Rightarrow> (string \<times> json) list" where
  "sort_members kvs = map (\<lambda>(k, v). (k, sortKeys v)) kvs"

lemma sorted_members_eq_iff:
  assumes "distinct (map fst kvs)" "distinct (map fst kws)"
  shows "sortKeys (JsObject kvs) = sortKeys (JsObject kws) \<longleftrightarrow> set (sort_members kvs) = set (sort_members kws)"
proof
  assume "sortKeys (JsObject kvs) = sortKeys (JsObject kws)"
  then have "set (fromEntries (map (\<lambda>(k, v). (k, sortKeys v)) (sort_key fst kvs)))
      = set (fromEntries (map (\<lambda>(k, v). (k, sortKeys v)) (sort_key fst kws)))" by simp
  then show "set (sort_members kvs) = set (sort_members kws)" by (simp add: sort_members_def)
next
  assume "set (sort_members kvs) = set (sort_members kws)"
  moreover have "map fst (sort_members kvs) = map fst kvs" for kvs by (simp add: sort_members_def case_prod_unfold)
  ultimately have "sort_key fst (sort_members kvs) = sort_key fst (sort_members kws)"
    using assms by (intro sort_by_key_eq) simp_all
  then show "sortKeys (JsObject kvs) = sortKeys (JsObject kws)" by (simp add: sort_members_def sort_by_key_map)
qed

text \<open>A list of members with distinct keys is included in another as soon as every key leads to the same value.\<close>

lemma members_subset_iff:
  assumes "distinct (map fst kws)"
  shows "set (sort_members kvs) \<subseteq> set (sort_members kws) \<longleftrightarrow>
    list_all (\<lambda>(k, v). \<exists>w. map_of kws k = Some w \<and> sortKeys v = sortKeys w) kvs"
proof -
  have "(k, sortKeys v) \<in> set (sort_members kws) \<longleftrightarrow> (\<exists>w. map_of kws k = Some w \<and> sortKeys v = sortKeys w)" for k v
    unfolding map_of_eq_Some_iff [OF assms] by (force simp: sort_members_def)
  moreover have "set (sort_members kvs) \<subseteq> A \<longleftrightarrow> list_all (\<lambda>(k, v). (k, sortKeys v) \<in> A) kvs" for A
    by (auto simp: sort_members_def list_all_iff)
  ultimately show ?thesis by simp
qed

lemma length_members:
  assumes "distinct (map fst kvs)"
  shows "length kvs = card (set (sort_members kvs))"
proof -
  have "distinct (map fst (sort_members kvs))"
    using assms by (simp add: sort_members_def case_prod_unfold comp_def)
  then have "distinct (sort_members kvs)" by (simp add: distinct_map)
  from distinct_card [OF this] show ?thesis by (simp add: sort_members_def)
qed

lemma same_set_of_subset:
  assumes "distinct (map fst xs)" "distinct (map fst ys)" "length xs = length ys" "set xs \<subseteq> set ys"
  shows "set xs = set ys"
  using assms by (intro card_subset_eq) (simp_all add: distinct_card distinct_map)

lemma sortKeys_same: "json_wf v \<Longrightarrow> json_wf w \<Longrightarrow> sortKeys v = sortKeys w \<longleftrightarrow> same_value v w"
proof (induction v arbitrary: w)
  case (JsArray vs)
  show ?case
  proof (cases w)
    case w: (JsArray ws)
    have "sortKeys v = sortKeys w' \<longleftrightarrow> same_value v w'" if "(v, w') \<in> set (zip vs ws)" for v w'
      using set_zip_leftD [OF that] set_zip_rightD [OF that] JsArray w by (auto simp: list_all_iff)
    then have "list_all (\<lambda>(v, w). same_value v w) (zip vs ws) \<longleftrightarrow> list_all (\<lambda>(v, w). sortKeys v = sortKeys w) (zip vs ws)"
      by (auto simp: list_all_iff)
    moreover have "map sortKeys vs = map sortKeys ws \<longleftrightarrow>
        length vs = length ws \<and> list_all (\<lambda>(v, w). sortKeys v = sortKeys w) (zip vs ws)"
      by (auto simp: list_eq_iff_nth_eq list_all_length)
    ultimately show ?thesis using w by simp
  qed simp_all
next
  case (JsObject kvs)
  show ?case
  proof (cases w)
    case w: (JsObject kws)
    have d: "distinct (map fst kvs)" "distinct (map fst kws)" using JsObject.prems w by simp_all
    have "same_value v w' \<longleftrightarrow> sortKeys v = sortKeys w'" if "(k, v) \<in> set kvs" "map_of kws k = Some w'" for k v w'
      using that JsObject w by (fastforce simp: list_all_iff dest: map_of_SomeD)
    then have "list_all (\<lambda>(k, v). \<exists>w'. map_of kws k = Some w' \<and> same_value v w') kvs
        \<longleftrightarrow> set (sort_members kvs) \<subseteq> set (sort_members kws)"
      unfolding members_subset_iff [OF d(2)] by (intro list.pred_cong refl) auto
    moreover have "length kvs = length kws" if "set (sort_members kvs) = set (sort_members kws)"
      using that d by (simp add: length_members)
    moreover have "set (sort_members kvs) = set (sort_members kws)"
      if "length kvs = length kws" "set (sort_members kvs) \<subseteq> set (sort_members kws)"
      using that d by (intro same_set_of_subset) (simp_all add: sort_members_def case_prod_unfold comp_def)
    ultimately show ?thesis
      unfolding w sorted_members_eq_iff [OF d] same_value.simps json.case case_Some_iff by auto
  qed simp_all
next
  case JsNull
  show ?case by (cases w) simp_all
next
  case (JsBool b)
  show ?case by (cases w) simp_all
next
  case (JsNumber i)
  show ?case by (cases w) simp_all
next
  case (JsString s)
  show ?case by (cases w) simp_all
qed

lemma canonical_eq_iff: "json_wf v \<Longrightarrow> json_wf w \<Longrightarrow> canonicalJson v = canonicalJson w \<longleftrightarrow> same_value v w"
  by (simp add: canonicalJson_def stringify_inject sortKeys_same)

text \<open>
  C36: Two values have the same canonical text exactly when they are the same value up to the order of
  object keys, at every depth; what is signed or hashed is therefore the value itself, no more and no less.
\<close>

theorem canonicalJson_faithful:
  assumes "json_wf v" "json_wf w"
  shows "canonicalJson v = canonicalJson w \<longleftrightarrow> same_value v w"
  using assms by (rule canonical_eq_iff)

theorem canonicalJson_faithful_witness:
  "canonicalJson (JsObject [(''b'', JsNumber 2), (''a'', JsString ''x'')])
     = canonicalJson (JsObject [(''a'', JsString ''x''), (''b'', JsNumber 2)])"
  by (subst canonicalJson_faithful) simp_all

end
