(* ===== verification/Hash_Chain.thy ===== *)
theory Hash_Chain
  imports Main
begin

text \<open>
  What the audit logs of the hub and of the cloud share: entries that each hold the hash of the entry before
  and their own, and the laws their digest keeps. Each log interprets the interface with its own digest.
\<close>

fun chained :: "('e \<Rightarrow> string) \<Rightarrow> ('e \<Rightarrow> string) \<Rightarrow> (string \<Rightarrow> 'e \<Rightarrow> string) \<Rightarrow> string \<Rightarrow> 'e list \<Rightarrow> bool" where
  "chained prev hash digest p [] = True"
| "chained prev hash digest p (e # es) =
     (prev e = p \<and> hash e = digest p e \<and> chained prev hash digest (hash e) es)"

definition tip_hash :: "('e \<Rightarrow> string) \<Rightarrow> string \<Rightarrow> 'e list \<Rightarrow> string" where
  "tip_hash hash p es = (if es = [] then p else hash (last es))"

text \<open>
  The digest of a sound position and a sound entry determines both, unless the underlying hash function has
  a collision.
\<close>

locale hash_chain =
  fixes prev :: "'e \<Rightarrow> string"
    and hash :: "'e \<Rightarrow> string"
    and digest :: "string \<Rightarrow> 'e \<Rightarrow> string"
    and sound_hash :: "string \<Rightarrow> bool"
    and sound_entry :: "'e \<Rightarrow> bool"
    and same :: "'e \<Rightarrow> 'e \<Rightarrow> bool"
    and collision :: bool
  assumes digest_sound: "sound_hash p \<Longrightarrow> sound_hash (digest p e)"
    and digest_inject: "sound_hash p \<Longrightarrow> sound_hash q \<Longrightarrow> sound_entry e \<Longrightarrow> sound_entry f \<Longrightarrow>
      digest p e = digest q f \<Longrightarrow> \<not> collision \<Longrightarrow> p = q \<and> same e f"
begin

lemma chained_append:
  "chained prev hash digest p (es @ [e]) \<longleftrightarrow>
     chained prev hash digest p es \<and> prev e = tip_hash hash p es \<and> hash e = digest (tip_hash hash p es) e"
  by (induction es arbitrary: p) (auto simp: tip_hash_def)

lemma tip_fixes_chain:
  assumes "length es = length fs" "sound_hash p" "sound_hash q"
    and "chained prev hash digest p es" "chained prev hash digest q fs" "tip_hash hash p es = tip_hash hash q fs"
    and "\<forall>e\<in>set es. sound_entry e" "\<forall>e\<in>set fs. sound_entry e" "\<not> collision"
  shows "p = q \<and> list_all2 same es fs"
  using assms
proof (induction es fs arbitrary: p q rule: list_induct2)
  case Nil
  then show ?case by (simp add: tip_hash_def)
next
  case (Cons e es f fs)
  have h: "hash e = digest p e" "hash f = digest q f" and "sound_hash (hash e)" "sound_hash (hash f)"
    using Cons.prems(1-4) digest_sound by auto
  moreover have "tip_hash hash (hash e) es = tip_hash hash (hash f) fs"
    using Cons.prems(5) Cons.hyps by (auto simp: tip_hash_def split: if_splits)
  ultimately have "hash e = hash f" "list_all2 same es fs" using Cons.IH [of "hash e" "hash f"] Cons.prems by auto
  with h digest_inject [of p q e f] Cons.prems show ?case by simp
qed

lemma chained_take: "chained prev hash digest p es \<Longrightarrow> chained prev hash digest p (take k es)"
proof (induction es arbitrary: p k)
  case (Cons e es)
  then show ?case using Cons.IH [of "hash e"] by (cases k) auto
qed simp

end

end
