(* ===== verification/Audit_Log.thy ===== *)
theory Audit_Log
  imports Canonical_Json Domain_Model Hash_Chain
begin

text \<open>
  The audit log, \<^verbatim>\<open>services/audit/src/index.ts\<close>: an append-only table whose rows are chained by
  SHA-256 over the previous hash and the canonical text of the row. The table is PostgreSQL's (columns
  of \<^verbatim>\<open>migrations/0003_phase3.sql\<close>); the code's three statements on it are modelled by their meaning on a
  list of rows. SHA-256 and the \<^verbatim>\<open>jsonb\<close> column, which gives an object back with its keys in another
  order, are arguments.
\<close>

section \<open>Rows and their bodies\<close>

record audit_entry =
  ae_id :: string
  ae_homeId :: home_id
  ae_seq :: nat
  ae_actorUserId :: "user_id option"
  ae_action :: string
  ae_resourceType :: string
  ae_resourceId :: "string option"
  ae_metadata :: json
  ae_ip :: "string option"
  ae_createdAt :: string
  ae_prevHash :: string
  ae_entryHash :: string

record audit_input =
  ai_homeId :: home_id
  ai_actorUserId :: "user_id option"
  ai_action :: string
  ai_resourceType :: string
  ai_resourceId :: "string option"
  ai_metadata :: "json option"
  ai_ip :: "string option"

definition GENESIS :: string where
  "GENESIS = replicate 64 (CHR ''0'')"

fun js_opt :: "string option \<Rightarrow> json" where
  "js_opt None = JsNull"
| "js_opt (Some s) = JsString s"

text \<open>The part of a row that is hashed: everything but its id and the two hashes.\<close>

definition audit_body :: "audit_entry \<Rightarrow> json" where
  "audit_body e = JsObject
     [(''homeId'', JsString (ae_homeId e)), (''seq'', JsNumber (int (ae_seq e))),
      (''actorUserId'', js_opt (ae_actorUserId e)), (''action'', JsString (ae_action e)),
      (''resourceType'', JsString (ae_resourceType e)), (''resourceId'', js_opt (ae_resourceId e)),
      (''metadata'', ae_metadata e), (''ip'', js_opt (ae_ip e)), (''createdAt'', JsString (ae_createdAt e))]"

definition audit_hash :: "(string \<Rightarrow> string) \<Rightarrow> string \<Rightarrow> audit_entry \<Rightarrow> string" where
  "audit_hash sha prev e = sha (prev @ canonicalJson (audit_body e))"

section \<open>The table\<close>

type_synonym audit_table = "audit_entry list"

text \<open>\<^verbatim>\<open>SELECT ... WHERE home_id=$1 ORDER BY seq ASC\<close>, and \<^verbatim>\<open>DESC LIMIT n\<close>.\<close>

definition rows_asc :: "home_id \<Rightarrow> audit_table \<Rightarrow> audit_entry list" where
  "rows_asc h t = sort_key ae_seq (filter (\<lambda>r. ae_homeId r = h) t)"

definition rows_desc :: "home_id \<Rightarrow> nat \<Rightarrow> audit_table \<Rightarrow> audit_entry list" where
  "rows_desc h n t = take n (rev (rows_asc h t))"

section \<open>Operations\<close>

text \<open>
  \<^verbatim>\<open>append\<close>: the queue per home that \<^verbatim>\<open>record\<close> keeps runs the appends of a home one at a time, so each
  reads the row the one before it wrote. The argument \<open>db\<close> is the database's answer to the insert: when
  it rejects, the call rejects, nothing is written and the queue goes on.
\<close>

definition audit_append ::
    "(string \<Rightarrow> string) \<Rightarrow> (json \<Rightarrow> json) \<Rightarrow> string \<Rightarrow> string \<Rightarrow> error option \<Rightarrow> audit_input \<Rightarrow> (audit_table, audit_entry) eff" where
  "audit_append sha jsonb new_id now db inp = (\<lambda>t.
     let newest = (case rows_desc (ai_homeId inp) 1 t of [] \<Rightarrow> None | r # _ \<Rightarrow> Some r);
         e0 = \<lparr>ae_id = new_id, ae_homeId = ai_homeId inp,
               ae_seq = (case newest of None \<Rightarrow> 0 | Some r \<Rightarrow> ae_seq r) + 1,
               ae_actorUserId = ai_actorUserId inp, ae_action = ai_action inp,
               ae_resourceType = ai_resourceType inp, ae_resourceId = ai_resourceId inp,
               ae_metadata = (case ai_metadata inp of None \<Rightarrow> JsObject [] | Some m \<Rightarrow> m),
               ae_ip = ai_ip inp, ae_createdAt = now,
               ae_prevHash = (case newest of None \<Rightarrow> GENESIS | Some r \<Rightarrow> ae_entryHash r), ae_entryHash = []\<rparr>;
         e = e0\<lparr>ae_entryHash := audit_hash sha (ae_prevHash e0) e0\<rparr>
     in case db of
          Some err \<Rightarrow> (Inl err, t)
        | None \<Rightarrow> (Inr e, t @ [e\<lparr>ae_metadata := jsonb (ae_metadata e)\<rparr>]))"

definition audit_list :: "home_id \<Rightarrow> nat \<Rightarrow> audit_table \<Rightarrow> audit_entry list" where
  "audit_list h n t = rows_desc h n t"

text \<open>\<^verbatim>\<open>verify\<close>: the sequence number of the first row that does not fit, or none.\<close>

fun verify_rows :: "(string \<Rightarrow> string) \<Rightarrow> string \<Rightarrow> audit_entry list \<Rightarrow> nat option" where
  "verify_rows sha prev [] = None"
| "verify_rows sha prev (r # rs) =
     (if ae_prevHash r \<noteq> prev \<or> ae_entryHash r \<noteq> audit_hash sha prev r then Some (ae_seq r)
      else verify_rows sha (ae_entryHash r) rs)"

definition audit_verify :: "(string \<Rightarrow> string) \<Rightarrow> home_id \<Rightarrow> audit_table \<Rightarrow> bool \<times> nat option" where
  "audit_verify sha h t =
     (case verify_rows sha GENESIS (rows_asc h t) of None \<Rightarrow> (True, None) | Some s \<Rightarrow> (False, Some s))"

section \<open>What the code relies on\<close>

text \<open>A \<^verbatim>\<open>jsonb\<close> column gives back the value it was given, with the keys of its objects in any order.\<close>

definition jsonb_ok :: "(json \<Rightarrow> json) \<Rightarrow> bool" where
  "jsonb_ok jsonb \<longleftrightarrow> (\<forall>m. json_wf m \<longrightarrow> json_wf (jsonb m) \<and> same_value (jsonb m) m)"

text \<open>A digest in hexadecimal has 64 characters.\<close>

definition sha_ok :: "(string \<Rightarrow> string) \<Rightarrow> bool" where
  "sha_ok sha \<longleftrightarrow> (\<forall>x. length (sha x) = 64)"

text \<open>The tables that calls to \<^verbatim>\<open>record\<close> leave, for any homes, inputs, instants and rejected inserts.\<close>

inductive audit_reachable :: "(string \<Rightarrow> string) \<Rightarrow> (json \<Rightarrow> json) \<Rightarrow> audit_table \<Rightarrow> bool" for sha jsonb where
  empty: "audit_reachable sha jsonb []"
| append: "audit_reachable sha jsonb t \<Longrightarrow> pred_option json_wf (ai_metadata inp)
    \<Longrightarrow> audit_reachable sha jsonb (snd (audit_append sha jsonb i now db inp t))"

section \<open>The chain\<close>

lemma same_value_opt [simp]: "same_value (js_opt a) (js_opt b) \<longleftrightarrow> a = b"
  by (cases a; cases b) auto

lemma json_wf_opt [simp]: "json_wf (js_opt a)"
  by (cases a) auto

lemma json_wf_body [simp]: "json_wf (audit_body e) \<longleftrightarrow> json_wf (ae_metadata e)"
  by (simp add: audit_body_def)

text \<open>Rows with the same content: every hashed column the same, the metadata up to the order of keys.\<close>

definition same_entry :: "audit_entry \<Rightarrow> audit_entry \<Rightarrow> bool" where
  "same_entry e f \<longleftrightarrow> ae_homeId e = ae_homeId f \<and> ae_seq e = ae_seq f \<and> ae_actorUserId e = ae_actorUserId f \<and>
     ae_action e = ae_action f \<and> ae_resourceType e = ae_resourceType f \<and> ae_resourceId e = ae_resourceId f \<and>
     same_value (ae_metadata e) (ae_metadata f) \<and> ae_ip e = ae_ip f \<and> ae_createdAt e = ae_createdAt f"

lemma body_text_iff:
  assumes "json_wf (ae_metadata e)" "json_wf (ae_metadata f)"
  shows "canonicalJson (audit_body e) = canonicalJson (audit_body f) \<longleftrightarrow> same_entry e f"
  using assms by (auto simp: canonical_eq_iff audit_body_def same_entry_def)

abbreviation hub_chained :: "(string \<Rightarrow> string) \<Rightarrow> string \<Rightarrow> audit_entry list \<Rightarrow> bool" where
  "hub_chained sha \<equiv> chained ae_prevHash ae_entryHash (audit_hash sha)"

abbreviation newest_hash :: "string \<Rightarrow> audit_entry list \<Rightarrow> string" where
  "newest_hash \<equiv> tip_hash ae_entryHash"

lemma verify_chained: "verify_rows sha p rs = None \<longleftrightarrow> hub_chained sha p rs"
  by (induction rs arbitrary: p) auto

lemma audit_verify_iff: "audit_verify sha h t = (True, None) \<longleftrightarrow> hub_chained sha GENESIS (rows_asc h t)"
  by (simp add: audit_verify_def flip: verify_chained split: option.split)

interpretation hub: hash_chain ae_prevHash ae_entryHash "audit_hash sha"
    "\<lambda>p. sha_ok sha \<and> length p = 64" "\<lambda>e. json_wf (ae_metadata e)" same_entry "\<exists>x y. x \<noteq> y \<and> sha x = sha y"
  for sha
proof
  fix p q e f
  assume "sha_ok sha \<and> length p = 64" "sha_ok sha \<and> length q = 64"
    and w: "json_wf (ae_metadata e)" "json_wf (ae_metadata f)"
    and "audit_hash sha p e = audit_hash sha q f" "\<not> (\<exists>x y. x \<noteq> y \<and> sha x = sha y)"
  then have "length p = length q" "p @ canonicalJson (audit_body e) = q @ canonicalJson (audit_body f)"
    unfolding audit_hash_def by (simp, blast)
  with body_text_iff [OF w] show "p = q \<and> same_entry e f" by simp
qed (simp add: sha_ok_def audit_hash_def)

definition audit_ok :: "(string \<Rightarrow> string) \<Rightarrow> audit_table \<Rightarrow> bool" where
  "audit_ok sha t \<longleftrightarrow> (\<forall>r\<in>set t. json_wf (ae_metadata r)) \<and>
     (\<forall>h. let rs = filter (\<lambda>r. ae_homeId r = h) t
          in map ae_seq rs = [1..<Suc (length rs)] \<and> hub_chained sha GENESIS rs)"

lemma audit_okD:
  assumes "audit_ok sha t" "rs = filter (\<lambda>r. ae_homeId r = h) t"
  shows "map ae_seq rs = [1..<Suc (length rs)]" "hub_chained sha GENESIS rs" "rows_asc h t = rs"
proof -
  show m: "map ae_seq rs = [1..<Suc (length rs)]" and "hub_chained sha GENESIS rs"
    using assms by (auto simp: audit_ok_def Let_def)
  have "sorted (map ae_seq rs)" unfolding m by (rule sorted_upt)
  then show "rows_asc h t = rs" by (simp add: rows_asc_def assms(2) sort_key_id_if_sorted)
qed

lemma newest_seq:
  assumes "map ae_seq rs = [1..<Suc (length rs)]" "rs \<noteq> []"
  shows "ae_seq (last rs) = length rs"
proof -
  have "ae_seq (last rs) = last (map ae_seq rs)" using assms(2) by (simp add: last_map)
  with assms show ?thesis by (cases rs) simp_all
qed

lemma newest_row:
  assumes "audit_ok sha t" "rs = filter (\<lambda>r. ae_homeId r = h) t"
  shows "rows_desc h 1 t = (if rs = [] then [] else [last rs])"
proof -
  have "rows_desc h 1 t = take 1 (rev rs)" by (simp add: rows_desc_def audit_okD(3) [OF assms])
  then show ?thesis by (cases rs rule: rev_cases) simp_all
qed

lemma append_ok:
  assumes j: "jsonb_ok jsonb" and ok: "audit_ok sha t" and m: "pred_option json_wf (ai_metadata inp)"
  shows "audit_ok sha (snd (audit_append sha jsonb i now db inp t))"
proof (cases db)
  case None
  define rs where rs: "rs = filter (\<lambda>r. ae_homeId r = ai_homeId inp) t"
  define meta where "meta = (case ai_metadata inp of None \<Rightarrow> JsObject [] | Some m \<Rightarrow> m)"
  obtain e where e: "snd (audit_append sha jsonb i now db inp t) = t @ [e]" "ae_homeId e = ai_homeId inp"
      "ae_seq e = Suc (length rs)" "ae_prevHash e = newest_hash GENESIS rs" "ae_metadata e = jsonb meta"
      "ae_entryHash e = audit_hash sha (newest_hash GENESIS rs) (e\<lparr>ae_metadata := meta\<rparr>)"
    using None newest_row [OF ok rs] newest_seq [OF audit_okD(1) [OF ok rs]]
    by (auto simp: audit_append_def Let_def meta_def tip_hash_def audit_hash_def audit_body_def)
  have w: "json_wf meta" using m by (cases "ai_metadata inp") (simp_all add: meta_def)
  with j have "json_wf (jsonb meta)" "same_value (jsonb meta) meta" by (auto simp: jsonb_ok_def)
  with w e(5) have "canonicalJson (audit_body (e\<lparr>ae_metadata := meta\<rparr>)) = canonicalJson (audit_body e)"
    by (subst eq_commute, subst body_text_iff) (simp_all add: same_entry_def)
  with e(6) have h: "ae_entryHash e = audit_hash sha (newest_hash GENESIS rs) e" by (simp add: audit_hash_def)
  have "map ae_seq fs = [1..<Suc (length fs)] \<and> hub_chained sha GENESIS fs"
    if "fs = filter (\<lambda>r. ae_homeId r = home) (t @ [e])" for home fs
    using that e(2-4) h audit_okD [OF ok refl, of home] rs by (cases "home = ai_homeId inp") (auto simp: hub.chained_append)
  with ok \<open>json_wf (jsonb meta)\<close> e(1,5) show ?thesis by (auto simp: audit_ok_def Let_def)
qed (use ok in \<open>simp add: audit_append_def Let_def\<close>)

lemma audit_reachable_ok: "audit_reachable sha jsonb t \<Longrightarrow> jsonb_ok jsonb \<Longrightarrow> audit_ok sha t"
proof (induction rule: audit_reachable.induct)
  case empty
  show ?case by (simp add: audit_ok_def)
next
  case (append t inp i now db)
  then show ?case by (intro append_ok)
qed

text \<open>
  C37: Whatever is recorded, for any homes in any order, with inserts the database rejects in between and
  object keys the database reorders, the log of every home verifies, and its rows are numbered from one
  without a gap.
\<close>

theorem recorded_log_verifies:
  assumes "audit_reachable sha jsonb t" "jsonb_ok jsonb"
  shows "audit_verify sha h t = (True, None) \<and> map ae_seq (rows_asc h t) = [1..<Suc (length (rows_asc h t))]"
  using audit_okD [OF audit_reachable_ok [OF assms] refl, of h] by (simp add: audit_verify_iff)

definition demo_audit_input :: "string \<Rightarrow> audit_input" where
  "demo_audit_input a = \<lparr>ai_homeId = ''h'', ai_actorUserId = Some ''u'', ai_action = a, ai_resourceType = ''device'',
     ai_resourceId = None, ai_metadata = None, ai_ip = None\<rparr>"

definition demo_sha :: "string \<Rightarrow> string" where
  "demo_sha x = take 64 (x @ replicate 64 (CHR ''0''))"

definition demo_audit :: audit_table where
  "demo_audit = snd (audit_append demo_sha id ''a2'' ''t2'' None (demo_audit_input ''delete'')
     (snd (audit_append demo_sha id ''a1'' ''t1'' None (demo_audit_input ''control'') [])))"

lemma same_value_refl: "json_wf v \<Longrightarrow> same_value v v"
  using canonical_eq_iff [of v v] by simp

lemma demo_audit_reachable: "audit_reachable demo_sha id demo_audit" "jsonb_ok id"
  unfolding demo_audit_def
  by (intro audit_reachable.intros, simp_all add: demo_audit_input_def jsonb_ok_def same_value_refl)

theorem recorded_log_verifies_witness:
  "audit_verify demo_sha ''h'' demo_audit = (True, None)"
  using recorded_log_verifies [OF demo_audit_reachable] by simp

section \<open>What tampering does\<close>

text \<open>
  The hash of the newest entry pins the whole log down: two logs of a home that both verify, have the
  same number of entries and end in the same hash have the same entries, unless two texts with the same SHA-256
  digest exist (and the proof finds them).
\<close>

theorem newest_hash_fixes_log:
  assumes "sha_ok sha" "audit_verify sha h t = (True, None)" "audit_verify sha h t' = (True, None)"
    and "length (rows_asc h t) = length (rows_asc h t')"
    and "newest_hash GENESIS (rows_asc h t) = newest_hash GENESIS (rows_asc h t')"
    and "\<forall>r\<in>set t \<union> set t'. json_wf (ae_metadata r)"
  shows "list_all2 same_entry (rows_asc h t) (rows_asc h t') \<or> (\<exists>x y. x \<noteq> y \<and> sha x = sha y)"
proof (cases "\<exists>x y. x \<noteq> y \<and> sha x = sha y")
  case False
  have "hub_chained sha GENESIS (rows_asc h t)" "hub_chained sha GENESIS (rows_asc h t')"
    using assms(2,3) by (simp_all add: audit_verify_iff)
  with False assms have "list_all2 same_entry (rows_asc h t) (rows_asc h t')"
    using hub.tip_fixes_chain [OF assms(4), where sha = sha and p = GENESIS and q = GENESIS]
    by (auto simp: GENESIS_def rows_asc_def)
  then show ?thesis ..
qed simp

theorem newest_hash_fixes_log_witness:
  "list_all2 same_entry (rows_asc ''h'' demo_audit) (rows_asc ''h'' demo_audit) \<or> (\<exists>x y. x \<noteq> y \<and> demo_sha x = demo_sha y)"
proof (rule newest_hash_fixes_log)
  show "sha_ok demo_sha" by (simp add: sha_ok_def demo_sha_def min_def)
  have "audit_ok demo_sha demo_audit" using audit_reachable_ok [OF demo_audit_reachable] .
  then show "audit_verify demo_sha ''h'' demo_audit = (True, None)" "audit_verify demo_sha ''h'' demo_audit = (True, None)"
    using audit_okD(2,3) [OF _ refl] by (simp_all add: audit_verify_iff)
  show "\<forall>r\<in>set demo_audit \<union> set demo_audit. json_wf (ae_metadata r)"
    using \<open>audit_ok demo_sha demo_audit\<close> by (simp add: audit_ok_def)
qed simp_all

lemma chained_cut:
  "sorted (map ae_seq rs) \<Longrightarrow> hub_chained sha p rs \<Longrightarrow> hub_chained sha p (filter (\<lambda>r. ae_seq r \<le> k) rs)"
proof (induction rs arbitrary: p)
  case (Cons r rs)
  show ?case
  proof (cases "ae_seq r \<le> k")
    case False
    with Cons.prems(1) have "filter (\<lambda>r. ae_seq r \<le> k) (r # rs) = []" by (auto simp: filter_empty_conv)
    then show ?thesis by (simp only: chained.simps)
  qed (use Cons.prems Cons.IH [of "ae_entryHash r"] in auto)
qed simp

text \<open>
  Removing the newest entries goes unnoticed: whatever a log that verifies contains, the same log without the
  entries past any point verifies as well, since nothing outside the table records how far it went.
\<close>

theorem removed_tail_verifies:
  assumes "audit_verify sha h t = (True, None)"
  shows "audit_verify sha h (filter (\<lambda>r. \<not> (ae_homeId r = h \<and> k < ae_seq r)) t) = (True, None)"
proof -
  have "rows_asc h (filter (\<lambda>r. \<not> (ae_homeId r = h \<and> k < ae_seq r)) t)
      = sort_key ae_seq (filter (\<lambda>r. ae_seq r \<le> k) (filter (\<lambda>r. ae_homeId r = h) t))"
    by (simp add: rows_asc_def) (rule arg_cong [where f = "sort_key ae_seq"], auto intro: filter_cong)
  also have "\<dots> = filter (\<lambda>r. ae_seq r \<le> k) (rows_asc h t)" by (simp add: rows_asc_def filter_sort)
  finally show ?thesis
    using assms chained_cut [of "rows_asc h t" sha GENESIS k] by (simp add: audit_verify_iff rows_asc_def)
qed

theorem removed_tail_verifies_witness:
  "audit_verify demo_sha ''h'' (filter (\<lambda>r. \<not> (ae_homeId r = ''h'' \<and> 1 < ae_seq r)) demo_audit) = (True, None)"
proof (rule removed_tail_verifies)
  show "audit_verify demo_sha ''h'' demo_audit = (True, None)"
    using audit_okD(2,3) [OF audit_reachable_ok [OF demo_audit_reachable] refl] by (simp add: audit_verify_iff)
qed

end
