(* ===== verification/Cloud_Audit.thy ===== *)
theory Cloud_Audit
  imports Canonical_Json Hash_Chain Domain_Model
begin

text \<open>
  The cloud's audit log, \<^verbatim>\<open>cloud/audit/src/index.ts\<close>, over its in-memory store: one chain for every home.
  SHA-256 is an argument. The metadata of an entry is a JSON value.
\<close>

datatype audit_scope = ScCloud | ScHome

datatype actor_kind = AkUser | AkHub | AkDealer | AkSystem

record cloud_audit_input =
  ca_scope :: audit_scope
  ca_homeId :: "home_id option"
  ca_actorAccountId :: "string option"
  ca_actorKind :: actor_kind
  ca_action :: string
  ca_resourceType :: "string option"
  ca_resourceId :: "string option"
  ca_metadata :: "json option"
  ca_ip :: "string option"

record cloud_audit_entry = cloud_audit_input +
  ce_seq :: nat
  ce_createdAt :: int
  ce_prevHash :: string
  ce_entryHash :: string

definition CLOUD_GENESIS :: string where
  "CLOUD_GENESIS = replicate 64 (CHR ''0'')"

fun scope_name :: "audit_scope \<Rightarrow> string" where
  "scope_name ScCloud = ''cloud''"
| "scope_name ScHome = ''home''"

fun actor_name :: "actor_kind \<Rightarrow> string" where
  "actor_name AkUser = ''user''"
| "actor_name AkHub = ''hub''"
| "actor_name AkDealer = ''dealer''"
| "actor_name AkSystem = ''system''"

fun or_null :: "string option \<Rightarrow> json" where
  "or_null None = JsNull"
| "or_null (Some s) = JsString s"

definition entry_content :: "cloud_audit_entry \<Rightarrow> json" where
  "entry_content e = JsObject
     [(''seq'', JsNumber (int (ce_seq e))), (''createdAt'', JsNumber (ce_createdAt e)),
      (''scope'', JsString (scope_name (ca_scope e))), (''homeId'', or_null (ca_homeId e)),
      (''actorAccountId'', or_null (ca_actorAccountId e)), (''actorKind'', JsString (actor_name (ca_actorKind e))),
      (''action'', JsString (ca_action e)), (''resourceType'', or_null (ca_resourceType e)),
      (''resourceId'', or_null (ca_resourceId e)),
      (''metadata'', case ca_metadata e of None \<Rightarrow> JsObject [] | Some m \<Rightarrow> m),
      (''ip'', or_null (ca_ip e)), (''prevHash'', JsString (ce_prevHash e))]"

definition hashEntry :: "(string \<Rightarrow> string) \<Rightarrow> cloud_audit_entry \<Rightarrow> string" where
  "hashEntry sha e = sha (canonicalJson (entry_content e))"

text \<open>The in-memory store: the entries, oldest first.\<close>

definition tip :: "cloud_audit_entry list \<Rightarrow> cloud_audit_entry option" where
  "tip es = (if es = [] then None else Some (last es))"

definition cloud_append ::
    "(string \<Rightarrow> string) \<Rightarrow> int \<Rightarrow> cloud_audit_input \<Rightarrow> cloud_audit_entry list \<Rightarrow> cloud_audit_entry \<times> cloud_audit_entry list" where
  "cloud_append sha now inp es =
     (let base = cloud_audit_input.extend inp
            \<lparr>ce_seq = (case tip es of Some t \<Rightarrow> ce_seq t + 1 | None \<Rightarrow> 0), ce_createdAt = now,
             ce_prevHash = (case tip es of Some t \<Rightarrow> ce_entryHash t | None \<Rightarrow> CLOUD_GENESIS), ce_entryHash = []\<rparr>;
          entry = base\<lparr>ce_entryHash := hashEntry sha base\<rparr>
      in (entry, es @ [entry]))"

record audit_filter =
  fi_homeId :: "home_id option"
  fi_action :: "string option"
  fi_since :: "int option"

definition cloud_query :: "audit_filter \<Rightarrow> cloud_audit_entry list \<Rightarrow> cloud_audit_entry list" where
  "cloud_query f es = filter (\<lambda>e.
     (fi_homeId f = None \<or> ca_homeId e = fi_homeId f) \<and>
     (case fi_action f of None \<Rightarrow> True | Some a \<Rightarrow> ca_action e = a) \<and>
     (case fi_since f of None \<Rightarrow> True | Some t \<Rightarrow> t \<le> ce_createdAt e)) es"

datatype verify_result = ChainValid | PrevHashMismatch nat | ContentHashMismatch nat

fun cloud_verify_from :: "(string \<Rightarrow> string) \<Rightarrow> string \<Rightarrow> cloud_audit_entry list \<Rightarrow> verify_result" where
  "cloud_verify_from sha prev [] = ChainValid"
| "cloud_verify_from sha prev (e # es) =
     (if ce_prevHash e \<noteq> prev then PrevHashMismatch (ce_seq e)
      else if hashEntry sha e \<noteq> ce_entryHash e then ContentHashMismatch (ce_seq e)
      else cloud_verify_from sha (ce_entryHash e) es)"

definition cloud_verify :: "(string \<Rightarrow> string) \<Rightarrow> cloud_audit_entry list \<Rightarrow> verify_result" where
  "cloud_verify sha es = cloud_verify_from sha CLOUD_GENESIS es"

section \<open>The chain\<close>

text \<open>Entries with the same content: every hashed field but the link, the metadata up to the order of keys.\<close>

definition metadata_of :: "cloud_audit_entry \<Rightarrow> json" where
  "metadata_of e = (case ca_metadata e of None \<Rightarrow> JsObject [] | Some m \<Rightarrow> m)"

definition same_content :: "cloud_audit_entry \<Rightarrow> cloud_audit_entry \<Rightarrow> bool" where
  "same_content e f \<longleftrightarrow> ce_seq e = ce_seq f \<and> ce_createdAt e = ce_createdAt f \<and> ca_scope e = ca_scope f \<and>
     ca_homeId e = ca_homeId f \<and> ca_actorAccountId e = ca_actorAccountId f \<and> ca_actorKind e = ca_actorKind f \<and>
     ca_action e = ca_action f \<and> ca_resourceType e = ca_resourceType f \<and> ca_resourceId e = ca_resourceId f \<and>
     same_value (metadata_of e) (metadata_of f) \<and> ca_ip e = ca_ip f"

definition cloud_digest :: "(string \<Rightarrow> string) \<Rightarrow> string \<Rightarrow> cloud_audit_entry \<Rightarrow> string" where
  "cloud_digest sha p e = hashEntry sha (e\<lparr>ce_prevHash := p\<rparr>)"

abbreviation cloud_chained :: "(string \<Rightarrow> string) \<Rightarrow> string \<Rightarrow> cloud_audit_entry list \<Rightarrow> bool" where
  "cloud_chained sha \<equiv> chained ce_prevHash ce_entryHash (cloud_digest sha)"

definition entry_wf :: "cloud_audit_entry \<Rightarrow> bool" where
  "entry_wf e \<longleftrightarrow> pred_option json_wf (ca_metadata e)"

lemma wf_content: "entry_wf e \<Longrightarrow> json_wf (entry_content e)"
proof -
  have "json_wf (or_null a)" for a by (cases a) simp_all
  then show "entry_wf e \<Longrightarrow> json_wf (entry_content e)"
    by (cases "ca_metadata e") (simp_all add: entry_wf_def entry_content_def)
qed

lemma verify_cloud_chained: "cloud_verify_from sha p es = ChainValid \<longleftrightarrow> cloud_chained sha p es"
proof (induction es arbitrary: p)
  case (Cons e es)
  have "e\<lparr>ce_prevHash := ce_prevHash e\<rparr> = e" by simp
  with Cons show ?case by (auto simp: cloud_digest_def)
qed simp

lemma same_or_null [simp]: "same_value (or_null a) (or_null b) \<longleftrightarrow> a = b"
  by (cases a; cases b) auto

lemma scope_name_inject [simp]: "scope_name a = scope_name b \<longleftrightarrow> a = b"
  by (cases a; cases b) simp_all

lemma actor_name_inject [simp]: "actor_name k = actor_name l \<longleftrightarrow> k = l"
  by (cases k; cases l) simp_all

lemma same_content_link [simp]: "same_content (e\<lparr>ce_prevHash := p\<rparr>) (f\<lparr>ce_prevHash := q\<rparr>) = same_content e f"
  by (simp add: same_content_def metadata_of_def)

lemma content_text_iff:
  assumes "entry_wf e" "entry_wf f"
  shows "canonicalJson (entry_content e) = canonicalJson (entry_content f) \<longleftrightarrow>
     same_content e f \<and> ce_prevHash e = ce_prevHash f"
  unfolding canonical_eq_iff [OF wf_content [OF assms(1)] wf_content [OF assms(2)]]
  by (auto simp: entry_content_def same_content_def simp flip: metadata_of_def)

interpretation cloud: hash_chain ce_prevHash ce_entryHash "cloud_digest sha" "\<lambda>_. True" entry_wf same_content
    "\<exists>x y. x \<noteq> y \<and> sha x = sha y"
  for sha
proof
  fix p q e f
  assume w: "entry_wf e" "entry_wf f" and h: "cloud_digest sha p e = cloud_digest sha q f"
    and c: "\<not> (\<exists>x y. x \<noteq> y \<and> sha x = sha y)"
  let ?e = "e\<lparr>ce_prevHash := p\<rparr>" and ?f = "f\<lparr>ce_prevHash := q\<rparr>"
  have "canonicalJson (entry_content ?e) = canonicalJson (entry_content ?f)"
    using h c unfolding cloud_digest_def hashEntry_def by blast
  moreover have "entry_wf ?e" "entry_wf ?f" using w by (simp_all add: entry_wf_def)
  ultimately have "same_content ?e ?f \<and> p = q" by (simp add: content_text_iff)
  then show "p = q \<and> same_content e f" by simp
qed simp

text \<open>The logs that calls to \<^verbatim>\<open>append\<close> leave.\<close>

fun cloud_appends :: "(string \<Rightarrow> string) \<Rightarrow> (int \<times> cloud_audit_input) list \<Rightarrow> cloud_audit_entry list \<Rightarrow> cloud_audit_entry list" where
  "cloud_appends sha [] es = es"
| "cloud_appends sha ((now, inp) # calls) es = cloud_appends sha calls (snd (cloud_append sha now inp es))"

lemma append_chained:
  assumes "cloud_chained sha CLOUD_GENESIS es" "map ce_seq es = [0..<length es]"
  shows "cloud_chained sha CLOUD_GENESIS (snd (cloud_append sha now inp es))
    \<and> map ce_seq (snd (cloud_append sha now inp es)) = [0..<Suc (length es)]"
proof -
  have "ce_seq (last es) + 1 = length es" if "es \<noteq> []"
  proof -
    have "ce_seq (last es) = last (map ce_seq es)" using that by (simp add: last_map)
    with assms(2) that show ?thesis by (cases es) simp_all
  qed
  with assms show ?thesis
    by (auto simp: cloud_append_def Let_def tip_def tip_hash_def cloud.chained_append cloud_digest_def
        hashEntry_def entry_content_def cloud_audit_input.defs)
qed

lemma appends_chained:
  assumes "cloud_chained sha CLOUD_GENESIS es" "map ce_seq es = [0..<length es]"
  shows "cloud_chained sha CLOUD_GENESIS (cloud_appends sha calls es)
    \<and> map ce_seq (cloud_appends sha calls es) = [0..<length es + length calls]"
  using assms
proof (induction calls arbitrary: es)
  case (Cons call calls)
  obtain now inp where c: "call = (now, inp)" by fastforce
  have "length (snd (cloud_append sha now inp es)) = Suc (length es)" by (simp add: cloud_append_def Let_def)
  with Cons.IH [of "snd (cloud_append sha now inp es)"] append_chained [OF Cons.prems] c show ?case by simp
qed simp

lemma appends_valid: "cloud_verify sha (cloud_appends sha calls []) = ChainValid"
  using appends_chained [of sha "[]"] by (simp add: cloud_verify_def verify_cloud_chained)

text \<open>
  Every log that calls to append leave is valid and numbered from zero without a gap.
\<close>

theorem cloud_log_verifies:
  "cloud_verify sha (cloud_appends sha calls []) = ChainValid \<and>
     map ce_seq (cloud_appends sha calls []) = [0..<length calls]"
  using appends_valid appends_chained [of sha "[]"] by simp

text \<open>
  The newest entry's hash pins the cloud's log down: two valid logs of the same length with the same newest
  hash hold the same entries, unless two texts with the same SHA-256 digest exist.
\<close>

theorem cloud_tip_fixes_log:
  assumes "cloud_verify sha es = ChainValid" "cloud_verify sha fs = ChainValid" "length es = length fs"
    and "map_option ce_entryHash (tip es) = map_option ce_entryHash (tip fs)"
    and "\<forall>e\<in>set es \<union> set fs. entry_wf e"
  shows "list_all2 same_content es fs \<or> (\<exists>x y. x \<noteq> y \<and> sha x = sha y)"
proof (cases "\<exists>x y. x \<noteq> y \<and> sha x = sha y")
  case False
  have "tip_hash ce_entryHash CLOUD_GENESIS es = tip_hash ce_entryHash CLOUD_GENESIS fs"
    using assms(3,4) by (auto simp: tip_def tip_hash_def split: if_splits)
  with False assms have "list_all2 same_content es fs"
    using cloud.tip_fixes_chain [OF assms(3), where sha = sha and p = CLOUD_GENESIS and q = CLOUD_GENESIS]
    by (auto simp: cloud_verify_def verify_cloud_chained)
  then show ?thesis ..
qed simp

definition demo_cloud_input :: cloud_audit_input where
  "demo_cloud_input = \<lparr>ca_scope = ScHome, ca_homeId = Some ''h'', ca_actorAccountId = None, ca_actorKind = AkHub,
     ca_action = ''unlock'', ca_resourceType = None, ca_resourceId = None, ca_metadata = None, ca_ip = None\<rparr>"

definition demo_cloud_log :: "(string \<Rightarrow> string) \<Rightarrow> cloud_audit_entry list" where
  "demo_cloud_log sha = cloud_appends sha [(1, demo_cloud_input), (2, demo_cloud_input)] []"

lemma demo_cloud_valid: "cloud_verify sha (demo_cloud_log sha) = ChainValid"
  unfolding demo_cloud_log_def by (rule appends_valid)

theorem cloud_tip_fixes_log_witness:
  "list_all2 same_content (demo_cloud_log id) (demo_cloud_log id) \<or> (\<exists>x y :: string. x \<noteq> y \<and> id x = id y)"
proof (rule cloud_tip_fixes_log [OF demo_cloud_valid demo_cloud_valid refl refl])
  show "\<forall>e\<in>set (demo_cloud_log id) \<union> set (demo_cloud_log id). entry_wf e"
    by (simp add: demo_cloud_log_def cloud_append_def Let_def entry_wf_def demo_cloud_input_def cloud_audit_input.defs)
qed

text \<open>
  Deleting the newest entries leaves a valid log: verify cannot tell that a log was cut short.
\<close>

theorem cloud_cut_log_verifies:
  assumes "cloud_verify sha es = ChainValid"
  shows "cloud_verify sha (take k es) = ChainValid"
  using assms cloud.chained_take by (simp add: cloud_verify_def verify_cloud_chained)

theorem cloud_cut_log_verifies_witness:
  "cloud_verify id (take 1 (demo_cloud_log id)) = ChainValid \<and> length (demo_cloud_log id) = 2"
proof
  show "cloud_verify id (take 1 (demo_cloud_log id)) = ChainValid" by (rule cloud_cut_log_verifies [OF demo_cloud_valid])
  show "length (demo_cloud_log id) = 2" by (simp add: demo_cloud_log_def cloud_append_def Let_def)
qed

end
