(* ===== verification/Cloud_Authz.thy ===== *)
theory Cloud_Authz
  imports Domain_Model
begin

text \<open>
  The cloud's policy decision point, \<^verbatim>\<open>cloud/authz/src/index.ts\<close>: the role matrix, the grants over it and
  \<^verbatim>\<open>decide\<close>.
\<close>

datatype role = Owner | RAdmin | RInstaller | Homeowner | Family | RGuest | Service

datatype cloud_domain =
    Rooms | Devices | Scenes | Automation_dom | Cameras | Security | Schedules
  | Notifications | Remote_access | Installer_portal | Firmware | Diagnostics

datatype cloud_action = CaView | CaControl | CaManage

datatype access_level = LNone | LScoped | LFull

fun fill :: "access_level \<Rightarrow> cloud_domain \<Rightarrow> access_level" where
  "fill l d = l"

text \<open>The rows of the matrix. Every row names every domain, so the lookup's default is never used.\<close>

fun MATRIX :: "role \<Rightarrow> cloud_domain \<Rightarrow> access_level" where
  "MATRIX Owner d = fill LFull d"
| "MATRIX RAdmin Installer_portal = LScoped"
| "MATRIX RAdmin Firmware = LScoped"
| "MATRIX RAdmin d = fill LFull d"
| "MATRIX RInstaller Cameras = LScoped"
| "MATRIX RInstaller Notifications = LScoped"
| "MATRIX RInstaller Remote_access = LScoped"
| "MATRIX RInstaller Security = LNone"
| "MATRIX RInstaller d = LFull"
| "MATRIX Homeowner Cameras = LScoped"
| "MATRIX Homeowner Security = LScoped"
| "MATRIX Homeowner Diagnostics = LScoped"
| "MATRIX Homeowner Installer_portal = LNone"
| "MATRIX Homeowner Firmware = LNone"
| "MATRIX Homeowner d = LFull"
| "MATRIX Family Diagnostics = LNone"
| "MATRIX Family Installer_portal = LNone"
| "MATRIX Family Firmware = LNone"
| "MATRIX Family d = LScoped"
| "MATRIX RGuest Rooms = LScoped"
| "MATRIX RGuest Devices = LScoped"
| "MATRIX RGuest Notifications = LScoped"
| "MATRIX RGuest Remote_access = LScoped"
| "MATRIX RGuest d = LNone"
| "MATRIX Service Security = LNone"
| "MATRIX Service Diagnostics = LFull"
| "MATRIX Service d = LScoped"

fun ACTION_LEVEL :: "cloud_action \<Rightarrow> access_level" where
  "ACTION_LEVEL CaView = LScoped"
| "ACTION_LEVEL CaControl = LScoped"
| "ACTION_LEVEL CaManage = LFull"

fun level_order :: "access_level \<Rightarrow> nat" where
  "level_order LNone = 0"
| "level_order LScoped = 1"
| "level_order LFull = 2"

record membership =
  ms_role :: role
  ms_validFrom :: "int option"
  ms_validUntil :: "int option"

datatype cloud_effect = CeAllow | CeDeny

record cloud_grant =
  cg_domain :: cloud_domain
  cg_resourceId :: "string option"
  cg_action :: cloud_action
  cg_effect :: cloud_effect
  cg_validUntil :: "int option"

record decision_input =
  di_membership :: membership
  di_domain :: cloud_domain
  di_action :: cloud_action
  di_resourceId :: "string option"
  di_grants :: "cloud_grant list"
  di_now :: int

datatype cloud_reason =
    NotYetActive | MembershipExpired | ExplicitDenyGrant | ExplicitAllowGrant
  | RoleHas role access_level cloud_domain | RoleLacks role cloud_action cloud_domain

definition grant_applies :: "decision_input \<Rightarrow> cloud_grant \<Rightarrow> bool" where
  "grant_applies i g \<longleftrightarrow> cg_domain g = di_domain i \<and> cg_action g = di_action i \<and>
     (cg_resourceId g = None \<or> cg_resourceId g = di_resourceId i) \<and>
     (case cg_validUntil g of None \<Rightarrow> True | Some t \<Rightarrow> di_now i < t)"

definition cloud_decide :: "decision_input \<Rightarrow> bool \<times> cloud_reason" where
  "cloud_decide i =
     (let m = di_membership i; now = di_now i in
      if (case ms_validFrom m of None \<Rightarrow> False | Some t \<Rightarrow> now < t) then (False, NotYetActive)
      else if (case ms_validUntil m of None \<Rightarrow> False | Some t \<Rightarrow> t \<le> now) then (False, MembershipExpired)
      else
        (let applicable = filter (grant_applies i) (di_grants i) in
         if list_ex (\<lambda>g. cg_effect g = CeDeny) applicable then (False, ExplicitDenyGrant)
         else if list_ex (\<lambda>g. cg_effect g = CeAllow) applicable then (True, ExplicitAllowGrant)
         else
           (let level = MATRIX (ms_role m) (di_domain i) in
            if level_order (ACTION_LEVEL (di_action i)) \<le> level_order level
            then (True, RoleHas (ms_role m) level (di_domain i))
            else (False, RoleLacks (ms_role m) (di_action i) (di_domain i)))))"

definition roleLevel :: "role \<Rightarrow> cloud_domain \<Rightarrow> access_level" where
  "roleLevel r d = MATRIX r d"

section \<open>Decisions\<close>

definition in_window :: "membership \<Rightarrow> int \<Rightarrow> bool" where
  "in_window m now \<longleftrightarrow> (case ms_validFrom m of None \<Rightarrow> True | Some t \<Rightarrow> t \<le> now) \<and>
     (case ms_validUntil m of None \<Rightarrow> True | Some t \<Rightarrow> now < t)"

lemma cloud_decide_allowed:
  "fst (cloud_decide i) \<longleftrightarrow> in_window (di_membership i) (di_now i) \<and>
     (\<forall>g\<in>set (di_grants i). grant_applies i g \<longrightarrow> cg_effect g \<noteq> CeDeny) \<and>
     ((\<exists>g\<in>set (di_grants i). grant_applies i g \<and> cg_effect g = CeAllow) \<or>
      level_order (ACTION_LEVEL (di_action i)) \<le> level_order (MATRIX (ms_role (di_membership i)) (di_domain i)))"
  by (auto simp: cloud_decide_def Let_def in_window_def list_ex_iff split: option.splits)

text \<open>
  The cloud admits a request exactly when the membership is inside its window, no applicable grant denies
  it, and either an applicable grant allows it or the role's level reaches the action's.
\<close>

theorem cloud_decide_spec:
  "fst (cloud_decide i) \<longleftrightarrow> in_window (di_membership i) (di_now i) \<and>
     \<not> (\<exists>g\<in>set (di_grants i). grant_applies i g \<and> cg_effect g = CeDeny) \<and>
     ((\<exists>g\<in>set (di_grants i). grant_applies i g \<and> cg_effect g = CeAllow) \<or>
      level_order (ACTION_LEVEL (di_action i)) \<le> level_order (roleLevel (ms_role (di_membership i)) (di_domain i)))"
  unfolding cloud_decide_allowed roleLevel_def by blast

text \<open>
  A scoped level is not limited to a role's own resources: inside its window, a member whose role is scoped on a domain
  may view and control every resource of it, whatever its id, when no grant says otherwise; a guest controls
  every device of the home.
\<close>

theorem scoped_role_controls_everything:
  assumes "in_window m now" "roleLevel (ms_role m) d = LScoped" "a \<noteq> CaManage"
  shows "\<forall>r. fst (cloud_decide \<lparr>di_membership = m, di_domain = d, di_action = a, di_resourceId = r,
     di_grants = [], di_now = now\<rparr>)"
  using assms by (cases a) (simp_all add: cloud_decide_allowed roleLevel_def)

theorem scoped_role_controls_everything_witness:
  "\<forall>r. fst (cloud_decide \<lparr>di_membership = \<lparr>ms_role = RGuest, ms_validFrom = None, ms_validUntil = Some 10\<rparr>,
     di_domain = Devices, di_action = CaControl, di_resourceId = r, di_grants = [], di_now = 3\<rparr>)"
  by (rule scoped_role_controls_everything) (simp_all add: in_window_def roleLevel_def)

end
