(* ===== verification/License_Service.thy ===== *)
theory License_Service
  imports Canonical_Json Domain_Model
begin

text \<open>
  Licensing on the hub, \<^verbatim>\<open>services/license/src\<close> (\<^verbatim>\<open>types.ts\<close>, \<^verbatim>\<open>providers.ts\<close>, \<^verbatim>\<open>service.ts\<close>): providers load grants,
  \<^verbatim>\<open>mergeGrants\<close> makes one effective license of them, and the service answers from it. \<^verbatim>\<open>Date.parse\<close> is an
  argument that gives the instant of a date, or none for a text that is not one.
\<close>

section \<open>Types\<close>

datatype license_type =
    LtDeveloper | LtCommunity | LtHome | LtProfessional | LtEnterprise | LtCommercial_building | LtHotel
  | LtOem | LtTrial | LtBeta | LtInternal_testing | LtLifetime | LtSubscription

datatype license_tier = TierCommunity | TierHome | TierProfessional | TierEnterprise

fun TIER_RANK :: "license_tier \<Rightarrow> nat" where
  "TIER_RANK TierCommunity = 0"
| "TIER_RANK TierHome = 1"
| "TIER_RANK TierProfessional = 2"
| "TIER_RANK TierEnterprise = 3"

definition KNOWN_SKUS :: "string list" where
  "KNOWN_SKUS = [''pro'', ''professional'', ''enterprise'', ''commercial_building'', ''hotel'', ''oem'']"

text \<open>\<^verbatim>\<open>"all"\<close> or a set of names, a JavaScript \<^verbatim>\<open>Set\<close> in insertion order.\<close>

datatype entitlement = EAll | ENames "string list"

fun entitles :: "entitlement \<Rightarrow> string \<Rightarrow> bool" where
  "entitles EAll s = True"
| "entitles (ENames xs) s = (s \<in> set xs)"

fun add_names :: "string list \<Rightarrow> string list \<Rightarrow> string list" where
  "add_names [] acc = acc"
| "add_names (x # xs) acc = add_names xs (if x \<in> set acc then acc else acc @ [x])"

record subscription_info =
  su_renewsAt :: "string option"
  su_graceUntil :: "string option"

record provider_grant =
  pg_source :: string
  pg_licenseType :: license_type
  pg_tier :: license_tier
  pg_skus :: entitlement
  pg_features :: entitlement
  pg_expiresAt :: "string option"
  pg_devMode :: bool
  pg_hubUuid :: "string option"
  pg_licenseId :: "string option"
  pg_subscription :: "subscription_info option"

record effective_license =
  ef_active :: bool
  ef_devMode :: bool
  ef_licenseType :: license_type
  ef_tier :: license_tier
  ef_skus :: entitlement
  ef_features :: entitlement
  ef_expiresAt :: "string option"
  ef_source :: string
  ef_sources :: "string list"
  ef_licenseId :: "string option"

record driver_requirements =
  dq_key :: string
  dq_requiresSku :: "string option"
  dq_requiresFeature :: "string option"
  dq_minTier :: "license_tier option"

section \<open>Providers\<close>

text \<open>
  What a provider's \<^verbatim>\<open>load\<close> does: it returns (or its promise resolves), its promise rejects, or it throws before
  there is a promise.
\<close>

datatype loading = Loads "provider_grant option" | RejectsLoad error | ThrowsLoad error

type_synonym license_provider = "int \<Rightarrow> loading"

definition developerProvider :: "bool \<Rightarrow> license_provider" where
  "developerProvider enabled = (\<lambda>now.
     if \<not> enabled then Loads None
     else Loads (Some \<lparr>pg_source = ''developer'', pg_licenseType = LtDeveloper, pg_tier = TierEnterprise,
            pg_skus = EAll, pg_features = EAll, pg_expiresAt = None, pg_devMode = True, pg_hubUuid = None,
            pg_licenseId = None, pg_subscription = None\<rparr>))"

definition staticGrantProvider :: "provider_grant option \<Rightarrow> license_provider" where
  "staticGrantProvider g = (\<lambda>now. Loads g)"

definition makeGrant ::
    "string \<Rightarrow> license_type \<Rightarrow> license_tier \<Rightarrow> entitlement option \<Rightarrow> entitlement option \<Rightarrow> string option \<Rightarrow>
     string option \<Rightarrow> string option \<Rightarrow> provider_grant" where
  "makeGrant source lt tier skus features expires hub lid =
     \<lparr>pg_source = source, pg_licenseType = lt, pg_tier = tier,
      pg_skus = (case skus of None \<Rightarrow> ENames [] | Some e \<Rightarrow> e),
      pg_features = (case features of None \<Rightarrow> ENames [] | Some e \<Rightarrow> e),
      pg_expiresAt = expires, pg_devMode = False, pg_hubUuid = hub, pg_licenseId = lid, pg_subscription = None\<rparr>"

section \<open>Merging\<close>

definition SOURCE_RANK :: "string \<Rightarrow> nat" where
  "SOURCE_RANK s =
     (case map_of [(''developer'', 100), (''testing'', 80), (''oem'', 60), (''offline'', 40), (''cloud'', 30)] s
      of None \<Rightarrow> 0 | Some n \<Rightarrow> n)"

definition COMMUNITY_DEFAULT :: effective_license where
  "COMMUNITY_DEFAULT =
     \<lparr>ef_active = False, ef_devMode = False, ef_licenseType = LtCommunity, ef_tier = TierCommunity,
      ef_skus = ENames [], ef_features = ENames [], ef_expiresAt = None, ef_source = ''default'',
      ef_sources = [], ef_licenseId = None\<rparr>"

fun merge_entitlement :: "entitlement \<Rightarrow> entitlement \<Rightarrow> entitlement" where
  "merge_entitlement EAll acc = EAll"
| "merge_entitlement (ENames xs) EAll = EAll"
| "merge_entitlement (ENames xs) (ENames acc) = ENames (add_names xs acc)"

text \<open>\<^verbatim>\<open>a < b\<close> on instants: a text that is not a date is \<^verbatim>\<open>NaN\<close>, and no comparison with it holds.\<close>

definition earlier :: "(string \<Rightarrow> int option) \<Rightarrow> string \<Rightarrow> string \<Rightarrow> bool" where
  "earlier date a b = (case (date a, date b) of (Some s, Some t) \<Rightarrow> s < t | _ \<Rightarrow> False)"

text \<open>One round of the loop, on the effective license made so far.\<close>

definition merge_grant :: "(string \<Rightarrow> int option) \<Rightarrow> provider_grant \<Rightarrow> effective_license \<Rightarrow> effective_license" where
  "merge_grant date g e =
     e\<lparr>ef_sources := ef_sources e @ [pg_source g],
       ef_devMode := ef_devMode e \<or> pg_devMode g,
       ef_skus := merge_entitlement (pg_skus g) (ef_skus e),
       ef_features := merge_entitlement (pg_features g) (ef_features e),
       ef_tier := (if TIER_RANK (ef_tier e) < TIER_RANK (pg_tier g) then pg_tier g else ef_tier e),
       ef_expiresAt := (case truthy (pg_expiresAt g) of None \<Rightarrow> ef_expiresAt e
           | Some x \<Rightarrow> (case ef_expiresAt e of None \<Rightarrow> Some x
               | Some y \<Rightarrow> if earlier date x y then Some x else Some y))\<rparr>"

definition dominant :: "provider_grant list \<Rightarrow> provider_grant" where
  "dominant grants = hd (sort_key (\<lambda>g. - int (SOURCE_RANK (pg_source g))) grants)"

definition mergeGrants :: "(string \<Rightarrow> int option) \<Rightarrow> provider_grant list \<Rightarrow> effective_license" where
  "mergeGrants date grants =
     (if grants = [] then COMMUNITY_DEFAULT
      else (let d = dominant grants in
            (fold (merge_grant date) grants COMMUNITY_DEFAULT)
              \<lparr>ef_active := True, ef_licenseType := pg_licenseType d, ef_source := pg_source d,
               ef_licenseId := pg_licenseId d\<rparr>))"

section \<open>The service\<close>

record license_service =
  ls_providers :: "license_provider list"
  ls_effective :: effective_license

definition new_license_service :: "license_provider list \<Rightarrow> license_service" where
  "new_license_service ps = \<lparr>ls_providers = ps, ls_effective = COMMUNITY_DEFAULT\<rparr>"

definition unexpired :: "(string \<Rightarrow> int option) \<Rightarrow> int \<Rightarrow> provider_grant \<Rightarrow> bool" where
  "unexpired date now g =
     (case truthy (pg_expiresAt g) of None \<Rightarrow> True
      | Some x \<Rightarrow> (case date x of None \<Rightarrow> False | Some t \<Rightarrow> now < t))"

text \<open>
  \<^verbatim>\<open>refresh\<close>: a rejected load counts as no grant, but a provider that throws at once makes the whole call reject
  before anything is merged.
\<close>

fun load_all :: "license_provider list \<Rightarrow> int \<Rightarrow> error + provider_grant list" where
  "load_all [] now = Inr []"
| "load_all (p # ps) now =
     (case p now of
        ThrowsLoad e \<Rightarrow> Inl e
      | RejectsLoad e \<Rightarrow> load_all ps now
      | Loads None \<Rightarrow> load_all ps now
      | Loads (Some g) \<Rightarrow> map_sum id ((#) g) (load_all ps now))"

definition license_refresh :: "(string \<Rightarrow> int option) \<Rightarrow> int \<Rightarrow> (license_service, effective_license) eff" where
  "license_refresh date now = (\<lambda>s.
     case load_all (ls_providers s) now of
       Inl e \<Rightarrow> (Inl e, s)
     | Inr grants \<Rightarrow>
         (let ef = mergeGrants date (filter (unexpired date now) grants)
          in (Inr ef, s\<lparr>ls_effective := ef\<rparr>)))"

definition setProviders ::
    "(string \<Rightarrow> int option) \<Rightarrow> int \<Rightarrow> license_provider list \<Rightarrow> (license_service, effective_license) eff" where
  "setProviders date now ps = (\<lambda>s. license_refresh date now (s\<lparr>ls_providers := ps\<rparr>))"

definition hasSku :: "license_service \<Rightarrow> string \<Rightarrow> bool" where
  "hasSku s sku = entitles (ef_skus (ls_effective s)) sku"

definition license_hasFeature :: "license_service \<Rightarrow> string \<Rightarrow> bool" where
  "license_hasFeature s f = entitles (ef_features (ls_effective s)) f"

definition licensedSkuSet :: "license_service \<Rightarrow> string list" where
  "licensedSkuSet s = (case ef_skus (ls_effective s) of EAll \<Rightarrow> KNOWN_SKUS | ENames xs \<Rightarrow> xs)"

definition meetsTier :: "license_service \<Rightarrow> license_tier \<Rightarrow> bool" where
  "meetsTier s t = (TIER_RANK t \<le> TIER_RANK (ef_tier (ls_effective s)))"

datatype install_answer = InstallAllowed | NeedsSku string | NeedsFeature string | NeedsTier license_tier

definition missing :: "('a \<Rightarrow> bool) \<Rightarrow> 'a option \<Rightarrow> bool" where
  "missing has want = (case want of None \<Rightarrow> False | Some x \<Rightarrow> \<not> has x)"

definition canInstallDriver :: "license_service \<Rightarrow> driver_requirements \<Rightarrow> install_answer" where
  "canInstallDriver s q =
     (if missing (hasSku s) (truthy (dq_requiresSku q)) then NeedsSku (the (dq_requiresSku q))
      else if missing (license_hasFeature s) (truthy (dq_requiresFeature q)) then NeedsFeature (the (dq_requiresFeature q))
      else if missing (meetsTier s) (dq_minTier q) then NeedsTier (the (dq_minTier q))
      else InstallAllowed)"

text \<open>The serializable status: the same record with its names sorted.\<close>

fun sorted_names :: "entitlement \<Rightarrow> entitlement" where
  "sorted_names EAll = EAll"
| "sorted_names (ENames xs) = ENames (sort xs)"

definition license_status :: "license_service \<Rightarrow> effective_license" where
  "license_status s = (let e = ls_effective s in
     e\<lparr>ef_skus := sorted_names (ef_skus e), ef_features := sorted_names (ef_features e)\<rparr>)"

section \<open>What a refresh entitles to\<close>

lemma set_add_names [simp]: "set (add_names xs acc) = set xs \<union> set acc"
  by (induction xs acc rule: add_names.induct) auto

lemma entitles_merge [simp]: "entitles (merge_entitlement a b) x \<longleftrightarrow> entitles a x \<or> entitles b x"
  by (induction a b rule: merge_entitlement.induct) auto

lemma fold_entitles:
  "entitles (ef_skus (fold (merge_grant date) gs e)) x \<longleftrightarrow> entitles (ef_skus e) x \<or> (\<exists>g\<in>set gs. entitles (pg_skus g) x)"
  "entitles (ef_features (fold (merge_grant date) gs e)) x \<longleftrightarrow>
     entitles (ef_features e) x \<or> (\<exists>g\<in>set gs. entitles (pg_features g) x)"
  by (induction gs arbitrary: e) (auto simp: merge_grant_def)

lemma tier_rank_0: "TIER_RANK t = 0 \<longleftrightarrow> t = TierCommunity"
  by (cases t) simp_all

lemma fold_tier:
  "TIER_RANK t \<le> TIER_RANK (ef_tier (fold (merge_grant date) gs e)) \<longleftrightarrow>
     TIER_RANK t \<le> TIER_RANK (ef_tier e) \<or> (\<exists>g\<in>set gs. TIER_RANK t \<le> TIER_RANK (pg_tier g))"
  by (induction gs arbitrary: e) (auto simp: merge_grant_def)

lemma default_entitles [simp]:
  "\<not> entitles (ef_skus COMMUNITY_DEFAULT) x" "\<not> entitles (ef_features COMMUNITY_DEFAULT) x"
  "ef_tier COMMUNITY_DEFAULT = TierCommunity"
  by (simp_all add: COMMUNITY_DEFAULT_def)

lemma merge_entitles:
  "entitles (ef_skus (mergeGrants date gs)) x \<longleftrightarrow> (\<exists>g\<in>set gs. entitles (pg_skus g) x)"
  "entitles (ef_features (mergeGrants date gs)) x \<longleftrightarrow> (\<exists>g\<in>set gs. entitles (pg_features g) x)"
  "TIER_RANK t \<le> TIER_RANK (ef_tier (mergeGrants date gs)) \<longleftrightarrow>
     t = TierCommunity \<or> (\<exists>g\<in>set gs. TIER_RANK t \<le> TIER_RANK (pg_tier g))"
  using fold_tier [of t date gs COMMUNITY_DEFAULT]
  by (auto simp: mergeGrants_def Let_def fold_entitles tier_rank_0)

lemma load_all_set:
  "load_all ps now = Inr gs \<Longrightarrow> g \<in> set gs \<longleftrightarrow> (\<exists>p\<in>set ps. p now = Loads (Some g))"
proof (induction ps arbitrary: gs)
  case (Cons p ps)
  show ?case
  proof (cases "load_all ps now")
    case (Inr hs)
    with Cons show ?thesis by (cases "p now") (auto split: option.splits)
  qed (use Cons.prems in \<open>auto split: loading.splits option.splits\<close>)
qed simp

text \<open>
  After a refresh that returns, a driver may be installed exactly when each of its demands is met by some
  grant that a provider loaded and that has not expired: its SKU, its feature, and a tier at least as high as
  its minimum; providers that rejected do not matter.
\<close>

theorem refresh_admits_driver:
  assumes "license_refresh date now s = (Inr ef, s')"
  shows "canInstallDriver s' q = InstallAllowed \<longleftrightarrow>
     (\<forall>k. truthy (dq_requiresSku q) = Some k \<longrightarrow>
        (\<exists>p\<in>set (ls_providers s). \<exists>g. p now = Loads (Some g) \<and> unexpired date now g \<and> entitles (pg_skus g) k)) \<and>
     (\<forall>f. truthy (dq_requiresFeature q) = Some f \<longrightarrow>
        (\<exists>p\<in>set (ls_providers s). \<exists>g. p now = Loads (Some g) \<and> unexpired date now g \<and> entitles (pg_features g) f)) \<and>
     (\<forall>t. dq_minTier q = Some t \<longrightarrow> t = TierCommunity \<or>
        (\<exists>p\<in>set (ls_providers s). \<exists>g. p now = Loads (Some g) \<and> unexpired date now g \<and> TIER_RANK t \<le> TIER_RANK (pg_tier g)))"
proof -
  obtain gs where gs: "load_all (ls_providers s) now = Inr gs"
      "ls_effective s' = mergeGrants date (filter (unexpired date now) gs)"
    using assms by (auto simp: license_refresh_def Let_def split: sum.splits)
  have in_gs: "(\<exists>g\<in>set (filter (unexpired date now) gs). P g) \<longleftrightarrow>
      (\<exists>p\<in>set (ls_providers s). \<exists>g. p now = Loads (Some g) \<and> unexpired date now g \<and> P g)" for P
    using load_all_set [OF gs(1)] by auto
  have "canInstallDriver s' q = InstallAllowed \<longleftrightarrow>
      \<not> missing (hasSku s') (truthy (dq_requiresSku q)) \<and>
      \<not> missing (license_hasFeature s') (truthy (dq_requiresFeature q)) \<and> \<not> missing (meetsTier s') (dq_minTier q)"
    by (simp add: canInstallDriver_def)
  then show ?thesis
    unfolding missing_def hasSku_def license_hasFeature_def meetsTier_def gs(2) merge_entitles in_gs
    by (auto split: option.splits)
qed

definition demo_driver :: driver_requirements where
  "demo_driver = \<lparr>dq_key = ''knx'', dq_requiresSku = Some ''pro'', dq_requiresFeature = None, dq_minTier = Some TierHome\<rparr>"

theorem refresh_admits_driver_witness:
  "canInstallDriver (snd (license_refresh (\<lambda>_. None) 5 (new_license_service [developerProvider True]))) demo_driver
     = InstallAllowed"
proof -
  let ?s = "new_license_service [developerProvider True]"
  obtain ef where "license_refresh (\<lambda>_. None) 5 ?s = (Inr ef, snd (license_refresh (\<lambda>_. None) 5 ?s))"
    by (simp add: license_refresh_def new_license_service_def developerProvider_def Let_def)
  from refresh_admits_driver [OF this, of demo_driver] show ?thesis
    by (simp add: new_license_service_def developerProvider_def unexpired_def truthy_def demo_driver_def)
qed

text \<open>
  The comment on subscriptions says that within its grace period an expired subscription still grants access, but
  the service ignores every grant past its expiry, whatever grace it carries: alone, such a grant leaves the
  community default.
\<close>

theorem grace_period_ignored:
  assumes "truthy (pg_expiresAt g) = Some x" "date x = Some t" "t \<le> now"
  shows "fst (license_refresh date now (new_license_service [staticGrantProvider (Some (g\<lparr>pg_subscription := sub\<rparr>))]))
     = Inr COMMUNITY_DEFAULT"
  using assms by (simp add: license_refresh_def new_license_service_def staticGrantProvider_def unexpired_def mergeGrants_def)

theorem grace_period_ignored_witness:
  "fst (license_refresh (\<lambda>x. if x = ''2025'' then Some 5 else Some 100) 9 (new_license_service [staticGrantProvider
     (Some ((makeGrant ''cloud'' LtSubscription TierHome (Some EAll) None (Some ''2025'') None None)\<lparr>pg_subscription :=
        Some \<lparr>su_renewsAt = None, su_graceUntil = Some ''2030''\<rparr>\<rparr>))])) = Inr COMMUNITY_DEFAULT"
  by (rule grace_period_ignored [where x = "''2025''" and t = 5]) (simp_all add: makeGrant_def truthy_def)

end
