(* ===== verification/Cloud_Licensing.thy ===== *)
theory Cloud_Licensing
  imports Canonical_Json Domain_Model Ids
begin

text \<open>
  Signed licenses, \<^verbatim>\<open>cloud/licensing/src/index.ts\<close>, the dealer's record of them, \<^verbatim>\<open>dealer-licensing.ts\<close>, and
  the schema of \<^verbatim>\<open>packages/domain-model/src/drivers.ts\<close>. Ed25519, zod's datetime format and the two directions of
  JavaScript's ISO dates are arguments; signing goes over the canonical text of the payload, as
  \<^verbatim>\<open>signPayload\<close> and \<^verbatim>\<open>verifyPayload\<close> of \<^verbatim>\<open>packages/crypto\<close> do.
\<close>

record license_payload =
  lp_id :: string
  lp_homeId :: home_id
  lp_sku :: string
  lp_seats :: nat
  lp_features :: "string list"
  lp_issuedAt :: string
  lp_expiresAt :: "string option"

record license = license_payload +
  lp_signature :: string

record signer =
  sg_sign :: "string \<Rightarrow> string \<Rightarrow> string"
  sg_verify :: "string \<Rightarrow> string \<Rightarrow> string \<Rightarrow> bool"
  sg_datetime :: "string \<Rightarrow> bool"
  sg_date :: "string \<Rightarrow> int"
  sg_iso :: "nat \<Rightarrow> string"

section \<open>Payloads as JSON\<close>

fun expiry_json :: "string option \<Rightarrow> json" where
  "expiry_json None = JsNull"
| "expiry_json (Some t) = JsString t"

definition payload_json :: "'a license_payload_scheme \<Rightarrow> json" where
  "payload_json p = JsObject
     [(''id'', JsString (lp_id p)), (''homeId'', JsString (lp_homeId p)), (''sku'', JsString (lp_sku p)),
      (''seats'', JsNumber (int (lp_seats p))), (''features'', JsArray (map JsString (lp_features p))),
      (''issuedAt'', JsString (lp_issuedAt p)), (''expiresAt'', expiry_json (lp_expiresAt p))]"

definition signPayload :: "signer \<Rightarrow> json \<Rightarrow> string \<Rightarrow> string" where
  "signPayload sg payload priv = sg_sign sg priv (canonicalJson payload)"

definition verifyPayload :: "signer \<Rightarrow> json \<Rightarrow> string \<Rightarrow> string \<Rightarrow> bool" where
  "verifyPayload sg payload signature pub = sg_verify sg pub (canonicalJson payload) signature"

text \<open>The token as the client sends it, and \<^verbatim>\<open>License.safeParse\<close> on it: keys in any order, unknown keys dropped.\<close>

definition license_json :: "license \<Rightarrow> json" where
  "license_json l =
     (case payload_json l of JsObject kvs \<Rightarrow> JsObject (kvs @ [(''signature'', JsString (lp_signature l))]) | j \<Rightarrow> j)"

fun string_of :: "json option \<Rightarrow> string option" where
  "string_of (Some (JsString s)) = Some s"
| "string_of _ = None"

fun seats_of :: "json option \<Rightarrow> nat option" where
  "seats_of (Some (JsNumber n)) = (if 0 < n then Some (nat n) else None)"
| "seats_of _ = None"

fun strings_of :: "json list \<Rightarrow> string list option" where
  "strings_of [] = Some []"
| "strings_of (JsString s # vs) = map_option ((#) s) (strings_of vs)"
| "strings_of (_ # vs) = None"

fun features_of :: "json option \<Rightarrow> string list option" where
  "features_of None = Some []"
| "features_of (Some (JsArray vs)) = strings_of vs"
| "features_of (Some _) = None"

fun expiry_of :: "(string \<Rightarrow> bool) \<Rightarrow> json option \<Rightarrow> string option option" where
  "expiry_of dt (Some JsNull) = Some None"
| "expiry_of dt (Some (JsString s)) = (if dt s then Some (Some s) else None)"
| "expiry_of dt _ = None"

definition accept :: "('a \<Rightarrow> bool) \<Rightarrow> 'a option \<Rightarrow> 'a option" where
  "accept P x = (case x of None \<Rightarrow> None | Some a \<Rightarrow> if P a then Some a else None)"

definition parse_license :: "signer \<Rightarrow> json \<Rightarrow> license option" where
  "parse_license sg token =
     (case token of
        JsObject kvs \<Rightarrow>
          (case (accept (id_matches ''lic'') (string_of (map_of kvs ''id'')),
                 accept (id_matches ''home'') (string_of (map_of kvs ''homeId'')),
                 string_of (map_of kvs ''sku''), seats_of (map_of kvs ''seats''),
                 features_of (map_of kvs ''features''),
                 accept (sg_datetime sg) (string_of (map_of kvs ''issuedAt'')),
                 expiry_of (sg_datetime sg) (map_of kvs ''expiresAt''), string_of (map_of kvs ''signature'')) of
             (Some i, Some h, Some k, Some n, Some f, Some t, Some x, Some s) \<Rightarrow>
               Some \<lparr>lp_id = i, lp_homeId = h, lp_sku = k, lp_seats = n, lp_features = f, lp_issuedAt = t,
                     lp_expiresAt = x, lp_signature = s\<rparr>
           | _ \<Rightarrow> None)
      | _ \<Rightarrow> None)"

section \<open>Issuing and validating\<close>

record issue_license_input =
  il_homeId :: home_id
  il_sku :: string
  il_seats :: nat
  il_features :: "string list"
  il_expiresAt :: "string option"

definition issueLicense ::
    "signer \<Rightarrow> string \<Rightarrow> nat \<Rightarrow> nat list \<Rightarrow> issue_license_input \<Rightarrow> id_state \<Rightarrow> license \<times> id_state" where
  "issueLicense sg priv now rnd inp st =
     (let (i, st') = newId IdLicense now rnd st;
          payload = \<lparr>lp_id = i, lp_homeId = il_homeId inp, lp_sku = il_sku inp, lp_seats = il_seats inp,
                     lp_features = il_features inp, lp_issuedAt = sg_iso sg now, lp_expiresAt = il_expiresAt inp\<rparr>
      in (license_payload.extend payload \<lparr>lp_signature = signPayload sg (payload_json payload) priv\<rparr>, st'))"

datatype license_validation = ValidLicense license | Malformed | BadSignature | ExpiredLicense | WrongHome

definition validateLicense :: "signer \<Rightarrow> json \<Rightarrow> string \<Rightarrow> home_id option \<Rightarrow> int \<Rightarrow> license_validation" where
  "validateLicense sg token pub home now =
     (case parse_license sg token of
        None \<Rightarrow> Malformed
      | Some l \<Rightarrow>
          (if \<not> verifyPayload sg (payload_json l) (lp_signature l) pub then BadSignature
           else if (case truthy home of None \<Rightarrow> False | Some h \<Rightarrow> lp_homeId l \<noteq> h) then WrongHome
           else if (case truthy (lp_expiresAt l) of None \<Rightarrow> False | Some x \<Rightarrow> sg_date sg x \<le> now) then ExpiredLicense
           else ValidLicense l))"

definition token_hasFeature :: "license \<Rightarrow> string \<Rightarrow> bool" where
  "token_hasFeature l f = (f \<in> set (lp_features l))"

section \<open>The dealer's records\<close>

datatype record_status = RsIssued | RsActivated | RsRevoked | RsTransferred

record license_record =
  lr_id :: string
  lr_dealerOrgId :: string
  lr_homeId :: home_id
  lr_sku :: string
  lr_features :: "string list"
  lr_seats :: nat
  lr_issuedAt :: string
  lr_expiresAt :: "string option"
  lr_status :: record_status
  lr_activatedAt :: "string option"
  lr_supersedes :: "string option"

record dealer =
  dl_records :: "(string, license_record) jsmap"
  dl_ids :: id_state

definition put_record :: "license_record \<Rightarrow> dealer \<Rightarrow> dealer" where
  "put_record r d = d\<lparr>dl_records := jset (lr_id r) r (dl_records d)\<rparr>"

text \<open>
  The store's list, newest first. The comparison \<^verbatim>\<open>a.issuedAt < b.issuedAt ? 1 : -1\<close> puts the later of two
  records with the same instant first.
\<close>

definition dealer_list :: "string \<Rightarrow> dealer \<Rightarrow> license_record list" where
  "dealer_list org d = rev (sort_key lr_issuedAt (filter (\<lambda>r. lr_dealerOrgId r = org) (jvalues (dl_records d))))"

definition require_record :: "string \<Rightarrow> dealer \<Rightarrow> error + license_record" where
  "require_record i d =
     (case jget (dl_records d) i of None \<Rightarrow> Inl (PlainError ''license record not found'') | Some r \<Rightarrow> Inr r)"

definition dealer_issue ::
    "signer \<Rightarrow> string \<Rightarrow> nat \<Rightarrow> nat list \<Rightarrow> string \<Rightarrow> issue_license_input \<Rightarrow> dealer \<Rightarrow> (license \<times> license_record) \<times> dealer" where
  "dealer_issue sg priv now rnd org inp d =
     (let (l, ids') = issueLicense sg priv now rnd inp (dl_ids d);
          r = \<lparr>lr_id = lp_id l, lr_dealerOrgId = org, lr_homeId = il_homeId inp, lr_sku = il_sku inp,
               lr_features = il_features inp, lr_seats = il_seats inp, lr_issuedAt = lp_issuedAt l,
               lr_expiresAt = lp_expiresAt l, lr_status = RsIssued, lr_activatedAt = None, lr_supersedes = None\<rparr>
      in ((l, r), put_record r (d\<lparr>dl_ids := ids'\<rparr>)))"

definition markActivated :: "signer \<Rightarrow> nat \<Rightarrow> string \<Rightarrow> (dealer, license_record) eff" where
  "markActivated sg now i = (\<lambda>d.
     case require_record i d of
       Inl e \<Rightarrow> (Inl e, d)
     | Inr r \<Rightarrow>
         (if lr_status r = RsRevoked then (Inl (PlainError ''license is revoked''), d)
          else (let u = r\<lparr>lr_status := RsActivated, lr_activatedAt := Some (sg_iso sg now)\<rparr> in (Inr u, put_record u d))))"

definition revoke_license :: "string \<Rightarrow> (dealer, license_record) eff" where
  "revoke_license i = (\<lambda>d.
     case require_record i d of
       Inl e \<Rightarrow> (Inl e, d)
     | Inr r \<Rightarrow> (let u = r\<lparr>lr_status := RsRevoked\<rparr> in (Inr u, put_record u d)))"

definition transfer ::
    "signer \<Rightarrow> string \<Rightarrow> nat \<Rightarrow> nat list \<Rightarrow> string \<Rightarrow> home_id \<Rightarrow> (dealer, license \<times> license_record) eff" where
  "transfer sg priv now rnd i newHome = (\<lambda>d.
     case require_record i d of
       Inl e \<Rightarrow> (Inl e, d)
     | Inr r \<Rightarrow>
         (let d1 = put_record (r\<lparr>lr_status := RsTransferred\<rparr>) d;
              ((l, r'), d2) = dealer_issue sg priv now rnd (lr_dealerOrgId r)
                 \<lparr>il_homeId = newHome, il_sku = lr_sku r, il_seats = lr_seats r, il_features = lr_features r,
                  il_expiresAt = lr_expiresAt r\<rparr> d1;
              r'' = r'\<lparr>lr_supersedes := Some (lr_id r)\<rparr>
          in (Inr (l, r''), put_record r'' d2)))"

definition dealer_history :: "string \<Rightarrow> dealer \<Rightarrow> license_record list" where
  "dealer_history org d = dealer_list org d"

definition seatsInUse :: "string \<Rightarrow> dealer \<Rightarrow> nat" where
  "seatsInUse org d = fold (\<lambda>r n. n + lr_seats r) (filter (\<lambda>r. lr_status r = RsActivated) (dealer_list org d)) 0"

section \<open>Licenses on the hub\<close>

text \<open>
  What the code relies on of Ed25519 for a pair of keys: a signature verifies for the text it was made for and for no other.
\<close>

definition signer_ok :: "signer \<Rightarrow> string \<Rightarrow> string \<Rightarrow> bool" where
  "signer_ok sg priv pub \<longleftrightarrow> (\<forall>d d'. sg_verify sg pub d' (sg_sign sg priv d) \<longleftrightarrow> d' = d)"

lemma strings_of_map [simp]: "strings_of (map JsString fs) = Some fs"
  by (induction fs) auto

lemma same_expiry [simp]: "same_value (expiry_json a) (expiry_json b) \<longleftrightarrow> a = b"
  by (cases a; cases b) auto

lemma same_strings [simp]:
  "length xs = length ys \<Longrightarrow>
     list_all (\<lambda>(v, w). same_value v w) (zip (map JsString xs) (map JsString ys)) \<longleftrightarrow> xs = ys"
  by (auto simp: list_all_length list_eq_iff_nth_eq)

lemma json_wf_payload [simp]: "json_wf (payload_json p)"
  by (cases "lp_expiresAt p") (simp_all add: payload_json_def list_all_iff)

lemma payload_text_iff:
  "canonicalJson (payload_json p) = canonicalJson (payload_json q) \<longleftrightarrow> license_payload.truncate p = license_payload.truncate q"
proof -
  have "canonicalJson (payload_json p) = canonicalJson (payload_json q) \<longleftrightarrow> same_value (payload_json p) (payload_json q)"
    by (simp add: canonical_eq_iff)
  also have "\<dots> \<longleftrightarrow> license_payload.truncate p = license_payload.truncate q"
    by (auto simp: payload_json_def license_payload.truncate_def)
  finally show ?thesis .
qed

definition payload_ok :: "signer \<Rightarrow> license \<Rightarrow> bool" where
  "payload_ok sg l \<longleftrightarrow> id_matches ''lic'' (lp_id l) \<and> id_matches ''home'' (lp_homeId l) \<and> 0 < lp_seats l \<and>
     sg_datetime sg (lp_issuedAt l) \<and> pred_option (sg_datetime sg) (lp_expiresAt l)"

lemma parse_license_json: "payload_ok sg l \<Longrightarrow> parse_license sg (license_json l) = Some l"
  by (cases "lp_expiresAt l") (simp_all add: payload_ok_def parse_license_def license_json_def payload_json_def accept_def)

lemma issued_fields:
  assumes "issueLicense sg priv now rnd inp st = (l, st')"
  shows "lp_signature l = signPayload sg (payload_json l) priv" "lp_id l = fst (newId IdLicense now rnd st)"
    "lp_homeId l = il_homeId inp" "lp_sku l = il_sku inp" "lp_seats l = il_seats inp" "lp_features l = il_features inp"
    "lp_issuedAt l = sg_iso sg now" "lp_expiresAt l = il_expiresAt inp"
  using assms by (auto simp: issueLicense_def case_prod_unfold Let_def license_payload.defs payload_json_def)

definition input_ok :: "signer \<Rightarrow> issue_license_input \<Rightarrow> bool" where
  "input_ok sg inp \<longleftrightarrow> id_matches ''home'' (il_homeId inp) \<and> 0 < il_seats inp \<and> pred_option (sg_datetime sg) (il_expiresAt inp)"

lemma issued_payload_ok:
  assumes "issueLicense sg priv now rnd inp st = (l, st')" "input_ok sg inp" "\<forall>t. sg_datetime sg (sg_iso sg t)"
    and "id_state_ok st" "rand_ok rnd"
  shows "payload_ok sg l"
  using newId_matches [OF assms(4,5), of IdLicense now] assms(2,3)
  by (simp add: payload_ok_def input_ok_def issued_fields [OF assms(1)])

lemma issued_validates:
  assumes "issueLicense sg priv now rnd inp st = (l, st')" "input_ok sg inp" "\<forall>t. sg_datetime sg (sg_iso sg t)"
    and "id_state_ok st" "rand_ok rnd" "signer_ok sg priv pub"
  shows "validateLicense sg (license_json l) pub home t =
     (if (case truthy home of None \<Rightarrow> False | Some h \<Rightarrow> il_homeId inp \<noteq> h) then WrongHome
      else if (case truthy (il_expiresAt inp) of None \<Rightarrow> False | Some x \<Rightarrow> sg_date sg x \<le> t) then ExpiredLicense
      else ValidLicense l)"
  using assms(6) parse_license_json [OF issued_payload_ok [OF assms(1-5)]]
  by (cases "truthy home"; cases "truthy (il_expiresAt inp)") (simp_all add: validateLicense_def verifyPayload_def signPayload_def signer_ok_def issued_fields [OF assms(1)])

text \<open>
  A license as issued, serialized and read back, is valid on its own hub until its expiry, is refused as expired from that
  instant on, and is refused on every other hub.
\<close>

theorem issued_license_validates:
  assumes "issueLicense sg priv now rnd inp st = (l, st')" "input_ok sg inp" "\<forall>t. sg_datetime sg (sg_iso sg t)"
    and "id_state_ok st" "rand_ok rnd" "signer_ok sg priv pub" "home \<noteq> []" "il_expiresAt inp = Some x" "x \<noteq> []"
  shows "validateLicense sg (license_json l) pub (Some home) t =
     (if home \<noteq> il_homeId inp then WrongHome else if t < sg_date sg x then ValidLicense l else ExpiredLicense)"
  using issued_validates [OF assms(1-6), of "Some home" t] assms(7-9) by (auto simp: truthy_def)

text \<open>
  C38: Whatever is sent in the place of an issued license with its signature, if the hub finds it valid then it is that
  license, in every field: no home, seat count, feature or expiry can be changed without the private key.
\<close>

theorem altered_license_rejected:
  assumes "issueLicense sg priv now rnd inp st = (l, st')" "signer_ok sg priv pub"
    and "validateLicense sg token pub home t = ValidLicense l'" "lp_signature l' = lp_signature l"
  shows "l' = l"
proof -
  have "verifyPayload sg (payload_json l') (lp_signature l') pub"
    using assms(3) by (auto simp: validateLicense_def split: option.splits if_splits)
  with assms(2,4) issued_fields(1) [OF assms(1)] have "canonicalJson (payload_json l') = canonicalJson (payload_json l)"
    by (auto simp: verifyPayload_def signPayload_def signer_ok_def)
  then have "license_payload.truncate l' = license_payload.truncate l" by (simp add: payload_text_iff)
  with assms(4) show ?thesis by (cases l'; cases l) (simp add: license_payload.truncate_def)
qed

section \<open>The dealer's records\<close>

definition demo_signer :: signer where
  "demo_signer = \<lparr>sg_sign = (\<lambda>k d. d), sg_verify = (\<lambda>k d s. d = s), sg_datetime = (\<lambda>_. True),
     sg_date = (\<lambda>_. 100), sg_iso = show_nat\<rparr>"

definition demo_home_id :: home_id where
  "demo_home_id = ''home_'' @ replicate 26 (CHR ''0'')"

definition demo_license_input :: issue_license_input where
  "demo_license_input = \<lparr>il_homeId = demo_home_id, il_sku = ''pro'', il_seats = 2, il_features = [''ai''],
     il_expiresAt = Some ''2030''\<rparr>"

lemma demo_signer_ok: "signer_ok demo_signer k p" "\<forall>t. sg_datetime demo_signer (sg_iso demo_signer t)"
  by (auto simp: signer_ok_def demo_signer_def)

lemma demo_home_ok: "id_matches ''home'' demo_home_id"
  by code_simp

lemma demo_input_ok: "input_ok demo_signer demo_license_input"
  using demo_home_ok by (simp add: input_ok_def demo_license_input_def demo_signer_def)

lemma demo_ids_ok: "id_state_ok fresh_ids" "rand_ok (replicate 16 0)"
  by (simp_all add: id_state_ok_def fresh_ids_def rand_ok_def digits_ok_def list_all_iff)

definition demo_license :: "license \<times> id_state" where
  "demo_license = issueLicense demo_signer ''k'' 7 (replicate 16 0) demo_license_input fresh_ids"

lemma demo_issued: "issueLicense demo_signer ''k'' 7 (replicate 16 0) demo_license_input fresh_ids = (fst demo_license, snd demo_license)"
  by (simp add: demo_license_def)

theorem issued_license_validates_witness:
  "validateLicense demo_signer (license_json (fst demo_license)) ''p'' (Some demo_home_id) 99 = ValidLicense (fst demo_license)"
  by (subst issued_license_validates [OF demo_issued demo_input_ok demo_signer_ok(2) demo_ids_ok demo_signer_ok(1),
        where x = "''2030''"])
    (simp_all add: demo_license_input_def demo_home_id_def demo_signer_def)

theorem altered_license_rejected_witness:
  "parse_license demo_signer (license_json (fst demo_license)) = Some (fst demo_license) \<and> fst demo_license = fst demo_license"
proof
  show "parse_license demo_signer (license_json (fst demo_license)) = Some (fst demo_license)"
    by (rule parse_license_json [OF issued_payload_ok [OF demo_issued demo_input_ok demo_signer_ok(2) demo_ids_ok]])
  have "validateLicense demo_signer (license_json (fst demo_license)) ''p'' (Some demo_home_id) 99 = ValidLicense (fst demo_license)"
    using issued_validates [OF demo_issued demo_input_ok demo_signer_ok(2) demo_ids_ok demo_signer_ok(1), of "''p''" "Some demo_home_id" 99]
    by (simp add: demo_license_input_def demo_signer_def truthy_def)
  from altered_license_rejected [OF demo_issued demo_signer_ok(1) this refl] show "fst demo_license = fst demo_license" .
qed

text \<open>
  Revocation can be undone by a transfer: transferring a revoked license, which the dealer's service does not
  check, issues a fresh license that its new hub finds valid.
\<close>

theorem revoked_license_transferable:
  assumes "jget (dl_records d) i = Some r" "lr_id r = i" "lr_status r = RsRevoked"
    and "\<forall>t. sg_datetime sg (sg_iso sg t)" "id_state_ok (dl_ids d)" "rand_ok rnd" "signer_ok sg priv pub"
    and "id_matches ''home'' home" "0 < lr_seats r" "lr_expiresAt r = None"
  shows "\<exists>l r' d'. transfer sg priv now rnd i home d = (Inr (l, r'), d') \<and> lr_status r' = RsIssued \<and>
     jget (dl_records d') (lr_id r') = Some r' \<and> validateLicense sg (license_json l) pub (Some home) t = ValidLicense l"
proof -
  let ?inp = "\<lparr>il_homeId = home, il_sku = lr_sku r, il_seats = lr_seats r, il_features = lr_features r,
      il_expiresAt = lr_expiresAt r\<rparr>"
  obtain l st' where l: "issueLicense sg priv now rnd ?inp (dl_ids d) = (l, st')" by fastforce
  have "input_ok sg ?inp" using assms by (simp add: input_ok_def)
  from issued_validates [OF l this assms(4-7), of "Some home" t] assms(8,10)
  have "validateLicense sg (license_json l) pub (Some home) t = ValidLicense l"
    by (auto simp: truthy_def)
  with assms(1,2) l show ?thesis
    by (simp add: transfer_def require_record_def dealer_issue_def put_record_def Let_def)
qed

definition demo_revoked :: license_record where
  "demo_revoked = \<lparr>lr_id = ''l'', lr_dealerOrgId = ''d'', lr_homeId = ''h'', lr_sku = ''pro'', lr_features = [],
     lr_seats = 3, lr_issuedAt = ''1'', lr_expiresAt = None, lr_status = RsRevoked, lr_activatedAt = None, lr_supersedes = None\<rparr>"

theorem revoked_license_transferable_witness:
  "\<exists>l r' d'. transfer demo_signer ''k'' 9 (replicate 16 0) ''l'' demo_home_id \<lparr>dl_records = [(''l'', demo_revoked)], dl_ids = fresh_ids\<rparr>
       = (Inr (l, r'), d') \<and> lr_status r' = RsIssued \<and>
     jget (dl_records d') (lr_id r') = Some r' \<and>
     validateLicense demo_signer (license_json l) ''p'' (Some demo_home_id) 50 = ValidLicense l"
  by (rule revoked_license_transferable [where r = demo_revoked])
    (simp_all add: demo_revoked_def demo_signer_ok demo_ids_ok demo_home_ok)

end
