(* ===== verification/Entity_Registry.thy ===== *)
theory Entity_Registry
  imports Mock_Adapter "HOL-Library.List_Lexorder" "HOL-Library.Char_ord"
begin

text \<open>
  The entity registry mirror, \<^verbatim>\<open>services/integration-layer/src/registry.ts\<close>: which backend entity stands for
  which capability of which device, in both directions, and the device-level table for devices without
  capabilities. Keys are the source's strings, the device id and the capability joined by a colon.
\<close>

record backend_entity_ref =
  br_backendId :: string
  br_backendDomain :: string
  br_backendAttr :: "string option"

record entity_registry =
  er_forward :: "(string, backend_entity_ref) jsmap"
  er_reverse :: "(string, device_id \<times> capability_kind) jsmap"
  er_deviceBackendId :: "(device_id, string) jsmap"
  er_reverseDevice :: "(string, device_id) jsmap"

definition new_entity_registry :: entity_registry where
  "new_entity_registry = \<lparr>er_forward = [], er_reverse = [], er_deviceBackendId = [], er_reverseDevice = []\<rparr>"

definition er_map :: "device_id \<Rightarrow> capability_kind \<Rightarrow> backend_entity_ref \<Rightarrow> entity_registry \<Rightarrow> entity_registry" where
  "er_map d c r m = m\<lparr>er_forward := jset (device_key d c) r (er_forward m),
     er_reverse := jset (br_backendId r) (d, c) (er_reverse m)\<rparr>"

definition er_resolve :: "device_id \<Rightarrow> capability_kind \<Rightarrow> entity_registry \<Rightarrow> backend_entity_ref option" where
  "er_resolve d c m = jget (er_forward m) (device_key d c)"

definition reverseLookup :: "string \<Rightarrow> entity_registry \<Rightarrow> (device_id \<times> capability_kind) option" where
  "reverseLookup b m = jget (er_reverse m) b"

definition mapDevice :: "device_id \<Rightarrow> string \<Rightarrow> entity_registry \<Rightarrow> entity_registry" where
  "mapDevice d b m = m\<lparr>er_deviceBackendId := jset d b (er_deviceBackendId m),
     er_reverseDevice := jset b d (er_reverseDevice m)\<rparr>"

definition reverseLookupDevice :: "string \<Rightarrow> entity_registry \<Rightarrow> device_id option" where
  "reverseLookupDevice b m = jget (er_reverseDevice m) b"

definition backendIdOfDevice :: "device_id \<Rightarrow> entity_registry \<Rightarrow> string option" where
  "backendIdOfDevice d m = jget (er_deviceBackendId m) d"

definition isKnownBackendId :: "string \<Rightarrow> entity_registry \<Rightarrow> bool" where
  "isKnownBackendId b m = (jget (er_reverse m) b \<noteq> None \<or> jget (er_reverseDevice m) b \<noteq> None)"

definition key_of_device :: "device_id \<Rightarrow> string \<Rightarrow> bool" where
  "key_of_device d k = (take (length d + 1) k = d @ '':'')"

text \<open>The loop of \<^verbatim>\<open>unmapDevice\<close> runs over a copy of the entries.\<close>

definition drop_entry :: "device_id \<Rightarrow> string \<times> backend_entity_ref \<Rightarrow> entity_registry \<Rightarrow> entity_registry" where
  "drop_entry d = (\<lambda>(k, r) m.
     if key_of_device d k
     then m\<lparr>er_forward := jdel k (er_forward m), er_reverse := jdel (br_backendId r) (er_reverse m)\<rparr> else m)"

definition unmapDevice :: "device_id \<Rightarrow> entity_registry \<Rightarrow> entity_registry" where
  "unmapDevice d m =
     (let m1 = fold (drop_entry d) (er_forward m) m
      in case jget (er_deviceBackendId m1) d of
           None \<Rightarrow> m1
         | Some b \<Rightarrow> m1\<lparr>er_deviceBackendId := jdel d (er_deviceBackendId m1),
                       er_reverseDevice := jdel b (er_reverseDevice m1)\<rparr>)"

definition er_clear :: "entity_registry \<Rightarrow> entity_registry" where
  "er_clear m = new_entity_registry"

definition er_size :: "entity_registry \<Rightarrow> nat" where
  "er_size m = length (er_forward m)"

definition domains :: "entity_registry \<Rightarrow> string list" where
  "domains m = sort (remdups (map br_backendDomain (jvalues (er_forward m))))"

definition domainOf :: "device_id \<Rightarrow> capability_kind \<Rightarrow> entity_registry \<Rightarrow> string option" where
  "domainOf d c m = map_option br_backendDomain (jget (er_forward m) (device_key d c))"

fun add_new :: "'a list \<Rightarrow> 'a list \<Rightarrow> 'a list" where
  "add_new acc [] = acc"
| "add_new acc (x # xs) = add_new (if x \<in> set acc then acc else acc @ [x]) xs"

definition devicesInDomain :: "string \<Rightarrow> entity_registry \<Rightarrow> device_id list" where
  "devicesInDomain domn m =
     add_new [] (map (\<lambda>(k, r). hd (js_split (CHR '':'') k)) (filter (\<lambda>(k, r). br_backendDomain r = domn) (er_forward m)))"

definition capabilitiesOf :: "device_id \<Rightarrow> string \<Rightarrow> entity_registry \<Rightarrow> string list" where
  "capabilitiesOf d domn m =
     map (\<lambda>(k, r). js_split (CHR '':'') k ! 1)
       (filter (\<lambda>(k, r). hd (js_split (CHR '':'') k) = d \<and> br_backendDomain r = domn) (er_forward m))"

section \<open>The two directions\<close>

text \<open>
  Callers map a backend entity for one device only (discovery asks \<^verbatim>\<open>isKnownBackendId\<close> before it offers one), and a
  capability that is mapped keeps its entity. Several capabilities of a device may share an entity, a light's switch, level and
  colour do; the reverse table then holds the one mapped last. Under that discipline the two tables agree on the device.
\<close>

definition plain_id :: "device_id \<Rightarrow> bool" where
  "plain_id d \<longleftrightarrow> CHR '':'' \<notin> set d"

definition may_map :: "device_id \<Rightarrow> capability_kind \<Rightarrow> backend_entity_ref \<Rightarrow> entity_registry \<Rightarrow> bool" where
  "may_map d c r m \<longleftrightarrow> plain_id d \<and> (\<forall>e c'. reverseLookup (br_backendId r) m = Some (e, c') \<longrightarrow> e = d) \<and>
     (er_resolve d c m = None \<or> map_option br_backendId (er_resolve d c m) = Some (br_backendId r))"

inductive registry_step :: "entity_registry \<Rightarrow> entity_registry \<Rightarrow> bool" where
  map: "may_map d c r m \<Longrightarrow> registry_step m (er_map d c r m)"
| device: "registry_step m (mapDevice d b m)"
| unmap: "plain_id d \<Longrightarrow> registry_step m (unmapDevice d m)"
| clear: "registry_step m (er_clear m)"

inductive registry_reachable :: "entity_registry \<Rightarrow> bool" where
  new: "registry_reachable new_entity_registry"
| step: "registry_reachable m \<Longrightarrow> registry_step m m' \<Longrightarrow> registry_reachable m'"

definition registry_inv :: "entity_registry \<Rightarrow> bool" where
  "registry_inv m \<longleftrightarrow> jwf (er_forward m) \<and>
     (\<forall>k r. jget (er_forward m) k = Some r \<longrightarrow>
        (\<exists>d c c'. plain_id d \<and> k = device_key d c \<and> jget (er_reverse m) (br_backendId r) = Some (d, c'))) \<and>
     (\<forall>b d c. jget (er_reverse m) b = Some (d, c) \<longrightarrow>
        plain_id d \<and> (\<exists>r. jget (er_forward m) (device_key d c) = Some r \<and> br_backendId r = b))"

lemma key_of_device_iff: "plain_id d \<Longrightarrow> plain_id e \<Longrightarrow> key_of_device d (device_key e c) \<longleftrightarrow> d = e"
proof -
  assume p: "plain_id d" "plain_id e"
  have *: "takeWhile (\<lambda>x. x \<noteq> CHR '':'') (d @ '':'' @ xs) = d" if "plain_id d" for d xs
    using that by (induction d) (auto simp: plain_id_def)
  have "key_of_device d (device_key e c) \<Longrightarrow> d = e"
  proof -
    assume "key_of_device d (device_key e c)"
    then have "d @ '':'' @ drop (length d + 1) (device_key e c) = e @ '':'' @ kind_name c"
      unfolding key_of_device_def by (metis append.assoc append_take_drop_id device_key_def)
    then show "d = e" using * [OF p(1)] * [OF p(2)] by metis
  qed
  then show ?thesis by (auto simp: key_of_device_def device_key_def)
qed

lemma registry_forward:
  "registry_inv m \<Longrightarrow> jget (er_forward m) k = Some r \<Longrightarrow>
     \<exists>d c c'. plain_id d \<and> k = device_key d c \<and> jget (er_reverse m) (br_backendId r) = Some (d, c')"
  by (simp add: registry_inv_def)

lemma registry_reverse:
  "registry_inv m \<Longrightarrow> jget (er_reverse m) b = Some (d, c) \<Longrightarrow>
     plain_id d \<and> (\<exists>r. jget (er_forward m) (device_key d c) = Some r \<and> br_backendId r = b)"
  by (simp add: registry_inv_def)

lemma map_inv:
  assumes inv: "registry_inv m" and may: "may_map d c r m"
  shows "registry_inv (er_map d c r m)"
  unfolding registry_inv_def
proof (intro conjI allI impI)
  have p: "plain_id d" and own: "\<And>e c'. jget (er_reverse m) (br_backendId r) = Some (e, c') \<Longrightarrow> e = d"
    and old: "\<And>r'. jget (er_forward m) (device_key d c) = Some r' \<Longrightarrow> br_backendId r' = br_backendId r"
    using may by (auto simp: may_map_def reverseLookup_def er_resolve_def)
  show "jwf (er_forward (er_map d c r m))" using inv by (simp add: registry_inv_def er_map_def)
  show "\<exists>d' c' c''. plain_id d' \<and> k = device_key d' c' \<and> jget (er_reverse (er_map d c r m)) (br_backendId s) = Some (d', c'')"
    if "jget (er_forward (er_map d c r m)) k = Some s" for k s
  proof (cases "k = device_key d c")
    case True
    with that p show ?thesis by (auto simp: er_map_def)
  next
    case False
    with that have s: "jget (er_forward m) k = Some s" by (simp add: er_map_def)
    from registry_forward [OF inv s] obtain d' c' c'' where
      d': "plain_id d'" "k = device_key d' c'" "jget (er_reverse m) (br_backendId s) = Some (d', c'')" by blast
    with own [of d' c''] show ?thesis by (auto simp: er_map_def)
  qed
  show "plain_id d'" if "jget (er_reverse (er_map d c r m)) b = Some (d', c')" for b d' c'
    using that p registry_reverse [OF inv] by (auto simp: er_map_def split: if_splits)
  show "\<exists>s. jget (er_forward (er_map d c r m)) (device_key d' c') = Some s \<and> br_backendId s = b"
    if "jget (er_reverse (er_map d c r m)) b = Some (d', c')" for b d' c'
  proof (cases "b = br_backendId r")
    case False
    with that have "jget (er_reverse m) b = Some (d', c')" by (simp add: er_map_def)
    with registry_reverse [OF inv] obtain s where s: "jget (er_forward m) (device_key d' c') = Some s" "br_backendId s = b"
      by blast
    with False old have "device_key d' c' \<noteq> device_key d c" by metis
    with s show ?thesis by (auto simp: er_map_def)
  qed (use that in \<open>auto simp: er_map_def\<close>)
qed

lemma drop_entry_fields [simp]:
  "jget (er_forward (drop_entry d x m)) k = (if key_of_device d (fst x) \<and> k = fst x then None else jget (er_forward m) k)"
  "jget (er_reverse (drop_entry d x m)) b =
     (if key_of_device d (fst x) \<and> b = br_backendId (snd x) then None else jget (er_reverse m) b)"
  "jwf (er_forward m) \<Longrightarrow> jwf (er_forward (drop_entry d x m))"
  "er_deviceBackendId (drop_entry d x m) = er_deviceBackendId m"
  "er_reverseDevice (drop_entry d x m) = er_reverseDevice m"
  by (simp_all add: drop_entry_def case_prod_unfold)

lemma fold_drop:
  "jget (er_forward (fold (drop_entry d) es m)) k =
     (if key_of_device d k \<and> k \<in> fst ` set es then None else jget (er_forward m) k)"
  "jget (er_reverse (fold (drop_entry d) es m)) b =
     (if \<exists>x\<in>set es. key_of_device d (fst x) \<and> br_backendId (snd x) = b then None else jget (er_reverse m) b)"
  "jwf (er_forward m) \<Longrightarrow> jwf (er_forward (fold (drop_entry d) es m))"
  "er_deviceBackendId (fold (drop_entry d) es m) = er_deviceBackendId m"
  "er_reverseDevice (fold (drop_entry d) es m) = er_reverseDevice m"
  by (induction es arbitrary: m) auto

lemma unmap_forward:
  "jget (er_forward (unmapDevice d m)) k = (if key_of_device d k then None else jget (er_forward m) k)"
proof -
  have "jget (er_forward (unmapDevice d m)) k = jget (er_forward (fold (drop_entry d) (er_forward m) m)) k"
    by (simp add: unmapDevice_def Let_def split: option.split)
  then show ?thesis by (simp add: fold_drop(1) map_of_eq_None_iff [symmetric])
qed

lemma unmap_reverse:
  "jget (er_reverse (unmapDevice d m)) b =
     (if \<exists>x\<in>set (er_forward m). key_of_device d (fst x) \<and> br_backendId (snd x) = b then None else jget (er_reverse m) b)"
proof -
  have "er_reverse (unmapDevice d m) = er_reverse (fold (drop_entry d) (er_forward m) m)"
    by (simp add: unmapDevice_def Let_def split: option.split)
  then show ?thesis by (simp only: fold_drop(2))
qed

lemma unmap_jwf: "jwf (er_forward m) \<Longrightarrow> jwf (er_forward (unmapDevice d m))"
  by (simp add: unmapDevice_def Let_def fold_drop(3) split: option.split)

lemma unmap_inv:
  assumes "registry_inv m" "plain_id d"
  shows "registry_inv (unmapDevice d m)"
  unfolding registry_inv_def
proof (intro conjI allI impI)
  have w: "jwf (er_forward m)" using assms(1) by (simp add: registry_inv_def)
  then show "jwf (er_forward (unmapDevice d m))" by (rule unmap_jwf)
  have mem: "(k, r) \<in> set (er_forward m) \<longleftrightarrow> jget (er_forward m) k = Some r" for k r
    using w by (simp add: jwf_def)
  show "\<exists>d' c c'. plain_id d' \<and> k = device_key d' c \<and> jget (er_reverse (unmapDevice d m)) (br_backendId r) = Some (d', c')"
    if "jget (er_forward (unmapDevice d m)) k = Some r" for k r
  proof -
    from that have k: "\<not> key_of_device d k" "jget (er_forward m) k = Some r"
      by (auto simp: unmap_forward split: if_splits)
    from registry_forward [OF assms(1) k(2)] obtain d' c c' where
      d': "plain_id d'" "k = device_key d' c" "jget (er_reverse m) (br_backendId r) = Some (d', c')" by blast
    have "\<not> key_of_device d k'" if "(k', r') \<in> set (er_forward m)" "br_backendId r' = br_backendId r" for k' r'
      using registry_forward [OF assms(1), of k' r'] that d' k(1) mem by (auto simp: key_of_device_iff assms(2))
    with d' show ?thesis by (auto simp: unmap_reverse)
  qed
  show "plain_id d'" if "jget (er_reverse (unmapDevice d m)) b = Some (d', c)" for b d' c
    using that assms(1) by (auto simp: unmap_reverse registry_inv_def split: if_splits)
  show "\<exists>r. jget (er_forward (unmapDevice d m)) (device_key d' c) = Some r \<and> br_backendId r = b"
    if "jget (er_reverse (unmapDevice d m)) b = Some (d', c)" for b d' c
  proof -
    from that have n: "\<not> (\<exists>x\<in>set (er_forward m). key_of_device d (fst x) \<and> br_backendId (snd x) = b)"
        and b: "jget (er_reverse m) b = Some (d', c)"
      by (auto simp: unmap_reverse split: if_splits)
    from registry_reverse [OF assms(1) b] obtain r where r: "jget (er_forward m) (device_key d' c) = Some r" "br_backendId r = b"
      by blast
    with n mem have "\<not> key_of_device d (device_key d' c)" by fastforce
    with r show ?thesis by (auto simp: unmap_forward)
  qed
qed

lemma reachable_registry: "registry_reachable m \<Longrightarrow> registry_inv m"
proof (induction rule: registry_reachable.induct)
  case new
  show ?case by (simp add: registry_inv_def new_entity_registry_def)
next
  case (step m m')
  from step(2,3) show ?case
  proof cases
    case (device d b)
    with step(3) show ?thesis by (simp add: registry_inv_def mapDevice_def)
  next
    case clear
    then show ?thesis by (simp add: registry_inv_def er_clear_def new_entity_registry_def)
  qed (use step(3) map_inv unmap_inv in auto)
qed

text \<open>
  As long as callers map an entity for one device only, the two directions agree: a backend id leads to a capability
  that resolves to it, and a capability's entity leads back to its device. Deleting a device removes it from both
  directions and leaves every other device as it was, in both.
\<close>

theorem registry_directions_agree:
  assumes "registry_reachable m" "plain_id d"
  shows "(reverseLookup b m = Some (e, c) \<longrightarrow> (\<exists>r. er_resolve e c m = Some r \<and> br_backendId r = b)) \<and>
     (er_resolve e c m = Some r \<longrightarrow> (\<exists>c'. reverseLookup (br_backendId r) m = Some (e, c'))) \<and>
     er_resolve d c (unmapDevice d m) = None \<and> reverseLookup b (unmapDevice d m) \<noteq> Some (d, c) \<and>
     (e \<noteq> d \<longrightarrow> er_resolve e c (unmapDevice d m) = er_resolve e c m \<and>
        (reverseLookup b (unmapDevice d m) = Some (e, c) \<longleftrightarrow> reverseLookup b m = Some (e, c)))"
proof -
  note i = reachable_registry [OF assms(1)] and u = unmap_inv [OF reachable_registry [OF assms(1)] assms(2)]
  have gone: "jget (er_forward (unmapDevice d m)) (device_key d c) = None"
    using assms(2) by (simp add: unmap_forward key_of_device_iff)
  have "\<not> plain_id e \<Longrightarrow> jget (er_forward m) (device_key e c) = None"
    using registry_forward [OF i] by (metis device_key_inject not_None_eq)
  then have other: "jget (er_forward (unmapDevice d m)) (device_key e c) = jget (er_forward m) (device_key e c)" if "e \<noteq> d"
    using that assms(2) by (cases "plain_id e") (auto simp: unmap_forward key_of_device_iff)
  have owner: "f = d" if "jget (er_reverse m) b = Some (f, c')" "x \<in> set (er_forward m)" "key_of_device d (fst x)"
      "br_backendId (snd x) = b" for x f c'
  proof -
    have "jget (er_forward m) (fst x) = Some (snd x)" using i that(2) by (simp add: registry_inv_def jwf_def)
    from registry_forward [OF i this] that key_of_device_iff [OF assms(2)] show ?thesis by auto
  qed
  have leads: "\<exists>c'. jget (er_reverse m) (br_backendId r) = Some (e, c')" if "jget (er_forward m) (device_key e c) = Some r"
    using registry_forward [OF i that] by auto
  show ?thesis
    unfolding reverseLookup_def er_resolve_def
  proof (intro conjI impI)
    show "jget (er_reverse (unmapDevice d m)) b \<noteq> Some (d, c)" using registry_reverse [OF u] gone by fastforce
    show "jget (er_reverse (unmapDevice d m)) b = Some (e, c) \<longleftrightarrow> jget (er_reverse m) b = Some (e, c)" if "e \<noteq> d"
      using that owner by (auto simp: unmap_reverse)
  qed (use registry_reverse [OF i] leads gone other in auto)
qed

definition demo_ref :: "string \<Rightarrow> backend_entity_ref" where
  "demo_ref b = \<lparr>br_backendId = b, br_backendDomain = ''light'', br_backendAttr = None\<rparr>"

lemma demo_registry_reachable: "registry_reachable (er_map ''d'' CkBrightness (demo_ref ''b'') new_entity_registry)"
proof -
  have "may_map ''d'' CkBrightness (demo_ref ''b'') new_entity_registry"
    by (simp add: may_map_def plain_id_def reverseLookup_def er_resolve_def new_entity_registry_def)
  then show ?thesis by (metis registry_reachable.intros registry_step.map)
qed

theorem registry_directions_agree_witness:
  "er_resolve ''d'' CkBrightness (unmapDevice ''d'' (er_map ''d'' CkBrightness (demo_ref ''b'') new_entity_registry)) = None"
  using registry_directions_agree [OF demo_registry_reachable, of "''d''"] by (simp add: plain_id_def)

text \<open>
  Mapping a capability again to another backend entity never lets go of the first: its reverse entry stays, also after
  the device is deleted, so the entity goes on counting as known and is never offered by discovery again.
\<close>

theorem remapped_backend_never_released:
  assumes "plain_id d" "br_backendId r \<noteq> br_backendId r'" "er_forward m = []"
  shows "reverseLookup (br_backendId r) (unmapDevice d (er_map d c r' (er_map d c r m))) = Some (d, c) \<and>
     isKnownBackendId (br_backendId r) (unmapDevice d (er_map d c r' (er_map d c r m)))"
  using assms by (simp add: reverseLookup_def isKnownBackendId_def unmap_reverse er_map_def)

theorem remapped_backend_never_released_witness:
  "isKnownBackendId ''b'' (unmapDevice ''d'' (er_map ''d'' CkBrightness (demo_ref ''b2'')
     (er_map ''d'' CkBrightness (demo_ref ''b'') new_entity_registry)))"
  using remapped_backend_never_released [of "''d''" "demo_ref ''b''" "demo_ref ''b2''" new_entity_registry CkBrightness]
  by (simp add: plain_id_def demo_ref_def new_entity_registry_def)

end
