(* ===== verification/Integration_Layer.thy ===== *)
theory Integration_Layer
  imports Driver_Binding Entity_Registry
begin

text \<open>
  The integration layer's facade, \<^verbatim>\<open>services/integration-layer/src/sil.ts\<close>, over the provider router, as the hub
  builds it, with the domain status of \<^verbatim>\<open>migration.ts\<close>. The facade's pass-throughs to the driver (artwork, AVR inputs, traces,
  discovery, keypad feedback) are left out.
\<close>

section \<open>The migration policy\<close>

text \<open>
  Domains with an engine, and the persisted ones when a store is configured. \<^verbatim>\<open>EngineKind\<close> has one value, so a domain's presence
  is its engine; a failing write to the store is swallowed.
\<close>

record migration_policy =
  mp_engines :: "string list"
  mp_store :: "string list option"

definition new_policy :: "string list \<Rightarrow> string list option \<Rightarrow> migration_policy" where
  "new_policy initial store = \<lparr>mp_engines = remdups initial, mp_store = store\<rparr>"

definition mp_add :: "string \<Rightarrow> string list \<Rightarrow> string list" where
  "mp_add x xs = (if x \<in> set xs then xs else xs @ [x])"

definition mp_hydrate :: "migration_policy \<Rightarrow> migration_policy" where
  "mp_hydrate p = (case mp_store p of None \<Rightarrow> p | Some ds \<Rightarrow> p\<lparr>mp_engines := fold mp_add ds (mp_engines p)\<rparr>)"

definition mp_register :: "string \<Rightarrow> migration_policy \<Rightarrow> migration_policy" where
  "mp_register x p = p\<lparr>mp_engines := mp_add x (mp_engines p)\<rparr>"

definition setEngine :: "string \<Rightarrow> bool \<Rightarrow> migration_policy \<Rightarrow> migration_policy" where
  "setEngine x written p = p\<lparr>mp_engines := mp_add x (mp_engines p),
     mp_store := (if written then map_option (mp_add x) (mp_store p) else mp_store p)\<rparr>"

text \<open>\<^verbatim>\<open>localeCompare\<close> of two domains is taken as the order of their characters.\<close>

definition mp_status :: "migration_policy \<Rightarrow> string list" where
  "mp_status p = sort (mp_engines p)"

definition fullyMigrated :: "migration_policy \<Rightarrow> bool" where
  "fullyMigrated p = (mp_engines p \<noteq> [])"

section \<open>The facade\<close>

record 'h sil =
  si_registry :: entity_registry
  si_policy :: migration_policy
  si_router :: "provider_registry \<times> native_adapter \<times> 'h"

definition isHealthy :: "'h sil \<Rightarrow> bool" where
  "isHealthy s = na_connected (fst (snd (si_router s)))"

definition on_router :: "(provider_registry \<times> native_adapter \<times> 'h, 'a) eff \<Rightarrow> ('h sil, 'a) eff" where
  "on_router f = (\<lambda>s. let (r, t) = f (si_router s) in (r, s\<lparr>si_router := t\<rparr>))"

definition migrationStatus :: "'h sil \<Rightarrow> string list \<times> 'h sil" where
  "migrationStatus s = (let p = fold mp_register (domains (si_registry s)) (si_policy s) in (mp_status p, s\<lparr>si_policy := p\<rparr>))"

definition bindNative :: "'h driver_ops \<Rightarrow> protocol_binding \<Rightarrow> string \<Rightarrow> (nat \<Rightarrow> timestamp) \<Rightarrow> ('h sil, unit) eff" where
  "bindNative ops b provider now = on_router (engine_bind (na_bind ops) b provider now)"

definition rebindNative :: "'h driver_ops \<Rightarrow> protocol_binding \<Rightarrow> string \<Rightarrow> (nat \<Rightarrow> timestamp) \<Rightarrow> ('h sil, unit) eff" where
  "rebindNative ops b provider now = on_router (engine_rebind (na_bind ops) (Some (na_unbindDevice ops)) b provider now)"

definition mapEntity :: "device_id \<Rightarrow> capability_kind \<Rightarrow> backend_entity_ref \<Rightarrow> 'h sil \<Rightarrow> 'h sil" where
  "mapEntity d c r s = s\<lparr>si_registry := er_map d c r (si_registry s)\<rparr>"

definition mapDeviceEntity :: "device_id \<Rightarrow> string \<Rightarrow> 'h sil \<Rightarrow> 'h sil" where
  "mapDeviceEntity d b s = s\<lparr>si_registry := mapDevice d b (si_registry s)\<rparr>"

definition sil_unmapDevice :: "'h driver_ops \<Rightarrow> device_id \<Rightarrow> timestamp \<Rightarrow> ('h sil, unit) eff" where
  "sil_unmapDevice ops d now =
     eff_bind (on_router (router_unbindDevice (Some (na_unbindDevice ops)) d now))
       (\<lambda>_ s. (Inr (), s\<lparr>si_registry := unmapDevice d (si_registry s)\<rparr>))"

definition sil_command :: "'h driver_ops \<Rightarrow> device_id \<Rightarrow> capability_command \<Rightarrow> ('h sil, unit) eff" where
  "sil_command ops d c = (\<lambda>s.
     if command_kind c \<in> set READONLY_CAPABILITIES
     then (Inl (SupremeError Validation_failed (''capability '' @ kind_name (command_kind c) @ '' is read-only'')), s)
     else if \<not> isHealthy s
     then (Inl (SupremeError Backend_unavailable ''integration backend is not connected''), s)
     else on_router (router_command ops d c) s)"

definition sil_getState :: "'h driver_ops \<Rightarrow> device_id \<Rightarrow> capability_kind \<Rightarrow> 'h sil \<Rightarrow> capability_state option" where
  "sil_getState ops d k s = router_getState ops d k (si_router s)"

text \<open>The loop of \<^verbatim>\<open>migrateDomain\<close>: devices already native are skipped, the others released and assigned.\<close>

fun migrate_devices :: "'h driver_ops \<Rightarrow> timestamp \<Rightarrow> device_id list \<Rightarrow> nat \<Rightarrow>
    (provider_registry \<times> native_adapter \<times> 'h, nat) eff" where
  "migrate_devices ops now [] n = eff_return n"
| "migrate_devices ops now (d # ds) n = (\<lambda>(reg, s).
     let assign = (\<lambda>_ (reg', s'). migrate_devices ops now ds (n + 1) (reg_assign d ''supreme-native'' now reg', s'))
     in case reg_get d reg of
          None \<Rightarrow> assign () (reg, s)
        | Some r \<Rightarrow>
            (if pr_provider r = ''supreme-native'' then migrate_devices ops now ds n (reg, s)
             else eff_bind (router_unbindDevice (Some (na_unbindDevice ops)) d now) assign (reg, s)))"

definition migrateDomain :: "'h driver_ops \<Rightarrow> timestamp \<Rightarrow> string \<Rightarrow> bool \<Rightarrow> ('h sil, nat) eff" where
  "migrateDomain ops now domain written = (\<lambda>s.
     let s1 = s\<lparr>si_policy := setEngine domain written (si_policy s)\<rparr>
     in on_router (migrate_devices ops now (devicesInDomain domain (si_registry s1)) 0) s1)"

section \<open>Deleting a device\<close>

lemma unbindDevice_removes:
  "router_unbindDevice hunbind d now t = (Inr (), t') \<Longrightarrow> reg_get d (fst t') = None"
  by (auto simp: router_unbindDevice_def eff_bind_def split: prod.splits sum.splits)

text \<open>
  Deleting a device leaves nothing to command it by: when it succeeds, the device has no provider record and no entity in
  either direction of the registry, every later command to it fails as unavailable and every read is empty. When
  its driver fails to let go, the call fails and the registry keeps every entry.
\<close>

theorem unmap_leaves_no_trace:
  assumes "sil_unmapDevice ops d now s = (res, s')" "registry_reachable (si_registry s)" "plain_id d"
  shows "(res = Inr () \<longrightarrow>
      er_resolve d k (si_registry s') = None \<and> reverseLookup b (si_registry s') \<noteq> Some (d, k) \<and>
      sil_getState ops d k s' = None \<and> (\<exists>m. sil_command ops d c s' = (Inl (SupremeError Backend_unavailable m), s'))) \<and>
    (res \<noteq> Inr () \<longrightarrow> si_registry s' = si_registry s)"
proof (cases "fst (router_unbindDevice (Some (na_unbindDevice ops)) d now (si_router s))")
  case (Inl e)
  with assms(1) show ?thesis
    by (auto simp: sil_unmapDevice_def on_router_def eff_bind_def split: prod.splits)
next
  case (Inr u)
  then obtain t where t: "router_unbindDevice (Some (na_unbindDevice ops)) d now (si_router s) = (Inr (), t)"
    by (cases "router_unbindDevice (Some (na_unbindDevice ops)) d now (si_router s)") simp
  with assms(1) have s': "res = Inr ()" "s' = s\<lparr>si_router := t, si_registry := unmapDevice d (si_registry s)\<rparr>"
    by (simp_all add: sil_unmapDevice_def on_router_def eff_bind_def)
  obtain reg h where th: "t = (reg, h)" by (cases t)
  with unbindDevice_removes [OF t] have none: "reg_get d reg = None" by simp
  have inv: "registry_inv (unmapDevice d (si_registry s))"
    using unmap_inv [OF reachable_registry [OF assms(2)] assms(3)] .
  have res: "jget (er_forward (unmapDevice d (si_registry s))) (device_key d k) = None"
    using assms(3) by (simp add: unmap_forward key_of_device_iff)
  moreover have "jget (er_reverse (unmapDevice d (si_registry s))) b \<noteq> Some (d, k)"
    using registry_reverse [OF inv] res by fastforce
  moreover have "\<exists>m. sil_command ops d c s' = (Inl (SupremeError Backend_unavailable m), s')"
    using none s'(2) th command_kind_commandable [of c]
    by (simp add: sil_command_def on_router_def router_command_def assertCommandable_def)
  ultimately show ?thesis
    using none s' th by (simp add: er_resolve_def reverseLookup_def sil_getState_def router_getState_def)
qed

definition demo_sil :: "unit sil" where
  "demo_sil = \<lparr>si_registry = er_map ''d'' CkBrightness (demo_ref ''b'') new_entity_registry,
     si_policy = new_policy [] None,
     si_router = (reg_assign ''d'' ''knx'' 1 (new_registry None), (new_native [] False)\<lparr>na_connected := True\<rparr>, ())\<rparr>"

definition demo_quiet_ops :: "unit driver_ops" where
  "demo_quiet_ops = \<lparr>dr_connect = (\<lambda>_ h. (Inr (), h)), dr_disconnect = (\<lambda>_ h. (Inr (), h)), dr_isConnected = (\<lambda>_ _. True),
     dr_bind = (\<lambda>_ _ h. (Inr (), h)), dr_unbind = (\<lambda>_. None), dr_command = (\<lambda>_ _ _ h. (Inr (), h)),
     dr_getState = (\<lambda>_ _ _ _. None)\<rparr>"

lemma demo_unmap_returns: "sil_unmapDevice demo_quiet_ops ''d'' 2 demo_sil = (Inr (), snd (sil_unmapDevice demo_quiet_ops ''d'' 2 demo_sil))"
  by (simp add: sil_unmapDevice_def on_router_def eff_bind_def router_unbindDevice_def engine_unbind_def demo_sil_def
      reg_assign_def)

theorem unmap_leaves_no_trace_witness:
  "\<exists>m. sil_command demo_quiet_ops ''d'' (CmdBrightness BrOn None None) (snd (sil_unmapDevice demo_quiet_ops ''d'' 2 demo_sil))
     = (Inl (SupremeError Backend_unavailable m), snd (sil_unmapDevice demo_quiet_ops ''d'' 2 demo_sil))"
  using unmap_leaves_no_trace [OF demo_unmap_returns] demo_registry_reachable by (simp add: demo_sil_def plain_id_def)

section \<open>Migrating a domain\<close>

lemma unbindDevice_frame:
  assumes "reg_ok reg" "router_unbindDevice hunbind d now (reg, s) = (Inr (), (reg', s'))"
  shows "reg_ok reg' \<and> (\<forall>d'. reg_get d' reg' = (if d' = d then None else reg_get d' reg))"
proof -
  obtain reg1 where "engine_unbind hunbind d now (reg, s) = (Inr (), (reg1, s'))" "reg' = reg_remove d reg1"
    using assms(2) by (auto simp: router_unbindDevice_def eff_bind_def split: prod.splits sum.splits)
  moreover from this(1) have "reg_ok reg1 \<and> (\<forall>d'. d' \<noteq> d \<longrightarrow> reg_get d' reg1 = reg_get d' reg)"
    using assms(1) reg_ok_get [OF assms(1)]
    by (auto simp: engine_unbind_def eff_bind_def on_reg_def on_host_def reg_transition_def reg_ok_put
        split: option.splits if_splits prod.splits sum.splits)
  ultimately show ?thesis by (simp add: reg_ok_remove)
qed

lemma migrate_devices_spec:
  assumes "migrate_devices ops now ds n (reg, s) = (Inr m, (reg', s'))" "reg_ok reg" "distinct ds"
  shows "(\<forall>d\<in>set ds. provider_at d reg' = Some ''supreme-native'') \<and>
    (\<forall>d. d \<notin> set ds \<longrightarrow> reg_get d reg' = reg_get d reg) \<and>
    m = n + length (filter (\<lambda>d. provider_at d reg \<noteq> Some ''supreme-native'') ds)"
  using assms
proof (induction ds arbitrary: n reg s)
  case (Cons d ds)
  have assigned: ?case
    if go: "migrate_devices ops now ds (n + 1) (reg_assign d ''supreme-native'' now reg1, s1) = (Inr m, (reg', s'))"
      and ok: "reg_ok reg1" and fr: "\<forall>d'. d' \<noteq> d \<longrightarrow> reg_get d' reg1 = reg_get d' reg"
      and np: "provider_at d reg \<noteq> Some ''supreme-native''" for reg1 s1
  proof -
    have g: "reg_get d' (reg_assign d ''supreme-native'' now reg1) = reg_get d' reg" if "d' \<noteq> d" for d'
      using that fr by (simp add: reg_assign_def)
    have "filter (\<lambda>d'. provider_at d' (reg_assign d ''supreme-native'' now reg1) \<noteq> Some ''supreme-native'') ds
        = filter (\<lambda>d'. provider_at d' reg \<noteq> Some ''supreme-native'') ds"
    proof (intro filter_cong refl)
      fix d' assume "d' \<in> set ds"
      with Cons.prems(3) have "d' \<noteq> d" by auto
      from g [OF this] show "(provider_at d' (reg_assign d ''supreme-native'' now reg1) \<noteq> Some ''supreme-native'')
          = (provider_at d' reg \<noteq> Some ''supreme-native'')" by (simp only: provider_at_def)
    qed
    moreover have "provider_at d reg' = Some ''supreme-native''"
      using Cons.IH [OF go reg_ok_assign [OF ok]] Cons.prems(3) state_at_assign(2) [of d d]
      by (simp add: provider_at_def)
    ultimately show ?thesis
      using Cons.IH [OF go reg_ok_assign [OF ok]] Cons.prems(3) g np by auto
  qed
  show ?case
  proof (cases "reg_get d reg")
    case None
    with Cons.prems(1) assigned [of reg s] Cons.prems(2) show ?thesis by (simp add: provider_at_def Let_def)
  next
    case (Some rc)
    show ?thesis
    proof (cases "pr_provider rc = ''supreme-native''")
      case True
      with Some Cons.prems(1) have go: "migrate_devices ops now ds n (reg, s) = (Inr m, (reg', s'))" by (simp add: Let_def)
      with Cons.IH [OF go Cons.prems(2)] Cons.prems(3) Some True show ?thesis by (auto simp: provider_at_def)
    next
      case False
      with Some Cons.prems(1) obtain reg1 s1 where
        u: "router_unbindDevice (Some (na_unbindDevice ops)) d now (reg, s) = (Inr (), (reg1, s1))"
        and go: "migrate_devices ops now ds (n + 1) (reg_assign d ''supreme-native'' now reg1, s1) = (Inr m, (reg', s'))"
        by (auto simp: Let_def eff_bind_def split: prod.splits sum.splits)
      from assigned [OF go] unbindDevice_frame [OF Cons.prems(2) u] Some False show ?thesis
        by (simp add: provider_at_def)
    qed
  qed
qed (simp add: eff_return_def)

text \<open>
  Migrating a domain, when it returns, leaves every device of the domain assigned to the native provider and no other device's
  record touched, and answers how many were not native before.
\<close>

theorem migrateDomain_assigns:
  assumes "migrateDomain ops now domain w s = (Inr m, s')" "reg_ok (fst (si_router s))"
  shows "let ds = devicesInDomain domain (si_registry s); reg = fst (si_router s); reg' = fst (si_router s') in
    (\<forall>d\<in>set ds. provider_at d reg' = Some ''supreme-native'') \<and>
    (\<forall>d. d \<notin> set ds \<longrightarrow> reg_get d reg' = reg_get d reg) \<and>
    m = length (filter (\<lambda>d. provider_at d reg \<noteq> Some ''supreme-native'') ds)"
proof -
  have dist: "distinct acc \<Longrightarrow> distinct (add_new acc xs)" for acc xs :: "string list"
    by (induction acc xs rule: add_new.induct) simp_all
  obtain reg u where r: "si_router s = (reg, u)" by (cases "si_router s")
  obtain reg' u' where r': "si_router s' = (reg', u')" by (cases "si_router s'")
  have "migrate_devices ops now (devicesInDomain domain (si_registry s)) 0 (reg, u) = (Inr m, (reg', u'))"
    using assms(1) r r' by (auto simp: migrateDomain_def Let_def on_router_def split: prod.splits)
  from migrate_devices_spec [OF this] assms(2) dist [of "[]"] r r' show ?thesis
    by (simp add: devicesInDomain_def Let_def)
qed

lemma demo_migrated: "migrateDomain demo_quiet_ops 3 ''light'' True demo_sil
     = (Inr 1, snd (migrateDomain demo_quiet_ops 3 ''light'' True demo_sil))"
  by (simp add: migrateDomain_def on_router_def demo_sil_def devicesInDomain_def er_map_def new_entity_registry_def demo_ref_def
      device_key_def eff_bind_def router_unbindDevice_def engine_unbind_def reg_assign_def)

theorem migrateDomain_assigns_witness:
  "provider_at ''d'' (fst (si_router (snd (migrateDomain demo_quiet_ops 3 ''light'' True demo_sil)))) = Some ''supreme-native''"
proof -
  have "reg_ok (fst (si_router demo_sil))"
    by (simp add: demo_sil_def reg_ok_assign new_registry_ok)
  moreover have "devicesInDomain ''light'' (si_registry demo_sil) = [''d'']"
    by (simp add: demo_sil_def devicesInDomain_def er_map_def new_entity_registry_def demo_ref_def device_key_def)
  ultimately show ?thesis using migrateDomain_assigns [OF demo_migrated] by (simp add: Let_def)
qed

end
