(* ===== verification/Security_Panel.thy ===== *)
theory Security_Panel
  imports Domain_Model "HOL-Library.Word"
begin

text \<open>
  The security panel, \<^verbatim>\<open>services/security/src/index.ts\<close>, and the occupancy simulation,
  \<^verbatim>\<open>occupancy.ts\<close>. SHA-256 is an argument of the panel; listeners of a change are the calls recorded in the
  state. The planner's generator works on 32-bit words, and the one floating-point product of the
  planner, the stagger of the \<open>i\<close>-th light, is an argument.
\<close>

section \<open>The panel\<close>

datatype security_mode = Disarmed | Armed_home | Armed_away | Armed_night

record security_state =
  sy_homeId :: home_id
  sy_mode :: security_mode
  sy_triggered :: bool
  sy_lastChangedBy :: "user_id option"
  sy_lastChangedAt :: timestamp

text \<open>\<open>sp_changes\<close> is what \<^verbatim>\<open>onChange\<close> was called with; \<open>sp_store\<close> the persisted panels when a store is configured.\<close>

record security_panel =
  sp_panels :: "(home_id, security_state) jsmap"
  sp_pinHash :: "string option"
  sp_store :: "(home_id, security_state) jsmap option"
  sp_changes :: "(security_state \<times> user_id option) list"

definition new_panel :: "(string \<Rightarrow> string) \<Rightarrow> string option \<Rightarrow> (home_id, security_state) jsmap option \<Rightarrow> security_panel" where
  "new_panel sha pin store = \<lparr>sp_panels = [], sp_pinHash = map_option sha (truthy pin), sp_store = store, sp_changes = []\<rparr>"

definition panel_hydrate :: "home_id \<Rightarrow> security_panel \<Rightarrow> security_panel" where
  "panel_hydrate h p =
     (case sp_store p of None \<Rightarrow> p
      | Some rows \<Rightarrow> (case jget rows h of None \<Rightarrow> p | Some st \<Rightarrow> p\<lparr>sp_panels := jset h st (sp_panels p)\<rparr>))"

definition panel_seed :: "timestamp \<Rightarrow> home_id \<Rightarrow> security_panel \<Rightarrow> security_state \<times> security_panel" where
  "panel_seed now h p =
     (let st = \<lparr>sy_homeId = h, sy_mode = Disarmed, sy_triggered = False, sy_lastChangedBy = None, sy_lastChangedAt = now\<rparr>
      in (st, p\<lparr>sp_panels := jset h st (sp_panels p)\<rparr>))"

definition panel_getState :: "timestamp \<Rightarrow> home_id \<Rightarrow> security_panel \<Rightarrow> security_state \<times> security_panel" where
  "panel_getState now h p = (case jget (sp_panels p) h of Some st \<Rightarrow> (st, p) | None \<Rightarrow> panel_seed now h p)"

text \<open>The argument \<open>written\<close> says whether the write-through to the store succeeds; a failure is swallowed.\<close>

definition panel_transition ::
    "timestamp \<Rightarrow> bool \<Rightarrow> home_id \<Rightarrow> security_mode \<Rightarrow> bool \<Rightarrow> user_id option \<Rightarrow> security_panel \<Rightarrow> security_state \<times> security_panel" where
  "panel_transition now written h mode triggered user p =
     (let st = \<lparr>sy_homeId = h, sy_mode = mode, sy_triggered = triggered, sy_lastChangedBy = user, sy_lastChangedAt = now\<rparr>
      in (st, p\<lparr>sp_panels := jset h st (sp_panels p),
                sp_store := (if written then map_option (jset h st) (sp_store p) else sp_store p),
                sp_changes := sp_changes p @ [(st, user)]\<rparr>))"

definition checkPin :: "(string \<Rightarrow> string) \<Rightarrow> string option \<Rightarrow> security_panel \<Rightarrow> error option" where
  "checkPin sha pin p =
     (case sp_pinHash p of None \<Rightarrow> None
      | Some h \<Rightarrow> if sha (case pin of None \<Rightarrow> [] | Some s \<Rightarrow> s) \<noteq> h
                 then Some (SupremeError Forbidden ''incorrect security PIN'') else None)"

definition arm ::
    "(string \<Rightarrow> string) \<Rightarrow> timestamp \<Rightarrow> bool \<Rightarrow> home_id \<Rightarrow> security_mode \<Rightarrow> user_id option \<Rightarrow> string option \<Rightarrow>
     (security_panel, security_state) eff" where
  "arm sha now written h mode user pin = (\<lambda>p.
     case checkPin sha pin p of
       Some e \<Rightarrow> (Inl e, p)
     | None \<Rightarrow> (let (st, p') = panel_transition now written h mode False user p in (Inr st, p')))"

definition disarm ::
    "(string \<Rightarrow> string) \<Rightarrow> timestamp \<Rightarrow> bool \<Rightarrow> home_id \<Rightarrow> user_id option \<Rightarrow> string option \<Rightarrow>
     (security_panel, security_state) eff" where
  "disarm sha now written h user pin = (\<lambda>p.
     case checkPin sha pin p of
       Some e \<Rightarrow> (Inl e, p)
     | None \<Rightarrow> (let (st, p') = panel_transition now written h Disarmed False user p in (Inr st, p')))"

definition panel_trigger :: "timestamp \<Rightarrow> bool \<Rightarrow> home_id \<Rightarrow> security_panel \<Rightarrow> security_state \<times> security_panel" where
  "panel_trigger now written h p =
     (let (cur, p1) = panel_getState now h p
      in if sy_mode cur = Disarmed \<or> sy_triggered cur then (cur, p1)
         else panel_transition now written h (sy_mode cur) True None p1)"

section \<open>Steps of a panel\<close>

datatype panel_call =
    CallArm home_id security_mode "user_id option" "string option"
  | CallDisarm home_id "user_id option" "string option"
  | CallTrigger home_id
  | CallGet home_id

definition panel_do :: "(string \<Rightarrow> string) \<Rightarrow> timestamp \<Rightarrow> bool \<Rightarrow> panel_call \<Rightarrow> security_panel \<Rightarrow> security_panel" where
  "panel_do sha now written c p =
     (case c of
        CallArm h mode user pin \<Rightarrow> if mode = Disarmed then p else snd (arm sha now written h mode user pin p)
      | CallDisarm h user pin \<Rightarrow> snd (disarm sha now written h user pin p)
      | CallTrigger h \<Rightarrow> snd (panel_trigger now written h p)
      | CallGet h \<Rightarrow> snd (panel_getState now h p))"

text \<open>The PIN a call carries, if any.\<close>

fun given_pin :: "panel_call \<Rightarrow> string option" where
  "given_pin (CallArm h mode user pin) = pin"
| "given_pin (CallDisarm h user pin) = pin"
| "given_pin (CallTrigger h) = None"
| "given_pin (CallGet h) = None"

fun panel_run :: "(string \<Rightarrow> string) \<Rightarrow> (timestamp \<times> bool \<times> panel_call) list \<Rightarrow> security_panel \<Rightarrow> security_panel" where
  "panel_run sha [] p = p"
| "panel_run sha ((now, written, c) # cs) p = panel_run sha cs (panel_do sha now written c p)"

definition panel_ok :: "security_panel \<Rightarrow> bool" where
  "panel_ok p \<longleftrightarrow> (\<forall>h st. jget (sp_panels p) h = Some st \<longrightarrow> sy_homeId st = h \<and> (sy_triggered st \<longrightarrow> sy_mode st \<noteq> Disarmed))"

lemma panel_do_pin [simp]: "sp_pinHash (panel_do sha now w c p) = sp_pinHash p"
  by (cases c) (auto simp: panel_do_def arm_def disarm_def panel_trigger_def panel_getState_def panel_seed_def
      panel_transition_def Let_def split: option.splits)

lemma checkPin_cong: "sp_pinHash p = sp_pinHash q \<Longrightarrow> checkPin sha pin p = checkPin sha pin q"
  by (simp add: checkPin_def)

lemma panel_do_ok:
  assumes "panel_ok p"
  shows "panel_ok (panel_do sha now w c p)"
  using assms
  by (cases c) (auto simp: panel_ok_def panel_do_def arm_def disarm_def panel_trigger_def panel_getState_def panel_seed_def
      panel_transition_def Let_def split: option.splits if_splits)

lemma panel_run_ok: "panel_ok p \<Longrightarrow> panel_ok (panel_run sha cs p)"
  by (induction sha cs p rule: panel_run.induct) (simp_all add: panel_do_ok)

lemma panel_run_pin: "sp_pinHash (panel_run sha cs p) = sp_pinHash p"
  by (induction sha cs p rule: panel_run.induct) simp_all

text \<open>A hash that only the PIN itself has: no other text passes for it, the missing one included.\<close>

lemma wrong_pin_refused:
  assumes "sp_pinHash p = Some (sha pin0)" "pin0 \<noteq> ''''" "\<forall>x. sha x = sha pin0 \<longrightarrow> x = pin0" "pin \<noteq> Some pin0"
  shows "\<exists>e. checkPin sha pin p = Some e"
  using assms by (cases pin) (auto simp: checkPin_def)

text \<open>One call without the PIN keeps the mode, and keeps a raised alarm.\<close>

lemma no_pin_keeps:
  assumes "sp_pinHash p = Some (sha pin0)" "pin0 \<noteq> ''''" "\<forall>x. sha x = sha pin0 \<longrightarrow> x = pin0"
    and "given_pin c \<noteq> Some pin0" "jget (sp_panels p) h = Some st" "sy_mode st \<noteq> Disarmed"
  shows "\<exists>st'. jget (sp_panels (panel_do sha now w c p)) h = Some st' \<and> sy_mode st' = sy_mode st \<and>
     (sy_triggered st \<longrightarrow> st' = st)"
  using assms(4-6) wrong_pin_refused [OF assms(1-3), of "given_pin c"]
  by (cases c) (auto simp: panel_do_def arm_def disarm_def panel_trigger_def panel_getState_def panel_seed_def
      panel_transition_def Let_def split: option.splits if_splits)

lemma no_pin_run:
  assumes "sp_pinHash p = Some (sha pin0)" "pin0 \<noteq> ''''" "\<forall>x. sha x = sha pin0 \<longrightarrow> x = pin0"
    and "\<forall>(now, w, c)\<in>set cs. given_pin c \<noteq> Some pin0" "jget (sp_panels p) h = Some st" "sy_mode st \<noteq> Disarmed"
  shows "\<exists>st'. jget (sp_panels (panel_run sha cs p)) h = Some st' \<and> sy_mode st' = sy_mode st \<and> (sy_triggered st \<longrightarrow> st' = st)"
  using assms(1,4-6)
proof (induction cs arbitrary: p st)
  case (Cons x cs)
  obtain now w c where x: "x = (now, w, c)" by (cases x)
  obtain st1 where st1: "jget (sp_panels (panel_do sha now w c p)) h = Some st1" "sy_mode st1 = sy_mode st"
      "sy_triggered st \<longrightarrow> st1 = st"
    using no_pin_keeps [OF Cons.prems(1) assms(2,3) _ Cons.prems(3,4)] Cons.prems(2) x by fastforce
  with Cons.IH [of "panel_do sha now w c p" st1] Cons.prems x show ?case by auto
qed auto

text \<open>
  C39: An armed home needs the PIN: on a hub started with a PIN, a home that is armed after any calls stays armed in its mode, and a raised
  alarm stays raised as it is, through whatever further calls come, in any order and for any home, as long as none of them carries
  that PIN; a call to disarm with the PIN then succeeds, and a triggered panel is never a disarmed one. It rests on no other text having
  the PIN's hash. A hub started without a PIN takes any call as permitted, and reloading the panel from its store, which after a failed
  write may hold an older mode, is not among the calls.
\<close>

theorem armed_home_needs_pin:
  assumes "pin0 \<noteq> ''''" "\<forall>x. sha x = sha pin0 \<longrightarrow> x = pin0"
    and "p = panel_run sha before (new_panel sha (Some pin0) store)" "jget (sp_panels p) h = Some st" "sy_mode st \<noteq> Disarmed"
    and "\<forall>(now, w, c)\<in>set cs. given_pin c \<noteq> Some pin0"
  shows "(\<exists>st'. jget (sp_panels (panel_run sha cs p)) h = Some st' \<and> sy_mode st' = sy_mode st \<and> (sy_triggered st \<longrightarrow> st' = st)) \<and>
     (\<exists>st' q. disarm sha now w h user (Some pin0) (panel_run sha cs p) = (Inr st', q) \<and> jget (sp_panels q) h = Some st' \<and>
        sy_mode st' = Disarmed) \<and>
     panel_ok (panel_run sha cs p)"
proof -
  have pin: "sp_pinHash p = Some (sha pin0)"
    using assms(1,3) by (simp add: panel_run_pin new_panel_def truthy_def)
  have "panel_ok (new_panel sha (Some pin0) store)" by (simp add: panel_ok_def new_panel_def)
  then have "panel_ok (panel_run sha cs p)" by (simp add: assms(3) panel_run_ok)
  moreover have "checkPin sha (Some pin0) (panel_run sha cs p) = None"
    using pin by (simp add: checkPin_def panel_run_pin)
  ultimately show ?thesis
    using no_pin_run [OF pin assms(1,2,6,4,5)]
    by (simp add: disarm_def panel_transition_def Let_def)
qed

definition demo_panel :: security_panel where
  "demo_panel = new_panel (\<lambda>x. CHR ''#'' # x) (Some ''1234'') None"

theorem armed_home_needs_pin_witness:
  "\<exists>st. jget (sp_panels (panel_run (\<lambda>x. CHR ''#'' # x) [(3, True, CallDisarm ''h'' None (Some ''0000'')), (4, True, CallTrigger ''h'')]
     (panel_run (\<lambda>x. CHR ''#'' # x) [(2, True, CallArm ''h'' Armed_away None (Some ''1234''))] demo_panel))) ''h'' = Some st
     \<and> sy_mode st = Armed_away"
proof -
  let ?sha = "\<lambda>x :: string. CHR ''#'' # x" and ?before = "[(2 :: int, True, CallArm ''h'' Armed_away None (Some ''1234''))]"
  let ?p = "panel_run ?sha ?before demo_panel"
  have p: "?p = panel_run ?sha ?before (new_panel ?sha (Some ''1234'') None)" by (simp add: demo_panel_def)
  obtain st where st: "jget (sp_panels ?p) ''h'' = Some st" "sy_mode st = Armed_away"
    by (simp add: demo_panel_def new_panel_def panel_do_def arm_def checkPin_def truthy_def panel_transition_def Let_def)
  then have "sy_mode st \<noteq> Disarmed" by simp
  from armed_home_needs_pin [where now = 0 and w = True and user = None, OF _ _ p st(1) this, of "[(3, True, CallDisarm ''h'' None (Some ''0000'')), (4, True, CallTrigger ''h'')]"] st(2)
  show ?thesis by auto
qed

section \<open>Restart\<close>

definition mode_at :: "home_id \<Rightarrow> security_panel \<Rightarrow> security_mode \<times> bool" where
  "mode_at h p = (case jget (sp_panels p) h of None \<Rightarrow> (Disarmed, False) | Some st \<Rightarrow> (sy_mode st, sy_triggered st))"

definition row_ok :: "(home_id, security_state) jsmap \<Rightarrow> security_panel \<Rightarrow> home_id \<Rightarrow> bool" where
  "row_ok rows p h \<longleftrightarrow> (case jget rows h of Some st \<Rightarrow> jget (sp_panels p) h = Some st | None \<Rightarrow> mode_at h p = (Disarmed, False))"

definition stored_ok :: "security_panel \<Rightarrow> bool" where
  "stored_ok p \<longleftrightarrow> (\<exists>rows. sp_store p = Some rows \<and> (\<forall>h. row_ok rows p h))"

lemma hydrate_stored:
  assumes "stored_ok p"
  shows "mode_at h (panel_hydrate h (new_panel sha pin (sp_store p))) = mode_at h p"
proof -
  obtain rows where rows: "sp_store p = Some rows" "row_ok rows p h"
    using assms by (auto simp: stored_ok_def)
  then show ?thesis
    by (cases "jget rows h") (simp_all add: row_ok_def panel_hydrate_def new_panel_def mode_at_def)
qed

lemma stored_okI:
  "sp_store p = Some rows \<Longrightarrow> (\<And>h. row_ok rows p h) \<Longrightarrow> stored_ok p"
  by (auto simp: stored_ok_def)

lemma row_ok_jset [simp]:
  "sp_panels q = jset h st (sp_panels p) \<Longrightarrow> row_ok rows p k \<Longrightarrow> row_ok (jset h st rows) q k"
  by (cases "k = h") (simp_all add: row_ok_def mode_at_def split: option.splits)

lemma stored_transition: "stored_ok p \<Longrightarrow> stored_ok (snd (panel_transition now True h m t u p))"
proof -
  assume "stored_ok p"
  then obtain rows where rows: "sp_store p = Some rows" "\<And>h. row_ok rows p h" by (auto simp: stored_ok_def)
  show ?thesis
    by (rule stored_okI [of _ "jset h \<lparr>sy_homeId = h, sy_mode = m, sy_triggered = t, sy_lastChangedBy = u, sy_lastChangedAt = now\<rparr> rows"])
      (use rows in \<open>auto simp: panel_transition_def Let_def intro!: row_ok_jset [where p = p]\<close>)
qed

lemma stored_getState: "stored_ok p \<Longrightarrow> stored_ok (snd (panel_getState now h p))"
proof (cases "jget (sp_panels p) h")
  case None
  assume "stored_ok p"
  then obtain rows where rows: "sp_store p = Some rows" "\<And>h. row_ok rows p h" by (auto simp: stored_ok_def)
  from rows(2) [of h] None have none: "jget rows h = None" by (auto simp: row_ok_def split: option.splits)
  show ?thesis
  proof (rule stored_okI [of _ rows])
    fix k show "row_ok rows (snd (panel_getState now h p)) k"
      using rows(2) [of k] None none
      by (cases "k = h") (auto simp: panel_getState_def panel_seed_def row_ok_def mode_at_def Let_def split: option.splits)
  qed (simp add: rows(1) None panel_getState_def panel_seed_def Let_def)
qed (simp add: panel_getState_def)

lemma panel_do_stored:
  assumes "stored_ok p"
  shows "stored_ok (panel_do sha now True c p)"
proof (cases c)
  case (CallTrigger h)
  then show ?thesis
    using stored_getState [OF assms, of now h] stored_transition
    by (cases "panel_getState now h p") (simp add: panel_do_def panel_trigger_def)
next
  case (CallGet h)
  then show ?thesis using stored_getState [OF assms] by (simp add: panel_do_def)
next
  case (CallArm h mode user pin)
  then show ?thesis using assms stored_transition [OF assms]
    by (simp add: panel_do_def arm_def case_prod_unfold Let_def split: option.split)
next
  case (CallDisarm h user pin)
  then show ?thesis using assms stored_transition [OF assms]
    by (simp add: panel_do_def disarm_def case_prod_unfold Let_def split: option.split)
qed

text \<open>
  A restart changes nothing: when every write reached the store, a fresh panel that hydrates a home is in the
  mode, and has the alarm, that the old panel had, whatever calls came before.
\<close>

theorem panel_survives_restart:
  assumes "\<forall>(now, w, c)\<in>set cs. w"
  shows "mode_at h (panel_hydrate h (new_panel sha pin (sp_store (panel_run sha cs (new_panel sha pin (Some []))))))
     = mode_at h (panel_run sha cs (new_panel sha pin (Some [])))"
proof -
  have "stored_ok p \<Longrightarrow> \<forall>(now, w, c)\<in>set cs. w \<Longrightarrow> stored_ok (panel_run sha cs p)" for p cs
    by (induction sha cs p rule: panel_run.induct) (auto simp: panel_do_stored)
  moreover have "stored_ok (new_panel sha pin (Some []))" by (simp add: stored_ok_def row_ok_def new_panel_def mode_at_def)
  ultimately have "stored_ok (panel_run sha cs (new_panel sha pin (Some [])))" using assms by blast
  then show ?thesis by (rule hydrate_stored)
qed

theorem panel_survives_restart_witness:
  "mode_at ''h'' (panel_hydrate ''h'' (new_panel id None (sp_store (panel_run id
     [(1, True, CallArm ''h'' Armed_night None None), (2, True, CallTrigger ''h'')] (new_panel id None (Some []))))))
     = (Armed_night, True)"
  by (subst panel_survives_restart)
    (simp_all add: mode_at_def panel_do_def arm_def checkPin_def new_panel_def truthy_def panel_transition_def
      panel_trigger_def panel_getState_def Let_def)

section \<open>Occupancy simulation\<close>

unbundle bit_operations_syntax

datatype light_action = LightOn | LightOff

record occupancy_config =
  oc_deviceIds :: "device_id list"
  oc_startMinute :: nat
  oc_endMinute :: nat
  oc_seed :: int
  oc_minOnMinutes :: "nat option"
  oc_maxOnMinutes :: "nat option"

record occupancy_event =
  oe_atMinutes :: nat
  oe_deviceId :: device_id
  oe_action :: light_action

text \<open>The generator: its state, and the word whose quotient by \<open>2 ^ 32\<close> is the number drawn.\<close>

definition mulberry32 :: "32 word \<Rightarrow> 32 word \<times> 32 word" where
  "mulberry32 a0 =
     (let a = a0 + 0x6d2b79f5;
          t1 = (a XOR drop_bit 15 a) * (1 OR a);
          t2 = (t1 + (t1 XOR drop_bit 7 t1) * (61 OR t1)) XOR t1
      in (t2 XOR drop_bit 14 t2, a))"

text \<open>\<^verbatim>\<open>Math.floor(rand() * n)\<close>, exact in double precision for the small \<open>n\<close> of the planner.\<close>

definition rand_below :: "nat \<Rightarrow> 32 word \<Rightarrow> nat \<times> 32 word" where
  "rand_below n a = (let (r, a') = mulberry32 a in (unat r * n div 2 ^ 32, a'))"

fun light_events :: "nat \<Rightarrow> nat \<Rightarrow> nat \<Rightarrow> device_id \<Rightarrow> nat \<Rightarrow> nat \<Rightarrow> 32 word \<Rightarrow> occupancy_event list \<times> 32 word" where
  "light_events minOn maxOn hi d 0 cursor a = ([], a)"
| "light_events minOn maxOn hi d (Suc k) cursor a =
     (if hi \<le> cursor then ([], a)
      else (let (r1, a1) = rand_below 20 a; onAt = cursor + r1
            in if hi \<le> onAt then ([], a1)
               else (let (r2, a2) = rand_below (maxOn - minOn + 1) a1;
                         offAt = min (onAt + (minOn + r2)) hi;
                         (r3, a3) = rand_below 30 a2;
                         (es, a4) = light_events minOn maxOn hi d k (offAt + 10 + r3) a3
                     in (\<lparr>oe_atMinutes = onAt, oe_deviceId = d, oe_action = LightOn\<rparr>
                         # \<lparr>oe_atMinutes = offAt, oe_deviceId = d, oe_action = LightOff\<rparr> # es, a4))))"

definition plan_light :: "(nat \<Rightarrow> nat \<Rightarrow> nat \<Rightarrow> nat) \<Rightarrow> nat \<Rightarrow> nat \<Rightarrow> occupancy_config \<Rightarrow> nat \<Rightarrow> device_id \<Rightarrow> 32 word \<Rightarrow>
    occupancy_event list \<times> 32 word" where
  "plan_light stagger minOn maxOn cfg i d a =
     (let (r, a1) = rand_below 15 a;
          cursor = oc_startMinute cfg + stagger (oc_endMinute cfg - oc_startMinute cfg) (length (oc_deviceIds cfg)) i + r;
          (u, a2) = mulberry32 a1;
          activations = 1 + (if unat u < 2 ^ 31 then 1 else 0)
      in light_events minOn maxOn (oc_endMinute cfg) d activations cursor a2)"

fun plan_lights :: "(nat \<Rightarrow> nat \<Rightarrow> nat \<Rightarrow> nat) \<Rightarrow> nat \<Rightarrow> nat \<Rightarrow> occupancy_config \<Rightarrow> nat \<Rightarrow> device_id list \<Rightarrow> 32 word \<Rightarrow>
    occupancy_event list" where
  "plan_lights stagger minOn maxOn cfg i [] a = []"
| "plan_lights stagger minOn maxOn cfg i (d # ds) a =
     (let (es, a') = plan_light stagger minOn maxOn cfg i d a
      in es @ plan_lights stagger minOn maxOn cfg (Suc i) ds a')"

text \<open>
  The order of the plan: by minute, and within a minute what goes off before what goes on. Two lights that go off in the same minute stay
  in the order of the lights; the comparison of the source puts each before the other, so there the order is up to the sort.
\<close>

definition event_key :: "occupancy_event \<Rightarrow> nat" where
  "event_key e = 2 * oe_atMinutes e + (if oe_action e = LightOff then 0 else 1)"

definition planOccupancy :: "(nat \<Rightarrow> nat \<Rightarrow> nat \<Rightarrow> nat) \<Rightarrow> occupancy_config \<Rightarrow> error + occupancy_event list" where
  "planOccupancy stagger cfg =
     (let minOn = (case oc_minOnMinutes cfg of None \<Rightarrow> 20 | Some n \<Rightarrow> n);
          maxOn = (case oc_maxOnMinutes cfg of None \<Rightarrow> 90 | Some n \<Rightarrow> n)
      in if oc_deviceIds cfg = [] then Inl (PlainError ''occupancy simulation needs at least one light'')
         else if oc_endMinute cfg \<le> oc_startMinute cfg then Inl (PlainError ''endMinute must be after startMinute'')
         else if minOn = 0 \<or> maxOn < minOn then Inl (PlainError ''invalid on-duration bounds'')
         else Inr (sort_key event_key
                (plan_lights stagger minOn maxOn cfg 0 (oc_deviceIds cfg) (word_of_int (oc_seed cfg)))))"

definition occupancyEventsAt :: "occupancy_event list \<Rightarrow> nat \<Rightarrow> occupancy_event list" where
  "occupancyEventsAt plan m = filter (\<lambda>e. oe_atMinutes e = m) plan"

text \<open>Pairs of an on and an off, inside the window and ten minutes apart.\<close>

fun intervals :: "nat \<Rightarrow> nat \<Rightarrow> occupancy_event list \<Rightarrow> bool" where
  "intervals lo hi [] = True"
| "intervals lo hi [e] = False"
| "intervals lo hi (e # f # es) =
     (oe_action e = LightOn \<and> oe_action f = LightOff \<and> lo \<le> oe_atMinutes e \<and> oe_atMinutes e < oe_atMinutes f \<and>
      oe_atMinutes f \<le> hi \<and> intervals (oe_atMinutes f + 10) hi es)"

lemma intervals_mono: "intervals lo hi es \<Longrightarrow> lo' \<le> lo \<Longrightarrow> intervals lo' hi es"
  by (cases "(lo, hi, es)" rule: intervals.cases) auto

lemma light_events_ok:
  assumes "0 < minOn"
  shows "intervals cursor hi (fst (light_events minOn maxOn hi d n cursor a)) \<and>
     (\<forall>e\<in>set (fst (light_events minOn maxOn hi d n cursor a)). oe_deviceId e = d)"
proof (induction n arbitrary: cursor a)
  case (Suc k)
  obtain r1 a1 where r1: "rand_below 20 a = (r1, a1)" by fastforce
  obtain r2 a2 where r2: "rand_below (maxOn - minOn + 1) a1 = (r2, a2)" by fastforce
  obtain r3 a3 where r3: "rand_below 30 a2 = (r3, a3)" by fastforce
  let ?off = "min (cursor + r1 + (minOn + r2)) hi"
  obtain es a4 where es: "light_events minOn maxOn hi d k (?off + 10 + r3) a3 = (es, a4)" by fastforce
  have "intervals (?off + 10) hi es" "\<forall>e\<in>set es. oe_deviceId e = d"
    using Suc [of "?off + 10 + r3" a3] es intervals_mono [of "?off + 10 + r3" hi es "?off + 10"] by auto
  with r1 r2 r3 es assms show ?case by (simp add: Let_def)
qed simp

lemma intervals_sorted:
  "intervals lo hi es \<Longrightarrow> sorted (map event_key es) \<and> (\<forall>e\<in>set es. 2 * lo \<le> event_key e)"
  by (induction lo hi es rule: intervals.induct) (force simp: event_key_def)+

lemma plan_light_ok:
  assumes "0 < minOn"
  shows "intervals (oc_startMinute cfg) (oc_endMinute cfg) (fst (plan_light stagger minOn maxOn cfg i d a)) \<and>
     (\<forall>e\<in>set (fst (plan_light stagger minOn maxOn cfg i d a)). oe_deviceId e = d)"
  unfolding plan_light_def case_prod_unfold Let_def
  using light_events_ok [OF assms] intervals_mono by (meson le_add1 le_trans)

lemma plan_lights_device:
  assumes "0 < minOn" "distinct ds"
  shows "intervals (oc_startMinute cfg) (oc_endMinute cfg) (filter (\<lambda>e. oe_deviceId e = d) (plan_lights stagger minOn maxOn cfg i ds a))
    \<and> (\<forall>e\<in>set (plan_lights stagger minOn maxOn cfg i ds a). oe_deviceId e \<in> set ds)"
  using assms(2)
proof (induction ds arbitrary: i a)
  case (Cons x ds)
  obtain es a' where es: "plan_light stagger minOn maxOn cfg i x a = (es, a')" by fastforce
  with plan_light_ok [OF assms(1), of cfg stagger maxOn i x a]
  have ok: "intervals (oc_startMinute cfg) (oc_endMinute cfg) es" "\<forall>e\<in>set es. oe_deviceId e = x" by simp_all
  have IH: "intervals (oc_startMinute cfg) (oc_endMinute cfg)
        (filter (\<lambda>e. oe_deviceId e = d) (plan_lights stagger minOn maxOn cfg (Suc i) ds a'))"
      "\<forall>e\<in>set (plan_lights stagger minOn maxOn cfg (Suc i) ds a'). oe_deviceId e \<in> set ds"
    using Cons by simp_all
  show ?case
  proof (cases "d = x")
    case True
    then have "filter (\<lambda>e. oe_deviceId e = d) es = es"
        "filter (\<lambda>e. oe_deviceId e = d) (plan_lights stagger minOn maxOn cfg (Suc i) ds a') = []"
      using ok(2) IH(2) Cons.prems by (auto simp: filter_id_conv filter_empty_conv)
    with es ok IH(2) show ?thesis by auto
  next
    case False
    then have "filter (\<lambda>e. oe_deviceId e = d) es = []" using ok(2) by (auto simp: filter_empty_conv)
    with es ok IH show ?thesis by auto
  qed
qed simp

text \<open>
  C40: Whatever the seed, the plan of the occupancy simulation is in order of time, and each of its lights goes on and off in turn:
  every on has its off, strictly later, both inside the window, and at least ten minutes pass before the light
  goes on again; no other device appears.
\<close>

theorem occupancy_plan_balanced:
  assumes "planOccupancy stagger cfg = Inr plan" "distinct (oc_deviceIds cfg)"
  shows "sorted (map oe_atMinutes plan) \<and> (\<forall>e\<in>set plan. oe_deviceId e \<in> set (oc_deviceIds cfg)) \<and>
     (\<forall>d. intervals (oc_startMinute cfg) (oc_endMinute cfg) (filter (\<lambda>e. oe_deviceId e = d) plan))"
proof -
  obtain minOn maxOn a where p: "0 < minOn" "plan = sort_key event_key (plan_lights stagger minOn maxOn cfg 0 (oc_deviceIds cfg) a)"
    using assms(1) [unfolded planOccupancy_def Let_def] by (metis Inl_Inr_False Inr_inject not_gr_zero)
  have sorted: "sorted (map event_key plan)" by (simp add: p(2))
  have "event_key e \<le> event_key f \<Longrightarrow> oe_atMinutes e \<le> oe_atMinutes f" for e f
    by (auto simp: event_key_def split: if_splits)
  with sorted have "sorted (map oe_atMinutes plan)"
    unfolding sorted_map by (rule sorted_wrt_mono_rel [rotated]) blast
  moreover have "filter (\<lambda>e. oe_deviceId e = d) plan = filter (\<lambda>e. oe_deviceId e = d) (plan_lights stagger minOn maxOn cfg 0 (oc_deviceIds cfg) a)" for d
    unfolding p(2) filter_sort
    using intervals_sorted plan_lights_device [OF p(1) assms(2)] by (intro sort_key_id_if_sorted) blast
  ultimately show ?thesis using plan_lights_device [OF p(1) assms(2)] by (simp add: p(2))
qed

theorem occupancy_plan_balanced_witness:
  "\<exists>plan. planOccupancy (\<lambda>w n i. w div n * i) \<lparr>oc_deviceIds = [''a'', ''b''], oc_startMinute = 1080, oc_endMinute = 1410,
     oc_seed = 7, oc_minOnMinutes = None, oc_maxOnMinutes = None\<rparr> = Inr plan \<and> sorted (map oe_atMinutes plan)"
proof -
  let ?cfg = "\<lparr>oc_deviceIds = [''a'', ''b''], oc_startMinute = 1080, oc_endMinute = 1410,
     oc_seed = 7, oc_minOnMinutes = None, oc_maxOnMinutes = None\<rparr>"
  obtain plan where plan: "planOccupancy (\<lambda>w n i. w div n * i) ?cfg = Inr plan"
    by (simp add: planOccupancy_def)
  from occupancy_plan_balanced [OF this] plan show ?thesis by simp
qed

end
