(* ===== verification/Home_Model.thy ===== *)
theory Home_Model
  imports Canonical_Json Identity_Store
begin

text \<open>
  Rooms, devices, favourites and their store: \<^verbatim>\<open>packages/domain-model/src/entities.ts\<close>,
  \<^verbatim>\<open>packages/domain-model/src/notifications.ts\<close> (favourites) and \<^verbatim>\<open>services/home/src/store.ts\<close>. Free-form configuration and metadata
  are properties of \<^verbatim>\<open>json\<close> values.
\<close>

type_synonym driver_id = string
type_synonym json_bag = "(string, json) jsmap"

datatype area_type =
    ArLiving | ArBedroom | ArKitchen | ArBathroom | ArOffice | ArOutdoor | ArUtility | ArHallway | ArOther

record room =
  rm_id :: room_id
  rm_homeId :: home_id
  rm_name :: string
  rm_building :: "string option"
  rm_floor :: int
  rm_area :: "string option"
  rm_areaType :: area_type
  rm_sortOrder :: int
  rm_icon :: "string option"
  rm_heroImageUrl :: "string option"
  rm_parentRoomId :: "room_id option"

datatype device_type =
    DtLight | DtDimmer | DtColor_light | DtThermostat | DtCover | DtMedia_player | DtLock | DtSwitch
  | DtFan | DtVacuum | DtSensor | DtCamera | DtKeypad

datatype device_status = DsOnline | DsOffline | DsUnavailable

record device_capability =
  dc_kind :: capability_kind
  dc_config :: json_bag

text \<open>A device's state is keyed by the kind of the capability.\<close>

record device =
  dv_id :: device_id
  dv_homeId :: home_id
  dv_roomId :: "room_id option"
  dv_name :: string
  dv_supremeType :: device_type
  dv_manufacturer :: "string option"
  dv_model :: "string option"
  dv_driverId :: "driver_id option"
  dv_status :: device_status
  dv_capabilities :: "device_capability list"
  dv_state :: "(capability_kind, capability_state) jsmap"
  dv_metadata :: json_bag

definition kinds :: "device \<Rightarrow> capability_kind list" where
  "kinds d = map dc_kind (dv_capabilities d)"

text \<open>\<^verbatim>\<open>{ ...a, ...b }\<close>\<close>

definition merge_bag :: "json_bag \<Rightarrow> json_bag \<Rightarrow> json_bag" where
  "merge_bag old patch = fold (\<lambda>(k, v). jset k v) patch old"

datatype favorite_ref = FavDevice device_id | FavScene scene_id

record favorite =
  fv_userId :: user_id
  fv_ref :: favorite_ref
  fv_sortOrder :: nat

section \<open>The store\<close>

record stored_device =
  sd_device :: device
  sd_backendIds :: "(string, string) jsmap"

record home_store =
  hs_home :: "home option"
  hs_rooms :: "(room_id, room) jsmap"
  hs_devices :: "(device_id, stored_device) jsmap"
  hs_favorites :: "(user_id, (string, favorite) jsmap) jsmap"

definition new_home_store :: home_store where
  "new_home_store = \<lparr>hs_home = None, hs_rooms = [], hs_devices = [], hs_favorites = []\<rparr>"

fun favKey :: "favorite_ref \<Rightarrow> string" where
  "favKey (FavDevice d) = ''device:'' @ d"
| "favKey (FavScene s) = ''scene:'' @ s"

definition hs_putHome :: "home \<Rightarrow> home_store \<Rightarrow> home_store" where
  "hs_putHome h s = s\<lparr>hs_home := Some h\<rparr>"

definition hs_listRooms :: "home_store \<Rightarrow> room list" where
  "hs_listRooms s = sort_key rm_sortOrder (jvalues (hs_rooms s))"

definition hs_putRoom :: "room \<Rightarrow> home_store \<Rightarrow> home_store" where
  "hs_putRoom r s = s\<lparr>hs_rooms := jset (rm_id r) r (hs_rooms s)\<rparr>"

definition hs_deleteRoom :: "room_id \<Rightarrow> home_store \<Rightarrow> home_store" where
  "hs_deleteRoom r s = s\<lparr>hs_rooms := jdel r (hs_rooms s)\<rparr>"

definition hs_listDevices :: "home_store \<Rightarrow> stored_device list" where
  "hs_listDevices s = jvalues (hs_devices s)"

definition hs_getDevice :: "device_id \<Rightarrow> home_store \<Rightarrow> stored_device option" where
  "hs_getDevice d s = jget (hs_devices s) d"

definition hs_putDevice :: "device \<Rightarrow> (string, string) jsmap \<Rightarrow> home_store \<Rightarrow> home_store" where
  "hs_putDevice dv ids s = s\<lparr>hs_devices := jset (dv_id dv) \<lparr>sd_device = dv, sd_backendIds = ids\<rparr> (hs_devices s)\<rparr>"

definition hs_updateDeviceState :: "device_id \<Rightarrow> (capability_kind, capability_state) jsmap \<Rightarrow> home_store \<Rightarrow> home_store" where
  "hs_updateDeviceState d st s =
     (case jget (hs_devices s) d of None \<Rightarrow> s
      | Some x \<Rightarrow> s\<lparr>hs_devices := jset d (x\<lparr>sd_device := (sd_device x)\<lparr>dv_state := st\<rparr>\<rparr>) (hs_devices s)\<rparr>)"

definition hs_deleteDevice :: "device_id \<Rightarrow> home_store \<Rightarrow> home_store" where
  "hs_deleteDevice d s = s\<lparr>hs_devices := jdel d (hs_devices s)\<rparr>"

definition favorites_of :: "user_id \<Rightarrow> home_store \<Rightarrow> (string, favorite) jsmap" where
  "favorites_of u s = (case jget (hs_favorites s) u of None \<Rightarrow> [] | Some m \<Rightarrow> m)"

definition hs_listFavorites :: "user_id \<Rightarrow> home_store \<Rightarrow> favorite list" where
  "hs_listFavorites u s = sort_key fv_sortOrder (jvalues (favorites_of u s))"

definition hs_putFavorite :: "favorite \<Rightarrow> home_store \<Rightarrow> home_store" where
  "hs_putFavorite f s = s\<lparr>hs_favorites := jset (fv_userId f)
     (jset (favKey (fv_ref f)) f (favorites_of (fv_userId f) s)) (hs_favorites s)\<rparr>"

definition hs_removeFavorite :: "user_id \<Rightarrow> favorite_ref \<Rightarrow> home_store \<Rightarrow> home_store" where
  "hs_removeFavorite u r s =
     (case jget (hs_favorites s) u of None \<Rightarrow> s
      | Some m \<Rightarrow> s\<lparr>hs_favorites := jset u (jdel (favKey r) m) (hs_favorites s)\<rparr>)"

end
