(* ===== verification/Capability_Index.thy ===== *)
theory Capability_Index
  imports Home_Model
begin

text \<open>
  The index of devices by capability, \<^verbatim>\<open>services/intent-engine/src/capability-index.ts\<close>. Its sets iterate in insertion order
  and are lists without duplicates here.
\<close>

record capability_index =
  ci_byCapability :: "(capability_kind, device_id list) jsmap"
  ci_devices :: "(device_id, device) jsmap"

definition empty_index :: capability_index where
  "empty_index = \<lparr>ci_byCapability = [], ci_devices = []\<rparr>"

definition members :: "capability_kind \<Rightarrow> capability_index \<Rightarrow> device_id list" where
  "members k ix = (case jget (ci_byCapability ix) k of None \<Rightarrow> [] | Some ds \<Rightarrow> ds)"

definition drop_member :: "device_id \<Rightarrow> capability_kind \<Rightarrow> capability_index \<Rightarrow> capability_index" where
  "drop_member d k ix =
     (case jget (ci_byCapability ix) k of None \<Rightarrow> ix
      | Some ds \<Rightarrow> ix\<lparr>ci_byCapability := jset k (remove1 d ds) (ci_byCapability ix)\<rparr>)"

definition index_remove :: "device_id \<Rightarrow> capability_index \<Rightarrow> capability_index" where
  "index_remove d ix =
     (let ix' = (case jget (ci_devices ix) d of None \<Rightarrow> ix | Some dv \<Rightarrow> fold (drop_member d) (kinds dv) ix)
      in ix'\<lparr>ci_devices := jdel d (ci_devices ix')\<rparr>)"

definition add_member :: "device_id \<Rightarrow> capability_kind \<Rightarrow> capability_index \<Rightarrow> capability_index" where
  "add_member d k ix =
     ix\<lparr>ci_byCapability := jset k (if d \<in> set (members k ix) then members k ix else members k ix @ [d]) (ci_byCapability ix)\<rparr>"

definition index_upsert :: "device \<Rightarrow> capability_index \<Rightarrow> capability_index" where
  "index_upsert dv ix =
     (let ix1 = index_remove (dv_id dv) ix
      in fold (add_member (dv_id dv)) (kinds dv) (ix1\<lparr>ci_devices := jset (dv_id dv) dv (ci_devices ix1)\<rparr>))"

definition index_hydrate :: "device list \<Rightarrow> capability_index" where
  "index_hydrate ds = fold index_upsert ds empty_index"

definition index_get :: "device_id \<Rightarrow> capability_index \<Rightarrow> device option" where
  "index_get d ix = jget (ci_devices ix) d"

definition devicesWithCapability :: "capability_kind \<Rightarrow> capability_index \<Rightarrow> device list" where
  "devicesWithCapability k ix = List.map_filter (jget (ci_devices ix)) (members k ix)"

definition devicesWithCapabilityInRoom :: "capability_kind \<Rightarrow> room_id \<Rightarrow> capability_index \<Rightarrow> device list" where
  "devicesWithCapabilityInRoom k r ix = filter (\<lambda>dv. dv_roomId dv = Some r) (devicesWithCapability k ix)"

definition index_size :: "capability_index \<Rightarrow> nat" where
  "index_size ix = length (ci_devices ix)"

section \<open>What an index holds\<close>

text \<open>Each device under its own id, and the sets of ids exactly those of the devices that expose the capability.\<close>

definition index_ok :: "capability_index \<Rightarrow> bool" where
  "index_ok ix \<longleftrightarrow> jwf (ci_devices ix) \<and> (\<forall>d dv. jget (ci_devices ix) d = Some dv \<longrightarrow> dv_id dv = d) \<and>
     (\<forall>k. distinct (members k ix) \<and>
        (\<forall>d. d \<in> set (members k ix) \<longleftrightarrow> (\<exists>dv. jget (ci_devices ix) d = Some dv \<and> k \<in> set (kinds dv))))"

lemma members_drop [simp]: "members k' (drop_member d k ix) = (if k' = k then remove1 d (members k ix) else members k' ix)"
  by (auto simp: drop_member_def members_def split: option.split)

lemma drop_devices [simp]: "ci_devices (drop_member d k ix) = ci_devices ix"
  by (simp add: drop_member_def split: option.split)

lemma members_add [simp]:
  "members k' (add_member d k ix) =
     (if k' = k then (if d \<in> set (members k ix) then members k ix else members k ix @ [d]) else members k' ix)"
  by (simp add: add_member_def members_def)

lemma add_devices [simp]: "ci_devices (add_member d k ix) = ci_devices ix"
  by (simp add: add_member_def)

lemma fold_drop_members:
  "ci_devices (fold (drop_member d) ks ix) = ci_devices ix"
  "(\<And>k. distinct (members k ix)) \<Longrightarrow> distinct (members k (fold (drop_member d) ks ix))"
  "(\<And>k. distinct (members k ix)) \<Longrightarrow>
     set (members k (fold (drop_member d) ks ix)) = (if k \<in> set ks then set (members k ix) - {d} else set (members k ix))"
  by (induction ks arbitrary: ix) auto

lemma fold_add_members:
  "ci_devices (fold (add_member d) ks ix) = ci_devices ix"
  "(\<And>k. distinct (members k ix)) \<Longrightarrow> distinct (members k (fold (add_member d) ks ix))"
  "set (members k (fold (add_member d) ks ix)) = (if k \<in> set ks then insert d (set (members k ix)) else set (members k ix))"
  by (induction ks arbitrary: ix) auto

lemma members_devices [simp]: "members k (ix\<lparr>ci_devices := f\<rparr>) = members k ix"
  by (simp add: members_def)

lemma index_okD:
  assumes "index_ok ix"
  shows "jwf (ci_devices ix)" "jget (ci_devices ix) d = Some dv \<Longrightarrow> dv_id dv = d" "distinct (members k ix)"
    "d \<in> set (members k ix) \<longleftrightarrow> (\<exists>dv. jget (ci_devices ix) d = Some dv \<and> k \<in> set (kinds dv))"
  using assms by (auto simp: index_ok_def)

lemma remove_devices [simp]: "ci_devices (index_remove d ix) = jdel d (ci_devices ix)"
  by (simp add: index_remove_def Let_def fold_drop_members(1) split: option.split)

lemma remove_ok:
  assumes "index_ok ix"
  shows "index_ok (index_remove d ix)"
proof (cases "jget (ci_devices ix) d")
  case None
  then have "d \<notin> set (members k ix)" for k using index_okD(4) [OF assms] by auto
  with None index_okD [OF assms] show ?thesis
    by (auto simp: index_ok_def index_remove_def)
next
  case (Some dv)
  with index_okD [OF assms] show ?thesis
    by (auto simp: index_ok_def index_remove_def fold_drop_members)
qed

lemma upsert_devices [simp]: "ci_devices (index_upsert dv ix) = jset (dv_id dv) dv (jdel (dv_id dv) (ci_devices ix))"
  by (simp add: index_upsert_def Let_def fold_add_members(1))

lemma upsert_members:
  "distinct (members k (index_remove (dv_id dv) ix)) \<Longrightarrow> (\<And>k. distinct (members k (index_remove (dv_id dv) ix))) \<Longrightarrow>
     distinct (members k (index_upsert dv ix))"
  "set (members k (index_upsert dv ix)) =
     (if k \<in> set (kinds dv) then insert (dv_id dv) (set (members k (index_remove (dv_id dv) ix)))
      else set (members k (index_remove (dv_id dv) ix)))"
  by (simp_all add: index_upsert_def Let_def fold_add_members)

lemma upsert_ok:
  assumes "index_ok ix"
  shows "index_ok (index_upsert dv ix)"
proof -
  note ok = index_okD [OF remove_ok [OF assms, of "dv_id dv"]]
  have none: "dv_id dv \<notin> set (members k (index_remove (dv_id dv) ix))" for k using ok(4) [of "dv_id dv"] by simp
  show ?thesis
    unfolding index_ok_def
  proof (intro conjI allI impI)
    show "jwf (ci_devices (index_upsert dv ix))" using ok(1) by simp
    show "distinct (members k (index_upsert dv ix))" for k using ok(3) by (intro upsert_members(1))
    show "dv_id dv' = d" if "jget (ci_devices (index_upsert dv ix)) d = Some dv'" for d dv'
      using that index_okD(2) [OF assms, of d dv'] by (simp split: if_splits)
    show "d \<in> set (members k (index_upsert dv ix)) \<longleftrightarrow>
        (\<exists>dv'. jget (ci_devices (index_upsert dv ix)) d = Some dv' \<and> k \<in> set (kinds dv'))" for d k
      using none [of k] ok(4) [of d k] by (cases "d = dv_id dv") (simp_all add: upsert_members(2))
  qed
qed

lemma hydrate_ok: "index_ok (index_hydrate ds)"
proof -
  have "index_ok ix \<Longrightarrow> index_ok (fold index_upsert ds ix)" for ix
    by (induction ds arbitrary: ix) (simp_all add: upsert_ok)
  moreover have "index_ok empty_index" by (simp add: index_ok_def empty_index_def members_def)
  ultimately show ?thesis by (simp add: index_hydrate_def)
qed

lemma hydrate_get: "index_get d (index_hydrate ds) = map_of (rev (map (\<lambda>dv. (dv_id dv, dv)) ds)) d"
proof -
  have "jget (ci_devices (fold index_upsert ds ix)) d =
      (case map_of (rev (map (\<lambda>dv. (dv_id dv, dv)) ds)) d of None \<Rightarrow> jget (ci_devices ix) d | Some dv \<Rightarrow> Some dv)" for ix
    by (induction ds arbitrary: ix) (auto simp: map_add_def split: option.split)
  from this [of empty_index] show ?thesis
    by (simp add: index_get_def index_hydrate_def empty_index_def split: option.split)
qed

text \<open>A lookup by capability answers exactly the devices that expose it, each once.\<close>

lemma set_map_filter: "set (List.map_filter f xs) = {y. \<exists>x\<in>set xs. f x = Some y}"
  by (force simp: List.map_filter_def)

lemma index_lookup:
  assumes "index_ok ix"
  shows "dv \<in> set (devicesWithCapability k ix) \<longleftrightarrow> index_get (dv_id dv) ix = Some dv \<and> k \<in> set (kinds dv)"
    and "distinct (map dv_id (devicesWithCapability k ix))"
proof -
  note ok = index_okD [OF assms]
  show "dv \<in> set (devicesWithCapability k ix) \<longleftrightarrow> index_get (dv_id dv) ix = Some dv \<and> k \<in> set (kinds dv)"
    using ok(2,4) by (fastforce simp: devicesWithCapability_def set_map_filter index_get_def)
  have "map dv_id (List.map_filter (jget (ci_devices ix)) ds) = filter (\<lambda>d. jget (ci_devices ix) d \<noteq> None) ds" for ds
    using ok(2) by (induction ds) (auto simp: List.map_filter_simps split: option.split)
  then show "distinct (map dv_id (devicesWithCapability k ix))" using ok(3) by (simp add: devicesWithCapability_def)
qed

end
