(* ===== verification/Intent_Registry.thy ===== *)
theory Intent_Registry
  imports Capability_Index Condition_Eval Automation_Dsl
begin

text \<open>
  Intents as data: their definitions (\<^verbatim>\<open>packages/domain-model/src/intents.ts\<close>), the registry that pairs a definition with
  its handler (\<^verbatim>\<open>services/intent-engine/src/registry.ts\<close>) and the validation of a caller's parameters
  (\<^verbatim>\<open>param-validation.ts\<close>).
\<close>

section \<open>Definitions\<close>

datatype intent_category = CatLighting | CatClimate | CatAv | CatBlinds | CatSecurity | CatSystem

datatype intent_target_kind = TkDevice | TkRoom | TkScene | TkAutomation | TkHome

fun target_kind :: "intent_target \<Rightarrow> intent_target_kind" where
  "target_kind (TargetDevice _) = TkDevice"
| "target_kind (TargetRoom _) = TkRoom"
| "target_kind (TargetScene _) = TkScene"
| "target_kind (TargetAutomation _) = TkAutomation"
| "target_kind TargetHome = TkHome"

fun target_kind_name :: "intent_target_kind \<Rightarrow> string" where
  "target_kind_name TkDevice = ''device''"
| "target_kind_name TkRoom = ''room''"
| "target_kind_name TkScene = ''scene''"
| "target_kind_name TkAutomation = ''automation''"
| "target_kind_name TkHome = ''home''"

datatype param_type = PtNumber | PtBoolean | PtString | PtEnum

text \<open>\<open>ps_default\<close> is a string, a number or a boolean.\<close>

record param_spec =
  ps_key :: string
  ps_type :: param_type
  ps_required :: bool
  ps_min :: "rat option"
  ps_max :: "rat option"
  ps_options :: "string list option"
  ps_default :: "jsval option"
  ps_description :: string

record intent_definition =
  id_id :: string
  id_name :: string
  id_category :: intent_category
  id_description :: string
  id_requiredCapabilities :: "capability_kind list"
  id_parameters :: "param_spec list"
  id_targetKinds :: "intent_target_kind list"
  id_version :: string
  id_i18nKey :: "string option"

section \<open>Commands, executors and registrations\<close>

text \<open>
  What a translator returns. The colour-temperature steps compute a kelvin value that may not be an integer, and cycling the
  inputs returns whatever the reported list holds; neither need be a value of the command schema.
\<close>

datatype intent_command =
    IcCommand capability_command
  | IcKelvin rat
  | IcSource "json option"

record translate_input =
  ti_params :: bag
  ti_state :: "capability_state option"
  ti_capabilityConfig :: "json_bag option"

type_synonym intent_translator = "translate_input \<Rightarrow> error + intent_command"

text \<open>The mode of \<^verbatim>\<open>arm\<close> and the level of \<^verbatim>\<open>notify\<close> are the strings the catalog casts.\<close>

record 'w security_executors =
  sx_arm :: "string \<Rightarrow> ('w, unit) eff"
  sx_disarm :: "('w, unit) eff"
  sx_panic :: "('w, unit) eff"

record 'w intent_executors =
  ie_command :: "device_id \<Rightarrow> intent_command \<Rightarrow> ('w, unit) eff"
  ie_getState :: "device_id \<Rightarrow> capability_kind \<Rightarrow> ('w, capability_state option) eff"
  ie_getCapabilityConfig :: "(device_id \<Rightarrow> capability_kind \<Rightarrow> ('w, json_bag option) eff) option"
  ie_activateScene :: "scene_id \<Rightarrow> ('w, unit) eff"
  ie_runAutomation :: "automation_id \<Rightarrow> ('w, unit) eff"
  ie_notify :: "string \<Rightarrow> string \<Rightarrow> string \<Rightarrow> user_id option \<Rightarrow> ('w, unit) eff"
  ie_security :: "'w security_executors option"

type_synonym 'w intent_handler = "intent_target \<Rightarrow> bag \<Rightarrow> 'w intent_executors \<Rightarrow> ('w, unit) eff"

record 'w intent_registration =
  ir_definition :: intent_definition
  ir_translate :: "intent_translator option"
  ir_runSystem :: "'w intent_handler option"

type_synonym 'w intent_registry = "(string, 'w intent_registration) jsmap"

definition reg_conflict :: "string \<Rightarrow> string \<Rightarrow> error" where
  "reg_conflict i rest = SupremeError Conflict (''intent \"'' @ i @ ''\" '' @ rest)"

definition intent_register ::
  "intent_definition \<Rightarrow> intent_translator option \<Rightarrow> 'w intent_handler option \<Rightarrow> 'w intent_registry \<Rightarrow> error + 'w intent_registry" where
  "intent_register d tr sys reg =
     (let driven = id_requiredCapabilities d \<noteq> [] in
      if driven \<and> tr = None then Inl (reg_conflict (id_id d) ''requires a capability but registered no translate handler'')
      else if \<not> driven \<and> sys = None then Inl (reg_conflict (id_id d) ''requires no capability but registered no runSystem handler'')
      else if driven \<and> sys \<noteq> None then Inl (reg_conflict (id_id d) ''cannot have both a translate and a runSystem handler'')
      else Inr (jset (id_id d) \<lparr>ir_definition = d, ir_translate = tr, ir_runSystem = sys\<rparr> reg))"

definition intent_get :: "string \<Rightarrow> 'w intent_registry \<Rightarrow> 'w intent_registration option" where
  "intent_get i reg = jget reg i"

definition intent_list :: "'w intent_registry \<Rightarrow> intent_definition list" where
  "intent_list reg = map ir_definition (jvalues reg)"

definition listByCategory :: "intent_category \<Rightarrow> 'w intent_registry \<Rightarrow> intent_definition list" where
  "listByCategory c reg = filter (\<lambda>d. id_category d = c) (intent_list reg)"

section \<open>Parameters\<close>

text \<open>
  A number in a message: the decimal expansion, which is what JavaScript prints for the numbers of up to fifteen digits that the
  bounds of an intent are.
\<close>

fun frac_digits :: "nat \<Rightarrow> rat \<Rightarrow> string" where
  "frac_digits 0 r = []"
| "frac_digits (Suc n) r =
     (if r = 0 then [] else char_of (48 + nat \<lfloor>10 * r\<rfloor>) # frac_digits n (10 * r - of_int \<lfloor>10 * r\<rfloor>))"

definition js_num :: "rat \<Rightarrow> string" where
  "js_num r = (let a = \<bar>r\<bar>; n = \<lfloor>a\<rfloor>; ds = frac_digits 15 (a - of_int n)
     in (if r < 0 then ''-'' else []) @ show_nat (nat n) @ (if ds = [] then [] else CHR ''.'' # ds))"

fun join_with :: "string \<Rightarrow> string list \<Rightarrow> string" where
  "join_with sep [] = []"
| "join_with sep [x] = x"
| "join_with sep (x # y # ys) = x @ sep @ join_with sep (y # ys)"

definition param_error :: "string \<Rightarrow> string \<Rightarrow> string \<Rightarrow> error" where
  "param_error i k rest = SupremeError Validation_failed (''intent \"'' @ i @ ''\" parameter \"'' @ k @ ''\" must be '' @ rest)"

text \<open>The error of a value that does not satisfy its specification. \<^verbatim>\<open>NaN\<close> is not a value here.\<close>

definition validateOne :: "string \<Rightarrow> param_spec \<Rightarrow> jsval \<Rightarrow> error option" where
  "validateOne i sp v =
     (case ps_type sp of
        PtNumber \<Rightarrow>
          (case v of
             JNum x \<Rightarrow>
               (if ps_min sp \<noteq> None \<and> x < the (ps_min sp) then Some (param_error i (ps_key sp) (''>= '' @ js_num (the (ps_min sp))))
                else if ps_max sp \<noteq> None \<and> x > the (ps_max sp) then Some (param_error i (ps_key sp) (''<= '' @ js_num (the (ps_max sp))))
                else None)
           | _ \<Rightarrow> Some (param_error i (ps_key sp) ''a number''))
      | PtBoolean \<Rightarrow> (case v of JBool _ \<Rightarrow> None | _ \<Rightarrow> Some (param_error i (ps_key sp) ''a boolean''))
      | PtString \<Rightarrow> (case v of JStr _ \<Rightarrow> None | _ \<Rightarrow> Some (param_error i (ps_key sp) ''a string''))
      | PtEnum \<Rightarrow>
          (let opts = (case ps_options sp of None \<Rightarrow> [] | Some os \<Rightarrow> os);
               err = Some (param_error i (ps_key sp) (''one of: '' @ join_with '', '' opts))
           in case v of JStr s \<Rightarrow> (if s \<in> set opts then None else err) | _ \<Rightarrow> err))"

text \<open>\<^verbatim>\<open>resolved[key]\<close>, where a missing property reads as \<^verbatim>\<open>undefined\<close>.\<close>

definition bag_get :: "string \<Rightarrow> bag \<Rightarrow> jsval" where
  "bag_get k ps = (case jget ps k of None \<Rightarrow> JUndef | Some v \<Rightarrow> v)"

fun validate_specs :: "string \<Rightarrow> param_spec list \<Rightarrow> bag \<Rightarrow> error + bag" where
  "validate_specs i [] ps = Inr ps"
| "validate_specs i (sp # sps) ps =
     (if bag_get (ps_key sp) ps = JUndef then
        if ps_required sp then
          Inl (SupremeError Validation_failed (''intent \"'' @ i @ ''\" is missing required parameter \"'' @ ps_key sp @ ''\"''))
        else validate_specs i sps (case ps_default sp of None \<Rightarrow> ps | Some d \<Rightarrow> jset (ps_key sp) d ps)
      else case validateOne i sp (bag_get (ps_key sp) ps) of
          Some e \<Rightarrow> Inl e
        | None \<Rightarrow> validate_specs i sps ps)"

definition validateIntentParams :: "intent_definition \<Rightarrow> bag \<Rightarrow> error + bag" where
  "validateIntentParams d ps = validate_specs (id_id d) (id_parameters d) ps"

section \<open>What validated parameters are\<close>

text \<open>A specification the schema and the catalog agree on: its default satisfies it.\<close>

definition spec_ok :: "param_spec \<Rightarrow> bool" where
  "spec_ok sp \<longleftrightarrow> (case ps_default sp of None \<Rightarrow> True | Some d \<Rightarrow> d \<noteq> JUndef \<and> validateOne '''' sp d = None)"

definition satisfies :: "param_spec \<Rightarrow> bag \<Rightarrow> bool" where
  "satisfies sp ps \<longleftrightarrow>
     (if bag_get (ps_key sp) ps = JUndef then \<not> ps_required sp \<and> ps_default sp = None
      else validateOne '''' sp (bag_get (ps_key sp) ps) = None)"

lemma validateOne_any: "(validateOne i sp v = None) = (validateOne j sp v = None)"
  by (cases "ps_type sp"; cases v; cases "ps_options sp") (auto simp: validateOne_def Let_def)

lemma bag_get_jset [simp]: "bag_get k (jset k' v ps) = (if k = k' then v else bag_get k ps)"
  by (simp add: bag_get_def)

lemma validate_keeps:
  "validate_specs i sps ps = Inr ps' \<Longrightarrow> k \<notin> ps_key ` set sps \<or> bag_get k ps \<noteq> JUndef \<Longrightarrow> bag_get k ps' = bag_get k ps"
proof (induction i sps ps rule: validate_specs.induct)
  case (2 i sp sps ps)
  then show ?case by (cases "k = ps_key sp") (auto split: if_splits option.splits)
qed simp

lemma validate_satisfies:
  "validate_specs i sps ps = Inr ps' \<Longrightarrow> distinct (map ps_key sps) \<Longrightarrow> list_all spec_ok sps \<Longrightarrow> list_all (\<lambda>sp. satisfies sp ps') sps"
proof (induction i sps ps rule: validate_specs.induct)
  case (2 i sp sps ps)
  let ?v = "bag_get (ps_key sp) ps"
  from 2(4,5) have d: "ps_key sp \<notin> ps_key ` set sps" "distinct (map ps_key sps)" and ok: "spec_ok sp" "list_all spec_ok sps"
    by auto
  show ?case
  proof (cases "?v = JUndef")
    case True
    define ps1 where "ps1 = (case ps_default sp of None \<Rightarrow> ps | Some d \<Rightarrow> jset (ps_key sp) d ps)"
    from True 2(3) have r: "\<not> ps_required sp" "validate_specs i sps ps1 = Inr ps'" by (auto simp: ps1_def split: if_splits)
    from 2(1) [OF True r(1)] r(2) d(2) ok(2) have tl: "list_all (\<lambda>sp. satisfies sp ps') sps" by (simp add: ps1_def)
    from validate_keeps [OF r(2)] d(1) have "bag_get (ps_key sp) ps' = bag_get (ps_key sp) ps1" by simp
    with True r(1) ok(1) have "satisfies sp ps'"
      by (auto simp: satisfies_def spec_ok_def ps1_def split: option.splits)
    with tl show ?thesis by simp
  next
    case False
    with 2(3) have r: "validateOne i sp ?v = None" "validate_specs i sps ps = Inr ps'" by (auto split: option.splits)
    from 2(2) [OF False r] d(2) ok(2) have tl: "list_all (\<lambda>sp. satisfies sp ps') sps" .
    from validate_keeps [OF r(2)] d(1) have "bag_get (ps_key sp) ps' = ?v" by simp
    with False r(1) have "satisfies sp ps'" using validateOne_any [of i sp ?v "''''"] by (simp add: satisfies_def)
    with tl show ?thesis by simp
  qed
qed simp

text \<open>A validated numeric parameter that has a default or is required is a number within its bounds.\<close>

lemma satisfies_number:
  assumes "satisfies sp ps" "ps_type sp = PtNumber" "ps_required sp \<or> ps_default sp \<noteq> None"
  obtains x where "bag_get (ps_key sp) ps = JNum x" "ps_min sp = Some lo \<Longrightarrow> lo \<le> x" "ps_max sp = Some hi \<Longrightarrow> x \<le> hi"
proof -
  have "\<exists>x. bag_get (ps_key sp) ps = JNum x \<and> (ps_min sp = Some lo \<longrightarrow> lo \<le> x) \<and> (ps_max sp = Some hi \<longrightarrow> x \<le> hi)"
    using assms by (cases "bag_get (ps_key sp) ps") (auto simp: satisfies_def validateOne_def split: if_splits)
  with that show ?thesis by blast
qed

lemma satisfies_enum:
  assumes "satisfies sp ps" "ps_type sp = PtEnum" "ps_options sp = Some os" "ps_required sp \<or> ps_default sp \<noteq> None"
  obtains s where "bag_get (ps_key sp) ps = JStr s" "s \<in> set os"
  using assms by (auto simp: satisfies_def validateOne_def Let_def split: jsval.splits if_splits)

text \<open>
  Validated parameters are what the intent declares: when the validation of a definition with distinct keys and proper defaults
  accepts a caller's parameters, every declared parameter either is absent, optional and without a default, or satisfies its
  type, bounds and options; nothing the caller passed is changed and nothing but defaults is added.
\<close>

theorem validated_params_satisfy:
  assumes "validateIntentParams d ps = Inr ps'" "distinct (map ps_key (id_parameters d))" "list_all spec_ok (id_parameters d)"
  shows "list_all (\<lambda>sp. satisfies sp ps') (id_parameters d) \<and>
     (\<forall>k. bag_get k ps' = bag_get k ps \<or>
        bag_get k ps = JUndef \<and> (\<exists>sp\<in>set (id_parameters d). ps_key sp = k \<and> ps_default sp = Some (bag_get k ps')))"
proof -
  have "bag_get k ps' = bag_get k ps \<or>
      bag_get k ps = JUndef \<and> (\<exists>sp\<in>set sps. ps_key sp = k \<and> ps_default sp = Some (bag_get k ps'))"
    if "validate_specs i sps ps = Inr ps'" "distinct (map ps_key sps)" for k i sps ps
    using that
  proof (induction i sps ps rule: validate_specs.induct)
    case (2 i sp sps ps)
    show ?case
    proof (cases "bag_get (ps_key sp) ps = JUndef")
      case True
      define ps1 where "ps1 = (case ps_default sp of None \<Rightarrow> ps | Some d \<Rightarrow> jset (ps_key sp) d ps)"
      from True 2(3) have r: "\<not> ps_required sp" "validate_specs i sps ps1 = Inr ps'" by (auto simp: ps1_def split: if_splits)
      from 2(1) [OF True r(1)] r(2) 2(4) have ih: "bag_get k ps' = bag_get k ps1 \<or>
          bag_get k ps1 = JUndef \<and> (\<exists>sp\<in>set sps. ps_key sp = k \<and> ps_default sp = Some (bag_get k ps'))"
        by (simp add: ps1_def)
      show ?thesis
      proof (cases "k = ps_key sp")
        case k: True
        with validate_keeps [OF r(2), of k] 2(4) have "bag_get k ps' = bag_get k ps1" by auto
        with k True show ?thesis by (auto simp: ps1_def split: option.splits)
      next
        case False
        then have "bag_get k ps1 = bag_get k ps" by (simp add: ps1_def split: option.split)
        with ih show ?thesis by auto
      qed
    next
      case False
      with 2(3) have r: "validateOne i sp (bag_get (ps_key sp) ps) = None" "validate_specs i sps ps = Inr ps'"
        by (auto split: option.splits)
      from 2(2) [OF False r] 2(4) show ?thesis by auto
    qed
  qed simp
  with validate_satisfies assms show ?thesis by (auto simp: validateIntentParams_def)
qed

theorem validated_params_satisfy_witness:
  "validateOne '''' \<lparr>ps_key = ''step'', ps_type = PtNumber, ps_required = False, ps_min = Some 1, ps_max = Some 100, ps_options = None,
     ps_default = Some (JNum 10), ps_description = ''''\<rparr> (bag_get ''step'' [(''step'', JNum 10)]) = None"
proof -
  let ?sp = "\<lparr>ps_key = ''step'', ps_type = PtNumber, ps_required = False, ps_min = Some 1, ps_max = Some 100, ps_options = None,
     ps_default = Some (JNum 10), ps_description = ''''\<rparr>"
  let ?d = "\<lparr>id_id = ''volumeUp'', id_name = ''Volume Up'', id_category = CatAv, id_description = '''', id_requiredCapabilities = [CkMedia],
     id_parameters = [?sp], id_targetKinds = [TkRoom], id_version = ''1.0.0'', id_i18nKey = None\<rparr>"
  have "validateIntentParams ?d [] = Inr [(''step'', JNum 10)]" by (simp add: validateIntentParams_def bag_get_def)
  moreover have "list_all spec_ok (id_parameters ?d)" by (simp add: spec_ok_def validateOne_def)
  ultimately have "list_all (\<lambda>sp. satisfies sp [(''step'', JNum 10)]) (id_parameters ?d)"
    using validated_params_satisfy [of ?d "[]"] by simp
  then show ?thesis by (simp add: satisfies_def bag_get_def)
qed

end
