(* ===== verification/Intent_Catalog.thy ===== *)
theory Intent_Catalog
  imports Intent_Registry
begin

text \<open>
  The built-in intents, \<^verbatim>\<open>services/intent-engine/src/catalog.ts\<close>: for each its definition and either the translation of its
  parameters and a device's state into a command, or the action it runs on the hub.
\<close>

section \<open>Building definitions and commands\<close>

text \<open>\<^verbatim>\<open>def\<close> applies the schema's defaults; that the constants below satisfy the schema is a lemma.\<close>

definition def_intent ::
  "string \<Rightarrow> string \<Rightarrow> intent_category \<Rightarrow> string \<Rightarrow> capability_kind list \<Rightarrow> param_spec list \<Rightarrow> intent_target_kind list \<Rightarrow> intent_definition" where
  "def_intent i name cat desc caps specs targets =
     \<lparr>id_id = i, id_name = name, id_category = cat, id_description = desc, id_requiredCapabilities = caps,
      id_parameters = specs, id_targetKinds = targets, id_version = ''1.0.0'', id_i18nKey = None\<rparr>"

definition num_spec :: "string \<Rightarrow> bool \<Rightarrow> rat \<Rightarrow> rat \<Rightarrow> rat option \<Rightarrow> string \<Rightarrow> param_spec" where
  "num_spec k req lo hi dflt desc =
     \<lparr>ps_key = k, ps_type = PtNumber, ps_required = req, ps_min = Some lo, ps_max = Some hi, ps_options = None,
      ps_default = map_option JNum dflt, ps_description = desc\<rparr>"

definition enum_spec :: "string \<Rightarrow> bool \<Rightarrow> string list \<Rightarrow> string option \<Rightarrow> string \<Rightarrow> param_spec" where
  "enum_spec k req opts dflt desc =
     \<lparr>ps_key = k, ps_type = PtEnum, ps_required = req, ps_min = None, ps_max = None, ps_options = Some opts,
      ps_default = map_option JStr dflt, ps_description = desc\<rparr>"

definition string_spec :: "string \<Rightarrow> bool \<Rightarrow> string option \<Rightarrow> string \<Rightarrow> param_spec" where
  "string_spec k req dflt desc =
     \<lparr>ps_key = k, ps_type = PtString, ps_required = req, ps_min = None, ps_max = None, ps_options = None,
      ps_default = map_option JStr dflt, ps_description = desc\<rparr>"

text \<open>
  A registration as \<^verbatim>\<open>register\<close> takes it. Translators run on validated parameters, so \<^verbatim>\<open>Number(params.step)\<close> is the number
  itself and \<^verbatim>\<open>String(params.title)\<close> the string itself.
\<close>

definition driven :: "intent_definition \<Rightarrow> (translate_input \<Rightarrow> error + intent_command) \<Rightarrow> 'w intent_registration" where
  "driven d tr = \<lparr>ir_definition = d, ir_translate = Some tr, ir_runSystem = None\<rparr>"

definition on_hub :: "intent_definition \<Rightarrow> 'w intent_handler \<Rightarrow> 'w intent_registration" where
  "on_hub d run = \<lparr>ir_definition = d, ir_translate = None, ir_runSystem = Some run\<rparr>"

definition param_num :: "string \<Rightarrow> translate_input \<Rightarrow> rat" where
  "param_num k inp = (case bag_get k (ti_params inp) of JNum x \<Rightarrow> x | _ \<Rightarrow> 0)"

definition param_str :: "string \<Rightarrow> bag \<Rightarrow> string" where
  "param_str k ps = (case bag_get k ps of JStr s \<Rightarrow> s | _ \<Rightarrow> '''')"

definition ic :: "capability_command \<Rightarrow> error + intent_command" where
  "ic c = Inr (IcCommand c)"

definition no_temperature :: temperature_command where
  "no_temperature = \<lparr>tc_targetC = None, tc_targetLowC = None, tc_targetHighC = None, tc_mode = None, tc_operatingMode = None,
     tc_heatCool = None, tc_advanced = None\<rparr>"

definition media_act :: "media_action \<Rightarrow> media_command" where
  "media_act a = \<lparr>mc_action = a, mc_volume = None, mc_source = None, mc_positionSec = None, mc_shuffle = None, mc_repeat = None,
     mc_advanced = None\<rparr>"

abbreviation at_devices :: "intent_target_kind list" where
  "at_devices \<equiv> [TkDevice, TkRoom]"

definition unsupported :: "string \<Rightarrow> string \<Rightarrow> error" where
  "unsupported what i = SupremeError Backend_unavailable
     (what @ '' is not a modeled Supreme capability field yet '' @ em_dash @ '' no device can honor the '' @ i @ '' intent'')"

section \<open>Lighting\<close>

definition toggleOnOff :: "translate_input \<Rightarrow> error + intent_command" where
  "toggleOnOff inp = ic (CmdOnoff OoToggle)"

definition light_level :: "translate_input \<Rightarrow> rat" where
  "light_level inp = (case ti_state inp of Some (BrightnessState _ l) \<Rightarrow> l | _ \<Rightarrow> 0)"

definition light_kelvin :: "translate_input \<Rightarrow> rat" where
  "light_kelvin inp = (case ti_state inp of
     Some (ColorState c) \<Rightarrow> (case c_kelvin c of None \<Rightarrow> 2700 | Some k \<Rightarrow> of_int k) | _ \<Rightarrow> 2700)"

definition set_level :: "rat \<Rightarrow> error + intent_command" where
  "set_level l = ic (CmdBrightness BrSet (Some l) None)"

definition color_params :: "translate_input \<Rightarrow> color_command" where
  "color_params inp =
     \<lparr>cc_hue = (if bag_get ''hue'' (ti_params inp) = JUndef then None else Some (param_num ''hue'' inp)),
      cc_saturation = (if bag_get ''saturation'' (ti_params inp) = JUndef then None else Some (param_num ''saturation'' inp)),
      cc_kelvin = None, cc_level = None, cc_fadeMs = None\<rparr>"

definition runSceneHandler :: "'w intent_handler" where
  "runSceneHandler tgt ps ex =
     (case tgt of TargetScene s \<Rightarrow> ie_activateScene ex s
      | _ \<Rightarrow> eff_throw (SupremeError Validation_failed ''this intent requires a scene target''))"

definition step_percent :: "string \<Rightarrow> param_spec" where
  "step_percent desc = num_spec ''step'' False 1 100 (Some 10) desc"

definition lighting_intents :: "'w intent_registration list" where
  "lighting_intents =
    [driven (def_intent ''toggleLight'' ''Toggle Light'' CatLighting ''Toggle a light (or every light in a room) on/off.''
       [CkOnoff] [] at_devices) toggleOnOff,
     driven (def_intent ''lightOn'' ''Light On'' CatLighting '''' [CkOnoff] [] at_devices) (\<lambda>_. ic (CmdOnoff OoOn)),
     driven (def_intent ''lightOff'' ''Light Off'' CatLighting '''' [CkOnoff] [] at_devices) (\<lambda>_. ic (CmdOnoff OoOff)),
     driven (def_intent ''increaseBrightness'' ''Increase Brightness'' CatLighting '''' [CkBrightness]
         [step_percent ''Percentage points to raise.''] at_devices)
       (\<lambda>inp. set_level (clamp (light_level inp + param_num ''step'' inp) 0 100)),
     driven (def_intent ''decreaseBrightness'' ''Decrease Brightness'' CatLighting '''' [CkBrightness]
         [step_percent ''Percentage points to lower.''] at_devices)
       (\<lambda>inp. set_level (clamp (light_level inp - param_num ''step'' inp) 0 100)),
     driven (def_intent ''setBrightness'' ''Set Brightness'' CatLighting '''' [CkBrightness]
         [num_spec ''level'' True 0 100 None ''Target brightness percentage.''] at_devices)
       (\<lambda>inp. set_level (param_num ''level'' inp)),
     driven (def_intent ''increaseCCT'' ''Increase Colour Temperature'' CatLighting '''' [CkColor]
         [num_spec ''step'' False 1 2000 (Some 200) ''Kelvin to raise.''] at_devices)
       (\<lambda>inp. Inr (IcKelvin (clamp (light_kelvin inp + param_num ''step'' inp) 1000 10000))),
     driven (def_intent ''decreaseCCT'' ''Decrease Colour Temperature'' CatLighting '''' [CkColor]
         [num_spec ''step'' False 1 2000 (Some 200) ''Kelvin to lower.''] at_devices)
       (\<lambda>inp. Inr (IcKelvin (clamp (light_kelvin inp - param_num ''step'' inp) 1000 10000))),
     driven (def_intent ''setColor'' ''Set Color'' CatLighting '''' [CkColor]
         [num_spec ''hue'' False 0 360 None ''Hue 0-360.'', num_spec ''saturation'' False 0 100 None ''Saturation 0-100.''] at_devices)
       (\<lambda>inp. ic (CmdColor (color_params inp))),
     on_hub (def_intent ''activateScene'' ''Activate Scene'' CatLighting
       ''Activate a lighting scene (a category-specific alias of Run Scene, for AI/UI discoverability).'' [] [] [TkScene]) runSceneHandler]"

section \<open>Climate\<close>

definition climate_base :: "translate_input \<Rightarrow> rat" where
  "climate_base inp = (case ti_state inp of
     Some (TemperatureState t) \<Rightarrow> (case t_targetC t of None \<Rightarrow> t_ambientC t | Some c \<Rightarrow> c) | _ \<Rightarrow> 21)"

definition target_temp :: "rat \<Rightarrow> error + intent_command" where
  "target_temp c = ic (CmdTemperature (no_temperature\<lparr>tc_targetC := Some c\<rparr>))"

definition set_mode :: "hvac_mode option \<Rightarrow> error + intent_command" where
  "set_mode m = ic (CmdTemperature (no_temperature\<lparr>tc_mode := m\<rparr>))"

fun hvac_mode_of :: "string \<Rightarrow> hvac_mode option" where
  "hvac_mode_of s = map_of [(''off'', HvOff), (''heat'', HvHeat), (''cool'', HvCool), (''auto'', HvAuto), (''fan_only'', HvFan_only)] s"

definition FAN_PRESET_ORDER :: "fan_preset list" where
  "FAN_PRESET_ORDER = [FpSleep, FpAuto, FpTurbo]"

text \<open>\<^verbatim>\<open>indexOf\<close>: the first position, or -1.\<close>

fun js_indexOf :: "'a \<Rightarrow> 'a list \<Rightarrow> int" where
  "js_indexOf x [] = -1"
| "js_indexOf x (y # ys) = (if x = y then 0 else let i = js_indexOf x ys in if i = -1 then -1 else i + 1)"

definition stepFanPreset :: "int \<Rightarrow> translate_input \<Rightarrow> fan_preset" where
  "stepFanPreset direction inp =
     (let current = (case ti_state inp of Some (FanState _ p _) \<Rightarrow> p | _ \<Rightarrow> FpAuto);
          index = js_indexOf current FAN_PRESET_ORDER
      in FAN_PRESET_ORDER ! nat (min (int (length FAN_PRESET_ORDER) - 1) (max 0 ((if index = -1 then 1 else index) + direction))))"

definition toggle_hvac :: "translate_input \<Rightarrow> hvac_mode" where
  "toggle_hvac inp = (case ti_state inp of Some (TemperatureState t) \<Rightarrow> (if t_mode t \<noteq> HvOff then HvOff else HvAuto) | _ \<Rightarrow> HvAuto)"

definition climate_intents :: "'w intent_registration list" where
  "climate_intents =
    [driven (def_intent ''increaseTemperature'' ''Increase Temperature'' CatClimate '''' [CkTemperature]
         [num_spec ''step'' False (1/2) 10 (Some 1) ''Degrees C to raise.''] at_devices)
       (\<lambda>inp. target_temp (climate_base inp + param_num ''step'' inp)),
     driven (def_intent ''decreaseTemperature'' ''Decrease Temperature'' CatClimate '''' [CkTemperature]
         [num_spec ''step'' False (1/2) 10 (Some 1) ''Degrees C to lower.''] at_devices)
       (\<lambda>inp. target_temp (climate_base inp - param_num ''step'' inp)),
     driven (def_intent ''setTemperature'' ''Set Temperature'' CatClimate '''' [CkTemperature]
         [num_spec ''targetC'' True 5 35 None ''Target setpoint in Celsius.''] at_devices)
       (\<lambda>inp. target_temp (param_num ''targetC'' inp)),
     driven (def_intent ''fanSpeedUp'' ''Fan Speed Up'' CatClimate
         (''Steps a fan device through its preset order: sleep '' @ arrow @ '' auto '' @ arrow @ '' turbo.'') [CkFan] [] at_devices)
       (\<lambda>inp. ic (CmdFan FaPreset (Some (stepFanPreset 1 inp)) None)),
     driven (def_intent ''fanSpeedDown'' ''Fan Speed Down'' CatClimate
         (''Steps a fan device through its preset order: turbo '' @ arrow @ '' auto '' @ arrow @ '' sleep.'') [CkFan] [] at_devices)
       (\<lambda>inp. ic (CmdFan FaPreset (Some (stepFanPreset (-1) inp)) None)),
     driven (def_intent ''hvacMode'' ''HVAC Mode'' CatClimate '''' [CkTemperature]
         [enum_spec ''mode'' True [''off'', ''heat'', ''cool'', ''auto'', ''fan_only''] None ''Target HVAC mode.''] at_devices)
       (\<lambda>inp. set_mode (hvac_mode_of (param_str ''mode'' (ti_params inp)))),
     driven (def_intent ''toggleHVAC'' ''Toggle HVAC'' CatClimate (''Off '' @ arrow @ '' Auto, Auto/Heat/Cool/Fan-only '' @ arrow @ '' Off.'')
         [CkTemperature] [] at_devices)
       (\<lambda>inp. set_mode (Some (toggle_hvac inp))),
     driven (def_intent ''swingMode'' ''Swing Mode'' CatClimate
         ''Not yet executable: swing position is not a modeled Supreme capability field.'' [CkTemperature] [] at_devices)
       (\<lambda>_. Inl (unsupported ''swing position'' ''swingMode''))]"

section \<open>AV\<close>

definition media_volume :: "translate_input \<Rightarrow> rat" where
  "media_volume inp = (case ti_state inp of Some (MediaState m) \<Rightarrow> m_volume m | _ \<Rightarrow> 0)"

definition set_volume :: "rat \<Rightarrow> error + intent_command" where
  "set_volume v = ic (CmdMedia ((media_act MeVolume)\<lparr>mc_volume := Some v\<rparr>))"

definition mute_action :: "translate_input \<Rightarrow> media_action" where
  "mute_action inp = (case ti_state inp of Some (MediaState m) \<Rightarrow> (if m_muted m then MeUnmute else MeMute) | _ \<Rightarrow> MeMute)"

definition play_action :: "translate_input \<Rightarrow> media_action" where
  "play_action inp = (case ti_state inp of Some (MediaState m) \<Rightarrow> (if m_playback m = Playing then MePause else MePlay) | _ \<Rightarrow> MePlay)"

text \<open>\<^verbatim>\<open>%\<close> keeps the sign of the dividend.\<close>

definition js_rem :: "int \<Rightarrow> int \<Rightarrow> int" where
  "js_rem a n = (if a < 0 then - ((- a) mod n) else a mod n)"

text \<open>The \<^verbatim>\<open>id\<close> of each input: reading it off \<^verbatim>\<open>null\<close> throws, and it may be missing.\<close>

fun input_ids :: "json list \<Rightarrow> error + json option list" where
  "input_ids [] = Inr []"
| "input_ids (j # js) =
     (case j of
        JsNull \<Rightarrow> Inl (PlainError ''Cannot read properties of null (reading 'id')'')
      | _ \<Rightarrow> (case input_ids js of Inl e \<Rightarrow> Inl e
           | Inr ids \<Rightarrow> Inr ((case j of JsObject kvs \<Rightarrow> jget kvs ''id'' | _ \<Rightarrow> None) # ids)))"

definition stepMediaInput :: "int \<Rightarrow> translate_input \<Rightarrow> error + intent_command" where
  "stepMediaInput direction inp =
     (case (case ti_capabilityConfig inp of None \<Rightarrow> None | Some cfg \<Rightarrow> jget cfg ''inputs'') of
        Some (JsArray (x # xs)) \<Rightarrow>
          (case input_ids (x # xs) of
             Inl e \<Rightarrow> Inl e
           | Inr ids \<Rightarrow>
               (let source = (case ti_state inp of Some (MediaState m) \<Rightarrow> truthy (m_source m) | _ \<Rightarrow> None);
                    index = (case source of None \<Rightarrow> -1 | Some s \<Rightarrow> js_indexOf (Some (JsString s)) ids);
                    n = int (length ids);
                    next = js_rem (js_rem ((if index = -1 then 0 else index) + direction) n + n) n
                in Inr (IcSource (ids ! nat next))))
      | _ \<Rightarrow> Inl (SupremeError Backend_unavailable ''device has no known input list to cycle (no capability config reported)''))"

definition input_desc :: string where
  "input_desc = ''Cycles the device's real, driver-reported input list '' @ em_dash @ '' never a guessed input.''"

definition av_intents :: "'w intent_registration list" where
  "av_intents =
    [driven (def_intent ''powerToggle'' ''Power Toggle'' CatAv
         ''Toggle an AV device's power (the same onoff capability toggleLight uses).'' [CkOnoff] [] at_devices) toggleOnOff,
     driven (def_intent ''volumeUp'' ''Volume Up'' CatAv '''' [CkMedia] [step_percent ''Percentage points.''] at_devices)
       (\<lambda>inp. set_volume (clamp (media_volume inp + param_num ''step'' inp) 0 100)),
     driven (def_intent ''volumeDown'' ''Volume Down'' CatAv '''' [CkMedia] [step_percent ''Percentage points.''] at_devices)
       (\<lambda>inp. set_volume (clamp (media_volume inp - param_num ''step'' inp) 0 100)),
     driven (def_intent ''mute'' ''Mute'' CatAv ''Toggle mute based on the device's current reported mute state.'' [CkMedia] [] at_devices)
       (\<lambda>inp. ic (CmdMedia (media_act (mute_action inp)))),
     driven (def_intent ''playPause'' ''Play/Pause'' CatAv '''' [CkMedia] [] at_devices)
       (\<lambda>inp. ic (CmdMedia (media_act (play_action inp)))),
     driven (def_intent ''stop'' ''Stop'' CatAv '''' [CkMedia] [] at_devices) (\<lambda>_. ic (CmdMedia (media_act MeStop))),
     driven (def_intent ''nextTrack'' ''Next Track'' CatAv '''' [CkMedia] [] at_devices) (\<lambda>_. ic (CmdMedia (media_act MeNext))),
     driven (def_intent ''previousTrack'' ''Previous Track'' CatAv '''' [CkMedia] [] at_devices) (\<lambda>_. ic (CmdMedia (media_act MePrevious))),
     driven (def_intent ''inputNext'' ''Next Input'' CatAv input_desc [CkMedia] [] at_devices) (stepMediaInput 1),
     driven (def_intent ''inputPrevious'' ''Previous Input'' CatAv input_desc [CkMedia] [] at_devices) (stepMediaInput (-1))]"

section \<open>Blinds\<close>

definition tilt_desc :: string where
  "tilt_desc = ''Not yet executable: slat tilt angle is not a modeled Supreme capability field.''"

definition blinds_intents :: "'w intent_registration list" where
  "blinds_intents =
    [driven (def_intent ''open'' ''Open'' CatBlinds '''' [CkPosition] [] at_devices) (\<lambda>_. ic (CmdPosition PoOpen None)),
     driven (def_intent ''close'' ''Close'' CatBlinds '''' [CkPosition] [] at_devices) (\<lambda>_. ic (CmdPosition PoClose None)),
     driven (def_intent ''stopCover'' ''Stop'' CatBlinds ''Named stopCover (not stop) to avoid colliding with AV's Stop intent id.''
       [CkPosition] [] at_devices) (\<lambda>_. ic (CmdPosition PoStop None)),
     driven (def_intent ''tiltUp'' ''Tilt Up'' CatBlinds tilt_desc [CkPosition] [] at_devices) (\<lambda>_. Inl (unsupported ''tilt'' ''tiltUp'')),
     driven (def_intent ''tiltDown'' ''Tilt Down'' CatBlinds tilt_desc [CkPosition] [] at_devices) (\<lambda>_. Inl (unsupported ''tilt'' ''tiltDown''))]"

section \<open>Security and system\<close>

definition with_security :: "'w intent_executors \<Rightarrow> ('w security_executors \<Rightarrow> ('w, unit) eff) \<Rightarrow> ('w, unit) eff" where
  "with_security ex act = (case ie_security ex of
     None \<Rightarrow> eff_throw (SupremeError Backend_unavailable ''no security panel is configured on this hub'') | Some sx \<Rightarrow> act sx)"

definition security_intents :: "'w intent_registration list" where
  "security_intents =
    [driven (def_intent ''lock'' ''Lock'' CatSecurity '''' [CkLock] [] at_devices) (\<lambda>_. ic (CmdLock LoLock)),
     driven (def_intent ''unlock'' ''Unlock'' CatSecurity '''' [CkLock] [] at_devices) (\<lambda>_. ic (CmdLock LoUnlock)),
     on_hub (def_intent ''arm'' ''Arm'' CatSecurity '''' []
         [enum_spec ''mode'' False [''armed_home'', ''armed_away'', ''armed_night''] (Some ''armed_away'') ''Arm mode.''] [TkHome])
       (\<lambda>_ ps ex. with_security ex (\<lambda>sx. sx_arm sx (param_str ''mode'' ps))),
     on_hub (def_intent ''disarm'' ''Disarm'' CatSecurity '''' [] [] [TkHome]) (\<lambda>_ _ ex. with_security ex sx_disarm),
     on_hub (def_intent ''panic'' ''Panic'' CatSecurity '''' [] [] [TkHome]) (\<lambda>_ _ ex. with_security ex sx_panic)]"

definition run_automation_handler :: "'w intent_handler" where
  "run_automation_handler tgt ps ex =
     (case tgt of TargetAutomation a \<Rightarrow> ie_runAutomation ex a
      | _ \<Rightarrow> eff_throw (SupremeError Validation_failed ''runAutomation requires an automation target''))"

definition no_backend :: "string \<Rightarrow> string \<Rightarrow> 'w intent_handler" where
  "no_backend i what tgt ps ex = eff_throw (SupremeError Backend_unavailable
     (i @ '' is registered but has no execution backend '' @ em_dash @ '' SupremeOS has no '' @ what @ '' yet''))"

definition system_intents :: "'w intent_registration list" where
  "system_intents =
    [on_hub (def_intent ''runAutomation'' ''Run Automation'' CatSystem '''' [] [] [TkAutomation]) run_automation_handler,
     on_hub (def_intent ''runScene'' ''Run Scene'' CatSystem '''' [] [] [TkScene]) runSceneHandler,
     on_hub (def_intent ''executeScript'' ''Execute Script'' CatSystem ''Not yet executable: SupremeOS has no script sandbox/engine.''
       [] [] [TkHome]) (no_backend ''executeScript'' ''script engine''),
     on_hub (def_intent ''notification'' ''Notification'' CatSystem '''' []
         [enum_spec ''level'' False [''info'', ''warning'', ''critical''] (Some ''info'') ''Notification severity.'',
          string_spec ''title'' True None ''Notification title.'', string_spec ''body'' False (Some '''') ''Notification body.''] [TkHome])
       (\<lambda>_ ps ex. ie_notify ex (param_str ''level'' ps) (param_str ''title'' ps) (param_str ''body'' ps) None),
     on_hub (def_intent ''webhook'' ''Webhook'' CatSystem ''Not yet executable: SupremeOS has no outbound webhook dispatcher.''
       [] [] [TkHome]) (no_backend ''webhook'' ''webhook dispatcher'')]"

definition builtin_intents :: "'w intent_registration list" where
  "builtin_intents = lighting_intents @ climate_intents @ av_intents @ blinds_intents @ security_intents @ system_intents"

fun register_all :: "'w intent_registration list \<Rightarrow> 'w intent_registry \<Rightarrow> error + 'w intent_registry" where
  "register_all [] reg = Inr reg"
| "register_all (r # rs) reg =
     (case intent_register (ir_definition r) (ir_translate r) (ir_runSystem r) reg of Inl e \<Rightarrow> Inl e | Inr reg' \<Rightarrow> register_all rs reg')"

definition registerBuiltinIntents :: "'w intent_registry \<Rightarrow> error + 'w intent_registry" where
  "registerBuiltinIntents reg = register_all builtin_intents reg"

section \<open>The catalog is well formed\<close>

text \<open>The pattern \<^verbatim>\<open>^[a-z][a-zA-Z0-9]*$\<close> of an intent id.\<close>

definition alnum :: "char \<Rightarrow> bool" where
  "alnum c = (let n = (of_char c :: nat) in 97 \<le> n \<and> n \<le> 122 \<or> 65 \<le> n \<and> n \<le> 90 \<or> 48 \<le> n \<and> n \<le> 57)"

definition camel_case :: "string \<Rightarrow> bool" where
  "camel_case s = (case s of [] \<Rightarrow> False | c # cs \<Rightarrow> (let n = (of_char c :: nat) in 97 \<le> n \<and> n \<le> 122) \<and> list_all alnum cs)"

definition definition_ok :: "intent_definition \<Rightarrow> bool" where
  "definition_ok d \<longleftrightarrow> camel_case (id_id d) \<and> id_name d \<noteq> [] \<and> id_targetKinds d \<noteq> [] \<and>
     distinct (map ps_key (id_parameters d)) \<and> list_all spec_ok (id_parameters d)"

definition handler_ok :: "'w intent_registration \<Rightarrow> bool" where
  "handler_ok r \<longleftrightarrow> (if id_requiredCapabilities (ir_definition r) = [] then ir_runSystem r \<noteq> None
     else ir_translate r \<noteq> None \<and> ir_runSystem r = None)"

lemma register_ok:
  "handler_ok r \<Longrightarrow> intent_register (ir_definition r) (ir_translate r) (ir_runSystem r) reg = Inr (jset (id_id (ir_definition r)) r reg)"
  by (cases r) (auto simp: intent_register_def handler_ok_def Let_def)

lemma register_all_ok:
  assumes "list_all handler_ok rs" "distinct (map fst reg @ map (id_id \<circ> ir_definition) rs)"
  shows "register_all rs reg = Inr (reg @ map (\<lambda>r. (id_id (ir_definition r), r)) rs)"
  using assms
proof (induction rs arbitrary: reg)
  case (Cons r rs)
  then have "jget reg (id_id (ir_definition r)) = None" by (auto simp: map_of_eq_None_iff)
  with Cons show ?case by (simp add: register_ok jset_new)
qed simp

named_theorems catalog_simps \<open>the built-in intents\<close>

lemmas [catalog_simps] = builtin_intents_def lighting_intents_def climate_intents_def av_intents_def blinds_intents_def
  security_intents_def system_intents_def driven_def on_hub_def def_intent_def

lemma builtin_ids: "map (id_id \<circ> ir_definition) builtin_intents =
   [''toggleLight'', ''lightOn'', ''lightOff'', ''increaseBrightness'', ''decreaseBrightness'', ''setBrightness'', ''increaseCCT'',
    ''decreaseCCT'', ''setColor'', ''activateScene'', ''increaseTemperature'', ''decreaseTemperature'', ''setTemperature'',
    ''fanSpeedUp'', ''fanSpeedDown'', ''hvacMode'', ''toggleHVAC'', ''swingMode'', ''powerToggle'', ''volumeUp'', ''volumeDown'',
    ''mute'', ''playPause'', ''stop'', ''nextTrack'', ''previousTrack'', ''inputNext'', ''inputPrevious'', ''open'', ''close'',
    ''stopCover'', ''tiltUp'', ''tiltDown'', ''lock'', ''unlock'', ''arm'', ''disarm'', ''panic'', ''runAutomation'', ''runScene'',
    ''executeScript'', ''notification'', ''webhook'']"
  by (simp add: catalog_simps)

lemma builtin_handlers: "list_all handler_ok builtin_intents"
  by (simp add: catalog_simps handler_ok_def)

lemma builtin_definitions: "list_all (definition_ok \<circ> ir_definition) builtin_intents"
  by (simp add: catalog_simps definition_ok_def camel_case_def alnum_def Let_def num_spec_def enum_spec_def string_spec_def
      step_percent_def spec_ok_def validateOne_def)

lemma builtin_distinct: "distinct (map (id_id \<circ> ir_definition) builtin_intents)"
  unfolding builtin_ids by simp

lemma registered_builtins:
  "registerBuiltinIntents [] = Inr (map (\<lambda>r. (id_id (ir_definition r), r)) builtin_intents)"
  using register_all_ok [OF builtin_handlers, of "[]"] builtin_distinct by (simp add: registerBuiltinIntents_def)

text \<open>
  The built-in catalog registers completely: on an empty registry no registration is refused, every definition satisfies the
  schema, no intent replaces another, and looking an intent up finds the registration of the catalog.
\<close>

theorem catalog_registers:
  "\<exists>reg :: 'w intent_registry. registerBuiltinIntents [] = Inr reg \<and>
     intent_list reg = map ir_definition (builtin_intents :: 'w intent_registration list) \<and>
     list_all (definition_ok \<circ> ir_definition) (builtin_intents :: 'w intent_registration list) \<and>
     list_all (\<lambda>r. intent_get (id_id (ir_definition r)) reg = Some r) builtin_intents"
proof -
  have "distinct (map fst (map (\<lambda>r. (id_id (ir_definition r), r)) builtin_intents))"
    using builtin_distinct by (simp add: comp_def)
  then have "list_all (\<lambda>r. jget (map (\<lambda>r. (id_id (ir_definition r), r)) builtin_intents) (id_id (ir_definition r)) = Some r)
      (builtin_intents :: 'w intent_registration list)"
    unfolding list_all_iff by (auto intro: map_of_is_SomeI simp: comp_def)
  then show ?thesis
    using builtin_definitions by (simp add: registered_builtins intent_list_def intent_get_def comp_def)
qed

section \<open>Translated commands\<close>

fun intent_command_kind :: "intent_command \<Rightarrow> capability_kind" where
  "intent_command_kind (IcCommand c) = command_kind c"
| "intent_command_kind (IcKelvin k) = CkColor"
| "intent_command_kind (IcSource s) = CkMedia"

text \<open>
  A translated command meets the schema: a kelvin value is in range, and an integer unless the step the caller passed is not; a
  source is the id of one of the reported inputs.
\<close>

fun translated_ok :: "translate_input \<Rightarrow> intent_command \<Rightarrow> bool" where
  "translated_ok inp (IcCommand c) = command_ok c"
| "translated_ok inp (IcKelvin k) = (1000 \<le> k \<and> k \<le> 10000 \<and> (k \<in> \<int> \<or> param_num ''step'' inp \<notin> \<int>))"
| "translated_ok inp (IcSource s) =
     (\<exists>cfg xs ids. ti_capabilityConfig inp = Some cfg \<and> jget cfg ''inputs'' = Some (JsArray xs) \<and> input_ids xs = Inr ids \<and> s \<in> set ids)"

definition translates :: "'w intent_registration \<Rightarrow> bool" where
  "translates r \<longleftrightarrow> (\<forall>tr inp c. ir_translate r = Some tr \<longrightarrow> list_all (\<lambda>sp. satisfies sp (ti_params inp)) (id_parameters (ir_definition r)) \<longrightarrow>
     opt_ok state_ok (ti_state inp) \<longrightarrow> tr inp = Inr c \<longrightarrow>
     intent_command_kind c \<in> set (id_requiredCapabilities (ir_definition r)) \<and> translated_ok inp c)"

text \<open>
  What \<^verbatim>\<open>CapabilityCommand\<close> in \<^verbatim>\<open>capabilities.ts\<close> takes: an integer colour temperature in its range, and a source that is a string.
\<close>

fun meets_schema :: "intent_command \<Rightarrow> bool" where
  "meets_schema (IcCommand c) = command_ok c"
| "meets_schema (IcKelvin k) = (1000 \<le> k \<and> k \<le> 10000 \<and> k \<in> \<int>)"
| "meets_schema (IcSource s) = (case s of Some (JsString t) \<Rightarrow> True | _ \<Rightarrow> False)"

definition input_named :: "json \<Rightarrow> bool" where
  "input_named x \<longleftrightarrow> (case x of JsObject kvs \<Rightarrow> (case jget kvs ''id'' of Some (JsString t) \<Rightarrow> True | _ \<Rightarrow> False) | _ \<Rightarrow> False)"

definition reports_unnamed_input :: "translate_input \<Rightarrow> bool" where
  "reports_unnamed_input inp \<longleftrightarrow>
     (case (case ti_capabilityConfig inp of None \<Rightarrow> None | Some cfg \<Rightarrow> jget cfg ''inputs'') of
        Some (JsArray xs) \<Rightarrow> list_ex (\<lambda>x. \<not> input_named x) xs | _ \<Rightarrow> False)"

lemma input_ids_named:
  assumes "input_ids xs = Inr ids" "s \<in> set ids" "list_all input_named xs"
  shows "meets_schema (IcSource s)"
  using assms
  by (induction xs arbitrary: ids) (auto simp: input_named_def split: json.splits sum.splits option.splits)

lemma translated_meets_schema:
  assumes "translated_ok inp c"
  shows "meets_schema c \<or> (\<exists>k. c = IcKelvin k \<and> param_num ''step'' inp \<notin> \<int>) \<or> (\<exists>s. c = IcSource s \<and> reports_unnamed_input inp)"
proof (cases c)
  case (IcSource s)
  with assms obtain cfg xs ids where c: "ti_capabilityConfig inp = Some cfg" "jget cfg ''inputs'' = Some (JsArray xs)"
      "input_ids xs = Inr ids" "s \<in> set ids"
    by auto
  then have "meets_schema c" if "\<not> reports_unnamed_input inp"
    using that input_ids_named [OF c(3,4)] IcSource by (simp add: reports_unnamed_input_def list_all_iff list_ex_iff)
  with IcSource show ?thesis by blast
qed (use assms in auto)

lemma translates_driven:
  assumes "\<And>inp c. list_all (\<lambda>sp. satisfies sp (ti_params inp)) (id_parameters d) \<Longrightarrow> opt_ok state_ok (ti_state inp) \<Longrightarrow>
     tr inp = Inr c \<Longrightarrow> intent_command_kind c \<in> set (id_requiredCapabilities d) \<and> translated_ok inp c"
  shows "translates (driven d tr)"
  using assms by (simp add: translates_def driven_def)

lemma translates_on_hub [simp]: "translates (on_hub d h)"
  by (simp add: translates_def on_hub_def)

lemma satisfies_num:
  "satisfies (num_spec k req lo hi dflt desc) (ti_params inp) \<Longrightarrow>
     bag_get k (ti_params inp) = JUndef \<and> \<not> req \<and> dflt = None \<or> lo \<le> param_num k inp \<and> param_num k inp \<le> hi"
  by (cases "bag_get k (ti_params inp)") (auto simp: satisfies_def num_spec_def param_num_def validateOne_def split: if_splits)

lemma clamp_percent [simp]: "percent (clamp x 0 100)"
  using clamp_bounds [of 0 100 x] by (simp add: percent_def)

lemma clamp_Ints: "x \<in> \<int> \<Longrightarrow> clamp x 1000 10000 \<in> \<int>"
  by (auto simp: clamp_def max_def min_def)

lemma light_kelvin_Ints: "light_kelvin inp \<in> \<int>"
  by (simp add: light_kelvin_def split: option.split capability_state.split)

lemma kelvin_step:
  "s \<in> \<int> \<Longrightarrow> clamp (light_kelvin inp + s) 1000 10000 \<in> \<int>" "s \<in> \<int> \<Longrightarrow> clamp (light_kelvin inp - s) 1000 10000 \<in> \<int>"
  using light_kelvin_Ints [of inp] by (auto intro!: clamp_Ints)

lemma js_rem_twice: "0 < n \<Longrightarrow> \<bar>a\<bar> \<le> n \<Longrightarrow> js_rem (js_rem a n + n) n = a mod n"
proof -
  assume n: "0 < n" and a: "\<bar>a\<bar> \<le> n"
  show ?thesis
  proof (cases "a < 0")
    case True
    have "(- a) mod n < n" "0 \<le> (- a) mod n" using n by simp_all
    with True have "js_rem (js_rem a n + n) n = (- ((- a) mod n) + n) mod n" by (simp add: js_rem_def)
    also have "\<dots> = a mod n" by (simp add: mod_minus_eq)
    finally show ?thesis .
  next
    case False
    with n show ?thesis by (simp add: js_rem_def)
  qed
qed

lemma js_indexOf_range: "-1 \<le> js_indexOf x xs \<and> js_indexOf x xs < int (length xs)"
  by (induction xs) (auto simp: Let_def)

lemma input_ids_length: "input_ids xs = Inr ids \<Longrightarrow> length ids = length xs"
  by (induction xs arbitrary: ids) (auto split: json.splits sum.splits)

lemma stepMediaInput_source:
  assumes "stepMediaInput dir inp = Inr c" "\<bar>dir\<bar> = 1"
  shows "\<exists>s. c = IcSource s \<and> translated_ok inp (IcSource s)"
proof -
  obtain cfg x xs ids src where c: "ti_capabilityConfig inp = Some cfg" "jget cfg ''inputs'' = Some (JsArray (x # xs))"
      "input_ids (x # xs) = Inr ids"
      and ci: "c = IcSource (ids ! nat (js_rem (js_rem ((if src = -1 then 0 else src) + dir) (int (length ids)) + int (length ids)) (int (length ids))))"
      and src: "-1 \<le> src" "src < int (length ids)"
  proof -
    from assms(1) obtain cfg x xs ids where c: "ti_capabilityConfig inp = Some cfg" "jget cfg ''inputs'' = Some (JsArray (x # xs))"
        "input_ids (x # xs) = Inr ids"
      by (auto simp: stepMediaInput_def split: option.splits json.splits list.splits sum.splits)
    from input_ids_length [OF c(3)] have "0 < length ids" by simp
    with that [OF c] assms(1) c js_indexOf_range show ?thesis
      unfolding stepMediaInput_def Let_def by (force split: option.splits capability_state.splits)
  qed
  from input_ids_length [OF c(3)] have n: "0 < int (length ids)" by simp
  let ?a = "(if src = -1 then 0 else src) + dir"
  have "\<bar>?a\<bar> \<le> int (length ids)" using src assms(2) input_ids_length [OF c(3)] by auto
  with n have "js_rem (js_rem ?a (int (length ids)) + int (length ids)) (int (length ids)) = ?a mod int (length ids)"
    by (rule js_rem_twice)
  moreover have "nat (?a mod int (length ids)) < length ids" using n by (simp add: nat_less_iff)
  ultimately show ?thesis using c ci by (auto simp del: input_ids.simps)
qed

lemma translated_set_mode: "set_mode m = Inr c \<Longrightarrow> c = IcCommand (CmdTemperature (no_temperature\<lparr>tc_mode := m\<rparr>))"
  by (simp add: set_mode_def ic_def)

lemmas translator_simps = ic_def set_level_def target_temp_def set_mode_def set_volume_def toggleOnOff_def step_percent_def
  media_act_def no_temperature_def fade_ok_def

lemma lighting_translates: "list_all translates lighting_intents"
  unfolding lighting_intents_def list.pred_inject
  by (intro conjI translates_on_hub translates_driven TrueI)
    (auto simp: def_intent_def translator_simps color_params_def kelvin_step clamp_bounds percent_def dest!: satisfies_num
      split: if_splits)

lemma climate_translates: "list_all translates climate_intents"
  unfolding climate_intents_def list.pred_inject
  by (intro conjI translates_driven TrueI) (auto simp: def_intent_def translator_simps)

lemma av_translates: "list_all translates av_intents"
  unfolding av_intents_def list.pred_inject
  by (intro conjI translates_driven TrueI)
    (auto simp: def_intent_def translator_simps simp del: translated_ok.simps(3) dest!: stepMediaInput_source)

lemma blinds_translates: "list_all translates blinds_intents"
  unfolding blinds_intents_def list.pred_inject
  by (intro conjI translates_driven TrueI) (auto simp: def_intent_def translator_simps)

lemma security_translates: "list_all translates security_intents"
  unfolding security_intents_def list.pred_inject
  by (intro conjI translates_driven translates_on_hub TrueI) (auto simp: def_intent_def translator_simps)

lemma system_translates: "list_all translates system_intents"
  by (simp add: system_intents_def)

lemma builtin_translates: "list_all translates builtin_intents"
  by (simp add: builtin_intents_def lighting_translates climate_translates av_translates blinds_translates security_translates
      system_translates)

text \<open>
  C7: Every command an intent sends is one its capability takes: for each built-in intent, validated parameters, a state within its
  bounds and any reported configuration, the translated command is of a capability the intent requires and meets the command
  schema, with two exceptions, both findings: a colour temperature stepped by a fraction of a kelvin stays in range but is no integer
  (catalog.ts:139), and when the driver reports an input whose id is missing or no string, the input stepped to is sent as it was
  reported, so a media source may not be a string (catalog.ts:596). A source is always the id of a reported input.
\<close>

theorem translated_commands_typed:
  assumes "r \<in> set builtin_intents" "ir_translate r = Some tr" "validateIntentParams (ir_definition r) ps = Inr ps'"
    and "opt_ok state_ok st" "tr \<lparr>ti_params = ps', ti_state = st, ti_capabilityConfig = cfg\<rparr> = Inr c"
  shows "intent_command_kind c \<in> set (id_requiredCapabilities (ir_definition r)) \<and>
     (meets_schema c \<or> (\<exists>k. c = IcKelvin k \<and> param_num ''step'' \<lparr>ti_params = ps', ti_state = st, ti_capabilityConfig = cfg\<rparr> \<notin> \<int>) \<or>
       (\<exists>s. c = IcSource s \<and> reports_unnamed_input \<lparr>ti_params = ps', ti_state = st, ti_capabilityConfig = cfg\<rparr>)) \<and>
     translated_ok \<lparr>ti_params = ps', ti_state = st, ti_capabilityConfig = cfg\<rparr> c"
proof -
  have "translates r" "definition_ok (ir_definition r)"
    using assms(1) builtin_translates builtin_definitions by (auto simp: list_all_iff)
  moreover from this(2) have "list_all (\<lambda>sp. satisfies sp ps') (id_parameters (ir_definition r))"
    using validate_satisfies assms(3) by (auto simp: validateIntentParams_def definition_ok_def)
  ultimately have "intent_command_kind c \<in> set (id_requiredCapabilities (ir_definition r))"
      and ok: "translated_ok \<lparr>ti_params = ps', ti_state = st, ti_capabilityConfig = cfg\<rparr> c"
    using assms(2,4,5) unfolding translates_def by (metis translate_input.select_convs(1,2))+
  with translated_meets_schema [OF ok] show ?thesis by blast
qed

text \<open>
  A receiver that reports an input without an id is stepped to a source that is no text at all, which the command schema refuses
  and the engine, which does not parse its own commands, sends.
\<close>

theorem unnamed_input_sent:
  "stepMediaInput 1 \<lparr>ti_params = [], ti_state = None, ti_capabilityConfig = Some [(''inputs'', JsArray [JsObject [(''name'', JsString ''TV'')]])]\<rparr> =
     Inr (IcSource None) \<and> \<not> meets_schema (IcSource None)"
  by (simp add: stepMediaInput_def js_rem_def Let_def)

definition half_step :: translate_input where
  "half_step = \<lparr>ti_params = [(''step'', JNum (3/2))], ti_state = None, ti_capabilityConfig = None\<rparr>"

lemma half_kelvin: "(5403 / 2 :: rat) \<noteq> of_int k"
proof
  assume "(5403 / 2 :: rat) = of_int k"
  then have "(of_int 5403 :: rat) = of_int (2 * k)" by simp
  then have "5403 = 2 * k" by (simp only: of_int_eq_iff)
  then show False by presburger
qed

lemma half_step_command:
  "Inr (IcKelvin (clamp (light_kelvin half_step + param_num ''step'' half_step) 1000 10000)) = Inr (IcKelvin (5403 / 2))"
  by (simp add: half_step_def light_kelvin_def param_num_def bag_get_def clamp_def)

text \<open>
  A colour temperature can be stepped out of the schema: increaseCCT accepts a step of one and a half kelvin, and
  for a lamp that has reported nothing commands 2701.5 K, while the command schema takes an integer.
\<close>

theorem cct_step_leaves_schema:
  "\<exists>r tr. r \<in> set builtin_intents \<and> id_id (ir_definition r) = ''increaseCCT'' \<and> ir_translate r = Some tr \<and>
     validateIntentParams (ir_definition r) (ti_params half_step) = Inr (ti_params half_step) \<and>
     tr half_step = Inr (IcKelvin (5403 / 2)) \<and> (\<forall>k. (5403 / 2 :: rat) \<noteq> of_int k)"
proof -
  let ?r = "lighting_intents ! 6"
  have r: "?r \<in> set builtin_intents" by (simp add: builtin_intents_def lighting_intents_def)
  have i: "id_id (ir_definition ?r) = ''increaseCCT''" by (simp add: catalog_simps)
  have v: "validateIntentParams (ir_definition ?r) (ti_params half_step) = Inr (ti_params half_step)"
    by (simp add: catalog_simps validateIntentParams_def half_step_def bag_get_def num_spec_def validateOne_def)
  have tr: "ir_translate ?r = Some (\<lambda>inp. Inr (IcKelvin (clamp (light_kelvin inp + param_num ''step'' inp) 1000 10000)))"
    by (simp add: catalog_simps)
  show ?thesis
    by (rule exI, rule exI, intro conjI allI, rule r, rule i, rule tr, rule v, rule half_step_command, rule half_kelvin)
qed

theorem translated_commands_typed_witness:
  "intent_command_kind (IcCommand (CmdBrightness BrSet (Some 100) None)) = CkBrightness \<and>
     translated_ok \<lparr>ti_params = [(''step'', JNum 10)], ti_state = Some (BrightnessState True 95), ti_capabilityConfig = None\<rparr>
       (IcCommand (CmdBrightness BrSet (Some 100) None))"
proof -
  let ?r = "lighting_intents ! 3 :: unit intent_registration"
  have r: "?r \<in> set builtin_intents" by (simp add: builtin_intents_def lighting_intents_def)
  have tr: "ir_translate ?r = Some (\<lambda>inp. set_level (clamp (light_level inp + param_num ''step'' inp) 0 100))"
    by (simp add: catalog_simps)
  have ps: "validateIntentParams (ir_definition ?r) [] = Inr [(''step'', JNum 10)]"
    by (simp add: catalog_simps validateIntentParams_def bag_get_def num_spec_def step_percent_def)
  from translated_commands_typed [OF r tr ps, of "Some (BrightnessState True 95)" None]
  show ?thesis
    by (simp add: set_level_def ic_def light_level_def param_num_def bag_get_def percent_def clamp_def catalog_simps)
qed

end
