(* ===== verification/Home_Service.thy ===== *)
theory Home_Service
  imports Capability_Index Integration_Layer
begin

text \<open>
  The home service, \<^verbatim>\<open>services/home/src/home-service.ts\<close>: rooms, devices and favourites over the store, the entity registry
  behind the integration layer, and the changes it announces. The demonstration home the file also seeds is left out.
\<close>

datatype device_change = DevUpsert device | DevDelete device_id

text \<open>\<open>hm_events\<close> is what the listeners of \<^verbatim>\<open>onDeviceChanged\<close> were called with.\<close>

record 'h home_service =
  hm_store :: home_store
  hm_sil :: "'h sil"
  hm_events :: "device_change list"

definition DEVICE_LEVEL_BACKEND_ID_KEY :: string where
  "DEVICE_LEVEL_BACKEND_ID_KEY = ''__device__''"

definition emitChanged :: "device_change \<Rightarrow> 'h home_service \<Rightarrow> 'h home_service" where
  "emitChanged e h = h\<lparr>hm_events := hm_events h @ [e]\<rparr>"

definition entity_ref :: "string \<Rightarrow> backend_entity_ref" where
  "entity_ref b = \<lparr>br_backendId = b, br_backendDomain = hd (js_split (CHR ''.'') b), br_backendAttr = None\<rparr>"

text \<open>The answer of \<^verbatim>\<open>mapEntities\<close>, whether anything was mapped, is not used by its callers.\<close>

definition map_capability :: "device_id \<Rightarrow> (string, string) jsmap \<Rightarrow> capability_kind \<Rightarrow> 'h sil \<Rightarrow> 'h sil" where
  "map_capability d ids k s =
     (case truthy (jget ids (kind_name k)) of None \<Rightarrow> s | Some b \<Rightarrow> mapEntity d k (entity_ref b) s)"

definition mapEntities :: "device \<Rightarrow> (string, string) jsmap \<Rightarrow> 'h sil \<Rightarrow> 'h sil" where
  "mapEntities dv ids s = fold (map_capability (dv_id dv) ids) (kinds dv) s"

definition rebind_device :: "stored_device \<Rightarrow> 'h sil \<Rightarrow> 'h sil" where
  "rebind_device sd s =
     (let dv = sd_device sd; ids = sd_backendIds sd;
          s1 = (case truthy (jget ids DEVICE_LEVEL_BACKEND_ID_KEY) of None \<Rightarrow> s | Some b \<Rightarrow> mapDeviceEntity (dv_id dv) b s)
      in if ids = [] then s1 else mapEntities dv ids s1)"

definition rebindRegistry :: "'h home_service \<Rightarrow> 'h home_service" where
  "rebindRegistry h = h\<lparr>hm_sil := fold rebind_device (hs_listDevices (hm_store h)) (hm_sil h)\<rparr>"

definition requireRoom :: "room_id \<Rightarrow> ('h home_service, room) eff" where
  "requireRoom r = (\<lambda>h. case jget (hs_rooms (hm_store h)) r of
     None \<Rightarrow> (Inl (SupremeError Not_found ''room not found''), h) | Some x \<Rightarrow> (Inr x, h))"

definition setHome :: "home \<Rightarrow> 'h home_service \<Rightarrow> 'h home_service" where
  "setHome x h = h\<lparr>hm_store := hs_putHome x (hm_store h)\<rparr>"

definition addRoom :: "room \<Rightarrow> 'h home_service \<Rightarrow> 'h home_service" where
  "addRoom r h = h\<lparr>hm_store := hs_putRoom r (hm_store h)\<rparr>"

definition listDevicesInRoom :: "room_id \<Rightarrow> 'h home_service \<Rightarrow> device list" where
  "listDevicesInRoom r h = filter (\<lambda>d. dv_roomId d = Some r) (map sd_device (hs_listDevices (hm_store h)))"

definition unassign :: "device_id \<Rightarrow> home_store \<Rightarrow> home_store" where
  "unassign d s = (case hs_getDevice d s of None \<Rightarrow> s
     | Some x \<Rightarrow> hs_putDevice ((sd_device x)\<lparr>dv_roomId := None\<rparr>) (sd_backendIds x) s)"

definition removeRoom :: "room_id \<Rightarrow> ('h home_service, unit) eff" where
  "removeRoom r = eff_bind (requireRoom r) (\<lambda>_ h.
     (Inr (), h\<lparr>hm_store := hs_deleteRoom r (fold unassign (map dv_id (listDevicesInRoom r h)) (hm_store h))\<rparr>))"

definition putDevice :: "device \<Rightarrow> (string, string) jsmap \<Rightarrow> 'h home_service \<Rightarrow> 'h home_service" where
  "putDevice dv ids h = emitChanged (DevUpsert dv) (h\<lparr>hm_store := hs_putDevice dv ids (hm_store h)\<rparr>)"

definition persisted_ids :: "device \<Rightarrow> (string, string) jsmap \<Rightarrow> string option \<Rightarrow> (string, string) jsmap" where
  "persisted_ids dv ids own =
     (case truthy own of Some b \<Rightarrow> (if dv_capabilities dv = [] then jset DEVICE_LEVEL_BACKEND_ID_KEY b ids else ids) | None \<Rightarrow> ids)"

definition addDevice :: "device \<Rightarrow> (string, string) jsmap \<Rightarrow> string option \<Rightarrow> 'h home_service \<Rightarrow> 'h home_service" where
  "addDevice dv ids own h =
     (let s1 = mapEntities dv ids (hm_sil h);
          s2 = (case truthy own of Some b \<Rightarrow> (if dv_capabilities dv = [] then mapDeviceEntity (dv_id dv) b s1 else s1) | None \<Rightarrow> s1)
      in putDevice dv (persisted_ids dv ids own) (h\<lparr>hm_sil := s2\<rparr>))"

definition applyState :: "device_id \<Rightarrow> capability_state \<Rightarrow> 'h home_service \<Rightarrow> device option \<times> 'h home_service" where
  "applyState d st h =
     (case hs_getDevice d (hm_store h) of None \<Rightarrow> (None, h)
      | Some x \<Rightarrow> (let next = jset (state_kind st) st (dv_state (sd_device x))
          in (Some ((sd_device x)\<lparr>dv_state := next\<rparr>), h\<lparr>hm_store := hs_updateDeviceState d next (hm_store h)\<rparr>)))"

record device_patch =
  dp_name :: "string option"
  dp_roomId :: "room_id option"
  dp_metadata :: "json_bag option"

definition patch_device :: "device_patch \<Rightarrow> device \<Rightarrow> device" where
  "patch_device p dv = dv\<lparr>dv_name := (case dp_name p of None \<Rightarrow> dv_name dv | Some n \<Rightarrow> n),
     dv_roomId := (case dp_roomId p of None \<Rightarrow> dv_roomId dv | Some r \<Rightarrow> Some r),
     dv_metadata := (case dp_metadata p of None \<Rightarrow> dv_metadata dv | Some m \<Rightarrow> merge_bag (dv_metadata dv) m)\<rparr>"

definition updateDevice :: "device_id \<Rightarrow> device_patch \<Rightarrow> ('h home_service, device) eff" where
  "updateDevice d p = (\<lambda>h.
     case hs_getDevice d (hm_store h) of
       None \<Rightarrow> (Inl (SupremeError Not_found ''device not found''), h)
     | Some x \<Rightarrow> eff_bind (case dp_roomId p of None \<Rightarrow> eff_return () | Some r \<Rightarrow> eff_bind (requireRoom r) (\<lambda>_. eff_return ()))
         (\<lambda>_ h'. (Inr (patch_device p (sd_device x)), putDevice (patch_device p (sd_device x)) (sd_backendIds x) h')) h)"

text \<open>An empty driver id counts as none.\<close>

definition setDriverOwner :: "device_id \<Rightarrow> driver_id \<Rightarrow> 'h home_service \<Rightarrow> 'h home_service" where
  "setDriverOwner d drv h =
     (case hs_getDevice d (hm_store h) of None \<Rightarrow> h
      | Some x \<Rightarrow> if truthy (dv_driverId (sd_device x)) \<noteq> None then h
                  else putDevice ((sd_device x)\<lparr>dv_driverId := Some drv\<rparr>) (sd_backendIds x) h)"

definition clone_of :: "device_id \<Rightarrow> device \<Rightarrow> device" where
  "clone_of new src = src\<lparr>dv_id := new, dv_name := dv_name src @ '' (copy)'', dv_state := [],
     dv_metadata := jset ''clonedFrom'' (JsString (dv_id src)) (dv_metadata src)\<rparr>"

definition cloneDevice :: "device_id \<Rightarrow> device_id \<Rightarrow> ('h home_service, device) eff" where
  "cloneDevice new d = (\<lambda>h.
     case hs_getDevice d (hm_store h) of
       None \<Rightarrow> (Inl (SupremeError Not_found ''device not found''), h)
     | Some x \<Rightarrow> (Inr (clone_of new (sd_device x)), putDevice (clone_of new (sd_device x)) [] h))"

definition move_device :: "room_id \<Rightarrow> device_id \<Rightarrow> nat \<times> 'h home_service \<Rightarrow> nat \<times> 'h home_service" where
  "move_device r d = (\<lambda>(n, h).
     case hs_getDevice d (hm_store h) of None \<Rightarrow> (n, h)
     | Some x \<Rightarrow> (n + 1, putDevice ((sd_device x)\<lparr>dv_roomId := Some r\<rparr>) (sd_backendIds x) h))"

definition moveDevices :: "device_id list \<Rightarrow> room_id \<Rightarrow> ('h home_service, nat) eff" where
  "moveDevices ds r = eff_bind (requireRoom r) (\<lambda>_ h. let (n, h') = fold (move_device r) ds (0, h) in (Inr n, h'))"

definition delete_device :: "'h driver_ops \<Rightarrow> timestamp \<Rightarrow> device_id \<Rightarrow> ('h home_service, unit) eff" where
  "delete_device ops now d = (\<lambda>h.
     case sil_unmapDevice ops d now (hm_sil h) of
       (Inl e, s) \<Rightarrow> (Inl e, h\<lparr>hm_sil := s\<rparr>)
     | (Inr _, s) \<Rightarrow> (Inr (), emitChanged (DevDelete d) (h\<lparr>hm_sil := s, hm_store := hs_deleteDevice d (hm_store h)\<rparr>)))"

fun removeDevices :: "'h driver_ops \<Rightarrow> timestamp \<Rightarrow> device_id list \<Rightarrow> ('h home_service, nat) eff" where
  "removeDevices ops now [] = eff_return 0"
| "removeDevices ops now (d # ds) = (\<lambda>h.
     if hs_getDevice d (hm_store h) = None then removeDevices ops now ds h
     else eff_bind (delete_device ops now d) (\<lambda>_. eff_bind (removeDevices ops now ds) (\<lambda>n. eff_return (n + 1))) h)"

definition removeDevice :: "'h driver_ops \<Rightarrow> timestamp \<Rightarrow> device_id \<Rightarrow> ('h home_service, unit) eff" where
  "removeDevice ops now d = (\<lambda>h.
     if hs_getDevice d (hm_store h) = None then (Inl (SupremeError Not_found ''device not found''), h)
     else delete_device ops now d h)"

definition setDeviceMetadata :: "device_id \<Rightarrow> json_bag \<Rightarrow> 'h home_service \<Rightarrow> device option \<times> 'h home_service" where
  "setDeviceMetadata d patch h =
     (case hs_getDevice d (hm_store h) of None \<Rightarrow> (None, h)
      | Some x \<Rightarrow> (let dv = (sd_device x)\<lparr>dv_metadata := merge_bag (dv_metadata (sd_device x)) patch\<rparr>
          in (Some dv, putDevice dv (sd_backendIds x) h)))"

definition set_config :: "capability_kind \<Rightarrow> json_bag \<Rightarrow> device_capability \<Rightarrow> device_capability" where
  "set_config k cfg c = (if dc_kind c = k then c\<lparr>dc_config := cfg\<rparr> else c)"

definition setCapabilityConfig :: "device_id \<Rightarrow> capability_kind \<Rightarrow> json_bag \<Rightarrow> 'h home_service \<Rightarrow> device option \<times> 'h home_service" where
  "setCapabilityConfig d k cfg h =
     (case hs_getDevice d (hm_store h) of None \<Rightarrow> (None, h)
      | Some x \<Rightarrow> (let dv = (sd_device x)\<lparr>dv_capabilities := map (set_config k cfg) (dv_capabilities (sd_device x))\<rparr>
          in (Some dv, putDevice dv (sd_backendIds x) h)))"

definition setFavorite :: "user_id \<Rightarrow> favorite_ref \<Rightarrow> bool \<Rightarrow> 'h home_service \<Rightarrow> 'h home_service" where
  "setFavorite u r on h =
     (if on then h\<lparr>hm_store := hs_putFavorite \<lparr>fv_userId = u, fv_ref = r, fv_sortOrder = length (hs_listFavorites u (hm_store h))\<rparr> (hm_store h)\<rparr>
      else h\<lparr>hm_store := hs_removeFavorite u r (hm_store h)\<rparr>)"

section \<open>The registry mirrors the store\<close>

text \<open>The entities of a stored device: by capability, by backend id (the last capability of several), and its own.\<close>

definition cap_entity :: "stored_device \<Rightarrow> capability_kind \<Rightarrow> string option" where
  "cap_entity sd k = (if k \<in> set (kinds (sd_device sd)) then truthy (jget (sd_backendIds sd) (kind_name k)) else None)"

definition cap_of :: "stored_device \<Rightarrow> string \<Rightarrow> capability_kind option" where
  "cap_of sd b = (let ks = filter (\<lambda>k. cap_entity sd k = Some b) (kinds (sd_device sd)) in if ks = [] then None else Some (last ks))"

definition own_entity :: "stored_device \<Rightarrow> string option" where
  "own_entity sd = truthy (jget (sd_backendIds sd) DEVICE_LEVEL_BACKEND_ID_KEY)"

definition keyed :: "entity_registry \<Rightarrow> bool" where
  "keyed m \<longleftrightarrow> (\<forall>key\<in>dom (jget (er_forward m)). \<exists>d k. key = device_key d k)"

definition mirrors :: "(device_id, stored_device) jsmap \<Rightarrow> entity_registry \<Rightarrow> bool" where
  "mirrors devs m \<longleftrightarrow> jwf (er_forward m) \<and>
     keyed m \<and>
     (\<forall>d k. er_resolve d k m = (case jget devs d of None \<Rightarrow> None | Some sd \<Rightarrow> map_option entity_ref (cap_entity sd k))) \<and>
     (\<forall>b d k. reverseLookup b m = Some (d, k) \<longleftrightarrow> (\<exists>sd. jget devs d = Some sd \<and> cap_of sd b = Some k)) \<and>
     (\<forall>d. backendIdOfDevice d m = (case jget devs d of None \<Rightarrow> None | Some sd \<Rightarrow> own_entity sd)) \<and>
     (\<forall>b d. reverseLookupDevice b m = Some d \<longleftrightarrow> (\<exists>sd. jget devs d = Some sd \<and> own_entity sd = Some b))"

text \<open>Two devices of the store never name one entity, and every device is stored under its own id.\<close>

definition entities_apart :: "stored_device \<Rightarrow> stored_device \<Rightarrow> bool" where
  "entities_apart x y \<longleftrightarrow> (\<forall>b. \<not> (cap_of x b \<noteq> None \<and> cap_of y b \<noteq> None) \<and> \<not> (own_entity x = Some b \<and> own_entity y = Some b))"

definition devices_ok :: "(device_id, stored_device) jsmap \<Rightarrow> bool" where
  "devices_ok devs \<longleftrightarrow> jwf devs \<and> (\<forall>d sd. jget devs d = Some sd \<longrightarrow> dv_id (sd_device sd) = d \<and> plain_id d) \<and>
     (\<forall>d e x y. jget devs d = Some x \<longrightarrow> jget devs e = Some y \<longrightarrow> d \<noteq> e \<longrightarrow> entities_apart x y)"

text \<open>Two registries that mirror one store answer every lookup alike.\<close>

definition same_answers :: "entity_registry \<Rightarrow> entity_registry \<Rightarrow> bool" where
  "same_answers m m' \<longleftrightarrow> (\<forall>d k b. er_resolve d k m = er_resolve d k m' \<and> reverseLookup b m = reverseLookup b m' \<and>
     backendIdOfDevice d m = backendIdOfDevice d m' \<and> reverseLookupDevice b m = reverseLookupDevice b m' \<and>
     isKnownBackendId b m = isKnownBackendId b m')"

lemma mirrors_same_answers:
  assumes "mirrors devs m" "mirrors devs m'"
  shows "same_answers m m'"
proof -
  have r: "reverseLookup b m = reverseLookup b m'" for b
  proof (rule option.expand)
    show "(reverseLookup b m = None) = (reverseLookup b m' = None)"
      using assms unfolding mirrors_def by (metis option.exhaust_sel surj_pair)
    show "the (reverseLookup b m) = the (reverseLookup b m')" if "reverseLookup b m \<noteq> None" "reverseLookup b m' \<noteq> None"
    proof -
      from that obtain d k where "reverseLookup b m = Some (d, k)" by force
      with assms have "reverseLookup b m' = Some (d, k)" by (simp add: mirrors_def)
      with \<open>reverseLookup b m = Some (d, k)\<close> show ?thesis by simp
    qed
  qed
  have v: "reverseLookupDevice b m = reverseLookupDevice b m'" for b
    using assms unfolding mirrors_def by (metis option.exhaust)
  show ?thesis
    using assms r v unfolding same_answers_def
    by (auto simp: mirrors_def isKnownBackendId_def reverseLookup_def reverseLookupDevice_def)
qed

definition reg_cap :: "device_id \<Rightarrow> (string, string) jsmap \<Rightarrow> capability_kind \<Rightarrow> entity_registry \<Rightarrow> entity_registry" where
  "reg_cap d ids k m = (case truthy (jget ids (kind_name k)) of None \<Rightarrow> m | Some b \<Rightarrow> er_map d k (entity_ref b) m)"

definition reg_own :: "device_id \<Rightarrow> (string, string) jsmap \<Rightarrow> entity_registry \<Rightarrow> entity_registry" where
  "reg_own d ids m = (case truthy (jget ids DEVICE_LEVEL_BACKEND_ID_KEY) of None \<Rightarrow> m | Some b \<Rightarrow> mapDevice d b m)"

definition reg_add :: "stored_device \<Rightarrow> entity_registry \<Rightarrow> entity_registry" where
  "reg_add sd m = (let d = dv_id (sd_device sd); ids = sd_backendIds sd in fold (reg_cap d ids) (kinds (sd_device sd)) (reg_own d ids m))"

lemma fold_map_capability: "si_registry (fold (map_capability d ids) ks s) = fold (reg_cap d ids) ks (si_registry s)"
  by (induction ks arbitrary: s) (simp_all add: map_capability_def reg_cap_def mapEntity_def split: option.split)

lemma fold_reg_cap_none: "fold (reg_cap d []) ks m = m"
  by (induction ks) (simp_all add: reg_cap_def truthy_def)

lemma rebind_registry: "si_registry (rebind_device sd s) = reg_add sd (si_registry s)"
  by (simp add: rebind_device_def reg_add_def reg_own_def mapEntities_def fold_map_capability mapDeviceEntity_def Let_def
      fold_reg_cap_none split: option.split)

lemma reg_cap_own: "reg_cap d ids k (mapDevice e b m) = mapDevice e b (reg_cap d ids k m)"
  by (simp add: reg_cap_def mapDevice_def er_map_def split: option.split)

lemma cap_own_commute: "fold (reg_cap d ids) ks (mapDevice e b m) = mapDevice e b (fold (reg_cap d ids) ks m)"
  by (induction ks arbitrary: m) (simp_all add: reg_cap_own)

lemma reg_cap_answers:
  "er_resolve e k (reg_cap d ids k' m) =
     (if e = d \<and> k = k' \<and> truthy (jget ids (kind_name k)) \<noteq> None
      then map_option entity_ref (truthy (jget ids (kind_name k))) else er_resolve e k m)"
  "reverseLookup b (reg_cap d ids k' m) = (if truthy (jget ids (kind_name k')) = Some b then Some (d, k') else reverseLookup b m)"
  "jwf (er_forward m) \<Longrightarrow> jwf (er_forward (reg_cap d ids k' m))"
  "backendIdOfDevice e (reg_cap d ids k' m) = backendIdOfDevice e m"
  "reverseLookupDevice b (reg_cap d ids k' m) = reverseLookupDevice b m"
  by (auto simp: reg_cap_def er_resolve_def reverseLookup_def er_map_def entity_ref_def backendIdOfDevice_def
      reverseLookupDevice_def split: option.split)

lemma fold_reg_cap_resolve:
  "er_resolve e k (fold (reg_cap d ids) ks m) =
     (if e = d \<and> k \<in> set ks \<and> truthy (jget ids (kind_name k)) \<noteq> None
      then map_option entity_ref (truthy (jget ids (kind_name k))) else er_resolve e k m)"
  by (induction ks arbitrary: m) (auto simp: reg_cap_answers(1))

lemma fold_reg_cap_reverse:
  "reverseLookup b (fold (reg_cap d ids) ks m) =
     (let hits = filter (\<lambda>k. truthy (jget ids (kind_name k)) = Some b) ks
      in if hits = [] then reverseLookup b m else Some (d, last hits))"
  by (induction ks arbitrary: m) (auto simp: reg_cap_answers(2) Let_def)

lemma fold_reg_cap_own:
  "jwf (er_forward m) \<Longrightarrow> jwf (er_forward (fold (reg_cap d ids) ks m))"
  "backendIdOfDevice e (fold (reg_cap d ids) ks m) = backendIdOfDevice e m"
  "reverseLookupDevice b (fold (reg_cap d ids) ks m) = reverseLookupDevice b m"
  by (induction ks arbitrary: m) (simp_all add: reg_cap_answers(3-5))

lemma reg_cap_keys: "keyed m \<Longrightarrow> keyed (reg_cap d ids k m)"
  by (cases "truthy (jget ids (kind_name k))") (fastforce simp: keyed_def reg_cap_def er_map_def split: if_splits)+

lemma fold_reg_cap_keys: "keyed m \<Longrightarrow> keyed (fold (reg_cap d ids) ks m)"
  by (induction ks arbitrary: m) (simp_all add: reg_cap_keys)

lemma reg_own_keys: "keyed (reg_own d ids m) = keyed m"
  by (simp add: keyed_def reg_own_def mapDevice_def split: option.split)

lemma reg_own_fields:
  "er_forward (reg_own d ids m) = er_forward m" "reverseLookup b (reg_own d ids m) = reverseLookup b m"
  "er_resolve e k (reg_own d ids m) = er_resolve e k m"
  "backendIdOfDevice e (reg_own d ids m) =
     (if e = d \<and> truthy (jget ids DEVICE_LEVEL_BACKEND_ID_KEY) \<noteq> None then truthy (jget ids DEVICE_LEVEL_BACKEND_ID_KEY)
      else backendIdOfDevice e m)"
  "reverseLookupDevice b (reg_own d ids m) =
     (if truthy (jget ids DEVICE_LEVEL_BACKEND_ID_KEY) = Some b then Some d else reverseLookupDevice b m)"
  by (auto simp: reg_own_def mapDevice_def backendIdOfDevice_def reverseLookupDevice_def reverseLookup_def er_resolve_def
      split: option.split)

lemma mirrors_extend:
  assumes m: "mirrors devs m" and fresh: "jget devs (dv_id (sd_device sd)) = None"
    and apart: "\<And>e y. jget devs e = Some y \<Longrightarrow> entities_apart sd y"
  shows "mirrors (jset (dv_id (sd_device sd)) sd devs) (reg_add sd m)"
proof -
  let ?d = "dv_id (sd_device sd)" and ?ids = "sd_backendIds sd"
  have fw: "jwf (er_forward m)" "keyed m"
    and res: "\<And>d k. er_resolve d k m = (case jget devs d of None \<Rightarrow> None | Some sd \<Rightarrow> map_option entity_ref (cap_entity sd k))"
    and rev: "\<And>b d k. reverseLookup b m = Some (d, k) \<longleftrightarrow> (\<exists>sd. jget devs d = Some sd \<and> cap_of sd b = Some k)"
    and own: "\<And>d. backendIdOfDevice d m = (case jget devs d of None \<Rightarrow> None | Some sd \<Rightarrow> own_entity sd)"
    and rown: "\<And>b d. reverseLookupDevice b m = Some d \<longleftrightarrow> (\<exists>sd. jget devs d = Some sd \<and> own_entity sd = Some b)"
    using m by (simp_all add: mirrors_def)
  have cap: "cap_of sd b = (let hits = filter (\<lambda>k. truthy (jget ?ids (kind_name k)) = Some b) (kinds (sd_device sd))
      in if hits = [] then None else Some (last hits))" for b
  proof -
    have "filter (\<lambda>k. cap_entity sd k = Some b) (kinds (sd_device sd)) =
        filter (\<lambda>k. truthy (jget ?ids (kind_name k)) = Some b) (kinds (sd_device sd))"
      by (rule filter_cong) (simp_all add: cap_entity_def)
    then show ?thesis by (simp add: cap_of_def)
  qed
  have lookup: "reverseLookup b (reg_add sd m) = (case cap_of sd b of None \<Rightarrow> reverseLookup b m | Some k \<Rightarrow> Some (?d, k))" for b
    unfolding cap by (simp add: reg_add_def fold_reg_cap_reverse reg_own_fields Let_def)
  have other: "cap_of sd b = None" if "jget devs e = Some y" "cap_of y b = Some k" for e y b k
    using apart [OF that(1)] that(2) by (auto simp: entities_apart_def)
  have other': "own_entity sd \<noteq> Some b" if "jget devs e = Some y" "own_entity y = Some b" for e y b
    using apart [OF that(1)] that(2) by (auto simp: entities_apart_def)
  show ?thesis
    unfolding mirrors_def
  proof (intro conjI allI)
    show "jwf (er_forward (reg_add sd m))" by (simp add: reg_add_def Let_def fold_reg_cap_own(1) reg_own_fields fw)
    show "keyed (reg_add sd m)" using fw(2) by (simp add: reg_add_def Let_def fold_reg_cap_keys reg_own_keys)
    show "er_resolve d k (reg_add sd m) =
        (case jget (jset ?d sd devs) d of None \<Rightarrow> None | Some sd \<Rightarrow> map_option entity_ref (cap_entity sd k))" for d k
      using res [of d k] fresh
      by (auto simp: reg_add_def Let_def fold_reg_cap_resolve cap_entity_def reg_own_fields split: option.splits)
    show "reverseLookup b (reg_add sd m) = Some (d, k) \<longleftrightarrow>
        (\<exists>sd'. jget (jset ?d sd devs) d = Some sd' \<and> cap_of sd' b = Some k)" for b d k
      unfolding lookup using rev [of b d k] other fresh by (cases "d = ?d") (auto split: option.splits)
    show "backendIdOfDevice d (reg_add sd m) = (case jget (jset ?d sd devs) d of None \<Rightarrow> None | Some sd \<Rightarrow> own_entity sd)" for d
      using own [of d] fresh by (auto simp: reg_add_def Let_def fold_reg_cap_own(2) reg_own_fields own_entity_def split: option.splits)
    show "reverseLookupDevice b (reg_add sd m) = Some d \<longleftrightarrow>
        (\<exists>sd'. jget (jset ?d sd devs) d = Some sd' \<and> own_entity sd' = Some b)" for b d
      using rown [of b d] other' fresh
      by (cases "d = ?d") (auto simp: reg_add_def Let_def fold_reg_cap_own(3) reg_own_fields own_entity_def [of sd])
  qed
qed

lemma backendId_entity_ref [simp]: "br_backendId (entity_ref b) = b"
  by (simp add: entity_ref_def)

lemma cap_of_None: "cap_of sd b = None \<longleftrightarrow> (\<forall>k. cap_entity sd k \<noteq> Some b)"
  by (auto simp: cap_of_def Let_def filter_empty_conv cap_entity_def)

lemma unmap_own:
  "backendIdOfDevice e (unmapDevice d m) = (if e = d then None else backendIdOfDevice e m)"
  "reverseLookupDevice b (unmapDevice d m) = (if backendIdOfDevice d m = Some b then None else reverseLookupDevice b m)"
  by (auto simp: unmapDevice_def Let_def fold_drop(4,5) backendIdOfDevice_def reverseLookupDevice_def split: option.splits)

lemma mirrors_delete:
  assumes ok: "devices_ok devs" and m: "mirrors devs m" and p: "plain_id d"
  shows "mirrors (jdel d devs) (unmapDevice d m)"
proof -
  have fw: "jwf (er_forward m)" "keyed m"
    and res: "\<And>d k. er_resolve d k m = (case jget devs d of None \<Rightarrow> None | Some sd \<Rightarrow> map_option entity_ref (cap_entity sd k))"
    and rev: "\<And>b d k. reverseLookup b m = Some (d, k) \<longleftrightarrow> (\<exists>sd. jget devs d = Some sd \<and> cap_of sd b = Some k)"
    and own: "\<And>d. backendIdOfDevice d m = (case jget devs d of None \<Rightarrow> None | Some sd \<Rightarrow> own_entity sd)"
    and rown: "\<And>b d. reverseLookupDevice b m = Some d \<longleftrightarrow> (\<exists>sd. jget devs d = Some sd \<and> own_entity sd = Some b)"
    using m by (simp_all add: mirrors_def)
  have plain: "plain_id e" if "jget devs e = Some sd" for e sd using ok that by (simp add: devices_ok_def)
  have entry: "key_of_device d (fst x) \<and> br_backendId (snd x) = b \<longleftrightarrow> (\<exists>k. fst x = device_key d k \<and> br_backendId (snd x) = b)"
    if "x \<in> set (er_forward m)" for x b
  proof -
    have x: "jget (er_forward m) (fst x) = Some (snd x)" using fw(1) that by (simp add: jwf_def)
    then have "fst x \<in> dom (jget (er_forward m))" by blast
    with fw(2) obtain e k where e: "fst x = device_key e k" unfolding keyed_def by blast
    with x have "jget devs e \<noteq> None" using res [of e k] by (auto simp: er_resolve_def split: option.splits)
    with plain have "plain_id e" by auto
    with e p show ?thesis by (auto simp: key_of_device_iff)
  qed
  have dropped: "(\<exists>x\<in>set (er_forward m). key_of_device d (fst x) \<and> br_backendId (snd x) = b) \<longleftrightarrow>
      (\<exists>sd. jget devs d = Some sd \<and> cap_of sd b \<noteq> None)" for b
  proof -
    have "(\<exists>x\<in>set (er_forward m). key_of_device d (fst x) \<and> br_backendId (snd x) = b) \<longleftrightarrow>
        (\<exists>k r. er_resolve d k m = Some r \<and> br_backendId r = b)"
      using entry fw(1) by (force simp: er_resolve_def jwf_def)
    also have "\<dots> \<longleftrightarrow> (\<exists>sd. jget devs d = Some sd \<and> cap_of sd b \<noteq> None)"
      unfolding res cap_of_None by (cases "jget devs d") force+
    finally show ?thesis .
  qed
  have apart: "cap_of y b = None" if "jget devs d = Some x" "jget devs e = Some y" "e \<noteq> d" "cap_of x b \<noteq> None" for x y e b
    using ok that unfolding devices_ok_def entities_apart_def by metis
  have apart': "own_entity y \<noteq> Some b" if "jget devs d = Some x" "jget devs e = Some y" "e \<noteq> d" "own_entity x = Some b" for x y e b
    using ok that unfolding devices_ok_def entities_apart_def by metis
  show ?thesis
    unfolding mirrors_def
  proof (intro conjI allI)
    show "jwf (er_forward (unmapDevice d m))" using fw(1) by (rule unmap_jwf)
    have "dom (jget (er_forward (unmapDevice d m))) \<subseteq> dom (jget (er_forward m))"
      by (auto simp: unmap_forward split: if_splits)
    with fw(2) show "keyed (unmapDevice d m)" unfolding keyed_def by blast
    show "er_resolve e k (unmapDevice d m) =
        (case jget (jdel d devs) e of None \<Rightarrow> None | Some sd \<Rightarrow> map_option entity_ref (cap_entity sd k))" for e k
    proof (cases "jget devs e")
      case (Some sd)
      with res [of e k] plain [OF Some] p show ?thesis by (auto simp: er_resolve_def unmap_forward key_of_device_iff)
    qed (use res [of e k] in \<open>simp add: er_resolve_def unmap_forward\<close>)
    show "reverseLookup b (unmapDevice d m) = Some (e, k) \<longleftrightarrow> (\<exists>sd. jget (jdel d devs) e = Some sd \<and> cap_of sd b = Some k)" for b e k
      unfolding reverseLookup_def unmap_reverse dropped
      using rev [of b e k] apart by (cases "e = d") (auto simp: reverseLookup_def)
    show "backendIdOfDevice e (unmapDevice d m) = (case jget (jdel d devs) e of None \<Rightarrow> None | Some sd \<Rightarrow> own_entity sd)" for e
      using own [of e] by (simp add: unmap_own(1))
    show "reverseLookupDevice b (unmapDevice d m) = Some e \<longleftrightarrow> (\<exists>sd. jget (jdel d devs) e = Some sd \<and> own_entity sd = Some b)" for b e
      using rown [of b e] own [of d] apart' by (cases "e = d") (auto simp: unmap_own(2) split: option.splits)
  qed
qed

text \<open>Storing a device again with the same capabilities and backend ids changes neither side.\<close>

definition same_entities :: "stored_device \<Rightarrow> stored_device \<Rightarrow> bool" where
  "same_entities x y \<longleftrightarrow> dv_id (sd_device x) = dv_id (sd_device y) \<and> kinds (sd_device x) = kinds (sd_device y) \<and>
     sd_backendIds x = sd_backendIds y"

lemma same_entitiesD:
  "same_entities x y \<Longrightarrow> cap_entity x = cap_entity y \<and> cap_of x = cap_of y \<and> own_entity x = own_entity y"
  by (intro conjI ext) (simp_all add: same_entities_def cap_entity_def cap_of_def own_entity_def)

lemma restore_ok:
  assumes "devices_ok devs" "jget devs d = Some x" "same_entities x y"
  shows "devices_ok (jset d y devs)"
proof -
  have apart: "entities_apart y z = entities_apart x z" "entities_apart z y = entities_apart z x" for z
    using same_entitiesD [OF assms(3)] by (simp_all add: entities_apart_def)
  have id: "dv_id (sd_device y) = dv_id (sd_device x)" using assms(3) by (simp add: same_entities_def)
  show ?thesis
    unfolding devices_ok_def
  proof (intro conjI allI impI)
    show "jwf (jset d y devs)" using assms(1) by (simp add: devices_ok_def)
    fix e f u v assume u: "jget (jset d y devs) e = Some u" and v: "jget (jset d y devs) f = Some v" and ne: "e \<noteq> f"
    have "\<And>e f u v. jget devs e = Some u \<Longrightarrow> jget devs f = Some v \<Longrightarrow> e \<noteq> f \<Longrightarrow> entities_apart u v"
      using assms(1) by (simp add: devices_ok_def)
    moreover have "e = d \<and> u = y \<or> jget devs e = Some u" "f = d \<and> v = y \<or> jget devs f = Some v"
      using u v by (auto split: if_splits)
    ultimately show "entities_apart u v" using ne assms(2) apart by metis
  next
    fix e u assume "jget (jset d y devs) e = Some u"
    then show "dv_id (sd_device u) = e" "plain_id e"
      using assms(1,2) id by (auto simp: devices_ok_def split: if_splits)
  qed
qed

lemma restore_mirrors:
  assumes "mirrors devs m" "jget devs d = Some x" "same_entities x y"
  shows "mirrors (jset d y devs) m"
proof -
  have eqs: "(case jget (jset d y devs) e of None \<Rightarrow> None | Some sd \<Rightarrow> map_option entity_ref (cap_entity sd k)) =
      (case jget devs e of None \<Rightarrow> None | Some sd \<Rightarrow> map_option entity_ref (cap_entity sd k))"
    "(case jget (jset d y devs) e of None \<Rightarrow> None | Some sd \<Rightarrow> own_entity sd) =
      (case jget devs e of None \<Rightarrow> None | Some sd \<Rightarrow> own_entity sd)"
    "(\<exists>sd. jget (jset d y devs) e = Some sd \<and> cap_of sd b = Some k) = (\<exists>sd. jget devs e = Some sd \<and> cap_of sd b = Some k)"
    "(\<exists>sd. jget (jset d y devs) e = Some sd \<and> own_entity sd = Some b) = (\<exists>sd. jget devs e = Some sd \<and> own_entity sd = Some b)"
    for e k b
    using same_entitiesD [OF assms(3)] assms(2) by auto
  show ?thesis using assms(1) unfolding mirrors_def eqs .
qed

end
