(* ===== verification/Home_Reachable.thy ===== *)
theory Home_Reachable
  imports Home_Service
begin

text \<open>
  What holds of a running home service: the entity registry mirrors the stored devices, so a restart brings the same registry
  back, and the capability index that the gateway feeds with the announced changes
  (\<^verbatim>\<open>services/gateway/src/context.ts\<close>) shows the stored devices.
\<close>

section \<open>Steps\<close>

definition hm_devices :: "'h home_service \<Rightarrow> (device_id, stored_device) jsmap" where
  "hm_devices h = hs_devices (hm_store h)"

text \<open>
  A device is added under a fresh id, and its backend entities belong to no other device (discovery and commissioning ask
  \<^verbatim>\<open>isKnownBackendId\<close>); a clone gets a fresh id.
\<close>

definition may_add :: "device \<Rightarrow> (string, string) jsmap \<Rightarrow> string option \<Rightarrow> 'h home_service \<Rightarrow> bool" where
  "may_add dv ids own h \<longleftrightarrow> plain_id (dv_id dv) \<and> jget (hm_devices h) (dv_id dv) = None \<and>
     jget ids DEVICE_LEVEL_BACKEND_ID_KEY = None \<and>
     (\<forall>e y. jget (hm_devices h) e = Some y \<longrightarrow> entities_apart \<lparr>sd_device = dv, sd_backendIds = persisted_ids dv ids own\<rparr> y)"

definition may_clone :: "device_id \<Rightarrow> 'h home_service \<Rightarrow> bool" where
  "may_clone new h \<longleftrightarrow> plain_id new \<and> jget (hm_devices h) new = None"

inductive device_step :: "'h driver_ops \<Rightarrow> 'h home_service \<Rightarrow> 'h home_service \<Rightarrow> bool" for ops where
  home: "device_step ops h (setHome x h)"
| room: "device_step ops h (addRoom r h)"
| add: "may_add dv ids own h \<Longrightarrow> device_step ops h (addDevice dv ids own h)"
| state: "device_step ops h (snd (applyState d st h))"
| update: "device_step ops h (snd (updateDevice d p h))"
| owner: "device_step ops h (setDriverOwner d drv h)"
| clone: "may_clone new h \<Longrightarrow> device_step ops h (snd (cloneDevice new d h))"
| move: "device_step ops h (snd (moveDevices ds r h))"
| remove: "device_step ops h (snd (removeDevice ops now d h))"
| remove_many: "device_step ops h (snd (removeDevices ops now ds h))"
| metadata: "device_step ops h (snd (setDeviceMetadata d patch h))"
| config: "device_step ops h (snd (setCapabilityConfig d k cfg h))"
| favorite: "device_step ops h (setFavorite u ref on h)"

inductive home_step :: "'h driver_ops \<Rightarrow> 'h home_service \<Rightarrow> 'h home_service \<Rightarrow> bool" for ops where
  device: "device_step ops h h' \<Longrightarrow> home_step ops h h'"
| remove_room: "home_step ops h (snd (removeRoom r h))"

definition booted :: "home_store \<Rightarrow> 'h sil \<Rightarrow> 'h home_service" where
  "booted st s = rebindRegistry \<lparr>hm_store = st, hm_sil = s\<lparr>si_registry := new_entity_registry\<rparr>, hm_events = []\<rparr>"

inductive home_reachable :: "'h driver_ops \<Rightarrow> 'h home_service \<Rightarrow> bool" for ops where
  boot: "devices_ok (hs_devices st) \<Longrightarrow> home_reachable ops (booted st s)"
| step: "home_reachable ops h \<Longrightarrow> home_step ops h h' \<Longrightarrow> home_reachable ops h'"

section \<open>The registry\<close>

definition home_inv :: "'h home_service \<Rightarrow> bool" where
  "home_inv h \<longleftrightarrow> devices_ok (hm_devices h) \<and> mirrors (hm_devices h) (si_registry (hm_sil h))"

lemma home_inv_store:
  "hm_devices h' = hm_devices h \<Longrightarrow> si_registry (hm_sil h') = si_registry (hm_sil h) \<Longrightarrow> home_inv h' = home_inv h"
  by (simp add: home_inv_def)

lemma putDevice_fields [simp]:
  "hm_devices (putDevice dv ids h) = jset (dv_id dv) \<lparr>sd_device = dv, sd_backendIds = ids\<rparr> (hm_devices h)"
  "hm_sil (putDevice dv ids h) = hm_sil h"
  "hm_events (putDevice dv ids h) = hm_events h @ [DevUpsert dv]"
  by (simp_all add: putDevice_def emitChanged_def hm_devices_def hs_putDevice_def)

lemma devices_id: "home_inv h \<Longrightarrow> jget (hm_devices h) d = Some x \<Longrightarrow> dv_id (sd_device x) = d"
  by (simp add: home_inv_def devices_ok_def)

lemma putDevice_inv:
  assumes "home_inv h" "jget (hm_devices h) d = Some x" "dv_id dv = d" "kinds dv = kinds (sd_device x)" "ids = sd_backendIds x"
  shows "home_inv (putDevice dv ids h)"
proof -
  have "same_entities x \<lparr>sd_device = dv, sd_backendIds = ids\<rparr>"
    using assms devices_id [OF assms(1,2)] by (simp add: same_entities_def)
  with assms restore_ok [of _ d x] restore_mirrors [of _ _ d x] show ?thesis by (simp add: home_inv_def)
qed

lemma entities_apart_sym: "entities_apart x y \<Longrightarrow> entities_apart y x"
  unfolding entities_apart_def by blast

lemma extend_ok:
  assumes "devices_ok devs" "jget devs (dv_id (sd_device sd)) = None" "plain_id (dv_id (sd_device sd))"
    and "\<And>e y. jget devs e = Some y \<Longrightarrow> entities_apart sd y"
  shows "devices_ok (jset (dv_id (sd_device sd)) sd devs)"
  using assms entities_apart_sym unfolding devices_ok_def by (simp add: jwf_jset)

lemma no_entities_apart: "kinds (sd_device sd) = [] \<or> sd_backendIds sd = [] \<Longrightarrow> sd_backendIds sd = [] \<Longrightarrow> entities_apart sd y"
  by (auto simp: entities_apart_def cap_of_def cap_entity_def own_entity_def truthy_def Let_def)

lemma add_inv:
  assumes "home_inv h" "may_add dv ids own h"
  shows "home_inv (addDevice dv ids own h)"
proof -
  let ?sd = "\<lparr>sd_device = dv, sd_backendIds = persisted_ids dv ids own\<rparr>"
  have may: "plain_id (dv_id dv)" "jget (hm_devices h) (dv_id dv) = None" "jget ids DEVICE_LEVEL_BACKEND_ID_KEY = None"
      "\<And>e y. jget (hm_devices h) e = Some y \<Longrightarrow> entities_apart ?sd y"
    using assms(2) by (auto simp: may_add_def)
  have "kinds dv \<noteq> [] \<Longrightarrow> persisted_ids dv ids own = ids"
    by (auto simp: persisted_ids_def kinds_def split: option.split)
  then have caps: "fold (reg_cap (dv_id dv) (persisted_ids dv ids own)) (kinds dv) = fold (reg_cap (dv_id dv) ids) (kinds dv)"
    by (cases "kinds dv") simp_all
  have own: "truthy (jget (persisted_ids dv ids own) DEVICE_LEVEL_BACKEND_ID_KEY) =
      (if dv_capabilities dv = [] then truthy own else None)"
    using may(3) by (auto simp: persisted_ids_def truthy_def split: option.split)
  have reg: "si_registry (hm_sil (addDevice dv ids own h)) = reg_add ?sd (si_registry (hm_sil h))"
    by (auto simp: addDevice_def reg_add_def reg_own_def own caps mapEntities_def fold_map_capability mapDeviceEntity_def
        cap_own_commute Let_def split: option.split)
  have devs: "hm_devices (addDevice dv ids own h) = jset (dv_id dv) ?sd (hm_devices h)"
    by (simp add: addDevice_def Let_def) (simp add: hm_devices_def)
  from assms(1) mirrors_extend [of "hm_devices h" _ ?sd] extend_ok [of "hm_devices h" ?sd] may
  show ?thesis by (simp add: home_inv_def reg devs)
qed

lemma clone_inv:
  assumes "home_inv h" "may_clone new h"
  shows "home_inv (putDevice (clone_of new dv) [] h)"
proof -
  let ?sd = "\<lparr>sd_device = clone_of new dv, sd_backendIds = []\<rparr>"
  have "reg_add ?sd m = m" for m by (simp add: reg_add_def reg_own_def fold_reg_cap_none truthy_def)
  moreover have "dv_id (clone_of new dv) = new" by (simp add: clone_of_def)
  ultimately show ?thesis
    using assms mirrors_extend [of "hm_devices h" _ ?sd] extend_ok [of "hm_devices h" ?sd] no_entities_apart [of ?sd]
    by (simp add: home_inv_def may_clone_def)
qed

lemma delete_inv:
  assumes "home_inv h" "jget (hm_devices h) d \<noteq> None"
  shows "home_inv (snd (delete_device ops now d h))"
proof (cases "sil_unmapDevice ops d now (hm_sil h)")
  case (Pair res s)
  have p: "plain_id d" using assms by (auto simp: home_inv_def devices_ok_def)
  show ?thesis
  proof (cases res)
    case (Inl e)
    then have "si_registry s = si_registry (hm_sil h)"
      using Pair by (auto simp: sil_unmapDevice_def on_router_def eff_bind_def split: prod.splits sum.splits)
    with Pair Inl assms(1) show ?thesis by (simp add: delete_device_def home_inv_def hm_devices_def)
  next
    case (Inr u)
    then have "si_registry s = unmapDevice d (si_registry (hm_sil h))"
      using Pair by (auto simp: sil_unmapDevice_def on_router_def eff_bind_def split: prod.splits sum.splits)
    moreover have "devices_ok (jdel d (hm_devices h))"
      using assms(1) by (auto simp: home_inv_def devices_ok_def)
    ultimately show ?thesis
      using Pair Inr assms(1) mirrors_delete [OF _ _ p]
      by (simp add: delete_device_def home_inv_def hm_devices_def emitChanged_def hs_deleteDevice_def)
  qed
qed

lemma removeDevices_inv: "home_inv h \<Longrightarrow> home_inv (snd (removeDevices ops now ds h))"
proof (induction ds arbitrary: h)
  case (Cons d ds)
  show ?case
  proof (cases "hs_getDevice d (hm_store h) = None")
    case False
    with delete_inv [OF Cons.prems, of d ops now] have i: "home_inv (snd (delete_device ops now d h))"
      by (simp add: hs_getDevice_def hm_devices_def)
    obtain res h1 where r: "delete_device ops now d h = (res, h1)" by fastforce
    with i have h1: "home_inv h1" by simp
    from Cons.IH [OF h1] h1 r False show ?thesis
      by (auto simp: eff_bind_def split: sum.splits prod.splits)
  qed (simp add: Cons)
qed simp

lemma move_inv: "home_inv h \<Longrightarrow> home_inv (snd (fold (move_device r) ds (n, h)))"
proof (induction ds arbitrary: n h)
  case (Cons d ds)
  then show ?case
    using putDevice_inv [OF Cons.prems, of d] devices_id [OF Cons.prems, of d]
    by (auto simp: move_device_def hs_getDevice_def hm_devices_def kinds_def split: option.split)
qed simp

lemma unassign_store:
  "hs_devices (fold unassign ds st) =
     fold (\<lambda>d devs. case jget devs d of None \<Rightarrow> devs
       | Some x \<Rightarrow> jset (dv_id (sd_device x)) \<lparr>sd_device = (sd_device x)\<lparr>dv_roomId := None\<rparr>, sd_backendIds = sd_backendIds x\<rparr> devs) ds (hs_devices st)"
  by (induction ds arbitrary: st) (simp_all add: unassign_def hs_getDevice_def hs_putDevice_def split: option.split)

lemma unassign_inv:
  assumes "home_inv h"
  shows "home_inv (h\<lparr>hm_store := fold unassign ds (hm_store h)\<rparr>)"
  using assms
proof (induction ds arbitrary: h)
  case (Cons d ds)
  have "home_inv (h\<lparr>hm_store := unassign d (hm_store h)\<rparr>)"
  proof (cases "jget (hm_devices h) d")
    case (Some x)
    with putDevice_inv [OF Cons.prems Some, of "(sd_device x)\<lparr>dv_roomId := None\<rparr>" "sd_backendIds x"] devices_id [OF Cons.prems Some]
    have "home_inv (putDevice ((sd_device x)\<lparr>dv_roomId := None\<rparr>) (sd_backendIds x) h)" by (simp add: kinds_def)
    with Some show ?thesis
      by (simp add: unassign_def hs_getDevice_def hm_devices_def home_inv_def hs_putDevice_def putDevice_def emitChanged_def)
  qed (use Cons.prems in \<open>simp add: unassign_def hs_getDevice_def hm_devices_def\<close>)
  from Cons.IH [OF this] show ?case by simp
qed simp

lemma room_removal_inv: "home_inv h \<Longrightarrow> home_inv (snd (removeRoom r h))"
  using unassign_inv [of h "map dv_id (listDevicesInRoom r h)"]
  by (auto simp: removeRoom_def requireRoom_def eff_bind_def home_inv_def hm_devices_def hs_deleteRoom_def split: option.split)

lemma stored: "hs_getDevice d (hm_store h) = jget (hm_devices h) d"
  by (simp add: hs_getDevice_def hm_devices_def)

lemma device_step_inv:
  assumes "device_step ops h h'" "home_inv h"
  shows "home_inv h'"
  using assms(1)
proof cases
  case (home x)
  then show ?thesis using assms(2) by (simp add: setHome_def home_inv_def hm_devices_def hs_putHome_def)
next
  case (room r)
  then show ?thesis using assms(2) by (simp add: addRoom_def home_inv_def hm_devices_def hs_putRoom_def)
next
  case (state d st)
  show ?thesis
  proof (cases "jget (hm_devices h) d")
    case (Some x)
    let ?y = "x\<lparr>sd_device := (sd_device x)\<lparr>dv_state := jset (state_kind st) st (dv_state (sd_device x))\<rparr>\<rparr>"
    have "same_entities x ?y" by (simp add: same_entities_def kinds_def)
    with restore_ok [of "hm_devices h" d x ?y] restore_mirrors [of "hm_devices h" _ d x ?y] assms(2) Some state show ?thesis
      by (simp add: applyState_def stored home_inv_def Let_def) (simp add: hm_devices_def hs_updateDeviceState_def)
  qed (use state assms(2) in \<open>simp add: applyState_def stored\<close>)
next
  case (update d p)
  show ?thesis
  proof (cases "jget (hm_devices h) d")
    case (Some x)
    have "home_inv (putDevice (patch_device p (sd_device x)) (sd_backendIds x) h)"
      using putDevice_inv [OF assms(2) Some, of "patch_device p (sd_device x)"] devices_id [OF assms(2) Some]
      by (simp add: patch_device_def kinds_def)
    with update Some assms(2) show ?thesis
      by (auto simp: updateDevice_def stored eff_bind_def requireRoom_def split: option.split)
  qed (use update assms(2) in \<open>simp add: updateDevice_def stored\<close>)
next
  case (owner d drv)
  then show ?thesis
    using assms(2) putDevice_inv [OF assms(2), of d] devices_id [OF assms(2), of d]
    by (auto simp: setDriverOwner_def stored kinds_def split: option.split)
next
  case (clone new d)
  then show ?thesis using assms(2) clone_inv [OF assms(2)] by (auto simp: cloneDevice_def split: option.split)
next
  case (move ds r)
  then show ?thesis
    using assms(2) move_inv [OF assms(2), of r ds 0]
    by (auto simp: moveDevices_def requireRoom_def eff_bind_def case_prod_unfold Let_def split: option.split)
next
  case (remove now d)
  then show ?thesis using assms(2) delete_inv [OF assms(2)] by (auto simp: removeDevice_def stored)
next
  case (metadata d patch)
  then show ?thesis
    using assms(2) putDevice_inv [OF assms(2), of d] devices_id [OF assms(2), of d]
    by (auto simp: setDeviceMetadata_def stored kinds_def Let_def split: option.split)
next
  case (config d k cfg)
  have "map dc_kind (map (set_config k cfg) cs) = map dc_kind cs" for cs
    by (simp add: set_config_def)
  with config show ?thesis
    using assms(2) putDevice_inv [OF assms(2), of d] devices_id [OF assms(2), of d]
    by (auto simp: setCapabilityConfig_def stored kinds_def Let_def split: option.split)
next
  case (favorite u ref on)
  then show ?thesis
    using assms(2) by (simp add: setFavorite_def home_inv_def hm_devices_def hs_putFavorite_def hs_removeFavorite_def split: option.split)
qed (use assms(2) add_inv removeDevices_inv in auto)

lemma home_step_inv: "home_step ops h h' \<Longrightarrow> home_inv h \<Longrightarrow> home_inv h'"
  by (auto elim!: home_step.cases intro: device_step_inv room_removal_inv)

text \<open>Rebinding every stored device on an empty registry.\<close>

lemma fold_rebind: "si_registry (fold rebind_device sds s) = fold reg_add sds (si_registry s)"
  by (induction sds arbitrary: s) (simp_all add: rebind_registry)

lemma devices_ok_init:
  assumes "devices_ok (devs @ [(d, sd)])"
  shows "devices_ok devs" "jget devs d = None" "dv_id (sd_device sd) = d" "\<And>e y. jget devs e = Some y \<Longrightarrow> entities_apart sd y"
proof -
  have w: "jwf (devs @ [(d, sd)])" using assms by (simp add: devices_ok_def)
  then show none: "jget devs d = None" by (auto simp: jwf_def map_of_eq_None_iff)
  have get: "jget (devs @ [(d, sd)]) e = (if e = d then Some sd else jget devs e)" for e
    using none by (simp add: map_add_def split: option.split)
  have all: "\<And>e u. (if e = d then Some sd else jget devs e) = Some u \<Longrightarrow> dv_id (sd_device u) = e \<and> plain_id e"
    "\<And>e f u v. (if e = d then Some sd else jget devs e) = Some u \<Longrightarrow> (if f = d then Some sd else jget devs f) = Some v \<Longrightarrow>
      e \<noteq> f \<Longrightarrow> entities_apart u v"
    using assms unfolding devices_ok_def get by blast+
  show "dv_id (sd_device sd) = d" using all(1) [of d sd] by simp
  show ap: "entities_apart sd y" if "jget devs e = Some y" for e y
    using all(2) [of d sd e y] that none by (cases "e = d") auto
  show "devices_ok devs"
    unfolding devices_ok_def
  proof (intro conjI allI impI)
    show "jwf devs" using w by (simp add: jwf_def)
    show "dv_id (sd_device u) = e" if "jget devs e = Some u" for e u
      using all(1) [of e u] that none by (cases "e = d") simp_all
    show "plain_id e" if "jget devs e = Some u" for e u
      using all(1) [of e u] that none by (cases "e = d") simp_all
    show "entities_apart u v" if "jget devs e = Some u" "jget devs f = Some v" "e \<noteq> f" for e f u v
      using all(2) [of e u f v] that none by (cases "e = d"; cases "f = d") auto
  qed
qed

lemma rebind_mirrors: "devices_ok devs \<Longrightarrow> mirrors devs (fold reg_add (jvalues devs) new_entity_registry)"
proof (induction devs rule: rev_induct)
  case Nil
  show ?case
    by (simp add: mirrors_def keyed_def er_resolve_def reverseLookup_def backendIdOfDevice_def reverseLookupDevice_def
        new_entity_registry_def)
next
  case (snoc x devs)
  obtain d sd where x: "x = (d, sd)" by (cases x)
  note init = devices_ok_init [OF snoc.prems [unfolded x]]
  have "mirrors (jset (dv_id (sd_device sd)) sd devs) (reg_add sd (fold reg_add (jvalues devs) new_entity_registry))"
    using init by (intro mirrors_extend snoc.IH) auto
  then show ?case using init(2,3) by (simp add: x jset_new)
qed

lemma booted_fields:
  "hm_store (booted st s) = st" "hm_events (booted st s) = []"
  "si_registry (hm_sil (booted st s)) = fold reg_add (jvalues (hs_devices st)) new_entity_registry"
  by (simp_all add: booted_def rebindRegistry_def fold_rebind hs_listDevices_def)

lemma booted_inv: "devices_ok (hs_devices st) \<Longrightarrow> home_inv (booted st s)"
  by (simp add: home_inv_def hm_devices_def booted_fields rebind_mirrors)

lemma reachable_home: "home_reachable ops h \<Longrightarrow> home_inv h"
  by (induction rule: home_reachable.induct) (auto intro: booted_inv home_step_inv)

text \<open>
  C4: A restart loses no mapping: the registry that a fresh start rebinds from the store answers every lookup, in both
  directions, for capabilities and for keypads, as the running hub's registry does, after any sequence of changes to rooms and
  devices (rooms removed too) since the hub started. What it asks of the changes: an added device or a clone has a fresh id without
  a colon; an added device has no capability named as the device-level key and claims no backend entity of a stored device.
  The home service itself does not check the last point: discovery and the pending approvals ask isKnownBackendId, and commission()
  relies on its caller for it.
\<close>

theorem registry_survives_restart:
  assumes "home_reachable ops h"
  shows "same_answers (si_registry (hm_sil h)) (si_registry (hm_sil (booted (hm_store h) s)))"
  using reachable_home [OF assms] rebind_mirrors [of "hm_devices h"]
  by (auto simp: home_inv_def booted_fields hm_devices_def intro: mirrors_same_answers)

section \<open>The capability index\<close>

text \<open>The gateway hydrates the index from the stored devices at boot and feeds it every announced change.\<close>

definition apply_change :: "device_change \<Rightarrow> capability_index \<Rightarrow> capability_index" where
  "apply_change e ix = (case e of DevUpsert dv \<Rightarrow> index_upsert dv ix | DevDelete d \<Rightarrow> index_remove d ix)"

definition hub_index :: "home_store \<Rightarrow> 'h home_service \<Rightarrow> capability_index" where
  "hub_index st h = fold apply_change (hm_events h) (index_hydrate (map sd_device (hs_listDevices st)))"

text \<open>The index and the store agree on a device in everything but its live state.\<close>

definition same_device :: "device \<Rightarrow> device \<Rightarrow> bool" where
  "same_device x y \<longleftrightarrow> x\<lparr>dv_state := []\<rparr> = y\<lparr>dv_state := []\<rparr>"

definition in_sync :: "(device_id, stored_device) jsmap \<Rightarrow> capability_index \<Rightarrow> bool" where
  "in_sync devs ix \<longleftrightarrow> index_ok ix \<and> (\<forall>d. rel_option same_device (map_option sd_device (jget devs d)) (index_get d ix))"

lemma same_device_fields:
  "same_device x y \<Longrightarrow> dv_id x = dv_id y \<and> dv_roomId x = dv_roomId y \<and> kinds x = kinds y"
  by (cases x, cases y) (simp add: same_device_def kinds_def)

lemma same_device_refl [simp]: "same_device x x"
  by (simp add: same_device_def)

lemma sync_upsert:
  assumes "in_sync devs ix"
  shows "in_sync (jset (dv_id dv) \<lparr>sd_device = dv, sd_backendIds = ids\<rparr> devs) (index_upsert dv ix)"
  using assms upsert_ok by (auto simp: in_sync_def index_get_def)

lemma sync_remove: "in_sync devs ix \<Longrightarrow> in_sync (jdel d devs) (index_remove d ix)"
  using remove_ok by (auto simp: in_sync_def index_get_def)

lemma sync_state:
  assumes "in_sync devs ix" "jget devs d = Some x"
  shows "in_sync (jset d (x\<lparr>sd_device := (sd_device x)\<lparr>dv_state := st\<rparr>\<rparr>) devs) ix"
proof -
  have "rel_option same_device (Some (sd_device x)) (index_get d ix)"
    using assms unfolding in_sync_def by (metis option.map(2))
  then have "rel_option same_device (Some ((sd_device x)\<lparr>dv_state := st\<rparr>)) (index_get d ix)"
    by (auto simp: option_rel_Some1 same_device_def)
  with assms show ?thesis by (simp add: in_sync_def)
qed

definition synced :: "capability_index \<Rightarrow> 'h home_service \<Rightarrow> bool" where
  "synced ix0 h \<longleftrightarrow> in_sync (hm_devices h) (fold apply_change (hm_events h) ix0)"

lemma synced_put: "synced ix0 h \<Longrightarrow> synced ix0 (putDevice dv ids h)"
  using sync_upsert by (simp add: synced_def apply_change_def)

lemma synced_same: "hm_devices h' = hm_devices h \<Longrightarrow> hm_events h' = hm_events h \<Longrightarrow> synced ix0 h' = synced ix0 h"
  by (simp add: synced_def)

lemma synced_sil [simp]: "synced ix0 (h\<lparr>hm_sil := s\<rparr>) = synced ix0 h"
  by (rule synced_same) (simp_all add: hm_devices_def)

lemma synced_delete: "synced ix0 h \<Longrightarrow> synced ix0 (snd (delete_device ops now d h))"
  using sync_remove [of "hm_devices h" _ d]
  by (auto simp: delete_device_def split: prod.split sum.split)
    (simp add: synced_def emitChanged_def hm_devices_def hs_deleteDevice_def apply_change_def)

lemma synced_deletes: "synced ix0 h \<Longrightarrow> synced ix0 (snd (removeDevices ops now ds h))"
proof (induction ds arbitrary: h)
  case (Cons d ds)
  obtain res h1 where r: "delete_device ops now d h = (res, h1)" by fastforce
  with synced_delete [OF Cons.prems, of ops now d] have h1: "synced ix0 h1" by simp
  from Cons.IH [OF h1] Cons.IH [OF Cons.prems] h1 r show ?case
    by (auto simp: eff_bind_def split: sum.splits prod.splits)
qed simp

lemma synced_moves: "synced ix0 h \<Longrightarrow> synced ix0 (snd (fold (move_device r) ds (n, h)))"
  by (induction ds arbitrary: n h) (auto simp: move_device_def synced_put split: option.split)

lemma device_step_synced:
  assumes "device_step ops h h'" "synced ix0 h"
  shows "synced ix0 h'"
  using assms(1)
proof cases
  case (home x)
  then show ?thesis using assms(2) by (simp add: setHome_def synced_def hm_devices_def hs_putHome_def)
next
  case (room r)
  then show ?thesis using assms(2) by (simp add: addRoom_def synced_def hm_devices_def hs_putRoom_def)
next
  case (state d st)
  show ?thesis
  proof (cases "jget (hm_devices h) d")
    case (Some x)
    with sync_state [of "hm_devices h" _ d x] assms(2) state show ?thesis
      by (simp add: applyState_def stored synced_def Let_def) (simp add: hm_devices_def hs_updateDeviceState_def)
  qed (use state assms(2) in \<open>simp add: applyState_def stored\<close>)
next
  case (update d p)
  then show ?thesis
    using assms(2) by (auto simp: updateDevice_def eff_bind_def requireRoom_def synced_put split: option.split)
next
  case (move ds r)
  then show ?thesis
    using assms(2) synced_moves [OF assms(2), of r ds 0]
    by (auto simp: moveDevices_def requireRoom_def eff_bind_def case_prod_unfold Let_def split: option.split)
next
  case (favorite u ref on)
  then show ?thesis
    using assms(2) by (simp add: setFavorite_def synced_def hm_devices_def hs_putFavorite_def hs_removeFavorite_def split: option.split)
qed (use assms(2) synced_deletes synced_delete in
    \<open>auto simp: addDevice_def setDriverOwner_def cloneDevice_def removeDevice_def setDeviceMetadata_def setCapabilityConfig_def
      Let_def synced_put split: option.split\<close>)

lemma map_of_rev_distinct:
  assumes "distinct (map fst xs)"
  shows "map_of (rev xs) = map_of xs"
proof
  fix k
  have "map_of (rev xs) k = Some v \<longleftrightarrow> map_of xs k = Some v" for v
    using assms map_of_eq_Some_iff [of xs k v] map_of_eq_Some_iff [of "rev xs" k v] by (simp add: rev_map [symmetric])
  then show "map_of (rev xs) k = map_of xs k" by (metis option.exhaust)
qed

lemma booted_synced:
  assumes "devices_ok (hs_devices st)"
  shows "synced (index_hydrate (map sd_device (hs_listDevices st))) (booted st s)"
proof -
  let ?ds = "map sd_device (hs_listDevices st)"
  have ids: "map (\<lambda>dv. (dv_id dv, dv)) ?ds = map (\<lambda>(d, sd). (d, sd_device sd)) (hs_devices st)"
    using assms unfolding hs_listDevices_def devices_ok_def jwf_def
    by (auto simp: map_of_is_SomeI)
  have "distinct (map fst (map (\<lambda>(d, sd). (d, sd_device sd)) (hs_devices st)))"
    using assms by (simp add: devices_ok_def jwf_def case_prod_unfold comp_def)
  then have "index_get d (index_hydrate ?ds) = map_option sd_device (jget (hs_devices st) d)" for d
    unfolding hydrate_get ids by (subst map_of_rev_distinct) (assumption, simp add: map_of_map)
  then show ?thesis
    using hydrate_ok by (auto simp: synced_def in_sync_def booted_fields hm_devices_def option.rel_refl)
qed

lemma index_room:
  assumes "index_ok ix" "in_sync devs ix"
  shows "d \<in> dv_id ` set (devicesWithCapabilityInRoom k r ix) \<longleftrightarrow>
     (\<exists>x. jget devs d = Some x \<and> k \<in> set (kinds (sd_device x)) \<and> dv_roomId (sd_device x) = Some r)"
proof -
  have rel: "rel_option same_device (map_option sd_device (jget devs d)) (index_get d ix)"
    using assms(2) by (simp add: in_sync_def)
  have "d \<in> dv_id ` set (devicesWithCapabilityInRoom k r ix) \<longleftrightarrow>
      (\<exists>dv. index_get d ix = Some dv \<and> k \<in> set (kinds dv) \<and> dv_roomId dv = Some r)"
    using index_lookup(1) [OF assms(1)] index_okD(2) [OF assms(1)]
    by (fastforce simp: devicesWithCapabilityInRoom_def index_get_def)
  with rel same_device_fields show ?thesis
    by (cases "jget devs d"; cases "index_get d ix") auto
qed

lemma steps_synced:
  assumes "devices_ok (hs_devices st)" "(device_step ops)\<^sup>*\<^sup>* (booted st s) h"
  shows "in_sync (hm_devices h) (hub_index st h)" "index_ok (hub_index st h)"
proof -
  have "synced (index_hydrate (map sd_device (hs_listDevices st))) h"
    using assms(2) by (induction rule: rtranclp_induct) (auto intro: booted_synced assms(1) device_step_synced)
  then show "in_sync (hm_devices h) (hub_index st h)" by (simp add: synced_def hub_index_def)
  then show "index_ok (hub_index st h)" by (simp add: in_sync_def)
qed

lemma steps_inv:
  assumes "devices_ok (hs_devices st)" "(device_step ops)\<^sup>*\<^sup>* (booted st s) h"
  shows "home_inv h"
  using assms(2) by (induction rule: rtranclp_induct) (auto intro: booted_inv assms(1) device_step_inv)

lemma unassign_get:
  assumes "\<And>e x. jget (hs_devices st) e = Some x \<Longrightarrow> dv_id (sd_device x) = e"
  shows "jget (hs_devices (fold unassign ds st)) e =
    (if e \<in> set ds then map_option (\<lambda>x. x\<lparr>sd_device := (sd_device x)\<lparr>dv_roomId := None\<rparr>\<rparr>) (jget (hs_devices st) e)
     else jget (hs_devices st) e)"
  using assms
proof (induction ds arbitrary: st)
  case (Cons d ds)
  have get: "jget (hs_devices (unassign d st)) e =
      (if e = d then map_option (\<lambda>x. x\<lparr>sd_device := (sd_device x)\<lparr>dv_roomId := None\<rparr>\<rparr>) (jget (hs_devices st) e)
       else jget (hs_devices st) e)" for e
    using Cons.prems by (auto simp: unassign_def hs_getDevice_def hs_putDevice_def split: option.split)
  moreover from this have "dv_id (sd_device x) = e" if "jget (hs_devices (unassign d st)) e = Some x" for e x
    using that Cons.prems by (auto split: if_splits)
  ultimately show ?case
    using Cons.IH [of "unassign d st"] by (auto simp: option.map_comp comp_def)
qed simp

text \<open>
  C5: What an intent finds is what the home stores: through any sequence of changes to devices, the capability index that hears
  the announced changes lists, for a capability and a room, exactly the devices stored in that room that expose it, each once.
\<close>

theorem index_shows_home:
  assumes "devices_ok (hs_devices st)" "(device_step ops)\<^sup>*\<^sup>* (booted st s) h"
  shows "distinct (map dv_id (devicesWithCapabilityInRoom k r (hub_index st h))) \<and>
     (d \<in> dv_id ` set (devicesWithCapabilityInRoom k r (hub_index st h)) \<longleftrightarrow>
       (\<exists>x. hs_getDevice d (hm_store h) = Some x \<and> k \<in> set (kinds (sd_device x)) \<and> dv_roomId (sd_device x) = Some r))"
proof -
  note ok = steps_synced [OF assms]
  have "distinct (map dv_id (devicesWithCapabilityInRoom k r (hub_index st h)))"
    unfolding devicesWithCapabilityInRoom_def by (rule distinct_map_filter) (rule index_lookup(2) [OF ok(2)])
  with index_room [OF ok(2,1)] show ?thesis by (simp add: stored)
qed

text \<open>
  Removing a room announces nothing: a device that was in it is stored without a room, and the capability index goes on
  listing it in the removed room, so an intent aimed at that room still commands it.
\<close>

theorem removed_room_lingers:
  assumes "devices_ok (hs_devices st)" "(device_step ops)\<^sup>*\<^sup>* (booted st s) h" "removeRoom r h = (Inr u, h')"
    and "hs_getDevice d (hm_store h) = Some x" "dv_roomId (sd_device x) = Some r" "k \<in> set (kinds (sd_device x))"
  shows "jget (hs_rooms (hm_store h')) r = None \<and>
     map_option (dv_roomId \<circ> sd_device) (hs_getDevice d (hm_store h')) = Some None \<and>
     d \<in> dv_id ` set (devicesWithCapabilityInRoom k r (hub_index st h'))"
proof -
  have ids: "\<And>e y. jget (hs_devices (hm_store h)) e = Some y \<Longrightarrow> dv_id (sd_device y) = e"
    using devices_id [OF steps_inv [OF assms(1,2)]] by (simp add: hm_devices_def)
  have h': "h' = h\<lparr>hm_store := hs_deleteRoom r (fold unassign (map dv_id (listDevicesInRoom r h)) (hm_store h))\<rparr>"
    using assms(3) by (auto simp: removeRoom_def requireRoom_def eff_bind_def split: option.splits)
  have "sd_device x \<in> set (listDevicesInRoom r h)"
    using assms(4,5) unfolding listDevicesInRoom_def hs_listDevices_def hs_getDevice_def
    by (force dest: map_of_SomeD)
  moreover have "dv_id (sd_device x) = d" using ids assms(4) by (simp add: hs_getDevice_def)
  ultimately have "d \<in> set (map dv_id (listDevicesInRoom r h))" by force
  with unassign_get [of "hm_store h" "map dv_id (listDevicesInRoom r h)" d] ids assms(4)
  have "map_option (dv_roomId \<circ> sd_device) (hs_getDevice d (hm_store h')) = Some None"
    by (simp add: h' hs_getDevice_def hs_deleteRoom_def)
  moreover have "hub_index st h' = hub_index st h" by (simp add: h' hub_index_def)
  moreover note index_room [OF steps_synced(2,1) [OF assms(1,2)], of d k r]
  moreover have "jget (hs_rooms (hm_store h')) r = None" by (simp add: h' hs_deleteRoom_def)
  ultimately show ?thesis using assms(4-6) by (simp add: stored)
qed

section \<open>A home with one lamp\<close>

definition lamp :: device where
  "lamp = \<lparr>dv_id = ''lamp'', dv_homeId = ''h'', dv_roomId = Some ''kitchen'', dv_name = ''Lamp'', dv_supremeType = DtLight,
     dv_manufacturer = None, dv_model = None, dv_driverId = None, dv_status = DsOnline,
     dv_capabilities = [\<lparr>dc_kind = CkOnoff, dc_config = []\<rparr>], dv_state = [], dv_metadata = []\<rparr>"

definition room_named :: "room_id \<Rightarrow> room" where
  "room_named r = \<lparr>rm_id = r, rm_homeId = ''h'', rm_name = r, rm_building = None, rm_floor = 0, rm_area = None,
     rm_areaType = ArOther, rm_sortOrder = 0, rm_icon = None, rm_heroImageUrl = None, rm_parentRoomId = None\<rparr>"

definition lamp_home :: home_store where
  "lamp_home = hs_putDevice lamp [(''onoff'', ''light.k'')]
     (hs_putRoom (room_named ''hall'') (hs_putRoom (room_named ''kitchen'') new_home_store))"

lemma lamp_home_devices: "hs_devices lamp_home = [(''lamp'', \<lparr>sd_device = lamp, sd_backendIds = [(''onoff'', ''light.k'')]\<rparr>)]"
  by (simp add: lamp_home_def hs_putDevice_def hs_putRoom_def new_home_store_def lamp_def)

lemma lamp_home_ok: "devices_ok (hs_devices lamp_home)"
  by (simp add: devices_ok_def lamp_home_devices jwf_def lamp_def plain_id_def)

lemma lamp_home_rooms: "hs_rooms lamp_home = [(''kitchen'', room_named ''kitchen''), (''hall'', room_named ''hall'')]"
  by (simp add: lamp_home_def hs_putDevice_def hs_putRoom_def new_home_store_def room_named_def)

theorem registry_survives_restart_witness:
  "\<forall>s. same_answers (si_registry (hm_sil (snd (removeRoom ''kitchen'' (booted lamp_home s)))))
     (si_registry (hm_sil (booted (hm_store (snd (removeRoom ''kitchen'' (booted lamp_home s)))) s)))"
  using registry_survives_restart [OF home_reachable.step [OF home_reachable.boot [OF lamp_home_ok] home_step.remove_room]] by blast

lemma lamp_moved: "(device_step ops)\<^sup>*\<^sup>* (booted lamp_home s) (snd (moveDevices [''lamp''] ''hall'' (booted lamp_home s)))"
  by (rule r_into_rtranclp) (rule device_step.move)

theorem index_shows_home_witness:
  "\<forall>s. dv_id ` set (devicesWithCapabilityInRoom CkOnoff ''hall'' (hub_index lamp_home (snd (moveDevices [''lamp''] ''hall'' (booted lamp_home s))))) = {''lamp''}"
proof
  fix s
  have put: "snd (moveDevices [''lamp''] ''hall'' (booted lamp_home s)) =
      putDevice (lamp\<lparr>dv_roomId := Some ''hall''\<rparr>) [(''onoff'', ''light.k'')] (booted lamp_home s)"
    by (simp add: moveDevices_def requireRoom_def eff_bind_def booted_fields lamp_home_rooms move_device_def hs_getDevice_def
        lamp_home_devices)
  have "jget (hm_devices (snd (moveDevices [''lamp''] ''hall'' (booted lamp_home s)))) d =
      (if d = ''lamp'' then Some \<lparr>sd_device = lamp\<lparr>dv_roomId := Some ''hall''\<rparr>, sd_backendIds = [(''onoff'', ''light.k'')]\<rparr> else None)" for d
    by (simp add: put) (simp add: hm_devices_def booted_fields lamp_home_devices lamp_def)
  with index_shows_home [OF lamp_home_ok lamp_moved [of _ s], of CkOnoff "''hall''"]
  have "d \<in> dv_id ` set (devicesWithCapabilityInRoom CkOnoff ''hall'' (hub_index lamp_home (snd (moveDevices [''lamp''] ''hall'' (booted lamp_home s))))) \<longleftrightarrow> d = ''lamp''" for d
    by (simp add: stored lamp_def kinds_def)
  then show "dv_id ` set (devicesWithCapabilityInRoom CkOnoff ''hall'' (hub_index lamp_home (snd (moveDevices [''lamp''] ''hall'' (booted lamp_home s))))) = {''lamp''}"
    by blast
qed

theorem removed_room_lingers_witness:
  "\<forall>s. map_option (dv_roomId \<circ> sd_device) (hs_getDevice ''lamp'' (hm_store (snd (removeRoom ''kitchen'' (booted lamp_home s))))) = Some None \<and>
     ''lamp'' \<in> dv_id ` set (devicesWithCapabilityInRoom CkOnoff ''kitchen'' (hub_index lamp_home (snd (removeRoom ''kitchen'' (booted lamp_home s)))))"
proof
  fix s
  have "removeRoom ''kitchen'' (booted lamp_home s) = (Inr (), snd (removeRoom ''kitchen'' (booted lamp_home s)))"
    by (simp add: removeRoom_def requireRoom_def eff_bind_def booted_fields lamp_home_rooms)
  from removed_room_lingers [OF lamp_home_ok rtranclp.rtrancl_refl this, of "''lamp''"
      "\<lparr>sd_device = lamp, sd_backendIds = [(''onoff'', ''light.k'')]\<rparr>" CkOnoff]
  show "map_option (dv_roomId \<circ> sd_device) (hs_getDevice ''lamp'' (hm_store (snd (removeRoom ''kitchen'' (booted lamp_home s))))) = Some None \<and>
     ''lamp'' \<in> dv_id ` set (devicesWithCapabilityInRoom CkOnoff ''kitchen'' (hub_index lamp_home (snd (removeRoom ''kitchen'' (booted lamp_home s)))))"
    by (simp add: hs_getDevice_def booted_fields lamp_home_devices lamp_def kinds_def)
qed

end
