(* ===== verification/Intent_Engine.thy ===== *)
theory Intent_Engine
  imports Intent_Catalog Run_History Home_Reachable
begin

text \<open>
  The intent engine, \<^verbatim>\<open>services/intent-engine/src/engine.ts\<close>: from an intent and a target to the devices, and from each device's
  state to the command it is sent, with a trace of every run.
\<close>

section \<open>State\<close>

text \<open>A run's id is \<^verbatim>\<open>int-<ms>-<seq>\<close>.\<close>

record intent_run =
  ir_id :: "int \<times> nat"
  ir_intentId :: string
  ir_target :: intent_target
  ir_startedAt :: timestamp
  ir_resolvedDeviceIds :: "device_id list"
  ir_durationMs :: int
  ir_ok :: bool
  ir_error :: "string option"

record intent_engine =
  ie_runs :: "intent_run list"
  ie_historyLimit :: nat
  ie_runSeq :: nat

text \<open>What the constructor is given: the registry, the executors and two clocks; the index it shares is an argument of a run.\<close>

record 'w intent_options =
  io_registry :: "'w intent_registry"
  io_executors :: "'w intent_executors"
  io_now :: "'w \<Rightarrow> int \<times> 'w"
  io_date :: "'w \<Rightarrow> int \<times> 'w"

definition new_intent_engine :: "nat option \<Rightarrow> intent_engine" where
  "new_intent_engine limit = \<lparr>ie_runs = [], ie_historyLimit = (case limit of None \<Rightarrow> 100 | Some n \<Rightarrow> n), ie_runSeq = 0\<rparr>"

definition ie_recentRuns :: "string option \<Rightarrow> nat \<Rightarrow> intent_engine \<Rightarrow> intent_run list" where
  "ie_recentRuns i limit en = recent (\<lambda>r. case truthy i of None \<Rightarrow> True | Some x \<Rightarrow> ir_intentId r = x) limit (ie_runs en)"

definition record_intent_run :: "intent_run \<Rightarrow> intent_engine \<Rightarrow> intent_engine" where
  "record_intent_run r en = en\<lparr>ie_runs := push_history (ie_historyLimit en) r (ie_runs en)\<rparr>"

section \<open>Resolution\<close>

definition collect_device :: "device \<Rightarrow> device list \<Rightarrow> device list" where
  "collect_device dv acc = (if dv_id dv \<in> set (map dv_id acc) then acc else acc @ [dv])"

definition collect_kind :: "capability_index \<Rightarrow> room_id \<Rightarrow> capability_kind \<Rightarrow> device list \<Rightarrow> device list" where
  "collect_kind ix r k acc = fold collect_device (devicesWithCapabilityInRoom k r ix) acc"

definition resolveDevices :: "capability_kind list \<Rightarrow> intent_target \<Rightarrow> capability_index \<Rightarrow> device list" where
  "resolveDevices ks tgt ix =
     (case tgt of
        TargetDevice d \<Rightarrow> (case index_get d ix of None \<Rightarrow> [] | Some dv \<Rightarrow> if \<exists>k\<in>set ks. k \<in> set (kinds dv) then [dv] else [])
      | TargetRoom r \<Rightarrow> fold (collect_kind ix r) ks []
      | _ \<Rightarrow> [])"

section \<open>A run\<close>

definition command_device ::
  "'w intent_executors \<Rightarrow> intent_translator \<Rightarrow> capability_kind list \<Rightarrow> bag \<Rightarrow> device \<Rightarrow> ('w, unit) eff" where
  "command_device ex tr ks ps dv =
     (case find (\<lambda>k. k \<in> set (kinds dv)) ks of
        None \<Rightarrow> eff_return ()
      | Some k \<Rightarrow>
          eff_bind (ie_getState ex (dv_id dv) k) (\<lambda>st.
          eff_bind (case ie_getCapabilityConfig ex of None \<Rightarrow> eff_return None | Some get \<Rightarrow> get (dv_id dv) k) (\<lambda>cfg.
            case tr \<lparr>ti_params = ps, ti_state = st, ti_capabilityConfig = cfg\<rparr> of
              Inl e \<Rightarrow> eff_throw e
            | Inr c \<Rightarrow> ie_command ex (dv_id dv) c)))"

fun command_devices ::
  "'w intent_executors \<Rightarrow> intent_translator \<Rightarrow> capability_kind list \<Rightarrow> bag \<Rightarrow> device list \<Rightarrow> ('w, unit) eff" where
  "command_devices ex tr ks ps [] = eff_return ()"
| "command_devices ex tr ks ps (dv # dvs) = eff_bind (command_device ex tr ks ps dv) (\<lambda>_. command_devices ex tr ks ps dvs)"

definition unaccepted_target :: "intent_definition \<Rightarrow> intent_target \<Rightarrow> error" where
  "unaccepted_target d tgt = SupremeError Validation_failed
     (''intent \"'' @ id_id d @ ''\" does not accept a \"'' @ target_kind_name (target_kind tgt) @ ''\" target (accepts: '' @
      join_with '', '' (map target_kind_name (id_targetKinds d)) @ '')'')"

text \<open>
  What the body of the \<^verbatim>\<open>try\<close> is about to do, once the intent and its parameters are accepted: a hub action, or commands to devices.
\<close>

datatype 'w intent_plan = SystemPlan "('w, unit) eff" | DevicePlan intent_translator "capability_kind list" bag "device list"

definition plan_run ::
  "'w intent_options \<Rightarrow> capability_index \<Rightarrow> string \<Rightarrow> intent_target \<Rightarrow> bag \<Rightarrow> error + 'w intent_plan" where
  "plan_run opts ix i tgt ps =
     (case intent_get i (io_registry opts) of
        None \<Rightarrow> Inl (SupremeError Not_found (''intent \"'' @ i @ ''\" is not registered''))
      | Some r \<Rightarrow>
          (let d = ir_definition r in
           if target_kind tgt \<notin> set (id_targetKinds d) then Inl (unaccepted_target d tgt)
           else case validateIntentParams d ps of
               Inl e \<Rightarrow> Inl e
             | Inr ps' \<Rightarrow>
                 if id_requiredCapabilities d = [] then
                   (case ir_runSystem r of
                      None \<Rightarrow> Inl (SupremeError Conflict (''intent \"'' @ i @ ''\" has no runSystem handler wired''))
                    | Some run \<Rightarrow> Inr (SystemPlan (run tgt ps' (io_executors opts))))
                 else
                   (let devices = resolveDevices (id_requiredCapabilities d) tgt ix in
                    if devices = [] then
                      Inl (SupremeError Backend_unavailable (''no device compatible with intent \"'' @ i @ ''\" was found for this target''))
                    else case ir_translate r of
                        None \<Rightarrow> Inl (SupremeError Conflict (''intent \"'' @ i @ ''\" has no translate handler wired''))
                      | Some tr \<Rightarrow> Inr (DevicePlan tr (id_requiredCapabilities d) ps' devices))))"

fun plan_devices :: "'w intent_plan \<Rightarrow> device_id list" where
  "plan_devices (SystemPlan _) = []"
| "plan_devices (DevicePlan _ _ _ dvs) = map dv_id dvs"

fun run_plan :: "'w intent_executors \<Rightarrow> 'w intent_plan \<Rightarrow> ('w, unit) eff" where
  "run_plan ex (SystemPlan act) = act"
| "run_plan ex (DevicePlan tr ks ps dvs) = command_devices ex tr ks ps dvs"

definition attempt_intent ::
  "'w intent_options \<Rightarrow> capability_index \<Rightarrow> string \<Rightarrow> intent_target \<Rightarrow> bag \<Rightarrow> 'w \<Rightarrow> device_id list \<times> (error + unit) \<times> 'w" where
  "attempt_intent opts ix i tgt ps w =
     (case plan_run opts ix i tgt ps of
        Inl e \<Rightarrow> ([], Inl e, w)
      | Inr p \<Rightarrow> (plan_devices p, run_plan (io_executors opts) p w))"

definition run_intent ::
  "'w intent_options \<Rightarrow> capability_index \<Rightarrow> string \<Rightarrow> intent_target \<Rightarrow> bag \<Rightarrow> (intent_engine \<times> 'w, intent_run) eff" where
  "run_intent opts ix i tgt ps = (\<lambda>(en, w).
     let (started, w1) = io_date opts w;
         (t0, w2) = io_now opts w1;
         (ids, res, w3) = attempt_intent opts ix i tgt ps w2;
         (t1, w4) = io_now opts w3;
         run = \<lparr>ir_id = (started, ie_runSeq en), ir_intentId = i, ir_target = tgt, ir_startedAt = started,
                ir_resolvedDeviceIds = ids, ir_durationMs = t1 - t0, ir_ok = (\<not> isl res),
                ir_error = (case res of Inl e \<Rightarrow> Some (error_message e) | Inr _ \<Rightarrow> None)\<rparr>;
         en' = record_intent_run run (en\<lparr>ie_runSeq := ie_runSeq en + 1\<rparr>)
     in (case res of Inl e \<Rightarrow> Inl e | Inr _ \<Rightarrow> Inr run, (en', w4)))"

interpretation ien: run_history ie_runs ie_historyLimit record_intent_run
  by unfold_locales (simp_all add: record_intent_run_def)

section \<open>Which devices\<close>

lemma fold_collect:
  "distinct (map dv_id acc) \<Longrightarrow> distinct (map dv_id (fold collect_device ds acc))"
  "dv_id ` set (fold collect_device ds acc) = dv_id ` set acc \<union> dv_id ` set ds"
proof (induction ds arbitrary: acc)
  case (Cons d ds)
  { case 1 then show ?case using Cons.IH(1) [of "collect_device d acc"] by (auto simp: collect_device_def) }
  { case 2 then show ?case using Cons.IH(2) [of "collect_device d acc"] by (auto simp: collect_device_def) }
qed simp_all

lemma fold_collect_kinds:
  "distinct (map dv_id acc) \<Longrightarrow> distinct (map dv_id (fold (collect_kind ix r) ks acc))"
  "dv_id ` set (fold (collect_kind ix r) ks acc) = dv_id ` set acc \<union> (\<Union>k\<in>set ks. dv_id ` set (devicesWithCapabilityInRoom k r ix))"
proof (induction ks arbitrary: acc)
  case (Cons k ks)
  { case 1 then show ?case using Cons.IH(1) [of "collect_kind ix r k acc"] fold_collect(1) by (simp add: collect_kind_def) }
  { case 2 then show ?case using Cons.IH(2) [of "collect_kind ix r k acc"] fold_collect(2) by (auto simp: collect_kind_def) }
qed simp_all

text \<open>A device with one of the capabilities, in the store.\<close>

definition stored_match :: "capability_kind list \<Rightarrow> intent_target \<Rightarrow> home_store \<Rightarrow> device_id \<Rightarrow> bool" where
  "stored_match ks tgt st d \<longleftrightarrow> (\<exists>x. hs_getDevice d st = Some x \<and> (\<exists>k\<in>set ks. k \<in> set (kinds (sd_device x))) \<and>
     (case tgt of TargetDevice e \<Rightarrow> e = d | TargetRoom r \<Rightarrow> dv_roomId (sd_device x) = Some r | _ \<Rightarrow> False))"

lemma resolve_spec:
  assumes "in_sync devs ix" "hs_devices st = devs"
  shows "distinct (map dv_id (resolveDevices ks tgt ix)) \<and> (d \<in> dv_id ` set (resolveDevices ks tgt ix) \<longleftrightarrow> stored_match ks tgt st d)"
proof (cases tgt)
  case (TargetDevice e)
  have rel: "rel_option same_device (map_option sd_device (jget devs e)) (index_get e ix)" and ok: "index_ok ix"
    using assms(1) by (simp_all add: in_sync_def)
  have "dv_id dv = e" if "index_get e ix = Some dv" for dv using that index_okD(2) [OF ok] by (simp add: index_get_def)
  with rel same_device_fields TargetDevice assms(2) show ?thesis
    by (cases "jget devs e"; cases "index_get e ix") (auto simp: resolveDevices_def stored_match_def hs_getDevice_def)
next
  case (TargetRoom r)
  have ok: "index_ok ix" using assms(1) by (simp add: in_sync_def)
  show ?thesis
    using fold_collect_kinds [where acc = "[]" and ix = ix and r = r and ks = ks] index_room [OF ok assms(1), of d _ r] TargetRoom assms(2)
    by (auto simp: resolveDevices_def stored_match_def hs_getDevice_def)
qed (simp_all add: resolveDevices_def stored_match_def)

section \<open>Properties of a run\<close>

lemma run_intent_cases:
  assumes "run_intent opts ix i tgt ps (en, w) = (res, en', w')"
  obtains t w2 res' w3 r where "io_now opts (snd (io_date opts w)) = (t, w2)"
    "attempt_intent opts ix i tgt ps w2 = (ir_resolvedDeviceIds r, res', w3)" "snd (io_now opts w3) = w'"
    "ir_intentId r = i" "ir_target r = tgt" "ir_ok r = (\<not> isl res')"
    "ir_error r = (case res' of Inl e \<Rightarrow> Some (error_message e) | Inr _ \<Rightarrow> None)"
    "res = (case res' of Inl e \<Rightarrow> Inl e | Inr _ \<Rightarrow> Inr r)" "en' = record_intent_run r (en\<lparr>ie_runSeq := ie_runSeq en + 1\<rparr>)"
proof -
  obtain started w1 where 1: "io_date opts w = (started, w1)" by fastforce
  obtain t0 w2 where 2: "io_now opts w1 = (t0, w2)" by fastforce
  obtain ids res' w3 where 3: "attempt_intent opts ix i tgt ps w2 = (ids, res', w3)" by (metis prod_cases3)
  obtain t1 w4 where 4: "io_now opts w3 = (t1, w4)" by fastforce
  let ?r = "\<lparr>ir_id = (started, ie_runSeq en), ir_intentId = i, ir_target = tgt, ir_startedAt = started,
      ir_resolvedDeviceIds = ids, ir_durationMs = t1 - t0, ir_ok = (\<not> isl res'),
      ir_error = (case res' of Inl e \<Rightarrow> Some (error_message e) | Inr _ \<Rightarrow> None)\<rparr>"
  have "(case res' of Inl e \<Rightarrow> Inl e | Inr _ \<Rightarrow> Inr ?r, (record_intent_run ?r (en\<lparr>ie_runSeq := ie_runSeq en + 1\<rparr>), w4)) = (res, en', w')"
    using assms unfolding run_intent_def by (simp only: prod.case 1 2 3 4 Let_def)
  then show ?thesis using 1 2 3 4 by (intro that [of t0 w2 ?r res' w3]) simp_all
qed

text \<open>
  Every run leaves its trace and its error: a run of an intent, accepted or refused, appends exactly one trace to the bounded
  history, naming the intent, the target, whether it succeeded and the message of its error, and what it throws is that error.
\<close>

theorem intent_run_traced:
  assumes "run_intent opts ix i tgt ps (en, w) = (res, (en', w'))" "length (ie_runs en) \<le> ie_historyLimit en"
  shows "\<exists>r. ie_runs en' = push_history (ie_historyLimit en) r (ie_runs en) \<and> ie_runSeq en' = ie_runSeq en + 1 \<and>
     length (ie_runs en') \<le> ie_historyLimit en' \<and> ir_intentId r = i \<and> ir_target r = tgt \<and>
     (case res of Inl e \<Rightarrow> \<not> ir_ok r \<and> ir_error r = Some (error_message e) | Inr r' \<Rightarrow> r' = r \<and> ir_ok r \<and> ir_error r = None)"
  using assms(1)
proof (cases rule: run_intent_cases)
  case (1 t w2 res' w3 r)
  have "length (ie_runs en') \<le> ie_historyLimit en'"
    using ien.bounded_rec [of "en\<lparr>ie_runSeq := ie_runSeq en + 1\<rparr>" r] assms(2) 1(9) by simp
  with 1(4-9) show ?thesis
    by (intro exI [of _ r]) (simp add: record_intent_run_def split: sum.splits)
qed

lemma attempt_devices:
  assumes "attempt_intent opts ix i tgt ps w = (ids, Inr u, w')" "intent_get i (io_registry opts) = Some r"
    and "id_requiredCapabilities (ir_definition r) \<noteq> []"
  shows "ids = map dv_id (resolveDevices (id_requiredCapabilities (ir_definition r)) tgt ix) \<and> ids \<noteq> []"
  using assms by (auto simp: attempt_intent_def plan_run_def Let_def split: option.splits sum.splits if_splits)

text \<open>
  C3: An intent reaches the devices it means: a successful run of a capability intent resolved exactly the stored devices
  that match its target and expose a capability it requires, each once and at least one. Before the run the home and its
  devices may have gone through any sequence of changes (added, cloned, updated, moved, removed, new states, owners, metadata,
  rooms added), with one exception: no room was removed, because removing a room announces nothing to the index (the finding at
  home-service.ts:112). Added devices and clones have a fresh id without a colon, and an added device claims no backend entity of
  a stored one, which its callers ask isKnownBackendId for.
\<close>

theorem intent_reaches_matching_devices:
  assumes "devices_ok (hs_devices st)" "(device_step ops)\<^sup>*\<^sup>* (booted st s) h"
    and "intent_get i (io_registry opts) = Some r" "id_requiredCapabilities (ir_definition r) \<noteq> []"
    and "run_intent opts (hub_index st h) i tgt ps (en, w) = (Inr run, en', w')"
  shows "distinct (ir_resolvedDeviceIds run) \<and> ir_resolvedDeviceIds run \<noteq> [] \<and>
     set (ir_resolvedDeviceIds run) = {d. stored_match (id_requiredCapabilities (ir_definition r)) tgt (hm_store h) d}"
  using assms(5)
proof (cases rule: run_intent_cases)
  case (1 t w2 res' w3 run')
  from 1(8) obtain u where "res' = Inr u" "run' = run" by (auto split: sum.splits)
  with 1(2) have "attempt_intent opts (hub_index st h) i tgt ps w2 = (ir_resolvedDeviceIds run, Inr u, w3)" by simp
  note ids = attempt_devices [OF this assms(3,4)]
  note spec = resolve_spec [OF steps_synced(1) [OF assms(1,2)] hm_devices_def [symmetric]]
  have "d \<in> set (ir_resolvedDeviceIds run) \<longleftrightarrow> stored_match (id_requiredCapabilities (ir_definition r)) tgt (hm_store h) d" for d
    unfolding conjunct1 [OF ids] set_map by (rule conjunct2 [OF spec])
  moreover have "distinct (ir_resolvedDeviceIds run)"
    unfolding conjunct1 [OF ids] by (rule conjunct1 [OF spec])
  ultimately show ?thesis using conjunct2 [OF ids] by auto
qed

text \<open>What a run may do to the world, an invariant at a time.\<close>

definition keeps :: "('w \<Rightarrow> bool) \<Rightarrow> ('w, 'a) eff \<Rightarrow> bool" where
  "keeps I m \<longleftrightarrow> (\<forall>w. I w \<longrightarrow> I (snd (m w)))"

lemma keepsD: "keeps I m \<Longrightarrow> I w \<Longrightarrow> I (snd (m w))"
  by (simp add: keeps_def)

lemma keeps_simple [simp]: "keeps I (eff_return a)" "keeps I (eff_throw e)"
  by (simp_all add: keeps_def)

lemma keeps_bind: "keeps I m \<Longrightarrow> (\<And>a. keeps I (f a)) \<Longrightarrow> keeps I (eff_bind m f)"
proof -
  assume m: "keeps I m" and f: "\<And>a. keeps I (f a)"
  have "I (snd (eff_bind m f w))" if "I w" for w
  proof (cases "m w")
    case (Pair res w1)
    with keepsD [OF m that] have "I w1" by simp
    with Pair keepsD [OF f] show ?thesis by (cases res) (simp_all add: eff_bind_def)
  qed
  then show ?thesis by (simp add: keeps_def)
qed

definition reads_keep :: "('w \<Rightarrow> bool) \<Rightarrow> 'w intent_options \<Rightarrow> bool" where
  "reads_keep I opts \<longleftrightarrow> (\<forall>d k. keeps I (ie_getState (io_executors opts) d k)) \<and>
     (\<forall>get d k. ie_getCapabilityConfig (io_executors opts) = Some get \<longrightarrow> keeps I (get d k)) \<and>
     (\<forall>w. I w \<longrightarrow> I (snd (io_now opts w)) \<and> I (snd (io_date opts w)))"

lemma command_device_keeps:
  assumes "reads_keep I opts" "\<And>c. keeps I (ie_command (io_executors opts) (dv_id dv) c)"
  shows "keeps I (command_device (io_executors opts) tr ks ps dv)"
  using assms
  by (auto simp: command_device_def reads_keep_def intro!: keeps_bind split: option.split sum.split)

lemma command_devices_keeps:
  assumes "reads_keep I opts" "\<And>dv c. dv \<in> set dvs \<Longrightarrow> keeps I (ie_command (io_executors opts) (dv_id dv) c)"
  shows "keeps I (command_devices (io_executors opts) tr ks ps dvs)"
  using assms(2)
proof (induction dvs)
  case (Cons dv dvs)
  then show ?case using command_device_keeps [OF assms(1), of dv] by (auto intro!: keeps_bind)
qed simp

text \<open>
  An intent touches nothing else: whatever holds of the world outside, if reading states and clocks keeps it and so
  do commands to the stored devices that match the target and a required capability, then it still holds after the run, failed or not.
\<close>

theorem intent_touches_only_matches:
  assumes "devices_ok (hs_devices st)" "(device_step ops)\<^sup>*\<^sup>* (booted st s) h"
    and "intent_get i (io_registry opts) = Some r" "id_requiredCapabilities (ir_definition r) \<noteq> []"
    and "reads_keep I opts"
    and "\<And>d c. stored_match (id_requiredCapabilities (ir_definition r)) tgt (hm_store h) d \<Longrightarrow> keeps I (ie_command (io_executors opts) d c)"
    and "I w" "run_intent opts (hub_index st h) i tgt ps (en, w) = (res, en', w')"
  shows "I w'"
proof -
  let ?ks = "id_requiredCapabilities (ir_definition r)" and ?ix = "hub_index st h"
  have cmd: "keeps I (ie_command (io_executors opts) (dv_id dv) c)" if "dv \<in> set (resolveDevices ?ks tgt ?ix)" for dv c
    using that resolve_spec [OF steps_synced(1) [OF assms(1,2)], of "hm_store h" ?ks tgt "dv_id dv"]
    by (intro assms(6)) (auto simp: hm_devices_def)
  have plan: "I w1 \<Longrightarrow> I (snd (snd (attempt_intent opts ?ix i tgt ps w1)))" for w1
    using keepsD [OF command_devices_keeps [OF assms(5) cmd], of "resolveDevices ?ks tgt ?ix"] assms(3,4)
    by (auto simp: attempt_intent_def plan_run_def Let_def split: option.splits sum.splits if_splits)
  show ?thesis
    using assms(8)
  proof (cases rule: run_intent_cases)
    case (1 t w2 res' w3 run)
    have "I w2" using 1(1) assms(5,7) unfolding reads_keep_def by (metis snd_conv)
    from plan [OF this] 1(2,3) assms(5) show ?thesis unfolding reads_keep_def by (metis snd_conv)
  qed
qed

section \<open>A run on the home with one lamp\<close>

type_synonym sent = "(device_id \<times> intent_command) list"

definition sent_executors :: "sent intent_executors" where
  "sent_executors = \<lparr>ie_command = (\<lambda>d c w. (Inr (), w @ [(d, c)])), ie_getState = (\<lambda>d k. eff_return None),
     ie_getCapabilityConfig = None, ie_activateScene = (\<lambda>s. eff_return ()), ie_runAutomation = (\<lambda>a. eff_return ()),
     ie_notify = (\<lambda>l t b u. eff_return ()), ie_security = None\<rparr>"

definition sent_options :: "sent intent_options" where
  "sent_options = \<lparr>io_registry = map (\<lambda>r. (id_id (ir_definition r), r)) builtin_intents, io_executors = sent_executors,
     io_now = (\<lambda>w. (0, w)), io_date = (\<lambda>w. (0, w))\<rparr>"

definition light_on :: "sent intent_registration" where
  "light_on = lighting_intents ! 1"

lemma light_on_eq: "light_on = driven (def_intent ''lightOn'' ''Light On'' CatLighting '''' [CkOnoff] [] at_devices) (\<lambda>_. ic (CmdOnoff OoOn))"
  by (simp add: light_on_def lighting_intents_def)

lemma light_on_get: "intent_get ''lightOn'' (io_registry sent_options) = Some light_on"
  by (simp add: sent_options_def intent_get_def light_on_def catalog_simps)

lemma light_on_needs: "id_requiredCapabilities (ir_definition light_on) = [CkOnoff]"
  by (simp add: light_on_eq driven_def def_intent_def)

lemma lamp_index: "devicesWithCapabilityInRoom CkOnoff ''kitchen'' (hub_index lamp_home (booted lamp_home s)) = [lamp]"
  by (simp add: hub_index_def booted_fields hs_listDevices_def lamp_home_devices index_hydrate_def index_upsert_def index_remove_def
      empty_index_def Let_def kinds_def lamp_def add_member_def members_def devicesWithCapabilityInRoom_def devicesWithCapability_def
      List.map_filter_simps)

definition lamp_run :: intent_run where
  "lamp_run = \<lparr>ir_id = (0, 0), ir_intentId = ''lightOn'', ir_target = TargetRoom ''kitchen'', ir_startedAt = 0,
     ir_resolvedDeviceIds = [''lamp''], ir_durationMs = 0, ir_ok = True, ir_error = None\<rparr>"

definition after_lamp_run :: intent_engine where
  "after_lamp_run = \<lparr>ie_runs = [lamp_run], ie_historyLimit = 100, ie_runSeq = 1\<rparr>"

lemma lamp_lights_up:
  "run_intent sent_options (hub_index lamp_home (booted lamp_home s)) ''lightOn'' (TargetRoom ''kitchen'') [] (new_intent_engine None, []) =
     (Inr lamp_run, after_lamp_run, [(''lamp'', IcCommand (CmdOnoff OoOn))])"
proof -
  have "resolveDevices [CkOnoff] (TargetRoom ''kitchen'') (hub_index lamp_home (booted lamp_home s)) = [lamp]"
    by (simp add: resolveDevices_def collect_kind_def lamp_index collect_device_def)
  then have "plan_run sent_options (hub_index lamp_home (booted lamp_home s)) ''lightOn'' (TargetRoom ''kitchen'') [] =
      Inr (DevicePlan (\<lambda>_. ic (CmdOnoff OoOn)) [CkOnoff] [] [lamp])"
    by (simp add: plan_run_def light_on_get light_on_eq driven_def def_intent_def validateIntentParams_def Let_def)
  then have "attempt_intent sent_options (hub_index lamp_home (booted lamp_home s)) ''lightOn'' (TargetRoom ''kitchen'') [] [] =
      ([''lamp''], Inr (), [(''lamp'', IcCommand (CmdOnoff OoOn))])"
    by (simp add: attempt_intent_def command_device_def sent_options_def sent_executors_def ic_def eff_bind_def lamp_def kinds_def)
  moreover have "io_now sent_options w = (0, w)" "io_date sent_options w = (0, w)" for w by (simp_all add: sent_options_def)
  ultimately show ?thesis
    by (simp add: run_intent_def new_intent_engine_def record_intent_run_def push_history_def lamp_run_def after_lamp_run_def Let_def)
qed

theorem intent_run_traced_witness:
  "\<forall>s. fst (run_intent sent_options (hub_index lamp_home (booted lamp_home s)) ''lightOn'' (TargetRoom ''kitchen'') []
       (new_intent_engine None, [])) = Inr lamp_run \<and> ir_ok lamp_run \<and> length (ie_runs after_lamp_run) \<le> ie_historyLimit after_lamp_run"
proof
  fix s
  from intent_run_traced [OF lamp_lights_up [of s]]
  have "ir_ok lamp_run \<and> length (ie_runs after_lamp_run) \<le> ie_historyLimit after_lamp_run" by (auto simp: new_intent_engine_def)
  then show "fst (run_intent sent_options (hub_index lamp_home (booted lamp_home s)) ''lightOn'' (TargetRoom ''kitchen'') []
       (new_intent_engine None, [])) = Inr lamp_run \<and> ir_ok lamp_run \<and> length (ie_runs after_lamp_run) \<le> ie_historyLimit after_lamp_run"
    by (simp add: lamp_lights_up)
qed

theorem intent_reaches_matching_devices_witness:
  "{d. stored_match [CkOnoff] (TargetRoom ''kitchen'') lamp_home d} = {''lamp''}"
proof -
  have need: "id_requiredCapabilities (ir_definition light_on) \<noteq> []" by (simp add: light_on_needs)
  from intent_reaches_matching_devices [OF lamp_home_ok rtranclp.rtrancl_refl light_on_get need lamp_lights_up]
  have "set (ir_resolvedDeviceIds lamp_run) = {d. stored_match [CkOnoff] (TargetRoom ''kitchen'') (hm_store (booted lamp_home undefined)) d}"
    by (simp add: light_on_needs booted_fields)
  then show ?thesis by (simp add: lamp_run_def booted_fields)
qed

definition only_lamp :: "sent \<Rightarrow> bool" where
  "only_lamp w \<longleftrightarrow> list_all (\<lambda>(d, c). d = ''lamp'') w"

theorem intent_touches_only_matches_witness:
  "\<forall>s. only_lamp (snd (snd (run_intent sent_options (hub_index lamp_home (booted lamp_home s)) ''lightOn'' (TargetRoom ''kitchen'') []
     (new_intent_engine None, []))))"
proof
  fix s
  have need: "id_requiredCapabilities (ir_definition light_on) \<noteq> []" by (simp add: light_on_needs)
  have reads: "reads_keep only_lamp sent_options"
    by (simp add: reads_keep_def sent_options_def sent_executors_def)
  have cmds: "keeps only_lamp (ie_command (io_executors sent_options) d c)"
    if "stored_match (id_requiredCapabilities (ir_definition light_on)) (TargetRoom ''kitchen'') (hm_store (booted lamp_home s)) d" for d c
    using that
    by (auto simp: stored_match_def light_on_needs booted_fields hs_getDevice_def lamp_home_devices keeps_def sent_options_def
        sent_executors_def only_lamp_def split: if_splits)
  have "only_lamp []" by (simp add: only_lamp_def)
  from intent_touches_only_matches [OF lamp_home_ok rtranclp.rtrancl_refl light_on_get need reads cmds this lamp_lights_up]
  show "only_lamp (snd (snd (run_intent sent_options (hub_index lamp_home (booted lamp_home s)) ''lightOn'' (TargetRoom ''kitchen'') []
     (new_intent_engine None, []))))"
    by (simp add: lamp_lights_up)
qed

end
