(* ===== verification/Automation_Service.thy ===== *)
theory Automation_Service
  imports Automation_Engine
begin

text \<open>
  The automation service, \<^verbatim>\<open>services/automations/src/service.ts\<close>, over its store (\<^verbatim>\<open>store.ts\<close>) and the engine: every change
  of the store reloads the engine, so that what runs is what is stored and enabled.
\<close>

section \<open>State\<close>

record automation_service =
  as_store :: "(automation_id, automation) jsmap"
  as_engine :: engine
  as_loaded :: bool

record create_automation_input =
  ci_homeId :: home_id
  ci_name :: string
  ci_triggers :: "automation_trigger list"
  ci_conditions :: "automation_condition list option"
  ci_actions :: "automation_action list"
  ci_engine :: "string option"
  ci_enabled :: "bool option"
  ci_aiGenerated :: "bool option"
  ci_tags :: "string list option"

text \<open>The properties of a partial input that \<^verbatim>\<open>update\<close> reads.\<close>

record automation_patch =
  ap_name :: "string option"
  ap_enabled :: "bool option"
  ap_triggers :: "automation_trigger list option"
  ap_conditions :: "automation_condition list option"
  ap_actions :: "automation_action list option"
  ap_engine :: "string option"
  ap_tags :: "string list option"

definition no_patch :: automation_patch where
  "no_patch = \<lparr>ap_name = None, ap_enabled = None, ap_triggers = None, ap_conditions = None, ap_actions = None, ap_engine = None,
     ap_tags = None\<rparr>"

definition au_list :: "(automation_id, automation) jsmap \<Rightarrow> automation list" where
  "au_list st = jvalues st"

definition au_get :: "automation_id \<Rightarrow> (automation_id, automation) jsmap \<Rightarrow> automation option" where
  "au_get i st = jget st i"

definition au_put :: "automation \<Rightarrow> (automation_id, automation) jsmap \<Rightarrow> (automation_id, automation) jsmap" where
  "au_put a st = jset (a_id a) a st"

definition au_remove :: "automation_id \<Rightarrow> (automation_id, automation) jsmap \<Rightarrow> (automation_id, automation) jsmap" where
  "au_remove i st = jdel i st"

section \<open>Operations\<close>

type_synonym ('w, 'a) service_op = "(automation_service \<times> 'w, 'a) eff"

definition as_reload :: "automation_service \<Rightarrow> automation_service" where
  "as_reload s = s\<lparr>as_engine := setAutomations (au_list (as_store s)) (as_engine s)\<rparr>"

definition as_start :: "automation_service \<Rightarrow> automation_service" where
  "as_start s = (as_reload s)\<lparr>as_loaded := True\<rparr>"

definition getAutomation :: "automation_id \<Rightarrow> ('w, automation) service_op" where
  "getAutomation i = (\<lambda>(s, w). case au_get i (as_store s) of
     None \<Rightarrow> (Inl (SupremeError Not_found ''automation not found''), (s, w)) | Some a \<Rightarrow> (Inr a, (s, w)))"

definition assertSupportedEngine :: "string option \<Rightarrow> ('w, unit) service_op" where
  "assertSupportedEngine e =
     (if e = Some ''ha'' then eff_throw (SupremeError Validation_failed
        (''engine \"ha\" automations are not executable on this hub (Home Assistant automation push/sync is not implemented) '' @
         em_dash @ '' use the default \"supreme\" engine''))
      else eff_return ())"

text \<open>\<^verbatim>\<open>store.put\<close> and the reload after it.\<close>

definition put_and_reload :: "automation \<Rightarrow> ('w, automation) service_op" where
  "put_and_reload a = (\<lambda>(s, w). (Inr a, (as_reload (s\<lparr>as_store := au_put a (as_store s)\<rparr>), w)))"

definition createAutomation :: "automation_id \<Rightarrow> create_automation_input \<Rightarrow> ('w, automation) service_op" where
  "createAutomation new inp = eff_bind (assertSupportedEngine (ci_engine inp)) (\<lambda>_. put_and_reload
     \<lparr>a_id = new, a_homeId = ci_homeId inp, a_name = ci_name inp, a_enabled = or_else (ci_enabled inp) True,
      a_triggers = ci_triggers inp, a_conditions = or_else (ci_conditions inp) [], a_actions = ci_actions inp,
      a_engine = or_else (ci_engine inp) ''supreme'', a_externalRef = None, a_aiGenerated = or_else (ci_aiGenerated inp) False,
      a_tags = or_else (ci_tags inp) []\<rparr>)"

definition patch_automation :: "automation_patch \<Rightarrow> automation \<Rightarrow> automation" where
  "patch_automation p a = a\<lparr>a_name := or_else (ap_name p) (a_name a), a_enabled := or_else (ap_enabled p) (a_enabled a),
     a_triggers := or_else (ap_triggers p) (a_triggers a), a_conditions := or_else (ap_conditions p) (a_conditions a),
     a_actions := or_else (ap_actions p) (a_actions a), a_engine := or_else (ap_engine p) (a_engine a),
     a_tags := or_else (ap_tags p) (a_tags a)\<rparr>"

definition updateAutomation :: "automation_id \<Rightarrow> automation_patch \<Rightarrow> ('w, automation) service_op" where
  "updateAutomation i p =
     eff_bind (if ap_engine p = None then eff_return () else assertSupportedEngine (ap_engine p)) (\<lambda>_.
     eff_bind (getAutomation i) (\<lambda>a. put_and_reload (patch_automation p a)))"

definition setEnabled :: "automation_id \<Rightarrow> bool \<Rightarrow> ('w, automation) service_op" where
  "setEnabled i b = updateAutomation i (no_patch\<lparr>ap_enabled := Some b\<rparr>)"

definition removeAutomation :: "automation_id \<Rightarrow> ('w, unit) service_op" where
  "removeAutomation i = eff_bind (getAutomation i) (\<lambda>_ (s, w).
     (Inr (), (as_reload (s\<lparr>as_store := au_remove i (as_store s)\<rparr>), w)))"

definition on_engine :: "(engine \<times> 'w, 'a) eff \<Rightarrow> ('w, 'a) service_op" where
  "on_engine m = (\<lambda>(s, w). case m (as_engine s, w) of (res, (en, w')) \<Rightarrow> (res, (s\<lparr>as_engine := en\<rparr>, w')))"

definition testRun :: "'w executors \<Rightarrow> automation_id \<Rightarrow> ('w, unit) service_op" where
  "testRun ex i = eff_bind (getAutomation i) (\<lambda>a. on_engine (run ex a))"

definition as_dryRun :: "'w executors \<Rightarrow> automation_id \<Rightarrow> ('w, automation_run) service_op" where
  "as_dryRun ex i = eff_bind (getAutomation i) (\<lambda>a. on_engine (dryRun ex a))"

definition as_health :: "automation_id \<Rightarrow> ('w, health_status \<times> string) service_op" where
  "as_health i = eff_bind (getAutomation i) (\<lambda>a (s, w). (Inr (health a (as_engine s)), (s, w)))"

definition duplicateAutomation :: "automation_id \<Rightarrow> automation_id \<Rightarrow> string option \<Rightarrow> ('w, automation) service_op" where
  "duplicateAutomation new i name = eff_bind (getAutomation i) (\<lambda>a. createAutomation new
     \<lparr>ci_homeId = a_homeId a, ci_name = or_else name (a_name a @ '' (copy)''), ci_triggers = a_triggers a,
      ci_conditions = Some (a_conditions a), ci_actions = a_actions a, ci_engine = Some (a_engine a), ci_enabled = Some False,
      ci_aiGenerated = None, ci_tags = Some (a_tags a)\<rparr>)"

definition as_recentRuns :: "automation_id option \<Rightarrow> nat \<Rightarrow> automation_service \<Rightarrow> automation_run list" where
  "as_recentRuns i limit s = recentRuns i limit (as_engine s)"

definition as_onDeviceState :: "'w executors \<Rightarrow> device_state_event \<Rightarrow> ('w, unit) service_op" where
  "as_onDeviceState ex ev = (\<lambda>(s, w). if as_loaded s then on_engine (onDeviceState ex ev) (s, w) else (Inr (), (s, w)))"

definition as_onKeypadInput :: "'w executors \<Rightarrow> keypad_input_event \<Rightarrow> ('w, unit) service_op" where
  "as_onKeypadInput ex ev = (\<lambda>(s, w). if as_loaded s then on_engine (onKeypadInput ex ev) (s, w) else (Inr (), (s, w)))"

definition as_tick :: "'w executors \<Rightarrow> date \<Rightarrow> ('w, unit) service_op" where
  "as_tick ex now = on_engine (tick ex now)"

section \<open>Reachable services\<close>

text \<open>What the hub feeds in, and what an installer does.\<close>

inductive service_event :: "'w executors \<Rightarrow> automation_service \<times> 'w \<Rightarrow> automation_service \<times> 'w \<Rightarrow> bool" for ex where
  state: "service_event ex s (snd (as_onDeviceState ex ev s))"
| keypad: "service_event ex s (snd (as_onKeypadInput ex kev s))"
| tick: "service_event ex s (snd (as_tick ex now s))"

inductive service_step :: "'w executors \<Rightarrow> automation_service \<times> 'w \<Rightarrow> automation_service \<times> 'w \<Rightarrow> bool" for ex where
  event: "service_event ex s s' \<Longrightarrow> service_step ex s s'"
| create: "service_step ex s (snd (createAutomation new inp s))"
| update: "service_step ex s (snd (updateAutomation i p s))"
| enable: "service_step ex s (snd (setEnabled i b s))"
| remove: "service_step ex s (snd (removeAutomation i s))"
| test: "service_step ex s (snd (testRun ex i s))"
| dry: "service_step ex s (snd (as_dryRun ex i s))"
| copy: "service_step ex s (snd (duplicateAutomation new i name s))"

definition stored_by_id :: "(automation_id, automation) jsmap \<Rightarrow> bool" where
  "stored_by_id st \<longleftrightarrow> jwf st \<and> list_all (\<lambda>(i, a). a_id a = i) st"

inductive service_reachable :: "'w executors \<Rightarrow> automation_service \<times> 'w \<Rightarrow> bool" for ex where
  boot: "stored_by_id st \<Longrightarrow> length (en_runs en) \<le> en_historyLimit en \<Longrightarrow>
     service_reachable ex (as_start \<lparr>as_store = st, as_engine = en, as_loaded = False\<rparr>, w)"
| step: "service_reachable ex s \<Longrightarrow> service_step ex s s' \<Longrightarrow> service_reachable ex s'"

definition runnable :: "automation \<Rightarrow> bool" where
  "runnable a \<longleftrightarrow> a_enabled a \<and> a_engine a = ''supreme''"

definition service_inv :: "automation_service \<Rightarrow> bool" where
  "service_inv s \<longleftrightarrow> stored_by_id (as_store s) \<and> en_automations (as_engine s) = filter runnable (jvalues (as_store s))"

lemma stored_put: "stored_by_id st \<Longrightarrow> stored_by_id (au_put a st)"
  using jset_set_subset [of "a_id a" a st] by (auto simp: stored_by_id_def au_put_def list_all_iff)

lemma stored_remove: "stored_by_id st \<Longrightarrow> stored_by_id (au_remove i st)"
  using jwf_jdel [of st i] by (auto simp: stored_by_id_def au_remove_def list_all_iff AList.delete_eq)

lemma reload_inv: "stored_by_id (as_store s) \<Longrightarrow> service_inv (as_reload s)"
  by (simp add: service_inv_def as_reload_def setAutomations_def au_list_def runnable_def [abs_def])

lemma put_inv: "service_inv (fst s) \<Longrightarrow> service_inv (fst (snd (put_and_reload a s)))"
  using reload_inv [of "(fst s)\<lparr>as_store := au_put a (as_store (fst s))\<rparr>"]
  by (simp add: put_and_reload_def case_prod_unfold stored_put service_inv_def [of "fst s"])

lemma get_bind: "snd (eff_bind (getAutomation i) f s) = (case au_get i (as_store (fst s)) of None \<Rightarrow> s | Some a \<Rightarrow> snd (f a s))"
  by (cases s) (simp add: eff_bind_def getAutomation_def split: option.split)

lemma assert_bind:
  "snd (eff_bind (assertSupportedEngine e) f s) = (if e = Some ''ha'' then s else snd (f () s))"
  by (simp add: assertSupportedEngine_def eff_bind_def)

lemma create_inv: "service_inv (fst s) \<Longrightarrow> service_inv (fst (snd (createAutomation new inp s)))"
  by (simp add: createAutomation_def assert_bind put_inv)

lemma update_inv: "service_inv (fst s) \<Longrightarrow> service_inv (fst (snd (updateAutomation i p s)))"
  by (simp add: updateAutomation_def assert_bind get_bind put_inv split: option.split)

lemma remove_inv: "service_inv (fst s) \<Longrightarrow> service_inv (fst (snd (removeAutomation i s)))"
  using reload_inv [of "(fst s)\<lparr>as_store := au_remove i (as_store (fst s))\<rparr>"]
  by (simp add: removeAutomation_def get_bind case_prod_unfold stored_remove service_inv_def [of "fst s"] split: option.split)

text \<open>An event changes the engine alone, and every trace it adds is of an automation that the engine has loaded.\<close>

definition engine_frame :: "engine \<Rightarrow> engine \<Rightarrow> bool" where
  "engine_frame en en' \<longleftrightarrow> en_automations en' = en_automations en \<and>
     (\<forall>r\<in>set (en_runs en'). r \<in> set (en_runs en) \<or> r_automationId r \<in> a_id ` set (en_automations en))"

lemma execute_new:
  assumes "execute ex a trigger skip (en, w) = (res, (en', w'))" "r \<in> set (en_runs en')"
  shows "r \<in> set (en_runs en) \<or> r_automationId r = a_id a"
  using assms(1)
proof (cases rule: execute_cases)
  case (recorded r')
  with assms(2) push_history_set [of "en_historyLimit en" r' "en_runs en"] show ?thesis by (auto simp: push_run_def)
qed (use assms(2) in simp)

lemma firing_new:
  "execute_firing ex fires trigger as (en, w) = (res, (en', w')) \<Longrightarrow> r \<in> set (en_runs en') \<Longrightarrow>
   r \<in> set (en_runs en) \<or> r_automationId r \<in> a_id ` set as"
proof (induction as arbitrary: en w)
  case (Cons a as)
  obtain res1 en1 w1 where x: "execute ex a trigger False (en, w) = (res1, (en1, w1))" by (metis prod_cases3)
  show ?case
  proof (cases "fires a")
    case True
    show ?thesis
    proof (cases res1)
      case (Inl e)
      with Cons.prems True x execute_new [OF x] show ?thesis by (auto simp: eff_bind_def)
    next
      case (Inr u)
      with Cons.prems True x have "execute_firing ex fires trigger as (en1, w1) = (res, (en', w'))" by (simp add: eff_bind_def)
      from Cons.IH [OF this Cons.prems(2)] execute_new [OF x] show ?thesis by auto
    qed
  qed (use Cons in auto)
qed simp

lemma tick_new:
  "tick_automations ex now m as (en, w) = (res, (en', w')) \<Longrightarrow> r \<in> set (en_runs en') \<Longrightarrow>
   r \<in> set (en_runs en) \<or> r_automationId r \<in> a_id ` set as"
proof (induction as arbitrary: en w)
  case (Cons a as)
  obtain o1 en1 where f: "first_firing (a_id a) 0 (a_triggers a) now m en = (o1, en1)" by fastforce
  from first_firing_lf [OF f] have runs: "en_runs en1 = en_runs en" by auto
  show ?case
  proof (cases o1)
    case None
    with Cons.prems f have "tick_automations ex now m as (en1, w) = (res, (en', w'))" by simp
    from Cons.IH [OF this Cons.prems(2)] runs show ?thesis by auto
  next
    case (Some it)
    obtain i t where it: "it = (i, t)" by fastforce
    obtain res1 en2 w2 where x: "execute ex a (trigger_type t) False (en1, w) = (res1, (en2, w2))" by (metis prod_cases3)
    show ?thesis
    proof (cases res1)
      case (Inl e)
      with Cons.prems f Some it x have "en' = en2" by (simp add: eff_bind_def)
      with execute_new [OF x] Cons.prems(2) runs show ?thesis by auto
    next
      case (Inr u)
      with Cons.prems f Some it x have "tick_automations ex now m as (en2, w2) = (res, (en', w'))" by (simp add: eff_bind_def)
      from Cons.IH [OF this Cons.prems(2)] execute_new [OF x] runs show ?thesis by auto
    qed
  qed
qed simp

lemma handlers_frame:
  "engine_frame en (fst (snd (onDeviceState ex ev (en, w))))"
  "engine_frame en (fst (snd (onKeypadInput ex kev (en, w))))"
  "engine_frame en (fst (snd (tick ex now (en, w))))"
proof -
  have firing: "engine_frame en (fst (snd (execute_firing ex fires trigger (en_automations en) (en, w))))" for fires trigger
  proof -
    obtain res en' w' where x: "execute_firing ex fires trigger (en_automations en) (en, w) = (res, (en', w'))" by (metis prod_cases3)
    with execute_firing_inv [OF x] firing_new [OF x] show ?thesis by (auto simp: engine_frame_def same_config_def)
  qed
  then show "engine_frame en (fst (snd (onDeviceState ex ev (en, w))))" "engine_frame en (fst (snd (onKeypadInput ex kev (en, w))))"
    by (simp_all add: onDeviceState_def onKeypadInput_def)
  obtain res en' w' where x: "tick_automations ex now (minute_of now) (en_automations en) (en, w) = (res, (en', w'))"
    by (metis prod_cases3)
  with tick_automations_inv [OF x] tick_new [OF x] show "engine_frame en (fst (snd (tick ex now (en, w))))"
    by (auto simp: engine_frame_def same_config_def tick_def)
qed

lemma on_engine_fields: "fst (snd (on_engine m (s, w))) = s\<lparr>as_engine := fst (snd (m (as_engine s, w)))\<rparr>"
  by (simp add: on_engine_def split: prod.split)

lemma event_frame:
  assumes "service_event ex s s'"
  shows "as_store (fst s') = as_store (fst s) \<and> engine_frame (as_engine (fst s)) (as_engine (fst s'))"
proof -
  have "engine_frame en en" for en by (simp add: engine_frame_def)
  with assms handlers_frame show ?thesis
    by (cases s) (auto elim!: service_event.cases simp: as_onDeviceState_def as_onKeypadInput_def as_tick_def on_engine_fields)
qed

lemma engine_op_inv:
  "service_inv s \<Longrightarrow> en_automations en' = en_automations (as_engine s) \<Longrightarrow> service_inv (s\<lparr>as_engine := en'\<rparr>)"
  by (simp add: service_inv_def)

lemma run_keeps_list:
  "en_automations (fst (snd (run ex a (en, w)))) = en_automations en"
  "en_automations (fst (snd (dryRun ex a (en, w)))) = en_automations en"
proof -
  obtain res en' w' where x: "execute ex a ''manual'' True (en, w) = (res, (en', w'))" by (metis prod_cases3)
  with execute_inv [OF x] show "en_automations (fst (snd (run ex a (en, w)))) = en_automations en"
    by (simp add: run_def same_config_def)
  show "en_automations (fst (snd (dryRun ex a (en, w)))) = en_automations en"
    by (simp add: dryRun_def Let_def push_run_def split: prod.split sum.split)
qed

lemma service_step_inv:
  assumes "service_step ex s s'" "service_inv (fst s)"
  shows "service_inv (fst s')"
  using assms(1)
proof cases
  case event
  from event_frame [OF this] assms(2) show ?thesis by (simp add: service_inv_def engine_frame_def)
next
  case (test i)
  then show ?thesis
    using assms(2) by (cases s) (simp add: testRun_def get_bind on_engine_fields engine_op_inv run_keeps_list split: option.split)
next
  case (dry i)
  then show ?thesis
    using assms(2) by (cases s) (simp add: as_dryRun_def get_bind on_engine_fields engine_op_inv run_keeps_list split: option.split)
next
  case (copy new i name)
  then show ?thesis using assms(2) by (simp add: duplicateAutomation_def get_bind create_inv split: option.split)
qed (use assms(2) in \<open>simp_all add: create_inv update_inv remove_inv setEnabled_def\<close>)

lemma reachable_service: "service_reachable ex s \<Longrightarrow> service_inv (fst s)"
proof (induction rule: service_reachable.induct)
  case (boot st en w)
  then show ?case using reload_inv [of "\<lparr>as_store = st, as_engine = en, as_loaded = False\<rparr>"]
    by (simp add: as_start_def service_inv_def as_reload_def)
next
  case (step s s')
  then show ?case by (blast intro: service_step_inv)
qed

text \<open>
  C6: What runs is what is stored: after any sequence of edits, test runs and events since the hub started, the automations loaded
  in the engine are exactly the enabled native ones of the store, in its order, and each is stored under its own id.
\<close>

theorem engine_runs_stored_automations:
  assumes "service_reachable ex s"
  shows "en_automations (as_engine (fst s)) = filter (\<lambda>a. a_enabled a \<and> a_engine a = ''supreme'') (au_list (as_store (fst s))) \<and>
     stored_by_id (as_store (fst s))"
  using reachable_service [OF assms] by (simp add: service_inv_def au_list_def runnable_def [abs_def])

lemma jget_stored: "stored_by_id st \<Longrightarrow> a \<in> set (jvalues st) \<Longrightarrow> jget st (a_id a) = Some a"
  by (auto simp: stored_by_id_def jwf_def list_all_iff)

text \<open>
  Switching an automation off stops it at once: whatever device report, keypad event or clock tick a running hub is fed, each
  trace it adds belongs to an automation that is stored, enabled and native at that moment.
\<close>

theorem only_enabled_automations_fire:
  assumes "service_reachable ex s" "service_event ex s s'" "r \<in> set (en_runs (as_engine (fst s')))" "r \<notin> set (en_runs (as_engine (fst s)))"
  shows "\<exists>a. au_get (r_automationId r) (as_store (fst s)) = Some a \<and> a_enabled a \<and> a_engine a = ''supreme''"
proof -
  note inv = reachable_service [OF assms(1)]
  from event_frame [OF assms(2)] assms(3,4) obtain a where "a \<in> set (en_automations (as_engine (fst s)))" "r_automationId r = a_id a"
    by (auto simp: engine_frame_def)
  with inv jget_stored show ?thesis by (auto simp: service_inv_def au_get_def runnable_def)
qed

text \<open>
  A duplicate waits for its review: copying a stored native automation stores, under the new id, one that differs from
  its source only in id and name, is disabled, and is not counted as generated by the assistant; the engine's list does not change.
\<close>

theorem duplicate_is_disabled:
  assumes "service_reachable ex (s, w)" "au_get i (as_store s) = Some a" "a_engine a \<noteq> ''ha''" "au_get new (as_store s) = None"
    and "duplicateAutomation new i name (s, w) = (res, (s', w'))"
  shows "\<exists>b. res = Inr b \<and> au_get new (as_store s') = Some b \<and> w' = w \<and>
     b = a\<lparr>a_id := new, a_name := or_else name (a_name a @ '' (copy)''), a_enabled := False, a_externalRef := None, a_aiGenerated := False\<rparr> \<and>
     en_automations (as_engine s') = en_automations (as_engine s)"
proof -
  let ?b = "a\<lparr>a_id := new, a_name := or_else name (a_name a @ '' (copy)''), a_enabled := False, a_externalRef := None, a_aiGenerated := False\<rparr>"
  have "duplicateAutomation new i name (s, w) = (Inr ?b, (as_reload (s\<lparr>as_store := au_put ?b (as_store s)\<rparr>), w))"
    using assms(2,3) by (cases a; cases name) (simp_all add: duplicateAutomation_def eff_bind_def getAutomation_def createAutomation_def
        assertSupportedEngine_def put_and_reload_def or_else_def)
  moreover have "au_put ?b (as_store s) = as_store s @ [(new, ?b)]"
    using assms(4) by (simp add: au_put_def au_get_def jset_new)
  moreover have "en_automations (as_engine s) = filter runnable (jvalues (as_store s))"
    using reachable_service [OF assms(1)] by (simp add: service_inv_def)
  ultimately show ?thesis
    using assms(4,5) by (auto simp: as_reload_def setAutomations_def au_list_def runnable_def [abs_def] au_get_def map_add_def)
qed

section \<open>A service with one automation\<close>

definition one_automation :: automation_service where
  "one_automation = \<lparr>as_store = [(''a1'', demo_automation)], as_engine = new_engine None, as_loaded = False\<rparr>"

lemma one_automation_reachable: "service_reachable demo_executors (as_start one_automation, 0)"
  unfolding one_automation_def
  by (rule service_reachable.boot) (simp_all add: stored_by_id_def jwf_def demo_automation_def new_engine_def)

theorem engine_runs_stored_automations_witness:
  "en_automations (as_engine (fst (snd (setEnabled ''a1'' False (as_start one_automation, 0 :: nat))))) = []"
proof -
  have r: "service_reachable demo_executors (snd (setEnabled ''a1'' False (as_start one_automation, 0)))"
    by (rule service_reachable.step [OF one_automation_reachable service_step.enable])
  have "au_list (as_store (fst (snd (setEnabled ''a1'' False (as_start one_automation, 0 :: nat))))) = [demo_automation\<lparr>a_enabled := False\<rparr>]"
    by (simp add: setEnabled_def updateAutomation_def no_patch_def getAutomation_def eff_bind_def put_and_reload_def as_start_def
        as_reload_def one_automation_def au_list_def au_put_def au_get_def patch_automation_def or_else_def demo_automation_def)
  with engine_runs_stored_automations [OF r] show ?thesis by simp
qed

theorem only_enabled_automations_fire_witness:
  "list_all (\<lambda>r. r_automationId r = ''a1'') (en_runs (as_engine (fst (snd (as_tick demo_executors demo_date (as_start one_automation, 0))))))"
proof -
  have none: "en_runs (as_engine (fst (as_start one_automation, 0 :: nat))) = []"
    by (simp add: as_start_def as_reload_def setAutomations_def one_automation_def new_engine_def)
  have "r_automationId r = ''a1''"
    if "r \<in> set (en_runs (as_engine (fst (snd (as_tick demo_executors demo_date (as_start one_automation, 0))))))" for r
    using only_enabled_automations_fire [OF one_automation_reachable service_event.tick that] none
    by (auto simp: as_start_def as_reload_def one_automation_def au_get_def split: if_splits)
  then show ?thesis by (simp add: list_all_iff)
qed

theorem duplicate_is_disabled_witness:
  "\<exists>b s' w'. duplicateAutomation ''a2'' ''a1'' None (as_start one_automation, 0 :: nat) = (Inr b, (s', w')) \<and>
     au_get ''a2'' (as_store s') = Some b \<and> \<not> a_enabled b"
proof -
  obtain res s' w' where d: "duplicateAutomation ''a2'' ''a1'' None (as_start one_automation, 0 :: nat) = (res, (s', w'))"
    by (metis prod_cases3)
  have "au_get ''a1'' (as_store (as_start one_automation)) = Some demo_automation" "au_get ''a2'' (as_store (as_start one_automation)) = None"
    by (simp_all add: as_start_def as_reload_def one_automation_def au_get_def)
  moreover have "a_engine demo_automation \<noteq> ''ha''" by (simp add: demo_automation_def)
  ultimately show ?thesis
    using duplicate_is_disabled [OF one_automation_reachable _ _ _ d] d by auto
qed

end
