(* ===== verification/Scene_Service.thy ===== *)
theory Scene_Service
  imports Automation_Engine Home_Model "HOL-Library.Multiset"
begin

text \<open>
  The scene service, \<^verbatim>\<open>services/scenes/src/scene-service.ts\<close> and \<^verbatim>\<open>store.ts\<close>: scenes of the hub and scenes imported from another
  system, activated through the automation engine or, without one, straight through the integration layer.
\<close>

section \<open>Scenes and their store\<close>

datatype scene_scope = ScopeRoom | ScopeHome

datatype sync_status = Synced | Stale | Source_missing

record scene_step =
  sp_deviceId :: device_id
  sp_capability :: capability_kind
  sp_values :: json_bag

record scene =
  sc_id :: scene_id
  sc_homeId :: home_id
  sc_name :: string
  sc_scope :: scene_scope
  sc_roomId :: "room_id option"
  sc_ownerUserId :: "user_id option"
  sc_icon :: "string option"
  sc_aiGenerated :: bool
  sc_steps :: "scene_step list"
  sc_description :: "string option"
  sc_phases :: "nat list list"
  sc_sourceDriverId :: "string option"
  sc_sourceSceneId :: "string option"
  sc_imported :: bool
  sc_syncStatus :: "sync_status option"

type_synonym scene_store = "(scene_id, scene) jsmap"

definition ss_list :: "scene_store \<Rightarrow> scene list" where
  "ss_list st = jvalues st"

definition ss_get :: "scene_id \<Rightarrow> scene_store \<Rightarrow> scene option" where
  "ss_get i st = jget st i"

definition ss_put :: "scene \<Rightarrow> scene_store \<Rightarrow> scene_store" where
  "ss_put s st = jset (sc_id s) s st"

definition ss_remove :: "scene_id \<Rightarrow> scene_store \<Rightarrow> scene_store" where
  "ss_remove i st = jdel i st"

definition from_source :: "string \<Rightarrow> string \<Rightarrow> scene \<Rightarrow> bool" where
  "from_source d x s \<longleftrightarrow> sc_sourceDriverId s = Some d \<and> sc_sourceSceneId s = Some x"

definition findBySource :: "string \<Rightarrow> string \<Rightarrow> scene_store \<Rightarrow> scene option" where
  "findBySource d x st = find (from_source d x) (jvalues st)"

section \<open>The service\<close>

text \<open>
  What is created: \<^const>\<open>Absent\<close> and \<^const>\<open>Null\<close> are told apart where the code tells them apart.
\<close>

record scene_input =
  sn_homeId :: home_id
  sn_name :: string
  sn_scope :: "scene_scope option"
  sn_roomId :: "room_id option"
  sn_icon :: "string option"
  sn_ownerUserId :: "user_id option"
  sn_aiGenerated :: "bool option"
  sn_steps :: "scene_step list"
  sn_description :: "string option"
  sn_phases :: "nat list list option"
  sn_sourceDriverId :: "string option"
  sn_sourceSceneId :: "string option"
  sn_imported :: "bool option"

definition default_to :: "'a \<Rightarrow> 'a option \<Rightarrow> 'a" where
  "default_to d x = (case x of None \<Rightarrow> d | Some a \<Rightarrow> a)"

definition fallback :: "'a option \<Rightarrow> 'a option \<Rightarrow> 'a option" where
  "fallback x y = (case x of None \<Rightarrow> y | Some a \<Rightarrow> Some a)"

text \<open>The service holds the store and, once attached, the automation engine it shares.\<close>

record scene_service =
  sv_store :: scene_store
  sv_engine :: "engine option"

type_synonym ('w, 'a) scene_op = "(scene_service \<times> 'w, 'a) eff"

definition attachEngine :: "engine \<Rightarrow> scene_service \<Rightarrow> scene_service" where
  "attachEngine en sv = sv\<lparr>sv_engine := Some en\<rparr>"

definition put_scene :: "scene \<Rightarrow> scene_service \<Rightarrow> scene_service" where
  "put_scene s sv = sv\<lparr>sv_store := ss_put s (sv_store sv)\<rparr>"

definition scene_get :: "scene_id \<Rightarrow> ('w, scene) scene_op" where
  "scene_get i = (\<lambda>(sv, w). case ss_get i (sv_store sv) of
     None \<Rightarrow> (Inl (SupremeError Not_found ''scene not found''), (sv, w)) | Some s \<Rightarrow> (Inr s, (sv, w)))"

definition new_scene :: "scene_id \<Rightarrow> scene_input \<Rightarrow> scene" where
  "new_scene new inp =
     \<lparr>sc_id = new, sc_homeId = sn_homeId inp, sc_name = sn_name inp, sc_scope = default_to ScopeRoom (sn_scope inp),
      sc_roomId = sn_roomId inp, sc_ownerUserId = sn_ownerUserId inp, sc_icon = sn_icon inp,
      sc_aiGenerated = default_to False (sn_aiGenerated inp), sc_steps = sn_steps inp, sc_description = sn_description inp,
      sc_phases = default_to [] (sn_phases inp), sc_sourceDriverId = sn_sourceDriverId inp, sc_sourceSceneId = sn_sourceSceneId inp,
      sc_imported = default_to False (sn_imported inp),
      sc_syncStatus = (if sn_imported inp = Some True then Some Synced else None)\<rparr>"

definition scene_create :: "scene_id \<Rightarrow> scene_input \<Rightarrow> scene_service \<Rightarrow> scene \<times> scene_service" where
  "scene_create new inp sv = (new_scene new inp, put_scene (new_scene new inp) sv)"

text \<open>The input of an import carries its source; \<^verbatim>\<open>JSON.stringify\<close> tells two lists of steps apart exactly when they differ.\<close>

definition importScene :: "scene_id \<Rightarrow> string \<Rightarrow> string \<Rightarrow> bool \<Rightarrow> scene_input \<Rightarrow> scene_service \<Rightarrow> scene \<times> scene_service" where
  "importScene new d x force inp sv =
     (case findBySource d x (sv_store sv) of
        None \<Rightarrow> scene_create new (inp\<lparr>sn_sourceDriverId := Some d, sn_sourceSceneId := Some x, sn_imported := Some True\<rparr>) sv
      | Some ex \<Rightarrow>
          if \<not> force \<and> (sc_name ex \<noteq> sn_name inp \<or> sc_steps ex \<noteq> sn_steps inp) then
            (let stale = ex\<lparr>sc_syncStatus := Some Stale\<rparr> in (stale, put_scene stale sv))
          else
            (let nxt = ex\<lparr>sc_name := sn_name inp, sc_roomId := fallback (sn_roomId inp) (sc_roomId ex),
                          sc_icon := fallback (sn_icon inp) (sc_icon ex), sc_steps := sn_steps inp, sc_syncStatus := Some Synced\<rparr>
             in (nxt, put_scene nxt sv)))"

definition markSourceMissing :: "string \<Rightarrow> string \<Rightarrow> scene_service \<Rightarrow> scene_service" where
  "markSourceMissing d x sv =
     (case findBySource d x (sv_store sv) of None \<Rightarrow> sv | Some ex \<Rightarrow> put_scene (ex\<lparr>sc_syncStatus := Some Source_missing\<rparr>) sv)"

record scene_patch =
  pc_name :: "string option"
  pc_scope :: "scene_scope option"
  pc_roomId :: "room_id option"
  pc_icon :: "string option"
  pc_steps :: "scene_step list option"
  pc_description :: "string opt_null"
  pc_phases :: "nat list list option"

definition patch_scene :: "scene_patch \<Rightarrow> scene \<Rightarrow> scene" where
  "patch_scene p s = s\<lparr>sc_name := default_to (sc_name s) (pc_name p), sc_scope := default_to (sc_scope s) (pc_scope p),
     sc_roomId := fallback (pc_roomId p) (sc_roomId s), sc_icon := fallback (pc_icon p) (sc_icon s),
     sc_steps := default_to (sc_steps s) (pc_steps p),
     sc_description := (case pc_description p of Absent \<Rightarrow> sc_description s | Null \<Rightarrow> None | Val v \<Rightarrow> Some v),
     sc_phases := default_to (sc_phases s) (pc_phases p)\<rparr>"

definition scene_update :: "scene_id \<Rightarrow> scene_patch \<Rightarrow> ('w, scene) scene_op" where
  "scene_update i p = eff_bind (scene_get i) (\<lambda>s (sv, w). (Inr (patch_scene p s), (put_scene (patch_scene p s) sv, w)))"

definition scene_remove :: "scene_id \<Rightarrow> ('w, unit) scene_op" where
  "scene_remove i = eff_bind (scene_get i) (\<lambda>_ (sv, w). (Inr (), (sv\<lparr>sv_store := ss_remove i (sv_store sv)\<rparr>, w)))"

section \<open>Activation\<close>

text \<open>
  The properties of a step's values are spread over its capability and parsed against the command schema; the schema library is the
  argument \<open>parse\<close>. \<open>sched\<close> is the order in which the dispatched commands take effect, as for the engine's concurrent runs.
\<close>

type_synonym command_parser = "json_bag \<Rightarrow> capability_command option"

definition parse_step :: "command_parser \<Rightarrow> scene_step \<Rightarrow> capability_command option" where
  "parse_step parse st = parse (merge_bag [(''capability'', JsString (kind_name (sp_capability st)))] (sp_values st))"

definition dispatch_step :: "command_parser \<Rightarrow> (device_id \<Rightarrow> capability_command \<Rightarrow> ('w, unit) eff) \<Rightarrow> scene_step \<Rightarrow> 'w \<Rightarrow> nat \<times> 'w" where
  "dispatch_step parse cmd st w =
     (case parse_step parse st of
        None \<Rightarrow> (0, w)
      | Some c \<Rightarrow> (case cmd (sp_deviceId st) c w of (Inl _, w') \<Rightarrow> (0, w') | (Inr _, w') \<Rightarrow> (1, w')))"

fun dispatch_steps ::
  "command_parser \<Rightarrow> (device_id \<Rightarrow> capability_command \<Rightarrow> ('w, unit) eff) \<Rightarrow> scene_step list \<Rightarrow> nat list \<Rightarrow> 'w \<Rightarrow> nat \<times> 'w" where
  "dispatch_steps parse cmd steps [] w = (0, w)"
| "dispatch_steps parse cmd steps (i # is) w =
     (let (n, w1) = dispatch_step parse cmd (steps ! i) w; (m, w2) = dispatch_steps parse cmd steps is w1 in (n + m, w2))"

definition runtimeAutomationId :: "scene_id \<Rightarrow> automation_id" where
  "runtimeAutomationId i = ''scene:'' @ i"

definition step_action :: "command_parser \<Rightarrow> scene_step \<Rightarrow> automation_action option" where
  "step_action parse st = map_option (AcDevice_command (sp_deviceId st)) (parse_step parse st)"

definition scene_automation :: "command_parser \<Rightarrow> scene \<Rightarrow> automation" where
  "scene_automation parse s =
     \<lparr>a_id = runtimeAutomationId (sc_id s), a_homeId = sc_homeId s, a_name = sc_name s, a_enabled = True, a_triggers = [],
      a_conditions = [], a_actions = List.map_filter (step_action parse) (sc_steps s), a_engine = ''supreme'', a_externalRef = None,
      a_aiGenerated = sc_aiGenerated s, a_tags = []\<rparr>"

definition activateViaEngine :: "'w executors \<Rightarrow> command_parser \<Rightarrow> scene \<Rightarrow> nat list \<Rightarrow> engine \<times> 'w \<Rightarrow> nat \<times> (engine \<times> 'w)" where
  "activateViaEngine ex parse s sched st =
     (let (r, st') = runConcurrent ex (scene_automation parse s) ''manual'' sched st in (length (filter ra_ok (r_actions r)), st'))"

definition scene_activate ::
  "'w executors \<Rightarrow> command_parser \<Rightarrow> (device_id \<Rightarrow> capability_command \<Rightarrow> ('w, unit) eff) \<Rightarrow> nat list \<Rightarrow> scene_id \<Rightarrow> ('w, nat) scene_op" where
  "scene_activate ex parse cmd sched i = eff_bind (scene_get i) (\<lambda>s (sv, w).
     case sv_engine sv of
       Some en \<Rightarrow> (case activateViaEngine ex parse s sched (en, w) of (n, (en', w')) \<Rightarrow> (Inr n, (sv\<lparr>sv_engine := Some en'\<rparr>, w')))
     | None \<Rightarrow> (case dispatch_steps parse cmd (sc_steps s) sched w of (n, w') \<Rightarrow> (Inr n, (sv, w'))))"

definition scene_recentRuns :: "scene_id \<Rightarrow> nat \<Rightarrow> scene_service \<Rightarrow> automation_run list" where
  "scene_recentRuns i limit sv = (case sv_engine sv of None \<Rightarrow> [] | Some en \<Rightarrow> recentRuns (Some (runtimeAutomationId i)) limit en)"

text \<open>\<^verbatim>\<open>health\<close> is asked for a value that only has an id and is enabled; its engine, read as a missing property, is not \<^verbatim>\<open>ha\<close>.\<close>

definition scene_health :: "scene_id \<Rightarrow> ('w, (health_status \<times> string) option) scene_op" where
  "scene_health i = (\<lambda>(sv, w). case sv_engine sv of
     None \<Rightarrow> (Inr None, (sv, w))
   | Some en \<Rightarrow> eff_bind (scene_get i) (\<lambda>s (sv, w). (Inr (Some (health
       \<lparr>a_id = runtimeAutomationId (sc_id s), a_homeId = '''', a_name = '''', a_enabled = True, a_triggers = [], a_conditions = [],
        a_actions = [], a_engine = '''', a_externalRef = None, a_aiGenerated = False, a_tags = []\<rparr> en)), (sv, w))) (sv, w))"

section \<open>Both activations agree\<close>

text \<open>The executors the gateway gives the engine command through the same layer, and reading a clock changes nothing.\<close>

definition same_layer :: "'w executors \<Rightarrow> (device_id \<Rightarrow> capability_command \<Rightarrow> ('w, unit) eff) \<Rightarrow> bool" where
  "same_layer ex cmd \<longleftrightarrow> ex_command ex = cmd \<and> (\<forall>w. snd (ex_now ex w) = w \<and> snd (ex_date ex w) = w)"

text \<open>What the run hook adds to the world when a scene's run has been recorded; the gateway's hook writes an audit entry.\<close>

definition after_run_hook :: "'w executors \<Rightarrow> scene_id \<Rightarrow> bool \<Rightarrow> 'w \<Rightarrow> 'w" where
  "after_run_hook ex i ok w = (case ex_onRun ex of None \<Rightarrow> w | Some f \<Rightarrow> f (runtimeAutomationId i) ok w)"

text \<open>The place of a step's action among the actions: how many valid steps come before it.\<close>

definition valid_step :: "command_parser \<Rightarrow> scene_step list \<Rightarrow> nat \<Rightarrow> bool" where
  "valid_step parse steps i \<longleftrightarrow> parse_step parse (steps ! i) \<noteq> None"

definition rank :: "command_parser \<Rightarrow> scene_step list \<Rightarrow> nat \<Rightarrow> nat" where
  "rank parse steps i = length (filter (\<lambda>st. parse_step parse st \<noteq> None) (take i steps))"

definition engine_schedule :: "command_parser \<Rightarrow> scene_step list \<Rightarrow> nat list \<Rightarrow> nat list" where
  "engine_schedule parse steps sched = map (rank parse steps) (filter (valid_step parse steps) sched)"

lemma actions_length: "length (List.map_filter (step_action parse) steps) = length (filter (\<lambda>st. parse_step parse st \<noteq> None) steps)"
  by (induction steps) (auto simp: List.map_filter_simps step_action_def split: option.split)

lemma rank_Suc:
  "i < length steps \<Longrightarrow> rank parse steps (Suc i) = rank parse steps i + (if valid_step parse steps i then 1 else 0)"
  by (simp add: rank_def take_Suc_conv_app_nth valid_step_def)

lemma rank_mono: "i \<le> j \<Longrightarrow> rank parse steps i \<le> rank parse steps j"
proof -
  assume "i \<le> j"
  then have "take j steps = take i steps @ take (j - i) (drop i steps)" by (metis le_add_diff_inverse take_add)
  then show ?thesis by (simp add: rank_def)
qed

lemma rank_less:
  "i < j \<Longrightarrow> j \<le> length steps \<Longrightarrow> valid_step parse steps i \<Longrightarrow> rank parse steps i < rank parse steps j"
  using rank_Suc [of i steps parse] rank_mono [of "Suc i" j parse steps] by simp

lemma rank_all: "rank parse steps (length steps) = length (List.map_filter (step_action parse) steps)"
  by (simp add: rank_def actions_length)

lemma rank_action:
  "i < length steps \<Longrightarrow> valid_step parse steps i \<Longrightarrow>
     List.map_filter (step_action parse) steps ! rank parse steps i = the (step_action parse (steps ! i))"
proof -
  assume i: "i < length steps" and v: "valid_step parse steps i"
  have "steps = take i steps @ (steps ! i) # drop (Suc i) steps" using i by (rule id_take_nth_drop)
  moreover have "List.map_filter f (xs @ y # ys) = List.map_filter f xs @ (case f y of None \<Rightarrow> [] | Some z \<Rightarrow> [z]) @ List.map_filter f ys"
    for f :: "scene_step \<Rightarrow> automation_action option" and xs y ys
    by (simp add: List.map_filter_def split: option.split)
  ultimately have "List.map_filter (step_action parse) steps = List.map_filter (step_action parse) (take i steps) @
      (case step_action parse (steps ! i) of None \<Rightarrow> [] | Some z \<Rightarrow> [z]) @ List.map_filter (step_action parse) (drop (Suc i) steps)"
    by metis
  then show ?thesis using v actions_length [of parse "take i steps"]
    by (auto simp: rank_def valid_step_def step_action_def nth_append split: option.splits)
qed

lemma rank_inj: "inj_on (rank parse steps) {i. i < length steps \<and> valid_step parse steps i}"
  by (rule inj_onI) (metis (mono_tags, lifting) linorder_neqE_nat mem_Collect_eq order_less_imp_le order_less_irrefl rank_less)

lemma rank_bound: "i < length steps \<Longrightarrow> valid_step parse steps i \<Longrightarrow> rank parse steps i < length (List.map_filter (step_action parse) steps)"
  using rank_less [of i "length steps" steps parse] by (simp add: rank_all)

lemma engine_schedule_ok:
  assumes "schedule_ok steps sched"
  shows "schedule_ok (List.map_filter (step_action parse) steps) (engine_schedule parse steps sched)"
proof -
  let ?V = "{i. i < length steps \<and> valid_step parse steps i}"
  have s: "distinct sched" "set sched = {..<length steps}" using assms by (simp_all add: schedule_ok_def)
  then have V: "set (filter (valid_step parse steps) sched) = ?V" by auto
  have "distinct (engine_schedule parse steps sched)"
    using s(1) rank_inj [of parse steps] by (simp add: engine_schedule_def distinct_map V [symmetric])
  moreover have "set (engine_schedule parse steps sched) = {..<length (List.map_filter (step_action parse) steps)}"
  proof (rule card_subset_eq)
    show "set (engine_schedule parse steps sched) \<subseteq> {..<length (List.map_filter (step_action parse) steps)}"
      using rank_bound s(2) by (auto simp: engine_schedule_def)
    have "card (set (engine_schedule parse steps sched)) = card ?V"
      using card_image [OF rank_inj [of parse steps]] by (simp add: engine_schedule_def V [symmetric])
    also have "\<dots> = length (filter (\<lambda>st. parse_step parse st \<noteq> None) steps)"
      by (simp add: length_filter_conv_card valid_step_def)
    finally show "card (set (engine_schedule parse steps sched)) = card {..<length (List.map_filter (step_action parse) steps)}"
      by (simp add: actions_length)
  qed simp
  ultimately show ?thesis by (simp add: schedule_ok_def)
qed

lemma traced_command:
  assumes "same_layer ex cmd" "parse_step parse st = Some c" "dispatch_step parse cmd st w = (n, w')"
  shows "\<exists>r. traced_action ex (AcDevice_command (sp_deviceId st) c) w = (r, w') \<and> n = (if ra_ok r then 1 else 0)"
proof -
  have clock: "ex_now ex v = (t, v') \<Longrightarrow> v' = v" for v t v' using assms(1) unfolding same_layer_def by (metis snd_conv)
  obtain a0 where a0: "ex_now ex w = (a0, w)" using clock by (metis prod.exhaust)
  obtain res v where c: "ex_command ex (sp_deviceId st) c w = (res, v)" by fastforce
  have "ex_command ex = cmd" using assms(1) by (simp add: same_layer_def)
  with assms(2,3) c have v: "v = w'" and n: "n = (case res of Inl _ \<Rightarrow> 0 | Inr _ \<Rightarrow> 1)"
    by (auto simp: dispatch_step_def split: sum.splits)
  obtain a1 where a1: "ex_now ex w' = (a1, w')" using clock by (metis prod.exhaust)
  show ?thesis unfolding v n by (cases res) (simp_all add: traced_action_def a0 c v a1)
qed

lemma scheduled_dispatch:
  assumes "same_layer ex cmd"
  shows "distinct sched \<Longrightarrow> set sched \<subseteq> {..<length steps} \<Longrightarrow>
    \<exists>res' w'. run_scheduled ex (List.map_filter (step_action parse) steps) (engine_schedule parse steps sched) res w = (res', w') \<and>
      dispatch_steps parse cmd steps sched w = (length (filter (\<lambda>j. ra_ok (the (res' j))) (engine_schedule parse steps sched)), w') \<and>
      (\<forall>j. j \<notin> set (engine_schedule parse steps sched) \<longrightarrow> res' j = res j)"
proof (induction sched arbitrary: res w)
  case (Cons i sched)
  let ?acts = "List.map_filter (step_action parse) steps"
  obtain n w1 where d: "dispatch_step parse cmd (steps ! i) w = (n, w1)" by fastforce
  have prems: "distinct sched" "set sched \<subseteq> {..<length steps}" using Cons.prems by auto
  show ?case
  proof (cases "valid_step parse steps i")
    case False
    with d have "n = 0" "w1 = w" by (auto simp: dispatch_step_def valid_step_def)
    moreover have "engine_schedule parse steps (i # sched) = engine_schedule parse steps sched"
      using False by (simp add: engine_schedule_def)
    moreover obtain res' w' where "run_scheduled ex ?acts (engine_schedule parse steps sched) res w = (res', w')"
      "dispatch_steps parse cmd steps sched w = (length (filter (\<lambda>j. ra_ok (the (res' j))) (engine_schedule parse steps sched)), w')"
      "\<forall>j. j \<notin> set (engine_schedule parse steps sched) \<longrightarrow> res' j = res j"
      using Cons.IH [of res w] Cons.prems by auto
    ultimately show ?thesis using d by (intro exI [of _ res'] exI [of _ w']) simp
  next
    case True
    let ?j = "rank parse steps i"
    obtain c where c: "parse_step parse (steps ! i) = Some c" using True by (auto simp: valid_step_def)
    have act: "?acts ! ?j = AcDevice_command (sp_deviceId (steps ! i)) c"
      using rank_action [of i steps parse] True Cons.prems(2) c by (simp add: step_action_def)
    obtain r where r: "traced_action ex (AcDevice_command (sp_deviceId (steps ! i)) c) w = (r, w1)" "n = (if ra_ok r then 1 else 0)"
      using traced_command [OF assms c d] by blast
    obtain res' w' where ih: "run_scheduled ex ?acts (engine_schedule parse steps sched) (res(?j \<mapsto> r)) w1 = (res', w')"
      "dispatch_steps parse cmd steps sched w1 = (length (filter (\<lambda>j. ra_ok (the (res' j))) (engine_schedule parse steps sched)), w')"
      "\<forall>j. j \<notin> set (engine_schedule parse steps sched) \<longrightarrow> res' j = (res(?j \<mapsto> r)) j"
      using Cons.IH [of "res(?j \<mapsto> r)" w1] prems by blast
    have sch: "engine_schedule parse steps (i # sched) = ?j # engine_schedule parse steps sched"
      using True by (simp add: engine_schedule_def)
    have "?j \<notin> set (engine_schedule parse steps sched)"
    proof
      assume "?j \<in> set (engine_schedule parse steps sched)"
      then obtain k where "k \<in> set sched" "valid_step parse steps k" "rank parse steps k = ?j" by (auto simp: engine_schedule_def)
      with rank_inj [of parse steps] True Cons.prems show False by (auto simp: inj_on_def)
    qed
    with ih(3) have "res' ?j = Some r" by simp
    with ih r d act sch show ?thesis by (intro exI [of _ res'] exI [of _ w']) simp
  qed
qed (simp add: engine_schedule_def)

lemma filter_schedule_length:
  assumes "schedule_ok acts sched"
  shows "length (filter P (map f [0..<length acts])) = length (filter (P \<circ> f) sched)"
proof -
  have "mset sched = mset [0..<length acts]"
    using assms by (metis schedule_ok_def atLeast_upt distinct_upt set_eq_iff_mset_eq_distinct)
  then have "mset (filter (P \<circ> f) sched) = mset (filter (P \<circ> f) [0..<length acts])" by simp
  then have "length (filter (P \<circ> f) sched) = length (filter (P \<circ> f) [0..<length acts])" by (rule mset_eq_length)
  then show ?thesis by (simp only: filter_map length_map)
qed

lemma filter_all_length: "length (filter P xs) = length xs \<longleftrightarrow> list_all P xs"
  by (induction xs) (auto simp: le_imp_less_Suc less_imp_neq)

text \<open>
  C8: A scene does the same with and without the engine: for every order in which a scene's steps may take effect there is an order of
  the engine's run with the same commands, which counts as many dispatched steps, the invalid steps left out and the failing ones
  skipped, and leaves the hub in the same state but for what a recorded run adds: the trace in the engine's history, and what the run
  hook (in the gateway an audit entry) does after the last command, told whether every valid step succeeded. The engine's executors are
  taken to command through the layer the scenes command directly, as the gateway wires them, and reading a clock to change nothing.
\<close>

theorem scene_activations_agree:
  assumes "same_layer ex cmd" "ss_get i (sv_store sv) = Some s" "sv_engine sv = Some en" "schedule_ok (sc_steps s) sched"
    and "scene_activate ex parse cmd sched i (sv\<lparr>sv_engine := None\<rparr>, w) = (res, (sv0, w'))"
  shows "\<exists>sched' en'. schedule_ok (a_actions (scene_automation parse s)) sched' \<and>
     sv0 = sv\<lparr>sv_engine := None\<rparr> \<and>
     scene_activate ex parse cmd sched' i (sv, w) = (res, (sv\<lparr>sv_engine := Some en'\<rparr>,
       after_run_hook ex (sc_id s) (res = Inr (length (a_actions (scene_automation parse s)))) w')) \<and>
     (\<exists>r. en' = push_run r (en\<lparr>en_runSeq := Suc (en_runSeq en)\<rparr>) \<and> r_automationId r = runtimeAutomationId (sc_id s))"
proof -
  let ?acts = "List.map_filter (step_action parse) (sc_steps s)" and ?sched = "engine_schedule parse (sc_steps s) sched"
  have acts: "a_actions (scene_automation parse s) = ?acts" by (simp add: scene_automation_def)
  have ok: "schedule_ok ?acts ?sched" by (rule engine_schedule_ok [OF assms(4)])
  have clock: "ex_now ex v = (t, v') \<Longrightarrow> v' = v" "ex_date ex v = (dt, v') \<Longrightarrow> v' = v" for v t dt v'
    using assms(1) unfolding same_layer_def by (metis snd_conv)+
  obtain started where dt: "ex_date ex w = (started, w)" using clock(2) by (metis prod.exhaust)
  obtain t0 where t0: "ex_now ex w = (t0, w)" using clock(1) by (metis prod.exhaust)
  obtain rs w1 where rs: "run_scheduled ex ?acts ?sched Map.empty w = (rs, w1)"
    "dispatch_steps parse cmd (sc_steps s) sched w = (length (filter (\<lambda>j. ra_ok (the (rs j))) ?sched), w1)"
    using scheduled_dispatch [OF assms(1), of sched "sc_steps s" parse Map.empty w] assms(4) by (auto simp: schedule_ok_def)
  obtain t1 where t1: "ex_now ex w1 = (t1, w1)" using clock(1) by (metis prod.exhaust)
  have res: "res = Inr (length (filter (\<lambda>j. ra_ok (the (rs j))) ?sched))" "sv0 = sv\<lparr>sv_engine := None\<rparr>" "w' = w1"
    using assms(2,5) rs(2) by (simp_all add: scene_activate_def eff_bind_def scene_get_def)
  obtain r en' w2 where run: "runConcurrent ex (scene_automation parse s) ''manual'' ?sched (en, w) = (r, (en', w2))"
    by (metis prod_cases3)
  then have r: "r_actions r = map (\<lambda>j. the (rs j)) [0..<length ?acts]" "r_automationId r = runtimeAutomationId (sc_id s)"
      "w2 = after_run_hook ex (sc_id s) (list_all ra_ok (r_actions r)) w1"
      "en' = push_run r (en\<lparr>en_runSeq := Suc (en_runSeq en)\<rparr>)"
    by (auto simp: runConcurrent_def Let_def dt t0 t1 rs(1) acts record_run_def after_run_hook_def scene_automation_def
        split: option.splits)
  have count: "length (filter ra_ok (r_actions r)) = length (filter (\<lambda>j. ra_ok (the (rs j))) ?sched)"
    unfolding r(1) using filter_schedule_length [OF ok, of ra_ok "\<lambda>j. the (rs j)"] by (simp add: comp_def)
  have "length (filter ra_ok (r_actions r)) = length (r_actions r) \<longleftrightarrow> list_all ra_ok (r_actions r)"
    by (rule filter_all_length)
  then have hook: "res = Inr (length ?acts) \<longleftrightarrow> list_all ra_ok (r_actions r)" by (simp add: res(1) count [symmetric] r(1))
  have "scene_activate ex parse cmd ?sched i (sv, w) = (res, (sv\<lparr>sv_engine := Some en'\<rparr>,
      after_run_hook ex (sc_id s) (res = Inr (length ?acts)) w'))"
    unfolding hook using count assms(2,3) run res r(3) by (simp add: scene_activate_def eff_bind_def scene_get_def activateViaEngine_def)
  with ok acts res(2) r(2,4) show ?thesis by (intro exI [of _ ?sched] exI [of _ en']) auto
qed

section \<open>Imports\<close>

text \<open>
  The operations on scenes. What the hub creates names no source, and ids are fresh.
\<close>

inductive scene_change :: "scene_store \<Rightarrow> scene_store \<Rightarrow> bool" where
  create: "ss_get new (sv_store sv) = None \<Longrightarrow> sn_sourceDriverId inp = None \<Longrightarrow> scene_change (sv_store sv) (sv_store (snd (scene_create new inp sv)))"
| importing: "ss_get new (sv_store sv) = None \<Longrightarrow> scene_change (sv_store sv) (sv_store (snd (importScene new d x force inp sv)))"
| missing: "scene_change (sv_store sv) (sv_store (markSourceMissing d x sv))"
| update: "scene_change (sv_store sv) (sv_store (fst (snd (scene_update i p (sv, ())))))"
| remove: "scene_change (sv_store sv) (sv_store (fst (snd (scene_remove i (sv, ())))))"

definition one_per_source :: "scene_store \<Rightarrow> bool" where
  "one_per_source st \<longleftrightarrow> jwf st \<and> (\<forall>i s. ss_get i st = Some s \<longrightarrow> sc_id s = i) \<and>
     (\<forall>i j s t d x. ss_get i st = Some s \<longrightarrow> ss_get j st = Some t \<longrightarrow> from_source d x s \<longrightarrow> from_source d x t \<longrightarrow> i = j)"

lemma findBySource_Some:
  "jwf st \<Longrightarrow> findBySource d x st = Some s \<Longrightarrow> \<exists>i. ss_get i st = Some s \<and> from_source d x s"
  by (force simp: findBySource_def ss_get_def find_Some_iff jvalues_iff [symmetric] set_conv_nth)

lemma findBySource_None: "jwf st \<Longrightarrow> findBySource d x st = None \<Longrightarrow> ss_get i st = Some s \<Longrightarrow> \<not> from_source d x s"
  using jvalues_iff [of st s] by (auto simp: findBySource_def ss_get_def find_None_iff)

lemma put_same_source:
  assumes "one_per_source st" "ss_get i st = Some s" "sc_id s' = sc_id s" "sc_sourceDriverId s' = sc_sourceDriverId s"
    "sc_sourceSceneId s' = sc_sourceSceneId s"
  shows "one_per_source (ss_put s' st)"
proof -
  have i: "sc_id s = i" using assms(1,2) by (simp add: one_per_source_def)
  have "from_source d x s' = from_source d x s" for d x using assms(4,5) by (simp add: from_source_def)
  with assms i show ?thesis
    unfolding one_per_source_def ss_put_def ss_get_def by (simp add: jwf_jset) (metis option.inject)
qed

lemma put_new_source:
  assumes "one_per_source st" "ss_get (sc_id s) st = None" "\<And>d x i t. from_source d x s \<Longrightarrow> ss_get i st = Some t \<Longrightarrow> \<not> from_source d x t"
  shows "one_per_source (ss_put s st)"
  using assms unfolding one_per_source_def ss_put_def ss_get_def by (simp add: jwf_jset) metis

lemma scene_change_one:
  assumes "scene_change st st'" "one_per_source st"
  shows "one_per_source st'"
  using assms(1)
proof cases
  case (create new sv inp)
  with assms(2) show ?thesis
    by (auto simp: scene_create_def put_scene_def new_scene_def from_source_def intro!: put_new_source)
next
  case (importing new sv d x force inp)
  have wf: "jwf st" using assms(2) by (simp add: one_per_source_def)
  show ?thesis
  proof (cases "findBySource d x st")
    case None
    have "one_per_source (ss_put (new_scene new (inp\<lparr>sn_sourceDriverId := Some d, sn_sourceSceneId := Some x, sn_imported := Some True\<rparr>)) st)"
      using assms(2) importing(1,3) findBySource_None [OF wf None]
      by (intro put_new_source) (auto simp: new_scene_def from_source_def)
    with importing None show ?thesis by (simp add: importScene_def scene_create_def put_scene_def)
  next
    case (Some ex)
    from findBySource_Some [OF wf Some] obtain i where i: "ss_get i st = Some ex" by blast
    from importing Some show ?thesis
      using put_same_source [OF assms(2) i] by (simp add: importScene_def Let_def put_scene_def)
  qed
next
  case (missing sv d x)
  have wf: "jwf st" using assms(2) by (simp add: one_per_source_def)
  show ?thesis
  proof (cases "findBySource d x st")
    case (Some ex)
    from findBySource_Some [OF wf Some] obtain i where i: "ss_get i st = Some ex" by blast
    from missing Some show ?thesis
      using put_same_source [OF assms(2) i] by (simp add: markSourceMissing_def put_scene_def)
  qed (use missing assms(2) in \<open>simp add: markSourceMissing_def\<close>)
next
  case (update sv i p)
  with assms(2) put_same_source [OF assms(2), of i] show ?thesis
    by (cases "ss_get i st") (simp_all add: scene_update_def eff_bind_def scene_get_def put_scene_def patch_scene_def)
next
  case (remove sv i)
  with assms(2) show ?thesis
    by (cases "ss_get i st") (auto simp: scene_remove_def eff_bind_def scene_get_def ss_remove_def one_per_source_def ss_get_def)
qed

text \<open>
  C9: Importing never duplicates: starting from no scene, after any sequence of creations of the hub's own scenes (which name no source:
  CreateSceneRequest has no such field), imports, re-imports, missing-source marks, edits and removals, with a fresh id for each new
  scene, every scene is stored under its own id and no two scenes come from the same scene of the same driver.
\<close>

theorem imports_never_duplicate:
  assumes "scene_change\<^sup>*\<^sup>* [] st" "ss_get i st = Some s" "ss_get j st = Some t" "from_source d x s" "from_source d x t"
  shows "i = j \<and> sc_id s = i"
proof -
  have "one_per_source st"
    using assms(1)
  proof (induction rule: rtranclp_induct)
    case base
    show ?case by (simp add: one_per_source_def ss_get_def)
  qed (blast intro: scene_change_one)
  with assms(2-5) show ?thesis by (auto simp: one_per_source_def)
qed

text \<open>
  An import respects an installer's edits only in part: re-importing a scene whose name or steps were edited, without force, leaves
  everything but its status alone; but when only its room or icon was edited, the import puts back the source's room and icon, although
  the comment says that local edits are never silently overwritten.
\<close>

theorem reimport_and_local_edits:
  assumes "findBySource d x (sv_store sv) = Some ex"
  shows "(sc_name ex \<noteq> sn_name inp \<or> sc_steps ex \<noteq> sn_steps inp \<longrightarrow>
       fst (importScene new d x False inp sv) = ex\<lparr>sc_syncStatus := Some Stale\<rparr>) \<and>
     (sc_name ex = sn_name inp \<and> sc_steps ex = sn_steps inp \<and> sn_roomId inp = Some r \<and> sn_icon inp = Some ic \<longrightarrow>
       fst (importScene new d x False inp sv) = ex\<lparr>sc_roomId := Some r, sc_icon := Some ic, sc_syncStatus := Some Synced\<rparr>)"
  using assms by (cases ex) (simp add: importScene_def Let_def fallback_def)

section \<open>An imported scene\<close>

definition evening_input :: scene_input where
  "evening_input = \<lparr>sn_homeId = ''h'', sn_name = ''Evening'', sn_scope = None, sn_roomId = Some ''hall'', sn_icon = Some ''moon'',
     sn_ownerUserId = None, sn_aiGenerated = None,
     sn_steps = [\<lparr>sp_deviceId = ''lamp'', sp_capability = CkOnoff, sp_values = [(''action'', JsString ''on'')]\<rparr>,
       \<lparr>sp_deviceId = ''gone'', sp_capability = CkOnoff, sp_values = []\<rparr>],
     sn_description = None, sn_phases = None, sn_sourceDriverId = None, sn_sourceSceneId = None, sn_imported = None\<rparr>"

definition evening_service :: scene_service where
  "evening_service = snd (importScene ''s1'' ''knx'' ''3'' False evening_input \<lparr>sv_store = [], sv_engine = Some (new_engine None)\<rparr>)"

definition evening :: scene where
  "evening = new_scene ''s1'' (evening_input\<lparr>sn_sourceDriverId := Some ''knx'', sn_sourceSceneId := Some ''3'', sn_imported := Some True\<rparr>)"

lemma evening_store: "sv_store evening_service = [(''s1'', evening)]" "sv_engine evening_service = Some (new_engine None)"
  by (simp_all add: evening_service_def importScene_def findBySource_def scene_create_def put_scene_def ss_put_def evening_def new_scene_def)

lemma evening_reachable: "scene_change\<^sup>*\<^sup>* [] (sv_store evening_service)"
proof -
  have "scene_change (sv_store \<lparr>sv_store = [], sv_engine = Some (new_engine None)\<rparr>) (sv_store evening_service)"
    unfolding evening_service_def by (rule scene_change.importing) (simp add: ss_get_def)
  then show ?thesis by (simp add: r_into_rtranclp)
qed

lemma evening_source: "from_source ''knx'' ''3'' evening"
  by (simp add: from_source_def evening_def new_scene_def)

theorem imports_never_duplicate_witness: "sc_id evening = ''s1''"
  using imports_never_duplicate [OF evening_reachable _ _ evening_source evening_source, of "''s1''" "''s1''"]
  by (simp add: evening_store ss_get_def)

theorem reimport_and_local_edits_witness:
  "sc_syncStatus (fst (importScene ''s2'' ''knx'' ''3'' False (evening_input\<lparr>sn_name := ''Night''\<rparr>) evening_service)) = Some Stale \<and>
     sc_name (fst (importScene ''s2'' ''knx'' ''3'' False (evening_input\<lparr>sn_name := ''Night''\<rparr>) evening_service)) = ''Evening''"
proof -
  have "findBySource ''knx'' ''3'' (sv_store evening_service) = Some evening"
    using evening_source by (simp add: findBySource_def evening_store)
  from reimport_and_local_edits [OF this, of "evening_input\<lparr>sn_name := ''Night''\<rparr>" "''s2''"]
  show ?thesis by (simp add: evening_def new_scene_def evening_input_def)
qed

definition parse_onoff :: command_parser where
  "parse_onoff b = (if jget b ''action'' = Some (JsString ''on'') then Some (CmdOnoff OoOn) else None)"

definition quiet_executors :: "nat executors" where
  "quiet_executors = demo_executors\<lparr>ex_now := (\<lambda>w. (0, w)), ex_date := (\<lambda>w. (demo_date, w)), 
     ex_onRun := Some (\<lambda>i ok w. if ok then w + 100 else w)\<rparr>"

theorem scene_activations_agree_witness:
  "\<exists>sched. map_prod id snd (scene_activate quiet_executors parse_onoff (ex_command quiet_executors) sched ''s1'' (evening_service, 0)) =
     (Inr 1, 101)"
proof -
  have layer: "same_layer quiet_executors (ex_command quiet_executors)" by (simp add: same_layer_def quiet_executors_def)
  have get: "ss_get ''s1'' (sv_store evening_service) = Some evening" by (simp add: evening_store ss_get_def)
  have sched: "schedule_ok (sc_steps evening) [1, 0]"
    by (auto simp: schedule_ok_def evening_def new_scene_def evening_input_def numeral_2_eq_2 lessThan_Suc)
  have direct: "scene_activate quiet_executors parse_onoff (ex_command quiet_executors) [1, 0] ''s1'' (evening_service\<lparr>sv_engine := None\<rparr>, 0) =
      (Inr 1, (evening_service\<lparr>sv_engine := None\<rparr>, 1))"
    by (simp add: scene_activate_def eff_bind_def scene_get_def get dispatch_step_def parse_step_def parse_onoff_def merge_bag_def
        evening_def new_scene_def evening_input_def quiet_executors_def demo_executors_def)
  have acts: "length (a_actions (scene_automation parse_onoff evening)) = 1"
    by (simp add: scene_automation_def evening_def new_scene_def evening_input_def List.map_filter_simps step_action_def parse_step_def
        parse_onoff_def merge_bag_def)
  from scene_activations_agree [OF layer get evening_store(2) sched direct] obtain sched' en' where
    "scene_activate quiet_executors parse_onoff (ex_command quiet_executors) sched' ''s1'' (evening_service, 0) =
       (Inr 1, (evening_service\<lparr>sv_engine := Some en'\<rparr>, after_run_hook quiet_executors (sc_id evening) True 1))"
    unfolding acts by auto
  then show ?thesis by (intro exI [of _ sched']) (simp add: after_run_hook_def quiet_executors_def)
qed

end
