(* ===== verification/Scene_Schedule.thy ===== *)
theory Scene_Schedule
  imports Domain_Model
begin

text \<open>
  Scheduled scenes, \<^verbatim>\<open>services/scenes/src/schedule.ts\<close>: when a schedule is due, and what a schedule must look like to be stored.
\<close>

section \<open>Schedules\<close>

datatype solar_event = Sunrise | Sunset

datatype schedule_trigger = AtTime rat | AtSun solar_event "rat option"

record scene_schedule =
  sh_id :: string
  sh_sceneId :: scene_id
  sh_trigger :: schedule_trigger
  sh_enabled :: "bool option"
  sh_days :: "rat list option"

record schedule_context =
  sx_nowMinute :: nat
  sx_dayOfWeek :: nat
  sx_sunriseMinute :: rat
  sx_sunsetMinute :: rat

fun triggerMinute :: "schedule_trigger \<Rightarrow> rat \<Rightarrow> rat \<Rightarrow> rat" where
  "triggerMinute (AtTime m) dawn dusk = m"
| "triggerMinute (AtSun ev off) dawn dusk = (if ev = Sunrise then dawn else dusk) + (case off of None \<Rightarrow> 0 | Some d \<Rightarrow> d)"

definition schedule_due :: "schedule_context \<Rightarrow> scene_schedule \<Rightarrow> bool" where
  "schedule_due ctx s \<longleftrightarrow> sh_enabled s \<noteq> Some False \<and>
     (case sh_days s of None \<Rightarrow> True | Some ds \<Rightarrow> of_nat (sx_dayOfWeek ctx) \<in> set ds) \<and>
     triggerMinute (sh_trigger s) (sx_sunriseMinute ctx) (sx_sunsetMinute ctx) = of_nat (sx_nowMinute ctx)"

definition dueScenes :: "scene_schedule list \<Rightarrow> schedule_context \<Rightarrow> scene_id list" where
  "dueScenes ss ctx = map sh_sceneId (filter (schedule_due ctx) ss)"

section \<open>Validation\<close>

text \<open>
  The unknown value that is validated: each property as a JavaScript value, the list of days as far as the code looks at it. The
  offset is not looked at.
\<close>

datatype days_input = NoDays | NotAnArray | DayList "rat list"

record trigger_input =
  tg_type :: jsval
  tg_atMinutes :: jsval
  tg_event :: jsval
  tg_offsetMinutes :: "rat option"

record schedule_input =
  sn_id :: jsval
  sn_sceneId :: jsval
  sn_trigger :: "trigger_input option"
  sn_enabled :: "bool option"
  sn_days :: days_input

definition schedule_error :: "string \<Rightarrow> error" where
  "schedule_error m = PlainError m"

definition check_trigger :: "trigger_input \<Rightarrow> error + schedule_trigger" where
  "check_trigger t =
     (if tg_type t = JStr ''time'' then
        (case tg_atMinutes t of
           JNum m \<Rightarrow> if m < 0 \<or> m > 1439 then Inl (schedule_error ''time trigger atMinutes must be 0..1439'') else Inr (AtTime m)
         | _ \<Rightarrow> Inl (schedule_error ''time trigger atMinutes must be 0..1439''))
      else if tg_type t = JStr ''solar'' then
        (if tg_event t = JStr ''sunrise'' then Inr (AtSun Sunrise (tg_offsetMinutes t))
         else if tg_event t = JStr ''sunset'' then Inr (AtSun Sunset (tg_offsetMinutes t))
         else Inl (schedule_error ''solar trigger event must be sunrise or sunset''))
      else Inl (schedule_error ''trigger type must be time or solar''))"

definition days_ok :: "days_input \<Rightarrow> bool" where
  "days_ok ds = (case ds of NoDays \<Rightarrow> True | NotAnArray \<Rightarrow> False | DayList xs \<Rightarrow> \<not> list_ex (\<lambda>d. d < 0 \<or> d > 6) xs)"

text \<open>The name a schedule without an id gets; how JavaScript prints the minute is an argument.\<close>

definition default_schedule_id :: "(rat \<Rightarrow> string) \<Rightarrow> scene_id \<Rightarrow> schedule_trigger \<Rightarrow> string" where
  "default_schedule_id num s t = ''sch_'' @ s @ ''_'' @
     (case t of AtTime m \<Rightarrow> num m | AtSun Sunrise _ \<Rightarrow> ''sunrise'' | AtSun Sunset _ \<Rightarrow> ''sunset'')"

definition validateSchedule :: "(rat \<Rightarrow> string) \<Rightarrow> schedule_input option \<Rightarrow> error + scene_schedule" where
  "validateSchedule num inp =
     (case inp of
        None \<Rightarrow> Inl (schedule_error ''schedule needs a sceneId'')
      | Some si \<Rightarrow>
          (case sn_sceneId si of
             JStr s \<Rightarrow>
               (if s = '''' then Inl (schedule_error ''schedule needs a sceneId'')
                else case sn_trigger si of
                    None \<Rightarrow> Inl (schedule_error ''schedule needs a trigger'')
                  | Some tg \<Rightarrow>
                      (case check_trigger tg of
                         Inl e \<Rightarrow> Inl e
                       | Inr t \<Rightarrow>
                           if \<not> days_ok (sn_days si) then Inl (schedule_error ''days must be 0..6'')
                           else Inr \<lparr>sh_id = (case sn_id si of JStr i \<Rightarrow> if i \<noteq> '''' then i else default_schedule_id num s t
                                       | _ \<Rightarrow> default_schedule_id num s t),
                                     sh_sceneId = s, sh_trigger = t, sh_enabled = sn_enabled si,
                                     sh_days = (case sn_days si of DayList xs \<Rightarrow> Some xs | _ \<Rightarrow> None)\<rparr>))
           | _ \<Rightarrow> Inl (schedule_error ''schedule needs a sceneId'')))"

section \<open>When a schedule fires\<close>

text \<open>The minutes of a day at which a schedule is due.\<close>

definition due_minutes :: "scene_schedule \<Rightarrow> nat \<Rightarrow> rat \<Rightarrow> rat \<Rightarrow> nat list" where
  "due_minutes s day dawn dusk = filter (\<lambda>m. schedule_due \<lparr>sx_nowMinute = m, sx_dayOfWeek = day, sx_sunriseMinute = dawn, sx_sunsetMinute = dusk\<rparr> s)
     [0..<1440]"

lemma check_trigger_time: "check_trigger tg = Inr (AtTime m) \<Longrightarrow> 0 \<le> m \<and> m \<le> 1439"
  by (cases "tg_atMinutes tg") (auto simp: check_trigger_def split: if_splits)

lemma validated_schedule:
  assumes "validateSchedule num inp = Inr s"
  shows "sh_trigger s = AtTime m \<Longrightarrow> 0 \<le> m \<and> m \<le> 1439"
proof -
  obtain si where si: "inp = Some si" using assms by (cases inp) (simp_all add: validateSchedule_def)
  obtain sc where sc: "sn_sceneId si = JStr sc" using assms si by (cases "sn_sceneId si") (simp_all add: validateSchedule_def)
  obtain tg where tg: "sn_trigger si = Some tg"
    using assms si sc by (cases "sn_trigger si") (simp_all add: validateSchedule_def split: if_splits)
  obtain t where t: "check_trigger tg = Inr t"
    using assms si sc tg by (cases "check_trigger tg") (simp_all add: validateSchedule_def split: if_splits)
  have "sh_trigger s = t" using assms si sc tg t by (auto simp: validateSchedule_def split: if_splits)
  with t check_trigger_time show "sh_trigger s = AtTime m \<Longrightarrow> 0 \<le> m \<and> m \<le> 1439" by simp
qed

lemma filter_upt_single: "n < k \<Longrightarrow> filter ((=) n) [0..<k] = [n]"
proof (induction k)
  case (Suc k)
  then show ?case by (cases "n = k") (auto simp: filter_empty_conv)
qed simp

text \<open>
  C10: A stored time schedule runs once a day: one that passed the validation with a whole minute, is not disabled and has today among its
  days is due at exactly one minute of the day, wherever the sun stands; on another day it is due at none.
\<close>

theorem time_schedule_fires_once:
  assumes "validateSchedule num inp = Inr s" "sh_trigger s = AtTime (of_nat m)" "sh_enabled s \<noteq> Some False"
  shows "due_minutes s day dawn dusk =
     (if (case sh_days s of None \<Rightarrow> True | Some ds \<Rightarrow> of_nat day \<in> set ds) then [m] else [])"
proof -
  have "(of_nat m :: rat) \<le> of_nat 1439" using validated_schedule [OF assms(1,2)] by simp
  then have "m < 1440" by (simp only: of_nat_le_iff)
  show ?thesis
    using assms(2,3) filter_upt_single [OF \<open>m < 1440\<close>]
    by (auto simp: due_minutes_def schedule_due_def split: option.split)
qed

text \<open>
  A solar offset across midnight never fires: a schedule two hours after sunset passes the validation, and on a day whose sun sets at
  half past ten in the evening there is no minute at which it is due.
\<close>

theorem solar_offset_past_midnight_never_fires:
  "\<exists>inp s. validateSchedule num (Some inp) = Inr s \<and> sh_enabled s = None \<and> sh_days s = None \<and>
     sh_trigger s = AtSun Sunset (Some 120) \<and> due_minutes s day 300 1350 = []"
proof -
  let ?inp = "\<lparr>sn_id = JStr ''late'', sn_sceneId = JStr ''night'',
      sn_trigger = Some \<lparr>tg_type = JStr ''solar'', tg_atMinutes = JUndef, tg_event = JStr ''sunset'', tg_offsetMinutes = Some 120\<rparr>,
      sn_enabled = None, sn_days = NoDays\<rparr>"
  let ?s = "\<lparr>sh_id = ''late'', sh_sceneId = ''night'', sh_trigger = AtSun Sunset (Some 120), sh_enabled = None, sh_days = None\<rparr>"
  have "validateSchedule num (Some ?inp) = Inr ?s" by (simp add: validateSchedule_def check_trigger_def days_ok_def)
  moreover have "(1350 + 120 :: rat) \<noteq> of_nat m" if "m < 1440" for m
  proof -
    from that have "(of_nat m :: rat) < of_nat 1440" by (simp only: of_nat_less_iff)
    then show ?thesis by simp
  qed
  then have "due_minutes ?s day 300 1350 = []"
    by (simp add: due_minutes_def schedule_due_def filter_empty_conv)
  ultimately show ?thesis by (intro exI [of _ ?inp] exI [of _ ?s]) simp
qed

theorem time_schedule_fires_once_witness:
  "due_minutes \<lparr>sh_id = ''w'', sh_sceneId = ''wake'', sh_trigger = AtTime 390, sh_enabled = None, sh_days = Some [1]\<rparr> 1 360 1080 = [390]"
proof -
  let ?s = "\<lparr>sh_id = ''w'', sh_sceneId = ''wake'', sh_trigger = AtTime 390, sh_enabled = None, sh_days = Some [1]\<rparr>"
  have "validateSchedule (\<lambda>_. '''') (Some \<lparr>sn_id = JStr ''w'', sn_sceneId = JStr ''wake'',
      sn_trigger = Some \<lparr>tg_type = JStr ''time'', tg_atMinutes = JNum 390, tg_event = JUndef, tg_offsetMinutes = None\<rparr>,
      sn_enabled = None, sn_days = DayList [1]\<rparr>) = Inr ?s"
    by (simp add: validateSchedule_def check_trigger_def days_ok_def)
  from time_schedule_fires_once [OF this, of 390 1 360 1080] show ?thesis by simp
qed

end
