(* ===== verification/Webauthn.thy ===== *)
theory Webauthn
  imports Identity_Service Canonical_Json
begin

text \<open>
  Passkeys, \<^verbatim>\<open>services/identity/src/webauthn.ts\<close>: the CBOR decoder, the parsing of authenticator data and the checks of a
  registration and of a login. What Node provides is an argument, gathered in \<open>webauthn_env\<close>: base64url and UTF-8 decoding,
  the JSON parser, SHA-256, ECDSA and the conversion of a key to PEM.
\<close>

section \<open>CBOR\<close>

text \<open>
  Reading a \<^verbatim>\<open>Uint8Array\<close> past its end gives \<^verbatim>\<open>undefined\<close>, which counts as 0 in the bitwise operators. A length read there is
  \<^verbatim>\<open>undefined\<close>, and adding it to a position gives \<^verbatim>\<open>NaN\<close>, whose byte is again \<^verbatim>\<open>undefined\<close>. Positions and lengths are
  \<^const>\<open>None\<close> then.
\<close>

datatype cbor =
    CbInt int | CbUndefined | CbNaN | CbBytes "byte list" | CbText string | CbArray "cbor list" | CbMap "(cbor \<times> cbor) list"

definition cbor_byte :: "byte list \<Rightarrow> nat option \<Rightarrow> byte option" where
  "cbor_byte buf p = (case p of None \<Rightarrow> None | Some n \<Rightarrow> if n < length buf then Some (buf ! n) else None)"

definition byte_or_0 :: "byte list \<Rightarrow> nat option \<Rightarrow> byte" where
  "byte_or_0 buf p = (case cbor_byte buf p of None \<Rightarrow> 0 | Some b \<Rightarrow> b)"

definition shift :: "nat \<Rightarrow> nat option \<Rightarrow> nat option" where
  "shift k p = map_option (\<lambda>n. n + k) p"

definition be16 :: "byte list \<Rightarrow> nat option \<Rightarrow> nat" where
  "be16 buf p = 256 * unat (byte_or_0 buf p) + unat (byte_or_0 buf (shift 1 p))"

definition be32 :: "byte list \<Rightarrow> nat option \<Rightarrow> nat" where
  "be32 buf p = 65536 * be16 buf p + be16 buf (shift 2 p)"

text \<open>\<open>cbor_error\<close> is a thrown \<^verbatim>\<open>Error\<close>.\<close>

definition readLen :: "byte list \<Rightarrow> nat \<Rightarrow> nat option \<Rightarrow> error + (nat option \<times> nat option)" where
  "readLen buf m p =
     (if m < 24 then Inr (Some m, p)
      else if m = 24 then Inr (map_option unat (cbor_byte buf p), shift 1 p)
      else if m = 25 then Inr (Some (be16 buf p), shift 2 p)
      else if m = 26 then Inr (Some (be32 buf p), shift 4 p)
      else Inl (PlainError ''cbor: unsupported length''))"

definition subarray :: "byte list \<Rightarrow> nat option \<Rightarrow> nat option \<Rightarrow> byte list" where
  "subarray buf p len = (case len of None \<Rightarrow> []
     | Some n \<Rightarrow> (case p of None \<Rightarrow> [] | Some q \<Rightarrow> take n (drop q buf)))"

definition advance :: "nat option \<Rightarrow> nat option \<Rightarrow> nat option" where
  "advance p len = (case len of None \<Rightarrow> None | Some n \<Rightarrow> shift n p)"

text \<open>\<open>n\<close> items one after the other, with the decoder of an item as an argument.\<close>

type_synonym cbor_result = "(error + (cbor \<times> nat option)) option"

primrec decode_items :: "(nat option \<Rightarrow> cbor_result) \<Rightarrow> nat \<Rightarrow> nat option \<Rightarrow> (error + (cbor list \<times> nat option)) option" where
  "decode_items dec 0 p = Some (Inr ([], p))"
| "decode_items dec (Suc n) p =
     (case dec p of
        None \<Rightarrow> None | Some (Inl e) \<Rightarrow> Some (Inl e)
      | Some (Inr (v, p')) \<Rightarrow>
          (case decode_items dec n p' of
             None \<Rightarrow> None | Some (Inl e) \<Rightarrow> Some (Inl e) | Some (Inr (vs, q)) \<Rightarrow> Some (Inr (v # vs, q))))"

text \<open>
  The keys and values of a map, pair by pair. Setting a key again replaces its value; a key that is a reference (bytes, an array or a map)
  is a new key each time.
\<close>

fun same_key :: "cbor \<Rightarrow> cbor \<Rightarrow> bool" where
  "same_key (CbInt i) (CbInt j) = (i = j)"
| "same_key (CbText s) (CbText t) = (s = t)"
| "same_key CbUndefined CbUndefined = True"
| "same_key CbNaN CbNaN = True"
| "same_key _ _ = False"

fun set_key :: "cbor \<Rightarrow> cbor \<Rightarrow> (cbor \<times> cbor) list \<Rightarrow> (cbor \<times> cbor) list" where
  "set_key k v [] = [(k, v)]"
| "set_key k v ((k', v') # kvs) = (if same_key k k' then (k', v) # kvs else (k', v') # set_key k v kvs)"

fun get_key :: "cbor \<Rightarrow> (cbor \<times> cbor) list \<Rightarrow> cbor" where
  "get_key k [] = CbUndefined"
| "get_key k ((k', v) # kvs) = (if same_key k k' then v else get_key k kvs)"

fun pair_up :: "cbor list \<Rightarrow> (cbor \<times> cbor) list \<Rightarrow> (cbor \<times> cbor) list" where
  "pair_up (k # v # rest) acc = pair_up rest (set_key k v acc)"
| "pair_up _ acc = acc"

definition length_of :: "nat option \<Rightarrow> nat" where
  "length_of len = (case len of None \<Rightarrow> 0 | Some n \<Rightarrow> n)"

text \<open>
  \<^verbatim>\<open>decodeCbor\<close>, with a bound on the nesting: \<^const>\<open>None\<close> when it is reached, which \<open>cbor_decoder_terminates\<close> excludes.
\<close>

definition decode_one :: "(byte list \<Rightarrow> string) \<Rightarrow> (nat option \<Rightarrow> cbor_result) \<Rightarrow> byte list \<Rightarrow> nat option \<Rightarrow> cbor_result" where
  "decode_one utf8 dec buf off =
     (let b = unat (byte_or_0 buf off); major = b div 32; minor = b mod 32 in
      if major > 5 then Some (Inl (PlainError (''cbor: unsupported major type '' @ show_nat major)))
      else case readLen buf minor (shift 1 off) of
          Inl e \<Rightarrow> Some (Inl e)
        | Inr (len, np) \<Rightarrow>
            (if major = 0 then Some (Inr (case len of None \<Rightarrow> CbUndefined | Some n \<Rightarrow> CbInt (int n), np))
             else if major = 1 then Some (Inr (case len of None \<Rightarrow> CbNaN | Some n \<Rightarrow> CbInt (-1 - int n), np))
             else if major = 2 then Some (Inr (CbBytes (subarray buf np len), advance np len))
             else if major = 3 then Some (Inr (CbText (utf8 (subarray buf np len)), advance np len))
             else if major = 4 then
               (case decode_items dec (length_of len) np of
                  None \<Rightarrow> None | Some (Inl e) \<Rightarrow> Some (Inl e) | Some (Inr (vs, q)) \<Rightarrow> Some (Inr (CbArray vs, q)))
             else
               (case decode_items dec (2 * length_of len) np of
                  None \<Rightarrow> None | Some (Inl e) \<Rightarrow> Some (Inl e) | Some (Inr (vs, q)) \<Rightarrow> Some (Inr (CbMap (pair_up vs []), q)))))"

primrec decode_cbor :: "(byte list \<Rightarrow> string) \<Rightarrow> nat \<Rightarrow> byte list \<Rightarrow> nat option \<Rightarrow> cbor_result" where
  "decode_cbor utf8 0 buf = (\<lambda>off. None)"
| "decode_cbor utf8 (Suc f) buf = decode_one utf8 (decode_cbor utf8 f buf) buf"

text \<open>As many levels as there are bytes are enough.\<close>

definition decodeCbor :: "(byte list \<Rightarrow> string) \<Rightarrow> byte list \<Rightarrow> nat \<Rightarrow> error + (cbor \<times> nat option)" where
  "decodeCbor utf8 buf off = (case decode_cbor utf8 (length buf + 2) buf (Some off) of
     None \<Rightarrow> Inl (PlainError ''nesting'') | Some r \<Rightarrow> r)"

section \<open>The decoder terminates\<close>

text \<open>How far a position is from the end of the buffer; \<^verbatim>\<open>NaN\<close> is past it.\<close>

definition left :: "byte list \<Rightarrow> nat option \<Rightarrow> nat" where
  "left buf p = (case p of None \<Rightarrow> 0 | Some n \<Rightarrow> length buf - n)"

lemma left_shift [simp]: "left buf (shift k p) = left buf p - k"
  by (simp add: left_def shift_def split: option.split)

lemma left_advance: "left buf (advance p len) \<le> left buf p"
  using left_shift [of buf "length_of len" p] by (cases len) (simp_all add: advance_def length_of_def, simp add: left_def)

lemma readLen_left: "readLen buf m p = Inr (len, np) \<Longrightarrow> left buf np \<le> left buf p"
  by (auto simp: readLen_def split: if_splits)

lemma byte_past_end: "left buf p = 0 \<Longrightarrow> byte_or_0 buf p = 0"
  by (auto simp: left_def byte_or_0_def cbor_byte_def split: option.splits)

text \<open>What an item needs of its decoder: below a bound it returns, does not depend on the fuel, and never moves back.\<close>

definition settled :: "byte list \<Rightarrow> (nat option \<Rightarrow> cbor_result) \<Rightarrow> nat \<Rightarrow> bool" where
  "settled buf dec k \<longleftrightarrow> (\<forall>p. left buf p \<le> k \<longrightarrow> (\<exists>r. dec p = Some r \<and> (\<forall>v q. r = Inr (v, q) \<longrightarrow> left buf q \<le> left buf p)))"

lemma decode_items_settled:
  assumes "settled buf dec k"
  shows "left buf p \<le> k \<Longrightarrow> \<exists>r. decode_items dec n p = Some r \<and> (\<forall>vs q. r = Inr (vs, q) \<longrightarrow> left buf q \<le> left buf p)"
proof (induction n arbitrary: p)
  case (Suc n)
  from assms Suc.prems obtain r where r: "dec p = Some r" "\<And>v q. r = Inr (v, q) \<Longrightarrow> left buf q \<le> left buf p"
    unfolding settled_def by metis
  show ?case
  proof (cases r)
    case (Inl e)
    with r show ?thesis by simp
  next
    case (Inr vq)
    obtain v q where vq: "vq = (v, q)" by fastforce
    from r(2) Inr vq have q: "left buf q \<le> left buf p" by simp
    with Suc.prems have "left buf q \<le> k" by simp
    from Suc.IH [OF this] obtain r' where r': "decode_items dec n q = Some r'" "\<And>vs t. r' = Inr (vs, t) \<Longrightarrow> left buf t \<le> left buf q" by metis
    show ?thesis
    proof (cases r')
      case (Inr ws)
      obtain vs t where ws: "ws = (vs, t)" by fastforce
      with r'(2) Inr q have "left buf t \<le> left buf p" by fastforce
      with r r' vq ws Inr \<open>r = Inr vq\<close> show ?thesis by simp
    qed (use r r' vq Inr in simp)
  qed
qed simp

lemma decode_items_cong:
  assumes "settled buf dec k" "\<And>p. left buf p \<le> k \<Longrightarrow> dec' p = dec p"
  shows "left buf p \<le> k \<Longrightarrow> decode_items dec' n p = decode_items dec n p"
proof (induction n arbitrary: p)
  case (Suc n)
  from assms(1) Suc.prems obtain r where r: "dec p = Some r" "\<And>v q. r = Inr (v, q) \<Longrightarrow> left buf q \<le> left buf p"
    unfolding settled_def by metis
  show ?case
  proof (cases r)
    case (Inr vq)
    obtain v q where vq: "vq = (v, q)" by fastforce
    from r(2) Inr vq Suc.prems have "left buf q \<le> k" by fastforce
    from Suc.IH [OF this] r Inr vq assms(2) [OF Suc.prems] show ?thesis by simp
  qed (use r assms(2) [OF Suc.prems] in simp)
qed simp

lemma decode_one_end: "left buf p = 0 \<Longrightarrow> decode_one utf8 dec buf p = Some (Inr (CbInt 0, shift 1 p))"
  by (simp add: decode_one_def byte_past_end readLen_def)

lemma decode_one_settled:
  assumes "settled buf dec k" "left buf p \<le> Suc k"
  shows "\<exists>r. decode_one utf8 dec buf p = Some r \<and> (\<forall>v q. r = Inr (v, q) \<longrightarrow> left buf q \<le> left buf p)"
proof (cases "left buf p = 0")
  case True
  then show ?thesis using left_shift [of buf 1 p] by (auto simp: decode_one_end)
next
  case False
  let ?b = "unat (byte_or_0 buf p)"
  show ?thesis
  proof (cases "readLen buf (?b mod 32) (shift 1 p)")
    case (Inl e)
    then show ?thesis by (simp add: decode_one_def Let_def)
  next
    case (Inr ln)
    obtain len np where ln: "ln = (len, np)" by fastforce
    from readLen_left [of buf _ _ len np] Inr ln left_shift [of buf 1 p] have np: "left buf np \<le> left buf p - 1" by metis
    with assms(2) have k: "left buf np \<le> k" by simp
    note adv = left_advance [of buf np len]
    obtain r where r: "decode_items dec n np = Some (r n)" "\<And>vs q. r n = Inr (vs, q) \<Longrightarrow> left buf q \<le> left buf np" for n
      using decode_items_settled [OF assms(1) k] by metis
    have "\<exists>x. (case decode_items dec n np of None \<Rightarrow> None | Some (Inl e) \<Rightarrow> Some (Inl e) | Some (Inr (vs, q)) \<Rightarrow> Some (Inr (c vs, q))) = Some x \<and>
        (\<forall>v q. x = Inr (v :: cbor, q) \<longrightarrow> left buf q \<le> left buf p)" for n c
      using r(2) [of n] np by (cases "r n") (fastforce simp: r(1))+
    with Inr ln np adv show ?thesis by (auto simp: decode_one_def Let_def)
  qed
qed

lemma decode_one_cong:
  assumes "settled buf dec k" "\<And>p. left buf p \<le> k \<Longrightarrow> dec' p = dec p" "left buf p \<le> Suc k"
  shows "decode_one utf8 dec' buf p = decode_one utf8 dec buf p"
proof (cases "left buf p = 0")
  case False
  have "decode_items dec' n np = decode_items dec n np" if "readLen buf m (shift 1 p) = Inr (len, np)" for m n len np
  proof -
    from readLen_left [OF that] left_shift [of buf 1 p] assms(3) False have "left buf np \<le> k" by simp
    with decode_items_cong [OF assms(1,2)] show ?thesis by blast
  qed
  then show ?thesis by (auto simp: decode_one_def Let_def split: sum.split prod.split)
qed (simp add: decode_one_end)

lemma decode_cbor_settled:
  "settled buf (decode_cbor utf8 (Suc k) buf) k \<and>
   (\<forall>f p. k \<le> f \<longrightarrow> left buf p \<le> k \<longrightarrow> decode_cbor utf8 (Suc f) buf p = decode_cbor utf8 (Suc k) buf p)"
proof (induction k)
  case 0
  have "left buf (shift 1 p) \<le> left buf p" for p by simp
  then show ?case by (auto simp: settled_def decode_one_end)
next
  case (Suc k)
  then have s: "settled buf (decode_cbor utf8 (Suc k) buf) k"
    and eq: "\<And>f p. k \<le> f \<Longrightarrow> left buf p \<le> k \<Longrightarrow> decode_cbor utf8 (Suc f) buf p = decode_cbor utf8 (Suc k) buf p" by blast+
  have "settled buf (decode_cbor utf8 (Suc (Suc k)) buf) (Suc k)"
    unfolding settled_def decode_cbor.simps(2) [of utf8 "Suc k"] using decode_one_settled [OF s] by blast
  moreover have "decode_cbor utf8 (Suc f) buf p = decode_cbor utf8 (Suc (Suc k)) buf p" if f: "Suc k \<le> f" and p: "left buf p \<le> Suc k" for f p
  proof -
    from f obtain g where g: "f = Suc g" "k \<le> g" by (cases f) simp_all
    show ?thesis
      unfolding g(1) decode_cbor.simps(2) [of utf8 "Suc k"] decode_cbor.simps(2) [of utf8 "Suc g"]
      by (rule decode_one_cong [OF s eq p]) (use g(2) in auto)
  qed
  ultimately show ?case by blast
qed

text \<open>
  C12: The decoder always returns: on any bytes, also truncated or adversarial ones, and from any position, as many nesting levels as there
  are bytes left, and one more, are enough; with more the result is the same, and the position it returns is not nearer the start.
\<close>

theorem cbor_decoder_terminates:
  assumes "left buf p < fuel"
  shows "\<exists>r. decode_cbor utf8 fuel buf p = Some r \<and> (\<forall>fuel'. left buf p < fuel' \<longrightarrow> decode_cbor utf8 fuel' buf p = Some r) \<and>
     (\<forall>v q. r = Inr (v, q) \<longrightarrow> left buf q \<le> left buf p)"
proof -
  note s = decode_cbor_settled [of buf utf8 "left buf p"]
  then obtain r where r: "decode_cbor utf8 (Suc (left buf p)) buf p = Some r" "\<forall>v q. r = Inr (v, q) \<longrightarrow> left buf q \<le> left buf p"
    unfolding settled_def by blast
  have "decode_cbor utf8 f buf p = Some r" if "left buf p < f" for f
  proof -
    from that obtain g where "f = Suc g" "left buf p \<le> g" by (cases f) simp_all
    with s r(1) show ?thesis by (metis order_refl)
  qed
  with assms r(2) show ?thesis by blast
qed

text \<open>
  Five bytes cost up to four billion steps: a header that announces an array, with nothing behind it,
  is decoded into as many zeros as it announces, because reading past the end gives zeros and the length is not compared with the bytes left.
\<close>

theorem truncated_array_expands:
  "decodeCbor utf8 [154, a, b, c, d] 0 =
     (let n = 16777216 * unat a + 65536 * unat b + 256 * unat c + unat d in Inr (CbArray (replicate n (CbInt 0)), Some (5 + n)))"
proof -
  let ?buf = "[154, a, b, c, d] :: byte list"
  define n where "n = be32 ?buf (Some 1)"
  have n: "n = 16777216 * unat a + 65536 * unat b + 256 * unat c + unat d"
    by (simp add: n_def be32_def be16_def shift_def byte_or_0_def cbor_byte_def)
  have zeros: "decode_items dec m p = Some (Inr (replicate m (CbInt 0), shift m p))"
    if dec: "\<And>q. left ?buf q = 0 \<Longrightarrow> dec q = Some (Inr (CbInt 0, shift 1 q))" and p: "left ?buf p = 0" for dec m p
    using p
  proof (induction m arbitrary: p)
    case 0
    show ?case by (cases p) (simp_all add: shift_def)
  next
    case (Suc m)
    have "shift m (shift 1 p) = shift (Suc m) p" by (cases p) (simp_all add: shift_def)
    moreover have "left ?buf (shift 1 p) = 0" using Suc.prems left_shift [of ?buf 1 p] by simp
    ultimately show ?case using dec [OF Suc.prems] Suc.IH [of "shift 1 p"] by simp
  qed
  have dec: "decode_cbor utf8 (Suc f) ?buf q = Some (Inr (CbInt 0, shift 1 q))" if "left ?buf q = 0" for q f
    using decode_one_end [OF that] by simp
  have items: "decode_items (decode_cbor utf8 (Suc f) ?buf) m (Some 5) = Some (Inr (replicate m (CbInt 0), shift m (Some 5)))" for f m
    by (rule zeros [OF dec]) (simp_all add: left_def)
  have items': "decode_items (decode_cbor utf8 6 ?buf) m (Some 5) = Some (Inr (replicate m (CbInt 0), shift m (Some 5)))" for m
    using items [of 5] by (simp del: decode_cbor.simps)
  have head: "byte_or_0 ?buf (Some 0) = 154" by (simp add: byte_or_0_def cbor_byte_def)
  have bits: "unat (154 :: byte) div 32 = 4" "unat (154 :: byte) mod 32 = 26" by simp_all
  have len: "readLen ?buf 26 (shift 1 (Some 0)) = Inr (Some n, Some 5)" by (simp add: readLen_def n_def shift_def)
  have "decode_cbor utf8 (Suc (Suc 5)) ?buf (Some 0) = Some (Inr (CbArray (replicate n (CbInt 0)), Some (5 + n)))"
    unfolding decode_cbor.simps(2) [of utf8 "Suc 5"] decode_one_def head Let_def bits len
    by (simp add: items' length_of_def shift_def del: decode_cbor.simps)
  moreover have "length ?buf + 2 = Suc (Suc 5)" by simp
  ultimately have "decodeCbor utf8 ?buf 0 = Inr (CbArray (replicate n (CbInt 0)), Some (5 + n))"
    unfolding decodeCbor_def by (simp only: option.case)
  then show ?thesis by (simp add: n Let_def)
qed

section \<open>The ceremonies' checks\<close>

text \<open>
  What Node provides. A thrown error is its message, on the left: that of \<^verbatim>\<open>JSON.parse\<close> on a text that is not JSON, of
  \<^verbatim>\<open>crypto.verify\<close> on a PEM it cannot read, of \<^verbatim>\<open>createPublicKey\<close> on coordinates that are not a point of the curve.
\<close>

record webauthn_env =
  wa_fromBase64url :: "string \<Rightarrow> byte list"
  wa_utf8 :: "byte list \<Rightarrow> string"
  wa_parse :: "string \<Rightarrow> string + json"
  wa_sha256 :: "byte list \<Rightarrow> byte list"
  wa_verify :: "byte list \<Rightarrow> string \<Rightarrow> byte list \<Rightarrow> string + bool"
  wa_jwkPem :: "string \<Rightarrow> string \<Rightarrow> string + string"

text \<open>\<^verbatim>\<open>m.get(k)\<close> on a decoded item, which throws a \<^verbatim>\<open>TypeError\<close> when the item is not a map.\<close>

definition item_get :: "string \<Rightarrow> cbor \<Rightarrow> cbor \<Rightarrow> error + cbor" where
  "item_get name k m = (case m of
       CbMap kvs \<Rightarrow> Inr (get_key k kvs)
     | CbUndefined \<Rightarrow> Inl (PlainError ''Cannot read properties of undefined (reading 'get')'')
     | _ \<Rightarrow> Inl (PlainError (name @ ''.get is not a function'')))"

definition coseToPublicKey :: "webauthn_env \<Rightarrow> cbor \<Rightarrow> error + string" where
  "coseToPublicKey env cose =
     (case item_get ''cose'' (CbInt 1) cose of
        Inl e \<Rightarrow> Inl e
      | Inr kty \<Rightarrow>
        (case (item_get ''cose'' (CbInt 3) cose, item_get ''cose'' (CbInt (-1)) cose,
               item_get ''cose'' (CbInt (-2)) cose, item_get ''cose'' (CbInt (-3)) cose) of
           (Inr alg, Inr crv, Inr (CbBytes x), Inr (CbBytes y)) \<Rightarrow>
             (if kty \<noteq> CbInt 2 \<or> alg \<noteq> CbInt (-7) \<or> crv \<noteq> CbInt 1
              then Inl (PlainError ''webauthn: only ES256 (P-256) passkeys are supported'')
              else (case wa_jwkPem env (base64url x) (base64url y) of Inl m \<Rightarrow> Inl (PlainError m) | Inr pem \<Rightarrow> Inr pem))
         | _ \<Rightarrow> Inl (PlainError ''webauthn: only ES256 (P-256) passkeys are supported'')))"

record auth_data =
  ad_rpIdHash :: "byte list"
  ad_flags :: "byte option"
  ad_signCount :: nat
  ad_credentialId :: "byte list option"
  ad_publicKeyPem :: "string option"

definition parseAuthData :: "webauthn_env \<Rightarrow> byte list \<Rightarrow> error + auth_data" where
  "parseAuthData env authData =
     (let result = \<lparr>ad_rpIdHash = take 32 authData, ad_flags = cbor_byte authData (Some 32),
                    ad_signCount = be32 authData (Some 33), ad_credentialId = None, ad_publicKeyPem = None\<rparr> in
      if bit (byte_or_0 authData (Some 32)) 6 then
        (let credIdLen = be16 authData (Some 53) in
         case decodeCbor (wa_utf8 env) authData (55 + credIdLen) of
           Inl e \<Rightarrow> Inl e
         | Inr (cose, _) \<Rightarrow>
           (case coseToPublicKey env cose of
              Inl e \<Rightarrow> Inl e
            | Inr pem \<Rightarrow> Inr (result\<lparr>ad_credentialId := Some (subarray authData (Some 55) (Some credIdLen)),
                                      ad_publicKeyPem := Some pem\<rparr>)))
      else Inr result)"

definition newChallenge :: "byte list \<Rightarrow> string" where
  "newChallenge random32 = base64url random32"

text \<open>A property of the parsed client data: \<^verbatim>\<open>undefined\<close> (\<^const>\<open>None\<close>) where it is missing, an exception on \<^verbatim>\<open>null\<close>.\<close>

definition json_get :: "string \<Rightarrow> json \<Rightarrow> error + json option" where
  "json_get k j = (case j of
       JsNull \<Rightarrow> Inl (PlainError (''Cannot read properties of null (reading '' @ [CHR 39] @ k @ [CHR 39] @ '')''))
     | JsObject kvs \<Rightarrow> Inr (map_of kvs k)
     | _ \<Rightarrow> Inr None)"

definition parse_client_data :: "webauthn_env \<Rightarrow> string \<Rightarrow> error + json" where
  "parse_client_data env clientDataJSON =
     (case wa_parse env (wa_utf8 env (wa_fromBase64url env clientDataJSON)) of Inl m \<Rightarrow> Inl (PlainError m) | Inr j \<Rightarrow> Inr j)"

text \<open>The checks both ceremonies begin with.\<close>

definition check_client_data :: "webauthn_env \<Rightarrow> string \<Rightarrow> string \<Rightarrow> string \<Rightarrow> string option \<Rightarrow> error + unit" where
  "check_client_data env ceremony clientDataJSON expectedChallenge expectedOrigin =
     (case parse_client_data env clientDataJSON of
        Inl e \<Rightarrow> Inl e
      | Inr j \<Rightarrow>
        (case json_get ''type'' j of
           Inl e \<Rightarrow> Inl e
         | Inr ty \<Rightarrow>
           (if ty \<noteq> Some (JsString ceremony) then Inl (PlainError ''webauthn: unexpected ceremony type'')
            else if json_get ''challenge'' j \<noteq> Inr (Some (JsString expectedChallenge))
              then Inl (PlainError ''webauthn: challenge mismatch'')
            else (case truthy expectedOrigin of
                    None \<Rightarrow> Inr ()
                  | Some orig \<Rightarrow>
                      if json_get ''origin'' j \<noteq> Inr (Some (JsString orig))
                      then Inl (PlainError ''webauthn: origin mismatch'') else Inr ()))))"

record registration_input =
  ri_clientDataJSON :: string
  ri_attestationObject :: string
  ri_expectedChallenge :: string
  ri_expectedOrigin :: "string option"

record registration_result =
  rr_credentialId :: string
  rr_publicKeyPem :: string
  rr_signCount :: nat

definition verifyRegistration :: "webauthn_env \<Rightarrow> registration_input \<Rightarrow> error + registration_result" where
  "verifyRegistration env input =
     (case check_client_data env ''webauthn.create'' (ri_clientDataJSON input) (ri_expectedChallenge input) (ri_expectedOrigin input) of
        Inl e \<Rightarrow> Inl e
      | Inr _ \<Rightarrow>
        (case decodeCbor (wa_utf8 env) (wa_fromBase64url env (ri_attestationObject input)) 0 of
           Inl e \<Rightarrow> Inl e
         | Inr (att, _) \<Rightarrow>
           (case item_get ''att'' (CbText ''authData'') att of
              Inl e \<Rightarrow> Inl e
            | Inr (CbBytes authData) \<Rightarrow>
              (case parseAuthData env authData of
                 Inl e \<Rightarrow> Inl e
               | Inr parsed \<Rightarrow>
                 (case (ad_credentialId parsed, truthy (ad_publicKeyPem parsed)) of
                    (Some cid, Some pem) \<Rightarrow>
                      Inr \<lparr>rr_credentialId = base64url cid, rr_publicKeyPem = pem, rr_signCount = ad_signCount parsed\<rparr>
                  | _ \<Rightarrow> Inl (PlainError ''webauthn: no attested credential'')))
            | Inr _ \<Rightarrow> Inl (PlainError ''webauthn: missing authData''))))"

record authentication_input =
  ai_clientDataJSON :: string
  ai_authenticatorData :: string
  ai_signature :: string
  ai_publicKeyPem :: string
  ai_expectedChallenge :: string
  ai_expectedOrigin :: "string option"

definition verifyAuthentication :: "webauthn_env \<Rightarrow> authentication_input \<Rightarrow> error + nat" where
  "verifyAuthentication env input =
     (case check_client_data env ''webauthn.get'' (ai_clientDataJSON input) (ai_expectedChallenge input) (ai_expectedOrigin input) of
        Inl e \<Rightarrow> Inl e
      | Inr _ \<Rightarrow>
        (let authData = wa_fromBase64url env (ai_authenticatorData input);
             clientDataHash = wa_sha256 env (wa_fromBase64url env (ai_clientDataJSON input));
             signedMessage = authData @ clientDataHash in
         case wa_verify env signedMessage (ai_publicKeyPem input) (wa_fromBase64url env (ai_signature input)) of
           Inl m \<Rightarrow> Inl (PlainError m)
         | Inr ok \<Rightarrow>
           (if \<not> ok then Inl (PlainError ''webauthn: signature verification failed'')
            else (case parseAuthData env authData of Inl e \<Rightarrow> Inl e | Inr parsed \<Rightarrow> Inr (ad_signCount parsed)))))"

section \<open>What an authenticator writes is read back\<close>

text \<open>
  The encoding of RFC 8949, with the shortest heads: what an authenticator sends, for the items the decoder has. \<open>utf8_of\<close> encodes a text.
\<close>

definition initial_byte :: "nat \<Rightarrow> nat \<Rightarrow> byte" where
  "initial_byte major minor = of_nat (32 * major + minor)"

definition cbor_head :: "nat \<Rightarrow> nat \<Rightarrow> byte list" where
  "cbor_head major n =
     (if n < 24 then [initial_byte major n]
      else if n < 256 then [initial_byte major 24, of_nat n]
      else if n < 65536 then [initial_byte major 25, of_nat (n div 256), of_nat n]
      else [initial_byte major 26, of_nat (n div 16777216), of_nat (n div 65536), of_nat (n div 256), of_nat n])"

function cbor_bytes :: "(string \<Rightarrow> byte list) \<Rightarrow> cbor \<Rightarrow> byte list" where
  "cbor_bytes utf8_of (CbInt i) = (if 0 \<le> i then cbor_head 0 (nat i) else cbor_head 1 (nat (-1 - i)))"
| "cbor_bytes utf8_of (CbBytes bs) = cbor_head 2 (length bs) @ bs"
| "cbor_bytes utf8_of (CbText s) = cbor_head 3 (length (utf8_of s)) @ utf8_of s"
| "cbor_bytes utf8_of (CbArray vs) = cbor_head 4 (length vs) @ concat (map (cbor_bytes utf8_of) vs)"
| "cbor_bytes utf8_of (CbMap kvs) =
     cbor_head 5 (length kvs) @ concat (map (\<lambda>(k, v). cbor_bytes utf8_of k @ cbor_bytes utf8_of v) kvs)"
| "cbor_bytes utf8_of CbUndefined = []"
| "cbor_bytes utf8_of CbNaN = []"
  by pat_completeness auto

lemma size_cbor_member [termination_simp]:
  "(k, v) \<in> set kvs \<Longrightarrow> size k < Suc (size_list (size_prod size size) kvs) \<and> size v < Suc (size_list (size_prod size size) kvs)"
  by (induction kvs) auto

termination cbor_bytes
  by (relation "measure (\<lambda>(u, v). size v)") (auto simp: size_cbor_member intro: le_imp_less_Suc size_list_estimation')

text \<open>The items the decoder can return as they were: lengths and numbers of at most 32 bits, each key once.\<close>

fun cbor_ok :: "(string \<Rightarrow> byte list) \<Rightarrow> cbor \<Rightarrow> bool" where
  "cbor_ok utf8_of (CbInt i) \<longleftrightarrow> - (2 ^ 32) \<le> i \<and> i < 2 ^ 32"
| "cbor_ok utf8_of (CbBytes bs) \<longleftrightarrow> length bs < 2 ^ 32"
| "cbor_ok utf8_of (CbText s) \<longleftrightarrow> length (utf8_of s) < 2 ^ 32"
| "cbor_ok utf8_of (CbArray vs) \<longleftrightarrow> length vs < 2 ^ 32 \<and> list_all (cbor_ok utf8_of) vs"
| "cbor_ok utf8_of (CbMap kvs) \<longleftrightarrow>
     length kvs < 2 ^ 32 \<and> distinct (map fst kvs) \<and> list_all (\<lambda>(k, v). cbor_ok utf8_of k \<and> cbor_ok utf8_of v) kvs"
| "cbor_ok utf8_of CbUndefined \<longleftrightarrow> False"
| "cbor_ok utf8_of CbNaN \<longleftrightarrow> False"

lemma drop_byte:
  assumes "drop p buf = b # r"
  shows "cbor_byte buf (Some p) = Some b \<and> drop (Suc p) buf = r \<and> left buf (Some p) = Suc (length r)"
proof -
  have p: "p < length buf"
  proof (rule ccontr)
    assume "\<not> p < length buf"
    with assms show False by simp
  qed
  have "buf ! p = b" "drop (Suc p) buf = r" using Cons_nth_drop_Suc [OF p] unfolding assms by blast+
  moreover from assms have "length (drop p buf) = Suc (length r)" by simp
  then have "length buf - p = Suc (length r)" unfolding length_drop .
  ultimately show ?thesis using p by (simp add: cbor_byte_def left_def)
qed

lemma unat_initial: "major < 8 \<Longrightarrow> m < 32 \<Longrightarrow> unat (initial_byte major m) = 32 * major + m"
  by (simp add: initial_byte_def unat_of_nat del: of_nat_add of_nat_mult)

lemma be16_at:
  assumes "drop p buf = of_nat (n div 256) # of_nat n # r" "n < 65536"
  shows "be16 buf (Some p) = n \<and> drop (Suc (Suc p)) buf = r"
proof -
  from drop_byte [OF assms(1)] have 1: "cbor_byte buf (Some p) = Some (of_nat (n div 256))" "drop (Suc p) buf = of_nat n # r" by auto
  from drop_byte [OF 1(2)] 1(1) assms(2) show ?thesis
    by (simp add: be16_def shift_def byte_or_0_def unat_of_nat)
qed

lemma be32_at:
  assumes "drop p buf = of_nat (n div 16777216) # of_nat (n div 65536) # of_nat (n div 256) # of_nat n # r" "n < 2 ^ 32"
  shows "be32 buf (Some p) = n \<and> drop (Suc (Suc (Suc (Suc p)))) buf = r"
proof -
  from drop_byte [OF assms(1)] have 1: "cbor_byte buf (Some p) = Some (of_nat (n div 16777216))" "drop (Suc p) buf = of_nat (n div 65536) # of_nat (n div 256) # of_nat n # r" by auto
  from drop_byte [OF 1(2)] have 2: "cbor_byte buf (Some (Suc p)) = Some (of_nat (n div 65536))" "drop (Suc (Suc p)) buf = of_nat (n div 256) # of_nat n # r" by auto
  from drop_byte [OF 2(2)] have 3: "cbor_byte buf (Some (Suc (Suc p))) = Some (of_nat (n div 256))" "drop (Suc (Suc (Suc p))) buf = of_nat n # r" by auto
  from drop_byte [OF 3(2)] have 4: "cbor_byte buf (Some (Suc (Suc (Suc p)))) = Some (of_nat n)" "drop (Suc (Suc (Suc (Suc p)))) buf = r" by auto
  have byte: "unat (of_nat k :: byte) = k mod 256" for k by (simp add: unat_of_nat)
  have "n div 256 div 256 = n div 65536" "n div 65536 div 256 = n div 16777216" by (simp_all add: div_mult2_eq [symmetric])
  moreover have "C * 256 + d = n \<Longrightarrow> B * 256 + c = C \<Longrightarrow> A * 256 + b = B \<Longrightarrow> 65536 * (256 * A + b) + (256 * c + d) = n"
    for A B C b c d :: nat by simp
  ultimately have "65536 * (256 * (n div 16777216) + n div 65536 mod 256) + (256 * (n div 256 mod 256) + n mod 256) = n"
    using div_mult_mod_eq [of n 256] div_mult_mod_eq [of "n div 256" 256] div_mult_mod_eq [of "n div 65536" 256] by metis
  moreover have "n div 16777216 < 256" using assms(2) by simp
  ultimately show ?thesis using 1 2 3 4 by (simp add: be32_def be16_def shift_def byte_or_0_def byte)
qed

lemma read_head:
  assumes "drop p buf = cbor_head major n @ r" "major < 8" "n < 2 ^ 32"
  shows "unat (byte_or_0 buf (Some p)) div 32 = major \<and>
    readLen buf (unat (byte_or_0 buf (Some p)) mod 32) (shift 1 (Some p)) = Inr (Some n, Some (p + length (cbor_head major n))) \<and>
    drop (p + length (cbor_head major n)) buf = r"
proof -
  consider "n < 24" | "24 \<le> n" "n < 256" | "256 \<le> n" "n < 65536" | "65536 \<le> n" by linarith
  then show ?thesis
  proof cases
    case 1
    with assms(1) have "drop p buf = initial_byte major n # r" by (simp add: cbor_head_def)
    from drop_byte [OF this] 1 assms(2) show ?thesis
      by (simp add: byte_or_0_def unat_initial readLen_def cbor_head_def shift_def)
  next
    case 2
    with assms(1) have d: "drop p buf = initial_byte major 24 # of_nat n # r" by (simp add: cbor_head_def)
    from drop_byte [OF this] have 1: "cbor_byte buf (Some p) = Some (initial_byte major 24)" "drop (Suc p) buf = of_nat n # r" by auto
    from drop_byte [OF 1(2)] 1 2 assms(2) show ?thesis
      by (simp add: byte_or_0_def unat_initial unat_of_nat readLen_def cbor_head_def shift_def)
  next
    case 3
    with assms(1) have "drop p buf = initial_byte major 25 # of_nat (n div 256) # of_nat n # r" by (simp add: cbor_head_def)
    from drop_byte [OF this] have 1: "cbor_byte buf (Some p) = Some (initial_byte major 25)" "drop (Suc p) buf = of_nat (n div 256) # of_nat n # r" by auto
    from be16_at [OF 1(2)] 1 3 assms(2) show ?thesis
      by (simp add: byte_or_0_def unat_initial readLen_def cbor_head_def shift_def)
  next
    case 4
    with assms(1) have "drop p buf = initial_byte major 26 # of_nat (n div 16777216) # of_nat (n div 65536) # of_nat (n div 256) # of_nat n # r"
      by (simp add: cbor_head_def)
    from drop_byte [OF this] have 1: "cbor_byte buf (Some p) = Some (initial_byte major 26)"
      "drop (Suc p) buf = of_nat (n div 16777216) # of_nat (n div 65536) # of_nat (n div 256) # of_nat n # r" by auto
    from be32_at [OF 1(2) assms(3)] 1 4 assms(2) show ?thesis
      by (simp add: byte_or_0_def unat_initial readLen_def cbor_head_def shift_def)
  qed
qed

lemma same_key_eq: "same_key k k' \<Longrightarrow> k = k'"
  by (induction k k' rule: same_key.induct) simp_all

lemma set_key_new: "k \<notin> fst ` set acc \<Longrightarrow> set_key k v acc = acc @ [(k, v)]"
  by (induction acc) (auto dest: same_key_eq)

lemma pair_up_flat:
  "distinct (map fst (acc @ kvs)) \<Longrightarrow> pair_up (concat (map (\<lambda>(k, v). [k, v]) kvs)) acc = acc @ kvs"
proof (induction kvs arbitrary: acc)
  case (Cons kv kvs)
  obtain k v where "kv = (k, v)" by fastforce
  with Cons.IH [of "acc @ [(k, v)]"] Cons.prems show ?case by (auto simp: set_key_new)
qed simp

lemma decode_items_written:
  assumes "\<And>v p rest. v \<in> set vs \<Longrightarrow> drop p buf = enc v @ rest \<Longrightarrow> left buf (Some p) \<le> g \<Longrightarrow>
      dec (Some p) = Some (Inr (v, Some (p + length (enc v))))"
  shows "drop p buf = concat (map enc vs) @ rest \<Longrightarrow> left buf (Some p) \<le> g \<Longrightarrow>
      decode_items dec (length vs) (Some p) = Some (Inr (vs, Some (p + length (concat (map enc vs)))))"
  using assms
proof (induction vs arbitrary: p)
  case (Cons v vs)
  from Cons.prems(1) have d: "drop p buf = enc v @ concat (map enc vs) @ rest" by simp
  have "drop (p + length (enc v)) buf = concat (map enc vs) @ rest"
    using arg_cong [OF d, of "drop (length (enc v))"] by (simp add: add.commute)
  moreover have "left buf (Some (p + length (enc v))) \<le> g" using Cons.prems(2) by (simp add: left_def)
  ultimately have "decode_items dec (length vs) (Some (p + length (enc v))) =
      Some (Inr (vs, Some (p + length (enc v) + length (concat (map enc vs)))))"
    by (rule Cons.IH) (simp add: Cons.prems(3))
  then show ?case using Cons.prems(3) [OF _ d Cons.prems(2)] by simp
qed simp

lemma drop_past: "drop p buf = xs @ ys \<Longrightarrow> drop (p + length xs) buf = ys"
  using drop_drop [of "length xs" p buf] by (simp add: add.commute)

lemma left_past: "left buf (Some (p + Suc k)) \<le> g" if "left buf (Some p) \<le> Suc g"
  using that by (simp add: left_def)

lemma cbor_head_nonempty: "\<exists>k. length (cbor_head major n) = Suc k"
  by (simp add: cbor_head_def)

lemma decode_written_head:
  assumes "drop p buf = cbor_head major n @ r" "major < 6" "n < 2 ^ 32"
  shows "decode_one utf8 dec buf (Some p) =
    (let np = p + length (cbor_head major n) in
     if major = 0 then Some (Inr (CbInt (int n), Some np))
     else if major = 1 then Some (Inr (CbInt (-1 - int n), Some np))
     else if major = 2 then Some (Inr (CbBytes (take n r), Some (np + n)))
     else if major = 3 then Some (Inr (CbText (utf8 (take n r)), Some (np + n)))
     else if major = 4 then
       (case decode_items dec n (Some np) of
          None \<Rightarrow> None | Some (Inl e) \<Rightarrow> Some (Inl e) | Some (Inr (vs, q)) \<Rightarrow> Some (Inr (CbArray vs, q)))
     else
       (case decode_items dec (2 * n) (Some np) of
          None \<Rightarrow> None | Some (Inl e) \<Rightarrow> Some (Inl e) | Some (Inr (vs, q)) \<Rightarrow> Some (Inr (CbMap (pair_up vs []), q))))"
proof -
  from assms(2) have "major < 8" by simp
  from read_head [OF assms(1) this assms(3)] assms(2) show ?thesis
    by (elim conjE) (simp add: decode_one_def Let_def subarray_def advance_def length_of_def shift_def, auto)
qed

definition written :: "(byte list \<Rightarrow> string) \<Rightarrow> (string \<Rightarrow> byte list) \<Rightarrow> byte list \<Rightarrow> nat \<Rightarrow> cbor \<Rightarrow> bool" where
  "written utf8 utf8_of buf g v \<longleftrightarrow> (\<forall>p rest. drop p buf = cbor_bytes utf8_of v @ rest \<longrightarrow> left buf (Some p) \<le> g \<longrightarrow>
     decode_cbor utf8 (Suc g) buf (Some p) = Some (Inr (v, Some (p + length (cbor_bytes utf8_of v)))))"

lemma items_written:
  assumes "\<And>v. v \<in> set vs \<Longrightarrow> written utf8 utf8_of buf g v"
    and "drop p buf = concat (map (cbor_bytes utf8_of) vs) @ rest" "left buf (Some p) \<le> g"
  shows "decode_items (decode_cbor utf8 (Suc g) buf) (length vs) (Some p) =
    Some (Inr (vs, Some (p + length (concat (map (cbor_bytes utf8_of) vs)))))"
  by (rule decode_items_written [OF _ assms(2,3)]) (use assms(1) in \<open>auto simp: written_def\<close>)

lemma written_Suc:
  assumes "\<And>p rest. drop p buf = cbor_bytes utf8_of v @ rest \<Longrightarrow> left buf (Some p) \<le> g \<Longrightarrow>
     decode_one utf8 (decode_cbor utf8 g buf) buf (Some p) = Some (Inr (v, Some (p + length (cbor_bytes utf8_of v))))"
  shows "written utf8 utf8_of buf g v"
  using assms by (simp add: written_def)

lemma left_after_head:
  assumes "drop p buf = cbor_head major n @ r" "left buf (Some p) \<le> g"
  obtains k where "g = Suc k" "left buf (Some (p + length (cbor_head major n))) \<le> k" "drop (p + length (cbor_head major n)) buf = r"
proof -
  obtain j where j: "length (cbor_head major n) = Suc j" using cbor_head_nonempty by blast
  have "length (drop p buf) = Suc j + length r" using assms(1) j by simp
  then have len: "length buf = p + (Suc j + length r)" by (simp add: length_drop)
  with assms(2) obtain k where k: "g = Suc k" by (cases g) (simp_all add: left_def)
  show ?thesis
    by (rule that [OF k]) (use assms k j len drop_past [OF assms(1)] in \<open>simp_all add: left_def\<close>)
qed

lemma flat_bytes:
  "concat (map (cbor_bytes utf8_of) (concat (map (\<lambda>(k, v). [k, v]) kvs))) = concat (map (\<lambda>(k, v). cbor_bytes utf8_of k @ cbor_bytes utf8_of v) kvs)"
  by (induction kvs) auto

lemma flat_length: "length (concat (map (\<lambda>(k, v). [k, v]) kvs)) = 2 * length kvs"
  by (induction kvs) auto

lemma cbor_written:
  "\<forall>s. utf8 (utf8_of s) = s \<Longrightarrow> cbor_ok utf8_of v \<Longrightarrow> written utf8 utf8_of buf g v"
proof (induction utf8_of v arbitrary: g rule: cbor_bytes.induct)
  case (1 utf8_of i)
  show ?case
  proof (rule written_Suc)
    fix p rest assume d: "drop p buf = cbor_bytes utf8_of (CbInt i) @ rest" and g: "left buf (Some p) \<le> g"
    show "decode_one utf8 (decode_cbor utf8 g buf) buf (Some p) = Some (Inr (CbInt i, Some (p + length (cbor_bytes utf8_of (CbInt i)))))"
    proof (cases "0 \<le> i")
      case True
      with d have "drop p buf = cbor_head 0 (nat i) @ rest" by simp
      from decode_written_head [OF this] 1 True show ?thesis by (simp add: Let_def nat_less_iff)
    next
      case False
      with d have "drop p buf = cbor_head 1 (nat (-1 - i)) @ rest" by simp
      from decode_written_head [OF this] 1 False show ?thesis by (simp add: Let_def nat_less_iff)
    qed
  qed
next
  case (2 utf8_of bs)
  show ?case by (rule written_Suc) (use 2 in \<open>simp add: decode_written_head Let_def\<close>)
next
  case (3 utf8_of s)
  show ?case by (rule written_Suc) (use 3 in \<open>simp add: decode_written_head Let_def\<close>)
next
  case (4 utf8_of vs)
  show ?case
  proof (rule written_Suc)
    fix p rest assume d: "drop p buf = cbor_bytes utf8_of (CbArray vs) @ rest" and g: "left buf (Some p) \<le> g"
    then have h: "drop p buf = cbor_head 4 (length vs) @ concat (map (cbor_bytes utf8_of) vs) @ rest" by simp
    obtain k where k: "g = Suc k" "left buf (Some (p + length (cbor_head 4 (length vs)))) \<le> k"
      "drop (p + length (cbor_head 4 (length vs))) buf = concat (map (cbor_bytes utf8_of) vs) @ rest"
      using left_after_head [OF h g] by metis
    have "written utf8 utf8_of buf k v" if "v \<in> set vs" for v
      using 4 that by (auto simp: list_all_iff)
    from items_written [OF this k(3,2)] decode_written_head [OF h] 4 k(1) show
      "decode_one utf8 (decode_cbor utf8 g buf) buf (Some p) = Some (Inr (CbArray vs, Some (p + length (cbor_bytes utf8_of (CbArray vs)))))"
      by (simp add: Let_def add.assoc)
  qed
next
  case (5 utf8_of kvs)
  let ?flat = "concat (map (\<lambda>(k, v). [k, v]) kvs)"
  show ?case
  proof (rule written_Suc)
    fix p rest assume d: "drop p buf = cbor_bytes utf8_of (CbMap kvs) @ rest" and g: "left buf (Some p) \<le> g"
    then have h: "drop p buf = cbor_head 5 (length kvs) @ concat (map (cbor_bytes utf8_of) ?flat) @ rest" by (simp add: flat_bytes)
    obtain k where k: "g = Suc k" "left buf (Some (p + length (cbor_head 5 (length kvs)))) \<le> k"
      "drop (p + length (cbor_head 5 (length kvs))) buf = concat (map (cbor_bytes utf8_of) ?flat) @ rest"
      using left_after_head [OF h g] by metis
    have "written utf8 utf8_of buf k v" if "v \<in> set ?flat" for v
      using 5 that by (auto simp: list_all_iff)
    from items_written [OF this k(3,2)] decode_written_head [OF h] 5(4) k(1) pair_up_flat [of "[]" kvs] show
      "decode_one utf8 (decode_cbor utf8 g buf) buf (Some p) = Some (Inr (CbMap kvs, Some (p + length (cbor_bytes utf8_of (CbMap kvs)))))"
      by (simp add: Let_def add.assoc flat_length flat_bytes)
  qed
qed simp_all

lemma cbor_reads:
  assumes "\<forall>s. utf8 (utf8_of s) = s" "cbor_ok utf8_of v" "drop p buf = cbor_bytes utf8_of v @ rest" "p \<le> length buf"
  shows "decodeCbor utf8 buf p = Inr (v, Some (p + length (cbor_bytes utf8_of v)))"
proof -
  have "left buf (Some p) \<le> Suc (length buf)" by (simp add: left_def)
  with cbor_written [OF assms(1,2), of buf "Suc (length buf)"] assms(3)
  have "decode_cbor utf8 (length buf + 2) buf (Some p) = Some (Inr (v, Some (p + length (cbor_bytes utf8_of v))))"
    unfolding written_def by (simp del: decode_cbor.simps)
  then show ?thesis unfolding decodeCbor_def by (simp only: option.case)
qed

text \<open>
  What is written is read back: from any position of any buffer, an item in the shortest encoding of RFC 8949 is decoded into that item,
  and the position after it is the end of its encoding. Texts are encoded by any inverse of the UTF-8 decoder.
\<close>

theorem cbor_roundtrip:
  assumes "\<forall>s. utf8 (utf8_of s) = s" "cbor_ok utf8_of v"
  shows "decodeCbor utf8 (pre @ cbor_bytes utf8_of v @ rest) (length pre) = Inr (v, Some (length pre + length (cbor_bytes utf8_of v)))"
  by (rule cbor_reads [OF assms]) simp_all

text \<open>A decoder to run the theorems on: text is its bytes.\<close>

definition demo_utf8 :: "byte list \<Rightarrow> string" where
  "demo_utf8 bs = map (\<lambda>b. char_of (unat b)) bs"

definition demo_utf8_of :: "string \<Rightarrow> byte list" where
  "demo_utf8_of s = map (\<lambda>c. of_nat (of_char c)) s"

lemma demo_utf8_inverse: "demo_utf8 (demo_utf8_of s) = s"
proof -
  have "unat (of_nat (of_char c) :: byte) = (of_char c :: nat)" for c :: char
    using nat_of_char_less_256 [of c] by (simp add: unat_of_nat)
  then show ?thesis by (simp add: demo_utf8_def demo_utf8_of_def comp_def)
qed

theorem cbor_roundtrip_witness:
  "decodeCbor demo_utf8 (7 # cbor_bytes demo_utf8_of (CbMap [(CbInt (-7), CbArray [CbInt 300, CbText ''a'']), (CbText ''k'', CbBytes [9])]) @ [8]) 1 =
     Inr (CbMap [(CbInt (-7), CbArray [CbInt 300, CbText ''a'']), (CbText ''k'', CbBytes [9])], Some 13)"
  using cbor_roundtrip [of demo_utf8 demo_utf8_of "CbMap [(CbInt (-7), CbArray [CbInt 300, CbText ''a'']), (CbText ''k'', CbBytes [9])]" "[7]" "[8]",
      OF allI [OF demo_utf8_inverse]]
  by (simp add: cbor_head_def demo_utf8_of_def)

theorem cbor_decoder_terminates_witness:
  "\<exists>r. decode_cbor demo_utf8 3 [129, 24] (Some 0) = Some r \<and> (\<forall>fuel'. 2 < fuel' \<longrightarrow> decode_cbor demo_utf8 fuel' [129, 24] (Some 0) = Some r)"
  using cbor_decoder_terminates [of "[129, 24]" "Some 0" 3 demo_utf8] by (auto simp: left_def)

text \<open>
  The attestation object of a new passkey: the authenticator data holds the hash of the site, the flags, the counter, the id of the model,
  and the credential with its key.
\<close>

definition cose_key :: "byte list \<Rightarrow> byte list \<Rightarrow> cbor" where
  "cose_key x y = CbMap [(CbInt 1, CbInt 2), (CbInt 3, CbInt (-7)), (CbInt (-1), CbInt 1), (CbInt (-2), CbBytes x), (CbInt (-3), CbBytes y)]"

definition new_auth_data ::
    "(string \<Rightarrow> byte list) \<Rightarrow> byte list \<Rightarrow> byte \<Rightarrow> nat \<Rightarrow> byte list \<Rightarrow> byte list \<Rightarrow> byte list \<Rightarrow> byte list \<Rightarrow> byte list" where
  "new_auth_data utf8_of rpIdHash flags count aaguid cid x y =
     rpIdHash @ [flags, of_nat (count div 16777216), of_nat (count div 65536), of_nat (count div 256), of_nat count] @ aaguid @
     [of_nat (length cid div 256), of_nat (length cid)] @ cid @ cbor_bytes utf8_of (cose_key x y)"

definition attestation :: "byte list \<Rightarrow> cbor" where
  "attestation authData =
     CbMap [(CbText ''fmt'', CbText ''none''), (CbText ''attStmt'', CbMap []), (CbText ''authData'', CbBytes authData)]"

definition authenticator_data :: "byte list \<Rightarrow> byte \<Rightarrow> nat \<Rightarrow> byte list \<Rightarrow> byte list \<Rightarrow> byte list \<Rightarrow> byte list \<Rightarrow> bool" where
  "authenticator_data rpIdHash flags count aaguid cid x y \<longleftrightarrow>
     length rpIdHash = 32 \<and> bit flags 6 \<and> count < 2 ^ 32 \<and> length aaguid = 16 \<and> length cid < 65536 \<and> length x = 32 \<and> length y = 32"

lemma cose_key_ok: "length x = 32 \<Longrightarrow> length y = 32 \<Longrightarrow> cbor_ok utf8_of (cose_key x y) \<and> length (cbor_bytes utf8_of (cose_key x y)) = 77"
  by (simp add: cose_key_def cbor_head_def)

lemma parse_new_auth_data:
  assumes a: "authenticator_data rpIdHash flags count aaguid cid x y"
    and utf8: "\<forall>s. wa_utf8 env (utf8_of s) = s"
    and pem: "wa_jwkPem env (base64url x) (base64url y) = Inr pem"
  shows "parseAuthData env (new_auth_data utf8_of rpIdHash flags count aaguid cid x y) =
    Inr \<lparr>ad_rpIdHash = rpIdHash, ad_flags = Some flags, ad_signCount = count, ad_credentialId = Some cid, ad_publicKeyPem = Some pem\<rparr>"
proof -
  let ?d = "new_auth_data utf8_of rpIdHash flags count aaguid cid x y"
  from a have len: "length rpIdHash = 32" "length aaguid = 16" "length cid < 65536" "count < 2 ^ 32" "bit flags 6"
    and xy: "length x = 32" "length y = 32" by (simp_all add: authenticator_data_def)
  define tail where "tail = cid @ cbor_bytes utf8_of (cose_key x y)"
  define lens where "lens = of_nat (length cid div 256) # of_nat (length cid) # tail"
  define counter where "counter = of_nat (count div 16777216) # of_nat (count div 65536) # of_nat (count div 256) # of_nat count # aaguid @ lens"
  have d: "?d = rpIdHash @ flags # counter" by (simp add: new_auth_data_def counter_def lens_def tail_def)
  have "drop 32 ?d = flags # counter" using len(1) d by simp
  from drop_byte [OF this] have flags: "cbor_byte ?d (Some 32) = Some flags" and "drop 33 ?d = counter" by auto
  from be32_at [OF this(2) [unfolded counter_def] len(4)] have count: "be32 ?d (Some 33) = count" and "drop 37 ?d = aaguid @ lens" by auto
  from drop_past [OF this(2)] len(2) have "drop 53 ?d = lens" by simp
  from be16_at [OF this [unfolded lens_def] len(3)] have idlen: "be16 ?d (Some 53) = length cid" and tail: "drop 55 ?d = tail" by auto
  from drop_past [OF tail [unfolded tail_def]] have key: "drop (55 + length cid) ?d = cbor_bytes utf8_of (cose_key x y) @ []" by simp
  have "55 + length cid \<le> length ?d" using len xy cose_key_ok [OF xy, of utf8_of] by (simp add: d counter_def lens_def tail_def)
  from cbor_reads [OF utf8 conjunct1 [OF cose_key_ok [OF xy]] key this]
  have cose: "decodeCbor (wa_utf8 env) ?d (55 + length cid) = Inr (cose_key x y, Some (55 + length cid + length (cbor_bytes utf8_of (cose_key x y))))" .
  have "coseToPublicKey env (cose_key x y) = Inr pem"
    by (simp add: coseToPublicKey_def cose_key_def item_get_def pem)
  moreover have "subarray ?d (Some 55) (Some (length cid)) = cid" using tail by (simp add: subarray_def tail_def)
  moreover have "take 32 ?d = rpIdHash" using len(1) d by simp
  ultimately show ?thesis
    using flags count idlen cose len(5) by (simp add: parseAuthData_def Let_def byte_or_0_def)
qed

lemma new_auth_data_length:
  assumes "authenticator_data rpIdHash flags count aaguid cid x y"
  shows "length (new_auth_data utf8_of rpIdHash flags count aaguid cid x y) = 132 + length cid"
  using assms cose_key_ok [of x y utf8_of] by (simp add: authenticator_data_def new_auth_data_def)

text \<open>
  C14: A passkey is registered as the authenticator made it: from the attestation object of a new ES256 credential and client data with the
  expected type, challenge and origin, \<^verbatim>\<open>verifyRegistration\<close> takes the credential's id, its key and its counter. The hash of the
  site and the flags are free but for the bit that announces a credential: neither the site nor the user's presence is checked.
\<close>

theorem registration_reads_credential:
  assumes utf8: "\<forall>s. wa_utf8 env (utf8_of s) = s \<and> length (utf8_of s) \<le> 4 * length s"
    and a: "authenticator_data rpIdHash flags count aaguid cid x y"
    and pem: "wa_jwkPem env (base64url x) (base64url y) = Inr pem" "pem \<noteq> ''''"
    and obj: "wa_fromBase64url env (ri_attestationObject input) =
      cbor_bytes utf8_of (attestation (new_auth_data utf8_of rpIdHash flags count aaguid cid x y))"
    and client: "parse_client_data env (ri_clientDataJSON input) = Inr (JsObject kvs)"
      "map_of kvs ''type'' = Some (JsString ''webauthn.create'')" "map_of kvs ''challenge'' = Some (JsString (ri_expectedChallenge input))"
      "ri_expectedOrigin input = None \<or> map_of kvs ''origin'' = map_option JsString (ri_expectedOrigin input)"
  shows "verifyRegistration env input = Inr \<lparr>rr_credentialId = base64url cid, rr_publicKeyPem = pem, rr_signCount = count\<rparr>"
proof -
  let ?d = "new_auth_data utf8_of rpIdHash flags count aaguid cid x y"
  from utf8 have inv: "\<forall>s. wa_utf8 env (utf8_of s) = s" and short: "length (utf8_of s) < 2 ^ 32" if "length s < 20" for s
    using that by (auto intro: le_less_trans)
  have inv: "\<forall>s. wa_utf8 env (utf8_of s) = s" using utf8 by blast
  have "length cid < 65536" using a by (simp add: authenticator_data_def)
  then have "cbor_ok utf8_of (attestation ?d)"
    using short [of "''fmt''"] short [of "''none''"] short [of "''attStmt''"] short [of "''authData''"] new_auth_data_length [OF a, of utf8_of]
    by (simp add: attestation_def)
  from cbor_reads [OF inv this, of 0 "cbor_bytes utf8_of (attestation ?d)" "[]"]
  have "decodeCbor (wa_utf8 env) (cbor_bytes utf8_of (attestation ?d)) 0 = Inr (attestation ?d, Some (length (cbor_bytes utf8_of (attestation ?d))))"
    by simp
  moreover have "check_client_data env ''webauthn.create'' (ri_clientDataJSON input) (ri_expectedChallenge input) (ri_expectedOrigin input) = Inr ()"
    using client by (auto simp: check_client_data_def json_get_def truthy_def split: option.splits)
  moreover have "item_get ''att'' (CbText ''authData'') (attestation ?d) = Inr (CbBytes ?d)"
    by (simp add: item_get_def attestation_def)
  ultimately show ?thesis
    using parse_new_auth_data [OF a inv pem(1)] pem(2) obj by (simp add: verifyRegistration_def truthy_def)
qed

lemma demo_utf8_of_inverse: "demo_utf8_of (demo_utf8 bs) = bs"
proof -
  have "(of_nat (of_char (char_of (unat b) :: char)) :: byte) = b" for b :: byte
  proof -
    have "unat b < 2 ^ LENGTH(8)" by (rule unsigned_less)
    then have "unat b < 256" by simp
    then show ?thesis by simp
  qed
  then show ?thesis by (simp add: demo_utf8_def demo_utf8_of_def comp_def)
qed

text \<open>An environment to run the theorems on: one page, whose client data is fixed, and a key that has signed everything.\<close>

definition demo_client :: "string \<Rightarrow> json" where
  "demo_client ty = JsObject [(''type'', JsString ty), (''challenge'', JsString ''c''), (''origin'', JsString ''https://hub'')]"

definition demo_webauthn :: "string \<Rightarrow> webauthn_env" where
  "demo_webauthn ty = \<lparr>wa_fromBase64url = demo_utf8_of, wa_utf8 = demo_utf8, wa_parse = (\<lambda>s. Inr (demo_client ty)), wa_sha256 = id,
     wa_verify = (\<lambda>msg pem sig. Inr (sig = [1])), wa_jwkPem = (\<lambda>x y. Inr ''pem'')\<rparr>"

definition demo_registration :: registration_input where
  "demo_registration = \<lparr>ri_clientDataJSON = ''j'',
     ri_attestationObject = demo_utf8 (cbor_bytes demo_utf8_of (attestation
       (new_auth_data demo_utf8_of (replicate 32 7) 64 5 (replicate 16 0) [1, 2, 3] (replicate 32 8) (replicate 32 9)))),
     ri_expectedChallenge = ''c'', ri_expectedOrigin = Some ''https://hub''\<rparr>"

theorem registration_reads_credential_witness:
  "verifyRegistration (demo_webauthn ''webauthn.create'') demo_registration =
     Inr \<lparr>rr_credentialId = base64url [1, 2, 3], rr_publicKeyPem = ''pem'', rr_signCount = 5\<rparr>"
proof -
  have "authenticator_data (replicate 32 7) 64 5 (replicate 16 0) [1, 2, 3] (replicate 32 8) (replicate 32 9)"
    by (simp add: authenticator_data_def)
  moreover have "\<forall>s. wa_utf8 (demo_webauthn ''webauthn.create'') (demo_utf8_of s) = s \<and> length (demo_utf8_of s) \<le> 4 * length s"
    by (simp add: demo_webauthn_def demo_utf8_inverse) (simp add: demo_utf8_of_def)
  ultimately show ?thesis
    using registration_reads_credential [of "demo_webauthn ''webauthn.create''" demo_utf8_of "replicate 32 7" 64 5 "replicate 16 0" "[1, 2, 3]"
        "replicate 32 8" "replicate 32 9" "''pem''" demo_registration
        "[(''type'', JsString ''webauthn.create''), (''challenge'', JsString ''c''), (''origin'', JsString ''https://hub'')]"]
    by (simp add: demo_registration_def demo_webauthn_def demo_utf8_of_inverse parse_client_data_def demo_client_def)
qed

text \<open>
  An accepted assertion is authentic: the client data is that of a login, names the expected challenge and, where an origin is configured,
  that origin; the signature verifies under the stored key over the authenticator data and the hash of those very client data; and the
  counter it reports is the one signed.
\<close>

theorem accepted_assertion_authentic:
  assumes "verifyAuthentication env input = Inr n"
  shows "\<exists>kvs. parse_client_data env (ai_clientDataJSON input) = Inr (JsObject kvs) \<and>
    map_of kvs ''type'' = Some (JsString ''webauthn.get'') \<and>
    map_of kvs ''challenge'' = Some (JsString (ai_expectedChallenge input)) \<and>
    (\<forall>orig. ai_expectedOrigin input = Some orig \<longrightarrow> orig \<noteq> '''' \<longrightarrow> map_of kvs ''origin'' = Some (JsString orig)) \<and>
    wa_verify env (wa_fromBase64url env (ai_authenticatorData input) @ wa_sha256 env (wa_fromBase64url env (ai_clientDataJSON input)))
      (ai_publicKeyPem input) (wa_fromBase64url env (ai_signature input)) = Inr True \<and>
    n = be32 (wa_fromBase64url env (ai_authenticatorData input)) (Some 33)"
proof -
  have counter: "ad_signCount parsed = be32 d (Some 33)" if "parseAuthData env d = Inr parsed" for d parsed
    using that by (auto simp: parseAuthData_def Let_def split: if_splits sum.splits)
  from assms have check: "check_client_data env ''webauthn.get'' (ai_clientDataJSON input) (ai_expectedChallenge input) (ai_expectedOrigin input) = Inr ()"
    by (auto simp: verifyAuthentication_def split: sum.splits)
  then obtain j where j: "parse_client_data env (ai_clientDataJSON input) = Inr j" "json_get ''type'' j = Inr (Some (JsString ''webauthn.get''))"
    "json_get ''challenge'' j = Inr (Some (JsString (ai_expectedChallenge input)))"
    "\<And>orig. truthy (ai_expectedOrigin input) = Some orig \<Longrightarrow> json_get ''origin'' j = Inr (Some (JsString orig))"
    by (fastforce simp: check_client_data_def split: sum.splits if_splits option.splits)
  then obtain kvs where kvs: "j = JsObject kvs" by (cases j) (simp_all add: json_get_def)
  from assms check have "wa_verify env (wa_fromBase64url env (ai_authenticatorData input) @ wa_sha256 env (wa_fromBase64url env (ai_clientDataJSON input)))
      (ai_publicKeyPem input) (wa_fromBase64url env (ai_signature input)) = Inr True"
    and "\<exists>parsed. parseAuthData env (wa_fromBase64url env (ai_authenticatorData input)) = Inr parsed \<and> n = ad_signCount parsed"
    by (auto simp: verifyAuthentication_def Let_def split: sum.splits if_splits)
  with j kvs counter show ?thesis by (auto simp: json_get_def truthy_def)
qed

definition demo_assertion :: authentication_input where
  "demo_assertion = \<lparr>ai_clientDataJSON = ''j'', ai_authenticatorData = demo_utf8 (replicate 33 0 @ [0, 0, 0, 9]), ai_signature = [char_of (1 :: nat)],
     ai_publicKeyPem = ''pem'', ai_expectedChallenge = ''c'', ai_expectedOrigin = None\<rparr>"

lemma demo_assertion_accepted: "verifyAuthentication (demo_webauthn ''webauthn.get'') demo_assertion = Inr 9"
proof -
  have "demo_utf8_of [char_of (1 :: nat)] = [1]" by (simp add: demo_utf8_of_def)
  then show ?thesis
    by (simp add: verifyAuthentication_def demo_assertion_def demo_webauthn_def check_client_data_def parse_client_data_def demo_client_def
        json_get_def truthy_def demo_utf8_of_inverse parseAuthData_def byte_or_0_def cbor_byte_def be32_def be16_def shift_def Let_def nth_append)
qed

theorem accepted_assertion_authentic_witness:
  "wa_verify (demo_webauthn ''webauthn.get'') (replicate 33 0 @ [0, 0, 0, 9] @ demo_utf8_of ''j'') ''pem'' [1] = Inr True"
  using accepted_assertion_authentic [OF demo_assertion_accepted]
  by (simp add: demo_assertion_def demo_webauthn_def)

end
