(* ===== verification/Passkeys.thy ===== *)
theory Passkeys
  imports Webauthn Identity_Accounts
begin

text \<open>
  The passkey store of \<^verbatim>\<open>services/identity/src/store.ts\<close> (\<^verbatim>\<open>InMemoryWebAuthnStore\<close>) and the passkey operations of
  \<^verbatim>\<open>IdentityService\<close>: the two ceremonies with their pending challenges, the list and the removal. A passkey login opens a
  session as the other logins do. Each operation reads the clock once, as in \<^theory_text>\<open>Identity_Service\<close>.
\<close>

section \<open>The store\<close>

record webauthn_credential =
  wc_id :: string
  wc_userId :: user_id
  wc_credentialId :: string
  wc_publicKeyPem :: string
  wc_signCount :: nat
  wc_name :: string
  wc_createdAt :: timestamp
  wc_lastUsedAt :: "timestamp option"

text \<open>\<^verbatim>\<open>WebAuthnCredentialMeta\<close> leaves out the key.\<close>

record webauthn_meta =
  wm_id :: string
  wm_userId :: user_id
  wm_credentialId :: string
  wm_signCount :: nat
  wm_name :: string
  wm_createdAt :: timestamp
  wm_lastUsedAt :: "timestamp option"

definition passkey_meta :: "webauthn_credential \<Rightarrow> webauthn_meta" where
  "passkey_meta c = \<lparr>wm_id = wc_id c, wm_userId = wc_userId c, wm_credentialId = wc_credentialId c, wm_signCount = wc_signCount c,
     wm_name = wc_name c, wm_createdAt = wc_createdAt c, wm_lastUsedAt = wc_lastUsedAt c\<rparr>"

type_synonym passkey_store = "(string, webauthn_credential) jsmap"

definition wa_create :: "webauthn_credential \<Rightarrow> passkey_store \<Rightarrow> passkey_store" where
  "wa_create c m = jset (wc_id c) c m"

definition findByCredentialId :: "string \<Rightarrow> passkey_store \<Rightarrow> webauthn_credential option" where
  "findByCredentialId i m = find (\<lambda>c. wc_credentialId c = i) (jvalues m)"

definition wa_listByUser :: "user_id \<Rightarrow> passkey_store \<Rightarrow> webauthn_meta list" where
  "wa_listByUser uid m = map passkey_meta (sort_key (\<lambda>c. - wc_createdAt c) (filter (\<lambda>c. wc_userId c = uid) (jvalues m)))"

definition wa_get :: "user_id \<Rightarrow> string \<Rightarrow> passkey_store \<Rightarrow> webauthn_credential option" where
  "wa_get uid i m = (case jget m i of None \<Rightarrow> None | Some c \<Rightarrow> if wc_userId c = uid then Some c else None)"

definition updateSignCount :: "string \<Rightarrow> nat \<Rightarrow> timestamp \<Rightarrow> passkey_store \<Rightarrow> passkey_store" where
  "updateSignCount i n t m =
     (case jget m i of None \<Rightarrow> m | Some c \<Rightarrow> jset i (c\<lparr>wc_signCount := n, wc_lastUsedAt := Some t\<rparr>) m)"

definition wa_remove :: "user_id \<Rightarrow> string \<Rightarrow> passkey_store \<Rightarrow> passkey_store" where
  "wa_remove uid i m = (case jget m i of None \<Rightarrow> m | Some c \<Rightarrow> if wc_userId c = uid then jdel i m else m)"

section \<open>The ceremonies\<close>

record relying_party =
  rp_rpId :: string
  rp_rpName :: string
  rp_origin :: "string option"

definition default_rp :: relying_party where
  "default_rp = \<lparr>rp_rpId = ''localhost'', rp_rpName = ''Supreme OS'', rp_origin = None\<rparr>"

record reg_challenge =
  rc_challenge :: string
  rc_expiresAt :: nat

record 'r passkeys =
  pk_identity :: "'r identity"
  pk_store :: passkey_store
  pk_regChallenges :: "(user_id, reg_challenge) jsmap"
  pk_authChallenges :: "(string, nat) jsmap"

definition WEBAUTHN_TTL_MS :: nat where
  "WEBAUTHN_TTL_MS = 5 * 60 * 1000"

definition listPasskeys :: "user_id \<Rightarrow> 'r passkeys \<Rightarrow> webauthn_meta list" where
  "listPasskeys uid s = wa_listByUser uid (pk_store s)"

definition removePasskey :: "user_id \<Rightarrow> string \<Rightarrow> ('r passkeys, unit) eff" where
  "removePasskey uid i = (\<lambda>s.
     case wa_get uid i (pk_store s) of
       None \<Rightarrow> throw_error Not_found ''passkey not found'' s
     | Some _ \<Rightarrow> (Inr (), s\<lparr>pk_store := wa_remove uid i (pk_store s)\<rparr>))"

record creation_options =
  co_challenge :: string
  co_rp :: "string \<times> string"
  co_user :: "string \<times> string \<times> string"
  co_algorithms :: "int list"
  co_residentKey :: string
  co_userVerification :: string
  co_exclude :: "string list"
  co_timeout :: nat

definition beginPasskeyRegistration ::
    "'r identity_env \<Rightarrow> relying_party \<Rightarrow> nat \<Rightarrow> user_id \<Rightarrow> ('r passkeys, creation_options) eff" where
  "beginPasskeyRegistration env rp now uid = (\<lambda>s.
     case getUser uid (pk_identity s) of
       Inl e \<Rightarrow> (Inl e, s)
     | Inr user \<Rightarrow>
       (let (bs, i1) = draw_bytes env 32 (pk_identity s);
            challenge = newChallenge bs;
            pending = \<lparr>rc_challenge = challenge, rc_expiresAt = now + WEBAUTHN_TTL_MS\<rparr>
        in (Inr \<lparr>co_challenge = challenge, co_rp = (rp_rpId rp, rp_rpName rp),
                 co_user = (base64url (map (\<lambda>c. of_nat (of_char c)) uid), u_email user, u_displayName user),
                 co_algorithms = [-7], co_residentKey = ''preferred'', co_userVerification = ''preferred'',
                 co_exclude = map wm_credentialId (wa_listByUser uid (pk_store s)), co_timeout = 60000\<rparr>,
            s\<lparr>pk_identity := i1, pk_regChallenges := jset uid pending (pk_regChallenges s)\<rparr>)))"

record registration_answer =
  ra_name :: "string option"
  ra_clientDataJSON :: string
  ra_attestationObject :: string

definition passkey_name :: "string option \<Rightarrow> string" where
  "passkey_name name = (case truthy (map_option trim name) of None \<Rightarrow> ''Passkey'' | Some n \<Rightarrow> n)"

definition finishPasskeyRegistration ::
    "'r identity_env \<Rightarrow> webauthn_env \<Rightarrow> relying_party \<Rightarrow> nat \<Rightarrow> user_id \<Rightarrow> registration_answer \<Rightarrow> ('r passkeys, webauthn_meta) eff" where
  "finishPasskeyRegistration env wa rp now uid input = (\<lambda>s.
     let s1 = s\<lparr>pk_regChallenges := jdel uid (pk_regChallenges s)\<rparr> in
     case jget (pk_regChallenges s) uid of
       None \<Rightarrow> throw_error Unauthorized (''registration challenge expired '' @ em_dash @ '' try again'') s1
     | Some pending \<Rightarrow>
       (if rc_expiresAt pending < now
        then throw_error Unauthorized (''registration challenge expired '' @ em_dash @ '' try again'') s1
        else
          (case verifyRegistration wa \<lparr>ri_clientDataJSON = ra_clientDataJSON input, ri_attestationObject = ra_attestationObject input,
                  ri_expectedChallenge = rc_challenge pending, ri_expectedOrigin = rp_origin rp\<rparr> of
             Inl e \<Rightarrow> throw_error Validation_failed (error_message e) s1
           | Inr reg \<Rightarrow>
             (let (i, id1) = draw_id env IdSession now (pk_identity s1);
                  cred = \<lparr>wc_id = i, wc_userId = uid, wc_credentialId = rr_credentialId reg, wc_publicKeyPem = rr_publicKeyPem reg,
                          wc_signCount = rr_signCount reg, wc_name = passkey_name (ra_name input),
                          wc_createdAt = int now, wc_lastUsedAt = None\<rparr>
              in (Inr (passkey_meta cred), s1\<lparr>pk_identity := id1, pk_store := wa_create cred (pk_store s1)\<rparr>)))))"

definition beginPasskeyAuthentication ::
    "'r identity_env \<Rightarrow> relying_party \<Rightarrow> nat \<Rightarrow> 'r passkeys \<Rightarrow> (string \<times> string \<times> nat) \<times> 'r passkeys" where
  "beginPasskeyAuthentication env rp now s =
     (let (bs, i1) = draw_bytes env 32 (pk_identity s); challenge = newChallenge bs
      in ((challenge, rp_rpId rp, 60000),
          s\<lparr>pk_identity := i1, pk_authChallenges := jset challenge (now + WEBAUTHN_TTL_MS) (pk_authChallenges s)\<rparr>))"

record login_answer =
  la_credentialId :: string
  la_clientDataJSON :: string
  la_authenticatorData :: string
  la_signature :: string

text \<open>
  The challenge that the client data names: any JSON value, and only a string can be a key of the pending ones. The client data is parsed
  here outside of any \<^verbatim>\<open>try\<close>, so that what \<^verbatim>\<open>JSON.parse\<close> throws leaves the operation as it is.
\<close>

definition named_challenge :: "webauthn_env \<Rightarrow> login_answer \<Rightarrow> error + json option" where
  "named_challenge wa input =
     (case parse_client_data wa (la_clientDataJSON input) of Inl e \<Rightarrow> Inl e | Inr j \<Rightarrow> json_get ''challenge'' j)"

definition finishPasskeyAuthentication ::
    "'r identity_env \<Rightarrow> webauthn_env \<Rightarrow> relying_party \<Rightarrow> nat \<Rightarrow> login_answer \<Rightarrow> login_context \<Rightarrow> ('r passkeys, token_pair) eff" where
  "finishPasskeyAuthentication env wa rp now input ctx = (\<lambda>s.
     case findByCredentialId (la_credentialId input) (pk_store s) of
       None \<Rightarrow> throw_error Unauthorized ''unknown passkey'' s
     | Some cred \<Rightarrow>
       (case named_challenge wa input of
          Inl e \<Rightarrow> (Inl e, s)
        | Inr (Some (JsString ch)) \<Rightarrow>
          (let s1 = s\<lparr>pk_authChallenges := jdel ch (pk_authChallenges s)\<rparr>;
               expires = (case jget (pk_authChallenges s) ch of None \<Rightarrow> 0 | Some t \<Rightarrow> t) in
           if expires = 0 \<or> expires < now
           then throw_error Unauthorized (''login challenge expired '' @ em_dash @ '' try again'') s1
           else
             (case verifyAuthentication wa \<lparr>ai_clientDataJSON = la_clientDataJSON input, ai_authenticatorData = la_authenticatorData input,
                     ai_signature = la_signature input, ai_publicKeyPem = wc_publicKeyPem cred,
                     ai_expectedChallenge = ch, ai_expectedOrigin = rp_origin rp\<rparr> of
                Inl e \<Rightarrow> throw_error Unauthorized (error_message e) s1
              | Inr count \<Rightarrow>
                (case st_getUser (wc_userId cred) (is_store (pk_identity s)) of
                   None \<Rightarrow> throw_error Unauthorized ''account is not active'' s1
                 | Some user \<Rightarrow>
                   (if u_status user \<noteq> Active then throw_error Unauthorized ''account is not active'' s1
                    else
                      (let ((sid, jti), id1) = openSession env now (u_id user) ctx (pk_identity s1)
                       in (Inr (issueTokens env now user sid jti),
                           s1\<lparr>pk_identity := id1, pk_store := updateSignCount (wc_id cred) count (int now) (pk_store s1)\<rparr>))))))
        | Inr _ \<Rightarrow> throw_error Unauthorized (''login challenge expired '' @ em_dash @ '' try again'') s))"

section \<open>Logins\<close>

text \<open>What the authenticator signs for a login: the authenticator data followed by the hash of the client data.\<close>

definition login_message :: "webauthn_env \<Rightarrow> login_answer \<Rightarrow> byte list" where
  "login_message wa input = wa_fromBase64url wa (la_authenticatorData input) @ wa_sha256 wa (wa_fromBase64url wa (la_clientDataJSON input))"

text \<open>
  C11: Who logs in with a passkey holds it: if only a key's holder makes signatures that verify under it, then a login that
  succeeds was signed by the holder of a stored passkey with the id the answer names. What was signed ends in the hash of
  client data that is for a login (not a registration), names a challenge the hub had issued, still pending and not expired, and, where an
  origin is configured, names that origin. The account of the passkey is active; the session opened and the tokens are that account's, the
  passkey's counter becomes the one signed, and the challenge is no longer pending.
\<close>

theorem passkey_login_sound:
  assumes "finishPasskeyAuthentication env wa rp now input ctx s = (Inr tp, s')"
    and "\<And>m pem sg. wa_verify wa m pem sg = Inr True \<Longrightarrow> m \<in> made_by_holder pem"
  shows "\<exists>cred ch expires kvs user sid jti.
     cred \<in> set (jvalues (pk_store s)) \<and> wc_credentialId cred = la_credentialId input \<and>
     login_message wa input \<in> made_by_holder (wc_publicKeyPem cred) \<and>
     parse_client_data wa (la_clientDataJSON input) = Inr (JsObject kvs) \<and> map_of kvs ''type'' = Some (JsString ''webauthn.get'') \<and>
     map_of kvs ''challenge'' = Some (JsString ch) \<and> jget (pk_authChallenges s) ch = Some expires \<and> now \<le> expires \<and>
     (\<forall>orig. rp_origin rp = Some orig \<longrightarrow> orig \<noteq> '''' \<longrightarrow> map_of kvs ''origin'' = Some (JsString orig)) \<and>
     st_getUser (wc_userId cred) (is_store (pk_identity s)) = Some user \<and> u_status user = Active \<and>
     openSession env now (u_id user) ctx (pk_identity s) = ((sid, jti), pk_identity s') \<and> tp = issueTokens env now user sid jti \<and>
     pk_store s' = updateSignCount (wc_id cred) (be32 (wa_fromBase64url wa (la_authenticatorData input)) (Some 33)) (int now) (pk_store s) \<and>
     pk_authChallenges s' = jdel ch (pk_authChallenges s)"
proof -
  from assms(1) obtain cred where cred: "findByCredentialId (la_credentialId input) (pk_store s) = Some cred"
    by (auto simp: finishPasskeyAuthentication_def throw_error_def split: option.splits)
  then have "cred \<in> set (jvalues (pk_store s)) \<and> wc_credentialId cred = la_credentialId input"
    unfolding findByCredentialId_def find_Some_iff by (metis nth_mem)
  moreover from assms(1) cred obtain ch where ch: "named_challenge wa input = Inr (Some (JsString ch))"
    by (auto simp: finishPasskeyAuthentication_def throw_error_def split: sum.splits option.splits json.splits)
  moreover from assms(1) cred ch obtain expires where e: "jget (pk_authChallenges s) ch = Some expires" "expires \<noteq> 0" "now \<le> expires"
    by (auto simp: finishPasskeyAuthentication_def throw_error_def Let_def split: option.splits if_splits)
  moreover from assms(1) cred ch e obtain count user where v:
      "verifyAuthentication wa \<lparr>ai_clientDataJSON = la_clientDataJSON input, ai_authenticatorData = la_authenticatorData input,
        ai_signature = la_signature input, ai_publicKeyPem = wc_publicKeyPem cred, ai_expectedChallenge = ch,
        ai_expectedOrigin = rp_origin rp\<rparr> = Inr count"
      "st_getUser (wc_userId cred) (is_store (pk_identity s)) = Some user" "u_status user = Active"
    by (auto simp: finishPasskeyAuthentication_def throw_error_def Let_def split: sum.splits option.splits if_splits)
  moreover from accepted_assertion_authentic [OF v(1)] obtain kvs where k:
      "parse_client_data wa (la_clientDataJSON input) = Inr (JsObject kvs)" "map_of kvs ''type'' = Some (JsString ''webauthn.get'')"
      "map_of kvs ''challenge'' = Some (JsString ch)"
      "\<forall>orig. rp_origin rp = Some orig \<longrightarrow> orig \<noteq> '''' \<longrightarrow> map_of kvs ''origin'' = Some (JsString orig)"
      "wa_verify wa (login_message wa input) (wc_publicKeyPem cred) (wa_fromBase64url wa (la_signature input)) = Inr True"
      "count = be32 (wa_fromBase64url wa (la_authenticatorData input)) (Some 33)"
    by (auto simp: login_message_def)
  moreover note assms(2) [OF k(5)]
  moreover obtain sid jti id1 where o: "openSession env now (u_id user) ctx (pk_identity s) = ((sid, jti), id1)"
    by (metis prod.collapse)
  moreover from assms(1) cred ch e v o have "tp = issueTokens env now user sid jti" "pk_identity s' = id1"
      "pk_store s' = updateSignCount (wc_id cred) count (int now) (pk_store s)" "pk_authChallenges s' = jdel ch (pk_authChallenges s)"
    by (auto simp: finishPasskeyAuthentication_def Let_def)
  ultimately show ?thesis by blast
qed

section \<open>A challenge admits one login\<close>

text \<open>
  The service as it runs: logins are begun, finished with or without success, and anything else happens between that does not touch
  the pending login challenges (registrations, removals, the other operations of the identity service). The run keeps the challenges that were
  issued and, for each, how often a login took it: one that succeeded, or one that was refused although it named a stored passkey and the
  challenge was pending.
\<close>

definition takes_challenge :: "webauthn_env \<Rightarrow> login_answer \<Rightarrow> 'r passkeys \<Rightarrow> string list" where
  "takes_challenge wa input s =
     (case named_challenge wa input of
        Inr (Some (JsString ch)) \<Rightarrow>
          if findByCredentialId (la_credentialId input) (pk_store s) \<noteq> None \<and> jget (pk_authChallenges s) ch \<noteq> None then [ch] else []
      | _ \<Rightarrow> [])"

inductive passkey_run ::
    "'r identity_env \<Rightarrow> webauthn_env \<Rightarrow> relying_party \<Rightarrow> 'r passkeys \<Rightarrow> string list \<Rightarrow> string list \<Rightarrow> bool"
  for env wa rp where
  start: "pk_authChallenges s = [] \<Longrightarrow> passkey_run env wa rp s [] []"
| begin_login: "passkey_run env wa rp s issued used \<Longrightarrow> beginPasskeyAuthentication env rp now s = ((ch, i, t), s') \<Longrightarrow>
    passkey_run env wa rp s' (ch # issued) used"
| login: "passkey_run env wa rp s issued used \<Longrightarrow> finishPasskeyAuthentication env wa rp now input ctx s = (Inr tp, s') \<Longrightarrow>
    named_challenge wa input = Inr (Some (JsString ch)) \<Longrightarrow> passkey_run env wa rp s' issued (ch # used)"
| refused: "passkey_run env wa rp s issued used \<Longrightarrow> finishPasskeyAuthentication env wa rp now input ctx s = (Inl e, s') \<Longrightarrow>
    passkey_run env wa rp s' issued (takes_challenge wa input s @ used)"
| other: "passkey_run env wa rp s issued used \<Longrightarrow> pk_authChallenges s' = pk_authChallenges s \<Longrightarrow> passkey_run env wa rp s' issued used"

lemma login_takes_challenge:
  assumes "finishPasskeyAuthentication env wa rp now input ctx s = (Inr tp, s')" "named_challenge wa input = Inr (Some (JsString ch))"
  shows "jget (pk_authChallenges s) ch \<noteq> None \<and> pk_authChallenges s' = jdel ch (pk_authChallenges s)"
  using assms by (auto simp: finishPasskeyAuthentication_def throw_error_def Let_def split: option.splits if_splits sum.splits prod.splits)

lemma refusal_takes_challenge:
  assumes "finishPasskeyAuthentication env wa rp now input ctx s = (Inl e, s')"
  shows "takes_challenge wa input s = [] \<and>
      (pk_authChallenges s' = pk_authChallenges s \<or> (\<exists>ch. pk_authChallenges s' = jdel ch (pk_authChallenges s))) \<or>
    (\<exists>ch. takes_challenge wa input s = [ch] \<and> jget (pk_authChallenges s) ch \<noteq> None \<and> pk_authChallenges s' = jdel ch (pk_authChallenges s))"
  using assms by (auto simp: finishPasskeyAuthentication_def throw_error_def Let_def takes_challenge_def
      split: option.splits if_splits sum.splits prod.splits json.splits)

definition pending_count :: "'r passkeys \<Rightarrow> string \<Rightarrow> nat" where
  "pending_count s ch = (if jget (pk_authChallenges s) ch = None then 0 else 1)"

lemma used_and_pending: "passkey_run env wa rp s issued used \<Longrightarrow> count_list used ch + pending_count s ch \<le> count_list issued ch"
proof (induction rule: passkey_run.induct)
  case (begin_login s issued used now c i t s')
  then have "pk_authChallenges s' = jset c (now + WEBAUTHN_TTL_MS) (pk_authChallenges s)"
    by (auto simp: beginPasskeyAuthentication_def Let_def split: prod.splits)
  with begin_login.IH show ?case by (auto simp: pending_count_def split: if_splits)
next
  case (login s issued used now input ctx tp s' c)
  from login_takes_challenge [OF login.hyps(2,3)] login.IH show ?case by (auto simp: pending_count_def split: if_splits)
next
  case (refused s issued used now input ctx e s')
  from refusal_takes_challenge [OF refused.hyps(2)] refused.IH show ?case by (auto simp: pending_count_def split: if_splits)
qed (simp_all add: pending_count_def)

text \<open>
  C13: However the operations are interleaved, a pending challenge is taken by at most one login for each time it was issued: by one that
  succeeds, and just as well by one that names a stored passkey and is refused. When it was taken as often as it was issued, every
  login with it is refused, so a recorded assertion cannot be replayed, whether its login succeeded or was refused. (A login that names no
  stored passkey, or whose client data is unreadable, takes nothing.)
\<close>

theorem passkey_challenge_single_use:
  assumes "passkey_run env wa rp s issued used"
  shows "count_list used ch \<le> count_list issued ch \<and>
    (count_list used ch = count_list issued ch \<longrightarrow> named_challenge wa input = Inr (Some (JsString ch)) \<longrightarrow>
      (\<exists>e s'. finishPasskeyAuthentication env wa rp now input ctx s = (Inl e, s')))"
proof -
  note u = used_and_pending [OF assms, of ch]
  have "\<exists>e s'. finishPasskeyAuthentication env wa rp now input ctx s = (Inl e, s')"
    if eq: "count_list used ch = count_list issued ch" and n: "named_challenge wa input = Inr (Some (JsString ch))"
  proof (cases "finishPasskeyAuthentication env wa rp now input ctx s")
    case (Pair r s')
    show ?thesis
    proof (cases r)
      case (Inr tp)
      with login_takes_challenge [OF _ n, of env rp now ctx s tp s'] Pair u eq show ?thesis by (auto simp: pending_count_def)
    qed (use Pair in simp)
  qed
  with u show ?thesis by simp
qed

text \<open>A run: a user with a registered passkey begins a login and finishes it.\<close>

definition demo_challenge :: string where
  "demo_challenge = newChallenge (fst (draw_bytes demo_env 32 demo_home))"

text \<open>The one message that the holder of the demo key signed.\<close>

definition demo_signed :: "byte list" where
  "demo_signed = replicate 33 0 @ [0, 0, 0, 9] @ demo_utf8_of ''j''"

definition demo_login_env :: webauthn_env where
  "demo_login_env = (demo_webauthn ''webauthn.get'')\<lparr>wa_parse := (\<lambda>s. Inr (JsObject
     [(''type'', JsString ''webauthn.get''), (''challenge'', JsString demo_challenge), (''origin'', JsString ''https://hub'')])),
     wa_verify := (\<lambda>msg pem sg. Inr (msg = demo_signed \<and> pem = ''pem'' \<and> sg = [1]))\<rparr>"

definition demo_rp :: relying_party where
  "demo_rp = default_rp\<lparr>rp_origin := Some ''https://hub''\<rparr>"

definition demo_passkeys :: "nat passkeys" where
  "demo_passkeys = \<lparr>pk_identity = demo_home,
     pk_store = [(''k'', \<lparr>wc_id = ''k'', wc_userId = fst (hd (st_users (is_store demo_home))), wc_credentialId = ''cred'', wc_publicKeyPem = ''pem'',
        wc_signCount = 3, wc_name = ''Passkey'', wc_createdAt = 1, wc_lastUsedAt = None\<rparr>)],
     pk_regChallenges = [], pk_authChallenges = []\<rparr>"

definition demo_login_answer :: login_answer where
  "demo_login_answer = \<lparr>la_credentialId = ''cred'', la_clientDataJSON = ''j'',
     la_authenticatorData = demo_utf8 (replicate 33 0 @ [0, 0, 0, 9]), la_signature = [char_of (1 :: nat)]\<rparr>"

definition demo_begun :: "nat passkeys" where
  "demo_begun = snd (beginPasskeyAuthentication demo_env demo_rp 10 demo_passkeys)"

abbreviation demo_finish :: "nat passkeys \<Rightarrow> (error + token_pair) \<times> nat passkeys" where
  "demo_finish \<equiv> finishPasskeyAuthentication demo_env demo_login_env demo_rp 20 demo_login_answer \<lparr>lc_ip = None, lc_userAgent = None\<rparr>"

lemma demo_named: "named_challenge demo_login_env demo_login_answer = Inr (Some (JsString demo_challenge))"
  by (simp add: named_challenge_def parse_client_data_def demo_login_env_def json_get_def)

lemma demo_owner: "\<exists>i u. st_users (is_store demo_home) = [(i, u)] \<and> u_status u = Active"
  using demo_policy
  by (simp add: demo_home_def commission_def unfold_op new_identity_def new_identity_store_def demo_commission_def putUser_def putHome_def putCredential_def)

lemma demo_verified:
  "verifyAuthentication demo_login_env \<lparr>ai_clientDataJSON = la_clientDataJSON demo_login_answer, ai_authenticatorData = la_authenticatorData demo_login_answer,
     ai_signature = la_signature demo_login_answer, ai_publicKeyPem = ''pem'', ai_expectedChallenge = demo_challenge,
     ai_expectedOrigin = rp_origin demo_rp\<rparr> = Inr 9"
proof -
  have "demo_utf8_of [char_of (1 :: nat)] = [1]" by (simp add: demo_utf8_of_def)
  then show ?thesis
    by (simp add: verifyAuthentication_def demo_login_answer_def demo_rp_def default_rp_def demo_login_env_def demo_webauthn_def check_client_data_def parse_client_data_def
        json_get_def truthy_def demo_signed_def demo_utf8_of_inverse parseAuthData_def byte_or_0_def cbor_byte_def be32_def be16_def shift_def Let_def nth_append)
qed

lemma demo_begins: "beginPasskeyAuthentication demo_env demo_rp 10 demo_passkeys = ((demo_challenge, ''localhost'', 60000), demo_begun)"
  by (simp add: demo_begun_def beginPasskeyAuthentication_def demo_passkeys_def demo_challenge_def demo_rp_def default_rp_def Let_def split: prod.split)

lemma demo_login_succeeds: "\<exists>tp s'. demo_finish demo_begun = (Inr tp, s')"
proof -
  obtain i u where u: "st_users (is_store demo_home) = [(i, u)]" "u_status u = Active" using demo_owner by blast
  have "\<exists>cred. findByCredentialId (la_credentialId demo_login_answer) (pk_store demo_begun) = Some cred \<and> wc_userId cred = i \<and> wc_publicKeyPem cred = ''pem''"
    using u by (simp add: demo_begun_def beginPasskeyAuthentication_def demo_passkeys_def demo_login_answer_def findByCredentialId_def Let_def split: prod.split)
  moreover have "jget (pk_authChallenges demo_begun) demo_challenge = Some 300010"
    by (simp add: demo_begun_def beginPasskeyAuthentication_def demo_passkeys_def demo_challenge_def WEBAUTHN_TTL_MS_def Let_def split: prod.split)
  moreover have "st_getUser i (is_store (pk_identity demo_begun)) = Some u"
    using u by (simp add: demo_begun_def beginPasskeyAuthentication_def demo_passkeys_def draw_bytes_def st_getUser_def Let_def split: prod.split)
  ultimately show ?thesis
    using u(2) by (auto simp: finishPasskeyAuthentication_def demo_named demo_verified Let_def case_prod_unfold)
qed

theorem passkey_login_sound_witness:
  "\<exists>tp s'. demo_finish demo_begun = (Inr tp, s') \<and> jget (pk_authChallenges s') demo_challenge = None \<and>
     login_message demo_login_env demo_login_answer = demo_signed"
proof -
  obtain tp s' where l: "demo_finish demo_begun = (Inr tp, s')" using demo_login_succeeds by blast
  have holder: "m \<in> (if pem = ''pem'' then {demo_signed} else {})" if "wa_verify demo_login_env m pem sg = Inr True" for m pem sg
    using that by (simp add: demo_login_env_def)
  have "kvs = [(''type'', JsString ''webauthn.get''), (''challenge'', JsString demo_challenge), (''origin'', JsString ''https://hub'')]"
    if "parse_client_data demo_login_env (la_clientDataJSON demo_login_answer) = Inr (JsObject kvs)" for kvs
    using that by (simp add: parse_client_data_def demo_login_env_def)
  with passkey_login_sound [OF l holder]
  have "jget (pk_authChallenges s') demo_challenge = None" "login_message demo_login_env demo_login_answer = demo_signed"
    by (fastforce split: if_splits)+
  with l show ?thesis by blast
qed

theorem passkey_challenge_single_use_witness:
  "\<exists>s. passkey_run demo_env demo_login_env demo_rp s [demo_challenge] [demo_challenge] \<and> (\<exists>e s'. demo_finish s = (Inl e, s'))"
proof -
  obtain tp s where l: "demo_finish demo_begun = (Inr tp, s)" using demo_login_succeeds by blast
  have "passkey_run demo_env demo_login_env demo_rp demo_passkeys [] []"
    by (rule passkey_run.start) (simp add: demo_passkeys_def)
  from passkey_run.login [OF passkey_run.begin_login [OF this demo_begins] l demo_named]
  have r: "passkey_run demo_env demo_login_env demo_rp s [demo_challenge] [demo_challenge]" .
  from passkey_challenge_single_use [OF r, of demo_challenge demo_login_answer 20 "\<lparr>lc_ip = None, lc_userAgent = None\<rparr>"] demo_named r
  show ?thesis by auto
qed

end
