(* ===== verification/Keypad_Variables.thy ===== *)
theory Keypad_Variables
  imports Domain_Model
begin

text \<open>
  The variables of a keypad mapping, \<^verbatim>\<open>services/keypad-framework/src/variables.ts\<close>: \<^verbatim>\<open>expandVariables\<close> replaces every
  string that is a reference to a declared variable, anywhere in raw JSON, by the variable's value.
\<close>

section \<open>Expansion\<close>

text \<open>Raw JSON: a primitive value, an array, or an object as its own properties in enumeration order.\<close>

datatype raw = RwPrim jsval | RwArr "raw list" | RwObj "(string \<times> raw) list"

text \<open>What \<^verbatim>\<open>.\<close> of a regular expression does not match: LF, CR, and U+2028 and U+2029 in UTF-8.\<close>

definition breaks_line :: "string \<Rightarrow> bool" where
  "breaks_line s \<longleftrightarrow> list_ex (\<lambda>n. let t = map (of_char :: char \<Rightarrow> nat) (take 3 (drop n s)) in
     take 1 t = [10] \<or> take 1 t = [13] \<or> t = [226, 128, 168] \<or> t = [226, 128, 169]) [0..<length s]"

text \<open>\<^verbatim>\<open>/^\{\{(.+)\}\}$/\<close> and the trimmed name.\<close>

definition reference :: "string \<Rightarrow> string option" where
  "reference s =
     (let name = take (length s - 4) (drop 2 s) in
      if 5 \<le> length s \<and> take 2 s = ''{{'' \<and> drop (length s - 2) s = ''}}'' \<and> \<not> breaks_line name then Some (trim name) else None)"

text \<open>A primitive: a string that names a declared variable becomes its value.\<close>

definition expand_prim :: "bag \<Rightarrow> jsval \<Rightarrow> jsval" where
  "expand_prim vars v = (case v of
       JStr s \<Rightarrow> (case Option.bind (reference s) (jget vars) of None \<Rightarrow> v | Some x \<Rightarrow> x)
     | _ \<Rightarrow> v)"

lemma size_raw_member [termination_simp]: "(k, v) \<in> set kvs \<Longrightarrow> size v < Suc (size_list (size_prod (\<lambda>_. 0) size) kvs)"
  by (induction kvs) auto

fun expandVariables :: "bag \<Rightarrow> raw \<Rightarrow> raw" where
  "expandVariables vars (RwPrim v) = RwPrim (expand_prim vars v)"
| "expandVariables vars (RwArr vs) = RwArr (map (expandVariables vars) vs)"
| "expandVariables vars (RwObj kvs) = RwObj (map (\<lambda>(k, v). (k, expandVariables vars v)) kvs)"

section \<open>What is left\<close>

text \<open>The declared variables that a value refers to.\<close>

definition prim_refs :: "bag \<Rightarrow> jsval \<Rightarrow> string set" where
  "prim_refs vars v = {x. \<exists>s. v = JStr s \<and> reference s = Some x \<and> jget vars x \<noteq> None}"

fun refs :: "bag \<Rightarrow> raw \<Rightarrow> string set" where
  "refs vars (RwPrim v) = prim_refs vars v"
| "refs vars (RwArr vs) = (\<Union>v\<in>set vs. refs vars v)"
| "refs vars (RwObj kvs) = (\<Union>(k, v)\<in>set kvs. refs vars v)"

lemma expand_prim_refs:
  assumes "\<forall>x v. jget vars x = Some v \<longrightarrow> prim_refs vars v = {}"
  shows "prim_refs vars (expand_prim vars v) = {}"
  using assms by (cases v) (auto simp: expand_prim_def prim_refs_def split: option.splits bind_splits)

lemma expand_prim_id: "prim_refs vars v = {} \<Longrightarrow> expand_prim vars v = v"
  by (cases v) (auto simp: expand_prim_def prim_refs_def split: option.splits bind_splits)

lemma expand_id: "refs vars r = {} \<Longrightarrow> expandVariables vars r = r"
proof (induction vars r rule: expandVariables.induct)
  case (3 vars kvs)
  then have "map (\<lambda>(k, v). (k, expandVariables vars v)) kvs = kvs" by (intro map_idI) fastforce
  then show ?case by simp
qed (auto simp: expand_prim_id intro!: map_idI)

lemma expand_refs:
  assumes "\<forall>x v. jget vars x = Some v \<longrightarrow> prim_refs vars v = {}"
  shows "refs vars (expandVariables vars r) = {}"
  using assms by (induction vars r rule: expandVariables.induct) (fastforce simp: expand_prim_refs)+

text \<open>
  One expansion is enough: when no variable's value is itself a reference to a declared variable, the expanded JSON refers to none,
  so that expanding it again changes nothing, and JSON without references is left as it is.
\<close>

theorem expansion_settles:
  assumes "\<forall>x v. jget vars x = Some v \<longrightarrow> prim_refs vars v = {}"
  shows "refs vars (expandVariables vars r) = {} \<and> expandVariables vars (expandVariables vars r) = expandVariables vars r \<and>
    (refs vars r = {} \<longrightarrow> expandVariables vars r = r)"
  using expand_refs [OF assms] expand_id by blast

theorem expansion_settles_witness:
  "expandVariables [(''step'', JNum 10)] (RwObj [(''level'', RwPrim (JStr ''{{ step }}''))]) = RwObj [(''level'', RwPrim (JNum 10))] \<and>
   refs [(''step'', JNum 10)] (expandVariables [(''step'', JNum 10)] (RwObj [(''level'', RwPrim (JStr ''{{ step }}''))])) = {}"
proof -
  have "reference ''{{ step }}'' = Some ''step''" by code_simp
  moreover have "\<forall>x v. jget [(''step'', JNum 10)] x = Some v \<longrightarrow> prim_refs [(''step'', JNum 10)] v = {}"
    by (simp add: prim_refs_def)
  ultimately show ?thesis using expansion_settles [of "[(''step'', JNum 10)]"] by (simp add: expand_prim_def)
qed

end
