(* ===== verification/Keypad_Service.thy ===== *)
theory Keypad_Service
  imports Keypad_Mapping Keypad_Variables
begin

text \<open>
  The keypad mapping service, \<^verbatim>\<open>services/keypad-framework/src/service.ts\<close>, over its store (\<^verbatim>\<open>store.ts\<close>) and the mapping engine,
  wired as \<^verbatim>\<open>services/gateway/src/context.ts\<close> does: a firing that moves a mapping's position writes it to the store, too. The
  schema library that parses expanded JSON into conditions and actions is an argument.
\<close>

section \<open>State\<close>

type_synonym mapping_store = "(keypad_mapping_id, keypad_mapping) jsmap"

definition km_list :: "mapping_store \<Rightarrow> keypad_mapping list" where
  "km_list st = jvalues st"

definition km_get :: "keypad_mapping_id \<Rightarrow> mapping_store \<Rightarrow> keypad_mapping option" where
  "km_get i st = jget st i"

definition km_put :: "keypad_mapping \<Rightarrow> mapping_store \<Rightarrow> mapping_store" where
  "km_put m st = jset (km_id m) m st"

definition km_remove :: "keypad_mapping_id \<Rightarrow> mapping_store \<Rightarrow> mapping_store" where
  "km_remove i st = jdel i st"

record keypad_service =
  kx_store :: mapping_store
  kx_engine :: mapping_engine
  kx_loaded :: bool

type_synonym ('w, 'a) keypad_op = "(keypad_service \<times> 'w, 'a) eff"

text \<open>The schemas: of an array of conditions, of an array of actions, and the message of a mapping that is rejected.\<close>

record keypad_schemas =
  sc_conditions :: "raw list \<Rightarrow> string + automation_condition list"
  sc_actions :: "raw list \<Rightarrow> string + automation_action list"
  sc_message :: "keypad_mapping \<Rightarrow> string"

definition mapping_valid :: "keypad_mapping \<Rightarrow> bool" where
  "mapping_valid m \<longleftrightarrow> km_name m \<noteq> '''' \<and> mapping_ok m"

section \<open>The engine over the store\<close>

text \<open>Executors that leave the store alone, and the gateway's \<^verbatim>\<open>persistBehaviorState\<close>.\<close>

definition lift_state :: "('w \<Rightarrow> 'a \<times> 'w) \<Rightarrow> 's \<times> 'w \<Rightarrow> 'a \<times> ('s \<times> 'w)" where
  "lift_state f = (\<lambda>(s, w). let (r, w') = f w in (r, (s, w')))"

definition lift_executors :: "'w executors \<Rightarrow> ('s \<times> 'w) executors" where
  "lift_executors ex = \<lparr>
     ex_command = (\<lambda>d c. lift_state (ex_command ex d c)), ex_activateScene = (\<lambda>i. lift_state (ex_activateScene ex i)),
     ex_notify = (\<lambda>l t b u. lift_state (ex_notify ex l t b u)), ex_getState = (\<lambda>d k. lift_state (ex_getState ex d k)),
     ex_runIntent = map_option (\<lambda>f i t b. lift_state (f i t b)) (ex_runIntent ex), ex_sleep = (\<lambda>n. lift_state (ex_sleep ex n)),
     ex_onRun = map_option (\<lambda>f i ok (s, w). (s, f i ok w)) (ex_onRun ex),
     ex_now = lift_state (ex_now ex), ex_date = lift_state (ex_date ex)\<rparr>"

definition persist_position :: "keypad_mapping_id \<Rightarrow> keypad_behavior_state \<Rightarrow> (mapping_store \<times> 'w, unit) eff" where
  "persist_position i bs = (\<lambda>(st, w). (Inr (), case km_get i st of
     None \<Rightarrow> (st, w) | Some current \<Rightarrow> (km_put (current\<lparr>km_behaviorState := bs\<rparr>) st, w)))"

record 'w keypad_wiring =
  kw_ex :: "'w executors"
  kw_onFire :: "(keypad_input_event \<Rightarrow> keypad_mapping \<Rightarrow> mapping_run \<Rightarrow> 'w \<Rightarrow> 'w) option"

definition gateway_options :: "'w keypad_wiring \<Rightarrow> (mapping_store \<times> 'w) mapping_options" where
  "gateway_options kw = \<lparr>mo_ex = lift_executors (kw_ex kw), mo_persist = Some persist_position,
     mo_onFire = map_option (\<lambda>f ev m r (st, w). (st, f ev m r w)) (kw_onFire kw)\<rparr>"

definition on_mapping_engine :: "(mapping_engine \<times> (mapping_store \<times> 'w), 'a) eff \<Rightarrow> ('w, 'a) keypad_op" where
  "on_mapping_engine f = (\<lambda>(s, w). case f (kx_engine s, (kx_store s, w)) of
     (res, (en, (st, w'))) \<Rightarrow> (res, (s\<lparr>kx_engine := en, kx_store := st\<rparr>, w')))"

section \<open>Operations\<close>

definition kx_reload :: "keypad_service \<Rightarrow> keypad_service" where
  "kx_reload s = s\<lparr>kx_engine := setMappings (km_list (kx_store s)) (kx_engine s)\<rparr>"

definition kx_start :: "keypad_service \<Rightarrow> keypad_service" where
  "kx_start s = (kx_reload s)\<lparr>kx_loaded := True\<rparr>"

definition kx_get :: "keypad_mapping_id \<Rightarrow> ('w, keypad_mapping) keypad_op" where
  "kx_get i = (\<lambda>(s, w). case km_get i (kx_store s) of
     None \<Rightarrow> (Inl (SupremeError Not_found ''keypad mapping not found''), (s, w)) | Some m \<Rightarrow> (Inr m, (s, w)))"

definition expand_parse :: "(raw list \<Rightarrow> string + 'a list) \<Rightarrow> bag \<Rightarrow> raw list \<Rightarrow> error + 'a list" where
  "expand_parse schema vars rs = (case schema (map (expandVariables vars) rs) of Inl msg \<Rightarrow> Inl (PlainError msg) | Inr xs \<Rightarrow> Inr xs)"

definition parse_mapping :: "keypad_schemas \<Rightarrow> keypad_mapping \<Rightarrow> error + keypad_mapping" where
  "parse_mapping sc m = (if mapping_valid m then Inr m else Inl (PlainError (sc_message sc m)))"

definition put_mapping :: "keypad_mapping \<Rightarrow> ('w, keypad_mapping) keypad_op" where
  "put_mapping m = (\<lambda>(s, w). (Inr m, (kx_reload (s\<lparr>kx_store := km_put m (kx_store s)\<rparr>), w)))"

record create_mapping_input =
  cm_homeId :: home_id
  cm_name :: string
  cm_enabled :: "bool option"
  cm_input :: keypad_mapping_input
  cm_conditions :: "raw list option"
  cm_actions :: "raw list option"
  cm_behavior :: "keypad_behavior option"
  cm_target :: "keypad_mapping_target option"
  cm_variables :: "bag option"

definition kx_create :: "keypad_schemas \<Rightarrow> keypad_mapping_id \<Rightarrow> create_mapping_input \<Rightarrow> ('w, keypad_mapping) keypad_op" where
  "kx_create sc new inp =
     (let vars = or_else (cm_variables inp) [] in
      case expand_parse (sc_conditions sc) vars (or_else (cm_conditions inp) []) of
        Inl e \<Rightarrow> eff_throw e
      | Inr conditions \<Rightarrow>
        (case expand_parse (sc_actions sc) vars (or_else (cm_actions inp) []) of
           Inl e \<Rightarrow> eff_throw e
         | Inr actions \<Rightarrow>
           (case parse_mapping sc
               \<lparr>km_id = new, km_homeId = cm_homeId inp, km_name = cm_name inp, km_enabled = or_else (cm_enabled inp) True,
                km_input = cm_input inp, km_conditions = conditions, km_actions = actions,
                km_behavior = or_else (cm_behavior inp) Direct, km_target = cm_target inp,
                km_behaviorState = \<lparr>lastDirection = None, cycleIndex = 0\<rparr>, km_variables = vars\<rparr> of
              Inl e \<Rightarrow> eff_throw e
            | Inr mapping \<Rightarrow> put_mapping mapping)))"

text \<open>A patch; its target is absent (kept), null (cleared) or a new one.\<close>

record mapping_patch =
  mp_name :: "string option"
  mp_enabled :: "bool option"
  mp_input :: "keypad_mapping_input option"
  mp_conditions :: "raw list option"
  mp_actions :: "raw list option"
  mp_behavior :: "keypad_behavior option"
  mp_target :: "keypad_mapping_target opt_null"
  mp_variables :: "bag option"

definition no_mapping_patch :: mapping_patch where
  "no_mapping_patch = \<lparr>mp_name = None, mp_enabled = None, mp_input = None, mp_conditions = None, mp_actions = None,
     mp_behavior = None, mp_target = Absent, mp_variables = None\<rparr>"

definition patch_list :: "(raw list \<Rightarrow> string + 'a list) \<Rightarrow> bag \<Rightarrow> raw list option \<Rightarrow> 'a list \<Rightarrow> error + 'a list" where
  "patch_list schema vars p current = (case p of None \<Rightarrow> Inr current | Some rs \<Rightarrow> expand_parse schema vars rs)"

definition patch_target :: "keypad_mapping_target opt_null \<Rightarrow> keypad_mapping_target option \<Rightarrow> keypad_mapping_target option" where
  "patch_target p current = (case p of Absent \<Rightarrow> current | Null \<Rightarrow> None | Val t \<Rightarrow> Some t)"

definition kx_update :: "keypad_schemas \<Rightarrow> keypad_mapping_id \<Rightarrow> mapping_patch \<Rightarrow> ('w, keypad_mapping) keypad_op" where
  "kx_update sc i p = eff_bind (kx_get i) (\<lambda>current.
     let vars = or_else (mp_variables p) (km_variables current) in
     case patch_list (sc_conditions sc) vars (mp_conditions p) (km_conditions current) of
       Inl e \<Rightarrow> eff_throw e
     | Inr conditions \<Rightarrow>
       (case patch_list (sc_actions sc) vars (mp_actions p) (km_actions current) of
          Inl e \<Rightarrow> eff_throw e
        | Inr actions \<Rightarrow>
          (case parse_mapping sc (current\<lparr>km_name := or_else (mp_name p) (km_name current),
               km_enabled := or_else (mp_enabled p) (km_enabled current), km_input := or_else (mp_input p) (km_input current),
               km_conditions := conditions, km_actions := actions,
               km_behavior := or_else (mp_behavior p) (km_behavior current),
               km_target := patch_target (mp_target p) (km_target current), km_variables := vars\<rparr>) of
             Inl e \<Rightarrow> eff_throw e
           | Inr nxt \<Rightarrow> put_mapping nxt)))"

definition kx_setEnabled :: "keypad_schemas \<Rightarrow> keypad_mapping_id \<Rightarrow> bool \<Rightarrow> ('w, keypad_mapping) keypad_op" where
  "kx_setEnabled sc i b = kx_update sc i (no_mapping_patch\<lparr>mp_enabled := Some b\<rparr>)"

definition kx_remove :: "keypad_mapping_id \<Rightarrow> ('w, unit) keypad_op" where
  "kx_remove i = eff_bind (kx_get i) (\<lambda>_ (s, w). (Inr (), (kx_reload (s\<lparr>kx_store := km_remove i (kx_store s)\<rparr>), w)))"

definition kx_testRun :: "'w keypad_wiring \<Rightarrow> keypad_mapping_id \<Rightarrow> ('w, unit) keypad_op" where
  "kx_testRun kw i = eff_bind (kx_get i) (\<lambda>m. on_mapping_engine (run_mapping (gateway_options kw) m))"

definition kx_recentRuns :: "keypad_mapping_id option \<Rightarrow> nat \<Rightarrow> keypad_service \<Rightarrow> mapping_run list" where
  "kx_recentRuns i limit s = me_recentRuns i limit (kx_engine s)"

definition kx_onInputEvent :: "'w keypad_wiring \<Rightarrow> keypad_input_event \<Rightarrow> ('w, unit) keypad_op" where
  "kx_onInputEvent kw ev = (\<lambda>(s, w). if kx_loaded s then on_mapping_engine (onInputEvent (gateway_options kw) ev) (s, w) else (Inr (), (s, w)))"

section \<open>What a firing does to the store\<close>

text \<open>Effects that leave the store alone.\<close>

definition keeps :: "('s \<times> 'w \<Rightarrow> 'a \<times> ('s \<times> 'w)) \<Rightarrow> bool" where
  "keeps f \<longleftrightarrow> (\<forall>s. fst (snd (f s)) = fst s)"

lemma keeps_lift [simp]: "keeps (lift_state f)"
  by (simp add: keeps_def lift_state_def split: prod.split)

lemma keeps_return [simp]: "keeps (eff_return x)" "keeps (eff_throw e)" "keeps (eff_lift r)"
  by (simp_all add: keeps_def eff_return_def eff_throw_def eff_lift_def)

lemma keeps_Pair [simp]: "keeps (Pair x)"
  by (simp add: keeps_def)

lemma store_kept_bind: "keeps f \<Longrightarrow> (\<And>a. keeps (g a)) \<Longrightarrow> keeps (eff_bind f g)"
  unfolding keeps_def eff_bind_def by (auto split: prod.split sum.split) (metis fst_conv snd_conv)+

lemma store_keptD: "keeps f \<Longrightarrow> f (s, w) = (r, (s', w')) \<Longrightarrow> s' = s"
  unfolding keeps_def by (metis fst_conv snd_conv)

lemma store_keptE:
  assumes "keeps f"
  obtains r w' where "f (s, w) = (r, (s, w'))"
proof -
  obtain r s' w' where "f (s, w) = (r, (s', w'))" by (metis prod_cases3)
  with store_keptD [OF assms this] that show thesis by simp
qed

lemma conditions_keep: "keeps (evaluateConditions (lift_executors ex) cs now)"
proof (induction cs)
  case (Cons c cs)
  then show ?case by (cases c) (auto simp: lift_executors_def intro!: store_kept_bind)
qed simp

lemma resolve_behavior_keeps: "keeps (resolveBehaviorCommand (lift_executors ex) m)"
proof -
  have "keeps (readOnOff (lift_executors ex) t)" "keeps (readLevel (lift_executors ex) t)" for t
    by (auto simp: readOnOff_def readLevel_def lift_executors_def intro!: store_kept_bind split: option.split sum.split)
  then show ?thesis
    unfolding resolveBehaviorCommand_def Let_def
    by (auto intro!: store_kept_bind split: option.split keypad_behavior.split)
qed

lemma action_keeps: "keeps (runAutomationAction (lift_executors ex) act)"
  by (cases act) (auto simp: lift_executors_def split: option.split)

lemma run_actions_keep: "run_actions (lift_executors ex) acts (st, w) = (rs, (st', w')) \<Longrightarrow> st' = st"
proof (induction acts arbitrary: w rs)
  case (Cons act acts)
  obtain r st1 w1 where t: "traced_action (lift_executors ex) act (st, w) = (r, (st1, w1))" by (metis prod_cases3)
  have clock: "keeps (ex_now (lift_executors ex))" by (simp add: lift_executors_def)
  obtain a0 w2 where a0: "ex_now (lift_executors ex) (st, w) = (a0, (st, w2))" by (rule store_keptE [OF clock])
  obtain res w3 where res: "runAutomationAction (lift_executors ex) act (st, w2) = (res, (st, w3))"
    by (rule store_keptE [OF action_keeps])
  obtain a1 w4 where a1: "ex_now (lift_executors ex) (st, w3) = (a1, (st, w4))" by (rule store_keptE [OF clock])
  from t a0 res a1 have "st1 = st" by (auto simp: traced_action_def)
  with Cons t show ?case by (auto split: if_splits prod.splits)
qed simp

definition stored_mappings :: "mapping_store \<Rightarrow> bool" where
  "stored_mappings st \<longleftrightarrow> jwf st \<and> list_all (\<lambda>(i, m). km_id m = i \<and> mapping_valid m) st"

definition loaded_mappings :: "mapping_store \<Rightarrow> keypad_mapping list" where
  "loaded_mappings st = filter km_enabled (jvalues st)"

definition in_step :: "mapping_engine \<Rightarrow> mapping_store \<Rightarrow> bool" where
  "in_step en st \<longleftrightarrow> stored_mappings st \<and> me_mappings en = loaded_mappings st"

lemma stored_mapping_id: "stored_mappings st \<Longrightarrow> jget st i = Some m \<Longrightarrow> km_id m = i \<and> mapping_valid m"
  by (auto simp: stored_mappings_def list_all_iff dest: map_of_SomeD)

lemma stored_mapping_put: "stored_mappings st \<Longrightarrow> mapping_valid m \<Longrightarrow> stored_mappings (km_put m st)"
  using jset_set_subset [of "km_id m" m st] by (auto simp: stored_mappings_def km_put_def list_all_iff)

lemma stored_mapping_remove: "stored_mappings st \<Longrightarrow> stored_mappings (km_remove i st)"
  using jwf_jdel [of st i] by (auto simp: stored_mappings_def km_remove_def list_all_iff AList.delete_eq)

lemma position_valid [simp]: "mapping_valid (m\<lparr>km_behaviorState := bs\<rparr>) = mapping_valid m"
  by (cases "km_target m") (simp_all add: mapping_valid_def mapping_ok_def mapping_issues_def)

lemma replace_first_none: "\<forall>x \<in> set xs. \<not> p x \<Longrightarrow> replace_first p y xs = xs"
  by (induction xs) auto

text \<open>Moving a stored mapping's position in the store and in the engine are the same.\<close>

lemma loaded_moved:
  "jwf st \<Longrightarrow> list_all (\<lambda>(i, m). km_id m = i) st \<Longrightarrow> jget st i = Some m \<Longrightarrow>
   loaded_mappings (jset i (m\<lparr>km_behaviorState := bs\<rparr>) st) =
     replace_first (\<lambda>x. km_id x = i) (m\<lparr>km_behaviorState := bs\<rparr>) (loaded_mappings st)"
proof (induction st)
  case (Cons e st)
  obtain j n where e: "e = (j, n)" by fastforce
  show ?case
  proof (cases "i = j")
    case True
    with Cons.prems e have "\<forall>x \<in> set (loaded_mappings st). km_id x \<noteq> i"
      by (force simp: jwf_def loaded_mappings_def list_all_iff)
    with True Cons.prems e show ?thesis by (auto simp: loaded_mappings_def replace_first_none)
  next
    case False
    with Cons e show ?thesis by (auto simp: loaded_mappings_def jwf_def)
  qed
qed simp

text \<open>The store after a firing: the same, or the same but for the fired mapping's position.\<close>

definition moved :: "keypad_mapping \<Rightarrow> mapping_store \<Rightarrow> mapping_store \<Rightarrow> bool" where
  "moved m st st' \<longleftrightarrow> st' = st \<or> (\<exists>bs. st' = jset (km_id m) (m\<lparr>km_behaviorState := bs\<rparr>) st)"

lemma apply_in_step:
  assumes "applyBehaviorState (gateway_options kw) m bs (en, (st, w)) = (r, (en', (st', w')))"
    and "in_step en st" "jget st (km_id m) = Some m"
  shows "in_step en' st' \<and> moved m st st'"
proof -
  from assms(2) have st: "stored_mappings st" and ms: "me_mappings en = loaded_mappings st" by (simp_all add: in_step_def)
  from assms(1,3) have "st' = km_put (m\<lparr>km_behaviorState := bs\<rparr>) st"
    and "me_mappings en' = replace_first (\<lambda>x. km_id x = km_id m) (m\<lparr>km_behaviorState := bs\<rparr>) (me_mappings en)"
    by (auto simp: applyBehaviorState_def gateway_options_def persist_position_def km_get_def Let_def)
  moreover have "stored_mappings (km_put (m\<lparr>km_behaviorState := bs\<rparr>) st)"
    using stored_mapping_put [OF st] stored_mapping_id [OF st assms(3)] by simp
  moreover have "list_all (\<lambda>(i, m). km_id m = i) st" "jwf st"
    using st by (auto simp: stored_mappings_def list_all_iff)
  ultimately show ?thesis
    using loaded_moved [OF _ _ assms(3), of bs] ms by (auto simp: in_step_def moved_def km_put_def)
qed

lemma resolve_in_step:
  assumes "resolveActionsToRun (gateway_options kw) m (en, (st, w)) = (r, (en', (st', w')))"
    and "in_step en st" "jget st (km_id m) = Some m"
  shows "in_step en' st' \<and> moved m st st'"
proof -
  have ex: "mo_ex (gateway_options kw) = lift_executors (kw_ex kw)" by (simp add: gateway_options_def)
  consider "km_behavior m = Direct" | "km_behavior m = Cycle" | "km_behavior m \<noteq> Direct" "km_behavior m \<noteq> Cycle" by blast
  then show ?thesis
  proof cases
    case 1
    with assms show ?thesis by (simp add: resolveActionsToRun_def eff_return_def moved_def)
  next
    case 2
    show ?thesis
    proof (cases "km_actions m = []")
      case True
      with 2 assms show ?thesis by (simp add: resolveActionsToRun_def eff_return_def moved_def)
    next
      case False
      obtain r1 en1 st1 w1 where a: "applyBehaviorState (gateway_options kw) m
          ((km_behaviorState m)\<lparr>cycleIndex := (cycleIndex (km_behaviorState m) mod length (km_actions m) + 1) mod length (km_actions m)\<rparr>)
          (en, (st, w)) = (r1, (en1, (st1, w1)))" by (metis prod_cases4)
      with 2 False assms(1) have "en' = en1 \<and> st' = st1"
        by (cases r1) (auto simp: resolveActionsToRun_def Let_def eff_bind_def eff_return_def)
      with apply_in_step [OF a assms(2,3)] show ?thesis by simp
    qed
  next
    case 3
    obtain r1 st1 w1 where b: "resolveBehaviorCommand (lift_executors (kw_ex kw)) m (st, w) = (r1, (st1, w1))" by (metis prod_cases3)
    from store_keptD [OF resolve_behavior_keeps b] have st1: "st1 = st" .
    show ?thesis
    proof (cases r1)
      case (Inl e)
      with 3 b st1 assms show ?thesis by (auto simp: resolveActionsToRun_def ex eff_bind_def on_world_def moved_def)
    next
      case (Inr rb)
      show ?thesis
      proof (cases "rb_next rb")
        case None
        with 3 b Inr st1 assms show ?thesis
          by (auto simp: resolveActionsToRun_def ex eff_bind_def eff_return_def on_world_def moved_def)
      next
        case (Some bs)
        obtain r2 en2 st2 w2 where a: "applyBehaviorState (gateway_options kw) m bs (en, (st, w1)) = (r2, (en2, (st2, w2)))" by (metis prod_cases4)
        with 3 b Inr Some st1 assms(1) have "en' = en2 \<and> st' = st2"
          by (cases r2) (auto simp: resolveActionsToRun_def ex eff_bind_def eff_return_def on_world_def)
        with apply_in_step [OF a assms(2,3)] show ?thesis by simp
      qed
    qed
  qed
qed

lemma in_step_engine: "me_mappings en' = me_mappings en \<Longrightarrow> in_step en st \<Longrightarrow> in_step en' st"
  by (simp add: in_step_def)

lemma execute_in_step:
  assumes "execute_mapping (gateway_options kw) m skip (en, (st, w)) = (r, (en', (st', w')))"
    and "in_step en st" "jget st (km_id m) = Some m"
  shows "in_step en' st' \<and> moved m st st'"
proof -
  have ex: "mo_ex (gateway_options kw) = lift_executors (kw_ex kw)" by (simp add: gateway_options_def)
  have clock: "keeps (ex_date (mo_ex (gateway_options kw)))" "keeps (ex_now (mo_ex (gateway_options kw)))"
    by (simp_all add: gateway_options_def lift_executors_def)
  obtain started w1 where d: "ex_date (mo_ex (gateway_options kw)) (st, w) = (started, (st, w1))"
    by (rule store_keptE [OF clock(1)])
  obtain t0 w2 where n: "ex_now (mo_ex (gateway_options kw)) (st, w1) = (t0, (st, w2))"
    by (rule store_keptE [OF clock(2)])
  obtain c w3 where c: "(if skip then (Inr None, (st, w2))
      else evaluateConditions (mo_ex (gateway_options kw)) (km_conditions m) started (st, w2)) = (c, (st, w3))"
  proof (cases skip)
    case False
    obtain c st1 w3 where e: "evaluateConditions (mo_ex (gateway_options kw)) (km_conditions m) started (st, w2) = (c, (st1, w3))"
      by (metis prod_cases3)
    with store_keptD [OF conditions_keep e [unfolded ex]] False that show ?thesis by simp
  qed (simp add: that)
  show ?thesis
  proof (cases c)
    case (Inl e)
    with assms d n c show ?thesis by (simp add: execute_mapping_def moved_def)
  next
    case (Inr failed)
    obtain acts err en1 st1 w4 where a: "(if failed = None then attempt_actions (gateway_options kw) m (en, (st, w3))
        else (([], None), (en, (st, w3)))) = ((acts, err), (en1, (st1, w4)))" by (metis prod_cases3 surj_pair)
    have step: "in_step en1 st1 \<and> moved m st st1"
    proof (cases failed)
      case None
      with a have at: "attempt_actions (gateway_options kw) m (en, (st, w3)) = ((acts, err), (en1, (st1, w4)))" by simp
      obtain res en2 st2 w5 where r: "resolveActionsToRun (gateway_options kw) m (en, (st, w3)) = (res, (en2, (st2, w5)))" by (metis prod_cases4)
      have "en1 = en2 \<and> st1 = st2"
      proof (cases res)
        case (Inr as)
        obtain rs st3 w6 where "run_actions (lift_executors (kw_ex kw)) as (st2, w5) = (rs, (st3, w6))" by (metis prod_cases3)
        with run_actions_keep [OF this] at r Inr show ?thesis by (auto simp: attempt_actions_def ex)
      qed (use at r in \<open>auto simp: attempt_actions_def\<close>)
      with resolve_in_step [OF r assms(2,3)] show ?thesis by simp
    qed (use a assms(2) in \<open>auto simp: moved_def\<close>)
    obtain t1 w5 where n1: "ex_now (mo_ex (gateway_options kw)) (st1, w4) = (t1, (st1, w5))"
      by (rule store_keptE [OF clock(2)])
    have onRun: "y = x" if "ex_onRun (mo_ex (gateway_options kw)) = Some f" "f i ok (x, v) = (y, v')" for f i ok x v y v'
      using that by (auto simp: gateway_options_def lift_executors_def)
    have "me_mappings (push_mapping_run x en1) = me_mappings en1" for x by (simp add: push_mapping_run_def)
    then have "me_mappings en' = me_mappings en1 \<and> st' = st1"
      using assms(1) d n c Inr a n1
      by (auto simp: execute_mapping_def record_mapping_run_def Let_def dest: onRun split: if_splits option.splits)
    with step in_step_engine show ?thesis by blast
  qed
qed

lemma moved_other: "moved m st st' \<Longrightarrow> i \<noteq> km_id m \<Longrightarrow> jget st' i = jget st i"
  by (auto simp: moved_def)

lemma fire_in_step:
  assumes "fire_mapping (gateway_options kw) ev m (en, (st, w)) = (r, (en', (st', w')))"
    and "in_step en st" "jget st (km_id m) = Some m"
  shows "in_step en' st' \<and> moved m st st'"
proof (cases "jget (me_inFlight en) (km_id m)")
  case (Some e)
  with assms show ?thesis by (auto simp: fire_mapping_def in_step_def moved_def)
next
  case None
  obtain res en1 st1 w1 where x: "execute_mapping (gateway_options kw) m False (en, (st, w)) = (res, (en1, (st1, w1)))" by (metis prod_cases4)
  have onFire: "y = x" if "mo_onFire (gateway_options kw) = Some f" "f ev m run (x, v) = (y, v')" for f run x v y v'
    using that by (auto simp: gateway_options_def)
  have "me_mappings en' = me_mappings en1 \<and> st' = st1"
    using assms(1) None x by (cases res) (auto simp: fire_mapping_def dest: onFire split: option.splits)
  with execute_in_step [OF x assms(2,3)] in_step_engine show ?thesis by blast
qed

lemma fire_matching_in_step:
  assumes "fire_matching (gateway_options kw) ev ms (en, (st, w)) = (r, (en', (st', w')))"
    and "in_step en st" "\<forall>m \<in> set ms. jget st (km_id m) = Some m" "distinct (map km_id ms)"
  shows "in_step en' st' \<and> (\<forall>i. i \<notin> km_id ` set ms \<longrightarrow> jget st' i = jget st i)"
  using assms
proof (induction ms arbitrary: en st w)
  case (Cons m ms)
  show ?case
  proof (cases "mapping_matches ev m")
    case True
    obtain res en1 st1 w1 where f: "fire_mapping (gateway_options kw) ev m (en, (st, w)) = (res, (en1, (st1, w1)))" by (metis prod_cases4)
    from fire_in_step [OF f Cons.prems(2)] Cons.prems(3) have s1: "in_step en1 st1" "moved m st st1" by simp_all
    show ?thesis
    proof (cases res)
      case (Inl e)
      with Cons.prems(1) True f s1 moved_other show ?thesis by (auto simp: eff_bind_def)
    next
      case (Inr u)
      with Cons.prems(1) True f have rest: "fire_matching (gateway_options kw) ev ms (en1, (st1, w1)) = (r, (en', (st', w')))"
        by (simp add: eff_bind_def)
      have "\<forall>n \<in> set ms. jget st1 (km_id n) = Some n"
        using Cons.prems(3,4) moved_other [OF s1(2)] by (metis image_eqI list.set_intros(2) set_map distinct.simps(2) list.simps(9))
      from Cons.IH [OF rest s1(1) this] Cons.prems(4) moved_other [OF s1(2)] show ?thesis by simp
    qed
  next
    case False
    with Cons show ?thesis by simp
  qed
qed (simp add: eff_return_def)

lemma loaded_stored:
  assumes "stored_mappings st"
  shows "\<forall>m \<in> set (loaded_mappings st). jget st (km_id m) = Some m" "distinct (map km_id (loaded_mappings st))"
proof -
  have "map km_id (jvalues st) = map fst st"
    using assms unfolding map_map by (intro map_cong) (auto simp: stored_mappings_def list_all_iff)
  with assms have "distinct (map km_id (jvalues st))" unfolding stored_mappings_def jwf_def by (metis)
  then show "distinct (map km_id (loaded_mappings st))" unfolding loaded_mappings_def by (rule distinct_map_filter)
  show "\<forall>m \<in> set (loaded_mappings st). jget st (km_id m) = Some m"
  proof
    fix m assume "m \<in> set (loaded_mappings st)"
    then obtain i where "(i, m) \<in> set st" by (auto simp: loaded_mappings_def)
    moreover from this assms have "km_id m = i" by (auto simp: stored_mappings_def list_all_iff)
    ultimately show "jget st (km_id m) = Some m" using assms by (simp add: stored_mappings_def jwf_def)
  qed
qed

section \<open>Reachable services\<close>

inductive keypad_step :: "'w keypad_wiring \<Rightarrow> keypad_schemas \<Rightarrow> keypad_service \<times> 'w \<Rightarrow> keypad_service \<times> 'w \<Rightarrow> bool" for kw sc where
  input: "keypad_step kw sc s (snd (kx_onInputEvent kw ev s))"
| test: "keypad_step kw sc s (snd (kx_testRun kw i s))"
| create: "keypad_step kw sc s (snd (kx_create sc new inp s))"
| update: "keypad_step kw sc s (snd (kx_update sc i p s))"
| enable: "keypad_step kw sc s (snd (kx_setEnabled sc i b s))"
| remove: "keypad_step kw sc s (snd (kx_remove i s))"

inductive keypad_reachable :: "'w keypad_wiring \<Rightarrow> keypad_schemas \<Rightarrow> keypad_service \<times> 'w \<Rightarrow> bool" for kw sc where
  boot: "stored_mappings st \<Longrightarrow> keypad_reachable kw sc (kx_start \<lparr>kx_store = st, kx_engine = en, kx_loaded = False\<rparr>, w)"
| step: "keypad_reachable kw sc s \<Longrightarrow> keypad_step kw sc s s' \<Longrightarrow> keypad_reachable kw sc s'"

definition keypad_inv :: "keypad_service \<Rightarrow> bool" where
  "keypad_inv s \<longleftrightarrow> in_step (kx_engine s) (kx_store s)"

lemma kx_reload_inv: "stored_mappings (kx_store s) \<Longrightarrow> keypad_inv (kx_reload s)"
  by (simp add: keypad_inv_def in_step_def kx_reload_def setMappings_def km_list_def loaded_mappings_def)

lemma put_mapping_inv: "keypad_inv (fst s) \<Longrightarrow> mapping_valid m \<Longrightarrow> keypad_inv (fst (snd (put_mapping m s)))"
  using kx_reload_inv [of "(fst s)\<lparr>kx_store := km_put m (kx_store (fst s))\<rparr>"] stored_mapping_put [of "kx_store (fst s)" m]
  by (simp add: put_mapping_def case_prod_unfold keypad_inv_def [of "fst s"] in_step_def)

lemma get_mapping_bind: "eff_bind (kx_get i) f s =
    (case km_get i (kx_store (fst s)) of None \<Rightarrow> (Inl (SupremeError Not_found ''keypad mapping not found''), s) | Some m \<Rightarrow> f m s)"
  by (cases s) (simp add: eff_bind_def kx_get_def split: option.split)

lemma parse_mapping_valid: "parse_mapping sc m = Inr m' \<Longrightarrow> m' = m \<and> mapping_valid m"
  by (auto simp: parse_mapping_def split: if_splits)

lemma create_mapping_inv: "keypad_inv (fst s) \<Longrightarrow> keypad_inv (fst (snd (kx_create sc new inp s)))"
  by (auto simp: kx_create_def eff_throw_def Let_def intro!: put_mapping_inv dest: parse_mapping_valid split: sum.split)

lemma update_mapping_inv: "keypad_inv (fst s) \<Longrightarrow> keypad_inv (fst (snd (kx_update sc i p s)))"
  by (auto simp: kx_update_def get_mapping_bind eff_throw_def Let_def intro!: put_mapping_inv dest: parse_mapping_valid split: sum.split option.split)

lemma remove_mapping_inv: "keypad_inv (fst s) \<Longrightarrow> keypad_inv (fst (snd (kx_remove i s)))"
  using kx_reload_inv [of "(fst s)\<lparr>kx_store := km_remove i (kx_store (fst s))\<rparr>"] stored_mapping_remove [of "kx_store (fst s)" i]
  by (simp add: kx_remove_def get_mapping_bind case_prod_unfold keypad_inv_def [of "fst s"] in_step_def split: option.split)

lemma engine_inv:
  assumes "keypad_inv s" "\<And>r en' st' w'. f (kx_engine s, (kx_store s, w)) = (r, (en', (st', w'))) \<Longrightarrow> in_step en' st'"
  shows "keypad_inv (fst (snd (on_mapping_engine f (s, w))))"
proof -
  obtain r en' st' w' where "f (kx_engine s, (kx_store s, w)) = (r, (en', (st', w')))" by (metis prod_cases4)
  with assms(2) [OF this] show ?thesis by (simp add: on_mapping_engine_def keypad_inv_def)
qed

lemma input_inv: "keypad_inv s \<Longrightarrow> keypad_inv (fst (snd (kx_onInputEvent kw ev (s, w))))"
proof -
  assume s: "keypad_inv s"
  then have "stored_mappings (kx_store s)" "me_mappings (kx_engine s) = loaded_mappings (kx_store s)" by (simp_all add: keypad_inv_def in_step_def)
  note st = this
  have "in_step en' st'" if "onInputEvent (gateway_options kw) ev (kx_engine s, (kx_store s, w)) = (r, (en', (st', w')))" for r en' st' w'
  proof -
    from that st(2) have "fire_matching (gateway_options kw) ev (loaded_mappings (kx_store s)) (kx_engine s, (kx_store s, w)) = (r, (en', (st', w')))"
      by (simp add: onInputEvent_def)
    from fire_matching_in_step [OF this _ loaded_stored [OF st(1)]] s show ?thesis by (simp add: keypad_inv_def)
  qed
  then have "keypad_inv (fst (snd (on_mapping_engine (onInputEvent (gateway_options kw) ev) (s, w))))"
    by (intro engine_inv [OF s])
  with s show ?thesis by (simp add: kx_onInputEvent_def)
qed

lemma test_inv: "keypad_inv s \<Longrightarrow> keypad_inv (fst (snd (kx_testRun kw i (s, w))))"
proof -
  assume s: "keypad_inv s"
  have "in_step en' st'" if "km_get i (kx_store s) = Some m"
      "run_mapping (gateway_options kw) m (kx_engine s, (kx_store s, w)) = (r, (en', (st', w')))" for m r en' st' w'
  proof -
    obtain res en1 st1 w1 where x: "execute_mapping (gateway_options kw) m True (kx_engine s, (kx_store s, w)) = (res, (en1, (st1, w1)))"
      by (metis prod_cases4)
    with that(2) have "en' = en1 \<and> st' = st1" by (cases res) (auto simp: run_mapping_def eff_bind_def eff_return_def)
    moreover from that(1) s have "jget (kx_store s) (km_id m) = Some m"
      using stored_mapping_id [of "kx_store s" i m] by (simp add: keypad_inv_def in_step_def km_get_def)
    ultimately show ?thesis using execute_in_step [OF x] s by (simp add: keypad_inv_def)
  qed
  note step = this
  show ?thesis
  proof (cases "km_get i (kx_store s)")
    case (Some m)
    from engine_inv [OF s step [OF Some]] Some show ?thesis by (simp add: kx_testRun_def get_mapping_bind)
  qed (use s in \<open>simp add: kx_testRun_def get_mapping_bind\<close>)
qed

lemma keypad_reachable_inv: "keypad_reachable kw sc s \<Longrightarrow> keypad_inv (fst s)"
proof (induction rule: keypad_reachable.induct)
  case (boot st en w)
  then show ?case
    using kx_reload_inv [of "\<lparr>kx_store = st, kx_engine = en, kx_loaded = False\<rparr>"] by (simp add: kx_start_def keypad_inv_def)
next
  case (step s s')
  then show ?case
    using input_inv [of "fst s" _ _ "snd s"] test_inv [of "fst s" _ _ "snd s"] create_mapping_inv [of s] update_mapping_inv [of s]
      remove_mapping_inv [of s]
    by (auto elim!: keypad_step.cases simp: kx_setEnabled_def)
qed

text \<open>
  C25: What runs is what is stored: as long as each operation, a firing included, ends before the next one starts, the engine holds after
  any sequence of them exactly the enabled mappings of the store, positions included, each under its own id, and every stored mapping is
  one that the schema admits, so that its behaviour has the target and the actions it needs. The condition is needed: an edit that
  arrives while a firing of the same mapping awaits its actions is undone in the engine when the firing puts its older copy back (the
  finding at mapping-engine.ts:209).
\<close>

theorem keypad_engine_runs_stored:
  assumes "keypad_reachable kw sc (s, w)"
  shows "me_mappings (kx_engine s) = filter km_enabled (km_list (kx_store s)) \<and>
    (\<forall>i m. km_get i (kx_store s) = Some m \<longrightarrow> km_id m = i \<and> mapping_valid m)"
  using keypad_reachable_inv [OF assms] stored_mapping_id
  by (auto simp: keypad_inv_def in_step_def loaded_mappings_def km_list_def km_get_def)

text \<open>
  An edit keeps a mapping's place: whatever a patch changes, the stored mapping has afterwards the id, the home and the position
  (the direction of an alternation, the index of a cycle) it had, and what the patch leaves out; a target is cleared only by an
  explicit null, and a patch that the schema rejects changes nothing.
\<close>

theorem edit_keeps_position:
  assumes "kx_update sc i p (s, w) = (r, (s', w'))"
  shows "(\<exists>e. r = Inl e \<and> s' = s) \<or>
    (\<exists>m m'. r = Inr m' \<and> km_get i (kx_store s) = Some m \<and> kx_store s' = km_put m' (kx_store s) \<and> mapping_valid m' \<and>
       km_id m' = km_id m \<and> km_homeId m' = km_homeId m \<and> km_behaviorState m' = km_behaviorState m \<and>
       km_name m' = or_else (mp_name p) (km_name m) \<and> km_behavior m' = or_else (mp_behavior p) (km_behavior m) \<and>
       (mp_actions p = None \<longrightarrow> km_actions m' = km_actions m) \<and> (mp_conditions p = None \<longrightarrow> km_conditions m' = km_conditions m) \<and>
       (km_target m \<noteq> None \<longrightarrow> km_target m' = None \<longrightarrow> mp_target p = Null))"
proof (cases "km_get i (kx_store s)")
  case None
  with assms show ?thesis by (auto simp: kx_update_def get_mapping_bind)
next
  case (Some m)
  have target: "mp_target p = Null" if "patch_target (mp_target p) (km_target m) = None" "km_target m \<noteq> None"
    using that by (cases "mp_target p") (simp_all add: patch_target_def)
  let ?vars = "or_else (mp_variables p) (km_variables m)"
  show ?thesis
  proof (cases "patch_list (sc_conditions sc) ?vars (mp_conditions p) (km_conditions m)")
    case (Inl e)
    with Some assms show ?thesis by (auto simp: kx_update_def get_mapping_bind eff_throw_def Let_def)
  next
    case (Inr conditions)
    note c = this
    show ?thesis
    proof (cases "patch_list (sc_actions sc) ?vars (mp_actions p) (km_actions m)")
      case (Inl e)
      with c Some assms show ?thesis by (auto simp: kx_update_def get_mapping_bind eff_throw_def Let_def)
    next
      case (Inr actions)
      define m' where "m' = m\<lparr>km_name := or_else (mp_name p) (km_name m),
        km_enabled := or_else (mp_enabled p) (km_enabled m), km_input := or_else (mp_input p) (km_input m),
        km_conditions := conditions, km_actions := actions, km_behavior := or_else (mp_behavior p) (km_behavior m),
        km_target := patch_target (mp_target p) (km_target m), km_variables := ?vars\<rparr>"
      from Some c Inr assms have u: "(case parse_mapping sc m' of Inl e \<Rightarrow> eff_throw e | Inr nxt \<Rightarrow> put_mapping nxt) (s, w) = (r, (s', w'))"
        by (simp add: kx_update_def get_mapping_bind m'_def)
      have kept: "mp_actions p = None \<longrightarrow> actions = km_actions m" "mp_conditions p = None \<longrightarrow> conditions = km_conditions m"
        using c Inr by (auto simp: patch_list_def)
      show ?thesis
      proof (cases "parse_mapping sc m'")
        case (Inl e)
        with u have "r = Inl e" "s' = s" by (simp_all add: eff_throw_def)
        then show ?thesis by blast
      next
        case (Inr n)
        from parse_mapping_valid [OF this] have n: "n = m'" "mapping_valid m'" by simp_all
        with u Inr have "r = Inr m'" "kx_store s' = km_put m' (kx_store s)" by (auto simp: put_mapping_def kx_reload_def)
        with n(2) kept target Some show ?thesis by (auto simp: m'_def)
      qed
    qed
  qed
qed

text \<open>A cycle of two scenes on one button, fired once, renamed, fired again.\<close>

definition demo_cycle :: keypad_mapping where
  "demo_cycle = \<lparr>km_id = ''m'', km_homeId = ''h'', km_name = ''scenes'', km_enabled = True,
     km_input = \<lparr>ki_keypadId = ''k'', ki_control = ''1'', ki_event = EkShort_press\<rparr>, km_conditions = [],
     km_actions = [AcScene_activate ''a'', AcScene_activate ''b''], km_behavior = Cycle,
     km_target = Some \<lparr>kt_deviceId = ''d'', kt_capability = CkOnoff, kt_step = 10, kt_fadeMs = None\<rparr>,
     km_behaviorState = \<lparr>lastDirection = None, cycleIndex = 0\<rparr>, km_variables = []\<rparr>"

definition demo_keypad_schemas :: keypad_schemas where
  "demo_keypad_schemas = \<lparr>sc_conditions = (\<lambda>rs. Inr []), sc_actions = (\<lambda>rs. Inr []), sc_message = (\<lambda>m. ''invalid'')\<rparr>"

definition demo_keypad :: "nat keypad_wiring" where
  "demo_keypad = \<lparr>kw_ex = mo_ex demo_options, kw_onFire = None\<rparr>"

definition demo_keypad_service :: keypad_service where
  "demo_keypad_service = kx_start \<lparr>kx_store = [(''m'', demo_cycle)], kx_engine = new_mapping_engine None, kx_loaded = False\<rparr>"

lemma demo_cycle_valid: "mapping_valid (demo_cycle\<lparr>km_name := n\<rparr>) \<longleftrightarrow> n \<noteq> ''''"
  by (simp add: mapping_valid_def demo_cycle_def mapping_ok_def mapping_issues_def opt_ok_def target_ok_def fade_ok_def)

lemma demo_keypad_reachable: "keypad_reachable demo_keypad demo_keypad_schemas (demo_keypad_service, 0)"
  unfolding demo_keypad_service_def
  by (rule keypad_reachable.boot) (use demo_cycle_valid [of "''scenes''"] in \<open>simp add: stored_mappings_def jwf_def demo_cycle_def\<close>)

lemma demo_cycle_fires:
  "fst (kx_onInputEvent demo_keypad \<lparr>ke_type = Short_press, ke_keypadId = ''k'', ke_control = ''1'', ke_ts = 0\<rparr> (demo_keypad_service, 0)) = Inr ()"
  "kx_store (fst (snd (kx_onInputEvent demo_keypad \<lparr>ke_type = Short_press, ke_keypadId = ''k'', ke_control = ''1'', ke_ts = 0\<rparr> (demo_keypad_service, 0)))) =
     [(''m'', demo_cycle\<lparr>km_behaviorState := \<lparr>lastDirection = None, cycleIndex = 1\<rparr>\<rparr>)]"
  by code_simp+

theorem keypad_engine_runs_stored_witness:
  "map cycleIndex (map km_behaviorState (me_mappings (kx_engine (fst (snd (kx_onInputEvent demo_keypad
     \<lparr>ke_type = Short_press, ke_keypadId = ''k'', ke_control = ''1'', ke_ts = 0\<rparr> (demo_keypad_service, 0))))))) = [1]"
proof -
  let ?s = "snd (kx_onInputEvent demo_keypad \<lparr>ke_type = Short_press, ke_keypadId = ''k'', ke_control = ''1'', ke_ts = 0\<rparr> (demo_keypad_service, 0))"
  have "keypad_reachable demo_keypad demo_keypad_schemas (fst ?s, snd ?s)"
    using keypad_reachable.step [OF demo_keypad_reachable keypad_step.input] by simp
  from keypad_engine_runs_stored [OF this] demo_cycle_fires(2) show ?thesis by (simp add: km_list_def demo_cycle_def)
qed

theorem edit_keeps_position_witness:
  "\<exists>m' s'. kx_update demo_keypad_schemas ''m'' (no_mapping_patch\<lparr>mp_name := Some ''evening''\<rparr>)
      (demo_keypad_service\<lparr>kx_store := [(''m'', demo_cycle\<lparr>km_behaviorState := \<lparr>lastDirection = None, cycleIndex = 1\<rparr>\<rparr>)]\<rparr>, 0 :: nat) = (Inr m', s') \<and>
     km_name m' = ''evening'' \<and> cycleIndex (km_behaviorState m') = 1"
proof -
  let ?s = "demo_keypad_service\<lparr>kx_store := [(''m'', demo_cycle\<lparr>km_behaviorState := \<lparr>lastDirection = None, cycleIndex = 1\<rparr>\<rparr>)]\<rparr>"
  let ?p = "no_mapping_patch\<lparr>mp_name := Some ''evening''\<rparr>"
  obtain r s' w' where u: "kx_update demo_keypad_schemas ''m'' ?p (?s, 0 :: nat) = (r, (s', w'))" by (metis prod_cases3)
  have valid: "mapping_valid (demo_cycle\<lparr>km_behaviorState := bs, km_name := ''evening''\<rparr>)" for bs
    by (simp add: mapping_valid_def demo_cycle_def mapping_ok_def mapping_issues_def opt_ok_def target_ok_def fade_ok_def)
  from u valid have "\<exists>m'. r = Inr m'"
    by (auto simp: kx_update_def get_mapping_bind km_get_def patch_list_def no_mapping_patch_def patch_target_def or_else_def parse_mapping_def
        put_mapping_def Let_def)
  with edit_keeps_position [OF u] have "\<exists>m'. r = Inr m' \<and> km_name m' = ''evening'' \<and> cycleIndex (km_behaviorState m') = 1"
    by (auto simp: km_get_def no_mapping_patch_def or_else_def)
  with u show ?thesis by blast
qed

end
