(* ===== verification/Keypad_Feedback.thy ===== *)
theory Keypad_Feedback
  imports Automation_Dsl
begin

text \<open>
  The way back to a keypad: the subscriptions of \<^verbatim>\<open>services/keypad-framework/src/subscription-manager.ts\<close> with their index by
  device and capability, and the feedback engine of \<^verbatim>\<open>feedback-engine.ts\<close>, which renders a device's new state for every subscribed
  control. A number in a displayed text is kept as the number: how JavaScript prints it is left out.
\<close>

section \<open>Subscriptions\<close>

record keypad_subscription =
  kp_id :: string
  kp_homeId :: home_id
  kp_deviceId :: device_id
  kp_capability :: capability_kind
  kp_keypadId :: device_id
  kp_control :: string

type_synonym subscription_store = "(string, keypad_subscription) jsmap"

record subscription_manager =
  sm_store :: subscription_store
  sm_byDevice :: "(string, subscription_store) jsmap"

definition deviceKey :: "device_id \<Rightarrow> capability_kind \<Rightarrow> string" where
  "deviceKey d c = d @ '':'' @ kind_name c"

definition sub_index :: "keypad_subscription \<Rightarrow> (string, subscription_store) jsmap \<Rightarrow> (string, subscription_store) jsmap" where
  "sub_index sub m =
     (let key = deviceKey (kp_deviceId sub) (kp_capability sub);
          bucket = (case jget m key of None \<Rightarrow> [] | Some b \<Rightarrow> b)
      in jset key (jset (kp_id sub) sub bucket) m)"

definition sub_hydrate :: "subscription_manager \<Rightarrow> subscription_manager" where
  "sub_hydrate s = s\<lparr>sm_byDevice := fold sub_index (jvalues (sm_store s)) []\<rparr>"

text \<open>\<^verbatim>\<open>subscribe\<close>; the new id is an argument, and the input's fields come with it.\<close>

definition subscribe :: "keypad_subscription \<Rightarrow> subscription_manager \<Rightarrow> subscription_manager" where
  "subscribe sub s = s\<lparr>sm_store := jset (kp_id sub) sub (sm_store s), sm_byDevice := sub_index sub (sm_byDevice s)\<rparr>"

definition unsubscribe :: "string \<Rightarrow> subscription_manager \<Rightarrow> subscription_manager" where
  "unsubscribe i s = s\<lparr>sm_store := jdel i (sm_store s), sm_byDevice := map (\<lambda>(k, b). (k, jdel i b)) (sm_byDevice s)\<rparr>"

definition sub_list :: "subscription_manager \<Rightarrow> keypad_subscription list" where
  "sub_list s = concat (map jvalues (jvalues (sm_byDevice s)))"

definition subscribersFor :: "device_id \<Rightarrow> capability_kind \<Rightarrow> subscription_manager \<Rightarrow> keypad_subscription list" where
  "subscribersFor d c s = (case jget (sm_byDevice s) (deviceKey d c) of None \<Rightarrow> [] | Some b \<Rightarrow> jvalues b)"

section \<open>Rendering\<close>

datatype feedback_capability = FcLed | FcRgb_led | FcDisplay | FcHaptic | FcBuzzer | FcBrightness_feedback | FcIcon_feedback | FcText_feedback

record control_descriptor =
  cd_id :: string
  cd_feedback :: "feedback_capability list"

record capability_declaration =
  kd_keypadId :: device_id
  kd_controls :: "control_descriptor list"

datatype text_part = Lit string | Num rat | Fixed1 rat

type_synonym display_text = "text_part list"

text \<open>The commands the engine sends; the other types of the schema are the drivers' own.\<close>

datatype feedback_type = Led_on | Led_off | Led_color rat rat | Led_brightness rat | Display_text display_text

record feedback_command =
  fc_type :: feedback_type
  fc_keypadId :: device_id
  fc_control :: string

definition onOffOf :: "capability_state \<Rightarrow> bool option" where
  "onOffOf st = (case st of
       OnOffState b \<Rightarrow> Some b | BrightnessState b _ \<Rightarrow> Some b | ColorState c \<Rightarrow> Some (c_on c) | FanState b _ _ \<Rightarrow> Some b | _ \<Rightarrow> None)"

definition describePlayback :: "playback \<Rightarrow> string" where
  "describePlayback p = (case p of Playing \<Rightarrow> ''Playing'' | Paused \<Rightarrow> ''Paused'' | Stopped \<Rightarrow> ''Stopped'' | Idle \<Rightarrow> ''Idle'')"

definition describeVacuum :: "vacuum_status \<Rightarrow> string" where
  "describeVacuum v = (case v of VsIdle \<Rightarrow> ''Idle'' | VsCleaning \<Rightarrow> ''Cleaning'' | VsPaused \<Rightarrow> ''Paused''
     | VsReturning \<Rightarrow> ''Returning'' | VsDocked \<Rightarrow> ''Docked'')"

text \<open>\<^verbatim>\<open>capitalize\<close> of the two enumerations it is applied to.\<close>

definition capitalize :: "string \<Rightarrow> string" where
  "capitalize s = (case s of [] \<Rightarrow> []
     | c # cs \<Rightarrow> (let n = of_char c :: nat in if 97 \<le> n \<and> n \<le> 122 then char_of (n - 32) else c) # cs)"

definition button_name :: "remote_button \<Rightarrow> string" where
  "button_name b = (case b of RbUp \<Rightarrow> ''up'' | RbDown \<Rightarrow> ''down'' | RbLeft \<Rightarrow> ''left'' | RbRight \<Rightarrow> ''right'' | RbSelect \<Rightarrow> ''select''
     | RbBack \<Rightarrow> ''back'' | RbMenu \<Rightarrow> ''menu'' | RbHome \<Rightarrow> ''home'')"

definition power_name :: "display_power \<Rightarrow> string" where
  "power_name p = (case p of DpOff \<Rightarrow> ''off'' | DpWarming \<Rightarrow> ''warming'' | DpOn \<Rightarrow> ''on'' | DpCooling \<Rightarrow> ''cooling'' | DpUnknown \<Rightarrow> ''unknown'')"

text \<open>The two non-ASCII characters of the texts, as UTF-8.\<close>

definition middle_dot :: string where
  "middle_dot = [char_of (194 :: nat), char_of (183 :: nat)]"

definition degree :: string where
  "degree = [char_of (194 :: nat), char_of (176 :: nat)]"

definition on_level :: "bool \<Rightarrow> rat \<Rightarrow> display_text" where
  "on_level b l = (if b then [Lit (''On '' @ middle_dot @ '' ''), Num l, Lit ''%''] else [Lit ''Off''])"

definition describeState :: "capability_state \<Rightarrow> display_text option" where
  "describeState st = (case st of
       OnOffState b \<Rightarrow> Some [Lit (if b then ''On'' else ''Off'')]
     | BrightnessState b l \<Rightarrow> Some (on_level b l)
     | ColorState c \<Rightarrow> Some (on_level (c_on c) (c_level c))
     | TemperatureState t \<Rightarrow> Some [Fixed1 (case t_targetC t of None \<Rightarrow> t_ambientC t | Some x \<Rightarrow> x), Lit degree]
     | PositionState p _ \<Rightarrow> Some [Num p, Lit ''%'']
     | MediaState m \<Rightarrow> Some [Lit (case m_title m of None \<Rightarrow> describePlayback (m_playback m) | Some x \<Rightarrow> x)]
     | LockState locked jammed \<Rightarrow> Some [Lit (if jammed then ''Jammed'' else if locked then ''Locked'' else ''Unlocked'')]
     | FanState b _ _ \<Rightarrow> Some [Lit (if b then ''On'' else ''Off'')]
     | VacuumState v _ \<Rightarrow> Some [Lit (describeVacuum v)]
     | SensorState v unit _ \<Rightarrow> Some [Num v, Lit unit]
     | RemoteState lastButton \<Rightarrow> map_option (\<lambda>b. [Lit (capitalize (button_name b))]) lastButton
     | DisplayState d \<Rightarrow> (if d_power d = DpUnknown then None else Some [Lit (capitalize (power_name (d_power d)))]))"

definition has :: "control_descriptor \<Rightarrow> feedback_capability \<Rightarrow> bool" where
  "has control c \<longleftrightarrow> c \<in> set (cd_feedback control)"

definition renderFeedback :: "capability_state \<Rightarrow> control_descriptor \<Rightarrow> device_id \<Rightarrow> string \<Rightarrow> feedback_command list" where
  "renderFeedback st control keypadId controlId =
     (let command = (\<lambda>t. \<lparr>fc_type = t, fc_keypadId = keypadId, fc_control = controlId\<rparr>);
          dimmable = has control FcBrightness_feedback \<and> (has control FcLed \<or> has control FcRgb_led)
      in (case onOffOf st of None \<Rightarrow> []
          | Some on \<Rightarrow> if has control FcLed then [command (if on then Led_on else Led_off)] else []) @
         (case st of BrightnessState _ l \<Rightarrow> if dimmable then [command (Led_brightness l)] else [] | _ \<Rightarrow> []) @
         (case st of ColorState c \<Rightarrow>
            (case (c_hue c, c_saturation c) of
               (Some h, Some sat) \<Rightarrow> if has control FcRgb_led then [command (Led_color h sat)] else [] | _ \<Rightarrow> []) @
            (if dimmable then [command (Led_brightness (c_level c))] else []) | _ \<Rightarrow> []) @
         (if has control FcText_feedback \<or> has control FcDisplay
          then (case describeState st of None \<Rightarrow> [] | Some t \<Rightarrow> [command (Display_text t)]) else []))"

section \<open>The fan-out\<close>

record device_state_change =
  dc_deviceId :: device_id
  dc_capability :: capability_kind
  dc_state :: capability_state

record 'w feedback_options =
  fo_getKeypadCapabilities :: "device_id \<Rightarrow> ('w, capability_declaration option) eff"
  fo_sendFeedback :: "feedback_command \<Rightarrow> ('w, unit) eff"
  fo_onError :: "(error \<Rightarrow> keypad_subscription \<Rightarrow> 'w \<Rightarrow> 'w) option"

definition send_caught :: "'w feedback_options \<Rightarrow> keypad_subscription \<Rightarrow> feedback_command \<Rightarrow> 'w \<Rightarrow> 'w" where
  "send_caught opts sub c w = (case fo_sendFeedback opts c w of
       (Inr _, w') \<Rightarrow> w'
     | (Inl e, w') \<Rightarrow> (case fo_onError opts of None \<Rightarrow> w' | Some f \<Rightarrow> f e sub w'))"

type_synonym declaration_cache = "(device_id, capability_declaration option) jsmap"

definition declaration_of ::
    "'w feedback_options \<Rightarrow> device_id \<Rightarrow> declaration_cache \<Rightarrow> ('w, capability_declaration option \<times> declaration_cache) eff" where
  "declaration_of opts k cache =
     (case jget cache k of
        Some decl \<Rightarrow> eff_return (decl, cache)
      | None \<Rightarrow> eff_bind (fo_getKeypadCapabilities opts k) (\<lambda>decl. eff_return (decl, jset k decl cache)))"

definition sub_commands :: "capability_state \<Rightarrow> capability_declaration option \<Rightarrow> keypad_subscription \<Rightarrow> feedback_command list" where
  "sub_commands st decl sub =
     (case Option.bind decl (\<lambda>d. find (\<lambda>c. cd_id c = kp_control sub) (kd_controls d)) of
        None \<Rightarrow> []
      | Some control \<Rightarrow> renderFeedback st control (kp_keypadId sub) (kp_control sub))"

fun fan_out :: "'w feedback_options \<Rightarrow> capability_state \<Rightarrow> declaration_cache \<Rightarrow> keypad_subscription list \<Rightarrow> ('w, unit) eff" where
  "fan_out opts st cache [] = eff_return ()"
| "fan_out opts st cache (sub # subs) =
     eff_bind (declaration_of opts (kp_keypadId sub) cache) (\<lambda>(decl, cache') w.
       fan_out opts st cache' subs (fold (send_caught opts sub) (sub_commands st decl sub) w))"

definition fb_onDeviceState :: "'w feedback_options \<Rightarrow> subscription_manager \<Rightarrow> device_state_change \<Rightarrow> ('w, unit) eff" where
  "fb_onDeviceState opts subs ev =
     (let ss = subscribersFor (dc_deviceId ev) (dc_capability ev) subs
      in if ss = [] then eff_return () else fan_out opts (dc_state ev) [] ss)"

section \<open>The index is the store\<close>

definition sub_key :: "keypad_subscription \<Rightarrow> string" where
  "sub_key sub = deviceKey (kp_deviceId sub) (kp_capability sub)"

definition bucket_of :: "(string, subscription_store) jsmap \<Rightarrow> string \<Rightarrow> subscription_store" where
  "bucket_of m key = (case jget m key of None \<Rightarrow> [] | Some b \<Rightarrow> b)"

lemma deviceKey_eq [simp]: "deviceKey d c = deviceKey d' c' \<longleftrightarrow> d = d' \<and> c = c'"
proof -
  have *: "takeWhile (\<lambda>x. x \<noteq> CHR '':'') (rev (deviceKey d c)) = rev (kind_name c)" for d c
  proof -
    have "x \<noteq> CHR '':''" if "x \<in> set (rev (kind_name c))" for x using kind_name_no_colon [of c] that by auto
    from takeWhile_append2 [OF this, of "rev (kind_name c)"] show ?thesis by (simp add: deviceKey_def)
  qed
  show ?thesis
  proof
    assume "deviceKey d c = deviceKey d' c'"
    with * [of d c] * [of d' c'] have "kind_name c = kind_name c'" by simp
    with \<open>deviceKey d c = deviceKey d' c'\<close> show "d = d' \<and> c = c'" by (simp add: deviceKey_def)
  qed simp
qed

lemma bucket_index: "bucket_of (sub_index sub m) key =
    (if key = sub_key sub then jset (kp_id sub) sub (bucket_of m key) else bucket_of m key)"
  by (simp add: bucket_of_def sub_index_def sub_key_def Let_def)

definition subs_inv :: "subscription_manager \<Rightarrow> bool" where
  "subs_inv s \<longleftrightarrow> jwf (sm_store s) \<and> (\<forall>i sub. (i, sub) \<in> set (sm_store s) \<longrightarrow> kp_id sub = i) \<and>
     (\<forall>key. bucket_of (sm_byDevice s) key = filter (\<lambda>(i, sub). sub_key sub = key) (sm_store s))"

lemma bucket_fold:
  assumes "\<forall>(i, sub) \<in> set ys. kp_id sub = i" "distinct (map fst (xs @ ys))"
    and "\<forall>key. bucket_of m key = filter (\<lambda>(i, sub). sub_key sub = key) xs"
  shows "bucket_of (fold sub_index (map snd ys) m) key = filter (\<lambda>(i, sub). sub_key sub = key) (xs @ ys)"
  using assms
proof (induction ys arbitrary: xs m)
  case (Cons y ys)
  obtain i sub where y: "y = (i, sub)" by fastforce
  with Cons.prems(1) have i: "kp_id sub = i" by simp
  have "jset i sub (filter (\<lambda>(i, sub). sub_key sub = k) xs) = filter (\<lambda>(i, sub). sub_key sub = k) xs @ [(i, sub)]" for k
    using Cons.prems(2) y by (intro jset_new) (auto simp: map_of_eq_None_iff image_iff)
  then have "\<forall>k. bucket_of (sub_index sub m) k = filter (\<lambda>(i, sub). sub_key sub = k) (xs @ [y])"
    using Cons.prems(3) y i by (auto simp: bucket_index)
  from Cons.IH [OF _ _ this] Cons.prems y show ?case by simp
qed simp

lemma sub_hydrate_inv: "jwf st \<Longrightarrow> \<forall>(i, sub) \<in> set st. kp_id sub = i \<Longrightarrow> sm_store s = st \<Longrightarrow> subs_inv (sub_hydrate s)"
  using bucket_fold [of st "[]" "[]"] by (auto simp: subs_inv_def sub_hydrate_def jwf_def bucket_of_def)

lemma subscribe_inv: "subs_inv s \<Longrightarrow> jget (sm_store s) (kp_id sub) = None \<Longrightarrow> subs_inv (subscribe sub s)"
proof -
  assume s: "subs_inv s" and new: "jget (sm_store s) (kp_id sub) = None"
  have "jget (filter P (sm_store s)) (kp_id sub) = None" for P
    using new by (auto simp: map_of_eq_None_iff image_iff)
  with s new show ?thesis
    by (auto simp: subs_inv_def subscribe_def bucket_index jset_new jwf_def map_of_eq_None_iff)
qed

lemma jdel_filter: "jdel i (filter P m) = filter P (jdel i m)"
  by (simp add: AList.delete_eq conj_commute)

lemma unsubscribe_inv: "subs_inv s \<Longrightarrow> subs_inv (unsubscribe i s)"
proof -
  assume s: "subs_inv s"
  have "jget (map (\<lambda>(k, b). (k, jdel i b)) m) key = map_option (jdel i) (jget m key)" for m :: "(string, subscription_store) jsmap" and key
    by (induction m) auto
  then have "bucket_of (map (\<lambda>(k, b). (k, jdel i b)) m) key = jdel i (bucket_of m key)" for m key
    by (simp add: bucket_of_def split: option.split)
  then have bucket: "bucket_of (map (\<lambda>(k, b). (k, jdel i b)) m) key = jdel i (bucket_of m key)" for m key .
  have del: "x \<in> set m" if "x \<in> set (jdel i m)" for x and m :: subscription_store using that by (auto simp: AList.delete_eq)
  from s have "jwf (sm_store (unsubscribe i s))" by (simp add: subs_inv_def unsubscribe_def)
  moreover from s have "\<forall>j sub. (j, sub) \<in> set (sm_store (unsubscribe i s)) \<longrightarrow> kp_id sub = j"
    using del [of _ "sm_store s"] by (auto simp: subs_inv_def unsubscribe_def)
  moreover from s have "bucket_of (sm_byDevice (unsubscribe i s)) key = filter (\<lambda>(i, sub). sub_key sub = key) (sm_store (unsubscribe i s))" for key
    by (simp add: subs_inv_def unsubscribe_def bucket jdel_filter)
  ultimately show ?thesis by (simp add: subs_inv_def)
qed

text \<open>The manager as it runs: loaded at boot, then subscriptions under fresh ids and removals.\<close>

inductive subs_reachable :: "subscription_manager \<Rightarrow> bool" where
  boot: "jwf st \<Longrightarrow> list_all (\<lambda>(i, sub). kp_id sub = i) st \<Longrightarrow> subs_reachable (sub_hydrate \<lparr>sm_store = st, sm_byDevice = m\<rparr>)"
| subscribe: "subs_reachable s \<Longrightarrow> jget (sm_store s) (kp_id sub) = None \<Longrightarrow> subs_reachable (subscribe sub s)"
| unsubscribe: "subs_reachable s \<Longrightarrow> subs_reachable (unsubscribe i s)"

lemma reachable_subs_inv: "subs_reachable s \<Longrightarrow> subs_inv s"
  by (induction rule: subs_reachable.induct) (auto intro: sub_hydrate_inv subscribe_inv unsubscribe_inv simp: list_all_iff)

definition watching :: "device_id \<Rightarrow> capability_kind \<Rightarrow> keypad_subscription \<Rightarrow> bool" where
  "watching d c sub \<longleftrightarrow> kp_deviceId sub = d \<and> kp_capability sub = c"

lemma subscribers_stored: "subs_reachable s \<Longrightarrow> subscribersFor d c s = filter (watching d c) (jvalues (sm_store s))"
proof -
  assume "subs_reachable s"
  then have "bucket_of (sm_byDevice s) (deviceKey d c) = filter (\<lambda>(i, sub). sub_key sub = deviceKey d c) (sm_store s)"
    using reachable_subs_inv subs_inv_def by blast
  moreover have "map snd (filter (\<lambda>(i, sub). sub_key sub = deviceKey d c) m) = filter (watching d c) (map snd m)"
    for m :: subscription_store
    by (induction m) (auto simp: sub_key_def watching_def)
  moreover have "subscribersFor d c s = jvalues (bucket_of (sm_byDevice s) (deviceKey d c))"
    by (simp add: subscribersFor_def bucket_of_def split: option.split)
  ultimately show ?thesis by simp
qed

section \<open>The fan-out reaches everyone\<close>

text \<open>A keypad registry that only answers: the declaration of every keypad, or why it cannot be fetched, without effect.\<close>

definition answers :: "'w feedback_options \<Rightarrow> (device_id \<Rightarrow> error + capability_declaration option) \<Rightarrow> bool" where
  "answers opts ans \<longleftrightarrow> (\<forall>k w. fo_getKeypadCapabilities opts k w = (ans k, w))"

definition fetched :: "(device_id \<Rightarrow> error + capability_declaration option) \<Rightarrow> keypad_subscription \<Rightarrow> bool" where
  "fetched ans sub \<longleftrightarrow> (case ans (kp_keypadId sub) of Inl _ \<Rightarrow> False | Inr _ \<Rightarrow> True)"

definition due_commands ::
    "(device_id \<Rightarrow> error + capability_declaration option) \<Rightarrow> capability_state \<Rightarrow> keypad_subscription \<Rightarrow> (keypad_subscription \<times> feedback_command) list" where
  "due_commands ans st sub = (case ans (kp_keypadId sub) of Inl _ \<Rightarrow> [] | Inr decl \<Rightarrow> map (Pair sub) (sub_commands st decl sub))"

lemma declaration_answered:
  assumes "answers opts ans" "\<forall>k d. jget cache k = Some d \<longrightarrow> ans k = Inr d"
  shows "case ans k of Inl e \<Rightarrow> declaration_of opts k cache w = (Inl e, w)
    | Inr d \<Rightarrow> \<exists>cache'. declaration_of opts k cache w = (Inr (d, cache'), w) \<and> (\<forall>k d. jget cache' k = Some d \<longrightarrow> ans k = Inr d)"
  using assms by (auto simp: declaration_of_def answers_def eff_bind_def eff_return_def split: option.split sum.split)

lemma fan_out_all:
  assumes "answers opts ans" "\<forall>k d. jget cache k = Some d \<longrightarrow> ans k = Inr d"
  shows "fan_out opts st cache subs w =
    (case dropWhile (fetched ans) subs of [] \<Rightarrow> Inr () | sub # _ \<Rightarrow> map_sum id (\<lambda>_. ()) (ans (kp_keypadId sub)),
     fold (\<lambda>(sub, c). send_caught opts sub c) (concat (map (due_commands ans st) (takeWhile (fetched ans) subs))) w)"
  using assms(2)
proof (induction subs arbitrary: cache w)
  case (Cons sub subs)
  note decl = declaration_answered [OF assms(1) Cons.prems, of "kp_keypadId sub" w]
  show ?case
  proof (cases "ans (kp_keypadId sub)")
    case (Inl e)
    with decl show ?thesis by (simp add: eff_bind_def fetched_def)
  next
    case (Inr d)
    with decl obtain cache' where c: "declaration_of opts (kp_keypadId sub) cache w = (Inr (d, cache'), w)"
      "\<forall>k d. jget cache' k = Some d \<longrightarrow> ans k = Inr d" by auto
    have "fold (\<lambda>(sub, c). send_caught opts sub c) (map (Pair sub) cs) w = fold (send_caught opts sub) cs w" for cs w
      by (simp add: fold_map comp_def)
    with Cons.IH [OF c(2)] c(1) Inr show ?thesis by (simp add: eff_bind_def fetched_def due_commands_def)
  qed
qed (simp add: eff_return_def)

text \<open>
  C26: A state change reaches the keypad controls that watch it: of the stored subscriptions of that device and capability, in order,
  each one is sent the commands its control's declaration admits, and a command that cannot be sent is reported and stops none of the
  others. That goes on until the first keypad whose declaration cannot be fetched: its error is the result, and it and the
  subscribers after it get nothing (the finding at feedback-engine.ts:62); when every declaration can be fetched, every
  subscriber is reached. Fetching a declaration is taken to have no effect and to answer alike within one fan-out.
\<close>

theorem feedback_reaches_subscribers:
  assumes "subs_reachable subs" "answers opts ans"
    and "watchers = filter (watching (dc_deviceId ev) (dc_capability ev)) (jvalues (sm_store subs))"
  shows "fb_onDeviceState opts subs ev w =
    (case dropWhile (fetched ans) watchers of [] \<Rightarrow> Inr () | sub # _ \<Rightarrow> map_sum id (\<lambda>_. ()) (ans (kp_keypadId sub)),
     fold (\<lambda>(sub, c). send_caught opts sub c) (concat (map (due_commands ans (dc_state ev)) (takeWhile (fetched ans) watchers))) w)"
  using fan_out_all [OF assms(2), of "[]"] subscribers_stored [OF assms(1), of "dc_deviceId ev" "dc_capability ev"] assms(3)
  by (auto simp: fb_onDeviceState_def eff_return_def Let_def)

text \<open>What a control has to declare for a command.\<close>

definition declared_for :: "feedback_type \<Rightarrow> control_descriptor \<Rightarrow> bool" where
  "declared_for t control \<longleftrightarrow> (case t of
       Led_on \<Rightarrow> has control FcLed | Led_off \<Rightarrow> has control FcLed | Led_color _ _ \<Rightarrow> has control FcRgb_led
     | Led_brightness _ \<Rightarrow> has control FcBrightness_feedback \<and> (has control FcLed \<or> has control FcRgb_led)
     | Display_text _ \<Rightarrow> has control FcText_feedback \<or> has control FcDisplay)"

definition right_command :: "control_descriptor \<Rightarrow> device_id \<Rightarrow> string \<Rightarrow> feedback_command \<Rightarrow> bool" where
  "right_command control k i c \<longleftrightarrow> fc_keypadId c = k \<and> fc_control c = i \<and> declared_for (fc_type c) control"

lemma right_commandI: "declared_for t control \<Longrightarrow> right_command control k i \<lparr>fc_type = t, fc_keypadId = k, fc_control = i\<rparr>"
  by (simp add: right_command_def)

lemma render_declared: "list_all (right_command control k i) (renderFeedback st control k i)"
proof -
  have led: "list_all (right_command control k i) (case d of None \<Rightarrow> []
      | Some on \<Rightarrow> if has control FcLed then [\<lparr>fc_type = if on then Led_on else Led_off, fc_keypadId = k, fc_control = i\<rparr>] else [])" for d
    by (cases d) (simp_all add: right_commandI declared_for_def)
  have disp: "list_all (right_command control k i) (case d of None \<Rightarrow> [] | Some t \<Rightarrow> [\<lparr>fc_type = Display_text t, fc_keypadId = k, fc_control = i\<rparr>])"
    if "has control FcText_feedback \<or> has control FcDisplay" for d
    using that by (cases d) (simp_all add: right_commandI declared_for_def)
  have color: "list_all (right_command control k i) (case (h, t) of
      (Some h, Some sat) \<Rightarrow> if has control FcRgb_led then [\<lparr>fc_type = Led_color h sat, fc_keypadId = k, fc_control = i\<rparr>] else [] | _ \<Rightarrow> [])" for h t
    by (cases h; cases t) (simp_all add: right_commandI declared_for_def)
  have level: "right_command control k i \<lparr>fc_type = Led_brightness l, fc_keypadId = k, fc_control = i\<rparr>"
    if "has control FcBrightness_feedback \<and> (has control FcLed \<or> has control FcRgb_led)" for l
    using that by (simp add: right_commandI declared_for_def)
  have bright: "list_all (right_command control k i) (if has control FcBrightness_feedback \<and> (has control FcLed \<or> has control FcRgb_led)
      then [\<lparr>fc_type = Led_brightness l, fc_keypadId = k, fc_control = i\<rparr>] else [])" for l
    using level by simp
  show ?thesis
    unfolding renderFeedback_def Let_def list_all_append
  proof (intro conjI)
    show "list_all (right_command control k i) (if has control FcText_feedback \<or> has control FcDisplay
        then case describeState st of None \<Rightarrow> [] | Some t \<Rightarrow> [\<lparr>fc_type = Display_text t, fc_keypadId = k, fc_control = i\<rparr>] else [])"
      using disp by (cases "has control FcText_feedback \<or> has control FcDisplay") simp_all
  qed (rule led, (cases st; simp only: capability_state.case list_all_append bright color list.pred_inject simp_thms)+)
qed

text \<open>
  No feedback is made up: a command goes to the subscribed control of the subscribed keypad, which has declared that control with
  what the command needs, and a control that the keypad does not declare gets none.
\<close>

theorem feedback_is_declared:
  assumes "c \<in> set (sub_commands st decl sub)"
  shows "fc_keypadId c = kp_keypadId sub \<and> fc_control c = kp_control sub \<and>
    (\<exists>d control. decl = Some d \<and> control \<in> set (kd_controls d) \<and> cd_id control = kp_control sub \<and> declared_for (fc_type c) control)"
proof -
  from assms obtain d where decl: "decl = Some d" by (cases decl) (simp_all add: sub_commands_def)
  with assms obtain control where d: "decl = Some d" "find (\<lambda>c. cd_id c = kp_control sub) (kd_controls d) = Some control"
    and c: "c \<in> set (renderFeedback st control (kp_keypadId sub) (kp_control sub))"
    by (cases "find (\<lambda>c. cd_id c = kp_control sub) (kd_controls d)") (simp_all add: sub_commands_def)
  from d(2) have "control \<in> set (kd_controls d)" "cd_id control = kp_control sub"
    unfolding find_Some_iff by (metis nth_mem)+
  moreover from c render_declared [of control "kp_keypadId sub" "kp_control sub" st]
  have "fc_keypadId c = kp_keypadId sub \<and> fc_control c = kp_control sub \<and> declared_for (fc_type c) control"
    by (simp add: list_all_iff right_command_def)
  ultimately show ?thesis using d(1) by blast
qed

text \<open>Two controls watch a lamp; the first keypad is unreachable.\<close>

definition demo_sub :: "string \<Rightarrow> device_id \<Rightarrow> keypad_subscription" where
  "demo_sub i k = \<lparr>kp_id = i, kp_homeId = ''h'', kp_deviceId = ''lamp'', kp_capability = CkOnoff, kp_keypadId = k, kp_control = ''1''\<rparr>"

text \<open>Four keypads watch a lamp: the first is offline, the third has no declaration to fetch.\<close>

definition demo_answer :: "device_id \<Rightarrow> error + capability_declaration option" where
  "demo_answer k = (if k = ''k3'' then Inl (PlainError ''gone'')
     else Inr (Some \<lparr>kd_keypadId = k, kd_controls = [\<lparr>cd_id = ''1'', cd_feedback = [FcLed]\<rparr>]\<rparr>))"

definition demo_feedback :: "feedback_command list feedback_options" where
  "demo_feedback = \<lparr>fo_getKeypadCapabilities = (\<lambda>k w. (demo_answer k, w)),
     fo_sendFeedback = (\<lambda>c w. if fc_keypadId c = ''k1'' then (Inl (PlainError ''offline''), w) else (Inr (), w @ [c])), fo_onError = None\<rparr>"

definition demo_subs :: subscription_manager where
  "demo_subs = subscribe (demo_sub ''d'' ''k4'') (subscribe (demo_sub ''c'' ''k3'') (subscribe (demo_sub ''b'' ''k2'') (sub_hydrate \<lparr>sm_store = [(''a'', demo_sub ''a'' ''k1'')], sm_byDevice = []\<rparr>)))"

lemma demo_subs_reachable: "subs_reachable demo_subs"
  unfolding demo_subs_def
  by (intro subs_reachable.subscribe subs_reachable.boot) (simp_all add: demo_sub_def sub_hydrate_def subscribe_def jwf_def)

theorem feedback_reaches_subscribers_witness:
  "fb_onDeviceState demo_feedback demo_subs \<lparr>dc_deviceId = ''lamp'', dc_capability = CkOnoff, dc_state = OnOffState True\<rparr> [] =
     (Inl (PlainError ''gone''), [\<lparr>fc_type = Led_on, fc_keypadId = ''k2'', fc_control = ''1''\<rparr>])"
proof -
  have "answers demo_feedback demo_answer" by (simp add: answers_def demo_feedback_def)
  from feedback_reaches_subscribers [OF demo_subs_reachable this refl, of "\<lparr>dc_deviceId = ''lamp'', dc_capability = CkOnoff, dc_state = OnOffState True\<rparr>" "[]"]
  show ?thesis
    by (simp add: demo_subs_def subscribe_def sub_hydrate_def demo_sub_def watching_def sub_commands_def renderFeedback_def onOffOf_def has_def
        describeState_def send_caught_def demo_feedback_def fetched_def due_commands_def demo_answer_def Let_def)
qed

theorem feedback_is_declared_witness:
  "\<exists>d control. Some \<lparr>kd_keypadId = ''k'', kd_controls = [\<lparr>cd_id = ''1'', cd_feedback = [FcLed]\<rparr>]\<rparr> = Some d \<and>
     control \<in> set (kd_controls d) \<and> declared_for Led_off control"
proof -
  have "\<lparr>fc_type = Led_off, fc_keypadId = ''k'', fc_control = ''1''\<rparr> \<in>
      set (sub_commands (OnOffState False) (Some \<lparr>kd_keypadId = ''k'', kd_controls = [\<lparr>cd_id = ''1'', cd_feedback = [FcLed]\<rparr>]\<rparr>) (demo_sub ''a'' ''k''))"
    by (simp add: sub_commands_def demo_sub_def renderFeedback_def onOffOf_def has_def Let_def)
  from feedback_is_declared [OF this] show ?thesis by auto
qed

end
