(* ===== verification/Driver_Config.thy ===== *)
theory Driver_Config
  imports Prelude
begin

text \<open>
  The validation of a driver's configuration, \<^verbatim>\<open>services/drivers/src/config.ts\<close>, against the schema its manifest declares, and the
  masking of secrets in front of it (\<^verbatim>\<open>maskSecrets\<close> of \<^verbatim>\<open>services/gateway/src/installer-context.ts\<close>). The values of a configuration are
  primitive; the objects and arrays that JSON could carry are left out. How JavaScript prints a number is an argument.
\<close>

section \<open>Data\<close>

text \<open>Of a field, its placeholder and help are left out, and an option is its value: the rest is presentation.\<close>

datatype config_value = CvNull | CvBool bool | CvNum rat | CvStr string

type_synonym driver_config = "(string, config_value) jsmap"

datatype field_type = FtText | FtPassword | FtNumber | FtBoolean | FtSelect | FtHost | FtPort

record config_field =
  cf_key :: string
  cf_label :: string
  cf_type :: field_type
  cf_required :: bool
  cf_requiredIf :: "(string \<times> string) option"
  cf_default :: "config_value option"
  cf_options :: "string list option"
  cf_min :: "rat option"
  cf_max :: "rat option"
  cf_secret :: bool

text \<open>Eight bullets in UTF-8, and the two relations of the messages.\<close>

definition SECRET_MASK :: string where
  "SECRET_MASK = concat (replicate 8 (map (char_of :: nat \<Rightarrow> char) [226, 128, 162]))"

definition geq :: string where
  "geq = map (char_of :: nat \<Rightarrow> char) [226, 137, 165]"

definition leq :: string where
  "leq = map (char_of :: nat \<Rightarrow> char) [226, 137, 164]"

text \<open>\<^verbatim>\<open>x !== undefined && x !== ""\<close>\<close>

definition filled :: "config_value option \<Rightarrow> bool" where
  "filled x \<longleftrightarrow> x \<noteq> None \<and> x \<noteq> Some (CvStr '''')"

definition js_string :: "(rat \<Rightarrow> string) \<Rightarrow> config_value \<Rightarrow> string" where
  "js_string shw v = (case v of CvNull \<Rightarrow> ''null'' | CvBool b \<Rightarrow> if b then ''true'' else ''false'' | CvNum q \<Rightarrow> shw q | CvStr s \<Rightarrow> s)"

definition js_number :: "config_value \<Rightarrow> rat option" where
  "js_number v = (case v of CvNull \<Rightarrow> Some 0 | CvBool b \<Rightarrow> Some (if b then 1 else 0) | CvNum q \<Rightarrow> Some q | CvStr s \<Rightarrow> js_Number_of_string s)"

text \<open>\<^verbatim>\<open>String(value ?? "")\<close>\<close>

definition string_or_empty :: "(rat \<Rightarrow> string) \<Rightarrow> config_value option \<Rightarrow> string" where
  "string_or_empty shw x = (case x of None \<Rightarrow> '''' | Some CvNull \<Rightarrow> '''' | Some v \<Rightarrow> js_string shw v)"

definition schema_default :: "config_field list \<Rightarrow> string \<Rightarrow> config_value option" where
  "schema_default schema k = Option.bind (find (\<lambda>c. cf_key c = k) schema) cf_default"

definition isFieldRequired ::
    "(rat \<Rightarrow> string) \<Rightarrow> config_field \<Rightarrow> config_field list \<Rightarrow> driver_config \<Rightarrow> driver_config \<Rightarrow> bool" where
  "isFieldRequired shw f schema inp existing =
     (if cf_required f then True
      else (case cf_requiredIf f of
              None \<Rightarrow> False
            | Some (k, equals) \<Rightarrow>
                (let raw = (if filled (jget inp k) then jget inp k else jget existing k);
                     v = (if filled raw then raw else schema_default schema k)
                 in string_or_empty shw v = equals)))"

section \<open>Validation\<close>

definition is_required_message :: "config_field \<Rightarrow> string" where
  "is_required_message f = cf_label f @ '' is required''"

text \<open>The value that a filled field is stored as, or the error; the last branch is the rest of the \<^verbatim>\<open>switch\<close>.\<close>

definition min_of :: "config_field \<Rightarrow> rat option" where
  "min_of f = (if cf_type f = FtPort \<and> cf_min f = None then Some 1 else cf_min f)"

definition max_of :: "config_field \<Rightarrow> rat option" where
  "max_of f = (if cf_type f = FtPort \<and> cf_max f = None then Some 65535 else cf_max f)"

definition coerce :: "(rat \<Rightarrow> string) \<Rightarrow> config_field \<Rightarrow> config_value \<Rightarrow> string + config_value" where
  "coerce shw f v =
     (if cf_type f = FtNumber \<or> cf_type f = FtPort then
        (case js_number v of
           None \<Rightarrow> Inl (cf_label f @ '' must be a number'')
         | Some n \<Rightarrow>
             (case (min_of f, max_of f) of
                (mn, mx) \<Rightarrow>
                  (case mn of
                     Some m \<Rightarrow> if n < m then Inl (cf_label f @ '' must be '' @ geq @ '' '' @ shw m)
                       else (case mx of Some m' \<Rightarrow> if n > m' then Inl (cf_label f @ '' must be '' @ leq @ '' '' @ shw m') else Inr (CvNum n)
                                      | None \<Rightarrow> Inr (CvNum n))
                   | None \<Rightarrow> (case mx of Some m' \<Rightarrow> if n > m' then Inl (cf_label f @ '' must be '' @ leq @ '' '' @ shw m') else Inr (CvNum n)
                                      | None \<Rightarrow> Inr (CvNum n)))))
      else if cf_type f = FtBoolean then
        Inr (CvBool (v = CvBool True \<or> v = CvStr ''true'' \<or> v = CvNum 1 \<or> v = CvStr ''1''))
      else if cf_type f = FtSelect then
        (let allowed = or_else (cf_options f) []
         in if allowed \<noteq> [] \<and> js_string shw v \<notin> set allowed then Inl (cf_label f @ '' is not a valid option'')
            else Inr (CvStr (js_string shw v)))
      else Inr (CvStr (js_string shw v)))"

definition validate_field ::
    "(rat \<Rightarrow> string) \<Rightarrow> config_field list \<Rightarrow> driver_config \<Rightarrow> driver_config \<Rightarrow> driver_config \<Rightarrow> config_field \<Rightarrow>
     driver_config \<times> string list \<Rightarrow> driver_config \<times> string list" where
  "validate_field shw schema inp existing fallbacks f = (\<lambda>(out, errors).
     let v = jget inp (cf_key f);
         required = isFieldRequired shw f schema inp existing;
         missing = (if required \<and> \<not> filled (jget fallbacks (cf_key f)) then (out, errors @ [is_required_message f]) else (out, errors))
     in if cf_secret f \<and> (\<not> filled v \<or> v = Some (CvStr SECRET_MASK)) then
          (case jget existing (cf_key f) of Some x \<Rightarrow> (jset (cf_key f) x out, errors) | None \<Rightarrow> missing)
        else
          (case (if filled v then v else cf_default f) of
             None \<Rightarrow> missing
           | Some x \<Rightarrow> (case coerce shw f x of Inl e \<Rightarrow> (out, errors @ [e]) | Inr y \<Rightarrow> (jset (cf_key f) y out, errors))))"

definition validateDriverConfig ::
    "(rat \<Rightarrow> string) \<Rightarrow> config_field list \<Rightarrow> driver_config \<Rightarrow> driver_config \<Rightarrow> driver_config \<Rightarrow> driver_config \<times> string list" where
  "validateDriverConfig shw schema inp existing fallbacks = fold (validate_field shw schema inp existing fallbacks) schema ([], [])"

definition defaultDriverConfig :: "config_field list \<Rightarrow> driver_config" where
  "defaultDriverConfig schema = fold (\<lambda>f out. case cf_default f of None \<Rightarrow> out | Some v \<Rightarrow> jset (cf_key f) v out) schema []"

definition isConfigComplete ::
    "(rat \<Rightarrow> string) \<Rightarrow> config_field list \<Rightarrow> driver_config \<Rightarrow> driver_config \<Rightarrow> bool \<times> string list" where
  "isConfigComplete shw schema config fallbacks =
     (let missing = map cf_key (filter (\<lambda>f. isFieldRequired shw f schema config [] \<and> \<not> filled (jget config (cf_key f)) \<and>
            \<not> filled (jget fallbacks (cf_key f))) schema)
      in (missing = [], missing))"

definition maskSecrets :: "config_field list \<Rightarrow> driver_config \<Rightarrow> driver_config" where
  "maskSecrets schema config =
     fold (\<lambda>f out. if cf_secret f \<and> filled (jget out (cf_key f)) then jset (cf_key f) (CvStr SECRET_MASK) out else out) schema config"

section \<open>Field by field\<close>

text \<open>What validation gives for one field.\<close>

definition field_result ::
    "(rat \<Rightarrow> string) \<Rightarrow> config_field list \<Rightarrow> driver_config \<Rightarrow> driver_config \<Rightarrow> driver_config \<Rightarrow> config_field \<Rightarrow> string + config_value option" where
  "field_result shw schema inp existing fallbacks f =
     (let v = jget inp (cf_key f);
          missing = (if isFieldRequired shw f schema inp existing \<and> \<not> filled (jget fallbacks (cf_key f))
                     then Inl (is_required_message f) else Inr None)
      in if cf_secret f \<and> (\<not> filled v \<or> v = Some (CvStr SECRET_MASK)) then
           (case jget existing (cf_key f) of Some x \<Rightarrow> Inr (Some x) | None \<Rightarrow> missing)
         else
           (case (if filled v then v else cf_default f) of
              None \<Rightarrow> missing
            | Some x \<Rightarrow> (case coerce shw f x of Inl e \<Rightarrow> Inl e | Inr y \<Rightarrow> Inr (Some y))))"

lemma validate_field_result:
  "validate_field shw schema inp existing fallbacks f (out, errors) =
     (case field_result shw schema inp existing fallbacks f of
        Inl e \<Rightarrow> (out, errors @ [e]) | Inr None \<Rightarrow> (out, errors) | Inr (Some y) \<Rightarrow> (jset (cf_key f) y out, errors))"
  by (auto simp: validate_field_def field_result_def Let_def split: option.split sum.split)

lemma fold_validate:
  "snd (fold (validate_field shw schema inp existing fallbacks) fs (out, errors)) = errors @ concat (map (\<lambda>f.
     case field_result shw schema inp existing fallbacks f of Inl e \<Rightarrow> [e] | Inr _ \<Rightarrow> []) fs) \<and>
   (\<forall>k. k \<notin> cf_key ` set fs \<longrightarrow> jget (fst (fold (validate_field shw schema inp existing fallbacks) fs (out, errors))) k = jget out k)"
proof (induction fs arbitrary: out errors)
  case (Cons f fs)
  then show ?case by (simp add: validate_field_result split: sum.split option.split)
qed simp

lemma fold_validate_value:
  "distinct (map cf_key fs) \<Longrightarrow> f \<in> set fs \<Longrightarrow> jget out (cf_key f) = None \<Longrightarrow>
   field_result shw schema inp existing fallbacks f = Inr r \<Longrightarrow>
   jget (fst (fold (validate_field shw schema inp existing fallbacks) fs (out, errors))) (cf_key f) = r"
proof (induction fs arbitrary: out errors)
  case (Cons g gs)
  show ?case
  proof (cases "f = g")
    case True
    with Cons.prems have "cf_key f \<notin> cf_key ` set gs" by auto
    with fold_validate [of shw schema inp existing fallbacks gs] Cons.prems True show ?thesis
      by (cases r) (simp_all add: validate_field_result)
  next
    case False
    with Cons.prems have "f \<in> set gs" "cf_key g \<noteq> cf_key f" by auto
    with Cons show ?thesis by (simp add: validate_field_result split: sum.split option.split)
  qed
qed simp

text \<open>An accepted configuration, read field by field.\<close>

lemma accepted_fields:
  assumes "validateDriverConfig shw schema inp existing fallbacks = (config, [])" "distinct (map cf_key schema)"
  shows "f \<in> set schema \<Longrightarrow> field_result shw schema inp existing fallbacks f = Inr (jget config (cf_key f))"
    and "k \<notin> cf_key ` set schema \<Longrightarrow> jget config k = None"
proof -
  from assms(1) have c: "fold (validate_field shw schema inp existing fallbacks) schema ([], []) = (config, [])"
    by (simp add: validateDriverConfig_def)
  note fv = fold_validate [of shw schema inp existing fallbacks schema "[]" "[]", unfolded c]
  show "k \<notin> cf_key ` set schema \<Longrightarrow> jget config k = None" using fv by simp
  assume f: "f \<in> set schema"
  with fv have "\<exists>r. field_result shw schema inp existing fallbacks f = Inr r"
    by (cases "field_result shw schema inp existing fallbacks f") (force split: sum.splits)+
  with fold_validate_value [OF assms(2) f, of "[]" shw schema inp existing fallbacks _ "[]", unfolded c]
  show "field_result shw schema inp existing fallbacks f = Inr (jget config (cf_key f))" by auto
qed

section \<open>A saved form\<close>

text \<open>
  A schema as the manifests have them: keys are distinct, no default is the empty string, and the field that another one's
  requirement looks at is a text or a selection and no secret. A form is full when it submits those fields.
\<close>

definition stringy :: "config_field \<Rightarrow> bool" where
  "stringy f \<longleftrightarrow> \<not> cf_secret f \<and> cf_type f \<notin> {FtNumber, FtPort, FtBoolean}"

definition schema_sane :: "config_field list \<Rightarrow> bool" where
  "schema_sane schema \<longleftrightarrow> distinct (map cf_key schema) \<and> list_all (\<lambda>f. cf_default f \<noteq> Some (CvStr '''')) schema \<and>
     list_all (\<lambda>f. case cf_requiredIf f of None \<Rightarrow> True | Some (k, e) \<Rightarrow> list_ex (\<lambda>g. cf_key g = k \<and> stringy g) schema) schema"

definition full_form :: "config_field list \<Rightarrow> driver_config \<Rightarrow> bool" where
  "full_form schema inp \<longleftrightarrow> list_all (\<lambda>f. case cf_requiredIf f of None \<Rightarrow> True
     | Some (k, e) \<Rightarrow> (case jget inp k of Some (CvStr s) \<Rightarrow> s \<noteq> '''' | _ \<Rightarrow> False)) schema"

definition secrets_kept :: "config_field list \<Rightarrow> driver_config \<Rightarrow> bool" where
  "secrets_kept schema existing \<longleftrightarrow> list_all (\<lambda>f. cf_secret f \<longrightarrow> jget existing (cf_key f) \<noteq> Some (CvStr '''')) schema"

lemma field_cases:
  assumes "field_result shw schema inp existing fallbacks f = Inr r"
  obtains (kept) x where "cf_secret f" "jget existing (cf_key f) = Some x" "r = Some x"
  | (absent) "r = None" "cf_secret f \<or> cf_default f = None"
      "\<not> (isFieldRequired shw f schema inp existing \<and> \<not> filled (jget fallbacks (cf_key f)))"
  | (coerced) x y where "(if filled (jget inp (cf_key f)) then jget inp (cf_key f) else cf_default f) = Some x"
      "coerce shw f x = Inr y" "r = Some y"
proof (cases "cf_secret f \<and> (\<not> filled (jget inp (cf_key f)) \<or> jget inp (cf_key f) = Some (CvStr SECRET_MASK))")
  case True
  then show thesis
    using assms kept absent by (cases "jget existing (cf_key f)") (auto simp: field_result_def Let_def split: if_splits)
next
  case False
  show thesis
  proof (cases "if filled (jget inp (cf_key f)) then jget inp (cf_key f) else cf_default f")
    case None
    then have "cf_default f = None" by (auto simp: filled_def split: if_splits)
    with None False assms absent show thesis by (simp add: field_result_def Let_def split: if_splits)
  next
    case (Some x)
    have "field_result shw schema inp existing fallbacks f = (case coerce shw f x of Inl e \<Rightarrow> Inl e | Inr y \<Rightarrow> Inr (Some y))"
      unfolding field_result_def Let_def if_not_P [OF False] Some option.case ..
    with Some assms coerced show thesis by (cases "coerce shw f x") auto
  qed
qed

lemma coerce_filled: "\<forall>q. shw q \<noteq> '''' \<Longrightarrow> coerce shw f x = Inr y \<Longrightarrow> filled (Some x) \<Longrightarrow> filled (Some y)"
  by (cases x) (auto simp: coerce_def filled_def js_string_def Let_def split: if_splits option.splits)

lemma coerce_again: "coerce shw f x = Inr y \<Longrightarrow> coerce shw f y = Inr y"
proof -
  assume c: "coerce shw f x = Inr y"
  consider "cf_type f = FtNumber \<or> cf_type f = FtPort" | "cf_type f = FtBoolean" | "cf_type f \<notin> {FtNumber, FtPort, FtBoolean}" by blast
  then show ?thesis
  proof cases
    case 1
    with c obtain n where n: "js_number x = Some n" "y = CvNum n"
      by (auto simp: coerce_def split: option.splits if_splits)
    have "js_number y = Some n" using n(2) by (simp add: js_number_def)
    with 1 c n show ?thesis by (simp add: coerce_def)
  next
    case 2
    with c show ?thesis by (auto simp: coerce_def)
  next
    case 3
    with c have "y = CvStr (js_string shw x)" by (auto simp: coerce_def Let_def split: if_splits)
    with 3 c show ?thesis by (auto simp: coerce_def js_string_def Let_def split: if_splits)
  qed
qed

lemma coerce_text: "stringy f \<Longrightarrow> coerce shw f (CvStr s) = Inr y \<Longrightarrow> y = CvStr s"
  by (auto simp: stringy_def coerce_def js_string_def Let_def split: if_splits)

lemma discriminator:
  assumes "schema_sane schema" "full_form schema inp" "f \<in> set schema" "cf_requiredIf f = Some (k, e)"
  obtains g s where "g \<in> set schema" "cf_key g = k" "stringy g" "jget inp k = Some (CvStr s)" "s \<noteq> ''''"
proof -
  from assms(1,3,4) obtain g where g: "g \<in> set schema" "cf_key g = k" "stringy g"
    by (fastforce simp: schema_sane_def list_all_iff list_ex_iff)
  from assms(2-4) have "case jget inp k of Some (CvStr s) \<Rightarrow> s \<noteq> '''' | _ \<Rightarrow> False"
    by (fastforce simp: full_form_def list_all_iff)
  then obtain s where "jget inp k = Some (CvStr s)" "s \<noteq> ''''" by (auto split: option.splits config_value.splits)
  with g that show thesis by blast
qed

text \<open>What the accepted configuration requires, the form required.\<close>

lemma required_same:
  assumes acc: "validateDriverConfig shw schema inp existing fallbacks = (config, [])"
    and sane: "schema_sane schema" "full_form schema inp" and f: "f \<in> set schema"
    and eq: "\<And>g. g \<in> set schema \<Longrightarrow> stringy g \<Longrightarrow> jget inp' (cf_key g) = jget config (cf_key g)"
  shows "isFieldRequired shw f schema inp' existing' = isFieldRequired shw f schema inp existing"
proof (cases "cf_requiredIf f")
  case (Some ke)
  obtain k e where ke: "ke = (k, e)" by fastforce
  obtain g s where g: "g \<in> set schema" "cf_key g = k" "stringy g" "jget inp k = Some (CvStr s)" "s \<noteq> ''''"
    using discriminator [OF sane f] Some ke by metis
  from sane(1) have dist: "distinct (map cf_key schema)" by (simp add: schema_sane_def)
  from accepted_fields(1) [OF acc dist g(1)] g have "\<exists>y. coerce shw g (CvStr s) = Inr y \<and> jget config k = Some y"
    by (cases "coerce shw g (CvStr s)") (auto simp: field_result_def filled_def stringy_def Let_def)
  with coerce_text [OF g(3)] have "jget config k = Some (CvStr s)" by blast
  with eq [OF g(1,3)] g(2) have "jget inp' k = Some (CvStr s)" by simp
  with Some ke g show ?thesis by (simp add: isFieldRequired_def filled_def Let_def)
qed (simp add: isFieldRequired_def)

text \<open>
  A saved form is complete: when a full form is accepted, every field that the stored configuration requires is filled, or the
  deployment's fallback fills it, so that the driver reports itself as configured.
\<close>

theorem accepted_config_complete:
  assumes "validateDriverConfig shw schema inp existing fallbacks = (config, [])"
    and "schema_sane schema" "full_form schema inp" "secrets_kept schema existing" "\<forall>q. shw q \<noteq> ''''"
  shows "isConfigComplete shw schema config fallbacks = (True, [])"
proof -
  from assms(2) have dist: "distinct (map cf_key schema)" by (simp add: schema_sane_def)
  have "filled (jget config (cf_key f)) \<or> filled (jget fallbacks (cf_key f))"
    if f: "f \<in> set schema" and req: "isFieldRequired shw f schema config []" for f
  proof -
    from required_same [OF assms(1-3) f, of config "[]"] req have r: "isFieldRequired shw f schema inp existing" by simp
    from assms(2,4) f have d: "cf_default f \<noteq> Some (CvStr '''')" "cf_secret f \<longrightarrow> jget existing (cf_key f) \<noteq> Some (CvStr '''')"
      by (auto simp: schema_sane_def secrets_kept_def list_all_iff)
    from accepted_fields(1) [OF assms(1) dist f] show ?thesis
    proof (cases rule: field_cases)
      case (coerced x y)
      then have "filled (Some x)" using d(1) by (auto simp: filled_def split: if_splits)
      with coerce_filled [OF assms(5) coerced(2)] coerced(3) show ?thesis by simp
    qed (use r d in \<open>auto simp: filled_def\<close>)
  qed
  then show ?thesis by (auto simp: isConfigComplete_def Let_def filter_empty_conv)
qed

lemma mask_fold:
  "distinct (map cf_key fs) \<Longrightarrow>
   jget (fold (\<lambda>f out. if cf_secret f \<and> filled (jget out (cf_key f)) then jset (cf_key f) (CvStr SECRET_MASK) out else out) fs out) k =
     (if \<exists>f \<in> set fs. cf_key f = k \<and> cf_secret f \<and> filled (jget out k) then Some (CvStr SECRET_MASK) else jget out k)"
proof (induction fs arbitrary: out)
  case (Cons f fs)
  then show ?case by (cases "cf_key f = k") (auto simp: filled_def SECRET_MASK_def)
qed simp

lemma masked_value:
  assumes "distinct (map cf_key schema)" "f \<in> set schema"
  shows "jget (maskSecrets schema config) (cf_key f) =
    (if cf_secret f \<and> filled (jget config (cf_key f)) then Some (CvStr SECRET_MASK) else jget config (cf_key f))"
proof -
  have "(\<exists>g \<in> set schema. cf_key g = cf_key f \<and> cf_secret g \<and> P) \<longleftrightarrow> cf_secret f \<and> P" for P
    using assms by (auto simp: distinct_map inj_on_def)
  then show ?thesis using mask_fold [OF assms(1), of config "cf_key f"] by (simp add: maskSecrets_def)
qed

text \<open>
  C17: Saving a form twice is saving it once: after a complete form was accepted, the stored configuration, shown with its secrets
  masked and submitted again, is accepted and stored as it was, no secret lost and no value changed. Complete means that the form
  fills in every field that another field's requirement depends on (a driver's mode); a partial save that leaves the mode out is the
  exception, as the mode then falls back to its default (finding at config.ts:69). Of the schema it asks distinct keys, no empty text as a
  default, and that requirements depend on readable text or selection fields of the schema; of the stored configuration, that no
  secret is an empty text; and that a printed number is not empty.
\<close>

theorem saved_form_roundtrip:
  assumes "validateDriverConfig shw schema inp existing fallbacks = (config, [])"
    and "schema_sane schema" "full_form schema inp" "secrets_kept schema existing" "\<forall>q. shw q \<noteq> ''''"
  shows "\<exists>config'. validateDriverConfig shw schema (maskSecrets schema config) config fallbacks = (config', []) \<and>
    (\<forall>k. jget config' k = jget config k)"
proof -
  from assms(2) have dist: "distinct (map cf_key schema)" by (simp add: schema_sane_def)
  let ?inp = "maskSecrets schema config"
  have result: "field_result shw schema ?inp config fallbacks f = Inr (jget config (cf_key f))" if f: "f \<in> set schema" for f
  proof -
    have m: "jget ?inp (cf_key f) = (if cf_secret f \<and> filled (jget config (cf_key f)) then Some (CvStr SECRET_MASK) else jget config (cf_key f))"
      by (rule masked_value [OF dist f])
    have req: "isFieldRequired shw f schema ?inp config = isFieldRequired shw f schema inp existing"
      by (rule required_same [OF assms(1-3) f]) (use masked_value [OF dist] in \<open>auto simp: stringy_def\<close>)
    note r1 = accepted_fields(1) [OF assms(1) dist f]
    from assms(2,4) f have d: "cf_default f \<noteq> Some (CvStr '''')" "cf_secret f \<longrightarrow> jget existing (cf_key f) \<noteq> Some (CvStr '''')"
      by (auto simp: schema_sane_def secrets_kept_def list_all_iff)
    show ?thesis
    proof (cases "jget config (cf_key f)")
      case None
      from r1 have miss: "\<not> (isFieldRequired shw f schema inp existing \<and> \<not> filled (jget fallbacks (cf_key f)))" "cf_secret f \<or> cf_default f = None"
        by (cases rule: field_cases; use None in simp)+
      from None m have "jget ?inp (cf_key f) = None" by (simp add: filled_def)
      with miss None req show ?thesis by (auto simp: field_result_def filled_def Let_def)
    next
      case (Some y)
      show ?thesis
      proof (cases "cf_secret f")
        case True
        with Some m show ?thesis by (cases "filled (jget config (cf_key f))") (simp_all add: field_result_def Let_def)
      next
        case False
        from r1 obtain x where x: "coerce shw f x = Inr y" "filled (Some x)"
        proof (cases rule: field_cases)
          case (coerced x z)
          then have "filled (Some x)" using d(1) by (auto simp: filled_def split: if_splits)
          with coerced Some that show thesis by simp
        qed (use False Some in simp_all)
        from coerce_again [OF x(1)] coerce_filled [OF assms(5) x] False Some m show ?thesis
          by (simp add: field_result_def Let_def)
      qed
    qed
  qed
  note fv = fold_validate [of shw schema ?inp config fallbacks schema "[]" "[]"]
  obtain config' errors where v: "validateDriverConfig shw schema ?inp config fallbacks = (config', errors)" by fastforce
  with fv result have "errors = []" by (auto simp: validateDriverConfig_def)
  with v have v: "validateDriverConfig shw schema ?inp config fallbacks = (config', [])" by simp
  have "jget config' k = jget config k" for k
  proof (cases "k \<in> cf_key ` set schema")
    case True
    then obtain f where "f \<in> set schema" "k = cf_key f" by blast
    with accepted_fields(1) [OF v dist] result show ?thesis by fastforce
  next
    case False
    with accepted_fields(2) [OF v dist] accepted_fields(2) [OF assms(1) dist] show ?thesis by simp
  qed
  with v show ?thesis by blast
qed


section \<open>A driver with two modes\<close>

text \<open>As the Casambi driver has it: a selection whose default is the cloud, and a field required in each mode.\<close>

definition mode_field :: config_field where
  "mode_field = \<lparr>cf_key = ''connectionType'', cf_label = ''Connection Type'', cf_type = FtSelect, cf_required = True, cf_requiredIf = None,
     cf_default = Some (CvStr ''cloud''), cf_options = Some [''cloud'', ''local''], cf_min = None, cf_max = None, cf_secret = False\<rparr>"

definition key_field :: config_field where
  "key_field = \<lparr>cf_key = ''apiKey'', cf_label = ''API Key'', cf_type = FtPassword, cf_required = False,
     cf_requiredIf = Some (''connectionType'', ''cloud''), cf_default = None, cf_options = None, cf_min = None, cf_max = None, cf_secret = True\<rparr>"

definition ip_field :: config_field where
  "ip_field = \<lparr>cf_key = ''gatewayIp'', cf_label = ''Gateway IP'', cf_type = FtHost, cf_required = False,
     cf_requiredIf = Some (''connectionType'', ''local''), cf_default = None, cf_options = None, cf_min = None, cf_max = None, cf_secret = False\<rparr>"

definition two_modes :: "config_field list" where
  "two_modes = [mode_field, key_field, ip_field]"

definition cloud_form :: driver_config where
  "cloud_form = [(''connectionType'', CvStr ''cloud''), (''apiKey'', CvStr ''k-1'')]"

lemma key_no_mask: "''k-1'' \<noteq> SECRET_MASK"
  by (simp add: SECRET_MASK_def eval_nat_numeral)

lemmas two_modes_simps = two_modes_def mode_field_def key_field_def ip_field_def cloud_form_def validateDriverConfig_def
  validate_field_def isFieldRequired_def filled_def coerce_def js_string_def string_or_empty_def schema_default_def schema_sane_def
  full_form_def secrets_kept_def stringy_def key_no_mask Let_def or_else_def is_required_message_def isConfigComplete_def

theorem accepted_config_complete_witness:
  "isConfigComplete (\<lambda>q. ''0'') two_modes (fst (validateDriverConfig (\<lambda>q. ''0'') two_modes cloud_form [] [])) [] = (True, [])"
  by (rule accepted_config_complete [where inp = cloud_form and existing = "[]"]) (simp_all add: two_modes_simps)

theorem saved_form_roundtrip_witness:
  "\<exists>config'. validateDriverConfig (\<lambda>q. ''0'') two_modes (maskSecrets two_modes cloud_form) cloud_form [] = (config', []) \<and>
     (\<forall>k. jget config' k = jget cloud_form k)"
  by (rule saved_form_roundtrip [where inp = cloud_form and existing = "[]"]) (simp_all add: two_modes_simps)

text \<open>
  A partial save switches the mode: on a driver in its local mode, a form that leaves the mode out is accepted, as the requirements are
  checked against the stored mode; what is stored is the default one, the cloud, and the driver is incomplete.
\<close>

theorem partial_save_switches_mode:
  "validateDriverConfig shw two_modes [(''gatewayIp'', CvStr ''10.0.0.9'')]
       [(''connectionType'', CvStr ''local''), (''gatewayIp'', CvStr ''10.0.0.5'')] [] =
     ([(''connectionType'', CvStr ''cloud''), (''gatewayIp'', CvStr ''10.0.0.9'')], []) \<and>
   isConfigComplete shw two_modes [(''connectionType'', CvStr ''cloud''), (''gatewayIp'', CvStr ''10.0.0.9'')] [] = (False, [''apiKey''])"
  by (simp add: two_modes_simps)

end
