(* ===== verification/Driver_Store.thy ===== *)
theory Driver_Store
  imports Driver_Config Cloud_Licensing "HOL-Library.Product_Lexorder"
begin

text \<open>
  The data of drivers (\<^verbatim>\<open>packages/domain-model/src/drivers.ts\<close>), the signed bundles of \<^verbatim>\<open>drivers/sdk/src/index.ts\<close>, the catalogue
  \<^verbatim>\<open>services/drivers/src/catalog.ts\<close> and the store of installed drivers, \<^verbatim>\<open>services/drivers/src/store.ts\<close>: its interface is a record
  of operations with the locale \<open>driver_store_laws\<close> of what a store promises, and the in-memory store is interpreted here. Instants are
  milliseconds. The bundle as a JSON value and SHA-256 are arguments; signatures are the \<^verbatim>\<open>signer\<close> of \<open>Cloud_Licensing\<close>.
\<close>

section \<open>Data\<close>

datatype driver_category = DcLighting | DcClimate | DcShades | DcMedia | DcSecurity | DcEnergy | DcProtocol | DcOther

datatype driver_channel = ChOfficial | ChCertified | ChCommunity | ChBeta

datatype driver_operation =
    OpInstall | OpUninstall | OpConfigure | OpEnable | OpDisable | OpConnect | OpDisconnect | OpDiagnostics | OpHealth | OpLogs | OpUpdate

definition DEFAULT_DRIVER_OPERATIONS :: "driver_operation list" where
  "DEFAULT_DRIVER_OPERATIONS = [OpInstall, OpUninstall, OpConfigure, OpEnable, OpDisable, OpDiagnostics, OpHealth, OpLogs, OpUpdate]"

record driver_manifest =
  mf_key :: string
  mf_name :: string
  mf_description :: string
  mf_category :: driver_category
  mf_channel :: driver_channel
  mf_publisher :: string
  mf_version :: string
  mf_capabilities :: "string list"
  mf_protocols :: "string list"
  mf_hubMinVersion :: string
  mf_requiresSku :: "string option"
  mf_backendRef :: "string option"
  mf_shipsDisabled :: bool
  mf_configSchema :: "config_field list"
  mf_dependencies :: "string list"
  mf_operations :: "driver_operation list"
  mf_documentationUrl :: "string option"
  mf_releaseNotes :: string
  mf_changelog :: "(string \<times> string \<times> string) list"

datatype version_status = VsPublished | VsDeprecated | VsYanked

record driver_bundle =
  bd_manifest :: driver_manifest
  bd_contentHash :: string
  bd_bundleUrl :: string
  bd_status :: version_status
  bd_changelog :: string

record signed_bundle =
  sd_bundle :: driver_bundle
  sd_signature :: string
  sd_signingKeyId :: string

datatype driver_status = DsActive | DsDisabled | DsError

record installed_driver =
  in_id :: string
  in_homeId :: string
  in_key :: string
  in_version :: string
  in_channel :: driver_channel
  in_category :: driver_category
  in_installedAt :: int
  in_enabled :: bool
  in_status :: driver_status
  in_config :: driver_config
  in_label :: "string option"

section \<open>Bundles\<close>

datatype lint_level = LintError | LintWarning

definition lintManifest :: "driver_manifest \<Rightarrow> (lint_level \<times> string) list" where
  "lintManifest m =
     (if mf_channel m = ChOfficial \<and> mf_publisher m \<noteq> ''Supreme Domotics''
      then [(LintError, ''official channel is reserved for Supreme Domotics'')] else []) @
     (if ''matter'' \<in> set (mf_protocols m) \<and> \<not> mf_shipsDisabled m
      then [(LintWarning, ''Matter drivers should ship disabled (opt-in) per '' @ [CHR 0xC2, CHR 0xA7] @ ''9'')] else []) @
     (if mf_capabilities m = [] then [(LintError, ''a driver must declare at least one capability'')] else [])"

definition createBundle :: "(string \<Rightarrow> string) \<Rightarrow> driver_manifest \<Rightarrow> string \<Rightarrow> string \<Rightarrow> string option \<Rightarrow> driver_bundle" where
  "createBundle sha256 m payload url changelog =
     \<lparr>bd_manifest = m, bd_contentHash = sha256 payload, bd_bundleUrl = url, bd_status = VsPublished, bd_changelog = or_else changelog ''''\<rparr>"

record bundle_env =
  be_sg :: signer
  be_json :: "driver_bundle \<Rightarrow> json"
  be_sha256 :: "string \<Rightarrow> string"

definition signBundle :: "bundle_env \<Rightarrow> driver_bundle \<Rightarrow> string \<Rightarrow> string \<Rightarrow> signed_bundle" where
  "signBundle env b priv kid = \<lparr>sd_bundle = b, sd_signature = signPayload (be_sg env) (be_json env b) priv, sd_signingKeyId = kid\<rparr>"

definition verifyBundle :: "bundle_env \<Rightarrow> signed_bundle \<Rightarrow> string \<Rightarrow> string option \<Rightarrow> bool" where
  "verifyBundle env s pub payload =
     (if \<not> verifyPayload (be_sg env) (be_json env (sd_bundle s)) (sd_signature s) pub then False
      else (case payload of None \<Rightarrow> True | Some p \<Rightarrow> be_sha256 env p = bd_contentHash (sd_bundle s)))"

section \<open>Versions\<close>

text \<open>\<^verbatim>\<open>Number.parseInt(p, 10) || 0\<close>: an optional sign and the leading digits.\<close>

definition parseInt_or_0 :: "string \<Rightarrow> int" where
  "parseInt_or_0 p =
     (case dropWhile is_space p of
        [] \<Rightarrow> 0
      | c # cs \<Rightarrow> (if c = CHR ''-'' then - int (fst (parse_digits 0 0 cs))
          else if c = CHR ''+'' then int (fst (parse_digits 0 0 cs)) else int (fst (parse_digits 0 0 (c # cs)))))"

definition js_nth :: "'a list \<Rightarrow> nat \<Rightarrow> 'a option" where
  "js_nth xs i = (if i < length xs then Some (xs ! i) else None)"

definition isNewerSemver :: "string \<Rightarrow> string \<Rightarrow> bool" where
  "isNewerSemver candidate current =
     (let a = map parseInt_or_0 (js_split CHR ''.'' candidate);
          b = map parseInt_or_0 (js_split CHR ''.'' current)
      in if js_nth a 0 \<noteq> js_nth b 0 then or_else (js_nth a 0) 0 > or_else (js_nth b 0) 0
         else if js_nth a 1 \<noteq> js_nth b 1 then or_else (js_nth a 1) 0 > or_else (js_nth b 1) 0
         else or_else (js_nth a 2) 0 > or_else (js_nth b 2) 0)"

text \<open>The comparison of the catalogue; \<^const>\<open>None\<close> is \<^verbatim>\<open>NaN\<close>, which a sort takes for equal.\<close>

fun cmp_parts :: "rat option option list \<Rightarrow> rat option option list \<Rightarrow> rat option" where
  "cmp_parts (a # as) (b # bs) =
     (case (or_else a (Some 0), or_else b (Some 0)) of
        (Some x, Some y) \<Rightarrow> if x - y \<noteq> 0 then Some (x - y) else cmp_parts as bs
      | _ \<Rightarrow> None)"
| "cmp_parts _ _ = Some 0"

definition version_parts :: "string \<Rightarrow> rat option option list" where
  "version_parts v = map (js_nth (map js_Number_of_string (js_split CHR ''.'' v))) [0, 1, 2]"

definition cmpVersion :: "string \<Rightarrow> string \<Rightarrow> rat option" where
  "cmpVersion a b = cmp_parts (version_parts a) (version_parts b)"

definition newer :: "string \<Rightarrow> string \<Rightarrow> bool" where
  "newer a b \<longleftrightarrow> (case cmpVersion a b of Some d \<Rightarrow> d > 0 | None \<Rightarrow> False)"

text \<open>A stable sort by a comparison: an element is moved behind the ones it is greater than.\<close>

fun insert_by :: "('a \<Rightarrow> 'a \<Rightarrow> bool) \<Rightarrow> 'a \<Rightarrow> 'a list \<Rightarrow> 'a list" where
  "insert_by gt x [] = [x]"
| "insert_by gt x (y # ys) = (if gt x y then y # insert_by gt x ys else x # y # ys)"

definition sort_by :: "('a \<Rightarrow> 'a \<Rightarrow> bool) \<Rightarrow> 'a list \<Rightarrow> 'a list" where
  "sort_by gt xs = foldr (insert_by gt) xs []"

lemma set_insert_by [simp]: "set (insert_by gt x xs) = insert x (set xs)"
  by (induction xs) auto

lemma set_sort_by [simp]: "set (sort_by gt xs) = set xs"
  by (induction xs) (simp_all add: sort_by_def)

section \<open>The catalogue\<close>

definition latest_first :: "signed_bundle list \<Rightarrow> signed_bundle list" where
  "latest_first = sort_by (\<lambda>a b. newer (mf_version (bd_manifest (sd_bundle b))) (mf_version (bd_manifest (sd_bundle a))))"

definition catalog_find :: "signed_bundle list \<Rightarrow> string \<Rightarrow> string option \<Rightarrow> signed_bundle option" where
  "catalog_find entries key version =
     (let matches = filter (\<lambda>e. mf_key (bd_manifest (sd_bundle e)) = key) entries
      in case truthy version of
           Some v \<Rightarrow> find (\<lambda>e. mf_version (bd_manifest (sd_bundle e)) = v) matches
         | None \<Rightarrow> js_nth (latest_first (filter (\<lambda>e. bd_status (sd_bundle e) = VsPublished) matches)) 0)"

definition seedFirstPartyCatalog :: "bundle_env \<Rightarrow> driver_manifest list \<Rightarrow> string \<Rightarrow> string \<Rightarrow> signed_bundle list" where
  "seedFirstPartyCatalog env manifests priv kid =
     map (\<lambda>m. signBundle env (createBundle (be_sha256 env) m (''first-party:'' @ mf_key m @ ''@'' @ mf_version m)
           (''supreme-store://'' @ mf_key m @ ''/'' @ mf_version m) None) priv kid) manifests"

definition schemaFor :: "signed_bundle list \<Rightarrow> string \<Rightarrow> config_field list" where
  "schemaFor entries key = (case catalog_find entries key None of None \<Rightarrow> [] | Some e \<Rightarrow> mf_configSchema (bd_manifest (sd_bundle e)))"

lemma js_nth_Some: "js_nth xs i = Some x \<Longrightarrow> x \<in> set xs"
  by (auto simp: js_nth_def split: if_splits)

lemma find_Some_set: "find P xs = Some x \<Longrightarrow> x \<in> set xs \<and> P x"
  by (auto simp: find_Some_iff)

text \<open>What the catalogue finds is one of its entries, of the asked key, and of the asked version or published.\<close>

lemma catalog_find_Some:
  assumes "catalog_find entries key version = Some e"
  shows "e \<in> set entries" "mf_key (bd_manifest (sd_bundle e)) = key"
    and "truthy version = Some v \<Longrightarrow> mf_version (bd_manifest (sd_bundle e)) = v"
    and "truthy version = None \<Longrightarrow> bd_status (sd_bundle e) = VsPublished"
  using assms by (auto simp: catalog_find_def Let_def latest_first_def split: option.splits dest!: js_nth_Some find_Some_set)

section \<open>The store of installed drivers\<close>

record 's driver_store =
  ds_list :: "('s, installed_driver list) eff"
  ds_get :: "string \<Rightarrow> ('s, installed_driver option) eff"
  ds_getByKey :: "string \<Rightarrow> ('s, installed_driver option) eff"
  ds_listByKey :: "(string \<Rightarrow> ('s, installed_driver list) eff) option"
  ds_put :: "installed_driver \<Rightarrow> ('s, unit) eff"
  ds_remove :: "string \<Rightarrow> ('s, unit) eff"

type_synonym driver_rows = "(string, installed_driver) jsmap"

definition memory_listByKey :: "string \<Rightarrow> driver_rows \<Rightarrow> installed_driver list" where
  "memory_listByKey key m = sort_key (\<lambda>d. (in_installedAt d, in_id d)) (filter (\<lambda>d. in_key d = key) (jvalues m))"

definition memory_store :: "driver_rows driver_store" where
  "memory_store =
     \<lparr>ds_list = (\<lambda>m. (Inr (jvalues m), m)),
      ds_get = (\<lambda>i m. (Inr (jget m i), m)),
      ds_getByKey = (\<lambda>key m. (Inr (js_nth (memory_listByKey key m) 0), m)),
      ds_listByKey = Some (\<lambda>key m. (Inr (memory_listByKey key m), m)),
      ds_put = (\<lambda>d m. (Inr (), jset (in_id d) d m)),
      ds_remove = (\<lambda>i m. (Inr (), jdel i m))\<rparr>"

definition listByKeyOf :: "'s driver_store \<Rightarrow> string \<Rightarrow> ('s, installed_driver list) eff" where
  "listByKeyOf st key =
     (case ds_listByKey st of
        Some f \<Rightarrow> f key
      | None \<Rightarrow> eff_bind (ds_list st) (\<lambda>ds. eff_return (filter (\<lambda>d. in_key d = key) ds)))"

section \<open>What a store promises\<close>

text \<open>
  A store holds a map from ids to drivers. \<open>storable\<close> says which drivers it keeps as they are: it depends on the key and the
  configuration only.
\<close>

locale driver_store_laws =
  fixes st :: "'s driver_store"
    and abst :: "'s \<Rightarrow> string \<Rightarrow> installed_driver option"
    and valid :: "'s \<Rightarrow> bool"
    and storable :: "installed_driver \<Rightarrow> bool"
  assumes law_id: "valid s \<Longrightarrow> abst s i = Some d \<Longrightarrow> in_id d = i \<and> storable d"
    and law_storable: "storable d \<Longrightarrow> in_key d' = in_key d \<Longrightarrow> in_config d' = in_config d \<Longrightarrow> storable d'"
    and law_get: "valid s \<Longrightarrow> ds_get st i s = (Inr (abst s i), s)"
    and law_put: "valid s \<Longrightarrow> storable d \<Longrightarrow> \<exists>s'. ds_put st d s = (Inr (), s') \<and> valid s' \<and> abst s' = (abst s)(in_id d \<mapsto> d)"
    and law_remove: "valid s \<Longrightarrow> \<exists>s'. ds_remove st i s = (Inr (), s') \<and> valid s' \<and> abst s' = (abst s)(i := None)"
    and law_list: "valid s \<Longrightarrow> \<exists>ds. ds_list st s = (Inr ds, s) \<and> distinct (map in_id ds) \<and> (\<forall>d. d \<in> set ds \<longleftrightarrow> abst s (in_id d) = Some d)"
    and law_getByKey: "valid s \<Longrightarrow> \<exists>r. ds_getByKey st key s = (Inr r, s) \<and>
      (case r of Some d \<Rightarrow> abst s (in_id d) = Some d \<and> in_key d = key | None \<Rightarrow> (\<forall>i d. abst s i = Some d \<longrightarrow> in_key d \<noteq> key))"
    and law_listByKey: "valid s \<Longrightarrow> \<exists>ds. listByKeyOf st key s = (Inr ds, s) \<and> distinct (map in_id ds) \<and>
      (\<forall>d. d \<in> set ds \<longleftrightarrow> abst s (in_id d) = Some d \<and> in_key d = key)"

definition rows_ok :: "driver_rows \<Rightarrow> bool" where
  "rows_ok m \<longleftrightarrow> jwf m \<and> list_all (\<lambda>(i, d). in_id d = i) m"

lemma rows_ok_put: "rows_ok m \<Longrightarrow> rows_ok (jset (in_id d) d m)"
  using jset_set_subset [of "in_id d" d m] by (auto simp: rows_ok_def list_all_iff)

lemma rows_ok_remove: "rows_ok m \<Longrightarrow> rows_ok (jdel i m)"
  using jwf_jdel [of m i] by (auto simp: rows_ok_def list_all_iff AList.delete_eq)

lemma rows_ok_get: "rows_ok m \<Longrightarrow> jget m i = Some d \<Longrightarrow> in_id d = i"
  by (auto simp: rows_ok_def list_all_iff dest!: map_of_SomeD)

lemma rows_ok_values: "rows_ok m \<Longrightarrow> d \<in> set (jvalues m) \<longleftrightarrow> jget m (in_id d) = Some d"
proof -
  assume m: "rows_ok m"
  then have "jwf m" by (simp add: rows_ok_def)
  with rows_ok_get [OF m] show ?thesis by (metis jvalues_iff)
qed

lemma rows_ok_ids: "rows_ok m \<Longrightarrow> map in_id (jvalues m) = map fst m"
  by (auto simp: rows_ok_def list_all_iff)

lemma memory_listByKey_set: "rows_ok m \<Longrightarrow> d \<in> set (memory_listByKey key m) \<longleftrightarrow> jget m (in_id d) = Some d \<and> in_key d = key"
  using rows_ok_values [of m d] by (auto simp: memory_listByKey_def)

interpretation mem: driver_store_laws memory_store jget rows_ok "\<lambda>d. True"
proof
  fix s i d key
  assume s: "rows_ok s"
  show "jget s i = Some d \<Longrightarrow> in_id d = i \<and> True" using rows_ok_get [OF s] by simp
  show "ds_get memory_store i s = (Inr (jget s i), s)" by (simp add: memory_store_def)
  show "\<exists>s'. ds_put memory_store d s = (Inr (), s') \<and> rows_ok s' \<and> jget s' = (jget s)(in_id d \<mapsto> d)"
    using rows_ok_put [OF s] by (auto simp: memory_store_def fun_eq_iff)
  show "\<exists>s'. ds_remove memory_store i s = (Inr (), s') \<and> rows_ok s' \<and> jget s' = (jget s)(i := None)"
    using rows_ok_remove [OF s] by (auto simp: memory_store_def fun_eq_iff)
  have ids: "distinct (map in_id (jvalues s))" using s by (simp add: rows_ok_ids [OF s] rows_ok_def jwf_def del: map_map)
  show "\<exists>ds. ds_list memory_store s = (Inr ds, s) \<and> distinct (map in_id ds) \<and> (\<forall>d. d \<in> set ds \<longleftrightarrow> jget s (in_id d) = Some d)"
    using ids rows_ok_values [OF s] by (simp add: memory_store_def)
  have key_sorted: "distinct (map in_id (memory_listByKey key s))"
  proof -
    have "distinct (map in_id (filter (\<lambda>d. in_key d = key) (jvalues s)))"
      by (rule distinct_map_filter) (rule ids)
    then show ?thesis by (simp add: memory_listByKey_def distinct_map)
  qed
  show "\<exists>r. ds_getByKey memory_store key s = (Inr r, s) \<and>
      (case r of Some d \<Rightarrow> jget s (in_id d) = Some d \<and> in_key d = key | None \<Rightarrow> (\<forall>i d. jget s i = Some d \<longrightarrow> in_key d \<noteq> key))"
  proof (cases "js_nth (memory_listByKey key s) 0")
    case None
    then have "memory_listByKey key s = []" by (simp add: js_nth_def split: if_splits)
    then have "\<forall>i d. jget s i = Some d \<longrightarrow> in_key d \<noteq> key"
      using memory_listByKey_set [OF s, of _ key] rows_ok_get [OF s] by force
    with None show ?thesis by (simp add: memory_store_def)
  next
    case (Some d)
    with memory_listByKey_set [OF s] js_nth_Some [OF Some] show ?thesis by (simp add: memory_store_def)
  qed
  show "\<exists>ds. listByKeyOf memory_store key s = (Inr ds, s) \<and> distinct (map in_id ds) \<and>
      (\<forall>d. d \<in> set ds \<longleftrightarrow> jget s (in_id d) = Some d \<and> in_key d = key)"
    using key_sorted memory_listByKey_set [OF s] by (simp add: listByKeyOf_def memory_store_def)
qed simp

end
