(* ===== verification/Secret_Store.thy ===== *)
theory Secret_Store
  imports Driver_Store Totp
begin

text \<open>
  Secrets of drivers at rest, \<^verbatim>\<open>services/drivers/src/secret-store.ts\<close>: the AES-256-GCM envelope of \<^verbatim>\<open>packages/crypto/src/index.ts\<close>
  with its base64, the encryption of the secret fields of a configuration, the store that encrypts on every write and decrypts on
  every read, and the migration of rows that were stored in plaintext. The cipher and the random initial vectors are arguments.
\<close>

section \<open>Base64\<close>

text \<open>Capital letters, small letters, digits, plus and slash.\<close>

definition b64 :: "nat \<Rightarrow> char" where
  "b64 n = char_of (if n < 26 then n + 65 else if n < 52 then n + 71 else if n < 62 then n - 4 else if n = 62 then 43 else (47 :: nat))"

fun base64 :: "byte list \<Rightarrow> string" where
  "base64 [] = []"
| "base64 [a] = [b64 (unat a div 4), b64 (unat a mod 4 * 16), CHR ''='', CHR ''='']"
| "base64 [a, b] = [b64 (unat a div 4), b64 (unat a mod 4 * 16 + unat b div 16), b64 (unat b mod 16 * 4), CHR ''='']"
| "base64 (a # b # c # bs) =
     b64 (unat a div 4) # b64 (unat a mod 4 * 16 + unat b div 16) # b64 (unat b mod 16 * 4 + unat c div 64) # b64 (unat c mod 64) # base64 bs"

text \<open>Decoding takes both alphabets and passes over every other character.\<close>

definition unb64 :: "char \<Rightarrow> nat option" where
  "unb64 c =
     (let n = (of_char c :: nat) in
      if 65 \<le> n \<and> n \<le> 90 then Some (n - 65)
      else if 97 \<le> n \<and> n \<le> 122 then Some (n - 71)
      else if 48 \<le> n \<and> n \<le> 57 then Some (n + 4)
      else if n = 43 \<or> n = 45 then Some 62
      else if n = 47 \<or> n = 95 then Some 63
      else None)"

fun sextets :: "nat list \<Rightarrow> byte list" where
  "sextets (a # b # c # d # r) =
     of_nat (a * 4 + b div 16) # of_nat (b mod 16 * 16 + c div 4) # of_nat (c mod 4 * 64 + d) # sextets r"
| "sextets [a, b, c] = [of_nat (a * 4 + b div 16), of_nat (b mod 16 * 16 + c div 4)]"
| "sextets [a, b] = [of_nat (a * 4 + b div 16)]"
| "sextets _ = []"

definition unbase64 :: "string \<Rightarrow> byte list" where
  "unbase64 s = sextets (List.map_filter unb64 s)"

lemma unb64_b64 [simp]: "n < 64 \<Longrightarrow> unb64 (b64 n) = Some n"
  by (auto simp: b64_def unb64_def Let_def)

lemma b64_colon: "n < 64 \<Longrightarrow> b64 n \<noteq> CHR '':''"
  using unb64_b64 [of n] by (auto simp: unb64_def)

lemma unb64_pad [simp]: "unb64 CHR ''='' = None"
  by (simp add: unb64_def)

lemma byte_bound: "unat (b :: byte) < 256"
  using unsigned_less [of b] by simp

lemma byte_parts [simp]:
  "unat (b :: byte) div 16 div 16 = 0" "unat b div 16 mod 16 = unat b div 16"
  "unat b div 64 div 4 = 0" "unat b div 64 mod 4 = unat b div 64"
  using byte_bound [of b] by (simp_all add: div_mult2_eq [symmetric] less_mult_imp_div_less)

lemma sextet_bounds [simp]:
  "unat (a :: byte) div 4 < 64" "unat a mod 4 * 16 < 64" "unat a mod 4 * 16 + unat (b :: byte) div 16 < 64"
  "unat b mod 16 * 4 < 64" "unat b mod 16 * 4 + unat (c :: byte) div 64 < 64" "unat c mod 64 < 64"
proof -
  have "unat a div 4 < 64" "unat b div 16 < 16" "unat c div 64 < 4"
    using byte_bound [of a] byte_bound [of b] byte_bound [of c] by (simp_all add: less_mult_imp_div_less)
  moreover have "unat a mod 4 < 4" "unat b mod 16 < 16" "unat c mod 64 < 64" by simp_all
  ultimately show "unat a div 4 < 64" "unat a mod 4 * 16 < 64" "unat a mod 4 * 16 + unat b div 16 < 64"
    "unat b mod 16 * 4 < 64" "unat b mod 16 * 4 + unat c div 64 < 64" "unat c mod 64 < 64" by linarith+
qed

lemma unbase64_base64 [simp]: "unbase64 (base64 bs) = bs"
  by (induction bs rule: base64.induct) (simp_all add: unbase64_def map_filter_simps del: of_nat_add of_nat_mult)

lemma base64_empty [simp]: "base64 bs = [] \<longleftrightarrow> bs = []"
  by (cases bs rule: base64.cases) simp_all

lemma base64_no_colon [simp]: "CHR '':'' \<notin> set (base64 bs)"
  by (induction bs rule: base64.induct) (use b64_colon [symmetric] in simp_all)

section \<open>The envelope of a secret\<close>

record secret_env =
  se_key :: string
  se_iv :: "nat \<Rightarrow> byte list"
  se_seal :: "byte list \<Rightarrow> byte list \<Rightarrow> byte list \<Rightarrow> byte list \<times> byte list"
  se_open :: "byte list \<Rightarrow> byte list \<Rightarrow> byte list \<Rightarrow> byte list \<Rightarrow> error + byte list"

definition bytes_of :: "string \<Rightarrow> byte list" where
  "bytes_of s = map (\<lambda>c. of_nat (of_char c)) s"

definition chars_of :: "byte list \<Rightarrow> string" where
  "chars_of bs = map (\<lambda>b. char_of (unat b)) bs"

definition SECRET_PREFIX :: string where
  "SECRET_PREFIX = ''enc:v1:''"

text \<open>The \<open>n\<close>-th call of \<^verbatim>\<open>randomBytes(12)\<close> gives the initial vector; the cipher answers with the ciphertext and its tag.\<close>

definition encryptSecret :: "secret_env \<Rightarrow> nat \<Rightarrow> string \<Rightarrow> string" where
  "encryptSecret env n plaintext =
     (let key = unbase64 (se_key env);
          iv = se_iv env n;
          (ct, tag) = se_seal env key iv (bytes_of plaintext)
      in SECRET_PREFIX @ base64 iv @ '':'' @ base64 tag @ '':'' @ base64 ct)"

fun isEncryptedSecret :: "config_value option \<Rightarrow> bool" where
  "isEncryptedSecret (Some (CvStr s)) = (take (length SECRET_PREFIX) s = SECRET_PREFIX)"
| "isEncryptedSecret _ = False"

definition decryptSecret :: "secret_env \<Rightarrow> string \<Rightarrow> error + string" where
  "decryptSecret env encoded =
     (let key = unbase64 (se_key env);
          parts = js_split CHR '':'' (drop (length SECRET_PREFIX) encoded)
      in case (truthy (js_nth parts 0), truthy (js_nth parts 1), truthy (js_nth parts 2)) of
           (Some ivB64, Some tagB64, Some ctB64) \<Rightarrow>
             (case se_open env key (unbase64 ivB64) (unbase64 tagB64) (unbase64 ctB64) of
                Inl e \<Rightarrow> Inl e | Inr pt \<Rightarrow> Inr (chars_of pt))
         | _ \<Rightarrow> Inl (PlainError ''decryptSecret: malformed ciphertext''))"

text \<open>
  The documented behaviour of an authenticated cipher, for the key in use: what it sealed opens, tags and initial vectors are not
  empty, and the ciphertext is as long as the plaintext.
\<close>

definition aead_ok :: "secret_env \<Rightarrow> bool" where
  "aead_ok env \<longleftrightarrow> (\<forall>n. se_iv env n \<noteq> []) \<and>
     (\<forall>iv pt. case se_seal env (unbase64 (se_key env)) iv pt of (ct, tag) \<Rightarrow>
        tag \<noteq> [] \<and> length ct = length pt \<and> se_open env (unbase64 (se_key env)) iv tag ct = Inr pt)"

lemma chars_of_bytes [simp]: "chars_of (bytes_of s) = s"
  by (simp add: chars_of_def bytes_of_def unat_of_nat o_def)

lemma js_split_no: "c \<notin> set xs \<Longrightarrow> js_split c xs = [xs]"
  by (induction xs) auto

lemma js_split_append: "c \<notin> set xs \<Longrightarrow> js_split c (xs @ c # ys) = xs # js_split c ys"
  by (induction xs) auto

lemma encrypted_prefix [simp]: "take (length SECRET_PREFIX) (encryptSecret env n s) = SECRET_PREFIX"
  by (simp add: encryptSecret_def Let_def case_prod_unfold SECRET_PREFIX_def)

lemma decrypt_encrypt:
  assumes "aead_ok env" "s \<noteq> ''''"
  shows "decryptSecret env (encryptSecret env n s) = Inr s"
proof -
  obtain ct tag where seal: "se_seal env (unbase64 (se_key env)) (se_iv env n) (bytes_of s) = (ct, tag)" by fastforce
  from conjunct2 [OF assms(1) [unfolded aead_ok_def], rule_format, of "bytes_of s" "se_iv env n"] seal
  have opens: "tag \<noteq> []" "length ct = length s" "se_open env (unbase64 (se_key env)) (se_iv env n) tag ct = Inr (bytes_of s)"
    by (simp_all add: bytes_of_def)
  from assms have iv: "se_iv env n \<noteq> []" by (simp add: aead_ok_def)
  from opens(2) assms(2) have ct: "ct \<noteq> []" by auto
  have parts: "js_split CHR '':'' (drop (length SECRET_PREFIX) (encryptSecret env n s)) = [base64 (se_iv env n), base64 tag, base64 ct]"
    by (simp add: encryptSecret_def seal Let_def js_split_append js_split_no)
  show ?thesis unfolding decryptSecret_def Let_def parts
    by (simp add: js_nth_def truthy_def iv ct opens)
qed

section \<open>The secret fields of a configuration\<close>

text \<open>\<^verbatim>\<open>typeof value === "string" && value !== "" && !isEncryptedSecret(value)\<close>\<close>

definition plaintext :: "config_value option \<Rightarrow> bool" where
  "plaintext x \<longleftrightarrow> (\<exists>s. x = Some (CvStr s)) \<and> x \<noteq> Some (CvStr '''') \<and> \<not> isEncryptedSecret x"

definition string_of_value :: "config_value option \<Rightarrow> string" where
  "string_of_value x = (case x of Some (CvStr s) \<Rightarrow> s | _ \<Rightarrow> '''')"

lemma plaintext_code [code]:
  "plaintext x \<longleftrightarrow> (case x of Some (CvStr s) \<Rightarrow> s \<noteq> '''' \<and> \<not> isEncryptedSecret x | _ \<Rightarrow> False)"
  by (auto simp: plaintext_def split: option.splits config_value.splits)

definition encrypt_field :: "secret_env \<Rightarrow> config_field \<Rightarrow> driver_config \<times> nat \<Rightarrow> driver_config \<times> nat" where
  "encrypt_field env f = (\<lambda>(out, n).
     (let v = jget out (cf_key f)
      in if \<not> cf_secret f then (out, n)
         else if \<not> plaintext v then (out, n)
         else (jset (cf_key f) (CvStr (encryptSecret env n (string_of_value v))) out, Suc n)))"

definition encryptFields :: "secret_env \<Rightarrow> config_field list \<Rightarrow> driver_config \<Rightarrow> nat \<Rightarrow> driver_config \<times> nat" where
  "encryptFields env schema config n = fold (encrypt_field env) schema (config, n)"

definition decrypt_field :: "secret_env \<Rightarrow> config_field \<Rightarrow> error + driver_config \<Rightarrow> error + driver_config" where
  "decrypt_field env f r =
     (case r of
        Inl e \<Rightarrow> Inl e
      | Inr out \<Rightarrow>
          (let v = jget out (cf_key f)
           in if \<not> cf_secret f then Inr out
              else if \<not> isEncryptedSecret v then Inr out
              else (case decryptSecret env (string_of_value v) of Inl e \<Rightarrow> Inl e | Inr p \<Rightarrow> Inr (jset (cf_key f) (CvStr p) out))))"

definition decryptFields :: "secret_env \<Rightarrow> config_field list \<Rightarrow> driver_config \<Rightarrow> error + driver_config" where
  "decryptFields env schema config = fold (decrypt_field env) schema (Inr config)"

definition hasPlaintextSecret :: "config_field list \<Rightarrow> driver_config \<Rightarrow> bool" where
  "hasPlaintextSecret schema config \<longleftrightarrow> list_ex (\<lambda>f. cf_secret f \<and> plaintext (jget config (cf_key f))) schema"

definition secret_key :: "config_field list \<Rightarrow> string \<Rightarrow> bool" where
  "secret_key schema k \<longleftrightarrow> list_ex (\<lambda>f. cf_secret f \<and> cf_key f = k) schema"


section \<open>What the two directions do\<close>

lemma encrypt_fold:
  fixes fs :: "config_field list"
  assumes "fold (encrypt_field env) fs (out, n) = (out', n')"
  shows "(jwf out \<longrightarrow> jwf out') \<and> map fst out' = map fst out \<and>
    (\<forall>k. if secret_key fs k \<and> plaintext (jget out k)
         then \<exists>m. jget out' k = Some (CvStr (encryptSecret env m (string_of_value (jget out k))))
         else jget out' k = jget out k)"
  using assms
proof (induction fs arbitrary: out n)
  case Nil
  then show ?case by (simp add: secret_key_def)
next
  case (Cons f fs)
  let ?v = "jget out (cf_key f)"
  show ?case
  proof (cases "cf_secret f \<and> plaintext ?v")
    case False
    then have "encrypt_field env f (out, n) = (out, n)" by (auto simp: encrypt_field_def Let_def)
    with Cons have "fold (encrypt_field env) fs (out, n) = (out', n')" by simp
    from Cons.IH [OF this] False show ?thesis by (auto simp: secret_key_def)
  next
    case True
    let ?out = "jset (cf_key f) (CvStr (encryptSecret env n (string_of_value ?v))) out"
    from True have e: "encrypt_field env f (out, n) = (?out, Suc n)" by (simp add: encrypt_field_def Let_def)
    with Cons have "fold (encrypt_field env) fs (?out, Suc n) = (out', n')" by simp
    note ih = Cons.IH [OF this]
    from True have "cf_key f \<in> fst ` set out" by (force simp: plaintext_def dest: map_of_SomeD)
    then have keys: "map fst ?out = map fst out" by (simp add: update_keys)
    have np: "\<not> plaintext (Some (CvStr (encryptSecret env n x)))" for x by (simp add: plaintext_def)
    show ?thesis
    proof (intro conjI allI impI)
      show "jwf out \<Longrightarrow> jwf out'" "map fst out' = map fst out" using ih keys by simp_all
      fix k
      show "if secret_key (f # fs) k \<and> plaintext (jget out k)
         then \<exists>m. jget out' k = Some (CvStr (encryptSecret env m (string_of_value (jget out k)))) else jget out' k = jget out k"
        using ih True np by (cases "k = cf_key f") (auto simp: secret_key_def split: if_splits)
    qed
  qed
qed

lemma decrypt_fold:
  fixes fs :: "config_field list"
  assumes "\<And>k. secret_key fs k \<Longrightarrow> isEncryptedSecret (jget out k) \<Longrightarrow>
      \<exists>p. decryptSecret env (string_of_value (jget out k)) = Inr p \<and> \<not> isEncryptedSecret (Some (CvStr p))"
  shows "\<exists>out'. fold (decrypt_field env) fs (Inr out) = Inr out' \<and> (jwf out \<longrightarrow> jwf out') \<and> map fst out' = map fst out \<and>
    (\<forall>k. jget out' k = (if secret_key fs k \<and> isEncryptedSecret (jget out k)
        then (case decryptSecret env (string_of_value (jget out k)) of Inl _ \<Rightarrow> None | Inr p \<Rightarrow> Some (CvStr p)) else jget out k))"
  using assms
proof (induction fs arbitrary: out)
  case Nil
  then show ?case by (simp add: secret_key_def)
next
  case (Cons f fs)
  let ?v = "jget out (cf_key f)"
  show ?case
  proof (cases "cf_secret f \<and> isEncryptedSecret ?v")
    case False
    then have e: "decrypt_field env f (Inr out) = Inr out" by (auto simp: decrypt_field_def Let_def)
    have "\<exists>out'. fold (decrypt_field env) fs (Inr out) = Inr out' \<and> (jwf out \<longrightarrow> jwf out') \<and> map fst out' = map fst out \<and>
      (\<forall>k. jget out' k = (if secret_key fs k \<and> isEncryptedSecret (jget out k)
        then (case decryptSecret env (string_of_value (jget out k)) of Inl _ \<Rightarrow> None | Inr p \<Rightarrow> Some (CvStr p)) else jget out k))"
      by (rule Cons.IH) (use Cons.prems in \<open>auto simp: secret_key_def\<close>)
    with e False show ?thesis by (fastforce simp: secret_key_def)
  next
    case True
    with Cons.prems [of "cf_key f"] obtain p where p: "decryptSecret env (string_of_value ?v) = Inr p" "\<not> isEncryptedSecret (Some (CvStr p))"
      by (auto simp: secret_key_def)
    let ?out = "jset (cf_key f) (CvStr p) out"
    from True p have e: "decrypt_field env f (Inr out) = Inr ?out" by (simp add: decrypt_field_def Let_def)
    from True obtain s where "?v = Some (CvStr s)" by (cases ?v rule: isEncryptedSecret.cases) auto
    then have "cf_key f \<in> fst ` set out" by (force dest: map_of_SomeD)
    then have keys: "map fst ?out = map fst out" by (simp add: update_keys)
    have "\<exists>out'. fold (decrypt_field env) fs (Inr ?out) = Inr out' \<and> (jwf ?out \<longrightarrow> jwf out') \<and> map fst out' = map fst ?out \<and>
      (\<forall>k. jget out' k = (if secret_key fs k \<and> isEncryptedSecret (jget ?out k)
        then (case decryptSecret env (string_of_value (jget ?out k)) of Inl _ \<Rightarrow> None | Inr p \<Rightarrow> Some (CvStr p)) else jget ?out k))"
      by (rule Cons.IH) (use Cons.prems p in \<open>auto simp: secret_key_def split: if_splits\<close>)
    then obtain out' where o: "fold (decrypt_field env) fs (Inr ?out) = Inr out'" "jwf ?out \<longrightarrow> jwf out'" "map fst out' = map fst ?out"
      and g: "\<And>k. jget out' k = (if secret_key fs k \<and> isEncryptedSecret (jget ?out k)
        then (case decryptSecret env (string_of_value (jget ?out k)) of Inl _ \<Rightarrow> None | Inr p \<Rightarrow> Some (CvStr p)) else jget ?out k)"
      by blast
    have "jget out' k = (if secret_key (f # fs) k \<and> isEncryptedSecret (jget out k)
        then (case decryptSecret env (string_of_value (jget out k)) of Inl _ \<Rightarrow> None | Inr p \<Rightarrow> Some (CvStr p)) else jget out k)" for k
      using g [of k] p True by (cases "k = cf_key f") (auto simp: secret_key_def)
    with o e keys show ?thesis by auto
  qed
qed

lemma same_map:
  assumes "jwf m" "map fst m' = map fst m" "\<And>k. jget m' k = jget m k"
  shows "m' = m"
proof (rule nth_equalityI)
  from assms(2) show l: "length m' = length m" by (metis length_map)
  fix i assume i: "i < length m'"
  from assms have d: "distinct (map fst m)" "distinct (map fst m')" by (simp_all add: jwf_def)
  from i l assms(2) have k: "fst (m' ! i) = fst (m ! i)" by (metis nth_map)
  from i l d have "jget m (fst (m ! i)) = Some (snd (m ! i))" "jget m' (fst (m' ! i)) = Some (snd (m' ! i))" by simp_all
  with k assms(3) show "m' ! i = m ! i" by (simp add: prod_eq_iff)
qed

text \<open>Encrypting loses nothing, when no secret begins as an envelope does.\<close>

definition no_envelopes :: "config_field list \<Rightarrow> driver_config \<Rightarrow> bool" where
  "no_envelopes schema config \<longleftrightarrow> jwf config \<and> list_all (\<lambda>f. cf_secret f \<longrightarrow> \<not> isEncryptedSecret (jget config (cf_key f))) schema"

lemma no_envelopes_key: "no_envelopes schema config \<Longrightarrow> secret_key schema k \<Longrightarrow> \<not> isEncryptedSecret (jget config k)"
  by (auto simp: no_envelopes_def secret_key_def list_all_iff list_ex_iff)

definition readable :: "secret_env \<Rightarrow> config_field list \<Rightarrow> driver_config \<Rightarrow> bool" where
  "readable env schema config \<longleftrightarrow> jwf config \<and> (\<forall>k. secret_key schema k \<longrightarrow> isEncryptedSecret (jget config k) \<longrightarrow>
     (\<exists>p. decryptSecret env (string_of_value (jget config k)) = Inr p \<and> \<not> isEncryptedSecret (Some (CvStr p))))"

lemma decrypted:
  assumes "readable env schema config"
  obtains c where "decryptFields env schema config = Inr c" "no_envelopes schema c" "map fst c = map fst config"
    and "\<And>k. jget c k = (if secret_key schema k \<and> isEncryptedSecret (jget config k)
        then (case decryptSecret env (string_of_value (jget config k)) of Inl _ \<Rightarrow> None | Inr p \<Rightarrow> Some (CvStr p)) else jget config k)"
proof -
  from assms decrypt_fold [of schema config env] obtain c where c: "decryptFields env schema config = Inr c" "jwf c" "map fst c = map fst config"
      and g: "\<And>k. jget c k = (if secret_key schema k \<and> isEncryptedSecret (jget config k)
        then (case decryptSecret env (string_of_value (jget config k)) of Inl _ \<Rightarrow> None | Inr p \<Rightarrow> Some (CvStr p)) else jget config k)"
    unfolding readable_def decryptFields_def by blast
  have "\<not> isEncryptedSecret (jget c (cf_key f))" if "f \<in> set schema" "cf_secret f" for f
  proof -
    from that have "secret_key schema (cf_key f)" by (auto simp: secret_key_def list_ex_iff)
    with g [of "cf_key f"] assms show ?thesis by (auto simp: readable_def)
  qed
  with c have "no_envelopes schema c" by (simp add: no_envelopes_def list_all_iff)
  with c g that show thesis by blast
qed

lemma encrypt_readable:
  assumes "aead_ok env" "readable env schema config" "encryptFields env schema config n = (out, n')"
  shows "readable env schema out \<and> decryptFields env schema out = decryptFields env schema config \<and> \<not> hasPlaintextSecret schema out"
proof -
  from encrypt_fold [OF assms(3) [unfolded encryptFields_def]] assms(2)
  have out: "jwf out" "map fst out = map fst config"
    and g: "\<And>k. if secret_key schema k \<and> plaintext (jget config k)
         then \<exists>m. jget out k = Some (CvStr (encryptSecret env m (string_of_value (jget config k))))
         else jget out k = jget config k"
    by (auto simp: readable_def)
  have plain: "isEncryptedSecret (jget out k) \<and> decryptSecret env (string_of_value (jget out k)) = Inr (string_of_value (jget config k)) \<and>
      jget config k = Some (CvStr (string_of_value (jget config k))) \<and> \<not> isEncryptedSecret (jget config k)"
    if "secret_key schema k" "plaintext (jget config k)" for k
  proof -
    from g [of k] that obtain m where m: "jget out k = Some (CvStr (encryptSecret env m (string_of_value (jget config k))))" by auto
    from that have "string_of_value (jget config k) \<noteq> ''''" "jget config k = Some (CvStr (string_of_value (jget config k)))"
      by (auto simp: plaintext_def string_of_value_def)
    with decrypt_encrypt [OF assms(1)] m that show ?thesis by (simp add: string_of_value_def plaintext_def)
  qed
  have same: "jget out k = jget config k" if "\<not> (secret_key schema k \<and> plaintext (jget config k))" for k
    using g [of k] that by (auto split: if_splits)
  have "\<exists>p. decryptSecret env (string_of_value (jget out k)) = Inr p \<and> \<not> isEncryptedSecret (Some (CvStr p))"
    if "secret_key schema k" "isEncryptedSecret (jget out k)" for k
  proof (cases "plaintext (jget config k)")
    case True
    with plain [OF that(1)] show ?thesis by metis
  next
    case False
    with same [of k] that assms(2) show ?thesis by (auto simp: readable_def)
  qed
  with out(1) have r: "readable env schema out" unfolding readable_def by blast
  obtain c where c: "decryptFields env schema out = Inr c" "no_envelopes schema c" "map fst c = map fst out"
    and gc: "\<And>k. jget c k = (if secret_key schema k \<and> isEncryptedSecret (jget out k)
        then (case decryptSecret env (string_of_value (jget out k)) of Inl _ \<Rightarrow> None | Inr p \<Rightarrow> Some (CvStr p)) else jget out k)"
    by (rule decrypted [OF r]) blast
  obtain c0 where c0: "decryptFields env schema config = Inr c0" "no_envelopes schema c0" "map fst c0 = map fst config"
    and gc0: "\<And>k. jget c0 k = (if secret_key schema k \<and> isEncryptedSecret (jget config k)
        then (case decryptSecret env (string_of_value (jget config k)) of Inl _ \<Rightarrow> None | Inr p \<Rightarrow> Some (CvStr p)) else jget config k)"
    by (rule decrypted [OF assms(2)]) blast
  have "jget c k = jget c0 k" for k
  proof (cases "secret_key schema k \<and> plaintext (jget config k)")
    case True
    with plain [of k] gc [of k] gc0 [of k] show ?thesis by simp
  next
    case False
    with same [of k] gc [of k] gc0 [of k] show ?thesis by simp
  qed
  with same_map [of c0 c] c(3) out(2) c0 have "c = c0" by (simp add: no_envelopes_def)
  moreover have "\<not> plaintext (jget out k)" if "secret_key schema k" for k
  proof (cases "plaintext (jget config k)")
    case True
    with plain [OF that] show ?thesis by (simp add: plaintext_def)
  next
    case False
    with same [of k] show ?thesis by simp
  qed
  ultimately show ?thesis using r c(1) c0(1) by (auto simp: hasPlaintextSecret_def secret_key_def list_ex_iff)
qed

lemma no_envelopes_readable:
  assumes "no_envelopes schema config"
  shows "readable env schema config" "decryptFields env schema config = Inr config"
proof -
  from no_envelopes_key [OF assms] assms show r: "readable env schema config" by (auto simp: readable_def no_envelopes_def)
  obtain c where c: "decryptFields env schema config = Inr c" "map fst c = map fst config"
    and gc: "\<And>k. jget c k = (if secret_key schema k \<and> isEncryptedSecret (jget config k)
        then (case decryptSecret env (string_of_value (jget config k)) of Inl _ \<Rightarrow> None | Inr p \<Rightarrow> Some (CvStr p)) else jget config k)"
    by (rule decrypted [OF r]) blast
  have "jget c k = jget config k" for k using gc [of k] no_envelopes_key [OF assms, of k] by auto
  with same_map [of config c] assms c show "decryptFields env schema config = Inr config" by (simp add: no_envelopes_def)
qed

lemma decrypt_encryptFields:
  assumes "aead_ok env" "no_envelopes schema config" "encryptFields env schema config n = (out, n')"
  shows "readable env schema out \<and> decryptFields env schema out = Inr config \<and> \<not> hasPlaintextSecret schema out"
  using encrypt_readable [OF assms(1) no_envelopes_readable(1) [OF assms(2)] assms(3)] no_envelopes_readable(2) [OF assms(2)] by simp

section \<open>The store that encrypts\<close>

text \<open>Its state is the inner store's with the number of initial vectors drawn so far.\<close>

definition on_inner :: "('s, 'a) eff \<Rightarrow> ('s \<times> nat, 'a) eff" where
  "on_inner m = (\<lambda>(s, n). let (r, s') = m s in (r, (s', n)))"

definition eff_of :: "error + 'a \<Rightarrow> ('s, 'a) eff" where
  "eff_of r = (\<lambda>s. (r, s))"

definition decrypt_driver :: "secret_env \<Rightarrow> (string \<Rightarrow> config_field list) \<Rightarrow> installed_driver \<Rightarrow> error + installed_driver" where
  "decrypt_driver env sf d =
     (case decryptFields env (sf (in_key d)) (in_config d) of Inl e \<Rightarrow> Inl e | Inr c \<Rightarrow> Inr (d\<lparr>in_config := c\<rparr>))"

definition decrypt_option ::
    "secret_env \<Rightarrow> (string \<Rightarrow> config_field list) \<Rightarrow> installed_driver option \<Rightarrow> error + installed_driver option" where
  "decrypt_option env sf x =
     (case x of None \<Rightarrow> Inr None | Some d \<Rightarrow> (case decrypt_driver env sf d of Inl e \<Rightarrow> Inl e | Inr d' \<Rightarrow> Inr (Some d')))"

fun decrypt_rows :: "secret_env \<Rightarrow> (string \<Rightarrow> config_field list) \<Rightarrow> installed_driver list \<Rightarrow> error + installed_driver list" where
  "decrypt_rows env sf [] = Inr []"
| "decrypt_rows env sf (d # ds) =
     (case decrypt_driver env sf d of Inl e \<Rightarrow> Inl e
      | Inr d' \<Rightarrow> (case decrypt_rows env sf ds of Inl e \<Rightarrow> Inl e | Inr ds' \<Rightarrow> Inr (d' # ds')))"

definition put_encrypted ::
    "'s driver_store \<Rightarrow> secret_env \<Rightarrow> (string \<Rightarrow> config_field list) \<Rightarrow> installed_driver \<Rightarrow> ('s \<times> nat, unit) eff" where
  "put_encrypted st env sf d = (\<lambda>(s, n).
     (let (c, n') = encryptFields env (sf (in_key d)) (in_config d) n in on_inner (ds_put st (d\<lparr>in_config := c\<rparr>)) (s, n')))"

definition withSecretEncryption ::
    "'s driver_store \<Rightarrow> secret_env \<Rightarrow> (string \<Rightarrow> config_field list) \<Rightarrow> ('s \<times> nat) driver_store" where
  "withSecretEncryption inner env sf =
     \<lparr>ds_list = eff_bind (on_inner (ds_list inner)) (\<lambda>rows. eff_of (decrypt_rows env sf rows)),
      ds_get = (\<lambda>i. eff_bind (on_inner (ds_get inner i)) (\<lambda>d. eff_of (decrypt_option env sf d))),
      ds_getByKey = (\<lambda>key. eff_bind (on_inner (ds_getByKey inner key)) (\<lambda>d. eff_of (decrypt_option env sf d))),
      ds_listByKey = None,
      ds_put = put_encrypted inner env sf,
      ds_remove = (\<lambda>i. on_inner (ds_remove inner i))\<rparr>"

fun migrate_rows ::
    "'s driver_store \<Rightarrow> secret_env \<Rightarrow> (string \<Rightarrow> config_field list) \<Rightarrow> installed_driver list \<Rightarrow> string list \<Rightarrow>
     ('s \<times> nat, string list) eff" where
  "migrate_rows st env sf [] migrated = eff_return migrated"
| "migrate_rows st env sf (d # ds) migrated =
     (if \<not> hasPlaintextSecret (sf (in_key d)) (in_config d) then migrate_rows st env sf ds migrated
      else eff_bind (put_encrypted st env sf d) (\<lambda>u. migrate_rows st env sf ds (migrated @ [in_key d])))"

definition migrateDriverSecretsToEncrypted ::
    "'s driver_store \<Rightarrow> secret_env \<Rightarrow> (string \<Rightarrow> config_field list) \<Rightarrow> ('s \<times> nat, string list) eff" where
  "migrateDriverSecretsToEncrypted st env sf =
     eff_bind (on_inner (ds_list st)) (\<lambda>rows. migrate_rows st env sf rows [])"

text \<open>What its callers see, and which rows it can read; \<open>strict\<close> asks that no row has a secret in plaintext, too.\<close>

definition shown :: "secret_env \<Rightarrow> (string \<Rightarrow> config_field list) \<Rightarrow> installed_driver \<Rightarrow> installed_driver" where
  "shown env sf d = (case decrypt_driver env sf d of Inl e \<Rightarrow> d | Inr d' \<Rightarrow> d')"

definition enc_abst ::
    "('s \<Rightarrow> string \<Rightarrow> installed_driver option) \<Rightarrow> secret_env \<Rightarrow> (string \<Rightarrow> config_field list) \<Rightarrow> 's \<times> nat \<Rightarrow> string \<Rightarrow> installed_driver option" where
  "enc_abst abst env sf sn i = map_option (shown env sf) (abst (fst sn) i)"

definition enc_inv ::
    "bool \<Rightarrow> ('s \<Rightarrow> string \<Rightarrow> installed_driver option) \<Rightarrow> ('s \<Rightarrow> bool) \<Rightarrow> secret_env \<Rightarrow> (string \<Rightarrow> config_field list) \<Rightarrow> 's \<times> nat \<Rightarrow> bool" where
  "enc_inv strict abst valid env sf sn \<longleftrightarrow> valid (fst sn) \<and>
     (\<forall>i d. abst (fst sn) i = Some d \<longrightarrow> readable env (sf (in_key d)) (in_config d) \<and>
        (strict \<longrightarrow> \<not> hasPlaintextSecret (sf (in_key d)) (in_config d)))"

definition enc_storable :: "(string \<Rightarrow> config_field list) \<Rightarrow> installed_driver \<Rightarrow> bool" where
  "enc_storable sf d \<longleftrightarrow> no_envelopes (sf (in_key d)) (in_config d)"

lemma eff_of_apply [simp]: "eff_of r s = (r, s)"
  by (simp add: eff_of_def)

lemma shown_readable:
  assumes "readable env (sf (in_key d)) (in_config d)"
  shows "decrypt_driver env sf d = Inr (shown env sf d)" "in_id (shown env sf d) = in_id d" "in_key (shown env sf d) = in_key d"
    "enc_storable sf (shown env sf d)"
proof -
  obtain c where "decryptFields env (sf (in_key d)) (in_config d) = Inr c" "no_envelopes (sf (in_key d)) c"
    by (rule decrypted [OF assms]) blast
  then show "decrypt_driver env sf d = Inr (shown env sf d)" "in_id (shown env sf d) = in_id d" "in_key (shown env sf d) = in_key d"
    "enc_storable sf (shown env sf d)"
    by (simp_all add: decrypt_driver_def shown_def enc_storable_def)
qed

lemma decrypt_rows_readable:
  "list_all (\<lambda>d. readable env (sf (in_key d)) (in_config d)) ds \<Longrightarrow> decrypt_rows env sf ds = Inr (map (shown env sf) ds)"
  by (induction ds) (simp_all add: shown_readable(1))

lemma put_encrypted_row:
  assumes "aead_ok env" "enc_storable sf d"
  obtains c n' where "put_encrypted st env sf d (s, n) = on_inner (ds_put st (d\<lparr>in_config := c\<rparr>)) (s, n')"
    and "readable env (sf (in_key d)) c" "shown env sf (d\<lparr>in_config := c\<rparr>) = d" "\<not> hasPlaintextSecret (sf (in_key d)) c"
proof -
  obtain c n' where c: "encryptFields env (sf (in_key d)) (in_config d) n = (c, n')" by fastforce
  from decrypt_encryptFields [OF assms(1) _ c] assms(2)
  have "readable env (sf (in_key d)) c" "decryptFields env (sf (in_key d)) c = Inr (in_config d)" "\<not> hasPlaintextSecret (sf (in_key d)) c"
    by (simp_all add: enc_storable_def)
  moreover from this have "shown env sf (d\<lparr>in_config := c\<rparr>) = d" by (simp add: shown_def decrypt_driver_def)
  ultimately show thesis using that c by (simp add: put_encrypted_def)
qed

lemma enc_list:
  assumes inner: "driver_store_laws st abst valid (\<lambda>d. True)" and v: "enc_inv strict abst valid env sf sn"
  shows "\<exists>ds. ds_list (withSecretEncryption st env sf) sn = (Inr ds, sn) \<and> distinct (map in_id ds) \<and>
    (\<forall>d. d \<in> set ds \<longleftrightarrow> enc_abst abst env sf sn (in_id d) = Some d)"
proof -
  obtain s n where sn: "sn = (s, n)" by fastforce
  with v have s: "valid s" by (simp add: enc_inv_def)
  obtain ds where ds: "ds_list st s = (Inr ds, s)" "distinct (map in_id ds)" "\<And>d. d \<in> set ds \<longleftrightarrow> abst s (in_id d) = Some d"
    using driver_store_laws.law_list [OF inner s] by blast
  have r: "readable env (sf (in_key d)) (in_config d)" if "d \<in> set ds" for d
    using that ds(3) v sn by (auto simp: enc_inv_def)
  then have "decrypt_rows env sf ds = Inr (map (shown env sf) ds)" by (intro decrypt_rows_readable) (simp add: list_all_iff)
  then have l: "ds_list (withSecretEncryption st env sf) sn = (Inr (map (shown env sf) ds), sn)"
    using ds(1) sn by (simp add: withSecretEncryption_def on_inner_def eff_bind_def)
  have rid: "in_id (shown env sf d) = in_id d" if "d \<in> set ds" for d by (rule shown_readable(2)) (rule r [OF that])
  then have ids: "map in_id (map (shown env sf) ds) = map in_id ds" by simp
  have "d \<in> set (map (shown env sf) ds) \<longleftrightarrow> enc_abst abst env sf sn (in_id d) = Some d" for d
  proof
    assume "d \<in> set (map (shown env sf) ds)"
    then obtain d' where "d' \<in> set ds" "d = shown env sf d'" by auto
    with rid [of d'] ds(3) sn show "enc_abst abst env sf sn (in_id d) = Some d" by (simp add: enc_abst_def)
  next
    assume "enc_abst abst env sf sn (in_id d) = Some d"
    then obtain d' where d': "abst s (in_id d) = Some d'" "d = shown env sf d'" using sn by (auto simp: enc_abst_def)
    with driver_store_laws.law_id [OF inner s] have "in_id d' = in_id d" by blast
    with d' ds(3) show "d \<in> set (map (shown env sf) ds)" by simp
  qed
  with l ids ds(2) show ?thesis by metis
qed

text \<open>The contract of a store, given the contract of the inner one.\<close>

lemma encryption_laws:
  assumes inner: "driver_store_laws st abst valid (\<lambda>d. True)" and aead: "aead_ok env"
  shows "driver_store_laws (withSecretEncryption st env sf) (enc_abst abst env sf) (enc_inv strict abst valid env sf) (enc_storable sf)"
proof (unfold_locales, goal_cases)
  case (1 sn i d)
  then obtain d' where d': "abst (fst sn) i = Some d'" "d = shown env sf d'" by (auto simp: enc_abst_def)
  with 1 have "readable env (sf (in_key d')) (in_config d')" "valid (fst sn)" by (auto simp: enc_inv_def)
  with d' shown_readable [of env sf d'] driver_store_laws.law_id [OF inner] show ?case by auto
next
  case (2 d d')
  then show ?case by (simp add: enc_storable_def)
next
  case (3 sn i)
  obtain s n where sn: "sn = (s, n)" by fastforce
  with 3 have s: "valid s" by (simp add: enc_inv_def)
  show ?case
  proof (cases "abst s i")
    case None
    with driver_store_laws.law_get [OF inner s, of i] sn show ?thesis
      by (simp add: withSecretEncryption_def on_inner_def eff_bind_def decrypt_option_def enc_abst_def)
  next
    case (Some d)
    with 3 sn have "readable env (sf (in_key d)) (in_config d)" by (auto simp: enc_inv_def)
    with Some driver_store_laws.law_get [OF inner s, of i] sn show ?thesis
      by (simp add: withSecretEncryption_def on_inner_def eff_bind_def decrypt_option_def enc_abst_def shown_readable)
  qed
next
  case (4 sn d)
  obtain s n where sn: "sn = (s, n)" by fastforce
  with 4 have s: "valid s" by (simp add: enc_inv_def)
  obtain c n' where c: "put_encrypted st env sf d (s, n) = on_inner (ds_put st (d\<lparr>in_config := c\<rparr>)) (s, n')"
    "readable env (sf (in_key d)) c" "shown env sf (d\<lparr>in_config := c\<rparr>) = d" "\<not> hasPlaintextSecret (sf (in_key d)) c"
    using put_encrypted_row [OF aead 4(2)] by metis
  obtain s' where s': "ds_put st (d\<lparr>in_config := c\<rparr>) s = (Inr (), s')" "valid s'" "abst s' = (abst s)(in_id d \<mapsto> d\<lparr>in_config := c\<rparr>)"
    using driver_store_laws.law_put [OF inner s, of "d\<lparr>in_config := c\<rparr>"] by auto
  have put: "ds_put (withSecretEncryption st env sf) d sn = (Inr (), (s', n'))"
    using c s' sn by (simp add: withSecretEncryption_def on_inner_def)
  have i: "enc_inv strict abst valid env sf (s', n')"
    using 4(1) sn s' c(2,4) by (auto simp: enc_inv_def)
  have "enc_abst abst env sf (s', n') = (enc_abst abst env sf sn)(in_id d \<mapsto> d)"
    using s'(3) c(3) sn by (auto simp: enc_abst_def fun_eq_iff)
  with put i show ?case by blast
next
  case (5 sn i)
  obtain s n where sn: "sn = (s, n)" by fastforce
  with 5 have s: "valid s" by (simp add: enc_inv_def)
  obtain s' where s': "ds_remove st i s = (Inr (), s')" "valid s'" "abst s' = (abst s)(i := None)"
    using driver_store_laws.law_remove [OF inner s] by blast
  have "ds_remove (withSecretEncryption st env sf) i sn = (Inr (), (s', n))"
    using s' sn by (simp add: withSecretEncryption_def on_inner_def)
  moreover have "enc_inv strict abst valid env sf (s', n)" using 5 sn s' by (auto simp: enc_inv_def split: if_splits)
  moreover have "enc_abst abst env sf (s', n) = (enc_abst abst env sf sn)(i := None)"
    using s'(3) sn by (auto simp: enc_abst_def fun_eq_iff)
  ultimately show ?case by blast
next
  case (6 sn)
  then show ?case by (rule enc_list [OF inner])
next
  case (7 sn key)
  obtain s n where sn: "sn = (s, n)" by fastforce
  with 7 have s: "valid s" by (simp add: enc_inv_def)
  obtain r where r: "ds_getByKey st key s = (Inr r, s)"
    "case r of Some d \<Rightarrow> abst s (in_id d) = Some d \<and> in_key d = key | None \<Rightarrow> \<forall>i d. abst s i = Some d \<longrightarrow> in_key d \<noteq> key"
    using driver_store_laws.law_getByKey [OF inner s] by blast
  have keys: "in_key (shown env sf d) = in_key d" if "abst s i = Some d" for i d
    using 7 sn that shown_readable(3) [of env sf d] by (auto simp: enc_inv_def)
  show ?case
  proof (cases r)
    case None
    with r have no: "in_key d \<noteq> key" if "abst s i = Some d" for i d using that by simp
    have "in_key d \<noteq> key" if ab: "enc_abst abst env sf sn i = Some d" for i d
    proof -
      from ab sn obtain d' where d': "abst s i = Some d'" "d = shown env sf d'" by (auto simp: enc_abst_def)
      from keys [OF d'(1)] no [OF d'(1)] d'(2) show ?thesis by simp
    qed
    with None r sn show ?thesis
      by (auto simp: withSecretEncryption_def on_inner_def eff_bind_def decrypt_option_def enc_abst_def)
  next
    case (Some d)
    with r have d: "abst s (in_id d) = Some d" "in_key d = key" by simp_all
    with 7 sn have rd: "readable env (sf (in_key d)) (in_config d)" by (auto simp: enc_inv_def)
    note sh = shown_readable [of env sf d, OF rd]
    have "ds_getByKey (withSecretEncryption st env sf) key sn = (Inr (Some (shown env sf d)), sn)"
      using r Some sn sh by (simp add: withSecretEncryption_def on_inner_def eff_bind_def decrypt_option_def)
    with d sh sn show ?thesis by (auto simp: enc_abst_def)
  qed
next
  case (8 sn key)
  from enc_list [OF inner 8] obtain ds where "ds_list (withSecretEncryption st env sf) sn = (Inr ds, sn)" "distinct (map in_id ds)"
    "\<forall>d. d \<in> set ds \<longleftrightarrow> enc_abst abst env sf sn (in_id d) = Some d" by blast
  then show ?case
    by (auto simp: listByKeyOf_def withSecretEncryption_def eff_bind_def distinct_map_filter)
qed


section \<open>Migrating rows stored in plaintext\<close>

lemma put_encrypted_memory:
  assumes "aead_ok env" "readable env (sf (in_key d)) (in_config d)" "rows_ok m"
  obtains c n' where "put_encrypted memory_store env sf d (m, n) = (Inr (), (jset (in_id d) (d\<lparr>in_config := c\<rparr>) m, n'))"
    and "shown env sf (d\<lparr>in_config := c\<rparr>) = shown env sf d" "\<not> hasPlaintextSecret (sf (in_key d)) c"
    and "rows_ok (jset (in_id d) (d\<lparr>in_config := c\<rparr>) m)"
proof -
  obtain c n' where c: "encryptFields env (sf (in_key d)) (in_config d) n = (c, n')" by fastforce
  from encrypt_readable [OF assms(1,2) c] have e: "readable env (sf (in_key d)) c" "\<not> hasPlaintextSecret (sf (in_key d)) c"
    "decryptFields env (sf (in_key d)) c = decryptFields env (sf (in_key d)) (in_config d)" by simp_all
  obtain x where "decryptFields env (sf (in_key d)) (in_config d) = Inr x" by (rule decrypted [OF assms(2)]) blast
  with e have "shown env sf (d\<lparr>in_config := c\<rparr>) = shown env sf d" by (simp add: shown_def decrypt_driver_def)
  with that e(2) c rows_ok_put [OF assms(3), of "d\<lparr>in_config := c\<rparr>"] show thesis
    by (simp add: put_encrypted_def on_inner_def memory_store_def)
qed

lemma migrate_rows_memory:
  assumes "aead_ok env" "distinct (map in_id ds)" "rows_ok m"
    and "list_all (\<lambda>d. jget m (in_id d) = Some d \<and> readable env (sf (in_key d)) (in_config d)) ds"
  shows "\<exists>keys m' n'. migrate_rows memory_store env sf ds acc (m, n) = (Inr (acc @ keys), (m', n')) \<and> rows_ok m' \<and>
    (\<forall>i. i \<notin> in_id ` set ds \<longrightarrow> jget m' i = jget m i) \<and>
    (\<forall>d \<in> set ds. \<exists>c. jget m' (in_id d) = Some (d\<lparr>in_config := c\<rparr>) \<and> shown env sf (d\<lparr>in_config := c\<rparr>) = shown env sf d \<and>
      \<not> hasPlaintextSecret (sf (in_key d)) c)"
  using assms
proof (induction ds arbitrary: m n acc)
  case (Cons d ds)
  then have d: "jget m (in_id d) = Some d" "readable env (sf (in_key d)) (in_config d)" "in_id d \<notin> in_id ` set ds" by simp_all
  show ?case
  proof (cases "hasPlaintextSecret (sf (in_key d)) (in_config d)")
    case False
    from Cons.prems have "distinct (map in_id ds)" "rows_ok m"
      "list_all (\<lambda>d. jget m (in_id d) = Some d \<and> readable env (sf (in_key d)) (in_config d)) ds" by simp_all
    from Cons.IH [OF assms(1) this, of acc n] obtain keys m' n' where
        m': "migrate_rows memory_store env sf ds acc (m, n) = (Inr (acc @ keys), (m', n'))" "rows_ok m'"
      "\<forall>i. i \<notin> in_id ` set ds \<longrightarrow> jget m' i = jget m i"
      "\<forall>d \<in> set ds. \<exists>c. jget m' (in_id d) = Some (d\<lparr>in_config := c\<rparr>) \<and> shown env sf (d\<lparr>in_config := c\<rparr>) = shown env sf d \<and>
        \<not> hasPlaintextSecret (sf (in_key d)) c" by blast
    have "jget m' (in_id d) = Some (d\<lparr>in_config := in_config d\<rparr>)" using m'(3) d by simp
    with m' False show ?thesis by (intro exI [of _ keys] exI [of _ m'] exI [of _ n']) (auto intro: exI [of _ "in_config d"])
  next
    case True
    obtain c n1 where c: "put_encrypted memory_store env sf d (m, n) = (Inr (), (jset (in_id d) (d\<lparr>in_config := c\<rparr>) m, n1))"
      "shown env sf (d\<lparr>in_config := c\<rparr>) = shown env sf d" "\<not> hasPlaintextSecret (sf (in_key d)) c"
      "rows_ok (jset (in_id d) (d\<lparr>in_config := c\<rparr>) m)"
      by (rule put_encrypted_memory [of env sf d m n, OF assms(1) d(2) Cons.prems(3)])
    let ?m = "jset (in_id d) (d\<lparr>in_config := c\<rparr>) m"
    have left: "list_all (\<lambda>d. jget ?m (in_id d) = Some d \<and> readable env (sf (in_key d)) (in_config d)) ds"
      unfolding list_all_iff
    proof
      fix d' assume d': "d' \<in> set ds"
      with d(3) have "in_id d' \<noteq> in_id d" by (metis imageI)
      with d' Cons.prems(4) show "jget ?m (in_id d') = Some d' \<and> readable env (sf (in_key d')) (in_config d')"
        by (simp add: list_all_iff)
    qed
    from Cons.prems(2) have "distinct (map in_id ds)" by simp
    from Cons.IH [OF assms(1) this c(4) left, of "acc @ [in_key d]" n1] obtain keys m' n' where
        m': "migrate_rows memory_store env sf ds (acc @ [in_key d]) (?m, n1) = (Inr (acc @ [in_key d] @ keys), (m', n'))" "rows_ok m'"
      "\<forall>i. i \<notin> in_id ` set ds \<longrightarrow> jget m' i = jget ?m i"
      "\<forall>d \<in> set ds. \<exists>c. jget m' (in_id d) = Some (d\<lparr>in_config := c\<rparr>) \<and> shown env sf (d\<lparr>in_config := c\<rparr>) = shown env sf d \<and>
        \<not> hasPlaintextSecret (sf (in_key d)) c" unfolding append_assoc by blast
    have "migrate_rows memory_store env sf (d # ds) acc (m, n) = (Inr (acc @ ([in_key d] @ keys)), (m', n'))"
      using True c(1) m'(1) by (simp add: eff_bind_def)
    moreover have "jget m' (in_id d) = Some (d\<lparr>in_config := c\<rparr>)" using m'(3) d(3) by simp
    moreover have "\<forall>i. i \<notin> in_id ` set (d # ds) \<longrightarrow> jget m' i = jget m i" using m'(3) by simp
    ultimately show ?thesis using m'(2,4) c(2,3) by (intro exI [of _ "[in_key d] @ keys"] exI [of _ m'] exI [of _ n']) auto
  qed
qed simp

lemma migrate_nothing:
  "list_all (\<lambda>d. \<not> hasPlaintextSecret (sf (in_key d)) (in_config d)) ds \<Longrightarrow> migrate_rows st env sf ds acc sn = (Inr acc, sn)"
  by (induction ds) simp_all

text \<open>
  The migration of the boot leaves no secret in plaintext and loses none: it succeeds on every table whose envelopes open, what its
  callers read is what they read before, and at the next boot it finds nothing to do.
\<close>

theorem migration_encrypts_all:
  assumes "aead_ok env" "rows_ok m" "\<forall>d \<in> set (jvalues m). readable env (sf (in_key d)) (in_config d)"
  shows "\<exists>keys m' n'. migrateDriverSecretsToEncrypted memory_store env sf (m, n) = (Inr keys, (m', n')) \<and>
    (\<forall>d \<in> set (jvalues m'). \<not> hasPlaintextSecret (sf (in_key d)) (in_config d)) \<and>
    enc_abst jget env sf (m', n') = enc_abst jget env sf (m, n) \<and>
    migrateDriverSecretsToEncrypted memory_store env sf (m', n') = (Inr [], (m', n'))"
proof -
  have "distinct (map in_id (jvalues m))" using assms(2) by (simp add: rows_ok_ids rows_ok_def jwf_def del: map_map)
  moreover have "list_all (\<lambda>d. jget m (in_id d) = Some d \<and> readable env (sf (in_key d)) (in_config d)) (jvalues m)"
    using assms(3) rows_ok_values [OF assms(2)] by (auto simp: list_all_iff simp del: set_map)
  ultimately obtain keys m' n' where m': "migrate_rows memory_store env sf (jvalues m) [] (m, n) = (Inr keys, (m', n'))" "rows_ok m'"
      "\<And>i. i \<notin> in_id ` set (jvalues m) \<Longrightarrow> jget m' i = jget m i"
    and moved: "\<And>d. d \<in> set (jvalues m) \<Longrightarrow> \<exists>c. jget m' (in_id d) = Some (d\<lparr>in_config := c\<rparr>) \<and>
      shown env sf (d\<lparr>in_config := c\<rparr>) = shown env sf d \<and> \<not> hasPlaintextSecret (sf (in_key d)) c"
    using migrate_rows_memory [OF assms(1) _ assms(2), of "jvalues m" sf "[]" n] by fastforce
  have rows: "jget m i = None \<and> jget m' i = None \<or> (\<exists>d c. jget m i = Some d \<and> jget m' i = Some (d\<lparr>in_config := c\<rparr>) \<and>
      shown env sf (d\<lparr>in_config := c\<rparr>) = shown env sf d \<and> \<not> hasPlaintextSecret (sf (in_key d)) c)" for i
  proof (cases "jget m i")
    case None
    then have "i \<notin> in_id ` set (jvalues m)" using rows_ok_values [OF assms(2)] by (metis imageE option.distinct(1))
    with m'(3) None show ?thesis by simp
  next
    case (Some d)
    with rows_ok_get [OF assms(2)] have "in_id d = i" by simp
    with Some rows_ok_values [OF assms(2), of d] moved [of d] show ?thesis by auto
  qed
  have clean: "\<not> hasPlaintextSecret (sf (in_key d)) (in_config d)" if "d \<in> set (jvalues m')" for d
    using that rows [of "in_id d"] rows_ok_values [OF m'(2), of d] by auto
  have "enc_abst jget env sf (m', n') i = enc_abst jget env sf (m, n) i" for i
    using rows [of i] by (auto simp: enc_abst_def)
  moreover have "migrateDriverSecretsToEncrypted memory_store env sf (m, n) = (Inr keys, (m', n'))"
    using m'(1) by (simp add: migrateDriverSecretsToEncrypted_def eff_bind_def on_inner_def memory_store_def)
  moreover have "migrateDriverSecretsToEncrypted memory_store env sf (m', n') = (Inr [], (m', n'))"
    using migrate_nothing [of sf "jvalues m'" memory_store env "[]" "(m', n')"] clean
    by (simp add: migrateDriverSecretsToEncrypted_def eff_bind_def on_inner_def memory_store_def list_all_iff)
  ultimately show ?thesis using clean by blast
qed


text \<open>A cipher that keeps the text, to apply the theorems, and a driver with its key in plaintext.\<close>

definition clear_env :: secret_env where
  "clear_env = \<lparr>se_key = '''', se_iv = (\<lambda>n. [0]), se_seal = (\<lambda>k iv pt. (pt, [0])), se_open = (\<lambda>k iv tag ct. Inr ct)\<rparr>"

definition casambi :: "string \<Rightarrow> installed_driver" where
  "casambi apikey = \<lparr>in_id = ''drv_1'', in_homeId = ''home_1'', in_key = ''supreme-casambi'', in_version = ''1.0.0'', in_channel = ChOfficial,
     in_category = DcLighting, in_installedAt = 0, in_enabled = True, in_status = DsActive,
     in_config = [(''connectionType'', CvStr ''cloud''), (''apiKey'', CvStr apikey)], in_label = None\<rparr>"

lemma clear_env_ok: "aead_ok clear_env"
  by (simp add: aead_ok_def clear_env_def)

lemma two_modes_secret [simp]: "secret_key two_modes k \<longleftrightarrow> k = ''apiKey''"
  by (auto simp: secret_key_def two_modes_def mode_field_def key_field_def ip_field_def)

theorem migration_encrypts_all_witness:
  "\<exists>keys m' n'. migrateDriverSecretsToEncrypted memory_store clear_env (\<lambda>k. two_modes) ([(''drv_1'', casambi ''k-1'')], 0) = (Inr keys, (m', n')) \<and>
    (\<forall>d \<in> set (jvalues m'). \<not> hasPlaintextSecret two_modes (in_config d)) \<and>
    enc_abst jget clear_env (\<lambda>k. two_modes) (m', n') = enc_abst jget clear_env (\<lambda>k. two_modes) ([(''drv_1'', casambi ''k-1'')], 0) \<and>
    migrateDriverSecretsToEncrypted memory_store clear_env (\<lambda>k. two_modes) (m', n') = (Inr [], (m', n'))"
  by (rule migration_encrypts_all [OF clear_env_ok]) (simp_all add: rows_ok_def jwf_def casambi_def readable_def SECRET_PREFIX_def)

text \<open>
  A password that begins as an envelope does is written in plaintext, and from then on the list of all drivers fails.
\<close>

theorem envelope_like_secret_breaks_list:
  "let st = withSecretEncryption memory_store env (\<lambda>k. two_modes)
   in ds_put st (casambi ''enc:v1:mine'') ([], 0) = (Inr (), ([(''drv_1'', casambi ''enc:v1:mine'')], 0)) \<and>
     ds_list st ([(''drv_1'', casambi ''enc:v1:mine'')], 0) =
       (Inl (PlainError ''decryptSecret: malformed ciphertext''), ([(''drv_1'', casambi ''enc:v1:mine'')], 0))"
  by (simp add: withSecretEncryption_def put_encrypted_def encryptFields_def two_modes_def mode_field_def key_field_def ip_field_def
      encrypt_field_def casambi_def plaintext_def SECRET_PREFIX_def on_inner_def memory_store_def eff_bind_def decrypt_driver_def
      decryptFields_def decrypt_field_def string_of_value_def decryptSecret_def js_nth_def truthy_def Let_def)

end
