(* ===== verification/Driver_Manager.thy ===== *)
theory Driver_Manager
  imports Secret_Store Ids
begin

text \<open>
  The driver manager of the hub, \<^verbatim>\<open>services/drivers/src/driver-manager.ts\<close>: installing drivers from signed bundles, updating and
  rolling back every instance of a driver, configuring, enabling and removing instances, over any store of installed drivers, and the
  registry that the interface shows. The id and the instant of a new instance, the licensed SKUs of the moment and how JavaScript
  prints numbers and compares names in the language of the hub are arguments.
\<close>

section \<open>The manager\<close>

record manager_env =
  me_homeId :: string
  me_catalog :: "signed_bundle list"
  me_trusted :: "(string, string) jsmap"
  me_bundle :: bundle_env
  me_show :: "rat \<Rightarrow> string"

definition verify_bundle :: "manager_env \<Rightarrow> signed_bundle \<Rightarrow> error + unit" where
  "verify_bundle env e =
     (case truthy (jget (me_trusted env) (sd_signingKeyId e)) of
        None \<Rightarrow> Inl (SupremeError Forbidden (''unknown signing key '' @ sd_signingKeyId e))
      | Some pub \<Rightarrow>
          (if \<not> verifyBundle (me_bundle env) e pub None then Inl (SupremeError Forbidden ''driver bundle signature verification failed'')
           else if bd_status (sd_bundle e) = VsYanked then Inl (SupremeError Conflict ''driver version has been yanked'')
           else Inr ()))"

definition check_license :: "string list \<Rightarrow> string \<Rightarrow> driver_manifest \<Rightarrow> error + unit" where
  "check_license skus key m =
     (case truthy (mf_requiresSku m) of
        None \<Rightarrow> Inr ()
      | Some sku \<Rightarrow> (if sku \<in> set skus then Inr ()
          else Inl (SupremeError Forbidden (''driver '' @ key @ '' requires the '' @ [CHR 0x27] @ sku @ [CHR 0x27] @ '' license''))))"

definition new_instance ::
    "manager_env \<Rightarrow> string \<Rightarrow> driver_manifest \<Rightarrow> installed_driver option \<Rightarrow> string option \<Rightarrow> string \<Rightarrow> int \<Rightarrow> installed_driver" where
  "new_instance env key m existing label nid now =
     \<lparr>in_id = (case existing of Some x \<Rightarrow> in_id x | None \<Rightarrow> nid),
      in_homeId = me_homeId env, in_key = key, in_version = mf_version m, in_channel = mf_channel m, in_category = mf_category m,
      in_installedAt = (case existing of Some x \<Rightarrow> in_installedAt x | None \<Rightarrow> now),
      in_enabled = (case existing of Some x \<Rightarrow> in_enabled x | None \<Rightarrow> \<not> mf_shipsDisabled m),
      in_status = (if mf_shipsDisabled m \<and> \<not> (case existing of Some x \<Rightarrow> in_enabled x | None \<Rightarrow> False) then DsDisabled else DsActive),
      in_config = (case existing of Some x \<Rightarrow> in_config x | None \<Rightarrow> defaultDriverConfig (mf_configSchema m)),
      in_label = (case truthy label of Some l \<Rightarrow> Some l | None \<Rightarrow> (case existing of Some x \<Rightarrow> truthy (in_label x) | None \<Rightarrow> None))\<rparr>"

definition install ::
    "manager_env \<Rightarrow> 's driver_store \<Rightarrow> string list \<Rightarrow> string \<Rightarrow> string option \<Rightarrow> bool \<Rightarrow> string option \<Rightarrow> string \<Rightarrow> int \<Rightarrow>
     ('s, installed_driver) eff" where
  "install env st skus key version asNew label nid now =
     (case catalog_find (me_catalog env) key version of
        None \<Rightarrow> eff_throw (SupremeError Not_found (''driver '' @ key @ (case truthy version of Some v \<Rightarrow> ''@'' @ v | None \<Rightarrow> '''') @ '' not found''))
      | Some e \<Rightarrow>
          (let m = bd_manifest (sd_bundle e)
           in eff_bind (eff_of (verify_bundle env e)) (\<lambda>u.
              eff_bind (eff_of (check_license skus key m)) (\<lambda>u.
              eff_bind (if asNew then eff_return None else ds_getByKey st key) (\<lambda>existing.
                (let d = new_instance env key m existing label nid now
                 in eff_bind (ds_put st d) (\<lambda>u. eff_return d)))))))"

definition requireInstalled :: "'s driver_store \<Rightarrow> string \<Rightarrow> ('s, installed_driver) eff" where
  "requireInstalled st key =
     eff_bind (ds_getByKey st key) (\<lambda>x. case x of
        None \<Rightarrow> eff_throw (SupremeError Not_found (''driver '' @ key @ '' is not installed''))
      | Some d \<Rightarrow> eff_return d)"

definition set_version :: "driver_manifest \<Rightarrow> installed_driver \<Rightarrow> installed_driver" where
  "set_version m d = d\<lparr>in_version := mf_version m, in_channel := mf_channel m, in_category := mf_category m\<rparr>"

fun put_versions :: "'s driver_store \<Rightarrow> driver_manifest \<Rightarrow> installed_driver list \<Rightarrow> ('s, installed_driver list) eff" where
  "put_versions st m [] = eff_return []"
| "put_versions st m (d # ds) =
     eff_bind (ds_put st (set_version m d)) (\<lambda>u. eff_bind (put_versions st m ds) (\<lambda>r. eff_return (set_version m d # r)))"

definition setVersionForEveryInstance ::
    "manager_env \<Rightarrow> 's driver_store \<Rightarrow> string list \<Rightarrow> string \<Rightarrow> string \<Rightarrow> ('s, installed_driver) eff" where
  "setVersionForEveryInstance env st skus key version =
     (case catalog_find (me_catalog env) key (Some version) of
        None \<Rightarrow> eff_throw (SupremeError Not_found (''driver '' @ key @ ''@'' @ version @ '' not found''))
      | Some e \<Rightarrow>
          (let m = bd_manifest (sd_bundle e)
           in eff_bind (eff_of (verify_bundle env e)) (\<lambda>u.
              eff_bind (eff_of (check_license skus key m)) (\<lambda>u.
              eff_bind (listByKeyOf st key) (\<lambda>instances.
              eff_bind (put_versions st m instances) (\<lambda>updated. case updated of
                 [] \<Rightarrow> eff_throw (SupremeError Not_found (''driver '' @ key @ '' is not installed''))
               | d # ds \<Rightarrow> eff_return d))))))"

definition update_driver :: "manager_env \<Rightarrow> 's driver_store \<Rightarrow> string list \<Rightarrow> string \<Rightarrow> ('s, installed_driver) eff" where
  "update_driver env st skus key =
     eff_bind (requireInstalled st key) (\<lambda>installed.
       case catalog_find (me_catalog env) key None of
         None \<Rightarrow> eff_throw (SupremeError Not_found (''driver '' @ key @ '' not in catalog''))
       | Some latest \<Rightarrow>
           (let v = mf_version (bd_manifest (sd_bundle latest))
            in if v = in_version installed then eff_return installed else setVersionForEveryInstance env st skus key v))"

definition rollback_driver :: "manager_env \<Rightarrow> 's driver_store \<Rightarrow> string list \<Rightarrow> string \<Rightarrow> string \<Rightarrow> ('s, installed_driver) eff" where
  "rollback_driver env st skus key version =
     eff_bind (requireInstalled st key) (\<lambda>installed. setVersionForEveryInstance env st skus key version)"

definition require_id :: "'s driver_store \<Rightarrow> string \<Rightarrow> ('s, installed_driver) eff" where
  "require_id st i = eff_bind (ds_get st i) (\<lambda>x. case x of
     None \<Rightarrow> eff_throw (SupremeError Not_found ''driver not installed'') | Some d \<Rightarrow> eff_return d)"

definition getConfig :: "'s driver_store \<Rightarrow> string \<Rightarrow> ('s, driver_config) eff" where
  "getConfig st i = eff_bind (require_id st i) (\<lambda>d. eff_return (in_config d))"

fun join_semicolon :: "string list \<Rightarrow> string" where
  "join_semicolon [] = ''''"
| "join_semicolon [x] = x"
| "join_semicolon (x # y # r) = x @ ''; '' @ join_semicolon (y # r)"

definition setConfig ::
    "manager_env \<Rightarrow> 's driver_store \<Rightarrow> string \<Rightarrow> driver_config \<Rightarrow> driver_config \<Rightarrow> ('s, installed_driver) eff" where
  "setConfig env st i inp fallbacks =
     eff_bind (require_id st i) (\<lambda>d.
       (let (config, errors) = validateDriverConfig (me_show env) (schemaFor (me_catalog env) (in_key d)) inp (in_config d) fallbacks
        in if errors \<noteq> [] then eff_throw (SupremeError Validation_failed (join_semicolon errors))
           else eff_bind (ds_put st (d\<lparr>in_config := config\<rparr>)) (\<lambda>u. eff_return (d\<lparr>in_config := config\<rparr>))))"

definition setEnabled :: "'s driver_store \<Rightarrow> string \<Rightarrow> bool \<Rightarrow> ('s, installed_driver) eff" where
  "setEnabled st i enabled =
     eff_bind (require_id st i) (\<lambda>d.
       (let d' = d\<lparr>in_enabled := enabled, in_status := (if enabled then DsActive else DsDisabled)\<rparr>
        in eff_bind (ds_put st d') (\<lambda>u. eff_return d')))"

definition uninstall :: "'s driver_store \<Rightarrow> string \<Rightarrow> ('s, unit) eff" where
  "uninstall st i = eff_bind (require_id st i) (\<lambda>d. ds_remove st i)"

section \<open>The registry\<close>

text \<open>A row keeps its manifest whole, where the source copies the fields; an absent status stands for \<^verbatim>\<open>not_installed\<close>.\<close>

record registry_entry =
  re_manifest :: driver_manifest
  re_operations :: "driver_operation list"
  re_installedVersion :: "string option"
  re_updateAvailable :: bool
  re_installed :: bool
  re_enabled :: bool
  re_status :: "driver_status option"
  re_installedId :: "string option"
  re_config :: driver_config
  re_label :: "string option"
  re_instanceCount :: nat
  re_instanceIndex :: "nat option"
  re_displayLabel :: "string option"

definition casambiInstanceNoun :: "string \<Rightarrow> driver_config \<Rightarrow> string" where
  "casambiInstanceNoun key config =
     (if key \<noteq> ''supreme-casambi'' then ''Instance''
      else if jget config ''connectionType'' = Some (CvStr ''local'') then ''Gateway'' else ''Network'')"

definition registry_row :: "driver_manifest \<Rightarrow> nat \<Rightarrow> nat \<times> installed_driver option \<Rightarrow> registry_entry" where
  "registry_row m count = (\<lambda>(index, inst).
     \<lparr>re_manifest = m,
      re_operations = (if mf_operations m \<noteq> [] then mf_operations m else DEFAULT_DRIVER_OPERATIONS),
      re_installedVersion = map_option in_version inst,
      re_updateAvailable = (case inst of None \<Rightarrow> False | Some d \<Rightarrow> isNewerSemver (mf_version m) (in_version d)),
      re_installed = (inst \<noteq> None),
      re_enabled = (case inst of None \<Rightarrow> False | Some d \<Rightarrow> in_enabled d),
      re_status = map_option in_status inst,
      re_installedId = map_option in_id inst,
      re_config = (case inst of None \<Rightarrow> [] | Some d \<Rightarrow> in_config d),
      re_label = Option.bind inst in_label,
      re_instanceCount = count,
      re_instanceIndex = map_option (\<lambda>d. index) inst,
      re_displayLabel = (case inst of None \<Rightarrow> None | Some d \<Rightarrow> (case in_label d of Some l \<Rightarrow> Some l
         | None \<Rightarrow> (if count > 1 then Some (casambiInstanceNoun (mf_key m) (in_config d) @ '' '' @ show_nat (index + 1)) else None)))\<rparr>)"

definition registry_rows :: "installed_driver list \<Rightarrow> driver_manifest \<Rightarrow> registry_entry list" where
  "registry_rows ds m =
     (let instances = sort_key (\<lambda>d. (in_installedAt d, in_id d)) (filter (\<lambda>d. in_key d = mf_key m) ds);
          rows = (if instances \<noteq> [] then map Some instances else [None])
      in map (registry_row m (length instances)) (enumerate 0 rows))"

definition registry_order :: "(string \<Rightarrow> string \<Rightarrow> int) \<Rightarrow> registry_entry \<Rightarrow> registry_entry \<Rightarrow> bool" where
  "registry_order lc a b \<longleftrightarrow>
     (let c = lc (mf_name (re_manifest a)) (mf_name (re_manifest b))
      in if c \<noteq> 0 then c > 0 else lc (or_else (re_label a) '''') (or_else (re_label b) '''') > 0)"

definition registry :: "(string \<Rightarrow> string \<Rightarrow> int) \<Rightarrow> manager_env \<Rightarrow> 's driver_store \<Rightarrow> ('s, registry_entry list) eff" where
  "registry lc env st =
     eff_bind (ds_list st) (\<lambda>ds. eff_return (sort_by (registry_order lc)
       (concat (map (\<lambda>b. registry_rows ds (bd_manifest (sd_bundle b))) (me_catalog env)))))"

section \<open>Sequences of operations\<close>

datatype manager_op =
    OInstall string "string option" bool "string option" string int
  | OUpdate string
  | ORollback string string
  | OConfigure string driver_config driver_config
  | OEnable string bool
  | OUninstall string

definition unit_of :: "('s, 'a) eff \<Rightarrow> ('s, unit) eff" where
  "unit_of m = eff_bind m (\<lambda>a. eff_return ())"

fun run_manager_op :: "manager_env \<Rightarrow> 's driver_store \<Rightarrow> string list \<Rightarrow> manager_op \<Rightarrow> ('s, unit) eff" where
  "run_manager_op env st skus (OInstall key version asNew label nid now) = unit_of (install env st skus key version asNew label nid now)"
| "run_manager_op env st skus (OUpdate key) = unit_of (update_driver env st skus key)"
| "run_manager_op env st skus (ORollback key version) = unit_of (rollback_driver env st skus key version)"
| "run_manager_op env st skus (OConfigure i inp fallbacks) = unit_of (setConfig env st i inp fallbacks)"
| "run_manager_op env st skus (OEnable i b) = unit_of (setEnabled st i b)"
| "run_manager_op env st skus (OUninstall i) = uninstall st i"

text \<open>Requests one after the other, each with the SKUs that the home holds at that moment; a failed one changes what it changed.\<close>

fun run_manager :: "manager_env \<Rightarrow> 's driver_store \<Rightarrow> (string list \<times> manager_op) list \<Rightarrow> 's \<Rightarrow> 's" where
  "run_manager env st [] s = s"
| "run_manager env st ((skus, op) # ops) s = run_manager env st ops (snd (run_manager_op env st skus op s))"

text \<open>
  A driver is vouched for: the catalogue has a bundle of its version, signed by a trusted publisher and not withdrawn, and the license it
  needs is among the SKUs held.
\<close>

definition vouched :: "manager_env \<Rightarrow> string set \<Rightarrow> installed_driver \<Rightarrow> bool" where
  "vouched env held d \<longleftrightarrow> (\<exists>e \<in> set (me_catalog env). mf_key (bd_manifest (sd_bundle e)) = in_key d \<and>
     mf_version (bd_manifest (sd_bundle e)) = in_version d \<and> mf_channel (bd_manifest (sd_bundle e)) = in_channel d \<and>
     mf_category (bd_manifest (sd_bundle e)) = in_category d \<and>
     (\<exists>pub. jget (me_trusted env) (sd_signingKeyId e) = Some pub \<and> verifyBundle (me_bundle env) e pub None) \<and>
     bd_status (sd_bundle e) \<noteq> VsYanked \<and>
     (case truthy (mf_requiresSku (bd_manifest (sd_bundle e))) of None \<Rightarrow> True | Some sku \<Rightarrow> sku \<in> held))"

definition same_identity :: "installed_driver \<Rightarrow> installed_driver \<Rightarrow> bool" where
  "same_identity d d' \<longleftrightarrow> in_key d' = in_key d \<and> in_version d' = in_version d \<and> in_channel d' = in_channel d \<and> in_category d' = in_category d"

lemma vouched_cong:
  "vouched env held d \<Longrightarrow> in_key d' = in_key d \<Longrightarrow> in_version d' = in_version d \<Longrightarrow> in_channel d' = in_channel d \<Longrightarrow>
   in_category d' = in_category d \<Longrightarrow> vouched env held d'"
  by (simp add: vouched_def)

lemma vouched_identity: "same_identity d d' \<Longrightarrow> vouched env held d \<Longrightarrow> vouched env held d'"
  by (simp add: vouched_def same_identity_def)

lemma same_identity_trans: "same_identity d e \<Longrightarrow> same_identity e f \<Longrightarrow> same_identity d f"
  by (simp add: same_identity_def)

lemma verify_bundle_Inr:
  assumes "verify_bundle env e = Inr ()"
  shows "(\<exists>pub. jget (me_trusted env) (sd_signingKeyId e) = Some pub \<and> verifyBundle (me_bundle env) e pub None) \<and>
    bd_status (sd_bundle e) \<noteq> VsYanked"
  using assms by (auto simp: verify_bundle_def truthy_def split: option.splits if_splits)

lemma checked_vouched:
  assumes "catalog_find (me_catalog env) key version = Some e" "verify_bundle env e = Inr ()"
    and "check_license skus key (bd_manifest (sd_bundle e)) = Inr ()" "set skus \<subseteq> held" "in_key d = key"
    and "in_version d = mf_version (bd_manifest (sd_bundle e))" "in_channel d = mf_channel (bd_manifest (sd_bundle e))"
      "in_category d = mf_category (bd_manifest (sd_bundle e))"
  shows "vouched env held d"
  using catalog_find_Some(1,2) [OF assms(1)] verify_bundle_Inr [OF assms(2)] assms(3-)
  by (auto simp: vouched_def check_license_def intro!: bexI [of _ e] split: option.splits if_splits)

lemma eff_bind_pure [simp]:
  "eff_bind (eff_of (Inr a)) f = f a" "eff_bind (eff_of (Inl e)) f s = (Inl e, s)" "eff_bind (eff_throw e) f s = (Inl e, s)"
  by (simp_all add: eff_bind_def fun_eq_iff)

text \<open>Which configurations an operation may write, in terms of what a store keeps as it is.\<close>

definition defaults_kept :: "manager_env \<Rightarrow> (installed_driver \<Rightarrow> bool) \<Rightarrow> bool" where
  "defaults_kept env storable \<longleftrightarrow> (\<forall>e \<in> set (me_catalog env). \<forall>d. in_config d = defaultDriverConfig (mf_configSchema (bd_manifest (sd_bundle e))) \<longrightarrow> storable d)"

definition input_kept :: "manager_env \<Rightarrow> (installed_driver \<Rightarrow> bool) \<Rightarrow> manager_op \<Rightarrow> bool" where
  "input_kept env storable op \<longleftrightarrow> (case op of
     OConfigure i inp fallbacks \<Rightarrow> (\<forall>d config errors. storable d \<longrightarrow>
       validateDriverConfig (me_show env) (schemaFor (me_catalog env) (in_key d)) inp (in_config d) fallbacks = (config, errors) \<longrightarrow>
       storable (d\<lparr>in_config := config\<rparr>))
   | _ \<Rightarrow> True)"

definition sound ::
    "('s \<Rightarrow> bool) \<Rightarrow> ('s \<Rightarrow> string \<Rightarrow> installed_driver option) \<Rightarrow> (string \<Rightarrow> installed_driver \<Rightarrow> bool) \<Rightarrow> 's \<Rightarrow> bool" where
  "sound valid abst P s \<longleftrightarrow> valid s \<and> (\<forall>i d. abst s i = Some d \<longrightarrow> P i d)"

text \<open>What an operation that holds some SKUs establishes: it is kept by whatever keeps a driver's identity, and every vouched driver has it.\<close>

definition establishes :: "manager_env \<Rightarrow> string list \<Rightarrow> (string \<Rightarrow> installed_driver \<Rightarrow> bool) \<Rightarrow> bool" where
  "establishes env skus P \<longleftrightarrow> (\<forall>i d d'. P i d \<longrightarrow> same_identity d d' \<longrightarrow> P i d') \<and> (\<forall>i d. vouched env (set skus) d \<longrightarrow> P i d)"

lemma set_version_simps [simp]:
  "in_id (set_version m d) = in_id d" "in_key (set_version m d) = in_key d" "in_config (set_version m d) = in_config d"
  by (simp_all add: set_version_def)

context driver_store_laws begin

lemma sound_valid: "sound valid abst P s \<Longrightarrow> valid s"
  by (simp add: sound_def)

lemma kept_identity:
  assumes "establishes env skus P" "P i d"
  shows "P i (d\<lparr>in_config := config\<rparr>)" "P i (d\<lparr>in_enabled := b, in_status := st'\<rparr>)"
  using assms by (auto simp: establishes_def same_identity_def)

lemma put_sound:
  assumes "sound valid abst P s" "storable d" "P (in_id d) d"
  obtains s' where "ds_put st d s = (Inr (), s')" "sound valid abst P s'" "abst s' = (abst s)(in_id d \<mapsto> d)"
  using law_put [OF sound_valid [OF assms(1)] assms(2)] assms by (auto simp: sound_def)

lemma require_id_sound:
  assumes "sound valid abst P s"
  shows "require_id st i s = (case abst s i of None \<Rightarrow> (Inl (SupremeError Not_found ''driver not installed''), s) | Some d \<Rightarrow> (Inr d, s))"
  using law_get [OF sound_valid [OF assms], of i] by (simp add: require_id_def eff_bind_def split: option.split)

lemma stored_driver:
  assumes "sound valid abst P s" "abst s i = Some d"
  shows "in_id d = i" "storable d" "P i d"
  using law_id [OF sound_valid [OF assms(1)] assms(2)] assms by (auto simp: sound_def)

lemma install_sound:
  assumes s: "sound valid abst P s" and est: "establishes env skus P" and kept: "defaults_kept env storable"
  shows "sound valid abst P (snd (install env st skus key version asNew label nid now s))"
proof (cases "catalog_find (me_catalog env) key version")
  case None
  then show ?thesis using s by (simp add: install_def)
next
  case (Some e)
  let ?m = "bd_manifest (sd_bundle e)"
  show ?thesis
  proof (cases "verify_bundle env e = Inr () \<and> check_license skus key ?m = Inr ()")
    case False
    with Some s show ?thesis
      by (cases "verify_bundle env e"; cases "check_license skus key ?m") (auto simp: install_def Let_def)
  next
    case True
    obtain x where x: "(if asNew then eff_return None else ds_getByKey st key) s = (Inr x, s)"
      "\<And>d. x = Some d \<Longrightarrow> abst s (in_id d) = Some d \<and> in_key d = key"
      using law_getByKey [OF sound_valid [OF s], of key] by (cases asNew) (auto split: option.splits)
    let ?d = "new_instance env key ?m x label nid now"
    have "storable ?d"
    proof (cases x)
      case None
      with kept catalog_find_Some(1) [OF Some] show ?thesis by (auto simp: defaults_kept_def new_instance_def)
    next
      case (Some d)
      with x(2) stored_driver(2) [OF s, of "in_id d" d] law_storable [of d ?d] show ?thesis by (simp add: new_instance_def)
    qed
    moreover have "vouched env (set skus) ?d"
      by (rule checked_vouched [OF Some _ _ subset_refl]) (use True in \<open>simp_all add: new_instance_def\<close>)
    with est have "P (in_id ?d) ?d" by (simp add: establishes_def)
    ultimately obtain s' where "ds_put st ?d s = (Inr (), s')" "sound valid abst P s'" by (rule put_sound [OF s]) blast
    with Some True x(1) show ?thesis by (simp add: install_def Let_def eff_bind_def)
  qed
qed

lemma put_versions_valid:
  assumes "valid s" "list_all storable ds" "distinct (map in_id ds)"
  shows "\<exists>s'. put_versions st m ds s = (Inr (map (set_version m) ds), s') \<and> valid s' \<and>
    (\<forall>i. abst s' i = (case find (\<lambda>d. in_id d = i) ds of Some d \<Rightarrow> Some (set_version m d) | None \<Rightarrow> abst s i))"
  using assms
proof (induction ds arbitrary: s)
  case (Cons d ds)
  have "storable (set_version m d)" using law_storable [of d "set_version m d"] Cons.prems(2) by simp
  then obtain s1 where s1: "ds_put st (set_version m d) s = (Inr (), s1)" "valid s1"
    "abst s1 = (abst s)(in_id d \<mapsto> set_version m d)"
    using law_put [OF Cons.prems(1), of "set_version m d"] by auto
  from Cons.IH [OF s1(2)] Cons.prems(2,3) obtain s' where s': "put_versions st m ds s1 = (Inr (map (set_version m) ds), s')" "valid s'"
    "\<forall>i. abst s' i = (case find (\<lambda>d. in_id d = i) ds of Some d \<Rightarrow> Some (set_version m d) | None \<Rightarrow> abst s1 i)"
    by auto
  have "abst s' i = (case find (\<lambda>d. in_id d = i) (d # ds) of Some d \<Rightarrow> Some (set_version m d) | None \<Rightarrow> abst s i)" for i
  proof (cases "in_id d = i")
    case True
    with Cons.prems(3) have "find (\<lambda>d. in_id d = i) ds = None" by (simp add: find_None_iff) (metis imageI)
    with True s'(3) s1(3) show ?thesis by simp
  next
    case False
    with s'(3) s1(3) show ?thesis by (simp split: option.split)
  qed
  with s1 s' show ?case by (simp add: eff_bind_def)
qed simp

text \<open>Either nothing is written, or every instance of the key is moved to one verified version, and nothing else is touched.\<close>

lemma setVersion_cases:
  assumes s: "valid s" and res: "setVersionForEveryInstance env st skus key version s = (r, s')"
  obtains (unchanged) "s' = s" "\<exists>x. r = Inl x"
  | (moved) e where "catalog_find (me_catalog env) key (Some version) = Some e" "verify_bundle env e = Inr ()"
      "check_license skus key (bd_manifest (sd_bundle e)) = Inr ()" "valid s'"
      "\<And>i. abst s' i = map_option (\<lambda>y. if in_key y = key then set_version (bd_manifest (sd_bundle e)) y else y) (abst s i)"
proof (cases "catalog_find (me_catalog env) key (Some version)")
  case None
  with res have "s' = s \<and> (\<exists>x. r = Inl x)" by (auto simp: setVersionForEveryInstance_def)
  with unchanged show thesis by blast
next
  case (Some e)
  let ?m = "bd_manifest (sd_bundle e)"
  show thesis
  proof (cases "verify_bundle env e = Inr () \<and> check_license skus key ?m = Inr ()")
    case False
    with Some res have "s' = s \<and> (\<exists>x. r = Inl x)"
      by (cases "verify_bundle env e"; cases "check_license skus key ?m") (auto simp: setVersionForEveryInstance_def Let_def)
    with unchanged show thesis by blast
  next
    case True
    obtain ds where ds: "listByKeyOf st key s = (Inr ds, s)" "distinct (map in_id ds)"
      "\<And>d. d \<in> set ds \<longleftrightarrow> abst s (in_id d) = Some d \<and> in_key d = key"
      using law_listByKey [OF s] by blast
    with law_id [OF s] have "list_all storable ds" by (auto simp: list_all_iff)
    from put_versions_valid [OF s this ds(2), of ?m] obtain s1 where
      s1: "put_versions st ?m ds s = (Inr (map (set_version ?m) ds), s1)" "valid s1"
      "\<And>i. abst s1 i = (case find (\<lambda>d. in_id d = i) ds of Some d \<Rightarrow> Some (set_version ?m d) | None \<Rightarrow> abst s i)" by blast
    from Some True ds(1) s1(1) res have "s' = s1"
      by (cases ds) (simp_all add: setVersionForEveryInstance_def Let_def eff_bind_def)
    moreover have "abst s1 i = map_option (\<lambda>y. if in_key y = key then set_version ?m y else y) (abst s i)" for i
    proof (cases "find (\<lambda>d. in_id d = i) ds")
      case None
      then have "\<forall>d \<in> set ds. in_id d \<noteq> i" by (simp add: find_None_iff)
      with ds(3) law_id [OF s, of i] have "\<forall>y. abst s i = Some y \<longrightarrow> in_key y \<noteq> key" by blast
      with None s1(3) [of i] show ?thesis by (cases "abst s i") simp_all
    next
      case (Some d)
      from find_Some_set [OF Some] ds(3) have "abst s i = Some d" "in_key d = key" by blast+
      with Some s1(3) [of i] show ?thesis by simp
    qed
    ultimately show thesis using moved [OF Some] True s1(2) by blast
  qed
qed

lemma setVersion_sound:
  assumes s: "sound valid abst P s" and est: "establishes env skus P"
  shows "sound valid abst P (snd (setVersionForEveryInstance env st skus key version s))"
proof -
  obtain r s' where r: "setVersionForEveryInstance env st skus key version s = (r, s')" by fastforce
  from sound_valid [OF s] this show ?thesis
  proof (cases rule: setVersion_cases)
    case unchanged
    with r s show ?thesis by simp
  next
    case (moved e)
    have "P i y" if i: "abst s' i = Some y" for i y
    proof -
      from i moved(5) obtain x where x: "abst s i = Some x" "y = (if in_key x = key then set_version (bd_manifest (sd_bundle e)) x else x)" by auto
      show ?thesis
      proof (cases "in_key x = key")
        case True
        with x have "vouched env (set skus) y"
          by (intro checked_vouched [OF moved(1,2,3) subset_refl]) (simp_all add: set_version_def)
        with est show ?thesis by (simp add: establishes_def)
      next
        case False
        with x s show ?thesis by (auto simp: sound_def)
      qed
    qed
    with r moved(4) show ?thesis by (simp add: sound_def)
  qed
qed

lemma update_sound:
  assumes s: "sound valid abst P s" and est: "establishes env skus P"
  shows "sound valid abst P (snd (update_driver env st skus key s))"
proof -
  obtain x where x: "ds_getByKey st key s = (Inr x, s)" using law_getByKey [OF sound_valid [OF s]] by blast
  show ?thesis
  proof (cases "\<exists>d e. x = Some d \<and> catalog_find (me_catalog env) key None = Some e \<and> mf_version (bd_manifest (sd_bundle e)) \<noteq> in_version d")
    case True
    with x setVersion_sound [OF s est] show ?thesis by (auto simp: update_driver_def requireInstalled_def eff_bind_def Let_def)
  next
    case False
    with x s show ?thesis
      by (cases x; cases "catalog_find (me_catalog env) key None") (auto simp: update_driver_def requireInstalled_def eff_bind_def Let_def)
  qed
qed

lemma rollback_sound:
  assumes s: "sound valid abst P s" and est: "establishes env skus P"
  shows "sound valid abst P (snd (rollback_driver env st skus key version s))"
proof -
  obtain x where x: "ds_getByKey st key s = (Inr x, s)" using law_getByKey [OF sound_valid [OF s]] by blast
  with s setVersion_sound [OF s est] show ?thesis by (cases x) (auto simp: rollback_driver_def requireInstalled_def eff_bind_def)
qed

lemma setConfig_sound:
  assumes s: "sound valid abst P s" and est: "establishes env skus P" and kept: "input_kept env storable (OConfigure i inp fallbacks)"
  shows "sound valid abst P (snd (setConfig env st i inp fallbacks s))"
proof (cases "abst s i")
  case None
  with require_id_sound [OF s, of i] s show ?thesis by (simp add: setConfig_def eff_bind_def)
next
  case (Some d)
  note d = stored_driver [OF s Some]
  obtain config errors where v: "validateDriverConfig (me_show env) (schemaFor (me_catalog env) (in_key d)) inp (in_config d) fallbacks = (config, errors)"
    by fastforce
  with kept d(2) have "storable (d\<lparr>in_config := config\<rparr>)" by (auto simp: input_kept_def)
  moreover have "P (in_id (d\<lparr>in_config := config\<rparr>)) (d\<lparr>in_config := config\<rparr>)" using kept_identity [OF est d(3)] d(1) by simp
  ultimately obtain s' where "ds_put st (d\<lparr>in_config := config\<rparr>) s = (Inr (), s')" "sound valid abst P s'"
    by (rule put_sound [OF s])
  with v require_id_sound [OF s, of i] Some s show ?thesis by (simp add: setConfig_def eff_bind_def)
qed

lemma setEnabled_sound:
  assumes s: "sound valid abst P s" and est: "establishes env skus P"
  shows "sound valid abst P (snd (setEnabled st i b s))"
proof (cases "abst s i")
  case None
  with require_id_sound [OF s, of i] s show ?thesis by (simp add: setEnabled_def eff_bind_def)
next
  case (Some d)
  note d = stored_driver [OF s Some]
  let ?d = "d\<lparr>in_enabled := b, in_status := (if b then DsActive else DsDisabled)\<rparr>"
  have "storable ?d" by (rule law_storable [OF d(2)]) simp_all
  moreover have "P (in_id ?d) ?d" using kept_identity [OF est d(3)] d(1) by simp
  ultimately obtain s' where "ds_put st ?d s = (Inr (), s')" "sound valid abst P s'" by (rule put_sound [OF s])
  with require_id_sound [OF s, of i] Some s show ?thesis by (simp add: setEnabled_def eff_bind_def Let_def)
qed

lemma uninstall_sound:
  assumes s: "sound valid abst P s"
  shows "sound valid abst P (snd (uninstall st i s))"
proof -
  obtain s' where s': "ds_remove st i s = (Inr (), s')" "valid s'" "abst s' = (abst s)(i := None)"
    using law_remove [OF sound_valid [OF s]] by blast
  with s have "sound valid abst P s'" by (auto simp: sound_def split: if_splits)
  with s' require_id_sound [OF s, of i] s show ?thesis by (cases "abst s i") (simp_all add: uninstall_def eff_bind_def)
qed

lemma snd_unit_of [simp]: "snd (unit_of m s) = snd (m s)"
  by (simp add: unit_of_def eff_bind_def split: prod.split sum.split)

lemma run_manager_op_sound:
  assumes "sound valid abst P s" "establishes env skus P" "defaults_kept env storable" "input_kept env storable op"
  shows "sound valid abst P (snd (run_manager_op env st skus op s))"
  using assms by (cases op) (simp_all add: install_sound update_sound rollback_sound setConfig_sound setEnabled_sound uninstall_sound)

lemma run_manager_sound:
  assumes "defaults_kept env storable"
  shows "sound valid abst P s \<Longrightarrow> list_all (\<lambda>(skus, op). establishes env skus P \<and> input_kept env storable op) ops \<Longrightarrow>
    sound valid abst P (run_manager env st ops s)"
proof (induction ops arbitrary: s)
  case (Cons x ops)
  then show ?case by (cases x) (simp add: run_manager_op_sound assms)
qed simp

end


section \<open>Every installed driver is vouched for\<close>

lemma defaults_kept_any [simp]: "defaults_kept env (\<lambda>d. True)" "input_kept env (\<lambda>d. True) op"
  by (auto simp: defaults_kept_def input_kept_def split: manager_op.split)

text \<open>One request at a time: what a row shows afterwards it showed before, or is vouched for with the SKUs held at this very request.\<close>

lemma request_vouches:
  assumes "rows_ok rows" "jget (snd (run_manager_op env memory_store skus op rows)) i = Some d"
  shows "rows_ok (snd (run_manager_op env memory_store skus op rows)) \<and>
    ((\<exists>d0. jget rows i = Some d0 \<and> same_identity d0 d) \<or> vouched env (set skus) d)"
proof -
  let ?P = "\<lambda>i d. (\<exists>d0. jget rows i = Some d0 \<and> same_identity d0 d) \<or> vouched env (set skus) d"
  have "sound rows_ok jget ?P rows" using assms(1) by (auto simp: sound_def same_identity_def)
  moreover have "establishes env skus ?P"
    unfolding establishes_def using vouched_identity same_identity_trans by blast
  ultimately have "sound rows_ok jget ?P (snd (run_manager_op env memory_store skus op rows))"
    by (rule mem.run_manager_op_sound) (simp_all add: defaults_kept_any)
  with assms(2) show ?thesis by (simp add: sound_def)
qed

lemma memory_get: "ds_get memory_store i m = (Inr (jget m i), m)"
  by (simp add: memory_store_def)

lemma run_manager_snoc:
  "run_manager env st (ops @ [(skus, op)]) s = snd (run_manager_op env st skus op (run_manager env st ops s))"
  by (induction ops arbitrary: s) auto

lemma run_manager_rows: "rows_ok (run_manager env memory_store ops [])"
proof -
  have "sound rows_ok jget (\<lambda>i d. True) []" by (simp add: sound_def rows_ok_def)
  moreover have "list_all (\<lambda>(skus, op). establishes env skus (\<lambda>i d. True) \<and> input_kept env (\<lambda>d. True) op) ops"
    by (auto simp: list_all_iff establishes_def)
  ultimately have "sound rows_ok jget (\<lambda>i d. True) (run_manager env memory_store ops [])"
    by (rule mem.run_manager_sound [OF defaults_kept_any(1)])
  then show ?thesis by (simp add: sound_def)
qed

text \<open>The row of an instance after some requests shows the driver and version of \<open>d\<close>.\<close>

definition row_shows :: "manager_env \<Rightarrow> (string list \<times> manager_op) list \<Rightarrow> string \<Rightarrow> installed_driver \<Rightarrow> bool" where
  "row_shows env ops i d \<longleftrightarrow> (\<exists>d1. jget (run_manager env memory_store ops []) i = Some d1 \<and> same_identity d1 d)"

lemma brought_by_request:
  "jget (run_manager env memory_store ops []) i = Some d \<Longrightarrow>
   \<exists>before skus op after. ops = before @ (skus, op) # after \<and> vouched env (set skus) d \<and> \<not> row_shows env before i d \<and>
     (\<forall>mid rest. after = mid @ rest \<longrightarrow> row_shows env (before @ (skus, op) # mid) i d)"
proof (induction ops arbitrary: d rule: rev_induct)
  case (snoc x ops)
  obtain skus op where x: "x = (skus, op)" by fastforce
  have self: "row_shows env (ops @ [x]) i d" using snoc.prems by (auto simp: row_shows_def same_identity_def)
  show ?case
  proof (cases "row_shows env ops i d")
    case True
    then obtain d0 where d0: "jget (run_manager env memory_store ops []) i = Some d0" "same_identity d0 d" by (auto simp: row_shows_def)
    have alike: "row_shows env l i d0 \<longleftrightarrow> row_shows env l i d" for l using d0(2) by (auto simp: row_shows_def same_identity_def)
    from snoc.IH [OF d0(1)] obtain before sk o2 after where b: "ops = before @ (sk, o2) # after" "vouched env (set sk) d0"
      "\<not> row_shows env before i d" "\<And>mid rest. after = mid @ rest \<Longrightarrow> row_shows env (before @ (sk, o2) # mid) i d"
      unfolding alike by blast
    have "row_shows env (before @ (sk, o2) # mid) i d" if "after @ [x] = mid @ rest" for mid rest
      using that self b(1,4) by (cases rest rule: rev_cases) auto
    moreover have "vouched env (set sk) d" using b(2) d0(2) by (rule vouched_identity [rotated])
    ultimately show ?thesis using b(1,3) by (intro exI [of _ before] exI [of _ sk] exI [of _ o2] exI [of _ "after @ [x]"]) auto
  next
    case False
    have "jget (snd (run_manager_op env memory_store skus op (run_manager env memory_store ops []))) i = Some d"
      using snoc.prems by (simp add: x run_manager_snoc)
    from request_vouches [OF run_manager_rows this] False have "vouched env (set skus) d" by (simp add: row_shows_def) blast
    moreover have "ops @ [x] = ops @ (skus, op) # []" by (simp add: x)
    moreover have "\<forall>mid rest. [] = mid @ rest \<longrightarrow> row_shows env (ops @ (skus, op) # mid) i d" using self by (simp add: x)
    ultimately show ?thesis using False by blast
  qed
qed simp

text \<open>
  C15: Whatever installers ask for, in whatever order, every driver that the hub has installed was vouched for by the very request that brought
  it: there is a request before which the instance showed another driver or version (or nothing) and since which it shows this one, and
  with the SKUs the home held at that request, the version's bundle is in the catalogue, signed by a trusted publisher, not withdrawn,
  and the license it needs is held.
\<close>

theorem every_driver_vouched:
  assumes "ds_get memory_store i (run_manager env memory_store ops []) = (Inr (Some d), s)"
  shows "\<exists>before skus op after. ops = before @ (skus, op) # after \<and> vouched env (set skus) d \<and> \<not> row_shows env before i d \<and>
     (\<forall>mid rest. after = mid @ rest \<longrightarrow> row_shows env (before @ (skus, op) # mid) i d)"
  by (rule brought_by_request) (use assms in \<open>auto simp: memory_get\<close>)

section \<open>No secret at rest\<close>

definition clean_catalog :: "manager_env \<Rightarrow> bool" where
  "clean_catalog env \<longleftrightarrow> list_all (\<lambda>e. list_all (\<lambda>f. \<not> isEncryptedSecret (cf_default f)) (mf_configSchema (bd_manifest (sd_bundle e)))) (me_catalog env)"

definition clean_numbers :: "manager_env \<Rightarrow> bool" where
  "clean_numbers env \<longleftrightarrow> (\<forall>q. \<not> isEncryptedSecret (Some (CvStr (me_show env q))))"

definition clean_input :: "manager_op \<Rightarrow> bool" where
  "clean_input op \<longleftrightarrow> (case op of OConfigure i inp fallbacks \<Rightarrow> list_all (\<lambda>(k, v). \<not> isEncryptedSecret (Some v)) inp | _ \<Rightarrow> True)"

definition clean_values :: "driver_config \<Rightarrow> bool" where
  "clean_values config \<longleftrightarrow> jwf config \<and> (\<forall>k. \<not> isEncryptedSecret (jget config k))"

lemma clean_values_jset: "clean_values config \<Longrightarrow> \<not> isEncryptedSecret (Some v) \<Longrightarrow> clean_values (jset k v config)"
  by (simp add: clean_values_def)

lemma clean_no_envelopes: "clean_values config \<Longrightarrow> no_envelopes schema config"
  by (simp add: clean_values_def no_envelopes_def list_all_iff)

lemma coerce_clean:
  assumes "coerce shw f x = Inr y" "\<not> isEncryptedSecret (Some x)" "\<And>q. \<not> isEncryptedSecret (Some (CvStr (shw q)))"
  shows "\<not> isEncryptedSecret (Some y)"
proof -
  have "\<not> isEncryptedSecret (Some (CvStr (js_string shw x)))"
    using assms(2,3) by (cases x) (simp_all add: js_string_def SECRET_PREFIX_def)
  with assms(1) show ?thesis by (auto simp: coerce_def Let_def split: if_splits option.splits)
qed

lemma validate_clean:
  assumes "\<And>q. \<not> isEncryptedSecret (Some (CvStr (shw q)))" "list_all (\<lambda>(k, v). \<not> isEncryptedSecret (Some v)) inp"
  shows "list_all (\<lambda>f. \<not> isEncryptedSecret (cf_default f) \<and> (cf_secret f \<longrightarrow> \<not> isEncryptedSecret (jget existing (cf_key f)))) fs \<Longrightarrow>
    clean_values out \<Longrightarrow> clean_values (fst (fold (validate_field shw schema inp existing fallbacks) fs (out, errors)))"
proof (induction fs arbitrary: out errors)
  case (Cons f fs)
  have inp: "\<not> isEncryptedSecret (jget inp k)" for k
    using assms(2) by (cases "jget inp k") (auto simp: list_all_iff dest!: map_of_SomeD)
  have "clean_values (fst (validate_field shw schema inp existing fallbacks f (out, errors)))"
  proof (cases "field_result shw schema inp existing fallbacks f")
    case (Inl e)
    with Cons.prems show ?thesis by (simp add: validate_field_result)
  next
    case (Inr r)
    then have "\<not> isEncryptedSecret r"
    proof (cases rule: field_cases)
      case (coerced x y)
      with inp [of "cf_key f"] Cons.prems have "\<not> isEncryptedSecret (Some x)" by (auto split: if_splits)
      from coerce_clean [OF coerced(2) this assms(1)] coerced(3) show ?thesis by simp
    qed (use Cons.prems in auto)
    with Inr Cons.prems show ?thesis by (cases r) (simp_all add: validate_field_result clean_values_jset)
  qed
  with Cons show ?case by (cases "validate_field shw schema inp existing fallbacks f (out, errors)") simp
qed simp

lemma default_clean:
  "list_all (\<lambda>f. \<not> isEncryptedSecret (cf_default f)) fs \<Longrightarrow> clean_values out \<Longrightarrow>
   clean_values (fold (\<lambda>f out. case cf_default f of None \<Rightarrow> out | Some v \<Rightarrow> jset (cf_key f) v out) fs out)"
  by (induction fs arbitrary: out) (auto simp: clean_values_jset split: option.split)

lemma clean_Nil [simp]: "clean_values []"
  by (simp add: clean_values_def)

lemma schemaFor_clean: "clean_catalog env \<Longrightarrow> list_all (\<lambda>f. \<not> isEncryptedSecret (cf_default f)) (schemaFor (me_catalog env) key)"
  using catalog_find_Some(1) [of "me_catalog env" key None]
  by (auto simp: schemaFor_def clean_catalog_def list_all_iff split: option.split)

lemma defaults_kept_clean:
  assumes "clean_catalog env"
  shows "defaults_kept env (enc_storable sf)"
proof -
  have "clean_values (defaultDriverConfig (mf_configSchema (bd_manifest (sd_bundle e))))" if "e \<in> set (me_catalog env)" for e
    using assms that default_clean [OF _ clean_Nil, of "mf_configSchema (bd_manifest (sd_bundle e))"] by (simp add: clean_catalog_def list_all_iff defaultDriverConfig_def)
  then show ?thesis by (auto simp: defaults_kept_def enc_storable_def intro!: clean_no_envelopes)
qed

lemma input_kept_clean:
  assumes "clean_catalog env" "clean_numbers env" "clean_input op"
  shows "input_kept env (enc_storable (schemaFor (me_catalog env))) op"
proof (cases op)
  case (OConfigure i inp fallbacks)
  have "enc_storable (schemaFor (me_catalog env)) (d\<lparr>in_config := config\<rparr>)"
    if d: "enc_storable (schemaFor (me_catalog env)) d"
      and v: "validateDriverConfig (me_show env) (schemaFor (me_catalog env) (in_key d)) inp (in_config d) fallbacks = (config, errors)"
    for d config errors
  proof -
    let ?fs = "schemaFor (me_catalog env) (in_key d)"
    have "list_all (\<lambda>f. \<not> isEncryptedSecret (cf_default f) \<and> (cf_secret f \<longrightarrow> \<not> isEncryptedSecret (jget (in_config d) (cf_key f)))) ?fs"
      using d schemaFor_clean [OF assms(1), of "in_key d"] by (auto simp: enc_storable_def no_envelopes_def list_all_iff)
    from validate_clean [OF _ _ this clean_Nil, of "me_show env" inp ?fs fallbacks "[]"] assms OConfigure v
    have "clean_values config" by (simp add: clean_numbers_def clean_input_def validateDriverConfig_def)
    then show ?thesis by (simp add: enc_storable_def clean_no_envelopes)
  qed
  with OConfigure show ?thesis by (auto simp: input_kept_def)
qed (simp_all add: input_kept_def)

text \<open>
  C16: No secret text of a driver is at rest in plaintext: over the encrypting store, after any operations, no stored row has a
  secret field whose value is a non-empty text other than an envelope, every stored row can be read back, and what is read is a version
  vouched for at one of the requests. What it asks: no submitted value, no default in the catalogue and no printed number looks like
  an envelope, and decryption inverts encryption (both findings are at secret-store.ts:32). Only text is encrypted: a secret
  that the schema types as a number, a port or a boolean is stored as it is; fields of the other types are stored as text.
\<close>

theorem secrets_never_at_rest:
  assumes "aead_ok senv" "clean_catalog env" "clean_numbers env" "list_all (\<lambda>(skus, op). clean_input op) ops"
    and "run_manager env (withSecretEncryption memory_store senv (schemaFor (me_catalog env))) ops ([], 0) = (rows, n)"
    and "jget rows i = Some d"
  shows "\<not> hasPlaintextSecret (schemaFor (me_catalog env) (in_key d)) (in_config d) \<and>
    (\<exists>d'. decrypt_driver senv (schemaFor (me_catalog env)) d = Inr d' \<and> (\<exists>(skus, op) \<in> set ops. vouched env (set skus) d'))"
proof -
  let ?sf = "schemaFor (me_catalog env)"
  let ?valid = "enc_inv True jget rows_ok senv ?sf" and ?abst = "enc_abst jget senv ?sf"
  have laws: "driver_store_laws (withSecretEncryption memory_store senv ?sf) ?abst ?valid (enc_storable ?sf)"
    by (rule encryption_laws [OF mem.driver_store_laws_axioms assms(1)])
  define P where "P = (\<lambda>(i :: string) x. \<exists>(skus, op) \<in> set ops. vouched env (set skus) x)"
  have "sound ?valid ?abst P ([], 0)" by (simp add: sound_def enc_inv_def enc_abst_def rows_ok_def)
  moreover have est: "establishes env skus P" if "(skus, op) \<in> set ops" for skus op
    using that vouched_identity [of _ _ env] unfolding establishes_def P_def by blast
  have inp: "input_kept env (enc_storable ?sf) op" if "(skus, op) \<in> set ops" for skus op
    by (rule input_kept_clean [OF assms(2,3)]) (use assms(4) that in \<open>auto simp: list_all_iff\<close>)
  have "list_all (\<lambda>(skus, op). establishes env skus P \<and> input_kept env (enc_storable ?sf) op) ops"
    unfolding list_all_iff by (intro ballI case_prodI2 conjI) (simp_all add: est inp)
  ultimately have "sound ?valid ?abst P (rows, n)"
    using driver_store_laws.run_manager_sound [OF laws defaults_kept_clean [OF assms(2)]] assms(5) by metis
  then have snd: "?valid (rows, n)" "\<And>i d. ?abst (rows, n) i = Some d \<Longrightarrow> \<exists>(skus, op) \<in> set ops. vouched env (set skus) d" by (simp_all add: sound_def P_def)
  from snd(1) assms(6) have r: "readable senv (?sf (in_key d)) (in_config d)" "\<not> hasPlaintextSecret (?sf (in_key d)) (in_config d)"
    by (simp_all add: enc_inv_def)
  from assms(6) have "?abst (rows, n) i = Some (shown senv ?sf d)" by (simp add: enc_abst_def)
  from snd(2) [OF this] shown_readable(1) [of senv ?sf d, OF r(1)] r(2) show ?thesis by blast
qed


section \<open>Versions\<close>

text \<open>
  An update moves a driver as a whole: when it succeeds it either found the first instance at the latest published version and wrote
  nothing, or every instance of the driver is at that version, taken from one verified bundle, with its configuration, its label and its
  switch kept, and no other driver is touched.
\<close>

theorem update_moves_every_instance:
  assumes "rows_ok rows" "update_driver env memory_store skus key rows = (Inr d, rows')"
  shows "\<exists>latest. catalog_find (me_catalog env) key None = Some latest \<and>
    ((rows' = rows \<and> js_nth (memory_listByKey key rows) 0 = Some d \<and> in_version d = mf_version (bd_manifest (sd_bundle latest))) \<or>
     (\<exists>e. mf_version (bd_manifest (sd_bundle e)) = mf_version (bd_manifest (sd_bundle latest)) \<and> verify_bundle env e = Inr () \<and>
        (\<forall>i. jget rows' i = map_option (\<lambda>y. if in_key y = key then set_version (bd_manifest (sd_bundle e)) y else y) (jget rows i))))"
proof -
  from assms(2) obtain first where first: "js_nth (memory_listByKey key rows) 0 = Some first"
    by (auto simp: update_driver_def requireInstalled_def memory_store_def eff_bind_def split: option.splits)
  then have req: "requireInstalled memory_store key rows = (Inr first, rows)"
    by (simp add: requireInstalled_def memory_store_def eff_bind_def)
  from assms(2) req obtain latest where latest: "catalog_find (me_catalog env) key None = Some latest"
    by (auto simp: update_driver_def eff_bind_def split: option.splits)
  let ?v = "mf_version (bd_manifest (sd_bundle latest))"
  show ?thesis
  proof (cases "?v = in_version first")
    case True
    with assms(2) req latest first show ?thesis by (simp add: update_driver_def eff_bind_def Let_def)
  next
    case False
    with assms(2) req latest have "setVersionForEveryInstance env memory_store skus key ?v rows = (Inr d, rows')"
      by (simp add: update_driver_def eff_bind_def Let_def)
    with assms(1) show ?thesis
    proof (cases rule: mem.setVersion_cases)
      case (moved e)
      have "mf_version (bd_manifest (sd_bundle e)) = ?v"
      proof (cases "?v = ''''")
        case True
        with moved(1) latest show ?thesis by (simp add: catalog_find_def truthy_def)
      next
        case False
        with catalog_find_Some(3) [OF moved(1), of ?v] show ?thesis by (simp add: truthy_def)
      qed
      with latest moved show ?thesis by blast
    qed simp
  qed
qed

text \<open>A bundle of the seeded catalogue verifies with the publisher's key.\<close>

lemma seeded_bundle_verifies:
  assumes "e \<in> set (seedFirstPartyCatalog (me_bundle env) manifests priv kid)" "jget (me_trusted env) kid = Some pub" "pub \<noteq> ''''"
    and "signer_ok (be_sg (me_bundle env)) priv pub"
  shows "verify_bundle env e = Inr ()"
  using assms by (auto simp: seedFirstPartyCatalog_def verify_bundle_def signBundle_def verifyBundle_def verifyPayload_def signPayload_def
      signer_ok_def createBundle_def truthy_def)

section \<open>Boundary cases\<close>

text \<open>
  C18: When the last published version of a driver is withdrawn, its form has no fields any more: saving any configuration of an installed
  instance succeeds, whatever was submitted, and stores the empty configuration, credentials and all.
\<close>

theorem withdrawn_driver_loses_config:
  assumes "jget rows i = Some d"
    and "\<forall>e \<in> set (me_catalog env). mf_key (bd_manifest (sd_bundle e)) = in_key d \<longrightarrow> bd_status (sd_bundle e) \<noteq> VsPublished"
  shows "setConfig env memory_store i inp fallbacks rows = (Inr (d\<lparr>in_config := []\<rparr>), jset (in_id d) (d\<lparr>in_config := []\<rparr>) rows)"
proof -
  have "schemaFor (me_catalog env) (in_key d) = []"
    using assms(2) catalog_find_Some [of "me_catalog env" "in_key d" None]
    by (auto simp: schemaFor_def truthy_def split: option.split)
  with assms(1) show ?thesis
    by (simp add: setConfig_def require_id_def memory_store_def eff_bind_def validateDriverConfig_def)
qed

section \<open>A small store\<close>

definition small_bundle_env :: bundle_env where
  "small_bundle_env = \<lparr>be_sg = demo_signer, be_json = (\<lambda>b. JsString (mf_version (bd_manifest b))), be_sha256 = (\<lambda>s. s)\<rparr>"

definition casambi_manifest :: "string \<Rightarrow> driver_manifest" where
  "casambi_manifest v = \<lparr>mf_key = ''supreme-casambi'', mf_name = ''Casambi'', mf_description = '''', mf_category = DcLighting, mf_channel = ChOfficial,
     mf_publisher = ''Supreme Domotics'', mf_version = v, mf_capabilities = [''dim''], mf_protocols = [''casambi''], mf_hubMinVersion = ''1.0.0'',
     mf_requiresSku = Some ''pro'', mf_backendRef = None, mf_shipsDisabled = False, mf_configSchema = two_modes, mf_dependencies = [],
     mf_operations = [], mf_documentationUrl = None, mf_releaseNotes = '''', mf_changelog = []\<rparr>"

definition small_env :: "string list \<Rightarrow> manager_env" where
  "small_env versions = \<lparr>me_homeId = ''home_1'', me_catalog = seedFirstPartyCatalog small_bundle_env (map casambi_manifest versions) ''K'' ''dev'',
     me_trusted = [(''dev'', ''K'')], me_bundle = small_bundle_env, me_show = (\<lambda>q. ''0'')\<rparr>"

lemma small_verify: "e \<in> set (me_catalog (small_env vs)) \<Longrightarrow> verify_bundle (small_env vs) e = Inr ()"
  by (rule seeded_bundle_verifies [of _ _ "map casambi_manifest vs" "''K''" "''dev''" "''K''"])
    (auto simp: small_env_def small_bundle_env_def demo_signer_ok)

lemma small_home: "me_homeId (small_env vs) = ''home_1''"
  by (simp add: small_env_def)

lemma small_find:
  "catalog_find (me_catalog (small_env [v])) key None =
     (if key = ''supreme-casambi'' then Some (signBundle small_bundle_env (createBundle (\<lambda>s. s) (casambi_manifest v)
        (''first-party:'' @ ''supreme-casambi'' @ ''@'' @ v) (''supreme-store://'' @ ''supreme-casambi'' @ ''/'' @ v) None) ''K'' ''dev'') else None)"
  by (simp add: catalog_find_def small_env_def seedFirstPartyCatalog_def signBundle_def createBundle_def casambi_manifest_def truthy_def
      latest_first_def sort_by_def js_nth_def small_bundle_env_def)


definition fresh_casambi :: "string \<Rightarrow> installed_driver" where
  "fresh_casambi v = new_instance (small_env [v]) ''supreme-casambi'' (casambi_manifest v) None None ''drv_1'' 0"

lemma small_entry: "signBundle small_bundle_env (createBundle (\<lambda>s. s) (casambi_manifest v)
    (''first-party:'' @ ''supreme-casambi'' @ ''@'' @ v) (''supreme-store://'' @ ''supreme-casambi'' @ ''/'' @ v) None) ''K'' ''dev''
    \<in> set (me_catalog (small_env [v]))"
  by (simp add: small_env_def seedFirstPartyCatalog_def casambi_manifest_def small_bundle_env_def)

lemma small_install:
  assumes "ds_getByKey st ''supreme-casambi'' s = (Inr None, s)" "ds_put st (fresh_casambi v) s = (Inr (), s')"
  shows "install (small_env [v]) st [''pro''] ''supreme-casambi'' None False None ''drv_1'' 0 s = (Inr (fresh_casambi v), s')"
  using assms small_verify [OF small_entry, of v]
  by (simp add: install_def small_find eff_bind_def Let_def signBundle_def createBundle_def check_license_def truthy_def fresh_casambi_def
      casambi_manifest_def)

lemma fresh_fields: "in_id (fresh_casambi v) = ''drv_1''" "in_key (fresh_casambi v) = ''supreme-casambi''"
  "in_config (fresh_casambi v) = [(''connectionType'', CvStr ''cloud'')]" "in_enabled (fresh_casambi v)" "in_status (fresh_casambi v) = DsActive"
  "in_version (fresh_casambi v) = v" "in_label (fresh_casambi v) = None" "in_installedAt (fresh_casambi v) = 0"
  by (simp_all add: fresh_casambi_def new_instance_def casambi_manifest_def defaultDriverConfig_def two_modes_simps truthy_def)

lemma small_run:
  "run_manager (small_env [v]) memory_store [([''pro''], OInstall ''supreme-casambi'' None False None ''drv_1'' 0)] [] =
     [(''drv_1'', fresh_casambi v)]"
  using small_install [of memory_store "[]" v "[(''drv_1'', fresh_casambi v)]"]
  by (simp add: memory_store_def memory_listByKey_def js_nth_def unit_of_def eff_bind_def fresh_fields)

theorem every_driver_vouched_witness:
  "vouched (small_env [''1.0.0'']) {''pro''} (fresh_casambi ''1.0.0'')"
proof -
  let ?op = "([''pro''], OInstall ''supreme-casambi'' None False None ''drv_1'' 0)"
  have "ds_get memory_store ''drv_1'' (run_manager (small_env [''1.0.0'']) memory_store [?op] []) =
      (Inr (Some (fresh_casambi ''1.0.0'')), [(''drv_1'', fresh_casambi ''1.0.0'')])"
    unfolding small_run by (simp add: memory_store_def)
  from every_driver_vouched [OF this] obtain before skus op after where
    "[?op] = before @ (skus, op) # after" "vouched (small_env [''1.0.0'']) (set skus) (fresh_casambi ''1.0.0'')"
    by blast
  then show ?thesis by (cases before) auto
qed

theorem withdrawn_driver_loses_config_witness:
  "setConfig (small_env []) memory_store ''drv_1'' cloud_form [] [(''drv_1'', casambi ''k-1'')] =
     (Inr ((casambi ''k-1'')\<lparr>in_config := []\<rparr>), jset (in_id (casambi ''k-1'')) ((casambi ''k-1'')\<lparr>in_config := []\<rparr>) [(''drv_1'', casambi ''k-1'')])"
  by (rule withdrawn_driver_loses_config) (simp_all add: small_env_def seedFirstPartyCatalog_def)

lemma cmp_version_10_20: "newer ''2.0.0'' ''1.0.0''" "\<not> newer ''1.0.0'' ''2.0.0''"
  by code_simp+

lemma small_update:
  "update_driver (small_env [''2.0.0'']) memory_store [''pro''] ''supreme-casambi'' [(''drv_1'', fresh_casambi ''1.0.0'')] =
     (Inr (set_version (casambi_manifest ''2.0.0'') (fresh_casambi ''1.0.0'')),
      [(''drv_1'', set_version (casambi_manifest ''2.0.0'') (fresh_casambi ''1.0.0''))])"
proof -
  have f: "catalog_find (me_catalog (small_env [''2.0.0''])) ''supreme-casambi'' (Some ''2.0.0'') =
      catalog_find (me_catalog (small_env [''2.0.0''])) ''supreme-casambi'' None"
    by (simp add: catalog_find_def small_env_def seedFirstPartyCatalog_def signBundle_def createBundle_def casambi_manifest_def truthy_def
        latest_first_def sort_by_def js_nth_def)
  show ?thesis
    using small_verify [OF small_entry, of "''2.0.0''"]
    by (simp add: update_driver_def requireInstalled_def memory_store_def memory_listByKey_def js_nth_def eff_bind_def fresh_fields
        small_find signBundle_def createBundle_def Let_def
        setVersionForEveryInstance_def f check_license_def truthy_def listByKeyOf_def casambi_manifest_def)
qed

theorem update_moves_every_instance_witness:
  "\<exists>latest. catalog_find (me_catalog (small_env [''2.0.0''])) ''supreme-casambi'' None = Some latest \<and>
    (([(''drv_1'', set_version (casambi_manifest ''2.0.0'') (fresh_casambi ''1.0.0''))] = [(''drv_1'', fresh_casambi ''1.0.0'')] \<and>
      js_nth (memory_listByKey ''supreme-casambi'' [(''drv_1'', fresh_casambi ''1.0.0'')]) 0 =
        Some (set_version (casambi_manifest ''2.0.0'') (fresh_casambi ''1.0.0'')) \<and>
      in_version (set_version (casambi_manifest ''2.0.0'') (fresh_casambi ''1.0.0'')) = mf_version (bd_manifest (sd_bundle latest))) \<or>
     (\<exists>e. mf_version (bd_manifest (sd_bundle e)) = mf_version (bd_manifest (sd_bundle latest)) \<and>
        verify_bundle (small_env [''2.0.0'']) e = Inr () \<and>
        (\<forall>i. jget [(''drv_1'', set_version (casambi_manifest ''2.0.0'') (fresh_casambi ''1.0.0''))] i =
          map_option (\<lambda>y. if in_key y = ''supreme-casambi'' then set_version (bd_manifest (sd_bundle e)) y else y)
            (jget [(''drv_1'', fresh_casambi ''1.0.0'')] i))))"
  by (rule update_moves_every_instance [OF _ small_update]) (simp add: rows_ok_def jwf_def fresh_fields)


text \<open>The same driver over the encrypting store, configured with its key.\<close>

definition encrypting :: "(driver_rows \<times> nat) driver_store" where
  "encrypting = withSecretEncryption memory_store clear_env (schemaFor (me_catalog (small_env [''1.0.0''])))"

definition configured :: installed_driver where
  "configured = (fresh_casambi ''1.0.0'')\<lparr>in_config := [(''connectionType'', CvStr ''cloud''), (''apiKey'', CvStr (encryptSecret clear_env 0 ''k-1''))]\<rparr>"

lemma small_schema: "schemaFor (me_catalog (small_env [v])) ''supreme-casambi'' = two_modes"
  by (simp add: schemaFor_def small_find signBundle_def createBundle_def casambi_manifest_def)

lemma fresh_encrypted:
  "ds_put encrypting (fresh_casambi ''1.0.0'') ([], 0) = (Inr (), ([(''drv_1'', fresh_casambi ''1.0.0'')], 0))"
  "ds_getByKey encrypting ''supreme-casambi'' ([], 0) = (Inr None, ([], 0))"
  "ds_get encrypting ''drv_1'' ([(''drv_1'', fresh_casambi ''1.0.0'')], 0) = (Inr (Some (fresh_casambi ''1.0.0'')), ([(''drv_1'', fresh_casambi ''1.0.0'')], 0))"
proof -
  have same: "(fresh_casambi ''1.0.0'')\<lparr>in_config := [(''connectionType'', CvStr ''cloud'')]\<rparr> = fresh_casambi ''1.0.0''"
    using fresh_fields(3) [of "''1.0.0''"] by (cases "fresh_casambi ''1.0.0''") simp
  show "ds_put encrypting (fresh_casambi ''1.0.0'') ([], 0) = (Inr (), ([(''drv_1'', fresh_casambi ''1.0.0'')], 0))"
    by (simp add: encrypting_def withSecretEncryption_def put_encrypted_def encryptFields_def fresh_fields small_schema two_modes_def
        mode_field_def key_field_def ip_field_def encrypt_field_def plaintext_def on_inner_def memory_store_def same)
  show "ds_getByKey encrypting ''supreme-casambi'' ([], 0) = (Inr None, ([], 0))"
    by (simp add: encrypting_def withSecretEncryption_def on_inner_def memory_store_def memory_listByKey_def js_nth_def eff_bind_def decrypt_option_def)
  show "ds_get encrypting ''drv_1'' ([(''drv_1'', fresh_casambi ''1.0.0'')], 0) = (Inr (Some (fresh_casambi ''1.0.0'')), ([(''drv_1'', fresh_casambi ''1.0.0'')], 0))"
    by (simp add: encrypting_def withSecretEncryption_def on_inner_def memory_store_def eff_bind_def decrypt_option_def decrypt_driver_def
        decryptFields_def fresh_fields small_schema two_modes_def mode_field_def key_field_def ip_field_def decrypt_field_def same)
qed

lemma configured_put:
  "ds_put encrypting ((fresh_casambi ''1.0.0'')\<lparr>in_config := cloud_form\<rparr>) ([(''drv_1'', fresh_casambi ''1.0.0'')], 0) =
     (Inr (), ([(''drv_1'', configured)], 1))"
  by (simp add: encrypting_def withSecretEncryption_def put_encrypted_def encryptFields_def fresh_fields small_schema two_modes_def
      mode_field_def key_field_def ip_field_def encrypt_field_def plaintext_def on_inner_def memory_store_def cloud_form_def
      string_of_value_def SECRET_PREFIX_def configured_def)

lemma small_encrypted_run:
  "run_manager (small_env [''1.0.0'']) encrypting
     [([''pro''], OInstall ''supreme-casambi'' None False None ''drv_1'' 0), ([''pro''], OConfigure ''drv_1'' cloud_form [])] ([], 0) =
     ([(''drv_1'', configured)], 1)"
proof -
  have v: "validateDriverConfig (me_show (small_env [''1.0.0''])) two_modes cloud_form [(''connectionType'', CvStr ''cloud'')] [] = (cloud_form, [])"
    by (simp add: two_modes_simps)
  have "setConfig (small_env [''1.0.0'']) encrypting ''drv_1'' cloud_form [] ([(''drv_1'', fresh_casambi ''1.0.0'')], 0) =
      (Inr ((fresh_casambi ''1.0.0'')\<lparr>in_config := cloud_form\<rparr>), ([(''drv_1'', configured)], 1))"
    by (simp add: setConfig_def require_id_def eff_bind_def fresh_encrypted(3) fresh_fields small_schema v configured_put)
  then show ?thesis
    by (simp add: small_install [OF fresh_encrypted(2,1)] unit_of_def eff_bind_def)
qed

theorem secrets_never_at_rest_witness:
  "\<not> hasPlaintextSecret (schemaFor (me_catalog (small_env [''1.0.0''])) (in_key configured)) (in_config configured) \<and>
   (\<exists>d'. decrypt_driver clear_env (schemaFor (me_catalog (small_env [''1.0.0'']))) configured = Inr d' \<and>
     (\<exists>(skus, op) \<in> set [([''pro''], OInstall ''supreme-casambi'' None False None ''drv_1'' 0), ([''pro''], OConfigure ''drv_1'' cloud_form [])].
        vouched (small_env [''1.0.0'']) (set skus) d'))"
  by (rule secrets_never_at_rest [OF clear_env_ok _ _ _ small_encrypted_run [unfolded encrypting_def]])
    (simp_all add: clean_catalog_def clean_numbers_def clean_input_def cloud_form_def SECRET_PREFIX_def small_env_def seedFirstPartyCatalog_def
      signBundle_def createBundle_def casambi_manifest_def two_modes_def mode_field_def key_field_def ip_field_def)

section \<open>Findings\<close>

text \<open>
  A secret that the schema types as a number, say a PIN, is not encrypted: what is stored is the number itself, and no envelope.
\<close>

theorem secret_number_at_rest:
  assumes "jget config (cf_key f) = Some (CvNum q)"
  shows "jget (fst (encryptFields env fs config n)) (cf_key f) = Some (CvNum q)"
proof -
  have "jget (fst (fold (encrypt_field env) gs (config', n'))) (cf_key f) = Some (CvNum q)"
    if "jget config' (cf_key f) = Some (CvNum q)" for gs config' n'
    using that
  proof (induction gs arbitrary: config' n')
    case (Cons g gs)
    obtain c m where c: "encrypt_field env g (config', n') = (c, m)" by fastforce
    with Cons.prems have "jget c (cf_key f) = Some (CvNum q)"
      by (auto simp: encrypt_field_def plaintext_def Let_def split: if_splits)
    with Cons.IH c show ?case by simp
  qed simp
  with assms show ?thesis by (simp add: encryptFields_def)
qed

text \<open>
  Installing again a driver that was switched off reports it as active, though it stays off: the status looks at the switch only when
  the driver ships disabled.
\<close>

theorem reinstalled_driver_off_but_active:
  "fst (install (small_env [''1.0.0'']) memory_store [''pro''] ''supreme-casambi'' None False None ''drv_2'' 7
      [(''drv_1'', (fresh_casambi ''1.0.0'')\<lparr>in_enabled := False, in_status := DsDisabled\<rparr>)]) =
    Inr ((fresh_casambi ''1.0.0'')\<lparr>in_enabled := False, in_status := DsActive\<rparr>)"
  using small_verify [OF small_entry, of "''1.0.0''"]
  by (simp add: install_def small_find eff_bind_def Let_def signBundle_def createBundle_def check_license_def truthy_def fresh_casambi_def
      casambi_manifest_def memory_store_def memory_listByKey_def js_nth_def new_instance_def small_home)

text \<open>
  An update looks at the first instance only: when that one is at the latest version, an older sibling stays where it is.
\<close>

theorem update_leaves_sibling_behind:
  "update_driver (small_env [''2.0.0'']) memory_store [''pro''] ''supreme-casambi''
      [(''drv_1'', fresh_casambi ''2.0.0''), (''drv_2'', (fresh_casambi ''1.0.0'')\<lparr>in_id := ''drv_2'', in_installedAt := 1\<rparr>)] =
    (Inr (fresh_casambi ''2.0.0''),
      [(''drv_1'', fresh_casambi ''2.0.0''), (''drv_2'', (fresh_casambi ''1.0.0'')\<lparr>in_id := ''drv_2'', in_installedAt := 1\<rparr>)])"
  by (simp add: update_driver_def requireInstalled_def memory_store_def memory_listByKey_def js_nth_def eff_bind_def fresh_fields
      small_find signBundle_def createBundle_def casambi_manifest_def Let_def)

lemma show_two: "show_nat (Suc (Suc 0)) = ''2''"
  by code_simp

text \<open>The fallback names of instances do not look at the names that were given: two networks can show the same one.\<close>

theorem display_labels_collide:
  "map re_displayLabel (registry_rows [(fresh_casambi ''1.0.0'')\<lparr>in_label := Some ''Network 2''\<rparr>,
      (fresh_casambi ''1.0.0'')\<lparr>in_id := ''drv_2'', in_installedAt := 1\<rparr>] (casambi_manifest ''1.0.0'')) =
    [Some ''Network 2'', Some ''Network 2'']"
  by (simp add: registry_rows_def registry_row_def fresh_fields casambi_manifest_def casambiInstanceNoun_def show_two)

end
