(* ===== verification/Hub_Identity.thy ===== *)
theory Hub_Identity
  imports Cloud_Licensing Totp
begin

unbundle bit_operations_syntax

text \<open>
  The identity of a hub and its enrolment, \<^verbatim>\<open>packages/hub-identity/src\<close> (\<^verbatim>\<open>uuid.ts\<close>, \<^verbatim>\<open>index.ts\<close>): UUIDs of version 7, signed
  enrolment requests, the credentials of the development CA, connection challenges and claim codes. Ed25519 is the \<^verbatim>\<open>signer\<close> of
  \<open>Cloud_Licensing\<close>; random bytes and the clock (whole milliseconds) are arguments.
\<close>

section \<open>UUIDs\<close>

text \<open>The sixteen bytes: the time in the first six, the version and the variant over the random ones.\<close>

definition uuid_bytes :: "int \<Rightarrow> byte list \<Rightarrow> byte list" where
  "uuid_bytes now rnd =
     map (\<lambda>k. word_of_int (now div 2 ^ k)) [40, 32, 24, 16, 8, 0] @
     [rnd ! 6 AND 0x0f OR 0x70, rnd ! 7, rnd ! 8 AND 0x3f OR 0x80] @ drop 9 rnd"

definition hex_byte :: "byte \<Rightarrow> string" where
  "hex_byte b = [Canonical_Json.hex_digit (unat b div 16), Canonical_Json.hex_digit (unat b mod 16)]"

definition uuidv7 :: "int \<Rightarrow> byte list \<Rightarrow> string" where
  "uuidv7 now rnd =
     (let hex = concat (map hex_byte (uuid_bytes now rnd))
      in take 8 hex @ ''-'' @ take 4 (drop 8 hex) @ ''-'' @ take 4 (drop 12 hex) @ ''-'' @ take 4 (drop 16 hex) @ ''-'' @ drop 20 hex)"

definition lower_hex :: "char \<Rightarrow> bool" where
  "lower_hex c \<longleftrightarrow> c \<in> set ''0123456789abcdef''"

text \<open>The regular expression, a class for each character.\<close>

definition UUID_RE :: "(char \<Rightarrow> bool) list" where
  "UUID_RE =
     replicate 8 lower_hex @ [\<lambda>c. c = CHR ''-''] @ replicate 4 lower_hex @ [\<lambda>c. c = CHR ''-'', \<lambda>c. c = CHR ''7''] @ replicate 3 lower_hex @
     [\<lambda>c. c = CHR ''-'', \<lambda>c. c \<in> set ''89ab''] @ replicate 3 lower_hex @ [\<lambda>c. c = CHR ''-''] @ replicate 12 lower_hex"

definition isUuidv7 :: "string \<Rightarrow> bool" where
  "isUuidv7 s \<longleftrightarrow> list_all2 (\<lambda>p c. p c) UUID_RE s"

lemma hex_lower [simp]: "n < 16 \<Longrightarrow> lower_hex (Canonical_Json.hex_digit n)"
  by (simp add: lower_hex_def Canonical_Json.hex_digit_def del: set_simps)

lemma byte_range: "unat (b :: byte) < 256"
  using unsigned_less [of b] by simp

lemma nibbles [simp]: "unat (b :: byte) div 16 < 16" "unat b mod 16 < 16"
  using byte_range [of b] by (simp_all add: less_mult_imp_div_less)

lemma high_nibble: "unat (b :: byte) div 16 = unat (drop_bit 4 b)"
  by (simp add: drop_bit_eq_div unat_div)

lemma version_nibble [simp]: "Canonical_Json.hex_digit (unat ((b :: byte) AND 0x0f OR 0x70) div 16) = CHR ''7''"
proof -
  have "drop_bit 4 (b AND 0x0f OR 0x70) = (7 :: byte)" by (simp add: drop_bit_or drop_bit_and)
  then show ?thesis by (simp only: high_nibble) (simp add: Canonical_Json.hex_digit_def)
qed

lemma variant_nibble [simp]: "Canonical_Json.hex_digit (unat ((b :: byte) AND 0x3f OR 0x80) div 16) \<in> set ''89ab''"
proof -
  have "drop_bit 4 (b AND 0x3f OR 0x80) = (take_bit 2 (drop_bit 4 b) OR 8 :: byte)"
    by (simp add: drop_bit_or drop_bit_and take_bit_eq_mask mask_eq_exp_minus_1)
  moreover have "take_bit 2 (drop_bit 4 b) \<in> {0, 1, 2, 3}"
  proof -
    have "unat (take_bit 2 (drop_bit 4 b)) < 4" by (simp add: take_bit_eq_mod unat_mod)
    then have "unat (take_bit 2 (drop_bit 4 b)) \<in> {0, 1, 2, 3}" by auto
    then show ?thesis by (auto simp: word_unat_eq_iff)
  qed
  ultimately show ?thesis by (simp only: high_nibble) (auto simp: Canonical_Json.hex_digit_def)
qed

lemma uuid_length: "length rnd = 16 \<Longrightarrow> \<exists>r9 r10 r11 r12 r13 r14 r15. drop 9 rnd = [r9, r10, r11, r12, r13, r14, r15]"
proof -
  assume "length rnd = 16"
  then have "length (drop 9 rnd) = Suc (Suc (Suc (Suc (Suc (Suc (Suc 0))))))" by simp
  then show ?thesis unfolding length_Suc_conv by auto
qed

lemma UUID_RE_list: "UUID_RE = [lower_hex, lower_hex, lower_hex, lower_hex, lower_hex, lower_hex, lower_hex, lower_hex, \<lambda>c. c = CHR ''-'',
  lower_hex, lower_hex, lower_hex, lower_hex, \<lambda>c. c = CHR ''-'', \<lambda>c. c = CHR ''7'', lower_hex, lower_hex, lower_hex, \<lambda>c. c = CHR ''-'',
  \<lambda>c. c \<in> set ''89ab'', lower_hex, lower_hex, lower_hex, \<lambda>c. c = CHR ''-'', lower_hex, lower_hex, lower_hex, lower_hex, lower_hex, lower_hex,
  lower_hex, lower_hex, lower_hex, lower_hex, lower_hex, lower_hex]"
  by (simp add: UUID_RE_def eval_nat_numeral)

text \<open>
  Every generated identity is one that the registry admits, at any time and from any random bytes: the version and the variant stand
  where the check looks for them.
\<close>

theorem generated_uuid_valid:
  assumes "length rnd = 16"
  shows "isUuidv7 (uuidv7 now rnd)"
proof -
  obtain r9 r10 r11 r12 r13 r14 r15 where d: "drop 9 rnd = [r9, r10, r11, r12, r13, r14, r15]"
    using uuid_length [OF assms] by blast
  show ?thesis
    unfolding isUuidv7_def uuidv7_def uuid_bytes_def d UUID_RE_list
    by (simp add: hex_byte_def Let_def del: set_simps)
qed

theorem generated_uuid_valid_witness: "isUuidv7 (uuidv7 1700000000000 (replicate 16 255))"
  by (rule generated_uuid_valid) simp


section \<open>Enrolment requests\<close>

datatype attestation_kind = AtFactory | AtInstaller | AtTpm | AtDev

record attestation =
  at_kind :: attestation_kind
  at_evidence :: string

record hub_identity =
  hi_hubUuid :: string
  hi_publicKey :: string
  hi_privateKey :: string

text \<open>The keys of a first boot are an argument; SHA-256 as lower-case hex is one as well.\<close>

definition generateHubIdentity :: "string \<times> string \<Rightarrow> int \<Rightarrow> byte list \<Rightarrow> hub_identity" where
  "generateHubIdentity keys now rnd = \<lparr>hi_hubUuid = uuidv7 now rnd, hi_publicKey = fst keys, hi_privateKey = snd keys\<rparr>"

definition toPublicIdentity :: "hub_identity \<Rightarrow> string \<times> string" where
  "toPublicIdentity i = (hi_hubUuid i, hi_publicKey i)"

definition publicKeyFingerprint :: "(string \<Rightarrow> string) \<Rightarrow> string \<Rightarrow> string" where
  "publicKeyFingerprint sha256Hex pub = take 32 (sha256Hex (canonicalJson (JsObject [(''pk'', JsString pub)])))"

definition ca_key_id :: "(string \<Rightarrow> string) \<Rightarrow> string option \<Rightarrow> string \<Rightarrow> string" where
  "ca_key_id sha256Hex keyId pub = or_else keyId (''ca-'' @ take 12 (sha256Hex pub))"

record enrollment_body =
  er_hubUuid :: string
  er_publicKey :: string
  er_model :: string
  er_fwVersion :: string
  er_attestation :: attestation
  er_nonce :: string
  er_issuedAt :: int

record enrollment_request = enrollment_body +
  er_selfSignature :: string

fun kind_text :: "attestation_kind \<Rightarrow> string" where
  "kind_text AtFactory = ''factory''"
| "kind_text AtInstaller = ''installer''"
| "kind_text AtTpm = ''tpm''"
| "kind_text AtDev = ''dev''"

definition body_json :: "'a enrollment_body_scheme \<Rightarrow> json" where
  "body_json r = JsObject
     [(''hubUuid'', JsString (er_hubUuid r)), (''publicKey'', JsString (er_publicKey r)),
      (''meta'', JsObject [(''model'', JsString (er_model r)), (''fwVersion'', JsString (er_fwVersion r))]),
      (''attestation'', JsObject [(''kind'', JsString (kind_text (at_kind (er_attestation r)))), (''evidence'', JsString (at_evidence (er_attestation r)))]),
      (''nonce'', JsString (er_nonce r)), (''issuedAt'', JsNumber (er_issuedAt r))]"

definition buildEnrollmentRequest ::
    "signer \<Rightarrow> hub_identity \<Rightarrow> string \<Rightarrow> string \<Rightarrow> attestation \<Rightarrow> string \<Rightarrow> int \<Rightarrow> enrollment_request" where
  "buildEnrollmentRequest sg i model fw att nonce now =
     (let body = \<lparr>er_hubUuid = hi_hubUuid i, er_publicKey = hi_publicKey i, er_model = model, er_fwVersion = fw,
                   er_attestation = att, er_nonce = nonce, er_issuedAt = now\<rparr>
      in enrollment_body.extend body \<lparr>er_selfSignature = signPayload sg (body_json body) (hi_privateKey i)\<rparr>)"

definition verifyEnrollmentSelfSignature :: "signer \<Rightarrow> enrollment_request \<Rightarrow> bool" where
  "verifyEnrollmentSelfSignature sg r = verifyPayload sg (body_json r) (er_selfSignature r) (er_publicKey r)"

type_synonym attestation_verifier = "attestation \<Rightarrow> enrollment_request \<Rightarrow> bool"

definition defaultAttestationVerifier :: attestation_verifier where
  "defaultAttestationVerifier a r \<longleftrightarrow> at_kind a \<in> {AtFactory, AtInstaller, AtDev} \<and> at_evidence a \<noteq> ''''"

text \<open>The answer is the reason of a refusal; a request is fresh for five minutes, in both directions.\<close>

definition validateEnrollmentRequest :: "signer \<Rightarrow> attestation_verifier option \<Rightarrow> int \<Rightarrow> enrollment_request \<Rightarrow> string option" where
  "validateEnrollmentRequest sg va now r =
     (if \<not> isUuidv7 (er_hubUuid r) then Some ''invalid hub uuid''
      else if \<bar>now - er_issuedAt r\<bar> > 5 * 60000 then Some ''stale or future-dated request''
      else if \<not> verifyEnrollmentSelfSignature sg r then Some ''bad self-signature''
      else if \<not> or_else va defaultAttestationVerifier (er_attestation r) r then Some ''attestation rejected''
      else None)"

section \<open>Credentials\<close>

record credential_body =
  dc_hubUuid :: string
  dc_devicePublicKey :: string
  dc_serial :: string
  dc_notBefore :: int
  dc_notAfter :: int
  dc_caKeyId :: string

record device_credential = credential_body +
  dc_caSignature :: string

record hub_ca =
  ca_keyId :: string
  ca_publicKey :: string
  ca_privateKey :: string

definition credential_json :: "'a credential_body_scheme \<Rightarrow> json" where
  "credential_json c = JsObject
     [(''hubUuid'', JsString (dc_hubUuid c)), (''devicePublicKey'', JsString (dc_devicePublicKey c)), (''serial'', JsString (dc_serial c)),
      (''notBefore'', JsNumber (dc_notBefore c)), (''notAfter'', JsNumber (dc_notAfter c)), (''caKeyId'', JsString (dc_caKeyId c))]"

definition ca_issue :: "signer \<Rightarrow> hub_ca \<Rightarrow> enrollment_request \<Rightarrow> string \<Rightarrow> int \<Rightarrow> device_credential" where
  "ca_issue sg ca r serial now =
     (let body = \<lparr>dc_hubUuid = er_hubUuid r, dc_devicePublicKey = er_publicKey r, dc_serial = serial, dc_notBefore = now,
                   dc_notAfter = now + 30 * 24 * 60 * 60000, dc_caKeyId = ca_keyId ca\<rparr>
      in credential_body.extend body \<lparr>dc_caSignature = signPayload sg (credential_json body) (ca_privateKey ca)\<rparr>)"

definition verifyDeviceCredential :: "signer \<Rightarrow> device_credential \<Rightarrow> string \<Rightarrow> int \<Rightarrow> string option" where
  "verifyDeviceCredential sg c pub now =
     (if \<not> verifyPayload sg (credential_json c) (dc_caSignature c) pub then Some ''bad CA signature''
      else if now < dc_notBefore c then Some ''not yet valid''
      else if dc_notAfter c \<le> now then Some ''expired''
      else None)"

definition challenge_json :: "string \<Rightarrow> json" where
  "challenge_json challenge = JsObject [(''challenge'', JsString challenge)]"

definition signChallenge :: "signer \<Rightarrow> string \<Rightarrow> string \<Rightarrow> string" where
  "signChallenge sg challenge priv = signPayload sg (challenge_json challenge) priv"

definition verifyHubPresentation :: "signer \<Rightarrow> device_credential \<Rightarrow> string \<Rightarrow> string \<Rightarrow> string \<Rightarrow> int \<Rightarrow> string option" where
  "verifyHubPresentation sg c pub challenge signature now =
     (case verifyDeviceCredential sg c pub now of
        Some reason \<Rightarrow> Some reason
      | None \<Rightarrow> (if \<not> verifyPayload sg (challenge_json challenge) signature (dc_devicePublicKey c) then Some ''challenge signature mismatch'' else None))"

section \<open>Claim codes\<close>

record claim_code =
  cc_hubUuid :: string
  cc_code :: string
  cc_expiresAt :: int

definition CLAIM_ALPHABET :: string where
  "CLAIM_ALPHABET = ''ABCDEFGHJKLMNPQRSTUVWXYZ23456789''"

definition generateClaimCode :: "string \<Rightarrow> byte list \<Rightarrow> int \<Rightarrow> claim_code" where
  "generateClaimCode uuid raw now =
     \<lparr>cc_hubUuid = uuid, cc_code = map (\<lambda>i. CLAIM_ALPHABET ! (unat (raw ! i) mod length CLAIM_ALPHABET)) [0..<8],
      cc_expiresAt = now + 10 * 60000\<rparr>"

definition verifyClaimCode :: "claim_code \<Rightarrow> string \<Rightarrow> int \<Rightarrow> bool" where
  "verifyClaimCode expected presented now \<longleftrightarrow>
     (if cc_expiresAt expected \<le> now then False
      else if length (cc_code expected) \<noteq> length presented then False
      else cc_code expected = presented)"

section \<open>What a connection proves\<close>

lemma json_wf_credential [simp]: "json_wf (credential_json c)"
  by (simp add: credential_json_def)

lemma credential_text_iff:
  "canonicalJson (credential_json c) = canonicalJson (credential_json c') \<longleftrightarrow> credential_body.truncate c = credential_body.truncate c'"
proof -
  have "canonicalJson (credential_json c) = canonicalJson (credential_json c') \<longleftrightarrow> same_value (credential_json c) (credential_json c')"
    by (simp add: canonical_eq_iff)
  also have "\<dots> \<longleftrightarrow> credential_body.truncate c = credential_body.truncate c'"
    by (auto simp: credential_json_def credential_body.truncate_def)
  finally show ?thesis .
qed

text \<open>
  Signatures that nobody forged: what verifies under the CA's key is the text of a credential that the CA issued; what verifies under
  a device's key is a text that the device signed.
\<close>

definition only_issued :: "signer \<Rightarrow> hub_ca \<Rightarrow> (enrollment_request \<times> string \<times> int) set \<Rightarrow> bool" where
  "only_issued sg ca issued \<longleftrightarrow> (\<forall>text signature. sg_verify sg (ca_publicKey ca) text signature \<longrightarrow>
     (\<exists>(r, serial, now) \<in> issued. text = canonicalJson (credential_json (ca_issue sg ca r serial now))))"

definition only_signed :: "signer \<Rightarrow> string \<Rightarrow> string set \<Rightarrow> bool" where
  "only_signed sg pub texts \<longleftrightarrow> (\<forall>text signature. sg_verify sg pub text signature \<longrightarrow> text \<in> texts)"

text \<open>
  C21: A hub that is let in is the hub it names: when a presentation is accepted, the CA issued the credential for that hub and that device
  key no more than thirty days ago, and the holder of the device key signed this very challenge.
\<close>

theorem presentation_proves_hub:
  assumes "verifyHubPresentation sg c (ca_publicKey ca) challenge signature now = None"
    and "only_issued sg ca issued" "only_signed sg (dc_devicePublicKey c) texts"
  shows "(\<exists>(r, serial, t) \<in> issued. er_hubUuid r = dc_hubUuid c \<and> er_publicKey r = dc_devicePublicKey c \<and> dc_serial c = serial \<and>
      t \<le> now \<and> now < t + 30 * 24 * 60 * 60000) \<and>
    canonicalJson (challenge_json challenge) \<in> texts"
proof -
  from assms(1) have v: "verifyPayload sg (credential_json c) (dc_caSignature c) (ca_publicKey ca)" "dc_notBefore c \<le> now" "now < dc_notAfter c"
    "verifyPayload sg (challenge_json challenge) signature (dc_devicePublicKey c)"
    by (auto simp: verifyHubPresentation_def verifyDeviceCredential_def split: if_splits option.splits)
  from v(1) assms(2) obtain r serial t where i: "(r, serial, t) \<in> issued"
    "canonicalJson (credential_json c) = canonicalJson (credential_json (ca_issue sg ca r serial t))"
    by (fastforce simp: only_issued_def verifyPayload_def)
  then have "credential_body.truncate c = credential_body.truncate (ca_issue sg ca r serial t)" by (simp add: credential_text_iff)
  then have "dc_hubUuid c = er_hubUuid r" "dc_devicePublicKey c = er_publicKey r" "dc_serial c = serial" "dc_notBefore c = t"
    "dc_notAfter c = t + 30 * 24 * 60 * 60000"
    by (simp_all add: credential_body.truncate_def ca_issue_def Let_def credential_body.defs)
  with i(1) v assms(3) show ?thesis by (fastforce simp: only_signed_def verifyPayload_def)
qed

text \<open>What a hub builds is accepted as long as it is fresh.\<close>

lemma built_request_accepted:
  assumes "signer_ok sg (hi_privateKey i) (hi_publicKey i)" "isUuidv7 (hi_hubUuid i)" "\<bar>t - now\<bar> \<le> 5 * 60000"
    and "at_kind att \<noteq> AtTpm" "at_evidence att \<noteq> ''''"
  shows "validateEnrollmentRequest sg None t (buildEnrollmentRequest sg i model fw att nonce now) = None"
proof -
  let ?r = "buildEnrollmentRequest sg i model fw att nonce now"
  have f: "er_hubUuid ?r = hi_hubUuid i" "er_publicKey ?r = hi_publicKey i" "er_issuedAt ?r = now" "er_attestation ?r = att"
    by (simp_all add: buildEnrollmentRequest_def Let_def enrollment_body.defs)
  have "verifyEnrollmentSelfSignature sg ?r"
    using assms(1) by (simp add: verifyEnrollmentSelfSignature_def verifyPayload_def signPayload_def signer_ok_def buildEnrollmentRequest_def
        Let_def enrollment_body.defs body_json_def)
  moreover have "defaultAttestationVerifier att ?r" using assms(4,5) by (cases "at_kind att") (simp_all add: defaultAttestationVerifier_def)
  ultimately show ?thesis using assms(2,3) f by (simp add: validateEnrollmentRequest_def or_else_def)
qed


section \<open>A small fleet\<close>

definition demo_hub :: hub_identity where
  "demo_hub = \<lparr>hi_hubUuid = uuidv7 0 (replicate 16 0), hi_publicKey = ''hub-key'', hi_privateKey = ''hub-secret''\<rparr>"

definition demo_ca :: hub_ca where
  "demo_ca = \<lparr>ca_keyId = ''ca-1'', ca_publicKey = ''CA'', ca_privateKey = ''ca-secret''\<rparr>"

definition demo_attestation :: attestation where
  "demo_attestation = \<lparr>at_kind = AtFactory, at_evidence = ''factory''\<rparr>"

definition demo_request :: "string \<Rightarrow> int \<Rightarrow> enrollment_request" where
  "demo_request nonce now = buildEnrollmentRequest demo_signer demo_hub ''hub-1'' ''1.0.0'' demo_attestation nonce now"

definition demo_credential :: device_credential where
  "demo_credential = ca_issue demo_signer demo_ca (demo_request ''n1'' 0) ''serial-1'' 0"

text \<open>A signer under whose keys nothing verifies but that credential and the challenge.\<close>

definition strict_signer :: signer where
  "strict_signer = demo_signer\<lparr>sg_verify := (\<lambda>pub d s. s = d \<and>
     (if pub = ''CA'' then d = canonicalJson (credential_json demo_credential) else d = canonicalJson (challenge_json ''nonce-7'')))\<rparr>"

lemma strict_issue: "ca_issue strict_signer demo_ca r serial t = ca_issue demo_signer demo_ca r serial t"
  by (simp add: ca_issue_def signPayload_def strict_signer_def)

lemma demo_credential_fields: "dc_caSignature demo_credential = canonicalJson (credential_json demo_credential)"
    "dc_notBefore demo_credential = 0" "dc_notAfter demo_credential = 2592000000" "dc_devicePublicKey demo_credential = ''hub-key''"
  by (simp_all add: demo_credential_def ca_issue_def Let_def credential_body.defs signPayload_def demo_signer_def credential_json_def
      demo_request_def buildEnrollmentRequest_def enrollment_body.defs demo_hub_def)

theorem presentation_proves_hub_witness:
  "(\<exists>(r, serial, t) \<in> {(demo_request ''n1'' 0, ''serial-1'', 0 :: int)}. er_hubUuid r = dc_hubUuid demo_credential \<and>
      er_publicKey r = dc_devicePublicKey demo_credential \<and> dc_serial demo_credential = serial \<and> t \<le> 5 \<and> 5 < t + 30 * 24 * 60 * 60000) \<and>
    canonicalJson (challenge_json ''nonce-7'') \<in> {canonicalJson (challenge_json ''nonce-7'')}"
proof (rule presentation_proves_hub [where sg = strict_signer and ca = demo_ca and signature = "canonicalJson (challenge_json ''nonce-7'')"])
  show "verifyHubPresentation strict_signer demo_credential (ca_publicKey demo_ca) ''nonce-7'' (canonicalJson (challenge_json ''nonce-7'')) 5 = None"
    by (simp add: verifyHubPresentation_def verifyDeviceCredential_def verifyPayload_def strict_signer_def demo_credential_fields demo_ca_def)
  show "only_issued strict_signer demo_ca {(demo_request ''n1'' 0, ''serial-1'', 0)}"
    by (simp add: only_issued_def strict_issue demo_credential_def [symmetric]) (simp add: strict_signer_def demo_ca_def)
  show "only_signed strict_signer (dc_devicePublicKey demo_credential) {canonicalJson (challenge_json ''nonce-7'')}"
    by (simp add: only_signed_def strict_signer_def demo_credential_fields)
qed

end
