(* ===== verification/Hub_Registry.thy ===== *)
theory Hub_Registry
  imports Hub_Identity
begin

text \<open>
  The hub registry of the cloud, \<^verbatim>\<open>cloud/hub-registry/src\<close> (\<^verbatim>\<open>index.ts\<close> and the transfer route of \<^verbatim>\<open>server.ts\<close>), over its in-memory
  store: enrolment, renewal, claim codes, claiming and transfer. A \<^verbatim>\<open>RegistryError\<close> is an error of the prelude with the same code. The ids of
  homes and memberships, the serial of a credential and the X.509 issuer are arguments. An operation runs without another one in between; the
  two halves of a claim are also given apart.
\<close>

section \<open>State\<close>

datatype hub_status = HubProvisioned | HubClaimed | HubSuspended | HubDecommissioned

record hub_record =
  hb_hubUuid :: string
  hb_status :: hub_status
  hb_publicKey :: string
  hb_model :: string
  hb_fwVersion :: string
  hb_certSerial :: "string option"
  hb_claimedByAccountId :: "string option"
  hb_dealerOrgId :: "string option"
  hb_createdAt :: int
  hb_lastSeenAt :: "int option"

record home_record =
  hr_id :: string
  hr_name :: string
  hr_ownerAccountId :: string
  hr_hubUuid :: string
  hr_createdAt :: int

datatype member_role = RoleOwner | RoleAdmin | RoleInstaller | RoleHomeowner | RoleFamily | RoleGuest | RoleService

record membership_record =
  mr_id :: string
  mr_homeId :: string
  mr_accountId :: string
  mr_role :: member_role
  mr_createdAt :: int

record hub_registry =
  rg_hubs :: "(string, hub_record) jsmap"
  rg_nonces :: "(string, int) jsmap"
  rg_revoked :: "string list"
  rg_claimCodes :: "(string, claim_code) jsmap"
  rg_homes :: "(string, home_record) jsmap"
  rg_memberships :: "membership_record list"

definition empty_registry :: hub_registry where
  "empty_registry = \<lparr>rg_hubs = [], rg_nonces = [], rg_revoked = [], rg_claimCodes = [], rg_homes = [], rg_memberships = []\<rparr>"

definition listHubsForAccount :: "string \<Rightarrow> hub_registry \<Rightarrow> hub_record list" where
  "listHubsForAccount account s = filter (\<lambda>h. hb_claimedByAccountId h = Some account) (jvalues (rg_hubs s))"

definition recordNonce :: "string \<Rightarrow> int \<Rightarrow> hub_registry \<Rightarrow> bool \<times> hub_registry" where
  "recordNonce nonce expires s =
     (if jget (rg_nonces s) nonce \<noteq> None then (False, s) else (True, s\<lparr>rg_nonces := jset nonce expires (rg_nonces s)\<rparr>))"

definition putHub :: "hub_record \<Rightarrow> hub_registry \<Rightarrow> hub_registry" where
  "putHub h s = s\<lparr>rg_hubs := jset (hb_hubUuid h) h (rg_hubs s)\<rparr>"

definition membershipsForHub :: "string \<Rightarrow> hub_registry \<Rightarrow> membership_record list" where
  "membershipsForHub u s =
     (let homeIds = map hr_id (filter (\<lambda>h. hr_hubUuid h = u) (jvalues (rg_homes s)))
      in filter (\<lambda>m. mr_homeId m \<in> set homeIds) (rg_memberships s))"

section \<open>Operations\<close>

record registry_env =
  rv_sg :: signer
  rv_ca :: hub_ca
  rv_verifyAttestation :: "attestation_verifier option"
  rv_brokerEndpoint :: string
  rv_pki :: "((string \<Rightarrow> string \<Rightarrow> int \<Rightarrow> string \<times> string) \<times> string) option"
  rv_mtlsEndpoint :: "string option"

record enroll_result =
  en_credential :: device_credential
  en_caPublicKey :: string
  en_brokerEndpoint :: string
  en_renewBeforeMs :: int
  en_deviceCert :: "string option"
  en_deviceKey :: "string option"
  en_mtlsCaCert :: "string option"
  en_mtlsEndpoint :: "string option"

definition registry_throw :: "error_code \<Rightarrow> string \<Rightarrow> hub_registry \<Rightarrow> (error + 'a) \<times> hub_registry" where
  "registry_throw code message s = (Inl (SupremeError code message), s)"

definition enrolled_hub :: "enrollment_request \<Rightarrow> hub_record option \<Rightarrow> string \<Rightarrow> int \<Rightarrow> hub_record" where
  "enrolled_hub req existing serial now =
     (case existing of
        Some h \<Rightarrow> h\<lparr>hb_fwVersion := er_fwVersion req, hb_certSerial := Some serial\<rparr>
      | None \<Rightarrow> \<lparr>hb_hubUuid = er_hubUuid req, hb_status = HubProvisioned, hb_publicKey = er_publicKey req, hb_model = er_model req,
          hb_fwVersion = er_fwVersion req, hb_certSerial = Some serial, hb_claimedByAccountId = None, hb_dealerOrgId = None,
          hb_createdAt = now, hb_lastSeenAt = Some now\<rparr>)"

definition enroll :: "registry_env \<Rightarrow> string \<Rightarrow> int \<Rightarrow> enrollment_request \<Rightarrow> (hub_registry, enroll_result) eff" where
  "enroll env serial now req = (\<lambda>s.
     case validateEnrollmentRequest (rv_sg env) (rv_verifyAttestation env) now req of
       Some reason \<Rightarrow> registry_throw Validation_failed reason s
     | None \<Rightarrow>
         (case recordNonce (er_nonce req) (now + 10 * 60000) s of
            (False, s1) \<Rightarrow> registry_throw Conflict ''enrollment nonce already used'' s1
          | (True, s1) \<Rightarrow>
              (let existing = jget (rg_hubs s1) (er_hubUuid req)
               in if (case existing of Some h \<Rightarrow> hb_publicKey h \<noteq> er_publicKey req | None \<Rightarrow> False)
                  then registry_throw Unauthorized ''hub uuid already bound to a different key'' s1
                  else (let credential = ca_issue (rv_sg env) (rv_ca env) req serial now;
                            tls = map_option (\<lambda>(issue, ca). (issue (er_hubUuid req) (dc_serial credential) now, ca)) (rv_pki env)
                        in (Inr \<lparr>en_credential = credential, en_caPublicKey = ca_publicKey (rv_ca env), en_brokerEndpoint = rv_brokerEndpoint env,
                                 en_renewBeforeMs = 7 * 24 * 60 * 60000, en_deviceCert = map_option (\<lambda>((cert, key), ca). cert) tls,
                                 en_deviceKey = map_option (\<lambda>((cert, key), ca). key) tls, en_mtlsCaCert = map_option snd tls,
                                 en_mtlsEndpoint = (if tls = None then None else rv_mtlsEndpoint env)\<rparr>,
                            putHub (enrolled_hub req existing (dc_serial credential) now) s1)))))"

definition renew :: "registry_env \<Rightarrow> string \<Rightarrow> int \<Rightarrow> enrollment_request \<Rightarrow> (hub_registry, enroll_result) eff" where
  "renew env serial now req = (\<lambda>s.
     case jget (rg_hubs s) (er_hubUuid req) of
       None \<Rightarrow> registry_throw Not_found ''hub is not enrolled'' s
     | Some h \<Rightarrow> (if hb_publicKey h \<noteq> er_publicKey req then registry_throw Unauthorized ''key mismatch'' s else enroll env serial now req s))"

definition issueClaimCode :: "string \<Rightarrow> byte list \<Rightarrow> int \<Rightarrow> (hub_registry, claim_code) eff" where
  "issueClaimCode u raw now = (\<lambda>s.
     case jget (rg_hubs s) u of
       None \<Rightarrow> registry_throw Not_found ''hub is not enrolled'' s
     | Some h \<Rightarrow>
         (if hb_status h = HubClaimed then registry_throw Conflict ''hub already claimed'' s
          else (let code = generateClaimCode u raw now
                in (Inr code, s\<lparr>rg_claimCodes := jset (cc_hubUuid code) code (rg_claimCodes s)\<rparr>))))"

definition claim_check :: "string \<Rightarrow> string \<Rightarrow> int \<Rightarrow> (hub_registry, hub_record) eff" where
  "claim_check u presented now = (\<lambda>s.
     case jget (rg_hubs s) u of
       None \<Rightarrow> registry_throw Not_found ''hub is not enrolled'' s
     | Some h \<Rightarrow>
         (if hb_status h = HubClaimed then registry_throw Conflict ''hub already claimed'' s
          else if (case jget (rg_claimCodes s) u of None \<Rightarrow> True | Some expected \<Rightarrow> \<not> verifyClaimCode expected presented now)
          then registry_throw Unauthorized ''invalid or expired claim code'' s
          else (Inr h, s)))"

definition claim_write ::
    "hub_record \<Rightarrow> string \<Rightarrow> string \<Rightarrow> string \<Rightarrow> string \<Rightarrow> string \<Rightarrow> int \<Rightarrow> (hub_registry, home_record \<times> membership_record) eff" where
  "claim_write h u account name homeId mbrId now = (\<lambda>s.
     let s1 = putHub (h\<lparr>hb_status := HubClaimed, hb_claimedByAccountId := Some account\<rparr>) s;
         home = \<lparr>hr_id = homeId, hr_name = name, hr_ownerAccountId = account, hr_hubUuid = u, hr_createdAt = now\<rparr>;
         membership = \<lparr>mr_id = mbrId, mr_homeId = homeId, mr_accountId = account, mr_role = RoleOwner, mr_createdAt = now\<rparr>
     in (Inr (home, membership), s1\<lparr>rg_homes := jset homeId home (rg_homes s1), rg_memberships := rg_memberships s1 @ [membership]\<rparr>))"

definition claim ::
    "string \<Rightarrow> string \<Rightarrow> string \<Rightarrow> string \<Rightarrow> string \<Rightarrow> string \<Rightarrow> int \<Rightarrow> (hub_registry, home_record \<times> membership_record) eff" where
  "claim u account presented name homeId mbrId now =
     eff_bind (claim_check u presented now) (\<lambda>h. claim_write h u account name homeId mbrId now)"

definition transfer :: "string \<Rightarrow> string \<Rightarrow> (hub_registry, unit) eff" where
  "transfer u account = (\<lambda>s.
     case jget (rg_hubs s) u of
       None \<Rightarrow> registry_throw Not_found ''hub is not enrolled'' s
     | Some h \<Rightarrow> (Inr (), putHub (h\<lparr>hb_claimedByAccountId := Some account\<rparr>) s))"

definition heartbeat :: "string \<Rightarrow> int \<Rightarrow> (hub_registry, unit) eff" where
  "heartbeat u now = (\<lambda>s.
     case jget (rg_hubs s) u of
       None \<Rightarrow> registry_throw Not_found ''hub is not enrolled'' s
     | Some h \<Rightarrow> (Inr (), putHub (h\<lparr>hb_lastSeenAt := Some now\<rparr>) s))"

definition hub_revoke :: "string \<Rightarrow> (hub_registry, unit) eff" where
  "hub_revoke serial = (\<lambda>s. (Inr (), s\<lparr>rg_revoked := (if serial \<in> set (rg_revoked s) then rg_revoked s else rg_revoked s @ [serial])\<rparr>))"

definition isRevoked :: "string \<Rightarrow> hub_registry \<Rightarrow> bool" where
  "isRevoked serial s \<longleftrightarrow> serial \<in> set (rg_revoked s)"

text \<open>The routes: the account of the session from the header, then the fields of the body; a home without a name is \<^verbatim>\<open>My Home\<close>.\<close>

definition accountOf :: "string option \<Rightarrow> (hub_registry, string) eff" where
  "accountOf session = (case truthy session of None \<Rightarrow> registry_throw Unauthorized ''missing account session'' | Some account \<Rightarrow> eff_return account)"

definition claim_route ::
    "string option \<Rightarrow> string \<Rightarrow> string option \<Rightarrow> string option \<Rightarrow> string \<Rightarrow> string \<Rightarrow> int \<Rightarrow>
     (hub_registry, home_record \<times> membership_record) eff" where
  "claim_route session u code name homeId mbrId now =
     eff_bind (accountOf session) (\<lambda>account.
       case code of
         None \<Rightarrow> registry_throw Validation_failed ''claim code required''
       | Some c \<Rightarrow> claim u account c (or_else name ''My Home'') homeId mbrId now)"

definition transfer_route :: "string option \<Rightarrow> string \<Rightarrow> string option \<Rightarrow> (hub_registry, unit) eff" where
  "transfer_route session u body =
     eff_bind (accountOf session) (\<lambda>_.
       case body of None \<Rightarrow> registry_throw Validation_failed ''toAccountId required'' | Some to \<Rightarrow> transfer u to)"

definition listHubs_route :: "string option \<Rightarrow> (hub_registry, hub_record list) eff" where
  "listHubs_route session = eff_bind (accountOf session) (\<lambda>account s. (Inr (listHubsForAccount account s), s))"

section \<open>Sequences of operations\<close>

datatype registry_op =
    REnroll string int enrollment_request
  | RRenew string int enrollment_request
  | RIssueCode string "byte list" int
  | RClaim "string option" string "string option" "string option" string string int
  | RTransfer "string option" string "string option"
  | RHeartbeat string int
  | RRevoke string

fun run_registry_op :: "registry_env \<Rightarrow> registry_op \<Rightarrow> hub_registry \<Rightarrow> hub_registry" where
  "run_registry_op env (REnroll serial now req) s = snd (enroll env serial now req s)"
| "run_registry_op env (RRenew serial now req) s = snd (renew env serial now req s)"
| "run_registry_op env (RIssueCode u raw now) s = snd (issueClaimCode u raw now s)"
| "run_registry_op env (RClaim session u code name homeId mbrId now) s = snd (claim_route session u code name homeId mbrId now s)"
| "run_registry_op env (RTransfer session u body) s = snd (transfer_route session u body s)"
| "run_registry_op env (RHeartbeat u now) s = snd (heartbeat u now s)"
| "run_registry_op env (RRevoke serial) s = snd (hub_revoke serial s)"

fun run_registry :: "registry_env \<Rightarrow> registry_op list \<Rightarrow> hub_registry \<Rightarrow> hub_registry" where
  "run_registry env [] s = s"
| "run_registry env (op # ops) s = run_registry env ops (run_registry_op env op s)"


section \<open>What an operation keeps\<close>

definition hubs_ok :: "hub_registry \<Rightarrow> bool" where
  "hubs_ok s \<longleftrightarrow> (\<forall>u h. jget (rg_hubs s) u = Some h \<longrightarrow> hb_hubUuid h = u)"

definition keeps :: "hub_registry \<Rightarrow> hub_registry \<Rightarrow> bool" where
  "keeps s s' \<longleftrightarrow> (\<forall>u h. jget (rg_hubs s) u = Some h \<longrightarrow> (\<exists>h'. jget (rg_hubs s') u = Some h' \<and> hb_publicKey h' = hb_publicKey h)) \<and>
     (\<forall>n. jget (rg_nonces s) n \<noteq> None \<longrightarrow> jget (rg_nonces s') n \<noteq> None)"

lemma keeps_hubs_refl [simp]: "keeps s s"
  by (simp add: keeps_def)

lemma keeps_hubs_trans: "keeps s t \<Longrightarrow> keeps t u \<Longrightarrow> keeps s u"
  unfolding keeps_def by metis

lemma putHub_step:
  assumes "hubs_ok s" "case jget (rg_hubs s) (hb_hubUuid h) of None \<Rightarrow> True | Some h0 \<Rightarrow> hb_publicKey h0 = hb_publicKey h"
  shows "hubs_ok (putHub h s)" "keeps s (putHub h s)"
  using assms by (auto simp: hubs_ok_def keeps_def putHub_def split: option.splits)

lemma homes_members_irrelevant [simp]:
  "hubs_ok (s\<lparr>rg_homes := a\<rparr>) = hubs_ok s" "keeps s0 (s\<lparr>rg_homes := a\<rparr>) = keeps s0 s"
  "hubs_ok (s\<lparr>rg_memberships := b\<rparr>) = hubs_ok s" "keeps s0 (s\<lparr>rg_memberships := b\<rparr>) = keeps s0 s"
  by (simp_all add: hubs_ok_def keeps_def)

lemma enroll_cases:
  obtains (refused) e where "enroll env serial now req s = (Inl e, s)"
  | (noted) e where "enroll env serial now req s = (Inl e, s\<lparr>rg_nonces := jset (er_nonce req) (now + 10 * 60000) (rg_nonces s)\<rparr>)"
  | (accepted) r where "enroll env serial now req s = (Inr r, putHub (enrolled_hub req (jget (rg_hubs s) (er_hubUuid req)) serial now)
        (s\<lparr>rg_nonces := jset (er_nonce req) (now + 10 * 60000) (rg_nonces s)\<rparr>))"
      "validateEnrollmentRequest (rv_sg env) (rv_verifyAttestation env) now req = None" "jget (rg_nonces s) (er_nonce req) = None"
      "\<And>h. jget (rg_hubs s) (er_hubUuid req) = Some h \<Longrightarrow> hb_publicKey h = er_publicKey req"
      "en_credential r = ca_issue (rv_sg env) (rv_ca env) req serial now"
proof (cases "validateEnrollmentRequest (rv_sg env) (rv_verifyAttestation env) now req")
  case (Some reason)
  then show thesis using refused by (simp add: enroll_def registry_throw_def)
next
  case None
  note valid = None
  show thesis
  proof (cases "jget (rg_nonces s) (er_nonce req)")
    case (Some t)
    with valid show thesis using refused by (simp add: enroll_def recordNonce_def registry_throw_def)
  next
    case None
    show thesis
    proof (cases "\<exists>h. jget (rg_hubs s) (er_hubUuid req) = Some h \<and> hb_publicKey h \<noteq> er_publicKey req")
      case True
      with valid None show thesis using noted by (auto simp: enroll_def recordNonce_def registry_throw_def)
    next
      case False
      have serial: "dc_serial (ca_issue (rv_sg env) (rv_ca env) req serial now) = serial"
        by (simp add: ca_issue_def Let_def credential_body.defs)
      from False have "\<not> (case jget (rg_hubs s) (er_hubUuid req) of Some h \<Rightarrow> hb_publicKey h \<noteq> er_publicKey req | None \<Rightarrow> False)"
        by (auto split: option.split)
      with valid None False serial show thesis using accepted by (simp add: enroll_def recordNonce_def Let_def)
    qed
  qed
qed

lemma enroll_step:
  assumes "hubs_ok s"
  shows "hubs_ok (snd (enroll env serial now req s)) \<and> keeps s (snd (enroll env serial now req s))"
proof (cases rule: enroll_cases [of env serial now req s])
  case (noted e)
  with assms show ?thesis by (simp add: hubs_ok_def keeps_def)
next
  case (accepted r)
  let ?s = "s\<lparr>rg_nonces := jset (er_nonce req) (now + 10 * 60000) (rg_nonces s)\<rparr>"
  let ?h = "enrolled_hub req (jget (rg_hubs s) (er_hubUuid req)) serial now"
  from assms have s: "hubs_ok ?s" "keeps s ?s" by (simp_all add: hubs_ok_def keeps_def)
  have "case jget (rg_hubs ?s) (hb_hubUuid ?h) of None \<Rightarrow> True | Some h0 \<Rightarrow> hb_publicKey h0 = hb_publicKey ?h"
    using assms by (auto simp: enrolled_hub_def hubs_ok_def split: option.split)
  from putHub_step [OF s(1) this] keeps_hubs_trans [OF s(2)] accepted(1) show ?thesis by simp
qed (use assms in simp)

lemma changed_hub_step:
  assumes "hubs_ok s" "jget (rg_hubs s) u = Some h" "hb_hubUuid h' = hb_hubUuid h" "hb_publicKey h' = hb_publicKey h"
  shows "hubs_ok (putHub h' s) \<and> keeps s (putHub h' s)"
proof -
  from assms(1-3) have "jget (rg_hubs s) (hb_hubUuid h') = Some h" by (simp add: hubs_ok_def)
  with putHub_step [OF assms(1), of h'] assms(4) show ?thesis by simp
qed

lemma claim_check_Inr:
  "claim_check u presented now s = (r, s') \<Longrightarrow> s' = s \<and> (\<forall>h. r = Inr h \<longrightarrow> jget (rg_hubs s) u = Some h \<and> hb_status h \<noteq> HubClaimed \<and>
     (\<exists>c. jget (rg_claimCodes s) u = Some c \<and> verifyClaimCode c presented now))"
  by (auto simp: claim_check_def registry_throw_def split: option.splits if_splits)

lemma claim_cases:
  obtains (refused) e where "claim u account presented name homeId mbrId now s = (Inl e, s)"
  | (claimed) h r where "claim u account presented name homeId mbrId now s = (Inr r, snd (claim_write h u account name homeId mbrId now s))"
      "jget (rg_hubs s) u = Some h" "hb_status h \<noteq> HubClaimed"
      "\<exists>c. jget (rg_claimCodes s) u = Some c \<and> verifyClaimCode c presented now"
proof -
  obtain r s' where c: "claim_check u presented now s = (r, s')" by fastforce
  note cc = claim_check_Inr [OF c]
  show thesis
  proof (cases r)
    case (Inl e)
    with c cc show thesis using refused by (simp add: claim_def eff_bind_def)
  next
    case (Inr h)
    with c cc show thesis using claimed by (simp add: claim_def eff_bind_def claim_write_def Let_def)
  qed
qed

lemma claim_step:
  assumes "hubs_ok s"
  shows "hubs_ok (snd (claim u account presented name homeId mbrId now s)) \<and> keeps s (snd (claim u account presented name homeId mbrId now s))"
proof (cases rule: claim_cases [of u account presented name homeId mbrId now s])
  case (claimed h r)
  have "hubs_ok (putHub (h\<lparr>hb_status := HubClaimed, hb_claimedByAccountId := Some account\<rparr>) s) \<and>
      keeps s (putHub (h\<lparr>hb_status := HubClaimed, hb_claimedByAccountId := Some account\<rparr>) s)"
    by (rule changed_hub_step [OF assms claimed(2)]) simp_all
  then show ?thesis using claimed(1) by (simp add: claim_write_def Let_def)
qed (use assms in simp)

lemma transfer_step:
  assumes "hubs_ok s"
  shows "hubs_ok (snd (transfer u account s)) \<and> keeps s (snd (transfer u account s))"
proof (cases "jget (rg_hubs s) u")
  case (Some h)
  have "hubs_ok (putHub (h\<lparr>hb_claimedByAccountId := Some account\<rparr>) s) \<and> keeps s (putHub (h\<lparr>hb_claimedByAccountId := Some account\<rparr>) s)"
    by (rule changed_hub_step [OF assms Some]) simp_all
  with Some show ?thesis by (simp add: transfer_def)
qed (use assms in \<open>simp add: transfer_def registry_throw_def\<close>)

lemma heartbeat_step:
  assumes "hubs_ok s"
  shows "hubs_ok (snd (heartbeat u now s)) \<and> keeps s (snd (heartbeat u now s))"
proof (cases "jget (rg_hubs s) u")
  case (Some h)
  have "hubs_ok (putHub (h\<lparr>hb_lastSeenAt := Some now\<rparr>) s) \<and> keeps s (putHub (h\<lparr>hb_lastSeenAt := Some now\<rparr>) s)"
    by (rule changed_hub_step [OF assms Some]) simp_all
  with Some show ?thesis by (simp add: heartbeat_def)
qed (use assms in \<open>simp add: heartbeat_def registry_throw_def\<close>)

lemma accountOf_cases:
  obtains (anonymous) e where "\<And>s. accountOf session s = (Inl e, s)" | (known) account where "\<And>s. accountOf session s = (Inr account, s)"
  by (cases "truthy session") (simp_all add: accountOf_def registry_throw_def eff_return_def)

lemma claim_route_cases:
  obtains (refused) e where "claim_route session u code name homeId mbrId now s = (Inl e, s)"
  | (claiming) account c where "claim_route session u code name homeId mbrId now s = claim u account c (or_else name ''My Home'') homeId mbrId now s"
  by (cases session rule: accountOf_cases; cases code) (simp_all add: claim_route_def eff_bind_def registry_throw_def)

lemma transfer_route_cases:
  obtains (refused) e where "transfer_route session u body s = (Inl e, s)" | (transferring) to where "transfer_route session u body s = transfer u to s"
  by (cases session rule: accountOf_cases; cases body) (simp_all add: transfer_route_def eff_bind_def registry_throw_def)

lemma run_registry_op_step:
  assumes "hubs_ok s"
  shows "hubs_ok (run_registry_op env op s) \<and> keeps s (run_registry_op env op s)"
proof (cases op)
  case (RRenew serial now req)
  with assms enroll_step [OF assms] show ?thesis by (auto simp: renew_def registry_throw_def split: option.split)
next
  case (RIssueCode u raw now)
  with assms show ?thesis by (auto simp: issueClaimCode_def registry_throw_def Let_def hubs_ok_def keeps_def split: option.split)
next
  case (RTransfer session u body)
  with assms transfer_step [OF assms] show ?thesis by (cases rule: transfer_route_cases [of session u body s]) simp_all
next
  case (RClaim session u code name homeId mbrId now)
  with assms claim_step [OF assms] show ?thesis by (cases rule: claim_route_cases [of session u code name homeId mbrId now s]) simp_all
next
  case (RRevoke serial)
  with assms show ?thesis by (simp add: hub_revoke_def hubs_ok_def keeps_def)
qed (use assms enroll_step heartbeat_step in simp_all)

lemma run_registry_step: "hubs_ok s \<Longrightarrow> hubs_ok (run_registry env ops s) \<and> keeps s (run_registry env ops s)"
proof (induction ops arbitrary: s)
  case (Cons op ops)
  from run_registry_op_step [OF Cons.prems] Cons.IH [of "run_registry_op env op s"] show ?case by (auto intro: keeps_hubs_trans)
qed simp

lemma empty_hubs_ok [simp]: "hubs_ok empty_registry"
  by (simp add: hubs_ok_def empty_registry_def)

text \<open>A registry and two enrolments of one hub.\<close>

definition demo_env :: registry_env where
  "demo_env = \<lparr>rv_sg = demo_signer, rv_ca = demo_ca, rv_verifyAttestation = None, rv_brokerEndpoint = ''broker'', rv_pki = None, rv_mtlsEndpoint = None\<rparr>"

lemma demo_request_valid: "validateEnrollmentRequest demo_signer None now (demo_request nonce now) = None"
  unfolding demo_request_def
  by (rule built_request_accepted) (simp_all add: demo_hub_def demo_attestation_def generated_uuid_valid demo_signer_ok)

text \<open>
  C19: A hub's identity cannot be taken over, nor a captured request used again: whatever happens between two accepted enrolments of one
  identifier, the second one is signed with the key of the first, has another nonce, and its credential is for that key.
\<close>

theorem hub_key_pinned:
  assumes "enroll env serial now req (run_registry env before empty_registry) = (Inr r, s1)"
    and "enroll env serial' now' req' (run_registry env between s1) = (Inr r', s2)"
    and "er_hubUuid req' = er_hubUuid req"
  shows "er_publicKey req' = er_publicKey req \<and> verifyEnrollmentSelfSignature (rv_sg env) req' \<and> er_nonce req' \<noteq> er_nonce req \<and>
    dc_devicePublicKey (en_credential r') = er_publicKey req"
proof -
  let ?s0 = "run_registry env before empty_registry"
  have s0: "hubs_ok ?s0" using run_registry_step [OF empty_hubs_ok] by blast
  have first: "hubs_ok s1 \<and> (\<exists>h. jget (rg_hubs s1) (er_hubUuid req) = Some h \<and> hb_publicKey h = er_publicKey req) \<and> jget (rg_nonces s1) (er_nonce req) \<noteq> None"
  proof (cases rule: enroll_cases [of env serial now req ?s0])
    case (accepted r0)
    have "hb_hubUuid (enrolled_hub req (jget (rg_hubs ?s0) (er_hubUuid req)) serial now) = er_hubUuid req"
      "hb_publicKey (enrolled_hub req (jget (rg_hubs ?s0) (er_hubUuid req)) serial now) = er_publicKey req"
      using s0 accepted(4) by (auto simp: enrolled_hub_def hubs_ok_def split: option.split)
    with accepted(1) assms(1) enroll_step [OF s0, of env serial now req] show ?thesis by (auto simp: putHub_def)
  qed (use assms(1) in simp_all)
  with run_registry_step [of s1 env between] obtain h where
    h: "jget (rg_hubs (run_registry env between s1)) (er_hubUuid req) = Some h" "hb_publicKey h = er_publicKey req"
    "jget (rg_nonces (run_registry env between s1)) (er_nonce req) \<noteq> None" by (auto simp: keeps_def) metis
  show ?thesis
  proof (cases rule: enroll_cases [of env serial' now' req' "run_registry env between s1"])
    case (accepted r0)
    from accepted(1) assms(2) have "r0 = r'" by simp
    moreover from accepted(2) have "verifyEnrollmentSelfSignature (rv_sg env) req'" by (auto simp: validateEnrollmentRequest_def split: if_splits)
    moreover from accepted(4) h assms(3) have "er_publicKey req' = er_publicKey req" by auto
    moreover from accepted(3) h(3) have "er_nonce req' \<noteq> er_nonce req" by auto
    ultimately show ?thesis using accepted(5) by (simp add: ca_issue_def Let_def credential_body.defs)
  qed (use assms(2) in simp_all)
qed

theorem hub_key_pinned_witness:
  "\<exists>r r' s1 s2. enroll demo_env ''s1'' 0 (demo_request ''n1'' 0) (run_registry demo_env [] empty_registry) = (Inr r, s1) \<and>
     enroll demo_env ''s2'' 9 (demo_request ''n2'' 9) (run_registry demo_env [RHeartbeat (er_hubUuid (demo_request ''n1'' 0)) 5] s1) = (Inr r', s2) \<and>
     dc_devicePublicKey (en_credential r') = er_publicKey (demo_request ''n1'' 0)"
proof -
  let ?req = "demo_request ''n1'' 0" and ?req' = "demo_request ''n2'' 9"
  have f: "er_nonce ?req = ''n1''" "er_nonce ?req' = ''n2''" "er_hubUuid ?req' = er_hubUuid ?req" "er_publicKey ?req' = er_publicKey ?req"
    by (simp_all add: demo_request_def buildEnrollmentRequest_def Let_def enrollment_body.defs)
  obtain r s1 where first: "enroll demo_env ''s1'' 0 ?req (run_registry demo_env [] empty_registry) = (Inr r, s1)"
      "s1 = putHub (enrolled_hub ?req None ''s1'' 0) (empty_registry\<lparr>rg_nonces := [(''n1'', 600000)]\<rparr>)"
    by (cases rule: enroll_cases [of demo_env "''s1''" 0 ?req empty_registry])
      (auto simp: enroll_def recordNonce_def demo_env_def demo_request_valid empty_registry_def f Let_def ca_issue_def credential_body.defs)
  let ?s = "run_registry demo_env [RHeartbeat (er_hubUuid ?req) 5] s1"
  have "jget (rg_nonces ?s) ''n2'' = None" "\<exists>h. jget (rg_hubs ?s) (er_hubUuid ?req) = Some h \<and> hb_publicKey h = er_publicKey ?req"
    by (simp_all add: first(2) putHub_def heartbeat_def enrolled_hub_def empty_registry_def)
  then obtain r' s2 where second: "enroll demo_env ''s2'' 9 ?req' ?s = (Inr r', s2)"
    by (auto simp: enroll_def recordNonce_def demo_env_def demo_request_valid f Let_def)
  from hub_key_pinned [OF first(1) second f(3)] first(1) second show ?thesis by blast
qed

text \<open>A hub is enrolled, shows a code, is claimed with it and handed on.\<close>

definition demo_id :: string where
  "demo_id = er_hubUuid (demo_request ''n1'' 0)"

definition demo_life :: "registry_op list" where
  "demo_life = [REnroll ''s1'' 0 (demo_request ''n1'' 0), RIssueCode demo_id (replicate 8 0) 1,
     RClaim (Some ''anna'') demo_id (Some ''AAAAAAAA'') None ''home-1'' ''mbr-1'' 2, RTransfer (Some ''dealer'') demo_id (Some ''bert'')]"

section \<open>One home for each claimed hub\<close>

definition homes_of :: "string \<Rightarrow> hub_registry \<Rightarrow> home_record list" where
  "homes_of u s = filter (\<lambda>h. hr_hubUuid h = u) (jvalues (rg_homes s))"

definition is_claimed :: "string \<Rightarrow> hub_registry \<Rightarrow> bool" where
  "is_claimed u s \<longleftrightarrow> (case jget (rg_hubs s) u of None \<Rightarrow> False | Some h \<Rightarrow> hb_status h = HubClaimed)"

definition claims_ok :: "hub_registry \<Rightarrow> bool" where
  "claims_ok s \<longleftrightarrow> (\<forall>u. length (homes_of u s) = of_bool (is_claimed u s)) \<and>
     (\<forall>u. map (\<lambda>m. (mr_homeId m, mr_accountId m, mr_role m)) (membershipsForHub u s) = map (\<lambda>h. (hr_id h, hr_ownerAccountId h, RoleOwner)) (homes_of u s)) \<and>
     (\<forall>(k, h) \<in> set (rg_homes s). hr_id h = k) \<and> (\<forall>m \<in> set (rg_memberships s). mr_homeId m \<in> fst ` set (rg_homes s))"

fun home_ids :: "registry_op list \<Rightarrow> string list" where
  "home_ids [] = []"
| "home_ids (RClaim session u code name homeId mbrId now # ops) = homeId # home_ids ops"
| "home_ids (op # ops) = home_ids ops"

definition same_claims :: "hub_registry \<Rightarrow> hub_registry \<Rightarrow> bool" where
  "same_claims s s' \<longleftrightarrow> rg_homes s' = rg_homes s \<and> rg_memberships s' = rg_memberships s \<and> (\<forall>u. is_claimed u s' = is_claimed u s)"

lemma same_claims_refl [simp]: "same_claims s s"
  by (simp add: same_claims_def)

lemma same_claims_ok: "same_claims s s' \<Longrightarrow> claims_ok s \<Longrightarrow> claims_ok s'"
  by (simp add: same_claims_def claims_ok_def homes_of_def membershipsForHub_def)

lemma putHub_same_claims:
  assumes "case jget (rg_hubs s) (hb_hubUuid h) of None \<Rightarrow> hb_status h \<noteq> HubClaimed | Some h0 \<Rightarrow> (hb_status h = HubClaimed) = (hb_status h0 = HubClaimed)"
  shows "same_claims s (putHub h s)"
  using assms by (auto simp: same_claims_def putHub_def is_claimed_def split: option.splits)

lemma changed_hub_same_claims:
  assumes "hubs_ok s" "jget (rg_hubs s) u = Some h" "hb_hubUuid h' = hb_hubUuid h" "hb_status h' = hb_status h"
  shows "same_claims s (putHub h' s)"
  using assms by (intro putHub_same_claims) (simp add: hubs_ok_def)

lemma enroll_same_claims:
  assumes "hubs_ok s"
  shows "same_claims s (snd (enroll env serial now req s))"
proof (cases rule: enroll_cases [of env serial now req s])
  case (noted e)
  then show ?thesis by (simp add: same_claims_def is_claimed_def)
next
  case (accepted r)
  let ?s = "s\<lparr>rg_nonces := jset (er_nonce req) (now + 10 * 60000) (rg_nonces s)\<rparr>"
  have "same_claims ?s (putHub (enrolled_hub req (jget (rg_hubs s) (er_hubUuid req)) serial now) ?s)"
    using assms by (intro putHub_same_claims) (auto simp: enrolled_hub_def hubs_ok_def split: option.split)
  then show ?thesis by (simp add: accepted(1) same_claims_def is_claimed_def)
qed simp

lemma jset_keys: "(a, b) \<in> set (jset k v m) \<Longrightarrow> a = k \<or> a \<in> fst ` set m"
  using jset_set_subset [of k v m] by force

lemma members_of_homes: "membershipsForHub u s = filter (\<lambda>m. mr_homeId m \<in> hr_id ` set (homes_of u s)) (rg_memberships s)"
  by (simp add: membershipsForHub_def homes_of_def Let_def)

lemma claim_claims_ok:
  assumes "hubs_ok s" "claims_ok s" "homeId \<notin> fst ` set (rg_homes s)"
  shows "claims_ok (snd (claim u account presented name homeId mbrId now s))"
proof (cases rule: claim_cases [of u account presented name homeId mbrId now s])
  case (claimed h r)
  let ?s = "snd (claim_write h u account name homeId mbrId now s)"
  let ?home = "\<lparr>hr_id = homeId, hr_name = name, hr_ownerAccountId = account, hr_hubUuid = u, hr_createdAt = now\<rparr>"
  let ?mbr = "\<lparr>mr_id = mbrId, mr_homeId = homeId, mr_accountId = account, mr_role = RoleOwner, mr_createdAt = now\<rparr>"
  from assms(1) claimed(2) have hu: "hb_hubUuid h = u" by (simp add: hubs_ok_def)
  from assms(3) have new: "jget (rg_homes s) homeId = None" by (simp add: map_of_eq_None_iff)
  have w: "rg_homes ?s = rg_homes s @ [(homeId, ?home)]" "rg_memberships ?s = rg_memberships s @ [?mbr]"
    "\<And>v. is_claimed v ?s = (v = u \<or> is_claimed v s)"
    by (auto simp: claim_write_def putHub_def Let_def jset_new [OF new] is_claimed_def hu)
  have unclaimed: "\<not> is_claimed u s" using claimed(2,3) by (simp add: is_claimed_def)
  moreover from assms(2) have "length (homes_of u s) = of_bool (is_claimed u s)" by (simp add: claims_ok_def)
  ultimately have none: "homes_of u s = []" by simp
  have homes: "homes_of v ?s = homes_of v s @ (if v = u then [?home] else [])" for v by (simp add: homes_of_def w(1))
  have ids: "mr_homeId m \<noteq> homeId" if "m \<in> set (rg_memberships s)" for m using assms(2,3) that by (auto simp: claims_ok_def)
  have mem: "membershipsForHub v ?s = (if v = u then [?mbr] else membershipsForHub v s)" for v
  proof -
    have "homeId \<notin> hr_id ` set (homes_of v s)"
    proof
      assume "homeId \<in> hr_id ` set (homes_of v s)"
      then obtain k h where kh: "(k, h) \<in> set (rg_homes s)" "hr_id h = homeId" by (auto simp: homes_of_def)
      with assms(2) have "k = homeId" by (auto simp: claims_ok_def)
      with kh(1) assms(3) show False by force
    qed
    then show ?thesis using ids none by (auto simp: members_of_homes w(2) homes filter_empty_conv)
  qed
  show ?thesis using assms(2) unclaimed none w(1,2) by (auto simp: claimed(1) claims_ok_def homes mem w(3))
qed (use assms in simp)

lemma run_registry_op_claims:
  assumes "hubs_ok s" "claims_ok s" "\<forall>i \<in> set (home_ids [op]). i \<notin> fst ` set (rg_homes s)"
  shows "claims_ok (run_registry_op env op s) \<and> fst ` set (rg_homes (run_registry_op env op s)) \<subseteq> fst ` set (rg_homes s) \<union> set (home_ids [op])"
proof -
  have same: ?thesis if "same_claims s (run_registry_op env op s)"
    using same_claims_ok [OF that assms(2)] that by (auto simp: same_claims_def)
  show ?thesis
  proof (cases op)
    case (REnroll serial now req)
    then show ?thesis using same enroll_same_claims [OF assms(1)] by simp
  next
    case (RRenew serial now req)
    then show ?thesis using enroll_same_claims [OF assms(1)] by (intro same) (simp add: renew_def registry_throw_def split: option.split)
  next
    case (RIssueCode u raw now)
    then show ?thesis
      by (intro same) (auto simp: issueClaimCode_def registry_throw_def Let_def same_claims_def is_claimed_def split: option.split)
  next
    case (RClaim session u code name homeId mbrId now)
    show ?thesis
    proof (cases rule: claim_route_cases [of session u code name homeId mbrId now s])
      case (claiming account c)
      let ?n = "or_else name ''My Home''"
      have "rg_homes (snd (claim u account c ?n homeId mbrId now s)) \<in> {rg_homes s} \<union> {jset homeId h (rg_homes s) | h. True}"
        by (cases rule: claim_cases [of u account c ?n homeId mbrId now s]) (auto simp: claim_write_def Let_def putHub_def)
      then have "fst ` set (rg_homes (snd (claim u account c ?n homeId mbrId now s))) \<subseteq> fst ` set (rg_homes s) \<union> {homeId}"
        by (auto dest: jset_keys)
      with claim_claims_ok [OF assms(1,2)] assms(3) RClaim claiming show ?thesis by simp
    qed (use RClaim same in simp)
  next
    case (RTransfer session u body)
    show ?thesis
    proof (cases rule: transfer_route_cases [of session u body s])
      case (transferring to)
      with RTransfer show ?thesis
        by (intro same) (auto simp: transfer_def registry_throw_def intro: changed_hub_same_claims [OF assms(1)] split: option.split)
    qed (use RTransfer same in simp)
  next
    case (RHeartbeat u now)
    then show ?thesis
      by (intro same) (auto simp: heartbeat_def registry_throw_def intro: changed_hub_same_claims [OF assms(1)] split: option.split)
  next
    case (RRevoke serial)
    then show ?thesis by (intro same) (simp add: hub_revoke_def same_claims_def is_claimed_def)
  qed
qed

lemma home_ids_Cons: "home_ids (op # ops) = home_ids [op] @ home_ids ops"
  by (cases op) simp_all

lemma run_registry_claims:
  assumes "hubs_ok s" "claims_ok s" "distinct (home_ids ops)" "\<forall>i \<in> set (home_ids ops). i \<notin> fst ` set (rg_homes s)"
  shows "claims_ok (run_registry env ops s)"
  using assms
proof (induction ops arbitrary: s)
  case (Cons op ops)
  let ?s = "run_registry_op env op s"
  from Cons.prems(3,4) have i: "\<forall>i \<in> set (home_ids [op]). i \<notin> fst ` set (rg_homes s)" "distinct (home_ids ops)"
    "set (home_ids [op]) \<inter> set (home_ids ops) = {}" "\<forall>i \<in> set (home_ids ops). i \<notin> fst ` set (rg_homes s)"
    by (auto simp: home_ids_Cons [of op ops])
  from run_registry_op_claims [OF Cons.prems(1,2) i(1), of env] have c: "claims_ok ?s"
    "fst ` set (rg_homes ?s) \<subseteq> fst ` set (rg_homes s) \<union> set (home_ids [op])" by simp_all
  from run_registry_op_step [OF Cons.prems(1)] have "hubs_ok ?s" by simp
  moreover have "\<forall>j \<in> set (home_ids ops). j \<notin> fst ` set (rg_homes ?s)" using i(3,4) c(2) by blast
  ultimately show ?case using Cons.IH [OF _ c(1) i(2)] by simp
qed simp

text \<open>
  C20: As long as no two claims draw the same id for their home and no two of them interleave, a claimed hub has exactly one home and an
  unclaimed one none, and the members of a hub are the owner of its home alone, whatever was enrolled, renewed, claimed and transferred.
\<close>

theorem one_home_per_claimed_hub:
  assumes "distinct (home_ids ops)"
  shows "length (homes_of u (run_registry env ops empty_registry)) = of_bool (is_claimed u (run_registry env ops empty_registry)) \<and>
    map (\<lambda>m. (mr_homeId m, mr_accountId m, mr_role m)) (membershipsForHub u (run_registry env ops empty_registry)) =
    map (\<lambda>h. (hr_id h, hr_ownerAccountId h, RoleOwner)) (homes_of u (run_registry env ops empty_registry))"
proof -
  have "claims_ok empty_registry" by (simp add: claims_ok_def empty_registry_def homes_of_def is_claimed_def membershipsForHub_def)
  then have "claims_ok (run_registry env ops empty_registry)"
    using assms by (intro run_registry_claims) (simp_all add: empty_registry_def hubs_ok_def)
  then show ?thesis by (simp add: claims_ok_def)
qed

theorem one_home_per_claimed_hub_witness:
  "length (homes_of demo_id (run_registry demo_env demo_life empty_registry)) = of_bool (is_claimed demo_id (run_registry demo_env demo_life empty_registry)) \<and>
    map (\<lambda>m. (mr_homeId m, mr_accountId m, mr_role m)) (membershipsForHub demo_id (run_registry demo_env demo_life empty_registry)) =
    map (\<lambda>h. (hr_id h, hr_ownerAccountId h, RoleOwner)) (homes_of demo_id (run_registry demo_env demo_life empty_registry))"
  by (rule one_home_per_claimed_hub) (simp add: demo_life_def)

text \<open>That life does claim the hub: the code is eight letters A, and the account that presents it becomes the owner.\<close>

lemma demo_life_claims: "is_claimed demo_id (run_registry demo_env demo_life empty_registry)"
proof -
  have f: "er_nonce (demo_request ''n1'' 0) = ''n1''" "er_hubUuid (demo_request ''n1'' 0) = demo_id"
    by (simp_all add: demo_id_def demo_request_def buildEnrollmentRequest_def Let_def enrollment_body.defs)
  have code: "cc_code (generateClaimCode demo_id (replicate 8 0) 1) = ''AAAAAAAA''" "cc_hubUuid (generateClaimCode demo_id (replicate 8 0) 1) = demo_id"
      "cc_expiresAt (generateClaimCode demo_id (replicate 8 0) 1) = 600001"
    by (simp_all add: generateClaimCode_def CLAIM_ALPHABET_def upt_rec)
  show ?thesis
    by (simp add: demo_life_def enroll_def recordNonce_def demo_env_def demo_request_valid empty_registry_def f Let_def putHub_def enrolled_hub_def
        issueClaimCode_def claim_route_def accountOf_def eff_bind_def eff_return_def truthy_def claim_def claim_check_def verifyClaimCode_def code
        claim_write_def is_claimed_def or_else_def transfer_route_def transfer_def)
qed

section \<open>What the registry does not guard\<close>

text \<open>Any account with a session takes over any hub: the route looks at neither the owner of the hub nor its dealer.\<close>

lemma any_account_takes_hub:
  assumes "jget (rg_hubs s) u = Some h" "hubs_ok s" "stranger \<noteq> ''''"
  shows "hb_claimedByAccountId (the (jget (rg_hubs (snd (transfer_route (Some stranger) u (Some stranger) s))) u)) = Some stranger"
  using assms by (simp add: transfer_route_def accountOf_def truthy_def eff_bind_def eff_return_def transfer_def putHub_def hubs_ok_def)

text \<open>A transfer moves the hub and neither its home nor the membership: the previous owner stays the only member.\<close>

lemma transfer_leaves_members:
  assumes "jget (rg_hubs s) u = Some h"
  shows "membershipsForHub v (snd (transfer u account s)) = membershipsForHub v s \<and> homes_of v (snd (transfer u account s)) = homes_of v s"
  using assms by (simp add: transfer_def putHub_def membershipsForHub_def homes_of_def)

text \<open>Two claims that present the one code at the same time are both admitted before either writes, and the hub gets two homes with two owners.\<close>

lemma interleaved_claims_both_own:
  assumes "claim_check u code now s = (Inr h, s)" "a \<noteq> b" "i \<noteq> j" "homes_of u s = []"
    and "i \<notin> fst ` set (rg_homes s)" "j \<notin> fst ` set (rg_homes s)"
  shows "map hr_ownerAccountId (homes_of u (snd (claim_write h u b name' j mj now (snd (claim_write h u a name i mi now s))))) = [a, b]"
proof -
  from assms(5,6) have "jget (rg_homes s) i = None" "jget (rg_homes s) j = None" by (simp_all add: map_of_eq_None_iff)
  then show ?thesis using assms(3,4) by (simp add: claim_write_def Let_def putHub_def homes_of_def jset_new)
qed

text \<open>Nothing on the way of an enrolment asks whether the hub's last credential was revoked.\<close>

lemma revocation_not_asked: "fst (enroll env serial now req (snd (hub_revoke old s))) = fst (enroll env serial now req s)"
  by (simp add: enroll_def hub_revoke_def recordNonce_def registry_throw_def Let_def split: option.split)

end
