(* ===== verification/Voice_Oauth.thy ===== *)
theory Voice_Oauth
  imports Secret_Store Identity_Service Canonical_Json
begin

text \<open>
  The OAuth 2 provider that voice assistants link against, \<^verbatim>\<open>cloud/voice/src/oauth.ts\<close>: authorization codes, links, access and
  refresh tokens, and the ticket of the linking form. HMAC-SHA-256 under the provider's secret (as base64url) and the JSON parser are arguments; the
  latter gives the members of the value it reads (the text \<^verbatim>\<open>null\<close>, whose members cannot be read, is never signed). Random link ids and codes and the clock (whole milliseconds) are arguments of the operations.
\<close>

section \<open>Clients and links\<close>

text \<open>An \<^verbatim>\<open>OAuthError\<close> has its code, its message and the status of the answer.\<close>

datatype oauth_error = OAuthError string string nat

type_synonym ('s, 'a) oauth_eff = "'s \<Rightarrow> (oauth_error + 'a) \<times> 's"

datatype assistant = Alexa | Google | Homekit | Siri

record link_identity =
  li_accountId :: string
  li_homeId :: string
  li_hubToken :: string
  li_scopes :: "string list option"

record link_record =
  lk_linkId :: string
  lk_assistant :: assistant
  lk_clientId :: string
  lk_refreshGen :: int
  lk_accountId :: string
  lk_homeId :: string
  lk_hubToken :: string
  lk_scopes :: "string list"
  lk_linkedAt :: int
  lk_acceptGrant :: "(string \<times> string) option"

record oauth_client =
  oc_clientId :: string
  oc_clientSecret :: string
  oc_assistant :: assistant
  oc_redirectUris :: "string list"

record code_entry =
  ce_record :: link_record
  ce_clientId :: string
  ce_redirectUri :: string
  ce_expiresAt :: int

record oauth_env =
  oe_mac :: "string \<Rightarrow> string"
  oe_parse :: "string \<Rightarrow> (string \<times> json) list option"
  oe_clients :: "(string, oauth_client) jsmap"
  oe_codeTtl :: int
  oe_accessTtl :: int
  oe_refreshTtl :: int

record oauth_state =
  oa_links :: "(string, link_record) jsmap"
  oa_codes :: "(string, code_entry) jsmap"

definition empty_oauth :: oauth_state where
  "empty_oauth = \<lparr>oa_links = [], oa_codes = []\<rparr>"

text \<open>The parts of a URL that the registration of a client looks at; the parser answers nothing for what it rejects.\<close>

record url_parts =
  ur_protocol :: string
  ur_hostname :: string
  ur_hash :: string
  ur_username :: string
  ur_password :: string

definition assertSafeRedirectUri :: "(string \<Rightarrow> url_parts option) \<Rightarrow> string \<Rightarrow> oauth_error option" where
  "assertSafeRedirectUri parse uri =
     (case parse uri of
        None \<Rightarrow> Some (OAuthError ''invalid_client'' (''redirect_uri is not a valid URL: '' @ uri) 500)
      | Some url \<Rightarrow>
          (let isLocalhost = ur_hostname url = ''localhost'' \<or> ur_hostname url = ''127.0.0.1''
           in if ur_protocol url \<noteq> ''https:'' \<and> \<not> (ur_protocol url = ''http:'' \<and> isLocalhost)
              then Some (OAuthError ''invalid_client'' (''redirect_uri must be https: '' @ uri) 500)
              else if ur_hash url \<noteq> '''' then Some (OAuthError ''invalid_client'' (''redirect_uri must not contain a fragment: '' @ uri) 500)
              else if ur_username url \<noteq> '''' \<or> ur_password url \<noteq> ''''
              then Some (OAuthError ''invalid_client'' (''redirect_uri must not contain userinfo: '' @ uri) 500)
              else None))"

fun register_clients ::
    "(string \<Rightarrow> url_parts option) \<Rightarrow> oauth_client list \<Rightarrow> (string, oauth_client) jsmap \<Rightarrow> oauth_error + (string, oauth_client) jsmap" where
  "register_clients parse [] m = Inr m"
| "register_clients parse (c # cs) m =
     (case List.map_filter (assertSafeRedirectUri parse) (oc_redirectUris c) of
        e # _ \<Rightarrow> Inl e
      | [] \<Rightarrow> register_clients parse cs (jset (oc_clientId c) c m))"

definition new_provider ::
    "(string \<Rightarrow> url_parts option) \<Rightarrow> (string \<Rightarrow> string) \<Rightarrow> (string \<Rightarrow> (string \<times> json) list option) \<Rightarrow> oauth_client list \<Rightarrow>
     int option \<Rightarrow> int option \<Rightarrow> int option \<Rightarrow> oauth_error + oauth_env" where
  "new_provider parse_url mac parse clients codeTtl accessTtl refreshTtl =
     (case register_clients parse_url clients [] of
        Inl e \<Rightarrow> Inl e
      | Inr m \<Rightarrow> Inr \<lparr>oe_mac = mac, oe_parse = parse, oe_clients = m, oe_codeTtl = or_else codeTtl (10 * 60 * 1000),
          oe_accessTtl = or_else accessTtl (60 * 60 * 1000), oe_refreshTtl = or_else refreshTtl (180 * 24 * 60 * 60 * 1000)\<rparr>)"

section \<open>Signed texts\<close>

text \<open>The body up to the first dot, and what follows the dot; nothing when there is none.\<close>

definition cut_at_dot :: "string \<Rightarrow> (string \<times> string) option" where
  "cut_at_dot t =
     (let body = takeWhile (\<lambda>c. c \<noteq> CHR ''.'') t
      in if body = t then None else Some (body, drop (Suc (length body)) t))"

definition sign_json :: "oauth_env \<Rightarrow> json \<Rightarrow> string" where
  "sign_json env v = (let body = base64url (bytes_of (stringify v)) in body @ ''.'' @ oe_mac env body)"

definition read_signed :: "oauth_env \<Rightarrow> string \<Rightarrow> (string \<times> json) list option" where
  "read_signed env t =
     (case cut_at_dot t of
        None \<Rightarrow> None
      | Some (body, sig) \<Rightarrow> (if sig \<noteq> oe_mac env body then None else oe_parse env (chars_of (unbase64 body))))"

definition signToken :: "oauth_env \<Rightarrow> string \<Rightarrow> string \<Rightarrow> int \<Rightarrow> int option \<Rightarrow> string" where
  "signToken env lid typ expiry gen =
     sign_json env (JsObject ([(''lid'', JsString lid), (''typ'', JsString typ), (''exp'', JsNumber expiry)] @
       (case gen of None \<Rightarrow> [] | Some g \<Rightarrow> [(''gen'', JsNumber g)])))"

definition verifyToken :: "oauth_env \<Rightarrow> int \<Rightarrow> string option \<Rightarrow> (string \<times> json) list option" where
  "verifyToken env now token =
     (case truthy token of
        None \<Rightarrow> None
      | Some t \<Rightarrow>
          (case read_signed env t of
             None \<Rightarrow> None
           | Some p \<Rightarrow> (case map_of p ''exp'' of Some (JsNumber e) \<Rightarrow> if e < now then None else Some p | _ \<Rightarrow> None)))"

definition issueLinkingTicket :: "oauth_env \<Rightarrow> string \<Rightarrow> string \<Rightarrow> int \<Rightarrow> string" where
  "issueLinkingTicket env clientId redirectUri now =
     sign_json env (JsObject [(''c'', JsString clientId), (''r'', JsString redirectUri), (''exp'', JsNumber (now + oe_codeTtl env))])"

definition verifyLinkingTicket :: "oauth_env \<Rightarrow> string option \<Rightarrow> string option \<Rightarrow> string option \<Rightarrow> int \<Rightarrow> bool" where
  "verifyLinkingTicket env ticket clientId redirectUri now \<longleftrightarrow>
     (case truthy ticket of
        None \<Rightarrow> False
      | Some t \<Rightarrow>
          (case read_signed env t of
             None \<Rightarrow> False
           | Some p \<Rightarrow> (case map_of p ''exp'' of Some (JsNumber e) \<Rightarrow> now \<le> e | _ \<Rightarrow> False) \<and>
               map_of p ''c'' = map_option JsString clientId \<and> map_of p ''r'' = map_option JsString redirectUri))"

lemma url_digit: "n < 64 \<Longrightarrow> unb64 (BASE64URL ! n) = Some n"
proof -
  assume n: "n < 64"
  have digits: "map unb64 BASE64URL = map Some [0..<64]" by (simp add: BASE64URL_def unb64_def Let_def upt_rec)
  have "length BASE64URL = 64" by (simp add: BASE64URL_def)
  with n have "unb64 (BASE64URL ! n) = map unb64 BASE64URL ! n" by simp
  also from n have "\<dots> = Some n" by (simp only: digits) simp
  finally show ?thesis .
qed

lemma url_digit_no_dot: "n < 64 \<Longrightarrow> BASE64URL ! n \<noteq> CHR ''.''"
  using url_digit [of n] by (auto simp: unb64_def)

lemma unbase64_base64url [simp]: "unbase64 (base64url bs) = bs"
  by (induction bs rule: base64url.induct) (simp_all add: unbase64_def map_filter_simps url_digit del: of_nat_add of_nat_mult)

lemma base64url_no_dot: "CHR ''.'' \<notin> set (base64url bs)"
  by (induction bs rule: base64url.induct) (simp_all add: url_digit_no_dot [symmetric])

lemma chars_bytes: "chars_of (bytes_of t) = t"
  by (simp add: chars_of_def bytes_of_def o_def unat_of_nat map_idI)

text \<open>What was signed is read back, and what is read was signed: the part after the dot is the code of the part before it.\<close>

lemma cut_at_dot_append:
  assumes "CHR ''.'' \<notin> set body"
  shows "cut_at_dot (body @ CHR ''.'' # sig) = Some (body, sig)"
proof -
  from assms have "takeWhile (\<lambda>c. c \<noteq> CHR ''.'') (body @ CHR ''.'' # sig) = body" by (subst takeWhile_append2) auto
  then show ?thesis by (simp add: cut_at_dot_def Let_def)
qed

lemma read_sign_json: "read_signed env (sign_json env v) = oe_parse env (stringify v)"
  by (simp add: read_signed_def sign_json_def Let_def cut_at_dot_append base64url_no_dot chars_bytes)

text \<open>A minted token names its link, its kind and its generation until it expires, when the parser reads the text that was printed.\<close>

lemma minted_token_read:
  assumes "kvs = [(''lid'', JsString lid), (''typ'', JsString typ), (''exp'', JsNumber expiry)] @ (case gen of None \<Rightarrow> [] | Some g \<Rightarrow> [(''gen'', JsNumber g)])"
    and "oe_parse env (stringify (JsObject kvs)) = Some kvs" "now \<le> expiry"
  shows "verifyToken env now (Some (signToken env lid typ expiry gen)) = Some kvs"
proof -
  have "signToken env lid typ expiry gen \<noteq> ''''" by (simp add: signToken_def sign_json_def Let_def)
  moreover have "map_of kvs ''exp'' = Some (JsNumber expiry)" by (simp add: assms(1))
  moreover have "read_signed env (signToken env lid typ expiry gen) = Some kvs"
    using assms(2) by (simp add: signToken_def read_sign_json assms(1) [symmetric] del: stringify.simps append.simps)
  ultimately show ?thesis using assms(3) by (simp add: verifyToken_def truthy_def)
qed

section \<open>Operations\<close>

definition oauth_throw :: "string \<Rightarrow> string \<Rightarrow> nat \<Rightarrow> ('s, 'a) oauth_eff" where
  "oauth_throw code message status = (\<lambda>s. (Inl (OAuthError code message status), s))"

definition client_of :: "oauth_env \<Rightarrow> string option \<Rightarrow> oauth_client option" where
  "client_of env clientId = (case truthy clientId of None \<Rightarrow> None | Some c \<Rightarrow> jget (oe_clients env) c)"

definition validateAuthorization :: "oauth_env \<Rightarrow> string option \<Rightarrow> string option \<Rightarrow> string option \<Rightarrow> oauth_error + oauth_client" where
  "validateAuthorization env clientId redirectUri responseType =
     (case client_of env clientId of
        None \<Rightarrow> Inl (OAuthError ''invalid_client'' ''unknown client_id'' 400)
      | Some client \<Rightarrow>
          (if responseType \<noteq> Some ''code'' then Inl (OAuthError ''unsupported_response_type'' ''only response_type=code is supported'' 400)
           else (case truthy redirectUri of
                   Some uri \<Rightarrow>
                     (if uri \<in> set (oc_redirectUris client) then Inr client
                      else Inl (OAuthError ''invalid_request'' ''redirect_uri not registered for this client'' 400))
                 | None \<Rightarrow> Inl (OAuthError ''invalid_request'' ''redirect_uri not registered for this client'' 400))))"

definition issueCode ::
    "oauth_env \<Rightarrow> string \<Rightarrow> string \<Rightarrow> link_identity \<Rightarrow> string \<Rightarrow> string \<Rightarrow> int \<Rightarrow> (oauth_state, string) oauth_eff" where
  "issueCode env clientId redirectUri i lid code now = (\<lambda>s.
     case validateAuthorization env (Some clientId) (Some redirectUri) (Some ''code'') of
       Inl e \<Rightarrow> (Inl e, s)
     | Inr client \<Rightarrow>
         (let record = \<lparr>lk_linkId = lid, lk_assistant = oc_assistant client, lk_clientId = oc_clientId client, lk_refreshGen = 0,
                        lk_accountId = li_accountId i, lk_homeId = li_homeId i, lk_hubToken = li_hubToken i,
                        lk_scopes = or_else (li_scopes i) [''control''], lk_linkedAt = now, lk_acceptGrant = None\<rparr>;
              entry = \<lparr>ce_record = record, ce_clientId = oc_clientId client, ce_redirectUri = redirectUri, ce_expiresAt = now + oe_codeTtl env\<rparr>
          in (Inr code, s\<lparr>oa_codes := jset code entry (oa_codes s)\<rparr>)))"

record token_set =
  tk_access :: string
  tk_refresh :: string
  tk_expires_in :: int

definition mintTokens :: "oauth_env \<Rightarrow> int \<Rightarrow> link_record \<Rightarrow> token_set" where
  "mintTokens env now r =
     \<lparr>tk_access = signToken env (lk_linkId r) ''access'' (now + oe_accessTtl env) None,
      tk_refresh = signToken env (lk_linkId r) ''refresh'' (now + oe_refreshTtl env) (Some (lk_refreshGen r)),
      tk_expires_in = oe_accessTtl env div 1000\<rparr>"

definition authenticateClient :: "oauth_env \<Rightarrow> string option \<Rightarrow> string option \<Rightarrow> oauth_error + oauth_client" where
  "authenticateClient env clientId clientSecret =
     (case (client_of env clientId, truthy clientSecret) of
        (Some client, Some secret) \<Rightarrow>
          (if secret = oc_clientSecret client then Inr client else Inl (OAuthError ''invalid_client'' ''client authentication failed'' 401))
      | _ \<Rightarrow> Inl (OAuthError ''invalid_client'' ''client authentication failed'' 401))"

definition exchangeCode ::
    "oauth_env \<Rightarrow> oauth_client \<Rightarrow> string option \<Rightarrow> string option \<Rightarrow> int \<Rightarrow> (oauth_state, token_set) oauth_eff" where
  "exchangeCode env client code redirectUri now = (\<lambda>s.
     case (case truthy code of None \<Rightarrow> None | Some c \<Rightarrow> map_option (Pair c) (jget (oa_codes s) c)) of
       None \<Rightarrow> oauth_throw ''invalid_grant'' ''unknown or used authorization code'' 400 s
     | Some (c, entry) \<Rightarrow>
         (let s1 = s\<lparr>oa_codes := jdel c (oa_codes s)\<rparr>;
              r = ce_record entry
          in if ce_expiresAt entry < now then oauth_throw ''invalid_grant'' ''authorization code expired'' 400 s1
             else if ce_clientId entry \<noteq> oc_clientId client then oauth_throw ''invalid_grant'' ''code was issued to a different client'' 400 s1
             else if Some (ce_redirectUri entry) \<noteq> redirectUri then oauth_throw ''invalid_grant'' ''redirect_uri mismatch'' 400 s1
             else (Inr (mintTokens env now r), s1\<lparr>oa_links := jset (lk_linkId r) r (oa_links s1)\<rparr>)))"

text \<open>The link that the members of a token name, by its id.\<close>

definition lid_of :: "(string \<times> json) list \<Rightarrow> string option" where
  "lid_of p = (case map_of p ''lid'' of Some (JsString l) \<Rightarrow> Some l | _ \<Rightarrow> None)"

definition link_of :: "(string \<times> json) list \<Rightarrow> oauth_state \<Rightarrow> link_record option" where
  "link_of p s = Option.bind (lid_of p) (jget (oa_links s))"

definition exchangeRefresh :: "oauth_env \<Rightarrow> oauth_client \<Rightarrow> string option \<Rightarrow> int \<Rightarrow> (oauth_state, token_set) oauth_eff" where
  "exchangeRefresh env client refreshToken now = (\<lambda>s.
     case verifyToken env now refreshToken of
       None \<Rightarrow> oauth_throw ''invalid_grant'' ''invalid refresh token'' 400 s
     | Some p \<Rightarrow>
         (if map_of p ''typ'' \<noteq> Some (JsString ''refresh'') then oauth_throw ''invalid_grant'' ''invalid refresh token'' 400 s
          else (case link_of p s of
                  None \<Rightarrow> oauth_throw ''invalid_grant'' ''link revoked'' 400 s
                | Some r \<Rightarrow>
                    (if lk_clientId r \<noteq> oc_clientId client
                     then oauth_throw ''invalid_grant'' ''refresh token does not belong to this client'' 400 s
                     else if map_of p ''gen'' \<noteq> Some (JsNumber (lk_refreshGen r))
                     then oauth_throw ''invalid_grant'' (''refresh token reuse detected '' @ em_dash @ '' link revoked'') 400
                            (s\<lparr>oa_links := jdel (lk_linkId r) (oa_links s)\<rparr>)
                     else (let r1 = r\<lparr>lk_refreshGen := lk_refreshGen r + 1\<rparr>
                           in (Inr (mintTokens env now r1), s\<lparr>oa_links := jset (the (lid_of p)) r1 (oa_links s)\<rparr>))))))"

record exchange_params =
  xp_grantType :: "string option"
  xp_code :: "string option"
  xp_refreshToken :: "string option"
  xp_redirectUri :: "string option"
  xp_clientId :: "string option"
  xp_clientSecret :: "string option"

definition oauth_exchange :: "oauth_env \<Rightarrow> exchange_params \<Rightarrow> int \<Rightarrow> (oauth_state, token_set) oauth_eff" where
  "oauth_exchange env q now = (\<lambda>s.
     case authenticateClient env (xp_clientId q) (xp_clientSecret q) of
       Inl e \<Rightarrow> (Inl e, s)
     | Inr client \<Rightarrow>
         (if xp_grantType q = Some ''authorization_code'' then exchangeCode env client (xp_code q) (xp_redirectUri q) now s
          else if xp_grantType q = Some ''refresh_token'' then exchangeRefresh env client (xp_refreshToken q) now s
          else oauth_throw ''unsupported_grant_type'' ''grant_type must be authorization_code or refresh_token'' 400 s))"

definition resolve_token :: "oauth_env \<Rightarrow> int \<Rightarrow> string option \<Rightarrow> oauth_state \<Rightarrow> link_record option" where
  "resolve_token env now token s =
     (case verifyToken env now token of
        None \<Rightarrow> None
      | Some p \<Rightarrow> (if map_of p ''typ'' \<noteq> Some (JsString ''access'') then None else link_of p s))"

definition revoke_link :: "oauth_env \<Rightarrow> int \<Rightarrow> string option \<Rightarrow> oauth_state \<Rightarrow> bool \<times> oauth_state" where
  "revoke_link env now token s =
     (case verifyToken env now token of
        None \<Rightarrow> (False, s)
      | Some p \<Rightarrow>
          (case lid_of p of
             None \<Rightarrow> (False, s)
           | Some l \<Rightarrow> (jget (oa_links s) l \<noteq> None, s\<lparr>oa_links := jdel l (oa_links s)\<rparr>)))"

definition hasLink :: "string \<Rightarrow> oauth_state \<Rightarrow> bool" where
  "hasLink l s \<longleftrightarrow> jget (oa_links s) l \<noteq> None"

definition linksForHome :: "string \<Rightarrow> oauth_state \<Rightarrow> link_record list" where
  "linksForHome home s = filter (\<lambda>r. lk_homeId r = home) (jvalues (oa_links s))"

text \<open>The record that was found is changed where it stands.\<close>

definition recordAcceptGrant :: "oauth_env \<Rightarrow> int \<Rightarrow> string option \<Rightarrow> string \<Rightarrow> oauth_state \<Rightarrow> bool \<times> oauth_state" where
  "recordAcceptGrant env now token code s =
     (case resolve_token env now token s of
        None \<Rightarrow> (False, s)
      | Some r \<Rightarrow> (True, s\<lparr>oa_links := jset (the (Option.bind (verifyToken env now token) lid_of)) (r\<lparr>lk_acceptGrant := Some (code, the token)\<rparr>) (oa_links s)\<rparr>))"

section \<open>Sequences of operations\<close>

datatype oauth_op =
    OIssue string string link_identity string string int
  | OExchange exchange_params int
  | ORevoke "string option" int
  | OGrant "string option" string int

fun run_oauth_op :: "oauth_env \<Rightarrow> oauth_op \<Rightarrow> oauth_state \<Rightarrow> oauth_state" where
  "run_oauth_op env (OIssue clientId uri i lid code now) s = snd (issueCode env clientId uri i lid code now s)"
| "run_oauth_op env (OExchange q now) s = snd (oauth_exchange env q now s)"
| "run_oauth_op env (ORevoke token now) s = snd (revoke_link env now token s)"
| "run_oauth_op env (OGrant token code now) s = snd (recordAcceptGrant env now token code s)"

fun run_oauth :: "oauth_env \<Rightarrow> oauth_op list \<Rightarrow> oauth_state \<Rightarrow> oauth_state" where
  "run_oauth env [] s = s"
| "run_oauth env (op # ops) s = run_oauth env ops (run_oauth_op env op s)"

fun drawn_links :: "oauth_op list \<Rightarrow> string list" where
  "drawn_links [] = []"
| "drawn_links (OIssue clientId uri i lid code now # ops) = lid # drawn_links ops"
| "drawn_links (op # ops) = drawn_links ops"

fun drawn_codes :: "oauth_op list \<Rightarrow> string list" where
  "drawn_codes [] = []"
| "drawn_codes (OIssue clientId uri i lid code now # ops) = code # drawn_codes ops"
| "drawn_codes (op # ops) = drawn_codes ops"

section \<open>What an operation keeps\<close>

text \<open>Links stand under their own ids; an id was drawn once, for one code or the one link that came of it.\<close>

definition oauth_ok :: "string set \<Rightarrow> oauth_state \<Rightarrow> bool" where
  "oauth_ok used s \<longleftrightarrow>
     (\<forall>l r. jget (oa_links s) l = Some r \<longrightarrow> lk_linkId r = l \<and> l \<in> used) \<and>
     (\<forall>c e. jget (oa_codes s) c = Some e \<longrightarrow> lk_linkId (ce_record e) \<in> used \<and> jget (oa_links s) (lk_linkId (ce_record e)) = None) \<and>
     (\<forall>c c' e e'. jget (oa_codes s) c = Some e \<longrightarrow> jget (oa_codes s) c' = Some e' \<longrightarrow> lk_linkId (ce_record e) = lk_linkId (ce_record e') \<longrightarrow> c = c')"

lemma oauth_okD:
  assumes "oauth_ok used s"
  shows "jget (oa_links s) l = Some r \<Longrightarrow> lk_linkId r = l" "jget (oa_links s) l = Some r \<Longrightarrow> l \<in> used"
    "jget (oa_codes s) c = Some e \<Longrightarrow> lk_linkId (ce_record e) \<in> used"
    "jget (oa_codes s) c = Some e \<Longrightarrow> jget (oa_links s) (lk_linkId (ce_record e)) = None"
    "jget (oa_codes s) c = Some e \<Longrightarrow> jget (oa_codes s) c' = Some e' \<Longrightarrow> lk_linkId (ce_record e) = lk_linkId (ce_record e') \<Longrightarrow> c = c'"
  using assms by (simp_all add: oauth_ok_def)

lemma oauth_ok_mono: "oauth_ok used s \<Longrightarrow> used \<subseteq> used' \<Longrightarrow> oauth_ok used' s"
  unfolding oauth_ok_def by blast

lemma oauth_ok_empty [simp]: "oauth_ok {} empty_oauth"
  by (simp add: oauth_ok_def empty_oauth_def)

lemma oauth_ok_drop_link [simp]: "oauth_ok used s \<Longrightarrow> oauth_ok used (s\<lparr>oa_links := jdel l (oa_links s)\<rparr>)"
  by (simp add: oauth_ok_def)

lemma oauth_ok_drop_code [simp]: "oauth_ok used s \<Longrightarrow> oauth_ok used (s\<lparr>oa_codes := jdel c (oa_codes s)\<rparr>)"
  by (simp add: oauth_ok_def)

lemma oauth_ok_change_link:
  assumes "oauth_ok used s" "jget (oa_links s) l = Some r0" "lk_linkId r = l"
  shows "oauth_ok used (s\<lparr>oa_links := jset l r (oa_links s)\<rparr>)"
proof -
  from assms(1,2) have "\<And>c e. jget (oa_codes s) c = Some e \<Longrightarrow> lk_linkId (ce_record e) \<noteq> l" by (auto dest: oauth_okD(4))
  moreover from assms(1,2) have "l \<in> used" by (rule oauth_okD(2))
  ultimately show ?thesis using assms(1,3) by (auto simp: oauth_ok_def)
qed

lemma oauth_ok_admit:
  assumes "oauth_ok used s" "jget (oa_codes s) c = Some e"
  shows "oauth_ok used (s\<lparr>oa_codes := jdel c (oa_codes s), oa_links := jset (lk_linkId (ce_record e)) (ce_record e) (oa_links s)\<rparr>)"
  using assms(1) oauth_okD(3) [OF assms] oauth_okD(5) [OF assms(1) _ assms(2)] by (auto simp: oauth_ok_def)

lemma oauth_ok_code:
  assumes "oauth_ok used s" "lk_linkId (ce_record e) \<notin> used"
  shows "oauth_ok (insert (lk_linkId (ce_record e)) used) (s\<lparr>oa_codes := jset c e (oa_codes s)\<rparr>)"
proof -
  from assms have "jget (oa_links s) (lk_linkId (ce_record e)) = None"
    by (cases "jget (oa_links s) (lk_linkId (ce_record e))") (auto dest: oauth_okD(2))
  moreover from assms have "\<And>c' e'. jget (oa_codes s) c' = Some e' \<Longrightarrow> lk_linkId (ce_record e') \<noteq> lk_linkId (ce_record e)"
    by (auto dest: oauth_okD(3))
  ultimately show ?thesis using assms(1) by (auto simp: oauth_ok_def; blast)
qed

text \<open>The outcomes of an exchange.\<close>

lemma exchangeCode_cases:
  obtains (refused) e where "exchangeCode env client code uri now s = (Inl e, s)"
  | (spoiled) c e where "exchangeCode env client code uri now s = (Inl e, s\<lparr>oa_codes := jdel c (oa_codes s)\<rparr>)" "code = Some c"
  | (accepted) c e where "code = Some c" "c \<noteq> ''''" "jget (oa_codes s) c = Some e" "now \<le> ce_expiresAt e"
      "ce_clientId e = oc_clientId client" "uri = Some (ce_redirectUri e)"
      "exchangeCode env client code uri now s = (Inr (mintTokens env now (ce_record e)),
         s\<lparr>oa_codes := jdel c (oa_codes s), oa_links := jset (lk_linkId (ce_record e)) (ce_record e) (oa_links s)\<rparr>)"
proof (cases "truthy code")
  case None
  then show thesis using refused by (simp add: exchangeCode_def oauth_throw_def)
next
  case (Some c)
  then have c: "code = Some c" "c \<noteq> ''''" by (auto simp: truthy_def split: if_splits)
  show thesis
  proof (cases "jget (oa_codes s) c")
    case None
    with Some show thesis using refused by (simp add: exchangeCode_def oauth_throw_def)
  next
    case (Some e)
    note e = Some
    show thesis
    proof (cases "ce_expiresAt e < now \<or> ce_clientId e \<noteq> oc_clientId client \<or> Some (ce_redirectUri e) \<noteq> uri")
      case True
      with \<open>truthy code = Some c\<close> e have "\<exists>x. exchangeCode env client code uri now s = (Inl x, s\<lparr>oa_codes := jdel c (oa_codes s)\<rparr>)"
        by (auto simp: exchangeCode_def oauth_throw_def Let_def)
      with c(1) show thesis using spoiled by blast
    next
      case False
      with \<open>truthy code = Some c\<close> e c show thesis by (intro accepted [of c e]) (auto simp: exchangeCode_def Let_def)
    qed
  qed
qed

lemma exchangeRefresh_cases:
  obtains (refused) e where "exchangeRefresh env client token now s = (Inl e, s)"
  | (reused) e p l r where "exchangeRefresh env client token now s = (Inl e, s\<lparr>oa_links := jdel (lk_linkId r) (oa_links s)\<rparr>)"
      "verifyToken env now token = Some p" "lid_of p = Some l" "jget (oa_links s) l = Some r" "map_of p ''gen'' \<noteq> Some (JsNumber (lk_refreshGen r))"
  | (accepted) p l r where "verifyToken env now token = Some p" "map_of p ''typ'' = Some (JsString ''refresh'')" "lid_of p = Some l"
      "jget (oa_links s) l = Some r" "lk_clientId r = oc_clientId client" "map_of p ''gen'' = Some (JsNumber (lk_refreshGen r))"
      "exchangeRefresh env client token now s = (Inr (mintTokens env now (r\<lparr>lk_refreshGen := lk_refreshGen r + 1\<rparr>)),
         s\<lparr>oa_links := jset l (r\<lparr>lk_refreshGen := lk_refreshGen r + 1\<rparr>) (oa_links s)\<rparr>)"
proof (cases "verifyToken env now token")
  case None
  then show thesis using refused by (simp add: exchangeRefresh_def oauth_throw_def)
next
  case (Some p)
  note p = Some
  show thesis
  proof (cases "map_of p ''typ'' = Some (JsString ''refresh'') \<and> link_of p s \<noteq> None")
    case False
    then have "\<exists>e. exchangeRefresh env client token now s = (Inl e, s)"
      by (cases "map_of p ''typ'' = Some (JsString ''refresh'')") (simp_all add: exchangeRefresh_def oauth_throw_def p)
    then show thesis using refused by blast
  next
    case True
    then obtain l r where lr: "lid_of p = Some l" "jget (oa_links s) l = Some r" "link_of p s = Some r"
      by (auto simp: link_of_def bind_eq_Some_conv)
    consider "lk_clientId r \<noteq> oc_clientId client" | "lk_clientId r = oc_clientId client" "map_of p ''gen'' \<noteq> Some (JsNumber (lk_refreshGen r))"
      | "lk_clientId r = oc_clientId client" "map_of p ''gen'' = Some (JsNumber (lk_refreshGen r))" by blast
    then show thesis
    proof cases
      case 1
      with p True lr(3) show thesis using refused by (simp add: exchangeRefresh_def oauth_throw_def)
    next
      case 2
      with p True lr show thesis by (intro reused) (simp_all add: exchangeRefresh_def oauth_throw_def)
    next
      case 3
      with p True lr show thesis by (intro accepted [of p l r]) (simp_all add: exchangeRefresh_def Let_def)
    qed
  qed
qed

lemma oauth_exchange_cases:
  obtains (refused) e where "oauth_exchange env q now s = (Inl e, s)"
  | (code) client where "authenticateClient env (xp_clientId q) (xp_clientSecret q) = Inr client" "xp_grantType q = Some ''authorization_code''"
      "oauth_exchange env q now s = exchangeCode env client (xp_code q) (xp_redirectUri q) now s"
  | (refresh) client where "authenticateClient env (xp_clientId q) (xp_clientSecret q) = Inr client" "xp_grantType q = Some ''refresh_token''"
      "oauth_exchange env q now s = exchangeRefresh env client (xp_refreshToken q) now s"
proof (cases "authenticateClient env (xp_clientId q) (xp_clientSecret q)")
  case (Inl e)
  then show thesis using refused by (simp add: oauth_exchange_def)
next
  case (Inr client)
  then show thesis using refused code refresh
    by (cases "xp_grantType q = Some ''authorization_code''"; cases "xp_grantType q = Some ''refresh_token''")
      (simp_all add: oauth_exchange_def oauth_throw_def)
qed


text \<open>
  What is proved of every operation at once: \<open>oauth_ok\<close> is kept, a code that is not drawn does not come back, and a link that was refreshed
  past a generation stays past it or is gone for good.
\<close>

definition past :: "string \<Rightarrow> string \<Rightarrow> int \<Rightarrow> oauth_state \<Rightarrow> bool" where
  "past l cid g s \<longleftrightarrow> (\<forall>r. jget (oa_links s) l = Some r \<longrightarrow> g < lk_refreshGen r \<and> lk_clientId r = cid) \<and>
     (\<forall>c e. jget (oa_codes s) c = Some e \<longrightarrow> lk_linkId (ce_record e) \<noteq> l)"

definition oauth_step :: "oauth_op \<Rightarrow> oauth_state \<Rightarrow> oauth_state \<Rightarrow> bool" where
  "oauth_step op s s' \<longleftrightarrow>
     (\<forall>used. oauth_ok used s \<longrightarrow> set (drawn_links [op]) \<inter> used = {} \<longrightarrow> oauth_ok (used \<union> set (drawn_links [op])) s') \<and>
     (\<forall>c. c \<notin> set (drawn_codes [op]) \<longrightarrow> jget (oa_codes s) c = None \<longrightarrow> jget (oa_codes s') c = None) \<and>
     (\<forall>used l cid g. oauth_ok used s \<longrightarrow> l \<notin> set (drawn_links [op]) \<longrightarrow> past l cid g s \<longrightarrow> past l cid g s')"

lemma oauth_step_refl [simp]: "drawn_links [op] = [] \<Longrightarrow> oauth_step op s s"
  by (simp add: oauth_step_def)

lemma oauth_step_drop_link [simp]: "drawn_links [op] = [] \<Longrightarrow> oauth_step op s (s\<lparr>oa_links := jdel l (oa_links s)\<rparr>)"
  by (simp add: oauth_step_def past_def)

lemma oauth_step_change_link:
  assumes "drawn_links [op] = []" "jget (oa_links s) l = Some r0" "lk_linkId r = lk_linkId r0" "lk_clientId r = lk_clientId r0" "lk_refreshGen r0 \<le> lk_refreshGen r"
  shows "oauth_step op s (s\<lparr>oa_links := jset l r (oa_links s)\<rparr>)"
proof -
  have "oauth_ok used (s\<lparr>oa_links := jset l r (oa_links s)\<rparr>)" if "oauth_ok used s" for used
    using oauth_ok_change_link [OF that assms(2), of r] oauth_okD(1) [OF that assms(2)] assms(3) by simp
  moreover have "past k cid g (s\<lparr>oa_links := jset l r (oa_links s)\<rparr>)" if "past k cid g s" for k cid g
    using that assms(2,4,5) by (auto simp: past_def)
  ultimately show ?thesis using assms(1) by (simp add: oauth_step_def)
qed

lemma exchangeCode_step: "oauth_step (OExchange q now) s (snd (exchangeCode env client code uri now s))"
proof (cases rule: exchangeCode_cases [of env client code uri now s])
  case (spoiled c e)
  then show ?thesis by (simp add: oauth_step_def past_def)
next
  case (accepted c e)
  have "past l cid g (s\<lparr>oa_codes := jdel c (oa_codes s), oa_links := jset (lk_linkId (ce_record e)) (ce_record e) (oa_links s)\<rparr>)" if "past l cid g s" for l cid g
    using that accepted(3) by (auto simp: past_def)
  then show ?thesis using oauth_ok_admit [OF _ accepted(3)] by (simp add: accepted(7) oauth_step_def)
qed simp

lemma exchangeRefresh_step: "oauth_step (OExchange q now) s (snd (exchangeRefresh env client token now s))"
proof (cases rule: exchangeRefresh_cases [of env client token now s])
  case (accepted p l r)
  then show ?thesis by (simp add: oauth_step_change_link [OF _ accepted(4)])
qed simp_all

lemma run_oauth_op_step: "oauth_step op s (run_oauth_op env op s)"
proof (cases op)
  case (OIssue clientId uri i lid code now)
  show ?thesis
  proof (cases "validateAuthorization env (Some clientId) (Some uri) (Some ''code'')")
    case (Inl e)
    then have "run_oauth_op env op s = s" by (simp add: OIssue issueCode_def)
    then show ?thesis by (auto simp: oauth_step_def intro: oauth_ok_mono)
  next
    case (Inr client)
    then obtain e where e: "run_oauth_op env op s = s\<lparr>oa_codes := jset code e (oa_codes s)\<rparr>" "lk_linkId (ce_record e) = lid"
      by (auto simp: OIssue issueCode_def Let_def)
    have "past l cid g (s\<lparr>oa_codes := jset code e (oa_codes s)\<rparr>)" if "past l cid g s" "l \<noteq> lid" for l cid g
      using that e(2) by (auto simp: past_def)
    then show ?thesis using oauth_ok_code [of _ s e code] e by (simp add: oauth_step_def OIssue)
  qed
next
  case (OExchange q now)
  show ?thesis
    by (cases rule: oauth_exchange_cases [of env q now s]) (simp_all add: OExchange exchangeCode_step exchangeRefresh_step)
next
  case (ORevoke token now)
  then show ?thesis by (simp add: revoke_link_def split: option.split)
next
  case (OGrant token code now)
  show ?thesis
  proof (cases "resolve_token env now token s")
    case (Some r)
    then obtain p l where "verifyToken env now token = Some p" "lid_of p = Some l" "jget (oa_links s) l = Some r"
      by (auto simp: resolve_token_def link_of_def bind_eq_Some_conv split: option.splits if_splits)
    with Some show ?thesis by (simp add: OGrant recordAcceptGrant_def oauth_step_change_link)
  qed (simp add: OGrant recordAcceptGrant_def)
qed

lemma drawn_Cons: "drawn_links (op # ops) = drawn_links [op] @ drawn_links ops" "drawn_codes (op # ops) = drawn_codes [op] @ drawn_codes ops"
  by (cases op; simp)+

lemma drawn_links_append: "drawn_links (ops @ ops') = drawn_links ops @ drawn_links ops'"
  by (induction ops rule: drawn_links.induct) simp_all

lemma run_oauth_ok:
  "oauth_ok used s \<Longrightarrow> distinct (drawn_links ops) \<Longrightarrow> set (drawn_links ops) \<inter> used = {} \<Longrightarrow>
     oauth_ok (used \<union> set (drawn_links ops)) (run_oauth env ops s)"
proof (induction ops arbitrary: s used)
  case (Cons op ops)
  let ?u = "used \<union> set (drawn_links [op])"
  from Cons.prems(2,3) have d: "distinct (drawn_links ops)" "set (drawn_links ops) \<inter> ?u = {}" "set (drawn_links [op]) \<inter> used = {}"
    by (auto simp: drawn_Cons(1) [of op ops])
  from run_oauth_op_step Cons.prems(1) d(3) have "oauth_ok ?u (run_oauth_op env op s)" by (simp add: oauth_step_def)
  from Cons.IH [OF this d(1,2)] show ?case by (simp add: drawn_Cons(1) [of op ops] Un_assoc)
qed simp

lemma run_oauth_no_code:
  "jget (oa_codes s) c = None \<Longrightarrow> c \<notin> set (drawn_codes ops) \<Longrightarrow> jget (oa_codes (run_oauth env ops s)) c = None"
proof (induction ops arbitrary: s)
  case (Cons op ops)
  from Cons.prems(2) have "c \<notin> set (drawn_codes [op])" "c \<notin> set (drawn_codes ops)" by (auto simp: drawn_Cons(2) [of op ops])
  with Cons.prems(1) run_oauth_op_step [of op s env] Cons.IH [of "run_oauth_op env op s"] show ?case by (simp add: oauth_step_def)
qed simp

lemma run_oauth_past:
  "oauth_ok used s \<Longrightarrow> distinct (drawn_links ops) \<Longrightarrow> set (drawn_links ops) \<inter> used = {} \<Longrightarrow> l \<in> used \<Longrightarrow> past l cid g s \<Longrightarrow>
     past l cid g (run_oauth env ops s)"
proof (induction ops arbitrary: s used)
  case (Cons op ops)
  let ?u = "used \<union> set (drawn_links [op])"
  from Cons.prems(2,3) have d: "distinct (drawn_links ops)" "set (drawn_links ops) \<inter> ?u = {}" "set (drawn_links [op]) \<inter> used = {}"
    by (auto simp: drawn_Cons(1) [of op ops])
  from run_oauth_op_step Cons.prems(1) d(3) have "oauth_ok ?u (run_oauth_op env op s)" by (simp add: oauth_step_def)
  moreover from d(3) Cons.prems(4) have "l \<notin> set (drawn_links [op])" by auto
  then have "past l cid g (run_oauth_op env op s)" using run_oauth_op_step Cons.prems(1,5) by (simp add: oauth_step_def) blast
  ultimately show ?case using Cons.IH [OF _ d(1,2)] Cons.prems(4) by simp
qed simp

text \<open>The states that a provider reaches, when no link id is drawn twice.\<close>

lemma reached_oauth_ok: "distinct (drawn_links ops) \<Longrightarrow> oauth_ok (set (drawn_links ops)) (run_oauth env ops empty_oauth)"
  using run_oauth_ok [OF oauth_ok_empty, of ops env] by simp

lemma accepted_refresh:
  assumes "oauth_ok used s" "oauth_exchange env q now s = (Inr tokens, s1)" "xp_grantType q = Some ''refresh_token''"
  obtains client p l g where "authenticateClient env (xp_clientId q) (xp_clientSecret q) = Inr client"
    "verifyToken env now (xp_refreshToken q) = Some p" "map_of p ''typ'' = Some (JsString ''refresh'')" "lid_of p = Some l"
    "map_of p ''gen'' = Some (JsNumber g)" "l \<in> used" "oauth_ok used s1" "past l (oc_clientId client) g s1"
proof -
  obtain client where c: "authenticateClient env (xp_clientId q) (xp_clientSecret q) = Inr client"
      "exchangeRefresh env client (xp_refreshToken q) now s = (Inr tokens, s1)"
    using assms(2,3) by (cases rule: oauth_exchange_cases [of env q now s]) auto
  show thesis
  proof (cases rule: exchangeRefresh_cases [of env client "xp_refreshToken q" now s])
    case (accepted p l r)
    with c(2) have s1: "s1 = s\<lparr>oa_links := jset l (r\<lparr>lk_refreshGen := lk_refreshGen r + 1\<rparr>) (oa_links s)\<rparr>" by simp
    with assms(1) accepted(4,5) oauth_okD(1,2) [OF assms(1) accepted(4)] have "oauth_ok used s1" "l \<in> used"
      by (auto intro: oauth_ok_change_link)
    moreover have "past l (oc_clientId client) (lk_refreshGen r) s1"
      using accepted(4,5) s1 oauth_okD(4) [OF assms(1)] by (fastforce simp: past_def)
    ultimately show thesis using that c(1) accepted(1-3,6) by blast
  qed (use c(2) in simp_all)
qed

text \<open>Past its generation a token gives nothing, and its use ends the link.\<close>

lemma past_not_refreshed:
  assumes "past l cid g s" "\<And>p. verifyToken env now (xp_refreshToken q) = Some p \<Longrightarrow> lid_of p = Some l \<and> map_of p ''gen'' = Some (JsNumber g)"
    and "xp_grantType q = Some ''refresh_token''"
  shows "oauth_exchange env q now s \<noteq> (Inr t, s')"
proof (cases rule: oauth_exchange_cases [of env q now s])
  case (refresh client)
  show ?thesis
  proof (cases rule: exchangeRefresh_cases [of env client "xp_refreshToken q" now s])
    case (accepted p l' r)
    with assms(2) [OF accepted(1)] assms(1) show ?thesis by (auto simp: past_def)
  qed (simp_all add: refresh(3))
qed (use assms(3) in simp_all)

lemma past_use_ends_link:
  assumes "oauth_ok used s" "past l (oc_clientId client) g s" "verifyToken env now (xp_refreshToken q) = Some p" "map_of p ''typ'' = Some (JsString ''refresh'')"
    and "lid_of p = Some l" "map_of p ''gen'' = Some (JsNumber g)" "authenticateClient env (xp_clientId q) (xp_clientSecret q) = Inr client"
    and "xp_grantType q = Some ''refresh_token''"
  shows "link_of p (snd (oauth_exchange env q now s)) = None"
proof -
  from assms(7,8) have x: "oauth_exchange env q now s = exchangeRefresh env client (xp_refreshToken q) now s" by (simp add: oauth_exchange_def)
  show ?thesis
  proof (cases "jget (oa_links s) l")
    case None
    then have "link_of p s = None" by (simp add: link_of_def assms(5))
    with x assms(3,4) show ?thesis by (simp add: exchangeRefresh_def oauth_throw_def)
  next
    case (Some r)
    with assms(2) have "lk_clientId r = oc_clientId client" "lk_refreshGen r \<noteq> g" by (auto simp: past_def)
    moreover from Some have "link_of p s = Some r" by (simp add: link_of_def assms(5))
    moreover have "lk_linkId r = l" by (rule oauth_okD(1) [OF assms(1) Some])
    ultimately show ?thesis using x assms(3-6) by (simp add: exchangeRefresh_def oauth_throw_def) (simp add: link_of_def)
  qed
qed

lemma verifyToken_same: "verifyToken env now t = Some p \<Longrightarrow> verifyToken env now' t = Some p' \<Longrightarrow> p' = p"
  by (auto simp: verifyToken_def split: option.splits if_splits json.splits)

text \<open>A provider with one client, which has one redirect URI; its parser reads the text of one refresh token.\<close>

definition demo_client :: oauth_client where
  "demo_client = \<lparr>oc_clientId = ''alexa'', oc_clientSecret = ''secret'', oc_assistant = Alexa, oc_redirectUris = [''https://a/cb'']\<rparr>"

definition demo_url :: "string \<Rightarrow> url_parts option" where
  "demo_url uri = (if uri = ''https://a/cb''
     then Some \<lparr>ur_protocol = ''https:'', ur_hostname = ''a'', ur_hash = '''', ur_username = '''', ur_password = ''''\<rparr> else None)"

definition demo_claims :: "(string \<times> json) list" where
  "demo_claims = [(''lid'', JsString ''link-1''), (''typ'', JsString ''refresh''), (''exp'', JsNumber 15552000005), (''gen'', JsNumber 0)]"

definition demo_parse :: "string \<Rightarrow> (string \<times> json) list option" where
  "demo_parse t = (if t = stringify (JsObject demo_claims) then Some demo_claims else None)"

definition demo_oauth :: oauth_env where
  "demo_oauth = \<lparr>oe_mac = rev, oe_parse = demo_parse, oe_clients = [(''alexa'', demo_client)], oe_codeTtl = 600000, oe_accessTtl = 3600000,
     oe_refreshTtl = 15552000000\<rparr>"

definition demo_identity :: link_identity where
  "demo_identity = \<lparr>li_accountId = ''account-1'', li_homeId = ''home-1'', li_hubToken = ''hub-token'', li_scopes = None\<rparr>"

definition demo_issue :: oauth_op where
  "demo_issue = OIssue ''alexa'' ''https://a/cb'' demo_identity ''link-1'' ''code-1'' 0"

definition demo_code_request :: exchange_params where
  "demo_code_request = \<lparr>xp_grantType = Some ''authorization_code'', xp_code = Some ''code-1'', xp_refreshToken = None,
     xp_redirectUri = Some ''https://a/cb'', xp_clientId = Some ''alexa'', xp_clientSecret = Some ''secret''\<rparr>"

definition demo_token :: string where
  "demo_token = signToken demo_oauth ''link-1'' ''refresh'' 15552000005 (Some 0)"

definition demo_refresh_request :: exchange_params where
  "demo_refresh_request = \<lparr>xp_grantType = Some ''refresh_token'', xp_code = None, xp_refreshToken = Some demo_token,
     xp_redirectUri = None, xp_clientId = Some ''alexa'', xp_clientSecret = Some ''secret''\<rparr>"

definition demo_link :: link_record where
  "demo_link = \<lparr>lk_linkId = ''link-1'', lk_assistant = Alexa, lk_clientId = ''alexa'', lk_refreshGen = 0, lk_accountId = ''account-1'',
     lk_homeId = ''home-1'', lk_hubToken = ''hub-token'', lk_scopes = [''control''], lk_linkedAt = 0, lk_acceptGrant = None\<rparr>"

lemma demo_provider: "new_provider demo_url rev demo_parse [demo_client] None None None = Inr demo_oauth"
  by (simp add: new_provider_def demo_client_def demo_url_def demo_oauth_def assertSafeRedirectUri_def List.map_filter_def Let_def or_else_def)

lemma demo_authenticated: "authenticateClient demo_oauth (Some ''alexa'') (Some ''secret'') = Inr demo_client"
  by (simp add: authenticateClient_def client_of_def truthy_def demo_oauth_def demo_client_def)

lemma demo_code_exchanged:
  "oauth_exchange demo_oauth demo_code_request 5 (run_oauth demo_oauth [demo_issue] empty_oauth) =
     (Inr (mintTokens demo_oauth 5 demo_link), \<lparr>oa_links = [(''link-1'', demo_link)], oa_codes = []\<rparr>)"
proof -
  have "validateAuthorization demo_oauth (Some ''alexa'') (Some ''https://a/cb'') (Some ''code'') = Inr demo_client"
    by (simp add: validateAuthorization_def client_of_def truthy_def demo_oauth_def demo_client_def)
  then have "run_oauth demo_oauth [demo_issue] empty_oauth = \<lparr>oa_links = [],
      oa_codes = [(''code-1'', \<lparr>ce_record = demo_link, ce_clientId = ''alexa'', ce_redirectUri = ''https://a/cb'', ce_expiresAt = 600000\<rparr>)]\<rparr>"
    by (simp add: demo_issue_def issueCode_def demo_identity_def demo_client_def demo_link_def or_else_def empty_oauth_def) (simp add: demo_oauth_def)
  then show ?thesis
    by (simp add: oauth_exchange_def demo_code_request_def demo_authenticated exchangeCode_def truthy_def demo_client_def demo_link_def Let_def)
qed

lemma demo_token_read: "now \<le> 15552000005 \<Longrightarrow> verifyToken demo_oauth now (Some demo_token) = Some demo_claims"
  unfolding demo_token_def
  by (rule minted_token_read) (simp_all add: demo_claims_def demo_oauth_def demo_parse_def del: stringify.simps)

text \<open>The token is the one that the exchange of the code gave.\<close>

lemma demo_token_minted: "tk_refresh (mintTokens demo_oauth 5 demo_link) = demo_token"
  by (simp add: mintTokens_def demo_token_def demo_link_def) (simp add: demo_oauth_def)

lemma demo_refreshed:
  "\<exists>tokens s1. oauth_exchange demo_oauth demo_refresh_request 6 (run_oauth demo_oauth [demo_issue, OExchange demo_code_request 5] empty_oauth) = (Inr tokens, s1)"
proof -
  have "run_oauth demo_oauth [demo_issue, OExchange demo_code_request 5] empty_oauth = \<lparr>oa_links = [(''link-1'', demo_link)], oa_codes = []\<rparr>"
    using demo_code_exchanged by (simp add: demo_issue_def)
  then show ?thesis
    by (simp add: oauth_exchange_def demo_refresh_request_def demo_authenticated exchangeRefresh_def demo_token_read demo_claims_def link_of_def lid_of_def
        demo_link_def demo_client_def Let_def)
qed

text \<open>
  C22: A refresh token works once. When it was accepted, the same token never gives tokens again, whatever is issued, exchanged, revoked or
  granted in between, as long as no link id is drawn twice; and who presents it again before it expires, with the credentials of its client, kills the link.
\<close>

theorem refresh_token_single_use:
  assumes "distinct (drawn_links (before @ between))"
    and "oauth_exchange env q now (run_oauth env before empty_oauth) = (Inr tokens, s1)" "xp_grantType q = Some ''refresh_token''"
    and "oauth_exchange env q' now' (run_oauth env between s1) = (answer, s2)" "xp_grantType q' = Some ''refresh_token''"
    and "xp_refreshToken q' = xp_refreshToken q"
  shows "(\<forall>t. answer \<noteq> Inr t) \<and>
    (xp_clientId q' = xp_clientId q \<longrightarrow> xp_clientSecret q' = xp_clientSecret q \<longrightarrow>
      (\<forall>p. verifyToken env now' (xp_refreshToken q) = Some p \<longrightarrow> link_of p s2 = None))"
proof -
  let ?s = "run_oauth env before empty_oauth" and ?s' = "run_oauth env between s1" and ?t = "xp_refreshToken q"
  from assms(1) have d: "distinct (drawn_links before)" "distinct (drawn_links between)"
    "set (drawn_links between) \<inter> set (drawn_links before) = {}" by (auto simp: drawn_links_append)
  obtain client p l g where a: "authenticateClient env (xp_clientId q) (xp_clientSecret q) = Inr client" "verifyToken env now ?t = Some p"
      "map_of p ''typ'' = Some (JsString ''refresh'')" "lid_of p = Some l" "map_of p ''gen'' = Some (JsNumber g)" "l \<in> set (drawn_links before)"
      "oauth_ok (set (drawn_links before)) s1" "past l (oc_clientId client) g s1"
    by (rule accepted_refresh [OF reached_oauth_ok [OF d(1)] assms(2,3)])
  have past: "past l (oc_clientId client) g ?s'" by (rule run_oauth_past [OF a(7) d(2,3) a(6,8)])
  have ok: "oauth_ok (set (drawn_links before) \<union> set (drawn_links between)) ?s'" by (rule run_oauth_ok [OF a(7) d(2,3)])
  have "answer \<noteq> Inr t" for t
    using past_not_refreshed [OF past, of env now' q' t s2] verifyToken_same [OF a(2)] a(4,5) assms(4-6) by auto
  moreover have "link_of p' s2 = None"
    if "xp_clientId q' = xp_clientId q" "xp_clientSecret q' = xp_clientSecret q" "verifyToken env now' ?t = Some p'" for p'
    using past_use_ends_link [OF ok past, of env now' q' p'] verifyToken_same [OF a(2) that(3)] that a(1,3,4,5) assms(4-6) by simp
  ultimately show ?thesis by blast
qed

theorem refresh_token_single_use_witness:
  "\<exists>tokens s1 answer s2. oauth_exchange demo_oauth demo_refresh_request 6
       (run_oauth demo_oauth [demo_issue, OExchange demo_code_request 5] empty_oauth) = (Inr tokens, s1) \<and>
     oauth_exchange demo_oauth demo_refresh_request 7 (run_oauth demo_oauth [] s1) = (answer, s2) \<and>
     (\<forall>t. answer \<noteq> Inr t) \<and> link_of demo_claims s2 = None"
proof -
  from demo_refreshed obtain tokens s1 where first: "oauth_exchange demo_oauth demo_refresh_request 6
      (run_oauth demo_oauth [demo_issue, OExchange demo_code_request 5] empty_oauth) = (Inr tokens, s1)" by blast
  obtain answer s2 where second: "oauth_exchange demo_oauth demo_refresh_request 7 (run_oauth demo_oauth [] s1) = (answer, s2)" by fastforce
  have "distinct (drawn_links ([demo_issue, OExchange demo_code_request 5] @ []))" by (simp add: demo_issue_def)
  from refresh_token_single_use [OF this first _ second] have "(\<forall>t. answer \<noteq> Inr t) \<and> link_of demo_claims s2 = None"
    by (simp add: demo_refresh_request_def demo_token_read)
  with first second show ?thesis by blast
qed

section \<open>Authorization codes\<close>

text \<open>The issue that an entry comes from.\<close>

definition issued_entry :: "oauth_env \<Rightarrow> oauth_op \<Rightarrow> string \<Rightarrow> code_entry \<Rightarrow> bool" where
  "issued_entry env op code e \<longleftrightarrow> (\<exists>clientId uri i lid t client. op = OIssue clientId uri i lid code t \<and>
     validateAuthorization env (Some clientId) (Some uri) (Some ''code'') = Inr client \<and> ce_clientId e = oc_clientId client \<and>
     ce_redirectUri e = uri \<and> ce_expiresAt e = t + oe_codeTtl env \<and> lk_linkId (ce_record e) = lid \<and> lk_homeId (ce_record e) = li_homeId i)"

lemma op_entries:
  assumes "jget (oa_codes (run_oauth_op env op s)) c = Some e"
  shows "jget (oa_codes s) c = Some e \<or> issued_entry env op c e"
proof (cases op)
  case (OIssue clientId uri i lid code now)
  with assms show ?thesis
    by (auto simp: issueCode_def Let_def issued_entry_def split: sum.splits if_splits)
next
  case (OExchange q now)
  show ?thesis
  proof (cases rule: oauth_exchange_cases [of env q now s])
    case (code client)
    with assms OExchange show ?thesis
      by (cases rule: exchangeCode_cases [of env client "xp_code q" "xp_redirectUri q" now s]) (auto split: if_splits)
  next
    case (refresh client)
    with assms OExchange show ?thesis
      by (cases rule: exchangeRefresh_cases [of env client "xp_refreshToken q" now s]) auto
  qed (use assms OExchange in simp)
next
  case (ORevoke token now)
  with assms show ?thesis by (auto simp: revoke_link_def split: option.splits)
next
  case (OGrant token code now)
  with assms show ?thesis by (auto simp: recordAcceptGrant_def split: option.splits)
qed

lemma run_entries:
  "jget (oa_codes (run_oauth env ops s)) c = Some e \<Longrightarrow> jget (oa_codes s) c = Some e \<or> (\<exists>op \<in> set ops. issued_entry env op c e)"
proof (induction ops arbitrary: s)
  case (Cons op ops)
  from Cons.IH [of "run_oauth_op env op s"] Cons.prems op_entries [of env op s c e] show ?case by auto
qed simp

lemma register_clients_ok:
  "register_clients parse cs m = Inr m' \<Longrightarrow>
     (\<forall>c cl. jget m c = Some cl \<longrightarrow> oc_clientId cl = c \<and> (\<forall>uri \<in> set (oc_redirectUris cl). assertSafeRedirectUri parse uri = None)) \<Longrightarrow>
     jget m' c = Some cl \<Longrightarrow> oc_clientId cl = c \<and> (\<forall>uri \<in> set (oc_redirectUris cl). assertSafeRedirectUri parse uri = None)"
proof (induction cs arbitrary: m)
  case (Cons d cs)
  from Cons.prems(1) have "List.map_filter (assertSafeRedirectUri parse) (oc_redirectUris d) = []"
    and r: "register_clients parse cs (jset (oc_clientId d) d m) = Inr m'" by (auto split: list.splits)
  then have "\<forall>uri \<in> set (oc_redirectUris d). assertSafeRedirectUri parse uri = None" by (auto simp: List.map_filter_def filter_empty_conv)
  with Cons.prems(2) have "\<forall>c cl. jget (jset (oc_clientId d) d m) c = Some cl \<longrightarrow> oc_clientId cl = c \<and>
      (\<forall>uri \<in> set (oc_redirectUris cl). assertSafeRedirectUri parse uri = None)" by (simp split: if_splits)
  with Cons.IH [OF r _ Cons.prems(3)] show ?case by blast
qed simp

lemma validated:
  assumes "new_provider parse_url mac parse clients a b d = Inr env" "validateAuthorization env (Some clientId) (Some uri) t = Inr client"
  shows "oc_clientId client = clientId \<and> uri \<in> set (oc_redirectUris client) \<and> assertSafeRedirectUri parse_url uri = None"
proof -
  from assms(1) have "register_clients parse_url clients [] = Inr (oe_clients env)" by (auto simp: new_provider_def split: sum.splits)
  from register_clients_ok [OF this] assms(2) show ?thesis
    by (auto simp: validateAuthorization_def client_of_def truthy_def split: option.splits if_splits)
qed

lemma validated_client: "validateAuthorization env (Some clientId) uri t = Inr client \<Longrightarrow> client_of env (Some clientId) = Some client"
  by (auto simp: validateAuthorization_def split: option.splits if_splits)

lemma authenticated:
  assumes "new_provider parse_url mac parse clients a b d = Inr env" "authenticateClient env clientId secret = Inr client"
  shows "\<exists>c. clientId = Some c \<and> client_of env (Some c) = Some client \<and> secret = Some (oc_clientSecret client) \<and> oc_clientId client = c"
proof -
  from assms(1) have r: "register_clients parse_url clients [] = Inr (oe_clients env)" by (auto simp: new_provider_def split: sum.splits)
  from assms(2) have "client_of env clientId = Some client" "secret = Some (oc_clientSecret client)"
    by (auto simp: authenticateClient_def truthy_def split: option.splits if_splits)
  with register_clients_ok [OF r] show ?thesis by (cases clientId) (auto simp: client_of_def truthy_def split: if_splits)
qed

lemma used_code_refused:
  assumes "jget (oa_codes s) code = None" "xp_code q = Some code" "xp_grantType q = Some ''authorization_code''"
  shows "oauth_exchange env q now s \<noteq> (Inr t, s')"
proof (cases rule: oauth_exchange_cases [of env q now s])
  case (code client)
  show ?thesis
    by (cases rule: exchangeCode_cases [of env client "xp_code q" "xp_redirectUri q" now s]) (use assms code in auto)
qed (use assms(3) in simp_all)

text \<open>
  C23: An authorization code gives tokens only to the client that it was issued to, which proves its secret, names the redirect URI of the issue (a registered
  and safe one) and comes in time; the tokens are of the link of that issue. And it does so once: after that no exchange with the same code is
  accepted, unless the same code is drawn again.
\<close>

theorem auth_code_sound:
  assumes "new_provider parse_url mac parse clients a b d = Inr env"
    and "oauth_exchange env q now (run_oauth env ops empty_oauth) = (Inr tokens, s1)" "xp_grantType q = Some ''authorization_code''"
  shows "\<exists>clientId client uri i lid code t. OIssue clientId uri i lid code t \<in> set ops \<and>
    xp_clientId q = Some clientId \<and> client_of env (Some clientId) = Some client \<and> xp_clientSecret q = Some (oc_clientSecret client) \<and>
    xp_code q = Some code \<and> xp_redirectUri q = Some uri \<and> uri \<in> set (oc_redirectUris client) \<and> assertSafeRedirectUri parse_url uri = None \<and>
    now \<le> t + oe_codeTtl env \<and> (\<exists>r. jget (oa_links s1) lid = Some r \<and> lk_homeId r = li_homeId i \<and> tokens = mintTokens env now r) \<and>
    (\<forall>more q' now' tokens' s'. code \<notin> set (drawn_codes more) \<longrightarrow> xp_code q' = Some code \<longrightarrow> xp_grantType q' = Some ''authorization_code'' \<longrightarrow>
       oauth_exchange env q' now' (run_oauth env more s1) \<noteq> (Inr tokens', s'))"
proof -
  let ?s = "run_oauth env ops empty_oauth"
  obtain client where c: "authenticateClient env (xp_clientId q) (xp_clientSecret q) = Inr client"
      "exchangeCode env client (xp_code q) (xp_redirectUri q) now ?s = (Inr tokens, s1)"
    using assms(2,3) by (cases rule: oauth_exchange_cases [of env q now ?s]) auto
  from authenticated [OF assms(1) c(1)] obtain clientId where q: "xp_clientId q = Some clientId" "client_of env (Some clientId) = Some client"
    "xp_clientSecret q = Some (oc_clientSecret client)" "oc_clientId client = clientId" by blast
  obtain code e where e: "xp_code q = Some code" "jget (oa_codes ?s) code = Some e" "now \<le> ce_expiresAt e" "ce_clientId e = clientId"
      "xp_redirectUri q = Some (ce_redirectUri e)" "tokens = mintTokens env now (ce_record e)"
      "s1 = ?s\<lparr>oa_codes := jdel code (oa_codes ?s), oa_links := jset (lk_linkId (ce_record e)) (ce_record e) (oa_links ?s)\<rparr>"
    using c(2) q(4) by (cases rule: exchangeCode_cases [of env client "xp_code q" "xp_redirectUri q" now ?s]) auto
  from run_entries [OF e(2)] obtain op where "op \<in> set ops" "issued_entry env op code e" by (auto simp: empty_oauth_def)
  then obtain cid uri i lid t client' where i: "OIssue cid uri i lid code t \<in> set ops"
      "validateAuthorization env (Some cid) (Some uri) (Some ''code'') = Inr client'" "ce_clientId e = oc_clientId client'" "ce_redirectUri e = uri"
      "ce_expiresAt e = t + oe_codeTtl env" "lk_linkId (ce_record e) = lid" "lk_homeId (ce_record e) = li_homeId i"
    unfolding issued_entry_def by blast
  from validated [OF assms(1) i(2)] i(3) e(4) have v: "cid = clientId" "uri \<in> set (oc_redirectUris client')" "assertSafeRedirectUri parse_url uri = None" by auto
  with validated_client [OF i(2)] q(2) have "client' = client" by simp
  have once: "oauth_exchange env q' now' (run_oauth env more s1) \<noteq> (Inr tokens', s')"
    if "code \<notin> set (drawn_codes more)" "xp_code q' = Some code" "xp_grantType q' = Some ''authorization_code''" for more q' now' tokens' s'
    using that by (intro used_code_refused) (simp_all add: run_oauth_no_code e(7))
  have "jget (oa_links s1) lid = Some (ce_record e)" by (simp add: e(7) i(6))
  then show ?thesis using i(1,4,5,7) q(1-3) e(1,3,5,6) v \<open>client' = client\<close> once
    by (intro exI [of _ clientId] exI [of _ client] exI [of _ uri] exI [of _ i] exI [of _ lid] exI [of _ code] exI [of _ t] conjI) simp_all
qed

theorem auth_code_sound_witness:
  "\<exists>tokens s1. oauth_exchange demo_oauth demo_code_request 5 (run_oauth demo_oauth [demo_issue] empty_oauth) = (Inr tokens, s1) \<and>
     tokens = mintTokens demo_oauth 5 demo_link \<and> (\<nexists>t s2. oauth_exchange demo_oauth demo_code_request 6 (run_oauth demo_oauth [] s1) = (Inr t, s2))"
proof -
  have g: "xp_grantType demo_code_request = Some ''authorization_code''" by (simp add: demo_code_request_def)
  note sound = auth_code_sound [OF demo_provider demo_code_exchanged g]
  have "\<nexists>t s2. oauth_exchange demo_oauth demo_code_request 6 (run_oauth demo_oauth [] \<lparr>oa_links = [(''link-1'', demo_link)], oa_codes = []\<rparr>) = (Inr t, s2)"
  proof
    assume "\<exists>t s2. oauth_exchange demo_oauth demo_code_request 6 (run_oauth demo_oauth [] \<lparr>oa_links = [(''link-1'', demo_link)], oa_codes = []\<rparr>) = (Inr t, s2)"
    with sound g show False by (metis drawn_codes.simps(1) empty_iff empty_set)
  qed
  with demo_code_exchanged show ?thesis by blast
qed

end
