(* ===== verification/Spec2Isabelle.thy ===== *)
theory Spec2Isabelle
  imports Automation_Engine Keypad_Input Keypad_Mapping Firing_Chain Ids Driver_Binding
    Identity_Sessions Audit_Log Cloud_Audit Cloud_Authz License_Service Cloud_Licensing Integration_Layer
    Security_Panel Intent_Engine Automation_Service Scene_Service Scene_Schedule Passkeys Keypad_Service Keypad_Feedback Driver_Manager
    Hub_Registry Voice_Oauth
begin

text \<open>
  Supreme OS is a smart-home hub with a cloud beside it. This library models its core logic, as the TypeScript sources under
  \<^verbatim>\<open>src/\<close> have it, and proves what makes each part correct. The source keeps its services apart and wires them in the
  gateway; the theories are cut the same way, one or a few for each service, and a theory imports the services that its own calls.

  \<^bold>\<open>Parts and theories\<close>

  \<^item> The shared vocabulary. \<open>Prelude\<close> has the errors of \<^verbatim>\<open>packages/supreme-contracts\<close>, sequenced effects (an awaited call takes a state
    and gives a result or an error, and keeps what it changed before an error), JavaScript \<^verbatim>\<open>Map\<close>s as association lists in insertion order,
    and the string and number operations of the standard library that are used. \<open>Domain_Model\<close>, \<open>Automation_Dsl\<close>, \<open>Condition_Eval\<close> and
    \<open>Ids\<close> are \<^verbatim>\<open>packages/domain-model\<close>: capabilities with their states and commands, automations and keypad mappings as data,
    conditions, and the identifiers of \<^verbatim>\<open>newId\<close>.
  \<^item> Devices. \<open>Device_Backend\<close>, \<open>Mock_Adapter\<close>, \<open>Device_Lifecycle\<close>, \<open>Native_Adapter\<close>, \<open>Driver_Binding\<close>, \<open>Entity_Registry\<close> and
    \<open>Integration_Layer\<close> are \<^verbatim>\<open>services/integration-layer\<close>: what a command does to a state, the in-memory backend, the lifecycle of a
    device, which driver owns it, the binding engine and router in front of the drivers, the registry of backend entities and the facade.
  \<^item> Homes and scenes. \<open>Home_Model\<close>, \<open>Home_Service\<close>, \<open>Home_Reachable\<close> (\<^verbatim>\<open>services/home\<close>), \<open>Scene_Service\<close>, \<open>Scene_Schedule\<close>
    (\<^verbatim>\<open>services/scenes\<close>), \<open>Capability_Index\<close>, \<open>Intent_Registry\<close>, \<open>Intent_Catalog\<close>, \<open>Intent_Engine\<close> (\<^verbatim>\<open>services/intent-engine\<close>).
  \<^item> Automations and keypads. \<open>Run_History\<close>, \<open>Automation_Engine\<close>, \<open>Automation_Service\<close> (\<^verbatim>\<open>services/automations\<close>),
    \<open>Keypad_Input\<close>, \<open>Keypad_Behavior\<close>, \<open>Keypad_Mapping\<close>, \<open>Firing_Chain\<close>, \<open>Keypad_Variables\<close>, \<open>Keypad_Service\<close>,
    \<open>Keypad_Feedback\<close> (\<^verbatim>\<open>services/keypad-framework\<close>): from a press over its timers to an event, from the event to a mapping and its
    actions, and from a device's new state back to the keypad.
  \<^item> People and rights. \<open>Permissions\<close> (\<^verbatim>\<open>services/permissions\<close>), \<open>Password_Policy\<close>, \<open>Tokens\<close>, \<open>Totp\<close>, \<open>Identity_Store\<close>,
    \<open>Identity_Service\<close>, \<open>Identity_Accounts\<close>, \<open>Identity_Sessions\<close>, \<open>Webauthn\<close>, \<open>Passkeys\<close> (\<^verbatim>\<open>services/identity\<close>),
    \<open>Security_Panel\<close> (\<^verbatim>\<open>services/security\<close>) and \<open>Cloud_Authz\<close> (\<^verbatim>\<open>cloud/authz\<close>).
  \<^item> Hubs in the cloud. \<open>Hub_Identity\<close> (\<^verbatim>\<open>packages/hub-identity\<close>): identifiers, signed enrolment requests, credentials and challenges;
    \<open>Hub_Registry\<close> (\<^verbatim>\<open>cloud/hub-registry\<close>): enrolment, claiming and transfer of hubs. \<open>Voice_Oauth\<close>
    (\<^verbatim>\<open>cloud/voice\<close>) is the provider that voice assistants link accounts with.
  \<^item> Drivers and licenses. \<open>Driver_Config\<close>, \<open>Driver_Store\<close>, \<open>Secret_Store\<close>, \<open>Driver_Manager\<close> (\<^verbatim>\<open>services/drivers\<close> and
    \<^verbatim>\<open>drivers/sdk\<close>), \<open>License_Service\<close> (\<^verbatim>\<open>services/license\<close>) and \<open>Cloud_Licensing\<close> (\<^verbatim>\<open>cloud/licensing\<close>).
  \<^item> Records that cannot be altered unseen. \<open>Canonical_Json\<close> (\<^verbatim>\<open>packages/crypto\<close>), \<open>Hash_Chain\<close>, \<open>Audit_Log\<close>
    (\<^verbatim>\<open>services/audit\<close>) and \<open>Cloud_Audit\<close> (\<^verbatim>\<open>cloud/audit\<close>).

  The state of a service is a record of its private fields; a method is a definition of the method's name (with the service's initials in
  front where two services share a name) that takes the arguments, the reading of the clock and the state, in the order of the source's
  awaits and early returns. A method that may throw is an effect of \<open>Prelude\<close>. Executors, subscribers and schema parsers that the gateway
  hands to a service are arguments, as they are in the source.

  \<^bold>\<open>Interfaces\<close>

  Where one part relies on another, the contract is a locale, with the client's lemmas proved inside it and an interpretation on the
  provider's definitions: \<open>device_backend\<close> (what a command leaves in the backend; the in-memory adapter) and \<open>wired_executors\<close> over
  it (the executors that the gateway makes of a backend), \<open>driver_host\<close> (who owns a device; the native adapter), \<open>session_store\<close>
  (the compare-and-swap of refresh tokens; the identity store), \<open>run_history\<close> (the bounded histories of the automation, intent and
  keypad engines), \<open>hash_chain\<close> (the digests of the two audit logs) and \<open>driver_store_laws\<close> (a store of installed drivers; the
  in-memory store is an interpretation, and \<open>encryption_laws\<close> shows that wrapping any such store in encryption keeps the contract).

  \<^bold>\<open>What the lemmas show\<close>

  \<^item> Invariants over every sequence of operations: the engine's history and timers, the accounts of a commissioned home, the stored against the
    running automations and keypad mappings, the entity registry and the capability index against the stored devices, imports of scenes, the
    audit logs, the table of driver secrets.
  \<^item> Safety: what the policy engine allows or refuses follows from the role and the grants in reach of the request, refresh tokens form one chain under concurrent calls, those of voice assistants work once, as authorization codes do, a passkey login needs the holder's signature over a challenge that is taken whether the login succeeds or not,
    lockouts hold, an armed home stays armed without its PIN, commands reach only a device's own driver, firings of one mapping never overlap,
    altered licenses are refused, every installed driver is vouched for by a trusted publisher and a license, a hub's identity stays bound to
    the key that enrolled it first, and who is let in as a hub holds that hub's key.
  \<^item> Codecs: base32, base64, CBOR and canonical JSON round trips, the forms of drivers, the secret envelope, the passkey attestation.
  \<^item> Equivalences and refinements: the input engine against a machine of four phases, dry runs
    against runs, a scene's two ways of activation, feedback against the subscriptions.
  \<^item> Progress and termination: a time schedule fires once a day, the CBOR decoder returns on any bytes, variables settle.
  \<^item> Counterexamples, as theorems: where modelling showed that the code does not do what its comments say, a closed theorem exhibits the case.

  \<^bold>\<open>Bounds, fuel and numbers\<close>

  The only definitions with fuel are those of the CBOR decoder in \<open>Webauthn\<close>. The fuel bounds the nesting; \<open>cbor_decoder_terminates\<close> shows that
  one more than the bytes left is enough, and that more fuel changes nothing. All other recursion is structural or has a measure. The 32-bit operations
  of JavaScript and bytes are machine words; other numbers are integers or rationals, so the rounding of doubles is left out, and where a
  result depends on it the rounded value is an argument. Timestamps are whole milliseconds. Strings are lists of 8-bit characters, as UTF-8
  writes them. \<^verbatim>\<open>localeCompare\<close> is the order of characters for identifiers, and an argument for names that a user reads.

  \<^bold>\<open>What is assumed of code that is not here\<close>

  Digests, signatures, ciphers, Argon2, the JWT and schema libraries, random bytes and the clock are arguments. A property that relies on
  one states what it needs as a hypothesis: that two texts with one digest are equal, that a signature verifies for the text that was signed and no
  other, that what a cipher sealed it opens. Each such property has a witness at a concrete function that satisfies the hypothesis.

  \<^bold>\<open>Not modelled\<close>

  The HTTP routes and the wiring of the gateway beyond what the properties of two services need, the SQL stores behind the interfaces that the
  in-memory stores implement, the protocol drivers (sockets and third-party libraries around codecs), discovery and commissioning, bridges and
  cameras, notifications, analytics and the event bus, heuristics and Python helpers, the remaining cloud services, and the user interfaces. Within
  the modelled services, the pass-throughs of the integration layer to a driver (artwork, traces, discovery) and the authored data of manifests
  and the demonstration home are left out.
\<close>

end
